(* ===== verification/Prelude.thy ===== *)
theory Prelude
  imports Main "HOL-Library.Word" "HOL-Library.Char_ord" "HOL-Library.List_Lexorder"
begin

text \<open>
  Shared vocabulary of the development: saturating machine arithmetic, Rust strings as their
  UTF-8 bytes, Unix paths as component lists, and the iterator functions (\<open>min_by_key\<close>,
  \<open>max_by_key\<close>, first/last substring search) that several components call. All of it models
  the Rust standard library, so nothing here has a source line of its own; the component theories
  map to the program.
\<close>

named_theorems sat_simps \<open>saturating arithmetic\<close>
named_theorems str_simps \<open>string and path evaluation\<close>

section \<open>Saturating arithmetic\<close>

text \<open>
  \<open>u64\<close> and (on the 64-bit targets the program ships for) \<open>usize\<close> counters are naturals
  with the saturation of \<open>saturating_add\<close> written out; \<open>saturating_sub\<close> on unsigned
  values is natural subtraction.
\<close>

definition u64_max :: nat where
  "u64_max = 18446744073709551615"

definition sat_add :: "nat \<Rightarrow> nat \<Rightarrow> nat" where
  "sat_add a b = min u64_max (a + b)"

lemma sat_add_le [sat_simps]: "sat_add a b \<le> a + b"
  by (simp add: sat_add_def)

lemma sat_add_le_max [sat_simps]: "sat_add a b \<le> u64_max"
  by (simp add: sat_add_def)

lemma sat_add_ge: "a \<le> u64_max \<Longrightarrow> a \<le> sat_add a b"
  by (simp add: sat_add_def)

lemma sat_add_1_le: "a < n \<Longrightarrow> sat_add a 1 \<le> n"
  by (simp add: sat_add_def)

lemma sat_add_exact: "a + b \<le> u64_max \<Longrightarrow> sat_add a b = a + b"
  by (simp add: sat_add_def)

section \<open>Iterator helpers\<close>

text \<open>\<open>Iterator::min_by_key\<close> keeps the first of several minimal elements.\<close>

fun min_by_key :: "('a \<Rightarrow> 'b::linorder) \<Rightarrow> 'a list \<Rightarrow> 'a option" where
  "min_by_key f [] = None"
| "min_by_key f (x # xs) =
     (case min_by_key f xs of
        None \<Rightarrow> Some x
      | Some y \<Rightarrow> (if f x \<le> f y then Some x else Some y))"

text \<open>\<open>Iterator::max_by_key\<close> keeps the last of several maximal elements.\<close>

fun max_by_key :: "('a \<Rightarrow> 'b::linorder) \<Rightarrow> 'a list \<Rightarrow> 'a option" where
  "max_by_key f [] = None"
| "max_by_key f (x # xs) =
     (case max_by_key f xs of
        None \<Rightarrow> Some x
      | Some y \<Rightarrow> (if f y < f x then Some x else Some y))"

lemma min_by_key_None [simp]: "min_by_key f xs = None \<longleftrightarrow> xs = []"
  by (cases xs) (auto split: option.splits)

lemma max_by_key_None [simp]: "max_by_key f xs = None \<longleftrightarrow> xs = []"
  by (cases xs) (auto split: option.splits)

lemma min_by_key_in: "min_by_key f xs = Some x \<Longrightarrow> x \<in> set xs"
  by (induction xs arbitrary: x) (auto split: option.splits if_splits)

lemma max_by_key_in: "max_by_key f xs = Some x \<Longrightarrow> x \<in> set xs"
  by (induction xs arbitrary: x) (auto split: option.splits if_splits)

lemma min_by_key_le: "min_by_key f xs = Some x \<Longrightarrow> y \<in> set xs \<Longrightarrow> f x \<le> f y"
proof (induction xs arbitrary: x)
  case (Cons a xs)
  then show ?case
    by (cases "min_by_key f xs") (auto split: if_splits intro: order_trans)
qed simp

lemma max_by_key_ge: "max_by_key f xs = Some x \<Longrightarrow> y \<in> set xs \<Longrightarrow> f y \<le> f x"
proof (induction xs arbitrary: x)
  case (Cons a xs)
  then show ?case
    by (cases "max_by_key f xs") (auto split: if_splits intro: order_trans)
qed simp

text \<open>\<open>Vec::remove\<close> of the first element when a bounded list is over its limit.\<close>

lemma length_tl_le: "length (tl xs) \<le> length xs"
  by simp

text \<open>\<open>sort()\<close> followed by \<open>dedup()\<close>.\<close>

lemma sorted_distinct_remdups_adj:
  fixes xs :: "'a::linorder list"
  shows "sorted xs \<Longrightarrow> distinct (remdups_adj xs)"
  by (induction xs rule: remdups_adj.induct) auto

lemma sort_dedup:
  fixes xs :: "'a::linorder list"
  shows "sorted (remdups_adj (sort xs)) \<and> distinct (remdups_adj (sort xs))"
  by (simp add: sorted_distinct_remdups_adj)

text \<open>\<open>Iterator::find\<close> is the library's \<open>List.find\<close>; \<open>rev().find()\<close> searches backwards.\<close>

lemma find_Some_in: "List.find P xs = Some x \<Longrightarrow> x \<in> set xs \<and> P x"
  by (auto simp: find_Some_iff)

section \<open>Rust strings as UTF-8 bytes\<close>

text \<open>
  A Rust \<open>String\<close> is the list of its UTF-8 bytes (\<open>char\<close> is an 8-bit value in HOL), so
  \<open>len()\<close> is \<open>length\<close>, slicing is \<open>take\<close>/\<open>drop\<close>, and substring search is
  search on bytes. A byte \<open>10xxxxxx\<close> continues a character; an index is a character boundary
  when it is 0, the length, or the index of a byte that does not continue one.
\<close>

definition is_cont :: "char \<Rightarrow> bool" where
  "is_cont c \<longleftrightarrow> 128 \<le> (of_char c :: nat) \<and> (of_char c :: nat) < 192"

definition is_char_boundary :: "string \<Rightarrow> nat \<Rightarrow> bool" where
  "is_char_boundary s i \<longleftrightarrow>
     i = 0 \<or> i = length s \<or> (i < length s \<and> \<not> is_cont (s ! i))"

definition chars_count :: "string \<Rightarrow> nat" where
  "chars_count s = length (filter (\<lambda>c. \<not> is_cont c) s)"

lemma chars_count_le: "chars_count s \<le> length s"
  by (simp add: chars_count_def)

lemma is_char_boundary_0 [simp]: "is_char_boundary s 0"
  by (simp add: is_char_boundary_def)

lemma is_char_boundary_length [simp]: "is_char_boundary s (length s)"
  by (simp add: is_char_boundary_def)

text \<open>The loop \<open>while end > 0 && !text.is_char_boundary(end) { end -= 1 }\<close>.\<close>

fun floor_char_boundary :: "string \<Rightarrow> nat \<Rightarrow> nat" where
  "floor_char_boundary s 0 = 0"
| "floor_char_boundary s (Suc n) =
     (if is_char_boundary s (Suc n) then Suc n else floor_char_boundary s n)"

lemma floor_char_boundary_le: "floor_char_boundary s n \<le> n"
  by (induction n) auto

lemma floor_char_boundary_ok: "is_char_boundary s (floor_char_boundary s n)"
  by (induction n) auto

lemma floor_char_boundary_greatest:
  "m \<le> n \<Longrightarrow> is_char_boundary s m \<Longrightarrow> m \<le> floor_char_boundary s n"
  by (induction n) (auto simp: le_Suc_eq)

text \<open>
  \<open>char::is_whitespace\<close> on the encoded bytes: the number of bytes of the white-space character
  a string starts with (0 when it starts with none), and the same read from the end.
\<close>

fun ws_len :: "nat list \<Rightarrow> nat" where
  "ws_len (a # b # c # _) =
     (if (9 \<le> a \<and> a \<le> 13) \<or> a = 32 then 1
      else if a = 194 \<and> (b = 133 \<or> b = 160) then 2
      else if (a = 225 \<and> b = 154 \<and> c = 128) \<or>
              (a = 226 \<and> b = 128 \<and> ((128 \<le> c \<and> c \<le> 138) \<or> c = 168 \<or> c = 169 \<or> c = 175)) \<or>
              (a = 226 \<and> b = 129 \<and> c = 159) \<or> (a = 227 \<and> b = 128 \<and> c = 128) then 3
      else 0)"
| "ws_len [a, b] =
     (if (9 \<le> a \<and> a \<le> 13) \<or> a = 32 then 1
      else if a = 194 \<and> (b = 133 \<or> b = 160) then 2 else 0)"
| "ws_len [a] = (if (9 \<le> a \<and> a \<le> 13) \<or> a = 32 then 1 else 0)"
| "ws_len [] = 0"

definition ws_prefix_len :: "string \<Rightarrow> nat" where
  "ws_prefix_len s = ws_len (map of_char (take 3 s))"

definition ws_suffix_len :: "string \<Rightarrow> nat" where
  "ws_suffix_len s =
     (let t = map (of_char :: char \<Rightarrow> nat) (drop (length s - 3) s) in
      if ws_len (drop (length t - 1) t) = 1 then 1
      else if 2 \<le> length t \<and> ws_len (drop (length t - 2) t) = 2 then 2
      else if ws_len t = 3 then 3 else 0)"

function (sequential) trim_start :: "string \<Rightarrow> string" where
  "trim_start s = (if s = [] \<or> ws_prefix_len s = 0 then s else trim_start (drop (ws_prefix_len s) s))"
  by pat_completeness auto
termination
  by (relation "measure length") auto

function (sequential) trim_end :: "string \<Rightarrow> string" where
  "trim_end s =
     (if s = [] \<or> ws_suffix_len s = 0 then s
      else trim_end (take (length s - ws_suffix_len s) s))"
  by pat_completeness auto
termination
  by (relation "measure length") auto

declare trim_start.simps [simp del] trim_end.simps [simp del]

definition trim :: "string \<Rightarrow> string" where
  "trim s = trim_end (trim_start s)"

lemma length_trim_start: "length (trim_start s) \<le> length s"
proof (induction s rule: trim_start.induct)
  case (1 s)
  then show ?case
    by (auto simp: trim_start.simps [of s] intro: order_trans)
qed

lemma length_trim_end: "length (trim_end s) \<le> length s"
proof (induction s rule: trim_end.induct)
  case (1 s)
  then show ?case
    by (auto simp: trim_end.simps [of s] intro: order_trans)
qed

lemma length_trim: "length (trim s) \<le> length s"
  unfolding trim_def using length_trim_end length_trim_start by (rule order_trans)

text \<open>\<open>char::is_control\<close>: the code points 0-31, 127 and 128-159, the last encoded as C2 80..9F.\<close>

fun has_control :: "string \<Rightarrow> bool" where
  "has_control [] = False"
| "has_control [c] = ((of_char c :: nat) < 32 \<or> (of_char c :: nat) = 127)"
| "has_control (c # d # s) =
     ((of_char c :: nat) < 32 \<or> (of_char c :: nat) = 127 \<or>
      ((of_char c :: nat) = 194 \<and> 128 \<le> (of_char d :: nat) \<and> (of_char d :: nat) < 160) \<or>
      has_control (d # s))"

text \<open>\<open>str::chars\<close>: each character as the bytes that encode it.\<close>

function chars :: "string \<Rightarrow> string list" where
  "chars [] = []"
| "chars (c # s) = (c # takeWhile is_cont s) # chars (dropWhile is_cont s)"
  by pat_completeness auto
termination
  by (relation "measure length") (auto simp: less_Suc_eq_le length_dropWhile_le)

lemma concat_chars: "concat (chars s) = s"
  by (induction s rule: chars.induct) auto

lemma chars_nonempty: "ch \<in> set (chars s) \<Longrightarrow> ch \<noteq> []"
  by (induction s rule: chars.induct) auto

text \<open>\<open>str::lines\<close>: split at line feeds, a carriage return before one dropped.\<close>

fun lines_from :: "string \<Rightarrow> string \<Rightarrow> string list" where
  "lines_from acc [] = (if acc = [] then [] else [rev acc])"
| "lines_from acc (c # s) =
     (if c = CHR 0x0A
      then rev (case acc of [] \<Rightarrow> [] | a # as \<Rightarrow> if a = CHR 0x0D then as else acc) # lines_from [] s
      else lines_from (c # acc) s)"

definition str_lines :: "string \<Rightarrow> string list" where
  "str_lines s = lines_from [] s"

text \<open>ASCII classes of \<open>u8\<close>.\<close>

definition is_ascii_digit :: "char \<Rightarrow> bool" where
  "is_ascii_digit c \<longleftrightarrow> 48 \<le> (of_char c :: nat) \<and> (of_char c :: nat) \<le> 57"

definition is_ascii_lowercase :: "char \<Rightarrow> bool" where
  "is_ascii_lowercase c \<longleftrightarrow> 97 \<le> (of_char c :: nat) \<and> (of_char c :: nat) \<le> 122"

definition is_ascii_uppercase :: "char \<Rightarrow> bool" where
  "is_ascii_uppercase c \<longleftrightarrow> 65 \<le> (of_char c :: nat) \<and> (of_char c :: nat) \<le> 90"

definition is_ascii_alphanumeric :: "char \<Rightarrow> bool" where
  "is_ascii_alphanumeric c \<longleftrightarrow>
     is_ascii_digit c \<or> is_ascii_lowercase c \<or> is_ascii_uppercase c"

lemmas ascii_defs = is_ascii_alphanumeric_def is_ascii_digit_def is_ascii_lowercase_def
  is_ascii_uppercase_def

text \<open>\<open>str::starts_with(char)\<close> and \<open>[..].join(sep)\<close>.\<close>

definition head_in :: "string \<Rightarrow> string \<Rightarrow> bool" where
  "head_in cs s \<longleftrightarrow> s \<noteq> [] \<and> hd s \<in> set cs"

fun join :: "string \<Rightarrow> string list \<Rightarrow> string" where
  "join sep [] = []"
| "join sep [x] = x"
| "join sep (x # y # xs) = x @ sep @ join sep (y # xs)"

lemma head_in_join: "head_in cs (join sep (x # xs)) \<Longrightarrow> x \<noteq> [] \<Longrightarrow> head_in cs x"
  by (cases xs) (auto simp: head_in_def)

section \<open>Formatting integers\<close>

text \<open>The digits \<open>format!("{}")\<close> and \<open>format!("{:x}")\<close> print, and the value they denote.\<close>

definition digit_char :: "nat \<Rightarrow> char" where
  "digit_char d = (if d < 10 then char_of (48 + d) else char_of (87 + d))"

definition digit_value :: "char \<Rightarrow> nat" where
  "digit_value c = (if (of_char c :: nat) < 58 then of_char c - 48 else of_char c - 87)"

function (sequential) to_radix :: "nat \<Rightarrow> nat \<Rightarrow> string" where
  "to_radix b n =
     (if n < b \<or> b < 2 then [digit_char n] else to_radix b (n div b) @ [digit_char (n mod b)])"
  by pat_completeness auto
termination
  by (relation "measure snd") auto

declare to_radix.simps [simp del]

definition from_radix :: "nat \<Rightarrow> string \<Rightarrow> nat" where
  "from_radix b s = foldl (\<lambda>acc c. acc * b + digit_value c) 0 s"

abbreviation dec :: "nat \<Rightarrow> string" where "dec \<equiv> to_radix 10"
abbreviation hex :: "nat \<Rightarrow> string" where "hex \<equiv> to_radix 16"

lemma digit_value_char: "d < 16 \<Longrightarrow> digit_value (digit_char d) = d"
  by (simp add: digit_value_def digit_char_def)

lemma from_radix_snoc: "from_radix b (s @ [c]) = from_radix b s * b + digit_value c"
  by (simp add: from_radix_def)

lemma from_to_radix: "2 \<le> b \<Longrightarrow> b \<le> 16 \<Longrightarrow> from_radix b (to_radix b n) = n"
proof (induction b n rule: to_radix.induct)
  case (1 b n)
  show ?case
  proof (cases "n < b")
    case True
    with 1 show ?thesis
      by (simp add: to_radix.simps [of b n] from_radix_def digit_value_char)
  next
    case False
    with 1 have "from_radix b (to_radix b (n div b)) = n div b" by simp
    moreover have "digit_value (digit_char (n mod b)) = n mod b"
      using 1(2,3) mod_less_divisor [of b n] by (intro digit_value_char) linarith
    ultimately show ?thesis
      using 1(2) False by (simp add: to_radix.simps [of b n] from_radix_snoc)
  qed
qed

lemma hex_inject: "hex m = hex n \<longleftrightarrow> m = n"
  using from_to_radix [of 16] by (metis le_refl numeral_le_iff semiring_norm(68,71,72) one_le_numeral)

lemma to_radix_nonempty: "to_radix b n \<noteq> []"
  by (simp add: to_radix.simps [of b n])

text \<open>Every digit of a number in a radix up to 16 is a digit or a lower-case letter.\<close>

lemma digit_char_class:
  "d < 16 \<Longrightarrow> is_ascii_digit (digit_char d) \<or> is_ascii_lowercase (digit_char d)"
  by (auto simp: digit_char_def ascii_defs)

lemma to_radix_digits:
  "c \<in> set (to_radix b n) \<Longrightarrow> 2 \<le> b \<Longrightarrow> b \<le> 16 \<Longrightarrow> is_ascii_digit c \<or> is_ascii_lowercase c"
proof (induction b n rule: to_radix.induct)
  case (1 b n)
  then have "n mod b < 16"
    using mod_less_divisor [of b n] by linarith
  with 1 show ?case
    using digit_char_class [of n] digit_char_class [of "n mod b"]
    by (auto simp: to_radix.simps [of b n] split: if_splits)
qed

lemma length_to_radix: "2 \<le> b \<Longrightarrow> n < b ^ k \<Longrightarrow> 0 < k \<Longrightarrow> length (to_radix b n) \<le> k"
proof (induction k arbitrary: n)
  case (Suc k)
  show ?case
  proof (cases "n < b \<or> k = 0")
    case True
    with Suc.prems show ?thesis by (auto simp: to_radix.simps [of b n])
  next
    case False
    with Suc.prems have "n div b < b ^ k"
      by (simp add: less_mult_imp_div_less mult.commute)
    with Suc False show ?thesis by (simp add: to_radix.simps [of b n])
  qed
qed simp

section \<open>Unix paths\<close>

text \<open>
  \<open>Path::components\<close> on Unix: a leading slash is \<open>RootDir\<close>, empty parts vanish, a dot is
  kept only as the first part of a relative path, two dots are \<open>ParentDir\<close>.
\<close>

datatype component = RootDir | CurDir | ParentDir | Normal string

fun split_slash :: "string \<Rightarrow> string list" where
  "split_slash [] = [[]]"
| "split_slash (c # s) =
     (if c = CHR ''/'' then [] # split_slash s
      else (case split_slash s of [] \<Rightarrow> [[c]] | p # ps \<Rightarrow> (c # p) # ps))"

definition path_part :: "string \<Rightarrow> component" where
  "path_part p = (if p = ''..'' then ParentDir else Normal p)"

definition is_absolute :: "string \<Rightarrow> bool" where
  "is_absolute s \<longleftrightarrow> s \<noteq> [] \<and> hd s = CHR ''/''"

definition components :: "string \<Rightarrow> component list" where
  "components s =
     (let parts = filter (\<lambda>p. p \<noteq> []) (split_slash s);
          keep = map path_part (filter (\<lambda>p. p \<noteq> ''.'') parts)
      in if is_absolute s then RootDir # keep
         else if parts \<noteq> [] \<and> hd parts = ''.'' then CurDir # keep
         else keep)"

lemma split_slash_no_slash: "p \<in> set (split_slash s) \<Longrightarrow> CHR ''/'' \<notin> set p"
  by (induction s arbitrary: p) (auto split: list.splits if_splits)

text \<open>A \<open>PathBuf\<close> built by pushing normal components is the list of their names.\<close>

type_synonym rel_path = "string list"

definition plain_name :: "string \<Rightarrow> bool" where
  "plain_name n \<longleftrightarrow> n \<noteq> [] \<and> n \<noteq> ''.'' \<and> n \<noteq> ''..'' \<and> CHR ''/'' \<notin> set n"

lemma components_plain: "Normal n \<in> set (components s) \<Longrightarrow> plain_name n"
  by (auto simp: components_def plain_name_def path_part_def Let_def
      dest: split_slash_no_slash split: if_splits)

text \<open>\<open>Path::strip_prefix(..).is_ok()\<close> on such paths is the prefix order on the names.\<close>

fun starts_with :: "'a list \<Rightarrow> 'a list \<Rightarrow> bool" where
  "starts_with xs [] = True"
| "starts_with [] (y # ys) = False"
| "starts_with (x # xs) (y # ys) = (x = y \<and> starts_with xs ys)"

lemma starts_with_iff: "starts_with xs ys \<longleftrightarrow> (\<exists>zs. xs = ys @ zs)"
  by (induction xs ys rule: starts_with.induct) auto

text \<open>A separator that does not occur before its first position splits a text in one way.\<close>

lemma sep_inject:
  assumes "xs @ x # ys = xs' @ x # ys'" and "x \<notin> set xs" and "x \<notin> set xs'"
  shows "xs = xs' \<and> ys = ys'"
proof -
  have "takeWhile (\<lambda>c. c \<noteq> x) (zs @ x # us) = zs" if "x \<notin> set zs" for zs us
    using that by (induction zs) auto
  with assms have "xs = xs'" by metis
  with assms(1) show ?thesis by simp
qed

lemma dec_no_nul: "CHR 0x00 \<notin> set (dec n)"
  using to_radix_digits [of "CHR 0x00" 10 n] by (auto simp: ascii_defs)

lemma dec_inject: "dec m = dec n \<longleftrightarrow> m = n"
proof -
  have "from_radix 10 (dec k) = k" for k by (rule from_to_radix) simp_all
  then show ?thesis by metis
qed

section \<open>Substring search\<close>

text \<open>\<open>str::find\<close> and \<open>str::rfind\<close> with a string pattern: first and last byte offset.\<close>

fun str_find :: "string \<Rightarrow> string \<Rightarrow> nat option" where
  "str_find [] pat = (if pat = [] then Some 0 else None)"
| "str_find (c # s) pat =
     (if starts_with (c # s) pat then Some 0 else map_option Suc (str_find s pat))"

fun str_rfind :: "string \<Rightarrow> string \<Rightarrow> nat option" where
  "str_rfind [] pat = (if pat = [] then Some 0 else None)"
| "str_rfind (c # s) pat =
     (case str_rfind s pat of
        Some i \<Rightarrow> Some (Suc i)
      | None \<Rightarrow> (if starts_with (c # s) pat then Some 0 else None))"

definition occurs_at :: "string \<Rightarrow> string \<Rightarrow> nat \<Rightarrow> bool" where
  "occurs_at s pat i \<longleftrightarrow> i \<le> length s \<and> starts_with (drop i s) pat"

lemma occurs_at_take: "occurs_at s pat i \<Longrightarrow> take (length pat) (drop i s) = pat"
  by (auto simp: occurs_at_def starts_with_iff)

lemma occurs_at_bound: "occurs_at s pat i \<Longrightarrow> i + length pat \<le> length s"
  by (auto simp: occurs_at_def starts_with_iff dest!: arg_cong [where f = length])

lemma str_find_occurs: "str_find s pat = Some i \<Longrightarrow> occurs_at s pat i"
  by (induction s arbitrary: i) (auto simp: occurs_at_def split: if_splits)

lemma str_find_least: "str_find s pat = Some i \<Longrightarrow> occurs_at s pat j \<Longrightarrow> i \<le> j"
proof (induction s arbitrary: i j)
  case (Cons c s)
  show ?case
  proof (cases j)
    case 0
    with Cons.prems show ?thesis by (auto simp: occurs_at_def split: if_splits)
  next
    case (Suc k)
    with Cons.prems have "occurs_at s pat k" by (simp add: occurs_at_def)
    with Cons show ?thesis using Suc by (auto split: if_splits)
  qed
qed (auto simp: occurs_at_def split: if_splits)

lemma str_find_None: "str_find s pat = None \<Longrightarrow> \<not> occurs_at s pat j"
proof (induction s arbitrary: j)
  case Nil
  then show ?case by (cases pat) (auto simp: occurs_at_def split: if_splits)
next
  case (Cons c s)
  then show ?case by (cases j) (auto simp: occurs_at_def split: if_splits)
qed

lemma str_rfind_None: "str_rfind s pat = None \<Longrightarrow> \<not> occurs_at s pat j"
proof (induction s arbitrary: j)
  case Nil
  then show ?case by (cases pat) (auto simp: occurs_at_def split: if_splits)
next
  case (Cons c s)
  then show ?case by (cases j) (auto simp: occurs_at_def split: if_splits option.splits)
qed

lemma str_rfind_greatest: "str_rfind s pat = Some i \<Longrightarrow> occurs_at s pat j \<Longrightarrow> j \<le> i"
proof (induction s arbitrary: i j)
  case (Cons c s)
  show ?case
  proof (cases j)
    case (Suc k)
    with Cons.prems have k: "occurs_at s pat k" by (simp add: occurs_at_def)
    then obtain i' where "str_rfind s pat = Some i'"
      using str_rfind_None by (cases "str_rfind s pat") auto
    with Cons k show ?thesis using Suc by auto
  qed simp
qed (auto simp: occurs_at_def split: if_splits)

text \<open>A pattern whose first and last occurrence coincide occurs exactly once.\<close>

lemma find_rfind_unique:
  assumes "str_find s pat = Some i" and "str_rfind s pat = Some i"
  shows "occurs_at s pat j \<longleftrightarrow> j = i"
  using assms str_find_occurs str_find_least str_rfind_greatest le_antisym by metis

end
