(* ===== verification/Gate_Types.thy ===== *)
theory Gate_Types
  imports Prelude
begin

text \<open>
  The data of the validation domain (\<open>gate/types.rs\<close>, \<open>gate/profile.rs\<close>,
  \<open>gate/selection.rs\<close>): statuses and the authority each grants, Cargo targets, the typed
  validation options and the command a target runs. Constructors of \<open>GateTargetId\<close> carry the
  prefix \<open>T\<close>, those of \<open>GateStatus\<close> the prefix \<open>G\<close>, to keep them apart from the work
  executor's gates.
\<close>

section \<open>Statuses and authority\<close>

datatype gate_status =
  GFastPass | GFullPass | GFail | GPending | GTimeout | GStale | GSuperseded | GCancelled
  | GUnavailable | GInconclusive | GResourceBlocked

datatype gate_authority = AuthorityNone | AuthorityFast | AuthorityFull

datatype gate_mode = ModeFast | ModeFull

datatype gate_detail = DetailCompact | DetailStandard | DetailFull

fun gate_status_as_str :: "gate_status \<Rightarrow> string" where
  "gate_status_as_str GFastPass = ''FAST_PASS''"
| "gate_status_as_str GFullPass = ''FULL_PASS''"
| "gate_status_as_str GFail = ''FAIL''"
| "gate_status_as_str GPending = ''PENDING''"
| "gate_status_as_str GTimeout = ''TIMEOUT''"
| "gate_status_as_str GStale = ''STALE''"
| "gate_status_as_str GSuperseded = ''SUPERSEDED''"
| "gate_status_as_str GCancelled = ''CANCELLED''"
| "gate_status_as_str GUnavailable = ''UNAVAILABLE''"
| "gate_status_as_str GInconclusive = ''INCONCLUSIVE''"
| "gate_status_as_str GResourceBlocked = ''RESOURCE_BLOCKED''"

definition gate_status_authority :: "gate_status \<Rightarrow> gate_authority" where
  "gate_status_authority s =
     (case s of GFullPass \<Rightarrow> AuthorityFull | GFastPass \<Rightarrow> AuthorityFast | _ \<Rightarrow> AuthorityNone)"

definition gate_status_is_terminal :: "gate_status \<Rightarrow> bool" where
  "gate_status_is_terminal s \<longleftrightarrow> s \<noteq> GPending"

section \<open>Targets\<close>

datatype gate_target_id = TCheck | TBuild | TClippy | TTest | TDoc | TFmt | TAll

fun gate_target_as_str :: "gate_target_id \<Rightarrow> string" where
  "gate_target_as_str TCheck = ''check''"
| "gate_target_as_str TBuild = ''build''"
| "gate_target_as_str TClippy = ''clippy''"
| "gate_target_as_str TTest = ''test''"
| "gate_target_as_str TDoc = ''doc''"
| "gate_target_as_str TFmt = ''fmt''"
| "gate_target_as_str TAll = ''all''"

definition gate_target_mode :: "gate_target_id \<Rightarrow> gate_mode" where
  "gate_target_mode t = (if t = TAll then ModeFull else ModeFast)"

text \<open>\<open>timeout\<close> is in seconds; arguments are byte strings.\<close>

record gate_target =
  gt_id :: gate_target_id
  gt_label :: string
  gt_args :: "string list"
  gt_timeout :: nat

definition command_string :: "string \<Rightarrow> gate_target \<Rightarrow> string" where
  "command_string cargo t = join '' '' (cargo # gt_args t)"

datatype gate_scope_strategy = ScopeWorkspace | ScopeAffected | ScopeShadow | ScopeExplicit

record gate_scope =
  scope_strategy :: gate_scope_strategy
  scope_packages :: "string list"
  scope_package_ids :: "string list"
  scope_changed_paths :: "string list"
  scope_widened_because :: "string list"

definition gate_scope_workspace :: "string list \<Rightarrow> string \<Rightarrow> gate_scope" where
  "gate_scope_workspace changed_paths reason =
     \<lparr>scope_strategy = ScopeWorkspace, scope_packages = [], scope_package_ids = [],
      scope_changed_paths = changed_paths, scope_widened_because = [reason]\<rparr>"

section \<open>Typed validation options\<close>

datatype test_runner = RunnerCargo | RunnerNextest

datatype cargo_target_selection =
  SelectLib | SelectBin string | SelectTest string | SelectExample string | SelectBench string

record validation_options =
  packages :: "string list"
  cargo_target :: "cargo_target_selection option"
  features :: "string list"
  all_features :: bool
  no_default_features :: bool
  target_triple :: "string option"
  test_filter :: "string option"
  runner :: test_runner
  sccache :: bool
  context_evidence :: bool

definition default_validation_options :: validation_options where
  "default_validation_options =
     \<lparr>packages = [], cargo_target = None, features = [], all_features = False,
      no_default_features = False, target_triple = None, test_filter = None,
      runner = RunnerCargo, sccache = False, context_evidence = False\<rparr>"

section \<open>Toolchain names\<close>

text \<open>The single message of \<open>validate_toolchain_name\<close>.\<close>

datatype toolchain_error = ToolchainNotBounded

fun split_dash :: "string \<Rightarrow> string list" where
  "split_dash [] = [[]]"
| "split_dash (c # s) =
     (if c = CHR ''-'' then [] # split_dash s
      else (case split_dash s of [] \<Rightarrow> [[c]] | p # ps \<Rightarrow> (c # p) # ps))"

definition validate_toolchain_name :: "string \<Rightarrow> toolchain_error + unit" where
  "validate_toolchain_name toolchain =
     (if toolchain = [] \<or> 96 < length toolchain \<or> head_in ''-'' toolchain \<or>
         \<not> list_all (\<lambda>b. is_ascii_alphanumeric b \<or> b \<in> set ''_-.'') toolchain
      then Inl ToolchainNotBounded
      else if list_ex (\<lambda>segment. segment \<noteq> [] \<and> list_all (\<lambda>c. c = CHR ''.'') segment)
                (split_dash toolchain)
      then Inl ToolchainNotBounded
      else Inr ())"

lemma split_dash_no_dash: "CHR ''-'' \<notin> set s \<Longrightarrow> split_dash s = [s]"
  by (induction s) auto

text \<open>
  The accepted name is joined into \<open>toolchains/<name>/bin/cargo\<close>: it is one plain path
  component, so it can neither traverse upwards nor alias another directory.
\<close>

lemma validate_toolchain_plain:
  assumes "validate_toolchain_name t = Inr ()"
  shows "plain_name t" and "length t \<le> 96"
proof -
  from assms have t: "t \<noteq> []" "length t \<le> 96" "\<not> head_in ''-'' t"
    and chars: "list_all (\<lambda>b. is_ascii_alphanumeric b \<or> b \<in> set ''_-.'') t"
    and segs: "\<not> list_ex (\<lambda>segment. segment \<noteq> [] \<and> list_all (\<lambda>c. c = CHR ''.'') segment)
                (split_dash t)"
    by (auto simp: validate_toolchain_name_def split: if_splits)
  have "CHR ''/'' \<notin> set t"
    using chars by (auto simp: list_all_iff ascii_defs)
  moreover have "t \<noteq> ''.''" and "t \<noteq> ''..''"
    using segs by auto
  ultimately show "plain_name t" using t by (simp add: plain_name_def)
  from t show "length t \<le> 96" by simp
qed

end
