(* ===== verification/Gate_Command.thy ===== *)
theory Gate_Command
  imports Gate_Types "HOL-Library.Sublist"
begin

text \<open>
  From typed options to Cargo command lines: \<open>gate/selection.rs\<close> (exact package and target
  selection), \<open>gate/profile.rs\<close> (\<open>ValidationOptions::validate\<close> and \<open>apply\<close>) and
  \<open>gate/targets.rs\<close> (the command of each stage and the fixed order of the full gate).
  The lemmas show that validated options can neither inject a flag nor move anything behind the
  \<open>--\<close> separator, and that selection resolves to workspace members only.
  Cargo metadata comes from a third-party crate: the records below hold the fields the code reads.
\<close>

section \<open>The fields of Cargo metadata that the gate reads\<close>

datatype target_kind =
  KindBench | KindBin | KindCustomBuild | KindCDyLib | KindDyLib | KindExample | KindLib
  | KindProcMacro | KindRLib | KindStaticLib | KindTest | KindUnknown string

record meta_target =
  mt_name :: string
  mt_kind :: "target_kind list"
  mt_doctest :: bool

record meta_package =
  mp_id :: string
  mp_name :: string
  mp_targets :: "meta_target list"

record meta_snapshot =
  ms_packages :: "meta_package list"
  ms_workspace_members :: "string list"

section \<open>Selection (gate/selection.rs)\<close>

fun flag_and_name :: "cargo_target_selection \<Rightarrow> string \<times> string option" where
  "flag_and_name SelectLib = (''--lib'', None)"
| "flag_and_name (SelectBin name) = (''--bin'', Some name)"
| "flag_and_name (SelectTest name) = (''--test'', Some name)"
| "flag_and_name (SelectExample name) = (''--example'', Some name)"
| "flag_and_name (SelectBench name) = (''--bench'', Some name)"

text \<open>\<open>args.iter().position(|a| a == "--").unwrap_or(args.len())\<close> and \<open>splice(i..i, new)\<close>.\<close>

definition separator_index :: "string list \<Rightarrow> nat" where
  "separator_index args = length (takeWhile (\<lambda>a. a \<noteq> ''--'') args)"

definition splice_at :: "nat \<Rightarrow> 'a list \<Rightarrow> 'a list \<Rightarrow> 'a list" where
  "splice_at i new xs = take i xs @ new @ drop i xs"

definition selection_apply :: "cargo_target_selection \<Rightarrow> gate_target \<Rightarrow> gate_target" where
  "selection_apply sel t =
     (let args = filter (\<lambda>a. a \<noteq> ''--all-targets'') (gt_args t);
          (flag, name) = flag_and_name sel;
          args' = splice_at (separator_index args)
                    (flag # (case name of None \<Rightarrow> [] | Some n \<Rightarrow> [n])) args;
          t' = t\<lparr>gt_args := args'\<rparr>
      in if gt_id t = TTest then t'\<lparr>gt_label := ''cargo test (selected target)''\<rparr> else t')"

fun selection_matches :: "cargo_target_selection \<Rightarrow> meta_target \<Rightarrow> bool" where
  "selection_matches SelectLib target =
     list_ex (\<lambda>k. k \<in> {KindLib, KindRLib, KindDyLib, KindCDyLib, KindStaticLib, KindProcMacro})
       (mt_kind target)"
| "selection_matches (SelectBin n) target = (n = mt_name target \<and> KindBin \<in> set (mt_kind target))"
| "selection_matches (SelectTest n) target = (n = mt_name target \<and> KindTest \<in> set (mt_kind target))"
| "selection_matches (SelectExample n) target =
     (n = mt_name target \<and> KindExample \<in> set (mt_kind target))"
| "selection_matches (SelectBench n) target =
     (n = mt_name target \<and> KindBench \<in> set (mt_kind target))"

text \<open>
  \<open>char::is_alphanumeric\<close> is exact on ASCII; on other characters it is a table of the Unicode
  standard, the parameter \<open>uni\<close>.
\<close>

definition is_alphanumeric :: "(string \<Rightarrow> bool) \<Rightarrow> string \<Rightarrow> bool" where
  "is_alphanumeric uni ch =
     (case ch of [c] \<Rightarrow> if (of_char c :: nat) < 128 then is_ascii_alphanumeric c else uni ch
      | _ \<Rightarrow> uni ch)"

definition exact_name :: "(string \<Rightarrow> bool) \<Rightarrow> string \<Rightarrow> bool" where
  "exact_name uni name \<longleftrightarrow>
     name \<noteq> [] \<and> length name \<le> 128 \<and> \<not> head_in ''-.'' name \<and>
     list_all (\<lambda>ch. is_alphanumeric uni ch \<or> ch = ''_'' \<or> ch = ''-'') (chars name)"

datatype selection_error =
  PackagesNotExact | SelectionCannotNarrow | CargoTargetNeedsPackages | CargoTargetWrongStage
  | CargoTargetNameNotExact

definition selection_validate ::
  "(string \<Rightarrow> bool) \<Rightarrow> validation_options \<Rightarrow> gate_target_id \<Rightarrow> selection_error + unit" where
  "selection_validate uni options target =
     (if 64 < length (packages options) \<or> list_ex (\<lambda>n. \<not> exact_name uni n) (packages options)
      then Inl PackagesNotExact
      else if (packages options \<noteq> [] \<or> cargo_target options \<noteq> None) \<and> target \<in> {TAll, TFmt}
      then Inl SelectionCannotNarrow
      else case cargo_target options of
        None \<Rightarrow> Inr ()
      | Some selected \<Rightarrow>
          if packages options = [] then Inl CargoTargetNeedsPackages
          else if target \<notin> {TCheck, TBuild, TClippy, TTest} then Inl CargoTargetWrongStage
          else if (case snd (flag_and_name selected) of
                     None \<Rightarrow> False | Some name \<Rightarrow> \<not> exact_name uni name)
          then Inl CargoTargetNameNotExact
          else Inr ())"

datatype resolve_error = NotAWorkspaceMember string | NoSuchCargoTarget string

text \<open>The loop of \<open>resolve\<close> over the sorted, deduplicated names.\<close>

fun resolve_packages ::
  "meta_snapshot \<Rightarrow> cargo_target_selection option \<Rightarrow> string list \<Rightarrow> resolve_error + string list" where
  "resolve_packages snap sel [] = Inr []"
| "resolve_packages snap sel (name # names) =
     (case List.find (\<lambda>p. mp_name p = name \<and> mp_id p \<in> set (ms_workspace_members snap))
             (ms_packages snap) of
        None \<Rightarrow> Inl (NotAWorkspaceMember name)
      | Some p \<Rightarrow>
          if (case sel of None \<Rightarrow> False
              | Some target \<Rightarrow> \<not> list_ex (selection_matches target) (mp_targets p))
          then Inl (NoSuchCargoTarget name)
          else (case resolve_packages snap sel names of
                  Inl e \<Rightarrow> Inl e
                | Inr ids \<Rightarrow> Inr (mp_id p # ids)))"

definition selection_resolve ::
  "meta_snapshot \<Rightarrow> validation_options \<Rightarrow> resolve_error + (gate_scope \<times> string list) option" where
  "selection_resolve snap options =
     (if packages options = [] then Inr None
      else (let pkgs = remdups_adj (sort (packages options)) in
        case resolve_packages snap (cargo_target options) pkgs of
          Inl e \<Rightarrow> Inl e
        | Inr ids \<Rightarrow>
            Inr (Some (\<lparr>scope_strategy = ScopeExplicit, scope_packages = pkgs,
                        scope_package_ids = ids, scope_changed_paths = [],
                        scope_widened_because = []\<rparr>,
                       concat (map (\<lambda>name. [''-p'', name]) pkgs)))))"

section \<open>Option validation and application (gate/profile.rs)\<close>

definition has_build_selection :: "validation_options \<Rightarrow> bool" where
  "has_build_selection o' \<longleftrightarrow>
     packages o' \<noteq> [] \<or> cargo_target o' \<noteq> None \<or> all_features o' \<or> no_default_features o' \<or>
     features o' \<noteq> [] \<or> target_triple o' \<noteq> None"

datatype options_error =
  SelectionError selection_error | FeaturesInvalid | AllFeaturesCombined | TargetTripleInvalid
  | TestFilterInvalid | NextestNeedsTest | FmtTakesNoOptions

definition feature_ok :: "string \<Rightarrow> bool" where
  "feature_ok f \<longleftrightarrow>
     \<not> (f = [] \<or> 128 < length f \<or> head_in ''-.'' f \<or>
        \<not> list_all (\<lambda>b. is_ascii_alphanumeric b \<or> b \<in> set ''_-/+.'') f)"

definition triple_ok :: "string \<Rightarrow> bool" where
  "triple_ok t \<longleftrightarrow>
     \<not> (t = [] \<or> 128 < length t \<or> head_in ''-'' t \<or>
        \<not> list_all (\<lambda>b. is_ascii_alphanumeric b \<or> b \<in> set ''_-'') t)"

definition options_validate ::
  "(string \<Rightarrow> bool) \<Rightarrow> validation_options \<Rightarrow> gate_target_id \<Rightarrow> options_error + unit" where
  "options_validate uni o' target =
     (case selection_validate uni o' target of
        Inl e \<Rightarrow> Inl (SelectionError e)
      | Inr _ \<Rightarrow>
          if 64 < length (features o') \<or> list_ex (\<lambda>f. \<not> feature_ok f) (features o')
          then Inl FeaturesInvalid
          else if all_features o' \<and> features o' \<noteq> [] then Inl AllFeaturesCombined
          else if (case target_triple o' of None \<Rightarrow> False | Some t \<Rightarrow> \<not> triple_ok t)
          then Inl TargetTripleInvalid
          else if (case test_filter o' of None \<Rightarrow> False
                   | Some f \<Rightarrow> target \<noteq> TTest \<or> f = [] \<or> 256 < length f \<or> head_in ''-'' f \<or>
                       has_control f)
          then Inl TestFilterInvalid
          else if runner o' = RunnerNextest \<and> target \<notin> {TTest, TAll} then Inl NextestNeedsTest
          else if target = TFmt \<and> (has_build_selection o' \<or> sccache o') then Inl FmtTakesNoOptions
          else Inr ())"

definition option_flags :: "validation_options \<Rightarrow> string list" where
  "option_flags o' =
     (if all_features o' then [''--all-features''] else []) @
     (if no_default_features o' then [''--no-default-features''] else []) @
     (if features o' \<noteq> []
      then [''--features'', join '','' (remdups_adj (sort (features o')))] else []) @
     (case target_triple o' of None \<Rightarrow> [] | Some t \<Rightarrow> [''--target'', t])"

text \<open>
  \<open>target.args[0] = "nextest"\<close> panics on an empty argument list; the argument lists of
  \<open>target_for\<close> are never empty, and the model keeps the panic as \<open>None\<close>.
\<close>

definition nextest_args :: "string list \<Rightarrow> string list option" where
  "nextest_args args =
     (case args of [] \<Rightarrow> None
      | _ # rest \<Rightarrow>
          Some (map (\<lambda>a. if a = ''--message-format=json'' then ''--cargo-message-format=json'' else a)
                  (''nextest'' # ''run'' # rest) @ [''--no-tests=fail'']))"

definition options_apply :: "validation_options \<Rightarrow> gate_target \<Rightarrow> gate_target option" where
  "options_apply o' t0 =
     (if gt_id t0 = TFmt then Some t0
      else
        let t1 = (case cargo_target o' of None \<Rightarrow> t0 | Some sel \<Rightarrow> selection_apply sel t0);
            t2 = t1\<lparr>gt_args := splice_at (separator_index (gt_args t1)) (option_flags o') (gt_args t1)\<rparr>
        in if gt_id t2 \<noteq> TTest then Some t2
           else
             let filter_arg = (case test_filter o' of None \<Rightarrow> [] | Some f \<Rightarrow> [f]) in
             if runner o' = RunnerNextest
             then (case nextest_args (gt_args t2) of
                     None \<Rightarrow> None
                   | Some args \<Rightarrow>
                       Some (t2\<lparr>gt_args := args @ filter_arg, gt_label := ''cargo nextest run''\<rparr>))
             else Some (t2\<lparr>gt_args := gt_args t2 @ filter_arg\<rparr>))"

section \<open>Stage commands (gate/targets.rs)\<close>

definition FULL_ORDER :: "gate_target_id list" where
  "FULL_ORDER = [TFmt, TClippy, TTest, TDoc]"

definition manifest_path_from_args :: "string list \<Rightarrow> string" where
  "manifest_path_from_args args =
     (case List.find (\<lambda>w. fst w = ''--manifest-path'') (zip args (tl args)) of
        None \<Rightarrow> ''Cargo.toml'' | Some w \<Rightarrow> snd w)"

text \<open>\<open>read\<close> is \<open>fs::read_to_string\<close>: \<open>None\<close> when the file cannot be read.\<close>

definition is_virtual_workspace :: "(string \<Rightarrow> string option) \<Rightarrow> string \<Rightarrow> bool" where
  "is_virtual_workspace read path =
     (case read path of
        None \<Rightarrow> False
      | Some manifest \<Rightarrow>
          list_ex (\<lambda>l. starts_with (trim_start l) ''[workspace]'') (str_lines manifest) \<and>
          \<not> list_ex (\<lambda>l. starts_with (trim_start l) ''[package]'') (str_lines manifest))"

fun base_args :: "(string \<Rightarrow> string option) \<Rightarrow> gate_target_id \<Rightarrow> string \<Rightarrow> bool \<Rightarrow> string list" where
  "base_args read TCheck manifest full =
     [''check'', ''--manifest-path'', manifest, ''--locked'', ''--message-format=json'']"
| "base_args read TBuild manifest full =
     [''build'', ''--manifest-path'', manifest, ''--locked'', ''--message-format=json'']"
| "base_args read TClippy manifest full =
     [''clippy'', ''--manifest-path'', manifest, ''--locked'', ''--all-targets'',
      ''--message-format=json'', ''--'', ''-D'', ''warnings'']"
| "base_args read TTest manifest full =
     [''test'', ''--manifest-path'', manifest, ''--locked'', ''--all-targets'',
      ''--message-format=json'']"
| "base_args read TDoc manifest full =
     [''test'', ''--manifest-path'', manifest, ''--doc'', ''--locked'', ''--message-format=json'']"
| "base_args read TFmt manifest full =
     [''fmt'', ''--manifest-path'', manifest] @
     (if full \<or> is_virtual_workspace read
           (manifest_path_from_args [''fmt'', ''--manifest-path'', manifest])
      then [''--all''] else []) @ [''--check'']"
| "base_args read TAll manifest full = []"

fun label_and_timeout :: "gate_target_id \<Rightarrow> string \<times> nat" where
  "label_and_timeout TCheck = (''cargo check'', 180)"
| "label_and_timeout TBuild = (''cargo build'', 300)"
| "label_and_timeout TClippy = (''cargo clippy (warnings as errors)'', 240)"
| "label_and_timeout TTest = (''cargo test --all-targets'', 300)"
| "label_and_timeout TDoc = (''cargo test --doc'', 300)"
| "label_and_timeout TFmt = (''cargo fmt --check'', 60)"
| "label_and_timeout TAll = ([], 0)"

definition splice_before_sep :: "string list \<Rightarrow> string list \<Rightarrow> string list" where
  "splice_before_sep new args = splice_at (separator_index args) new args"

definition target_for ::
  "(string \<Rightarrow> string option) \<Rightarrow> gate_target_id \<Rightarrow> string \<Rightarrow> bool \<Rightarrow> bool \<Rightarrow> string list
    \<Rightarrow> gate_target option" where
  "target_for read tid manifest full_workspace timings scope_args =
     (if tid = TAll then None
      else
        let a0 = base_args read tid manifest full_workspace;
            a1 = (if full_workspace \<and> tid \<in> {TBuild, TClippy, TTest, TDoc}
                  then splice_before_sep [''--workspace''] a0 else a0);
            a2 = (if \<not> full_workspace \<and> tid \<noteq> TFmt \<and> scope_args \<noteq> []
                  then splice_before_sep scope_args a1 else a1);
            a3 = (if timings \<and> tid \<noteq> TFmt then splice_before_sep [''--timings''] a2 else a2);
            (label, timeout) = label_and_timeout tid
        in Some \<lparr>gt_id = tid, gt_label = label, gt_args = a3, gt_timeout = timeout\<rparr>)"

definition target_supports_doctests :: "meta_target \<Rightarrow> bool" where
  "target_supports_doctests t \<longleftrightarrow>
     mt_doctest t \<and> list_ex (\<lambda>k. k \<in> {KindLib, KindRLib, KindProcMacro}) (mt_kind t)"

definition has_doctestable_target :: "meta_snapshot \<Rightarrow> bool" where
  "has_doctestable_target snap =
     list_ex (\<lambda>p. list_ex target_supports_doctests (mp_targets p))
       (filter (\<lambda>p. mp_id p \<in> set (ms_workspace_members snap)) (ms_packages snap))"

definition targets_for ::
  "(string \<Rightarrow> string option) \<Rightarrow> meta_snapshot \<Rightarrow> gate_target_id \<Rightarrow> string \<Rightarrow> bool \<Rightarrow> string list
    \<Rightarrow> gate_target list" where
  "targets_for read snap target manifest timings scope_args =
     (if target = TAll
      then List.map_filter
        (\<lambda>tid. if tid = TDoc \<and> \<not> has_doctestable_target snap then None
               else target_for read tid manifest True timings []) FULL_ORDER
      else (case target_for read target manifest False timings scope_args of
              None \<Rightarrow> [] | Some t \<Rightarrow> [t]))"

definition target_by_id ::
  "(string \<Rightarrow> string option) \<Rightarrow> gate_target_id \<Rightarrow> string \<Rightarrow> gate_target option" where
  "target_by_id read tid manifest = target_for read tid manifest False False []"

section \<open>What the commands guarantee\<close>

text \<open>The flags the server itself may add when it applies options.\<close>

definition own_flags :: "string list" where
  "own_flags =
     [''--lib'', ''--bin'', ''--test'', ''--example'', ''--bench'', ''--all-features'',
      ''--no-default-features'', ''--features'', ''--target'', ''--cargo-message-format=json'',
      ''--no-tests=fail'']"

lemma set_splice_at [simp]: "set (splice_at i new xs) = set new \<union> set xs"
proof -
  have "set (splice_at i new xs) = set new \<union> set (take i xs @ drop i xs)"
    unfolding splice_at_def by (auto simp del: append_take_drop_id)
  then show ?thesis by simp
qed

lemma exact_name_no_flag: "exact_name uni n \<Longrightarrow> \<not> head_in ''-'' n"
  by (auto simp: exact_name_def head_in_def)

lemma features_join_no_flag:
  assumes "fs \<noteq> []" and "\<forall>f \<in> set fs. feature_ok f"
  shows "\<not> head_in ''-'' (join '','' (remdups_adj (sort fs)))"
proof -
  have sub: "set (remdups_adj (sort fs)) = set fs" by simp
  with assms(1) obtain g gs where g: "remdups_adj (sort fs) = g # gs"
    by (cases "remdups_adj (sort fs)") auto
  with sub have "g \<in> set fs" by auto
  with assms(2) have "g \<noteq> []" and "\<not> head_in ''-'' g"
    by (auto simp: feature_ok_def head_in_def)
  then show ?thesis using head_in_join [of "''-''" "'',''" g gs] g by auto
qed

text \<open>What a validated option set says about each user-supplied string.\<close>

lemma options_validate_facts:
  assumes "options_validate uni o' target = Inr ()"
  shows "\<forall>f \<in> set (features o'). feature_ok f"
    and "target_triple o' = Some t \<Longrightarrow> triple_ok t"
    and "test_filter o' = Some f \<Longrightarrow> target = TTest \<and> \<not> head_in ''-'' f"
    and "cargo_target o' = Some sel \<Longrightarrow> snd (flag_and_name sel) = Some n \<Longrightarrow> exact_name uni n"
    and "target = TAll \<Longrightarrow> packages o' = [] \<and> cargo_target o' = None \<and> test_filter o' = None"
    and "\<forall>n \<in> set (packages o'). exact_name uni n"
  using assms
  by (auto simp: options_validate_def selection_validate_def list_ex_iff
      split: if_splits sum.splits option.splits)

lemma option_flags_safe:
  assumes "options_validate uni o' target = Inr ()" and "a \<in> set (option_flags o')"
    and "head_in ''-'' a"
  shows "a \<in> set own_flags"
proof -
  note facts = options_validate_facts [OF assms(1)]
  have "a \<noteq> join '','' (remdups_adj (sort (features o')))" if "features o' \<noteq> []"
    using features_join_no_flag [OF that facts(1)] assms(3) by auto
  moreover have "target_triple o' \<noteq> Some a"
    using facts(2) [of a] assms(3) by (auto simp: triple_ok_def)
  ultimately show ?thesis
    using assms(2) by (auto simp: option_flags_def own_flags_def split: if_splits option.splits)
qed

lemma selection_flags_safe:
  assumes "cargo_target o' = Some sel" and "options_validate uni o' target = Inr ()"
    and "a \<in> set (gt_args (selection_apply sel t))" and "head_in ''-'' a"
  shows "a \<in> set (gt_args t) \<union> set own_flags"
proof -
  obtain flag name where fn: "flag_and_name sel = (flag, name)" by (cases "flag_and_name sel")
  then have "flag \<in> set own_flags" by (cases sel) (auto simp: own_flags_def)
  moreover have "name \<noteq> Some a"
    using options_validate_facts(4) [OF assms(2,1), of a] fn assms(4) exact_name_no_flag by auto
  ultimately show ?thesis
    using assms(3) fn by (auto simp: selection_apply_def Let_def split: option.splits if_splits)
qed

definition nextest_flags :: "string set" where
  "nextest_flags = {''nextest'', ''run'', ''--cargo-message-format=json'', ''--no-tests=fail''}"

lemma set_nextest_args:
  "nextest_args args = Some args' \<Longrightarrow> a \<in> set args' \<Longrightarrow> a \<in> set args \<or> a \<in> nextest_flags"
  by (auto simp: nextest_args_def nextest_flags_def split: list.splits if_splits)

lemma nextest_flags_own: "a \<in> nextest_flags \<Longrightarrow> head_in ''-'' a \<Longrightarrow> a \<in> set own_flags"
  unfolding nextest_flags_def insert_iff empty_iff
  by (elim disjE) (simp_all add: own_flags_def head_in_def)

text \<open>Where an argument of the finished command can come from.\<close>

lemma options_apply_args:
  assumes "options_apply o' t = Some t'" and "a \<in> set (gt_args t')"
    and "t1 = (case cargo_target o' of None \<Rightarrow> t | Some sel \<Rightarrow> selection_apply sel t)"
  shows "a \<in> set (gt_args t) \<or> a \<in> set (gt_args t1) \<or> a \<in> set (option_flags o') \<or>
    test_filter o' = Some a \<or> a \<in> nextest_flags"
proof (cases "gt_id t = TFmt")
  case True
  with assms show ?thesis by (simp add: options_apply_def)
next
  case False
  define args2 where
    "args2 = splice_at (separator_index (gt_args t1)) (option_flags o') (gt_args t1)"
  have "a \<in> set args2 \<or> test_filter o' = Some a \<or> a \<in> nextest_flags"
  proof (cases "gt_id t1 = TTest")
    case test: True
    show ?thesis
    proof (cases "runner o'")
      case RunnerCargo
      with assms(1,2) False test show ?thesis
        unfolding options_apply_def assms(3) [symmetric] args2_def [symmetric]
        by (auto simp: Let_def args2_def split: option.splits)
    next
      case RunnerNextest
      with assms(1) False test obtain args where n: "nextest_args args2 = Some args"
        and t': "gt_args t' = args @ (case test_filter o' of None \<Rightarrow> [] | Some f \<Rightarrow> [f])"
        unfolding options_apply_def assms(3) [symmetric]
        by (auto simp: Let_def args2_def split: option.splits)
      from set_nextest_args [OF n] assms(2) t' show ?thesis
        by (auto split: option.splits)
    qed
  next
    case False
    with assms(1,2) \<open>gt_id t \<noteq> TFmt\<close> show ?thesis
      unfolding options_apply_def assms(3) [symmetric] by (auto simp: Let_def args2_def)
  qed
  then show ?thesis by (auto simp: args2_def)
qed

text \<open>
  C9: Options that pass validation cannot inject a Cargo flag: every argument of the
  command that starts with a dash was already in the stage's own command or is one of the eleven
  fixed flags the server adds.
\<close>

theorem options_apply_no_injection:
  assumes valid: "options_validate uni o' target = Inr ()"
    and app: "options_apply o' t = Some t'"
    and arg: "a \<in> set (gt_args t')" and dash: "head_in ''-'' a"
  shows "a \<in> set (gt_args t) \<or> a \<in> set own_flags"
proof -
  define t1 where "t1 = (case cargo_target o' of None \<Rightarrow> t | Some sel \<Rightarrow> selection_apply sel t)"
  have "a \<in> set (gt_args t1) \<Longrightarrow> a \<in> set (gt_args t) \<or> a \<in> set own_flags"
    using selection_flags_safe [OF _ valid _ dash, of _ t]
    unfolding t1_def by (cases "cargo_target o'") auto
  moreover have "test_filter o' \<noteq> Some a"
    using options_validate_facts(3) [OF valid, of a] dash by auto
  ultimately show ?thesis
    using options_apply_args [OF app arg t1_def] option_flags_safe [OF valid _ dash]
      nextest_flags_own [OF _ dash] by blast
qed

definition sample_options :: validation_options where
  "sample_options =
     default_validation_options\<lparr>features := [''std''], test_filter := Some ''io''\<rparr>"

definition sample_test_target :: gate_target where
  "sample_test_target =
     \<lparr>gt_id = TTest, gt_label = ''cargo test'', gt_args = [''test'', ''--locked''], gt_timeout = 300\<rparr>"

theorem options_apply_no_injection_witness:
  "options_validate (\<lambda>_. False) sample_options TTest = Inr () \<and>
   map_option gt_args (options_apply sample_options sample_test_target) =
     Some [''test'', ''--locked'', ''--features'', ''std'', ''io''] \<and>
   (''--features'' \<in> set (gt_args sample_test_target) \<or> ''--features'' \<in> set own_flags)"
proof -
  have v: "options_validate (\<lambda>_. False) sample_options TTest = Inr ()"
    by code_simp
  have args: "map_option gt_args (options_apply sample_options sample_test_target) =
     Some [''test'', ''--locked'', ''--features'', ''std'', ''io'']"
    by code_simp
  then obtain t' where t': "options_apply sample_options sample_test_target = Some t'"
    and "gt_args t' = [''test'', ''--locked'', ''--features'', ''std'', ''io'']" by auto
  then have "''--features'' \<in> set (gt_args t')" by simp
  with options_apply_no_injection [OF v t' this] v args show ?thesis
    by (simp add: head_in_def)
qed

text \<open>Splicing before the separator keeps everything from the separator on in place.\<close>

lemma splice_before_sep_split:
  "''--'' \<notin> set pre \<Longrightarrow>
    splice_at (separator_index (pre @ ''--'' # suf)) new (pre @ ''--'' # suf) = pre @ new @ ''--'' # suf"
  by (simp add: separator_index_def splice_at_def takeWhile_append)

definition keeps_deny :: "string list \<Rightarrow> bool" where
  "keeps_deny args \<longleftrightarrow> (\<exists>pre. args = pre @ [''--'', ''-D'', ''warnings''] \<and> ''--'' \<notin> set pre)"

lemma keeps_deny_splice:
  "keeps_deny args \<Longrightarrow> ''--'' \<notin> set new \<Longrightarrow> keeps_deny (splice_at (separator_index args) new args)"
  unfolding keeps_deny_def by (force simp: splice_before_sep_split)

lemma keeps_deny_filter:
  assumes "keeps_deny args" and "P ''--''" "P ''-D''" "P ''warnings''"
  shows "keeps_deny (filter P args)"
proof -
  from assms(1) obtain pre where "args = pre @ [''--'', ''-D'', ''warnings'']" "''--'' \<notin> set pre"
    by (auto simp: keeps_deny_def)
  with assms(2-4) have "filter P args = filter P pre @ [''--'', ''-D'', ''warnings'']"
    and "''--'' \<notin> set (filter P pre)" by auto
  then show ?thesis unfolding keeps_deny_def by blast
qed

lemma own_flags_not_sep: "''--'' \<notin> set own_flags"
  by (simp add: own_flags_def)

lemma option_flags_not_sep:
  "options_validate uni o' target = Inr () \<Longrightarrow> ''--'' \<notin> set (option_flags o')"
  using option_flags_safe [of uni o' target "''--''"] own_flags_not_sep
  by (auto simp: head_in_def)

lemma target_for_clippy_keeps_deny:
  assumes "target_for read TClippy manifest full timings scope_args = Some t"
    and "manifest \<noteq> ''--''" and "''--'' \<notin> set scope_args"
  shows "gt_id t = TClippy" and "keeps_deny (gt_args t)"
proof -
  have base: "keeps_deny (base_args read TClippy manifest full)"
    unfolding keeps_deny_def using assms(2)
    by (intro exI [of _ "[''clippy'', ''--manifest-path'', manifest, ''--locked'',
      ''--all-targets'', ''--message-format=json'']"]) simp
  from assms(1) show "gt_id t = TClippy"
    by (auto simp: target_for_def Let_def)
  from assms base show "keeps_deny (gt_args t)"
    by (auto simp: target_for_def Let_def splice_before_sep_def simp del: base_args.simps
        intro!: keeps_deny_splice)
qed

text \<open>
  Whatever validated options, scope and timing flags a request carries, the Clippy stage still
  ends in \<open>-- -D warnings\<close>: nothing a client supplies can land behind the separator or displace
  the warnings-as-errors policy.
\<close>

theorem clippy_keeps_warnings_as_errors:
  assumes valid: "options_validate uni o' target = Inr ()"
    and t: "target_for read TClippy manifest full timings scope_args = Some t"
    and "manifest \<noteq> ''--''" and "''--'' \<notin> set scope_args"
    and app: "options_apply o' t = Some t'"
  shows "\<exists>pre. gt_args t' = pre @ [''--'', ''-D'', ''warnings''] \<and> ''--'' \<notin> set pre"
proof -
  note clippy = target_for_clippy_keeps_deny [OF t assms(3,4)]
  define t1 where "t1 = (case cargo_target o' of None \<Rightarrow> t | Some sel \<Rightarrow> selection_apply sel t)"
  have id1: "gt_id t1 = TClippy"
    using clippy(1) by (auto simp: t1_def selection_apply_def Let_def split: option.splits prod.splits)
  have "keeps_deny (gt_args t1)"
  proof (cases "cargo_target o'")
    case None
    with clippy show ?thesis by (simp add: t1_def)
  next
    case (Some sel)
    obtain flag name where fn: "flag_and_name sel = (flag, name)" by (cases "flag_and_name sel")
    then have "flag \<noteq> ''--''" by (cases sel) auto
    moreover have "name \<noteq> Some ''--''"
      using options_validate_facts(4) [OF valid Some, of "''--''"] fn
        exact_name_no_flag [of uni "''--''"]
      by (auto simp: head_in_def)
    ultimately show ?thesis
      using clippy Some fn
      by (auto simp: t1_def selection_apply_def Let_def
          intro!: keeps_deny_splice keeps_deny_filter split: option.splits)
  qed
  moreover have "gt_args t' = splice_at (separator_index (gt_args t1)) (option_flags o') (gt_args t1)"
    using app clippy(1) id1 unfolding options_apply_def t1_def [symmetric] by (auto simp: Let_def)
  ultimately show ?thesis
    using keeps_deny_splice [OF _ option_flags_not_sep [OF valid]] by (simp add: keeps_deny_def)
qed

theorem clippy_keeps_warnings_as_errors_witness:
  "\<exists>t t' pre. target_for (\<lambda>_. None) TClippy ''Cargo.toml'' False True [''-p'', ''app''] = Some t \<and>
     options_apply (default_validation_options\<lparr>all_features := True\<rparr>) t = Some t' \<and>
     gt_args t' = pre @ [''--'', ''-D'', ''warnings'']"
proof -
  let ?o = "default_validation_options\<lparr>all_features := True\<rparr>"
  have v: "options_validate (\<lambda>_. False) ?o TClippy = Inr ()" by code_simp
  obtain t where t: "target_for (\<lambda>_. None) TClippy ''Cargo.toml'' False True [''-p'', ''app''] = Some t"
    by (simp add: target_for_def Let_def)
  obtain t' where t': "options_apply ?o t = Some t'"
    using t by (auto simp: options_apply_def target_for_def default_validation_options_def Let_def)
  show ?thesis
    using clippy_keeps_warnings_as_errors [OF v t _ _ t'] t t' by auto
qed

text \<open>The names resolved one by one: each id belongs to a workspace member of that name.\<close>

definition resolves_to ::
  "meta_snapshot \<Rightarrow> cargo_target_selection option \<Rightarrow> string \<Rightarrow> string \<Rightarrow> bool" where
  "resolves_to snap sel name pid \<longleftrightarrow>
     pid \<in> set (ms_workspace_members snap) \<and>
     (\<exists>p \<in> set (ms_packages snap). mp_name p = name \<and> mp_id p = pid \<and>
        (\<forall>target. sel = Some target \<longrightarrow> (\<exists>c \<in> set (mp_targets p). selection_matches target c)))"

lemma resolve_packages_sound:
  "resolve_packages snap sel names = Inr ids \<Longrightarrow> list_all2 (resolves_to snap sel) names ids"
proof (induction names arbitrary: ids)
  case (Cons name names)
  from Cons.prems obtain p ids' where
    p: "List.find (\<lambda>p. mp_name p = name \<and> mp_id p \<in> set (ms_workspace_members snap))
          (ms_packages snap) = Some p"
    and sel: "\<not> (case sel of None \<Rightarrow> False
              | Some target \<Rightarrow> \<not> list_ex (selection_matches target) (mp_targets p))"
    and rest: "resolve_packages snap sel names = Inr ids'" and ids: "ids = mp_id p # ids'"
    by (auto split: option.splits if_splits sum.splits)
  from find_Some_in [OF p] sel have "resolves_to snap sel name (mp_id p)"
    by (auto simp: resolves_to_def list_ex_iff split: option.splits)
  with Cons.IH [OF rest] ids show ?case by simp
qed simp

text \<open>
  A successful package selection names exactly the requested packages, sorted and without
  repetition, every resolved id is a workspace member of that name (and has the requested Cargo
  target), and the Cargo arguments are one \<open>-p name\<close> pair per package.
\<close>

theorem selection_resolve_sound:
  assumes "selection_resolve snap o' = Inr (Some (scope, args))"
  shows "set (scope_packages scope) = set (packages o') \<and>
    sorted (scope_packages scope) \<and> distinct (scope_packages scope) \<and>
    list_all2 (resolves_to snap (cargo_target o'))
      (scope_packages scope) (scope_package_ids scope) \<and>
    args = concat (map (\<lambda>n. [''-p'', n]) (scope_packages scope))"
  using assms sort_dedup [of "packages o'"] resolve_packages_sound
  by (auto simp: selection_resolve_def Let_def split: if_splits sum.splits)

definition sample_snapshot :: meta_snapshot where
  "sample_snapshot =
     \<lparr>ms_packages =
        [\<lparr>mp_id = ''id-b'', mp_name = ''b'', mp_targets = []\<rparr>,
         \<lparr>mp_id = ''id-a'', mp_name = ''a'', mp_targets = []\<rparr>],
      ms_workspace_members = [''id-a'', ''id-b'']\<rparr>"

theorem selection_resolve_sound_witness:
  "\<exists>scope args.
     selection_resolve sample_snapshot (default_validation_options\<lparr>packages := [''b'', ''a'', ''b'']\<rparr>)
       = Inr (Some (scope, args)) \<and>
     list_all2 (resolves_to sample_snapshot None) (scope_packages scope) (scope_package_ids scope) \<and>
     args = [''-p'', ''a'', ''-p'', ''b'']"
proof -
  let ?o = "default_validation_options\<lparr>packages := [''b'', ''a'', ''b'']\<rparr>"
  let ?scope = "\<lparr>scope_strategy = ScopeExplicit, scope_packages = [''a'', ''b''],
    scope_package_ids = [''id-a'', ''id-b''], scope_changed_paths = [], scope_widened_because = []\<rparr>"
  have r: "selection_resolve sample_snapshot ?o =
      Inr (Some (?scope, [''-p'', ''a'', ''-p'', ''b'']))"
    by code_simp
  show ?thesis
    using selection_resolve_sound [OF r] r by (auto simp: default_validation_options_def)
qed

lemma target_for_full_workspace:
  assumes "target_for read tid manifest True timings [] = Some t"
  shows "gt_id t = tid" and "tid \<in> {TBuild, TClippy, TTest, TDoc} \<Longrightarrow> ''--workspace'' \<in> set (gt_args t)"
    and "tid = TFmt \<Longrightarrow> ''--all'' \<in> set (gt_args t)"
  using assms by (auto simp: target_for_def Let_def splice_before_sep_def split: if_splits prod.splits)

text \<open>
  The full gate runs the fixed order fmt, clippy, test and (when a workspace member has a
  doctestable target) doc, each over the whole workspace; scope arguments cannot narrow it.
\<close>

theorem full_gate_covers_workspace:
  "map gt_id (targets_for read snap TAll manifest timings scope_args) =
     (if has_doctestable_target snap then [TFmt, TClippy, TTest, TDoc] else [TFmt, TClippy, TTest]) \<and>
   list_all (\<lambda>t. if gt_id t = TFmt then ''--all'' \<in> set (gt_args t)
                 else ''--workspace'' \<in> set (gt_args t))
     (targets_for read snap TAll manifest timings scope_args)"
proof -
  obtain f c t d where ts: "target_for read TFmt manifest True timings [] = Some f"
    "target_for read TClippy manifest True timings [] = Some c"
    "target_for read TTest manifest True timings [] = Some t"
    "target_for read TDoc manifest True timings [] = Some d"
    by (auto simp: target_for_def Let_def split: prod.splits)
  note facts = ts [THEN target_for_full_workspace(1)] ts [THEN target_for_full_workspace(2)]
    ts(1) [THEN target_for_full_workspace(3)]
  show ?thesis
    using facts by (simp add: targets_for_def FULL_ORDER_def map_filter_def ts)
qed

end
