(* ===== verification/Btree_Map.thy ===== *)
theory Btree_Map
  imports Prelude
begin

text \<open>
  The ordered map of the standard library (\<open>BTreeMap\<close>) and the interface its clients rely on.
  A map is the list of its entries in key order, so iteration is list traversal and
  \<open>values().filter(..).min_by_key(..)\<close> is a list function. The locale \<open>keyed_store\<close> states
  what lookup, insertion and removal promise each other; the eviction lemmas the bounded stores of
  the program share are proved once inside it.
\<close>

section \<open>The interface\<close>

locale keyed_store =
  fixes get :: "'m \<Rightarrow> 'k \<Rightarrow> 'v option"
    and put :: "'k \<Rightarrow> 'v \<Rightarrow> 'm \<Rightarrow> 'm"
    and del :: "'k \<Rightarrow> 'm \<Rightarrow> 'm"
    and size_of :: "'m \<Rightarrow> nat"
    and wf :: "'m \<Rightarrow> bool"
  assumes get_put: "wf m \<Longrightarrow> get (put k v m) j = (if j = k then Some v else get m j)"
    and get_del: "wf m \<Longrightarrow> get (del k m) j = (if j = k then None else get m j)"
    and wf_put: "wf m \<Longrightarrow> wf (put k v m)"
    and wf_del: "wf m \<Longrightarrow> wf (del k m)"
    and size_put: "wf m \<Longrightarrow>
      size_of (put k v m) = (if get m k = None then Suc (size_of m) else size_of m)"
    and size_del: "wf m \<Longrightarrow>
      size_of (del k m) = (if get m k = None then size_of m else size_of m - 1)"
begin

lemma get_put_same: "wf m \<Longrightarrow> get (put k v m) k = Some v"
  by (simp add: get_put)

lemma get_put_other: "wf m \<Longrightarrow> j \<noteq> k \<Longrightarrow> get (put k v m) j = get m j"
  by (simp add: get_put)

lemma get_del_other: "wf m \<Longrightarrow> j \<noteq> k \<Longrightarrow> get (del k m) j = get m j"
  by (simp add: get_del)

text \<open>Replacing an entry keeps the size; evicting one entry makes room for a new one.\<close>

lemma size_put_existing: "wf m \<Longrightarrow> get m k \<noteq> None \<Longrightarrow> size_of (put k v m) = size_of m"
  by (simp add: size_put)

lemma size_put_le: "wf m \<Longrightarrow> size_of (put k v m) \<le> Suc (size_of m)"
  by (simp add: size_put)

lemma size_evict_put:
  assumes "wf m" and "get m victim \<noteq> None" and "size_of m \<le> n" and "0 < n"
  shows "size_of (put k v (if n \<le> size_of m then del victim m else m)) \<le> n"
proof (cases "n \<le> size_of m")
  case True
  with assms(3) have "size_of m = n" by simp
  with assms(1,2,4) have "size_of (del victim m) < n"
    by (simp add: size_del)
  with True assms(1) show ?thesis
    using size_put_le [OF wf_del [OF assms(1)], of k v victim] by simp
next
  case False
  with size_put_le [OF assms(1), of k v] show ?thesis by simp
qed

end

section \<open>The ordered association list\<close>

type_synonym ('k, 'v) btree_map = "('k \<times> 'v) list"

fun bt_insert :: "'k::linorder \<Rightarrow> 'v \<Rightarrow> ('k, 'v) btree_map \<Rightarrow> ('k, 'v) btree_map" where
  "bt_insert k v [] = [(k, v)]"
| "bt_insert k v (e # m) =
     (case fst e of j \<Rightarrow>
        if j < k then e # bt_insert k v m
        else if j = k then (k, v) # m
        else (k, v) # e # m)"

definition bt_remove :: "'k \<Rightarrow> ('k, 'v) btree_map \<Rightarrow> ('k, 'v) btree_map" where
  "bt_remove k m = filter (\<lambda>e. fst e \<noteq> k) m"

definition bt_get :: "('k, 'v) btree_map \<Rightarrow> 'k \<Rightarrow> 'v option" where
  "bt_get m k = map_option snd (List.find (\<lambda>e. fst e = k) m)"

definition bt_contains :: "('k, 'v) btree_map \<Rightarrow> 'k \<Rightarrow> bool" where
  "bt_contains m k \<longleftrightarrow> bt_get m k \<noteq> None"

definition bt_values :: "('k, 'v) btree_map \<Rightarrow> 'v list" where
  "bt_values m = map snd m"

definition bt_keys :: "('k, 'v) btree_map \<Rightarrow> 'k list" where
  "bt_keys m = map fst m"

text \<open>\<open>values_mut\<close>: every value replaced, keys kept.\<close>

definition bt_map_values :: "('v \<Rightarrow> 'w) \<Rightarrow> ('k, 'v) btree_map \<Rightarrow> ('k, 'w) btree_map" where
  "bt_map_values f m = map (\<lambda>e. (fst e, f (snd e))) m"

definition bt_wf :: "('k::linorder, 'v) btree_map \<Rightarrow> bool" where
  "bt_wf m \<longleftrightarrow> sorted_wrt (<) (map fst m)"

lemma bt_wf_simps [simp]:
  "bt_wf []"
  "bt_wf (e # m) \<longleftrightarrow> (\<forall>x \<in> set m. fst e < fst x) \<and> bt_wf m"
  by (auto simp: bt_wf_def)

lemma bt_get_simps [simp]:
  "bt_get [] k = None"
  "bt_get (e # m) k = (if fst e = k then Some (snd e) else bt_get m k)"
  by (auto simp: bt_get_def)

lemma bt_get_map_of: "bt_get m = map_of m"
  by (induction m) (auto simp: fun_eq_iff)

lemma bt_get_in: "bt_get m k = Some v \<Longrightarrow> (k, v) \<in> set m"
  by (simp add: bt_get_map_of map_of_SomeD)

lemma bt_get_None_iff: "bt_get m k = None \<longleftrightarrow> k \<notin> fst ` set m"
  by (simp add: bt_get_map_of map_of_eq_None_iff)

lemma bt_get_iff: "bt_wf m \<Longrightarrow> bt_get m k = Some v \<longleftrightarrow> (k, v) \<in> set m"
  by (induction m) auto

lemma fst_set_bt_insert: "fst ` set (bt_insert k v m) = insert k (fst ` set m)"
  by (induction m) auto

lemma set_bt_insert:
  "bt_wf m \<Longrightarrow> set (bt_insert k v m) = insert (k, v) {e \<in> set m. fst e \<noteq> k}"
  by (induction m) (auto simp: not_less order.strict_iff_order)

lemma bt_wf_insert: "bt_wf m \<Longrightarrow> bt_wf (bt_insert k v m)"
  by (induction m) (auto simp: set_bt_insert not_less order.strict_iff_order)

lemma bt_get_insert: "bt_get (bt_insert k v m) j = (if j = k then Some v else bt_get m j)"
  by (induction m) auto

lemma bt_wf_remove: "bt_wf m \<Longrightarrow> bt_wf (bt_remove k m)"
  by (induction m) (auto simp: bt_remove_def)

lemma bt_get_remove: "bt_get (bt_remove k m) j = (if j = k then None else bt_get m j)"
  by (induction m) (auto simp: bt_remove_def)

lemma bt_remove_absent: "bt_get m k = None \<Longrightarrow> bt_remove k m = m"
  by (induction m) (auto simp: bt_remove_def split: if_splits)

lemma length_bt_insert:
  "bt_wf m \<Longrightarrow>
    length (bt_insert k v m) = (if bt_get m k = None then Suc (length m) else length m)"
proof (induction m)
  case (Cons e m)
  have "fst e = k \<or> bt_get m k = None" if "\<not> fst e < k"
    using Cons.prems that by (auto simp: bt_get_None_iff)
  with Cons show ?case by auto
qed simp

lemma length_bt_remove:
  "bt_wf m \<Longrightarrow>
    length (bt_remove k m) = (if bt_get m k = None then length m else length m - 1)"
proof (induction m)
  case (Cons e m)
  have "bt_get m k = None" if "fst e = k"
    using Cons.prems that by (auto simp: bt_get_None_iff)
  moreover have "m \<noteq> []" if "bt_get m k \<noteq> None"
    using that by auto
  ultimately show ?case
    using Cons bt_remove_absent [of m k] by (auto simp: bt_remove_def Suc_diff_le)
qed (simp add: bt_remove_def)

lemma bt_wf_map_values [simp]: "bt_wf (bt_map_values f m) \<longleftrightarrow> bt_wf m"
  by (simp add: bt_wf_def bt_map_values_def comp_def)

lemma bt_get_map_values [simp]: "bt_get (bt_map_values f m) k = map_option f (bt_get m k)"
  by (induction m) (auto simp: bt_map_values_def)

lemma length_bt_map_values [simp]: "length (bt_map_values f m) = length m"
  by (simp add: bt_map_values_def)

lemma bt_values_map_values [simp]: "bt_values (bt_map_values f m) = map f (bt_values m)"
  by (simp add: bt_values_def bt_map_values_def)

lemma bt_values_get: "x \<in> set (bt_values m) \<Longrightarrow> bt_wf m \<Longrightarrow> \<exists>k. bt_get m k = Some x"
  by (force simp: bt_values_def bt_get_iff)

lemma bt_get_values: "bt_get m k = Some x \<Longrightarrow> x \<in> set (bt_values m)"
  by (force simp: bt_values_def dest: bt_get_in)

lemma bt_get_filter:
  "bt_wf m \<Longrightarrow> bt_get (filter P m) k =
    (case bt_get m k of None \<Rightarrow> None | Some v \<Rightarrow> if P (k, v) then Some v else None)"
proof (induction m)
  case (Cons e m)
  have "bt_get m k = None" if "fst e = k"
    using Cons.prems that by (auto simp: bt_get_None_iff)
  with Cons show ?case by (cases e) auto
qed simp

lemma bt_wf_filter: "bt_wf m \<Longrightarrow> bt_wf (filter P m)"
  by (induction m) auto

interpretation bt: keyed_store bt_get bt_insert bt_remove length bt_wf
  by unfold_locales
    (simp_all add: bt_get_insert bt_get_remove bt_wf_insert bt_wf_remove
      length_bt_insert length_bt_remove)

end
