(* ===== verification/Change_Model.thy ===== *)
theory Change_Model
  imports Gate_Types Btree_Map
begin

text \<open>
  The data of the \<open>change\<close> tool (\<open>change/model.rs\<close>): requests, the bounded wire payload, and
  the durable record with its evidence rows. Fields keep the source's names behind a prefix per
  structure. The two operations of the file, superseding a row and asking for a fresh pass, come
  with the lemmas that make a superseded row unable to vouch for a revision.
\<close>

section \<open>Requests\<close>

datatype change_action =
  ChangeCreate | ChangeStage | ChangeMigrate | ChangeInspect | ChangeValidate | ChangeExport
  | ChangeDiscard

fun change_action_as_str :: "change_action \<Rightarrow> string" where
  "change_action_as_str ChangeCreate = ''create''"
| "change_action_as_str ChangeStage = ''stage''"
| "change_action_as_str ChangeMigrate = ''migrate''"
| "change_action_as_str ChangeInspect = ''inspect''"
| "change_action_as_str ChangeValidate = ''validate''"
| "change_action_as_str ChangeExport = ''export''"
| "change_action_as_str ChangeDiscard = ''discard''"

record patch_input =
  pi_file :: string
  pi_old_string :: string
  pi_new_string :: string

record new_file_input =
  nf_file :: string
  nf_content :: string

record migrate_anchor_input =
  ma_file :: string
  ma_symbol :: string
  ma_line :: "nat option"

datatype migrate_transformation_kind = AddParameter | ChangeParameter

fun migrate_kind_as_str :: "migrate_transformation_kind \<Rightarrow> string" where
  "migrate_kind_as_str AddParameter = ''addParameter''"
| "migrate_kind_as_str ChangeParameter = ''changeParameter''"

record migrate_transformation_input =
  mti_kind :: migrate_transformation_kind
  mti_parameter :: string
  mti_argument :: string
  mti_position :: "nat option"

record migrate_constraints_input =
  mc_max_references :: "nat option"
  mc_max_edits :: "nat option"
  mc_max_identity_checks :: "nat option"

record migrate_request =
  mr_anchor :: migrate_anchor_input
  mr_transformation :: migrate_transformation_input
  mr_consumer_scope :: "string option"
  mr_constraints :: migrate_constraints_input

record change_request =
  cr_action :: change_action
  cr_change_id :: "string option"
  cr_expected_revision :: "nat option"
  cr_base_identity :: "string option"
  cr_patches :: "patch_input list"
  cr_new_files :: "new_file_input list"
  cr_migration :: "migrate_request option"
  cr_target :: gate_target_id
  cr_options :: validation_options
  cr_detail :: gate_detail
  cr_timings :: bool

section \<open>Migration report data\<close>

record migration_site_data =
  msd_file :: string
  msd_line :: nat
  msd_column :: nat
  msd_kind :: string
  msd_detail :: "string option"
  msd_feature_scope :: "string option"

record migration_impact_data =
  mid_definitions :: "migration_site_data list"
  mid_definitions_total :: nat
  mid_implementations :: "migration_site_data list"
  mid_implementations_total :: nat
  mid_consumers :: "migration_site_data list"
  mid_consumers_total :: nat
  mid_reexports :: "migration_site_data list"
  mid_reexports_total :: nat
  mid_unrelated :: "migration_site_data list"
  mid_unrelated_total :: nat
  mid_packages :: "string list"
  mid_feature_hints :: "string list"

record migration_transformation_data =
  mtd_kind :: string
  mtd_parameter :: string
  mtd_argument :: string
  mtd_resolved_position :: nat
  mtd_argument_source :: string

definition default_migration_transformation_data :: migration_transformation_data where
  "default_migration_transformation_data =
     \<lparr>mtd_kind = [], mtd_parameter = [], mtd_argument = [], mtd_resolved_position = 0,
      mtd_argument_source = ''hostProvided''\<rparr>"

record migration_api_diff_data =
  mad_before :: string
  mad_after :: string
  mad_changed :: bool
  mad_visibility :: string
  mad_public_api :: bool

record migration_edit_group_data =
  meg_kind :: string
  meg_label :: string
  meg_sites :: nat

record migration_obligation_data =
  mob_kind :: string
  mob_file :: "string option"
  mob_line :: "nat option"
  mob_message :: string

record migration_budget_data =
  mbd_max_references :: nat
  mbd_references_total :: nat
  mbd_max_identity_checks :: nat
  mbd_identity_checks :: nat
  mbd_max_edits :: nat
  mbd_edits_planned :: nat
  mbd_omitted_references :: nat
  mbd_omitted_edits :: nat
  mbd_truncated :: bool

record migration_flags_data =
  mfd_behavior_change :: bool
  mfd_behavior_change_reasons :: "string list"
  mfd_evaluation_order_risk :: bool
  mfd_move_borrow_risk :: bool
  mfd_semantic_equivalence_claim :: string

record migration_report_data =
  mrd_anchor_file :: string
  mrd_anchor_symbol :: string
  mrd_definition_file :: string
  mrd_definition_line :: nat
  mrd_transformation :: migration_transformation_data
  mrd_impact :: migration_impact_data
  mrd_api_diff :: migration_api_diff_data
  mrd_edit_groups :: "migration_edit_group_data list"
  mrd_obligations :: "migration_obligation_data list"
  mrd_obligations_total :: nat
  mrd_budget :: migration_budget_data
  mrd_flags :: migration_flags_data
  mrd_complete :: bool
  mrd_compatibility_scope :: string
  mrd_candidate_revision :: nat
  mrd_notes :: "string list"

section \<open>The wire payload\<close>

record change_capture_data =
  cc_files :: nat
  cc_bytes :: nat
  cc_manifest_hash :: string
  cc_complete :: bool
  cc_excluded :: "string list"

record change_source_hash_data =
  sh_file :: string
  sh_sha256 :: string
  sh_bytes :: nat

record change_patch_data =
  cpd_file :: string
  cpd_old_string :: string
  cpd_new_string :: string

record change_new_file_data =
  cnf_file :: string
  cnf_sha256 :: string
  cnf_bytes :: nat
  cnf_content :: "string option"

record change_diagnostic_data =
  dg_code :: "string option"
  dg_level :: string
  dg_file :: "string option"
  dg_line :: "nat option"
  dg_message :: string

record change_suggestion_patch_data =
  sp_file :: string
  sp_old_string :: string
  sp_new_string :: string

record change_suggestion_package_data =
  spk_patches :: "change_suggestion_patch_data list"
  spk_skipped :: "string list"
  spk_unsupported :: nat
  spk_patches_total :: nat
  spk_skipped_total :: nat
  spk_truncated :: bool

text \<open>\<open>EvidenceStats\<close> of \<open>diagnostics/stream.rs\<close>.\<close>

record evidence_stats =
  es_diagnostic_records :: nat
  es_duplicates :: nat
  es_omitted_records :: nat
  es_malformed_lines :: nat
  es_oversized_lines :: nat
  es_build_finished :: bool
  es_build_success :: "bool option"
  es_tests_executed :: "nat option"
  es_test_summaries :: nat
  es_empty_test_summaries :: nat
  es_test_binaries :: nat

record change_evidence_data =
  ev_revision :: nat
  ev_target :: string
  ev_command :: string
  ev_status :: string
  ev_exit_code :: "int option"
  ev_first_diagnostic_ms :: "nat option"
  ev_total_ms :: nat
  ev_fresh :: bool
  ev_authoritative :: bool
  ev_diagnostics :: "change_diagnostic_data list"
  ev_diagnostics_total :: nat
  ev_diagnostics_omitted :: nat
  ev_suggestion_package :: "change_suggestion_package_data option"
  ev_stats :: evidence_stats

record change_data =
  cd_action :: string
  cd_change_id :: "string option"
  cd_base_identity :: "string option"
  cd_revision :: nat
  cd_patch_hash :: "string option"
  cd_state :: string
  cd_verified :: bool
  cd_discarded :: bool
  cd_changed_files :: "string list"
  cd_changed_files_total :: nat
  cd_source_hashes :: "change_source_hash_data list"
  cd_source_hashes_total :: nat
  cd_evidence :: "change_evidence_data list"
  cd_evidence_total :: nat
  cd_capture :: "change_capture_data option"
  cd_patches :: "change_patch_data list"
  cd_patches_total :: nat
  cd_new_files :: "change_new_file_data list"
  cd_new_files_total :: nat
  cd_new_files_content_omitted :: bool
  cd_migration :: "migration_report_data option"
  cd_cleanup_warnings :: "string list"
  cd_reason :: string

definition default_change_data :: change_data where
  "default_change_data =
     \<lparr>cd_action = ''inspect'', cd_change_id = None, cd_base_identity = None, cd_revision = 0,
      cd_patch_hash = None, cd_state = ''absent'', cd_verified = False, cd_discarded = False,
      cd_changed_files = [], cd_changed_files_total = 0, cd_source_hashes = [],
      cd_source_hashes_total = 0, cd_evidence = [], cd_evidence_total = 0, cd_capture = None,
      cd_patches = [], cd_patches_total = 0, cd_new_files = [], cd_new_files_total = 0,
      cd_new_files_content_omitted = False, cd_migration = None, cd_cleanup_warnings = [],
      cd_reason = []\<rparr>"

record change_outcome =
  co_status :: string
  co_summary :: string
  co_is_error :: bool
  co_data :: change_data

section \<open>The durable record\<close>

datatype record_state =
  RecordCapturing | RecordReady | RecordApplying | RecordFailedInconsistent | RecordDiscarded

fun record_state_as_str :: "record_state \<Rightarrow> string" where
  "record_state_as_str RecordCapturing = ''capturing''"
| "record_state_as_str RecordReady = ''ready''"
| "record_state_as_str RecordApplying = ''applying''"
| "record_state_as_str RecordFailedInconsistent = ''failed_inconsistent''"
| "record_state_as_str RecordDiscarded = ''discarded''"

record capture_summary =
  cs_files :: nat
  cs_bytes :: nat
  cs_manifest_hash :: string
  cs_complete :: bool
  cs_excluded :: "string list"

record stored_patch =
  stp_file :: string
  stp_old_string :: string
  stp_new_string :: string

record stored_new_file =
  stn_file :: string
  stn_content :: string
  stn_sha256 :: string
  stn_bytes :: nat

record stored_hash =
  sth_sha256 :: string
  sth_bytes :: nat

record stored_evidence =
  se_revision :: nat
  se_target :: string
  se_command :: string
  se_status :: string
  se_exit_code :: "int option"
  se_first_diagnostic_ms :: "nat option"
  se_total_ms :: nat
  se_fresh :: bool
  se_authoritative :: bool
  se_recorded_at_ms :: nat
  se_diagnostics :: "change_diagnostic_data list"
  se_diagnostics_total :: nat
  se_diagnostics_omitted :: nat
  se_suggestion_package :: "change_suggestion_package_data option"
  se_stats :: evidence_stats

definition supersede :: "stored_evidence \<Rightarrow> stored_evidence" where
  "supersede e =
     e\<lparr>se_fresh := False, se_authoritative := False, se_diagnostics := [],
       se_diagnostics_total := 0, se_diagnostics_omitted := 0, se_suggestion_package := None\<rparr>"

record change_record =
  chr_schema_version :: nat
  chr_id :: string
  chr_created_at_ms :: nat
  chr_updated_at_ms :: nat
  chr_workspace_root :: string
  chr_capture_root :: string
  chr_workspace_epoch :: nat
  chr_candidate_epoch :: nat
  chr_base_identity :: string
  chr_state :: record_state
  chr_capture :: capture_summary
  chr_external_paths :: "string list"
  chr_dependency_roots :: "string list"
  chr_revision :: nat
  chr_applying_revision :: "nat option"
  chr_patches :: "stored_patch list"
  chr_new_files :: "stored_new_file list"
  chr_changed_files :: "string list"
  chr_candidate_files :: nat
  chr_candidate_bytes :: nat
  chr_patch_hash :: string
  chr_source_hashes :: "(string, stored_hash) btree_map"
  chr_evidence :: "stored_evidence list"
  chr_migration :: "migration_report_data option"
  chr_cleanup_warnings :: "string list"

definition current_revision_fresh_pass :: "change_record \<Rightarrow> bool" where
  "current_revision_fresh_pass r =
     list_ex (\<lambda>e. se_revision e = chr_revision r \<and> se_fresh e \<and> se_authoritative e \<and>
        se_status e \<in> {''PASS'', ''FULL_PASS'', ''FAST_PASS''}) (chr_evidence r)"

text \<open>A record all of whose rows were superseded has no fresh pass for any revision.\<close>

lemma superseded_no_fresh_pass:
  "\<not> current_revision_fresh_pass (r\<lparr>chr_evidence := map supersede (chr_evidence r)\<rparr>)"
  by (simp add: current_revision_fresh_pass_def supersede_def list_ex_iff)

end
