(* ===== verification/Work_Model.thy ===== *)
theory Work_Model
  imports Change_Model
begin

text \<open>
  The data of the bounded work executor (\<open>work/model.rs\<close>): actions, templates, gates, the typed
  intent with its change budget, budgets, evidence rows, the handoff package and the wire result.
  Messages the code formats as text are values of \<open>work_reason\<close>, one constructor per message with
  the values it interpolates; the constant summary sentence that accompanies each status is left out.
\<close>

section \<open>Limits\<close>

definition MAX_SCOPE_PATHS :: nat where "MAX_SCOPE_PATHS = 64"
definition MAX_SCOPE_PATH_CHARS :: nat where "MAX_SCOPE_PATH_CHARS = 512"
definition MAX_CONTRACT_CHARS :: nat where "MAX_CONTRACT_CHARS = 4096"
definition MAX_STOP_CONDITION_CHARS :: nat where "MAX_STOP_CONDITION_CHARS = 1024"
definition MAX_ACCEPTANCE_GATES :: nat where "MAX_ACCEPTANCE_GATES = 8"
definition MAX_REQUIRED_TOOLS :: nat where "MAX_REQUIRED_TOOLS = 8"
definition MAX_LISTED_WORK_EVIDENCE :: nat where "MAX_LISTED_WORK_EVIDENCE = 32"
definition MAX_LISTED_HANDOFF_DIAGNOSTICS :: nat where "MAX_LISTED_HANDOFF_DIAGNOSTICS = 24"
definition MAX_UNRESOLVED_OBLIGATIONS :: nat where "MAX_UNRESOLVED_OBLIGATIONS = 16"
definition MAX_WORK_RECORDS :: nat where "MAX_WORK_RECORDS = 256"
definition MAX_CANDIDATE_PATCHES :: nat where "MAX_CANDIDATE_PATCHES = 512"
definition MAX_CANDIDATE_NEW_FILES :: nat where "MAX_CANDIDATE_NEW_FILES = 512"

section \<open>Actions, templates, gates and tools\<close>

datatype work_action = Start | Resume | Inspect | Cancel

fun work_action_as_str :: "work_action \<Rightarrow> string" where
  "work_action_as_str Start = ''start''"
| "work_action_as_str Resume = ''resume''"
| "work_action_as_str Inspect = ''inspect''"
| "work_action_as_str Cancel = ''cancel''"

datatype work_template = ImplementWithContract | RepairCompileFailure | RefactorAndVerify

fun work_template_as_str :: "work_template \<Rightarrow> string" where
  "work_template_as_str ImplementWithContract = ''implement_with_contract''"
| "work_template_as_str RepairCompileFailure = ''repair_compile_failure''"
| "work_template_as_str RefactorAndVerify = ''refactor_and_verify''"

datatype work_gate = GateCheck | GateClippy | GateTest | GateDoc | GateFmt | GateAll

fun work_gate_as_str :: "work_gate \<Rightarrow> string" where
  "work_gate_as_str GateCheck = ''check''"
| "work_gate_as_str GateClippy = ''clippy''"
| "work_gate_as_str GateTest = ''test''"
| "work_gate_as_str GateDoc = ''doc''"
| "work_gate_as_str GateFmt = ''fmt''"
| "work_gate_as_str GateAll = ''all''"

fun work_gate_target :: "work_gate \<Rightarrow> gate_target_id" where
  "work_gate_target GateCheck = TCheck"
| "work_gate_target GateClippy = TClippy"
| "work_gate_target GateTest = TTest"
| "work_gate_target GateDoc = TDoc"
| "work_gate_target GateFmt = TFmt"
| "work_gate_target GateAll = TAll"

datatype work_tool = ToolChange | ToolCheck | ToolDocs | ToolLsp | ToolAudit | ToolCrateLookup

fun work_tool_as_str :: "work_tool \<Rightarrow> string" where
  "work_tool_as_str ToolChange = ''change''"
| "work_tool_as_str ToolCheck = ''check''"
| "work_tool_as_str ToolDocs = ''docs''"
| "work_tool_as_str ToolLsp = ''lsp''"
| "work_tool_as_str ToolAudit = ''audit''"
| "work_tool_as_str ToolCrateLookup = ''crate_lookup''"

section \<open>Intent, constraints, budgets and requests\<close>

record work_change_budget =
  wcb_max_patches :: nat
  wcb_max_new_files :: nat

record work_intent =
  wi_template :: work_template
  wi_scope_paths :: "string list"
  wi_contract :: string
  wi_stop_condition :: string
  wi_acceptance_gates :: "work_gate list"
  wi_change_budget :: work_change_budget

record work_constraints =
  wc_offline :: bool
  wc_required_tools :: "work_tool list"

record work_budget =
  wb_max_compiles :: nat
  wb_max_candidates :: nat
  wb_max_handoffs :: nat
  wb_wall_time_ms :: nat

record work_request =
  wq_action :: work_action
  wq_work_id :: "string option"
  wq_continuation_token :: "string option"
  wq_change_id :: "string option"
  wq_intent :: "work_intent option"
  wq_patches :: "patch_input list"
  wq_new_files :: "new_file_input list"
  wq_constraints :: work_constraints
  wq_budget :: work_budget

section \<open>Messages\<close>

datatype intent_error =
  ScopePathsEmpty | ScopePathsTooMany | ScopePathEmpty | ScopePathTooLong | ScopePathControl
  | ScopePathEscapes string | ContractEmpty | ContractTooLong | StopConditionEmpty
  | StopConditionTooLong | GatesEmpty | GatesTooMany | MaxPatchesRange | MaxNewFilesRange
  | RepairNeedsCompilerGate

datatype scope_error = CandidateTooLarge | NotInWorkspace string | OutsideScope string

datatype constraint_error =
  TooManyRequiredTools | ToolNotEnabled work_tool | OfflineConflict work_tool

text \<open>Requests refused before a record is touched.\<close>

datatype refusal =
    ToolDisabled work_action
  | StartTakesNoIds
  | IntentRequired
  | IntentInvalid intent_error
  | ScopeViolation scope_error
  | ConstraintViolation constraint_error
  | ActiveLimitReached nat
  | CancelledBeforeStart
  | WorkIdRequired work_action
  | WorkIdInvalid
  | TokenRequired
  | NoRecord
  | NoRecordForChange
  | WorkOrChangeIdRequired

text \<open>Requests against a record that no longer matches.\<close>

datatype stale_cause =
    WorkspaceChanged work_action
  | NoActiveHandoff
  | NoHandoffToken
  | TokenAlreadyUsed
  | TokenMismatch
  | TokenExpired
  | ChangeMoved
  | ResumeWithoutCandidate

text \<open>A budget or the wall time stopped the work.\<close>

datatype stop_cause =
    WallTimeBeforeCandidate nat
  | WallTimeBeforeGate nat
  | WallTimeBeforeHandoff nat
  | CandidateBudgetExhausted nat string
  | CompileBudgetExhausted nat string
  | HandoffBudgetExhausted nat string
  | CandidateBudgetNoStage nat
  | CompileBudgetNoGate nat

text \<open>What the plan nodes themselves ran into.\<close>

datatype plan_event =
    ChangeNotReady string
  | ChangeNotAdopted string string
  | CaptureFailed string string
  | NoProgressCandidate
  | NoBoundChange
  | StagingFailed string string
  | GateWithoutRow work_gate
  | GateTimedOut work_gate
  | GateReturned work_gate string string
  | AllGatesPassed nat nat
  | FreshFailureHandoff
  | NoCandidateHandoff
  | NoProgressFailure
  | GateFailedHandoff work_gate nat

datatype cancel_point =
    DuringCapture | DuringStaging | DuringGates | NoFurtherNodes | WasTerminal | ByHost

datatype work_reason =
    NoReason
  | ChangeReason string
  | Refused refusal
  | Stale stale_cause
  | Stopped stop_cause
  | Plan plan_event
  | CancelledAt cancel_point

text \<open>\<open>reason.is_empty()\<close>: the initial empty string, or an empty text taken over from a change.\<close>

definition reason_is_empty :: "work_reason \<Rightarrow> bool" where
  "reason_is_empty r \<longleftrightarrow> r = NoReason \<or> r = ChangeReason []"

datatype obligation =
    ObligationContract string
  | ObligationStop string
  | ObligationGate work_gate nat
  | ObligationSkipped string

section \<open>Results\<close>

record work_budget_used_data =
  wbu_candidates :: nat
  wbu_compiles :: nat
  wbu_handoffs :: nat
  wbu_elapsed_ms :: nat

record work_evidence_data =
  we_revision :: nat
  we_gate :: string
  we_status :: string
  we_fresh :: bool
  we_exit_code :: "int option"
  we_total_ms :: nat
  we_diagnostics_total :: nat

datatype failure_kind = FailureCompile | FailureTest | FailureNoCandidate

record work_handoff_data =
  wh_continuation_token :: string
  wh_expires_at_ms :: nat
  wh_failure_kind :: failure_kind
  wh_diagnostics :: "change_diagnostic_data list"
  wh_diagnostics_total :: nat
  wh_diagnostics_omitted :: nat
  wh_suggestion_package :: "change_suggestion_package_data option"
  wh_unresolved_obligations :: "obligation list"
  wh_candidate_input_schema :: string

record work_data =
  wd_action :: string
  wd_work_id :: "string option"
  wd_state :: string
  wd_template :: "string option"
  wd_change_id :: "string option"
  wd_revision :: nat
  wd_patch_hash :: "string option"
  wd_acceptance_gates :: "string list"
  wd_scope_paths :: "string list"
  wd_budget :: work_budget
  wd_used :: work_budget_used_data
  wd_handoff :: "work_handoff_data option"
  wd_evidence :: "work_evidence_data list"
  wd_evidence_total :: nat
  wd_reason :: work_reason
  wd_warnings :: "string list"

definition default_work_data :: work_data where
  "default_work_data =
     \<lparr>wd_action = ''inspect'', wd_work_id = None, wd_state = ''absent'', wd_template = None,
      wd_change_id = None, wd_revision = 0, wd_patch_hash = None, wd_acceptance_gates = [],
      wd_scope_paths = [],
      wd_budget = \<lparr>wb_max_compiles = 0, wb_max_candidates = 0, wb_max_handoffs = 0,
        wb_wall_time_ms = 0\<rparr>,
      wd_used = \<lparr>wbu_candidates = 0, wbu_compiles = 0, wbu_handoffs = 0, wbu_elapsed_ms = 0\<rparr>,
      wd_handoff = None, wd_evidence = [], wd_evidence_total = 0, wd_reason = NoReason,
      wd_warnings = []\<rparr>"

record work_outcome =
  wo_status :: string
  wo_is_error :: bool
  wo_data :: work_data

end
