(* ===== verification/Work_Plan.thy ===== *)
theory Work_Plan
  imports Work_Model "HOL-Library.Product_Lexorder"
begin

text \<open>
  The free functions of \<open>work/service.rs\<close>: validation of an intent, the scope check on a host
  candidate, the requests sent to the change service, evidence rows, fingerprints and tokens.
  SHA-256 comes from the \<open>sha2\<close> crate and is the parameter \<open>sha\<close>: the function from the
  hashed bytes to the hexadecimal digest the code prints. A function that returns
  \<open>Result<(), String>\<close> or an optional refusal is an option of the error, \<open>None\<close> when it
  accepts.
\<close>

definition MAX_OBLIGATION_CHARS :: nat where "MAX_OBLIGATION_CHARS = 256"
definition WORK_ID_PREFIX :: string where "WORK_ID_PREFIX = ''wk-''"

section \<open>Requests to the change service\<close>

definition create_request :: change_request where
  "create_request =
     \<lparr>cr_action = ChangeCreate, cr_change_id = None, cr_expected_revision = None,
      cr_base_identity = None, cr_patches = [], cr_new_files = [], cr_migration = None,
      cr_target = TCheck, cr_options = default_validation_options, cr_detail = DetailCompact,
      cr_timings = False\<rparr>"

definition inspect_request :: "string \<Rightarrow> change_request" where
  "inspect_request change_id =
     create_request\<lparr>cr_action := ChangeInspect, cr_change_id := Some change_id\<rparr>"

definition stage_request ::
  "string \<Rightarrow> nat \<Rightarrow> string \<Rightarrow> patch_input list \<Rightarrow> new_file_input list \<Rightarrow> change_request" where
  "stage_request change_id revision base patches new_files =
     create_request\<lparr>cr_action := ChangeStage, cr_change_id := Some change_id,
       cr_expected_revision := Some revision, cr_base_identity := Some base,
       cr_patches := patches, cr_new_files := new_files\<rparr>"

definition validate_request :: "string \<Rightarrow> nat \<Rightarrow> string \<Rightarrow> work_gate \<Rightarrow> change_request" where
  "validate_request change_id revision base gate =
     create_request\<lparr>cr_action := ChangeValidate, cr_change_id := Some change_id,
       cr_expected_revision := Some revision, cr_base_identity := Some base,
       cr_target := work_gate_target gate, cr_detail := DetailStandard\<rparr>"

section \<open>Validation of the intent\<close>

definition validate_scope_path :: "string \<Rightarrow> intent_error option" where
  "validate_scope_path path =
     (if trim path = [] then Some ScopePathEmpty
      else if MAX_SCOPE_PATH_CHARS < chars_count path then Some ScopePathTooLong
      else if has_control path then Some ScopePathControl
      else if is_absolute path \<or> list_ex (\<lambda>c. c = ParentDir \<or> c = RootDir) (components path) \<or>
              components path = []
        then Some (ScopePathEscapes path)
      else None)"

fun first_error :: "('a \<Rightarrow> 'e option) \<Rightarrow> 'a list \<Rightarrow> 'e option" where
  "first_error f [] = None"
| "first_error f (x # xs) = (case f x of Some e \<Rightarrow> Some e | None \<Rightarrow> first_error f xs)"

definition validate_intent :: "work_intent \<Rightarrow> intent_error option" where
  "validate_intent i =
     (if wi_scope_paths i = [] then Some ScopePathsEmpty
      else if MAX_SCOPE_PATHS < length (wi_scope_paths i) then Some ScopePathsTooMany
      else case first_error validate_scope_path (wi_scope_paths i) of
        Some e \<Rightarrow> Some e
      | None \<Rightarrow>
          if trim (wi_contract i) = [] then Some ContractEmpty
          else if MAX_CONTRACT_CHARS < chars_count (wi_contract i) then Some ContractTooLong
          else if trim (wi_stop_condition i) = [] then Some StopConditionEmpty
          else if MAX_STOP_CONDITION_CHARS < chars_count (wi_stop_condition i)
            then Some StopConditionTooLong
          else if wi_acceptance_gates i = [] then Some GatesEmpty
          else if MAX_ACCEPTANCE_GATES < length (wi_acceptance_gates i) then Some GatesTooMany
          else if wcb_max_patches (wi_change_budget i) = 0 \<or>
                  512 < wcb_max_patches (wi_change_budget i) then Some MaxPatchesRange
          else if 512 < wcb_max_new_files (wi_change_budget i) then Some MaxNewFilesRange
          else if wi_template i = RepairCompileFailure \<and>
                  \<not> list_ex (\<lambda>g. g \<noteq> GateFmt) (wi_acceptance_gates i)
            then Some RepairNeedsCompilerGate
          else None)"

section \<open>The candidate stays inside the declared scope\<close>

text \<open>\<open>PathBuf::push\<close> of each normal component; the current directory is skipped.\<close>

fun push_components :: "component list \<Rightarrow> rel_path option" where
  "push_components [] = Some []"
| "push_components (CurDir # cs) = push_components cs"
| "push_components (Normal n # cs) = map_option ((#) n) (push_components cs)"
| "push_components (ParentDir # cs) = None"
| "push_components (RootDir # cs) = None"

definition normalize_relative :: "string \<Rightarrow> rel_path option" where
  "normalize_relative path =
     (if path = [] \<or> is_absolute path then None
      else case push_components (components path) of
        None \<Rightarrow> None
      | Some names \<Rightarrow> if names = [] then None else Some names)"

definition scope_report :: "rel_path list \<Rightarrow> string \<Rightarrow> scope_error option" where
  "scope_report scopes file =
     (case normalize_relative file of
        None \<Rightarrow> Some (NotInWorkspace file)
      | Some normalized \<Rightarrow>
          if list_ex (\<lambda>scope. normalized = scope \<or> starts_with normalized scope) scopes
          then None else Some (OutsideScope file))"

definition candidate_scope_error ::
  "work_intent \<Rightarrow> patch_input list \<Rightarrow> new_file_input list \<Rightarrow> scope_error option" where
  "candidate_scope_error i patches new_files =
     (if MAX_CANDIDATE_PATCHES < length patches \<or> MAX_CANDIDATE_NEW_FILES < length new_files
      then Some CandidateTooLarge
      else
        let scopes = List.map_filter normalize_relative (wi_scope_paths i) in
        case first_error (\<lambda>p. scope_report scopes (pi_file p)) patches of
          Some e \<Rightarrow> Some e
        | None \<Rightarrow> first_error (\<lambda>f. scope_report scopes (nf_file f)) new_files)"

section \<open>Gates and evidence rows\<close>

fun push_unique :: "'a list \<Rightarrow> 'a list \<Rightarrow> 'a list" where
  "push_unique acc [] = acc"
| "push_unique acc (x # xs) = push_unique (if x \<in> set acc then acc else acc @ [x]) xs"

definition unique_gates :: "work_intent \<Rightarrow> work_gate list" where
  "unique_gates i = push_unique [] (wi_acceptance_gates i)"

definition select_row :: "change_data \<Rightarrow> work_gate \<Rightarrow> change_evidence_data option" where
  "select_row d gate =
     List.find (\<lambda>row. ev_revision row = cd_revision d \<and> ev_fresh row \<and>
        (gate = GateAll \<or> ev_target row = work_gate_as_str gate)) (rev (cd_evidence d))"

definition evidence_row :: "work_gate \<Rightarrow> change_evidence_data \<Rightarrow> work_evidence_data" where
  "evidence_row gate row =
     \<lparr>we_revision = ev_revision row, we_gate = work_gate_as_str gate,
      we_status =
        (if ev_status row = ''FAST_PASS'' \<or> ev_status row = ''FULL_PASS'' \<or> ev_status row = ''PASS''
         then ''PASS'' else ev_status row),
      we_fresh = ev_fresh row, we_exit_code = ev_exit_code row, we_total_ms = ev_total_ms row,
      we_diagnostics_total = ev_diagnostics_total row\<rparr>"

section \<open>Truncation, fingerprints, tokens and ids\<close>

definition truncate_text :: "string \<Rightarrow> nat \<Rightarrow> string" where
  "truncate_text s max_len =
     (if length s \<le> max_len then s else take (floor_char_boundary s max_len) s)"

definition NUL :: string where "NUL = [CHR 0x00]"

definition sha256_hex :: "(string \<Rightarrow> string) \<Rightarrow> string \<Rightarrow> string" where
  "sha256_hex sha bytes = sha bytes"

definition candidate_fingerprint ::
  "(string \<Rightarrow> string) \<Rightarrow> patch_input list \<Rightarrow> new_file_input list \<Rightarrow> string" where
  "candidate_fingerprint sha patches new_files =
     (let entries = sort (map (\<lambda>p. (pi_file p, pi_old_string p, pi_new_string p)) patches);
          files = sort (map (\<lambda>f. (nf_file f, sha256_hex sha (nf_content f))) new_files)
      in sha (''agz-rust-mcp-work-candidate'' @ NUL @
           concat (map (\<lambda>(file, old, new). file @ NUL @ old @ NUL @ new @ NUL) entries) @
           concat (map (\<lambda>(file, digest). file @ NUL @ digest @ NUL) files)))"

definition opt_str :: "string option \<Rightarrow> string" where
  "opt_str s = (case s of None \<Rightarrow> [] | Some t \<Rightarrow> t)"

definition failure_fingerprint ::
  "(string \<Rightarrow> string) \<Rightarrow> change_diagnostic_data list \<Rightarrow> nat \<Rightarrow> string option" where
  "failure_fingerprint sha diagnostics n_total =
     (if diagnostics = [] \<and> n_total = 0 then None
      else Some (sha (''agz-rust-mcp-work-failure'' @ NUL @ dec n_total @ NUL @
        concat (map (\<lambda>d. opt_str (dg_code d) @ NUL @ opt_str (dg_file d) @ NUL @
          dec (case dg_line d of None \<Rightarrow> 0 | Some l \<Rightarrow> l) @ NUL @ dg_message d @ NUL)
          diagnostics))))"

definition generate_token ::
  "(string \<Rightarrow> string) \<Rightarrow> string \<Rightarrow> nat \<Rightarrow> string \<Rightarrow> nat \<Rightarrow> nat \<Rightarrow> string" where
  "generate_token sha work_id revision patch_hash seq_no issued_at_ms =
     sha (''agz-rust-mcp-work-token'' @ NUL @ work_id @ NUL @ dec revision @ NUL @ patch_hash @ NUL @
       dec seq_no @ NUL @ dec issued_at_ms)"

definition is_valid_work_id :: "string \<Rightarrow> bool" where
  "is_valid_work_id i \<longleftrightarrow>
     i \<noteq> [] \<and> length i \<le> 64 \<and> starts_with i WORK_ID_PREFIX \<and>
     list_all (\<lambda>c. is_ascii_lowercase c \<or> is_ascii_digit c \<or> c = CHR ''-'') i"

text \<open>The text \<open>next_work_id\<close> prints from the clock, the process id and the sequence number.\<close>

definition format_work_id :: "nat \<Rightarrow> nat \<Rightarrow> nat \<Rightarrow> string" where
  "format_work_id now pid seq_no = WORK_ID_PREFIX @ hex now @ ''-'' @ hex pid @ ''-'' @ hex seq_no"

section \<open>Lemmas\<close>

lemma first_error_None: "first_error f xs = None \<longleftrightarrow> (\<forall>x \<in> set xs. f x = None)"
  by (induction xs) (auto split: option.splits)

lemma push_unique_props:
  "distinct acc \<Longrightarrow> distinct (push_unique acc xs) \<and> set (push_unique acc xs) = set acc \<union> set xs"
  by (induction acc xs rule: push_unique.induct) auto

lemma length_push_unique: "length (push_unique acc xs) \<le> length acc + length xs"
  by (induction acc xs rule: push_unique.induct) force+

lemma unique_gates_distinct: "distinct (unique_gates i)"
  and set_unique_gates: "set (unique_gates i) = set (wi_acceptance_gates i)"
  using push_unique_props [of "[]" "wi_acceptance_gates i"] by (simp_all add: unique_gates_def)

lemma length_unique_gates: "length (unique_gates i) \<le> length (wi_acceptance_gates i)"
  using length_push_unique [of "[]"] by (simp add: unique_gates_def)

lemma push_components_plain:
  "push_components cs = Some names \<Longrightarrow> n \<in> set names \<Longrightarrow> Normal n \<in> set cs"
  by (induction cs arbitrary: names rule: push_components.induct) auto

lemma normalize_relative_plain:
  "normalize_relative path = Some names \<Longrightarrow> names \<noteq> [] \<and> (\<forall>n \<in> set names. plain_name n)"
  by (auto simp: normalize_relative_def dest: push_components_plain components_plain
      split: if_splits option.splits)

lemma scope_report_None:
  "scope_report scopes file = None \<longleftrightarrow>
    (\<exists>names scope. normalize_relative file = Some names \<and> scope \<in> set scopes \<and>
      starts_with names scope)"
  by (auto simp: scope_report_def list_ex_iff starts_with_iff split: option.splits if_splits)

lemma truncate_text_prefix: "\<exists>t. s = truncate_text s n @ t"
  by (metis append_Nil2 append_take_drop_id truncate_text_def)

lemma length_truncate_text: "length (truncate_text s n) \<le> n"
  using floor_char_boundary_le [of s n] by (auto simp: truncate_text_def)

end
