(* ===== verification/Work_Record.thy ===== *)
theory Work_Record
  imports Work_Plan "HOL-Library.Word"
begin

text \<open>
  The in-memory work record and its bounded store (\<open>work/service.rs\<close>: \<open>WorkState\<close>,
  \<open>HandoffToken\<close>, \<open>WorkRecord\<close> and the store methods of \<open>WorkService\<close>). A
  \<open>CancellationToken\<close> is a number; the world lists the cancelled ones. Locks are never poisoned
  (no code panics while it holds the record lock), so the branches for a poisoned lock are absent.
  Each function that reads the clock takes the reading as an argument, so a clock that jumps in any
  direction is covered.
\<close>

definition LOCK_STRIPES :: nat where "LOCK_STRIPES = 64"
definition MAX_RECORD_WARNINGS :: nat where "MAX_RECORD_WARNINGS = 16"

section \<open>States, tokens and records\<close>

datatype work_state =
  Planned | Collecting | Staging | Validating | NeedsModel | Ready | Blocked | Failed | Cancelled

fun work_state_as_str :: "work_state \<Rightarrow> string" where
  "work_state_as_str Planned = ''planned''"
| "work_state_as_str Collecting = ''collecting''"
| "work_state_as_str Staging = ''staging''"
| "work_state_as_str Validating = ''validating''"
| "work_state_as_str NeedsModel = ''needs_model''"
| "work_state_as_str Ready = ''ready''"
| "work_state_as_str Blocked = ''blocked''"
| "work_state_as_str Failed = ''failed''"
| "work_state_as_str Cancelled = ''cancelled''"

fun work_state_is_terminal :: "work_state \<Rightarrow> bool" where
  "work_state_is_terminal Ready = True"
| "work_state_is_terminal Blocked = True"
| "work_state_is_terminal Failed = True"
| "work_state_is_terminal Cancelled = True"
| "work_state_is_terminal _ = False"

record handoff_token =
  ht_token_hash :: string
  ht_change_id :: string
  ht_revision :: nat
  ht_patch_hash :: string
  ht_expires_at_ms :: nat
  ht_used :: bool

type_synonym cancel_token = nat

record work_record =
  wr_id :: string
  wr_created_at_ms :: nat
  wr_updated_at_ms :: nat
  wr_workspace_root :: string
  wr_workspace_epoch :: nat
  wr_state :: work_state
  wr_intent :: work_intent
  wr_budget :: work_budget
  wr_change_id :: "string option"
  wr_base_identity :: "string option"
  wr_revision :: nat
  wr_patch_hash :: "string option"
  wr_candidates :: nat
  wr_compiles :: nat
  wr_handoffs :: nat
  wr_tried_fingerprints :: "string list"
  wr_last_failure_fingerprint :: "string option"
  wr_token :: "handoff_token option"
  wr_handoff :: "work_handoff_data option"
  wr_evidence :: "work_evidence_data list"
  wr_reason :: work_reason
  wr_warnings :: "string list"
  wr_cancellation :: cancel_token

definition record_block :: "work_record \<Rightarrow> work_reason \<Rightarrow> work_record" where
  "record_block r reason = r\<lparr>wr_state := Blocked, wr_reason := reason\<rparr>"

definition record_fail :: "work_record \<Rightarrow> work_reason \<Rightarrow> work_record" where
  "record_fail r reason = r\<lparr>wr_state := Failed, wr_reason := reason\<rparr>"

definition push_warning :: "work_record \<Rightarrow> string \<Rightarrow> work_record" where
  "push_warning r warning =
     (if warning = [] \<or> warning \<in> set (wr_warnings r) then r
      else r\<lparr>wr_warnings :=
        (if MAX_RECORD_WARNINGS \<le> length (wr_warnings r) then tl (wr_warnings r)
         else wr_warnings r) @ [warning]\<rparr>)"

definition push_evidence :: "work_record \<Rightarrow> work_evidence_data \<Rightarrow> work_record" where
  "push_evidence r row =
     (let rows = wr_evidence r @ [row] in
      r\<lparr>wr_evidence := (if MAX_LISTED_WORK_EVIDENCE < length rows then tl rows else rows)\<rparr>)"

definition deadline_ms :: "work_record \<Rightarrow> nat" where
  "deadline_ms r = sat_add (wr_created_at_ms r) (wb_wall_time_ms (wr_budget r))"

text \<open>
  The service's configuration: \<open>WorkConfig\<close>, the tool switches of \<open>ToolConfig\<close> it reads, whether
  it was built over a change service, the process id and the JSON schema text of a candidate.
\<close>

record work_config =
  cfg_max_active :: nat
  cfg_continuation_ttl_ms :: nat
  cfg_has_change :: bool
  cfg_tool_change :: bool
  cfg_tool_docs :: bool
  cfg_tool_lsp :: bool
  cfg_tool_audit :: bool
  cfg_tool_crate_lookup :: bool
  cfg_pid :: nat
  cfg_candidate_input_schema :: string

record work_service =
  ws_records :: "(string, work_record) btree_map"
  ws_sequence :: nat
  ws_next_token :: cancel_token
  ws_cancelled :: "cancel_token list"

definition work_service_new :: work_service where
  "work_service_new = \<lparr>ws_records = [], ws_sequence = 0, ws_next_token = 0, ws_cancelled = []\<rparr>"

definition is_cancelled :: "work_service \<Rightarrow> cancel_token \<Rightarrow> bool" where
  "is_cancelled w tok \<longleftrightarrow> tok \<in> set (ws_cancelled w)"

definition cancel_token_cancel :: "cancel_token \<Rightarrow> work_service \<Rightarrow> work_service" where
  "cancel_token_cancel tok w = w\<lparr>ws_cancelled := tok # ws_cancelled w\<rparr>"

definition new_token :: "work_service \<Rightarrow> cancel_token \<times> work_service" where
  "new_token w = (ws_next_token w, w\<lparr>ws_next_token := Suc (ws_next_token w)\<rparr>)"

section \<open>The record store\<close>

text \<open>The lock stripe of an id: FNV-1a over its bytes with 64-bit wrap-around, modulo 64.\<close>

unbundle bit_operations_syntax

definition fnv_step :: "64 word \<Rightarrow> char \<Rightarrow> 64 word" where
  "fnv_step h c = (h XOR of_nat (of_char c)) * 0x100000001b3"

definition stripe :: "string \<Rightarrow> nat" where
  "stripe i = unat (foldl fnv_step 0xcbf29ce484222325 i mod of_nat LOCK_STRIPES)"

text \<open>\<open>AtomicU64::fetch_add(1)\<close> wraps.\<close>

definition fetch_sequence :: "work_service \<Rightarrow> nat \<times> work_service" where
  "fetch_sequence w = (ws_sequence w, w\<lparr>ws_sequence := Suc (ws_sequence w) mod 2 ^ 64\<rparr>)"

definition next_work_id :: "work_config \<Rightarrow> nat \<Rightarrow> work_service \<Rightarrow> string \<times> work_service" where
  "next_work_id cfg now w =
     (let (seq_no, w) = fetch_sequence w in (format_work_id now (cfg_pid cfg) seq_no, w))"

definition load_record :: "work_service \<Rightarrow> string \<Rightarrow> work_record option" where
  "load_record w i = bt_get (ws_records w) i"

definition active_count :: "work_service \<Rightarrow> nat" where
  "active_count w =
     min u64_max (length (filter (\<lambda>r. \<not> work_state_is_terminal (wr_state r))
       (bt_values (ws_records w))))"

definition work_insert :: "work_record \<Rightarrow> work_service \<Rightarrow> work_service" where
  "work_insert r w =
     (let victim =
        (if MAX_WORK_RECORDS \<le> length (ws_records w)
         then map_option fst (min_by_key (\<lambda>e. wr_updated_at_ms (snd e))
           (filter (\<lambda>e. work_state_is_terminal (wr_state (snd e))) (ws_records w)))
         else None);
          kept = (case victim of None \<Rightarrow> ws_records w | Some v \<Rightarrow> bt_remove v (ws_records w))
      in w\<lparr>ws_records := bt_insert (wr_id r) r kept\<rparr>)"

definition work_set_state :: "nat \<Rightarrow> string \<Rightarrow> work_state \<Rightarrow> work_service \<Rightarrow> work_service" where
  "work_set_state now i st w =
     (case bt_get (ws_records w) i of
        None \<Rightarrow> w
      | Some r \<Rightarrow>
          if wr_state r = Cancelled then w
          else w\<lparr>ws_records :=
            bt_insert i (r\<lparr>wr_state := st, wr_updated_at_ms := now\<rparr>) (ws_records w)\<rparr>)"

definition work_commit :: "nat \<Rightarrow> work_record \<Rightarrow> work_service \<Rightarrow> work_service" where
  "work_commit now r w =
     (case bt_get (ws_records w) (wr_id r) of
        None \<Rightarrow> w
      | Some current \<Rightarrow>
          if wr_state current = Cancelled then w
          else w\<lparr>ws_records :=
            bt_insert (wr_id r)
              (r\<lparr>wr_cancellation := wr_cancellation current, wr_updated_at_ms := now\<rparr>)
              (ws_records w)\<rparr>)"

section \<open>Constraints and stop conditions\<close>

fun tool_enabled :: "work_config \<Rightarrow> work_tool \<Rightarrow> bool" where
  "tool_enabled cfg ToolChange = (cfg_has_change cfg \<and> cfg_tool_change cfg)"
| "tool_enabled cfg ToolCheck = True"
| "tool_enabled cfg ToolDocs = cfg_tool_docs cfg"
| "tool_enabled cfg ToolLsp = cfg_tool_lsp cfg"
| "tool_enabled cfg ToolAudit = cfg_tool_audit cfg"
| "tool_enabled cfg ToolCrateLookup = cfg_tool_crate_lookup cfg"

definition check_constraints :: "work_config \<Rightarrow> work_constraints \<Rightarrow> constraint_error option" where
  "check_constraints cfg c =
     (if MAX_REQUIRED_TOOLS < length (wc_required_tools c) then Some TooManyRequiredTools
      else first_error (\<lambda>t.
        if \<not> tool_enabled cfg t then Some (ToolNotEnabled t)
        else if wc_offline c \<and> (t = ToolDocs \<or> t = ToolCrateLookup) then Some (OfflineConflict t)
        else None) (wc_required_tools c))"

definition stop_before_candidate :: "nat \<Rightarrow> work_record \<Rightarrow> stop_cause option" where
  "stop_before_candidate now r =
     (let b = wr_budget r; stop = truncate_text (wi_stop_condition (wr_intent r)) MAX_OBLIGATION_CHARS in
      if deadline_ms r \<le> now then Some (WallTimeBeforeCandidate (wb_wall_time_ms b))
      else if wb_max_candidates b \<le> wr_candidates r
        then Some (CandidateBudgetExhausted (wb_max_candidates b) stop)
      else if wb_max_compiles b \<le> wr_compiles r
        then Some (CompileBudgetExhausted (wb_max_compiles b) stop)
      else None)"

definition stop_before_compile :: "nat \<Rightarrow> work_record \<Rightarrow> stop_cause option" where
  "stop_before_compile now r =
     (let b = wr_budget r; stop = truncate_text (wi_stop_condition (wr_intent r)) MAX_OBLIGATION_CHARS in
      if deadline_ms r \<le> now then Some (WallTimeBeforeGate (wb_wall_time_ms b))
      else if wb_max_compiles b \<le> wr_compiles r
        then Some (CompileBudgetExhausted (wb_max_compiles b) stop)
      else None)"

definition stop_before_handoff :: "nat \<Rightarrow> work_record \<Rightarrow> stop_cause option" where
  "stop_before_handoff now r =
     (let b = wr_budget r; stop = truncate_text (wi_stop_condition (wr_intent r)) MAX_OBLIGATION_CHARS in
      if wb_max_handoffs b \<le> wr_handoffs r
        then Some (HandoffBudgetExhausted (wb_max_handoffs b) stop)
      else if wb_max_candidates b \<le> wr_candidates r
        then Some (CandidateBudgetNoStage (wb_max_candidates b))
      else if wb_max_compiles b \<le> wr_compiles r
        then Some (CompileBudgetNoGate (wb_max_compiles b))
      else if deadline_ms r \<le> now then Some (WallTimeBeforeHandoff (wb_wall_time_ms b))
      else None)"

section \<open>Handoffs\<close>

fun push_obligations :: "obligation list \<Rightarrow> obligation list \<Rightarrow> obligation list" where
  "push_obligations acc [] = acc"
| "push_obligations acc (x # xs) =
     (if MAX_UNRESOLVED_OBLIGATIONS \<le> length (acc @ [x]) then acc @ [x]
      else push_obligations (acc @ [x]) xs)"

definition unresolved_obligations ::
  "work_record \<Rightarrow> change_suggestion_package_data option \<Rightarrow> obligation list" where
  "unresolved_obligations r package =
     (let base = push_obligations
        [ObligationContract (truncate_text (wi_contract (wr_intent r)) MAX_OBLIGATION_CHARS),
         ObligationStop (truncate_text (wi_stop_condition (wr_intent r)) MAX_OBLIGATION_CHARS)]
        (map (\<lambda>g. ObligationGate g (wr_revision r)) (unique_gates (wr_intent r)))
      in case package of
        None \<Rightarrow> base
      | Some p \<Rightarrow>
          base @ take (MAX_UNRESOLVED_OBLIGATIONS - length base)
            (map (\<lambda>s. ObligationSkipped (truncate_text s MAX_OBLIGATION_CHARS))
              (take 4 (spk_skipped p))))"

definition issue_token ::
  "(string \<Rightarrow> string) \<Rightarrow> work_config \<Rightarrow> nat \<Rightarrow> work_record \<Rightarrow> failure_kind \<Rightarrow>
   change_diagnostic_data list \<Rightarrow> nat \<Rightarrow> nat \<Rightarrow> change_suggestion_package_data option \<Rightarrow>
   work_service \<Rightarrow> work_handoff_data \<times> work_record \<times> work_service" where
  "issue_token sha cfg now r kind diagnostics n_total omitted package w =
     (let change_id = opt_str (wr_change_id r);
          patch_hash = opt_str (wr_patch_hash r);
          expires = sat_add now (cfg_continuation_ttl_ms cfg);
          (seq_no, w) = fetch_sequence w;
          token = generate_token sha (wr_id r) (wr_revision r) patch_hash seq_no now;
          r = r\<lparr>wr_token := Some \<lparr>ht_token_hash = sha256_hex sha token, ht_change_id = change_id,
                 ht_revision = wr_revision r, ht_patch_hash = patch_hash,
                 ht_expires_at_ms = expires, ht_used = False\<rparr>\<rparr>
      in (\<lparr>wh_continuation_token = token, wh_expires_at_ms = expires, wh_failure_kind = kind,
           wh_diagnostics = take MAX_LISTED_HANDOFF_DIAGNOSTICS diagnostics,
           wh_diagnostics_total = n_total, wh_diagnostics_omitted = omitted,
           wh_suggestion_package = package,
           wh_unresolved_obligations = unresolved_obligations r package,
           wh_candidate_input_schema = cfg_candidate_input_schema cfg\<rparr>, r, w))"

definition handoff_from_current ::
  "(string \<Rightarrow> string) \<Rightarrow> work_config \<Rightarrow> (nat \<Rightarrow> nat) \<Rightarrow> work_record \<Rightarrow> change_data option \<Rightarrow>
   work_service \<Rightarrow> work_record \<times> work_service" where
  "handoff_from_current sha cfg now r current w =
     (let failure =
        (case current of None \<Rightarrow> None
         | Some d \<Rightarrow> List.find (\<lambda>row. ev_revision row = cd_revision d \<and> ev_fresh row \<and>
             ev_status row = ''FAIL'') (rev (cd_evidence d)));
          r = (case current of None \<Rightarrow> r
         | Some d \<Rightarrow> r\<lparr>wr_revision := cd_revision d, wr_patch_hash := cd_patch_hash d,
             wr_base_identity :=
               (if cd_base_identity d \<noteq> None then cd_base_identity d else wr_base_identity r)\<rparr>)
      in case stop_before_handoff (now 0) r of
        Some cause \<Rightarrow> (record_block r (Stopped cause), w)
      | None \<Rightarrow>
          let r = r\<lparr>wr_handoffs := sat_add (wr_handoffs r) 1\<rparr>;
              (handoff, r, w) = (case failure of
                Some row \<Rightarrow> issue_token sha cfg (now 1) r FailureCompile (ev_diagnostics row)
                  (ev_diagnostics_total row) (ev_diagnostics_omitted row)
                  (ev_suggestion_package row) w
              | None \<Rightarrow> issue_token sha cfg (now 1) r FailureNoCandidate [] 0 0 None w)
          in (r\<lparr>wr_state := NeedsModel,
                wr_reason := Plan (if failure \<noteq> None then FreshFailureHandoff else NoCandidateHandoff),
                wr_handoff := Some handoff\<rparr>, w))"

definition handoff_after_failure ::
  "(string \<Rightarrow> string) \<Rightarrow> work_config \<Rightarrow> (nat \<Rightarrow> nat) \<Rightarrow> work_record \<Rightarrow> work_gate \<Rightarrow>
   change_evidence_data \<Rightarrow> work_service \<Rightarrow> work_record \<times> work_service" where
  "handoff_after_failure sha cfg now r gate row w =
     (let fingerprint = failure_fingerprint sha (ev_diagnostics row) (ev_diagnostics_total row) in
      if fingerprint \<noteq> None \<and> wr_last_failure_fingerprint r = fingerprint
      then (record_block r (Plan NoProgressFailure), w)
      else
        let r = (if fingerprint \<noteq> None then r\<lparr>wr_last_failure_fingerprint := fingerprint\<rparr> else r) in
        case stop_before_handoff (now 0) r of
          Some cause \<Rightarrow> (record_block r (Stopped cause), w)
        | None \<Rightarrow>
            let r = r\<lparr>wr_handoffs := sat_add (wr_handoffs r) 1\<rparr>;
                (handoff, r, w) = issue_token sha cfg (now 1) r
                  (if gate = GateTest then FailureTest else FailureCompile)
                  (ev_diagnostics row) (ev_diagnostics_total row) (ev_diagnostics_omitted row)
                  (ev_suggestion_package row) w
            in (r\<lparr>wr_state := NeedsModel, wr_reason := Plan (GateFailedHandoff gate (wr_revision r)),
                  wr_handoff := Some handoff\<rparr>, w))"

section \<open>Results\<close>

definition data_for_record :: "nat \<Rightarrow> string \<Rightarrow> work_record \<Rightarrow> work_data" where
  "data_for_record now action r =
     \<lparr>wd_action = action, wd_work_id = Some (wr_id r), wd_state = work_state_as_str (wr_state r),
      wd_template = Some (work_template_as_str (wi_template (wr_intent r))),
      wd_change_id = wr_change_id r, wd_revision = wr_revision r, wd_patch_hash = wr_patch_hash r,
      wd_acceptance_gates = map work_gate_as_str (unique_gates (wr_intent r)),
      wd_scope_paths = wi_scope_paths (wr_intent r), wd_budget = wr_budget r,
      wd_used = \<lparr>wbu_candidates = wr_candidates r, wbu_compiles = wr_compiles r,
        wbu_handoffs = wr_handoffs r, wbu_elapsed_ms = now - wr_created_at_ms r\<rparr>,
      wd_handoff = (if wr_state r = NeedsModel then wr_handoff r else None),
      wd_evidence = rev (take MAX_LISTED_WORK_EVIDENCE (rev (wr_evidence r))),
      wd_evidence_total = min u64_max (length (wr_evidence r)), wd_reason = wr_reason r,
      wd_warnings = wr_warnings r\<rparr>"

fun state_status :: "work_state \<Rightarrow> string \<times> bool" where
  "state_status NeedsModel = (''NEEDS_MODEL'', False)"
| "state_status Ready = (''READY'', False)"
| "state_status Blocked = (''BLOCKED'', True)"
| "state_status Cancelled = (''CANCELLED'', True)"
| "state_status _ = (''FAILED'', True)"

definition outcome_for_record :: "nat \<Rightarrow> work_record \<Rightarrow> work_action \<Rightarrow> work_outcome" where
  "outcome_for_record now r action =
     \<lparr>wo_status = fst (state_status (wr_state r)), wo_is_error = snd (state_status (wr_state r)),
      wo_data = data_for_record now (work_action_as_str action) r\<rparr>"

definition finish_error ::
  "(nat \<Rightarrow> nat) \<Rightarrow> work_record \<Rightarrow> work_action \<Rightarrow> string \<Rightarrow> work_reason \<Rightarrow> work_service \<Rightarrow>
   work_outcome \<times> work_service" where
  "finish_error now r action status reason w =
     (let r = (if \<not> work_state_is_terminal (wr_state r)
               then r\<lparr>wr_state := (if status = ''BLOCKED'' then Blocked else Failed)\<rparr> else r);
          r = r\<lparr>wr_reason := reason\<rparr>
      in (\<lparr>wo_status = status, wo_is_error = True,
           wo_data = data_for_record (now 1) (work_action_as_str action) r\<rparr>,
          work_commit (now 0) r w))"

definition refuse :: "work_action \<Rightarrow> string \<Rightarrow> refusal \<Rightarrow> string option \<Rightarrow> work_outcome" where
  "refuse action status reason work_id =
     \<lparr>wo_status = status, wo_is_error = True,
      wo_data = default_work_data\<lparr>wd_action := work_action_as_str action, wd_work_id := work_id,
        wd_state := ''absent'', wd_reason := Refused reason\<rparr>\<rparr>"

definition reject ::
  "nat \<Rightarrow> work_record \<Rightarrow> work_action \<Rightarrow> string \<Rightarrow> work_reason \<Rightarrow> work_outcome" where
  "reject now r action status reason =
     \<lparr>wo_status = status, wo_is_error = True,
      wo_data = (data_for_record now (work_action_as_str action) r)\<lparr>wd_reason := reason\<rparr>\<rparr>"

definition finalize ::
  "nat \<Rightarrow> work_record \<Rightarrow> cancel_token \<Rightarrow> work_service \<Rightarrow> work_record \<times> work_service" where
  "finalize now r work_token w =
     (let r = (if is_cancelled w work_token \<and> wr_state r \<noteq> Cancelled
               then r\<lparr>wr_state := Cancelled, wr_reason := CancelledAt NoFurtherNodes\<rparr> else r)
      in (r, work_commit now r w))"

end
