(* ===== verification/Work_Service.thy ===== *)
theory Work_Service
  imports Work_Record
begin

text \<open>
  The operations of the work executor (\<open>work/service.rs\<close>, \<open>impl WorkService\<close>). The four actions
  are asynchronous: between two \<open>await\<close>s on the change service other requests run. Each stretch
  between awaits is one function; where the code awaits, it returns \<open>Suspend\<close> with the local
  variables that stay live and the request sent to the change service, and the matching
  continuation takes the outcome. The outcome is an input here, so every theorem holds for whatever
  the change service answers and whatever the other requests did to the store meanwhile.

  \<open>now 0\<close>, \<open>now 1\<close>, ... are the clock readings of one stretch, one index per call of
  \<open>now_ms\<close>. A \<open>bridge\<close> is the combined cancellation token with the two tokens that cancel it.
\<close>

record workspace =
  wsp_root :: string
  wsp_epoch :: nat

record bridge =
  br_request :: cancel_token
  br_work :: cancel_token
  br_token :: cancel_token

datatype work_task =
    AwaitAdopt work_record bridge work_request string
  | AwaitCreate work_record bridge work_request
  | AwaitRebind work_record work_request handoff_token cancel_token
  | AwaitStage work_action work_record bridge string string
  | AwaitGate work_action work_record bridge string work_gate "work_gate list"

datatype work_step = Done work_outcome | Suspend work_task change_request

definition make_bridge :: "cancel_token \<Rightarrow> cancel_token \<Rightarrow> work_service \<Rightarrow> bridge \<times> work_service" where
  "make_bridge request work w =
     (let (combined, w) = new_token w
      in (\<lparr>br_request = request, br_work = work, br_token = combined\<rparr>, w))"

definition other_workspace :: "work_record \<Rightarrow> workspace \<Rightarrow> bool" where
  "other_workspace r ws \<longleftrightarrow>
     wr_workspace_root r \<noteq> wsp_root ws \<or> wr_workspace_epoch r \<noteq> wsp_epoch ws"

text \<open>The common tail of \<open>start\<close> and \<open>resume\<close>: \<open>finalize\<close>, then the outcome.\<close>

definition work_complete ::
  "(nat \<Rightarrow> nat) \<Rightarrow> work_action \<Rightarrow> work_record \<Rightarrow> bridge \<Rightarrow> work_service \<Rightarrow>
   work_step \<times> work_service" where
  "work_complete now action r b w =
     (let (r, w) = finalize (now 8) r (br_work b) w
      in (Done (outcome_for_record (now 9) r action), w))"

section \<open>Driving one candidate\<close>

definition drive_begin ::
  "(string \<Rightarrow> string) \<Rightarrow> work_config \<Rightarrow> (nat \<Rightarrow> nat) \<Rightarrow> work_action \<Rightarrow> work_record \<Rightarrow> bridge \<Rightarrow>
   change_data option \<Rightarrow> patch_input list \<Rightarrow> new_file_input list \<Rightarrow> work_service \<Rightarrow>
   work_step \<times> work_service" where
  "drive_begin sha cfg now action r b current patches new_files w =
     (if patches = [] \<and> new_files = [] then
        let (r, w) = handoff_from_current sha cfg now r current w in work_complete now action r b w
      else case candidate_scope_error (wr_intent r) patches new_files of
        Some e \<Rightarrow> work_complete now action (record_block r (Refused (ScopeViolation e))) b w
      | None \<Rightarrow>
        (case stop_before_candidate (now 2) r of
          Some cause \<Rightarrow> work_complete now action (record_block r (Stopped cause)) b w
        | None \<Rightarrow>
          let fingerprint = candidate_fingerprint sha patches new_files in
          if fingerprint \<in> set (wr_tried_fingerprints r) then
            work_complete now action (record_block r (Plan NoProgressCandidate)) b w
          else case wr_change_id r of
            None \<Rightarrow> work_complete now action (record_fail r (Plan NoBoundChange)) b w
          | Some change_id \<Rightarrow>
              let base = opt_str (wr_base_identity r);
                  r = r\<lparr>wr_state := Staging\<rparr>;
                  w = work_set_state (now 3) (wr_id r) Staging w
              in (Suspend (AwaitStage action r b change_id fingerprint)
                    (stage_request change_id (wr_revision r) base patches new_files), w)))"

text \<open>One turn of the loop over the unique gates, up to the validation request.\<close>

fun drive_gates ::
  "(nat \<Rightarrow> nat) \<Rightarrow> work_action \<Rightarrow> work_record \<Rightarrow> bridge \<Rightarrow> string \<Rightarrow> work_gate list \<Rightarrow>
   work_service \<Rightarrow> work_step \<times> work_service" where
  "drive_gates now action r b change_id [] w =
     work_complete now action
       (r\<lparr>wr_state := Ready,
          wr_reason := Plan (AllGatesPassed (length (wi_acceptance_gates (wr_intent r)))
            (wr_revision r))\<rparr>) b w"
| "drive_gates now action r b change_id (gate # gates) w =
     (if is_cancelled w (br_token b) then
        work_complete now action
          (r\<lparr>wr_state := Cancelled, wr_reason := CancelledAt DuringGates\<rparr>) b w
      else case stop_before_compile (now 4) r of
        Some cause \<Rightarrow> work_complete now action (record_block r (Stopped cause)) b w
      | None \<Rightarrow>
          let r = r\<lparr>wr_compiles := sat_add (wr_compiles r) 1\<rparr> in
          (Suspend (AwaitGate action r b change_id gate gates)
             (validate_request change_id (wr_revision r) (opt_str (wr_base_identity r)) gate), w))"

definition drive_staged ::
  "(nat \<Rightarrow> nat) \<Rightarrow> work_action \<Rightarrow> work_record \<Rightarrow> bridge \<Rightarrow> string \<Rightarrow> string \<Rightarrow> change_outcome \<Rightarrow>
   work_service \<Rightarrow> work_step \<times> work_service" where
  "drive_staged now action r b change_id fingerprint staged w =
     (let d = co_data staged;
          r = r\<lparr>wr_warnings := wr_warnings r @ cd_cleanup_warnings d\<rparr>
      in if co_status staged = ''STAGED'' then
           let r = r\<lparr>wr_tried_fingerprints := wr_tried_fingerprints r @ [fingerprint],
                     wr_candidates := sat_add (wr_candidates r) 1,
                     wr_revision := cd_revision d, wr_patch_hash := cd_patch_hash d,
                     wr_base_identity :=
                       (case cd_base_identity d of None \<Rightarrow> wr_base_identity r | Some i \<Rightarrow> Some i),
                     wr_state := Validating\<rparr>;
               w = work_set_state (now 0) (wr_id r) Validating w
           in drive_gates now action r b change_id (unique_gates (wr_intent r)) w
         else if co_status staged = ''CANCELLED'' then
           work_complete now action
             (r\<lparr>wr_state := Cancelled, wr_reason := CancelledAt DuringStaging\<rparr>) b w
         else work_complete now action
           (record_fail r (Plan (StagingFailed (co_status staged) (cd_reason d)))) b w)"

definition drive_validated ::
  "(string \<Rightarrow> string) \<Rightarrow> work_config \<Rightarrow> (nat \<Rightarrow> nat) \<Rightarrow> work_action \<Rightarrow> work_record \<Rightarrow> bridge \<Rightarrow>
   string \<Rightarrow> work_gate \<Rightarrow> work_gate list \<Rightarrow> change_outcome \<Rightarrow> work_service \<Rightarrow>
   work_step \<times> work_service" where
  "drive_validated sha cfg now action r b change_id gate gates outcome w =
     (let d = co_data outcome;
          r = r\<lparr>wr_warnings := wr_warnings r @ cd_cleanup_warnings d\<rparr>;
          r = (case select_row d gate of
                 None \<Rightarrow> r | Some row \<Rightarrow> push_evidence r (evidence_row gate row))
      in if co_status outcome = ''PASS'' then drive_gates now action r b change_id gates w
         else if co_status outcome = ''FAIL'' then
           (case select_row d gate of
              None \<Rightarrow> work_complete now action (record_fail r (Plan (GateWithoutRow gate))) b w
            | Some row \<Rightarrow>
                let (r, w) = handoff_after_failure sha cfg now r gate row w
                in work_complete now action r b w)
         else if co_status outcome = ''CANCELLED'' then
           work_complete now action
             (r\<lparr>wr_state := Cancelled, wr_reason := CancelledAt DuringGates\<rparr>) b w
         else if co_status outcome = ''TIMEOUT'' then
           work_complete now action (record_block r (Plan (GateTimedOut gate))) b w
         else work_complete now action
           (record_fail r (Plan (GateReturned gate (co_status outcome) (cd_reason d)))) b w)"

section \<open>Starting\<close>

definition start_refusal :: "work_config \<Rightarrow> work_request \<Rightarrow> cancel_token \<Rightarrow> work_service \<Rightarrow>
    (string \<times> refusal) option" where
  "start_refusal cfg req tok w =
     (if \<not> cfg_has_change cfg then Some (''BLOCKED'', ToolDisabled Start)
      else if wq_work_id req \<noteq> None \<or> wq_continuation_token req \<noteq> None
        then Some (''INVALID'', StartTakesNoIds)
      else case wq_intent req of
        None \<Rightarrow> Some (''INVALID'', IntentRequired)
      | Some i \<Rightarrow>
        (case validate_intent i of
          Some e \<Rightarrow> Some (''INVALID'', IntentInvalid e)
        | None \<Rightarrow>
          (case candidate_scope_error i (wq_patches req) (wq_new_files req) of
            Some e \<Rightarrow> Some (''BLOCKED'', ScopeViolation e)
          | None \<Rightarrow>
            (case check_constraints cfg (wq_constraints req) of
              Some e \<Rightarrow> Some (''BLOCKED'', ConstraintViolation e)
            | None \<Rightarrow>
                if cfg_max_active cfg \<le> active_count w
                  then Some (''RESOURCE_BLOCKED'', ActiveLimitReached (cfg_max_active cfg))
                else if is_cancelled w tok then Some (''CANCELLED'', CancelledBeforeStart)
                else None))))"

definition new_work_record ::
  "string \<Rightarrow> (nat \<Rightarrow> nat) \<Rightarrow> workspace \<Rightarrow> work_intent \<Rightarrow> work_budget \<Rightarrow> cancel_token \<Rightarrow> work_record" where
  "new_work_record i now ws intent budget tok =
     \<lparr>wr_id = i, wr_created_at_ms = now 1, wr_updated_at_ms = now 2,
      wr_workspace_root = wsp_root ws, wr_workspace_epoch = wsp_epoch ws, wr_state = Planned,
      wr_intent = intent, wr_budget = budget, wr_change_id = None, wr_base_identity = None,
      wr_revision = 0, wr_patch_hash = None, wr_candidates = 0, wr_compiles = 0, wr_handoffs = 0,
      wr_tried_fingerprints = [], wr_last_failure_fingerprint = None, wr_token = None,
      wr_handoff = None, wr_evidence = [], wr_reason = NoReason, wr_warnings = [],
      wr_cancellation = tok\<rparr>"

definition work_start ::
  "work_config \<Rightarrow> (nat \<Rightarrow> nat) \<Rightarrow> workspace \<Rightarrow> work_request \<Rightarrow> cancel_token \<Rightarrow> work_service \<Rightarrow>
   work_step \<times> work_service" where
  "work_start cfg now ws req tok w =
     (case (start_refusal cfg req tok w, wq_intent req) of
        (Some (status, reason), _) \<Rightarrow> (Done (refuse Start status reason None), w)
      | (None, None) \<Rightarrow> (Done (refuse Start ''INVALID'' IntentRequired None), w)
      | (None, Some intent) \<Rightarrow>
          let (i, w) = next_work_id cfg (now 0) w;
              (work_token, w) = new_token w;
              r = new_work_record i now ws intent (wq_budget req) work_token;
              w = work_insert r w;
              (b, w) = make_bridge tok work_token w;
              r = r\<lparr>wr_state := Collecting\<rparr>;
              w = work_set_state (now 3) i Collecting w
          in (case wq_change_id req of
                Some change_id \<Rightarrow>
                  (Suspend (AwaitAdopt r b req change_id) (inspect_request change_id), w)
              | None \<Rightarrow> (Suspend (AwaitCreate r b req) create_request, w)))"

text \<open>After the adopted change was inspected.\<close>

definition start_adopted ::
  "(string \<Rightarrow> string) \<Rightarrow> work_config \<Rightarrow> (nat \<Rightarrow> nat) \<Rightarrow> work_record \<Rightarrow> bridge \<Rightarrow> work_request \<Rightarrow>
   string \<Rightarrow> change_outcome \<Rightarrow> work_service \<Rightarrow> work_step \<times> work_service" where
  "start_adopted sha cfg now r b req change_id inspected w =
     (let d = co_data inspected in
      if co_status inspected = ''INSPECTED'' then
        if cd_state d = ''ready'' then
          drive_begin sha cfg now Start
            (r\<lparr>wr_change_id := Some change_id, wr_revision := cd_revision d,
               wr_base_identity := cd_base_identity d, wr_patch_hash := cd_patch_hash d\<rparr>)
            b (Some d) (wq_patches req) (wq_new_files req) w
        else work_complete now Start (record_fail r (Plan (ChangeNotReady (cd_state d)))) b w
      else work_complete now Start
        (record_fail r (Plan (ChangeNotAdopted (co_status inspected) (cd_reason d)))) b w)"

text \<open>After a new change was captured.\<close>

definition start_created ::
  "(string \<Rightarrow> string) \<Rightarrow> work_config \<Rightarrow> (nat \<Rightarrow> nat) \<Rightarrow> work_record \<Rightarrow> bridge \<Rightarrow> work_request \<Rightarrow>
   change_outcome \<Rightarrow> work_service \<Rightarrow> work_step \<times> work_service" where
  "start_created sha cfg now r b req created w =
     (let d = co_data created;
          r = r\<lparr>wr_warnings := wr_warnings r @ cd_cleanup_warnings d\<rparr>
      in if co_status created = ''CREATED'' then
           drive_begin sha cfg now Start
             (r\<lparr>wr_change_id := cd_change_id d, wr_base_identity := cd_base_identity d,
                wr_patch_hash := cd_patch_hash d\<rparr>)
             b None (wq_patches req) (wq_new_files req) w
         else if co_status created = ''RESOURCE_BLOCKED'' then
           work_complete now Start (record_block r (ChangeReason (cd_reason d))) b w
         else if co_status created = ''CANCELLED'' then
           work_complete now Start
             (r\<lparr>wr_state := Cancelled, wr_reason := CancelledAt DuringCapture\<rparr>) b w
         else work_complete now Start
           (record_fail r (Plan (CaptureFailed (co_status created) (cd_reason d)))) b w)"

section \<open>Resuming\<close>

definition use_token :: "work_record \<Rightarrow> work_record" where
  "use_token r = r\<lparr>wr_token := map_option (\<lambda>t. t\<lparr>ht_used := True\<rparr>) (wr_token r)\<rparr>"

text \<open>From loading the record to the inspection of its change; the caller holds the stripe.\<close>

definition resume_record ::
  "(string \<Rightarrow> string) \<Rightarrow> (nat \<Rightarrow> nat) \<Rightarrow> workspace \<Rightarrow> work_request \<Rightarrow> cancel_token \<Rightarrow> string \<Rightarrow>
   work_record \<Rightarrow> work_service \<Rightarrow> work_step \<times> work_service" where
  "resume_record sha now ws req tok token r w =
     (if other_workspace r ws then
        (let (out, w) = finish_error now r Resume ''STALE'' (Stale (WorkspaceChanged Resume)) w
         in (Done out, w))
      else if wr_state r \<noteq> NeedsModel then
        (let (out, w) = finish_error now r Resume ''STALE'' (Stale NoActiveHandoff) w in (Done out, w))
      else case wr_token r of
        None \<Rightarrow>
          (let (out, w) = finish_error now r Resume ''STALE'' (Stale NoHandoffToken) w in (Done out, w))
      | Some stored \<Rightarrow>
          if ht_used stored then
            (Done (reject (now 2) r Resume ''STALE'' (Stale TokenAlreadyUsed)), w)
          else if sha256_hex sha token \<noteq> ht_token_hash stored then
            (Done (reject (now 2) r Resume ''STALE'' (Stale TokenMismatch)), w)
          else if ht_expires_at_ms stored < now 3 then
            (let r = record_block (use_token r) (Stale TokenExpired)
             in (Done (outcome_for_record (now 5) r Resume), work_commit (now 4) r w))
          else (Suspend (AwaitRebind (use_token r) req stored tok)
                  (inspect_request (ht_change_id stored)), w))"

definition work_resume ::
  "(string \<Rightarrow> string) \<Rightarrow> work_config \<Rightarrow> (nat \<Rightarrow> nat) \<Rightarrow> workspace \<Rightarrow> work_request \<Rightarrow> cancel_token \<Rightarrow>
   work_service \<Rightarrow> work_step \<times> work_service" where
  "work_resume sha cfg now ws req tok w =
     (if \<not> cfg_has_change cfg then
        (Done (refuse Resume ''BLOCKED'' (ToolDisabled Resume) (wq_work_id req)), w)
      else case wq_work_id req of
        None \<Rightarrow> (Done (refuse Resume ''INVALID'' (WorkIdRequired Resume) None), w)
      | Some work_id \<Rightarrow>
          if \<not> is_valid_work_id work_id then
            (Done (refuse Resume ''INVALID'' WorkIdInvalid (Some work_id)), w)
          else case wq_continuation_token req of
            None \<Rightarrow> (Done (refuse Resume ''INVALID'' TokenRequired (Some work_id)), w)
          | Some token \<Rightarrow>
            (case load_record w work_id of
              None \<Rightarrow> (Done (refuse Resume ''NOT_FOUND'' NoRecord (Some work_id)), w)
            | Some r \<Rightarrow> resume_record sha now ws req tok token r w))"

definition RESUME_IGNORED_WARNING :: string where
  "RESUME_IGNORED_WARNING =
     ''resume uses the recorded intent and constraints; the provided values were ignored''"

definition resume_rebound ::
  "(string \<Rightarrow> string) \<Rightarrow> work_config \<Rightarrow> (nat \<Rightarrow> nat) \<Rightarrow> work_record \<Rightarrow> work_request \<Rightarrow> handoff_token \<Rightarrow>
   cancel_token \<Rightarrow> change_outcome \<Rightarrow> work_service \<Rightarrow> work_step \<times> work_service" where
  "resume_rebound sha cfg now r req stored tok inspected w =
     (let d = co_data inspected;
          binding_current = (co_status inspected = ''INSPECTED'' \<and> cd_revision d = ht_revision stored \<and>
            cd_patch_hash d = Some (ht_patch_hash stored) \<and>
            wr_change_id r = Some (ht_change_id stored))
      in if \<not> binding_current then
           (let (out, w) = finish_error now r Resume ''STALE'' (Stale ChangeMoved) w in (Done out, w))
         else
           let r = (if wq_intent req \<noteq> None \<or> wc_required_tools (wq_constraints req) \<noteq> [] \<or>
                      wc_offline (wq_constraints req)
                    then push_warning r RESUME_IGNORED_WARNING else r)
           in if wq_patches req = [] \<and> wq_new_files req = [] then
                (let r = record_block r (Stale ResumeWithoutCandidate)
                 in (Done (outcome_for_record (now 6) r Resume), work_commit (now 5) r w))
              else case stop_before_candidate (now 7) r of
                Some cause \<Rightarrow>
                  (let r = record_block r (Stopped cause)
                   in (Done (outcome_for_record (now 6) r Resume), work_commit (now 5) r w))
              | None \<Rightarrow>
                  let (b, w) = make_bridge tok (wr_cancellation r) w
                  in drive_begin sha cfg now Resume r b (Some d) (wq_patches req)
                       (wq_new_files req) w)"

section \<open>Inspecting and cancelling\<close>

definition inspect_found ::
  "(nat \<Rightarrow> nat) \<Rightarrow> workspace \<Rightarrow> work_record \<Rightarrow> work_service \<Rightarrow> work_outcome \<times> work_service" where
  "inspect_found now ws r w =
     (if other_workspace r ws then
        finish_error now r Inspect ''STALE'' (Stale (WorkspaceChanged Inspect)) w
      else (\<lparr>wo_status = ''INSPECTED'', wo_is_error = False,
             wo_data = data_for_record (now 2) ''inspect'' r\<rparr>, w))"

definition work_inspect ::
  "(nat \<Rightarrow> nat) \<Rightarrow> workspace \<Rightarrow> work_request \<Rightarrow> work_service \<Rightarrow> work_outcome \<times> work_service" where
  "work_inspect now ws req w =
     (let i = opt_str (wq_work_id req); c = opt_str (wq_change_id req) in
      if i \<noteq> [] then
        (case load_record w i of
           Some r \<Rightarrow> inspect_found now ws r w
         | None \<Rightarrow> (refuse Inspect ''NOT_FOUND'' NoRecord (Some i), w))
      else if c \<noteq> [] then
        (case max_by_key wr_updated_at_ms
            (filter (\<lambda>r. wr_change_id r = Some c) (bt_values (ws_records w))) of
           Some r \<Rightarrow> inspect_found now ws r w
         | None \<Rightarrow> (refuse Inspect ''NOT_FOUND'' NoRecordForChange None, w))
      else (refuse Inspect ''INVALID'' WorkOrChangeIdRequired None, w))"

definition work_cancel ::
  "(nat \<Rightarrow> nat) \<Rightarrow> workspace \<Rightarrow> work_request \<Rightarrow> work_service \<Rightarrow> work_outcome \<times> work_service" where
  "work_cancel now ws req w =
     (case wq_work_id req of
        None \<Rightarrow> (refuse Cancel ''INVALID'' (WorkIdRequired Cancel) None, w)
      | Some work_id \<Rightarrow>
        (case load_record w work_id of
           None \<Rightarrow> (refuse Cancel ''NOT_FOUND'' NoRecord (Some work_id), w)
         | Some r \<Rightarrow>
             if other_workspace r ws then
               finish_error now r Cancel ''STALE'' (Stale (WorkspaceChanged Cancel)) w
             else
               let (r, w) =
                 (if work_state_is_terminal (wr_state r) then
                    (if reason_is_empty (wr_reason r) then r\<lparr>wr_reason := CancelledAt WasTerminal\<rparr>
                     else r, w)
                  else (r\<lparr>wr_state := Cancelled, wr_reason := CancelledAt ByHost\<rparr>,
                        cancel_token_cancel (wr_cancellation r) w))
               in (\<lparr>wo_status = ''CANCELLED'', wo_is_error = False,
                    wo_data = data_for_record (now 3) ''cancel'' r\<rparr>, work_commit (now 2) r w)))"

section \<open>Dispatch\<close>

definition work_execute ::
  "(string \<Rightarrow> string) \<Rightarrow> work_config \<Rightarrow> (nat \<Rightarrow> nat) \<Rightarrow> workspace \<Rightarrow> work_request \<Rightarrow> cancel_token \<Rightarrow>
   work_service \<Rightarrow> work_step \<times> work_service" where
  "work_execute sha cfg now ws req tok w =
     (case wq_action req of
        Start \<Rightarrow> work_start cfg now ws req tok w
      | Resume \<Rightarrow> work_resume sha cfg now ws req tok w
      | Inspect \<Rightarrow> (let (out, w) = work_inspect now ws req w in (Done out, w))
      | Cancel \<Rightarrow> (let (out, w) = work_cancel now ws req w in (Done out, w)))"

fun work_continue ::
  "(string \<Rightarrow> string) \<Rightarrow> work_config \<Rightarrow> (nat \<Rightarrow> nat) \<Rightarrow> work_task \<Rightarrow> change_outcome \<Rightarrow>
   work_service \<Rightarrow> work_step \<times> work_service" where
  "work_continue sha cfg now (AwaitAdopt r b req change_id) out w =
     start_adopted sha cfg now r b req change_id out w"
| "work_continue sha cfg now (AwaitCreate r b req) out w = start_created sha cfg now r b req out w"
| "work_continue sha cfg now (AwaitRebind r req stored tok) out w =
     resume_rebound sha cfg now r req stored tok out w"
| "work_continue sha cfg now (AwaitStage action r b change_id fingerprint) out w =
     drive_staged now action r b change_id fingerprint out w"
| "work_continue sha cfg now (AwaitGate action r b change_id gate gates) out w =
     drive_validated sha cfg now action r b change_id gate gates out w"

end
