(* ===== verification/Work_Invariants.thy ===== *)
theory Work_Invariants
  imports Work_Service
begin

text \<open>
  What every action of the work executor keeps: the counters of a record stay inside its budget, its
  evidence list stays bounded, no candidate fingerprint is recorded twice, a record that waits for
  the host carries an unused token bound to its own revision, and a staging request only names files
  inside the declared scope. One lemma per stretch of code, then one for each of the two entry points
  \<open>work_execute\<close> and \<open>work_continue\<close>.
\<close>

section \<open>The record invariant\<close>

definition budget_ok :: "work_record \<Rightarrow> bool" where
  "budget_ok r \<longleftrightarrow>
     wr_candidates r \<le> wb_max_candidates (wr_budget r) \<and>
     wr_compiles r \<le> wb_max_compiles (wr_budget r) \<and>
     wr_handoffs r \<le> wb_max_handoffs (wr_budget r)"

definition record_inv :: "work_record \<Rightarrow> bool" where
  "record_inv r \<longleftrightarrow>
     budget_ok r \<and> length (wr_evidence r) \<le> MAX_LISTED_WORK_EVIDENCE \<and>
     distinct (wr_tried_fingerprints r)"

definition live_token :: "(string \<Rightarrow> string) \<Rightarrow> work_record \<Rightarrow> bool" where
  "live_token sha r \<longleftrightarrow>
     (case (wr_token r, wr_handoff r) of
        (Some t, Some h) \<Rightarrow>
          \<not> ht_used t \<and> ht_token_hash t = sha256_hex sha (wh_continuation_token h) \<and>
          ht_expires_at_ms t = wh_expires_at_ms h \<and> ht_revision t = wr_revision r \<and>
          ht_change_id t = opt_str (wr_change_id r) \<and> ht_patch_hash t = opt_str (wr_patch_hash r) \<and>
          length (wh_unresolved_obligations h) \<le> MAX_UNRESOLVED_OBLIGATIONS \<and>
          length (wh_diagnostics h) \<le> MAX_LISTED_HANDOFF_DIAGNOSTICS
      | _ \<Rightarrow> False)"

definition live_handoff :: "(string \<Rightarrow> string) \<Rightarrow> work_record \<Rightarrow> bool" where
  "live_handoff sha r \<longleftrightarrow> (wr_state r = NeedsModel \<longrightarrow> live_token sha r)"

definition data_ok :: "work_data \<Rightarrow> bool" where
  "data_ok d \<longleftrightarrow>
     wbu_candidates (wd_used d) \<le> wb_max_candidates (wd_budget d) \<and>
     wbu_compiles (wd_used d) \<le> wb_max_compiles (wd_budget d) \<and>
     wbu_handoffs (wd_used d) \<le> wb_max_handoffs (wd_budget d) \<and>
     length (wd_evidence d) \<le> MAX_LISTED_WORK_EVIDENCE"

definition store_inv :: "(string \<Rightarrow> string) \<Rightarrow> work_service \<Rightarrow> bool" where
  "store_inv sha w \<longleftrightarrow>
     bt_wf (ws_records w) \<and>
     (\<forall>i r. bt_get (ws_records w) i = Some r \<longrightarrow>
        wr_id r = i \<and> record_inv r \<and> live_handoff sha r)"

definition in_scope :: "work_intent \<Rightarrow> string \<Rightarrow> bool" where
  "in_scope i file \<longleftrightarrow>
     (\<exists>names scope s. normalize_relative file = Some names \<and> s \<in> set (wi_scope_paths i) \<and>
        normalize_relative s = Some scope \<and> starts_with names scope)"

definition request_ok :: "work_intent \<Rightarrow> change_request \<Rightarrow> bool" where
  "request_ok i q \<longleftrightarrow>
     (\<forall>p \<in> set (cr_patches q). in_scope i (pi_file p)) \<and>
     (\<forall>f \<in> set (cr_new_files q). in_scope i (nf_file f))"

fun task_inv :: "work_task \<Rightarrow> bool" where
  "task_inv (AwaitAdopt r b req c) = (record_inv r \<and> wr_state r = Collecting)"
| "task_inv (AwaitCreate r b req) = (record_inv r \<and> wr_state r = Collecting)"
| "task_inv (AwaitRebind r req stored tok) =
     (record_inv r \<and> wr_token r = Some (stored\<lparr>ht_used := True\<rparr>))"
| "task_inv (AwaitStage action r b c fp) =
     (record_inv r \<and> wr_state r = Staging \<and> fp \<notin> set (wr_tried_fingerprints r) \<and>
      wr_candidates r < wb_max_candidates (wr_budget r))"
| "task_inv (AwaitGate action r b c g gs) = (record_inv r \<and> wr_state r = Validating)"

fun task_record :: "work_task \<Rightarrow> work_record" where
  "task_record (AwaitAdopt r b req c) = r"
| "task_record (AwaitCreate r b req) = r"
| "task_record (AwaitRebind r req stored tok) = r"
| "task_record (AwaitStage action r b c fp) = r"
| "task_record (AwaitGate action r b c g gs) = r"

fun step_inv :: "work_step \<Rightarrow> bool" where
  "step_inv (Done out) = data_ok (wo_data out)"
| "step_inv (Suspend t q) = (task_inv t \<and> request_ok (wr_intent (task_record t)) q)"

section \<open>Records\<close>

lemma record_inv_update [simp]:
  "record_inv (r\<lparr>wr_state := s\<rparr>) = record_inv r"
  "record_inv (r\<lparr>wr_reason := x\<rparr>) = record_inv r"
  "record_inv (r\<lparr>wr_warnings := ws\<rparr>) = record_inv r"
  "record_inv (r\<lparr>wr_token := t\<rparr>) = record_inv r"
  "record_inv (r\<lparr>wr_handoff := h\<rparr>) = record_inv r"
  "record_inv (r\<lparr>wr_change_id := c\<rparr>) = record_inv r"
  "record_inv (r\<lparr>wr_base_identity := c\<rparr>) = record_inv r"
  "record_inv (r\<lparr>wr_revision := n\<rparr>) = record_inv r"
  "record_inv (r\<lparr>wr_patch_hash := c\<rparr>) = record_inv r"
  "record_inv (r\<lparr>wr_last_failure_fingerprint := c\<rparr>) = record_inv r"
  "record_inv (r\<lparr>wr_cancellation := tok\<rparr>) = record_inv r"
  "record_inv (r\<lparr>wr_updated_at_ms := n\<rparr>) = record_inv r"
  by (simp_all add: record_inv_def budget_ok_def)

lemma record_inv_block [simp]: "record_inv (record_block r x) = record_inv r"
  and record_inv_fail [simp]: "record_inv (record_fail r x) = record_inv r"
  and record_inv_use [simp]: "record_inv (use_token r) = record_inv r"
  and record_inv_warning [simp]: "record_inv (push_warning r s) = record_inv r"
  by (simp_all add: record_block_def record_fail_def use_token_def push_warning_def)

lemma record_inv_push_evidence: "record_inv r \<Longrightarrow> record_inv (push_evidence r row)"
  by (auto simp: record_inv_def budget_ok_def push_evidence_def Let_def)

lemma wr_state_upd [simp]:
  "wr_state (record_block r x) = Blocked" "wr_state (record_fail r x) = Failed"
  "wr_state (push_evidence r row) = wr_state r" "wr_state (push_warning r s) = wr_state r"
  "wr_state (use_token r) = wr_state r"
  by (simp_all add: record_block_def record_fail_def push_evidence_def push_warning_def use_token_def
      Let_def)

lemma not_needs_model [simp]: "wr_state r \<noteq> NeedsModel \<Longrightarrow> live_handoff sha r"
  by (simp add: live_handoff_def)

lemma data_ok_record: "record_inv r \<Longrightarrow> data_ok (data_for_record now a r)"
  by (auto simp: record_inv_def budget_ok_def data_ok_def data_for_record_def)

lemma data_ok_outcome: "record_inv r \<Longrightarrow> data_ok (wo_data (outcome_for_record now r a))"
  by (simp add: outcome_for_record_def data_ok_record)

lemma data_ok_refuse: "data_ok (wo_data (refuse a s reason i))"
  by (simp add: refuse_def data_ok_def default_work_data_def)

lemma data_ok_reject: "record_inv r \<Longrightarrow> data_ok (wo_data (reject now r a s reason))"
  using data_ok_record [of r] by (simp add: reject_def data_ok_def)

section \<open>The store\<close>

lemma store_inv_token [simp]:
  "store_inv sha (cancel_token_cancel tok w) = store_inv sha w"
  "store_inv sha (snd (new_token w)) = store_inv sha w"
  "store_inv sha (snd (fetch_sequence w)) = store_inv sha w"
  by (simp_all add: store_inv_def cancel_token_cancel_def new_token_def fetch_sequence_def)

lemma store_inv_set_state:
  assumes "store_inv sha w" and "st \<noteq> NeedsModel"
  shows "store_inv sha (work_set_state now i st w)"
  using assms
  by (auto simp: store_inv_def work_set_state_def bt_get_insert bt_wf_insert split: option.splits)

lemma store_inv_commit:
  assumes "store_inv sha w" and "record_inv r" and "live_handoff sha r"
  shows "store_inv sha (work_commit now r w)"
  using assms
  by (auto simp: store_inv_def work_commit_def bt_get_insert bt_wf_insert live_handoff_def
      live_token_def split: option.splits)

lemma store_inv_insert:
  assumes "store_inv sha w" and "record_inv r" and "live_handoff sha r"
  shows "store_inv sha (work_insert r w)"
  using assms
  by (auto simp: store_inv_def work_insert_def Let_def bt_get_insert bt_wf_insert bt_wf_remove
      bt_get_remove split: option.splits if_splits)

lemma store_inv_load: "store_inv sha w \<Longrightarrow> load_record w i = Some r \<Longrightarrow> record_inv r \<and> live_handoff sha r"
  by (simp add: store_inv_def load_record_def)

lemma finish_error_inv:
  assumes "store_inv sha w" and "record_inv r"
  shows "data_ok (wo_data (fst (finish_error now r a s x w))) \<and>
    store_inv sha (snd (finish_error now r a s x w))"
  using assms
  by (auto simp: finish_error_def Let_def data_ok_record intro!: store_inv_commit not_needs_model)

lemma work_complete_inv:
  assumes "store_inv sha w" and "record_inv r" and "live_handoff sha r"
  shows "step_inv (fst (work_complete now a r b w)) \<and> store_inv sha (snd (work_complete now a r b w))"
  using assms
  by (auto simp: work_complete_def finalize_def Let_def data_ok_outcome intro!: store_inv_commit)

section \<open>Handoffs\<close>

lemma length_push_obligations:
  "length acc < MAX_UNRESOLVED_OBLIGATIONS \<Longrightarrow>
    length (push_obligations acc xs) \<le> MAX_UNRESOLVED_OBLIGATIONS"
  by (induction acc xs rule: push_obligations.induct) auto

lemma length_unresolved_obligations:
  "length (unresolved_obligations r package) \<le> MAX_UNRESOLVED_OBLIGATIONS"
proof -
  have *: "length (push_obligations [a, b] xs) \<le> MAX_UNRESOLVED_OBLIGATIONS" for a b xs
    by (rule length_push_obligations) (simp add: MAX_UNRESOLVED_OBLIGATIONS_def)
  have "k + min m (n - k) \<le> n" if "k \<le> n" for k m n :: nat
    using that by simp
  from this [OF *] * show ?thesis
    by (simp add: unresolved_obligations_def Let_def del: min.bounded_iff split: option.splits)
qed

lemma issue_token_ok:
  assumes "issue_token sha cfg now r k ds n om p w = (h, r', w')"
  shows "r' = r\<lparr>wr_token := wr_token r'\<rparr> \<and> live_token sha (r'\<lparr>wr_handoff := Some h\<rparr>) \<and>
    w' = snd (fetch_sequence w)"
  using assms
  by (auto simp: issue_token_def Let_def live_token_def length_unresolved_obligations
      split: prod.splits)

lemma stop_before_handoff_None:
  "stop_before_handoff now r = None \<Longrightarrow> wr_handoffs r < wb_max_handoffs (wr_budget r)"
  by (auto simp: stop_before_handoff_def Let_def split: if_splits)

lemma record_inv_handoffs:
  "record_inv r \<Longrightarrow> wr_handoffs r < wb_max_handoffs (wr_budget r) \<Longrightarrow>
    record_inv (r\<lparr>wr_handoffs := sat_add (wr_handoffs r) 1\<rparr>)"
  by (simp add: record_inv_def budget_ok_def sat_add_1_le [unfolded One_nat_def])

lemma live_token_update [simp]:
  "live_token sha (r\<lparr>wr_state := s\<rparr>) = live_token sha r"
  "live_token sha (r\<lparr>wr_reason := x\<rparr>) = live_token sha r"
  by (simp_all add: live_token_def split: option.splits)

text \<open>Both handoff functions end in a token issued for a record that still had handoff budget.\<close>

lemma issue_token_inv:
  assumes "record_inv r" and "store_inv sha w" and "wr_handoffs r < wb_max_handoffs (wr_budget r)"
    and "issue_token sha cfg now (r\<lparr>wr_handoffs := sat_add (wr_handoffs r) 1\<rparr>) k ds n om p w = (h, r', w')"
  shows "record_inv r' \<and> store_inv sha w' \<and>
    live_handoff sha (r'\<lparr>wr_state := NeedsModel, wr_reason := x, wr_handoff := Some h\<rparr>)"
proof -
  note i = issue_token_ok [OF assms(4)]
  then obtain t where "r' = r\<lparr>wr_handoffs := sat_add (wr_handoffs r) 1, wr_token := t\<rparr>"
    by metis
  with record_inv_handoffs [OF assms(1,3)] have "record_inv r'" by simp
  moreover have "live_token sha (r'\<lparr>wr_state := NeedsModel, wr_reason := x, wr_handoff := Some h\<rparr>)"
    using i by (simp add: live_token_def split: option.splits)
  ultimately show ?thesis
    using i assms(2) by (simp add: live_handoff_def)
qed

lemma handoff_from_current_inv:
  assumes "record_inv r" and "store_inv sha w"
    and "handoff_from_current sha cfg now r current w = (r', w')"
  shows "record_inv r' \<and> live_handoff sha r' \<and> store_inv sha w'"
proof -
  define r0 where "r0 = (case current of None \<Rightarrow> r
         | Some d \<Rightarrow> r\<lparr>wr_revision := cd_revision d, wr_patch_hash := cd_patch_hash d,
             wr_base_identity :=
               (if cd_base_identity d \<noteq> None then cd_base_identity d else wr_base_identity r)\<rparr>)"
  have r0: "record_inv r0"
    using assms(1) by (simp add: r0_def split: option.splits)
  show ?thesis
  proof (cases "stop_before_handoff (now 0) r0")
    case None
    with assms(3) show ?thesis
      using issue_token_inv [OF r0 assms(2) stop_before_handoff_None [OF None]]
      unfolding handoff_from_current_def Let_def r0_def [symmetric]
      by (auto split: option.splits prod.splits if_splits)
  next
    case (Some c)
    with assms r0 show ?thesis
      unfolding handoff_from_current_def Let_def r0_def [symmetric] by auto
  qed
qed

lemma handoff_after_failure_inv:
  assumes "record_inv r" and "store_inv sha w"
    and "handoff_after_failure sha cfg now r gate row w = (r', w')"
  shows "record_inv r' \<and> live_handoff sha r' \<and> store_inv sha w'"
proof -
  define fp where "fp = failure_fingerprint sha (ev_diagnostics row) (ev_diagnostics_total row)"
  define r0 where "r0 = (if fp \<noteq> None then r\<lparr>wr_last_failure_fingerprint := fp\<rparr> else r)"
  have r0: "record_inv r0"
    using assms(1) by (simp add: r0_def)
  show ?thesis
  proof (cases "stop_before_handoff (now 0) r0")
    case None
    with assms show ?thesis
      using issue_token_inv [OF r0 assms(2) stop_before_handoff_None [OF None]]
      unfolding handoff_after_failure_def Let_def fp_def [symmetric] r0_def [symmetric]
      by (auto split: option.splits prod.splits if_splits)
  next
    case (Some c)
    with assms r0 show ?thesis
      unfolding handoff_after_failure_def Let_def fp_def [symmetric] r0_def [symmetric]
      by (auto split: if_splits)
  qed
qed

section \<open>The drive loop\<close>

lemma stop_before_candidate_None:
  "stop_before_candidate now r = None \<Longrightarrow> wr_candidates r < wb_max_candidates (wr_budget r)"
  by (auto simp: stop_before_candidate_def Let_def split: if_splits)

lemma stop_before_compile_None:
  "stop_before_compile now r = None \<Longrightarrow> wr_compiles r < wb_max_compiles (wr_budget r)"
  by (auto simp: stop_before_compile_def Let_def split: if_splits)

lemma candidate_in_scope:
  "candidate_scope_error i ps fs = None \<Longrightarrow>
    (\<forall>p \<in> set ps. in_scope i (pi_file p)) \<and> (\<forall>f \<in> set fs. in_scope i (nf_file f))"
  by (fastforce simp: candidate_scope_error_def Let_def first_error_None scope_report_None in_scope_def
      map_filter_def split: if_splits option.splits)

lemma request_ok_no_candidate [simp]:
  "request_ok i create_request" "request_ok i (inspect_request c)"
  "request_ok i (validate_request c n base g)"
  by (simp_all add: request_ok_def create_request_def inspect_request_def validate_request_def)

lemma drive_begin_inv:
  assumes "store_inv sha w" and "record_inv r"
  shows "step_inv (fst (drive_begin sha cfg now a r b cur ps fs w)) \<and>
    store_inv sha (snd (drive_begin sha cfg now a r b cur ps fs w))"
proof (cases "ps = [] \<and> fs = []")
  case True
  obtain r' w' where h: "handoff_from_current sha cfg now r cur w = (r', w')" by fastforce
  from work_complete_inv [of sha w' r'] handoff_from_current_inv [OF assms(2,1) h] True h
  show ?thesis by (simp add: drive_begin_def)
next
  case False
  have blocked: "step_inv (fst (work_complete now a (record_block r x) b w)) \<and>
      store_inv sha (snd (work_complete now a (record_block r x) b w))"
    and failed: "step_inv (fst (work_complete now a (record_fail r x) b w)) \<and>
      store_inv sha (snd (work_complete now a (record_fail r x) b w))" for x
    using assms work_complete_inv by simp_all
  show ?thesis
    using False assms blocked failed candidate_in_scope [of "wr_intent r" ps fs]
      stop_before_candidate_None [of "now 2" r]
    by (auto simp: drive_begin_def Let_def store_inv_set_state request_ok_def stage_request_def
        create_request_def split: option.splits)
qed

lemma drive_gates_inv:
  assumes "store_inv sha w" and "record_inv r" and "wr_state r = Validating"
  shows "step_inv (fst (drive_gates now a r b c gs w)) \<and>
    store_inv sha (snd (drive_gates now a r b c gs w))"
proof (cases gs)
  case Nil
  with assms show ?thesis by (simp add: work_complete_inv)
next
  case (Cons g gs')
  have "record_inv (r\<lparr>wr_compiles := sat_add (wr_compiles r) 1\<rparr>)"
    if "stop_before_compile (now 4) r = None"
    using stop_before_compile_None [OF that] assms(2)
    by (simp add: record_inv_def budget_ok_def sat_add_1_le [unfolded One_nat_def])
  with Cons assms show ?thesis by (auto simp: Let_def work_complete_inv split: option.splits)
qed

lemma drive_staged_inv:
  assumes "store_inv sha w" and "task_inv (AwaitStage a r b c fp)"
  shows "step_inv (fst (drive_staged now a r b c fp out w)) \<and>
    store_inv sha (snd (drive_staged now a r b c fp out w))"
proof -
  have "record_inv (r\<lparr>wr_warnings := ws, wr_tried_fingerprints := wr_tried_fingerprints r @ [fp],
      wr_candidates := sat_add (wr_candidates r) 1, wr_revision := n, wr_patch_hash := h,
      wr_base_identity := bi, wr_state := Validating\<rparr>)" for ws n h bi
    using assms(2) by (simp add: record_inv_def budget_ok_def sat_add_1_le [unfolded One_nat_def])
  with assms show ?thesis
    by (simp add: drive_staged_def Let_def work_complete_inv store_inv_set_state
        drive_gates_inv [of sha])
qed

lemma drive_validated_inv:
  assumes "store_inv sha w" and "task_inv (AwaitGate a r b c g gs)"
  shows "step_inv (fst (drive_validated sha cfg now a r b c g gs out w)) \<and>
    store_inv sha (snd (drive_validated sha cfg now a r b c g gs out w))"
proof -
  define r0 where "r0 = (case select_row (co_data out) g of
      None \<Rightarrow> r\<lparr>wr_warnings := wr_warnings r @ cd_cleanup_warnings (co_data out)\<rparr>
    | Some row \<Rightarrow> push_evidence (r\<lparr>wr_warnings := wr_warnings r @ cd_cleanup_warnings (co_data out)\<rparr>)
        (evidence_row g row))"
  have r0: "record_inv r0" "wr_state r0 = Validating"
    using assms(2)
    by (auto simp: r0_def record_inv_push_evidence split: option.splits)
  have "step_inv (fst (work_complete now a r' b w')) \<and> store_inv sha (snd (work_complete now a r' b w'))"
    if "handoff_after_failure sha cfg now r0 g row w = (r', w')" for row r' w'
    using handoff_after_failure_inv [OF r0(1) assms(1) that] work_complete_inv [of sha w' r'] by simp
  then show ?thesis
    unfolding drive_validated_def Let_def r0_def [symmetric]
    using assms(1) r0
    by (auto simp: work_complete_inv drive_gates_inv split: option.splits prod.splits)
qed

section \<open>The actions\<close>

lemma new_record_inv: "record_inv (new_work_record i now ws intent budget tok)"
  and new_record_state [simp]: "wr_state (new_work_record i now ws intent budget tok) = Planned"
  by (simp_all add: record_inv_def budget_ok_def new_work_record_def)

lemma work_start_inv:
  assumes "store_inv sha w"
  shows "step_inv (fst (work_start cfg now ws req tok w)) \<and>
    store_inv sha (snd (work_start cfg now ws req tok w))"
  using assms
  by (auto simp: work_start_def next_work_id_def make_bridge_def Let_def case_prod_beta data_ok_refuse
      new_record_inv store_inv_set_state store_inv_insert split: option.splits)

lemma start_adopted_inv:
  assumes "store_inv sha w" and "task_inv (AwaitAdopt r b req c)"
  shows "step_inv (fst (start_adopted sha cfg now r b req c out w)) \<and>
    store_inv sha (snd (start_adopted sha cfg now r b req c out w))"
  using assms by (simp add: start_adopted_def Let_def work_complete_inv drive_begin_inv)

lemma start_created_inv:
  assumes "store_inv sha w" and "task_inv (AwaitCreate r b req)"
  shows "step_inv (fst (start_created sha cfg now r b req out w)) \<and>
    store_inv sha (snd (start_created sha cfg now r b req out w))"
  using assms by (simp add: start_created_def Let_def work_complete_inv drive_begin_inv)

lemma resume_record_inv:
  assumes "store_inv sha w" and "record_inv r"
  shows "step_inv (fst (resume_record sha now ws req tok token r w)) \<and>
    store_inv sha (snd (resume_record sha now ws req tok token r w))"
proof -
  have "data_ok (wo_data (fst (finish_error now r Resume s x w))) \<and>
      store_inv sha (snd (finish_error now r Resume s x w))" for s x
    using assms by (rule finish_error_inv)
  with assms show ?thesis
    by (auto simp: resume_record_def Let_def case_prod_beta data_ok_reject data_ok_outcome
        store_inv_commit use_token_def split: option.splits)
qed

lemma work_resume_inv:
  assumes "store_inv sha w"
  shows "step_inv (fst (work_resume sha cfg now ws req tok w)) \<and>
    store_inv sha (snd (work_resume sha cfg now ws req tok w))"
  using assms
  by (auto simp: work_resume_def data_ok_refuse resume_record_inv split: option.splits
      dest!: store_inv_load [OF assms])

lemma resume_rebound_inv:
  assumes "store_inv sha w" and "task_inv (AwaitRebind r req stored tok)"
  shows "step_inv (fst (resume_rebound sha cfg now r req stored tok out w)) \<and>
    store_inv sha (snd (resume_rebound sha cfg now r req stored tok out w))"
proof -
  have fe: "data_ok (wo_data (fst (finish_error now r Resume s x w))) \<and>
      store_inv sha (snd (finish_error now r Resume s x w))" for s x
    using assms finish_error_inv by simp
  define r0 where "r0 = (if wq_intent req \<noteq> None \<or> wc_required_tools (wq_constraints req) \<noteq> [] \<or>
      wc_offline (wq_constraints req) then push_warning r RESUME_IGNORED_WARNING else r)"
  have r0: "record_inv r0"
    using assms(2) by (simp add: r0_def)
  with assms(1) fe show ?thesis
    unfolding resume_rebound_def Let_def r0_def [symmetric]
    by (auto simp: case_prod_beta make_bridge_def Let_def data_ok_outcome store_inv_commit
        drive_begin_inv split: option.splits)
qed

lemma work_inspect_inv:
  assumes "store_inv sha w"
  shows "data_ok (wo_data (fst (work_inspect now ws req w))) \<and>
    store_inv sha (snd (work_inspect now ws req w))"
proof -
  have found: "data_ok (wo_data (fst (inspect_found now ws r w))) \<and>
      store_inv sha (snd (inspect_found now ws r w))" if "record_inv r" for r
    using finish_error_inv [OF assms that] that assms by (simp add: inspect_found_def data_ok_record)
  have "record_inv r" if "r \<in> set (bt_values (ws_records w))" for r
    using that assms bt_values_get [of r "ws_records w"] by (auto simp: store_inv_def)
  then have "record_inv r" if "max_by_key wr_updated_at_ms
      (filter (\<lambda>r. wr_change_id r = Some c) (bt_values (ws_records w))) = Some r" for r c
    using max_by_key_in [OF that] by simp
  with found assms show ?thesis
    by (auto simp: work_inspect_def Let_def data_ok_refuse split: option.splits
        dest!: store_inv_load [OF assms])
qed

lemma work_cancel_inv:
  assumes "store_inv sha w"
  shows "data_ok (wo_data (fst (work_cancel now ws req w))) \<and>
    store_inv sha (snd (work_cancel now ws req w))"
proof -
  have "live_handoff sha (r\<lparr>wr_reason := x\<rparr>)" if "work_state_is_terminal (wr_state r)" for r x
    using that by (cases "wr_state r") auto
  with assms finish_error_inv [OF assms] show ?thesis
    by (auto simp: work_cancel_def Let_def data_ok_refuse data_ok_record store_inv_commit
        dest!: store_inv_load [OF assms] split: option.splits)
qed

lemma work_execute_inv:
  assumes "store_inv sha w"
  shows "step_inv (fst (work_execute sha cfg now ws req tok w)) \<and>
    store_inv sha (snd (work_execute sha cfg now ws req tok w))"
  using work_start_inv [OF assms] work_resume_inv [OF assms] work_inspect_inv [OF assms]
    work_cancel_inv [OF assms]
  by (simp add: work_execute_def case_prod_beta split: work_action.splits)

lemma work_continue_inv:
  assumes "store_inv sha w" and "task_inv t"
  shows "step_inv (fst (work_continue sha cfg now t out w)) \<and>
    store_inv sha (snd (work_continue sha cfg now t out w))"
  using assms
  by (cases t)
    (simp_all only: work_continue.simps start_adopted_inv start_created_inv resume_rebound_inv
      drive_staged_inv drive_validated_inv)

end
