(* ===== verification/Work_System.thy ===== *)
theory Work_System
  imports Work_Invariants
begin

text \<open>
  The work executor as a concurrent system: suspended tasks, the shared store, cancellation tokens and
  the stripe lock \<open>resume\<close> holds. A move opens a request, runs a stretch of one task between two
  awaits, cancels a request token or lets a bridge forward a cancellation. A stretch is atomic here;
  the code's stretches take the record lock once per store call. The theorems of the file hold in every
  interleaving of these moves and for every answer of the change service.
\<close>

section \<open>Interleavings\<close>

record work_system =
  sys_service :: work_service
  sys_tasks :: "nat \<Rightarrow> work_task option"
  sys_requests :: "cancel_token list"

definition work_system_new :: work_system where
  "work_system_new =
     \<lparr>sys_service = work_service_new, sys_tasks = (\<lambda>_. None), sys_requests = []\<rparr>"

fun task_bridge :: "work_task \<Rightarrow> bridge option" where
  "task_bridge (AwaitAdopt r b req c) = Some b"
| "task_bridge (AwaitCreate r b req) = Some b"
| "task_bridge (AwaitRebind r req stored tok) = None"
| "task_bridge (AwaitStage action r b c fp) = Some b"
| "task_bridge (AwaitGate action r b c g gs) = Some b"

fun task_action :: "work_task \<Rightarrow> work_action" where
  "task_action (AwaitAdopt r b req c) = Start"
| "task_action (AwaitCreate r b req) = Start"
| "task_action (AwaitRebind r req stored tok) = Resume"
| "task_action (AwaitStage action r b c fp) = action"
| "task_action (AwaitGate action r b c g gs) = action"

text \<open>A suspended \<open>resume\<close> holds the stripe of its work id; \<open>start\<close> takes no stripe.\<close>

definition holds_stripe :: "nat \<Rightarrow> work_task \<Rightarrow> bool" where
  "holds_stripe k t \<longleftrightarrow> task_action t = Resume \<and> stripe (wr_id (task_record t)) = k"

definition resume_stripe :: "work_config \<Rightarrow> work_request \<Rightarrow> nat option" where
  "resume_stripe cfg req =
     (if wq_action req = Resume \<and> cfg_has_change cfg \<and> wq_continuation_token req \<noteq> None
      then (case wq_work_id req of
              None \<Rightarrow> None
            | Some i \<Rightarrow> if is_valid_work_id i then Some (stripe i) else None)
      else None)"

definition stripe_free :: "work_config \<Rightarrow> work_system \<Rightarrow> work_request \<Rightarrow> bool" where
  "stripe_free cfg s req \<longleftrightarrow>
     (\<forall>k tid t. resume_stripe cfg req = Some k \<longrightarrow> sys_tasks s tid = Some t \<longrightarrow> \<not> holds_stripe k t)"

fun after_step :: "nat \<Rightarrow> work_step \<Rightarrow> work_service \<Rightarrow> work_system \<Rightarrow> work_system" where
  "after_step tid (Done out) w s = s\<lparr>sys_service := w, sys_tasks := (sys_tasks s)(tid := None)\<rparr>"
| "after_step tid (Suspend t q) w s =
     s\<lparr>sys_service := w, sys_tasks := (sys_tasks s)(tid := Some t)\<rparr>"

inductive work_move ::
  "(string \<Rightarrow> string) \<Rightarrow> work_config \<Rightarrow> work_system \<Rightarrow> work_system \<Rightarrow> bool"
  for sha cfg where
  OpenRequest:
    "new_token (sys_service s) = (tok, w) \<Longrightarrow>
     work_move sha cfg s (s\<lparr>sys_service := w, sys_requests := tok # sys_requests s\<rparr>)"
| BeginRequest:
    "tok \<in> set (sys_requests s) \<Longrightarrow> sys_tasks s tid = None \<Longrightarrow> stripe_free cfg s req \<Longrightarrow>
     work_execute sha cfg now ws req tok (sys_service s) = (st, w) \<Longrightarrow>
     work_move sha cfg s (after_step tid st w s)"
| ContinueTask:
    "sys_tasks s tid = Some t \<Longrightarrow>
     work_continue sha cfg now t out (sys_service s) = (st, w) \<Longrightarrow>
     work_move sha cfg s (after_step tid st w s)"
| HostCancels:
    "tok \<in> set (sys_requests s) \<Longrightarrow>
     work_move sha cfg s (s\<lparr>sys_service := cancel_token_cancel tok (sys_service s)\<rparr>)"
| BridgeFires:
    "sys_tasks s tid = Some t \<Longrightarrow> task_bridge t = Some b \<Longrightarrow>
     is_cancelled (sys_service s) (br_request b) \<or> is_cancelled (sys_service s) (br_work b) \<Longrightarrow>
     work_move sha cfg s (s\<lparr>sys_service := cancel_token_cancel (br_token b) (sys_service s)\<rparr>)"

definition work_reachable :: "(string \<Rightarrow> string) \<Rightarrow> work_config \<Rightarrow> work_system \<Rightarrow> bool" where
  "work_reachable sha cfg s \<longleftrightarrow> (work_move sha cfg)\<^sup>*\<^sup>* work_system_new s"

definition system_inv :: "(string \<Rightarrow> string) \<Rightarrow> work_system \<Rightarrow> bool" where
  "system_inv sha s \<longleftrightarrow>
     store_inv sha (sys_service s) \<and> (\<forall>tid t. sys_tasks s tid = Some t \<longrightarrow> task_inv t)"

lemma system_inv_new: "system_inv sha work_system_new"
  by (simp add: system_inv_def work_system_new_def store_inv_def work_service_new_def)

lemma system_inv_after:
  assumes "system_inv sha s" and "step_inv st" and "store_inv sha w"
  shows "system_inv sha (after_step tid st w s)"
  using assms by (cases st) (auto simp: system_inv_def)

lemma system_inv_move: "work_move sha cfg s s' \<Longrightarrow> system_inv sha s \<Longrightarrow> system_inv sha s'"
proof (induction rule: work_move.induct)
  case (OpenRequest s tok w)
  then have "store_inv sha w"
    using store_inv_token(2) [of sha "sys_service s"] by (simp add: system_inv_def)
  with OpenRequest show ?case by (simp add: system_inv_def)
next
  case (BeginRequest tok s tid req now ws st w)
  then show ?case
    using work_execute_inv [of sha "sys_service s" cfg now ws req tok]
    by (intro system_inv_after) (auto simp: system_inv_def)
next
  case (ContinueTask s tid t now out st w)
  then show ?case
    using work_continue_inv [of sha "sys_service s" t cfg now out]
    by (intro system_inv_after) (auto simp: system_inv_def)
qed (simp_all add: system_inv_def)

lemma reachable_inv: "work_reachable sha cfg s \<Longrightarrow> system_inv sha s"
  unfolding work_reachable_def
  by (induction rule: rtranclp_induct) (auto intro: system_inv_new system_inv_move)

section \<open>What one stretch does to the store\<close>

definition kept :: "work_service \<Rightarrow> work_service \<Rightarrow> bool" where
  "kept w w' \<longleftrightarrow>
     (\<forall>i. bt_get (ws_records w) i = None \<longrightarrow> bt_get (ws_records w') i = None) \<and>
     (\<forall>i r. bt_get (ws_records w) i = Some r \<longrightarrow> wr_state r = Cancelled \<longrightarrow>
        bt_get (ws_records w') i = Some r)"

definition seq_step :: "work_service \<Rightarrow> work_service \<Rightarrow> bool" where
  "seq_step w w' \<longleftrightarrow>
     ws_sequence w' = ws_sequence w \<or> ws_sequence w' = Suc (ws_sequence w) mod 2 ^ 64"

lemma kept_refl [simp]: "kept w w"
  by (simp add: kept_def)

lemma kept_trans: "kept w w' \<Longrightarrow> kept w' w'' \<Longrightarrow> kept w w''"
  by (simp add: kept_def)

lemma kept_same_records: "ws_records w' = ws_records w \<Longrightarrow> kept w w'"
  by (simp add: kept_def)

lemma kept_set_state [simp]: "kept w (work_set_state now i st w)"
  by (auto simp: kept_def work_set_state_def bt_get_insert split: option.splits)

lemma kept_commit [simp]: "kept w (work_commit now r w)"
  by (auto simp: kept_def work_commit_def bt_get_insert split: option.splits)

lemma kept_token [simp]:
  "kept w (cancel_token_cancel tok w)" "kept w (snd (new_token w))" "kept w (snd (fetch_sequence w))"
  by (simp_all add: kept_def cancel_token_cancel_def new_token_def fetch_sequence_def)

lemma sequence_simps [simp]:
  "ws_sequence (work_set_state now i st w) = ws_sequence w"
  "ws_sequence (work_commit now r w) = ws_sequence w"
  "ws_sequence (cancel_token_cancel tok w) = ws_sequence w"
  "ws_sequence (snd (new_token w)) = ws_sequence w"
  "ws_sequence (work_insert r w) = ws_sequence w"
  by (simp_all add: work_set_state_def work_commit_def cancel_token_cancel_def new_token_def
      work_insert_def Let_def split: option.splits)

lemma seq_step_refl [simp]: "seq_step w w"
  by (simp add: seq_step_def)

text \<open>A stretch ends in commits after at most one token was issued.\<close>

definition stretch :: "work_service \<Rightarrow> work_service \<Rightarrow> bool" where
  "stretch w w' \<longleftrightarrow> kept w w' \<and> seq_step w w'"

lemma stretchI: "kept w w' \<Longrightarrow> ws_sequence w' = ws_sequence w \<Longrightarrow> stretch w w'"
  by (simp add: stretch_def seq_step_def)

lemma stretch_refl [simp]: "stretch w w"
  by (simp add: stretchI)

lemma stretch_after: "stretch w w' \<Longrightarrow> kept w' w'' \<Longrightarrow> ws_sequence w'' = ws_sequence w' \<Longrightarrow> stretch w w''"
  by (auto simp: stretch_def seq_step_def intro: kept_trans)

lemma stretch_before: "kept w w' \<Longrightarrow> ws_sequence w' = ws_sequence w \<Longrightarrow> stretch w' w'' \<Longrightarrow> stretch w w''"
  by (auto simp: stretch_def seq_step_def intro: kept_trans)

lemma complete_kept [simp]: "kept w (snd (work_complete now a r b w))"
  and complete_sequence [simp]: "ws_sequence (snd (work_complete now a r b w)) = ws_sequence w"
  by (simp_all add: work_complete_def finalize_def Let_def)

lemma finish_error_stretch [simp]: "stretch w (snd (finish_error now r a s x w))"
  by (simp add: finish_error_def Let_def stretchI)

lemma fetch_stretch: "stretch w (snd (fetch_sequence w))"
  by (simp add: stretch_def seq_step_def) (simp add: fetch_sequence_def)

lemma handoff_from_current_stretch:
  "handoff_from_current sha cfg now r cur w = (r', w') \<Longrightarrow> stretch w w'"
  by (auto simp: handoff_from_current_def Let_def fetch_stretch dest: issue_token_ok
      split: option.splits prod.splits)

lemma handoff_after_failure_stretch:
  "handoff_after_failure sha cfg now r g row w = (r', w') \<Longrightarrow> stretch w w'"
  by (auto simp: handoff_after_failure_def Let_def fetch_stretch dest: issue_token_ok
      split: option.splits prod.splits if_splits)

lemma drive_begin_stretch: "stretch w (snd (drive_begin sha cfg now a r b cur ps fs w))"
  by (auto simp: drive_begin_def Let_def intro: stretchI stretch_after
      dest: handoff_from_current_stretch split: option.splits prod.splits)

lemma drive_gates_stretch: "stretch w (snd (drive_gates now a r b c gs w))"
  by (cases gs) (auto simp: Let_def intro: stretchI split: option.splits)

lemma drive_staged_stretch: "stretch w (snd (drive_staged now a r b c fp out w))"
  by (auto simp: drive_staged_def Let_def intro: stretchI
      intro!: stretch_before [OF kept_set_state _ drive_gates_stretch])

lemma drive_validated_stretch: "stretch w (snd (drive_validated sha cfg now a r b c g gs out w))"
  by (auto simp: drive_validated_def Let_def drive_gates_stretch intro: stretchI stretch_after
      dest: handoff_after_failure_stretch split: option.splits prod.splits)

lemma resume_rebound_stretch:
  "stretch w (snd (resume_rebound sha cfg now r req stored tok out w))"
  by (auto simp: resume_rebound_def Let_def case_prod_beta make_bridge_def intro: stretchI
      stretch_before [OF _ _ drive_begin_stretch] split: option.splits)

lemma work_continue_stretch: "stretch w (snd (work_continue sha cfg now t out w))"
  by (cases t)
    (simp_all add: start_adopted_def start_created_def Let_def drive_begin_stretch stretchI
      resume_rebound_stretch drive_staged_stretch drive_validated_stretch)

lemma resume_stretch: "stretch w (snd (work_resume sha cfg now ws req tok w))"
  by (auto simp: work_resume_def resume_record_def Let_def case_prod_beta intro: stretchI
      split: option.splits)

lemma inspect_stretch: "stretch w (snd (work_inspect now ws req w))"
  by (auto simp: work_inspect_def inspect_found_def Let_def split: option.splits)

lemma cancel_stretch: "stretch w (snd (work_cancel now ws req w))"
  by (auto simp: work_cancel_def Let_def intro: stretchI
      intro!: stretch_before [OF kept_token(1) _ stretchI [OF kept_commit]] split: option.splits)

section \<open>Work ids are never reused\<close>

lemma hex_no_dash: "CHR ''-'' \<notin> set (hex n)"
  using to_radix_digits [of "CHR ''-''" 16 n] by (auto simp: ascii_defs)

lemma last_field: "CHR ''-'' \<notin> set y \<Longrightarrow> takeWhile (\<lambda>c. c \<noteq> CHR ''-'') (rev (x @ ''-'' @ y)) = rev y"
  by (auto simp: takeWhile_append)

lemma format_work_id_seq:
  assumes "format_work_id a p m = format_work_id a' p' n"
  shows "m = n"
proof -
  from assms have "(WORK_ID_PREFIX @ hex a @ ''-'' @ hex p) @ ''-'' @ hex m =
      (WORK_ID_PREFIX @ hex a' @ ''-'' @ hex p') @ ''-'' @ hex n"
    by (simp add: format_work_id_def)
  then have "rev (hex m) = rev (hex n)"
    by (metis hex_no_dash last_field)
  then show ?thesis by (simp add: hex_inject)
qed

definition retired :: "work_config \<Rightarrow> string \<Rightarrow> work_service \<Rightarrow> bool" where
  "retired cfg i w \<longleftrightarrow> (\<exists>a n. i = format_work_id a (cfg_pid cfg) n \<and> n < ws_sequence w)"

definition ids_retired :: "work_config \<Rightarrow> work_service \<Rightarrow> bool" where
  "ids_retired cfg w \<longleftrightarrow> (\<forall>i r. bt_get (ws_records w) i = Some r \<longrightarrow> retired cfg i w)"

text \<open>One counter increment short of the 64-bit wrap-around.\<close>

definition no_wrap :: "work_system \<Rightarrow> bool" where
  "no_wrap s \<longleftrightarrow> Suc (ws_sequence (sys_service s)) < 2 ^ 64"

lemma seq_step_mono: "seq_step w w' \<Longrightarrow> Suc (ws_sequence w) < 2 ^ 64 \<Longrightarrow> ws_sequence w \<le> ws_sequence w'"
  by (auto simp: seq_step_def)

lemma retired_mono: "retired cfg i w \<Longrightarrow> ws_sequence w \<le> ws_sequence w' \<Longrightarrow> retired cfg i w'"
  unfolding retired_def by (elim exE conjE, intro exI conjI, assumption, erule (1) less_le_trans)

text \<open>
  What any move does to the records, for an id that was already issued: a cancelled record stays as
  it is or is evicted, an absent record stays absent.
\<close>

definition settled :: "string \<Rightarrow> work_service \<Rightarrow> work_service \<Rightarrow> bool" where
  "settled i w w' \<longleftrightarrow>
     (bt_get (ws_records w) i = None \<longrightarrow> bt_get (ws_records w') i = None) \<and>
     (\<forall>r. bt_get (ws_records w) i = Some r \<longrightarrow> wr_state r = Cancelled \<longrightarrow>
        bt_get (ws_records w') i = Some r \<or> bt_get (ws_records w') i = None)"

lemma kept_settled: "kept w w' \<Longrightarrow> settled i w w'"
  by (simp add: kept_def settled_def)

lemma insert_settled: "i \<noteq> wr_id r \<Longrightarrow> settled i w (work_insert r w)"
  by (auto simp: settled_def work_insert_def Let_def bt_get_insert bt_get_remove
      split: option.splits if_splits)

lemma settled_trans:
  "settled i w w' \<Longrightarrow> kept w' w'' \<Longrightarrow> settled i w w''"
  by (auto simp: settled_def kept_def)

lemma work_start_effect:
  "(\<exists>out. work_start cfg now ws req tok w = (Done out, w)) \<or>
   (\<exists>r w2 t q. wr_id r = format_work_id (now 0) (cfg_pid cfg) (ws_sequence w) \<and>
      wr_state r = Planned \<and> wr_token r = None \<and>
      ws_records w2 = ws_records w \<and> ws_sequence w2 = Suc (ws_sequence w) mod 2 ^ 64 \<and>
      work_start cfg now ws req tok w = (Suspend t q,
        work_set_state (now 3) (wr_id r) Collecting (snd (new_token (work_insert r w2)))) \<and>
      wr_id (task_record t) = wr_id r \<and> wr_token (task_record t) = None \<and> task_action t = Start)"
proof (cases "start_refusal cfg req tok w = None \<and> wq_intent req \<noteq> None")
  case False
  then show ?thesis by (auto simp: work_start_def split: option.splits)
next
  case True
  then obtain intent where i: "start_refusal cfg req tok w = None" "wq_intent req = Some intent" by auto
  define w2 where "w2 = snd (new_token (snd (fetch_sequence w)))"
  define r where "r = new_work_record (format_work_id (now 0) (cfg_pid cfg) (ws_sequence w)) now ws
    intent (wq_budget req) (fst (new_token (snd (fetch_sequence w))))"
  obtain t q where "work_start cfg now ws req tok w = (Suspend t q,
      work_set_state (now 3) (wr_id r) Collecting (snd (new_token (work_insert r w2))))"
    and "task_record t = r\<lparr>wr_state := Collecting\<rparr>" and "task_action t = Start"
    using i by (cases "wq_change_id req")
      (auto simp: work_start_def next_work_id_def make_bridge_def Let_def case_prod_beta
        w2_def r_def new_work_record_def fetch_sequence_def)
  then show ?thesis
    by (intro disjI2 exI [of _ r] exI [of _ w2] exI [of _ t] exI [of _ q])
      (simp add: r_def w2_def new_work_record_def new_token_def fetch_sequence_def)
qed

lemma work_start_cases:
  "snd (work_start cfg now ws req tok w) = w \<or>
   (\<exists>r w2. wr_id r = format_work_id (now 0) (cfg_pid cfg) (ws_sequence w) \<and>
      ws_records w2 = ws_records w \<and> ws_sequence w2 = Suc (ws_sequence w) mod 2 ^ 64 \<and>
      kept (work_insert r w2) (snd (work_start cfg now ws req tok w)) \<and>
      ws_sequence (snd (work_start cfg now ws req tok w)) = ws_sequence w2)"
proof -
  have "kept w' (work_set_state now i st (snd (new_token w')))" for w' now i st
    by (rule kept_trans [OF kept_token(2) kept_set_state])
  then show ?thesis
    using work_start_effect [of cfg now ws req tok w] by fastforce
qed

lemma bt_get_work_insert:
  "bt_get (ws_records (work_insert r w)) i \<noteq> None \<Longrightarrow> i = wr_id r \<or> bt_get (ws_records w) i \<noteq> None"
  by (auto simp: work_insert_def Let_def bt_get_insert bt_get_remove split: option.splits if_splits)

lemma kept_dom: "kept w w' \<Longrightarrow> bt_get (ws_records w') i \<noteq> None \<Longrightarrow> bt_get (ws_records w) i \<noteq> None"
  by (auto simp: kept_def)

text \<open>The store after any stretch of code, as the three facts the finality argument needs.\<close>

definition store_moves :: "work_config \<Rightarrow> work_service \<Rightarrow> work_service \<Rightarrow> bool" where
  "store_moves cfg w w' \<longleftrightarrow>
     ws_sequence w \<le> ws_sequence w' \<and> ids_retired cfg w' \<and>
     (\<forall>i. retired cfg i w \<longrightarrow> settled i w w')"

lemma stretch_moves:
  assumes "stretch w w'" and "ids_retired cfg w" and "Suc (ws_sequence w) < 2 ^ 64"
  shows "store_moves cfg w w'"
proof -
  have le: "ws_sequence w \<le> ws_sequence w'"
    using assms by (auto simp: stretch_def intro: seq_step_mono)
  have "retired cfg i w'" if "bt_get (ws_records w') i = Some r" for i r
    using that assms(1,2) kept_dom [of w w' i] retired_mono [OF _ le]
    by (auto simp: stretch_def ids_retired_def)
  with le assms(1) show ?thesis
    by (auto simp: store_moves_def ids_retired_def stretch_def intro: kept_settled)
qed

lemma start_moves:
  assumes "ids_retired cfg w" and "Suc (ws_sequence w) < 2 ^ 64"
  shows "store_moves cfg w (snd (work_start cfg now ws req tok w))"
  using work_start_cases [of cfg now ws req tok w]
proof (elim disjE exE conjE)
  assume "snd (work_start cfg now ws req tok w) = w"
  with assms show ?thesis by (simp add: stretch_moves)
next
  fix r w2
  define w' where "w' = snd (work_start cfg now ws req tok w)"
  assume "wr_id r = format_work_id (now 0) (cfg_pid cfg) (ws_sequence w)"
    and "ws_records w2 = ws_records w" and "ws_sequence w2 = Suc (ws_sequence w) mod 2 ^ 64"
    and "kept (work_insert r w2) (snd (work_start cfg now ws req tok w))"
    and "ws_sequence (snd (work_start cfg now ws req tok w)) = ws_sequence w2"
  with assms(2) have r: "wr_id r = format_work_id (now 0) (cfg_pid cfg) (ws_sequence w)"
    and same: "ws_records w2 = ws_records w" and k: "kept (work_insert r w2) w'"
    and seq: "ws_sequence w' = Suc (ws_sequence w)"
    by (simp_all add: w'_def)
  have le: "ws_sequence w \<le> ws_sequence w'" using seq by simp
  have "retired cfg i w'" if "bt_get (ws_records w') i = Some r'" for i r'
  proof (cases "i = wr_id r")
    case True
    with r seq show ?thesis by (auto simp: retired_def)
  next
    case False
    with that k bt_get_work_insert [of r w2 i] kept_dom [OF k, of i] same
    have "bt_get (ws_records w) i \<noteq> None" by auto
    with assms(1) show ?thesis by (auto simp: ids_retired_def intro: retired_mono [OF _ le])
  qed
  moreover have "settled i w w'" if "retired cfg i w" for i
  proof -
    from that r have "i \<noteq> wr_id r"
      by (auto simp: retired_def dest: format_work_id_seq)
    then have "settled i w2 w'" by (rule settled_trans [OF insert_settled k])
    with same show ?thesis by (simp add: settled_def)
  qed
  ultimately show "store_moves cfg w (snd (work_start cfg now ws req tok w))"
    using le by (simp add: store_moves_def ids_retired_def w'_def)
qed

lemma execute_moves:
  assumes "ids_retired cfg w" and "Suc (ws_sequence w) < 2 ^ 64"
  shows "store_moves cfg w (snd (work_execute sha cfg now ws req tok w))"
  using assms
  by (simp add: work_execute_def case_prod_beta start_moves stretch_moves resume_stretch inspect_stretch
      cancel_stretch split: work_action.splits)

lemma sys_service_after [simp]: "sys_service (after_step tid st w s) = w"
  by (cases st) simp_all

lemma work_move_store:
  assumes "work_move sha cfg s s'" and "ids_retired cfg (sys_service s)" and "no_wrap s"
  shows "store_moves cfg (sys_service s) (sys_service s')"
  using assms
proof (induction rule: work_move.induct)
  case (OpenRequest s tok w)
  then have "stretch (sys_service s) w"
    by (metis stretchI kept_token(2) sequence_simps(4) snd_conv)
  with OpenRequest show ?case by (simp add: stretch_moves no_wrap_def)
next
  case (BeginRequest tok s tid req now ws st w)
  then show ?case
    using execute_moves [of cfg "sys_service s" sha now ws req tok] by (simp add: no_wrap_def)
next
  case (ContinueTask s tid t now out st w)
  then have "stretch (sys_service s) w"
    by (metis work_continue_stretch snd_conv)
  with ContinueTask show ?case by (simp add: stretch_moves no_wrap_def)
qed (simp_all add: stretch_moves stretchI no_wrap_def)

text \<open>Runs in which the sequence counter does not wrap.\<close>

definition work_run :: "(string \<Rightarrow> string) \<Rightarrow> work_config \<Rightarrow> work_system \<Rightarrow> work_system \<Rightarrow> bool" where
  "work_run sha cfg = (\<lambda>s s'. work_move sha cfg s s' \<and> no_wrap s)\<^sup>*\<^sup>*"

lemma work_run_ids:
  assumes "work_run sha cfg s s'" and "ids_retired cfg (sys_service s)"
  shows "ids_retired cfg (sys_service s')"
  using assms unfolding work_run_def
  by (induction rule: rtranclp_induct) (auto dest: work_move_store simp: store_moves_def)

lemma ids_retired_new: "ids_retired cfg (sys_service work_system_new)"
  by (simp add: ids_retired_def work_system_new_def work_service_new_def)

lemma work_run_settled:
  assumes "work_run sha cfg s s'" and "ids_retired cfg (sys_service s)"
    and "bt_get (ws_records (sys_service s)) i = Some r" and "wr_state r = Cancelled"
  shows "(bt_get (ws_records (sys_service s')) i = Some r \<or> bt_get (ws_records (sys_service s')) i = None)
    \<and> retired cfg i (sys_service s') \<and> ids_retired cfg (sys_service s')"
  using assms(1) unfolding work_run_def
proof (induction rule: rtranclp_induct)
  case base
  with assms(2,3) show ?case by (auto simp: ids_retired_def)
next
  case (step s1 s2)
  then have "store_moves cfg (sys_service s1) (sys_service s2)"
    using work_move_store by blast
  with step.IH assms(4) show ?case
    by (auto simp: store_moves_def settled_def intro: retired_mono)
qed

text \<open>
  C3: Cancellation is final. In every interleaving of requests, change-service answers and host
  cancellations, once the record of a work item is \<open>Cancelled\<close> it is never changed again: it keeps
  every field until it is evicted, and its id is never given to another work item.
\<close>

theorem cancelled_work_is_final:
  assumes "work_run sha cfg work_system_new s" and "work_run sha cfg s s'"
    and "bt_get (ws_records (sys_service s)) i = Some r" and "wr_state r = Cancelled"
  shows "bt_get (ws_records (sys_service s')) i \<in> {Some r, None}"
  using work_run_settled [OF assms(2) work_run_ids [OF assms(1) ids_retired_new] assms(3,4)] by auto

end
