(* ===== verification/Work_Runs.thy ===== *)
theory Work_Runs
  imports Work_System
begin

text \<open>
  One request from its arrival to its outcome. \<open>replay\<close> feeds a task a list of answers of the
  change service, each together with the store and the clock as they are at that moment, so the
  other requests may do anything in between; it returns the exchanged requests and answers.
\<close>

type_synonym answer = "work_service \<times> (nat \<Rightarrow> nat) \<times> change_outcome"

fun replay ::
  "(string \<Rightarrow> string) \<Rightarrow> work_config \<Rightarrow> work_step \<Rightarrow> answer list \<Rightarrow>
   (change_request \<times> change_outcome) list \<times> work_step" where
  "replay sha cfg st [] = ([], st)"
| "replay sha cfg (Done out) (e # es) = ([], Done out)"
| "replay sha cfg (Suspend t q) ((w, now, out) # es) =
     (let (tr, fin) = replay sha cfg (fst (work_continue sha cfg now t out w)) es
      in ((q, out) # tr, fin))"

lemma replay_Done [simp]: "replay sha cfg (Done out) es = ([], Done out)"
  by (cases es) simp_all

section \<open>Ready means every gate passed\<close>

lemma complete_Done: "\<exists>out. fst (work_complete now a r b w) = Done out"
  by (simp add: work_complete_def Let_def case_prod_beta)

lemma complete_ready:
  assumes "fst (work_complete now a r b w) = Done out" and "wo_status out = ''READY''"
  shows "wr_state r = Ready \<and> wd_revision (wo_data out) = wr_revision r"
  using assms
  by (cases "wr_state r")
    (auto simp: work_complete_def finalize_def Let_def outcome_for_record_def data_for_record_def
      split: if_splits)

lemma complete_not_ready:
  assumes "replay sha cfg (fst (work_complete now a r b w)) es = (tr, Done out)"
    and "wo_status out = ''READY''"
  shows "wr_state r = Ready \<and> wd_revision (wo_data out) = wr_revision r \<and> tr = []"
proof -
  obtain o' where "fst (work_complete now a r b w) = Done o'" using complete_Done by blast
  with assms complete_ready show ?thesis by auto
qed

lemma handoff_states:
  "handoff_from_current sha cfg now r cur w = (r', w') \<Longrightarrow> wr_state r' \<in> {NeedsModel, Blocked}"
  "handoff_after_failure sha cfg now r g row w = (r', w') \<Longrightarrow> wr_state r' \<in> {NeedsModel, Blocked}"
  by (auto simp: handoff_from_current_def handoff_after_failure_def Let_def
      split: option.splits prod.splits if_splits)

text \<open>A drained gate list: one validation per gate, in order, each answered \<open>PASS\<close>.\<close>

definition gates_passed ::
  "string \<Rightarrow> nat \<Rightarrow> string \<Rightarrow> work_gate list \<Rightarrow> (change_request \<times> change_outcome) list \<Rightarrow> bool" where
  "gates_passed c n base gs tr \<longleftrightarrow>
     map fst tr = map (validate_request c n base) gs \<and> (\<forall>e \<in> set tr. co_status (snd e) = ''PASS'')"

lemma evidence_frame [simp]:
  "wr_revision (push_evidence r row) = wr_revision r"
  "wr_base_identity (push_evidence r row) = wr_base_identity r"
  "wr_intent (push_evidence r row) = wr_intent r"
  by (simp_all add: push_evidence_def Let_def)

lemma validated_ready:
  assumes "replay sha cfg (fst (drive_validated sha cfg now a r b c g gs out w)) es = (tr, Done fin)"
    and "wo_status fin = ''READY''" and "wr_state r = Validating"
  shows "co_status out = ''PASS'' \<and>
    (\<exists>r'. wr_revision r' = wr_revision r \<and> wr_base_identity r' = wr_base_identity r \<and>
      wr_state r' = Validating \<and> wr_intent r' = wr_intent r \<and>
      replay sha cfg (fst (drive_gates now a r' b c gs w)) es = (tr, Done fin))"
proof -
  define r0 where "r0 = (case select_row (co_data out) g of
      None \<Rightarrow> r\<lparr>wr_warnings := wr_warnings r @ cd_cleanup_warnings (co_data out)\<rparr>
    | Some row \<Rightarrow> push_evidence (r\<lparr>wr_warnings := wr_warnings r @ cd_cleanup_warnings (co_data out)\<rparr>)
        (evidence_row g row))"
  have r0: "wr_revision r0 = wr_revision r" "wr_base_identity r0 = wr_base_identity r"
      "wr_state r0 = Validating" "wr_intent r0 = wr_intent r"
    using assms(3) by (auto simp: r0_def split: option.splits)
  have nr: "wr_state r' = Ready" if "replay sha cfg (fst (work_complete now a r' b w')) es = (tr, Done fin)"
    for r' w' using complete_not_ready [OF that assms(2)] by simp
  have "co_status out = ''PASS''"
    using assms(1) unfolding drive_validated_def Let_def r0_def [symmetric]
    by (auto split: if_splits option.splits prod.splits dest!: nr dest: handoff_states)
  with assms(1) r0 show ?thesis
    unfolding drive_validated_def Let_def r0_def [symmetric] by auto
qed

lemma gates_ready:
  assumes "replay sha cfg (fst (drive_gates now a r b c gs w)) es = (tr, Done fin)"
    and "wo_status fin = ''READY''" and "wr_state r = Validating"
  shows "wd_revision (wo_data fin) = wr_revision r \<and>
    gates_passed c (wr_revision r) (opt_str (wr_base_identity r)) gs tr"
  using assms
proof (induction gs arbitrary: now r w es tr)
  case Nil
  then show ?case using complete_not_ready [OF _ Nil(2)] by (fastforce simp: gates_passed_def)
next
  case (Cons g gs)
  have nr: "wr_state r' = Ready" if "replay sha cfg (fst (work_complete now a r' b w')) es = (tr, Done fin)"
    for r' w' using complete_not_ready [OF that Cons.prems(2)] by simp
  define r1 where "r1 = r\<lparr>wr_compiles := sat_add (wr_compiles r) 1\<rparr>"
  have sus: "fst (drive_gates now a r b c (g # gs) w) = Suspend (AwaitGate a r1 b c g gs)
      (validate_request c (wr_revision r) (opt_str (wr_base_identity r)) g)"
    using Cons.prems(1)
    by (auto simp: r1_def Let_def split: if_splits option.splits dest!: nr)
  with Cons.prems(1) obtain w1 now1 out es' where es: "es = (w1, now1, out) # es'"
    by (cases es) auto
  obtain tr' where tr: "tr = (validate_request c (wr_revision r) (opt_str (wr_base_identity r)) g, out) # tr'"
      "replay sha cfg (fst (drive_validated sha cfg now1 a r1 b c g gs out w1)) es' = (tr', Done fin)"
    using Cons.prems(1) sus es by (auto split: prod.splits)
  have "wr_state r1 = Validating" using Cons.prems(3) by (simp add: r1_def)
  from validated_ready [OF tr(2) Cons.prems(2) this] Cons.IH Cons.prems(2) tr(1)
  show ?case by (fastforce simp: gates_passed_def r1_def)
qed

text \<open>A trace that ends with a staged candidate whose gates all passed on the revision it got.\<close>

definition ready_trace ::
  "work_intent \<Rightarrow> nat \<Rightarrow> (change_request \<times> change_outcome) list \<Rightarrow> bool" where
  "ready_trace i n tr \<longleftrightarrow>
     (\<exists>pre q o' c base tl. tr = pre @ (q, o') # tl \<and> length pre \<le> 1 \<and>
        cr_action q = ChangeStage \<and> request_ok i q \<and> co_status o' = ''STAGED'' \<and>
        cd_revision (co_data o') = n \<and> gates_passed c n base (unique_gates i) tl)"

lemma staged_ready:
  assumes "replay sha cfg (fst (drive_staged now a r b c fp out w)) es = (tr, Done fin)"
    and "wo_status fin = ''READY''" and "wr_state r = Staging"
  shows "co_status out = ''STAGED'' \<and> wd_revision (wo_data fin) = cd_revision (co_data out) \<and>
    (\<exists>base. gates_passed c (cd_revision (co_data out)) base (unique_gates (wr_intent r)) tr)"
proof -
  have nr: "wr_state r' = Ready" if "replay sha cfg (fst (work_complete now a r' b w')) es = (tr, Done fin)"
    for r' w' using complete_not_ready [OF that assms(2)] by simp
  have st: "co_status out = ''STAGED''"
    using assms(1) by (auto simp: drive_staged_def Let_def split: if_splits dest!: nr)
  with assms(1) obtain r' w' where "replay sha cfg (fst (drive_gates now a r' b c
      (unique_gates (wr_intent r)) w')) es = (tr, Done fin)"
    and "wr_state r' = Validating" and "wr_revision r' = cd_revision (co_data out)"
    unfolding drive_staged_def Let_def by simp
  with gates_ready [OF _ assms(2)] st show ?thesis by metis
qed

lemma begin_ready:
  assumes "replay sha cfg (fst (drive_begin sha cfg now a r b cur ps fs w)) es = (tr, Done fin)"
    and "wo_status fin = ''READY''" and "wr_state r \<noteq> Ready"
  shows "ready_trace (wr_intent r) (wd_revision (wo_data fin)) (e0 @ tr) \<or> 1 < length e0"
proof -
  have nr: "wr_state r' = Ready" if "replay sha cfg (fst (work_complete now a r' b w')) es = (tr, Done fin)"
    for r' w' using complete_not_ready [OF that assms(2)] by simp
  obtain c fp r1 base where sus: "fst (drive_begin sha cfg now a r b cur ps fs w) =
      Suspend (AwaitStage a r1 b c fp) (stage_request c (wr_revision r) base ps fs)"
    and r1: "r1 = r\<lparr>wr_state := Staging\<rparr>" and "candidate_scope_error (wr_intent r) ps fs = None"
    using assms(1)
    by (auto simp: drive_begin_def Let_def split: if_splits option.splits prod.splits
        dest!: nr dest: handoff_states)
  then have ok: "request_ok (wr_intent r) (stage_request c (wr_revision r) base ps fs)"
    using candidate_in_scope by (simp add: request_ok_def stage_request_def create_request_def)
  from assms(1) sus obtain w1 now1 out es' where es: "es = (w1, now1, out) # es'"
    by (cases es) auto
  obtain tr' where tr: "tr = (stage_request c (wr_revision r) base ps fs, out) # tr'"
      "replay sha cfg (fst (drive_staged now1 a r1 b c fp out w1)) es' = (tr', Done fin)"
    using assms(1) sus es by (auto split: prod.splits)
  have "wr_state r1 = Staging" "wr_intent r1 = wr_intent r" by (simp_all add: r1)
  with staged_ready [OF tr(2) assms(2)] ok tr(1) show ?thesis
    unfolding ready_trace_def by (fastforce simp: stage_request_def)
qed

lemma continue_ready:
  assumes "replay sha cfg (fst (work_continue sha cfg now t out w)) es = (tr, Done fin)"
    and "wo_status fin = ''READY''" and "wr_state (task_record t) \<notin> {Ready, Staging, Validating}"
    and "\<And>a r b c fp. t \<noteq> AwaitStage a r b c fp" and "\<And>a r b c g gs. t \<noteq> AwaitGate a r b c g gs"
  shows "ready_trace (wr_intent (task_record t)) (wd_revision (wo_data fin)) (e # tr)"
proof -
  have nr: "wr_state r' = Ready" if "replay sha cfg (fst (work_complete now a r' b w')) es = (tr, Done fin)"
    for a r' b w' using complete_not_ready [OF that assms(2)] by simp
  have bt: "ready_trace (wr_intent r') (wd_revision (wo_data fin)) (e # tr)"
    if "replay sha cfg (fst (drive_begin sha cfg now a r' b cur ps fs w')) es = (tr, Done fin)"
      "wr_state r' \<noteq> Ready" for a r' b cur ps fs w'
    using begin_ready [OF that(1) assms(2) that(2), of "[e]"] by simp
  have fe: "wo_status (fst (finish_error now r Resume ''STALE'' x w)) \<noteq> ''READY''" for r x
    by (simp add: finish_error_def Let_def)
  show ?thesis
  proof (cases t)
    case (AwaitAdopt r b req c)
    with assms show ?thesis
      by (auto simp: start_adopted_def Let_def split: if_splits dest!: nr bt)
  next
    case (AwaitCreate r b req)
    with assms show ?thesis
      by (auto simp: start_created_def Let_def split: if_splits dest!: nr bt)
  next
    case (AwaitRebind r req stored tok)
    define r0 where "r0 = (if wq_intent req \<noteq> None \<or> wc_required_tools (wq_constraints req) \<noteq> [] \<or>
      wc_offline (wq_constraints req) then push_warning r RESUME_IGNORED_WARNING else r)"
    have r0: "wr_intent r0 = wr_intent r" "wr_state r0 = wr_state r"
      by (simp_all add: r0_def push_warning_def)
    have blocked: "wo_status (outcome_for_record n (record_block r' x) Resume) \<noteq> ''READY''" for n r' x
      by (simp add: outcome_for_record_def)
    have rr: "replay sha cfg (fst (resume_rebound sha cfg now r req stored tok out w)) es = (tr, Done fin)"
      and ns: "wr_state r0 \<noteq> Ready"
      using assms(1,3) AwaitRebind by (simp_all add: r0)
    have "ready_trace (wr_intent r0) (wd_revision (wo_data fin)) (e # tr)"
      using rr assms(2) fe blocked ns
      unfolding resume_rebound_def Let_def r0_def [symmetric]
      by (auto simp: case_prod_beta split: if_splits option.splits dest!: bt)
    with AwaitRebind show ?thesis by (simp add: r0)
  qed (use assms(4,5) in auto)
qed

text \<open>The intent a request runs under: its own for \<open>start\<close>, the recorded one for \<open>resume\<close>.\<close>

definition governing_intent :: "work_request \<Rightarrow> work_service \<Rightarrow> work_intent option" where
  "governing_intent req w =
     (if wq_action req = Start then wq_intent req
      else map_option wr_intent (load_record w (opt_str (wq_work_id req))))"

lemma execute_suspends:
  assumes "fst (work_execute sha cfg now ws req tok w) = Suspend t q"
  shows "governing_intent req w = Some (wr_intent (task_record t)) \<and>
    wr_state (task_record t) \<in> {Collecting, NeedsModel} \<and>
    (\<forall>a r b c fp. t \<noteq> AwaitStage a r b c fp) \<and> (\<forall>a r b c g gs. t \<noteq> AwaitGate a r b c g gs)"
proof (cases "wq_action req")
  case Start
  with assms show ?thesis
    by (auto simp: work_execute_def work_start_def governing_intent_def Let_def case_prod_beta
        new_work_record_def split: option.splits)
next
  case Resume
  with assms show ?thesis
    by (auto simp: work_execute_def work_resume_def resume_record_def governing_intent_def Let_def
        case_prod_beta use_token_def opt_str_def split: option.splits if_splits)
qed (use assms in \<open>simp_all add: work_execute_def case_prod_beta\<close>)

lemma execute_done_not_ready:
  assumes "fst (work_execute sha cfg now ws req tok w) = Done out"
  shows "wo_status out \<noteq> ''READY''"
proof -
  have fe: "wo_status (fst (finish_error now r a ''STALE'' x w)) = ''STALE''" for r a x
    by (simp add: finish_error_def Let_def)
  have sr: "st \<noteq> ''READY''" if "start_refusal cfg req tok w = Some (st, x)" for st x
    using that by (auto simp: start_refusal_def split: if_splits option.splits)
  show ?thesis
  proof (cases "wq_action req")
    case Start
    with assms sr show ?thesis
      by (auto simp: work_execute_def work_start_def Let_def case_prod_beta refuse_def
          split: option.splits)
  next
    case Resume
    with assms show ?thesis
      by (auto simp: work_execute_def work_resume_def resume_record_def Let_def case_prod_beta refuse_def
          reject_def fe outcome_for_record_def split: option.splits if_splits)
  next
    case Inspect
    with assms show ?thesis
      by (auto simp: work_execute_def work_inspect_def inspect_found_def Let_def case_prod_beta
          refuse_def fe split: option.splits if_splits)
  next
    case Cancel
    with assms show ?thesis
      by (auto simp: work_execute_def work_cancel_def Let_def case_prod_beta refuse_def fe
          split: option.splits if_splits)
  qed
qed

text \<open>
  C1: A \<open>READY\<close> outcome is backed by gate evidence. Whatever the other requests and the clock do
  meanwhile, a request that ends \<open>READY\<close> has staged one candidate whose files all lie inside the
  declared scope, and then had every distinct acceptance gate of its intent validated, in order, on the
  very revision it reports, each answered \<open>PASS\<close> by the change service.
\<close>

theorem ready_only_after_all_gates:
  assumes "replay sha cfg (fst (work_execute sha cfg now ws req tok w)) es = (tr, Done out)"
    and "wo_status out = ''READY''"
  shows "\<exists>i. governing_intent req w = Some i \<and> ready_trace i (wd_revision (wo_data out)) tr"
proof (cases "fst (work_execute sha cfg now ws req tok w)")
  case (Done o')
  with assms execute_done_not_ready [OF Done] show ?thesis by simp
next
  case (Suspend t q)
  note ex = execute_suspends [OF Suspend]
  from assms(1) Suspend obtain w1 now1 o1 es' where es: "es = (w1, now1, o1) # es'"
    by (cases es) auto
  then obtain tr' where tr: "tr = (q, o1) # tr'"
      "replay sha cfg (fst (work_continue sha cfg now1 t o1 w1)) es' = (tr', Done out)"
    using assms(1) Suspend by (auto split: prod.splits)
  from continue_ready [OF tr(2) assms(2)] ex tr(1) show ?thesis by auto
qed

section \<open>Every request ends\<close>

fun awaits :: "work_task \<Rightarrow> nat" where
  "awaits (AwaitAdopt r b req c) = 2 + length (unique_gates (wr_intent r))"
| "awaits (AwaitCreate r b req) = 2 + length (unique_gates (wr_intent r))"
| "awaits (AwaitRebind r req stored tok) = 2 + length (unique_gates (wr_intent r))"
| "awaits (AwaitStage action r b c fp) = 1 + length (unique_gates (wr_intent r))"
| "awaits (AwaitGate action r b c g gs) = 1 + length gs"

fun step_awaits :: "work_step \<Rightarrow> nat" where
  "step_awaits (Done out) = 0"
| "step_awaits (Suspend t q) = awaits t"

lemma complete_awaits [simp]: "step_awaits (fst (work_complete now a r b w)) = 0"
  by (metis complete_Done step_awaits.simps(1))

lemma drive_awaits:
  "step_awaits (fst (drive_begin sha cfg now a r b cur ps fs w)) \<le> 1 + length (unique_gates (wr_intent r))"
  "step_awaits (fst (drive_gates now a r b c gs w)) \<le> length gs"
  by (auto simp: drive_begin_def Let_def case_prod_beta split: option.splits)
    (cases gs; auto simp: Let_def split: option.splits)

lemma continue_awaits: "step_awaits (fst (work_continue sha cfg now t out w)) < awaits t"
proof (cases t)
  case (AwaitRebind r req stored tok)
  have "wr_intent (push_warning r s) = wr_intent r" for s
    by (simp add: push_warning_def)
  then show ?thesis
    using AwaitRebind drive_awaits(1) [where r = r] drive_awaits(1) [where r = "push_warning r s" for s]
    by (auto simp: resume_rebound_def Let_def case_prod_beta less_Suc_eq_le split: option.splits)
next
  case (AwaitGate a r b c g gs)
  then show ?thesis
    using drive_awaits(2) [where gs = gs]
    by (auto simp: drive_validated_def Let_def case_prod_beta less_Suc_eq_le split: option.splits)
next
  case (AwaitStage a r b c fp)
  then show ?thesis
    using drive_awaits(2) [where gs = "unique_gates (wr_intent r)"]
    by (auto simp: drive_staged_def Let_def less_Suc_eq_le)
next
  case (AwaitAdopt r b req c)
  then show ?thesis
    using drive_awaits(1) [where r = "r\<lparr>wr_change_id := x, wr_revision := y,
      wr_base_identity := z, wr_patch_hash := h\<rparr>" for x y z h]
    by (auto simp: start_adopted_def Let_def less_Suc_eq_le)
next
  case (AwaitCreate r b req)
  then show ?thesis
    using drive_awaits(1) [where r = "r\<lparr>wr_warnings := v, wr_change_id := x,
      wr_base_identity := z, wr_patch_hash := h\<rparr>" for v x z h]
    by (auto simp: start_created_def Let_def less_Suc_eq_le)
qed

lemma replay_ends: "step_awaits st \<le> length es \<Longrightarrow> \<exists>out. snd (replay sha cfg st es) = Done out"
proof (induction sha cfg st es rule: replay.induct)
  case (1 sha cfg st)
  then show ?case by (cases st) (auto, metis continue_awaits not_less0)
next
  case (3 sha cfg t q w now out es)
  have "step_awaits (fst (work_continue sha cfg now t out w)) \<le> length es"
    using 3(2) continue_awaits [of sha cfg now t out w] by simp
  with 3(1) show ?case by (simp add: case_prod_beta)
qed simp

lemma unique_gates_le_6: "length (unique_gates i) \<le> 6"
proof -
  have "set (unique_gates i) \<subseteq> {GateCheck, GateClippy, GateTest, GateDoc, GateFmt, GateAll}"
    using work_gate.exhaust by blast
  then have "card (set (unique_gates i)) \<le> card {GateCheck, GateClippy, GateTest, GateDoc, GateFmt, GateAll}"
    by (rule card_mono [rotated]) simp
  then show ?thesis
    by (simp add: distinct_card unique_gates_distinct)
qed

lemma execute_awaits: "step_awaits (fst (work_execute sha cfg now ws req tok w)) \<le> 8"
proof (cases "fst (work_execute sha cfg now ws req tok w)")
  case (Suspend t q)
  have "awaits t \<le> 8"
    using execute_suspends [OF Suspend] unique_gates_le_6 [of "wr_intent (task_record t)"]
    by (cases t) auto
  with Suspend show ?thesis by simp
qed simp

text \<open>
  C10: Every request ends. No work request makes more than eight calls to the change service: after at most
  eight answers, whatever they are and whatever runs in between, it has an outcome.
\<close>

theorem work_request_ends:
  "length es = 8 \<Longrightarrow>
    \<exists>out. snd (replay sha cfg (fst (work_execute sha cfg now ws req tok w)) es) = Done out"
  using replay_ends execute_awaits by metis

end
