(* ===== verification/Work_Tokens.thy ===== *)
theory Work_Tokens
  imports Work_Runs
begin

text \<open>
  Continuation tokens are single-use across all interleavings. The argument follows the token hash: a
  record only ever gets a hash it had, the one its task loaded, or a fresh one made from the current
  value of the sequence counter, and a task that consumed a token never leaves the record waiting on
  that token again.
\<close>

section \<open>Token hashes\<close>

definition th :: "work_record \<Rightarrow> string option" where
  "th r = map_option ht_token_hash (wr_token r)"

text \<open>A hash of a token the service makes when its sequence counter is \<open>m\<close>.\<close>

definition fresh_hash :: "(string \<Rightarrow> string) \<Rightarrow> nat \<Rightarrow> string option \<Rightarrow> bool" where
  "fresh_hash sha m h \<longleftrightarrow> (\<exists>i n ph t. h = Some (sha256_hex sha (generate_token sha i n ph m t)))"

definition issued :: "(string \<Rightarrow> string) \<Rightarrow> nat \<Rightarrow> string \<Rightarrow> bool" where
  "issued sha m h \<longleftrightarrow> (\<exists>n < m. fresh_hash sha n (Some h))"

lemma last_nul_field:
  "CHR 0x00 \<notin> set y \<Longrightarrow> takeWhile (\<lambda>c. c \<noteq> CHR 0x00) (rev (x @ NUL @ y)) = rev y"
  "CHR 0x00 \<notin> set y \<Longrightarrow> dropWhile (\<lambda>c. c \<noteq> CHR 0x00) (rev (x @ NUL @ y)) = rev (x @ NUL)"
  by (auto simp: NUL_def takeWhile_append dropWhile_append)

lemma token_bytes_seq:
  assumes "x @ NUL @ dec m @ NUL @ dec t = x' @ NUL @ dec n @ NUL @ dec t'"
  shows "m = n"
proof -
  have "rev ((x @ NUL @ dec m) @ NUL) = rev ((x' @ NUL @ dec n) @ NUL)"
    using last_nul_field(2) [of "dec t" "x @ NUL @ dec m"] last_nul_field(2) [of "dec t'" "x' @ NUL @ dec n"]
      assms dec_no_nul by simp
  then have "rev (dec m) = rev (dec n)"
    using last_nul_field(1) [of "dec m" x] last_nul_field(1) [of "dec n" x'] dec_no_nul by (simp add: NUL_def)
  then show ?thesis by (simp add: dec_inject)
qed

lemma generate_token_inject:
  assumes "inj sha" and "generate_token sha i n ph m t = generate_token sha i' n' ph' m' t'"
  shows "m = m'"
proof -
  define x where "x = ''agz-rust-mcp-work-token'' @ NUL @ i @ NUL @ dec n @ NUL @ ph"
  define y where "y = ''agz-rust-mcp-work-token'' @ NUL @ i' @ NUL @ dec n' @ NUL @ ph'"
  have "sha (x @ NUL @ dec m @ NUL @ dec t) = sha (y @ NUL @ dec m' @ NUL @ dec t')"
    using assms(2) unfolding generate_token_def x_def y_def append_assoc .
  then show ?thesis by (rule token_bytes_seq [OF injD [OF assms(1)]])
qed

lemma issued_not_fresh:
  assumes "inj sha" and "issued sha m h"
  shows "\<not> fresh_hash sha m (Some h)"
proof
  assume "fresh_hash sha m (Some h)"
  then obtain i n ph t where h: "h = sha256_hex sha (generate_token sha i n ph m t)" by (auto simp: fresh_hash_def)
  from assms(2) obtain k i' n' ph' t' where k: "k < m" "h = sha256_hex sha (generate_token sha i' n' ph' k t')"
    by (auto simp: issued_def fresh_hash_def)
  have "generate_token sha i n ph m t = generate_token sha i' n' ph' k t'"
    using h k(2) injD [OF assms(1)] by (simp add: sha256_hex_def)
  from generate_token_inject [OF assms(1) this] k(1) show False by simp
qed

lemma fresh_issued: "fresh_hash sha m (Some h) \<Longrightarrow> m < n \<Longrightarrow> issued sha n h"
  by (auto simp: issued_def)

lemma issued_mono: "issued sha m h \<Longrightarrow> m \<le> n \<Longrightarrow> issued sha n h"
  by (auto simp: issued_def intro: less_le_trans)

section \<open>Writes of one stretch\<close>

text \<open>\<open>F\<close> tells the hashes the stretch itself issued.\<close>

definition writes ::
  "(string option \<Rightarrow> bool) \<Rightarrow> string \<Rightarrow> string option \<Rightarrow> work_service \<Rightarrow> work_service \<Rightarrow> bool" where
  "writes F i h w w' \<longleftrightarrow>
     (\<forall>j. j \<noteq> i \<longrightarrow> bt_get (ws_records w') j = bt_get (ws_records w) j) \<and>
     (bt_get (ws_records w') i = bt_get (ws_records w) i \<or>
      (\<exists>r0 r1. bt_get (ws_records w) i = Some r0 \<and> bt_get (ws_records w') i = Some r1 \<and>
         (th r1 = th r0 \<or> th r1 = h \<or> F (th r1)) \<and>
         (wr_state r1 = NeedsModel \<longrightarrow> F (th r1))))"

definition done_fresh :: "(string option \<Rightarrow> bool) \<Rightarrow> string \<Rightarrow> work_service \<Rightarrow> bool" where
  "done_fresh F i w \<longleftrightarrow>
     (\<forall>r. bt_get (ws_records w) i = Some r \<longrightarrow> wr_state r = NeedsModel \<longrightarrow> F (th r))"

fun tracked ::
  "(string option \<Rightarrow> bool) \<Rightarrow> work_action \<Rightarrow> string \<Rightarrow> string option \<Rightarrow> work_service \<Rightarrow>
   work_step \<times> work_service \<Rightarrow> bool" where
  "tracked F a i h w (Done out, w') = (writes F i h w w' \<and> done_fresh F i w')"
| "tracked F a i h w (Suspend t q, w') =
     (writes F i h w w' \<and> wr_id (task_record t) = i \<and> th (task_record t) = h \<and>
      task_action t = a)"

lemma th_update [simp]:
  "th (r\<lparr>wr_state := s\<rparr>) = th r" "th (r\<lparr>wr_reason := x\<rparr>) = th r" "th (r\<lparr>wr_warnings := v\<rparr>) = th r"
  "th (r\<lparr>wr_handoff := y\<rparr>) = th r" "th (r\<lparr>wr_change_id := c\<rparr>) = th r"
  "th (r\<lparr>wr_base_identity := c\<rparr>) = th r" "th (r\<lparr>wr_revision := n\<rparr>) = th r"
  "th (r\<lparr>wr_patch_hash := c\<rparr>) = th r" "th (r\<lparr>wr_last_failure_fingerprint := c\<rparr>) = th r"
  "th (r\<lparr>wr_cancellation := n\<rparr>) = th r" "th (r\<lparr>wr_updated_at_ms := n\<rparr>) = th r"
  "th (r\<lparr>wr_compiles := n\<rparr>) = th r" "th (r\<lparr>wr_candidates := n\<rparr>) = th r"
  "th (r\<lparr>wr_handoffs := n\<rparr>) = th r" "th (r\<lparr>wr_tried_fingerprints := f\<rparr>) = th r"
  "th (r\<lparr>wr_evidence := e\<rparr>) = th r"
  by (simp_all add: th_def)

lemma th_ops [simp]:
  "th (record_block r x) = th r" "th (record_fail r x) = th r" "th (push_warning r s) = th r"
  "th (push_evidence r row) = th r" "th (use_token r) = th r"
  by (simp_all add: record_block_def record_fail_def push_warning_def push_evidence_def Let_def)
    (simp add: th_def use_token_def option.map_comp comp_def)

lemma id_ops [simp]:
  "wr_id (record_block r x) = wr_id r" "wr_id (record_fail r x) = wr_id r"
  "wr_id (push_warning r s) = wr_id r" "wr_id (push_evidence r row) = wr_id r"
  "wr_id (use_token r) = wr_id r"
  by (simp_all add: record_block_def record_fail_def push_warning_def push_evidence_def use_token_def
      Let_def)

lemma writes_same [simp]: "ws_records w' = ws_records w \<Longrightarrow> writes F i h w w'"
  by (simp add: writes_def)

lemma writes_trans: "writes F i h w w' \<Longrightarrow> writes F i h w' w'' \<Longrightarrow> writes F i h w w''"
  unfolding writes_def by (elim conjE disjE exE) (simp_all, metis+)

lemma writes_set_state: "st \<noteq> NeedsModel \<Longrightarrow> writes F i h w (work_set_state now i st w)"
  by (auto simp: writes_def work_set_state_def bt_get_insert split: option.splits)

lemma writes_commit:
  assumes "wr_id r = i" and "th r = h \<or> F (th r)"
    and "wr_state r = NeedsModel \<Longrightarrow> F (th r)"
  shows "writes F i h w (work_commit now r w) \<and> done_fresh F i (work_commit now r w)"
  using assms
  by (auto simp: writes_def done_fresh_def work_commit_def bt_get_insert split: option.splits)

lemma tracked_complete:
  assumes "wr_id r = i" and "th r = h \<or> F (th r)"
    and "wr_state r = NeedsModel \<Longrightarrow> F (th r)" and "ws_records w' = ws_records w"
  shows "tracked F a i h w (work_complete now a r b w')"
proof -
  define r1 where "r1 = (if is_cancelled w' (br_work b) \<and> wr_state r \<noteq> Cancelled
      then r\<lparr>wr_state := Cancelled, wr_reason := CancelledAt NoFurtherNodes\<rparr> else r)"
  have "writes F i h w' (work_commit (now 8) r1 w') \<and> done_fresh F i (work_commit (now 8) r1 w')"
    by (rule writes_commit) (use assms in \<open>auto simp: r1_def split: if_splits\<close>)
  then show ?thesis
    using assms(4) writes_trans [OF writes_same [OF assms(4)]]
    by (auto simp: work_complete_def finalize_def Let_def r1_def)
qed

lemma finish_error_writes:
  assumes "wr_id r = i" and "th r = h"
  shows "writes F i h w (snd (finish_error now r a s x w)) \<and>
    done_fresh F i (snd (finish_error now r a s x w))"
proof -
  have "writes F i h w (work_commit (now 0) r1 w) \<and> done_fresh F i (work_commit (now 0) r1 w)"
    if "r1 = (if \<not> work_state_is_terminal (wr_state r)
               then r\<lparr>wr_state := (if s = ''BLOCKED'' then Blocked else Failed)\<rparr> else r)\<lparr>wr_reason := x\<rparr>" for r1
    by (rule writes_commit) (use assms that in \<open>auto split: if_splits\<close>)
  then show ?thesis by (simp add: finish_error_def Let_def)
qed

section \<open>The stretches\<close>

text \<open>The hashes a stretch from \<open>w\<close> to \<open>w'\<close> may issue: made from the counter, which then advanced.\<close>

definition new_hash :: "(string \<Rightarrow> string) \<Rightarrow> work_service \<Rightarrow> work_service \<Rightarrow> string option \<Rightarrow> bool" where
  "new_hash sha w w' h \<longleftrightarrow>
     fresh_hash sha (ws_sequence w) h \<and> ws_sequence w' = Suc (ws_sequence w) mod 2 ^ 64"

lemma issue_token_fresh:
  assumes "issue_token sha cfg now r k ds n om p w = (y, r', w')"
  shows "new_hash sha w w' (th r') \<and> wr_id r' = wr_id r \<and> ws_records w' = ws_records w"
proof -
  have "fresh_hash sha q (Some (sha256_hex sha (generate_token sha i n ph q t)))" for i n ph q t
    by (auto simp: fresh_hash_def)
  with assms show ?thesis
    by (auto simp: issue_token_def Let_def fetch_sequence_def th_def new_hash_def)
qed

lemma handoff_tokens:
  assumes "handoff_from_current sha cfg now r cur w = (r', w') \<or>
    handoff_after_failure sha cfg now r g row w = (r', w')"
  shows "wr_id r' = wr_id r \<and> ws_records w' = ws_records w \<and>
    (new_hash sha w w' (th r') \<or> wr_state r' = Blocked \<and> th r' = th r)"
  using assms
  by (auto simp: handoff_from_current_def handoff_after_failure_def Let_def
      dest!: issue_token_fresh split: option.splits prod.splits if_splits)

lemma new_hash_complete:
  "new_hash sha w w' h \<Longrightarrow> new_hash sha w (snd (work_complete now a r b w')) h"
  by (simp add: new_hash_def)

lemma tracked_same: "ws_records w' = ws_records w \<Longrightarrow> tracked F a i h w' p \<Longrightarrow> tracked F a i h w p"
  by (cases p; cases "fst p") (auto simp: writes_def)

lemma tracked_before: "writes F i h w w' \<Longrightarrow> tracked F a i h w' p \<Longrightarrow> tracked F a i h w p"
  by (cases p; cases "fst p") (auto intro: writes_trans)

lemma begin_tracked:
  fixes sha cfg now a r b cur ps fs w
  defines "p \<equiv> drive_begin sha cfg now a r b cur ps fs w"
  assumes "wr_id r = i" and "th r = h" and F: "\<And>x. new_hash sha w (snd p) x \<Longrightarrow> F x"
  shows "tracked F a i h w p"
proof (cases "ps = [] \<and> fs = []")
  case True
  obtain r' w' where h: "handoff_from_current sha cfg now r cur w = (r', w')" by fastforce
  have p: "p = work_complete now a r' b w'"
    using True h by (simp add: p_def drive_begin_def)
  have "F (th r') \<or> wr_state r' = Blocked \<and> th r' = th r" "wr_id r' = i" "ws_records w' = ws_records w"
    using handoff_tokens [OF disjI1 [OF h]] F p assms(2) new_hash_complete by auto
  then show ?thesis
    unfolding p using assms(3) by (intro tracked_complete) auto
next
  case False
  with assms(2,3) show ?thesis
    by (auto simp: p_def drive_begin_def Let_def writes_set_state intro!: tracked_complete
        split: option.splits)
qed

lemma gates_tracked:
  assumes "wr_id r = i" and "th r = h" and "wr_state r = Validating"
  shows "tracked F a i h w (drive_gates now a r b c gs w)"
  using assms by (cases gs) (auto simp: Let_def intro!: tracked_complete split: option.splits)

lemma staged_tracked:
  assumes "wr_id r = i" and "th r = h" and "wr_state r = Staging"
  shows "tracked F a i h w (drive_staged now a r b c fp out w)"
proof (cases "co_status out = ''STAGED''")
  case True
  have w: "writes F i h w (work_set_state (now 0) i Validating w)"
    by (simp add: writes_set_state)
  from True obtain r' gs where "drive_staged now a r b c fp out w =
      drive_gates now a r' b c gs (work_set_state (now 0) i Validating w)"
    and "wr_id r' = i" "th r' = h" "wr_state r' = Validating"
    using assms unfolding drive_staged_def Let_def by simp
  then show ?thesis
    using tracked_before [OF w] gates_tracked by metis
next
  case False
  with assms show ?thesis
    by (auto simp: drive_staged_def Let_def intro!: tracked_complete)
qed

lemma validated_tracked:
  fixes sha cfg now a r b c g gs out w
  defines "p \<equiv> drive_validated sha cfg now a r b c g gs out w"
  assumes "wr_id r = i" and "th r = h" and "wr_state r = Validating"
    and F: "\<And>x. new_hash sha w (snd p) x \<Longrightarrow> F x"
  shows "tracked F a i h w p"
proof -
  define r0 where "r0 = (case select_row (co_data out) g of
      None \<Rightarrow> r\<lparr>wr_warnings := wr_warnings r @ cd_cleanup_warnings (co_data out)\<rparr>
    | Some row \<Rightarrow> push_evidence (r\<lparr>wr_warnings := wr_warnings r @ cd_cleanup_warnings (co_data out)\<rparr>)
        (evidence_row g row))"
  have r0: "wr_id r0 = i" "th r0 = h" "wr_state r0 = Validating"
    using assms by (auto simp: r0_def split: option.splits)
  have ho: "tracked F a i h w p"
    if "handoff_after_failure sha cfg now r0 g row w = (r', w')" "p = work_complete now a r' b w'"
    for row r' w'
  proof -
    have "F (th r') \<or> wr_state r' = Blocked \<and> th r' = th r0" "wr_id r' = i" "ws_records w' = ws_records w"
      using handoff_tokens [OF disjI2 [OF that(1)]] F that(2) r0 new_hash_complete by auto
    then show ?thesis
      unfolding that(2) using r0 by (intro tracked_complete) auto
  qed
  show ?thesis
  proof (cases "co_status out = ''FAIL'' \<and> select_row (co_data out) g \<noteq> None")
    case True
    then obtain row where row: "select_row (co_data out) g = Some row" by blast
    obtain r' w' where h: "handoff_after_failure sha cfg now r0 g row w = (r', w')" by fastforce
    have "p = work_complete now a r' b w'"
      using True row h unfolding p_def drive_validated_def Let_def r0_def [symmetric] by simp
    with ho h show ?thesis by blast
  next
    case False
    with r0 show ?thesis
      unfolding p_def drive_validated_def Let_def r0_def [symmetric]
      by (auto intro!: tracked_complete gates_tracked split: option.splits)
  qed
qed

lemma rebound_tracked:
  fixes sha cfg now r req stored tok out w
  defines "p \<equiv> resume_rebound sha cfg now r req stored tok out w"
  assumes "wr_id r = i" and "th r = h" and F: "\<And>x. new_hash sha w (snd p) x \<Longrightarrow> F x"
  shows "tracked F Resume i h w p"
proof -
  define r0 where "r0 = (if wq_intent req \<noteq> None \<or> wc_required_tools (wq_constraints req) \<noteq> [] \<or>
      wc_offline (wq_constraints req) then push_warning r RESUME_IGNORED_WARNING else r)"
  have r0: "wr_id r0 = i" "th r0 = h" using assms by (simp_all add: r0_def)
  have fe: "writes F i h w (snd (finish_error now r Resume s x w)) \<and>
      done_fresh F i (snd (finish_error now r Resume s x w))" for s x
    using assms by (intro finish_error_writes)
  have bl: "writes F i h w (work_commit n (record_block r0 x) w) \<and>
      done_fresh F i (work_commit n (record_block r0 x) w)" for n x
    by (rule writes_commit) (simp_all add: r0)
  have same: "ws_records (snd (make_bridge tok k w)) = ws_records w"
      "ws_sequence (snd (make_bridge tok k w)) = ws_sequence w" for k
    by (simp_all add: make_bridge_def new_token_def)
  have db: "tracked F Resume i h w p"
    if "p = drive_begin sha cfg now Resume r0 (fst (make_bridge tok k w)) cur ps fs (snd (make_bridge tok k w))"
    for k cur ps fs
    unfolding that
    by (intro tracked_same [OF same(1) [of k]] begin_tracked r0)
      (use F that same in \<open>simp add: new_hash_def\<close>)
  show ?thesis
  proof (cases "p = drive_begin sha cfg now Resume r0 (fst (make_bridge tok (wr_cancellation r0) w))
      (Some (co_data out)) (wq_patches req) (wq_new_files req)
      (snd (make_bridge tok (wr_cancellation r0) w))")
    case True
    then show ?thesis by (rule db)
  next
    case False
    with fe bl show ?thesis
      unfolding p_def resume_rebound_def Let_def r0_def [symmetric]
      by (auto simp: case_prod_beta split: option.splits if_splits)
  qed
qed

lemma continue_tracked:
  assumes "task_inv t" and "i = wr_id (task_record t)" and "h = th (task_record t)"
    and "work_continue sha cfg now t out w = p" and "\<And>x. new_hash sha w (snd p) x \<Longrightarrow> F x"
  shows "tracked F (task_action t) i h w p"
  using assms
  by (cases t)
    (auto simp: start_adopted_def start_created_def Let_def
      intro!: tracked_complete begin_tracked rebound_tracked staged_tracked validated_tracked
      split: if_splits)

section \<open>The system\<close>

definition hashes_issued :: "(string \<Rightarrow> string) \<Rightarrow> work_system \<Rightarrow> bool" where
  "hashes_issued sha s \<longleftrightarrow>
     (\<forall>i r h. bt_get (ws_records (sys_service s)) i = Some r \<longrightarrow> th r = Some h \<longrightarrow>
        issued sha (ws_sequence (sys_service s)) h) \<and>
     (\<forall>tid t h. sys_tasks s tid = Some t \<longrightarrow> th (task_record t) = Some h \<longrightarrow>
        issued sha (ws_sequence (sys_service s)) h)"

definition resuming :: "work_system \<Rightarrow> string \<Rightarrow> bool" where
  "resuming s i \<longleftrightarrow>
     (\<exists>tid t. sys_tasks s tid = Some t \<and> wr_id (task_record t) = i \<and> task_action t = Resume)"

definition spent :: "(string \<Rightarrow> string) \<Rightarrow> work_config \<Rightarrow> string \<Rightarrow> string \<Rightarrow> work_system \<Rightarrow> bool" where
  "spent sha cfg i h s \<longleftrightarrow>
     issued sha (ws_sequence (sys_service s)) h \<and> retired cfg i (sys_service s) \<and>
     (resuming s i \<or>
      (\<forall>r. bt_get (ws_records (sys_service s)) i = Some r \<longrightarrow> wr_state r = NeedsModel \<longrightarrow> th r \<noteq> Some h))"

text \<open>What starting a request does, other than \<open>start\<close>.\<close>

lemma execute_writes:
  assumes "store_inv sha w" and "wq_action req \<noteq> Start"
    and "work_execute sha cfg now ws req tok w = (st, w')"
  shows "ws_records w' = ws_records w \<or>
    (\<exists>i r. bt_get (ws_records w) i = Some r \<and> writes (\<lambda>_. False) i (th r) w w')"
proof -
  have get: "wr_id r = i" if "bt_get (ws_records w) i = Some r" for i r
    using that assms(1) by (simp add: store_inv_def)
  have fe: "writes (\<lambda>_. False) (wr_id r) (th r) w (snd (finish_error now r a s x w))" for r a s x
    using finish_error_writes by blast
  have cm: "writes (\<lambda>_. False) (wr_id r) (th r) w (work_commit n r1 w1)"
    if "wr_id r1 = wr_id r" "th r1 = th r" "wr_state r1 \<noteq> NeedsModel" "ws_records w1 = ws_records w"
    for r r1 n w1
    using writes_commit [of r1 "wr_id r" "th r" "\<lambda>_. False" w1 n] that
      writes_trans [OF writes_same [OF that(4)]] by blast
  show ?thesis
  proof (cases "wq_action req")
    case Resume
    have rr: "writes (\<lambda>_. False) (wr_id r) (th r) w (snd (resume_record sha now ws req tok token r w))"
      for r token
      by (auto simp: resume_record_def Let_def case_prod_beta fe intro!: cm split: option.splits)
    have "w' = snd (work_resume sha cfg now ws req tok w)"
      using assms(3) Resume by (simp add: work_execute_def)
    then consider "w' = w"
      | i r token where "load_record w i = Some r" "w' = snd (resume_record sha now ws req tok token r w)"
      by (auto simp: work_resume_def split: option.splits if_splits)
    then show ?thesis
    proof cases
      case 2
      with rr [of r token] get [of i r] show ?thesis by (auto simp: load_record_def)
    qed simp
  next
    case Inspect
    have mx: "\<exists>i. bt_get (ws_records w) i = Some r" if "max_by_key f (filter P (bt_values (ws_records w))) = Some r"
      for r and f :: "work_record \<Rightarrow> nat" and P
      using max_by_key_in [OF that] bt_values_get [of r "ws_records w"] assms(1) by (simp add: store_inv_def)
    have "w' = snd (work_inspect now ws req w)"
      using assms(3) Inspect by (auto simp: work_execute_def case_prod_beta)
    then consider "w' = w" | i r where "bt_get (ws_records w) i = Some r" "w' = snd (inspect_found now ws r w)"
      using mx by (fastforce simp: work_inspect_def load_record_def Let_def split: option.splits if_splits)
    then show ?thesis
    proof cases
      case 2
      with fe [of r Inspect] get [of i r] show ?thesis
        by (cases "other_workspace r ws") (auto simp: inspect_found_def)
    qed simp
  next
    case Cancel
    have tm: "wr_state r \<noteq> NeedsModel" if "work_state_is_terminal (wr_state r)" for r
      using that by auto
    have "w' = snd (work_cancel now ws req w)"
      using assms(3) Cancel by (auto simp: work_execute_def case_prod_beta)
    then consider "w' = w"
      | i r a s x where "bt_get (ws_records w) i = Some r" "w' = snd (finish_error now r a s x w)"
      | i r r1 w1 where "bt_get (ws_records w) i = Some r" "w' = work_commit (now 2) r1 w1"
          "wr_id r1 = wr_id r" "th r1 = th r" "wr_state r1 \<noteq> NeedsModel" "ws_records w1 = ws_records w"
      unfolding work_cancel_def load_record_def Let_def
      by (auto simp: cancel_token_cancel_def tm split: option.splits if_splits)
    then show ?thesis
    proof cases
      case (2 i r a s x)
      with fe [of r a s x] get [of i r] show ?thesis by auto
    next
      case (3 i r r1 w1)
      with cm [of r1 r w1] get [of i r] show ?thesis by auto
    qed simp
  qed (use assms in simp)
qed

lemma execute_accepts:
  assumes "work_execute sha cfg now ws req tok w = (Suspend t q, w')" and "wq_action req \<noteq> Start"
    and "store_inv sha w"
  shows "\<exists>i r stored. t = AwaitRebind (use_token r) req stored tok \<and> wr_id r = i \<and>
    bt_get (ws_records w) i = Some r \<and> wr_state r = NeedsModel \<and> th r = Some (ht_token_hash stored) \<and>
    resume_stripe cfg req = Some (stripe i) \<and> wq_action req = Resume \<and> w' = w"
  using assms
  by (cases "wq_action req")
    (auto simp: work_execute_def work_resume_def resume_record_def load_record_def Let_def case_prod_beta
      resume_stripe_def th_def store_inv_def split: option.splits if_splits)

lemma writes_issued:
  assumes "writes F i h w w'" and "\<And>x. F (Some x) \<Longrightarrow> issued sha n x" and "\<And>x. h = Some x \<Longrightarrow> issued sha n x"
    and "\<And>j r x. bt_get (ws_records w) j = Some r \<Longrightarrow> th r = Some x \<Longrightarrow> issued sha n x"
    and "bt_get (ws_records w') j = Some r" and "th r = Some x"
  shows "issued sha n x"
proof (cases "j = i \<and> bt_get (ws_records w') i \<noteq> bt_get (ws_records w) i")
  case True
  with assms(1,5) obtain r0 where "bt_get (ws_records w) i = Some r0"
    and "th r = th r0 \<or> th r = h \<or> F (th r)"
    by (auto simp: writes_def)
  with assms(2,3,4,6) show ?thesis by auto
next
  case False
  with assms(1,5) have "bt_get (ws_records w) j = Some r"
    by (cases "j = i") (auto simp: writes_def)
  with assms(4,6) show ?thesis by blast
qed

text \<open>The new store and the suspended task of any stretch, told by the tokens they carry.\<close>

lemma start_tokens:
  assumes "work_start cfg now ws req tok w = (st, w')"
  shows "(bt_get (ws_records w') j = Some r \<longrightarrow>
      bt_get (ws_records w) j = Some r \<or>
      wr_state r \<noteq> NeedsModel \<and> j = format_work_id (now 0) (cfg_pid cfg) (ws_sequence w) \<and> th r = None) \<and>
    (st = Suspend t q \<longrightarrow> th (task_record t) = None \<and> task_action t = Start)"
  using work_start_effect [of cfg now ws req tok w] assms
proof (elim disjE exE conjE)
  fix r0 w2 t0 q0
  assume r0: "wr_id r0 = format_work_id (now 0) (cfg_pid cfg) (ws_sequence w)" "wr_state r0 = Planned"
      "wr_token r0 = None" "ws_records w2 = ws_records w"
    and ws: "work_start cfg now ws req tok w = (Suspend t0 q0,
        work_set_state (now 3) (wr_id r0) Collecting (snd (new_token (work_insert r0 w2))))"
    and t0: "wr_token (task_record t0) = None" "task_action t0 = Start"
  from ws assms have w': "w' = work_set_state (now 3) (wr_id r0) Collecting (snd (new_token (work_insert r0 w2)))"
    and st: "st = Suspend t0 q0" by simp_all
  from r0 have at: "bt_get (ws_records w') (wr_id r0) =
      Some (r0\<lparr>wr_state := Collecting, wr_updated_at_ms := now 3\<rparr>)"
    by (simp add: w' work_set_state_def new_token_def work_insert_def Let_def bt_get_insert)
  have off: "bt_get (ws_records w') j = bt_get (ws_records (work_insert r0 w2)) j" if "j \<noteq> wr_id r0"
    using that by (simp add: w' work_set_state_def new_token_def bt_get_insert split: option.splits)
  have "bt_get (ws_records (work_insert r0 w2)) j \<in> {bt_get (ws_records w) j, None}" if "j \<noteq> wr_id r0"
    using that r0(4) by (auto simp: work_insert_def Let_def bt_get_insert bt_get_remove split: option.splits)
  with at off r0(1,3) st t0 show ?thesis
    by (cases "j = wr_id r0") (auto simp: th_def)
qed auto

lemma after_tasks:
  "sys_tasks (after_step tid st w s) k =
     (if k = tid then (case st of Done out \<Rightarrow> None | Suspend t q \<Rightarrow> Some t) else sys_tasks s k)"
  by (cases st) simp_all

lemma hashes_issuedI:
  assumes "\<And>j r h. bt_get (ws_records w) j = Some r \<Longrightarrow> th r = Some h \<Longrightarrow> issued sha (ws_sequence w) h"
    and "\<And>t q h. st = Suspend t q \<Longrightarrow> th (task_record t) = Some h \<Longrightarrow> issued sha (ws_sequence w) h"
    and "hashes_issued sha s" and "ws_sequence (sys_service s) \<le> ws_sequence w"
  shows "hashes_issued sha (after_step tid st w s)"
proof -
  have "issued sha (ws_sequence w) h" if "sys_tasks s k = Some t" "th (task_record t) = Some h" for k t h
    using assms(3) that issued_mono [OF _ assms(4)] by (auto simp: hashes_issued_def)
  with assms(1,2) show ?thesis
    by (auto simp: hashes_issued_def after_tasks split: if_splits work_step.splits)
qed

lemma hashes_issued_begin:
  assumes "hashes_issued sha s" and "system_inv sha s"
    and "work_execute sha cfg now ws req tok (sys_service s) = (st, w)"
    and le: "ws_sequence (sys_service s) \<le> ws_sequence w"
  shows "hashes_issued sha (after_step tid st w s)"
proof -
  have old: "issued sha (ws_sequence w) h" if "bt_get (ws_records (sys_service s)) j = Some r" "th r = Some h" for j r h
    using assms(1) that issued_mono [OF _ le] by (auto simp: hashes_issued_def)
  have si: "store_inv sha (sys_service s)" using assms(2) by (simp add: system_inv_def)
  show ?thesis
  proof (cases "wq_action req = Start")
    case True
    then have ws: "work_start cfg now ws req tok (sys_service s) = (st, w)"
      using assms(3) by (simp add: work_execute_def)
    show ?thesis
      by (rule hashes_issuedI) (use start_tokens [OF ws] old assms(1) le in fastforce)+
  next
    case False
    have "issued sha (ws_sequence w) h" if "bt_get (ws_records w) j = Some r" "th r = Some h" for j r h
      using execute_writes [OF si False assms(3)] old that
        writes_issued [of "\<lambda>_. False" _ _ "sys_service s" w sha "ws_sequence w" j r h]
      by (elim disjE exE conjE) fastforce+
    moreover have "issued sha (ws_sequence w) h" if "st = Suspend t q" "th (task_record t) = Some h" for t q h
      using execute_accepts [OF _ False si] assms(3) that old by fastforce
    ultimately show ?thesis
      using assms(1) le by (intro hashes_issuedI) blast+
  qed
qed

text \<open>The hashes a move may issue, for the move's own task.\<close>

lemma continue_tokens:
  assumes "system_inv sha s" and "sys_tasks s tid = Some t"
    and "work_continue sha cfg now t out (sys_service s) = (st, w)"
  shows "tracked (new_hash sha (sys_service s) w) (task_action t) (wr_id (task_record t))
    (th (task_record t)) (sys_service s) (st, w)"
  by (rule continue_tracked [OF _ refl refl assms(3)]) (use assms(1,2) in \<open>auto simp: system_inv_def\<close>)

lemma new_hash_issued:
  "new_hash sha w w' (Some h) \<Longrightarrow> Suc (ws_sequence w) < 2 ^ 64 \<Longrightarrow> issued sha (ws_sequence w') h"
  by (auto simp: new_hash_def intro: fresh_issued)

lemma hashes_issued_continue:
  assumes "hashes_issued sha s" and "system_inv sha s" and "sys_tasks s tid = Some t"
    and "work_continue sha cfg now t out (sys_service s) = (st, w)" and "no_wrap s"
    and le: "ws_sequence (sys_service s) \<le> ws_sequence w"
  shows "hashes_issued sha (after_step tid st w s)"
proof -
  note tr = continue_tokens [OF assms(2-4)]
  have old: "issued sha (ws_sequence w) h" if "bt_get (ws_records (sys_service s)) j = Some r" "th r = Some h" for j r h
    using assms(1) that issued_mono [OF _ le] by (auto simp: hashes_issued_def)
  have mine: "issued sha (ws_sequence w) h" if "th (task_record t) = Some h" for h
    using assms(1,3) that issued_mono [OF _ le] by (auto simp: hashes_issued_def)
  have new: "issued sha (ws_sequence w) h" if "new_hash sha (sys_service s) w (Some h)" for h
    using new_hash_issued [OF that] assms(5) by (simp add: no_wrap_def)
  from tr have wr: "writes (new_hash sha (sys_service s) w) (wr_id (task_record t)) (th (task_record t))
      (sys_service s) w" by (cases st) simp_all
  show ?thesis
  proof (rule hashes_issuedI [OF _ _ assms(1) le])
    fix j r h assume "bt_get (ws_records w) j = Some r" and "th r = Some h"
    then show "issued sha (ws_sequence w) h"
      using writes_issued [OF wr, of sha "ws_sequence w" j r h] new mine old by blast
  next
    fix t' q h assume "st = Suspend t' q" and "th (task_record t') = Some h"
    with tr mine show "issued sha (ws_sequence w) h" by simp
  qed
qed

lemma hashes_issued_move:
  assumes "work_move sha cfg s s'" and "hashes_issued sha s" and "system_inv sha s" and "no_wrap s"
    and "ws_sequence (sys_service s) \<le> ws_sequence (sys_service s')"
  shows "hashes_issued sha s'"
  using assms
proof (induction rule: work_move.induct)
  case (OpenRequest s tok w)
  then show ?case by (auto simp: hashes_issued_def new_token_def)
next
  case (BeginRequest tok s tid req now ws st w)
  then show ?case by (intro hashes_issued_begin) simp_all
next
  case (ContinueTask s tid t now out st w)
  then show ?case by (intro hashes_issued_continue) simp_all
qed (simp_all add: hashes_issued_def cancel_token_cancel_def)

section \<open>Single use\<close>

definition waits_on :: "work_service \<Rightarrow> string \<Rightarrow> string \<Rightarrow> bool" where
  "waits_on w i h \<longleftrightarrow>
     (\<exists>r. bt_get (ws_records w) i = Some r \<and> wr_state r = NeedsModel \<and> th r = Some h)"

lemma spent_alt:
  "spent sha cfg i h s \<longleftrightarrow>
     issued sha (ws_sequence (sys_service s)) h \<and> retired cfg i (sys_service s) \<and>
     (resuming s i \<or> \<not> waits_on (sys_service s) i h)"
  by (auto simp: spent_def waits_on_def)

lemma writes_waits:
  assumes "writes F j g w w'" and "\<not> F (Some h)" and "waits_on w' i h"
  shows "waits_on w i h"
proof -
  from assms(3) obtain r where r: "bt_get (ws_records w') i = Some r" "wr_state r = NeedsModel" "th r = Some h"
    by (auto simp: waits_on_def)
  with assms(1,2) have "bt_get (ws_records w) i = Some r"
    by (cases "i = j") (auto simp: writes_def)
  with r show ?thesis by (auto simp: waits_on_def)
qed

lemma resuming_after:
  assumes "resuming s i" and "sys_tasks s tid = None \<or>
      (\<exists>t. sys_tasks s tid = Some t \<and> (wr_id (task_record t) \<noteq> i \<or> task_action t \<noteq> Resume))"
  shows "resuming (after_step tid st w s) i"
proof -
  from assms(1) obtain k t where "sys_tasks s k = Some t" "wr_id (task_record t) = i" "task_action t = Resume"
    by (auto simp: resuming_def)
  moreover from this assms(2) have "k \<noteq> tid" by auto
  ultimately show ?thesis by (auto simp: resuming_def after_tasks)
qed

lemma spent_begin:
  assumes "resuming s i \<or> \<not> waits_on (sys_service s) i h" and "retired cfg i (sys_service s)"
    and "system_inv sha s" and "sys_tasks s tid = None"
    and "work_execute sha cfg now ws req tok (sys_service s) = (st, w)"
  shows "resuming (after_step tid st w s) i \<or> \<not> waits_on w i h"
proof (cases "resuming s i")
  case True
  with assms(4) show ?thesis by (simp add: resuming_after)
next
  case False
  with assms(1) have nw: "\<not> waits_on (sys_service s) i h" by simp
  have "\<not> waits_on w i h"
  proof (cases "wq_action req = Start")
    case True
    then have ws: "work_start cfg now ws req tok (sys_service s) = (st, w)"
      using assms(5) by (simp add: work_execute_def)
    have "i \<noteq> format_work_id (now 0) (cfg_pid cfg) (ws_sequence (sys_service s))"
      using assms(2) by (auto simp: retired_def dest: format_work_id_seq)
    with nw start_tokens [OF ws, of i] show ?thesis by (auto simp: waits_on_def)
  next
    case False
    have "store_inv sha (sys_service s)" using assms(3) by (simp add: system_inv_def)
    from execute_writes [OF this False assms(5)] show ?thesis
    proof (elim disjE exE conjE)
      fix j r assume "writes (\<lambda>_. False) j (th r) (sys_service s) w"
      from writes_waits [OF this] nw show ?thesis by auto
    qed (use nw in \<open>simp add: waits_on_def\<close>)
  qed
  then show ?thesis by simp
qed

lemma spent_continue:
  assumes "resuming s i \<or> \<not> waits_on (sys_service s) i h" and "system_inv sha s"
    and "sys_tasks s tid = Some t" and "work_continue sha cfg now t out (sys_service s) = (st, w)"
    and new: "\<not> new_hash sha (sys_service s) w (Some h)"
  shows "resuming (after_step tid st w s) i \<or> \<not> waits_on w i h"
proof -
  note tr = continue_tokens [OF assms(2-4)]
  then have wr: "writes (new_hash sha (sys_service s) w) (wr_id (task_record t)) (th (task_record t))
      (sys_service s) w" by (cases st) simp_all
  show ?thesis
  proof (cases "resuming s i \<and> wr_id (task_record t) = i \<and> task_action t = Resume")
    case True
    with tr new show ?thesis
      by (cases st) (auto simp: done_fresh_def waits_on_def resuming_def after_tasks)
  next
    case False
    with assms(1,3) resuming_after [of s i tid st w] writes_waits [OF wr new, of i] show ?thesis by blast
  qed
qed

text \<open>A move that publishes a new token with hash \<open>h\<close> for \<open>i\<close>, made from the counter, which advances.\<close>

definition reissues :: "(string \<Rightarrow> string) \<Rightarrow> work_system \<Rightarrow> work_system \<Rightarrow> string \<Rightarrow> string \<Rightarrow> bool" where
  "reissues sha s s' i h \<longleftrightarrow>
     waits_on (sys_service s') i h \<and> new_hash sha (sys_service s) (sys_service s') (Some h)"

lemma spent_move:
  assumes "work_move sha cfg s s'" and "spent sha cfg i h s" and "\<not> reissues sha s s' i h" and "system_inv sha s"
    and "ids_retired cfg (sys_service s)" and "no_wrap s"
  shows "spent sha cfg i h s'"
proof -
  have le: "ws_sequence (sys_service s) \<le> ws_sequence (sys_service s')"
    using work_move_store [OF assms(1,5,6)] by (simp add: store_moves_def)
  from assms(1-4) have "resuming s' i \<or> \<not> waits_on (sys_service s') i h"
  proof (induction rule: work_move.induct)
    case (OpenRequest s tok w)
    then show ?case by (auto simp: spent_alt waits_on_def resuming_def new_token_def)
  next
    case (BeginRequest tok s tid req now ws st w)
    then show ?case
      using spent_begin [of s i h cfg sha tid now ws req tok st w] by (simp add: spent_alt)
  next
    case (ContinueTask s tid t now out st w)
    then show ?case
      using spent_continue [of s i h sha tid t cfg now out st w] by (auto simp: spent_alt reissues_def)
  qed (simp_all add: spent_alt waits_on_def resuming_def cancel_token_cancel_def)
  with assms(2) le show ?thesis
    by (auto simp: spent_alt intro: issued_mono retired_mono)
qed

text \<open>A move that accepts a continuation token: a new task appears that consumed it.\<close>

definition accepts :: "work_system \<Rightarrow> work_system \<Rightarrow> string \<Rightarrow> string \<Rightarrow> bool" where
  "accepts s s' i h \<longleftrightarrow>
     (\<exists>tid r req stored tok. sys_tasks s tid = None \<and>
        sys_tasks s' tid = Some (AwaitRebind r req stored tok) \<and> wr_id r = i \<and> ht_token_hash stored = h)"

lemma accepts_after:
  assumes "accepts s (after_step tid st w s) i h"
  shows "\<exists>r req stored tok q. st = Suspend (AwaitRebind r req stored tok) q \<and> wr_id r = i \<and>
    ht_token_hash stored = h"
  using assms by (cases st) (auto simp: accepts_def split: if_splits)

lemma accepts_begin:
  assumes "accepts s (after_step tid st w s) i h" and "system_inv sha s" and "stripe_free cfg s req"
    and ex: "work_execute sha cfg now ws req tok (sys_service s) = (st, w)"
  shows "waits_on (sys_service s) i h \<and> \<not> resuming s i \<and> resuming (after_step tid st w s) i"
proof -
  obtain r req' stored tok' q where st: "st = Suspend (AwaitRebind r req' stored tok') q"
      "wr_id r = i" "ht_token_hash stored = h"
    using accepts_after [OF assms(1)] by blast
  have ns: "wq_action req \<noteq> Start"
    using start_tokens [of cfg now ws req tok "sys_service s" st w] ex st
    by (force simp: work_execute_def)
  have si: "store_inv sha (sys_service s)" using assms(2) by (simp add: system_inv_def)
  obtain r0 where r0: "bt_get (ws_records (sys_service s)) i = Some r0" "wr_state r0 = NeedsModel"
      "th r0 = Some h" "resume_stripe cfg req = Some (stripe i)"
    using execute_accepts [OF ex [unfolded st(1)] ns si] st(2,3) by auto
  then have "\<not> resuming s i"
    using assms(3) by (auto simp: resuming_def stripe_free_def holds_stripe_def)
  with r0 st show ?thesis
    by (auto simp: waits_on_def resuming_def intro!: exI [of _ tid])
qed

lemma accepts_move:
  assumes "work_move sha cfg s s'" and "accepts s s' i h" and "system_inv sha s"
  shows "waits_on (sys_service s) i h \<and> \<not> resuming s i \<and> resuming s' i"
  using assms
proof (induction rule: work_move.induct)
  case (BeginRequest tok s tid req now ws st w)
  then show ?case by (intro accepts_begin) simp_all
next
  case (ContinueTask s tid t now out st w)
  then have False by (cases st) (auto simp: accepts_def split: if_splits)
  then show ?case ..
qed (auto simp: accepts_def)

text \<open>Everything a run keeps, from the empty system on.\<close>

definition run_inv :: "(string \<Rightarrow> string) \<Rightarrow> work_config \<Rightarrow> work_system \<Rightarrow> bool" where
  "run_inv sha cfg s \<longleftrightarrow> system_inv sha s \<and> ids_retired cfg (sys_service s) \<and> hashes_issued sha s"

lemma run_inv_move: "work_move sha cfg s s' \<Longrightarrow> no_wrap s \<Longrightarrow> run_inv sha cfg s \<Longrightarrow> run_inv sha cfg s'"
  using work_move_store [of sha cfg s s'] hashes_issued_move [of sha cfg s s'] system_inv_move
  by (auto simp: run_inv_def store_moves_def)

lemma run_inv_new: "run_inv sha cfg work_system_new"
  by (simp add: run_inv_def system_inv_new ids_retired_new hashes_issued_def)
    (simp add: work_system_new_def work_service_new_def)

lemma run_inv_run: "work_run sha cfg s s' \<Longrightarrow> run_inv sha cfg s \<Longrightarrow> run_inv sha cfg s'"
  unfolding work_run_def by (induction rule: rtranclp_induct) (auto intro: run_inv_move)

lemma spent_run:
  assumes "work_run sha cfg s s'" and "run_inv sha cfg s" and "spent sha cfg i h s"
  shows "run_inv sha cfg s' \<and> (spent sha cfg i h s' \<or>
    (\<exists>a b. work_run sha cfg s a \<and> work_move sha cfg a b \<and> work_run sha cfg b s' \<and>
       issued sha (ws_sequence (sys_service a)) h \<and> reissues sha a b i h))"
  using assms(1) unfolding work_run_def
proof (induction rule: rtranclp_induct)
  case (step s1 s2)
  have run: "work_run sha cfg s s1" "work_move sha cfg s1 s2" "no_wrap s1" using step.hyps by (simp_all add: work_run_def)
  have inv: "run_inv sha cfg s1" "run_inv sha cfg s2" using step.IH run_inv_move [OF run(2,3)] by blast+
  show ?case
  proof (cases "spent sha cfg i h s1")
    case True
    then have iss: "issued sha (ws_sequence (sys_service s1)) h" by (simp add: spent_def)
    show ?thesis
    proof (cases "reissues sha s1 s2 i h")
      case True
      with iss run inv show ?thesis unfolding work_run_def by blast
    next
      case False
      with spent_move [OF run(2) \<open>spent sha cfg i h s1\<close>] run(3) inv show ?thesis by (simp add: run_inv_def)
    qed
  next
    case False
    with step.IH step.hyps(2) inv(2) show ?thesis by (metis (no_types, lifting) rtranclp.rtrancl_into_rtrancl)
  qed
qed (use assms in simp)

text \<open>
  C2: A continuation token is accepted at most once. If a \<open>resume\<close> got past the token check of work item \<open>i\<close> with a
  token of hash \<open>h\<close>, then in every continuation of the run, however requests, answers and cancellations
  interleave, a later \<open>resume\<close> of \<open>i\<close> is accepted with that hash only if in between the service published another
  token for \<open>i\<close>, made from a counter value beyond that of every earlier token, which happens to have the same
  hash: SHA-256 itself collided on two tokens. Nothing is assumed of the hash function; the run is shorter than the
  wrap of the 64-bit counter.
\<close>

theorem continuation_token_single_use:
  assumes "work_run sha cfg work_system_new s0" and "work_move sha cfg s0 s1" and "no_wrap s0" and "accepts s0 s1 i h"
    and "work_run sha cfg s1 s2" and "work_move sha cfg s2 s3"
  shows "accepts s2 s3 i h \<longrightarrow>
    (\<exists>a b. work_run sha cfg s1 a \<and> work_move sha cfg a b \<and> work_run sha cfg b s2 \<and>
       issued sha (ws_sequence (sys_service a)) h \<and> reissues sha a b i h)"
proof
  assume again: "accepts s2 s3 i h"
  have inv0: "run_inv sha cfg s0" by (rule run_inv_run [OF assms(1) run_inv_new])
  then have inv1: "run_inv sha cfg s1" by (rule run_inv_move [OF assms(2,3)])
  have acc: "waits_on (sys_service s0) i h \<and> resuming s1 i"
    using accepts_move [OF assms(2,4)] inv0 by (simp add: run_inv_def)
  then have "issued sha (ws_sequence (sys_service s0)) h" "retired cfg i (sys_service s0)"
    using inv0 by (auto simp: waits_on_def run_inv_def hashes_issued_def ids_retired_def)
  moreover have "ws_sequence (sys_service s0) \<le> ws_sequence (sys_service s1)"
    using work_move_store [OF assms(2) _ assms(3)] inv0 by (simp add: run_inv_def store_moves_def)
  ultimately have "spent sha cfg i h s1"
    using acc by (auto simp: spent_alt intro: issued_mono retired_mono)
  note run = spent_run [OF assms(5) inv1 this]
  then have "waits_on (sys_service s2) i h \<and> \<not> resuming s2 i"
    using accepts_move [OF assms(6) again] by (simp add: run_inv_def)
  with run show "\<exists>a b. work_run sha cfg s1 a \<and> work_move sha cfg a b \<and> work_run sha cfg b s2 \<and>
       issued sha (ws_sequence (sys_service a)) h \<and> reissues sha a b i h" by (auto simp: spent_alt)
qed

end
