(* ===== verification/Work_Properties.thy ===== *)
theory Work_Properties
  imports Work_Tokens "HOL-Library.Code_Target_Nat"
begin

text \<open>
  The remaining properties of the work executor and the concrete run on which the properties with
  hypotheses are witnessed: one configuration, one request, one list of change-service answers.
\<close>

section \<open>A concrete run\<close>

definition sample_intent :: work_intent where
  "sample_intent =
     \<lparr>wi_template = ImplementWithContract, wi_scope_paths = [''src''], wi_contract = ''f returns 2'',
      wi_stop_condition = ''gates pass'', wi_acceptance_gates = [GateCheck, GateTest, GateCheck],
      wi_change_budget = \<lparr>wcb_max_patches = 1, wcb_max_new_files = 0\<rparr>\<rparr>"

definition sample_budget :: work_budget where
  "sample_budget = \<lparr>wb_max_compiles = 4, wb_max_candidates = 2, wb_max_handoffs = 2,
     wb_wall_time_ms = 1000\<rparr>"

definition sample_patch :: "string \<Rightarrow> patch_input" where
  "sample_patch f = \<lparr>pi_file = f, pi_old_string = ''1'', pi_new_string = ''2''\<rparr>"

definition sample_request ::
  "work_action \<Rightarrow> string option \<Rightarrow> string option \<Rightarrow> patch_input list \<Rightarrow> work_request" where
  "sample_request a i tok ps =
     \<lparr>wq_action = a, wq_work_id = i, wq_continuation_token = tok, wq_change_id = None,
      wq_intent = (if a = Start then Some sample_intent else None), wq_patches = ps,
      wq_new_files = [], wq_constraints = \<lparr>wc_offline = False, wc_required_tools = []\<rparr>,
      wq_budget = sample_budget\<rparr>"

definition sample_config :: work_config where
  "sample_config =
     \<lparr>cfg_max_active = 1, cfg_continuation_ttl_ms = 500, cfg_has_change = True,
      cfg_tool_change = True, cfg_tool_docs = False, cfg_tool_lsp = False, cfg_tool_audit = False,
      cfg_tool_crate_lookup = False, cfg_pid = 7, cfg_candidate_input_schema = ''{}''\<rparr>"

definition sample_workspace :: "nat \<Rightarrow> workspace" where
  "sample_workspace n = \<lparr>wsp_root = ''/w'', wsp_epoch = n\<rparr>"

definition sample_answer :: "string \<Rightarrow> nat \<Rightarrow> change_outcome" where
  "sample_answer st n =
     \<lparr>co_status = st, co_summary = [], co_is_error = False,
      co_data = default_change_data\<lparr>cd_change_id := Some ''c'', cd_revision := n,
        cd_patch_hash := Some ''p''\<rparr>\<rparr>"

text \<open>The identity stands for SHA-256; no theorem asks anything of it.\<close>

definition sample_sha :: "string \<Rightarrow> string" where "sample_sha s = s"

definition sample_now :: "nat \<Rightarrow> nat" where "sample_now i = 100 + i"

definition sample_answers :: "answer list" where
  "sample_answers =
     map (\<lambda>out. (work_service_new, sample_now, out))
       [sample_answer ''CREATED'' 0, sample_answer ''STAGED'' 1, sample_answer ''PASS'' 1,
        sample_answer ''PASS'' 1, sample_answer ''PASS'' 1, sample_answer ''PASS'' 1,
        sample_answer ''PASS'' 1, sample_answer ''PASS'' 1]"

abbreviation sample_start_request :: work_request where
  "sample_start_request \<equiv> sample_request Start None None [sample_patch ''src/lib.rs'']"

definition sample_start :: "work_step \<times> work_service" where
  "sample_start = work_execute sample_sha sample_config sample_now (sample_workspace 0)
     sample_start_request 0 work_service_new"

text \<open>Moves of the sample system as functions, so that its states can be computed.\<close>

definition sys_open :: "work_system \<Rightarrow> work_system" where
  "sys_open s = s\<lparr>sys_service := snd (new_token (sys_service s)),
     sys_requests := fst (new_token (sys_service s)) # sys_requests s\<rparr>"

definition sys_begin :: "nat \<Rightarrow> workspace \<Rightarrow> work_request \<Rightarrow> work_system \<Rightarrow> work_system" where
  "sys_begin tid ws req s =
     (case work_execute sample_sha sample_config sample_now ws req 0 (sys_service s) of
        (st, w) \<Rightarrow> after_step tid st w s)"

definition sys_continue :: "nat \<Rightarrow> change_outcome \<Rightarrow> work_system \<Rightarrow> work_system" where
  "sys_continue tid out s =
     (case sys_tasks s tid of
        None \<Rightarrow> s
      | Some t \<Rightarrow> (case work_continue sample_sha sample_config sample_now t out (sys_service s) of
          (st, w) \<Rightarrow> after_step tid st w s))"

abbreviation sample_move :: "work_system \<Rightarrow> work_system \<Rightarrow> bool" where
  "sample_move \<equiv> work_move sample_sha sample_config"

lemma sys_open_move: "sample_move s (sys_open s)"
  unfolding sys_open_def by (rule OpenRequest) simp

lemma sys_begin_move:
  "0 \<in> set (sys_requests s) \<Longrightarrow> sys_tasks s tid = None \<Longrightarrow> stripe_free sample_config s req \<Longrightarrow>
    sample_move s (sys_begin tid ws req s)"
  unfolding sys_begin_def case_prod_beta by (rule BeginRequest [OF _ _ _ prod.collapse [symmetric]])

lemma sys_continue_move:
  "sys_tasks s tid = Some t \<Longrightarrow> sample_move s (sys_continue tid out s)"
  unfolding sys_continue_def case_prod_beta
  by (simp, rule ContinueTask [OF _ prod.collapse [symmetric]])

lemma stripe_free_not_resume: "wq_action req \<noteq> Resume \<Longrightarrow> stripe_free cfg s req"
  by (simp add: stripe_free_def resume_stripe_def)

text \<open>A start without a candidate, its change captured: the record waits for the host.\<close>

definition sys1 :: work_system where "sys1 = sys_open work_system_new"

definition sys2 :: work_system where
  "sys2 = sys_begin 1 (sample_workspace 0) (sample_request Start None None []) sys1"

definition sys3 :: work_system where "sys3 = sys_continue 1 (sample_answer ''CREATED'' 0) sys2"

definition sample_id :: string where "sample_id = ''wk-64-7-0''"

definition sample_token :: string where
  "sample_token = generate_token sample_sha sample_id 0 ''p'' 1 101"

text \<open>The host resumes with the token, or cancels.\<close>

definition sys4 :: work_system where
  "sys4 = sys_begin 2 (sample_workspace 0)
     (sample_request Resume (Some sample_id) (Some sample_token) [sample_patch ''src/lib.rs'']) sys3"

definition sys_cancelled :: work_system where
  "sys_cancelled = sys_begin 2 (sample_workspace 0) (sample_request Cancel (Some sample_id) None []) sys3"

lemma sys3_facts:
  "case bt_get (ws_records (sys_service sys3)) sample_id of None \<Rightarrow> False
   | Some r \<Rightarrow> wr_state r = NeedsModel \<and> th r = Some (sample_sha sample_token)"
  by code_simp

lemma sys4_accepts:
  "case sys_tasks sys4 2 of
     Some (AwaitRebind r req stored tok) \<Rightarrow> wr_id r = sample_id \<and> ht_token_hash stored = sample_sha sample_token
   | _ \<Rightarrow> False"
  by code_simp

lemma sys_cancelled_facts:
  "case bt_get (ws_records (sys_service sys_cancelled)) sample_id of None \<Rightarrow> False
   | Some r \<Rightarrow> wr_state r = Cancelled"
  by code_simp

lemma sys1_requests: "sys_requests sys1 = [0] \<and> sys_tasks sys1 = (\<lambda>_. None)"
  by (simp add: sys1_def sys_open_def work_system_new_def new_token_def work_service_new_def)

lemma sys_requests_begin [simp]: "sys_requests (sys_begin tid ws req s) = sys_requests s"
  by (simp add: sys_begin_def case_prod_beta) (cases "fst (work_execute sample_sha sample_config
    sample_now ws req 0 (sys_service s))"; simp)

lemma sys_requests_continue [simp]: "sys_requests (sys_continue tid out s) = sys_requests s"
  by (cases "sys_tasks s tid"; simp add: sys_continue_def case_prod_beta)
    (cases "fst (work_continue sample_sha sample_config sample_now (the (sys_tasks s tid)) out
      (sys_service s))"; simp)

lemma other_tasks [simp]:
  "k \<noteq> tid \<Longrightarrow> sys_tasks (sys_begin tid ws req s) k = sys_tasks s k"
  "k \<noteq> tid \<Longrightarrow> sys_tasks (sys_continue tid out s) k = sys_tasks s k"
  by (simp_all add: sys_begin_def sys_continue_def case_prod_beta after_tasks split: option.splits)

lemma sys2_move: "sample_move sys1 sys2"
  unfolding sys2_def using sys1_requests
  by (intro sys_begin_move stripe_free_not_resume) (simp_all add: sample_request_def)

lemma sys2_task: "sys_tasks sys2 1 \<noteq> None"
  by code_simp

lemma sys3_move: "sample_move sys2 sys3"
  unfolding sys3_def using sys2_task sys_continue_move by blast

lemma sys3_tasks: "sys_tasks sys3 k = None" "0 \<in> set (sys_requests sys3)"
proof -
  have "sys_tasks sys3 1 = None" by code_simp
  then show "sys_tasks sys3 k = None"
    using sys1_requests by (cases "k = 1") (simp_all add: sys3_def sys2_def)
  show "0 \<in> set (sys_requests sys3)"
    using sys1_requests by (simp add: sys3_def sys2_def)
qed

lemma sys4_move: "sample_move sys3 sys4"
  unfolding sys4_def using sys3_tasks by (intro sys_begin_move) (simp_all add: stripe_free_def)

lemma sys_cancelled_move: "sample_move sys3 sys_cancelled"
  unfolding sys_cancelled_def using sys3_tasks
  by (intro sys_begin_move stripe_free_not_resume) (simp_all add: sample_request_def)

lemma sample_no_wrap:
  "no_wrap work_system_new" "no_wrap sys1" "no_wrap sys2" "no_wrap sys3"
  unfolding no_wrap_def by code_simp+

lemma work_run_step: "work_run sha cfg s s' \<Longrightarrow> work_move sha cfg s' s'' \<Longrightarrow> no_wrap s' \<Longrightarrow> work_run sha cfg s s''"
  unfolding work_run_def by (rule rtranclp.rtrancl_into_rtrancl) simp_all

lemma work_run_refl: "work_run sha cfg s s"
  by (simp add: work_run_def)

lemma sys1_run: "work_run sample_sha sample_config work_system_new sys1"
  unfolding sys1_def by (rule work_run_step [OF work_run_refl sys_open_move sample_no_wrap(1)])

lemma sys3_run: "work_run sample_sha sample_config work_system_new sys3"
  by (rule work_run_step [OF work_run_step [OF sys1_run sys2_move sample_no_wrap(2)] sys3_move
      sample_no_wrap(3)])

lemma work_run_reachable: "work_run sha cfg work_system_new s \<Longrightarrow> work_reachable sha cfg s"
  unfolding work_run_def work_reachable_def by (rule rtranclp_mono [THEN predicate2D, rotated]) auto

section \<open>Witnesses\<close>

lemma sample_ready:
  "case snd (replay sample_sha sample_config (fst sample_start) sample_answers) of
     Done out \<Rightarrow> wo_status out = ''READY'' | _ \<Rightarrow> False"
  by code_simp

theorem ready_only_after_all_gates_witness:
  "\<exists>i tr out. replay sample_sha sample_config (fst sample_start) sample_answers = (tr, Done out) \<and>
     wo_status out = ''READY'' \<and> governing_intent sample_start_request work_service_new = Some i \<and>
     ready_trace i (wd_revision (wo_data out)) tr"
proof -
  obtain tr fin where r: "replay sample_sha sample_config (fst sample_start) sample_answers = (tr, fin)"
    by fastforce
  with sample_ready obtain out where "fin = Done out" "wo_status out = ''READY''"
    by (auto split: work_step.splits)
  with r ready_only_after_all_gates [of sample_sha sample_config sample_now "sample_workspace 0"
      sample_start_request 0 work_service_new sample_answers tr out]
  show ?thesis by (auto simp: sample_start_def)
qed

theorem work_request_ends_witness:
  "length sample_answers = 8 \<and>
    (\<exists>out. snd (replay sample_sha sample_config (fst sample_start) sample_answers) = Done out)"
  using work_request_ends [of sample_answers sample_sha sample_config sample_now "sample_workspace 0"
      sample_start_request 0 work_service_new]
  by (simp add: sample_answers_def sample_start_def)

theorem cancelled_work_is_final_witness:
  "\<exists>r. bt_get (ws_records (sys_service sys_cancelled)) sample_id = Some r \<and> wr_state r = Cancelled \<and>
     bt_get (ws_records (sys_service (sys_open sys_cancelled))) sample_id \<in> {Some r, None}"
proof -
  obtain r where r: "bt_get (ws_records (sys_service sys_cancelled)) sample_id = Some r" "wr_state r = Cancelled"
    using sys_cancelled_facts by (auto split: option.splits)
  have a: "work_run sample_sha sample_config work_system_new sys_cancelled"
    using sys3_run sys_cancelled_move sample_no_wrap(4) by (rule work_run_step)
  have "no_wrap sys_cancelled" unfolding no_wrap_def by code_simp
  then have b: "work_run sample_sha sample_config sys_cancelled (sys_open sys_cancelled)"
    using work_run_step [OF _ sys_open_move] by (simp add: work_run_def)
  from cancelled_work_is_final [OF a b r] r show ?thesis by blast
qed

text \<open>The resumed candidate is staged and fails its gate: the record waits again, on a new token.\<close>

definition failing_row :: change_evidence_data where
  "failing_row =
     \<lparr>ev_revision = 1, ev_target = ''check'', ev_command = ''cargo check'', ev_status = ''FAIL'', ev_exit_code = Some 101,
      ev_first_diagnostic_ms = None, ev_total_ms = 5, ev_fresh = True, ev_authoritative = True, ev_diagnostics = [],
      ev_diagnostics_total = 0, ev_diagnostics_omitted = 0, ev_suggestion_package = None,
      ev_stats = \<lparr>es_diagnostic_records = 0, es_duplicates = 0, es_omitted_records = 0, es_malformed_lines = 0, es_oversized_lines = 0,
        es_build_finished = True, es_build_success = Some False, es_tests_executed = None, es_test_summaries = 0,
        es_empty_test_summaries = 0, es_test_binaries = 0\<rparr>\<rparr>"

definition failing_answer :: change_outcome where
  "failing_answer = (sample_answer ''FAIL'' 1)\<lparr>co_data := (co_data (sample_answer ''FAIL'' 1))\<lparr>cd_evidence := [failing_row]\<rparr>\<rparr>"

definition sys5 :: work_system where "sys5 = sys_continue 2 (sample_answer ''INSPECTED'' 0) sys4"
definition sys6 :: work_system where "sys6 = sys_continue 2 (sample_answer ''STAGED'' 1) sys5"
definition sys7 :: work_system where "sys7 = sys_continue 2 failing_answer sys6"

text \<open>The same resume once more.\<close>

definition sys8 :: work_system where
  "sys8 = sys_begin 3 (sample_workspace 0)
     (sample_request Resume (Some sample_id) (Some sample_token) [sample_patch ''src/lib.rs'']) sys7"

lemma sys7_tasks: "sys_tasks sys4 2 \<noteq> None" "sys_tasks sys5 2 \<noteq> None" "sys_tasks sys6 2 \<noteq> None" "sys_tasks sys7 k = None"
  "0 \<in> set (sys_requests sys7)"
proof -
  show "sys_tasks sys4 2 \<noteq> None" "sys_tasks sys5 2 \<noteq> None" "sys_tasks sys6 2 \<noteq> None" by code_simp+
  have "sys_tasks sys7 2 = None" by code_simp
  then show "sys_tasks sys7 k = None"
    using sys3_tasks(1) by (cases "k = 2") (simp_all add: sys7_def sys6_def sys5_def sys4_def)
  show "0 \<in> set (sys_requests sys7)" using sys3_tasks(2) by (simp add: sys7_def sys6_def sys5_def sys4_def)
qed

lemma sys7_run: "work_run sample_sha sample_config sys4 sys7"
proof -
  have "sample_move sys4 sys5" unfolding sys5_def using sys7_tasks(1) sys_continue_move by blast
  moreover have "sample_move sys5 sys6" unfolding sys6_def using sys7_tasks(2) sys_continue_move by blast
  moreover have "sample_move sys6 sys7" unfolding sys7_def using sys7_tasks(3) sys_continue_move by blast
  moreover have "no_wrap sys4" "no_wrap sys5" "no_wrap sys6" unfolding no_wrap_def by code_simp+
  ultimately show ?thesis using work_run_step work_run_refl by metis
qed

lemma sys8_move: "sample_move sys7 sys8"
  unfolding sys8_def using sys7_tasks(4,5) by (intro sys_begin_move) (simp_all add: stripe_free_def)

lemma sys7_waits:
  "case bt_get (ws_records (sys_service sys7)) sample_id of None \<Rightarrow> False
   | Some r \<Rightarrow> wr_state r = NeedsModel \<and> th r \<noteq> Some (sample_sha sample_token)"
  by code_simp

theorem continuation_token_single_use_witness:
  "accepts sys3 sys4 sample_id (sample_sha sample_token) \<and> work_run sample_sha sample_config sys4 sys7 \<and>
   (\<exists>r. bt_get (ws_records (sys_service sys7)) sample_id = Some r \<and> wr_state r = NeedsModel) \<and>
   work_move sample_sha sample_config sys7 sys8 \<and> \<not> accepts sys7 sys8 sample_id (sample_sha sample_token)"
proof -
  have acc: "accepts sys3 sys4 sample_id (sample_sha sample_token)"
    using sys4_accepts sys3_tasks unfolding accepts_def
    by (auto split: option.splits work_task.splits intro!: exI [of _ 2])
  have "inj sample_sha" by (simp add: inj_def sample_sha_def)
  then have "\<not> accepts sys7 sys8 sample_id (sample_sha sample_token)"
    using continuation_token_single_use [OF sys3_run sys4_move sample_no_wrap(4) acc sys7_run sys8_move] issued_not_fresh
    by (auto simp: reissues_def new_hash_def)
  with acc sys7_run sys8_move sys7_waits show ?thesis by (auto split: option.splits)
qed

section \<open>Budgets, tokens and scope\<close>

text \<open>
  C8: Budgets are never exceeded. In every reachable state each stored work record has staged at most
  \<open>maxCandidates\<close> candidates, started at most \<open>maxCompiles\<close> gate runs and issued at most
  \<open>maxHandoffs\<close> handoffs, keeps at most 32 evidence rows and never records a candidate
  fingerprint twice.
\<close>

theorem work_budgets_never_exceeded:
  assumes "work_reachable sha cfg s" and "bt_get (ws_records (sys_service s)) i = Some r"
  shows "wr_candidates r \<le> wb_max_candidates (wr_budget r) \<and>
    wr_compiles r \<le> wb_max_compiles (wr_budget r) \<and> wr_handoffs r \<le> wb_max_handoffs (wr_budget r) \<and>
    length (wr_evidence r) \<le> 32 \<and> distinct (wr_tried_fingerprints r)"
  using reachable_inv [OF assms(1)] assms(2)
  by (auto simp: system_inv_def store_inv_def record_inv_def budget_ok_def MAX_LISTED_WORK_EVIDENCE_def)

theorem work_budgets_never_exceeded_witness:
  "\<exists>r. bt_get (ws_records (sys_service sys3)) sample_id = Some r \<and>
     wr_handoffs r \<le> wb_max_handoffs (wr_budget r)"
  using sys3_facts work_budgets_never_exceeded [OF work_run_reachable [OF sys3_run], of sample_id]
  by (auto split: option.splits)

text \<open>
  C11: A record that waits for the host can be resumed. In every reachable state a record in
  \<open>NeedsModel\<close> carries the handoff it published together with an unused token: the stored hash is
  the hash of the published continuation token, the expiry is the published one, the token is bound to
  the record's own change, revision and patch hash, and the published lists respect their bounds.
\<close>

theorem waiting_record_has_live_token:
  assumes "work_reachable sha cfg s" and "bt_get (ws_records (sys_service s)) i = Some r"
    and "wr_state r = NeedsModel"
  shows "\<exists>t h. wr_token r = Some t \<and> wr_handoff r = Some h \<and> \<not> ht_used t \<and>
    ht_token_hash t = sha (wh_continuation_token h) \<and> ht_expires_at_ms t = wh_expires_at_ms h \<and>
    ht_revision t = wr_revision r \<and> ht_change_id t = opt_str (wr_change_id r) \<and>
    ht_patch_hash t = opt_str (wr_patch_hash r) \<and>
    length (wh_unresolved_obligations h) \<le> 16 \<and> length (wh_diagnostics h) \<le> 24"
proof -
  have "live_token sha r"
    using reachable_inv [OF assms(1)] assms(2,3) by (auto simp: system_inv_def store_inv_def live_handoff_def)
  then show ?thesis
    by (auto simp: live_token_def sha256_hex_def MAX_UNRESOLVED_OBLIGATIONS_def
        MAX_LISTED_HANDOFF_DIAGNOSTICS_def split: option.splits)
qed

theorem waiting_record_has_live_token_witness:
  "\<exists>r t h. bt_get (ws_records (sys_service sys3)) sample_id = Some r \<and> wr_state r = NeedsModel \<and>
     wr_token r = Some t \<and> wr_handoff r = Some h \<and> \<not> ht_used t \<and>
     ht_token_hash t = sample_sha (wh_continuation_token h)"
proof -
  obtain r where r: "bt_get (ws_records (sys_service sys3)) sample_id = Some r" "wr_state r = NeedsModel"
    using sys3_facts by (auto split: option.splits)
  from waiting_record_has_live_token [OF work_run_reachable [OF sys3_run] r] r show ?thesis by blast
qed

text \<open>
  C12: Candidates stay inside the declared scope. Whenever a suspended task of a reachable state is continued
  and sends a request to the change service, every file that request patches or creates is a relative
  path of plain names that lies under one of the record's declared scope paths.
\<close>

theorem staged_candidates_stay_in_scope:
  assumes "work_reachable sha cfg s" and "sys_tasks s tid = Some t"
    and "work_continue sha cfg now t out (sys_service s) = (Suspend t' q, w)"
    and "f \<in> pi_file ` set (cr_patches q) \<union> nf_file ` set (cr_new_files q)"
  shows "\<exists>names p scope. normalize_relative f = Some names \<and> names \<noteq> [] \<and> list_all plain_name names \<and>
    p \<in> set (wi_scope_paths (wr_intent (task_record t'))) \<and> normalize_relative p = Some scope \<and>
    starts_with names scope"
proof -
  have "step_inv (fst (work_continue sha cfg now t out (sys_service s)))"
    using reachable_inv [OF assms(1)] work_continue_inv assms(2) by (auto simp: system_inv_def)
  with assms(3,4) have "in_scope (wr_intent (task_record t')) f"
    by (auto simp: request_ok_def)
  then show ?thesis
    using normalize_relative_plain by (fastforce simp: in_scope_def list_all_iff)
qed

definition sys2p :: work_system where "sys2p = sys_begin 1 (sample_workspace 0) sample_start_request sys1"

lemma sys2p_facts:
  "case sys_tasks sys2p 1 of None \<Rightarrow> False
   | Some t \<Rightarrow> (case work_continue sample_sha sample_config sample_now t (sample_answer ''CREATED'' 0)
        (sys_service sys2p) of
      (Suspend t' q, w) \<Rightarrow> map pi_file (cr_patches q) = [''src/lib.rs''] \<and> wi_scope_paths (wr_intent (task_record t')) = [''src'']
      | _ \<Rightarrow> False)"
  by code_simp

lemma sample_names:
  "normalize_relative ''src/lib.rs'' = Some [''src'', ''lib.rs'']" "normalize_relative ''src'' = Some [''src'']"
  by code_simp+

theorem staged_candidates_stay_in_scope_witness:
  "\<exists>t t' q w. sys_tasks sys2p 1 = Some t \<and>
     work_continue sample_sha sample_config sample_now t (sample_answer ''CREATED'' 0) (sys_service sys2p) = (Suspend t' q, w) \<and>
     map pi_file (cr_patches q) = [''src/lib.rs''] \<and> wi_scope_paths (wr_intent (task_record t')) = [''src''] \<and>
     list_all plain_name [''src'', ''lib.rs''] \<and> starts_with [''src'', ''lib.rs''] [''src'']"
proof -
  have "sample_move sys1 sys2p"
    unfolding sys2p_def using sys1_requests
    by (intro sys_begin_move stripe_free_not_resume) (simp_all add: sample_request_def)
  then have reach: "work_reachable sample_sha sample_config sys2p"
    using work_run_step [OF sys1_run _ sample_no_wrap(2)] work_run_reachable by blast
  obtain t t' q w where t: "sys_tasks sys2p 1 = Some t"
    "work_continue sample_sha sample_config sample_now t (sample_answer ''CREATED'' 0) (sys_service sys2p) =
       (Suspend t' q, w)" "map pi_file (cr_patches q) = [''src/lib.rs'']" "wi_scope_paths (wr_intent (task_record t')) = [''src'']"
    using sys2p_facts by (auto split: option.splits prod.splits work_step.splits)
  from t(3) have "''src/lib.rs'' \<in> pi_file ` set (cr_patches q) \<union> nf_file ` set (cr_new_files q)"
    by (metis UnI1 list.set_intros(1) list.set_map)
  from staged_candidates_stay_in_scope [OF reach t(1,2) this]
  show ?thesis using t by (auto simp: sample_names)
qed

end
