(* ===== verification/Work_Limits.thy ===== *)
theory Work_Limits
  imports Work_Properties "HOL-Library.Multiset"
begin

text \<open>
  Limits of the work executor: the size of the record store, the shape of work ids, truncation, the
  fingerprint of a candidate, and the places where the code does not do what its comments promise.
\<close>

section \<open>The record store is bounded\<close>

lemma bt_wf_keys: "bt_wf m \<Longrightarrow> length m = card (fst ` set m)"
  by (metis bt_wf_def distinct_card length_map list.set_map sorted_wrt_iff_nth_less
      strict_sorted_iff)

lemma dom_length:
  assumes "bt_wf m" and "bt_wf m'" and "\<And>k. bt_get m k = None \<Longrightarrow> bt_get m' k = None"
  shows "length m' \<le> length m"
proof -
  have "fst ` set m' \<subseteq> fst ` set m"
    using assms(3) by (metis bt_get_None_iff subsetI)
  then show ?thesis
    using assms(1,2) by (simp add: bt_wf_keys card_mono)
qed

lemma kept_length:
  "kept w w' \<Longrightarrow> store_inv sha w \<Longrightarrow> store_inv sha w' \<Longrightarrow> length (ws_records w') \<le> length (ws_records w)"
  by (rule dom_length) (auto simp: kept_def store_inv_def)

lemma active_room:
  assumes "bt_wf m" and "length (filter (\<lambda>r. \<not> work_state_is_terminal (wr_state r)) (bt_values m)) < length m"
  shows "filter (\<lambda>e. work_state_is_terminal (wr_state (snd e))) m \<noteq> []"
proof
  assume "filter (\<lambda>e. work_state_is_terminal (wr_state (snd e))) m = []"
  then have "filter (\<lambda>r. \<not> work_state_is_terminal (wr_state r)) (bt_values m) = bt_values m"
    by (auto simp: bt_values_def filter_empty_conv filter_id_conv)
  with assms(2) have "length (bt_values m) < length m" by metis
  then show False by (simp add: bt_values_def)
qed

lemma insert_bound:
  assumes "bt_wf (ws_records w)" and "length (ws_records w) \<le> MAX_WORK_RECORDS"
    and "active_count w < MAX_WORK_RECORDS"
  shows "length (ws_records (work_insert r w)) \<le> MAX_WORK_RECORDS"
proof (cases "MAX_WORK_RECORDS \<le> length (ws_records w)")
  case True
  define live where "live = length (filter (\<lambda>r. \<not> work_state_is_terminal (wr_state r)) (bt_values (ws_records w)))"
  have "live < length (ws_records w)"
    using assms(3) True by (auto simp: active_count_def live_def MAX_WORK_RECORDS_def u64_max_def)
  then have "filter (\<lambda>e. work_state_is_terminal (wr_state (snd e))) (ws_records w) \<noteq> []"
    using active_room [OF assms(1)] by (simp add: live_def)
  then obtain e where e: "min_by_key (\<lambda>e. wr_updated_at_ms (snd e))
      (filter (\<lambda>e. work_state_is_terminal (wr_state (snd e))) (ws_records w)) = Some e"
    by (metis min_by_key_None option.exhaust)
  then have "bt_get (ws_records w) (fst e) \<noteq> None"
    using min_by_key_in [OF e] by (auto simp: bt_get_None_iff)
  from bt.size_evict_put [OF assms(1) this assms(2), of "wr_id r" r] True e show ?thesis
    by (simp add: work_insert_def Let_def MAX_WORK_RECORDS_def)
next
  case False
  then show ?thesis
    using bt.size_put_le [OF assms(1), of "wr_id r" r] by (simp add: work_insert_def Let_def)
qed

lemma start_bound:
  assumes "store_inv sha w" and "length (ws_records w) \<le> MAX_WORK_RECORDS"
    and "cfg_max_active cfg \<le> MAX_WORK_RECORDS"
  shows "length (ws_records (snd (work_start cfg now ws req tok w))) \<le> MAX_WORK_RECORDS"
  using work_start_effect [of cfg now ws req tok w]
proof (elim disjE exE conjE)
  fix r w2 t q
  assume w2: "ws_records w2 = ws_records w" and rt: "wr_state r = Planned" "wr_token r = None"
    and st: "work_start cfg now ws req tok w = (Suspend t q,
        work_set_state (now 3) (wr_id r) Collecting (snd (new_token (work_insert r w2))))"
  have "start_refusal cfg req tok w = None"
    using st by (auto simp: work_start_def split: option.splits)
  then have "active_count w < cfg_max_active cfg"
    by (auto simp: start_refusal_def split: if_splits option.splits)
  then have "length (ws_records (work_insert r w2)) \<le> MAX_WORK_RECORDS"
    using assms w2 by (intro insert_bound) (simp_all add: store_inv_def active_count_def)
  moreover have "bt_wf (ws_records (work_insert r w2))"
    using assms(1) w2 by (auto simp: store_inv_def work_insert_def Let_def bt_wf_insert bt_wf_remove
        split: option.splits)
  ultimately show ?thesis
    using st bt.size_put_existing [of "ws_records (work_insert r w2)" "wr_id r"]
    by (auto simp: work_set_state_def new_token_def split: option.splits)
qed (use assms in simp)

lemma move_bound:
  assumes "work_move sha cfg s s'" and "system_inv sha s" and "cfg_max_active cfg \<le> MAX_WORK_RECORDS"
    and "length (ws_records (sys_service s)) \<le> MAX_WORK_RECORDS"
  shows "length (ws_records (sys_service s')) \<le> MAX_WORK_RECORDS"
proof -
  have inv': "store_inv sha (sys_service s')"
    using system_inv_move [OF assms(1,2)] by (simp add: system_inv_def)
  have inv: "store_inv sha (sys_service s)" using assms(2) by (simp add: system_inv_def)
  have k: "length (ws_records (sys_service s')) \<le> MAX_WORK_RECORDS" if "kept (sys_service s) (sys_service s')"
    using kept_length [OF that inv inv'] assms(4) by simp
  from assms(1) k show ?thesis
  proof cases
    case (BeginRequest tok tid req now ws st w)
    show ?thesis
    proof (cases "wq_action req = Start")
      case True
      then have "w = snd (work_start cfg now ws req tok (sys_service s))"
        using BeginRequest by (simp add: work_execute_def)
      with start_bound [OF inv assms(4,3)] BeginRequest show ?thesis by simp
    next
      case False
      then have "stretch (sys_service s) w"
        using BeginRequest(5) resume_stretch [of "sys_service s"] inspect_stretch [of "sys_service s"]
          cancel_stretch [of "sys_service s"]
        by (cases "wq_action req") (auto simp: work_execute_def case_prod_beta, metis snd_conv)
      with k BeginRequest show ?thesis by (simp add: stretch_def)
    qed
  next
    case (ContinueTask tid t now out st w)
    then have "stretch (sys_service s) w" by (metis work_continue_stretch snd_conv)
    with k ContinueTask show ?thesis by (simp add: stretch_def)
  next
    case (OpenRequest tok w)
    then show ?thesis using assms(4) by (auto simp: new_token_def)
  qed (use assms(4) in \<open>simp_all add: cancel_token_cancel_def\<close>)
qed

text \<open>
  The record store stays within its limit. When the configured number of active work items is at most
  256, no reachable state holds more than 256 work records: a start is only admitted while fewer items
  are active, so a full store always has a finished record to evict.
\<close>

theorem work_store_bounded:
  assumes "work_reachable sha cfg s" and "cfg_max_active cfg \<le> 256"
  shows "length (ws_records (sys_service s)) \<le> 256"
proof -
  have "system_inv sha s \<and> length (ws_records (sys_service s)) \<le> MAX_WORK_RECORDS"
    using assms(1) unfolding work_reachable_def
  proof (induction rule: rtranclp_induct)
    case base
    show ?case using system_inv_new by (simp add: work_system_new_def work_service_new_def)
  next
    case (step s1 s2)
    then show ?case
      using move_bound [OF step(2)] system_inv_move [OF step(2)] assms(2)
      by (simp add: MAX_WORK_RECORDS_def)
  qed
  then show ?thesis by (simp add: MAX_WORK_RECORDS_def)
qed

theorem work_store_bounded_witness:
  "cfg_max_active sample_config \<le> 256 \<and> length (ws_records (sys_service sys3)) \<le> 256"
  using work_store_bounded [OF work_run_reachable [OF sys3_run]] by (simp add: sample_config_def)

section \<open>Work ids, truncation and fingerprints\<close>

text \<open>
  C37: An issued work id is accepted. With a 64-bit clock, a 32-bit process id and the 64-bit sequence
  counter, the id \<open>next_work_id\<close> prints passes \<open>is_valid_work_id\<close>, the check every
  \<open>resume\<close> applies, and two ids issued at different counter values differ.
\<close>

theorem next_work_id_valid:
  assumes "now < 2 ^ 64" and "cfg_pid cfg < 2 ^ 32" and "ws_sequence w < 2 ^ 64"
  shows "is_valid_work_id (fst (next_work_id cfg now w)) \<and>
    (ws_sequence w' \<noteq> ws_sequence w \<longrightarrow> fst (next_work_id cfg now' w') \<noteq> fst (next_work_id cfg now w))"
proof -
  have len: "length (hex now) \<le> 16" "length (hex (ws_sequence w)) \<le> 16" "length (hex (cfg_pid cfg)) \<le> 8"
    using length_to_radix [of 16 now 16] length_to_radix [of 16 "ws_sequence w" 16]
      length_to_radix [of 16 "cfg_pid cfg" 8] assms by simp_all
  have cls: "is_ascii_lowercase c \<or> is_ascii_digit c \<or> c = CHR ''-''"
    if "c \<in> set (format_work_id now (cfg_pid cfg) (ws_sequence w))" for c
    using that to_radix_digits [of c 16]
    by (auto simp: format_work_id_def WORK_ID_PREFIX_def is_ascii_lowercase_def)
  have "is_valid_work_id (format_work_id now (cfg_pid cfg) (ws_sequence w))"
    using len cls
    by (auto simp: is_valid_work_id_def list_all_iff format_work_id_def WORK_ID_PREFIX_def)
  then show ?thesis
    using format_work_id_seq by (auto simp: next_work_id_def fetch_sequence_def)
qed

theorem next_work_id_valid_witness:
  "is_valid_work_id (fst (next_work_id sample_config 100 work_service_new))"
  using next_work_id_valid [of 100 sample_config work_service_new]
  by (simp add: sample_config_def work_service_new_def)

text \<open>
  Truncation cuts at a character boundary: the result is the longest prefix of the text that has at most
  \<open>max\<close> bytes and ends between two characters.
\<close>

theorem truncate_longest_prefix:
  "(\<exists>rest. s = truncate_text s n @ rest) \<and> length (truncate_text s n) \<le> n \<and>
   is_char_boundary s (length (truncate_text s n)) \<and>
   (\<forall>k. k \<le> n \<and> k \<le> length s \<and> is_char_boundary s k \<longrightarrow> k \<le> length (truncate_text s n))"
proof -
  have "length (take (floor_char_boundary s n) s) = floor_char_boundary s n" if "\<not> length s \<le> n"
    using floor_char_boundary_le [of s n] that by simp
  then show ?thesis
    using truncate_text_prefix [of s n] length_truncate_text [of s n] floor_char_boundary_ok [of s n]
      floor_char_boundary_greatest [of _ n s]
    by (auto simp: truncate_text_def)
qed

theorem truncate_longest_prefix_witness:
  "length (truncate_text [CHR ''a'', CHR 0xC3, CHR 0xA9] 2) = 1 \<and>
   is_char_boundary [CHR ''a'', CHR 0xC3, CHR 0xA9] (length (truncate_text [CHR ''a'', CHR 0xC3, CHR 0xA9] 2))"
proof -
  have "length (truncate_text [CHR ''a'', CHR 0xC3, CHR 0xA9] 2) = 1" by code_simp
  with truncate_longest_prefix [of "[CHR ''a'', CHR 0xC3, CHR 0xA9]" 2] show ?thesis by blast
qed

lemma sort_map_mset:
  fixes f :: "'a \<Rightarrow> 'b::linorder"
  shows "mset xs = mset ys \<Longrightarrow> sort (map f xs) = sort (map f ys)"
  by (rule properties_for_sort) (simp_all add: mset_map)

text \<open>
  The candidate fingerprint ignores order: two candidates with the same patches and the same new files,
  listed in any order, get the same fingerprint, so resubmitting a permuted candidate counts as no
  progress.
\<close>

theorem fingerprint_ignores_order:
  assumes "mset ps = mset ps'" and "mset fs = mset fs'"
  shows "candidate_fingerprint sha ps fs = candidate_fingerprint sha ps' fs'"
  unfolding candidate_fingerprint_def Let_def
  by (simp only: sort_map_mset [OF assms(1)] sort_map_mset [OF assms(2)])

theorem fingerprint_ignores_order_witness:
  "candidate_fingerprint sample_sha [sample_patch ''b'', sample_patch ''a''] [] =
   candidate_fingerprint sample_sha [sample_patch ''a'', sample_patch ''b''] []"
  using fingerprint_ignores_order [of "[sample_patch ''b'', sample_patch ''a'']"
      "[sample_patch ''a'', sample_patch ''b'']" "[]" "[]" sample_sha] by (simp add: add_mset_commute)

section \<open>Divergences\<close>

text \<open>
  The change budget of an intent is not enforced. The intent below allows one patch; a candidate with
  two patches is accepted by the start checks and sent to the change service for staging with both
  patches.
\<close>

theorem change_budget_not_enforced:
  "validate_intent sample_intent = None \<and> wcb_max_patches (wi_change_budget sample_intent) = 1 \<and>
   fst (replay sample_sha sample_config
        (fst (work_execute sample_sha sample_config sample_now (sample_workspace 0)
          (sample_request Start None None [sample_patch ''src/a.rs'', sample_patch ''src/b.rs'']) 0
          work_service_new))
        [(work_service_new, sample_now, sample_answer ''CREATED'' 0),
         (work_service_new, sample_now, sample_answer ''STAGED'' 1)]) =
      [(create_request, sample_answer ''CREATED'' 0),
       (stage_request ''c'' 0 [] [sample_patch ''src/a.rs'', sample_patch ''src/b.rs''] [],
        sample_answer ''STAGED'' 1)]"
proof -
  have "validate_intent sample_intent = None" by code_simp
  moreover have "fst (replay sample_sha sample_config
        (fst (work_execute sample_sha sample_config sample_now (sample_workspace 0)
          (sample_request Start None None [sample_patch ''src/a.rs'', sample_patch ''src/b.rs'']) 0
          work_service_new))
        [(work_service_new, sample_now, sample_answer ''CREATED'' 0),
         (work_service_new, sample_now, sample_answer ''STAGED'' 1)]) =
      [(create_request, sample_answer ''CREATED'' 0),
       (stage_request ''c'' 0 [] [sample_patch ''src/a.rs'', sample_patch ''src/b.rs''] [],
        sample_answer ''STAGED'' 1)]" by code_simp
  ultimately show ?thesis by (simp add: sample_intent_def)
qed

text \<open>
  A scope of \<open>.\<close> is accepted but covers nothing. The scope path \<open>.\<close> passes validation, yet
  it is dropped when the candidate is checked, so under an intent whose only scope path is \<open>.\<close>
  every non-empty candidate is refused.
\<close>

theorem dot_scope_refuses_every_candidate:
  "validate_intent (sample_intent\<lparr>wi_scope_paths := [''.'']\<rparr>) = None \<and>
   (ps \<noteq> [] \<or> fs \<noteq> [] \<longrightarrow> candidate_scope_error (i\<lparr>wi_scope_paths := [''.'']\<rparr>) ps fs \<noteq> None)"
proof -
  have "normalize_relative ''.'' = None" by code_simp
  then have "\<not> in_scope (i\<lparr>wi_scope_paths := [''.'']\<rparr>) f" for f
    by (simp add: in_scope_def)
  then have "candidate_scope_error (i\<lparr>wi_scope_paths := [''.'']\<rparr>) ps fs \<noteq> None" if "ps \<noteq> [] \<or> fs \<noteq> []"
    using candidate_in_scope [of "i\<lparr>wi_scope_paths := [''.'']\<rparr>" ps fs] that
    by (metis list.set_intros(1) neq_Nil_conv)
  moreover have "validate_intent (sample_intent\<lparr>wi_scope_paths := [''.'']\<rparr>) = None" by code_simp
  ultimately show ?thesis by blast
qed

theorem dot_scope_refuses_every_candidate_witness:
  "candidate_scope_error (sample_intent\<lparr>wi_scope_paths := [''.'']\<rparr>) [sample_patch ''src/a.rs''] [] \<noteq> None"
  using dot_scope_refuses_every_candidate [of "[sample_patch ''src/a.rs'']" "[]" sample_intent] by simp

text \<open>
  C39: Inspecting from another workspace destroys a live work item. An \<open>inspect\<close> by a request of a
  different workspace or epoch is answered \<open>STALE\<close>, but it also stores the record as
  \<open>Failed\<close>, and the answer carries the record's change id and revision.
\<close>

theorem foreign_inspect_fails_live_record:
  assumes "load_record w i = Some r" and "wr_id r = i" and "i \<noteq> []" and "wq_work_id req = Some i"
    and "other_workspace r ws" and "\<not> work_state_is_terminal (wr_state r)"
  shows "map_option wr_state (load_record (snd (work_inspect now ws req w)) i) = Some Failed \<and>
    wo_status (fst (work_inspect now ws req w)) = ''STALE'' \<and>
    wd_change_id (wo_data (fst (work_inspect now ws req w))) = wr_change_id r \<and>
    wd_revision (wo_data (fst (work_inspect now ws req w))) = wr_revision r"
proof -
  have "wr_state r \<noteq> Cancelled" using assms(6) by auto
  with assms show ?thesis
    by (simp add: work_inspect_def inspect_found_def finish_error_def Let_def opt_str_def load_record_def
        work_commit_def bt_get_insert data_for_record_def)
qed

theorem foreign_inspect_fails_live_record_witness:
  "map_option wr_state (load_record (snd (work_inspect sample_now (sample_workspace 1)
      (sample_request Inspect (Some sample_id) None []) (sys_service sys3))) sample_id) = Some Failed"
proof -
  obtain r where r: "load_record (sys_service sys3) sample_id = Some r" "wr_state r = NeedsModel"
    using sys3_facts by (auto simp: load_record_def split: option.splits)
  have "case load_record (sys_service sys3) sample_id of Some r \<Rightarrow>
      wr_id r = sample_id \<and> other_workspace r (sample_workspace 1) | None \<Rightarrow> False" by code_simp
  with r have "wr_id r = sample_id" "other_workspace r (sample_workspace 1)" by simp_all
  with foreign_inspect_fails_live_record [OF r(1), of "sample_request Inspect (Some sample_id) None []"
      "sample_workspace 1" sample_now] r(2)
  show ?thesis by (simp add: sample_request_def sample_id_def)
qed

definition sys_two_active :: work_system where
  "sys_two_active =
     sys_continue 1 (sample_answer ''CREATED'' 0)
       (sys_begin 3 (sample_workspace 0) (sample_request Start None None [])
         (sys_begin 2 (sample_workspace 1) (sample_request Inspect (Some sample_id) None []) sys2))"

text \<open>
  The active limit can be exceeded. With a limit of one active work item the state below is reachable and
  has two: a foreign \<open>inspect\<close> marks the running item \<open>Failed\<close>, a second start is admitted, and
  the first item then commits its handoff over the \<open>Failed\<close> record.
\<close>

theorem active_limit_can_be_exceeded:
  "\<exists>s. work_reachable sample_sha sample_config s \<and>
     cfg_max_active sample_config < active_count (sys_service s)"
proof -
  define s3 where "s3 = sys_begin 2 (sample_workspace 1) (sample_request Inspect (Some sample_id) None []) sys2"
  define s4 where "s4 = sys_begin 3 (sample_workspace 0) (sample_request Start None None []) s3"
  have req: "0 \<in> set (sys_requests sys2)" and t: "sys_tasks sys2 2 = None" "sys_tasks sys2 3 = None"
    using sys1_requests by (simp_all add: sys2_def)
  have m1: "sample_move sys2 s3"
    unfolding s3_def using req t
    by (intro sys_begin_move stripe_free_not_resume) (simp_all add: sample_request_def)
  have m2: "sample_move s3 s4"
    unfolding s4_def s3_def using req t
    by (intro sys_begin_move stripe_free_not_resume) (simp_all add: sample_request_def)
  have "sys_tasks s4 1 = sys_tasks sys2 1" by (simp add: s4_def s3_def)
  then have m3: "sample_move s4 sys_two_active"
    unfolding sys_two_active_def s3_def [symmetric] s4_def [symmetric]
    using sys2_task sys_continue_move by fastforce
  have "work_reachable sample_sha sample_config sys2"
    by (rule work_run_reachable [OF work_run_step [OF sys1_run sys2_move sample_no_wrap(2)]])
  with m1 m2 m3 have "work_reachable sample_sha sample_config sys_two_active"
    unfolding work_reachable_def by (meson rtranclp.rtrancl_into_rtrancl)
  moreover have "cfg_max_active sample_config < active_count (sys_service sys_two_active)" by code_simp
  ultimately show ?thesis by blast
qed

end
