(* ===== verification/Gate_Scheduler.thy ===== *)
theory Gate_Scheduler
  imports Btree_Map
begin

text \<open>
  The single-flight scheduler of gate runs (\<open>gate/scheduler.rs\<close>). Jobs are shared objects, so they
  live in a heap, a list indexed by job number, and the scheduler's map holds the numbers; a spawned
  task is the job itself until it finishes. \<open>Instant\<close>s are naturals (milliseconds on the monotonic
  clock). The evidence a run produces has the type parameter \<open>'e\<close>: what \<open>work\<close> returns, what the
  lease functions return and when the timers fire are inputs.
\<close>

section \<open>Data\<close>

definition MAX_DEBOUNCE_ROOTS :: nat where "MAX_DEBOUNCE_ROOTS = 256"

record scheduler_options =
  so_debounce :: nat
  so_host_concurrency :: nat
  so_hard_timeout :: nat
  so_min_free_disk_mb :: nat
  so_min_available_memory_mb :: nat
  so_heartbeat :: nat

definition scheduler_options_new :: scheduler_options where
  "scheduler_options_new =
     \<lparr>so_debounce = 500, so_host_concurrency = 1, so_hard_timeout = 600000,
      so_min_free_disk_mb = 0, so_min_available_memory_mb = 0, so_heartbeat = 8000\<rparr>"

datatype resource_floor = DiskBelow nat nat | MemoryBelow nat nat

datatype scheduler_error =
    Closing
  | JobCancelled
  | JobSuperseded
  | JobTimedOut
  | ResourceUnreadable
  | ResourceBlocked "resource_floor list"
  | LeaseFailed string
  | Internal string

datatype cancel_reason = ReasonCancelled | ReasonSuperseded | ReasonShutdown | ReasonTimedOut

fun cancel_reason_error :: "cancel_reason \<Rightarrow> scheduler_error" where
  "cancel_reason_error ReasonCancelled = JobCancelled"
| "cancel_reason_error ReasonSuperseded = JobSuperseded"
| "cancel_reason_error ReasonShutdown = Closing"
| "cancel_reason_error ReasonTimedOut = JobTimedOut"

record 'e job_state =
  js_id :: string
  js_root :: string
  js_key :: string
  js_identity_key :: string
  js_generation :: nat
  js_requested_at :: nat
  js_debounce_until :: nat
  js_cancellation :: bool
  js_cancel_reason :: "cancel_reason option"
  js_subscribers :: nat
  js_result :: "(scheduler_error + 'e) option"
  js_complete :: bool

record job_subscription =
  sub_job :: nat
  sub_detached :: bool

record debounce_window =
  dw_identity_key :: string
  dw_ready_at :: nat
  dw_touched_at :: nat

record 'e scheduler =
  sc_generations :: "(string, nat) btree_map"
  sc_jobs :: "(string, nat) btree_map"
  sc_windows :: "(string, debounce_window) btree_map"
  sc_closing :: bool
  sc_heap :: "'e job_state list"
  sc_subscriptions :: "job_subscription list"

definition scheduler_new :: "'e scheduler" where
  "scheduler_new =
     \<lparr>sc_generations = [], sc_jobs = [], sc_windows = [], sc_closing = False, sc_heap = [],
      sc_subscriptions = []\<rparr>"

section \<open>One job\<close>

definition job_cancel :: "cancel_reason \<Rightarrow> 'e job_state \<Rightarrow> 'e job_state" where
  "job_cancel reason j =
     j\<lparr>js_cancel_reason := (case js_cancel_reason j of None \<Rightarrow> Some reason | Some r \<Rightarrow> Some r),
       js_cancellation := True\<rparr>"

definition is_joinable :: "'e job_state \<Rightarrow> bool" where
  "is_joinable j \<longleftrightarrow> \<not> js_complete j \<and> \<not> js_cancellation j \<and> js_cancel_reason j = None"

definition job_finish :: "scheduler_error + 'e \<Rightarrow> 'e job_state \<Rightarrow> 'e job_state" where
  "job_finish result j = j\<lparr>js_result := Some result, js_complete := True\<rparr>"

text \<open>\<open>fetch_update\<close> with \<open>checked_sub\<close>: a count of zero stays zero and is not an \<open>Ok\<close>.\<close>

definition job_detach :: "'e job_state \<Rightarrow> 'e job_state" where
  "job_detach j =
     (let previous = js_subscribers j;
          j = (if previous = 0 then j else j\<lparr>js_subscribers := previous - 1\<rparr>)
      in if previous = 1 \<and> \<not> js_complete j then job_cancel ReasonCancelled j else j)"

definition cancellation_error :: "'e job_state \<Rightarrow> scheduler_error \<Rightarrow> scheduler_error" where
  "cancellation_error j fallback =
     (case js_cancel_reason j of None \<Rightarrow> fallback | Some r \<Rightarrow> cancel_reason_error r)"

section \<open>Subscriptions\<close>

definition update_job :: "nat \<Rightarrow> ('e job_state \<Rightarrow> 'e job_state) \<Rightarrow> 'e scheduler \<Rightarrow> 'e scheduler" where
  "update_job j f s =
     (if j < length (sc_heap s) then s\<lparr>sc_heap := (sc_heap s)[j := f (sc_heap s ! j)]\<rparr> else s)"

definition subscribe :: "nat \<Rightarrow> 'e scheduler \<Rightarrow> nat \<times> 'e scheduler" where
  "subscribe j s =
     (let s = update_job j (\<lambda>job. job\<lparr>js_subscribers := js_subscribers job + 1\<rparr>) s
      in (length (sc_subscriptions s),
          s\<lparr>sc_subscriptions := sc_subscriptions s @ [\<lparr>sub_job = j, sub_detached = False\<rparr>]\<rparr>))"

text \<open>\<open>JobSubscription::detach\<close>, \<open>cancel\<close> and \<open>drop\<close>: the swap makes it happen once.\<close>

definition subscription_detach :: "nat \<Rightarrow> 'e scheduler \<Rightarrow> 'e scheduler" where
  "subscription_detach i s =
     (if i < length (sc_subscriptions s) \<and> \<not> sub_detached (sc_subscriptions s ! i) then
        update_job (sub_job (sc_subscriptions s ! i)) job_detach
          (s\<lparr>sc_subscriptions := (sc_subscriptions s)[i := (sc_subscriptions s ! i)\<lparr>sub_detached := True\<rparr>]\<rparr>)
      else s)"

text \<open>
  \<open>JobSubscription::wait\<close>: each turn of the loop first looks for a stored result; when the
  caller's own token fires first it detaches and reports the cancellation.
\<close>

definition wait_poll :: "nat \<Rightarrow> 'e scheduler \<Rightarrow> (scheduler_error + 'e) option" where
  "wait_poll i s = js_result (sc_heap s ! sub_job (sc_subscriptions s ! i))"

definition wait_cancelled :: "nat \<Rightarrow> 'e scheduler \<Rightarrow> (scheduler_error + 'e) \<times> 'e scheduler" where
  "wait_cancelled i s = (Inl JobCancelled, subscription_detach i s)"

section \<open>The scheduler\<close>

definition composite_key :: "string \<Rightarrow> string \<Rightarrow> nat \<Rightarrow> string" where
  "composite_key root key gen = root @ [CHR 0x00] @ key @ [CHR 0x00] @ dec gen"

definition debounce_until ::
  "string \<Rightarrow> string \<Rightarrow> nat \<Rightarrow> nat \<Rightarrow> (string, debounce_window) btree_map \<Rightarrow>
   nat \<times> (string, debounce_window) btree_map" where
  "debounce_until root identity_key now debounce ws =
     (case bt_get ws root of
        Some window \<Rightarrow>
          let window = window\<lparr>dw_touched_at := now\<rparr>;
              window = (if dw_identity_key window \<noteq> identity_key
                then window\<lparr>dw_identity_key := identity_key, dw_ready_at := now + debounce\<rparr>
                else window)
          in (dw_ready_at window, bt_insert root window ws)
      | None \<Rightarrow>
          let ws = (if MAX_DEBOUNCE_ROOTS \<le> length ws then
                (case min_by_key (\<lambda>e. dw_touched_at (snd e)) ws of
                   None \<Rightarrow> ws | Some e \<Rightarrow> bt_remove (fst e) ws)
              else ws);
              ready_at = now + debounce
          in (ready_at, bt_insert root
                \<lparr>dw_identity_key = identity_key, dw_ready_at = ready_at, dw_touched_at = now\<rparr> ws))"

definition generation_of :: "string \<Rightarrow> 'e scheduler \<Rightarrow> nat" where
  "generation_of root s = (case bt_get (sc_generations s) root of None \<Rightarrow> 0 | Some g \<Rightarrow> g)"

text \<open>\<open>for job in state.jobs.values()\<close>: a heap update for the jobs the map lists.\<close>

definition cancel_listed ::
  "('e job_state \<Rightarrow> bool) \<Rightarrow> cancel_reason \<Rightarrow> nat list \<Rightarrow> 'e job_state list \<Rightarrow> 'e job_state list" where
  "cancel_listed P reason js h =
     map (\<lambda>(i, job). if i \<in> set js \<and> P job then job_cancel reason job else job) (enumerate 0 h)"

definition listed_jobs :: "'e scheduler \<Rightarrow> 'e job_state list" where
  "listed_jobs s = map (\<lambda>j. sc_heap s ! j) (bt_values (sc_jobs s))"

definition mark_dirty :: "string \<Rightarrow> 'e scheduler \<Rightarrow> nat \<times> 'e scheduler" where
  "mark_dirty root s =
     (let g = sat_add (generation_of root s) 1
      in (g, s\<lparr>sc_windows := bt_remove root (sc_windows s),
               sc_generations := bt_insert root g (sc_generations s),
               sc_heap := cancel_listed (\<lambda>job. js_root job = root \<and> \<not> js_complete job)
                 ReasonSuperseded (bt_values (sc_jobs s)) (sc_heap s)\<rparr>))"

definition sched_active_count :: "'e scheduler \<Rightarrow> nat" where
  "sched_active_count s = length (filter (\<lambda>job. \<not> js_complete job) (listed_jobs s))"

definition joinable_at :: "string \<Rightarrow> 'e scheduler \<Rightarrow> nat option" where
  "joinable_at k s =
     (case bt_get (sc_jobs s) k of
        None \<Rightarrow> None
      | Some j \<Rightarrow> if is_joinable (sc_heap s ! j) then Some j else None)"

definition new_input :: "string \<Rightarrow> string \<Rightarrow> 'e job_state \<Rightarrow> bool" where
  "new_input root identity_key job \<longleftrightarrow>
     js_root job = root \<and> js_identity_key job \<noteq> identity_key \<and> \<not> js_complete job"

text \<open>The part of \<open>submit_at\<close> that supersedes jobs of the same root with another input.\<close>

definition supersede_root :: "string \<Rightarrow> string \<Rightarrow> 'e scheduler \<Rightarrow> 'e scheduler" where
  "supersede_root root identity_key s =
     (if list_ex (new_input root identity_key) (listed_jobs s) then
        s\<lparr>sc_generations :=
            bt_insert root (sat_add (generation_of root s) 1) (sc_generations s),
          sc_heap := cancel_listed (new_input root identity_key) ReasonSuperseded
            (bt_values (sc_jobs s)) (sc_heap s)\<rparr>
      else s)"

text \<open>
  \<open>make_job_id\<close> numbers jobs by a process-wide counter; with one scheduler it is the heap size.
\<close>

definition make_job_id :: "nat \<Rightarrow> nat \<Rightarrow> string" where
  "make_job_id pid n = ''gate-'' @ dec pid @ ''-'' @ dec n"

definition insert_job ::
  "nat \<Rightarrow> scheduler_options \<Rightarrow> string \<Rightarrow> string \<Rightarrow> string \<Rightarrow> nat \<Rightarrow> nat \<Rightarrow> 'e scheduler \<Rightarrow>
   nat \<times> 'e scheduler" where
  "insert_job pid opts root key identity_key requested_at now s =
     (let g = generation_of root s;
          (until, ws) = debounce_until root identity_key now (so_debounce opts) (sc_windows s);
          j = length (sc_heap s);
          job = \<lparr>js_id = make_job_id pid j, js_root = root, js_key = key,
                 js_identity_key = identity_key, js_generation = g, js_requested_at = requested_at,
                 js_debounce_until = until, js_cancellation = False, js_cancel_reason = None,
                 js_subscribers = 0, js_result = None, js_complete = False\<rparr>
      in (j, s\<lparr>sc_windows := ws, sc_heap := sc_heap s @ [job],
               sc_jobs := bt_insert (composite_key root key g) j (sc_jobs s)\<rparr>))"

definition submit_at ::
  "nat \<Rightarrow> scheduler_options \<Rightarrow> string \<Rightarrow> string \<Rightarrow> string \<Rightarrow> nat \<Rightarrow> nat \<Rightarrow> 'e scheduler \<Rightarrow>
   (scheduler_error + nat) \<times> 'e scheduler" where
  "submit_at pid opts root key identity_key requested_at now s =
     (if sc_closing s then (Inl Closing, s)
      else case joinable_at (composite_key root key (generation_of root s)) s of
        Some j \<Rightarrow> (Inr j, s)
      | None \<Rightarrow>
          let s = supersede_root root identity_key s in
          (case joinable_at (composite_key root key (generation_of root s)) s of
             Some j \<Rightarrow> (Inr j, s)
           | None \<Rightarrow>
               let (j, s) = insert_job pid opts root key identity_key requested_at now s
               in (Inr j, s)))"

text \<open>The locked part of \<open>close\<close>; the waits that follow change nothing.\<close>

definition sched_close :: "'e scheduler \<Rightarrow> 'e scheduler" where
  "sched_close s =
     s\<lparr>sc_closing := True,
       sc_heap := cancel_listed (\<lambda>_. True) ReasonShutdown (bt_values (sc_jobs s)) (sc_heap s)\<rparr>"

text \<open>After a job finished, its task takes it out of the map.\<close>

definition retain_others :: "nat \<Rightarrow> 'e scheduler \<Rightarrow> 'e scheduler" where
  "retain_others j s = s\<lparr>sc_jobs := filter (\<lambda>e. snd e \<noteq> j) (sc_jobs s)\<rparr>"

section \<open>Running one job\<close>

text \<open>How the timed wait in \<open>wait_debounce\<close> ended: the timer (with the clock then) or the token.\<close>

datatype debounce_wake = TimerFired nat | TokenFired

definition wait_debounce ::
  "nat \<Rightarrow> nat \<Rightarrow> nat \<Rightarrow> bool \<Rightarrow> debounce_wake \<Rightarrow> bool \<Rightarrow> scheduler_error option" where
  "wait_debounce until deadline now cancelled_now wake cancelled_then =
     (if until \<le> now then (if cancelled_now then Some JobCancelled else None)
      else case wake of
        TimerFired later \<Rightarrow>
          if cancelled_then then Some JobCancelled
          else if deadline \<le> later then Some JobTimedOut else None
      | TokenFired \<Rightarrow> Some JobCancelled)"

datatype lease_error = LeaseCancelled | LeaseTimedOut string | UnsafeDirectory string | LeaseIo string string

fun map_lease_error :: "lease_error \<Rightarrow> scheduler_error" where
  "map_lease_error LeaseCancelled = JobCancelled"
| "map_lease_error (LeaseTimedOut key) = JobTimedOut"
| "map_lease_error (UnsafeDirectory path) = LeaseFailed path"
| "map_lease_error (LeaseIo path message) = LeaseFailed (path @ '': '' @ message)"

text \<open>The points at which \<open>execute_job\<close> can return, with what it awaited.\<close>

datatype 'e job_exit =
    AtDebounce scheduler_error
  | AtLease lease_error
  | AtStart nat
  | AtWork "scheduler_error + 'e"

definition execute_job ::
  "scheduler_options \<Rightarrow> 'e job_state \<Rightarrow> 'e job_exit \<Rightarrow> ((scheduler_error + 'e) \<times> 'e job_state) option" where
  "execute_job opts j ex =
     (case ex of
        AtDebounce e \<Rightarrow> Some (Inl (cancellation_error j e), j)
      | AtLease e \<Rightarrow> Some (Inl (cancellation_error j (map_lease_error e)), j)
      | AtStart now \<Rightarrow>
          (case js_cancel_reason j of
             Some r \<Rightarrow> Some (Inl (cancel_reason_error r), j)
           | None \<Rightarrow>
               if js_requested_at j + so_hard_timeout opts \<le> now
               then Some (Inl JobTimedOut, job_cancel ReasonTimedOut j) else None)
      | AtWork result \<Rightarrow>
          Some (case js_cancel_reason j of None \<Rightarrow> result | Some r \<Rightarrow> Inl (cancel_reason_error r), j))"

section \<open>Admission and messages\<close>

record resource_snapshot =
  rs_free_disk_mb :: nat
  rs_available_memory_mb :: "nat option"

definition memory_below_floor :: "nat option \<Rightarrow> nat \<Rightarrow> bool" where
  "memory_below_floor available minimum_mb =
     (case available of None \<Rightarrow> False | Some a \<Rightarrow> a < minimum_mb)"

definition assert_admitted ::
  "scheduler_options \<Rightarrow> resource_snapshot option \<Rightarrow> scheduler_error + resource_snapshot" where
  "assert_admitted opts snapshot =
     (case snapshot of
        None \<Rightarrow> Inl ResourceUnreadable
      | Some s \<Rightarrow>
          let reasons =
            (if rs_free_disk_mb s < so_min_free_disk_mb opts
             then [DiskBelow (rs_free_disk_mb s) (so_min_free_disk_mb opts)] else []) @
            (if memory_below_floor (rs_available_memory_mb s) (so_min_available_memory_mb opts)
             then [MemoryBelow (case rs_available_memory_mb s of None \<Rightarrow> 0 | Some a \<Rightarrow> a)
               (so_min_available_memory_mb opts)] else [])
          in if reasons = [] then Inr s else Inl (ResourceBlocked reasons))"

text \<open>\<open>String::truncate\<close> panics (here \<open>None\<close>) when the new length is no character boundary.\<close>

definition string_truncate :: "string \<Rightarrow> nat \<Rightarrow> string option" where
  "string_truncate s n =
     (if length s \<le> n then Some s else if is_char_boundary s n then Some (take n s) else None)"

definition bounded_message :: "string \<Rightarrow> string option" where
  "bounded_message s =
     (if length s \<le> 512 then Some s
      else map_option (\<lambda>m. take (floor_char_boundary m (length m)) m) (string_truncate s 512))"

text \<open>The progress hub: callbacks by number, at most 32.\<close>

record 'c progress_hub =
  ph_callbacks :: "(nat, 'c) btree_map"
  ph_next_callback_id :: nat

definition add_callback :: "'c \<Rightarrow> 'c progress_hub \<Rightarrow> nat option \<times> 'c progress_hub" where
  "add_callback c hub =
     (if 32 \<le> length (ph_callbacks hub) then (None, hub)
      else let i = ph_next_callback_id hub in
        (Some i, hub\<lparr>ph_callbacks := bt_insert i c (ph_callbacks hub),
                     ph_next_callback_id := Suc i mod 2 ^ 64\<rparr>))"

definition drop_registration :: "nat \<Rightarrow> 'c progress_hub \<Rightarrow> 'c progress_hub" where
  "drop_registration i hub = hub\<lparr>ph_callbacks := bt_remove i (ph_callbacks hub)\<rparr>"

section \<open>Moves\<close>

inductive sched_move :: "nat \<Rightarrow> scheduler_options \<Rightarrow> 'e scheduler \<Rightarrow> 'e scheduler \<Rightarrow> bool"
  for pid opts where
  Submit: "submit_at pid opts root key identity_key requested_at now s = (res, s') \<Longrightarrow>
     sched_move pid opts s s'"
| MarkDirty: "sched_move pid opts s (snd (mark_dirty root s))"
| Close: "sched_move pid opts s (sched_close s)"
| Subscribe: "j < length (sc_heap s) \<Longrightarrow> sched_move pid opts s (snd (subscribe j s))"
| Detach: "sched_move pid opts s (subscription_detach i s)"
| CancelJob: "sched_move pid opts s (update_job j (job_cancel ReasonCancelled) s)"
| Finish: "j < length (sc_heap s) \<Longrightarrow> \<not> js_complete (sc_heap s ! j) \<Longrightarrow>
     execute_job opts (sc_heap s ! j) ex = Some (result, job) \<Longrightarrow>
     sched_move pid opts s (update_job j (\<lambda>_. job_finish result job) s)"
| Retain: "j < length (sc_heap s) \<Longrightarrow> js_complete (sc_heap s ! j) \<Longrightarrow>
     sched_move pid opts s (retain_others j s)"

definition sched_reachable :: "nat \<Rightarrow> scheduler_options \<Rightarrow> 'e scheduler \<Rightarrow> bool" where
  "sched_reachable pid opts s \<longleftrightarrow> (sched_move pid opts)\<^sup>*\<^sup>* scheduler_new s"

end
