(* ===== verification/Scheduler_Properties.thy ===== *)
theory Scheduler_Properties
  imports Gate_Scheduler "HOL-Library.Code_Target_Nat"
begin

text \<open>
  Properties of the scheduler in every interleaving of submissions, dirty marks, subscriptions,
  cancellations, completions and shutdown: one live job per work key, supersession by a newer input,
  sticky cancellation, bounded tables.
\<close>

section \<open>Heap updates\<close>

text \<open>
  What may happen to a job object between two states: it keeps what names it, a recorded cancellation
  reason and a recorded result stay, and a job that could no longer be joined cannot be joined later.
\<close>

definition evolves :: "'e job_state \<Rightarrow> 'e job_state \<Rightarrow> bool" where
  "evolves a b \<longleftrightarrow>
     js_id b = js_id a \<and> js_root b = js_root a \<and> js_key b = js_key a \<and>
     js_identity_key b = js_identity_key a \<and> js_generation b = js_generation a \<and>
     (\<forall>r. js_cancel_reason a = Some r \<longrightarrow> js_cancel_reason b = Some r) \<and>
     (js_cancellation a \<longrightarrow> js_cancellation b) \<and>
     (js_complete a \<longrightarrow> js_complete b \<and> js_result b = js_result a)"

definition job_key :: "'e job_state \<Rightarrow> string" where
  "job_key j = composite_key (js_root j) (js_key j) (js_generation j)"

lemma evolves_refl [simp]: "evolves j j"
  by (simp add: evolves_def)

lemma evolves_cancel [simp]: "evolves j (job_cancel r j)"
  by (simp add: evolves_def job_cancel_def split: option.splits)

lemma evolves_subscribers [simp]: "evolves j (j\<lparr>js_subscribers := n\<rparr>)"
  by (simp add: evolves_def)

lemma evolves_trans: "evolves a b \<Longrightarrow> evolves b c \<Longrightarrow> evolves a c"
  by (simp add: evolves_def)

lemma evolves_detach [simp]: "evolves j (job_detach j)"
  by (simp add: job_detach_def Let_def evolves_trans [OF evolves_subscribers evolves_cancel])

lemma evolves_joinable: "evolves a b \<Longrightarrow> is_joinable b \<Longrightarrow> is_joinable a"
  by (auto simp: evolves_def is_joinable_def)

lemma evolves_key: "evolves a b \<Longrightarrow> job_key b = job_key a"
  by (simp add: evolves_def job_key_def)

lemma job_cancel_not_joinable [simp]: "\<not> is_joinable (job_cancel r j)"
  by (simp add: is_joinable_def job_cancel_def)

lemma job_finish_not_joinable [simp]: "\<not> is_joinable (job_finish r j)"
  by (simp add: is_joinable_def job_finish_def)

lemma execute_job_evolves:
  "execute_job opts j ex = Some (result, job) \<Longrightarrow> evolves j job \<and> js_complete job = js_complete j"
  by (auto simp: execute_job_def job_cancel_def evolves_def split: job_exit.splits option.splits if_splits)

lemma finish_evolves:
  "execute_job opts j ex = Some (result, job) \<Longrightarrow> \<not> js_complete j \<Longrightarrow> evolves j (job_finish result job)"
  using execute_job_evolves [of opts j ex result job] by (auto simp: evolves_def job_finish_def)

lemma length_cancel_listed [simp]: "length (cancel_listed P r js h) = length h"
  by (simp add: cancel_listed_def)

lemma nth_cancel_listed:
  "i < length h \<Longrightarrow>
    cancel_listed P r js h ! i = (if i \<in> set js \<and> P (h ! i) then job_cancel r (h ! i) else h ! i)"
  by (simp add: cancel_listed_def nth_enumerate_eq)

definition heap_evolves :: "'e scheduler \<Rightarrow> 'e scheduler \<Rightarrow> bool" where
  "heap_evolves s s' \<longleftrightarrow>
     length (sc_heap s) \<le> length (sc_heap s') \<and>
     (\<forall>i < length (sc_heap s). evolves (sc_heap s ! i) (sc_heap s' ! i))"

lemma heap_evolves_refl [simp]: "heap_evolves s s"
  by (simp add: heap_evolves_def)

lemma heap_evolves_trans: "heap_evolves s s' \<Longrightarrow> heap_evolves s' s'' \<Longrightarrow> heap_evolves s s''"
  unfolding heap_evolves_def by (meson evolves_trans order_trans order_less_le_trans)

lemma heap_cancel_listed: "sc_heap s' = cancel_listed P r js (sc_heap s) \<Longrightarrow> heap_evolves s s'"
  by (simp add: heap_evolves_def nth_cancel_listed)

lemma update_job_simps [simp]:
  "length (sc_heap (update_job j f s)) = length (sc_heap s)"
  "sc_jobs (update_job j f s) = sc_jobs s" "sc_windows (update_job j f s) = sc_windows s"
  "sc_generations (update_job j f s) = sc_generations s" "sc_closing (update_job j f s) = sc_closing s"
  "sc_subscriptions (update_job j f s) = sc_subscriptions s"
  by (simp_all add: update_job_def)

lemma nth_update_job:
  "i < length (sc_heap s) \<Longrightarrow>
    sc_heap (update_job j f s) ! i = (if i = j then f (sc_heap s ! i) else sc_heap s ! i)"
  by (simp add: update_job_def)

lemma heap_update_job:
  "(j < length (sc_heap s) \<Longrightarrow> evolves (sc_heap s ! j) (f (sc_heap s ! j))) \<Longrightarrow> heap_evolves s (update_job j f s)"
  by (auto simp: heap_evolves_def nth_update_job)

lemma supersede_heap: "heap_evolves s (supersede_root root identity s)"
  by (auto simp: supersede_root_def intro: heap_cancel_listed)

lemma insert_job_heap: "heap_evolves s (snd (insert_job pid opts root key identity req now s))"
  by (simp add: insert_job_def Let_def case_prod_beta heap_evolves_def nth_append)

lemma submit_heap:
  "submit_at pid opts root key identity req now s = (res, s') \<Longrightarrow> heap_evolves s s'"
  using heap_evolves_trans [OF supersede_heap [of s root identity] insert_job_heap [of _ pid opts root key identity req now]]
    supersede_heap [of s root identity]
  by (auto simp: submit_at_def Let_def case_prod_beta split: if_splits option.splits)

lemma move_heap: "sched_move pid opts s s' \<Longrightarrow> heap_evolves s s'"
proof (induction rule: sched_move.induct)
  case (Submit root key identity_key requested_at now s res s')
  then show ?case by (rule submit_heap)
next
  case (MarkDirty s root)
  show ?case by (rule heap_cancel_listed) (simp add: mark_dirty_def Let_def)
next
  case (Close s)
  show ?case by (rule heap_cancel_listed) (simp add: sched_close_def)
next
  case (Subscribe j s)
  have "heap_evolves s (update_job j (\<lambda>job. job\<lparr>js_subscribers := js_subscribers job + 1\<rparr>) s)"
    by (rule heap_update_job) simp
  then show ?case by (simp add: subscribe_def Let_def heap_evolves_def)
next
  case (Detach s i)
  let ?s = "s\<lparr>sc_subscriptions := (sc_subscriptions s)[i := (sc_subscriptions s ! i)\<lparr>sub_detached := True\<rparr>]\<rparr>"
  have "heap_evolves ?s (update_job k job_detach ?s)" for k
    by (rule heap_update_job) simp
  then show ?case by (auto simp: subscription_detach_def heap_evolves_def)
next
  case (CancelJob s j)
  show ?case by (rule heap_update_job) simp
next
  case (Finish j s ex result job)
  then show ?case by (intro heap_update_job finish_evolves)
next
  case (Retain j s)
  show ?case by (simp add: retain_others_def heap_evolves_def)
qed

section \<open>The invariant\<close>

definition live :: "'e scheduler \<Rightarrow> nat \<Rightarrow> bool" where
  "live s j \<longleftrightarrow> j < length (sc_heap s) \<and> is_joinable (sc_heap s ! j)"

definition map_ok :: "'e scheduler \<Rightarrow> bool" where
  "map_ok s \<longleftrightarrow>
     bt_wf (sc_jobs s) \<and>
     (\<forall>k j. bt_get (sc_jobs s) k = Some j \<longrightarrow> j < length (sc_heap s) \<and> k = job_key (sc_heap s ! j)) \<and>
     (\<forall>j. live s j \<longrightarrow> bt_get (sc_jobs s) (job_key (sc_heap s ! j)) = Some j)"

definition one_identity :: "'e scheduler \<Rightarrow> bool" where
  "one_identity s \<longleftrightarrow>
     (\<forall>i j. live s i \<longrightarrow> live s j \<longrightarrow> js_root (sc_heap s ! i) = js_root (sc_heap s ! j) \<longrightarrow>
        js_identity_key (sc_heap s ! i) = js_identity_key (sc_heap s ! j))"

definition sched_inv :: "'e scheduler \<Rightarrow> bool" where
  "sched_inv s \<longleftrightarrow>
     map_ok s \<and> one_identity s \<and> bt_wf (sc_windows s) \<and> length (sc_windows s) \<le> MAX_DEBOUNCE_ROOTS \<and>
     (sc_closing s \<longrightarrow> (\<forall>j. \<not> live s j))"

lemma sched_inv_new: "sched_inv scheduler_new"
  by (simp add: sched_inv_def map_ok_def one_identity_def live_def scheduler_new_def)

text \<open>Moves that add no job and keep the map.\<close>

lemma live_back:
  "heap_evolves s s' \<Longrightarrow> length (sc_heap s') = length (sc_heap s) \<Longrightarrow> live s' j \<Longrightarrow> live s j"
  unfolding heap_evolves_def live_def by (metis evolves_joinable)

lemma inv_heap_update:
  assumes "heap_evolves s s'" and "length (sc_heap s') = length (sc_heap s)" and "sc_jobs s' = sc_jobs s"
  shows "(map_ok s \<longrightarrow> map_ok s') \<and> (one_identity s \<longrightarrow> one_identity s')"
proof -
  have ev: "evolves (sc_heap s ! j) (sc_heap s' ! j)" if "j < length (sc_heap s)" for j
    using assms(1) that by (simp add: heap_evolves_def)
  have lv: "live s j" "j < length (sc_heap s)" if "live s' j" for j
    using live_back [OF assms(1,2) that] by (simp_all add: live_def)
  have "map_ok s'" if "map_ok s"
    using that assms(2,3) lv evolves_key [OF ev] unfolding map_ok_def by fastforce
  moreover have "one_identity s'" if "one_identity s"
    using that lv ev unfolding one_identity_def evolves_def by metis
  ultimately show ?thesis by blast
qed

lemma listed_live: "map_ok s \<Longrightarrow> live s j \<Longrightarrow> j \<in> set (bt_values (sc_jobs s))"
  by (auto simp: map_ok_def intro: bt_get_values)

lemma map_range: "map_ok s \<Longrightarrow> j \<in> set (bt_values (sc_jobs s)) \<Longrightarrow> j < length (sc_heap s)"
  using bt_values_get by (fastforce simp: map_ok_def)

section \<open>Submission\<close>

lemma joinable_at_Some:
  "joinable_at k s = Some j \<Longrightarrow> map_ok s \<Longrightarrow> live s j \<and> job_key (sc_heap s ! j) = k"
  by (auto simp: joinable_at_def map_ok_def live_def split: option.splits if_splits)

lemma supersede_root_len [simp]: "length (sc_heap (supersede_root r i s)) = length (sc_heap s)"
  and supersede_root_jobs [simp]: "sc_jobs (supersede_root r i s) = sc_jobs s"
  and supersede_root_windows [simp]: "sc_windows (supersede_root r i s) = sc_windows s"
  and supersede_root_closing [simp]: "sc_closing (supersede_root r i s) = sc_closing s"
  by (simp_all add: supersede_root_def)

text \<open>After the superseding step every live job of the root has the submitted identity.\<close>

lemma supersede_root_identity:
  assumes "map_ok s" and "live (supersede_root root i s) j" and "js_root (sc_heap (supersede_root root i s) ! j) = root"
  shows "js_identity_key (sc_heap (supersede_root root i s) ! j) = i"
proof (rule ccontr)
  assume ne: "js_identity_key (sc_heap (supersede_root root i s) ! j) \<noteq> i"
  have lv: "live s j" using live_back [OF supersede_heap _ assms(2)] by simp
  then have j: "j < length (sc_heap s)" and nc: "\<not> js_complete (sc_heap s ! j)"
    by (simp_all add: live_def is_joinable_def)
  have ev: "evolves (sc_heap s ! j) (sc_heap (supersede_root root i s) ! j)"
    using supersede_heap [of s root i] j by (simp add: heap_evolves_def)
  then have "js_root (sc_heap s ! j) = root" "js_identity_key (sc_heap s ! j) \<noteq> i"
    using ne assms(3) by (metis evolves_def)+
  with nc have ni: "new_input root i (sc_heap s ! j)"
    by (simp add: new_input_def)
  have "j \<in> set (bt_values (sc_jobs s))" using listed_live [OF assms(1) lv] .
  with ni have "list_ex (new_input root i) (listed_jobs s)"
    by (auto simp: listed_jobs_def list_ex_iff)
  with ni j \<open>j \<in> set (bt_values (sc_jobs s))\<close> have "\<not> is_joinable (sc_heap (supersede_root root i s) ! j)"
    by (simp add: supersede_root_def nth_cancel_listed)
  with assms(2) show False by (simp add: live_def)
qed

lemma debounce_windows:
  assumes "bt_wf ws" and "length ws \<le> MAX_DEBOUNCE_ROOTS"
  shows "bt_wf (snd (debounce_until root i now d ws)) \<and>
    length (snd (debounce_until root i now d ws)) \<le> MAX_DEBOUNCE_ROOTS"
proof (cases "bt_get ws root")
  case (Some w)
  with assms show ?thesis
    by (simp add: debounce_until_def Let_def bt_wf_insert bt.size_put_existing)
next
  case None
  show ?thesis
  proof (cases "min_by_key (\<lambda>e. dw_touched_at (snd e)) ws")
    case (Some e)
    then have "bt_get ws (fst e) \<noteq> None"
      using min_by_key_in [OF Some] by (auto simp: bt_get_None_iff)
    from bt.size_evict_put [OF assms(1) this assms(2), of root
        "\<lparr>dw_identity_key = i, dw_ready_at = now + d, dw_touched_at = now\<rparr>"] None Some assms(1)
    show ?thesis
      by (auto simp: debounce_until_def Let_def bt_wf_insert bt_wf_remove MAX_DEBOUNCE_ROOTS_def)
  next
    case none: None
    with None show ?thesis
      by (simp add: debounce_until_def Let_def MAX_DEBOUNCE_ROOTS_def)
  qed
qed

lemma insert_job_inv:
  assumes "map_ok s" and "one_identity s" and "joinable_at (composite_key root key (generation_of root s)) s = None"
    and "\<And>j. live s j \<Longrightarrow> js_root (sc_heap s ! j) = root \<Longrightarrow> js_identity_key (sc_heap s ! j) = i"
  shows "map_ok (snd (insert_job pid opts root key i req now s)) \<and>
    one_identity (snd (insert_job pid opts root key i req now s))"
proof -
  define s' where "s' = snd (insert_job pid opts root key i req now s)"
  define n where "n = length (sc_heap s)"
  define k where "k = composite_key root key (generation_of root s)"
  obtain job where heap: "sc_heap s' = sc_heap s @ [job]" and job: "js_root job = root" "js_identity_key job = i"
      "job_key job = k"
    and jobs: "sc_jobs s' = bt_insert k n (sc_jobs s)"
    by (simp add: s'_def insert_job_def Let_def case_prod_beta k_def n_def job_key_def)
  have at: "sc_heap s' ! j = (if j = n then job else sc_heap s ! j)" if "j \<le> n" for j
    using that by (simp add: heap n_def nth_append)
  have lv: "live s j" if "live s' j" "j \<noteq> n" for j
    using that at [of j] heap by (auto simp: live_def n_def)
  have neq: "job_key (sc_heap s ! j) \<noteq> k" if "live s j" for j
  proof
    assume "job_key (sc_heap s ! j) = k"
    with that assms(1) have "bt_get (sc_jobs s) k = Some j" unfolding map_ok_def by blast
    with that assms(3) show False by (simp add: joinable_at_def k_def live_def)
  qed
  have key_back: "bt_get (sc_jobs s') (job_key (sc_heap s' ! j)) = Some j" if "live s' j" for j
  proof (cases "j = n")
    case True
    with job at [of n] show ?thesis by (simp add: jobs bt_get_insert)
  next
    case False
    with lv [OF that] have l: "live s j" by simp
    then have "j < n" by (simp add: live_def n_def)
    then have "sc_heap s' ! j = sc_heap s ! j" by (simp add: at)
    moreover have "bt_get (sc_jobs s) (job_key (sc_heap s ! j)) = Some j"
      using l assms(1) unfolding map_ok_def by blast
    ultimately show ?thesis using neq [OF l] by (simp add: jobs bt_get_insert)
  qed
  have forth: "j < length (sc_heap s') \<and> c = job_key (sc_heap s' ! j)" if "bt_get (sc_jobs s') c = Some j" for c j
  proof (cases "c = k")
    case True
    with that job at [of n] heap show ?thesis by (simp add: jobs bt_get_insert n_def)
  next
    case False
    with that have "bt_get (sc_jobs s) c = Some j" by (simp add: jobs bt_get_insert)
    with assms(1) have "j < n" "c = job_key (sc_heap s ! j)" by (auto simp: map_ok_def n_def)
    with at [of j] heap show ?thesis by (simp add: n_def)
  qed
  have "bt_wf (sc_jobs s')"
    using assms(1) by (simp add: map_ok_def jobs bt_wf_insert)
  with key_back forth have "map_ok s'"
    unfolding map_ok_def by blast
  moreover have "one_identity s'"
    unfolding one_identity_def
  proof (intro allI impI)
    have old: "live s x \<and> sc_heap s' ! x = sc_heap s ! x" if "live s' x" "x \<noteq> n" for x
      using lv [OF that] at [of x] that(2) by (simp add: live_def n_def)
    have idr: "js_identity_key (sc_heap s' ! x) = i" if "live s' x" "js_root (sc_heap s' ! x) = root" for x
    proof (cases "x = n")
      case True
      with at [of n] job(2) show ?thesis by simp
    next
      case False
      with old [OF that(1)] that(2) assms(4) [of x] show ?thesis by simp
    qed
    fix x y assume xy: "live s' x" "live s' y" "js_root (sc_heap s' ! x) = js_root (sc_heap s' ! y)"
    show "js_identity_key (sc_heap s' ! x) = js_identity_key (sc_heap s' ! y)"
    proof (cases "js_root (sc_heap s' ! y) = root")
      case True
      with idr [OF xy(1)] idr [OF xy(2)] xy(3) show ?thesis by simp
    next
      case False
      then have "x \<noteq> n" "y \<noteq> n" using xy(3) at [of n] job(1) by auto
      with old xy assms(2) show ?thesis unfolding one_identity_def by metis
    qed
  qed
  ultimately show ?thesis by (simp add: s'_def)
qed

lemma submit_inv:
  assumes "sched_inv s" and "submit_at pid opts root key i req now s = (res, s')"
  shows "sched_inv s'"
proof -
  define s1 where "s1 = supersede_root root i s"
  have s1: "map_ok s1" "one_identity s1"
    using assms(1) inv_heap_update [OF supersede_heap, of root i s] by (simp_all add: sched_inv_def s1_def)
  have id1: "js_identity_key (sc_heap s1 ! j) = i" if "live s1 j" "js_root (sc_heap s1 ! j) = root" for j
    using supersede_root_identity [of s root i j] that assms(1) unfolding sched_inv_def s1_def by blast
  have w1: "bt_wf (sc_windows s1)" "length (sc_windows s1) \<le> MAX_DEBOUNCE_ROOTS" "sc_closing s1 = sc_closing s"
    using assms(1) by (simp_all add: s1_def sched_inv_def)
  consider "s' = s" | "s' = s1" "\<not> sc_closing s"
    | "s' = snd (insert_job pid opts root key i req now s1)" "\<not> sc_closing s"
      "joinable_at (composite_key root key (generation_of root s1)) s1 = None"
    using assms(2) by (auto simp: submit_at_def Let_def case_prod_beta s1_def split: if_splits option.splits)
  then show ?thesis
  proof cases
    case 3
    have "sc_windows s' = snd (debounce_until root i now (so_debounce opts) (sc_windows s1))"
      "sc_closing s' = sc_closing s1"
      using 3(1) by (simp_all add: insert_job_def Let_def case_prod_beta)
    with insert_job_inv [OF s1 3(3) id1] 3(1,2) debounce_windows [OF w1(1,2)] w1(3) show ?thesis
      by (simp add: sched_inv_def)
  qed (use assms(1) s1 w1 in \<open>simp_all add: sched_inv_def\<close>)
qed

lemma inv_same_map:
  assumes "sched_inv s" and "heap_evolves s s'" and "length (sc_heap s') = length (sc_heap s)"
    and "sc_jobs s' = sc_jobs s" and "bt_wf (sc_windows s')" and "length (sc_windows s') \<le> MAX_DEBOUNCE_ROOTS"
    and "sc_closing s' \<Longrightarrow> sc_closing s \<or> (\<forall>j. \<not> live s' j)"
  shows "sched_inv s'"
  using assms inv_heap_update [OF assms(2-4)] live_back [OF assms(2,3)]
  unfolding sched_inv_def by blast

lemma no_live_after_cancel:
  assumes "map_ok s" and "sc_heap s' = cancel_listed P r (bt_values (sc_jobs s)) (sc_heap s)"
    and "live s' j" and "\<not> js_complete (sc_heap s ! j) \<Longrightarrow> P (sc_heap s ! j)"
  shows False
proof -
  have len: "length (sc_heap s') = length (sc_heap s)" using assms(2) by simp
  have lv: "live s j" using live_back [OF heap_cancel_listed [OF assms(2)] len assms(3)] .
  then have "j < length (sc_heap s)" "P (sc_heap s ! j)"
    using assms(4) by (simp_all add: live_def is_joinable_def)
  with listed_live [OF assms(1) lv] have "sc_heap s' ! j = job_cancel r (sc_heap s ! j)"
    by (simp add: assms(2) nth_cancel_listed)
  with assms(3) show False by (simp add: live_def)
qed

lemma retain_inv:
  assumes "sched_inv s" and "j < length (sc_heap s)" and "js_complete (sc_heap s ! j)"
  shows "sched_inv (retain_others j s)"
proof -
  have wf: "bt_wf (sc_jobs s)" using assms(1) by (simp add: sched_inv_def map_ok_def)
  have get: "bt_get (filter (\<lambda>e. snd e \<noteq> j) (sc_jobs s)) k =
      (case bt_get (sc_jobs s) k of None \<Rightarrow> None | Some v \<Rightarrow> if v \<noteq> j then Some v else None)" for k
    using bt_get_filter [OF wf, of "\<lambda>e. snd e \<noteq> j" k] by (simp split: option.splits)
  have "\<not> live s j" using assms(3) by (simp add: live_def is_joinable_def)
  have "map_ok (retain_others j s)"
    unfolding map_ok_def
  proof (intro conjI allI impI)
    show "bt_wf (sc_jobs (retain_others j s))" using wf by (simp add: retain_others_def bt_wf_filter)
  next
    fix k i assume "bt_get (sc_jobs (retain_others j s)) k = Some i"
    then have "bt_get (sc_jobs s) k = Some i"
      by (simp add: retain_others_def get split: option.splits if_splits)
    with assms(1) show "i < length (sc_heap (retain_others j s))" "k = job_key (sc_heap (retain_others j s) ! i)"
      by (auto simp: sched_inv_def map_ok_def retain_others_def)
  next
    fix i assume "live (retain_others j s) i"
    then have l: "live s i" by (simp add: live_def retain_others_def)
    with assms(1) have "bt_get (sc_jobs s) (job_key (sc_heap s ! i)) = Some i"
      unfolding sched_inv_def map_ok_def by blast
    moreover have "i \<noteq> j" using l \<open>\<not> live s j\<close> by blast
    ultimately show "bt_get (sc_jobs (retain_others j s)) (job_key (sc_heap (retain_others j s) ! i)) = Some i"
      by (simp add: retain_others_def get)
  qed
  moreover have "live (retain_others j s) = live s"
    by (simp add: fun_eq_iff live_def retain_others_def)
  moreover have "sc_heap (retain_others j s) = sc_heap s"
    by (simp add: retain_others_def)
  with calculation(2) have "one_identity (retain_others j s) = one_identity s"
    by (simp only: one_identity_def)
  ultimately show ?thesis
    using assms(1) unfolding sched_inv_def by (simp add: retain_others_def)
qed

lemma detach_simps [simp]:
  "sc_closing (subscription_detach i s) = sc_closing s" "sc_jobs (subscription_detach i s) = sc_jobs s"
  "sc_windows (subscription_detach i s) = sc_windows s"
  "length (sc_heap (subscription_detach i s)) = length (sc_heap s)"
  "sc_generations (subscription_detach i s) = sc_generations s"
  by (simp_all add: subscription_detach_def)

lemma inv_windows:
  assumes "sched_inv s"
  shows "bt_wf (sc_windows s)" and "length (sc_windows s) \<le> MAX_DEBOUNCE_ROOTS" and "map_ok s"
  using assms by (simp_all add: sched_inv_def)

lemma sched_inv_move: "sched_move pid opts s s' \<Longrightarrow> sched_inv s \<Longrightarrow> sched_inv s'"
proof (induction rule: sched_move.induct)
  case (Submit root key identity_key requested_at now s res s')
  then show ?case using submit_inv by blast
next
  case (MarkDirty s root)
  have h: "sc_heap (snd (mark_dirty root s)) = cancel_listed (\<lambda>job. js_root job = root \<and> \<not> js_complete job)
      ReasonSuperseded (bt_values (sc_jobs s)) (sc_heap s)" by (simp add: mark_dirty_def Let_def)
  have "length (bt_remove root (sc_windows s)) \<le> length (sc_windows s)" by (simp add: bt_remove_def)
  then show ?case
    using inv_windows [OF MarkDirty]
    by (intro inv_same_map [OF MarkDirty heap_cancel_listed [OF h]])
      (simp_all add: mark_dirty_def Let_def bt_wf_remove)
next
  case (Close s)
  have h: "sc_heap (sched_close s) = cancel_listed (\<lambda>_. True) ReasonShutdown (bt_values (sc_jobs s)) (sc_heap s)"
    by (simp add: sched_close_def)
  have nl: "\<not> live (sched_close s) j" for j
    using no_live_after_cancel [OF inv_windows(3) [OF Close] h] by blast
  show ?case
    using inv_windows [OF Close] nl
    by (intro inv_same_map [OF Close heap_cancel_listed [OF h]]) (simp_all add: sched_close_def)
next
  case (Subscribe j s)
  show ?case
    using inv_windows [OF Subscribe(2)]
    by (intro inv_same_map [OF Subscribe(2) move_heap [OF sched_move.Subscribe [OF Subscribe(1)]]])
      (simp_all add: subscribe_def Let_def)
next
  case (Detach s i)
  show ?case
    using inv_windows [OF Detach]
    by (intro inv_same_map [OF Detach move_heap [OF sched_move.Detach]])
      simp_all
next
  case (CancelJob s j)
  show ?case
    using inv_windows [OF CancelJob]
    by (intro inv_same_map [OF CancelJob move_heap [OF sched_move.CancelJob]]) simp_all
next
  case (Finish j s ex result job)
  show ?case
    using inv_windows [OF Finish(4)]
    by (intro inv_same_map [OF Finish(4) move_heap [OF sched_move.Finish [OF Finish(1-3)]]]) simp_all
next
  case (Retain j s)
  then show ?case using retain_inv by blast
qed

lemma sched_reachable_inv: "sched_reachable pid opts s \<Longrightarrow> sched_inv s"
  unfolding sched_reachable_def
  by (induction rule: rtranclp_induct) (auto intro: sched_inv_new sched_inv_move)

section \<open>Properties\<close>

lemma composite_key_inj:
  assumes "composite_key r k g = composite_key r' k' g'"
    and "CHR 0x00 \<notin> set r" "CHR 0x00 \<notin> set r'" "CHR 0x00 \<notin> set k" "CHR 0x00 \<notin> set k'"
  shows "r = r' \<and> k = k' \<and> g = g'"
proof -
  have "r @ CHR 0x00 # (k @ CHR 0x00 # dec g) = r' @ CHR 0x00 # (k' @ CHR 0x00 # dec g')"
    using assms(1) by (simp add: composite_key_def)
  then have 1: "r = r' \<and> k @ CHR 0x00 # dec g = k' @ CHR 0x00 # dec g'"
    using assms(2,3) by (rule sep_inject)
  then have "k @ CHR 0x00 # dec g = k' @ CHR 0x00 # dec g'" by simp
  then have "k = k' \<and> dec g = dec g'"
    using assms(4,5) by (rule sep_inject)
  with 1 show ?thesis by (simp add: dec_inject)
qed

text \<open>
  C38: One live job per work key. In every reachable state two jobs that can still be joined and have the
  same root, key and generation are the same job, a live job is the one the scheduler's map holds for its
  key, and all live jobs of one root run on the same source identity. At most 256 debounce windows are
  remembered.
\<close>

theorem single_flight:
  assumes "sched_reachable pid opts s"
  shows "(\<forall>i j. live s i \<and> live s j \<and> js_root (sc_heap s ! i) = js_root (sc_heap s ! j) \<and>
      js_key (sc_heap s ! i) = js_key (sc_heap s ! j) \<and>
      js_generation (sc_heap s ! i) = js_generation (sc_heap s ! j) \<longrightarrow> i = j) \<and>
    (\<forall>i j. live s i \<and> live s j \<and> js_root (sc_heap s ! i) = js_root (sc_heap s ! j) \<longrightarrow>
      js_identity_key (sc_heap s ! i) = js_identity_key (sc_heap s ! j)) \<and>
    length (sc_windows s) \<le> 256"
proof -
  have inv: "sched_inv s" using sched_reachable_inv [OF assms] .
  have "i = j" if "live s i" "live s j" "job_key (sc_heap s ! i) = job_key (sc_heap s ! j)" for i j
  proof -
    have "bt_get (sc_jobs s) (job_key (sc_heap s ! i)) = Some i"
      "bt_get (sc_jobs s) (job_key (sc_heap s ! j)) = Some j"
      using inv that unfolding sched_inv_def map_ok_def by blast+
    then show ?thesis unfolding that(3) by (metis option.inject)
  qed
  moreover have "one_identity s" "length (sc_windows s) \<le> 256"
    using inv by (simp_all add: sched_inv_def MAX_DEBOUNCE_ROOTS_def)
  ultimately show ?thesis unfolding one_identity_def job_key_def by metis
qed

text \<open>
  A submission returns a job that can be joined, for the submitted root and key. When it runs the same
  key that is still joinable it returns that job and changes nothing; otherwise the job is a new one with
  the submitted identity, and afterwards every live job of the root has that identity. (Roots and keys
  contain no NUL byte.)
\<close>

theorem submit_returns_live_job:
  assumes "sched_reachable pid opts s" and "submit_at pid opts root key i req now s = (Inr j, s')"
    and "CHR 0x00 \<notin> set root" and "CHR 0x00 \<notin> set key"
    and "\<forall>job \<in> set (sc_heap s). CHR 0x00 \<notin> set (js_root job) \<and> CHR 0x00 \<notin> set (js_key job)"
  shows "live s' j \<and> js_root (sc_heap s' ! j) = root \<and> js_key (sc_heap s' ! j) = key \<and>
    (s' = s \<or> (\<forall>x. live s' x \<and> js_root (sc_heap s' ! x) = root \<longrightarrow> js_identity_key (sc_heap s' ! x) = i))"
proof -
  have inv: "sched_inv s" using sched_reachable_inv [OF assms(1)] .
  have inv': "sched_inv s'" using submit_inv [OF inv assms(2)] .
  define s1 where "s1 = supersede_root root i s"
  have m1: "map_ok s1"
    using inv inv_heap_update [OF supersede_heap, of root i s] by (simp add: sched_inv_def s1_def)
  have id1: "js_identity_key (sc_heap s1 ! x) = i" if "live s1 x" "js_root (sc_heap s1 ! x) = root" for x
    using supersede_root_identity [of s root i x] that inv unfolding sched_inv_def s1_def by blast
  have nul1: "CHR 0x00 \<notin> set (js_root (sc_heap s1 ! x)) \<and> CHR 0x00 \<notin> set (js_key (sc_heap s1 ! x))"
    if "x < length (sc_heap s1)" for x
    using supersede_heap [of s root i] assms(5) that by (auto simp: s1_def heap_evolves_def evolves_def)
  have named: "js_root (sc_heap t ! x) = root \<and> js_key (sc_heap t ! x) = key"
    if "joinable_at (composite_key root key g) t = Some x" "map_ok t"
      "CHR 0x00 \<notin> set (js_root (sc_heap t ! x)) \<and> CHR 0x00 \<notin> set (js_key (sc_heap t ! x))" for t x g
    using joinable_at_Some [OF that(1,2)] composite_key_inj [OF _ _ assms(3) _ assms(4)] that(3)
    by (auto simp: job_key_def)
  from assms(2) consider "s' = s" "joinable_at (composite_key root key (generation_of root s)) s = Some j"
    | "s' = s1" "joinable_at (composite_key root key (generation_of root s1)) s1 = Some j"
    | "(j, s') = insert_job pid opts root key i req now s1"
    by (auto simp: submit_at_def Let_def case_prod_beta s1_def split: if_splits option.splits)
  then show ?thesis
  proof cases
    case 1
    then show ?thesis
      using joinable_at_Some [OF 1(2)] inv named [OF 1(2)] assms(5) by (auto simp: sched_inv_def live_def)
  next
    case 2
    then show ?thesis
      using joinable_at_Some [OF 2(2) m1] named [OF 2(2) m1] nul1 [of j] id1 by (auto simp: live_def)
  next
    case 3
    then have j: "j = length (sc_heap s1)" and new: "sc_heap s' ! j = job" "length (sc_heap s') = Suc j"
        "js_root job = root" "js_key job = key" "js_identity_key job = i" "is_joinable job"
      if "job = sc_heap s' ! j" for job
      using that by (auto simp: insert_job_def Let_def case_prod_beta nth_append is_joinable_def)
    have lj: "live s' j" using new [OF refl] by (simp add: live_def)
    have "one_identity s'" using inv' by (simp add: sched_inv_def)
    with lj new [OF refl] show ?thesis unfolding one_identity_def by metis
  qed
qed

text \<open>
  Marking a root dirty stops everything that runs on it: afterwards no job of the root can be joined, and
  the root's generation has advanced (unless the 64-bit counter is saturated), so later submissions use a
  new key.
\<close>

theorem mark_dirty_supersedes:
  assumes "sched_reachable pid opts s"
  shows "(\<forall>j. live (snd (mark_dirty root s)) j \<longrightarrow> js_root (sc_heap (snd (mark_dirty root s)) ! j) \<noteq> root) \<and>
    generation_of root (snd (mark_dirty root s)) = min u64_max (generation_of root s + 1)"
proof -
  define s' where "s' = snd (mark_dirty root s)"
  have m: "map_ok s" using sched_reachable_inv [OF assms] by (simp add: sched_inv_def)
  have h: "sc_heap s' = cancel_listed (\<lambda>job. js_root job = root \<and> \<not> js_complete job) ReasonSuperseded
      (bt_values (sc_jobs s)) (sc_heap s)" by (simp add: s'_def mark_dirty_def Let_def)
  have "js_root (sc_heap s' ! j) \<noteq> root" if "live s' j" for j
  proof
    assume r: "js_root (sc_heap s' ! j) = root"
    have ev: "heap_evolves s s'" by (rule heap_cancel_listed [OF h])
    have "j < length (sc_heap s)" using that h by (simp add: live_def)
    with ev r have "js_root (sc_heap s ! j) = root" by (metis heap_evolves_def evolves_def)
    with no_live_after_cancel [OF m h that] show False by blast
  qed
  then show ?thesis
    by (simp add: s'_def) (simp add: mark_dirty_def Let_def generation_of_def bt_get_insert sat_add_def)
qed

lemma closing_move: "sched_move pid opts s s' \<Longrightarrow> sc_closing s \<Longrightarrow> sc_closing s' \<and> length (sc_heap s') = length (sc_heap s)"
  by (induction rule: sched_move.induct)
    (simp_all add: submit_at_def mark_dirty_def sched_close_def subscribe_def retain_others_def Let_def)

text \<open>
  Shutdown is final. Once the scheduler is closing it stays closing, no job can be joined any more, no
  job object is added, and every submission is refused, in every continuation of the run.
\<close>

theorem closing_is_final:
  assumes "sched_reachable pid opts s" and "sc_closing s" and "(sched_move pid opts)\<^sup>*\<^sup>* s s'"
  shows "sc_closing s' \<and> (\<forall>j. \<not> live s' j) \<and> length (sc_heap s') = length (sc_heap s) \<and>
    submit_at pid opts root key i req now s' = (Inl Closing, s')"
proof -
  have "sc_closing s' \<and> length (sc_heap s') = length (sc_heap s)"
    using assms(3) assms(2) by (induction rule: rtranclp_induct) (auto dest: closing_move)
  moreover have "sched_reachable pid opts s'"
    using assms(1,3) unfolding sched_reachable_def by (rule rtranclp_trans)
  ultimately show ?thesis
    using sched_reachable_inv [of pid opts s'] by (simp add: sched_inv_def submit_at_def)
qed

lemma run_heap: "(sched_move pid opts)\<^sup>*\<^sup>* s s' \<Longrightarrow> heap_evolves s s'"
  by (induction rule: rtranclp_induct) (auto intro: heap_evolves_trans move_heap)

text \<open>
  The first cancellation reason and the result of a job are final: whatever happens later, a recorded
  reason is never replaced, a stored result is never changed, and a job that cannot be joined never becomes
  joinable again.
\<close>

theorem reasons_and_results_are_final:
  assumes "(sched_move pid opts)\<^sup>*\<^sup>* s s'" and "j < length (sc_heap s)"
  shows "(js_cancel_reason (sc_heap s ! j) = Some r \<longrightarrow> js_cancel_reason (sc_heap s' ! j) = Some r) \<and>
    (js_complete (sc_heap s ! j) \<longrightarrow> js_result (sc_heap s' ! j) = js_result (sc_heap s ! j)) \<and>
    (live s' j \<longrightarrow> live s j)"
proof -
  have "evolves (sc_heap s ! j) (sc_heap s' ! j)"
    using run_heap [OF assms(1)] assms(2) by (simp add: heap_evolves_def)
  with assms(2) show ?thesis
    using evolves_joinable by (auto simp: live_def evolves_def)
qed

text \<open>
  A cancelled job never reports evidence. If the run of a job ends while a cancellation reason is
  recorded, its result is the error of that reason, at whichever point it ended; evidence is returned only
  by the work itself and only when no reason was recorded.
\<close>

theorem cancelled_job_reports_its_reason:
  assumes "execute_job opts job ex = Some (result, job')"
  shows "(\<forall>r. js_cancel_reason job = Some r \<longrightarrow> result = Inl (cancel_reason_error r)) \<and>
    (\<forall>e. result = Inr e \<longrightarrow> ex = AtWork (Inr e) \<and> js_cancel_reason job = None)"
  using assms
  by (auto simp: execute_job_def cancellation_error_def split: job_exit.splits option.splits if_splits)

section \<open>Subscribers\<close>

definition attached :: "nat \<Rightarrow> 'e scheduler \<Rightarrow> nat" where
  "attached j s = length (filter (\<lambda>x. sub_job x = j \<and> \<not> sub_detached x) (sc_subscriptions s))"

definition subs_ok :: "'e scheduler \<Rightarrow> bool" where
  "subs_ok s \<longleftrightarrow>
     (\<forall>x \<in> set (sc_subscriptions s). sub_job x < length (sc_heap s)) \<and>
     (\<forall>j < length (sc_heap s). js_subscribers (sc_heap s ! j) = attached j s)"

lemma filter_update:
  assumes "i < length xs"
  shows "length (filter P (xs[i := y])) + (if P (xs ! i) then 1 else 0) =
    length (filter P xs) + (if P y then 1 else 0)"
proof -
  have "xs = take i xs @ xs ! i # drop (Suc i) xs" "xs[i := y] = take i xs @ y # drop (Suc i) xs"
    using assms by (simp_all add: id_take_nth_drop upd_conv_take_nth_drop)
  then have "length (filter P xs) = length (filter P (take i xs @ xs ! i # drop (Suc i) xs))"
    "length (filter P (xs[i := y])) = length (filter P (take i xs @ y # drop (Suc i) xs))"
    by simp_all
  then show ?thesis by simp
qed

lemma subscribers_kept [simp]:
  "js_subscribers (job_cancel r j) = js_subscribers j" "js_subscribers (job_finish res j) = js_subscribers j"
  by (simp_all add: job_cancel_def job_finish_def)

lemma subscribers_detach: "js_subscribers (job_detach j) = js_subscribers j - 1"
  by (simp add: job_detach_def Let_def)

lemma execute_subscribers:
  "execute_job opts j ex = Some (result, job) \<Longrightarrow> js_subscribers job = js_subscribers j"
  by (auto simp: execute_job_def split: job_exit.splits option.splits if_splits)

lemma subs_ok_same:
  assumes "subs_ok s" and "sc_subscriptions s' = sc_subscriptions s" and "length (sc_heap s') = length (sc_heap s)"
    and "\<And>j. j < length (sc_heap s) \<Longrightarrow> js_subscribers (sc_heap s' ! j) = js_subscribers (sc_heap s ! j)"
  shows "subs_ok s'"
  using assms by (auto simp: subs_ok_def attached_def)

lemma subs_ok_listed:
  assumes "subs_ok s" and "sc_subscriptions s' = sc_subscriptions s"
    and "sc_heap s' = cancel_listed P r js (sc_heap s)"
  shows "subs_ok s'"
  by (rule subs_ok_same [OF assms(1,2)]) (simp_all add: assms(3) nth_cancel_listed)

lemma subs_ok_submit:
  assumes "subs_ok s" and "submit_at pid opts root key i req now s = (res, s')"
  shows "subs_ok s'"
proof -
  have s1: "subs_ok (supersede_root root i s)"
    using assms(1) subs_ok_listed [OF assms(1)] by (simp add: supersede_root_def)
  have "subs_ok (snd (insert_job pid opts root key i req now t))" if "subs_ok t" for t
  proof -
    have "attached (length (sc_heap t)) t = 0"
      using that by (auto simp: subs_ok_def attached_def filter_empty_conv)
    with that show ?thesis
      by (auto simp: insert_job_def Let_def case_prod_beta subs_ok_def attached_def nth_append less_Suc_eq)
  qed
  with assms s1 show ?thesis
    by (auto simp: submit_at_def Let_def case_prod_beta split: if_splits option.splits)
qed

lemma subs_ok_detach: "subs_ok s \<Longrightarrow> subs_ok (subscription_detach i s)"
proof (cases "i < length (sc_subscriptions s) \<and> \<not> sub_detached (sc_subscriptions s ! i)")
  case True
  assume ok: "subs_ok s"
  define x where "x = sc_subscriptions s ! i"
  define s1 where "s1 = s\<lparr>sc_subscriptions := (sc_subscriptions s)[i := x\<lparr>sub_detached := True\<rparr>]\<rparr>"
  have s': "subscription_detach i s = update_job (sub_job x) job_detach s1"
    using True by (simp add: subscription_detach_def x_def s1_def)
  have "attached j s1 + (if sub_job x = j then 1 else 0) = attached j s" for j
    using filter_update [of i "sc_subscriptions s" "\<lambda>x. sub_job x = j \<and> \<not> sub_detached x"
        "x\<lparr>sub_detached := True\<rparr>"] True
    by (simp add: attached_def s1_def x_def)
  then have att: "attached j s1 = attached j s - (if sub_job x = j then 1 else 0)" for j
    by (metis add_diff_cancel_right')
  have "x \<in> set (sc_subscriptions s)" using True by (simp add: x_def)
  then have "sub_job y < length (sc_heap s)" if "y \<in> set (sc_subscriptions s1)" for y
    using ok that set_update_subset_insert [of "sc_subscriptions s" i "x\<lparr>sub_detached := True\<rparr>"]
    by (auto simp: s1_def subs_ok_def)
  moreover have "js_subscribers (sc_heap (subscription_detach i s) ! j) = attached j s1"
    if "j < length (sc_heap s)" for j
    using that ok att [of j] by (simp add: s' s1_def subs_ok_def nth_update_job subscribers_detach)
  moreover have "sc_subscriptions (subscription_detach i s) = sc_subscriptions s1"
    "length (sc_heap (subscription_detach i s)) = length (sc_heap s)"
    by (simp_all add: s' s1_def)
  ultimately show ?thesis
    by (simp add: subs_ok_def attached_def)
qed (auto simp: subscription_detach_def)

lemma subs_ok_move: "sched_move pid opts s s' \<Longrightarrow> subs_ok s \<Longrightarrow> subs_ok s'"
proof (induction rule: sched_move.induct)
  case (Submit root key identity_key requested_at now s res s')
  then show ?case using subs_ok_submit by blast
next
  case (MarkDirty s root)
  then show ?case by (rule subs_ok_listed) (simp_all add: mark_dirty_def Let_def)
next
  case (Close s)
  then show ?case by (rule subs_ok_listed) (simp_all add: sched_close_def)
next
  case (Subscribe j s)
  then show ?case by (auto simp: subscribe_def Let_def subs_ok_def attached_def nth_update_job)
next
  case (Detach s i)
  then show ?case by (rule subs_ok_detach)
next
  case (CancelJob s j)
  then show ?case by (rule subs_ok_same) (simp_all add: nth_update_job)
next
  case (Finish j s ex result job)
  show ?case
    by (rule subs_ok_same [OF Finish(4)]) (simp_all add: nth_update_job execute_subscribers [OF Finish(3)])
next
  case (Retain j s)
  then show ?case by (auto simp: retain_others_def subs_ok_def attached_def)
qed

lemma sched_reachable_subs: "sched_reachable pid opts s \<Longrightarrow> subs_ok s"
  unfolding sched_reachable_def
proof (induction rule: rtranclp_induct)
  case base
  show ?case by (simp add: subs_ok_def scheduler_new_def)
qed (rule subs_ok_move)

text \<open>
  A job lives as long as somebody waits for it. In every reachable state, when an attached subscription of
  an unfinished job detaches, the job is cancelled if it was the last attached one, and otherwise its
  cancellation state is untouched; detaching the same subscription again changes nothing.
\<close>

theorem last_subscriber_cancels:
  assumes "sched_reachable pid opts s" and "i < length (sc_subscriptions s)"
    and "\<not> sub_detached (sc_subscriptions s ! i)" and "j = sub_job (sc_subscriptions s ! i)"
    and "\<not> js_complete (sc_heap s ! j)"
  shows "(attached j s = 1 \<longrightarrow> js_cancel_reason (sc_heap (subscription_detach i s) ! j) \<noteq> None \<and>
        \<not> live (subscription_detach i s) j) \<and>
    (attached j s \<noteq> 1 \<longrightarrow> is_joinable (sc_heap (subscription_detach i s) ! j) = is_joinable (sc_heap s ! j)) \<and>
    subscription_detach i (subscription_detach i s) = subscription_detach i s"
proof -
  have ok: "subs_ok s" by (rule sched_reachable_subs [OF assms(1)])
  have j: "j < length (sc_heap s)" using ok assms(2,4) by (simp add: subs_ok_def)
  have at: "sc_heap (subscription_detach i s) ! j = job_detach (sc_heap s ! j)"
    using assms(2-4) j nth_update_job [of j "s\<lparr>sc_subscriptions := xs\<rparr>" j job_detach for xs]
    by (simp add: subscription_detach_def)
  have n: "js_subscribers (sc_heap s ! j) = attached j s" using ok j by (simp add: subs_ok_def)
  have "sub_detached (sc_subscriptions (subscription_detach i s) ! i)"
    using assms(2,3) by (simp add: subscription_detach_def)
  then have "subscription_detach i (subscription_detach i s) = subscription_detach i s"
    by (simp add: subscription_detach_def [of i "subscription_detach i s"])
  then show ?thesis
    using at n assms(5)
    by (auto simp: job_detach_def Let_def live_def is_joinable_def job_cancel_def split: option.splits)
qed

section \<open>A concrete run and its witnesses\<close>

abbreviation sample_submit :: "string \<Rightarrow> string \<Rightarrow> unit scheduler \<Rightarrow> unit scheduler" where
  "sample_submit key identity s \<equiv>
     snd (submit_at 7 scheduler_options_new ''/w'' key identity 10 20 s)"

definition flight1 :: "unit scheduler" where "flight1 = sample_submit ''check'' ''x'' scheduler_new"
definition flight2 :: "unit scheduler" where "flight2 = snd (subscribe 0 flight1)"

lemma submit_step: "sched_reachable pid opts s \<Longrightarrow>
    sched_reachable pid opts (snd (submit_at pid opts root key i req now s))"
  unfolding sched_reachable_def
  by (erule rtranclp.rtrancl_into_rtrancl) (rule sched_move.Submit [OF prod.collapse [symmetric]])

lemma new_reachable: "sched_reachable pid opts scheduler_new"
  by (simp add: sched_reachable_def)

lemma flight1_reachable: "sched_reachable 7 scheduler_options_new flight1"
  unfolding flight1_def by (rule submit_step [OF new_reachable])

lemma flight1_live: "live flight1 0"
  by code_simp

lemma flight2_reachable: "sched_reachable 7 scheduler_options_new flight2"
proof -
  have "sched_move 7 scheduler_options_new flight1 flight2"
    unfolding flight2_def using flight1_live by (intro Subscribe) (simp add: live_def)
  with flight1_reachable show ?thesis
    unfolding sched_reachable_def by (rule rtranclp.rtrancl_into_rtrancl)
qed

theorem single_flight_witness: "live flight1 0 \<and> length (sc_windows flight1) \<le> 256"
  using single_flight [OF flight1_reachable] flight1_live by blast

theorem submit_returns_live_job_witness:
  "\<exists>s'. submit_at 7 scheduler_options_new ''/w'' ''test'' ''x'' 10 20 flight1 = (Inr 1, s') \<and> live s' 1 \<and>
    js_key (sc_heap s' ! 1) = ''test''"
proof -
  have "fst (submit_at 7 scheduler_options_new ''/w'' ''test'' ''x'' 10 20 flight1) = Inr 1" by code_simp
  then obtain s' where s': "submit_at 7 scheduler_options_new ''/w'' ''test'' ''x'' 10 20 flight1 = (Inr 1, s')"
    by (metis prod.collapse)
  have "list_all (\<lambda>job. CHR 0x00 \<notin> set (js_root job) \<and> CHR 0x00 \<notin> set (js_key job)) (sc_heap flight1)"
    by code_simp
  then have "\<forall>job \<in> set (sc_heap flight1). CHR 0x00 \<notin> set (js_root job) \<and> CHR 0x00 \<notin> set (js_key job)"
    by (simp add: list_all_iff)
  from submit_returns_live_job [OF flight1_reachable s' _ _ this] s' show ?thesis by simp
qed

theorem mark_dirty_supersedes_witness:
  "generation_of ''/w'' (snd (mark_dirty ''/w'' flight1)) = min u64_max (generation_of ''/w'' flight1 + 1)"
  using mark_dirty_supersedes [OF flight1_reachable, of "''/w''"] by blast

theorem closing_is_final_witness:
  "submit_at 7 scheduler_options_new ''/w'' ''check'' ''x'' 10 20 (sched_close flight1) =
    (Inl Closing, sched_close flight1)"
proof -
  have "sched_reachable 7 scheduler_options_new (sched_close flight1)"
    using flight1_reachable unfolding sched_reachable_def
    by (rule rtranclp.rtrancl_into_rtrancl) (rule Close)
  from closing_is_final [OF this, of "sched_close flight1"] show ?thesis by (simp add: sched_close_def)
qed

theorem reasons_and_results_are_final_witness:
  "js_cancel_reason (sc_heap (sched_close flight1) ! 0) = Some ReasonShutdown \<and>
   js_cancel_reason (sc_heap (snd (mark_dirty ''/w'' (sched_close flight1))) ! 0) = Some ReasonShutdown"
proof -
  have "(sched_move 7 scheduler_options_new)\<^sup>*\<^sup>* (sched_close flight1)
      (snd (mark_dirty ''/w'' (sched_close flight1)))"
    by (rule r_into_rtranclp) (rule MarkDirty)
  moreover have "0 < length (sc_heap (sched_close flight1))"
    "js_cancel_reason (sc_heap (sched_close flight1) ! 0) = Some ReasonShutdown" by code_simp+
  ultimately show ?thesis using reasons_and_results_are_final by blast
qed

theorem cancelled_job_reports_its_reason_witness:
  "execute_job scheduler_options_new (job_cancel ReasonSuperseded (sc_heap flight1 ! 0)) (AtWork (Inr ())) =
     Some (Inl (cancel_reason_error ReasonSuperseded), job_cancel ReasonSuperseded (sc_heap flight1 ! 0))"
proof -
  have nr: "js_cancel_reason (sc_heap flight1 ! 0) = None" by code_simp
  then have r: "js_cancel_reason (job_cancel ReasonSuperseded (sc_heap flight1 ! 0)) = Some ReasonSuperseded"
    by (simp add: job_cancel_def)
  obtain result where e: "execute_job scheduler_options_new (job_cancel ReasonSuperseded (sc_heap flight1 ! 0))
      (AtWork (Inr ())) = Some (result, job_cancel ReasonSuperseded (sc_heap flight1 ! 0))"
    by (simp add: execute_job_def)
  with cancelled_job_reports_its_reason [OF e] r show ?thesis by simp
qed

theorem last_subscriber_cancels_witness:
  "attached 0 flight2 = 1 \<and> \<not> live (subscription_detach 0 flight2) 0"
proof -
  have "attached 0 flight2 = 1" "0 < length (sc_subscriptions flight2)"
    "\<not> sub_detached (sc_subscriptions flight2 ! 0)" "0 = sub_job (sc_subscriptions flight2 ! 0)"
    "\<not> js_complete (sc_heap flight2 ! 0)"
    by code_simp+
  from last_subscriber_cancels [OF flight2_reachable this(2-5)] this(1) show ?thesis by blast
qed

section \<open>Divergences\<close>

text \<open>
  Single flight can be lost. In the reachable state below two joinable jobs run the same key on the same
  root and the same source identity: while a superseded job of an older identity is still winding down,
  every further submission bumps the generation again, so a repeated request no longer finds the job that
  already runs its key.
\<close>

theorem single_flight_lost_while_superseded_job_drains:
  "\<exists>(s :: unit scheduler) i j. sched_reachable 7 scheduler_options_new s \<and> i \<noteq> j \<and> live s i \<and> live s j \<and>
     js_root (sc_heap s ! i) = js_root (sc_heap s ! j) \<and> js_key (sc_heap s ! i) = js_key (sc_heap s ! j) \<and>
     js_identity_key (sc_heap s ! i) = js_identity_key (sc_heap s ! j)"
proof -
  define s where "s = sample_submit ''check'' ''y'' (sample_submit ''test'' ''y''
    (sample_submit ''check'' ''y'' (sample_submit ''fmt'' ''x'' scheduler_new)))"
  have r: "sched_reachable 7 scheduler_options_new s"
    unfolding s_def by (intro submit_step new_reachable)
  have l: "live s 1" "live s 3" "js_root (sc_heap s ! 1) = js_root (sc_heap s ! 3)"
    "js_key (sc_heap s ! 1) = js_key (sc_heap s ! 3)"
    "js_identity_key (sc_heap s ! 1) = js_identity_key (sc_heap s ! 3)"
    unfolding s_def by code_simp+
  show ?thesis
    using r l by (intro exI [of _ s] exI [of _ 1] exI [of _ 3]) simp
qed

text \<open>
  A long progress message can panic. \<open>bounded_message\<close> is meant to cut a message of more than 512
  bytes back to a character boundary, but \<open>String::truncate\<close> runs first: it panics exactly when byte
  512 lies inside a character, and the loop after it never removes anything.
\<close>

theorem bounded_message_panics_inside_a_character:
  "(bounded_message s = None \<longleftrightarrow> 512 < length s \<and> \<not> is_char_boundary s 512) \<and>
   (\<forall>m. bounded_message s = Some m \<longrightarrow> m = take 512 s)"
proof -
  have "floor_char_boundary m (length m) = length m" for m
    by (metis floor_char_boundary_greatest floor_char_boundary_le is_char_boundary_length le_antisym le_refl)
  then show ?thesis
    by (auto simp: bounded_message_def string_truncate_def)
qed

theorem bounded_message_panics_inside_a_character_witness:
  "bounded_message (replicate 511 CHR ''x'' @ [CHR 0xC3, CHR 0xA9]) = None"
proof -
  have "\<not> is_char_boundary (replicate 511 CHR ''x'' @ [CHR 0xC3, CHR 0xA9]) 512"
    by (simp add: is_char_boundary_def nth_append is_cont_def)
  with bounded_message_panics_inside_a_character [of "replicate 511 CHR ''x'' @ [CHR 0xC3, CHR 0xA9]"]
  show ?thesis by simp
qed

end
