(* ===== verification/Utf8.thy ===== *)
theory Utf8
  imports Prelude
begin

text \<open>
  Well-formed UTF-8: the check of \<open>std::str::from_utf8\<close> and how it interacts with cutting and joining
  byte strings at character boundaries.
\<close>

text \<open>
  \<open>std::str::from_utf8\<close>: the rest after the first well-formed character, \<open>None\<close> when there is none.
\<close>

definition byte_in :: "nat \<Rightarrow> nat \<Rightarrow> char \<Rightarrow> bool" where
  "byte_in lo hi c \<longleftrightarrow> lo \<le> (of_char c :: nat) \<and> (of_char c :: nat) \<le> hi"

definition utf8_tail :: "(nat \<times> nat) list \<Rightarrow> string \<Rightarrow> bool" where
  "utf8_tail bounds s \<longleftrightarrow>
     length bounds \<le> length s \<and> list_all (\<lambda>((lo, hi), c). byte_in lo hi c) (zip bounds s)"

definition utf8_bounds :: "char \<Rightarrow> (nat \<times> nat) list option" where
  "utf8_bounds c =
     (if byte_in 0 127 c then Some []
      else if byte_in 194 223 c then Some [(128, 191)]
      else if byte_in 224 224 c then Some [(160, 191), (128, 191)]
      else if byte_in 225 236 c \<or> byte_in 238 239 c then Some [(128, 191), (128, 191)]
      else if byte_in 237 237 c then Some [(128, 159), (128, 191)]
      else if byte_in 240 240 c then Some [(144, 191), (128, 191), (128, 191)]
      else if byte_in 241 243 c then Some [(128, 191), (128, 191), (128, 191)]
      else if byte_in 244 244 c then Some [(128, 143), (128, 191), (128, 191)]
      else None)"

function from_utf8_ok :: "string \<Rightarrow> bool" where
  "from_utf8_ok [] = True"
| "from_utf8_ok (c # s) =
     (case utf8_bounds c of
        None \<Rightarrow> False
      | Some bounds \<Rightarrow> utf8_tail bounds s \<and> from_utf8_ok (drop (length bounds) s))"
  by pat_completeness auto
termination
  by (relation "measure length") auto

definition is_ascii :: "char \<Rightarrow> bool" where
  "is_ascii c \<longleftrightarrow> (of_char c :: nat) < 128"

lemma utf8_bounds_high: "utf8_bounds c = Some bounds \<Longrightarrow> r \<in> set bounds \<Longrightarrow> 128 \<le> fst r"
  by (auto simp: utf8_bounds_def split: if_splits)

lemma utf8_bounds_ascii: "is_ascii c \<Longrightarrow> utf8_bounds c = Some bounds \<Longrightarrow> bounds = []"
  by (auto simp: utf8_bounds_def byte_in_def is_ascii_def split: if_splits)

lemma utf8_bounds_lead: "is_cont c \<Longrightarrow> utf8_bounds c = None"
  by (auto simp: utf8_bounds_def byte_in_def is_cont_def)

lemma utf8_tail_high:
  assumes "utf8_tail bounds s" and "utf8_bounds c = Some bounds" and "k < length bounds"
  shows "\<not> is_ascii (s ! k)"
proof -
  from assms have "byte_in (fst (bounds ! k)) (snd (bounds ! k)) (s ! k)"
    by (auto simp: utf8_tail_def list_all_length split: prod.splits)
  with utf8_bounds_high [OF assms(2) nth_mem [OF assms(3)]] show ?thesis
    by (simp add: byte_in_def is_ascii_def)
qed

lemma utf8_after_ascii:
  "from_utf8_ok s \<Longrightarrow> Suc i < length s \<Longrightarrow> is_ascii (s ! i) \<Longrightarrow> \<not> is_cont (s ! Suc i)"
proof (induction s arbitrary: i rule: from_utf8_ok.induct)
  case (2 c s)
  from "2.prems"(1) obtain bounds where b: "utf8_bounds c = Some bounds" "utf8_tail bounds s"
    "from_utf8_ok (drop (length bounds) s)" by (auto split: option.splits)
  show ?case
  proof (cases i)
    case 0
    with "2.prems"(3) b(1) have "bounds = []" by (simp add: utf8_bounds_ascii)
    with b(3) "2.prems"(2) 0 show ?thesis
      by (cases s) (auto split: option.splits dest: utf8_bounds_lead)
  next
    case (Suc k)
    with "2.prems"(3) utf8_tail_high [OF b(2,1), of k] have "length bounds \<le> k" by fastforce
    with "2.IH" [OF b(1,3), of "k - length bounds"] "2.prems"(2,3) Suc show ?thesis
      by (simp add: Suc_diff_le)
  qed
qed simp

lemma utf8_bounds_cont:
  assumes "utf8_bounds c = Some bounds" and "utf8_tail bounds s" and "k < length bounds"
  shows "is_cont (s ! k)"
proof -
  from assms(2,3) have "byte_in (fst (bounds ! k)) (snd (bounds ! k)) (s ! k)"
    by (auto simp: utf8_tail_def list_all_length split: prod.splits)
  moreover have "128 \<le> fst r \<and> snd r \<le> 191" if "r \<in> set bounds" for r
    using assms(1) that by (auto simp: utf8_bounds_def split: if_splits)
  ultimately show ?thesis using nth_mem [OF assms(3)] by (fastforce simp: byte_in_def is_cont_def)
qed

lemma utf8_split:
  "from_utf8_ok s \<Longrightarrow> is_char_boundary s i \<Longrightarrow> from_utf8_ok (take i s) \<and> from_utf8_ok (drop i s)"
proof (induction s arbitrary: i rule: from_utf8_ok.induct)
  case (2 c s)
  from "2.prems"(1) obtain bounds where b: "utf8_bounds c = Some bounds" "utf8_tail bounds s"
    "from_utf8_ok (drop (length bounds) s)" by (auto split: option.splits)
  then have n: "length bounds \<le> length s" by (simp add: utf8_tail_def)
  show ?case
  proof (cases i)
    case 0
    with "2.prems"(1) show ?thesis by simp
  next
    case (Suc k)
    have k: "length bounds \<le> k"
      using "2.prems"(2) Suc utf8_bounds_cont [OF b(1,2), of k] n
      by (force simp: is_char_boundary_def not_less [symmetric])
    then have "is_char_boundary (drop (length bounds) s) (k - length bounds)"
      using "2.prems"(2) Suc n by (auto simp: is_char_boundary_def)
    from "2.IH" [OF b(1,3) this] have "from_utf8_ok (drop (length bounds) (take k s))" "from_utf8_ok (drop k s)"
      using k by (simp_all add: drop_take)
    moreover have "zip bounds (take k s) = zip bounds s" using k n by (intro nth_equalityI) auto
    then have "utf8_tail bounds (take k s)" using b(2) k n by (simp add: utf8_tail_def)
    ultimately show ?thesis using b(1) Suc by simp
  qed
qed simp

lemma utf8_append: "from_utf8_ok s \<Longrightarrow> from_utf8_ok t \<Longrightarrow> from_utf8_ok (s @ t)"
proof (induction s rule: from_utf8_ok.induct)
  case (2 c s)
  then show ?case by (auto simp: utf8_tail_def list_all_length nth_append split: option.splits)
qed simp

lemma utf8_slice:
  assumes "from_utf8_ok s" and "is_char_boundary s i" and "is_char_boundary s j" and "i \<le> j"
  shows "from_utf8_ok (drop i (take j s))"
proof -
  have "is_char_boundary (take j s) i" using assms(2,4) by (auto simp: is_char_boundary_def)
  with utf8_split [OF assms(1,3)] utf8_split [of "take j s" i] show ?thesis by blast
qed

end
