(* ===== verification/Change_Patch.thy ===== *)
theory Change_Patch
  imports Btree_Map Change_Model Utf8
begin

text \<open>
  Planning and applying a candidate (\<open>change/patch.rs\<close>). A path inside the candidate is the list of
  its names. The candidate tree is an ordered map from paths to nodes and the system calls the code
  makes are functions on it; what lies behind a symbolic link, and which calls fail for another reason
  (permissions, a full disk), are arbitrary inputs. Texts and file contents are bytes. A Rust buffer
  holds at most \<open>isize::MAX\<close> bytes, and growing one beyond that panics.
\<close>

section \<open>The file system\<close>

datatype node = FileNode string | DirNode | LinkNode | OtherNode

datatype io_error = NotFound | NotADirectory | IoFault

record candidate_fs =
  cf_tree :: "(rel_path, node) btree_map"
  cf_behind_link :: "rel_path \<Rightarrow> io_error + node"
  cf_stat_fault :: "rel_path \<Rightarrow> bool"
  cf_read_fault :: "rel_path \<Rightarrow> bool"

text \<open>The proper ancestors of a path below the candidate root, outermost first.\<close>

definition ancestors :: "rel_path \<Rightarrow> rel_path list" where
  "ancestors p = map (\<lambda>k. take k p) [1..<length p]"

text \<open>
  \<open>fs::symlink_metadata\<close>: every ancestor is resolved, the last name is not followed.
\<close>

definition symlink_metadata :: "candidate_fs \<Rightarrow> rel_path \<Rightarrow> io_error + node" where
  "symlink_metadata fs p =
     (if cf_stat_fault fs p then Inl IoFault
      else case List.find (\<lambda>q. bt_get (cf_tree fs) q \<noteq> Some DirNode) (ancestors p) of
        None \<Rightarrow> (case bt_get (cf_tree fs) p of None \<Rightarrow> Inl NotFound | Some n \<Rightarrow> Inr n)
      | Some q \<Rightarrow>
          (case bt_get (cf_tree fs) q of
             None \<Rightarrow> Inl NotFound
           | Some LinkNode \<Rightarrow> cf_behind_link fs p
           | Some _ \<Rightarrow> Inl NotADirectory))"

definition isize_max :: nat where "isize_max = 9223372036854775807"

section \<open>Data\<close>

record candidate_limits =
  cl_current_files :: nat
  cl_current_bytes :: nat
  cl_max_files :: nat
  cl_max_bytes :: nat

record planned_file =
  pf_relative :: rel_path
  pf_contents :: string
  pf_existed :: bool
  pf_previous_bytes :: nat

record planned_new_file =
  pn_relative :: rel_path
  pn_content :: string

record patch_plan =
  pp_files :: "planned_file list"
  pp_patches :: "patch_input list"
  pp_new_files :: "planned_new_file list"

text \<open>The \<open>Err\<close> texts, one constructor each; \<open>CapacityOverflow\<close> is the panic of a buffer that outgrows its limit.\<close>

datatype patch_error =
    FileEmpty
  | FileAbsolute string
  | FileExcluded string
  | FileEscapes string
  | FileNamesNothing string
  | OldStringEmpty string
  | CandidateNotUtf8 string
  | OldStringMissing string
  | OldStringRepeated string
  | OverlappingEdits string
  | CapacityOverflow
  | NewFileDuplicate string
  | NewFileSymlink string
  | NewFileExists string
  | FileLimitExceeded nat
  | ByteLimitExceeded nat
  | ByteAccounting
  | CandidateUnavailable rel_path
  | CandidateSymlink rel_path
  | CandidateNotRegular rel_path
  | CandidateUnreadable rel_path
  | SymlinkedDirectory rel_path
  | ComponentNotDirectory rel_path
  | CannotInspect rel_path
  | CannotCreateDirectory rel_path
  | CannotApply rel_path

section \<open>Paths and reads\<close>

fun push_names :: "string \<Rightarrow> component list \<Rightarrow> patch_error + rel_path" where
  "push_names file [] = Inr []"
| "push_names file (Normal name # cs) =
     (if name = ''.git'' \<or> name = ''target'' then Inl (FileExcluded file)
      else case push_names file cs of Inl e \<Rightarrow> Inl e | Inr names \<Rightarrow> Inr (name # names))"
| "push_names file (CurDir # cs) = push_names file cs"
| "push_names file (ParentDir # cs) = Inl (FileEscapes file)"
| "push_names file (RootDir # cs) = Inl (FileEscapes file)"

definition candidate_relative :: "string \<Rightarrow> patch_error + rel_path" where
  "candidate_relative file =
     (let trimmed = trim file in
      if trimmed = [] then Inl FileEmpty
      else if is_absolute trimmed then Inl (FileAbsolute file)
      else case push_names file (components trimmed) of
        Inl e \<Rightarrow> Inl e
      | Inr names \<Rightarrow> if names = [] then Inl (FileNamesNothing file) else Inr names)"

fun reject_from :: "candidate_fs \<Rightarrow> rel_path \<Rightarrow> rel_path list \<Rightarrow> patch_error option" where
  "reject_from fs p [] = None"
| "reject_from fs p (q # qs) =
     (case symlink_metadata fs q of
        Inr LinkNode \<Rightarrow> Some (SymlinkedDirectory p)
      | Inr DirNode \<Rightarrow> reject_from fs p qs
      | Inr _ \<Rightarrow> Some (ComponentNotDirectory p)
      | Inl NotFound \<Rightarrow> None
      | Inl _ \<Rightarrow> Some (CannotInspect p))"

definition reject_symlinked_ancestors :: "candidate_fs \<Rightarrow> rel_path \<Rightarrow> patch_error option" where
  "reject_symlinked_ancestors fs p = reject_from fs p (ancestors p)"

definition read_candidate_file :: "candidate_fs \<Rightarrow> rel_path \<Rightarrow> patch_error + string" where
  "read_candidate_file fs p =
     (case reject_symlinked_ancestors fs p of
        Some e \<Rightarrow> Inl e
      | None \<Rightarrow>
          (case symlink_metadata fs p of
             Inl _ \<Rightarrow> Inl (CandidateUnavailable p)
           | Inr LinkNode \<Rightarrow> Inl (CandidateSymlink p)
           | Inr (FileNode contents) \<Rightarrow>
               if cf_read_fault fs p then Inl (CandidateUnreadable p)
               else if isize_max < length contents then Inl CapacityOverflow
               else Inr contents
           | Inr _ \<Rightarrow> Inl (CandidateNotRegular p)))"

section \<open>Patches\<close>

definition isize_of :: "nat \<Rightarrow> int" where
  "isize_of n = int (min isize_max n)"

definition shift :: "nat \<Rightarrow> int \<Rightarrow> nat" where
  "shift offset delta =
     (if 0 \<le> delta then sat_add offset (nat delta) else offset - nat (- delta))"

definition overlaps :: "nat \<Rightarrow> nat \<Rightarrow> (nat \<times> nat) list \<Rightarrow> bool" where
  "overlaps start stop rs \<longleftrightarrow> list_ex (\<lambda>(es, ee). es < stop \<and> start < ee) rs"

definition shift_after :: "nat \<Rightarrow> int \<Rightarrow> (nat \<times> nat) list \<Rightarrow> (nat \<times> nat) list" where
  "shift_after stop delta rs =
     map (\<lambda>(es, ee). if stop \<le> es then (shift es delta, shift ee delta) else (es, ee)) rs"

text \<open>One replacement in one file: the text and the ranges already edited, before and after.\<close>

definition patch_text ::
  "string \<Rightarrow> string \<Rightarrow> string \<Rightarrow> string \<Rightarrow> (nat \<times> nat) list \<Rightarrow> patch_error + string \<times> (nat \<times> nat) list" where
  "patch_text file old new text rs =
     (case str_find text old of
        None \<Rightarrow> Inl (OldStringMissing file)
      | Some start \<Rightarrow>
          if str_rfind text old \<noteq> Some start then Inl (OldStringRepeated file)
          else
            let stop = sat_add start (length old) in
            if overlaps start stop rs then Inl (OverlappingEdits file)
            else
              let updated = take start text @ new @ drop stop text in
              if isize_max < length updated then Inl CapacityOverflow
              else Inr (updated,
                shift_after stop (isize_of (length new) - isize_of (length old)) rs @
                [(start, sat_add start (length new))]))"

record plan_state =
  ps_planned :: "(rel_path, string) btree_map"
  ps_original :: "(rel_path, string) btree_map"
  ps_order :: "rel_path list"
  ps_ranges :: "(rel_path, (nat \<times> nat) list) btree_map"
  ps_patches :: "patch_input list"

definition plan_state_new :: plan_state where
  "plan_state_new =
     \<lparr>ps_planned = [], ps_original = [], ps_order = [], ps_ranges = [], ps_patches = []\<rparr>"

definition current_contents ::
  "candidate_fs \<Rightarrow> rel_path \<Rightarrow> plan_state \<Rightarrow> patch_error + string \<times> plan_state" where
  "current_contents fs relative ps =
     (case bt_get (ps_planned ps) relative of
        Some contents \<Rightarrow> Inr (contents, ps)
      | None \<Rightarrow>
          (case read_candidate_file fs relative of
             Inl e \<Rightarrow> Inl e
           | Inr contents \<Rightarrow>
               Inr (contents, ps\<lparr>ps_original := bt_insert relative contents (ps_original ps),
                                ps_order := ps_order ps @ [relative]\<rparr>)))"

definition plan_patch :: "candidate_fs \<Rightarrow> patch_input \<Rightarrow> plan_state \<Rightarrow> patch_error + plan_state" where
  "plan_patch fs patch ps =
     (case candidate_relative (pi_file patch) of
        Inl e \<Rightarrow> Inl e
      | Inr relative \<Rightarrow>
          if pi_old_string patch = [] then Inl (OldStringEmpty (pi_file patch))
          else case current_contents fs relative ps of
            Inl e \<Rightarrow> Inl e
          | Inr (text, ps) \<Rightarrow>
              if \<not> from_utf8_ok text then Inl (CandidateNotUtf8 (pi_file patch))
              else case patch_text (pi_file patch) (pi_old_string patch) (pi_new_string patch) text
                     (case bt_get (ps_ranges ps) relative of None \<Rightarrow> [] | Some rs \<Rightarrow> rs) of
                Inl e \<Rightarrow> Inl e
              | Inr (updated, rs) \<Rightarrow>
                  Inr (ps\<lparr>ps_planned := bt_insert relative updated (ps_planned ps),
                          ps_ranges := bt_insert relative rs (ps_ranges ps),
                          ps_patches := ps_patches ps @ [patch]\<rparr>))"

fun plan_patch_list ::
  "candidate_fs \<Rightarrow> patch_input list \<Rightarrow> plan_state \<Rightarrow> patch_error + plan_state" where
  "plan_patch_list fs [] ps = Inr ps"
| "plan_patch_list fs (patch # patches) ps =
     (case plan_patch fs patch ps of
        Inl e \<Rightarrow> Inl e
      | Inr ps \<Rightarrow> plan_patch_list fs patches ps)"

section \<open>New files, limits and the plan\<close>

fun plan_new_files ::
  "candidate_fs \<Rightarrow> (rel_path, string) btree_map \<Rightarrow> rel_path set \<Rightarrow> new_file_input list \<Rightarrow>
   patch_error + planned_new_file list" where
  "plan_new_files fs planned seen [] = Inr []"
| "plan_new_files fs planned seen (f # rest) =
     (case candidate_relative (nf_file f) of
        Inl e \<Rightarrow> Inl e
      | Inr relative \<Rightarrow>
          if relative \<in> seen \<or> bt_contains planned relative then Inl (NewFileDuplicate (nf_file f))
          else case symlink_metadata fs relative of
            Inr LinkNode \<Rightarrow> Inl (NewFileSymlink (nf_file f))
          | Inr _ \<Rightarrow> Inl (NewFileExists (nf_file f))
          | Inl _ \<Rightarrow>
              (case reject_symlinked_ancestors fs relative of
                 Some e \<Rightarrow> Inl e
               | None \<Rightarrow>
                   (case plan_new_files fs planned (insert relative seen) rest of
                      Inl e \<Rightarrow> Inl e
                    | Inr planned_files \<Rightarrow>
                        Inr (\<lparr>pn_relative = relative, pn_content = nf_content f\<rparr> # planned_files))))"

definition previous_length :: "(rel_path, string) btree_map \<Rightarrow> rel_path \<Rightarrow> nat" where
  "previous_length original relative =
     (case bt_get original relative of None \<Rightarrow> 0 | Some bytes \<Rightarrow> length bytes)"

definition byte_delta ::
  "(rel_path, string) btree_map \<Rightarrow> (rel_path, string) btree_map \<Rightarrow> planned_new_file list \<Rightarrow> int" where
  "byte_delta planned original new_planned =
     sum_list (map (\<lambda>(relative, contents). int (length contents) - int (previous_length original relative)) planned) +
     sum_list (map (\<lambda>f. int (length (pn_content f))) new_planned)"

definition limit_error :: "candidate_limits \<Rightarrow> nat \<Rightarrow> int \<Rightarrow> patch_error option" where
  "limit_error limits added_files delta =
     (let projected = int (cl_current_bytes limits) + delta in
      if cl_max_files limits < sat_add (cl_current_files limits) added_files
      then Some (FileLimitExceeded (cl_max_files limits))
      else if int (cl_max_bytes limits) < projected then Some (ByteLimitExceeded (cl_max_bytes limits))
      else if projected < 0 then Some ByteAccounting else None)"

fun patched_files ::
  "(rel_path, string) btree_map \<Rightarrow> rel_path list \<Rightarrow> (rel_path, string) btree_map \<Rightarrow> planned_file list" where
  "patched_files original [] planned = []"
| "patched_files original (relative # order) planned =
     (case bt_get planned relative of
        None \<Rightarrow> patched_files original order planned
      | Some contents \<Rightarrow>
          \<lparr>pf_relative = relative, pf_contents = contents, pf_existed = True,
           pf_previous_bytes = previous_length original relative\<rparr> #
          patched_files original order (bt_remove relative planned))"

definition created_file :: "planned_new_file \<Rightarrow> planned_file" where
  "created_file f =
     \<lparr>pf_relative = pn_relative f, pf_contents = pn_content f, pf_existed = False,
      pf_previous_bytes = 0\<rparr>"

definition plan_patches ::
  "candidate_fs \<Rightarrow> patch_input list \<Rightarrow> new_file_input list \<Rightarrow> candidate_limits \<Rightarrow>
   patch_error + patch_plan" where
  "plan_patches fs patches new_files limits =
     (case plan_patch_list fs patches plan_state_new of
        Inl e \<Rightarrow> Inl e
      | Inr ps \<Rightarrow>
          (case plan_new_files fs (ps_planned ps) {} new_files of
             Inl e \<Rightarrow> Inl e
           | Inr new_planned \<Rightarrow>
               (case limit_error limits (length new_planned)
                       (byte_delta (ps_planned ps) (ps_original ps) new_planned) of
                  Some e \<Rightarrow> Inl e
                | None \<Rightarrow>
                    Inr \<lparr>pp_files = patched_files (ps_original ps) (ps_order ps) (ps_planned ps) @
                           map created_file new_planned,
                         pp_patches = ps_patches ps, pp_new_files = new_planned\<rparr>)))"

section \<open>Applying a plan\<close>

text \<open>
  The failures the host may inject while one file is written: directory creation stops after some
  directories, the temporary file cannot be opened, the write or the flush fails and leaves some bytes,
  the rename fails, the removal of the temporary file fails.
\<close>

record write_faults =
  wf_create_dirs :: "nat option"
  wf_open :: bool
  wf_write :: "string option"
  wf_rename :: bool
  wf_remove :: bool

fun create_dirs :: "rel_path list \<Rightarrow> (rel_path, node) btree_map \<Rightarrow> bool \<times> (rel_path, node) btree_map" where
  "create_dirs [] t = (True, t)"
| "create_dirs (q # qs) t =
     (case bt_get t q of
        None \<Rightarrow> create_dirs qs (bt_insert q DirNode t)
      | Some DirNode \<Rightarrow> create_dirs qs t
      | Some _ \<Rightarrow> (False, t))"

definition create_dir_all ::
  "write_faults \<Rightarrow> rel_path \<Rightarrow> (rel_path, node) btree_map \<Rightarrow> bool \<times> (rel_path, node) btree_map" where
  "create_dir_all faults p t =
     (case wf_create_dirs faults of
        None \<Rightarrow> create_dirs (ancestors p) t
      | Some k \<Rightarrow> (False, snd (create_dirs (take k (ancestors p)) t)))"

definition remove_file ::
  "write_faults \<Rightarrow> rel_path \<Rightarrow> (rel_path, node) btree_map \<Rightarrow> (rel_path, node) btree_map" where
  "remove_file faults p t =
     (if wf_remove faults \<or> bt_get t p = Some DirNode then t else bt_remove p t)"

definition temp_path :: "nat \<Rightarrow> nat \<Rightarrow> rel_path \<Rightarrow> rel_path" where
  "temp_path pid seq p =
     butlast p @ [''.'' @ last p @ ''.agz-change.'' @ dec pid @ ''.'' @ dec seq @ ''.tmp'']"

text \<open>The closure \<open>write_result\<close>: whether it succeeded, and the tree it leaves.\<close>

definition write_through_temp ::
  "write_faults \<Rightarrow> candidate_fs \<Rightarrow> rel_path \<Rightarrow> planned_file \<Rightarrow> (rel_path, node) btree_map \<Rightarrow>
   bool \<times> (rel_path, node) btree_map" where
  "write_through_temp faults fs temp f t =
     (let target = pf_relative f in
      if wf_open faults \<or> bt_get t temp \<noteq> None then (False, t)
      else case wf_write faults of
        Some bytes \<Rightarrow> (False, bt_insert temp (FileNode bytes) t)
      | None \<Rightarrow>
          let t = bt_insert temp (FileNode (pf_contents f)) t in
          if symlink_metadata (fs\<lparr>cf_tree := t\<rparr>) target = Inr LinkNode then (False, t)
          else if wf_rename faults \<or> bt_get t target = Some DirNode then (False, t)
          else (True, bt_insert target (FileNode (pf_contents f)) (bt_remove temp t)))"

definition apply_file ::
  "(rel_path \<Rightarrow> write_faults) \<Rightarrow> nat \<Rightarrow> candidate_fs \<Rightarrow> planned_file \<Rightarrow> nat \<Rightarrow>
   patch_error option \<times> candidate_fs \<times> nat" where
  "apply_file faults pid fs f seq =
     (let target = pf_relative f; fl = faults target in
      case reject_symlinked_ancestors fs target of
        Some e \<Rightarrow> (Some e, fs, seq)
      | None \<Rightarrow>
          let (created, t) = create_dir_all fl target (cf_tree fs); fs = fs\<lparr>cf_tree := t\<rparr> in
          if \<not> created then (Some (CannotCreateDirectory target), fs, seq)
          else case reject_symlinked_ancestors fs target of
            Some e \<Rightarrow> (Some e, fs, seq)
          | None \<Rightarrow>
              let temp = temp_path pid seq target;
                  (written, t) = write_through_temp fl fs temp f t
              in if written then (None, fs\<lparr>cf_tree := t\<rparr>, Suc seq mod 2 ^ 64)
                 else (Some (CannotApply target), fs\<lparr>cf_tree := remove_file fl temp t\<rparr>,
                       Suc seq mod 2 ^ 64))"

fun apply_files ::
  "(rel_path \<Rightarrow> write_faults) \<Rightarrow> nat \<Rightarrow> candidate_fs \<Rightarrow> planned_file list \<Rightarrow> nat \<Rightarrow>
   patch_error option \<times> candidate_fs \<times> nat" where
  "apply_files faults pid fs [] seq = (None, fs, seq)"
| "apply_files faults pid fs (f # files) seq =
     (case apply_file faults pid fs f seq of
        (Some e, fs, seq) \<Rightarrow> (Some e, fs, seq)
      | (None, fs, seq) \<Rightarrow> apply_files faults pid fs files seq)"

definition apply_plan ::
  "(rel_path \<Rightarrow> write_faults) \<Rightarrow> nat \<Rightarrow> candidate_fs \<Rightarrow> patch_plan \<Rightarrow> nat \<Rightarrow>
   patch_error option \<times> candidate_fs \<times> nat" where
  "apply_plan faults pid fs plan seq = apply_files faults pid fs (pp_files plan) seq"

end
