(* ===== verification/Patch_Edits.thy ===== *)
theory Patch_Edits
  imports Change_Patch "HOL-Library.Multiset"
begin

text \<open>
  What a sequence of patches to one file means. The abstract edit is simultaneous: the original text is
  cut into gaps and replaced pieces, \<open>g\<^sub>1 o\<^sub>1 g\<^sub>2 o\<^sub>2 \<dots> tail\<close>, and the result is
  \<open>g\<^sub>1 n\<^sub>1 g\<^sub>2 n\<^sub>2 \<dots> tail\<close>. The lemmas show that the planner's loop of single replacements,
  with its overlap check and shifted ranges, computes such an edit.
\<close>

type_synonym edit = "string \<times> string \<times> string"

definition old_text :: "edit list \<Rightarrow> string \<Rightarrow> string" where
  "old_text es tail = concat (map (\<lambda>(g, old, new). g @ old) es) @ tail"

definition new_text :: "edit list \<Rightarrow> string \<Rightarrow> string" where
  "new_text es tail = concat (map (\<lambda>(g, old, new). g @ new) es) @ tail"

fun edit_ranges :: "nat \<Rightarrow> edit list \<Rightarrow> (nat \<times> nat) list" where
  "edit_ranges k [] = []"
| "edit_ranges k ((g, old, new) # es) =
     (k + length g, k + length g + length new) # edit_ranges (k + length g + length new) es"

definition moved :: "nat \<Rightarrow> nat \<Rightarrow> nat \<Rightarrow> nat \<times> nat \<Rightarrow> nat \<times> nat" where
  "moved stop new_len old_len r =
     (if stop \<le> fst r then (fst r + new_len - old_len, snd r + new_len - old_len) else r)"

lemma text_simps [simp]:
  "old_text [] tail = tail" "new_text [] tail = tail"
  "old_text ((g, old, new) # es) tail = g @ old @ old_text es tail"
  "new_text ((g, old, new) # es) tail = g @ new @ new_text es tail"
  by (simp_all add: old_text_def new_text_def)

lemma edit_ranges_bounds:
  "(s, e) \<in> set (edit_ranges k es) \<Longrightarrow> k \<le> s \<and> s \<le> e \<and> e \<le> k + length (new_text es tail)"
proof (induction k es rule: edit_ranges.induct)
  case (2 k g old new es)
  then show ?case by (auto dest!: "2.IH")
qed simp

lemma edit_ranges_shift:
  "set (edit_ranges (k + d) es) = (\<lambda>(s, e). (s + d, e + d)) ` set (edit_ranges k es)"
proof (induction k es rule: edit_ranges.induct)
  case (2 k g old new es)
  have "k + d + length g + length new = k + length g + length new + d" by simp
  then have "set (edit_ranges (k + d + length g + length new) es) =
      (\<lambda>(s, e). (s + d, e + d)) ` set (edit_ranges (k + length g + length new) es)"
    using "2.IH" by metis
  then show ?case by (simp add: add_ac)
qed simp

text \<open>A replacement that overlaps no earlier one falls into a gap and extends the edit.\<close>

lemma edit_insert:
  assumes "old \<noteq> []" and "new_text es tail = a @ old @ b"
    and "\<forall>(s, e) \<in> set (edit_ranges k es). \<not> (s < k + length a + length old \<and> k + length a < e)"
  shows "\<exists>es' tail'. old_text es' tail' = old_text es tail \<and> new_text es' tail' = a @ new @ b \<and>
    mset (map snd es') = add_mset (old, new) (mset (map snd es)) \<and>
    set (edit_ranges k es') =
      insert (k + length a, k + length a + length new)
        (moved (k + length a + length old) (length new) (length old) ` set (edit_ranges k es))"
  using assms(2,3)
proof (induction es arbitrary: k a)
  case Nil
  then show ?case by (intro exI [of _ "[(a, old, new)]"] exI [of _ b]) simp
next
  case (Cons ed es)
  obtain g o' n where ed: "ed = (g, o', n)" by (cases ed)
  from Cons.prems(2) ed consider "length a + length old \<le> length g" | "length g + length n \<le> length a"
    by fastforce
  then show ?case
  proof cases
    case 1
    let ?k = "k + length a + length new"
    obtain g2 where g: "g = a @ old @ g2" and b: "b = g2 @ n @ new_text es tail"
    proof -
      from Cons.prems(1) ed have eq: "g @ n @ new_text es tail = (a @ old) @ b" by simp
      with 1 obtain us where "g = (a @ old) @ us" "us @ n @ new_text es tail = b"
        by (auto simp: append_eq_append_conv2)
      then show ?thesis using that by auto
    qed
    have all: "moved (k + length a + length old) (length new) (length old) r =
        (fst r + length new - length old, snd r + length new - length old)"
      if "r \<in> set (edit_ranges k (ed # es))" for r
      using that edit_ranges_bounds [of "fst r" "snd r" "k + length g + length n" es tail]
      by (auto simp: ed moved_def g)
    have sh: "set (edit_ranges (?k + length g2 + length n) es) =
        (\<lambda>r. (fst r + length new - length old, snd r + length new - length old)) `
          set (edit_ranges (k + length g + length n) es)"
    proof -
      have "set (edit_ranges (k + length g + length n + length new) es) =
          (\<lambda>(s, e). (s + length new, e + length new)) ` set (edit_ranges (k + length g + length n) es)"
        by (rule edit_ranges_shift)
      moreover have "set (edit_ranges (?k + length g2 + length n + length old) es) =
          (\<lambda>(s, e). (s + length old, e + length old)) ` set (edit_ranges (?k + length g2 + length n) es)"
        by (rule edit_ranges_shift)
      moreover have "k + length g + length n + length new = ?k + length g2 + length n + length old"
        by (simp add: g)
      ultimately have "(\<lambda>(s, e). (s + length new, e + length new)) ` set (edit_ranges (k + length g + length n) es) =
          (\<lambda>(s, e). (s + length old, e + length old)) ` set (edit_ranges (?k + length g2 + length n) es)"
        by metis
      then have "(\<lambda>r. (fst r - length old, snd r - length old)) `
            (\<lambda>(s, e). (s + length new, e + length new)) ` set (edit_ranges (k + length g + length n) es) =
          (\<lambda>r. (fst r - length old, snd r - length old)) `
            (\<lambda>(s, e). (s + length old, e + length old)) ` set (edit_ranges (?k + length g2 + length n) es)"
        by simp
      then show ?thesis by (simp add: image_image case_prod_beta)
    qed
    have "moved (k + length a + length old) (length new) (length old) ` set (edit_ranges k (ed # es)) =
        (\<lambda>r. (fst r + length new - length old, snd r + length new - length old)) ` set (edit_ranges k (ed # es))"
      using all by (rule image_cong [OF refl])
    also have "\<dots> = set (edit_ranges ?k ((g2, o', n) # es))"
      using sh by (simp add: ed g, simp add: add_ac)
    finally show ?thesis
      by (intro exI [of _ "(a, old, new) # (g2, o', n) # es"] exI [of _ tail])
        (simp add: ed g b)
  next
    case 2
    obtain a' where a: "a = g @ n @ a'" and rest: "new_text es tail = a' @ old @ b"
    proof -
      from Cons.prems(1) ed have "(g @ n) @ new_text es tail = a @ old @ b" by simp
      with 2 obtain us where "a = (g @ n) @ us" "new_text es tail = us @ old @ b"
        by (auto simp: append_eq_append_conv2)
      then show ?thesis using that by auto
    qed
    have k: "k + length a = k + length g + length n + length a'" by (simp add: a)
    have "\<forall>(s, e) \<in> set (edit_ranges (k + length g + length n) es).
        \<not> (s < k + length g + length n + length a' + length old \<and> k + length g + length n + length a' < e)"
      using Cons.prems(2) by (simp add: ed a add_ac)
    from Cons.IH [OF rest this] obtain es' tail' where
      "old_text es' tail' = old_text es tail" "new_text es' tail' = a' @ new @ b"
      "mset (map snd es') = add_mset (old, new) (mset (map snd es))"
      "set (edit_ranges (k + length g + length n) es') =
        insert (k + length a, k + length a + length new)
        (moved (k + length a + length old) (length new) (length old) ` set (edit_ranges (k + length g + length n) es))"
      unfolding k by blast
    moreover have "moved (k + length a + length old) (length new) (length old) (k + length g, k + length g + length n) =
        (k + length g, k + length g + length n)"
      using assms(1) by (simp add: moved_def a)
    ultimately show ?thesis
      by (intro exI [of _ "(g, o', n) # es'"] exI [of _ tail'])
        (auto simp: ed a)
  qed
qed

section \<open>One replacement\<close>

definition realizes ::
  "string \<Rightarrow> string \<Rightarrow> (nat \<times> nat) list \<Rightarrow> (string \<times> string) multiset \<Rightarrow> bool" where
  "realizes original current rs edits \<longleftrightarrow>
     length current \<le> isize_max \<and>
     (\<exists>es tail. original = old_text es tail \<and> current = new_text es tail \<and>
        mset (map snd es) = edits \<and> set rs = set (edit_ranges 0 es))"

lemma realizes_unedited: "length text \<le> isize_max \<Longrightarrow> realizes text text [] {#}"
  unfolding realizes_def by (intro conjI exI [of _ "[]"] exI [of _ "text"]) simp_all

lemma sat_add_small: "a + b \<le> isize_max \<Longrightarrow> sat_add a b = a + b"
  by (simp add: sat_add_def isize_max_def u64_max_def)

text \<open>Inside a buffer the signed and saturating arithmetic of \<open>shift\<close> is exact.\<close>

lemma shift_exact:
  assumes "old_len \<le> isize_max" and "new_len \<le> isize_max" and "old_len \<le> pos"
    and "pos + new_len - old_len \<le> isize_max"
  shows "shift pos (isize_of new_len - isize_of old_len) = pos + new_len - old_len"
  using assms sat_add_small [of pos "new_len - old_len"]
  by (auto simp: shift_def isize_of_def min_def nat_diff_distrib)

lemma patch_text_cut:
  assumes "patch_text file old new text rs = Inr (updated, rs')" and "length text \<le> isize_max"
  obtains a b where "text = a @ old @ b" and "updated = a @ new @ b"
    and "\<forall>j. occurs_at text old j \<longleftrightarrow> j = length a"
    and "\<not> overlaps (length a) (length a + length old) rs" and "length updated \<le> isize_max"
    and "rs' = shift_after (length a + length old) (isize_of (length new) - isize_of (length old)) rs @
      [(length a, length a + length new)]"
proof -
  from assms(1) obtain start where f: "str_find text old = Some start" "str_rfind text old = Some start"
    by (auto simp: patch_text_def Let_def split: option.splits if_splits)
  have occ: "occurs_at text old start" using str_find_occurs [OF f(1)] .
  have bound: "start + length old \<le> length text" using occurs_at_bound [OF occ] .
  then have stop: "sat_add start (length old) = start + length old"
    using assms(2) by (intro sat_add_small) simp
  have upd: "updated = take start text @ new @ drop (start + length old) text"
      "length updated \<le> isize_max" "\<not> overlaps start (start + length old) rs"
    and rs': "rs' = shift_after (start + length old) (isize_of (length new) - isize_of (length old)) rs @
      [(start, sat_add start (length new))]"
    using assms(1) by (auto simp: patch_text_def Let_def f stop not_less split: if_splits)
  have len: "length (take start text) = start" using bound by simp
  have "start + length new \<le> isize_max" using upd(1,2) bound by simp
  from sat_add_small [OF this] rs' have
    "rs' = shift_after (start + length old) (isize_of (length new) - isize_of (length old)) rs @
      [(start, start + length new)]" by simp
  moreover have "text = take start text @ old @ drop (start + length old) text"
    using occurs_at_take [OF occ] append_take_drop_id [of "length old" "drop start text"]
    by (metis append_take_drop_id drop_drop add.commute)
  ultimately show ?thesis
    using that [of "take start text" "drop (start + length old) text"] upd len find_rfind_unique [OF f] by simp
qed

lemma shift_after_moved:
  assumes "\<forall>(s, e) \<in> set rs. s \<le> e \<and> e \<le> length text" and "text = a @ old @ b"
    and "length text \<le> isize_max" and "length (a @ new @ b) \<le> isize_max"
  shows "set (shift_after (length a + length old) (isize_of (length new) - isize_of (length old)) rs) =
    moved (length a + length old) (length new) (length old) ` set rs"
proof -
  have "(case r of (es, ee) \<Rightarrow> if length a + length old \<le> es
      then (shift es (isize_of (length new) - isize_of (length old)),
            shift ee (isize_of (length new) - isize_of (length old))) else (es, ee)) =
    moved (length a + length old) (length new) (length old) r" if "r \<in> set rs" for r
    using assms that by (cases r) (force simp: moved_def intro!: shift_exact)
  then show ?thesis unfolding shift_after_def set_map by (rule image_cong [OF refl])
qed

lemma patch_text_realizes:
  assumes "patch_text file old new text rs = Inr (updated, rs')" and "old \<noteq> []"
    and "realizes original text rs edits"
  shows "realizes original updated rs' (add_mset (old, new) edits)"
proof -
  from assms(3) obtain es tail where r: "original = old_text es tail" "text = new_text es tail"
    "mset (map snd es) = edits" "set rs = set (edit_ranges 0 es)" and len: "length text \<le> isize_max"
    unfolding realizes_def by blast
  from patch_text_cut [OF assms(1) len] obtain a b where c: "text = a @ old @ b" "updated = a @ new @ b"
    "\<not> overlaps (length a) (length a + length old) rs" "length updated \<le> isize_max"
    "rs' = shift_after (length a + length old) (isize_of (length new) - isize_of (length old)) rs @
      [(length a, length a + length new)]" by metis
  have apart: "\<forall>(s, e) \<in> set (edit_ranges 0 es). \<not> (s < 0 + length a + length old \<and> 0 + length a < e)"
    using c(3) r(4) by (auto simp: overlaps_def list_ex_iff)
  from edit_insert [OF assms(2) _ apart, of tail b new] r(2) c(1) obtain es' tail' where
    e: "old_text es' tail' = old_text es tail" "new_text es' tail' = a @ new @ b"
      "mset (map snd es') = add_mset (old, new) (mset (map snd es))"
      "set (edit_ranges 0 es') = insert (length a, length a + length new)
        (moved (length a + length old) (length new) (length old) ` set (edit_ranges 0 es))"
    by auto
  have "\<forall>(s, e) \<in> set rs. s \<le> e \<and> e \<le> length text"
    using edit_ranges_bounds [of _ _ 0 es tail] by (auto simp: r)
  from shift_after_moved [OF this c(1) len, of new] c(2,4,5) r(4) e(4)
  have "set rs' = set (edit_ranges 0 es')" by simp
  with e r c(2,4) show ?thesis unfolding realizes_def by metis
qed

end
