(* ===== verification/Patch_Properties.thy ===== *)
theory Patch_Properties
  imports Patch_Edits
begin

text \<open>
  The planner and the writer: the state invariant of the patch loop, then the properties of
  \<open>plan_patches\<close> and \<open>apply_plan\<close>.
\<close>

section \<open>The patch loop\<close>

definition edits_of :: "rel_path \<Rightarrow> patch_input list \<Rightarrow> (string \<times> string) multiset" where
  "edits_of r patches = image_mset (\<lambda>p. (pi_old_string p, pi_new_string p))
     (filter_mset (\<lambda>p. candidate_relative (pi_file p) = Inr r) (mset patches))"

lemma edits_of_snoc:
  "edits_of r (patches @ [p]) =
     (if candidate_relative (pi_file p) = Inr r then add_mset (pi_old_string p, pi_new_string p) (edits_of r patches)
      else edits_of r patches)"
  by (simp add: edits_of_def)

definition planned_ok :: "candidate_fs \<Rightarrow> plan_state \<Rightarrow> rel_path \<Rightarrow> bool" where
  "planned_ok fs ps r \<longleftrightarrow>
     (case bt_get (ps_planned ps) r of
        None \<Rightarrow> r \<notin> set (ps_order ps) \<and> bt_get (ps_ranges ps) r = None \<and> edits_of r (ps_patches ps) = {#}
      | Some current \<Rightarrow> r \<in> set (ps_order ps) \<and> edits_of r (ps_patches ps) \<noteq> {#} \<and>
          (\<exists>original rs. bt_get (ps_original ps) r = Some original \<and> read_candidate_file fs r = Inr original \<and>
             bt_get (ps_ranges ps) r = Some rs \<and> realizes original current rs (edits_of r (ps_patches ps))))"

definition plan_inv :: "candidate_fs \<Rightarrow> plan_state \<Rightarrow> bool" where
  "plan_inv fs ps \<longleftrightarrow>
     bt_wf (ps_planned ps) \<and> bt_wf (ps_original ps) \<and> bt_wf (ps_ranges ps) \<and> distinct (ps_order ps) \<and>
     (\<forall>r. planned_ok fs ps r)"

lemma plan_inv_new: "plan_inv fs plan_state_new"
  by (simp add: plan_inv_def planned_ok_def plan_state_new_def edits_of_def)

lemma read_length: "read_candidate_file fs r = Inr contents \<Longrightarrow> length contents \<le> isize_max"
  by (auto simp: read_candidate_file_def not_less split: option.splits sum.splits node.splits if_splits)

text \<open>The contents a patch works on are those already planned, or the file as read.\<close>

lemma current_contents_cases:
  assumes "current_contents fs r ps = Inr (contents, ps1)" and "plan_inv fs ps"
  defines "rs \<equiv> (case bt_get (ps_ranges ps) r of None \<Rightarrow> [] | Some rs \<Rightarrow> rs)"
  shows "bt_wf (ps_original ps1) \<and> distinct (ps_order ps1) \<and> set (ps_order ps1) = insert r (set (ps_order ps)) \<and>
    ps_planned ps1 = ps_planned ps \<and> ps_ranges ps1 = ps_ranges ps \<and> ps_patches ps1 = ps_patches ps \<and>
    (\<forall>q. q \<noteq> r \<longrightarrow> bt_get (ps_original ps1) q = bt_get (ps_original ps) q) \<and>
    (\<exists>original. bt_get (ps_original ps1) r = Some original \<and> read_candidate_file fs r = Inr original \<and>
       realizes original contents rs (edits_of r (ps_patches ps)))"
proof -
  have ok: "planned_ok fs ps r" and w: "bt_wf (ps_original ps)" "distinct (ps_order ps)"
    using assms(2) by (simp_all add: plan_inv_def)
  show ?thesis
  proof (cases "bt_get (ps_planned ps) r")
    case (Some current)
    then show ?thesis
      using ok assms(1) w by (auto simp: current_contents_def planned_ok_def rs_def)
  next
    case None
    with assms(1) obtain c where c: "read_candidate_file fs r = Inr c" "contents = c"
      "ps1 = ps\<lparr>ps_original := bt_insert r c (ps_original ps), ps_order := ps_order ps @ [r]\<rparr>"
      by (auto simp: current_contents_def split: sum.splits)
    with None ok w realizes_unedited [OF read_length [OF c(1)]] show ?thesis
      by (auto simp: planned_ok_def rs_def bt_get_insert bt_wf_insert)
  qed
qed

lemma plan_patch_inv:
  assumes "plan_patch fs p ps = Inr ps'" and "plan_inv fs ps"
  shows "plan_inv fs ps' \<and> ps_patches ps' = ps_patches ps @ [p] \<and> (\<exists>r. candidate_relative (pi_file p) = Inr r)"
proof -
  from assms(1) obtain r contents ps1 updated rs' where s: "candidate_relative (pi_file p) = Inr r"
    "pi_old_string p \<noteq> []" "current_contents fs r ps = Inr (contents, ps1)"
    "patch_text (pi_file p) (pi_old_string p) (pi_new_string p) contents
       (case bt_get (ps_ranges ps1) r of None \<Rightarrow> [] | Some rs \<Rightarrow> rs) = Inr (updated, rs')"
    "ps' = ps1\<lparr>ps_planned := bt_insert r updated (ps_planned ps1), ps_ranges := bt_insert r rs' (ps_ranges ps1),
       ps_patches := ps_patches ps1 @ [p]\<rparr>"
    by (auto simp: plan_patch_def split: sum.splits if_splits)
  note c = current_contents_cases [OF s(3) assms(2)]
  from c obtain original where o: "bt_get (ps_original ps1) r = Some original" "read_candidate_file fs r = Inr original"
    "realizes original contents (case bt_get (ps_ranges ps) r of None \<Rightarrow> [] | Some rs \<Rightarrow> rs) (edits_of r (ps_patches ps))"
    by blast
  have re: "realizes original updated rs' (edits_of r (ps_patches ps'))"
    using patch_text_realizes [OF s(4,2), of original "edits_of r (ps_patches ps)"] o(3) c s(1,5)
    by (simp add: edits_of_snoc)
  have w: "bt_wf (ps_planned ps)" "bt_wf (ps_ranges ps)" and ok: "planned_ok fs ps q" for q
    using assms(2) by (simp_all add: plan_inv_def)
  have "planned_ok fs ps' q" for q
  proof (cases "q = r")
    case True
    with re o c s(1,5) w show ?thesis by (auto simp: planned_ok_def bt_get_insert edits_of_snoc)
  next
    case False
    with ok [of q] c s(1,5) w show ?thesis
      by (auto simp: planned_ok_def bt_get_insert edits_of_snoc split: option.splits)
  qed
  with c s w show ?thesis by (simp add: plan_inv_def bt_wf_insert)
qed

lemma plan_patch_list_inv:
  "plan_patch_list fs patches ps = Inr ps' \<Longrightarrow> plan_inv fs ps \<Longrightarrow>
   plan_inv fs ps' \<and> ps_patches ps' = ps_patches ps @ patches \<and>
   (\<forall>p \<in> set patches. \<exists>r. candidate_relative (pi_file p) = Inr r)"
proof (induction patches arbitrary: ps)
  case (Cons p patches)
  then obtain ps1 where "plan_patch fs p ps = Inr ps1" "plan_patch_list fs patches ps1 = Inr ps'"
    by (auto split: sum.splits)
  with plan_patch_inv [OF this(1) Cons.prems(2)] Cons.IH show ?case by auto
qed simp

section \<open>The plan\<close>

lemma patched_files_map:
  assumes "distinct order" and "\<forall>r \<in> set order. bt_get planned r \<noteq> None"
  shows "patched_files original order planned =
    map (\<lambda>r. \<lparr>pf_relative = r, pf_contents = the (bt_get planned r), pf_existed = True,
              pf_previous_bytes = previous_length original r\<rparr>) order"
  using assms
proof (induction order arbitrary: planned)
  case (Cons r order)
  then obtain contents where c: "bt_get planned r = Some contents" by auto
  have "bt_get (bt_remove r planned) q = bt_get planned q" if "q \<in> set order" for q
    using Cons.prems(1) that by (auto simp: bt_get_remove)
  with Cons c show ?case by simp
qed simp

lemma sum_over_keys:
  fixes h :: "rel_path \<times> string \<Rightarrow> int"
  assumes "bt_wf planned" and "distinct order" and "set order = fst ` set planned"
  shows "sum_list (map h planned) = sum_list (map (\<lambda>r. h (r, the (bt_get planned r))) order)"
proof -
  have "distinct (map fst planned)"
    using assms(1) by (simp add: bt_wf_def strict_sorted_iff)
  then have m: "mset order = mset (map fst planned)"
    using assms(2,3) set_eq_iff_mset_eq_distinct by (metis list.set_map)
  have "sum_list (map (\<lambda>r. h (r, the (bt_get planned r))) order) =
      sum_mset (image_mset (\<lambda>r. h (r, the (bt_get planned r))) (mset order))"
    by (simp flip: sum_mset_sum_list)
  also have "\<dots> = sum_list (map ((\<lambda>r. h (r, the (bt_get planned r))) \<circ> fst) planned)"
    unfolding m by (simp flip: sum_mset_sum_list add: multiset.map_comp comp_def)
  also have "map ((\<lambda>r. h (r, the (bt_get planned r))) \<circ> fst) planned = map h planned"
  proof (rule map_cong [OF refl])
    fix e assume "e \<in> set planned"
    then have "bt_get planned (fst e) = Some (snd e)" using bt_get_iff [OF assms(1)] by simp
    then show "((\<lambda>r. h (r, the (bt_get planned r))) \<circ> fst) e = h e" by simp
  qed
  finally show ?thesis by simp
qed

lemma plan_new_files_facts:
  "plan_new_files fs planned seen files = Inr ns \<Longrightarrow>
   map pn_content ns = map nf_content files \<and>
   map (\<lambda>n. Inr (pn_relative n)) ns = map (\<lambda>f. candidate_relative (nf_file f)) files \<and>
   distinct (map pn_relative ns) \<and>
   (\<forall>n \<in> set ns. pn_relative n \<notin> seen \<and> bt_get planned (pn_relative n) = None \<and>
      isl (symlink_metadata fs (pn_relative n)) \<and> reject_symlinked_ancestors fs (pn_relative n) = None)"
proof (induction files arbitrary: seen ns)
  case (Cons f files)
  then obtain r ns' where "candidate_relative (nf_file f) = Inr r" "r \<notin> seen" "bt_get planned r = None"
    "isl (symlink_metadata fs r)" "reject_symlinked_ancestors fs r = None"
    "plan_new_files fs planned (insert r seen) files = Inr ns'"
    "ns = \<lparr>pn_relative = r, pn_content = nf_content f\<rparr> # ns'"
    by (auto simp: bt_contains_def split: sum.splits if_splits option.splits node.splits)
  with Cons.IH [of "insert r seen" ns'] show ?case by auto
qed simp

text \<open>Everything a successful run of the planner has established.\<close>

definition patched_file :: "plan_state \<Rightarrow> rel_path \<Rightarrow> planned_file" where
  "patched_file ps r =
     \<lparr>pf_relative = r, pf_contents = the (bt_get (ps_planned ps) r), pf_existed = True,
      pf_previous_bytes = previous_length (ps_original ps) r\<rparr>"

definition plan_run ::
  "candidate_fs \<Rightarrow> patch_input list \<Rightarrow> new_file_input list \<Rightarrow> candidate_limits \<Rightarrow> patch_plan \<Rightarrow>
   plan_state \<Rightarrow> planned_new_file list \<Rightarrow> bool" where
  "plan_run fs patches new_files limits plan ps ns \<longleftrightarrow>
     plan_inv fs ps \<and> ps_patches ps = patches \<and>
     (\<forall>p \<in> set patches. \<exists>r. candidate_relative (pi_file p) = Inr r) \<and>
     plan_new_files fs (ps_planned ps) {} new_files = Inr ns \<and>
     limit_error limits (length ns) (byte_delta (ps_planned ps) (ps_original ps) ns) = None \<and>
     pp_files plan = map (patched_file ps) (ps_order ps) @ map created_file ns \<and>
     pp_patches plan = patches \<and> pp_new_files plan = ns \<and>
     distinct (ps_order ps) \<and> set (ps_order ps) = fst ` set (ps_planned ps)"

lemma plan_patches_run:
  assumes "plan_patches fs patches new_files limits = Inr plan"
  obtains ps ns where "plan_run fs patches new_files limits plan ps ns"
proof -
  from assms obtain ps ns where s: "plan_patch_list fs patches plan_state_new = Inr ps"
    "plan_new_files fs (ps_planned ps) {} new_files = Inr ns"
    "limit_error limits (length ns) (byte_delta (ps_planned ps) (ps_original ps) ns) = None"
    "plan = \<lparr>pp_files = patched_files (ps_original ps) (ps_order ps) (ps_planned ps) @ map created_file ns,
       pp_patches = ps_patches ps, pp_new_files = ns\<rparr>"
    by (auto simp: plan_patches_def split: sum.splits option.splits)
  have inv: "plan_inv fs ps" "ps_patches ps = patches" "\<forall>p \<in> set patches. \<exists>r. candidate_relative (pi_file p) = Inr r"
    using plan_patch_list_inv [OF s(1) plan_inv_new] by (auto simp: plan_state_new_def)
  have d: "distinct (ps_order ps)" and ok: "planned_ok fs ps r" for r
    using inv(1) by (simp_all add: plan_inv_def)
  have keys: "r \<in> set (ps_order ps) \<longleftrightarrow> bt_get (ps_planned ps) r \<noteq> None" for r
    using ok [of r] by (auto simp: planned_ok_def split: option.splits)
  then have "set (ps_order ps) = fst ` set (ps_planned ps)"
    by (auto simp: bt_get_None_iff set_eq_iff)
  then have "plan_run fs patches new_files limits plan ps ns"
    using s inv d keys by (simp add: plan_run_def patched_files_map patched_file_def [abs_def])
  then show ?thesis by (rule that)
qed

text \<open>
  C13: The patches of one file act as one simultaneous edit of the file as it was read. If planning succeeds,
  the original bytes of every patched file can be cut into gaps and pieces such that the pieces are exactly
  the old strings of the patches to that file, and the planned bytes are the same gaps with each piece
  replaced by the new string of its patch: no patch touches text another one inserted, in whatever order
  they come.
\<close>

theorem plan_is_simultaneous_edit:
  assumes "plan_patches fs patches new_files limits = Inr plan"
    and "f \<in> set (pp_files plan)" and "pf_existed f"
  shows "\<exists>es tail. read_candidate_file fs (pf_relative f) = Inr (old_text es tail) \<and>
    pf_contents f = new_text es tail \<and> pf_previous_bytes f = length (old_text es tail) \<and>
    mset (map snd es) = edits_of (pf_relative f) patches \<and> es \<noteq> []"
proof -
  from plan_patches_run [OF assms(1)] obtain ps ns where run: "plan_run fs patches new_files limits plan ps ns" .
  then have s: "plan_inv fs ps" "ps_patches ps = patches"
    "pp_files plan = map (patched_file ps) (ps_order ps) @ map created_file ns"
    by (simp_all add: plan_run_def)
  from assms(2,3) obtain r where r: "r \<in> set (ps_order ps)" "f = patched_file ps r"
    unfolding s(3) by (auto simp: created_file_def)
  have "planned_ok fs ps r" using s(1) by (simp add: plan_inv_def)
  with r obtain current original rs where c: "bt_get (ps_planned ps) r = Some current"
    "bt_get (ps_original ps) r = Some original" "read_candidate_file fs r = Inr original"
    "realizes original current rs (edits_of r patches)" "edits_of r patches \<noteq> {#}"
    by (auto simp: planned_ok_def s(2) split: option.splits)
  then obtain es tail where "original = old_text es tail" "current = new_text es tail"
    "mset (map snd es) = edits_of r patches" unfolding realizes_def by blast
  with c r show ?thesis
    by (intro exI [of _ es] exI [of _ tail]) (auto simp: previous_length_def patched_file_def)
qed

text \<open>
  The limits hold for the plan itself: the candidate's file count plus the files the plan creates stays
  within the file limit, and its byte count plus the change in size over the planned files stays within
  the byte limit and does not become negative.
\<close>

theorem plan_respects_limits:
  assumes "plan_patches fs patches new_files limits = Inr plan"
    and "cl_current_files limits + length new_files \<le> u64_max"
  shows "cl_current_files limits + length (filter (\<lambda>f. \<not> pf_existed f) (pp_files plan)) \<le> cl_max_files limits \<and>
    0 \<le> int (cl_current_bytes limits) +
      (\<Sum>f \<leftarrow> pp_files plan. int (length (pf_contents f)) - int (pf_previous_bytes f)) \<and>
    int (cl_current_bytes limits) +
      (\<Sum>f \<leftarrow> pp_files plan. int (length (pf_contents f)) - int (pf_previous_bytes f)) \<le> int (cl_max_bytes limits)"
proof -
  from plan_patches_run [OF assms(1)] obtain ps ns where run: "plan_run fs patches new_files limits plan ps ns" .
  then have s: "bt_wf (ps_planned ps)" "plan_new_files fs (ps_planned ps) {} new_files = Inr ns"
    "limit_error limits (length ns) (byte_delta (ps_planned ps) (ps_original ps) ns) = None"
    "pp_files plan = map (patched_file ps) (ps_order ps) @ map created_file ns"
    "distinct (ps_order ps)" "set (ps_order ps) = fst ` set (ps_planned ps)"
    by (simp_all add: plan_run_def plan_inv_def)
  have n: "length ns = length new_files"
    using plan_new_files_facts [OF s(2)] by (metis length_map)
  have "filter (\<lambda>f. \<not> pf_existed f) (pp_files plan) = map created_file ns"
    by (simp add: s(4) filter_map comp_def created_file_def patched_file_def)
  moreover have "byte_delta (ps_planned ps) (ps_original ps) ns =
      (\<Sum>f \<leftarrow> pp_files plan. int (length (pf_contents f)) - int (pf_previous_bytes f))"
    using sum_over_keys [of "ps_planned ps" "ps_order ps"
        "\<lambda>(r, c). int (length c) - int (previous_length (ps_original ps) r)"] s(1,5,6)
    by (simp add: byte_delta_def s(4) comp_def created_file_def patched_file_def)
  ultimately show ?thesis
    using s(3) assms(2) n by (auto simp: limit_error_def Let_def sat_add_def split: if_splits)
qed

end
