(* ===== verification/Patch_Apply.thy ===== *)
theory Patch_Apply
  imports Patch_Properties
begin

text \<open>
  Paths and writes: which paths a plan may name, what \<open>apply_plan\<close> does to the tree on every outcome,
  and when it succeeds.
\<close>

section \<open>Ancestors and well-formed trees\<close>

lemma ancestors_iff: "q \<in> set (ancestors p) \<longleftrightarrow> (\<exists>k. 1 \<le> k \<and> k < length p \<and> q = take k p)"
  by (auto simp: ancestors_def)

lemma ancestors_split:
  assumes "q \<in> set (ancestors p)"
  obtains ys where "ancestors p = ancestors q @ q # ys"
proof -
  from assms obtain k where k: "1 \<le> k" "k < length p" "q = take k p" by (auto simp: ancestors_iff)
  have "[1..<length p] = [1..<k] @ k # [Suc k..<length p]"
    using k upt_add_eq_append [of 1 k "length p - k"] by (simp add: upt_conv_Cons)
  moreover have "map (\<lambda>i. take i p) [1..<k] = ancestors q"
    using k by (auto simp: ancestors_def min_def)
  ultimately show ?thesis using that k by (simp add: ancestors_def)
qed

lemma ancestors_trans: "q \<in> set (ancestors p) \<Longrightarrow> set (ancestors q) \<subseteq> set (ancestors p)"
  by (erule ancestors_split) auto

lemma ancestors_shorter: "q \<in> set (ancestors p) \<Longrightarrow> length q < length p"
  by (auto simp: ancestors_iff)

lemma not_own_ancestor: "p \<notin> set (ancestors p)"
  using ancestors_shorter by blast

text \<open>In a file tree everything hangs below directories.\<close>

definition tree_wf :: "(rel_path, node) btree_map \<Rightarrow> bool" where
  "tree_wf t \<longleftrightarrow> bt_wf t \<and>
     (\<forall>(p, n) \<in> set t. \<forall>q \<in> set (ancestors p). bt_get t q = Some DirNode)"

lemma tree_wf_ancestors:
  "tree_wf t \<Longrightarrow> bt_get t p = Some n \<Longrightarrow> q \<in> set (ancestors p) \<Longrightarrow> bt_get t q = Some DirNode"
  by (fastforce simp: tree_wf_def dest: bt_get_in)

lemma tree_wfI:
  "bt_wf t \<Longrightarrow> (\<And>p n q. bt_get t p = Some n \<Longrightarrow> q \<in> set (ancestors p) \<Longrightarrow> bt_get t q = Some DirNode) \<Longrightarrow>
   tree_wf t"
  by (auto simp: tree_wf_def bt_get_iff)

lemma metadata_present:
  assumes "tree_wf (cf_tree fs)" and "bt_get (cf_tree fs) p = Some n"
  shows "symlink_metadata fs p = (if cf_stat_fault fs p then Inl IoFault else Inr n)"
proof -
  have "List.find (\<lambda>q. bt_get (cf_tree fs) q \<noteq> Some DirNode) (ancestors p) = None"
    using tree_wf_ancestors [OF assms] by (auto simp: find_None_iff)
  with assms(2) show ?thesis by (simp add: symlink_metadata_def)
qed

lemma reject_from_append:
  "\<forall>x \<in> set xs. symlink_metadata fs x = Inr DirNode \<or> symlink_metadata fs x = Inl IoFault \<Longrightarrow>
   reject_from fs p (xs @ ys) = None \<Longrightarrow> reject_from fs p ys = None"
  by (induction xs) (auto split: sum.splits node.splits)

text \<open>A path that passes the ancestor check has only directories above it, or nothing yet.\<close>

lemma reject_None:
  assumes "tree_wf (cf_tree fs)" and "reject_symlinked_ancestors fs p = None" and "q \<in> set (ancestors p)"
  shows "bt_get (cf_tree fs) q = None \<or> bt_get (cf_tree fs) q = Some DirNode"
proof (cases "bt_get (cf_tree fs) q")
  case (Some n)
  obtain ys where ys: "ancestors p = ancestors q @ q # ys" using ancestors_split [OF assms(3)] .
  have "\<forall>x \<in> set (ancestors q). symlink_metadata fs x = Inr DirNode \<or> symlink_metadata fs x = Inl IoFault"
    using metadata_present [OF assms(1) tree_wf_ancestors [OF assms(1) Some]] by simp
  then have "reject_from fs p (q # ys) = None"
    using reject_from_append assms(2) by (metis reject_symlinked_ancestors_def ys)
  with metadata_present [OF assms(1) Some] Some show ?thesis
    by (auto split: if_splits node.splits)
qed simp

lemma reject_None_iff:
  assumes "tree_wf (cf_tree fs)" and "\<forall>q. \<not> cf_stat_fault fs q"
  shows "reject_symlinked_ancestors fs p = None \<longleftrightarrow>
    (\<forall>q \<in> set (ancestors p). bt_get (cf_tree fs) q = None \<or> bt_get (cf_tree fs) q = Some DirNode)"
proof
  assume ok: "\<forall>q \<in> set (ancestors p). bt_get (cf_tree fs) q = None \<or> bt_get (cf_tree fs) q = Some DirNode"
  have "symlink_metadata fs q = Inr DirNode \<or> symlink_metadata fs q = Inl NotFound" if q: "q \<in> set (ancestors p)" for q
  proof -
    have "bt_get (cf_tree fs) r = None"
      if "List.find (\<lambda>q. bt_get (cf_tree fs) q \<noteq> Some DirNode) (ancestors q) = Some r" for r
      using find_Some_in [OF that] ancestors_trans [OF q] ok by blast
    with ok q assms(2) show ?thesis by (auto simp: symlink_metadata_def split: option.splits)
  qed
  then have "reject_from fs p qs = None" if "set qs \<subseteq> set (ancestors p)" for qs
    using that
  proof (induction qs)
    case (Cons a qs)
    then have "symlink_metadata fs a = Inr DirNode \<or> symlink_metadata fs a = Inl NotFound" by simp
    then show ?case using Cons.IH Cons.prems by (elim disjE) simp_all
  qed simp
  then show "reject_symlinked_ancestors fs p = None" by (simp add: reject_symlinked_ancestors_def)
qed (use reject_None [OF assms(1)] in blast)

section \<open>Paths of a plan\<close>

definition inside_candidate :: "rel_path \<Rightarrow> bool" where
  "inside_candidate p \<longleftrightarrow> p \<noteq> [] \<and> list_all (\<lambda>n. plain_name n \<and> n \<noteq> ''.git'' \<and> n \<noteq> ''target'') p"

lemma push_names_set:
  "push_names f cs = Inr ns \<Longrightarrow> n \<in> set ns \<Longrightarrow> Normal n \<in> set cs \<and> n \<noteq> ''.git'' \<and> n \<noteq> ''target''"
  by (induction f cs arbitrary: ns rule: push_names.induct) (auto split: if_splits sum.splits)

lemma candidate_relative_inside: "candidate_relative file = Inr p \<Longrightarrow> inside_candidate p"
  by (auto simp: candidate_relative_def inside_candidate_def Let_def list_all_iff
      dest: push_names_set components_plain split: if_splits sum.splits)

lemma read_regular:
  assumes "tree_wf (cf_tree fs)" and "read_candidate_file fs p = Inr contents"
  shows "bt_get (cf_tree fs) p = Some (FileNode contents)"
proof -
  have r: "reject_symlinked_ancestors fs p = None" and m: "symlink_metadata fs p = Inr (FileNode contents)"
    using assms(2) by (auto simp: read_candidate_file_def split: option.splits sum.splits node.splits if_splits)
  have "bt_get (cf_tree fs) q \<noteq> Some LinkNode" if "q \<in> set (ancestors p)" for q
    using reject_None [OF assms(1) r that] by auto
  with m show ?thesis
    by (auto simp: symlink_metadata_def find_None_iff split: if_splits option.splits node.splits dest!: find_Some_in)
qed

lemma plan_run_relatives:
  assumes "plan_run fs patches new_files limits plan ps ns"
  shows "distinct (map pf_relative (pp_files plan)) \<and>
    (\<forall>f \<in> set (pp_files plan). inside_candidate (pf_relative f) \<and> reject_symlinked_ancestors fs (pf_relative f) = None \<and>
       (if pf_existed f then \<exists>c. read_candidate_file fs (pf_relative f) = Inr c
        else isl (symlink_metadata fs (pf_relative f))))"
proof -
  have files: "pp_files plan = map (patched_file ps) (ps_order ps) @ map created_file ns"
    and inv: "plan_inv fs ps" "ps_patches ps = patches" and d: "distinct (ps_order ps)"
    and n: "plan_new_files fs (ps_planned ps) {} new_files = Inr ns"
    and keys: "set (ps_order ps) = fst ` set (ps_planned ps)"
    using assms by (simp_all add: plan_run_def)
  note nf = plan_new_files_facts [OF n]
  have old: "inside_candidate r \<and> reject_symlinked_ancestors fs r = None \<and> (\<exists>c. read_candidate_file fs r = Inr c)"
    if "r \<in> set (ps_order ps)" for r
  proof -
    have "planned_ok fs ps r" using inv(1) by (simp add: plan_inv_def)
    with that obtain c where c: "read_candidate_file fs r = Inr c" "edits_of r patches \<noteq> {#}"
      by (auto simp: planned_ok_def inv(2) split: option.splits)
    then obtain p :: patch_input where "candidate_relative (pi_file p) = Inr r"
      by (auto simp: edits_of_def filter_mset_eq_conv)
    with c show ?thesis
      by (auto simp: read_candidate_file_def intro: candidate_relative_inside split: option.splits)
  qed
  have new: "inside_candidate (pn_relative m)" if "m \<in> set ns" for m
  proof -
    have "(Inr (pn_relative m) :: patch_error + rel_path) \<in> set (map (\<lambda>f. candidate_relative (nf_file f)) new_files)"
      using nf that by (metis (no_types, lifting) image_eqI list.set_map)
    then show ?thesis by (auto dest: sym intro: candidate_relative_inside)
  qed
  have "pn_relative m \<notin> set (ps_order ps)" if "m \<in> set ns" for m
    using nf that keys by (auto simp: bt_get_None_iff)
  then have "distinct (map pf_relative (pp_files plan))"
    using d nf by (auto simp: files patched_file_def created_file_def comp_def)
  with old new nf show ?thesis
    by (auto simp: files patched_file_def created_file_def)
qed

text \<open>
  C14: A plan stays inside the candidate, a tree in which whatever lies below a path lies below directories. Every
  path it writes is a non-empty list of plain names without a parent, root or current component and never enters
  \<open>.git\<close> or \<open>target\<close>; no path is planned twice; nothing above a planned path is a symbolic link or a file; a
  patched path is a regular file of the candidate and a created path does not exist there, unless the host failed to
  read its metadata, which the planner takes for absence.
\<close>

theorem plan_stays_inside_candidate:
  assumes "plan_patches fs patches new_files limits = Inr plan" and "tree_wf (cf_tree fs)"
  shows "distinct (map pf_relative (pp_files plan)) \<and>
    (\<forall>f \<in> set (pp_files plan). inside_candidate (pf_relative f) \<and>
       (\<forall>q \<in> set (ancestors (pf_relative f)). bt_get (cf_tree fs) q = None \<or> bt_get (cf_tree fs) q = Some DirNode) \<and>
       (if pf_existed f then \<exists>c. bt_get (cf_tree fs) (pf_relative f) = Some (FileNode c)
        else bt_get (cf_tree fs) (pf_relative f) = None \<or> cf_stat_fault fs (pf_relative f)))"
proof -
  from plan_patches_run [OF assms(1)] obtain ps ns where "plan_run fs patches new_files limits plan ps ns" .
  from plan_run_relatives [OF this] have d: "distinct (map pf_relative (pp_files plan))"
    and f: "\<And>f. f \<in> set (pp_files plan) \<Longrightarrow> inside_candidate (pf_relative f) \<and>
      reject_symlinked_ancestors fs (pf_relative f) = None \<and>
      (if pf_existed f then \<exists>c. read_candidate_file fs (pf_relative f) = Inr c
       else isl (symlink_metadata fs (pf_relative f)))" by blast+
  have "bt_get (cf_tree fs) p = None \<or> cf_stat_fault fs p" if "isl (symlink_metadata fs p)" for p
    using metadata_present [OF assms(2), of p] that by (cases "bt_get (cf_tree fs) p") (auto split: if_splits)
  with d f reject_None [OF assms(2)] read_regular [OF assms(2)] show ?thesis
    by (auto split: if_splits) metis+
qed

section \<open>Writing one file\<close>

lemma create_dirs_effect:
  "create_dirs qs t = (ok, t') \<Longrightarrow>
   (bt_wf t \<longrightarrow> bt_wf t') \<and>
   (\<forall>q. bt_get t' q = bt_get t q \<or> (q \<in> set qs \<and> bt_get t q = None \<and> bt_get t' q = Some DirNode)) \<and>
   (ok \<longrightarrow> (\<forall>q \<in> set qs. bt_get t' q = Some DirNode))"
proof (induction qs t rule: create_dirs.induct)
  case (2 q qs t)
  show ?case
  proof (cases "bt_get t q")
    case None
    with 2 show ?thesis by (fastforce simp: bt_get_insert bt_wf_insert split: if_splits)
  next
    case (Some n)
    with 2 show ?thesis by (cases n) force+
  qed
qed simp

lemma create_dirs_ok:
  "\<forall>q \<in> set qs. bt_get t q = None \<or> bt_get t q = Some DirNode \<Longrightarrow> fst (create_dirs qs t)"
  by (induction qs t rule: create_dirs.induct) (auto simp: bt_get_insert split: option.splits)

text \<open>The tree may only have gained directories above a path.\<close>

definition grows :: "rel_path \<Rightarrow> (rel_path, node) btree_map \<Rightarrow> (rel_path, node) btree_map \<Rightarrow> rel_path \<Rightarrow> bool" where
  "grows p t t' q \<longleftrightarrow> bt_get t' q = bt_get t q \<or>
     (q \<in> set (ancestors p) \<and> bt_get t q = None \<and> bt_get t' q = Some DirNode)"

lemma create_dir_all_effect:
  assumes "create_dir_all faults p t = (ok, t')"
  shows "(bt_wf t \<longrightarrow> bt_wf t') \<and> grows p t t' q \<and>
    (ok \<longrightarrow> (\<forall>q \<in> set (ancestors p). bt_get t' q = Some DirNode))"
proof (cases "wf_create_dirs faults")
  case None
  with assms create_dirs_effect [of "ancestors p" t ok t'] show ?thesis
    by (auto simp: create_dir_all_def grows_def)
next
  case (Some k)
  with assms have "\<not> ok" "t' = snd (create_dirs (take k (ancestors p)) t)"
    by (simp_all add: create_dir_all_def)
  with create_dirs_effect [of "take k (ancestors p)" t "fst (create_dirs (take k (ancestors p)) t)" t']
  show ?thesis by (auto simp: grows_def dest: in_set_takeD)
qed

lemma write_effect:
  assumes "write_through_temp faults fs temp f t = (ok, t')"
  shows "(bt_wf t \<longrightarrow> bt_wf t') \<and>
    (if ok then bt_get t' q = (if q = pf_relative f then Some (FileNode (pf_contents f)) else bt_get t q)
     else q \<noteq> temp \<longrightarrow> bt_get t' q = bt_get t q)"
  using assms
  by (auto simp: write_through_temp_def Let_def bt_get_insert bt_get_remove bt_wf_insert bt_wf_remove
      split: if_splits option.splits)

lemma apply_file_ok:
  assumes "apply_file faults pid fs f seq = (None, fs', seq')"
  shows "(bt_wf (cf_tree fs) \<longrightarrow> bt_wf (cf_tree fs')) \<and>
    (if q = pf_relative f then bt_get (cf_tree fs') q = Some (FileNode (pf_contents f))
     else grows (pf_relative f) (cf_tree fs) (cf_tree fs') q)"
proof -
  from assms obtain t2 t3 where "create_dir_all (faults (pf_relative f)) (pf_relative f) (cf_tree fs) = (True, t2)"
    "write_through_temp (faults (pf_relative f)) (fs\<lparr>cf_tree := t2\<rparr>) (temp_path pid seq (pf_relative f)) f t2 = (True, t3)"
    "cf_tree fs' = t3"
    by (auto simp: apply_file_def Let_def split: option.splits prod.splits if_splits)
  with create_dir_all_effect [OF this(1), of q] write_effect [OF this(2), of q] show ?thesis
    by (auto simp: grows_def)
qed

lemma apply_file_failed:
  assumes "apply_file faults pid fs f seq = (Some e, fs', seq')"
    and "q \<noteq> temp_path pid seq (pf_relative f)"
  shows "grows (pf_relative f) (cf_tree fs) (cf_tree fs') q"
proof -
  let ?fl = "faults (pf_relative f)"
  from assms(1) consider "fs' = fs"
    | ok t2 where "create_dir_all ?fl (pf_relative f) (cf_tree fs) = (ok, t2)" "fs' = fs\<lparr>cf_tree := t2\<rparr>"
    | ok t2 t3 where "create_dir_all ?fl (pf_relative f) (cf_tree fs) = (ok, t2)"
      "write_through_temp ?fl (fs\<lparr>cf_tree := t2\<rparr>) (temp_path pid seq (pf_relative f)) f t2 = (False, t3)"
      "cf_tree fs' = remove_file ?fl (temp_path pid seq (pf_relative f)) t3"
    by (fastforce simp: apply_file_def Let_def split: option.splits prod.splits if_splits)
  then show ?thesis
  proof cases
    case 1
    then show ?thesis by (simp add: grows_def)
  next
    case 2
    with create_dir_all_effect [OF 2(1), of q] show ?thesis by simp
  next
    case 3
    with create_dir_all_effect [OF 3(1), of q] write_effect [OF 3(2), of q] assms(2) show ?thesis
      by (auto simp: grows_def remove_file_def bt_get_remove)
  qed
qed

section \<open>Writing a plan\<close>

definition written_or_kept ::
  "planned_file list \<Rightarrow> (rel_path, node) btree_map \<Rightarrow> (rel_path, node) btree_map \<Rightarrow> rel_path \<Rightarrow> bool" where
  "written_or_kept files t t' q \<longleftrightarrow> bt_get t' q = bt_get t q \<or>
     (bt_get t q = None \<and> bt_get t' q = Some DirNode \<and> (\<exists>f \<in> set files. q \<in> set (ancestors (pf_relative f)))) \<or>
     (\<exists>f \<in> set files. q = pf_relative f \<and> bt_get t' q = Some (FileNode (pf_contents f)))"

lemma apply_file_kept:
  assumes "apply_file faults pid fs f seq = (res, fs', seq')" and "q \<noteq> temp_path pid seq (pf_relative f)"
  shows "written_or_kept [f] (cf_tree fs) (cf_tree fs') q"
  using apply_file_ok [of faults pid fs f seq fs' seq' q] apply_file_failed [of faults pid fs f seq _ fs' seq' q] assms
  by (cases res) (auto simp: written_or_kept_def grows_def split: if_splits)

lemma apply_files_kept:
  "apply_files faults pid fs files seq = (res, fs', seq') \<Longrightarrow>
   (if res = None then \<forall>q. written_or_kept files (cf_tree fs) (cf_tree fs') q
    else \<exists>f \<in> set files. \<exists>s. \<forall>q. q \<noteq> temp_path pid s (pf_relative f) \<longrightarrow> written_or_kept files (cf_tree fs) (cf_tree fs') q)"
proof (induction files arbitrary: fs seq)
  case (Cons f files)
  obtain r1 fs1 seq1 where one: "apply_file faults pid fs f seq = (r1, fs1, seq1)" by (cases "apply_file faults pid fs f seq")
  show ?case
  proof (cases r1)
    case None
    have first: "written_or_kept [f] (cf_tree fs) (cf_tree fs1) q" for q
      using apply_file_ok [of faults pid fs f seq fs1 seq1 q] one None by (auto simp: written_or_kept_def grows_def split: if_splits)
    have join: "written_or_kept files (cf_tree fs1) (cf_tree fs') q \<Longrightarrow> written_or_kept (f # files) (cf_tree fs) (cf_tree fs') q" for q
      using first [of q] by (auto simp: written_or_kept_def)
    have "apply_files faults pid fs1 files seq1 = (res, fs', seq')" using Cons.prems one None by simp
    note ih = Cons.IH [OF this]
    show ?thesis
    proof (cases "res = None")
      case False
      with ih obtain g s where "g \<in> set files" "\<And>q. q \<noteq> temp_path pid s (pf_relative g) \<Longrightarrow> written_or_kept files (cf_tree fs1) (cf_tree fs') q"
        by auto
      with join have "g \<in> set (f # files)" "\<forall>q. q \<noteq> temp_path pid s (pf_relative g) \<longrightarrow> written_or_kept (f # files) (cf_tree fs) (cf_tree fs') q"
        by auto
      with False show ?thesis by metis
    qed (use ih join in auto)
  next
    case (Some e)
    then have "res = Some e" "fs' = fs1" using Cons.prems one by simp_all
    moreover have "written_or_kept (f # files) (cf_tree fs) (cf_tree fs1) q" if "q \<noteq> temp_path pid seq (pf_relative f)" for q
      using apply_file_kept [OF one that] by (auto simp: written_or_kept_def)
    ultimately show ?thesis by (intro iffD2 [OF if_not_P]) auto
  qed
qed (auto simp: written_or_kept_def)

text \<open>
  C15: Applying a plan never leaves a half-written file under a name of the project, whatever fails. When it succeeds,
  every path of the tree is either as it was, or a new directory above a planned file, or holds exactly the planned
  bytes of that path. When it fails, for any outcome and any failure the host injects, the same holds of every path but
  one: the temporary name beside the file that failed, which may hold torn bytes or be gone.
\<close>

theorem apply_writes_whole_files:
  assumes "apply_plan faults pid fs plan seq = (res, fs', seq')"
  shows "if res = None then \<forall>q. written_or_kept (pp_files plan) (cf_tree fs) (cf_tree fs') q
    else \<exists>f \<in> set (pp_files plan). \<exists>s. \<forall>q. q \<noteq> temp_path pid s (pf_relative f) \<longrightarrow>
      written_or_kept (pp_files plan) (cf_tree fs) (cf_tree fs') q"
  by (rule apply_files_kept [OF assms [unfolded apply_plan_def]])

lemma apply_files_ok:
  "apply_files faults pid fs files seq = (None, fs', seq') \<Longrightarrow> distinct (map pf_relative files) \<Longrightarrow>
   (\<forall>f \<in> set files. bt_get (cf_tree fs') (pf_relative f) = Some (FileNode (pf_contents f))) \<and>
   (\<forall>q. q \<notin> pf_relative ` set files \<longrightarrow> bt_get (cf_tree fs') q = bt_get (cf_tree fs) q \<or>
      (bt_get (cf_tree fs) q = None \<and> bt_get (cf_tree fs') q = Some DirNode \<and>
       (\<exists>f \<in> set files. q \<in> set (ancestors (pf_relative f)))))"
proof (induction files arbitrary: fs seq)
  case (Cons f files)
  then obtain fs1 seq1 where one: "apply_file faults pid fs f seq = (None, fs1, seq1)"
    and rest: "apply_files faults pid fs1 files seq1 = (None, fs', seq')"
    by (auto split: prod.splits option.splits)
  note ih = Cons.IH [OF rest] and ok = apply_file_ok [OF one]
  have d: "distinct (map pf_relative files)" "pf_relative f \<notin> pf_relative ` set files" using Cons.prems by auto
  have "bt_get (cf_tree fs') (pf_relative f) = Some (FileNode (pf_contents f))"
    using ih [OF d(1)] d(2) ok [of "pf_relative f"] by auto
  moreover have "bt_get (cf_tree fs') q = bt_get (cf_tree fs) q \<or>
      (bt_get (cf_tree fs) q = None \<and> bt_get (cf_tree fs') q = Some DirNode \<and>
       (\<exists>g \<in> set (f # files). q \<in> set (ancestors (pf_relative g))))"
    if "q \<notin> pf_relative ` set (f # files)" for q
    using ih [OF d(1)] ok [of q] that by (auto simp: grows_def)
  ultimately show ?case using ih [OF d(1)] by auto
qed simp

text \<open>
  Applying a validated plan writes the plan and nothing else: when \<open>apply_plan\<close> succeeds, every
  planned path holds the planned bytes and every other path is unchanged, apart from directories created
  above planned files; no temporary file is left.
\<close>

theorem apply_writes_the_plan:
  assumes "plan_patches fs patches new_files limits = Inr plan"
    and "apply_plan faults pid fs plan seq = (None, fs', seq')"
  shows "(\<forall>f \<in> set (pp_files plan). bt_get (cf_tree fs') (pf_relative f) = Some (FileNode (pf_contents f))) \<and>
    (\<forall>q. q \<notin> pf_relative ` set (pp_files plan) \<longrightarrow> bt_get (cf_tree fs') q = bt_get (cf_tree fs) q \<or>
      (bt_get (cf_tree fs) q = None \<and> bt_get (cf_tree fs') q = Some DirNode \<and>
       (\<exists>f \<in> set (pp_files plan). q \<in> set (ancestors (pf_relative f)))))"
proof -
  from plan_patches_run [OF assms(1)] obtain ps ns where "plan_run fs patches new_files limits plan ps ns" .
  with plan_run_relatives apply_files_ok assms(2) show ?thesis unfolding apply_plan_def by blast
qed

end
