(* ===== verification/Patch_Validity.thy ===== *)
theory Patch_Validity
  imports Patch_Apply "HOL-Library.Code_Target_Nat"
begin

text \<open>
  When a validated plan can be applied, a plan that cannot, and a concrete run.
\<close>

section \<open>A validated plan applies\<close>

definition no_write_fault :: "write_faults \<Rightarrow> bool" where
  "no_write_fault fl \<longleftrightarrow> wf_create_dirs fl = None \<and> \<not> wf_open fl \<and> wf_write fl = None \<and> \<not> wf_rename fl"

text \<open>What the files still to be written need of the tree.\<close>

definition writable :: "nat \<Rightarrow> (rel_path, node) btree_map \<Rightarrow> planned_file \<Rightarrow> bool" where
  "writable pid t f \<longleftrightarrow>
     (\<forall>q \<in> set (ancestors (pf_relative f)). bt_get t q = None \<or> bt_get t q = Some DirNode) \<and>
     bt_get t (pf_relative f) \<noteq> Some DirNode \<and> bt_get t (pf_relative f) \<noteq> Some LinkNode \<and>
     (\<forall>s. bt_get t (temp_path pid s (pf_relative f)) = None)"

text \<open>Two planned files do not stand in each other's way.\<close>

definition apart :: "nat \<Rightarrow> planned_file \<Rightarrow> planned_file \<Rightarrow> bool" where
  "apart pid f g \<longleftrightarrow>
     pf_relative f \<notin> set (ancestors (pf_relative g)) \<and>
     (\<forall>s. temp_path pid s (pf_relative f) \<noteq> pf_relative g \<and>
          temp_path pid s (pf_relative f) \<notin> set (ancestors (pf_relative g)))"

lemma temp_path_length: "p \<noteq> [] \<Longrightarrow> length (temp_path pid s p) = length p"
  by (cases p rule: rev_cases) (simp_all add: temp_path_def)

lemma temp_path_not_self: "p \<noteq> [] \<Longrightarrow> temp_path pid s p \<noteq> p"
proof
  assume "p \<noteq> []" and "temp_path pid s p = p"
  then have "length (last (temp_path pid s p)) = length (last p)" by simp
  then show False by (simp add: temp_path_def)
qed

lemma create_dirs_tree_wf:
  assumes "tree_wf t" and "create_dir_all faults p t = (True, t')"
  shows "tree_wf t'"
proof (rule tree_wfI)
  show "bt_wf t'" using create_dir_all_effect [OF assms(2)] assms(1) by (simp add: tree_wf_def)
next
  fix r n q assume r: "bt_get t' r = Some n" and q: "q \<in> set (ancestors r)"
  from create_dir_all_effect [OF assms(2), of r] r consider "bt_get t r = Some n" | "r \<in> set (ancestors p)"
    by (auto simp: grows_def)
  then show "bt_get t' q = Some DirNode"
  proof cases
    case 1
    with tree_wf_ancestors [OF assms(1) 1 q] create_dir_all_effect [OF assms(2), of q] show ?thesis
      by (auto simp: grows_def)
  next
    case 2
    with q ancestors_trans create_dir_all_effect [OF assms(2), of q] show ?thesis by blast
  qed
qed

lemma write_target_tree_wf:
  assumes "tree_wf t" and "bt_get t p \<noteq> Some DirNode" and "\<forall>q \<in> set (ancestors p). bt_get t q = Some DirNode"
    and "bt_wf t'" and "\<forall>q. bt_get t' q = (if q = p then Some n else bt_get t q)"
  shows "tree_wf t'"
proof (rule tree_wfI [OF assms(4)])
  fix r m q assume r: "bt_get t' r = Some m" and q: "q \<in> set (ancestors r)"
  show "bt_get t' q = Some DirNode"
  proof (cases "r = p")
    case True
    with q assms(3,5) not_own_ancestor show ?thesis by auto
  next
    case False
    with r assms(5) have "bt_get t r = Some m" by simp
    from tree_wf_ancestors [OF assms(1) this q] assms(2,5) show ?thesis by auto
  qed
qed

lemma apply_file_writable:
  assumes "tree_wf (cf_tree fs)" and "\<forall>q. \<not> cf_stat_fault fs q" and "no_write_fault (faults (pf_relative f))"
    and "writable pid (cf_tree fs) f" and "pf_relative f \<noteq> []"
  obtains fs' seq' where "apply_file faults pid fs f seq = (None, fs', seq')"
    and "tree_wf (cf_tree fs')" and "\<forall>q. \<not> cf_stat_fault fs' q"
proof -
  let ?p = "pf_relative f" and ?fl = "faults (pf_relative f)" and ?temp = "temp_path pid seq (pf_relative f)"
  have anc: "\<forall>q \<in> set (ancestors ?p). bt_get (cf_tree fs) q = None \<or> bt_get (cf_tree fs) q = Some DirNode"
    and tgt: "bt_get (cf_tree fs) ?p \<noteq> Some DirNode" "bt_get (cf_tree fs) ?p \<noteq> Some LinkNode"
    and tmp: "bt_get (cf_tree fs) ?temp = None"
    using assms(4) by (auto simp: writable_def)
  have r1: "reject_symlinked_ancestors fs ?p = None"
    using reject_None_iff [OF assms(1,2)] anc by blast
  obtain t2 where c: "create_dir_all ?fl ?p (cf_tree fs) = (True, t2)"
    using create_dirs_ok [OF anc] assms(3) by (cases "create_dirs (ancestors ?p) (cf_tree fs)")
      (simp add: create_dir_all_def no_write_fault_def)
  note eff = create_dir_all_effect [OF c] and w2 = create_dirs_tree_wf [OF assms(1) c]
  let ?fs2 = "fs\<lparr>cf_tree := t2\<rparr>"
  have dirs: "\<forall>q \<in> set (ancestors ?p). bt_get t2 q = Some DirNode" using eff by blast
  have r2: "reject_symlinked_ancestors ?fs2 ?p = None"
    using reject_None_iff [of ?fs2 ?p] w2 assms(2) dirs by simp
  have same: "bt_get t2 q = bt_get (cf_tree fs) q" if "q \<notin> set (ancestors ?p)" for q
    using eff [of q] that by (auto simp: grows_def)
  have tl: "?temp \<notin> set (ancestors ?p)"
    using ancestors_shorter [of ?temp ?p] temp_path_length [OF assms(5)] by fastforce
  let ?t3 = "bt_insert ?temp (FileNode (pf_contents f)) t2"
  have t3: "bt_get ?t3 ?p = bt_get (cf_tree fs) ?p" "\<forall>q \<in> set (ancestors ?p). bt_get ?t3 q = Some DirNode"
    using same [OF not_own_ancestor] temp_path_not_self [OF assms(5)] dirs tl
    by (auto simp: bt_get_insert) metis
  have "symlink_metadata (?fs2\<lparr>cf_tree := ?t3\<rparr>) ?p \<noteq> Inr LinkNode"
  proof -
    have "List.find (\<lambda>q. bt_get ?t3 q \<noteq> Some DirNode) (ancestors ?p) = None"
      using t3(2) by (auto simp: find_None_iff)
    with t3(1) tgt(2) show ?thesis by (auto simp: symlink_metadata_def split: option.splits)
  qed
  then obtain t4 where w: "write_through_temp ?fl ?fs2 ?temp f t2 = (True, t4)"
    using assms(3) same [OF tl] tmp t3(1) tgt(1)
    by (simp add: write_through_temp_def no_write_fault_def Let_def)
  have a: "apply_file faults pid fs f seq = (None, fs\<lparr>cf_tree := t4\<rparr>, Suc seq mod 2 ^ 64)"
    by (simp add: apply_file_def Let_def r1 c r2 w)
  have "tree_wf t4"
  proof (rule write_target_tree_wf [OF w2 _ dirs])
    show "bt_get t2 ?p \<noteq> Some DirNode" using same [OF not_own_ancestor] tgt(1) by simp
    show "bt_wf t4" using write_effect [OF w] w2 by (simp add: tree_wf_def)
    show "\<forall>q. bt_get t4 q = (if q = ?p then Some (FileNode (pf_contents f)) else bt_get t2 q)"
      using write_effect [OF w] by simp
  qed
  with that [OF a] assms(2) show ?thesis by simp
qed

lemma writable_kept:
  assumes "apply_file faults pid fs f seq = (None, fs', seq')" and "writable pid (cf_tree fs) g"
    and "pf_relative f \<noteq> pf_relative g" and "apart pid f g" and "apart pid g f"
  shows "writable pid (cf_tree fs') g"
proof -
  note eff = apply_file_ok [OF assms(1)]
  have g: "grows (pf_relative f) (cf_tree fs) (cf_tree fs') q" if "q \<noteq> pf_relative f" for q
    using eff [of q] that by simp
  have 1: "\<forall>q \<in> set (ancestors (pf_relative g)). bt_get (cf_tree fs') q = None \<or> bt_get (cf_tree fs') q = Some DirNode"
  proof
    fix q assume q: "q \<in> set (ancestors (pf_relative g))"
    then have "q \<noteq> pf_relative f" using assms(4) by (auto simp: apart_def)
    from g [OF this] q assms(2) show "bt_get (cf_tree fs') q = None \<or> bt_get (cf_tree fs') q = Some DirNode"
      unfolding writable_def grows_def by metis
  qed
  have 2: "bt_get (cf_tree fs') (pf_relative g) = bt_get (cf_tree fs) (pf_relative g)"
    using g [of "pf_relative g"] assms(3,5) by (auto simp: apart_def grows_def)
  have 3: "bt_get (cf_tree fs') (temp_path pid s (pf_relative g)) = None" for s
    using g [of "temp_path pid s (pf_relative g)"] assms(2,5) by (auto simp: writable_def apart_def grows_def)
  from 1 2 3 assms(2) show ?thesis by (simp add: writable_def)
qed

lemma apply_files_writable:
  "tree_wf (cf_tree fs) \<Longrightarrow> \<forall>q. \<not> cf_stat_fault fs q \<Longrightarrow> distinct (map pf_relative files) \<Longrightarrow>
   \<forall>f \<in> set files. no_write_fault (faults (pf_relative f)) \<and> pf_relative f \<noteq> [] \<and> writable pid (cf_tree fs) f \<Longrightarrow>
   \<forall>f \<in> set files. \<forall>g \<in> set files. apart pid f g \<Longrightarrow>
   fst (apply_files faults pid fs files seq) = None"
proof (induction files arbitrary: fs seq)
  case (Cons f files)
  obtain fs1 seq1 where a: "apply_file faults pid fs f seq = (None, fs1, seq1)" "tree_wf (cf_tree fs1)"
    "\<forall>q. \<not> cf_stat_fault fs1 q"
    using apply_file_writable [OF Cons.prems(1,2), of faults f pid seq] Cons.prems(4) by auto
  have "writable pid (cf_tree fs1) g" if "g \<in> set files" for g
  proof (rule writable_kept [OF a(1)])
    show "pf_relative f \<noteq> pf_relative g" using Cons.prems(3) that by auto
  qed (use Cons.prems(4,5) that in simp_all)
  with Cons a show ?case by simp
qed simp

text \<open>
  C16: A validated plan can be applied. If the host injects no failure, no planned file lies below another and
  the temporary names are free, then \<open>apply_plan\<close> succeeds on the tree the plan was made for.
\<close>

theorem validated_plan_applies:
  assumes "plan_patches fs patches new_files limits = Inr plan" and "tree_wf (cf_tree fs)"
    and "\<forall>q. \<not> cf_stat_fault fs q" and "\<forall>p. no_write_fault (faults p)"
    and "\<forall>f \<in> set (pp_files plan). \<forall>g \<in> set (pp_files plan). apart pid f g"
    and "\<forall>f \<in> set (pp_files plan). \<forall>s. bt_get (cf_tree fs) (temp_path pid s (pf_relative f)) = None"
  shows "\<exists>fs' seq'. apply_plan faults pid fs plan seq = (None, fs', seq')"
proof -
  from plan_patches_run [OF assms(1)] obtain ps ns where "plan_run fs patches new_files limits plan ps ns" .
  from plan_run_relatives [OF this] have d: "distinct (map pf_relative (pp_files plan))"
    and f: "\<And>f. f \<in> set (pp_files plan) \<Longrightarrow> inside_candidate (pf_relative f) \<and>
      reject_symlinked_ancestors fs (pf_relative f) = None \<and>
      (if pf_existed f then \<exists>c. read_candidate_file fs (pf_relative f) = Inr c
       else isl (symlink_metadata fs (pf_relative f)))" by blast+
  have tgt: "bt_get (cf_tree fs) (pf_relative f) \<noteq> Some DirNode \<and> bt_get (cf_tree fs) (pf_relative f) \<noteq> Some LinkNode"
    if "f \<in> set (pp_files plan)" for f
    using f [OF that] read_regular [OF assms(2)] metadata_present [OF assms(2), of "pf_relative f"] assms(3)
    by (cases "pf_existed f") auto
  have "writable pid (cf_tree fs) f" if "f \<in> set (pp_files plan)" for f
    using f [OF that] tgt [OF that] reject_None [OF assms(2)] assms(6) that by (auto simp: writable_def)
  with apply_files_writable [OF assms(2,3) d _ assms(5), of faults seq] f assms(4)
  have "fst (apply_plan faults pid fs plan seq) = None"
    by (simp add: apply_plan_def inside_candidate_def)
  then show ?thesis by (metis prod.exhaust_sel)
qed

section \<open>A plan that cannot be applied\<close>

definition sample_fs :: candidate_fs where
  "sample_fs = \<lparr>cf_tree = [([''src''], DirNode), ([''src'', ''lib.rs''], FileNode ''fn a() {} fn b() {}'')],
     cf_behind_link = (\<lambda>_. Inl NotFound), cf_stat_fault = (\<lambda>_. False), cf_read_fault = (\<lambda>_. False)\<rparr>"

definition sample_limits :: candidate_limits where
  "sample_limits = \<lparr>cl_current_files = 1, cl_current_bytes = 19, cl_max_files = 8, cl_max_bytes = 64\<rparr>"

definition sample_faults :: "rel_path \<Rightarrow> write_faults" where
  "sample_faults p = \<lparr>wf_create_dirs = None, wf_open = False, wf_write = None, wf_rename = False, wf_remove = False\<rparr>"

definition clash_files :: "new_file_input list" where
  "clash_files = [\<lparr>nf_file = ''x'', nf_content = ''1''\<rparr>, \<lparr>nf_file = ''x/y'', nf_content = ''2''\<rparr>]"

text \<open>
  Validation does not find every conflict. Two new files, one of which lies below the other, pass
  \<open>plan_patches\<close> although no tree can hold both, and without any fault of the host
  \<open>apply_plan\<close> fails after it has written the first of them.
\<close>

theorem nested_new_files_fail_after_validation:
  "\<exists>plan fs' seq'. plan_patches sample_fs [] clash_files sample_limits = Inr plan \<and>
     apply_plan sample_faults 7 sample_fs plan 0 = (Some (ComponentNotDirectory [''x'', ''y'']), fs', seq') \<and>
     bt_get (cf_tree fs') [''x''] = Some (FileNode ''1'')"
proof -
  let ?plan = "case plan_patches sample_fs [] clash_files sample_limits of Inr p \<Rightarrow> p"
  have "\<not> isl (plan_patches sample_fs [] clash_files sample_limits)" by code_simp
  then have "plan_patches sample_fs [] clash_files sample_limits = Inr ?plan"
    by (auto split: sum.splits)
  moreover have "fst (apply_plan sample_faults 7 sample_fs ?plan 0) = Some (ComponentNotDirectory [''x'', ''y''])" by code_simp
  moreover have "bt_get (cf_tree (fst (snd (apply_plan sample_faults 7 sample_fs ?plan 0)))) [''x''] = Some (FileNode ''1'')"
    by code_simp
  ultimately show ?thesis by (metis prod.exhaust_sel)
qed

section \<open>A concrete run\<close>

definition sample_patches :: "patch_input list" where
  "sample_patches =
     [\<lparr>pi_file = ''src/lib.rs'', pi_old_string = ''fn b'', pi_new_string = ''fn c''\<rparr>,
      \<lparr>pi_file = ''./src/lib.rs'', pi_old_string = ''fn a'', pi_new_string = ''pub fn b''\<rparr>]"

definition sample_new_files :: "new_file_input list" where
  "sample_new_files = [\<lparr>nf_file = ''doc/n.md'', nf_content = ''n''\<rparr>]"

definition sample_plan :: patch_plan where
  "sample_plan =
     \<lparr>pp_files = [\<lparr>pf_relative = [''src'', ''lib.rs''], pf_contents = ''pub fn b() {} fn c() {}'', pf_existed = True,
                    pf_previous_bytes = 19\<rparr>,
                  \<lparr>pf_relative = [''doc'', ''n.md''], pf_contents = ''n'', pf_existed = False, pf_previous_bytes = 0\<rparr>],
      pp_patches = sample_patches,
      pp_new_files = [\<lparr>pn_relative = [''doc'', ''n.md''], pn_content = ''n''\<rparr>]\<rparr>"

lemma sample_planned: "plan_patches sample_fs sample_patches sample_new_files sample_limits = Inr sample_plan"
  by code_simp

lemma ancestors_small: "ancestors [a] = []" "ancestors [a, b] = [[a]]"
  by (simp_all add: ancestors_def)

lemma sample_tree: "tree_wf (cf_tree sample_fs)" "\<forall>q. \<not> cf_stat_fault sample_fs q"
  by (simp_all add: tree_wf_def sample_fs_def ancestors_small less_list_code)

lemma sample_files:
  "f \<in> set (pp_files sample_plan) \<longleftrightarrow>
     f = \<lparr>pf_relative = [''src'', ''lib.rs''], pf_contents = ''pub fn b() {} fn c() {}'', pf_existed = True,
          pf_previous_bytes = 19\<rparr> \<or>
     f = \<lparr>pf_relative = [''doc'', ''n.md''], pf_contents = ''n'', pf_existed = False, pf_previous_bytes = 0\<rparr>"
  by (simp add: sample_plan_def)

theorem plan_is_simultaneous_edit_witness:
  "\<exists>es tail. old_text es tail = ''fn a() {} fn b() {}'' \<and> new_text es tail = ''pub fn b() {} fn c() {}'' \<and>
     mset (map snd es) = {#(''fn b'', ''fn c''), (''fn a'', ''pub fn b'')#}"
proof -
  have r: "read_candidate_file sample_fs [''src'', ''lib.rs''] = Inr ''fn a() {} fn b() {}''" by code_simp
  have "candidate_relative ''src/lib.rs'' = Inr [''src'', ''lib.rs'']" "candidate_relative ''./src/lib.rs'' = Inr [''src'', ''lib.rs'']"
    by code_simp+
  then have "edits_of [''src'', ''lib.rs''] sample_patches = {#(''fn b'', ''fn c''), (''fn a'', ''pub fn b'')#}"
    by (simp add: edits_of_def sample_patches_def)
  with plan_is_simultaneous_edit [OF sample_planned, of "hd (pp_files sample_plan)"] r obtain es tail where
    "old_text es tail = ''fn a() {} fn b() {}''" "new_text es tail = ''pub fn b() {} fn c() {}''"
    "mset (map snd es) = {#(''fn b'', ''fn c''), (''fn a'', ''pub fn b'')#}"
    by (auto simp: sample_plan_def)
  then show ?thesis by blast
qed

theorem plan_respects_limits_witness:
  "cl_current_files sample_limits + length (filter (\<lambda>f. \<not> pf_existed f) (pp_files sample_plan)) \<le> cl_max_files sample_limits"
proof -
  have "cl_current_files sample_limits + length sample_new_files \<le> u64_max" by code_simp
  from plan_respects_limits [OF sample_planned this] show ?thesis by blast
qed

theorem plan_stays_inside_candidate_witness:
  "distinct (map pf_relative (pp_files sample_plan)) \<and>
   inside_candidate [''src'', ''lib.rs''] \<and> (\<exists>c. bt_get (cf_tree sample_fs) [''src'', ''lib.rs''] = Some (FileNode c)) \<and>
   inside_candidate [''doc'', ''n.md''] \<and> bt_get (cf_tree sample_fs) [''doc'', ''n.md''] = None \<and>
   (bt_get (cf_tree sample_fs) [''doc''] = None \<or> bt_get (cf_tree sample_fs) [''doc''] = Some DirNode)"
  using plan_stays_inside_candidate [OF sample_planned sample_tree(1)] sample_tree(2)
  by (simp add: sample_plan_def ancestors_small)

lemma sample_temps:
  "f \<in> set (pp_files sample_plan) \<Longrightarrow> g \<in> set (pp_files sample_plan) \<Longrightarrow>
   temp_path 7 s (pf_relative f) \<noteq> pf_relative g \<and> temp_path 7 s (pf_relative f) \<noteq> [''src''] \<and>
   bt_get (cf_tree sample_fs) (temp_path 7 s (pf_relative f)) = None \<and>
   temp_path 7 s (pf_relative f) \<notin> set (ancestors (pf_relative g))"
  by (auto simp: sample_files temp_path_def sample_fs_def ancestors_small)

theorem validated_plan_applies_witness:
  "\<exists>fs' seq'. apply_plan sample_faults 7 sample_fs sample_plan 0 = (None, fs', seq')"
proof (rule validated_plan_applies [OF sample_planned sample_tree])
  show "\<forall>p. no_write_fault (sample_faults p)" by (simp add: no_write_fault_def sample_faults_def)
  show "\<forall>f \<in> set (pp_files sample_plan). \<forall>g \<in> set (pp_files sample_plan). apart 7 f g"
    using sample_temps by (auto simp: apart_def sample_files ancestors_small)
  show "\<forall>f \<in> set (pp_files sample_plan). \<forall>s. bt_get (cf_tree sample_fs) (temp_path 7 s (pf_relative f)) = None"
    using sample_temps by blast
qed

theorem apply_writes_the_plan_witness:
  "bt_get (cf_tree (fst (snd (apply_plan sample_faults 7 sample_fs sample_plan 0)))) [''doc'', ''n.md''] = Some (FileNode ''n'')"
proof -
  have "fst (apply_plan sample_faults 7 sample_fs sample_plan 0) = None" by code_simp
  then have "apply_plan sample_faults 7 sample_fs sample_plan 0 =
      (None, fst (snd (apply_plan sample_faults 7 sample_fs sample_plan 0)),
       snd (snd (apply_plan sample_faults 7 sample_fs sample_plan 0)))" by (metis prod.collapse)
  from bspec [OF conjunct1 [OF apply_writes_the_plan [OF sample_planned this]], of "pp_files sample_plan ! 1"]
  show ?thesis by (simp add: sample_plan_def)
qed

text \<open>The write of the second file fails half-way and its bytes cannot even be removed.\<close>

definition torn_faults :: "rel_path \<Rightarrow> write_faults" where
  "torn_faults p = \<lparr>wf_create_dirs = None, wf_open = False,
     wf_write = (if hd p = ''doc'' then Some ''?'' else None), wf_rename = False, wf_remove = True\<rparr>"

theorem apply_writes_whole_files_witness:
  "fst (apply_plan torn_faults 7 sample_fs sample_plan 0) = Some (CannotApply [''doc'', ''n.md'']) \<and>
   bt_get (cf_tree (fst (snd (apply_plan torn_faults 7 sample_fs sample_plan 0)))) (temp_path 7 1 [''doc'', ''n.md'']) =
     Some (FileNode ''?'') \<and>
   written_or_kept (pp_files sample_plan) (cf_tree sample_fs)
     (cf_tree (fst (snd (apply_plan torn_faults 7 sample_fs sample_plan 0)))) [''doc'', ''n.md''] \<and>
   written_or_kept (pp_files sample_plan) (cf_tree sample_fs)
     (cf_tree (fst (snd (apply_plan torn_faults 7 sample_fs sample_plan 0)))) [''src'', ''lib.rs'']"
proof -
  let ?r = "apply_plan torn_faults 7 sample_fs sample_plan 0"
  have failed: "fst ?r = Some (CannotApply [''doc'', ''n.md''])" by code_simp
  have torn: "bt_get (cf_tree (fst (snd ?r))) (temp_path 7 1 [''doc'', ''n.md'']) = Some (FileNode ''?'')" by code_simp
  have "?r = (fst ?r, fst (snd ?r), snd (snd ?r))" by simp
  from apply_writes_whole_files [OF this] failed obtain f s where f: "f \<in> set (pp_files sample_plan)"
    and kept: "\<And>q. q \<noteq> temp_path 7 s (pf_relative f) \<Longrightarrow>
      written_or_kept (pp_files sample_plan) (cf_tree sample_fs) (cf_tree (fst (snd ?r))) q"
    by (auto split: if_splits)
  have "[''doc'', ''n.md''] \<noteq> temp_path 7 s (pf_relative f)" "[''src'', ''lib.rs''] \<noteq> temp_path 7 s (pf_relative f)"
    using f by (auto simp: sample_files temp_path_def)
  with kept failed torn show ?thesis by blast
qed

end
