(* ===== verification/Package_Graph.thy ===== *)
theory Package_Graph
  imports Btree_Map "HOL-Library.Product_Lexorder"
begin

text \<open>
  The package graph of a Cargo workspace (\<open>workspace/graph.rs\<close>). The metadata records carry the fields
  the code reads of the \<open>cargo_metadata\<close> types. A path is the list of its components.
\<close>

section \<open>Data\<close>

datatype dependency_kind = KindNormal | KindDevelopment | KindBuild | KindUnknown

record dep_entry =
  de_name :: string
  de_pkg :: string
  de_kinds :: "dependency_kind list"

record resolve_node =
  rn_id :: string
  rn_dependencies :: "string list"
  rn_deps :: "dep_entry list"
  rn_features :: "string list"

record package_entry =
  pe_id :: string
  pe_name :: string
  pe_version :: string
  pe_manifest_path :: "component list"
  pe_source :: "string option"

record cargo_metadata =
  cm_workspace_members :: "string list"
  cm_packages :: "package_entry list"
  cm_resolve :: "resolve_node list option"

record package_node =
  pkn_package_id :: string
  pkn_name :: string
  pkn_version :: string
  pkn_manifest_path :: "component list"
  pkn_root :: "component list"
  pkn_workspace_member :: bool
  pkn_external_path :: bool
  pkn_enabled_features :: "string list"

record package_edge =
  pke_from :: string
  pke_to :: string
  pke_dependency_name :: string
  pke_kinds :: "dependency_kind list"

record package_graph =
  pg_nodes :: "(string, package_node) btree_map"
  pg_outgoing :: "(string, package_edge list) btree_map"
  pg_incoming :: "(string, package_edge list) btree_map"

definition package_graph_default :: package_graph where
  "package_graph_default = \<lparr>pg_nodes = [], pg_outgoing = [], pg_incoming = []\<rparr>"

definition edges_at :: "(string, package_edge list) btree_map \<Rightarrow> string \<Rightarrow> package_edge list" where
  "edges_at m k = (case bt_get m k of None \<Rightarrow> [] | Some es \<Rightarrow> es)"

definition outgoing :: "package_graph \<Rightarrow> string \<Rightarrow> package_edge list" where
  "outgoing g k = edges_at (pg_outgoing g) k"

definition incoming :: "package_graph \<Rightarrow> string \<Rightarrow> package_edge list" where
  "incoming g k = edges_at (pg_incoming g) k"

definition external_path_roots :: "package_graph \<Rightarrow> component list list" where
  "external_path_roots g = map pkn_root (filter pkn_external_path (bt_values (pg_nodes g)))"

section \<open>Reverse dependents\<close>

fun insert_seeds :: "string list \<Rightarrow> string set \<times> string list \<Rightarrow> string set \<times> string list" where
  "insert_seeds [] st = st"
| "insert_seeds (seed # seeds) (affected, queue) =
     insert_seeds seeds (if seed \<in> affected then (affected, queue) else (insert seed affected, queue @ [seed]))"

definition dependent_ids :: "package_graph \<Rightarrow> string list" where
  "dependent_ids g = map pke_from (concat (bt_values (pg_incoming g)))"

lemma insert_seeds_effect:
  "fst (insert_seeds seeds (affected, queue)) = affected \<union> set seeds \<and>
   set (snd (insert_seeds seeds (affected, queue))) = set queue \<union> (set seeds - affected)"
  by (induction seeds arbitrary: affected queue) auto

lemma insert_seeds_none:
  "set seeds \<subseteq> affected \<Longrightarrow> insert_seeds seeds (affected, queue) = (affected, queue)"
  by (induction seeds) auto

lemma incoming_ids: "set (map pke_from (incoming g k)) \<subseteq> set (dependent_ids g)"
  by (auto simp: incoming_def edges_at_def dependent_ids_def split: option.splits dest!: sym [of "Some _"] bt_get_values)

text \<open>
  The work list of \<open>reverse_dependents\<close>. Each turn either inserts a package that was not affected
  before or only shortens the queue.
\<close>

function visit :: "package_graph \<Rightarrow> string set \<times> string list \<Rightarrow> string set" where
  "visit g (affected, []) = affected"
| "visit g (affected, package_id # queue) =
     visit g (insert_seeds (map pke_from (incoming g package_id)) (affected, queue))"
  by pat_completeness auto
termination
proof (relation "measures [\<lambda>(g, st). card (set (dependent_ids g) - fst st), \<lambda>(g, st). length (snd st)]")
  fix g affected package_id queue
  let ?new = "map pke_from (incoming g package_id)"
  let ?st = "insert_seeds ?new (affected, queue)"
  show "((g, ?st), (g, (affected, package_id # queue))) \<in>
      measures [\<lambda>(g, st). card (set (dependent_ids g) - fst st), \<lambda>(g, st). length (snd st)]"
  proof (cases "set ?new \<subseteq> affected")
    case True
    then show ?thesis by (simp add: insert_seeds_none [OF True])
  next
    case False
    then obtain x where x: "x \<in> set ?new" "x \<notin> affected" by blast
    then have "x \<in> set (dependent_ids g) - affected" "x \<in> fst ?st"
      using incoming_ids [of g package_id] insert_seeds_effect [of ?new affected queue] by blast+
    moreover have "affected \<subseteq> fst ?st" using insert_seeds_effect [of ?new affected queue] by blast
    ultimately have "set (dependent_ids g) - fst ?st \<subset> set (dependent_ids g) - affected" by blast
    then have "card (set (dependent_ids g) - fst ?st) < card (set (dependent_ids g) - affected)"
      by (intro psubset_card_mono) simp_all
    then show ?thesis by simp
  qed
qed simp

definition reverse_dependents :: "package_graph \<Rightarrow> string list \<Rightarrow> string set" where
  "reverse_dependents g seeds = visit g (insert_seeds seeds ({}, []))"

definition affected_by_paths :: "package_graph \<Rightarrow> component list list \<Rightarrow> string set" where
  "affected_by_paths g paths =
     reverse_dependents g
       (map pkn_package_id (filter (\<lambda>node. list_ex (\<lambda>path. path = pkn_root node \<or> starts_with path (pkn_root node)) paths)
          (bt_values (pg_nodes g))))"

section \<open>Building the graph\<close>

fun dependency_kind_rank :: "dependency_kind \<Rightarrow> nat" where
  "dependency_kind_rank KindNormal = 0"
| "dependency_kind_rank KindDevelopment = 1"
| "dependency_kind_rank KindBuild = 2"
| "dependency_kind_rank KindUnknown = 3"

definition sorted_dependency_kinds :: "dependency_kind list \<Rightarrow> dependency_kind list" where
  "sorted_dependency_kinds kinds = remdups_adj (sort_key dependency_kind_rank kinds)"

definition push_edge :: "string \<Rightarrow> package_edge \<Rightarrow> (string, package_edge list) btree_map \<Rightarrow> (string, package_edge list) btree_map" where
  "push_edge k e m = bt_insert k (edges_at m k @ [e]) m"

definition add_edge :: "package_graph \<Rightarrow> package_edge \<Rightarrow> package_graph" where
  "add_edge g e =
     (if \<not> bt_contains (pg_nodes g) (pke_to e) then g
      else if e \<in> set (edges_at (pg_outgoing g) (pke_from e)) then g
      else g\<lparr>pg_outgoing := push_edge (pke_from e) e (pg_outgoing g),
             pg_incoming := push_edge (pke_to e) e (pg_incoming g)\<rparr>)"

definition parent_path :: "component list \<Rightarrow> component list" where
  "parent_path p = (if p = [] \<or> p = [RootDir] then p else butlast p)"

text \<open>On Unix the canonical spelling of a path is the path (\<open>workspace/roots.rs\<close>).\<close>

definition canonical_spelling :: "component list \<Rightarrow> component list" where
  "canonical_spelling path = path"

definition add_package ::
  "cargo_metadata \<Rightarrow> package_graph \<Rightarrow> package_entry \<Rightarrow> package_graph" where
  "add_package m g p =
     (let manifest = canonical_spelling (pe_manifest_path p);
          member = pe_id p \<in> set (cm_workspace_members m);
          features = (case cm_resolve m of
              None \<Rightarrow> []
            | Some nodes \<Rightarrow>
                (case List.find (\<lambda>n. rn_id n = pe_id p) nodes of None \<Rightarrow> [] | Some n \<Rightarrow> rn_features n))
      in g\<lparr>pg_nodes := bt_insert (pe_id p)
            \<lparr>pkn_package_id = pe_id p, pkn_name = pe_name p, pkn_version = pe_version p,
             pkn_manifest_path = manifest, pkn_root = parent_path manifest, pkn_workspace_member = member,
             pkn_external_path = (pe_source p = None \<and> \<not> member), pkn_enabled_features = features\<rparr> (pg_nodes g)\<rparr>)"

text \<open>The edges of one resolved node, from the structured entries or, without any, from the plain ids.\<close>

definition node_edges :: "(string, package_node) btree_map \<Rightarrow> resolve_node \<Rightarrow> package_edge list" where
  "node_edges nodes n =
     (if rn_deps n = [] then
        map (\<lambda>d. \<lparr>pke_from = rn_id n, pke_to = d,
                  pke_dependency_name = (case bt_get nodes d of None \<Rightarrow> [] | Some p \<Rightarrow> pkn_name p),
                  pke_kinds = [KindNormal]\<rparr>) (rn_dependencies n)
      else
        map (\<lambda>d. \<lparr>pke_from = rn_id n, pke_to = de_pkg d, pke_dependency_name = de_name d,
                  pke_kinds = sorted_dependency_kinds (de_kinds d)\<rparr>) (rn_deps n))"

definition add_node_edges :: "package_graph \<Rightarrow> resolve_node \<Rightarrow> package_graph" where
  "add_node_edges g n =
     (if bt_contains (pg_nodes g) (rn_id n) then foldl add_edge g (node_edges (pg_nodes g) n) else g)"

definition sort_edges :: "(package_edge \<Rightarrow> string) \<Rightarrow> (string, package_edge list) btree_map \<Rightarrow> (string, package_edge list) btree_map" where
  "sort_edges endpoint m =
     bt_map_values (sort_key (\<lambda>e. (endpoint e, pke_dependency_name e, map dependency_kind_rank (pke_kinds e)))) m"

definition build_package_graph ::
  "cargo_metadata \<Rightarrow> package_graph" where
  "build_package_graph m =
     (let g = foldl (add_package m) package_graph_default (cm_packages m);
          g = (case cm_resolve m of None \<Rightarrow> g | Some nodes \<Rightarrow> foldl add_node_edges g nodes)
      in g\<lparr>pg_outgoing := sort_edges pke_to (pg_outgoing g), pg_incoming := sort_edges pke_from (pg_incoming g)\<rparr>)"

section \<open>The graph invariant\<close>

text \<open>
  Outgoing and incoming lists hold the same edges, filed under the right ends, without repetition, and
  both ends of every edge are packages.
\<close>

definition graph_ok :: "package_graph \<Rightarrow> bool" where
  "graph_ok g \<longleftrightarrow> bt_wf (pg_nodes g) \<and>
     (\<forall>k. distinct (outgoing g k) \<and> distinct (incoming g k)) \<and>
     (\<forall>k e. e \<in> set (outgoing g k) \<longleftrightarrow> k = pke_from e \<and> e \<in> set (incoming g (pke_to e))) \<and>
     (\<forall>k e. e \<in> set (incoming g k) \<longrightarrow> k = pke_to e \<and> e \<in> set (outgoing g (pke_from e))) \<and>
     (\<forall>k e. e \<in> set (outgoing g k) \<longrightarrow> bt_contains (pg_nodes g) (pke_from e) \<and> bt_contains (pg_nodes g) (pke_to e)) \<and>
     (\<forall>k n. bt_get (pg_nodes g) k = Some n \<longrightarrow> pkn_package_id n = k)"

lemma edges_at_push: "edges_at (push_edge k e m) j = (if j = k then edges_at m k @ [e] else edges_at m j)"
  by (simp add: edges_at_def push_edge_def bt_get_insert)

lemma graph_ok_add_edge:
  assumes "graph_ok g" and "bt_contains (pg_nodes g) (pke_from e)"
  shows "graph_ok (add_edge g e)"
proof (cases "bt_contains (pg_nodes g) (pke_to e) \<and> e \<notin> set (outgoing g (pke_from e))")
  case True
  then have new: "e \<notin> set (incoming g (pke_to e))" using assms(1) by (auto simp: graph_ok_def)
  have g': "add_edge g e = g\<lparr>pg_outgoing := push_edge (pke_from e) e (pg_outgoing g),
      pg_incoming := push_edge (pke_to e) e (pg_incoming g)\<rparr>"
    using True by (simp add: add_edge_def outgoing_def)
  have o: "outgoing (add_edge g e) k = (if k = pke_from e then outgoing g k @ [e] else outgoing g k)"
    and i: "incoming (add_edge g e) k = (if k = pke_to e then incoming g k @ [e] else incoming g k)" for k
    by (simp_all add: g' outgoing_def incoming_def edges_at_push)
  have n: "pg_nodes (add_edge g e) = pg_nodes g" by (simp add: g')
  show ?thesis
    using assms True new unfolding graph_ok_def n by (auto simp: o i)
next
  case False
  with assms(1) show ?thesis by (auto simp: add_edge_def outgoing_def)
qed

lemma add_edge_nodes [simp]: "pg_nodes (add_edge g e) = pg_nodes g"
  by (simp add: add_edge_def)

lemma graph_ok_add_edges:
  "graph_ok g \<Longrightarrow> \<forall>e \<in> set es. bt_contains (pg_nodes g) (pke_from e) \<Longrightarrow>
   graph_ok (foldl add_edge g es) \<and> pg_nodes (foldl add_edge g es) = pg_nodes g"
proof (induction es arbitrary: g)
  case (Cons e es)
  then show ?case using Cons.IH [of "add_edge g e"] graph_ok_add_edge [of g e] by simp
qed simp

lemma graph_ok_add_node_edges:
  "graph_ok g \<Longrightarrow> graph_ok (add_node_edges g n) \<and> pg_nodes (add_node_edges g n) = pg_nodes g"
  using graph_ok_add_edges [of g "node_edges (pg_nodes g) n"]
  by (auto simp: add_node_edges_def node_edges_def)

lemma graph_ok_resolved: "graph_ok g \<Longrightarrow> graph_ok (foldl add_node_edges g nodes)"
  by (induction nodes arbitrary: g) (auto simp: graph_ok_add_node_edges)

lemma graph_ok_packages:
  assumes "graph_ok g" and "pg_outgoing g = []" and "pg_incoming g = []"
  shows "graph_ok (foldl (add_package m) g ps) \<and> pg_outgoing (foldl (add_package m) g ps) = [] \<and>
    pg_incoming (foldl (add_package m) g ps) = []"
  using assms
proof (induction ps arbitrary: g)
  case (Cons p ps)
  let ?g = "add_package m g p"
  have "graph_ok ?g" "pg_outgoing ?g = []" "pg_incoming ?g = []"
    using Cons.prems
    by (auto simp: add_package_def graph_ok_def Let_def bt_wf_insert bt_get_insert outgoing_def incoming_def
        edges_at_def split: if_splits)
  with Cons.IH show ?case by simp
qed simp

lemma edges_at_sort: "edges_at (sort_edges f m) k =
    sort_key (\<lambda>e. (f e, pke_dependency_name e, map dependency_kind_rank (pke_kinds e))) (edges_at m k)"
  by (simp add: edges_at_def sort_edges_def split: option.splits)

lemma graph_ok_sorted:
  "graph_ok g \<Longrightarrow>
   graph_ok (g\<lparr>pg_outgoing := sort_edges f (pg_outgoing g), pg_incoming := sort_edges h (pg_incoming g)\<rparr>)"
  by (auto simp: graph_ok_def outgoing_def incoming_def edges_at_sort)

lemma build_graph_ok: "graph_ok (build_package_graph m)"
proof -
  have "graph_ok package_graph_default"
    by (simp add: graph_ok_def package_graph_default_def outgoing_def incoming_def edges_at_def)
  then have "graph_ok (foldl (add_package m) package_graph_default (cm_packages m))"
    using graph_ok_packages by (simp add: package_graph_default_def)
  then show ?thesis
    unfolding build_package_graph_def Let_def
    by (intro graph_ok_sorted) (auto intro: graph_ok_resolved split: option.splits)
qed

section \<open>Correctness of the traversal\<close>

definition depends :: "package_graph \<Rightarrow> (string \<times> string) set" where
  "depends g = {(pke_from e, pke_to e) |e k. e \<in> set (outgoing g k)}"

definition dependents :: "package_graph \<Rightarrow> (string \<times> string) set" where
  "dependents g = {(pke_from e, k) |e k. e \<in> set (incoming g k)}"

lemma dependents_depends: "graph_ok g \<Longrightarrow> dependents g = depends g"
  unfolding graph_ok_def dependents_def depends_def by blast

text \<open>
  The loop invariant: the queue is part of the affected set, and everything that depends on an affected
  package outside the queue is affected already.
\<close>

lemma visit_closed:
  "set (snd st) \<subseteq> fst st \<Longrightarrow>
   \<forall>a b. (a, b) \<in> dependents g \<longrightarrow> b \<in> fst st - set (snd st) \<longrightarrow> a \<in> fst st \<Longrightarrow>
   visit g st = {a. \<exists>b \<in> fst st. (a, b) \<in> (dependents g)\<^sup>*}"
proof (induction g st rule: visit.induct)
  case (1 g affected)
  have "a \<in> affected" if "(a, b) \<in> (dependents g)\<^sup>*" "b \<in> affected" for a b
    using that by (induction rule: converse_rtrancl_induct) (use 1 in auto)
  then show ?case by auto
next
  case (2 g affected p queue)
  let ?new = "map pke_from (incoming g p)" and ?st = "insert_seeds (map pke_from (incoming g p)) (affected, queue)"
  have A: "fst ?st = affected \<union> set ?new" and Q: "set (snd ?st) = set queue \<union> (set ?new - affected)"
    using insert_seeds_effect by blast+
  have new: "a \<in> set ?new \<longleftrightarrow> (a, p) \<in> dependents g" for a by (auto simp: dependents_def)
  have p: "p \<in> affected" "set queue \<subseteq> affected"
    and closed: "\<And>a b. (a, b) \<in> dependents g \<Longrightarrow> b \<in> affected \<Longrightarrow> b \<noteq> p \<Longrightarrow> b \<notin> set queue \<Longrightarrow> a \<in> affected"
    using 2(2,3) by auto
  have "visit g ?st = {a. \<exists>b \<in> fst ?st. (a, b) \<in> (dependents g)\<^sup>*}"
  proof (rule 2(1))
    show "set (snd ?st) \<subseteq> fst ?st" using p unfolding A Q by blast
    show "\<forall>a b. (a, b) \<in> dependents g \<longrightarrow> b \<in> fst ?st - set (snd ?st) \<longrightarrow> a \<in> fst ?st"
      unfolding A Q using closed new by blast
  qed
  moreover have "(\<exists>b \<in> fst ?st. (a, b) \<in> (dependents g)\<^sup>*) \<longleftrightarrow> (\<exists>b \<in> affected. (a, b) \<in> (dependents g)\<^sup>*)" for a
    unfolding A using p(1) new by (meson UnCI UnE rtrancl_into_rtrancl)
  ultimately show ?case by simp
qed

lemma reverse_dependents_closure:
  "reverse_dependents g seeds = {a. \<exists>s \<in> set seeds. (a, s) \<in> (dependents g)\<^sup>*}"
proof -
  obtain A Q where st: "insert_seeds seeds ({}, []) = (A, Q)" by (cases "insert_seeds seeds ({}, [])")
  then have "A = set seeds" "set Q = set seeds" using insert_seeds_effect [of seeds "{}" "[]"] by simp_all
  with visit_closed [of "(A, Q)" g] st show ?thesis by (simp add: reverse_dependents_def)
qed

text \<open>
  Building the graph keeps both directions in step: every dependency is listed once under its source and
  once under its target, only between packages of the metadata, whatever order and repetitions the
  metadata has.
\<close>

theorem build_package_graph_consistent:
  "graph_ok (build_package_graph m)"
  by (rule build_graph_ok)

text \<open>
  C21: The affected packages are exactly those that reach a changed package. On the graph built from any
  metadata, a package is reported for a set of changed paths if and only if it depends, in any number of
  steps, on a package whose directory contains one of them.
\<close>

theorem affected_by_paths_exact:
  "p \<in> affected_by_paths (build_package_graph m) paths \<longleftrightarrow>
   (\<exists>q n path. bt_get (pg_nodes (build_package_graph m)) q = Some n \<and> path \<in> set paths \<and>
      starts_with path (pkn_root n) \<and> (p, q) \<in> (depends (build_package_graph m))\<^sup>*)"
proof -
  let ?g = "build_package_graph m"
  have ok: "graph_ok ?g" by (rule build_graph_ok)
  then have w: "bt_wf (pg_nodes ?g)" and id: "\<And>k n. bt_get (pg_nodes ?g) k = Some n \<Longrightarrow> pkn_package_id n = k"
    by (auto simp: graph_ok_def)
  have v: "n \<in> set (bt_values (pg_nodes ?g)) \<longleftrightarrow> bt_get (pg_nodes ?g) (pkn_package_id n) = Some n" for n
    using bt_values_get [OF _ w] id bt_get_values by metis
  have "(path = pkn_root n \<or> starts_with path (pkn_root n)) = starts_with path (pkn_root n)"
    for path and n :: package_node
    by (auto simp: starts_with_iff)
  then have "p \<in> affected_by_paths ?g paths \<longleftrightarrow>
      (\<exists>n path. bt_get (pg_nodes ?g) (pkn_package_id n) = Some n \<and> path \<in> set paths \<and>
        starts_with path (pkn_root n) \<and> (p, pkn_package_id n) \<in> (depends ?g)\<^sup>*)"
    unfolding affected_by_paths_def reverse_dependents_closure dependents_depends [OF ok] list_ex_iff
    by (simp add: v) blast
  then show ?thesis using id by metis
qed

end
