(* ===== verification/Context_Capsule.thy ===== *)
theory Context_Capsule
  imports Btree_Map
begin

text \<open>
  The data of the \<open>context\<close> tool (\<open>context/capsule.rs\<close>): typed anchors, capsule items with their
  load-bearing priority, the identity of a capsule and the payload that goes over the wire. SHA-256 in
  hexadecimal is the argument \<open>sha\<close>, the JSON encoder the argument \<open>json\<close> of the functions that
  hash encoded values.
\<close>

definition CONTEXT_SCHEMA_VERSION :: nat where "CONTEXT_SCHEMA_VERSION = 1"

datatype context_action = Prepare | Expand | Delta

fun context_action_as_str :: "context_action \<Rightarrow> string" where
  "context_action_as_str Prepare = ''prepare''"
| "context_action_as_str Expand = ''expand''"
| "context_action_as_str Delta = ''delta''"

record anchor_range =
  ar_start_line :: nat
  ar_end_line :: nat

definition anchor_bounds :: "anchor_range \<Rightarrow> nat \<times> nat" where
  "anchor_bounds r =
     (let start = max (min (ar_start_line r) (ar_end_line r)) 1
      in (start, max (max (ar_end_line r) (ar_start_line r)) start))"

datatype context_anchor =
    FileAnchor string "anchor_range option"
  | SymbolAnchor string "string option" "nat option"

fun anchor_file :: "context_anchor \<Rightarrow> string option" where
  "anchor_file (FileAnchor f rng) = Some f"
| "anchor_file (SymbolAnchor symbol f line) = f"

datatype capsule_item_kind =
    Definition | Signature | Implementation | Consumer | TestReference | CallHierarchy | FileExcerpt
  | Package | EnabledFeature | Dependency

fun priority :: "capsule_item_kind \<Rightarrow> nat" where
  "priority Definition = 0"
| "priority Consumer = 1"
| "priority TestReference = 2"
| "priority Implementation = 3"
| "priority Signature = 4"
| "priority FileExcerpt = 5"
| "priority CallHierarchy = 6"
| "priority Package = 7"
| "priority EnabledFeature = 8"
| "priority Dependency = 9"

text \<open>The name the derived \<open>Debug\<close> prints, and the camel-case name serde writes.\<close>

fun kind_debug :: "capsule_item_kind \<Rightarrow> string" where
  "kind_debug Definition = ''Definition''"
| "kind_debug Signature = ''Signature''"
| "kind_debug Implementation = ''Implementation''"
| "kind_debug Consumer = ''Consumer''"
| "kind_debug TestReference = ''TestReference''"
| "kind_debug CallHierarchy = ''CallHierarchy''"
| "kind_debug FileExcerpt = ''FileExcerpt''"
| "kind_debug Package = ''Package''"
| "kind_debug EnabledFeature = ''EnabledFeature''"
| "kind_debug Dependency = ''Dependency''"

fun kind_camel :: "capsule_item_kind \<Rightarrow> string" where
  "kind_camel Definition = ''definition''"
| "kind_camel Signature = ''signature''"
| "kind_camel Implementation = ''implementation''"
| "kind_camel Consumer = ''consumer''"
| "kind_camel TestReference = ''testReference''"
| "kind_camel CallHierarchy = ''callHierarchy''"
| "kind_camel FileExcerpt = ''fileExcerpt''"
| "kind_camel Package = ''package''"
| "kind_camel EnabledFeature = ''enabledFeature''"
| "kind_camel Dependency = ''dependency''"

datatype item_provenance = RustAnalyzer | WorkspaceSource | CargoMetadata

datatype item_resolution = Resolved | Advisory | Unavailable

datatype omission_reason = OmitBudget | OmitItemLimit | OmitAmbiguity | OmitUnavailable | OmitOutsideWorkspace

record context_item =
  ci_id :: string
  ci_kind :: capsule_item_kind
  ci_reason :: string
  ci_provenance :: item_provenance
  ci_resolution :: item_resolution
  ci_file :: "string option"
  ci_line :: "nat option"
  ci_symbol :: "string option"
  ci_source_hash :: "string option"
  ci_stale :: bool
  ci_excerpt :: "string option"
  ci_excerpt_bytes :: nat
  ci_excerpt_chars :: nat

definition context_item_new ::
  "capsule_item_kind \<Rightarrow> string \<Rightarrow> item_provenance \<Rightarrow> item_resolution \<Rightarrow> context_item" where
  "context_item_new kind reason provenance resolution =
     \<lparr>ci_id = [], ci_kind = kind, ci_reason = reason, ci_provenance = provenance,
      ci_resolution = resolution, ci_file = None, ci_line = None, ci_symbol = None,
      ci_source_hash = None, ci_stale = False, ci_excerpt = None, ci_excerpt_bytes = 0,
      ci_excerpt_chars = 0\<rparr>"

definition item_with_location :: "string \<Rightarrow> nat \<Rightarrow> context_item \<Rightarrow> context_item" where
  "item_with_location f line item = item\<lparr>ci_file := Some f, ci_line := Some line\<rparr>"

definition item_with_symbol :: "string \<Rightarrow> context_item \<Rightarrow> context_item" where
  "item_with_symbol symbol item = item\<lparr>ci_symbol := Some symbol\<rparr>"

definition item_with_hash :: "string \<Rightarrow> context_item \<Rightarrow> context_item" where
  "item_with_hash h item = item\<lparr>ci_source_hash := Some h\<rparr>"

definition char_length :: "string \<Rightarrow> nat" where
  "char_length s = length (chars s)"

definition item_with_excerpt :: "string \<Rightarrow> context_item \<Rightarrow> context_item" where
  "item_with_excerpt e item =
     item\<lparr>ci_excerpt_bytes := length e, ci_excerpt_chars := char_length e, ci_excerpt := Some e\<rparr>"

text \<open>\<open>u32::to_le_bytes\<close>.\<close>

definition le_bytes4 :: "nat \<Rightarrow> string" where
  "le_bytes4 n = map (\<lambda>i. char_of (n div 256 ^ i mod 256)) [0, 1, 2, 3]"

definition item_id_bytes ::
  "capsule_item_kind \<Rightarrow> string option \<Rightarrow> nat option \<Rightarrow> string option \<Rightarrow> string" where
  "item_id_bytes kind f line symbol =
     kind_debug kind @ [CHR 0x00] @ (case f of None \<Rightarrow> [] | Some x \<Rightarrow> x) @ [CHR 0x00] @
     le_bytes4 (case line of None \<Rightarrow> 0 | Some x \<Rightarrow> x) @ [CHR 0x00] @
     (case symbol of None \<Rightarrow> [] | Some x \<Rightarrow> x)"

definition item_id ::
  "(string \<Rightarrow> string) \<Rightarrow> capsule_item_kind \<Rightarrow> string option \<Rightarrow> nat option \<Rightarrow> string option \<Rightarrow> string" where
  "item_id sha kind f line symbol = take 24 (sha (item_id_bytes kind f line symbol))"

definition item_with_id :: "(string \<Rightarrow> string) \<Rightarrow> context_item \<Rightarrow> context_item" where
  "item_with_id sha item =
     item\<lparr>ci_id := item_id sha (ci_kind item) (ci_file item) (ci_line item) (ci_symbol item)\<rparr>"

record omitted_item =
  oi_kind :: "capsule_item_kind option"
  oi_reason :: omission_reason
  oi_detail :: string
  oi_file :: "string option"
  oi_line :: "nat option"
  oi_symbol :: "string option"

definition omitted_item_new :: "omission_reason \<Rightarrow> string \<Rightarrow> omitted_item" where
  "omitted_item_new reason detail =
     \<lparr>oi_kind = None, oi_reason = reason, oi_detail = detail, oi_file = None, oi_line = None,
      oi_symbol = None\<rparr>"

record package_identity =
  pid_package_id :: string
  pid_name :: string
  pid_version :: string

record capsule_identity =
  ck_schema_version :: nat
  ck_capsule_id :: string
  ck_root_epoch :: nat
  ck_workspace_root :: string
  ck_toolchain :: "string option"
  ck_analyzer :: "string option"
  ck_source_hashes :: "(string, string) btree_map"
  ck_anchors_hash :: string
  ck_purpose_hash :: "string option"
  ck_change_id :: "string option"
  ck_byte_budget :: nat
  ck_selected_packages :: "package_identity list"
  ck_enabled_features :: "string list"
  ck_workspace_only :: bool

record capsule =
  cap_schema_version :: nat
  cap_capsule_id :: string
  cap_identity :: capsule_identity
  cap_anchors :: "context_anchor list"
  cap_purpose :: "string option"
  cap_change_id :: "string option"
  cap_items :: "context_item list"
  cap_omitted :: "omitted_item list"
  cap_notes :: "string list"

record delta_entry =
  dl_id :: string
  dl_kind :: capsule_item_kind
  dl_file :: "string option"
  dl_line :: "nat option"
  dl_symbol :: "string option"
  dl_reason :: string

record delta_report =
  dr_added :: "delta_entry list"
  dr_changed :: "delta_entry list"
  dr_removed :: "delta_entry list"
  dr_unchanged :: nat
  dr_truncated :: bool

record page_info =
  pgi_offset :: nat
  pgi_limit :: nat
  pgi_total :: nat
  pgi_next_cursor :: "nat option"

record size_report =
  sr_bytes :: nat
  sr_chars :: nat
  sr_item_count :: nat
  sr_returned_items :: nat
  sr_byte_budget :: nat
  sr_tokenizer_available :: bool

definition size_report_default :: size_report where
  "size_report_default =
     \<lparr>sr_bytes = 0, sr_chars = 0, sr_item_count = 0, sr_returned_items = 0, sr_byte_budget = 0,
      sr_tokenizer_available = False\<rparr>"

record context_data =
  cd_action :: string
  cd_status :: string
  cd_capsule_id :: "string option"
  cd_previous_capsule_id :: "string option"
  cd_root_epoch :: "nat option"
  cd_purpose :: "string option"
  cd_change_id :: "string option"
  cd_anchors :: "context_anchor list"
  cd_identity :: "capsule_identity option"
  cd_items :: "context_item list"
  cd_omitted :: "omitted_item list"
  cd_delta :: "delta_report option"
  cd_page :: "page_info option"
  cd_sizes :: size_report
  cd_notes :: "string list"

definition context_failure :: "context_action \<Rightarrow> string \<Rightarrow> string \<Rightarrow> context_data" where
  "context_failure action status reason =
     \<lparr>cd_action = context_action_as_str action, cd_status = status, cd_capsule_id = None,
      cd_previous_capsule_id = None, cd_root_epoch = None, cd_purpose = None, cd_change_id = None,
      cd_anchors = [], cd_identity = None, cd_items = [], cd_omitted = [], cd_delta = None,
      cd_page = None, cd_sizes = size_report_default, cd_notes = [reason]\<rparr>"

definition u32_max :: nat where "u32_max = 4294967295"

definition excerpt_chars :: "context_data \<Rightarrow> nat" where
  "excerpt_chars d = sum_list (map char_length (List.map_filter ci_excerpt (cd_items d)))"

text \<open>Serialisation can fail; then the size counts as zero.\<close>

definition wire_bytes :: "(context_data \<Rightarrow> string option) \<Rightarrow> context_data \<Rightarrow> nat" where
  "wire_bytes json d = (case json d of None \<Rightarrow> 0 | Some encoded \<Rightarrow> length encoded)"

definition size_report_measure ::
  "(context_data \<Rightarrow> string option) \<Rightarrow> context_data \<Rightarrow> nat \<Rightarrow> size_report" where
  "size_report_measure json d byte_budget =
     \<lparr>sr_bytes = wire_bytes json d, sr_chars = excerpt_chars d,
      sr_item_count = min (length (cd_items d)) u32_max,
      sr_returned_items = min (length (filter (\<lambda>i. ci_excerpt i \<noteq> None) (cd_items d))) u32_max,
      sr_byte_budget = byte_budget, sr_tokenizer_available = False\<rparr>"

record capsule_identity_input =
  cii_root_epoch :: nat
  cii_workspace_root :: string
  cii_toolchain :: "string option"
  cii_analyzer :: "string option"
  cii_source_hashes :: "(string, string) btree_map"
  cii_anchors :: "context_anchor list"
  cii_purpose :: "string option"
  cii_change_id :: "string option"
  cii_byte_budget :: nat
  cii_selected_packages :: "package_identity list"
  cii_enabled_features :: "string list"

definition compute_capsule_id ::
  "(string \<Rightarrow> string) \<Rightarrow> (nat \<times> capsule_identity_input \<Rightarrow> string option) \<Rightarrow> capsule_identity_input \<Rightarrow> string" where
  "compute_capsule_id sha json input =
     sha (case json (CONTEXT_SCHEMA_VERSION, input) of None \<Rightarrow> [] | Some encoded \<Rightarrow> encoded)"

definition anchors_hash ::
  "(string \<Rightarrow> string) \<Rightarrow> (context_anchor list \<Rightarrow> string option) \<Rightarrow> context_anchor list \<Rightarrow> string" where
  "anchors_hash sha json anchors =
     sha (case json anchors of None \<Rightarrow> [] | Some encoded \<Rightarrow> encoded)"

definition purpose_hash :: "(string \<Rightarrow> string) \<Rightarrow> string option \<Rightarrow> string option" where
  "purpose_hash sha purpose = map_option sha purpose"

section \<open>Facts\<close>

lemma anchor_bounds_ordered: "anchor_bounds r = (a, b) \<Longrightarrow> 1 \<le> a \<and> a \<le> b"
  by (auto simp: anchor_bounds_def Let_def)

lemma kind_debug_inject: "kind_debug k = kind_debug k' \<longleftrightarrow> k = k'"
  by (cases k; cases k') simp_all

lemma kind_debug_no_nul: "CHR 0x00 \<notin> set (kind_debug k)"
  by (cases k) simp_all

lemma while_append:
  assumes "rest = [] \<or> \<not> P (hd rest)"
  shows "takeWhile P (takeWhile P s @ rest) = takeWhile P s \<and> dropWhile P (takeWhile P s @ rest) = rest"
proof -
  have "takeWhile P rest = [] \<and> dropWhile P rest = rest" using assms by (cases rest) auto
  then show ?thesis by (induction s) auto
qed

lemma chars_split:
  "chars (concat (take n (chars s))) = take n (chars s)"
proof (induction s arbitrary: n rule: chars.induct)
  case (2 c s)
  show ?case
  proof (cases n)
    case (Suc m)
    let ?rest = "concat (take m (chars (dropWhile is_cont s)))"
    have hd: "?rest = [] \<or> \<not> is_cont (hd ?rest)"
    proof (cases "dropWhile is_cont s")
      case Nil
      show ?thesis unfolding Nil by simp
    next
      case (Cons d t)
      then have "\<not> is_cont d" by (metis hd_dropWhile list.sel(1) list.distinct(1))
      then show ?thesis unfolding Cons by (cases m) simp_all
    qed
    have t: "takeWhile is_cont (takeWhile is_cont s @ ?rest) = takeWhile is_cont s"
      and d: "dropWhile is_cont (takeWhile is_cont s @ ?rest) = ?rest"
      using while_append [of ?rest is_cont, OF hd] by blast+
    show ?thesis using 2 [of m] by (simp add: Suc t d)
  qed simp
qed simp

lemma char_length_take: "char_length (concat (take n (chars s))) = min n (char_length s)"
  by (simp add: char_length_def chars_split)

end
