(* ===== verification/Context_Store.thy ===== *)
theory Context_Store
  imports Context_Capsule
begin

text \<open>
  The bounded capsule cache (\<open>context/store.rs\<close>): a hash map from ids to entries and a queue of ids in
  insertion order, kept together under a lock. Instants are naturals. The second half shows that the two
  structures implement one ring of entries, oldest first.
\<close>

section \<open>The store\<close>

record stored_capsule =
  st_capsule :: capsule
  st_stored_at :: nat

datatype store_expiry = TtlElapsed nat | EpochChanged nat nat

datatype store_lookup = Found stored_capsule | Expired store_expiry | NotFound

record store_state =
  ss_entries :: "(string, stored_capsule) btree_map"
  ss_order :: "string list"

record capsule_store =
  cs_state :: store_state
  cs_max_capsules :: nat
  cs_ttl :: nat

definition capsule_store_new :: "nat \<Rightarrow> nat \<Rightarrow> capsule_store" where
  "capsule_store_new max_capsules ttl =
     \<lparr>cs_state = \<lparr>ss_entries = [], ss_order = []\<rparr>, cs_max_capsules = max max_capsules 1, cs_ttl = ttl\<rparr>"

fun evict_oldest :: "nat \<Rightarrow> string list \<Rightarrow> (string, stored_capsule) btree_map \<Rightarrow> store_state" where
  "evict_oldest n [] entries = \<lparr>ss_entries = entries, ss_order = []\<rparr>"
| "evict_oldest n (oldest # order) entries =
     (if n < length entries then evict_oldest n order (bt_remove oldest entries)
      else \<lparr>ss_entries = entries, ss_order = oldest # order\<rparr>)"

definition store_insert :: "nat \<Rightarrow> capsule \<Rightarrow> capsule_store \<Rightarrow> capsule_store" where
  "store_insert now c s =
     (let cid = cap_capsule_id c;
          st = cs_state s;
          order = (if bt_get (ss_entries st) cid = None then ss_order st @ [cid]
                   else filter (\<lambda>candidate. candidate \<noteq> cid) (ss_order st) @ [cid])
      in s\<lparr>cs_state := evict_oldest (cs_max_capsules s) order
             (bt_insert cid \<lparr>st_capsule = c, st_stored_at = now\<rparr> (ss_entries st))\<rparr>)"

definition forget :: "string \<Rightarrow> capsule_store \<Rightarrow> capsule_store" where
  "forget cid s =
     s\<lparr>cs_state := \<lparr>ss_entries = bt_remove cid (ss_entries (cs_state s)),
                    ss_order = filter (\<lambda>candidate. candidate \<noteq> cid) (ss_order (cs_state s))\<rparr>\<rparr>"

definition store_lookup_at :: "nat \<Rightarrow> string \<Rightarrow> nat \<Rightarrow> capsule_store \<Rightarrow> store_lookup \<times> capsule_store" where
  "store_lookup_at now cid root_epoch s =
     (case bt_get (ss_entries (cs_state s)) cid of
        None \<Rightarrow> (NotFound, s)
      | Some entry \<Rightarrow>
          if cs_ttl s < now - st_stored_at entry then (Expired (TtlElapsed (cs_ttl s)), forget cid s)
          else if ck_root_epoch (cap_identity (st_capsule entry)) \<noteq> root_epoch
          then (Expired (EpochChanged (ck_root_epoch (cap_identity (st_capsule entry))) root_epoch), forget cid s)
          else (Found entry, s))"

definition store_len :: "capsule_store \<Rightarrow> nat" where
  "store_len s = length (ss_entries (cs_state s))"

section \<open>The ring it implements\<close>

definition entry_id :: "stored_capsule \<Rightarrow> string" where
  "entry_id e = cap_capsule_id (st_capsule e)"

definition ring_insert :: "nat \<Rightarrow> nat \<Rightarrow> capsule \<Rightarrow> stored_capsule list \<Rightarrow> stored_capsule list" where
  "ring_insert n now c r =
     (let r = filter (\<lambda>e. entry_id e \<noteq> cap_capsule_id c) r @ [\<lparr>st_capsule = c, st_stored_at = now\<rparr>]
      in drop (length r - n) r)"

definition ring_lookup ::
  "nat \<Rightarrow> nat \<Rightarrow> string \<Rightarrow> nat \<Rightarrow> stored_capsule list \<Rightarrow> store_lookup \<times> stored_capsule list" where
  "ring_lookup ttl now cid root_epoch r =
     (case List.find (\<lambda>e. entry_id e = cid) r of
        None \<Rightarrow> (NotFound, r)
      | Some e \<Rightarrow>
          if ttl < now - st_stored_at e
          then (Expired (TtlElapsed ttl), filter (\<lambda>e. entry_id e \<noteq> cid) r)
          else if ck_root_epoch (cap_identity (st_capsule e)) \<noteq> root_epoch
          then (Expired (EpochChanged (ck_root_epoch (cap_identity (st_capsule e))) root_epoch),
                filter (\<lambda>e. entry_id e \<noteq> cid) r)
          else (Found e, r))"

definition ring_of :: "capsule_store \<Rightarrow> stored_capsule list" where
  "ring_of s = map (\<lambda>cid. the (bt_get (ss_entries (cs_state s)) cid)) (ss_order (cs_state s))"

text \<open>The two structures agree, and each entry is filed under its own id.\<close>

definition paired :: "store_state \<Rightarrow> bool" where
  "paired st \<longleftrightarrow> bt_wf (ss_entries st) \<and> distinct (ss_order st) \<and>
     set (ss_order st) = fst ` set (ss_entries st) \<and> (\<forall>(cid, e) \<in> set (ss_entries st). entry_id e = cid)"

definition store_ok :: "capsule_store \<Rightarrow> bool" where
  "store_ok s \<longleftrightarrow> paired (cs_state s) \<and> 1 \<le> cs_max_capsules s \<and> store_len s \<le> cs_max_capsules s"

lemma paired_get: "paired st \<Longrightarrow> cid \<in> set (ss_order st) \<longleftrightarrow> bt_get (ss_entries st) cid \<noteq> None"
  by (auto simp: paired_def bt_get_None_iff)

lemma paired_entry: "paired st \<Longrightarrow> bt_get (ss_entries st) cid = Some e \<Longrightarrow> entry_id e = cid"
  by (auto simp: paired_def dest: bt_get_in)

lemma paired_length: "paired st \<Longrightarrow> length (ss_entries st) = length (ss_order st)"
proof -
  assume p: "paired st"
  then have "distinct (map fst (ss_entries st))" by (simp add: paired_def bt_wf_def strict_sorted_iff)
  with p show ?thesis
    by (metis distinct_card length_map list.set_map paired_def)
qed

lemma ring_ids: "store_ok s \<Longrightarrow> cid \<in> set (ss_order (cs_state s)) \<Longrightarrow>
    entry_id (the (bt_get (ss_entries (cs_state s)) cid)) = cid"
  using paired_get paired_entry unfolding store_ok_def by (metis option.collapse)

lemma paired_remove:
  "paired st \<Longrightarrow> paired \<lparr>ss_entries = bt_remove cid (ss_entries st), ss_order = filter (\<lambda>c. c \<noteq> cid) (ss_order st)\<rparr>"
proof -
  assume p: "paired st"
  have keys: "fst ` set (bt_remove cid m) = fst ` set m - {cid}" for m :: "(string, stored_capsule) btree_map"
    by (force simp: bt_remove_def)
  have "set (filter (\<lambda>c. c \<noteq> cid) (ss_order st)) = fst ` set (bt_remove cid (ss_entries st))"
    using p unfolding keys by (auto simp: paired_def)
  with p show ?thesis
    unfolding paired_def store_state.select_convs by (auto simp: bt_wf_remove) (auto simp: bt_remove_def)
qed

text \<open>Removing an id from both structures removes its entry from the ring.\<close>

lemma ring_forget:
  assumes "store_ok s"
  shows "store_ok (forget cid s) \<and> ring_of (forget cid s) = filter (\<lambda>e. entry_id e \<noteq> cid) (ring_of s)"
proof
  have p: "paired (cs_state s)" using assms by (simp add: store_ok_def)
  show "store_ok (forget cid s)"
    using assms paired_remove [OF p] length_bt_remove [of "ss_entries (cs_state s)" cid]
    by (auto simp: store_ok_def forget_def store_len_def paired_def)
  have "filter (\<lambda>e. entry_id e \<noteq> cid) (ring_of s) =
      map (\<lambda>c. the (bt_get (ss_entries (cs_state s)) c)) (filter (\<lambda>c. c \<noteq> cid) (ss_order (cs_state s)))"
    unfolding ring_of_def filter_map using ring_ids [OF assms]
    by (intro arg_cong [where f = "map _"] filter_cong) auto
  then show "ring_of (forget cid s) = filter (\<lambda>e. entry_id e \<noteq> cid) (ring_of s)"
    by (auto simp: ring_of_def forget_def bt_get_remove)
qed

lemma evict_drop:
  "paired \<lparr>ss_entries = entries, ss_order = order\<rparr> \<Longrightarrow>
   paired (evict_oldest n order entries) \<and> ss_order (evict_oldest n order entries) = drop (length order - n) order \<and>
   (\<forall>cid \<in> set (drop (length order - n) order).
      bt_get (ss_entries (evict_oldest n order entries)) cid = bt_get entries cid)"
proof (induction n order entries rule: evict_oldest.induct)
  case (2 n oldest order entries)
  have len: "length entries = Suc (length order)" using paired_length [OF 2(2)] by simp
  show ?case
  proof (cases "n < length entries")
    case True
    have "filter (\<lambda>c. c \<noteq> oldest) order = order"
      using 2(2) by (auto simp: paired_def filter_id_conv)
    then have p: "paired \<lparr>ss_entries = bt_remove oldest entries, ss_order = order\<rparr>"
      using paired_remove [OF 2(2), of oldest] by simp
    have d: "drop (length (oldest # order) - n) (oldest # order) = drop (length order - n) order"
      using True len by (simp add: Suc_diff_le)
    have "bt_get (bt_remove oldest entries) cid = bt_get entries cid" if "cid \<in> set (drop (length order - n) order)" for cid
      using that 2(2) in_set_dropD [of cid] by (auto simp: bt_get_remove paired_def)
    with 2(1) [OF True p] show ?thesis unfolding d using True by simp
  next
    case False
    with 2(2) len show ?thesis by simp
  qed
qed simp

lemma ring_insert_refines:
  assumes "store_ok s"
  shows "store_ok (store_insert now c s) \<and>
    ring_of (store_insert now c s) = ring_insert (cs_max_capsules s) now c (ring_of s) \<and>
    cs_max_capsules (store_insert now c s) = cs_max_capsules s \<and> cs_ttl (store_insert now c s) = cs_ttl s"
proof -
  define cid where "cid = cap_capsule_id c"
  define e where "e = \<lparr>st_capsule = c, st_stored_at = now\<rparr>"
  define entries where "entries = bt_insert cid e (ss_entries (cs_state s))"
  define order where "order = filter (\<lambda>c. c \<noteq> cid) (ss_order (cs_state s)) @ [cid]"
  have p: "paired (cs_state s)" and n: "1 \<le> cs_max_capsules s" using assms by (simp_all add: store_ok_def)
  have "filter (\<lambda>c. c \<noteq> cid) (ss_order (cs_state s)) = ss_order (cs_state s)"
    if "bt_get (ss_entries (cs_state s)) cid = None"
    using that paired_get [OF p, of cid] by (auto simp: filter_id_conv)
  then have ins: "store_insert now c s = s\<lparr>cs_state := evict_oldest (cs_max_capsules s) order entries\<rparr>"
    by (auto simp: store_insert_def Let_def order_def entries_def e_def cid_def)
  have eid: "entry_id e = cid" by (simp add: entry_id_def e_def cid_def)
  have w: "bt_wf (ss_entries (cs_state s))" using p by (simp add: paired_def)
  have pin: "paired \<lparr>ss_entries = entries, ss_order = order\<rparr>"
    using p eid by (auto simp: paired_def entries_def order_def bt_wf_insert set_bt_insert [OF w])
  note ev = evict_drop [OF pin, of "cs_max_capsules s"]
  have ok: "store_ok (store_insert now c s)"
    using ev n paired_length [of "evict_oldest (cs_max_capsules s) order entries"]
    by (simp add: store_ok_def ins store_len_def)
  have "map (\<lambda>c. the (bt_get entries c)) order = filter (\<lambda>x. entry_id x \<noteq> cid) (ring_of s) @ [e]"
  proof -
    have "filter (\<lambda>x. entry_id x \<noteq> cid) (ring_of s) =
        map (\<lambda>c. the (bt_get (ss_entries (cs_state s)) c)) (filter (\<lambda>c. c \<noteq> cid) (ss_order (cs_state s)))"
      unfolding ring_of_def filter_map using ring_ids [OF assms]
      by (intro arg_cong [where f = "map _"] filter_cong) auto
    then show ?thesis by (auto simp: order_def entries_def bt_get_insert)
  qed
  then have "ring_insert (cs_max_capsules s) now c (ring_of s) =
      drop (length order - cs_max_capsules s) (map (\<lambda>c. the (bt_get entries c)) order)"
    by (metis ring_insert_def cid_def e_def length_map)
  moreover have "ring_of (store_insert now c s) =
      map (\<lambda>c. the (bt_get entries c)) (drop (length order - cs_max_capsules s) order)"
    using ev by (simp add: ring_of_def ins cong: map_cong)
  ultimately show ?thesis using ok by (simp add: drop_map ins)
qed

lemma ring_find:
  assumes "store_ok s"
  shows "List.find (\<lambda>e. entry_id e = cid) (ring_of s) = bt_get (ss_entries (cs_state s)) cid"
proof (cases "bt_get (ss_entries (cs_state s)) cid")
  case None
  then have "cid \<notin> set (ss_order (cs_state s))" using assms paired_get by (auto simp: store_ok_def)
  then show ?thesis unfolding None find_None_iff ring_of_def using ring_ids [OF assms] by auto
next
  case (Some e)
  then have "cid \<in> set (ss_order (cs_state s))" using assms paired_get by (auto simp: store_ok_def)
  moreover have "find (\<lambda>c. c = cid) order = Some cid" if "cid \<in> set order" for order
    using that by (induction order) auto
  moreover have "List.find (\<lambda>e. entry_id e = cid) (map f order) = map_option f (find (\<lambda>c. c = cid) order)"
    if "\<forall>c \<in> set order. entry_id (f c) = c" for f order
    using that by (induction order) auto
  ultimately show ?thesis using Some ring_ids [OF assms] unfolding ring_of_def by simp
qed

section \<open>Runs of the store\<close>

datatype store_op = OpInsert nat capsule | OpLookup nat string nat

fun store_run :: "store_op list \<Rightarrow> capsule_store \<Rightarrow> store_lookup list \<times> capsule_store" where
  "store_run [] s = ([], s)"
| "store_run (OpInsert now c # ops) s = store_run ops (store_insert now c s)"
| "store_run (OpLookup now cid epoch # ops) s =
     (let (found, s) = store_lookup_at now cid epoch s; (results, s) = store_run ops s in (found # results, s))"

fun ring_run :: "nat \<Rightarrow> nat \<Rightarrow> store_op list \<Rightarrow> stored_capsule list \<Rightarrow> store_lookup list \<times> stored_capsule list" where
  "ring_run n ttl [] r = ([], r)"
| "ring_run n ttl (OpInsert now c # ops) r = ring_run n ttl ops (ring_insert n now c r)"
| "ring_run n ttl (OpLookup now cid epoch # ops) r =
     (let (found, r) = ring_lookup ttl now cid epoch r; (results, r) = ring_run n ttl ops r in (found # results, r))"

lemma lookup_refines:
  assumes "store_ok s" and "store_lookup_at now cid epoch s = (found, s')"
  shows "store_ok s' \<and> ring_lookup (cs_ttl s) now cid epoch (ring_of s) = (found, ring_of s') \<and>
    cs_max_capsules s' = cs_max_capsules s \<and> cs_ttl s' = cs_ttl s"
  using assms ring_find [OF assms(1), of cid] ring_forget [OF assms(1), of cid]
  by (auto simp: store_lookup_at_def ring_lookup_def forget_def split: option.splits if_splits)

text \<open>
  C27: The capsule cache implements a bounded ring. Over any sequence of insertions and lookups, the hash map
  with its order queue answers every lookup as the plain list of entries would that keeps at most the
  configured number of most recently inserted capsules, one per id, and drops an entry found expired or
  bound to another root epoch; the cache never holds more entries than configured.
\<close>

theorem capsule_store_refines_ring:
  "ring_run (max n 1) ttl ops [] =
     (fst (store_run ops (capsule_store_new n ttl)), ring_of (snd (store_run ops (capsule_store_new n ttl)))) \<and>
   store_len (snd (store_run ops (capsule_store_new n ttl))) \<le> max n 1"
proof -
  have "store_ok s \<Longrightarrow>
      store_ok (snd (store_run ops s)) \<and> cs_max_capsules (snd (store_run ops s)) = cs_max_capsules s \<and>
      ring_run (cs_max_capsules s) (cs_ttl s) ops (ring_of s) = (fst (store_run ops s), ring_of (snd (store_run ops s)))"
    for s
  proof (induction ops arbitrary: s)
    case (Cons op ops)
    show ?case
    proof (cases op)
      case (OpInsert now c)
      with Cons.IH ring_insert_refines [OF Cons.prems, of now c] show ?thesis by (metis ring_run.simps(2) store_run.simps(2))
    next
      case (OpLookup now cid epoch)
      obtain found s' where l: "store_lookup_at now cid epoch s = (found, s')" by (cases "store_lookup_at now cid epoch s")
      note r = lookup_refines [OF Cons.prems l]
      from r have "store_ok s'" by blast
      from Cons.IH [OF this] r show ?thesis by (simp add: OpLookup l case_prod_beta)
    qed
  qed simp
  moreover have "store_ok (capsule_store_new n ttl)"
    by (simp add: store_ok_def paired_def capsule_store_new_def store_len_def)
  ultimately show ?thesis
    by (metis capsule_store_new_def ring_of_def capsule_store.select_convs(1,2,3) list.simps(8)
        store_ok_def store_state.select_convs(2))
qed

text \<open>What the ring promises about a found entry.\<close>

lemma ring_found:
  assumes "ring_lookup ttl now cid epoch r = (Found e, r')"
  shows "e \<in> set r \<and> entry_id e = cid \<and> now - st_stored_at e \<le> ttl \<and>
    ck_root_epoch (cap_identity (st_capsule e)) = epoch \<and> r' = r"
  using assms by (auto simp: ring_lookup_def split: option.splits if_splits dest!: find_Some_in)

end
