(* ===== verification/Context_Planner.thy ===== *)
theory Context_Planner
  imports Context_Capsule "HOL-Library.Product_Lexorder" "HOL-Library.Multiset" "HOL-Library.Sublist"
    "HOL-Library.Code_Target_Nat"
begin

text \<open>
  Trimming a payload to its byte budget (\<open>context/planner.rs\<close>). The encoder of serde is the argument
  \<open>json\<close>, which may fail; nothing is assumed about the lengths it returns.
\<close>

section \<open>The planner\<close>

definition MAX_OMITTED_ENTRIES :: nat where "MAX_OMITTED_ENTRIES = 32"
definition MIN_EXCERPT_CHARS :: nat where "MIN_EXCERPT_CHARS = 120"
definition MAX_TRIM_ITERATIONS :: nat where "MAX_TRIM_ITERATIONS = 512"

record plan_outcome =
  po_bytes :: nat
  po_chars :: nat
  po_trimmed_excerpts :: nat
  po_removed_items :: nat
  po_omitted_overflow :: nat

definition plan_outcome_default :: plan_outcome where
  "plan_outcome_default =
     \<lparr>po_bytes = 0, po_chars = 0, po_trimmed_excerpts = 0, po_removed_items = 0, po_omitted_overflow = 0\<rparr>"

definition outcome_merge :: "plan_outcome \<Rightarrow> plan_outcome \<Rightarrow> plan_outcome" where
  "outcome_merge a b =
     \<lparr>po_bytes = po_bytes b, po_chars = po_chars b,
      po_trimmed_excerpts = sat_add (po_trimmed_excerpts a) (po_trimmed_excerpts b),
      po_removed_items = sat_add (po_removed_items a) (po_removed_items b),
      po_omitted_overflow = sat_add (po_omitted_overflow a) (po_omitted_overflow b)\<rparr>"

definition has_trimming :: "plan_outcome \<Rightarrow> bool" where
  "has_trimming oc \<longleftrightarrow> 0 < po_trimmed_excerpts oc \<or> 0 < po_removed_items oc \<or> 0 < po_omitted_overflow oc"

definition push_omission :: "omitted_item list \<Rightarrow> omitted_item \<Rightarrow> bool \<times> omitted_item list" where
  "push_omission omitted item =
     (if MAX_OMITTED_ENTRIES \<le> length omitted then (False, omitted) else (True, omitted @ [item]))"

definition omission_from_item :: "context_item \<Rightarrow> omission_reason \<Rightarrow> omitted_item" where
  "omission_from_item item reason =
     (let detail = kind_camel (ci_kind item) @
            (if reason = OmitItemLimit then '' item exceeded the configured max_items cap and was not selected; ''
             else '' item removed by the byte budget; '') @ ci_reason item
      in (omitted_item_new reason detail)
           \<lparr>oi_kind := Some (ci_kind item), oi_file := ci_file item, oi_line := ci_line item,
            oi_symbol := Some (case ci_symbol item of None \<Rightarrow> [] | Some s \<Rightarrow> s)\<rparr>)"

fun push_all :: "omission_reason \<Rightarrow> context_item list \<Rightarrow> omitted_item list \<Rightarrow> nat \<times> omitted_item list" where
  "push_all reason [] omitted = (0, omitted)"
| "push_all reason (item # items) omitted =
     (let (pushed, omitted) = push_omission omitted (omission_from_item item reason);
          (overflow, omitted) = push_all reason items omitted
      in ((if pushed then overflow else overflow + 1), omitted))"

definition cap_items_at :: "context_item list \<Rightarrow> omitted_item list \<Rightarrow> nat \<Rightarrow> nat \<times> context_item list \<times> omitted_item list" where
  "cap_items_at items omitted max_items =
     (let items = sort_key (\<lambda>i. (priority (ci_kind i), ci_id i)) items in
      if length items \<le> max_items then (0, items, omitted)
      else let (overflow, omitted) = push_all OmitItemLimit (drop max_items items) omitted
           in (overflow, take max_items items, omitted))"

text \<open>The last item of the highest priority number among those that satisfy a condition.\<close>

definition least_important :: "(context_item \<Rightarrow> bool) \<Rightarrow> context_item list \<Rightarrow> nat option" where
  "least_important P items =
     map_option fst (max_by_key (\<lambda>(index, item). (priority (ci_kind item), index))
       (filter (\<lambda>(index, item). P item) (enumerate 0 items)))"

definition long_excerpt :: "context_item \<Rightarrow> bool" where
  "long_excerpt item =
     (case ci_excerpt item of None \<Rightarrow> False | Some e \<Rightarrow> MIN_EXCERPT_CHARS < char_length e)"

definition shrink_item :: "context_item \<Rightarrow> context_item" where
  "shrink_item item =
     (case ci_excerpt item of
        None \<Rightarrow> item
      | Some e \<Rightarrow>
          let keep = max (char_length e div 2) MIN_EXCERPT_CHARS;
              shrunk = concat (take keep (chars e))
          in item\<lparr>ci_excerpt := Some shrunk, ci_excerpt_bytes := length shrunk,
                  ci_excerpt_chars := char_length shrunk\<rparr>)"

definition shrink_lowest_excerpt :: "context_data \<Rightarrow> context_data option" where
  "shrink_lowest_excerpt d =
     (case least_important long_excerpt (cd_items d) of
        None \<Rightarrow> None
      | Some index \<Rightarrow> Some (d\<lparr>cd_items := (cd_items d)[index := shrink_item (cd_items d ! index)]\<rparr>))"

definition remove_at :: "nat \<Rightarrow> 'a list \<Rightarrow> 'a list" where
  "remove_at index xs = take index xs @ drop (Suc index) xs"

definition trim_once :: "context_data \<Rightarrow> plan_outcome \<Rightarrow> (context_data \<times> plan_outcome) option" where
  "trim_once d oc =
     (case shrink_lowest_excerpt d of
        Some d \<Rightarrow> Some (d, oc\<lparr>po_trimmed_excerpts := po_trimmed_excerpts oc + 1\<rparr>)
      | None \<Rightarrow>
          if cd_items d \<noteq> [] then
            let index = (case least_important (\<lambda>_. True) (cd_items d) of None \<Rightarrow> 0 | Some i \<Rightarrow> i);
                (pushed, omitted) = push_omission (cd_omitted d) (omission_from_item (cd_items d ! index) OmitBudget)
            in Some (d\<lparr>cd_items := remove_at index (cd_items d), cd_omitted := omitted\<rparr>,
                     oc\<lparr>po_removed_items := po_removed_items oc + 1,
                       po_omitted_overflow := po_omitted_overflow oc + (if pushed then 0 else 1)\<rparr>)
          else if cd_notes d \<noteq> [] then Some (d\<lparr>cd_notes := butlast (cd_notes d)\<rparr>, oc)
          else if cd_omitted d \<noteq> [] then
            Some (d\<lparr>cd_omitted := butlast (cd_omitted d)\<rparr>, oc\<lparr>po_omitted_overflow := po_omitted_overflow oc + 1\<rparr>)
          else None)"

fun trim_loop :: "(context_data \<Rightarrow> string option) \<Rightarrow> nat \<Rightarrow> nat \<Rightarrow> context_data \<Rightarrow> plan_outcome \<Rightarrow> context_data \<times> plan_outcome" where
  "trim_loop json byte_budget 0 d oc = (d, oc)"
| "trim_loop json byte_budget (Suc n) d oc =
     (case json d of
        None \<Rightarrow> (d, oc)
      | Some encoded \<Rightarrow>
          if length encoded \<le> byte_budget then (d, oc)
          else case trim_once d oc of
            None \<Rightarrow> (d, oc)
          | Some (d, oc) \<Rightarrow> trim_loop json byte_budget n d oc)"

definition enforce_data_budget ::
  "(context_data \<Rightarrow> string option) \<Rightarrow> context_data \<Rightarrow> nat \<Rightarrow> context_data \<times> plan_outcome" where
  "enforce_data_budget json d byte_budget =
     (let (d, oc) = trim_loop json byte_budget MAX_TRIM_ITERATIONS d plan_outcome_default
      in (d, oc\<lparr>po_bytes := wire_bytes json d, po_chars := excerpt_chars d\<rparr>))"

fun budget_rounds ::
  "(context_data \<Rightarrow> string option) \<Rightarrow> nat \<Rightarrow> nat \<Rightarrow> context_data \<Rightarrow> plan_outcome \<Rightarrow> context_data \<times> plan_outcome" where
  "budget_rounds json byte_budget 0 d oc = (d, oc)"
| "budget_rounds json byte_budget (Suc n) d oc =
     (let (d, first) = enforce_data_budget json d byte_budget;
          oc = outcome_merge oc first;
          d = d\<lparr>cd_sizes := size_report_measure json d byte_budget\<rparr>
      in if wire_bytes json d \<le> byte_budget then (d, oc)
         else let (d, follow_up) = enforce_data_budget json d byte_budget;
                  oc = outcome_merge oc follow_up
              in if has_trimming follow_up then budget_rounds json byte_budget n d oc else (d, oc))"

definition apply_budget_and_sizes ::
  "(context_data \<Rightarrow> string option) \<Rightarrow> context_data \<Rightarrow> nat \<Rightarrow> context_data \<times> plan_outcome" where
  "apply_budget_and_sizes json d byte_budget =
     (let (d, oc) = budget_rounds json byte_budget 8 d plan_outcome_default;
          d = d\<lparr>cd_sizes := size_report_measure json d byte_budget\<rparr>
      in (d, oc\<lparr>po_bytes := wire_bytes json d, po_chars := excerpt_chars d\<rparr>))"

section \<open>What one trim does\<close>

lemma least_important_Some:
  assumes "least_important P items = Some index"
  shows "index < length items \<and> P (items ! index) \<and>
    (\<forall>j < length items. P (items ! j) \<longrightarrow> priority (ci_kind (items ! j)) \<le> priority (ci_kind (items ! index)))"
proof -
  let ?xs = "filter (\<lambda>(i, item). P item) (enumerate 0 items)"
  from assms obtain item where m: "max_by_key (\<lambda>(index, item). (priority (ci_kind item), index)) ?xs = Some (index, item)"
    by (auto simp: least_important_def)
  have "(index, item) \<in> set ?xs" using max_by_key_in [OF m] .
  moreover have "priority (ci_kind (items ! j)) \<le> priority (ci_kind item)" if "j < length items" "P (items ! j)" for j
  proof -
    have "(j, items ! j) \<in> set ?xs" using that by (auto simp: in_set_enumerate_eq)
    from max_by_key_ge [OF m this] show ?thesis by (auto simp: less_eq_prod_def)
  qed
  ultimately show ?thesis by (auto simp: in_set_enumerate_eq)
qed

lemma least_important_None: "least_important P items = None \<longleftrightarrow> (\<forall>item \<in> set items. \<not> P item)"
proof -
  have "snd ` set (enumerate 0 items) = set items"
    by (metis list.set_map map_snd_enumerate)
  then show ?thesis by (force simp: least_important_def filter_empty_conv)
qed

lemma shrink_kind [simp]: "ci_kind (shrink_item item) = ci_kind item" "ci_id (shrink_item item) = ci_id item"
  by (simp_all add: shrink_item_def Let_def split: option.splits)

lemma map_update_same: "i < length xs \<Longrightarrow> f y = f (xs ! i) \<Longrightarrow> map f (xs[i := y]) = map f xs"
  by (metis list_update_id map_update)

lemma remove_at_split: "i < length xs \<Longrightarrow> xs = take i xs @ xs ! i # drop (Suc i) xs"
  by (simp add: Cons_nth_drop_Suc)

lemma remove_at_subseq: "subseq (remove_at i xs) xs"
proof (cases "i < length xs")
  case True
  then show ?thesis unfolding remove_at_def
    by (subst (3) remove_at_split [OF True]) (simp only: subseq_append', rule list_emb_Cons, rule subseq_order.refl)
qed (simp add: remove_at_def)

lemma mset_remove_at: "i < length xs \<Longrightarrow> mset xs = add_mset (xs ! i) (mset (remove_at i xs))"
  by (subst remove_at_split [of i xs]) (simp_all add: remove_at_def)

definition item_key :: "context_item \<Rightarrow> capsule_item_kind \<times> string" where
  "item_key item = (ci_kind item, ci_id item)"

text \<open>
  The relation between a payload before and after any number of trims, with the outcome in between: kept
  items are a subsequence, every removed item is at most as load-bearing as every kept one, and removals
  are listed or counted.
\<close>

definition trimmed :: "context_data \<Rightarrow> plan_outcome \<Rightarrow> context_data \<Rightarrow> plan_outcome \<Rightarrow> bool" where
  "trimmed d oc d' oc' \<longleftrightarrow>
     subseq (map item_key (cd_items d')) (map item_key (cd_items d)) \<and>
     (\<exists>removed. mset (map item_key (cd_items d)) = mset (map item_key (cd_items d')) + removed \<and>
        (\<forall>r \<in># removed. \<forall>item \<in> set (cd_items d'). priority (ci_kind item) \<le> priority (fst r)) \<and>
        po_removed_items oc' = po_removed_items oc + size removed) \<and>
     length (cd_omitted d') + po_omitted_overflow oc' + po_removed_items oc =
       length (cd_omitted d) + po_omitted_overflow oc + po_removed_items oc'"

lemma trimmed_refl: "trimmed d oc d oc"
  by (auto simp: trimmed_def intro: exI [of _ "{#}"])

lemma subseq_set: "subseq xs ys \<Longrightarrow> set xs \<subseteq> set ys"
  by (induction rule: list_emb.induct) auto

lemma kept_items:
  assumes "subseq (map item_key xs) (map item_key ys)" and "item \<in> set xs"
  shows "\<exists>item' \<in> set ys. ci_kind item' = ci_kind item"
proof -
  have "item_key item \<in> set (map item_key ys)"
    using subseq_set [OF assms(1)] assms(2) by auto
  then show ?thesis by (auto simp: item_key_def)
qed

lemma trimmed_trans:
  assumes "trimmed d oc d1 o1" and "trimmed d1 o1 d2 o2"
  shows "trimmed d oc d2 o2"
proof -
  from assms(1) obtain r1 where 1: "mset (map item_key (cd_items d)) = mset (map item_key (cd_items d1)) + r1"
    "\<forall>r \<in># r1. \<forall>item \<in> set (cd_items d1). priority (ci_kind item) \<le> priority (fst r)"
    "po_removed_items o1 = po_removed_items oc + size r1" by (auto simp: trimmed_def)
  from assms(2) obtain r2 where 2: "mset (map item_key (cd_items d1)) = mset (map item_key (cd_items d2)) + r2"
    "\<forall>r \<in># r2. \<forall>item \<in> set (cd_items d2). priority (ci_kind item) \<le> priority (fst r)"
    "po_removed_items o2 = po_removed_items o1 + size r2" by (auto simp: trimmed_def)
  have s: "subseq (map item_key (cd_items d2)) (map item_key (cd_items d1))" using assms(2) by (simp add: trimmed_def)
  have "priority (ci_kind item) \<le> priority (fst r)" if "r \<in># r1" "item \<in> set (cd_items d2)" for r item
    using kept_items [OF s that(2)] 1(2) that(1) by metis
  with 1 2 have "\<exists>removed. mset (map item_key (cd_items d)) = mset (map item_key (cd_items d2)) + removed \<and>
      (\<forall>r \<in># removed. \<forall>item \<in> set (cd_items d2). priority (ci_kind item) \<le> priority (fst r)) \<and>
      po_removed_items o2 = po_removed_items oc + size removed"
    by (intro exI [of _ "r1 + r2"]) (auto simp: ac_simps)
  with assms s show ?thesis unfolding trimmed_def by (auto intro: subseq_order.trans)
qed

lemma trim_once_trimmed:
  assumes "trim_once d oc = Some (d', oc')"
  shows "trimmed d oc d' oc'"
proof (cases "shrink_lowest_excerpt d")
  case (Some d1)
  then obtain i where i: "least_important long_excerpt (cd_items d) = Some i"
    "d1 = d\<lparr>cd_items := (cd_items d)[i := shrink_item (cd_items d ! i)]\<rparr>"
    by (auto simp: shrink_lowest_excerpt_def split: option.splits)
  have "map item_key ((cd_items d)[i := shrink_item (cd_items d ! i)]) = map item_key (cd_items d)"
    using least_important_Some [OF i(1)] by (intro map_update_same) (simp_all add: item_key_def)
  then have same: "map item_key (cd_items d1) = map item_key (cd_items d)" by (simp add: i(2))
  have om: "cd_omitted d1 = cd_omitted d" by (simp add: i(2))
  have d': "d' = d1" "oc' = oc\<lparr>po_trimmed_excerpts := po_trimmed_excerpts oc + 1\<rparr>"
    using assms Some by (simp_all add: trim_once_def)
  show ?thesis unfolding trimmed_def d' same om by (auto intro: exI [of _ "{#}"])
next
  case None
  show ?thesis
  proof (cases "cd_items d = []")
    case True
    with assms None show ?thesis by (auto simp: trim_once_def trimmed_def split: if_splits)
  next
    case False
    then obtain i where i: "least_important (\<lambda>_. True) (cd_items d) = Some i"
      using least_important_None [of "\<lambda>_. True" "cd_items d"] by (cases "cd_items d") auto
    note li = least_important_Some [OF i]
    have it: "cd_items d' = remove_at i (cd_items d)" "po_removed_items oc' = po_removed_items oc + 1"
      "length (cd_omitted d') + po_omitted_overflow oc' = Suc (length (cd_omitted d) + po_omitted_overflow oc)"
      using assms None False i by (auto simp: trim_once_def push_omission_def Let_def split: if_splits)
    have "mset (map item_key (cd_items d)) =
        add_mset (item_key (cd_items d ! i)) (mset (map item_key (remove_at i (cd_items d))))"
      using mset_remove_at [of i "cd_items d"] li by simp
    moreover have "\<forall>item \<in> set (remove_at i (cd_items d)). priority (ci_kind item) \<le> priority (ci_kind (cd_items d ! i))"
      using li by (auto simp: remove_at_def in_set_conv_nth dest!: in_set_takeD in_set_dropD)
    moreover have "subseq (map item_key (remove_at i (cd_items d))) (map item_key (cd_items d))"
      by (rule subseq_map [OF remove_at_subseq])
    ultimately show ?thesis
      unfolding trimmed_def it by (intro conjI exI [of _ "{#item_key (cd_items d ! i)#}"]) (auto simp: it item_key_def)
  qed
qed

section \<open>The loops\<close>

definition counters_le :: "plan_outcome \<Rightarrow> nat \<Rightarrow> bool" where
  "counters_le oc n \<longleftrightarrow> po_trimmed_excerpts oc \<le> n \<and> po_removed_items oc \<le> n \<and> po_omitted_overflow oc \<le> n"

lemma trim_once_counters: "trim_once d oc = Some (d', oc') \<Longrightarrow> counters_le oc n \<Longrightarrow> counters_le oc' (Suc n)"
  by (auto simp: trim_once_def counters_le_def Let_def push_omission_def split: option.splits if_splits)

lemma trim_loop_trimmed:
  "trim_loop json b n d oc = (d', oc') \<Longrightarrow> counters_le oc k \<Longrightarrow> trimmed d oc d' oc' \<and> counters_le oc' (k + n)"
proof (induction json b n d oc arbitrary: k rule: trim_loop.induct)
  case (1 json b d oc)
  then show ?case by (simp add: trimmed_refl)
next
  case (2 json b n d oc)
  show ?case
  proof (cases "\<exists>e. json d = Some e \<and> \<not> length e \<le> b \<and> trim_once d oc \<noteq> None")
    case True
    then obtain e d1 oc1 where t: "json d = Some e" "\<not> length e \<le> b" "trim_once d oc = Some (d1, oc1)" by auto
    have "trimmed d1 oc1 d' oc' \<and> counters_le oc' (Suc k + n)"
      using "2.IH" [OF t refl, of "Suc k"] "2.prems" trim_once_counters [OF t(3), of k] t by simp
    with trim_once_trimmed [OF t(3)] show ?thesis by (auto intro: trimmed_trans)
  next
    case False
    with "2.prems" have "d' = d" "oc' = oc" by (auto split: option.splits if_splits)
    with "2.prems"(2) show ?thesis by (auto simp: trimmed_refl counters_le_def)
  qed
qed

lemma trimmed_shift:
  assumes "trimmed d plan_outcome_default d' first"
    and "po_removed_items oc' = po_removed_items oc + po_removed_items first"
    and "po_omitted_overflow oc' = po_omitted_overflow oc + po_omitted_overflow first"
  shows "trimmed d oc d' oc'"
  using assms by (auto simp: trimmed_def plan_outcome_default_def)

lemma trimmed_cong:
  assumes "trimmed d oc d1 oc1" and "cd_items d2 = cd_items d1" and "cd_omitted d2 = cd_omitted d1"
    and "po_removed_items oc2 = po_removed_items oc1" and "po_omitted_overflow oc2 = po_omitted_overflow oc1"
  shows "trimmed d oc d2 oc2"
  using assms by (simp add: trimmed_def)

lemma enforce_trimmed:
  assumes "enforce_data_budget json d b = (d', first)"
  shows "trimmed d plan_outcome_default d' first \<and> counters_le first 512"
proof -
  obtain d1 oc where l: "trim_loop json b MAX_TRIM_ITERATIONS d plan_outcome_default = (d1, oc)"
    by (cases "trim_loop json b MAX_TRIM_ITERATIONS d plan_outcome_default")
  have "trimmed d plan_outcome_default d1 oc \<and> counters_le oc 512"
    using trim_loop_trimmed [OF l, of 0] by (simp add: counters_le_def plan_outcome_default_def MAX_TRIM_ITERATIONS_def)
  with assms l show ?thesis
    by (auto simp: enforce_data_budget_def counters_le_def elim: trimmed_cong)
qed

lemma merge_trimmed:
  assumes "trimmed d oc d1 oc1" and "counters_le oc1 k" and "enforce_data_budget json d1 b = (d2, first)"
    and "k + 512 \<le> u64_max"
  shows "trimmed d oc d2 (outcome_merge oc1 first) \<and> counters_le (outcome_merge oc1 first) (k + 512)"
proof -
  note e = enforce_trimmed [OF assms(3)]
  have "trimmed d1 oc1 d2 (outcome_merge oc1 first)"
    by (rule trimmed_shift [OF conjunct1 [OF e]])
      (use e assms(2,4) in \<open>auto simp: outcome_merge_def sat_add_def counters_le_def\<close>)
  then have "trimmed d oc d2 (outcome_merge oc1 first)" by (rule trimmed_trans [OF assms(1)])
  moreover have "counters_le (outcome_merge oc1 first) (k + 512)"
    using e assms(2) by (auto simp: counters_le_def outcome_merge_def sat_add_def)
  ultimately show ?thesis ..
qed

lemma rounds_trimmed:
  "budget_rounds json b n d1 oc1 = (d2, oc2) \<Longrightarrow> trimmed d oc d1 oc1 \<Longrightarrow> counters_le oc1 k \<Longrightarrow>
   k + 1024 * n \<le> u64_max \<Longrightarrow> trimmed d oc d2 oc2"
proof (induction n arbitrary: d1 oc1 k)
  case (Suc n)
  obtain da first where e1: "enforce_data_budget json d1 b = (da, first)" by (cases "enforce_data_budget json d1 b")
  define db where "db = da\<lparr>cd_sizes := size_report_measure json da b\<rparr>"
  obtain dc follow where e2: "enforce_data_budget json db b = (dc, follow)" by (cases "enforce_data_budget json db b")
  have m1: "trimmed d oc da (outcome_merge oc1 first)" "counters_le (outcome_merge oc1 first) (k + 512)"
    using merge_trimmed [OF Suc.prems(2,3) e1] Suc.prems(4) by auto
  then have m1': "trimmed d oc db (outcome_merge oc1 first)"
    by (elim trimmed_cong) (simp_all add: db_def)
  have m2: "trimmed d oc dc (outcome_merge (outcome_merge oc1 first) follow)"
      "counters_le (outcome_merge (outcome_merge oc1 first) follow) (k + 1024)"
    using merge_trimmed [OF m1' m1(2) e2] Suc.prems(4) by (auto simp: add.assoc)
  have "(d2, oc2) = (if wire_bytes json db \<le> b then (db, outcome_merge oc1 first)
      else if has_trimming follow then budget_rounds json b n dc (outcome_merge (outcome_merge oc1 first) follow)
      else (dc, outcome_merge (outcome_merge oc1 first) follow))"
    using Suc.prems(1) unfolding budget_rounds.simps e1 Let_def prod.case db_def [symmetric] e2 by auto
  with m1' m2 Suc.IH [of dc "outcome_merge (outcome_merge oc1 first) follow" "k + 1024"] Suc.prems(4) show ?case
    by (auto split: if_splits)
qed simp

text \<open>
  Trimming to the budget is accounted for and keeps what matters most. Whatever the encoder returns: the
  remaining items are the original ones in their order, less some removed ones; every removed item is at
  most as load-bearing as every remaining one; the outcome counts the removals exactly, and each of them is
  either listed as an omission or counted as overflow; the reported size is that of the returned payload.
\<close>

theorem budget_trimming_accounts:
  assumes "apply_budget_and_sizes json d byte_budget = (d', oc)"
  shows "subseq (map item_key (cd_items d')) (map item_key (cd_items d)) \<and>
    (\<exists>removed. mset (map item_key (cd_items d)) = mset (map item_key (cd_items d')) + removed \<and>
       (\<forall>r \<in># removed. \<forall>item \<in> set (cd_items d'). priority (ci_kind item) \<le> priority (fst r)) \<and>
       po_removed_items oc = size removed \<and>
       length (cd_omitted d') + po_omitted_overflow oc = length (cd_omitted d) + size removed) \<and>
    po_bytes oc = wire_bytes json d' \<and> po_chars oc = excerpt_chars d'"
proof -
  obtain d1 oc1 where r: "budget_rounds json byte_budget 8 d plan_outcome_default = (d1, oc1)"
    by (cases "budget_rounds json byte_budget 8 d plan_outcome_default")
  have "trimmed d plan_outcome_default d1 oc1"
    by (rule rounds_trimmed [OF r trimmed_refl, of 0])
      (simp_all add: counters_le_def plan_outcome_default_def u64_max_def)
  moreover have d': "d' = d1\<lparr>cd_sizes := size_report_measure json d1 byte_budget\<rparr>"
    "oc = oc1\<lparr>po_bytes := wire_bytes json d', po_chars := excerpt_chars d'\<rparr>"
    using assms r by (auto simp: apply_budget_and_sizes_def Let_def)
  ultimately have "trimmed d plan_outcome_default d' oc" by (elim trimmed_cong) (simp_all add: d')
  then show ?thesis using d'(2) by (auto simp: trimmed_def plan_outcome_default_def)
qed

section \<open>Reaching the budget\<close>

function halvings :: "nat \<Rightarrow> nat" where
  "halvings n = (if n \<le> MIN_EXCERPT_CHARS then 0 else Suc (halvings (max (n div 2) MIN_EXCERPT_CHARS)))"
  by pat_completeness auto
termination
  by (relation "measure id") (auto simp: MIN_EXCERPT_CHARS_def)

declare halvings.simps [simp del]

text \<open>How many trims a payload can take at most.\<close>

definition item_steps :: "context_item \<Rightarrow> nat" where
  "item_steps item = 2 + (case ci_excerpt item of None \<Rightarrow> 0 | Some e \<Rightarrow> halvings (char_length e))"

definition trim_potential :: "context_data \<Rightarrow> nat" where
  "trim_potential d = sum_list (map item_steps (cd_items d)) + length (cd_notes d) + length (cd_omitted d)"

lemma shrink_item_steps: "long_excerpt item \<Longrightarrow> Suc (item_steps (shrink_item item)) = item_steps item"
  by (auto simp: long_excerpt_def item_steps_def shrink_item_def Let_def char_length_take min_def
      halvings.simps [of "char_length _"] MIN_EXCERPT_CHARS_def split: option.splits)

lemma sum_list_update_less:
  fixes f :: "'a \<Rightarrow> nat"
  assumes "i < length xs" and "Suc (f y) = f (xs ! i)"
  shows "sum_list (map f (xs[i := y])) < sum_list (map f xs)"
  using assms by (induction xs arbitrary: i) (auto split: nat.splits)

lemma sum_list_remove_at:
  fixes f :: "'a \<Rightarrow> nat"
  assumes "i < length xs"
  shows "sum_list (map f xs) = f (xs ! i) + sum_list (map f (remove_at i xs))"
  by (subst remove_at_split [OF assms]) (simp add: remove_at_def)

lemma trim_once_potential: "trim_once d oc = Some (d', oc') \<Longrightarrow> trim_potential d' < trim_potential d"
proof (cases "shrink_lowest_excerpt d")
  case (Some d1)
  assume t: "trim_once d oc = Some (d', oc')"
  from Some obtain i where i: "least_important long_excerpt (cd_items d) = Some i"
    "d1 = d\<lparr>cd_items := (cd_items d)[i := shrink_item (cd_items d ! i)]\<rparr>"
    by (auto simp: shrink_lowest_excerpt_def split: option.splits)
  note li = least_important_Some [OF i(1)]
  have "sum_list (map item_steps (cd_items d1)) < sum_list (map item_steps (cd_items d))"
    using sum_list_update_less [of i "cd_items d" item_steps] shrink_item_steps li by (simp add: i(2))
  moreover have "d' = d1" using t Some by (simp add: trim_once_def)
  ultimately show ?thesis by (simp add: trim_potential_def i(2))
next
  case None
  assume t: "trim_once d oc = Some (d', oc')"
  show ?thesis
  proof (cases "cd_items d = []")
    case True
    with t None show ?thesis by (auto simp: trim_once_def trim_potential_def split: if_splits)
  next
    case False
    then obtain i where i: "least_important (\<lambda>_. True) (cd_items d) = Some i"
      using least_important_None [of "\<lambda>_. True" "cd_items d"] by (cases "cd_items d") auto
    have "cd_items d' = remove_at i (cd_items d)" "length (cd_omitted d') \<le> Suc (length (cd_omitted d))"
      "cd_notes d' = cd_notes d"
      using t None False i by (auto simp: trim_once_def push_omission_def Let_def split: if_splits)
    with sum_list_remove_at [of i "cd_items d" item_steps] least_important_Some [OF i] show ?thesis
      by (simp add: trim_potential_def item_steps_def)
  qed
qed

lemma trim_once_stuck: "trim_once d oc = None \<Longrightarrow> cd_items d = [] \<and> cd_notes d = [] \<and> cd_omitted d = []"
  by (auto simp: trim_once_def Let_def split: option.splits if_splits prod.splits)

lemma trim_loop_fits:
  "trim_loop json b n d oc = (d', oc') \<Longrightarrow> trim_potential d \<le> n \<Longrightarrow>
   (\<exists>e. json d' = Some e \<and> length e \<le> b) \<or> json d' = None \<or> (cd_items d' = [] \<and> cd_notes d' = [] \<and> cd_omitted d' = [])"
proof (induction json b n d oc rule: trim_loop.induct)
  case (1 json b d oc)
  then show ?case by (auto simp: trim_potential_def item_steps_def)
next
  case (2 json b n d oc)
  show ?case
  proof (cases "\<exists>e. json d = Some e \<and> \<not> length e \<le> b \<and> trim_once d oc \<noteq> None")
    case True
    then obtain e d1 oc1 where t: "json d = Some e" "\<not> length e \<le> b" "trim_once d oc = Some (d1, oc1)" by auto
    have "trim_potential d1 \<le> n" using trim_once_potential [OF t(3)] "2.prems"(2) by simp
    with "2.IH" [OF t refl] "2.prems"(1) t show ?thesis by simp
  next
    case False
    with "2.prems" trim_once_stuck [of d oc] show ?thesis by (auto split: option.splits if_splits)
  qed
qed

text \<open>
  The trimming loop reaches the budget. If the payload can take at most as many trims as the loop has
  turns (each item counts two and its excerpt the number of halvings down to 120 characters, each note and
  omission one), then afterwards its encoding fits the budget, or there is nothing left to trim.
\<close>

theorem enforced_budget_fits:
  assumes "trim_potential d \<le> 512" and "enforce_data_budget json d byte_budget = (d', oc)"
    and "json d' = Some encoded"
  shows "length encoded \<le> byte_budget \<or> (cd_items d' = [] \<and> cd_notes d' = [] \<and> cd_omitted d' = [])"
proof -
  obtain d1 oc1 where l: "trim_loop json byte_budget MAX_TRIM_ITERATIONS d plan_outcome_default = (d1, oc1)"
    by (cases "trim_loop json byte_budget MAX_TRIM_ITERATIONS d plan_outcome_default")
  then have "d' = d1" using assms(2) by (simp add: enforce_data_budget_def)
  with trim_loop_fits [OF l] assms(1,3) show ?thesis by (auto simp: MAX_TRIM_ITERATIONS_def)
qed

section \<open>A concrete payload\<close>

definition sample_json :: "context_data \<Rightarrow> string option" where
  "sample_json d = Some (concat (List.map_filter ci_excerpt (cd_items d)) @ concat (cd_notes d))"

definition sample_item :: "capsule_item_kind \<Rightarrow> context_item" where
  "sample_item kind =
     (context_item_new kind ''r'' WorkspaceSource Resolved)\<lparr>ci_id := kind_debug kind, ci_excerpt := Some ''excerpt''\<rparr>"

definition sample_data :: context_data where
  "sample_data = (context_failure Prepare ''READY'' ''note'')
     \<lparr>cd_items := [sample_item Definition, sample_item Dependency, sample_item Consumer]\<rparr>"

theorem budget_trimming_accounts_witness:
  "cd_items (fst (apply_budget_and_sizes sample_json sample_data 20)) = [sample_item Definition, sample_item Consumer] \<and>
   length (cd_omitted (fst (apply_budget_and_sizes sample_json sample_data 20))) = 1 \<and>
   po_bytes (snd (apply_budget_and_sizes sample_json sample_data 20)) =
     wire_bytes sample_json (fst (apply_budget_and_sizes sample_json sample_data 20))"
proof -
  have "cd_items (fst (apply_budget_and_sizes sample_json sample_data 20)) = [sample_item Definition, sample_item Consumer]"
    "length (cd_omitted (fst (apply_budget_and_sizes sample_json sample_data 20))) = 1" by code_simp+
  with budget_trimming_accounts [OF prod.collapse [symmetric], of sample_json sample_data 20] show ?thesis by blast
qed

theorem enforced_budget_fits_witness:
  "length (the (sample_json (fst (enforce_data_budget sample_json sample_data 20)))) \<le> 20"
proof -
  have "trim_potential sample_data \<le> 512" by code_simp
  moreover have "sample_json (fst (enforce_data_budget sample_json sample_data 20)) =
      Some (the (sample_json (fst (enforce_data_budget sample_json sample_data 20))))" by (simp add: sample_json_def)
  moreover have "cd_items (fst (enforce_data_budget sample_json sample_data 20)) \<noteq> []" by code_simp
  ultimately show ?thesis using enforced_budget_fits [OF _ prod.collapse [symmetric]] by blast
qed

text \<open>
  The last size report is measured after the budget check, and the number it publishes is part of the
  payload: with an encoder that prints that number, a payload of exactly the budget grows past it when the
  number gains a digit.
\<close>

definition counting_json :: "context_data \<Rightarrow> string option" where
  "counting_json d = Some (replicate 997 CHR ''x'' @ dec (sr_bytes (cd_sizes d)))"

lemma counting_wire: "wire_bytes counting_json d = 997 + length (dec (sr_bytes (cd_sizes d)))"
  by (simp add: wire_bytes_def counting_json_def)

lemma enforce_fitting:
  assumes "json d = Some e" and "length e \<le> b"
  shows "fst (enforce_data_budget json d b) = d"
proof -
  have n: "MAX_TRIM_ITERATIONS = Suc 511" by (simp add: MAX_TRIM_ITERATIONS_def)
  have "trim_loop json b (Suc 511) d plan_outcome_default = (d, plan_outcome_default)"
    unfolding trim_loop.simps using assms by simp
  then show ?thesis by (simp only: enforce_data_budget_def n) simp
qed

lemma size_report_can_exceed_budget:
  "po_bytes (snd (apply_budget_and_sizes counting_json sample_data 1000)) = 1001"
proof -
  define d1 where "d1 = sample_data\<lparr>cd_sizes := size_report_measure counting_json sample_data 1000\<rparr>"
  have digits: "length (dec 0) = 1" "length (dec 998) = 3" "length (dec 1000) = 4" by code_simp+
  have s0: "sr_bytes (cd_sizes sample_data) = 0" by code_simp
  have s1: "sr_bytes (cd_sizes d1) = 998" by (simp add: d1_def size_report_measure_def counting_wire s0 digits)
  have "fst (enforce_data_budget counting_json sample_data 1000) = sample_data"
  proof (rule enforce_fitting [OF counting_json_def])
    show "length (replicate 997 CHR ''x'' @ dec (sr_bytes (cd_sizes sample_data))) \<le> 1000"
      unfolding s0 length_append length_replicate digits by simp
  qed
  then obtain oc where e: "enforce_data_budget counting_json sample_data 1000 = (sample_data, oc)" by (metis prod.collapse)
  have w: "wire_bytes counting_json d1 \<le> 1000" by (simp add: counting_wire s1 digits)
  have "budget_rounds counting_json 1000 (Suc 7) sample_data plan_outcome_default = (d1, outcome_merge plan_outcome_default oc)"
    unfolding budget_rounds.simps e Let_def prod.case d1_def [symmetric] using w by simp
  then have "po_bytes (snd (apply_budget_and_sizes counting_json sample_data 1000)) =
      wire_bytes counting_json (d1\<lparr>cd_sizes := size_report_measure counting_json d1 1000\<rparr>)"
    by (simp add: apply_budget_and_sizes_def Let_def eval_nat_numeral)
  then show ?thesis by (simp add: counting_wire size_report_measure_def s1 digits)
qed

end
