(* ===== verification/Repair_Predicate.thy ===== *)
theory Repair_Predicate
  imports Change_Model Context_Capsule
begin

text \<open>
  The failure predicate of the minimizer (\<open>repair/minimize.rs\<close>, \<open>repair/analysis.rs\<close>): which
  diagnostic is to be reproduced, and whether a Cargo run reproduces it. \<open>str::to_lowercase\<close> depends on
  the Unicode tables and is the argument \<open>lower\<close>.
\<close>

section \<open>Messages\<close>

definition is_ws_char :: "string \<Rightarrow> bool" where
  "is_ws_char ch \<longleftrightarrow> ws_prefix_len ch \<noteq> 0"

fun words_from :: "string \<Rightarrow> string list \<Rightarrow> string list" where
  "words_from acc [] = (if acc = [] then [] else [acc])"
| "words_from acc (ch # cs) =
     (if is_ws_char ch then (if acc = [] then words_from [] cs else acc # words_from [] cs)
      else words_from (acc @ ch) cs)"

definition split_whitespace :: "string \<Rightarrow> string list" where
  "split_whitespace s = words_from [] (chars s)"

definition normalize_message :: "(string \<Rightarrow> string) \<Rightarrow> string \<Rightarrow> string" where
  "normalize_message lower message = lower (join '' '' (split_whitespace message))"

definition str_contains :: "string \<Rightarrow> string \<Rightarrow> bool" where
  "str_contains s pat \<longleftrightarrow> str_find s pat \<noteq> None"

definition bounded :: "string \<Rightarrow> nat \<Rightarrow> string" where
  "bounded s n = take (floor_char_boundary s (min (length s) n)) s"

function backtick_scan :: "string list \<Rightarrow> string \<Rightarrow> string list" where
  "backtick_scan tokens rest =
     (case str_find rest ''`'' of
        None \<Rightarrow> tokens
      | Some start \<Rightarrow>
          let after = drop (Suc start) rest in
          (case str_find after ''`'' of
             None \<Rightarrow> tokens
           | Some stop \<Rightarrow>
               let token = trim (take stop after) in
               if token \<noteq> [] \<and> token \<notin> set tokens then
                 if 16 \<le> Suc (length tokens) then tokens @ [token]
                 else backtick_scan (tokens @ [token]) (drop (Suc stop) after)
               else backtick_scan tokens (drop (Suc stop) after)))"
  by pat_completeness auto
termination
  by (relation "measure (\<lambda>(tokens, rest). length rest)")
    (auto dest!: str_find_occurs occurs_at_bound)

declare backtick_scan.simps [simp del]

definition backticked_tokens :: "string \<Rightarrow> string list" where
  "backticked_tokens message = backtick_scan [] message"

section \<open>Selecting diagnostics\<close>

definition diagnostic_id :: "change_diagnostic_data \<Rightarrow> string" where
  "diagnostic_id d =
     (let code = (case dg_code d of None \<Rightarrow> ''diagnostic'' | Some c \<Rightarrow> c) in
      case (dg_file d, dg_line d) of
        (Some f, Some l) \<Rightarrow> code @ ''@'' @ f @ '':'' @ dec l
      | (None, Some l) \<Rightarrow> code @ ''@line:'' @ dec l
      | (Some f, None) \<Rightarrow> code @ ''@'' @ f
      | (None, None) \<Rightarrow> code)"

definition MAX_ANALYZED_DIAGNOSTICS :: nat where "MAX_ANALYZED_DIAGNOSTICS = 128"
definition MAX_GROUPS :: nat where "MAX_GROUPS = 32"
definition MAX_MESSAGES_PER_GROUP :: nat where "MAX_MESSAGES_PER_GROUP = 4"

record repair_span_data =
  rsp_file :: "string option"
  rsp_line :: "nat option"
  rsp_label :: "string option"

record repair_diagnostic_group_data =
  rg_group_id :: string
  rg_codes :: "string list"
  rg_level :: string
  rg_primary :: repair_span_data
  rg_secondary :: "repair_span_data list"
  rg_count :: nat
  rg_messages :: "string list"
  rg_diagnostic_ids :: "string list"

definition group_key :: "change_diagnostic_data \<Rightarrow> string \<times> string option" where
  "group_key d = ((case dg_code d of None \<Rightarrow> ''diagnostic'' | Some c \<Rightarrow> c), dg_file d)"

fun group_order :: "change_diagnostic_data list \<Rightarrow> (string \<times> string option) list \<Rightarrow> (string \<times> string option) list" where
  "group_order [] order = order"
| "group_order (d # ds) order =
     group_order ds (if group_key d \<in> set order then order else order @ [group_key d])"

fun secondary_spans :: "change_diagnostic_data list \<Rightarrow> nat set \<Rightarrow> repair_span_data list \<Rightarrow> repair_span_data list" where
  "secondary_spans [] seen spans = spans"
| "secondary_spans (d # ds) seen spans =
     (let fresh = (case dg_line d of None \<Rightarrow> False | Some l \<Rightarrow> l \<notin> seen);
          seen = (case dg_line d of None \<Rightarrow> seen | Some l \<Rightarrow> insert l seen);
          spans = (if fresh then spans @ [\<lparr>rsp_file = dg_file d, rsp_line = dg_line d, rsp_label = None\<rparr>] else spans)
      in if 8 \<le> length spans then spans else secondary_spans ds seen spans)"

definition make_group :: "change_diagnostic_data list \<Rightarrow> nat \<Rightarrow> string \<times> string option \<Rightarrow> repair_diagnostic_group_data" where
  "make_group ds index key =
     (let entries = filter (\<lambda>d. group_key d = key) ds; first = hd entries
      in \<lparr>rg_group_id = ''dg-'' @ dec (index + 1), rg_codes = [fst key], rg_level = dg_level first,
          rg_primary = \<lparr>rsp_file = dg_file first, rsp_line = dg_line first, rsp_label = None\<rparr>,
          rg_secondary = secondary_spans (tl entries) {} [],
          rg_count = length entries,
          rg_messages = map (\<lambda>d. bounded (dg_message d) 512) (take MAX_MESSAGES_PER_GROUP entries),
          rg_diagnostic_ids = map diagnostic_id (take 16 entries)\<rparr>)"

definition group_diagnostics :: "change_diagnostic_data list \<Rightarrow> repair_diagnostic_group_data list" where
  "group_diagnostics diagnostics =
     (let ds = take MAX_ANALYZED_DIAGNOSTICS diagnostics
      in map (\<lambda>(index, key). make_group ds index key) (enumerate 0 (take MAX_GROUPS (group_order ds []))))"

definition request_selects ::
  "repair_diagnostic_group_data list \<Rightarrow> change_diagnostic_data \<Rightarrow> string \<Rightarrow> bool" where
  "request_selects groups d request \<longleftrightarrow>
     request = diagnostic_id d \<or> request = (case dg_code d of None \<Rightarrow> [] | Some c \<Rightarrow> c) \<or>
     list_ex (\<lambda>g. request = rg_group_id g \<and> diagnostic_id d \<in> set (rg_diagnostic_ids g)) groups"

definition filter_diagnostics ::
  "change_diagnostic_data list \<Rightarrow> string list \<Rightarrow> change_diagnostic_data list \<times> string list" where
  "filter_diagnostics diagnostics requested =
     (if requested = [] then (diagnostics, [])
      else
        let groups = group_diagnostics diagnostics;
            filtered = filter (\<lambda>d. list_ex (request_selects groups d) requested) diagnostics
        in (filtered, take 16 (filter (\<lambda>r. \<not> list_ex (\<lambda>d. request_selects groups d r) filtered) requested)))"

section \<open>The predicate\<close>

record repair_failure_predicate_input =
  rfp_code :: "string option"
  rfp_message_contains :: "string list"
  rfp_file :: "string option"

record failure_predicate =
  fp_diagnostic_id :: string
  fp_code :: string
  fp_level :: string
  fp_file :: "string option"
  fp_line :: "nat option"
  fp_normalized_message :: string
  fp_message_fragments :: "string list"
  fp_message_tokens :: "string list"
  fp_source :: string

datatype predicate_error = CodeUnmatched | PredicateUnmatched | DiagnosticUncoded | NoMessageStructure

definition given :: "string option \<Rightarrow> string option" where
  "given s = (case s of None \<Rightarrow> None | Some t \<Rightarrow> if trim t = [] then None else Some t)"

definition file_allowed :: "string option \<Rightarrow> change_diagnostic_data \<Rightarrow> bool" where
  "file_allowed file_filter d = (case file_filter of None \<Rightarrow> True | Some f \<Rightarrow> dg_file d = Some f)"

definition select_diagnostic ::
  "change_diagnostic_data list \<Rightarrow> string option \<Rightarrow> string option \<Rightarrow> predicate_error + change_diagnostic_data" where
  "select_diagnostic diagnostics code_filter file_filter =
     (case code_filter of
        Some code \<Rightarrow>
          (case List.find (\<lambda>d. dg_level d = ''error'' \<and> dg_code d = Some code \<and> file_allowed file_filter d) diagnostics of
             None \<Rightarrow> Inl CodeUnmatched
           | Some d \<Rightarrow> Inr d)
      | None \<Rightarrow>
          (case List.find (\<lambda>d. dg_level d = ''error'' \<and> file_allowed file_filter d \<and> given (dg_code d) \<noteq> None) diagnostics of
             Some d \<Rightarrow> Inr d
           | None \<Rightarrow>
               (case List.find (\<lambda>d. dg_level d = ''error'' \<and> file_allowed file_filter d) diagnostics of
                  None \<Rightarrow> Inl PredicateUnmatched
                | Some d \<Rightarrow> Inr d)))"

definition build_predicate ::
  "(string \<Rightarrow> string) \<Rightarrow> change_diagnostic_data list \<Rightarrow> repair_failure_predicate_input option \<Rightarrow>
   predicate_error + failure_predicate" where
  "build_predicate lower diagnostics input =
     (let code_filter = (case input of None \<Rightarrow> None | Some i \<Rightarrow> given (rfp_code i));
          file_filter = (case input of None \<Rightarrow> None | Some i \<Rightarrow> given (rfp_file i))
      in case select_diagnostic diagnostics code_filter file_filter of
        Inl e \<Rightarrow> Inl e
      | Inr selected \<Rightarrow>
          (case given (dg_code selected) of
             None \<Rightarrow> Inl DiagnosticUncoded
           | Some code \<Rightarrow>
               let fragments = (case input of None \<Rightarrow> [] | Some i \<Rightarrow>
                     filter (\<lambda>f. f \<noteq> []) (map (normalize_message lower) (rfp_message_contains i)));
                   normalized = (if fragments = [] then normalize_message lower (dg_message selected) else [])
               in if normalized = [] \<and> fragments = [] then Inl NoMessageStructure
                  else Inr \<lparr>fp_diagnostic_id = diagnostic_id selected, fp_code = code, fp_level = ''error'',
                            fp_file = (case input of None \<Rightarrow> dg_file selected | Some i \<Rightarrow>
                              (case rfp_file i of None \<Rightarrow> dg_file selected | Some f \<Rightarrow> Some f)),
                            fp_line = dg_line selected, fp_normalized_message = normalized,
                            fp_message_fragments = fragments,
                            fp_message_tokens = backticked_tokens (dg_message selected),
                            fp_source = (case input of None \<Rightarrow> ''evidence'' | Some i \<Rightarrow>
                              if rfp_code i \<noteq> None \<or> rfp_file i \<noteq> None \<or> rfp_message_contains i \<noteq> []
                              then ''input+evidence'' else ''evidence'')\<rparr>))"

record observed_diagnostic =
  od_code :: "string option"
  od_level :: string
  od_file :: "string option"
  od_message :: string

definition code_matches :: "failure_predicate \<Rightarrow> observed_diagnostic \<Rightarrow> bool" where
  "code_matches p d \<longleftrightarrow>
     od_level d = fp_level p \<and> od_code d = Some (fp_code p) \<and>
     (case fp_file p of None \<Rightarrow> True | Some f \<Rightarrow> od_file d = Some f)"

definition predicate_matches :: "(string \<Rightarrow> string) \<Rightarrow> failure_predicate \<Rightarrow> observed_diagnostic \<Rightarrow> bool" where
  "predicate_matches lower p d =
     (if od_level d \<noteq> fp_level p then False
      else if od_code d \<noteq> Some (fp_code p) then False
      else if (case fp_file p of None \<Rightarrow> False | Some f \<Rightarrow> od_file d \<noteq> Some f) then False
      else
        let normalized = normalize_message lower (od_message d) in
        if fp_normalized_message p \<noteq> [] \<and> normalized \<noteq> fp_normalized_message p then False
        else list_all (str_contains normalized) (fp_message_fragments p))"

section \<open>Evaluating a run\<close>

definition MAX_SIGNATURES_PER_RUN :: nat where "MAX_SIGNATURES_PER_RUN = 512"

record trial_run =
  tr_status :: gate_status
  tr_total_ms :: nat
  tr_diagnostics :: "observed_diagnostic list"
  tr_diagnostics_omitted :: nat
  tr_command :: string
  tr_message :: string

definition signature_key :: "(string \<Rightarrow> string) \<Rightarrow> observed_diagnostic \<Rightarrow> string" where
  "signature_key lower d =
     (case od_code d of None \<Rightarrow> ''uncoded'' | Some c \<Rightarrow> c) @ ''|'' @ normalize_message lower (od_message d)"

fun collect_signatures :: "(string \<Rightarrow> string) \<Rightarrow> observed_diagnostic list \<Rightarrow> string set \<Rightarrow> string set" where
  "collect_signatures lower [] sigs = sigs"
| "collect_signatures lower (d # ds) sigs =
     (if od_level d \<noteq> ''error'' then collect_signatures lower ds sigs
      else let sigs = insert (signature_key lower d) sigs in
        if MAX_SIGNATURES_PER_RUN \<le> card sigs then sigs else collect_signatures lower ds sigs)"

definition signatures :: "(string \<Rightarrow> string) \<Rightarrow> trial_run \<Rightarrow> string set" where
  "signatures lower run = collect_signatures lower (tr_diagnostics run) {}"

definition error_count :: "trial_run \<Rightarrow> nat" where
  "error_count run = min u64_max (length (filter (\<lambda>d. od_level d = ''error'') (tr_diagnostics run)))"

datatype match_kind = MatchMatched | MatchNewSignatures | MatchMessageMismatch | MatchCodeAbsent | MatchInconclusive

fun match_kind_as_str :: "match_kind \<Rightarrow> string" where
  "match_kind_as_str MatchMatched = ''matched''"
| "match_kind_as_str MatchNewSignatures = ''newSignatures''"
| "match_kind_as_str MatchMessageMismatch = ''messageMismatch''"
| "match_kind_as_str MatchCodeAbsent = ''codeAbsent''"
| "match_kind_as_str MatchInconclusive = ''inconclusive''"

datatype inconclusive_cause =
    RunTimedOut | RunCancelled | RunUnusable string | TrialCompiled | DiagnosticsTruncated | NotTerminal gate_status

definition inconclusive_reason :: "trial_run \<Rightarrow> inconclusive_cause" where
  "inconclusive_reason run =
     (case tr_status run of
        GTimeout \<Rightarrow> RunTimedOut
      | GCancelled \<Rightarrow> RunCancelled
      | GUnavailable \<Rightarrow> RunUnusable (bounded (tr_message run) 160)
      | GInconclusive \<Rightarrow> RunUnusable (bounded (tr_message run) 160)
      | GResourceBlocked \<Rightarrow> RunUnusable (bounded (tr_message run) 160)
      | GFastPass \<Rightarrow> TrialCompiled
      | GFullPass \<Rightarrow> TrialCompiled
      | _ \<Rightarrow> if 0 < tr_diagnostics_omitted run then DiagnosticsTruncated else NotTerminal (tr_status run))"

datatype evaluation_reason =
    EvInconclusive inconclusive_cause
  | EvMessageMismatch string
  | EvCodeAbsent string
  | EvNewSignatures "string list"
  | EvMatched nat

record evaluation =
  en_kind :: match_kind
  en_matched :: bool
  en_reason :: evaluation_reason

definition evaluate_run :: "(string \<Rightarrow> string) \<Rightarrow> failure_predicate \<Rightarrow> string set \<Rightarrow> trial_run \<Rightarrow> evaluation" where
  "evaluate_run lower p baseline run =
     (if tr_status run \<notin> {GFail, GFastPass, GFullPass} \<or> 0 < tr_diagnostics_omitted run then
        \<lparr>en_kind = MatchInconclusive, en_matched = False, en_reason = EvInconclusive (inconclusive_reason run)\<rparr>
      else if \<not> list_ex (predicate_matches lower p) (tr_diagnostics run) then
        (if list_ex (code_matches p) (tr_diagnostics run)
         then \<lparr>en_kind = MatchMessageMismatch, en_matched = False, en_reason = EvMessageMismatch (fp_code p)\<rparr>
         else \<lparr>en_kind = MatchCodeAbsent, en_matched = False, en_reason = EvCodeAbsent (fp_code p)\<rparr>)
      else
        let new = take 8 (filter (\<lambda>s. s \<notin> baseline) (sorted_list_of_set (signatures lower run))) in
        if new \<noteq> [] then
          \<lparr>en_kind = MatchNewSignatures, en_matched = False, en_reason = EvNewSignatures new\<rparr>
        else \<lparr>en_kind = MatchMatched, en_matched = True, en_reason = EvMatched (error_count run)\<rparr>)"

section \<open>What a match means\<close>

lemma finite_signatures [simp]: "finite (signatures lower run)"
proof -
  have "finite sigs \<Longrightarrow> finite (collect_signatures lower ds sigs)" for ds sigs
    by (induction ds arbitrary: sigs) (auto simp: Let_def)
  then show ?thesis by (simp add: signatures_def)
qed

lemma take_filter_empty: "0 < n \<Longrightarrow> take n (filter P xs) = [] \<longleftrightarrow> (\<forall>x \<in> set xs. \<not> P x)"
  by (cases n) (auto simp: filter_empty_conv)

text \<open>The target diagnostic itself, as the predicate describes it.\<close>

definition target_diagnostic :: "(string \<Rightarrow> string) \<Rightarrow> failure_predicate \<Rightarrow> observed_diagnostic \<Rightarrow> bool" where
  "target_diagnostic lower p d \<longleftrightarrow>
     od_level d = fp_level p \<and> od_code d = Some (fp_code p) \<and>
     (\<forall>f. fp_file p = Some f \<longrightarrow> od_file d = Some f) \<and>
     (fp_normalized_message p \<noteq> [] \<longrightarrow> normalize_message lower (od_message d) = fp_normalized_message p) \<and>
     (\<forall>fragment \<in> set (fp_message_fragments p). str_contains (normalize_message lower (od_message d)) fragment)"

lemma predicate_matches_target: "predicate_matches lower p d \<longleftrightarrow> target_diagnostic lower p d"
  by (auto simp: predicate_matches_def target_diagnostic_def Let_def list_all_iff split: option.splits)

definition reproduces :: "(string \<Rightarrow> string) \<Rightarrow> failure_predicate \<Rightarrow> string set \<Rightarrow> trial_run \<Rightarrow> bool" where
  "reproduces lower p baseline run \<longleftrightarrow>
     tr_status run \<in> {GFail, GFastPass, GFullPass} \<and> tr_diagnostics_omitted run = 0 \<and>
     (\<exists>d \<in> set (tr_diagnostics run). target_diagnostic lower p d) \<and> signatures lower run \<subseteq> baseline"

lemma evaluate_matched: "en_matched (evaluate_run lower p baseline run) \<longleftrightarrow> reproduces lower p baseline run"
  by (auto simp: evaluate_run_def reproduces_def Let_def take_filter_empty filter_empty_conv list_ex_iff
      predicate_matches_target)

text \<open>A predicate is never the error code alone: it always carries a message or fragments.\<close>

lemma build_predicate_structure:
  assumes "build_predicate lower ds input = Inr p"
  shows "fp_level p = ''error'' \<and> trim (fp_code p) \<noteq> [] \<and> (fp_normalized_message p \<noteq> [] \<or> fp_message_fragments p \<noteq> [])"
  using assms
  by (auto simp: build_predicate_def Let_def given_def split: sum.splits option.splits if_splits)

end
