(* ===== verification/Repair_Scanner.thy ===== *)
theory Repair_Scanner
  imports Repair_Predicate Utf8
begin

text \<open>
  The Rust item scanner of the minimizer (\<open>repair/minimize.rs\<close>): it finds the items of a source text and
  the byte range of each without a parser. Positions are byte offsets, \<open>stop\<close> is the \<open>end\<close> of the code,
  and the \<open>i32\<close> nesting counters are integers (a text that overflows one has two billion brackets). Shown:
  every skipping step moves forward and lands behind an ASCII byte or at the end of the range, so the scan
  ends, and its items are ordered, disjoint, inside the text and cut at character boundaries.
\<close>

section \<open>Bytes\<close>

text \<open>\<open>bytes.get(i) == Some(&c)\<close>.\<close>

definition byte_is :: "string \<Rightarrow> nat \<Rightarrow> char \<Rightarrow> bool" where
  "byte_is src i c \<longleftrightarrow> i < length src \<and> src ! i = c"

definition is_ascii_whitespace :: "char \<Rightarrow> bool" where
  "is_ascii_whitespace c \<longleftrightarrow> (of_char c :: nat) \<in> {9, 10, 12, 13, 32}"

definition is_ascii_alphabetic :: "char \<Rightarrow> bool" where
  "is_ascii_alphabetic c \<longleftrightarrow> is_ascii_lowercase c \<or> is_ascii_uppercase c"

definition ident_byte :: "char \<Rightarrow> bool" where
  "ident_byte c \<longleftrightarrow> is_ascii_alphanumeric c \<or> c = CHR ''_''"

text \<open>The loop \<open>while i < end && p(bytes[i]) { i += 1 }\<close>.\<close>

function skip_while :: "(char \<Rightarrow> bool) \<Rightarrow> string \<Rightarrow> nat \<Rightarrow> nat \<Rightarrow> nat" where
  "skip_while P src stop i = (if i < stop \<and> P (src ! i) then skip_while P src stop (Suc i) else i)"
  by pat_completeness auto
termination
  by (relation "measure (\<lambda>(P, src, stop, i). stop - i)") auto

declare skip_while.simps [simp del]

text \<open>\<open>&text[start..stop]\<close>, and \<open>text.get(start..stop)\<close>, which is nothing outside the text or inside a character.\<close>

definition slice :: "string \<Rightarrow> nat \<Rightarrow> nat \<Rightarrow> string" where
  "slice src start stop = take (stop - start) (drop start src)"

definition get_slice :: "string \<Rightarrow> nat \<Rightarrow> nat \<Rightarrow> string option" where
  "get_slice src start stop =
     (if start \<le> stop \<and> stop \<le> length src \<and> is_char_boundary src start \<and> is_char_boundary src stop
      then Some (slice src start stop) else None)"

section \<open>Comments, strings and delimiters\<close>

definition skip_line_comment :: "string \<Rightarrow> nat \<Rightarrow> nat \<Rightarrow> nat" where
  "skip_line_comment src start stop =
     (case str_find (slice src start stop) [CHR 0x0A] of None \<Rightarrow> stop | Some offset \<Rightarrow> start + offset + 1)"

function skip_block_from :: "string \<Rightarrow> nat \<Rightarrow> int \<Rightarrow> nat \<Rightarrow> nat" where
  "skip_block_from src stop depth i =
     (if i + 1 < stop then
        if src ! i = CHR ''/'' \<and> src ! (i + 1) = CHR ''*'' then skip_block_from src stop (depth + 1) (i + 2)
        else if src ! i = CHR ''*'' \<and> src ! (i + 1) = CHR ''/'' then
          (if depth - 1 \<le> 0 then i + 2 else skip_block_from src stop (depth - 1) (i + 2))
        else skip_block_from src stop depth (i + 1)
      else stop)"
  by pat_completeness auto
termination
  by (relation "measure (\<lambda>(src, stop, depth, i). stop - i)") auto

declare skip_block_from.simps [simp del]

definition skip_block_comment :: "string \<Rightarrow> nat \<Rightarrow> nat \<Rightarrow> nat" where
  "skip_block_comment src start stop = skip_block_from src stop 0 start"

function skip_quoted_from :: "string \<Rightarrow> nat \<Rightarrow> nat \<Rightarrow> nat" where
  "skip_quoted_from src stop i =
     (if i < stop then
        if src ! i = CHR 0x5C then skip_quoted_from src stop (i + 2)
        else if src ! i = CHR 0x22 then i + 1
        else skip_quoted_from src stop (i + 1)
      else stop)"
  by pat_completeness auto
termination
  by (relation "measure (\<lambda>(src, stop, i). stop - i)") auto

declare skip_quoted_from.simps [simp del]

definition skip_quoted :: "string \<Rightarrow> nat \<Rightarrow> nat \<Rightarrow> nat" where
  "skip_quoted src start stop = skip_quoted_from src stop (start + 1)"

definition skip_char_or_lifetime :: "string \<Rightarrow> nat \<Rightarrow> nat \<Rightarrow> nat" where
  "skip_char_or_lifetime src start stop =
     (let i = start + 1 in
      if stop \<le> i then stop
      else
        let i = (if src ! i = CHR 0x5C then (if i + 1 < stop then i + 2 else i + 1) else i);
            limit = min stop (i + 8);
            cursor = skip_while (\<lambda>c. c \<noteq> CHR 0x27 \<and> c \<noteq> CHR 0x0A) src limit i
        in if cursor < limit \<and> src ! cursor = CHR 0x27 then cursor + 1 else start + 1)"

text \<open>The closing quote of a raw string with its hashes.\<close>

function raw_close :: "string \<Rightarrow> nat \<Rightarrow> nat \<Rightarrow> nat \<Rightarrow> nat" where
  "raw_close src stop hashes i =
     (if i < stop then
        let cursor = skip_while (\<lambda>c. c = CHR ''#'') src (min stop (i + 1 + hashes)) (i + 1) in
        if src ! i = CHR 0x22 \<and> cursor = i + 1 + hashes then cursor else raw_close src stop hashes (i + 1)
      else stop)"
  by pat_completeness auto
termination
  by (relation "measure (\<lambda>(src, stop, hashes, i). stop - i)") auto

declare raw_close.simps [simp del]

definition skip_raw :: "string \<Rightarrow> nat \<Rightarrow> nat \<Rightarrow> nat option" where
  "skip_raw src i stop =
     (let quote = skip_while (\<lambda>c. c = CHR ''#'') src (length src) i
      in if byte_is src quote (CHR 0x22) then Some (raw_close src stop (quote - i) (quote + 1)) else None)"

definition skip_prefixed_string :: "string \<Rightarrow> nat \<Rightarrow> nat \<Rightarrow> nat option" where
  "skip_prefixed_string src start stop =
     (if byte_is src start (CHR ''r'') then skip_raw src (start + 1) stop
      else if byte_is src start (CHR ''b'') then
        (if byte_is src (start + 1) (CHR ''r'') then skip_raw src (start + 2) stop
         else if byte_is src (start + 1) (CHR 0x22) then Some (skip_quoted src (start + 1) stop)
         else None)
      else if byte_is src start (CHR ''c'') then
        (if byte_is src (start + 1) (CHR 0x22) then Some (skip_quoted src (start + 1) stop) else None)
      else None)"

text \<open>
  The arms \<open>find_item_end\<close> and \<open>skip_delimited\<close> share: the position behind a string, a character, a
  prefixed string or a comment that starts at a byte, and nothing when none starts there.
\<close>

definition skip_token :: "string \<Rightarrow> nat \<Rightarrow> nat \<Rightarrow> nat option" where
  "skip_token src i stop =
     (let byte = src ! i in
      if byte = CHR 0x22 then Some (skip_quoted src i stop)
      else if byte = CHR 0x27 then Some (skip_char_or_lifetime src i stop)
      else if byte \<in> {CHR ''r'', CHR ''b'', CHR ''c''} then skip_prefixed_string src i stop
      else if byte = CHR ''/'' \<and> i + 1 < stop \<and> src ! (i + 1) = CHR ''/'' then Some (skip_line_comment src i stop)
      else if byte = CHR ''/'' \<and> i + 1 < stop \<and> src ! (i + 1) = CHR ''*'' then Some (skip_block_comment src i stop)
      else None)"

section \<open>Every skip moves forward and lands behind an ASCII byte\<close>

definition lands :: "string \<Rightarrow> nat \<Rightarrow> nat \<Rightarrow> nat \<Rightarrow> bool" where
  "lands src stop i r \<longleftrightarrow> i < r \<and> r \<le> stop \<and> (r = stop \<or> is_ascii (src ! (r - 1)))"

lemma lands_stop: "i < stop \<Longrightarrow> lands src stop i stop"
  by (simp add: lands_def)

lemma lands_after: "i \<le> j \<Longrightarrow> j < stop \<Longrightarrow> is_ascii (src ! j) \<Longrightarrow> lands src stop i (Suc j)"
  by (simp add: lands_def)

lemma lands_weaken: "lands src stop j r \<Longrightarrow> i \<le> j \<Longrightarrow> lands src stop i r"
  by (simp add: lands_def)

lemma lands_less: "lands src stop i r \<Longrightarrow> i < r \<and> r \<le> stop"
  by (simp add: lands_def)

lemma lands_next:
  assumes "i < next" and "next \<le> stop" and "next < stop \<Longrightarrow> lands src stop next r" and "stop \<le> next \<Longrightarrow> r = stop"
  shows "lands src stop i r"
  using assms by (cases "next < stop") (auto simp: lands_def)

lemma is_ascii_literals [simp]:
  "is_ascii (CHR 0x0A)" "is_ascii (CHR 0x22)" "is_ascii (CHR 0x27)" "is_ascii (CHR 0x5C)" "is_ascii (CHR ''/'')"
  "is_ascii (CHR ''*'')" "is_ascii (CHR ''#'')" "is_ascii (CHR ''}'')" "is_ascii (CHR '';'')" "is_ascii (CHR '')'')"
  "is_ascii (CHR '']'')" "is_ascii (CHR '' '')" "is_ascii (CHR 0x09)" "is_ascii (CHR 0x0D)"
  by (simp_all add: is_ascii_def)

lemma ident_byte_ascii: "ident_byte c \<Longrightarrow> is_ascii c"
  by (auto simp: ident_byte_def ascii_defs is_ascii_def)

lemma whitespace_ascii: "is_ascii_whitespace c \<Longrightarrow> is_ascii c"
  by (auto simp: is_ascii_whitespace_def is_ascii_def)

lemma skip_while_ge: "i \<le> skip_while P src stop i"
  by (induction P src stop i rule: skip_while.induct) (subst skip_while.simps, auto)

lemma skip_while_le: "i \<le> stop \<Longrightarrow> skip_while P src stop i \<le> stop"
  by (induction P src stop i rule: skip_while.induct) (subst skip_while.simps, auto)

lemma skip_while_all: "i \<le> j \<Longrightarrow> j < skip_while P src stop i \<Longrightarrow> P (src ! j)"
proof (induction P src stop i rule: skip_while.induct)
  case (1 P src stop i)
  then show ?case
    by (cases "i = j") (subst (asm) (2) skip_while.simps, auto split: if_splits)+
qed

lemma skip_while_stops: "skip_while P src stop i < stop \<Longrightarrow> \<not> P (src ! skip_while P src stop i)"
  by (induction P src stop i rule: skip_while.induct) (metis skip_while.simps)

lemma skip_line_comment_lands:
  assumes "i < stop"
  shows "lands src stop i (skip_line_comment src i stop)"
proof (cases "str_find (slice src i stop) [CHR 0x0A]")
  case (Some offset)
  from str_find_occurs [OF this] have o: "occurs_at (slice src i stop) [CHR 0x0A] offset" .
  from occurs_at_bound [OF o] occurs_at_take [OF o] assms
  have "i + offset < stop" "src ! (i + offset) = CHR 0x0A"
    by (auto simp: slice_def take_Suc hd_drop_conv_nth hd_conv_nth split: if_splits)
  with Some show ?thesis by (simp add: skip_line_comment_def lands_after)
qed (simp add: skip_line_comment_def lands_stop assms)

lemma skip_block_from_lands: "i < stop \<Longrightarrow> lands src stop i (skip_block_from src stop depth i)"
proof (induction src stop depth i rule: skip_block_from.induct)
  case (1 src stop depth i)
  show ?case
  proof (cases "i + 2 < stop")
    case True
    with 1 show ?thesis
      by (subst skip_block_from.simps) (auto intro: lands_weaken simp: lands_def)
  next
    case False
    then have "skip_block_from src stop d (i + 2) = stop" for d by (subst skip_block_from.simps) simp
    moreover have "skip_block_from src stop d (i + 1) = stop" for d
      using False by (subst skip_block_from.simps) simp
    ultimately show ?thesis using 1(4) by (subst skip_block_from.simps) (auto simp: lands_def)
  qed
qed

lemma skip_quoted_from_lands: "i < stop \<Longrightarrow> lands src stop i (skip_quoted_from src stop i)"
proof (induction src stop i rule: skip_quoted_from.induct)
  case (1 src stop i)
  have "stop \<le> j \<Longrightarrow> skip_quoted_from src stop j = stop" for j by (subst skip_quoted_from.simps) simp
  then have "lands src stop i (skip_quoted_from src stop (i + 2))" if "src ! i = CHR 0x5C"
    using 1 that by (cases "i + 2 < stop") (auto intro: lands_weaken lands_stop)
  moreover from \<open>\<And>j. stop \<le> j \<Longrightarrow> _\<close>
  have "lands src stop i (skip_quoted_from src stop (i + 1))" if "src ! i \<noteq> CHR 0x5C" "src ! i \<noteq> CHR 0x22"
    using 1 that by (cases "i + 1 < stop") (auto intro: lands_weaken lands_stop)
  ultimately show ?case using 1(3) by (subst skip_quoted_from.simps) (auto simp: lands_after)
qed

lemma skip_quoted_lands: "i < stop \<Longrightarrow> lands src stop i (skip_quoted src i stop)"
proof (cases "i + 1 < stop")
  case True
  then show ?thesis
    unfolding skip_quoted_def by (blast intro: lands_weaken skip_quoted_from_lands le_add1)
next
  case False
  then show "i < stop \<Longrightarrow> ?thesis"
    unfolding skip_quoted_def by (subst skip_quoted_from.simps) (simp add: lands_stop)
qed

lemma skip_char_or_lifetime_lands:
  assumes "i < stop" and "src ! i = CHR 0x27"
  shows "lands src stop i (skip_char_or_lifetime src i stop)"
proof -
  let ?P = "\<lambda>c. c \<noteq> CHR 0x27 \<and> c \<noteq> CHR 0x0A"
  have "lands src stop i (skip_while ?P src (min stop (k + 8)) k + 1)"
    if "i < k" "skip_while ?P src (min stop (k + 8)) k < min stop (k + 8)"
      "src ! skip_while ?P src (min stop (k + 8)) k = CHR 0x27" for k
    using that skip_while_ge [of k ?P src "min stop (k + 8)"] by (simp add: lands_after)
  moreover have "lands src stop i (i + 1)" using assms by (simp add: lands_after)
  ultimately show ?thesis
    using assms(1) by (auto simp: skip_char_or_lifetime_def Let_def lands_stop)
qed

lemma raw_close_lands: "i < stop \<Longrightarrow> lands src stop i (raw_close src stop hashes i)"
proof (induction src stop hashes i rule: raw_close.induct)
  case (1 src stop hashes i)
  let ?c = "skip_while (\<lambda>c. c = CHR ''#'') src (min stop (i + 1 + hashes)) (i + 1)"
  have c: "lands src stop i ?c" if "src ! i = CHR 0x22"
  proof (cases "?c = i + 1")
    case True
    with 1(2) that show ?thesis by (simp add: lands_after)
  next
    case False
    with skip_while_ge [of "i + 1" "\<lambda>c. c = CHR ''#''" src "min stop (i + 1 + hashes)"]
    have "src ! (?c - 1) = CHR ''#''" "i + 1 < ?c"
      using skip_while_all [of "i + 1" "?c - 1" "\<lambda>c. c = CHR ''#''" src "min stop (i + 1 + hashes)"] by auto
    moreover have "?c \<le> stop"
      using skip_while_le [of "i + 1" "min stop (i + 1 + hashes)" "\<lambda>c. c = CHR ''#''" src] 1(2) by simp
    ultimately show ?thesis by (simp add: lands_def)
  qed
  have "lands src stop i (raw_close src stop hashes (i + 1))"
    if "\<not> (src ! i = CHR 0x22 \<and> ?c = i + 1 + hashes)"
  proof (cases "i + 1 < stop")
    case True
    then show ?thesis using 1(1) [OF 1(2) refl that True] by (blast intro: lands_weaken le_add1)
  next
    case False
    then show ?thesis using 1(2) by (subst raw_close.simps) (simp add: lands_stop)
  qed
  with c 1(2) show ?case by (subst raw_close.simps) (auto simp: Let_def)
qed

lemma skip_raw_lands:
  assumes "skip_raw src j stop = Some r" and "i < j" and "i < stop"
  shows "lands src stop i r"
proof -
  let ?q = "skip_while (\<lambda>c. c = CHR ''#'') src (length src) j"
  from assms(1) have r: "r = raw_close src stop (?q - j) (?q + 1)"
    by (auto simp: skip_raw_def Let_def split: if_splits)
  have "i < ?q + 1" using skip_while_ge [of j "\<lambda>c. c = CHR ''#''" src "length src"] assms(2) by simp
  then show ?thesis
  proof (cases "?q + 1 < stop")
    case True
    with raw_close_lands [OF this, of src "?q - j"] \<open>i < ?q + 1\<close> show ?thesis
      unfolding r by (blast intro: lands_weaken less_imp_le)
  next
    case False
    then show ?thesis unfolding r using assms(3) by (subst raw_close.simps) (simp add: lands_stop)
  qed
qed

lemma skip_quoted_lands_after: "i < stop \<Longrightarrow> lands src stop i (skip_quoted src (i + 1) stop)"
proof (cases "i + 2 < stop")
  case True
  then show ?thesis
    unfolding skip_quoted_def using skip_quoted_from_lands [of "i + 2" stop src]
    by (auto intro: lands_weaken simp: numeral_2_eq_2)
next
  case False
  then show "i < stop \<Longrightarrow> ?thesis"
    unfolding skip_quoted_def by (subst skip_quoted_from.simps) (simp add: lands_stop)
qed

lemma skip_prefixed_string_lands:
  "skip_prefixed_string src i stop = Some r \<Longrightarrow> i < stop \<Longrightarrow> lands src stop i r"
  by (auto simp: skip_prefixed_string_def skip_quoted_lands_after [unfolded Suc_eq_plus1 [symmetric]]
      elim!: skip_raw_lands split: if_splits)

lemma skip_token_lands:
  "skip_token src i stop = Some r \<Longrightarrow> i < stop \<Longrightarrow> lands src stop i r"
  by (auto simp: skip_token_def Let_def skip_quoted_lands skip_char_or_lifetime_lands skip_line_comment_lands
      skip_block_comment_def skip_block_from_lands skip_prefixed_string_lands split: if_splits)

section \<open>Delimiters and words\<close>

function skip_delimited_from :: "string \<Rightarrow> nat \<Rightarrow> char \<Rightarrow> char \<Rightarrow> int \<Rightarrow> nat \<Rightarrow> nat" where
  "skip_delimited_from src stop lb rb depth i =
     (if i < stop then
        (case skip_token src i stop of
           Some next \<Rightarrow> skip_delimited_from src stop lb rb depth next
         | None \<Rightarrow>
             if src ! i \<in> {CHR ''r'', CHR ''b'', CHR ''c''} then skip_delimited_from src stop lb rb depth (i + 1)
             else if src ! i = lb then skip_delimited_from src stop lb rb (depth + 1) (i + 1)
             else if src ! i = rb then
               (if depth - 1 \<le> 0 then i + 1 else skip_delimited_from src stop lb rb (depth - 1) (i + 1))
             else skip_delimited_from src stop lb rb depth (i + 1))
      else stop)"
  by pat_completeness auto
termination
  by (relation "measure (\<lambda>(src, stop, lb, rb, depth, i). stop - i)")
    (auto dest!: skip_token_lands lands_less)

declare skip_delimited_from.simps [simp del]

definition skip_delimited :: "string \<Rightarrow> nat \<Rightarrow> nat \<Rightarrow> char \<Rightarrow> char \<Rightarrow> nat" where
  "skip_delimited src start stop lb rb =
     (if \<not> byte_is src start lb then start else skip_delimited_from src stop lb rb 0 start)"

definition word_at :: "string \<Rightarrow> nat \<Rightarrow> nat \<Rightarrow> string option" where
  "word_at src start stop =
     (if stop \<le> start then None
      else if \<not> (is_ascii_alphabetic (src ! start) \<or> src ! start = CHR ''_'') then None
      else get_slice src start (skip_while ident_byte src stop start))"

definition word_len :: "string \<Rightarrow> nat \<Rightarrow> nat \<Rightarrow> nat" where
  "word_len src start stop = (case word_at src start stop of None \<Rightarrow> 0 | Some w \<Rightarrow> length w)"

definition read_ident :: "string \<Rightarrow> nat \<Rightarrow> nat \<Rightarrow> string option" where
  "read_ident src start stop =
     (let ident_start = skip_while is_ascii_whitespace src stop start;
          i = skip_while ident_byte src stop ident_start
      in if i = ident_start then None else Some (slice src ident_start i))"

lemma skip_while_lands:
  assumes "skip_while P src stop i \<noteq> i" and "i \<le> stop" and "\<And>c. P c \<Longrightarrow> is_ascii c"
  shows "lands src stop i (skip_while P src stop i)"
proof -
  let ?r = "skip_while P src stop i"
  have r: "i < ?r" "?r \<le> stop" using skip_while_ge [of i P src stop] skip_while_le [OF assms(2)] assms(1) by auto
  with skip_while_all [of i "?r - 1" P src stop] assms(3) show ?thesis by (auto simp: lands_def)
qed

lemma skip_delimited_from_end: "stop \<le> i \<Longrightarrow> skip_delimited_from src stop lb rb depth i = stop"
  by (subst skip_delimited_from.simps) simp

lemma skip_delimited_from_lands:
  "i < stop \<Longrightarrow> is_ascii rb \<Longrightarrow> lands src stop i (skip_delimited_from src stop lb rb depth i)"
proof (induction src stop lb rb depth i rule: skip_delimited_from.induct)
  case (1 src stop lb rb depth i)
  show ?case
  proof (cases "skip_token src i stop")
    case (Some "next")
    with skip_token_lands [OF this 1(6)] 1 show ?thesis
      by (subst skip_delimited_from.simps)
        (auto intro!: lands_next [of i "next"] simp: skip_delimited_from_end dest: lands_less)
  next
    case None
    with 1 show ?thesis
      by (subst skip_delimited_from.simps)
        (auto intro!: lands_next [of i "Suc i"] simp: skip_delimited_from_end lands_after)
  qed
qed

lemma skip_delimited_ge:
  "start \<le> stop \<Longrightarrow> is_ascii rb \<Longrightarrow>
   start \<le> skip_delimited src start stop lb rb \<and> skip_delimited src start stop lb rb \<le> stop"
proof (cases "start < stop")
  case True
  then show "is_ascii rb \<Longrightarrow> ?thesis"
    using skip_delimited_from_lands [of start stop rb src lb 0]
    by (auto simp: skip_delimited_def dest!: lands_less)
next
  case False
  then show "start \<le> stop \<Longrightarrow> ?thesis"
    by (simp add: skip_delimited_def skip_delimited_from_end)
qed

lemma skip_quoted_ge: "i \<le> stop \<Longrightarrow> i \<le> skip_quoted src i stop \<and> skip_quoted src i stop \<le> stop"
proof (cases "i < stop")
  case True
  then show ?thesis using skip_quoted_lands [of i stop src] by (auto dest: lands_less)
next
  case False
  then show "i \<le> stop \<Longrightarrow> ?thesis"
    by (simp add: skip_quoted_def skip_quoted_from.simps [of src stop "Suc stop"])
qed

lemma word_at_bound:
  assumes "word_at src i stop = Some w"
  shows "i < i + length w \<and> i + length w \<le> stop"
proof -
  let ?r = "skip_while ident_byte src stop i"
  from assms have w: "i < stop" "is_ascii_alphabetic (src ! i) \<or> src ! i = CHR ''_''" "get_slice src i ?r = Some w"
    by (auto simp: word_at_def split: if_splits)
  then have "ident_byte (src ! i)" by (auto simp: ident_byte_def is_ascii_alphabetic_def is_ascii_alphanumeric_def)
  with w(1) have "?r = skip_while ident_byte src stop (Suc i)" by (subst skip_while.simps) simp
  then have "i < ?r" using skip_while_ge [of "Suc i" ident_byte src stop] by simp
  moreover have "?r \<le> stop" using skip_while_le [of i stop] w(1) by simp
  ultimately show ?thesis using w(3) by (auto simp: get_slice_def slice_def split: if_splits)
qed

function skip_modifiers :: "string \<Rightarrow> nat \<Rightarrow> nat \<Rightarrow> nat" where
  "skip_modifiers src i stop =
     (let i = skip_while is_ascii_whitespace src stop i in
        (case word_at src i stop of
           None \<Rightarrow> i
         | Some w \<Rightarrow>
             if w = ''pub'' then
               skip_modifiers src
                 (if byte_is src (i + 3) (CHR ''('') then skip_delimited src (i + 3) stop (CHR ''('') (CHR '')'') else i + 3) stop
             else if w \<in> {''async'', ''unsafe'', ''const'', ''default'', ''auto''} then
               skip_modifiers src (i + length w) stop
             else if w = ''extern'' then
               (let j = skip_while is_ascii_whitespace src stop (i + 6)
                in skip_modifiers src (if byte_is src j (CHR 0x22) then skip_quoted src j stop else j) stop)
             else i))"
  by pat_completeness auto
termination
proof (relation "measure (\<lambda>(src, i, stop). stop - i)", goal_cases)
  case (2 src i0 stop i w)
  then have i: "i0 \<le> i" "i + 3 \<le> stop" using skip_while_ge word_at_bound by fastforce+
  then show ?case
    using 2 skip_delimited_ge [of "i + 3" stop "CHR '')''" src "CHR ''(''"] by auto
next
  case (3 src i0 stop i w)
  then have "i0 \<le> i" "i < i + length w" "i + length w \<le> stop" using skip_while_ge word_at_bound by blast+
  then show ?case by (cases w) auto
next
  case (4 src i0 stop i w j)
  then have w: "word_at src i stop = Some ''extern''" and "i0 \<le> i" by (auto simp: skip_while_ge)
  have "i + 6 \<le> stop" using word_at_bound [OF w] by simp
  moreover from 4 have j: "j = skip_while is_ascii_whitespace src stop (i + 6)" by simp
  ultimately have "i + 6 \<le> j" "j \<le> stop" unfolding j by (simp_all add: skip_while_ge skip_while_le)
  moreover note \<open>i0 \<le> i\<close>
  ultimately have i: "i0 < j" "j \<le> stop" by simp_all
  then show ?case using 4 skip_quoted_ge [of j stop src] by auto
qed simp

declare skip_modifiers.simps [simp del]

section \<open>The end of an item\<close>

record item_scan =
  is_end :: nat
  is_body :: "(nat \<times> nat) option"

text \<open>Behind the closing brace: blanks, and a semicolon when one follows.\<close>

definition after_brace :: "string \<Rightarrow> nat \<Rightarrow> nat \<Rightarrow> nat" where
  "after_brace src i stop =
     (let cursor = skip_while (\<lambda>c. c = CHR '' '' \<or> c = CHR 0x09) src stop (i + 1)
      in if cursor < stop \<and> src ! cursor = CHR '';'' then cursor + 1 else cursor)"

function find_item_from ::
  "string \<Rightarrow> nat \<Rightarrow> int \<Rightarrow> int \<Rightarrow> int \<Rightarrow> nat option \<Rightarrow> nat \<Rightarrow> item_scan" where
  "find_item_from src stop paren bracket brace body i =
     (if i < stop then
        (case skip_token src i stop of
           Some next \<Rightarrow> find_item_from src stop paren bracket brace body next
         | None \<Rightarrow>
             if src ! i = CHR ''{'' then
               find_item_from src stop paren bracket (brace + 1)
                 (if brace + 1 = 1 \<and> paren = 0 \<and> bracket = 0 then Some i else body) (i + 1)
             else if src ! i = CHR ''}'' then
               (if brace - 1 \<le> 0
                then \<lparr>is_end = after_brace src i stop, is_body = map_option (\<lambda>b. (b, i)) body\<rparr>
                else find_item_from src stop paren bracket (brace - 1) body (i + 1))
             else if src ! i = CHR ''('' then find_item_from src stop (paren + 1) bracket brace body (i + 1)
             else if src ! i = CHR '')'' then find_item_from src stop (paren - 1) bracket brace body (i + 1)
             else if src ! i = CHR ''['' then find_item_from src stop paren (bracket + 1) brace body (i + 1)
             else if src ! i = CHR '']'' then find_item_from src stop paren (bracket - 1) brace body (i + 1)
             else if src ! i = CHR '';'' \<and> brace = 0 \<and> paren = 0 \<and> bracket = 0 then
               \<lparr>is_end = i + 1, is_body = None\<rparr>
             else find_item_from src stop paren bracket brace body (i + 1))
      else \<lparr>is_end = stop, is_body = map_option (\<lambda>b. (b, stop)) body\<rparr>)"
  by pat_completeness auto
termination
  by (relation "measure (\<lambda>(src, stop, paren, bracket, brace, body, i). stop - i)")
    (auto dest!: skip_token_lands lands_less)

declare find_item_from.simps [simp del]

definition find_item_end :: "string \<Rightarrow> nat \<Rightarrow> nat \<Rightarrow> item_scan" where
  "find_item_end src start stop = find_item_from src stop 0 0 0 None start"

definition extend_to_line_end :: "string \<Rightarrow> nat \<Rightarrow> nat \<Rightarrow> nat" where
  "extend_to_line_end src i limit =
     (let j = skip_while (\<lambda>c. c = CHR '' '' \<or> c = CHR 0x09 \<or> c = CHR 0x0D) src limit i
      in if j < limit \<and> src ! j = CHR 0x0A then j + 1 else j)"

lemma after_brace_lands:
  assumes "i < stop" and "src ! i = CHR ''}''"
  shows "lands src stop i (after_brace src i stop)"
proof -
  let ?P = "\<lambda>c. c = CHR '' '' \<or> c = CHR 0x09"
  let ?c = "skip_while ?P src stop (i + 1)"
  have i: "lands src stop i (i + 1)" using assms by (simp add: lands_after)
  have c: "lands src stop i ?c"
  proof (cases "?c = i + 1")
    case False
    with assms(1) have "lands src stop (i + 1) ?c" by (intro skip_while_lands) auto
    then show ?thesis by (rule lands_weaken) simp
  qed (use i in simp)
  with lands_less [OF c] show ?thesis by (auto simp: after_brace_def Let_def intro!: lands_after)
qed

lemma extend_to_line_end_lands:
  assumes "lands src stop i k"
  shows "lands src stop i (extend_to_line_end src k stop) \<and> k \<le> extend_to_line_end src k stop"
proof -
  let ?P = "\<lambda>c. c = CHR '' '' \<or> c = CHR 0x09 \<or> c = CHR 0x0D"
  let ?c = "skip_while ?P src stop k"
  have c: "lands src stop i ?c"
  proof (cases "?c = k")
    case False
    with lands_less [OF assms] have "lands src stop k ?c" by (intro skip_while_lands) auto
    then show ?thesis using lands_less [OF assms] by (auto intro: lands_weaken)
  qed (use assms in simp)
  moreover have "k \<le> ?c" by (rule skip_while_ge)
  ultimately show ?thesis using lands_less [OF c] by (auto simp: extend_to_line_end_def Let_def intro!: lands_after)
qed

text \<open>What a scan from \<open>i\<close> returns: an end behind it, and a body between them.\<close>

definition scan_ok :: "string \<Rightarrow> nat \<Rightarrow> nat \<Rightarrow> nat \<Rightarrow> item_scan \<Rightarrow> bool" where
  "scan_ok src stop lo i r \<longleftrightarrow>
     lands src stop i (is_end r) \<and>
     (\<forall>b e. is_body r = Some (b, e) \<longrightarrow> lo \<le> b \<and> b < e \<and> e \<le> is_end r \<and> (e = stop \<or> e < stop \<and> src ! e = CHR ''}'') \<and>
        b < stop \<and> src ! b = CHR ''{'')"

lemma scan_ok_next:
  assumes "scan_ok src stop lo next r" and "i < next"
  shows "scan_ok src stop lo i r"
  using assms by (auto simp: scan_ok_def intro: lands_weaken)

definition body_ok :: "string \<Rightarrow> nat \<Rightarrow> nat \<Rightarrow> nat option \<Rightarrow> bool" where
  "body_ok src lo i body \<longleftrightarrow> (\<forall>b. body = Some b \<longrightarrow> lo \<le> b \<and> b < i \<and> src ! b = CHR ''{'')"

lemma find_item_from_end:
  "stop \<le> i \<Longrightarrow>
   find_item_from src stop paren bracket brace body i = \<lparr>is_end = stop, is_body = map_option (\<lambda>b. (b, stop)) body\<rparr>"
  by (subst find_item_from.simps) simp

lemma body_ok_mono: "body_ok src lo i body \<Longrightarrow> i \<le> j \<Longrightarrow> body_ok src lo j body"
  by (auto simp: body_ok_def)

lemma scan_ok_step:
  assumes "i < next" and "next \<le> stop" and "body_ok src lo next body"
    and "next < stop \<Longrightarrow> scan_ok src stop lo next (find_item_from src stop paren bracket brace body next)"
  shows "scan_ok src stop lo i (find_item_from src stop paren bracket brace body next)"
proof (cases "next < stop")
  case True
  then show ?thesis using assms scan_ok_next by blast
next
  case False
  then show ?thesis using assms by (auto simp: find_item_from_end scan_ok_def body_ok_def lands_stop)
qed

lemma scan_ok_if:
  "(c \<Longrightarrow> scan_ok src stop lo i x) \<Longrightarrow> (\<not> c \<Longrightarrow> scan_ok src stop lo i y) \<Longrightarrow> scan_ok src stop lo i (if c then x else y)"
  by simp

lemma find_item_from_ok:
  "i < stop \<Longrightarrow> lo \<le> i \<Longrightarrow> body_ok src lo i body \<Longrightarrow>
   scan_ok src stop lo i (find_item_from src stop paren bracket brace body i)"
proof (induction src stop paren bracket brace body i rule: find_item_from.induct)
  case (1 src stop paren bracket brace body i)
  show ?case
  proof (cases "skip_token src i stop")
    case (Some "next")
    with lands_less [OF skip_token_lands [OF this "1.prems"(1)]] have "next": "i < next" "next \<le> stop" by simp_all
    then have "body_ok src lo next body" using body_ok_mono "1.prems"(3) less_imp_le by blast
    moreover from this have "next < stop \<Longrightarrow> scan_ok src stop lo next (find_item_from src stop paren bracket brace body next)"
      using "1.IH"(8) [OF "1.prems"(1) Some] "1.prems"(2) "next"(1) by simp
    ultimately have "scan_ok src stop lo i (find_item_from src stop paren bracket brace body next)"
      using scan_ok_step "next" by blast
    with Some "1.prems"(1) show ?thesis by (subst find_item_from.simps) simp
  next
    case None
    have lift: "body_ok src lo (i + 1) body" using "1.prems"(3) by (rule body_ok_mono) simp
    have opened: "body_ok src lo (i + 1) (if c then Some i else body)" if "src ! i = CHR ''{''" for c
      using lift that "1.prems"(2) by (auto simp: body_ok_def)
    have close: "scan_ok src stop lo i \<lparr>is_end = after_brace src i stop, is_body = map_option (\<lambda>b. (b, i)) body\<rparr>"
      if "src ! i = CHR ''}''"
      using lands_less [OF after_brace_lands [OF "1.prems"(1) that]] after_brace_lands [OF "1.prems"(1) that] "1.prems"(1,3) that
      by (auto simp: scan_ok_def body_ok_def)
    have go: "scan_ok src stop lo i (find_item_from src stop p k d b (i + 1))"
      if "body_ok src lo (i + 1) b"
        "i + 1 < stop \<Longrightarrow> lo \<le> i + 1 \<Longrightarrow> body_ok src lo (i + 1) b \<Longrightarrow>
         scan_ok src stop lo (i + 1) (find_item_from src stop p k d b (i + 1))" for p k d b
      by (rule scan_ok_step) (use that "1.prems"(1,2) in simp_all)
    note IH = "1.IH"(1-7) [OF "1.prems"(1) None]
    show ?thesis
    proof (subst find_item_from.simps, simp only: None "1.prems"(1) option.case if_True, intro scan_ok_if, goal_cases)
      case 1
      then show ?case by (intro go opened IH(1))
    next
      case 2
      then show ?case by (intro close)
    next
      case 8
      then show ?case using "1.prems"(1) by (simp add: scan_ok_def lands_after)
    qed (simp_all only: go IH lift simp_thms)
  qed
qed

lemma find_item_end_ok: "i < stop \<Longrightarrow> scan_ok src stop i i (find_item_end src i stop)"
  unfolding find_item_end_def by (rule find_item_from_ok) (simp_all add: body_ok_def)

section \<open>Classifying an item\<close>

datatype item_kind =
    KUse | KModDecl | KModBlock | KFn | KStruct | KEnum | KImpl | KTrait | KType | KConst | KStatic | KMacro
  | KExtern | KOther

datatype parsed_item = ParsedItem
  (it_kind: item_kind) (it_start: nat) (it_end: nat) (it_body: "(nat \<times> nat) option") (it_name: "string option")
  (it_path_attr: "string option") (it_test: bool) (it_children: "parsed_item list")

definition classify_kind :: "string \<Rightarrow> nat \<Rightarrow> nat \<Rightarrow> item_kind" where
  "classify_kind src start stop =
     (case word_at src start stop of
        None \<Rightarrow> KOther
      | Some w \<Rightarrow>
          if w = ''use'' then KUse
          else if w = ''mod'' then
            (let i = skip_while is_ascii_whitespace src stop (start + 3);
                 i = skip_while ident_byte src stop i;
                 i = skip_while is_ascii_whitespace src stop i
             in if byte_is src i (CHR ''{'') then KModBlock else KModDecl)
          else if w = ''fn'' then KFn
          else if w = ''struct'' then KStruct
          else if w = ''enum'' then KEnum
          else if w = ''impl'' then KImpl
          else if w = ''trait'' then KTrait
          else if w = ''type'' then KType
          else if w = ''const'' then KConst
          else if w = ''static'' then KStatic
          else if w = ''macro_rules'' \<or> w = ''macro'' then KMacro
          else if w = ''crate'' then KExtern
          else KOther)"

text \<open>\<open>trim_start_matches\<close> and \<open>trim_end_matches\<close>: every repetition of the pattern is removed.\<close>

function trim_start_matches :: "string \<Rightarrow> string \<Rightarrow> string" where
  "trim_start_matches pat s =
     (if pat \<noteq> [] \<and> starts_with s pat then trim_start_matches pat (drop (length pat) s) else s)"
  by pat_completeness auto
termination
  by (relation "measure (\<lambda>(pat, s). length s)") (auto simp: starts_with_iff)

declare trim_start_matches.simps [simp del]

definition trim_end_matches :: "char \<Rightarrow> string \<Rightarrow> string" where
  "trim_end_matches c s = rev (dropWhile (\<lambda>d. d = c) (rev s))"

definition use_name :: "string \<Rightarrow> string option" where
  "use_name s =
     (let trimmed = trim (trim_end_matches (CHR '';'') (trim (trim_start_matches ''use'' (trim s)))) in
      if CHR ''{'' \<in> set trimmed \<or> CHR 0x0A \<in> set trimmed then None
      else
        let name = (case str_rfind trimmed '' as '' of
              Some i \<Rightarrow> trim (drop (i + 4) trimmed)
            | None \<Rightarrow> (case str_rfind trimmed ''::'' of None \<Rightarrow> trimmed | Some i \<Rightarrow> drop (i + 2) trimmed));
            name = trim name
        in if name \<noteq> [] \<and> CHR '' '' \<notin> set name then Some name else None)"

definition item_name :: "string \<Rightarrow> item_kind \<Rightarrow> nat \<Rightarrow> nat \<Rightarrow> string option" where
  "item_name src kind keyword_at stop =
     (if kind \<in> {KModDecl, KModBlock} then read_ident src (keyword_at + 3) stop
      else if kind \<in> {KFn, KStruct, KEnum, KTrait, KType, KConst, KStatic} then
        read_ident src (keyword_at + word_len src keyword_at stop) stop
      else if kind = KMacro then
        (let i = skip_while is_ascii_whitespace src stop (keyword_at + word_len src keyword_at stop)
         in read_ident src (if byte_is src i (CHR ''!'') then i + 1 else i) stop)
      else if kind = KUse then
        use_name (case get_slice src keyword_at stop of None \<Rightarrow> [] | Some s \<Rightarrow> s)
      else None)"

definition is_test_cfg :: "string \<Rightarrow> bool" where
  "is_test_cfg attr \<longleftrightarrow>
     str_contains attr ''cfg(test)'' \<or> str_contains attr ''cfg(any(test'' \<or> str_contains attr ''cfg(all(test''"

definition strip_prefix :: "string \<Rightarrow> string \<Rightarrow> string option" where
  "strip_prefix pat s = (if starts_with s pat then Some (drop (length pat) s) else None)"

text \<open>The text up to the next double quote, when it is not empty and has no backslash.\<close>

definition quoted_value :: "string \<Rightarrow> string option" where
  "quoted_value rest =
     (case str_find rest [CHR 0x22] of
        None \<Rightarrow> None
      | Some n \<Rightarrow> let v = take n rest in if v \<noteq> [] \<and> CHR 0x5C \<notin> set v then Some v else None)"

definition parse_path_attribute :: "string \<Rightarrow> string option" where
  "parse_path_attribute attr =
     (case str_find attr ''path'' of
        None \<Rightarrow> None
      | Some index \<Rightarrow>
          (case strip_prefix ''='' (trim_start (drop (index + 4) attr)) of
             None \<Rightarrow> None
           | Some rest \<Rightarrow>
               (case strip_prefix [CHR 0x22] (trim_start rest) of None \<Rightarrow> None | Some rest \<Rightarrow> quoted_value rest)))"

section \<open>The scan\<close>

definition MAX_PARSE_DEPTH :: nat where "MAX_PARSE_DEPTH = 3"
definition MAX_ITEMS_PER_FILE :: nat where "MAX_ITEMS_PER_FILE = 512"

definition is_comment_at :: "string \<Rightarrow> nat \<Rightarrow> nat \<Rightarrow> bool" where
  "is_comment_at src i stop \<longleftrightarrow>
     src ! i = CHR ''/'' \<and> i + 1 < stop \<and> (src ! (i + 1) = CHR ''/'' \<or> src ! (i + 1) = CHR ''*'')"

definition is_doc_at :: "string \<Rightarrow> nat \<Rightarrow> nat \<Rightarrow> bool" where
  "is_doc_at src i stop \<longleftrightarrow> i + 2 < stop \<and> (src ! (i + 2) = src ! (i + 1) \<or> src ! (i + 2) = CHR ''!'')"

definition skip_comment :: "string \<Rightarrow> nat \<Rightarrow> nat \<Rightarrow> nat" where
  "skip_comment src i stop =
     (if src ! (i + 1) = CHR ''/'' then skip_line_comment src i stop else skip_block_comment src i stop)"

definition is_attribute_at :: "string \<Rightarrow> nat \<Rightarrow> nat \<Rightarrow> bool" where
  "is_attribute_at src i stop \<longleftrightarrow>
     src ! i = CHR ''#'' \<and> i + 1 < stop \<and>
     (src ! (i + 1) = CHR ''['' \<or> (src ! (i + 1) = CHR ''!'' \<and> i + 2 < stop \<and> src ! (i + 2) = CHR ''[''))"

definition attribute_end :: "string \<Rightarrow> nat \<Rightarrow> nat \<Rightarrow> nat" where
  "attribute_end src i stop =
     skip_delimited src (if src ! (i + 1) = CHR ''!'' then i + 2 else i + 1) stop (CHR ''['') (CHR '']'')"

definition get_or_insert :: "'a option \<Rightarrow> 'a \<Rightarrow> 'a option" where
  "get_or_insert p i = (case p of None \<Rightarrow> Some i | Some x \<Rightarrow> Some x)"

definition item_end_at :: "string \<Rightarrow> nat \<Rightarrow> nat \<Rightarrow> nat" where
  "item_end_at src i stop = extend_to_line_end src (is_end (find_item_end src i stop)) stop"

definition item_kind_at :: "string \<Rightarrow> nat \<Rightarrow> nat \<Rightarrow> item_kind" where
  "item_kind_at src i stop = classify_kind src (skip_modifiers src i stop) stop"

lemma skip_comment_lands: "i < stop \<Longrightarrow> lands src stop i (skip_comment src i stop)"
  by (simp add: skip_comment_def skip_line_comment_lands skip_block_comment_def skip_block_from_lands)

lemma attribute_end_lands: "i < stop \<Longrightarrow> stop \<le> length src \<Longrightarrow> is_attribute_at src i stop \<Longrightarrow> lands src stop i (attribute_end src i stop)"
  by (auto simp: is_attribute_at_def attribute_end_def skip_delimited_def byte_is_def
      intro!: lands_weaken [OF skip_delimited_from_lands] split: if_splits)

lemma item_end_lands: "i < stop \<Longrightarrow> lands src stop i (item_end_at src i stop)"
  unfolding item_end_at_def using find_item_end_ok [of i stop src] by (simp add: scan_ok_def extend_to_line_end_lands)

lemma item_body_bounds:
  assumes "is_body (find_item_end src i stop) = Some (b, e)" and "i < stop"
  shows "i \<le> b \<and> b < e \<and> e \<le> stop \<and> e \<le> item_end_at src i stop"
proof -
  from find_item_end_ok [OF assms(2), of src] have s: "scan_ok src stop i i (find_item_end src i stop)" .
  then have "is_end (find_item_end src i stop) \<le> item_end_at src i stop"
    unfolding item_end_at_def scan_ok_def using extend_to_line_end_lands by blast
  with s assms(1) show ?thesis by (auto simp: scan_ok_def dest: lands_less)
qed

text \<open>
  \<open>pending\<close> is the start of the doc comments and attributes in front of the next item. The items of a
  module block are scanned between its braces, down to three levels. The result lists the items still to be
  pushed; \<open>found\<close> is the length of the output so far.
\<close>

function scan_items ::
  "string \<Rightarrow> nat \<Rightarrow> nat \<Rightarrow> nat \<Rightarrow> nat option \<Rightarrow> bool \<Rightarrow> string option \<Rightarrow> nat \<Rightarrow> parsed_item list" where
  "scan_items src stop depth i pending test path_attr found =
     (if i < stop \<and> found < MAX_ITEMS_PER_FILE then
        if is_ascii_whitespace (src ! i) then scan_items src stop depth (i + 1) pending test path_attr found
        else if is_comment_at src i stop then
          scan_items src stop depth (skip_comment src i stop)
            (if is_doc_at src i stop then get_or_insert pending i else pending) test path_attr found
        else if is_attribute_at src i stop then
          (let attr_end = attribute_end src i stop; attr = slice src i attr_end in
           if attr_end \<le> i then []
           else scan_items src stop depth attr_end (get_or_insert pending i) (test \<or> is_test_cfg attr)
             (case parse_path_attribute attr of None \<Rightarrow> path_attr | Some p \<Rightarrow> Some p) found)
        else
          let kind = item_kind_at src i stop;
              item_end = item_end_at src i stop;
              body = is_body (find_item_end src i stop)
          in ParsedItem kind (case pending of None \<Rightarrow> i | Some p \<Rightarrow> p) item_end body
               (item_name src kind (skip_modifiers src i stop) item_end) path_attr test
               (case body of
                  None \<Rightarrow> []
                | Some (b, e) \<Rightarrow>
                    if kind = KModBlock \<and> depth < MAX_PARSE_DEPTH \<and> b + 1 < e
                    then scan_items src e (depth + 1) (b + 1) None False None 0 else [])
             # scan_items src stop depth item_end None False None (found + 1)
      else [])"
  by pat_completeness auto
termination
proof (relation "measure (\<lambda>(src, stop, depth, i, pending, test, path_attr, found). stop - i)", goal_cases)
  case (2 src stop depth i)
  then show ?case by auto
next
  case (3 src stop depth i)
  then show ?case using skip_comment_lands [of i stop src] by (auto dest: lands_less)
next
  case (4 src stop depth i)
  then show ?case by auto
next
  case (5 src stop depth i pending test path_attr found kind item_end body be b e)
  then show ?case using item_body_bounds [of src i stop b e] by auto
next
  case (6 src stop depth i)
  then show ?case using item_end_lands [of i stop src] by (auto dest: lands_less)
qed simp

declare scan_items.simps [simp del]

definition parse_items :: "string \<Rightarrow> parsed_item list" where
  "parse_items src = scan_items src (length src) 0 0 None False None 0"

section \<open>The items of a well-formed text\<close>

lemma lands_boundary:
  assumes "from_utf8_ok src" and "lands src stop i r" and "stop \<le> length src" and "is_char_boundary src stop"
  shows "is_char_boundary src r"
proof (cases "r = stop")
  case False
  with assms(2,3) have "Suc (r - 1) < length src" "is_ascii (src ! (r - 1))" by (auto simp: lands_def)
  from utf8_after_ascii [OF assms(1) this] assms(2) show ?thesis
    using \<open>Suc (r - 1) < length src\<close> by (simp add: lands_def is_char_boundary_def)
qed (use assms(4) in simp)

lemma ascii_boundary: "i < length src \<Longrightarrow> is_ascii (src ! i) \<Longrightarrow> is_char_boundary src i"
  by (simp add: is_char_boundary_def is_ascii_def is_cont_def)

lemma item_body_boundaries:
  assumes "is_body (find_item_end src i stop) = Some (b, e)" and "i < stop" and "stop \<le> length src"
    and "is_char_boundary src stop" and "from_utf8_ok src"
  shows "e \<le> length src" "is_char_boundary src e" "is_char_boundary src (b + 1)"
proof -
  from find_item_end_ok [OF assms(2), of src] assms(1)
  have s: "b < e" "e = stop \<or> e < stop \<and> src ! e = CHR ''}''" "b < stop" "src ! b = CHR ''{''"
    by (auto simp: scan_ok_def)
  with assms(3,4) show "e \<le> length src" "is_char_boundary src e" by (auto intro: ascii_boundary)
  have "lands src stop b (b + 1)" using s(3,4) by (simp add: lands_after is_ascii_def)
  with lands_boundary assms(3-5) show "is_char_boundary src (b + 1)" by blast
qed

text \<open>
  Items in order between two positions: each is not empty, starts behind the one before and is cut at
  character boundaries, and its children lie in the same way inside its body.
\<close>

fun items_ok :: "string \<Rightarrow> nat \<Rightarrow> nat \<Rightarrow> parsed_item list \<Rightarrow> bool" where
  "items_ok src lo hi [] = True"
| "items_ok src lo hi (ParsedItem kind start stop body name path_attr test children # items) =
     (lo \<le> start \<and> start < stop \<and> stop \<le> hi \<and> is_char_boundary src start \<and> is_char_boundary src stop \<and>
      (case body of None \<Rightarrow> children = [] | Some (b, e) \<Rightarrow> start \<le> b \<and> e \<le> stop \<and> items_ok src (b + 1) e children) \<and>
      items_ok src stop hi items)"

definition pending_ok :: "string \<Rightarrow> nat \<Rightarrow> nat \<Rightarrow> nat option \<Rightarrow> bool" where
  "pending_ok src lo i pending \<longleftrightarrow> lo \<le> i \<and> (\<forall>p. pending = Some p \<longrightarrow> lo \<le> p \<and> p \<le> i \<and> is_char_boundary src p)"

lemma pending_ok_step: "pending_ok src lo i pending \<Longrightarrow> i \<le> j \<Longrightarrow> pending_ok src lo j pending"
  by (auto simp: pending_ok_def)

lemma pending_ok_insert:
  "pending_ok src lo i pending \<Longrightarrow> is_char_boundary src i \<Longrightarrow> pending_ok src lo i (get_or_insert pending i)"
  by (auto simp: pending_ok_def get_or_insert_def split: option.splits)

lemma scan_items_ok:
  assumes "from_utf8_ok src"
  shows "stop \<le> length src \<Longrightarrow> is_char_boundary src stop \<Longrightarrow> is_char_boundary src i \<Longrightarrow> pending_ok src lo i pending \<Longrightarrow>
    items_ok src lo stop (scan_items src stop depth i pending test path_attr found)"
  using assms
proof (induction src stop depth i pending test path_attr found arbitrary: lo rule: scan_items.induct)
  case (1 src stop depth i pending test path_attr found)
  note bnd = lands_boundary [OF "1.prems"(5) _ "1.prems"(1,2)]
  show ?case
  proof (cases "i < stop \<and> found < MAX_ITEMS_PER_FILE")
    case True
    then have i: "i < stop" by simp
    have comment: "lands src stop i (skip_comment src i stop)" by (rule skip_comment_lands [OF i])
    have pend: "pending_ok src lo j p"
      if "i \<le> j" "p = pending \<or> p = get_or_insert pending i" for j p
      using that pending_ok_step [of src lo i _ j] pending_ok_insert "1.prems"(3,4) by blast
    consider (ws) "is_ascii_whitespace (src ! i)"
      | (comment) "\<not> is_ascii_whitespace (src ! i)" "is_comment_at src i stop"
      | (attr) "\<not> is_ascii_whitespace (src ! i)" "\<not> is_comment_at src i stop" "is_attribute_at src i stop"
      | (item) "\<not> is_ascii_whitespace (src ! i)" "\<not> is_comment_at src i stop" "\<not> is_attribute_at src i stop"
      by blast
    then show ?thesis
    proof cases
      case ws
      then have "lands src stop i (i + 1)" using i by (simp add: lands_after whitespace_ascii)
      from 1(1) [OF True ws "1.prems"(1,2) bnd [OF this] pend "1.prems"(5)] ws True
      show ?thesis by (subst scan_items.simps) simp
    next
      case comment
      from 1(2) [OF True comment "1.prems"(1,2) bnd [OF \<open>lands src stop i (skip_comment src i stop)\<close>] pend "1.prems"(5)]
        comment True \<open>lands src stop i (skip_comment src i stop)\<close>
      show ?thesis by (subst scan_items.simps) (auto dest: lands_less)
    next
      case attr
      have a: "lands src stop i (attribute_end src i stop)"
        using attribute_end_lands i "1.prems"(1) attr(3) by blast
      from 1(3) [OF True attr refl refl _ "1.prems"(1,2) bnd [OF a] pend "1.prems"(5)] attr True lands_less [OF a]
      show ?thesis by (subst scan_items.simps) (auto simp: Let_def)
    next
      case item
      let ?e = "item_end_at src i stop" and ?body = "is_body (find_item_end src i stop)"
        and ?kind = "item_kind_at src i stop"
      have e: "lands src stop i ?e" using item_end_lands i by blast
      have "items_ok src ?e stop (scan_items src stop depth ?e None False None (found + 1))"
        using 1(5) [OF True item refl refl refl "1.prems"(1,2) bnd [OF e] _ "1.prems"(5)] by (simp add: pending_ok_def)
      moreover have "case ?body of None \<Rightarrow> True | Some (b, e) \<Rightarrow>
          ?kind = KModBlock \<and> depth < MAX_PARSE_DEPTH \<and> b + 1 < e \<longrightarrow>
          items_ok src (b + 1) e (scan_items src e (depth + 1) (b + 1) None False None 0)"
      proof (cases ?body)
        case (Some be)
        obtain b e where be: "be = (b, e)" by (cases be)
        note bounds = item_body_boundaries [OF Some [unfolded be] i "1.prems"(1,2,5)]
        show ?thesis
          using 1(4) [OF True item refl refl refl Some be [symmetric] _ bounds(1,2,3) _ "1.prems"(5), of "b + 1"]
            Some be by (auto simp: pending_ok_def)
      qed simp
      ultimately show ?thesis
        using item True lands_less [OF e] bnd [OF e] "1.prems"(3,4) item_body_bounds [OF _ i, of src]
        by (subst scan_items.simps) (auto simp: Let_def pending_ok_def split: option.splits; fastforce)
    qed
  next
    case False
    then show ?thesis by (subst scan_items.simps) (simp only: if_False items_ok.simps)
  qed
qed

lemma parse_items_ok: "from_utf8_ok src \<Longrightarrow> items_ok src 0 (length src) (parse_items src)"
  unfolding parse_items_def by (rule scan_items_ok) (simp_all add: pending_ok_def)

end
