(* ===== verification/Repair_Reduce.thy ===== *)
theory Repair_Reduce
  imports Repair_Scanner "HOL-Library.Product_Lexorder" "HOL-Library.Sublist"
begin

text \<open>
  Reductions of a source tree (\<open>repair/minimize.rs\<close>): the units that may be removed, their planning and
  their application. A tree maps file names to texts.
\<close>

type_synonym tree = "(string, string) btree_map"

section \<open>Units\<close>

definition item_contains :: "parsed_item \<Rightarrow> nat \<Rightarrow> bool" where
  "item_contains i offset \<longleftrightarrow> it_start i \<le> offset \<and> offset < it_end i"

record target_site =
  ts_file :: string
  ts_anchor :: "string option"

definition locate :: "tree \<Rightarrow> failure_predicate \<Rightarrow> target_site" where
  "locate tree p =
     (let f = (case fp_file p of None \<Rightarrow> [] | Some f \<Rightarrow> f);
          line = (case (bt_get tree f, fp_line p) of
              (Some content, Some l) \<Rightarrow>
                if l = 0 \<or> length (str_lines content) < l then None else Some (str_lines content ! (l - 1))
            | _ \<Rightarrow> None);
          anchor = (case line of
              None \<Rightarrow> None
            | Some l \<Rightarrow> let l = trim l in if l \<noteq> [] \<and> length l \<le> 240 then Some l else None)
      in \<lparr>ts_file = f, ts_anchor = anchor\<rparr>)"

datatype reduction_unit =
    Span string nat nat string string
  | ModuleDecl string nat nat "string option" string
  | FileUnit string string

fun unit_files :: "reduction_unit \<Rightarrow> string list" where
  "unit_files (Span f start stop kind label) = [f]"
| "unit_files (ModuleDecl f start stop module_file label) =
     f # (case module_file of None \<Rightarrow> [] | Some m \<Rightarrow> [m])"
| "unit_files (FileUnit f label) = [f]"

definition str_slice :: "string \<Rightarrow> nat \<Rightarrow> nat \<Rightarrow> string" where
  "str_slice s start stop = (case get_slice s start stop of None \<Rightarrow> [] | Some t \<Rightarrow> t)"

fun unit_lines :: "tree \<Rightarrow> reduction_unit \<Rightarrow> nat" where
  "unit_lines tree (Span f start stop kind label) =
     (case bt_get tree f of None \<Rightarrow> 0 | Some c \<Rightarrow> length (str_lines (str_slice c start stop)))"
| "unit_lines tree (ModuleDecl f start stop module_file label) =
     (case bt_get tree f of None \<Rightarrow> 0 | Some c \<Rightarrow> length (str_lines (str_slice c start stop)))"
| "unit_lines tree (FileUnit f label) =
     (case bt_get tree f of None \<Rightarrow> 0 | Some c \<Rightarrow> length (str_lines c))"

fun unit_label :: "reduction_unit \<Rightarrow> string" where
  "unit_label (Span f start stop kind label) = label"
| "unit_label (ModuleDecl f start stop module_file label) = label"
| "unit_label (FileUnit f label) = label"

fun unit_kind :: "reduction_unit \<Rightarrow> string" where
  "unit_kind (Span f start stop kind label) = kind"
| "unit_kind (ModuleDecl f start stop module_file label) = ''module''"
| "unit_kind (FileUnit f label) = ''file''"

definition group_kind :: "reduction_unit list \<Rightarrow> string" where
  "group_kind us = (case us of [u] \<Rightarrow> unit_kind u | _ \<Rightarrow> ''group'')"

definition describe_group :: "reduction_unit list \<Rightarrow> tree \<Rightarrow> string" where
  "describe_group us before =
     (let parts = map unit_label (take 3 us) @
            (if 3 < length us then [''and '' @ dec (length us - 3) @ '' more''] else []);
          lines = sum_list (map (unit_lines before) (take 3 us))
      in join '', '' parts @ '' ('' @ dec lines @ '' line(s))'')"

section \<open>Planning\<close>

datatype repair_reduction_scope = ScopeFiles | ScopeItems | ScopeModules | ScopeAll

definition includes_files :: "repair_reduction_scope \<Rightarrow> bool" where
  "includes_files s \<longleftrightarrow> s = ScopeFiles \<or> s = ScopeAll"

definition includes_items :: "repair_reduction_scope \<Rightarrow> bool" where
  "includes_items s \<longleftrightarrow> s = ScopeItems \<or> s = ScopeAll"

definition includes_modules :: "repair_reduction_scope \<Rightarrow> bool" where
  "includes_modules s \<longleftrightarrow> s = ScopeModules \<or> s = ScopeAll"

definition MAX_UNITS :: nat where "MAX_UNITS = 512"

text \<open>\<open>Path::extension\<close> of a Unix path, compared without ASCII case.\<close>

definition ascii_lower :: "char \<Rightarrow> char" where
  "ascii_lower c = (if is_ascii_uppercase c then char_of ((of_char c :: nat) + 32) else c)"

definition path_extension :: "string \<Rightarrow> string option" where
  "path_extension f =
     (case rev (components f) of
        Normal name # _ \<Rightarrow>
          (case str_rfind name ''.'' of
             None \<Rightarrow> None
           | Some i \<Rightarrow> if i = 0 then None else Some (drop (Suc i) name))
      | _ \<Rightarrow> None)"

definition is_rust_source :: "string \<Rightarrow> bool" where
  "is_rust_source f =
     (case path_extension f of None \<Rightarrow> False | Some e \<Rightarrow> map ascii_lower e = ''rs'')"

section \<open>References between files\<close>

definition MAX_INCLUDE_REFS_PER_FILE :: nat where "MAX_INCLUDE_REFS_PER_FILE = 64"

definition path_parent :: "component list \<Rightarrow> component list option" where
  "path_parent cs = (if cs = [] \<or> last cs = RootDir then None else Some (butlast cs))"

text \<open>\<open>Path::join\<close> on components: an absolute right side replaces the left one.\<close>

definition path_join :: "component list \<Rightarrow> component list \<Rightarrow> component list" where
  "path_join d p = (if p \<noteq> [] \<and> hd p = RootDir then p else d @ p)"

definition file_stem :: "component list \<Rightarrow> string option" where
  "file_stem cs =
     (case rev cs of
        Normal name # _ \<Rightarrow>
          (case str_rfind name ''.'' of
             None \<Rightarrow> Some name
           | Some i \<Rightarrow> if i = 0 then Some name else Some (take i name))
      | _ \<Rightarrow> None)"

fun resolve_parts :: "string list \<Rightarrow> component list \<Rightarrow> string list option" where
  "resolve_parts parts [] = Some parts"
| "resolve_parts parts (Normal p # cs) = resolve_parts (parts @ [p]) cs"
| "resolve_parts parts (CurDir # cs) = resolve_parts parts cs"
| "resolve_parts parts (ParentDir # cs) = (if parts = [] then None else resolve_parts (butlast parts) cs)"
| "resolve_parts parts (RootDir # cs) = None"

definition resolve_relative :: "string \<Rightarrow> string \<Rightarrow> string option" where
  "resolve_relative f path =
     (case path_parent (components f) of
        None \<Rightarrow> None
      | Some d \<Rightarrow> map_option (join ''/'') (resolve_parts [] (path_join d (components path))))"

fun slash_parts :: "component list \<Rightarrow> string list option" where
  "slash_parts [] = Some []"
| "slash_parts (Normal p # cs) = map_option ((#) p) (slash_parts cs)"
| "slash_parts (CurDir # cs) = slash_parts cs"
| "slash_parts (c # cs) = None"

definition path_to_slash :: "component list \<Rightarrow> string option" where
  "path_to_slash cs =
     (case slash_parts cs of None \<Rightarrow> None | Some parts \<Rightarrow> if parts = [] then None else Some (join ''/'' parts))"

definition resolve_module_file :: "string \<Rightarrow> string \<Rightarrow> string option \<Rightarrow> tree \<Rightarrow> string option" where
  "resolve_module_file f name path_attr tree =
     (if name = [] then None
      else
        (case path_attr of
           Some path \<Rightarrow>
             (case resolve_relative f path of
                None \<Rightarrow> None
              | Some resolved \<Rightarrow> if bt_get tree resolved \<noteq> None then Some resolved else None)
         | None \<Rightarrow>
             (case (path_parent (components f), file_stem (components f)) of
                (Some d, Some stem) \<Rightarrow>
                  let base = (if stem \<in> {''lib'', ''main'', ''mod''} then d else path_join d (components stem));
                      plain = path_join base (components (name @ ''.rs''));
                      nested = path_join (path_join base (components name)) [Normal ''mod.rs'']
                  in List.find (\<lambda>r. bt_get tree r \<noteq> None) (List.map_filter path_to_slash [plain, nested])
              | _ \<Rightarrow> None)))"

fun collect_mod_references :: "string \<Rightarrow> tree \<Rightarrow> parsed_item list \<Rightarrow> string set" where
  "collect_mod_references f tree [] = {}"
| "collect_mod_references f tree (ParsedItem kind start stop body name pattr test children # items) =
     (if kind = KModDecl
      then (case name of None \<Rightarrow> {} | Some n \<Rightarrow>
              (case resolve_module_file f n pattr tree of None \<Rightarrow> {} | Some r \<Rightarrow> {r}))
      else {}) \<union> collect_mod_references f tree children \<union> collect_mod_references f tree items"

definition paren_string :: "string \<Rightarrow> string option" where
  "paren_string rest =
     (case strip_prefix ''('' (trim_start rest) of
        None \<Rightarrow> None
      | Some rest \<Rightarrow>
          (case strip_prefix [CHR 0x22] (trim_start rest) of None \<Rightarrow> None | Some rest \<Rightarrow> quoted_value rest))"

text \<open>The \<open>while let\<close> loop for one macro; \<open>Inl\<close> is the early return at the bound.\<close>

function include_scan :: "string \<Rightarrow> string \<Rightarrow> string \<Rightarrow> nat \<Rightarrow> string set \<Rightarrow> string set + nat \<times> string set" where
  "include_scan f macro_name rest found refs =
     (case str_find rest macro_name of
        None \<Rightarrow> Inr (found, refs)
      | Some index \<Rightarrow>
          if MAX_INCLUDE_REFS_PER_FILE \<le> found then Inl refs
          else
            let rest = drop (index + length macro_name) rest;
                refs = (case paren_string rest of
                    None \<Rightarrow> refs
                  | Some path \<Rightarrow> (case resolve_relative f path of None \<Rightarrow> refs | Some r \<Rightarrow> insert r refs))
            in include_scan f macro_name rest (found + 1) refs)"
  by pat_completeness auto
termination
  by (relation "measure (\<lambda>(f, macro_name, rest, found, refs). MAX_INCLUDE_REFS_PER_FILE - found)") auto

declare include_scan.simps [simp del]

definition collect_include_references :: "string \<Rightarrow> string \<Rightarrow> string set" where
  "collect_include_references content f =
     (case include_scan f ''include_str!'' content 0 {} of
        Inl refs \<Rightarrow> refs
      | Inr (found, refs) \<Rightarrow>
          (case include_scan f ''include_bytes!'' content found refs of
             Inl refs \<Rightarrow> refs
           | Inr (found, refs) \<Rightarrow>
               (case include_scan f ''include!'' content found refs of Inl refs \<Rightarrow> refs | Inr (_, refs) \<Rightarrow> refs)))"

definition quoted_after_eq :: "string \<Rightarrow> string option" where
  "quoted_after_eq line =
     (case str_find line ''='' of
        None \<Rightarrow> None
      | Some i \<Rightarrow>
          (case strip_prefix [CHR 0x22] (trim (drop (i + 1) line)) of
             None \<Rightarrow> None
           | Some v \<Rightarrow>
               (case str_find v [CHR 0x22] of None \<Rightarrow> None | Some n \<Rightarrow> if n = 0 then None else Some (take n v))))"

definition manifest_of :: "tree \<Rightarrow> string" where
  "manifest_of tree = (case bt_get tree ''Cargo.toml'' of None \<Rightarrow> [] | Some t \<Rightarrow> t)"

definition manifest_edition :: "tree \<Rightarrow> string" where
  "manifest_edition tree =
     (case List.map_filter (\<lambda>l. if starts_with (trim l) ''edition'' then quoted_after_eq (trim l) else None)
            (str_lines (manifest_of tree)) of
        [] \<Rightarrow> ''unset''
      | e # _ \<Rightarrow> e)"

fun manifest_roots :: "string list \<Rightarrow> bool \<Rightarrow> string set" where
  "manifest_roots [] in_target = {}"
| "manifest_roots (l # ls) in_target =
     (let l = trim l in
      if starts_with l ''['' then manifest_roots ls (l = ''[lib]'' \<or> l = ''[[bin]]'')
      else (if in_target then (case quoted_after_eq l of None \<Rightarrow> {} | Some v \<Rightarrow> {v}) else {}) \<union> manifest_roots ls in_target)"

definition crate_roots :: "tree \<Rightarrow> string set" where
  "crate_roots tree =
     manifest_roots (str_lines (manifest_of tree)) False \<union>
     set (filter (\<lambda>f. bt_get tree f \<noteq> None) [''src/lib.rs'', ''src/main.rs''])"

definition referenced_files :: "tree \<Rightarrow> string set" where
  "referenced_files tree =
     crate_roots tree \<union>
     \<Union> (set (map (\<lambda>(f, content). if is_rust_source f
         then collect_mod_references f tree (parse_items content) \<union> collect_include_references content f else {}) tree))"

section \<open>Names\<close>

fun collect_names :: "parsed_item list \<Rightarrow> string set" where
  "collect_names [] = {}"
| "collect_names (ParsedItem kind start stop body name pattr test children # items) =
     (case name of None \<Rightarrow> {} | Some n \<Rightarrow> if n = [] then {} else {n}) \<union> collect_names children \<union> collect_names items"

definition candidate_names :: "tree \<Rightarrow> string set" where
  "candidate_names tree =
     \<Union> (set (map (\<lambda>(f, content). if is_rust_source f then collect_names (parse_items content) else {}) tree))"

function identifiers :: "string \<Rightarrow> string list" where
  "identifiers [] = []"
| "identifiers (c # s) =
     (if is_ascii_alphabetic c \<or> c = CHR ''_''
      then (c # takeWhile ident_byte s) # identifiers (dropWhile ident_byte s)
      else identifiers s)"
  by pat_completeness auto
termination
  by (relation "measure length") (auto simp: less_Suc_eq_le length_dropWhile_le)

definition name_count :: "tree \<Rightarrow> string \<Rightarrow> nat" where
  "name_count tree name =
     min u32_max (length (filter (\<lambda>w. w = name \<and> length w \<le> 128) (concat (map identifiers (bt_values tree)))))"

definition name_referenced_elsewhere :: "tree \<Rightarrow> string set \<Rightarrow> string option \<Rightarrow> bool" where
  "name_referenced_elsewhere tree names name =
     (case name of None \<Rightarrow> False | Some n \<Rightarrow> n \<in> names \<and> 1 < name_count tree n)"

definition module_name_used_elsewhere :: "tree \<Rightarrow> string \<Rightarrow> bool" where
  "module_name_used_elsewhere tree name \<longleftrightarrow>
     name \<noteq> [] \<and> list_ex (\<lambda>c. str_contains c (name @ ''::'') \<or> str_contains c (''::'' @ name)) (bt_values tree)"

record plan_acc =
  pa_units :: "reduction_unit list"
  pa_referenced :: nat
  pa_scope :: nat

definition push_unit :: "reduction_unit \<Rightarrow> plan_acc \<Rightarrow> plan_acc" where
  "push_unit u acc = acc\<lparr>pa_units := pa_units acc @ [u]\<rparr>"

definition skip_referenced :: "plan_acc \<Rightarrow> plan_acc" where
  "skip_referenced acc = acc\<lparr>pa_referenced := pa_referenced acc + 1\<rparr>"

definition skip_scope :: "plan_acc \<Rightarrow> plan_acc" where
  "skip_scope acc = acc\<lparr>pa_scope := pa_scope acc + 1\<rparr>"

text \<open>The \<open>match\<close> on an item that does not contain the anchor.\<close>

definition plan_item ::
  "string \<Rightarrow> repair_reduction_scope \<Rightarrow> tree \<Rightarrow> string set \<Rightarrow> parsed_item \<Rightarrow> plan_acc \<Rightarrow> plan_acc" where
  "plan_item f scope tree names i acc =
     (case it_kind i of
        KModDecl \<Rightarrow>
          if \<not> includes_modules scope then skip_scope acc
          else let name = (case it_name i of None \<Rightarrow> ''?'' | Some n \<Rightarrow> n) in
            if module_name_used_elsewhere tree name then skip_referenced acc
            else push_unit (ModuleDecl f (it_start i) (it_end i)
                   (resolve_module_file f name (it_path_attr i) tree)
                   (''module `'' @ name @ ''` declaration in '' @ f)) acc
      | KModBlock \<Rightarrow>
          if \<not> includes_modules scope then skip_scope acc
          else push_unit (Span f (it_start i) (it_end i) (if it_test i then ''testModule'' else ''module'')
                 (''inline module '' @ (case it_name i of None \<Rightarrow> ''inline'' | Some n \<Rightarrow> ''`'' @ n @ ''`'') @ '' in '' @ f)) acc
      | KUse \<Rightarrow>
          if \<not> includes_items scope then skip_scope acc
          else if name_referenced_elsewhere tree names (it_name i) then skip_referenced acc
          else push_unit (Span f (it_start i) (it_end i) ''use'' (''use item in '' @ f)) acc
      | _ \<Rightarrow>
          if \<not> includes_items scope then skip_scope acc
          else if \<not> it_test i \<and> name_referenced_elsewhere tree names (it_name i) then skip_referenced acc
          else push_unit (Span f (it_start i) (it_end i) (if it_test i then ''testItem'' else ''item'')
                 ((case it_name i of None \<Rightarrow> ''item'' | Some n \<Rightarrow> ''item `'' @ n @ ''`'') @ '' in '' @ f)) acc)"

fun plan_items ::
  "string \<Rightarrow> nat option \<Rightarrow> repair_reduction_scope \<Rightarrow> tree \<Rightarrow> string set \<Rightarrow>
   parsed_item list \<Rightarrow> plan_acc \<Rightarrow> plan_acc" where
  "plan_items f anchor scope tree names [] acc = acc"
| "plan_items f anchor scope tree names (ParsedItem kind start stop body name pattr test children # items) acc =
     (let i = ParsedItem kind start stop body name pattr test children in
      if MAX_UNITS \<le> length (pa_units acc) then acc
      else plan_items f anchor scope tree names items
        (if (case anchor of None \<Rightarrow> False | Some offset \<Rightarrow> item_contains i offset) then
           (if kind = KModBlock \<and> includes_modules scope \<and> children \<noteq> []
            then plan_items f anchor scope tree names children acc else acc)
         else plan_item f scope tree names i acc))"

fun plan_files :: "target_site \<Rightarrow> string set \<Rightarrow> string list \<Rightarrow> plan_acc \<Rightarrow> plan_acc" where
  "plan_files target referenced [] acc = acc"
| "plan_files target referenced (f # files) acc =
     (if MAX_UNITS \<le> length (pa_units acc) then acc
      else plan_files target referenced files
        (if \<not> is_rust_source f \<or> f = ts_file target \<or> f \<in> referenced then acc
         else push_unit (FileUnit f (''file '' @ f)) acc))"

definition plan_source ::
  "target_site \<Rightarrow> repair_reduction_scope \<Rightarrow> tree \<Rightarrow> string set \<Rightarrow> plan_acc \<Rightarrow> string \<times> string \<Rightarrow> plan_acc" where
  "plan_source target scope tree names acc e =
     (case e of (f, content) \<Rightarrow>
        if \<not> is_rust_source f \<or> MAX_UNITS \<le> length (pa_units acc) then acc
        else plan_items f
          (if f = ts_file target then (case ts_anchor target of None \<Rightarrow> None | Some a \<Rightarrow> str_find content a) else None)
          scope tree names (parse_items content) acc)"

definition plan_all :: "tree \<Rightarrow> target_site \<Rightarrow> repair_reduction_scope \<Rightarrow> plan_acc" where
  "plan_all tree target scope =
     (let acc = \<lparr>pa_units = [], pa_referenced = 0, pa_scope = 0\<rparr>;
          acc = (if includes_items scope \<or> includes_modules scope
            then foldl (plan_source target scope tree (candidate_names tree)) acc tree else acc)
      in if includes_files scope then plan_files target (referenced_files tree) (bt_keys tree) acc else acc)"

definition plan_units :: "tree \<Rightarrow> target_site \<Rightarrow> repair_reduction_scope \<Rightarrow> plan_acc" where
  "plan_units tree target scope =
     (let acc = plan_all tree target scope
      in acc\<lparr>pa_units := take MAX_UNITS (sort_key (\<lambda>u. (- int (unit_lines tree u), unit_label u)) (pa_units acc))\<rparr>)"

section \<open>Applying\<close>

fun unit_removals :: "reduction_unit \<Rightarrow> (string \<times> nat \<times> nat) list" where
  "unit_removals (Span f start stop kind label) = [(f, start, stop)]"
| "unit_removals (ModuleDecl f start stop module_file label) = [(f, start, stop)]"
| "unit_removals (FileUnit f label) = []"

fun unit_deletions :: "reduction_unit \<Rightarrow> string list" where
  "unit_deletions (Span f start stop kind label) = []"
| "unit_deletions (ModuleDecl f start stop module_file label) = (case module_file of None \<Rightarrow> [] | Some m \<Rightarrow> [m])"
| "unit_deletions (FileUnit f label) = [f]"

text \<open>\<open>entry(file).or_default().push(range)\<close> for all removals.\<close>

definition removal_map :: "(string \<times> nat \<times> nat) list \<Rightarrow> (string, (nat \<times> nat) list) btree_map" where
  "removal_map rs =
     foldl (\<lambda>m (f, r). bt_insert f ((case bt_get m f of None \<Rightarrow> [] | Some xs \<Rightarrow> xs) @ [r]) m) [] rs"

fun ranges_ok :: "string \<Rightarrow> nat \<Rightarrow> (nat \<times> nat) list \<Rightarrow> bool" where
  "ranges_ok content last_end [] = True"
| "ranges_ok content last_end ((start, stop) # rs) =
     (\<not> (stop \<le> start \<or> length content < stop \<or> start < last_end) \<and>
      is_char_boundary content start \<and> is_char_boundary content stop \<and> ranges_ok content stop rs)"

definition cut_range :: "nat \<times> nat \<Rightarrow> string \<Rightarrow> string" where
  "cut_range r content = take (fst r) content @ drop (snd r) content"

text \<open>From the last range to the first.\<close>

definition cut_ranges :: "(nat \<times> nat) list \<Rightarrow> string \<Rightarrow> string" where
  "cut_ranges rs content = foldr cut_range rs content"

fun apply_removals :: "(string, (nat \<times> nat) list) btree_map \<Rightarrow> tree \<Rightarrow> tree option" where
  "apply_removals [] next = Some next"
| "apply_removals ((f, ranges) # m) next =
     (case bt_get next f of
        None \<Rightarrow> None
      | Some content \<Rightarrow>
          let ranges = sort ranges in
          if ranges_ok content 0 ranges then apply_removals m (bt_insert f (cut_ranges ranges content) next) else None)"

definition apply_units :: "tree \<Rightarrow> reduction_unit list \<Rightarrow> tree option" where
  "apply_units tree us =
     (case apply_removals (removal_map (concat (map unit_removals us))) tree of
        None \<Rightarrow> None
      | Some next \<Rightarrow>
          Some (filter (\<lambda>e. \<not> (fst e \<in> set (concat (map unit_deletions us)) \<and> is_rust_source (fst e))) next))"

section \<open>A reduction only removes\<close>

lemma subseq_cut: "start \<le> stop \<Longrightarrow> subseq (cut_range (start, stop) content) content"
proof -
  assume "start \<le> stop"
  then have "content = take start content @ take (stop - start) (drop start content) @ drop stop content"
    by (metis append_take_drop_id drop_drop le_add_diff_inverse2)
  moreover have "subseq (drop stop content) (take (stop - start) (drop start content) @ drop stop content)"
    using subseq_drop_many subseq_order.refl by blast
  ultimately show ?thesis unfolding cut_range_def by (metis fst_conv snd_conv subseq_append')
qed

lemma subseq_cut_ranges: "ranges_ok content k rs \<Longrightarrow> subseq (cut_ranges rs text) text"
proof (induction rs arbitrary: k)
  case (Cons r rs)
  obtain start stop where r: "r = (start, stop)" by (cases r)
  from Cons r have "subseq (cut_ranges rs text) text" "start \<le> stop" by auto
  with subseq_cut [of start stop "cut_ranges rs text"] show ?case
    unfolding r cut_ranges_def by (simp del: subseq_append')
qed (simp add: cut_ranges_def)

text \<open>Every file of the smaller tree is a file of the larger one with some bytes left out.\<close>

definition reduces :: "tree \<Rightarrow> tree \<Rightarrow> bool" where
  "reduces small big \<longleftrightarrow> bt_wf small \<and>
     (\<forall>f c. bt_get small f = Some c \<longrightarrow> (\<exists>c'. bt_get big f = Some c' \<and> subseq c c'))"

lemma reduces_refl: "bt_wf t \<Longrightarrow> reduces t t"
  by (auto simp: reduces_def)

lemma reduces_trans: "reduces a b \<Longrightarrow> reduces b c \<Longrightarrow> reduces a c"
  unfolding reduces_def by (metis subseq_order.trans)

lemma apply_removals_reduces: "apply_removals m t = Some t' \<Longrightarrow> bt_wf t \<Longrightarrow> reduces t' t"
proof (induction m t rule: apply_removals.induct)
  case (2 f ranges m t)
  from "2.prems"(1) obtain content where c: "bt_get t f = Some content" "ranges_ok content 0 (sort ranges)"
    "apply_removals m (bt_insert f (cut_ranges (sort ranges) content) t) = Some t'"
    by (auto simp: Let_def split: option.splits if_splits)
  have "reduces t' (bt_insert f (cut_ranges (sort ranges) content) t)"
    using "2.IH" [OF c(1) refl c(2,3)] "2.prems"(2) by (simp add: bt_wf_insert)
  moreover have "reduces (bt_insert f (cut_ranges (sort ranges) content) t) t"
    using subseq_cut_ranges [OF c(2), of content] c(1) "2.prems"(2)
    by (auto simp: reduces_def bt_get_insert bt_wf_insert)
  ultimately show ?case by (rule reduces_trans)
qed (simp add: reduces_refl)

lemma apply_units_reduces:
  assumes "apply_units t us = Some t'" and "bt_wf t"
  shows "reduces t' t"
proof -
  from assms(1) obtain t1 where "apply_removals (removal_map (concat (map unit_removals us))) t = Some t1"
    "t' = filter (\<lambda>e. \<not> (fst e \<in> set (concat (map unit_deletions us)) \<and> is_rust_source (fst e))) t1"
    by (auto simp: apply_units_def split: option.splits)
  with apply_removals_reduces [OF this(1) assms(2)] show ?thesis
    by (auto simp: reduces_def bt_wf_filter bt_get_filter split: option.splits if_splits)
qed

end
