(* ===== verification/Repair_Applies.thy ===== *)
theory Repair_Applies
  imports Repair_Reduce "HOL-Library.Multiset"
begin

text \<open>
  Every group of planned units can be applied: the ranges the planner offers in one file are disjoint and cut
  at character boundaries, whatever the source text, so the search of the minimizer never drops a group
  because \<open>apply_units\<close> refuses it.
\<close>

section \<open>Ranges\<close>

definition range_ok :: "string \<Rightarrow> nat \<times> nat \<Rightarrow> bool" where
  "range_ok content r \<longleftrightarrow>
     fst r < snd r \<and> snd r \<le> length content \<and> is_char_boundary content (fst r) \<and> is_char_boundary content (snd r)"

lemma ranges_ok_iff:
  "ranges_ok content k rs \<longleftrightarrow>
     (\<forall>r \<in> set rs. range_ok content r \<and> k \<le> fst r) \<and> sorted_wrt (\<lambda>x y. snd x \<le> fst y) rs"
  by (induction content k rs rule: ranges_ok.induct) (fastforce simp: range_ok_def)+

lemma ranges_ok_distinct: "ranges_ok content k rs \<Longrightarrow> distinct rs"
  by (induction content k rs rule: ranges_ok.induct) (auto simp: ranges_ok_iff range_ok_def)

lemma ranges_ok_separate:
  assumes "ranges_ok content k rs" and "x \<in> set rs" and "y \<in> set rs" and "x \<noteq> y"
  shows "snd x \<le> fst y \<or> snd y \<le> fst x"
proof -
  from assms(2-4) obtain i j where "i < length rs" "j < length rs" "x = rs ! i" "y = rs ! j" "i \<noteq> j"
    by (metis in_set_conv_nth)
  with assms(1) show ?thesis
    by (auto simp: ranges_ok_iff sorted_wrt_iff_nth_less linorder_neq_iff)
qed

lemma distinct_mset_subset:
  assumes "mset us \<subseteq># mset rs" and "distinct rs"
  shows "distinct us"
  unfolding distinct_count_atmost_1
proof
  fix a
  have "count (mset us) a \<le> count (mset rs) a" by (rule mset_subset_eq_count [OF assms(1)])
  also have "\<dots> \<le> 1" using assms(2) by (simp add: distinct_count_atmost_1)
  finally show "count (mset us) a = (if a \<in> set us then 1 else 0)"
    using count_mset_0_iff [of us a] by (auto simp: le_Suc_eq)
qed

lemma ranges_ok_sort:
  assumes "ranges_ok content k rs" and "mset us \<subseteq># mset rs"
  shows "ranges_ok content k (sort us)"
proof -
  have d: "distinct us" by (rule distinct_mset_subset [OF assms(2) ranges_ok_distinct [OF assms(1)]])
  have sub: "set us \<subseteq> set rs" using assms(2) by (metis set_mset_mono set_mset_mset)
  have "sorted_wrt (\<lambda>x y. snd x \<le> fst y) (sort us)"
  proof (rule sorted_wrt_mono_rel [of _ "\<lambda>x y. x < y"])
    show "sorted_wrt (<) (sort us)" using d by (simp add: strict_sorted_iff)
  next
    fix x y assume xy: "x \<in> set (sort us)" "y \<in> set (sort us)" "x < y"
    then have "snd x \<le> fst y \<or> snd y \<le> fst x" "range_ok content y" "range_ok content x"
      using ranges_ok_separate [OF assms(1), of x y] assms(1) sub by (auto simp: ranges_ok_iff)
    with xy(3) show "snd x \<le> fst y" by (auto simp: less_prod_def range_ok_def split: prod.splits)
  qed
  with sub assms(1) show ?thesis by (auto simp: ranges_ok_iff)
qed

lemma ranges_ok_append:
  assumes "ranges_ok content lo xs" and "\<forall>r \<in> set xs. snd r \<le> mid" and "ranges_ok content mid ys" and "lo \<le> mid"
  shows "ranges_ok content lo (xs @ ys)"
  using assms by (fastforce simp: ranges_ok_iff sorted_wrt_append)

section \<open>Planned ranges\<close>

definition removals :: "reduction_unit list \<Rightarrow> (string \<times> nat \<times> nat) list" where
  "removals us = concat (map unit_removals us)"

definition ranges_for :: "string \<Rightarrow> reduction_unit list \<Rightarrow> (nat \<times> nat) list" where
  "ranges_for f us = map snd (filter (\<lambda>r. fst r = f) (removals us))"

lemma removals_append [simp]: "removals (xs @ ys) = removals xs @ removals ys"
  by (simp add: removals_def)

lemma removals_Nil [simp]: "removals [] = []"
  by (simp add: removals_def)

lemma ranges_for_append [simp]: "ranges_for f (xs @ ys) = ranges_for f xs @ ranges_for f ys"
  by (simp add: ranges_for_def)

text \<open>The units planned between two positions of a file.\<close>

definition units_between :: "string \<Rightarrow> string \<Rightarrow> nat \<Rightarrow> nat \<Rightarrow> reduction_unit list \<Rightarrow> bool" where
  "units_between content f lo hi us \<longleftrightarrow>
     (\<forall>r \<in> set (removals us). fst r = f \<and> snd (snd r) \<le> hi) \<and> ranges_ok content lo (map snd (removals us))"

lemma units_between_Nil [simp]: "units_between content f lo hi []"
  by (simp add: units_between_def)

lemma units_between_append:
  assumes "units_between content f lo mid xs" and "units_between content f mid hi ys" and "lo \<le> mid" and "mid \<le> hi"
  shows "units_between content f lo hi (xs @ ys)"
  using assms ranges_ok_append [of content lo "map snd (removals xs)" mid "map snd (removals ys)"]
  unfolding units_between_def by fastforce

lemma units_between_widen:
  assumes "units_between content f lo hi us" and "lo' \<le> lo" and "hi \<le> hi'"
  shows "units_between content f lo' hi' us"
  using assms unfolding units_between_def ranges_ok_iff by (meson order_trans)

definition adds :: "plan_acc \<Rightarrow> plan_acc \<Rightarrow> (reduction_unit list \<Rightarrow> bool) \<Rightarrow> bool" where
  "adds acc acc' P \<longleftrightarrow> (\<exists>new. pa_units acc' = pa_units acc @ new \<and> P new)"

lemma plan_item_adds:
  assumes "range_ok content (it_start i, it_end i)"
  shows "adds acc (plan_item f scope tree names i acc) (units_between content f (it_start i) (it_end i))"
  using assms
  by (auto simp: adds_def plan_item_def push_unit_def skip_referenced_def skip_scope_def units_between_def
      removals_def ranges_ok_iff Let_def split: item_kind.splits)

lemma adds_trans:
  assumes "adds acc acc1 (units_between content f lo mid)" and "adds acc1 acc2 (units_between content f mid hi)"
    and "lo \<le> mid" and "mid \<le> hi"
  shows "adds acc acc2 (units_between content f lo hi)"
  using assms units_between_append unfolding adds_def by (metis append.assoc)

lemma adds_widen:
  "adds acc acc' (units_between content f lo hi) \<Longrightarrow> lo' \<le> lo \<Longrightarrow> hi \<le> hi' \<Longrightarrow>
   adds acc acc' (units_between content f lo' hi')"
  unfolding adds_def using units_between_widen by blast

lemma adds_none: "adds acc acc (units_between content f lo hi)"
  by (simp add: adds_def)

lemma plan_items_adds:
  "items_ok content lo hi items \<Longrightarrow> hi \<le> length content \<Longrightarrow>
   adds acc (plan_items f anchor scope tree names items acc) (units_between content f lo hi)"
proof (induction f anchor scope tree names items acc arbitrary: lo hi rule: plan_items.induct)
  case (1 f anchor scope tree names acc)
  then show ?case by (simp add: adds_none)
next
  case (2 f anchor scope tree names kind start stop body name pattr test children items acc)
  let ?i = "ParsedItem kind start stop body name pattr test children"
  let ?hit = "case anchor of None \<Rightarrow> False | Some offset \<Rightarrow> item_contains ?i offset"
  let ?acc = "if ?hit then
      (if kind = KModBlock \<and> includes_modules scope \<and> children \<noteq> []
       then plan_items f anchor scope tree names children acc else acc)
    else plan_item f scope tree names ?i acc"
  from "2.prems" have item: "lo \<le> start" "start < stop" "stop \<le> hi" "range_ok content (start, stop)"
    "items_ok content stop hi items"
    "case body of None \<Rightarrow> children = [] | Some (b, e) \<Rightarrow> start \<le> b \<and> e \<le> stop \<and> items_ok content (b + 1) e children"
    by (auto simp: range_ok_def)
  show ?case
  proof (cases "MAX_UNITS \<le> length (pa_units acc)")
    case True
    then show ?thesis by (simp add: adds_none)
  next
    case False
    have "adds acc ?acc (units_between content f start stop)"
    proof (cases "?hit \<and> kind = KModBlock \<and> includes_modules scope \<and> children \<noteq> []")
      case True
      with item(6) obtain b e where b: "body = Some (b, e)" "start \<le> b" "e \<le> stop" "items_ok content (b + 1) e children"
        by (auto split: option.splits)
      have "adds acc (plan_items f anchor scope tree names children acc) (units_between content f (b + 1) e)"
        using "2.IH"(1) [OF refl False _ _ b(4)] True b(3) item(3) "2.prems"(2) by auto
      then show ?thesis using True b(2,3) by (auto intro: adds_widen)
    next
      case False
      then show ?thesis
        using plan_item_adds [of content ?i acc f scope tree names] item(4) by (auto simp: adds_none)
    qed
    moreover have "adds ?acc (plan_items f anchor scope tree names items ?acc) (units_between content f stop hi)"
      using "2.IH"(2) [OF refl False item(5) "2.prems"(2)] .
    ultimately have "adds acc (plan_items f anchor scope tree names items ?acc) (units_between content f start hi)"
      by (rule adds_trans) (use item in auto)
    then show ?thesis using False item(1) by (auto simp: Let_def intro: adds_widen)
  qed
qed

section \<open>The whole plan\<close>

definition planned_ok :: "tree \<Rightarrow> reduction_unit list \<Rightarrow> bool" where
  "planned_ok tree us \<longleftrightarrow>
     (\<forall>r \<in> set (removals us). \<exists>c. bt_get tree (fst r) = Some c \<and> ranges_ok c 0 (ranges_for (fst r) us))"

lemma planned_ok_adds:
  assumes "planned_ok tree us" and "units_between content f 0 hi new" and "bt_get tree f = Some content"
    and "f \<notin> fst ` set (removals us)"
  shows "planned_ok tree (us @ new)"
proof -
  have old: "ranges_for f us = []" using assms(4) by (force simp: ranges_for_def filter_empty_conv)
  have new: "filter (\<lambda>r. fst r = f) (removals new) = removals new" "g \<noteq> f \<Longrightarrow> ranges_for g new = []" for g
    using assms(2) by (auto simp: units_between_def ranges_for_def filter_id_conv filter_empty_conv)
  have "ranges_ok content 0 (ranges_for f new)" using assms(2) new(1) by (simp add: ranges_for_def units_between_def)
  moreover have "\<exists>c. bt_get tree (fst r) = Some c \<and> ranges_ok c 0 (ranges_for (fst r) (us @ new))"
    if "r \<in> set (removals us)" for r
    using that assms(1,4) new(2) [of "fst r"] by (fastforce simp: planned_ok_def)
  ultimately show ?thesis
    using assms(2,3) old by (auto simp: planned_ok_def units_between_def)
qed

lemma plan_source_adds:
  assumes "from_utf8_ok content"
  shows "adds acc (plan_source target scope tree names acc (f, content)) (units_between content f 0 (length content))"
  using plan_items_adds [OF parse_items_ok [OF assms]] by (simp add: plan_source_def adds_none)

lemma plan_sources_ok:
  assumes "distinct (map fst xs)" and "\<And>f c. (f, c) \<in> set xs \<Longrightarrow> bt_get tree f = Some c \<and> from_utf8_ok c"
    and "planned_ok tree (pa_units acc)" and "fst ` set (removals (pa_units acc)) \<inter> fst ` set xs = {}"
  shows "planned_ok tree (pa_units (foldl (plan_source target scope tree names) acc xs))"
  using assms
proof (induction xs arbitrary: acc)
  case (Cons x xs)
  obtain f c where x: "x = (f, c)" by (cases x)
  with Cons.prems(2) have fc: "bt_get tree f = Some c" "from_utf8_ok c" by auto
  obtain new where new: "pa_units (plan_source target scope tree names acc x) = pa_units acc @ new"
    "units_between c f 0 (length c) new"
    using plan_source_adds [OF fc(2), of acc target scope tree names f] x by (auto simp: adds_def)
  then have "planned_ok tree (pa_units (plan_source target scope tree names acc x))"
    using planned_ok_adds [OF Cons.prems(3) new(2) fc(1)] Cons.prems(4) x by auto
  moreover have "fst ` set (removals new) \<subseteq> {f}" using new(2) by (auto simp: units_between_def)
  then have "fst ` set (removals (pa_units (plan_source target scope tree names acc x))) \<inter> fst ` set xs = {}"
    using Cons.prems(1,4) new(1) x by (auto simp: image_Un)
  ultimately have "planned_ok tree (pa_units (foldl (plan_source target scope tree names)
      (plan_source target scope tree names acc x) xs))"
    using Cons.prems(1,2) by (intro Cons.IH) (simp_all, blast)
  then show ?case by simp
qed simp

lemma plan_files_adds: "adds acc (plan_files target referenced files acc) (\<lambda>new. removals new = [])"
proof (induction target referenced files acc rule: plan_files.induct)
  case (2 target referenced f files acc)
  then show ?case
    by (auto simp: adds_def push_unit_def removals_def split: if_splits)
qed (simp add: adds_def)

lemma planned_ok_files: "planned_ok tree us \<Longrightarrow> removals new = [] \<Longrightarrow> planned_ok tree (us @ new)"
  by (simp add: planned_ok_def ranges_for_def)

lemma mset_removals: "mset us = mset vs \<Longrightarrow> mset (ranges_for f us) = mset (ranges_for f vs)"
proof -
  have "mset (removals ws) = (\<Sum>u \<in># mset ws. mset (unit_removals u))" for ws
    by (induction ws) (simp_all add: removals_def)
  then show "mset us = mset vs \<Longrightarrow> ?thesis" by (simp add: ranges_for_def)
qed

lemma ranges_for_mono:
  assumes "mset us \<subseteq># mset vs"
  shows "mset (ranges_for f us) \<subseteq># mset (ranges_for f vs)"
proof -
  from assms obtain ws where "mset vs = mset (us @ ws)"
    by (metis ex_mset mset_append subset_mset.le_iff_add)
  from mset_removals [OF this, of f] show ?thesis by simp
qed

lemma planned_ok_mono:
  assumes "planned_ok tree vs" and "mset us \<subseteq># mset vs" and "ranges_for f us \<noteq> []"
  shows "\<exists>c. bt_get tree f = Some c \<and> ranges_ok c 0 (sort (ranges_for f us))"
proof -
  note sub = ranges_for_mono [OF assms(2), of f]
  with assms(3) have "ranges_for f vs \<noteq> []" by auto
  then obtain r where "r \<in> set (removals vs)" "fst r = f" by (auto simp: ranges_for_def filter_empty_conv)
  with assms(1) obtain c where "bt_get tree f = Some c" "ranges_ok c 0 (ranges_for f vs)"
    by (auto simp: planned_ok_def)
  with ranges_ok_sort [OF this(2) sub] show ?thesis by blast
qed

lemma plan_all_ok:
  assumes "bt_wf tree" and "\<And>f c. bt_get tree f = Some c \<Longrightarrow> from_utf8_ok c"
  shows "planned_ok tree (pa_units (plan_all tree target scope))"
proof -
  let ?acc0 = "\<lparr>pa_units = [], pa_referenced = 0, pa_scope = 0\<rparr>"
  define acc where "acc = (if includes_items scope \<or> includes_modules scope
    then foldl (plan_source target scope tree (candidate_names tree)) ?acc0 tree else ?acc0)"
  have acc: "planned_ok tree (pa_units acc)"
    using plan_sources_ok [of tree tree ?acc0] assms
    by (auto simp: acc_def planned_ok_def bt_wf_def bt_get_iff strict_sorted_iff)
  obtain new where "pa_units (plan_files target (referenced_files tree) (bt_keys tree) acc) = pa_units acc @ new"
    "removals new = []"
    using plan_files_adds [of acc target "referenced_files tree" "bt_keys tree"] unfolding adds_def by blast
  with acc have "planned_ok tree (pa_units (plan_files target (referenced_files tree) (bt_keys tree) acc))"
    by (simp add: planned_ok_files)
  with acc show ?thesis unfolding plan_all_def Let_def acc_def [symmetric] by (cases "includes_files scope") simp_all
qed

lemma plan_units_subset: "mset (pa_units (plan_units tree target scope)) \<subseteq># mset (pa_units (plan_all tree target scope))"
proof -
  have "mset (take n xs) \<subseteq># mset xs" for n and xs :: "reduction_unit list"
    by (metis append_take_drop_id mset_append mset_subset_eq_add_left)
  from this [of MAX_UNITS "sort_key _ _"] show ?thesis by (simp add: plan_units_def Let_def)
qed

section \<open>Applying a planned group\<close>

lemma removal_map_wf: "bt_wf (removal_map rs)"
  by (induction rs rule: rev_induct) (auto simp: removal_map_def bt_wf_insert split: prod.splits)

lemma removal_map_get:
  "bt_get (removal_map rs) f =
     (let l = map snd (filter (\<lambda>r. fst r = f) rs) in if l = [] then None else Some l)"
  by (induction rs rule: rev_induct)
    (auto simp: removal_map_def bt_get_insert Let_def split: prod.splits option.splits)

lemma apply_removals_total:
  assumes "distinct (map fst m)"
    and "\<And>f rs. (f, rs) \<in> set m \<Longrightarrow> \<exists>c. bt_get t f = Some c \<and> ranges_ok c 0 (sort rs)"
  shows "apply_removals m t \<noteq> None"
  using assms
proof (induction m arbitrary: t)
  case (Cons e m)
  obtain f rs where e: "e = (f, rs)" by (cases e)
  with Cons.prems(2) obtain c where c: "bt_get t f = Some c" "ranges_ok c 0 (sort rs)" by auto
  have "apply_removals m (bt_insert f (cut_ranges (sort rs) c) t) \<noteq> None"
    using Cons.prems e by (intro Cons.IH) (auto simp: bt_get_insert rev_image_eqI)
  with c e show ?case by (simp add: Let_def)
qed simp

lemma group_applies:
  assumes "bt_wf tree" and "\<And>f c. bt_get tree f = Some c \<Longrightarrow> from_utf8_ok c"
    and "mset us \<subseteq># mset (pa_units (plan_units tree target scope))"
  shows "apply_units tree us \<noteq> None"
proof -
  have sub: "mset us \<subseteq># mset (pa_units (plan_all tree target scope))"
    using assms(3) plan_units_subset by (rule subset_mset.trans)
  have ok: "planned_ok tree (pa_units (plan_all tree target scope))"
    using assms(1,2) by (rule plan_all_ok)
  have "apply_removals (removal_map (removals us)) tree \<noteq> None"
  proof (rule apply_removals_total)
    show "distinct (map fst (removal_map (removals us)))"
      using removal_map_wf by (simp add: bt_wf_def strict_sorted_iff)
  next
    fix f rs assume "(f, rs) \<in> set (removal_map (removals us))"
    then have "bt_get (removal_map (removals us)) f = Some rs" by (simp add: bt_get_iff removal_map_wf)
    then have "rs = ranges_for f us" "rs \<noteq> []" by (auto simp: removal_map_get ranges_for_def Let_def split: if_splits)
    with planned_ok_mono [OF ok sub] show "\<exists>c. bt_get tree f = Some c \<and> ranges_ok c 0 (sort rs)" by blast
  qed
  then show ?thesis by (auto simp: apply_units_def removals_def split: option.splits)
qed

section \<open>Reduced files are still text\<close>

lemma utf8_cut_ranges:
  "ranges_ok content k rs \<Longrightarrow> from_utf8_ok content \<Longrightarrow> is_char_boundary content k \<Longrightarrow>
   take k (cut_ranges rs content) = take k content \<and> from_utf8_ok (drop k (cut_ranges rs content))"
proof (induction content k rs rule: ranges_ok.induct)
  case (1 content k)
  then show ?case using utf8_split by (simp add: cut_ranges_def)
next
  case (2 content k start stop rs)
  let ?rest = "cut_ranges rs content"
  have r: "k \<le> start" "start < stop" "stop \<le> length content" "is_char_boundary content start"
    "is_char_boundary content stop" "ranges_ok content stop rs" using "2.prems"(1) by auto
  with "2.IH" "2.prems"(2) have IH: "take stop ?rest = take stop content" "from_utf8_ok (drop stop ?rest)" by auto
  have "take start ?rest = take start content"
    using IH(1) r(2) by (metis less_imp_le min.absorb1 take_take)
  then have cut: "cut_ranges ((start, stop) # rs) content = take start content @ drop stop ?rest"
    by (simp add: cut_ranges_def cut_range_def)
  have "from_utf8_ok (drop k (take start content))" using utf8_slice "2.prems"(2,3) r by blast
  then have "from_utf8_ok (drop k (take start content) @ drop stop ?rest)" using IH(2) utf8_append by blast
  with r show ?case unfolding cut by (simp add: min_def)
qed

definition is_text :: "tree \<Rightarrow> bool" where
  "is_text tree \<longleftrightarrow> list_all (\<lambda>e. from_utf8_ok (snd e)) tree"

lemma is_text_get: "is_text tree \<Longrightarrow> bt_get tree f = Some c \<Longrightarrow> from_utf8_ok c"
  using bt_get_in [of tree f c] by (force simp: is_text_def list_all_iff)

lemma set_bt_insert_subset: "set (bt_insert k v m) \<subseteq> insert (k, v) (set m)"
  by (induction m) auto

lemma apply_removals_text: "apply_removals m t = Some t' \<Longrightarrow> is_text t \<Longrightarrow> is_text t'"
proof (induction m t rule: apply_removals.induct)
  case (2 f ranges m t)
  from "2.prems"(1) obtain c where c: "bt_get t f = Some c" "ranges_ok c 0 (sort ranges)"
    "apply_removals m (bt_insert f (cut_ranges (sort ranges) c) t) = Some t'"
    by (auto simp: Let_def split: option.splits if_splits)
  have "from_utf8_ok (cut_ranges (sort ranges) c)"
    using utf8_cut_ranges [OF c(2)] is_text_get [OF "2.prems"(2) c(1)] by simp
  then have "is_text (bt_insert f (cut_ranges (sort ranges) c) t)"
    using "2.prems"(2) set_bt_insert_subset [of f "cut_ranges (sort ranges) c" t]
    by (fastforce simp: is_text_def list_all_iff)
  with "2.IH" [OF c(1) refl c(2,3)] show ?case by blast
qed simp

lemma apply_units_text: "apply_units t us = Some t' \<Longrightarrow> is_text t \<Longrightarrow> is_text t'"
  using apply_removals_text [of "removal_map (concat (map unit_removals us))" t]
  by (auto simp: apply_units_def is_text_def list_all_iff split: option.splits)

end
