(* ===== verification/Repair_Minimize.thy ===== *)
theory Repair_Minimize
  imports Repair_Applies
begin

text \<open>
  The minimization run (\<open>repair/minimize.rs\<close>): reproduce the failure, confirm it, search for smaller trees
  that still reproduce it, verify the smallest one in a clean directory and report. Cargo runs, the clock, the
  cancellation token, writing a trial directory and SHA-256 are the fields of a \<open>minimize_world\<close>, asked at
  a tick that every question advances; texts that only label an outcome are constructors.
\<close>

section \<open>The session\<close>

datatype trial_root = TrialRoot | ExportRoot

record minimize_world =
  mw_lower :: "string \<Rightarrow> string"
  mw_sha256 :: "string \<Rightarrow> string"
  mw_scratch :: "string option"
  mw_clear_root :: "nat \<Rightarrow> trial_root \<Rightarrow> string option"
  mw_write_file :: "nat \<Rightarrow> trial_root \<Rightarrow> string \<Rightarrow> string \<Rightarrow> string option"
  mw_guard :: "nat \<Rightarrow> trial_root \<Rightarrow> string option"
  mw_check :: "nat \<Rightarrow> trial_root \<Rightarrow> tree \<Rightarrow> trial_run"
  mw_cancelled :: "nat \<Rightarrow> bool"
  mw_elapsed_ms :: "nat \<Rightarrow> nat"

record repair_budget =
  rb_max_candidates :: nat
  rb_max_compiles :: nat
  rb_wall_time_ms :: nat

datatype reduction_status = Accepted | Rejected | ReductionInconclusive

datatype reduction_reason = Selected string | NotSelected evaluation_reason

record repair_reduction_data =
  rr_id :: string
  rr_kind :: string
  rr_files :: "string list"
  rr_items :: nat
  rr_lines_removed :: nat
  rr_status :: reduction_status
  rr_failure_match :: string
  rr_reason :: reduction_reason
  rr_total_ms :: nat

datatype stop_reason =
    Completed | StopMaxCompiles | StopMaxCandidates | StopWallTime | StopInitialInconclusive | StopInitialMismatch
  | StopUnreproducible | StopExportMismatch | StopExportInconclusive | StopInconclusive | StopCancelled
  | StopScratchFailure | StopNoUsableEvidence

datatype risk =
    RiskTruncatedCapture | RiskConfirmationSkipped | RiskReferencedItems nat | RiskScopeUnits nat
  | RiskExportNotRun | RiskUnconfirmed | RiskNoLockfile | RiskEmptySource | RiskObservedStatus gate_status
  | RiskNoDiagnostic | RiskSearchStopped stop_reason | RiskNotMinimal

record minimize_session =
  ms_tick :: nat
  ms_compiles :: nat
  ms_attempts :: nat
  ms_last_command :: string
  ms_reductions :: "repair_reduction_data list"
  ms_reductions_total :: nat
  ms_risks :: "risk list"

definition new_session :: minimize_session where
  "new_session =
     \<lparr>ms_tick = 1, ms_compiles = 0, ms_attempts = 0, ms_last_command = [], ms_reductions = [],
      ms_reductions_total = 0, ms_risks = []\<rparr>"

definition tick :: "minimize_session \<Rightarrow> minimize_session" where
  "tick s = s\<lparr>ms_tick := Suc (ms_tick s)\<rparr>"

definition push_risk :: "risk \<Rightarrow> minimize_session \<Rightarrow> minimize_session" where
  "push_risk r s = s\<lparr>ms_risks := ms_risks s @ [r]\<rparr>"

definition can_compile :: "repair_budget \<Rightarrow> minimize_session \<Rightarrow> bool" where
  "can_compile b s \<longleftrightarrow> ms_compiles s < rb_max_compiles b"

definition is_cancelled :: "minimize_world \<Rightarrow> minimize_session \<Rightarrow> bool \<times> minimize_session" where
  "is_cancelled w s = (mw_cancelled w (ms_tick s), tick s)"

definition budget_stop :: "minimize_world \<Rightarrow> repair_budget \<Rightarrow> minimize_session \<Rightarrow> stop_reason option \<times> minimize_session" where
  "budget_stop w b s =
     (if rb_max_compiles b \<le> ms_compiles s then (Some StopMaxCompiles, s)
      else if rb_max_candidates b \<le> ms_attempts s then (Some StopMaxCandidates, s)
      else if rb_wall_time_ms b < mw_elapsed_ms w (ms_tick s) then (Some StopWallTime, tick s)
      else (None, tick s))"

section \<open>A Cargo run\<close>

definition safe_relative :: "string \<Rightarrow> string option" where
  "safe_relative relative =
     (if relative = [] \<or> 1024 < length relative then Some ''a candidate path is empty or too long''
      else if is_absolute relative then Some ''a candidate path is absolute''
      else if list_all (\<lambda>c. case c of Normal _ \<Rightarrow> True | _ \<Rightarrow> False) (components relative) then None
      else Some ''a candidate path escapes the trial root'')"

fun write_files :: "minimize_world \<Rightarrow> nat \<Rightarrow> trial_root \<Rightarrow> tree \<Rightarrow> string option" where
  "write_files w t root [] = None"
| "write_files w t root ((relative, content) # files) =
     (case safe_relative relative of
        Some e \<Rightarrow> Some e
      | None \<Rightarrow>
          (case mw_write_file w t root relative content of
             Some e \<Rightarrow> Some e
           | None \<Rightarrow> write_files w t root files))"

definition materialize :: "minimize_world \<Rightarrow> nat \<Rightarrow> trial_root \<Rightarrow> tree \<Rightarrow> string option" where
  "materialize w t root tree =
     (case mw_clear_root w t root of Some e \<Rightarrow> Some e | None \<Rightarrow> write_files w t root tree)"

text \<open>
  The counters are compared with their \<open>u32\<close> limits before every run but the first, so
  \<open>saturating_add\<close> is plain addition here.
\<close>

definition run_tree ::
  "minimize_world \<Rightarrow> trial_root \<Rightarrow> tree \<Rightarrow> minimize_session \<Rightarrow> (string + trial_run) \<times> minimize_session" where
  "run_tree w root tree s =
     (case materialize w (ms_tick s) root tree of
        Some e \<Rightarrow> (Inl e, tick s)
      | None \<Rightarrow>
          (case mw_guard w (ms_tick s) root of
             Some e \<Rightarrow> (Inl e, tick s)
           | None \<Rightarrow>
               let run = mw_check w (ms_tick s) root tree in
               (Inr run,
                (tick s)\<lparr>ms_compiles := ms_compiles s + 1,
                  ms_last_command := (if tr_command run \<noteq> [] then tr_command run else ms_last_command s)\<rparr>)))"

definition MAX_REDUCTIONS :: nat where "MAX_REDUCTIONS = 64"
definition MAX_TOUCHED_FILES_PER_REDUCTION :: nat where "MAX_TOUCHED_FILES_PER_REDUCTION = 8"

definition reduction_data ::
  "nat \<Rightarrow> reduction_unit list \<Rightarrow> trial_run \<Rightarrow> evaluation \<Rightarrow> tree \<Rightarrow> repair_reduction_data" where
  "reduction_data n us run ev before =
     \<lparr>rr_id = ''r-'' @ dec n, rr_kind = group_kind us,
      rr_files = take MAX_TOUCHED_FILES_PER_REDUCTION (sorted_list_of_set (set (concat (map unit_files us)))),
      rr_items = length us, rr_lines_removed = foldl sat_add 0 (map (unit_lines before) us),
      rr_status = (if en_matched ev then Accepted
        else if en_kind ev = MatchInconclusive then ReductionInconclusive else Rejected),
      rr_failure_match = match_kind_as_str (en_kind ev),
      rr_reason = (if en_matched ev then Selected (describe_group us before)
        else NotSelected (en_reason ev)),
      rr_total_ms = tr_total_ms run\<rparr>"

definition record_reduction ::
  "reduction_unit list \<Rightarrow> trial_run \<Rightarrow> evaluation \<Rightarrow> tree \<Rightarrow> minimize_session \<Rightarrow> minimize_session" where
  "record_reduction us run ev before s =
     (let s = s\<lparr>ms_reductions_total := sat_add (ms_reductions_total s) 1, ms_attempts := ms_attempts s + 1\<rparr>
      in if MAX_REDUCTIONS \<le> length (ms_reductions s) then s
         else s\<lparr>ms_reductions := ms_reductions s @ [reduction_data (ms_reductions_total s) us run ev before]\<rparr>)"

section \<open>The search\<close>

datatype group_result =
    GroupCancelled minimize_session
  | GroupStopped stop_reason minimize_session
  | GroupUnavailable string minimize_session
  | GroupAccepted tree minimize_session
  | GroupExhausted minimize_session

definition group_weight :: "reduction_unit list \<Rightarrow> nat" where
  "group_weight us = max 1 (2 * length us - 1)"

lemma group_weight_split:
  assumes "1 < length us"
  shows "group_weight (take (length us div 2) us) + group_weight (drop (length us div 2) us) < group_weight us"
proof -
  have "1 \<le> length us div 2" "length us div 2 < length us" using assms by auto
  moreover have "max 1 (2 * m - 1) + max 1 (2 * (n - m) - 1) < max 1 (2 * n - 1)" if "1 \<le> m" "m < n" for m n :: nat
    using that by arith
  ultimately show ?thesis by (simp add: group_weight_def)
qed

lemma group_weight_pos: "0 < group_weight us"
  by (simp add: group_weight_def)

function search_groups ::
  "minimize_world \<Rightarrow> repair_budget \<Rightarrow> failure_predicate \<Rightarrow> string set \<Rightarrow> tree \<Rightarrow> minimize_session \<Rightarrow>
   reduction_unit list list \<Rightarrow> group_result" where
  "search_groups w b p baseline current s [] = GroupExhausted s"
| "search_groups w b p baseline current s (us # stack) =
     (case is_cancelled w s of
        (True, s1) \<Rightarrow> GroupCancelled s1
      | (False, s1) \<Rightarrow>
          (case budget_stop w b s1 of
             (Some stop, s2) \<Rightarrow> GroupStopped stop s2
           | (None, s2) \<Rightarrow>
               (case apply_units current us of
                  None \<Rightarrow> search_groups w b p baseline current s2 stack
                | Some trial \<Rightarrow>
                    (case run_tree w TrialRoot trial s2 of
                       (Inl e, s3) \<Rightarrow> GroupUnavailable e s3
                     | (Inr run, s3) \<Rightarrow>
                         let ev = evaluate_run (mw_lower w) p baseline run;
                             s4 = record_reduction us run ev current s3
                         in if en_matched ev then GroupAccepted trial s4
                            else if 1 < length us then
                              search_groups w b p baseline current s4
                                (take (length us div 2) us # drop (length us div 2) us # stack)
                            else search_groups w b p baseline current s4 stack))))"
  by pat_completeness auto
termination
  by (relation "measure (\<lambda>(w, b, p, baseline, current, s, stack). sum_list (map group_weight stack))")
    (auto simp: group_weight_pos add.assoc [symmetric] group_weight_split [unfolded One_nat_def])

declare search_groups.simps [simp del]

text \<open>What one question to the world does to the session, and the budget every session keeps.\<close>

lemma tick_simps [simp]:
  "ms_compiles (tick s) = ms_compiles s" "ms_attempts (tick s) = ms_attempts s"
  "ms_reductions (tick s) = ms_reductions s" "ms_reductions_total (tick s) = ms_reductions_total s"
  by (simp_all add: tick_def)

definition within :: "repair_budget \<Rightarrow> minimize_session \<Rightarrow> bool" where
  "within b s \<longleftrightarrow> ms_compiles s \<le> max 1 (rb_max_compiles b) \<and> ms_attempts s \<le> rb_max_candidates b \<and>
     length (ms_reductions s) \<le> MAX_REDUCTIONS"

definition advances :: "repair_budget \<Rightarrow> minimize_session \<Rightarrow> minimize_session \<Rightarrow> bool" where
  "advances b s s' \<longleftrightarrow> ms_attempts s \<le> ms_attempts s' \<and> (within b s \<longrightarrow> within b s')"

lemma advances_trans: "advances b s s' \<Longrightarrow> advances b s' s'' \<Longrightarrow> advances b s s''"
  by (auto simp: advances_def)

lemma is_cancelled_advances: "is_cancelled w s = (c, s') \<Longrightarrow> advances b s s'"
  by (auto simp: is_cancelled_def advances_def within_def)

lemma budget_stop_advances: "budget_stop w b s = (r, s') \<Longrightarrow> advances b s s'"
  by (auto simp: budget_stop_def advances_def within_def split: if_splits)

lemma budget_stop_None:
  "budget_stop w b s = (None, s') \<Longrightarrow> ms_compiles s' < rb_max_compiles b \<and> ms_attempts s' < rb_max_candidates b"
  by (auto simp: budget_stop_def split: if_splits)

lemma run_tree_advances:
  assumes "run_tree w root tree s = (r, s')" and "ms_compiles s < max 1 (rb_max_compiles b)"
  shows "advances b s s' \<and> ms_attempts s' = ms_attempts s"
  using assms by (auto simp: run_tree_def Let_def advances_def within_def split: option.splits)

lemma run_tree_Inr: "run_tree w root tree s = (Inr run, s') \<Longrightarrow> run = mw_check w (ms_tick s) root tree"
  by (auto simp: run_tree_def Let_def split: option.splits)

lemma record_reduction_advances:
  assumes "ms_attempts s < rb_max_candidates b"
  shows "advances b s (record_reduction us run ev before s)"
    and "ms_attempts (record_reduction us run ev before s) = ms_attempts s + 1"
  using assms by (auto simp: record_reduction_def Let_def advances_def within_def)

text \<open>
  A step of the search that evaluates a group: the trial, the session after the run and its evaluation are
  related by these facts.
\<close>

lemma evaluated_group:
  fixes us p baseline current
  assumes "is_cancelled w s = (False, s1)" and "budget_stop w b s1 = (None, s2)"
    and "run_tree w TrialRoot trial s2 = (Inr run, s3)"
  defines "s4 \<equiv> record_reduction us run (evaluate_run (mw_lower w) p baseline run) current s3"
  shows "advances b s s4" "ms_attempts s < ms_attempts s4" "ms_attempts s4 \<le> rb_max_candidates b"
proof -
  have s2: "advances b s s2" "ms_compiles s2 < rb_max_compiles b" "ms_attempts s2 < rb_max_candidates b"
    using is_cancelled_advances [OF assms(1)] budget_stop_advances [OF assms(2)] budget_stop_None [OF assms(2)]
    by (auto intro: advances_trans)
  with run_tree_advances [OF assms(3), of b] have s3: "advances b s2 s3" "ms_attempts s3 = ms_attempts s2" by auto
  with s2(3) record_reduction_advances [of s3 b us run] have s4: "advances b s3 s4" "ms_attempts s4 = ms_attempts s3 + 1"
    unfolding s4_def by auto
  show "advances b s s4" using s2(1) s3(1) s4(1) by (blast intro: advances_trans)
  show "ms_attempts s < ms_attempts s4" using s2(1) s3(2) s4(2) by (simp add: advances_def)
  show "ms_attempts s4 \<le> rb_max_candidates b" using s2(3) s3(2) s4(2) by simp
qed

fun group_session :: "group_result \<Rightarrow> minimize_session" where
  "group_session (GroupCancelled s) = s"
| "group_session (GroupStopped _ s) = s"
| "group_session (GroupUnavailable _ s) = s"
| "group_session (GroupAccepted _ s) = s"
| "group_session (GroupExhausted s) = s"

text \<open>A unit that was removed alone and whose trial did not reproduce the failure.\<close>

definition unit_needed :: "minimize_world \<Rightarrow> failure_predicate \<Rightarrow> string set \<Rightarrow> tree \<Rightarrow> reduction_unit \<Rightarrow> bool" where
  "unit_needed w p baseline current u \<longleftrightarrow>
     (\<exists>trial t. apply_units current [u] = Some trial \<and>
        \<not> reproduces (mw_lower w) p baseline (mw_check w t TrialRoot trial))"

definition units_needed :: "minimize_world \<Rightarrow> failure_predicate \<Rightarrow> string set \<Rightarrow> tree \<Rightarrow> reduction_unit list \<Rightarrow> bool" where
  "units_needed w p baseline current us \<longleftrightarrow>
     (\<forall>vs. mset vs \<subseteq># mset us \<longrightarrow> apply_units current vs \<noteq> None) \<longrightarrow>
     (\<forall>u \<in> set us. unit_needed w p baseline current u)"

lemma units_needed_halves:
  assumes "units_needed w p baseline current (take n us)" and "units_needed w p baseline current (drop n us)"
  shows "units_needed w p baseline current us"
proof -
  have "mset us = mset (take n us) + mset (drop n us)" by (metis append_take_drop_id mset_append)
  then have "mset vs \<subseteq># mset us" if "mset vs \<subseteq># mset (take n us) \<or> mset vs \<subseteq># mset (drop n us)" for vs
    using that by (metis mset_subset_eq_add_left mset_subset_eq_add_right subset_mset.trans)
  moreover have "set us = set (take n us) \<union> set (drop n us)" by (metis append_take_drop_id set_append)
  ultimately show ?thesis using assms unfolding units_needed_def by blast
qed

definition group_ok ::
  "minimize_world \<Rightarrow> repair_budget \<Rightarrow> failure_predicate \<Rightarrow> string set \<Rightarrow> tree \<Rightarrow> minimize_session \<Rightarrow>
   reduction_unit list list \<Rightarrow> group_result \<Rightarrow> bool" where
  "group_ok w b p baseline current s stack r \<longleftrightarrow>
     advances b s (group_session r) \<and>
     (\<forall>trial s'. r = GroupAccepted trial s' \<longrightarrow>
        ms_attempts s < ms_attempts s' \<and> ms_attempts s' \<le> rb_max_candidates b \<and>
        (\<exists>us. apply_units current us = Some trial) \<and>
        (\<exists>t. reproduces (mw_lower w) p baseline (mw_check w t TrialRoot trial))) \<and>
     (\<forall>stop s'. r = GroupStopped stop s' \<longrightarrow> (\<exists>s0. budget_stop w b s0 = (Some stop, s'))) \<and>
     (\<forall>s'. r = GroupExhausted s' \<longrightarrow> (\<forall>us \<in> set stack. units_needed w p baseline current us))"

lemma group_ok_later:
  assumes "group_ok w b p baseline current s' stack' r" and "advances b s s'"
    and "\<forall>us \<in> set stack'. units_needed w p baseline current us \<Longrightarrow> \<forall>us \<in> set stack. units_needed w p baseline current us"
  shows "group_ok w b p baseline current s stack r"
  using assms unfolding group_ok_def by (auto intro: advances_trans simp: advances_def)

lemma evaluated_group_ok:
  fixes us p baseline current stack
  assumes c: "is_cancelled w s = (False, s1)" and b: "budget_stop w b s1 = (None, s2)"
    and trial: "apply_units current us = Some trial" and run: "run_tree w TrialRoot trial s2 = (Inr run, s3)"
  defines "ev \<equiv> evaluate_run (mw_lower w) p baseline run"
  defines "s4 \<equiv> record_reduction us run ev current s3"
  defines "halves \<equiv> take (length us div 2) us # drop (length us div 2) us # stack"
  assumes IH: "\<not> en_matched ev \<Longrightarrow> 1 < length us \<Longrightarrow>
      group_ok w b p baseline current s4 halves (search_groups w b p baseline current s4 halves)"
    "\<not> en_matched ev \<Longrightarrow> \<not> 1 < length us \<Longrightarrow>
      group_ok w b p baseline current s4 stack (search_groups w b p baseline current s4 stack)"
  shows "group_ok w b p baseline current s (us # stack) (search_groups w b p baseline current s (us # stack))"
proof -
  note s4 = evaluated_group [OF c b run, of us p baseline current, folded ev_def, folded s4_def]
  have eq: "search_groups w b p baseline current s (us # stack) =
      (if en_matched ev then GroupAccepted trial s4
       else if 1 < length us then search_groups w b p baseline current s4 halves
       else search_groups w b p baseline current s4 stack)"
    using c b trial run by (simp add: search_groups.simps Let_def ev_def s4_def halves_def)
  consider (hit) "en_matched ev" | (split) "\<not> en_matched ev" "1 < length us" | (last) "\<not> en_matched ev" "\<not> 1 < length us"
    by blast
  then show ?thesis
  proof cases
    case hit
    then show ?thesis
      using s4 trial evaluate_matched run_tree_Inr [OF run] unfolding eq by (auto simp: group_ok_def ev_def)
  next
    case split
    then have "group_ok w b p baseline current s (us # stack) (search_groups w b p baseline current s4 halves)"
      by (intro group_ok_later [OF IH(1) s4(1)])
        (use units_needed_halves [of w p baseline current "length us div 2" us] in \<open>auto simp: halves_def\<close>)
    with split show ?thesis unfolding eq by simp
  next
    case last
    have "units_needed w p baseline current us"
    proof (cases us)
      case (Cons u vs)
      with last trial evaluate_matched run_tree_Inr [OF run] show ?thesis
        by (cases vs) (auto simp: units_needed_def unit_needed_def ev_def)
    qed (simp add: units_needed_def)
    then have "group_ok w b p baseline current s (us # stack) (search_groups w b p baseline current s4 stack)"
      by (intro group_ok_later [OF IH(2) s4(1)]) (use last in auto)
    with last show ?thesis unfolding eq by simp
  qed
qed

lemma search_groups_ok: "group_ok w b p baseline current s stack (search_groups w b p baseline current s stack)"
proof (induction w b p baseline current s stack rule: search_groups.induct)
  case (1 w b p baseline current s)
  then show ?case by (simp add: search_groups.simps group_ok_def advances_def)
next
  case (2 w b p baseline current s us stack)
  obtain c s1 where c: "is_cancelled w s = (c, s1)" by fastforce
  note s1 = is_cancelled_advances [OF c, of b]
  obtain st s2 where b: "budget_stop w b s1 = (st, s2)" by fastforce
  note s2 = advances_trans [OF s1 budget_stop_advances [OF b]]
  show ?case
  proof (cases "c \<or> st \<noteq> None")
    case True
    with c b s1 s2 show ?thesis by (auto simp: search_groups.simps group_ok_def split: bool.splits)
  next
    case False
    then have c': "is_cancelled w s = (False, s1)" and b': "budget_stop w b s1 = (None, s2)" using c b by auto
    show ?thesis
    proof (cases "apply_units current us")
      case None
      then have "units_needed w p baseline current us" by (auto simp: units_needed_def)
      with group_ok_later [OF 2(1) [OF c'[symmetric] _ b'[symmetric] _ None] s2] c' b' None show ?thesis
        by (simp add: search_groups.simps)
    next
      case (Some trial)
      obtain run s3 where run: "run_tree w TrialRoot trial s2 = (run, s3)" by fastforce
      show ?thesis
      proof (cases run)
        case (Inl e)
        have "advances b s s3"
          using run_tree_advances [OF run, of b] budget_stop_None [OF b'] s2 by (auto intro: advances_trans)
        with Inl c' b' Some run show ?thesis by (simp add: search_groups.simps group_ok_def)
      next
        case (Inr ok)
        with run have run': "run_tree w TrialRoot trial s2 = (Inr ok, s3)" by simp
        note IH = 2(2,3) [OF c'[symmetric] _ b'[symmetric] _ Some run'[symmetric] _ refl refl]
        show ?thesis by (rule evaluated_group_ok [OF c' b' Some run' IH]) simp_all
      qed
    qed
  qed
qed

lemma round_progress:
  assumes "(False, s1) = is_cancelled w s" and "(None, s2) = budget_stop w b s1"
    and "search_groups w b p baseline current s2 stack = GroupAccepted trial s3"
  shows "rb_max_candidates b - ms_attempts s3 < rb_max_candidates b - ms_attempts s"
proof -
  have "advances b s s2"
    using is_cancelled_advances [OF assms(1) [symmetric]] budget_stop_advances [OF assms(2) [symmetric]]
    by (rule advances_trans)
  with search_groups_ok [of w b p baseline current s2 stack] assms(3) show ?thesis
    by (auto simp: group_ok_def advances_def)
qed

datatype search_result =
    SearchCancelled minimize_session
  | SearchUnavailable string minimize_session
  | SearchDone stop_reason tree nat nat minimize_session

text \<open>The outer loop: plan the units of the current tree and search them, as long as a group is accepted.\<close>

function search_rounds ::
  "minimize_world \<Rightarrow> repair_budget \<Rightarrow> failure_predicate \<Rightarrow> string set \<Rightarrow> target_site \<Rightarrow> repair_reduction_scope \<Rightarrow>
   tree \<Rightarrow> nat \<Rightarrow> nat \<Rightarrow> minimize_session \<Rightarrow> search_result" where
  "search_rounds w b p baseline target scope current skipped_referenced skipped_scope s =
     (case is_cancelled w s of
        (True, s1) \<Rightarrow> SearchCancelled s1
      | (False, s1) \<Rightarrow>
          (case budget_stop w b s1 of
             (Some stop, s2) \<Rightarrow> SearchDone stop current skipped_referenced skipped_scope s2
           | (None, s2) \<Rightarrow>
               let plan = plan_units current target scope;
                   referenced = skipped_referenced + pa_referenced plan;
                   out_of_scope = skipped_scope + pa_scope plan
               in if pa_units plan = [] then SearchDone Completed current referenced out_of_scope s2
                  else
                    (case search_groups w b p baseline current s2 [pa_units plan] of
                       GroupCancelled s3 \<Rightarrow> SearchCancelled s3
                     | GroupStopped stop s3 \<Rightarrow> SearchDone stop current referenced out_of_scope s3
                     | GroupUnavailable e s3 \<Rightarrow> SearchUnavailable e s3
                     | GroupAccepted trial s3 \<Rightarrow>
                         search_rounds w b p baseline target scope trial referenced out_of_scope s3
                     | GroupExhausted s3 \<Rightarrow> SearchDone Completed current referenced out_of_scope s3)))"
  by pat_completeness auto
termination
  by (relation "measure (\<lambda>(w, b, p, baseline, target, scope, current, skr, sks, s). rb_max_candidates b - ms_attempts s)")
    (auto dest: round_progress)

declare search_rounds.simps [simp del]

section \<open>Proof package\<close>

definition MAX_PROOF_FILES :: nat where "MAX_PROOF_FILES = 64"
definition MAX_PROOF_FILE_BYTES :: nat where "MAX_PROOF_FILE_BYTES = 65536"
definition MAX_PROOF_TOTAL_BYTES :: nat where "MAX_PROOF_TOTAL_BYTES = 262144"

record repair_proof_file_data =
  pr_file :: string
  pr_sha256 :: string
  pr_bytes :: nat
  pr_content :: "string option"
  pr_content_omitted :: bool

datatype export_verification =
    ExportNotRun stop_reason | ExportReproduced gate_status | ExportMismatch evaluation_reason | ExportNotStarted string

record repair_proof_data =
  pk_files :: "repair_proof_file_data list"
  pk_files_total :: nat
  pk_total_bytes :: nat
  pk_package_complete :: bool
  pk_omitted :: "string list"
  pk_source_sha256 :: string
  pk_configuration_sha256 :: string
  pk_evidence_sha256 :: string
  pk_reproduction_command :: string
  pk_toolchain :: string
  pk_edition :: string
  pk_target :: string
  pk_cargo_toml_sha256 :: "string option"
  pk_lockfile_sha256 :: "string option"
  pk_lockfile_preserved :: bool
  pk_export_verified :: bool
  pk_initial_reproduction :: string
  pk_export_verification :: export_verification

record proof_acc =
  pc_files :: "repair_proof_file_data list"
  pc_total_bytes :: nat
  pc_omitted :: "string list"

definition proof_include :: "proof_acc \<Rightarrow> nat \<Rightarrow> bool" where
  "proof_include acc bytes \<longleftrightarrow>
     length (pc_files acc) < MAX_PROOF_FILES \<and> bytes \<le> MAX_PROOF_FILE_BYTES \<and>
     sat_add (pc_total_bytes acc) bytes \<le> MAX_PROOF_TOTAL_BYTES"

definition proof_file :: "(string \<Rightarrow> string) \<Rightarrow> string \<times> string \<Rightarrow> proof_acc \<Rightarrow> proof_acc" where
  "proof_file sha e acc =
     (case e of (f, content) \<Rightarrow>
        if proof_include acc (length content) then
          acc\<lparr>pc_total_bytes := sat_add (pc_total_bytes acc) (length content),
              pc_files := pc_files acc @ [\<lparr>pr_file = f, pr_sha256 = sha content, pr_bytes = length content,
                pr_content = Some content, pr_content_omitted = False\<rparr>]\<rparr>
        else
          acc\<lparr>pc_omitted := (if length (pc_omitted acc) < 16
                then pc_omitted acc @ [f @ '': content omitted at the proof bound''] else pc_omitted acc),
              pc_files := pc_files acc @ [\<lparr>pr_file = f, pr_sha256 = sha content, pr_bytes = length content,
                pr_content = None, pr_content_omitted = True\<rparr>]\<rparr>)"

definition tree_sha256 :: "(string \<Rightarrow> string) \<Rightarrow> tree \<Rightarrow> string" where
  "tree_sha256 sha tree =
     sha (''agz-rust-mcp-minimized-tree'' @ [CHR 0x00] @
       concat (map (\<lambda>(f, content). f @ [CHR 0x00] @ content @ [CHR 0x00]) tree))"

definition reproduction_command :: "string \<Rightarrow> string" where
  "reproduction_command command =
     (case split_whitespace command of
        [] \<Rightarrow> ''cargo check''
      | _ # rest \<Rightarrow> if rest = [] then ''cargo check'' else bounded (''cargo '' @ join '' '' rest) 512)"

definition proof_toolchain :: "tree \<Rightarrow> string" where
  "proof_toolchain tree =
     (case bt_get tree ''rust-toolchain.toml'' of
        Some t \<Rightarrow> bounded t 4096
      | None \<Rightarrow> (case bt_get tree ''rust-toolchain'' of Some t \<Rightarrow> bounded t 4096 | None \<Rightarrow> ''hostDefault''))"

definition newline :: string where "newline = [CHR 0x0A]"

definition bool_str :: "bool \<Rightarrow> string" where
  "bool_str b = (if b then ''true'' else ''false'')"

definition build_proof ::
  "minimize_world \<Rightarrow> gate_target_id \<Rightarrow> tree \<Rightarrow> string \<Rightarrow> failure_predicate \<Rightarrow> bool \<Rightarrow> export_verification \<Rightarrow>
   repair_proof_data" where
  "build_proof w target tree last_command p export_verified verification =
     (let sha = mw_sha256 w;
          acc = fold (proof_file sha) tree \<lparr>pc_files = [], pc_total_bytes = 0, pc_omitted = []\<rparr>;
          source = tree_sha256 sha tree;
          toolchain = proof_toolchain tree;
          edition = manifest_edition tree;
          configuration = sha (''target='' @ gate_target_as_str target @ newline @ ''edition='' @ edition @ newline @
            ''features='' @ newline @ ''toolchain='' @ toolchain @ newline);
          evidence = sha (source @ newline @ configuration @ newline @ fp_code p @ ''|'' @
            (case fp_file p of None \<Rightarrow> [] | Some f \<Rightarrow> f) @ ''|'' @ fp_normalized_message p @ newline @
            bool_str export_verified)
      in \<lparr>pk_files = pc_files acc, pk_files_total = length tree, pk_total_bytes = pc_total_bytes acc,
          pk_package_complete = list_all (\<lambda>f. \<not> pr_content_omitted f) (pc_files acc), pk_omitted = pc_omitted acc,
          pk_source_sha256 = source, pk_configuration_sha256 = configuration, pk_evidence_sha256 = evidence,
          pk_reproduction_command = reproduction_command last_command, pk_toolchain = toolchain, pk_edition = edition,
          pk_target = gate_target_as_str target,
          pk_cargo_toml_sha256 = map_option sha (bt_get tree ''Cargo.toml''),
          pk_lockfile_sha256 = map_option sha (bt_get tree ''Cargo.lock''),
          pk_lockfile_preserved = (bt_get tree ''Cargo.lock'' \<noteq> None), pk_export_verified = export_verified,
          pk_initial_reproduction =
            ''the unchanged candidate reproduced '' @ fp_diagnostic_id p @ '' at the first fresh run'',
          pk_export_verification = verification\<rparr>)"

section \<open>Outcomes\<close>

datatype minimize_status = Reproduced | BestKnownReproducer | NotReproduced | NoEvidence | MinimizeCancelled | MinimizeInconclusive

datatype minimize_reason =
    ReasonTree string | ReasonNoDiagnostics | ReasonUnmatchedIds "string list" | ReasonPredicate predicate_error
  | ReasonScratch string | ReasonInitial evaluation_reason | ReasonFlaky evaluation_reason
  | ReasonConfirmNotStarted string | ReasonRun string | ReasonNotStarted | ReasonCancelled | ReasonReproduced | ReasonLimited

record repair_budget_data =
  bd_budget :: repair_budget
  bd_candidates_used :: nat
  bd_compiles_used :: nat
  bd_elapsed_ms :: nat

record repair_predicate_data =
  pd_diagnostic_id :: string
  pd_code :: string
  pd_level :: string
  pd_file :: "string option"
  pd_message :: string
  pd_message_tokens :: "string list"
  pd_source :: string

definition predicate_data :: "failure_predicate \<Rightarrow> repair_predicate_data" where
  "predicate_data p =
     \<lparr>pd_diagnostic_id = fp_diagnostic_id p, pd_code = fp_code p, pd_level = fp_level p, pd_file = fp_file p,
      pd_message = (if fp_normalized_message p = [] then join '' & '' (fp_message_fragments p) else fp_normalized_message p),
      pd_message_tokens = fp_message_tokens p, pd_source = fp_source p\<rparr>"

record repair_data =
  rd_usable :: bool
  rd_change_id :: string
  rd_predicate :: "repair_predicate_data option"
  rd_proof :: "repair_proof_data option"
  rd_reductions :: "repair_reduction_data list"
  rd_reductions_total :: nat
  rd_reductions_omitted :: nat
  rd_reproduced :: bool
  rd_verification :: string
  rd_budget :: "repair_budget_data option"
  rd_stop_reason :: stop_reason
  rd_remaining_risks :: "risk list"
  rd_reason :: minimize_reason

record minimize_outcome =
  mo_status :: minimize_status
  mo_is_error :: bool
  mo_data :: repair_data

record minimize_request =
  mq_change_id :: string
  mq_diagnostic_ids :: "string list"
  mq_failure_predicate :: "repair_failure_predicate_input option"
  mq_reduction_scope :: repair_reduction_scope
  mq_budget :: repair_budget
  mq_diagnostics :: "change_diagnostic_data list"
  mq_target :: gate_target_id

definition base_data :: "string \<Rightarrow> stop_reason \<Rightarrow> minimize_reason \<Rightarrow> repair_data" where
  "base_data change_id stop reason =
     \<lparr>rd_usable = False, rd_change_id = change_id, rd_predicate = None, rd_proof = None, rd_reductions = [],
      rd_reductions_total = 0, rd_reductions_omitted = 0, rd_reproduced = False, rd_verification = [],
      rd_budget = None, rd_stop_reason = stop, rd_remaining_risks = [], rd_reason = reason\<rparr>"

definition no_evidence_outcome :: "minimize_request \<Rightarrow> minimize_reason \<Rightarrow> minimize_outcome" where
  "no_evidence_outcome q reason =
     \<lparr>mo_status = NoEvidence, mo_is_error = True, mo_data = base_data (mq_change_id q) StopNoUsableEvidence reason\<rparr>"

definition cancelled_outcome :: "string \<Rightarrow> minimize_outcome" where
  "cancelled_outcome change_id =
     \<lparr>mo_status = MinimizeCancelled, mo_is_error = True, mo_data = base_data change_id StopCancelled ReasonNotStarted\<rparr>"

definition budget_data :: "minimize_world \<Rightarrow> repair_budget \<Rightarrow> minimize_session \<Rightarrow> repair_budget_data" where
  "budget_data w b s =
     \<lparr>bd_budget = b, bd_candidates_used = ms_attempts s, bd_compiles_used = ms_compiles s,
      bd_elapsed_ms = mw_elapsed_ms w (ms_tick s)\<rparr>"

definition reductions_omitted :: "minimize_session \<Rightarrow> nat" where
  "reductions_omitted s = ms_reductions_total s - length (ms_reductions s)"

definition finish_cancelled :: "minimize_world \<Rightarrow> minimize_request \<Rightarrow> failure_predicate \<Rightarrow> minimize_session \<Rightarrow> minimize_outcome" where
  "finish_cancelled w q p s =
     \<lparr>mo_status = MinimizeCancelled, mo_is_error = True,
      mo_data = (base_data (mq_change_id q) StopCancelled ReasonCancelled)
        \<lparr>rd_predicate := Some (predicate_data p), rd_reductions := ms_reductions s,
         rd_reductions_total := ms_reductions_total s, rd_reductions_omitted := reductions_omitted s,
         rd_budget := Some (budget_data w (mq_budget q) s), rd_remaining_risks := ms_risks s\<rparr>\<rparr>"

definition finish_unavailable :: "minimize_request \<Rightarrow> minimize_reason \<Rightarrow> minimize_outcome" where
  "finish_unavailable q reason =
     \<lparr>mo_status = NotReproduced, mo_is_error = False,
      mo_data = (base_data (mq_change_id q) StopInconclusive reason)\<lparr>rd_reproduced := False, rd_verification := ''none''\<rparr>\<rparr>"

definition finish_not_reproduced ::
  "minimize_world \<Rightarrow> minimize_request \<Rightarrow> stop_reason \<Rightarrow> minimize_reason \<Rightarrow> trial_run \<Rightarrow> failure_predicate \<Rightarrow> minimize_session \<Rightarrow>
   minimize_outcome" where
  "finish_not_reproduced w q stop reason run p s =
     (let s = push_risk (RiskObservedStatus (tr_status run)) s;
          s = (if tr_diagnostics run = [] then push_risk RiskNoDiagnostic s else s)
      in \<lparr>mo_status = NotReproduced, mo_is_error = False,
          mo_data = (base_data (mq_change_id q) stop reason)
            \<lparr>rd_predicate := Some (predicate_data p), rd_verification := ''none'',
             rd_budget := Some (budget_data w (mq_budget q) s), rd_remaining_risks := ms_risks s\<rparr>\<rparr>)"

definition finish_reproducer ::
  "minimize_world \<Rightarrow> minimize_status \<Rightarrow> minimize_request \<Rightarrow> failure_predicate \<Rightarrow> repair_proof_data \<Rightarrow> stop_reason \<Rightarrow>
   minimize_session \<Rightarrow> minimize_outcome" where
  "finish_reproducer w status q p package stop s =
     (let usable = (status = Reproduced \<or> status = BestKnownReproducer);
          reproduced = (status = Reproduced);
          s = (if stop \<noteq> Completed then push_risk (RiskSearchStopped stop) s else s);
          s = (if \<not> reproduced \<and> usable then push_risk RiskNotMinimal s else s)
      in \<lparr>mo_status = status, mo_is_error = \<not> usable,
          mo_data = \<lparr>rd_usable = usable, rd_change_id = mq_change_id q, rd_predicate = Some (predicate_data p),
            rd_proof = Some package, rd_reductions = ms_reductions s, rd_reductions_total = ms_reductions_total s,
            rd_reductions_omitted = reductions_omitted s, rd_reproduced = reproduced,
            rd_verification = (if reproduced then ''exportVerified'' else if usable then ''trialVerified'' else ''none''),
            rd_budget = Some (budget_data w (mq_budget q) s), rd_stop_reason = stop, rd_remaining_risks = ms_risks s,
            rd_reason = (if reproduced then ReasonReproduced else ReasonLimited)\<rparr>\<rparr>)"

section \<open>The run\<close>

definition confirm_failure ::
  "minimize_world \<Rightarrow> minimize_request \<Rightarrow> failure_predicate \<Rightarrow> string set \<Rightarrow> tree \<Rightarrow> minimize_session \<Rightarrow>
   minimize_outcome + bool \<times> minimize_session" where
  "confirm_failure w q p baseline files s =
     (if can_compile (mq_budget q) s then
        (case run_tree w TrialRoot files s of
           (Inl e, s) \<Rightarrow> Inl (finish_unavailable q (ReasonConfirmNotStarted e))
         | (Inr run, s) \<Rightarrow>
             let confirm = evaluate_run (mw_lower w) p baseline run in
             if \<not> en_matched confirm
             then Inl (finish_not_reproduced w q StopUnreproducible (ReasonFlaky (en_reason confirm)) run p s)
             else Inr (True, s))
      else Inr (False, push_risk RiskConfirmationSkipped s))"

definition reproduce_failure ::
  "minimize_world \<Rightarrow> minimize_request \<Rightarrow> failure_predicate \<Rightarrow> tree \<Rightarrow> minimize_session \<Rightarrow>
   minimize_outcome + string set \<times> bool \<times> minimize_session" where
  "reproduce_failure w q p files s =
     (case run_tree w TrialRoot files s of
        (Inl e, s) \<Rightarrow> Inl (finish_unavailable q (ReasonRun e))
      | (Inr run, s) \<Rightarrow>
          let baseline = signatures (mw_lower w) run;
              initial = evaluate_run (mw_lower w) p baseline run
          in if \<not> en_matched initial then
               Inl (finish_not_reproduced w q
                 (if en_kind initial = MatchInconclusive then StopInitialInconclusive else StopInitialMismatch)
                 (ReasonInitial (en_reason initial)) run p s)
             else
               (case confirm_failure w q p baseline files s of
                  Inl outcome \<Rightarrow> Inl outcome
                | Inr (confirmed, s) \<Rightarrow> Inr (baseline, confirmed, s)))"

definition or_stop :: "stop_reason \<Rightarrow> stop_reason \<Rightarrow> stop_reason" where
  "or_stop stop later = (if stop = Completed then later else stop)"

definition verify_export ::
  "minimize_world \<Rightarrow> minimize_request \<Rightarrow> failure_predicate \<Rightarrow> string set \<Rightarrow> tree \<Rightarrow> stop_reason \<Rightarrow> minimize_session \<Rightarrow>
   minimize_status \<times> export_verification \<times> stop_reason \<times> minimize_session" where
  "verify_export w q p baseline current stop s =
     (case budget_stop w (mq_budget q) s of
        (Some late, s) \<Rightarrow> (BestKnownReproducer, ExportNotRun late, or_stop stop late, push_risk RiskExportNotRun s)
      | (None, s) \<Rightarrow>
          (case run_tree w ExportRoot current s of
             (Inl e, s) \<Rightarrow> (NotReproduced, ExportNotStarted e, or_stop stop StopExportInconclusive, s)
           | (Inr run, s) \<Rightarrow>
               let export = evaluate_run (mw_lower w) p baseline run in
               if en_matched export then (Reproduced, ExportReproduced (tr_status run), stop, s)
               else (NotReproduced, ExportMismatch (en_reason export), or_stop stop StopExportMismatch, s)))"

definition risk_when :: "bool \<Rightarrow> risk \<Rightarrow> minimize_session \<Rightarrow> minimize_session" where
  "risk_when c r s = (if c then push_risk r s else s)"

definition publish ::
  "minimize_world \<Rightarrow> minimize_request \<Rightarrow> failure_predicate \<Rightarrow> string set \<Rightarrow> bool \<Rightarrow> tree \<Rightarrow> tree \<Rightarrow> stop_reason \<Rightarrow>
   nat \<Rightarrow> nat \<Rightarrow> minimize_session \<Rightarrow> minimize_outcome" where
  "publish w q p baseline confirmed files current stop skipped_referenced skipped_scope s =
     (let s = risk_when (0 < skipped_referenced) (RiskReferencedItems skipped_referenced) s;
          s = risk_when (0 < skipped_scope) (RiskScopeUnits skipped_scope) s
      in case verify_export w q p baseline current stop s of (status, verification, stop, s) \<Rightarrow>
        let s = risk_when (\<not> confirmed) RiskUnconfirmed s;
            s = risk_when (bt_get files ''Cargo.lock'' = None) RiskNoLockfile s;
            s = risk_when (current = []) RiskEmptySource s;
            package = build_proof w (mq_target q) current (ms_last_command s) p (status = Reproduced) verification
        in finish_reproducer w status q p package stop s)"

record candidate_tree =
  ct_files :: tree
  ct_truncated :: bool

definition reduce_failure ::
  "minimize_world \<Rightarrow> minimize_request \<Rightarrow> failure_predicate \<Rightarrow> string set \<Rightarrow> bool \<Rightarrow> tree \<Rightarrow> minimize_session \<Rightarrow> minimize_outcome" where
  "reduce_failure w q p baseline confirmed files s =
     (case search_rounds w (mq_budget q) p baseline (locate files p) (mq_reduction_scope q) files 0 0 s of
        SearchCancelled s \<Rightarrow> finish_cancelled w q p s
      | SearchUnavailable e s \<Rightarrow> finish_unavailable q (ReasonRun e)
      | SearchDone stop current referenced out_of_scope s \<Rightarrow>
          (case is_cancelled w s of
             (True, s) \<Rightarrow> finish_cancelled w q p s
           | (False, s) \<Rightarrow> publish w q p baseline confirmed files current stop referenced out_of_scope s))"

definition minimize ::
  "minimize_world \<Rightarrow> minimize_request \<Rightarrow> string + candidate_tree \<Rightarrow> minimize_outcome" where
  "minimize w q candidate =
     (if mw_cancelled w 0 then cancelled_outcome (mq_change_id q)
      else
        (case candidate of
           Inl reason \<Rightarrow> no_evidence_outcome q (ReasonTree reason)
         | Inr data \<Rightarrow>
             (case filter_diagnostics (mq_diagnostics q) (mq_diagnostic_ids q) of (filtered, unmatched) \<Rightarrow>
              if filtered = [] then
                no_evidence_outcome q (if unmatched = [] then ReasonNoDiagnostics else ReasonUnmatchedIds unmatched)
              else
                (case build_predicate (mw_lower w) filtered (mq_failure_predicate q) of
                   Inl e \<Rightarrow> no_evidence_outcome q (ReasonPredicate e)
                 | Inr p \<Rightarrow>
                     (case mw_scratch w of
                        Some e \<Rightarrow>
                          \<lparr>mo_status = MinimizeInconclusive, mo_is_error = True,
                           mo_data = base_data (mq_change_id q) StopScratchFailure (ReasonScratch e)\<rparr>
                      | None \<Rightarrow>
                          (case reproduce_failure w q p (ct_files data)
                                  (risk_when (ct_truncated data) RiskTruncatedCapture new_session) of
                             Inl outcome \<Rightarrow> outcome
                           | Inr (baseline, confirmed, s) \<Rightarrow>
                               reduce_failure w q p baseline confirmed (ct_files data) s))))))"

end
