(* ===== verification/Repair_Properties.thy ===== *)
theory Repair_Properties
  imports Repair_Minimize "HOL-Library.Code_Target_Nat"
begin

text \<open>
  What a minimization result means: a published tree only leaves bytes of the candidate out and was seen to
  reproduce the failure, a verified one also in a clean directory; a search that ran to its end left no planned
  unit that could be removed alone; and no outcome spends more than its budget.
\<close>

section \<open>The rounds\<close>

definition one_minimal ::
  "minimize_world \<Rightarrow> failure_predicate \<Rightarrow> string set \<Rightarrow> target_site \<Rightarrow> repair_reduction_scope \<Rightarrow> tree \<Rightarrow> bool" where
  "one_minimal w p baseline target scope tree \<longleftrightarrow>
     (\<forall>u \<in> set (pa_units (plan_units tree target scope)). unit_needed w p baseline tree u)"

text \<open>A budget that is used up stays used up.\<close>

definition spent :: "minimize_world \<Rightarrow> repair_budget \<Rightarrow> minimize_session \<Rightarrow> bool" where
  "spent w b s \<longleftrightarrow>
     rb_max_compiles b \<le> ms_compiles s \<or> rb_max_candidates b \<le> ms_attempts s \<or>
     (\<exists>t < ms_tick s. rb_wall_time_ms b < mw_elapsed_ms w t)"

lemma budget_stop_spent: "budget_stop w b s = (Some stop, s') \<Longrightarrow> spent w b s' \<and> stop \<noteq> Completed"
  by (auto simp: budget_stop_def spent_def tick_def split: if_splits)

lemma spent_budget_stop:
  assumes "spent w b s" and "mono (mw_elapsed_ms w)" and "ms_compiles s' = ms_compiles s"
    and "ms_attempts s' = ms_attempts s" and "ms_tick s \<le> ms_tick s'"
  shows "fst (budget_stop w b s') \<noteq> None"
proof -
  have "rb_wall_time_ms b < mw_elapsed_ms w (ms_tick s')"
    if "t < ms_tick s" "rb_wall_time_ms b < mw_elapsed_ms w t" for t
    using that assms(2,5) by (meson less_imp_le monoD order.strict_trans2 order_trans)
  with assms show ?thesis by (auto simp: spent_def budget_stop_def)
qed

definition published ::
  "minimize_world \<Rightarrow> failure_predicate \<Rightarrow> string set \<Rightarrow> tree \<Rightarrow> tree \<Rightarrow> bool" where
  "published w p baseline current final \<longleftrightarrow>
     reduces final current \<and> is_text final \<and>
     (final = current \<or> (\<exists>t. reproduces (mw_lower w) p baseline (mw_check w t TrialRoot final)))"

lemma published_refl: "bt_wf t \<Longrightarrow> is_text t \<Longrightarrow> published w p baseline t t"
  by (simp add: published_def reduces_refl)

lemma published_trans:
  "published w p baseline t0 t1 \<Longrightarrow> published w p baseline t1 t2 \<Longrightarrow> published w p baseline t0 t2"
  by (auto simp: published_def intro: reduces_trans)

lemma accepted_published:
  assumes "group_ok w b p baseline current s stack (GroupAccepted trial s')" and "bt_wf current" and "is_text current"
  shows "published w p baseline current trial \<and> bt_wf trial \<and> is_text trial"
  using assms apply_units_reduces apply_units_text
  by (fastforce simp: group_ok_def published_def reduces_def)

lemma plan_applies:
  "bt_wf tree \<Longrightarrow> is_text tree \<Longrightarrow> mset us \<subseteq># mset (pa_units (plan_units tree target scope)) \<Longrightarrow> apply_units tree us \<noteq> None"
  using group_applies is_text_get by blast

fun rounds_ok ::
  "minimize_world \<Rightarrow> repair_budget \<Rightarrow> failure_predicate \<Rightarrow> string set \<Rightarrow> target_site \<Rightarrow> repair_reduction_scope \<Rightarrow> tree \<Rightarrow>
   minimize_session \<Rightarrow> search_result \<Rightarrow> bool" where
  "rounds_ok w b p baseline target scope current s (SearchCancelled s') = advances b s s'"
| "rounds_ok w b p baseline target scope current s (SearchUnavailable e s') = advances b s s'"
| "rounds_ok w b p baseline target scope current s (SearchDone stop final skr sks s') =
     (advances b s s' \<and>
      (bt_wf current \<and> is_text current \<longrightarrow>
         published w p baseline current final \<and>
         (if stop = Completed then one_minimal w p baseline target scope final else spent w b s')))"

lemma rounds_ok_trans:
  assumes "rounds_ok w b p baseline target scope trial s' r" and "advances b s s'"
    and "bt_wf current \<and> is_text current \<longrightarrow> published w p baseline current trial \<and> bt_wf trial \<and> is_text trial"
  shows "rounds_ok w b p baseline target scope current s r"
  using assms by (cases r) (auto intro: advances_trans published_trans)

lemma search_rounds_ok:
  "rounds_ok w b p baseline target scope current s (search_rounds w b p baseline target scope current skr sks s)"
proof (induction w b p baseline target scope current skr sks s rule: search_rounds.induct)
  case (1 w b p baseline target scope current skr sks s)
  obtain c s1 where c: "is_cancelled w s = (c, s1)" by fastforce
  note s1 = is_cancelled_advances [OF c, of b]
  obtain st s2 where b: "budget_stop w b s1 = (st, s2)" by fastforce
  note s2 = advances_trans [OF s1 budget_stop_advances [OF b]]
  let ?plan = "pa_units (plan_units current target scope)"
  let ?r = "search_groups w b p baseline current s2 [?plan]"
  have ok: "group_ok w b p baseline current s2 [?plan] ?r" by (rule search_groups_ok)
  then have later: "advances b s (group_session ?r)" using s2 by (auto simp: group_ok_def intro: advances_trans)
  show ?case
  proof (cases "c \<or> st \<noteq> None \<or> ?plan = []")
    case True
    with c b s1 s2 show ?thesis
      by (subst search_rounds.simps)
        (auto simp: Let_def one_minimal_def published_refl dest: budget_stop_spent split: bool.splits option.splits)
  next
    case False
    then have cb: "is_cancelled w s = (False, s1)" "budget_stop w b s1 = (None, s2)" and ne: "?plan \<noteq> []" using c b by auto
    show ?thesis
    proof (cases ?r)
      case (GroupAccepted trial s3)
      note IH = "1.IH" [OF cb(1) [symmetric] _ cb(2) [symmetric] _ refl refl refl ne GroupAccepted]
      have "rounds_ok w b p baseline target scope current s
          (search_rounds w b p baseline target scope trial (skr + pa_referenced (plan_units current target scope))
            (sks + pa_scope (plan_units current target scope)) s3)"
        by (rule rounds_ok_trans [OF IH])
          (use later GroupAccepted accepted_published [OF ok [unfolded GroupAccepted]] in auto)
      with cb ne GroupAccepted show ?thesis by (subst search_rounds.simps) (simp add: Let_def)
    next
      case (GroupExhausted s3)
      then have "units_needed w p baseline current ?plan" using ok by (auto simp: group_ok_def)
      then have "bt_wf current \<and> is_text current \<longrightarrow> one_minimal w p baseline target scope current"
        using plan_applies by (auto simp: one_minimal_def units_needed_def)
      with cb ne GroupExhausted later show ?thesis by (subst search_rounds.simps) (simp add: Let_def published_refl)
    next
      case (GroupStopped stop s3)
      then obtain s0 where "budget_stop w b s0 = (Some stop, s3)" using ok by (auto simp: group_ok_def)
      with cb ne GroupStopped later budget_stop_spent show ?thesis
        by (subst search_rounds.simps) (auto simp: Let_def published_refl)
    qed (use cb ne later in \<open>(subst search_rounds.simps, simp add: Let_def)+\<close>)
  qed
qed

section \<open>Before and after the search\<close>

lemma risk_simps [simp]:
  "ms_compiles (risk_when c r s) = ms_compiles s" "ms_attempts (risk_when c r s) = ms_attempts s"
  "ms_reductions (risk_when c r s) = ms_reductions s" "ms_tick (risk_when c r s) = ms_tick s"
  "ms_compiles (push_risk r s) = ms_compiles s" "ms_attempts (push_risk r s) = ms_attempts s"
  "ms_reductions (push_risk r s) = ms_reductions s" "ms_tick (push_risk r s) = ms_tick s"
  by (simp_all add: risk_when_def push_risk_def)

definition outcome_within :: "repair_budget \<Rightarrow> minimize_outcome \<Rightarrow> bool" where
  "outcome_within b out =
     (length (rd_reductions (mo_data out)) \<le> MAX_REDUCTIONS \<and>
      (case rd_budget (mo_data out) of
         None \<Rightarrow> True
       | Some d \<Rightarrow> bd_compiles_used d \<le> max 1 (rb_max_compiles b) \<and> bd_candidates_used d \<le> rb_max_candidates b))"

lemma finish_within [simp]:
  "outcome_within b (no_evidence_outcome q reason)" "outcome_within b (cancelled_outcome cid)"
  "outcome_within b (finish_unavailable q reason)"
  "outcome_within b \<lparr>mo_status = status, mo_is_error = err, mo_data = base_data cid stop reason\<rparr>"
  by (simp_all add: outcome_within_def no_evidence_outcome_def cancelled_outcome_def finish_unavailable_def base_data_def)

lemma finish_status [simp]:
  "mo_status (finish_not_reproduced w q stop reason run p s) = NotReproduced"
  "mo_status (finish_unavailable q reason) = NotReproduced"
  "mo_status (finish_cancelled w q p s) = MinimizeCancelled"
  "mo_status (finish_reproducer w status q p package stop s) = status"
  "mo_status (no_evidence_outcome q reason) = NoEvidence"
  "mo_status (cancelled_outcome cid) = MinimizeCancelled"
  by (simp_all add: finish_not_reproduced_def finish_unavailable_def finish_cancelled_def finish_reproducer_def
      no_evidence_outcome_def cancelled_outcome_def Let_def)

lemma finish_not_reproduced_within:
  "within b s \<Longrightarrow> outcome_within b (finish_not_reproduced w q stop reason run p s)"
  by (simp add: outcome_within_def finish_not_reproduced_def base_data_def budget_data_def within_def Let_def)

lemma finish_cancelled_within: "within b s \<Longrightarrow> outcome_within b (finish_cancelled w q p s)"
  by (simp add: outcome_within_def finish_cancelled_def base_data_def budget_data_def within_def)

lemma finish_reproducer_within: "within b s \<Longrightarrow> outcome_within b (finish_reproducer w status q p package stop s)"
  by (simp add: outcome_within_def finish_reproducer_def budget_data_def within_def Let_def)

lemma within_new: "within b (risk_when c r new_session)"
  by (simp add: within_def new_session_def)

lemma confirm_failure_ok:
  assumes "within (mq_budget q) s"
  shows "case confirm_failure w q p baseline files s of
      Inl out \<Rightarrow> outcome_within (mq_budget q) out \<and> mo_status out = NotReproduced
    | Inr (confirmed, s') \<Rightarrow> within (mq_budget q) s'"
proof (cases "can_compile (mq_budget q) s")
  case True
  obtain r s1 where r: "run_tree w TrialRoot files s = (r, s1)" by fastforce
  with run_tree_advances [OF r, of "mq_budget q"] True assms have "within (mq_budget q) s1"
    by (auto simp: advances_def can_compile_def)
  with True r show ?thesis
    by (auto simp: confirm_failure_def Let_def finish_not_reproduced_within split: sum.splits)
next
  case False
  with assms show ?thesis by (simp add: confirm_failure_def within_def)
qed

lemma reproduce_failure_ok:
  assumes "within (mq_budget q) s" and "ms_compiles s = 0"
  shows "case reproduce_failure w q p files s of
      Inl out \<Rightarrow> outcome_within (mq_budget q) out \<and> mo_status out = NotReproduced
    | Inr (baseline, confirmed, s') \<Rightarrow> within (mq_budget q) s' \<and>
        (\<exists>t. baseline = signatures (mw_lower w) (mw_check w t TrialRoot files) \<and>
             reproduces (mw_lower w) p baseline (mw_check w t TrialRoot files))"
proof -
  obtain r s1 where r: "run_tree w TrialRoot files s = (r, s1)" by fastforce
  with run_tree_advances [OF r, of "mq_budget q"] assms have s1: "within (mq_budget q) s1"
    by (simp add: advances_def)
  show ?thesis
  proof (cases r)
    case (Inl e)
    with r show ?thesis by (simp add: reproduce_failure_def)
  next
    case (Inr run)
    let ?baseline = "signatures (mw_lower w) run"
    have run: "run = mw_check w (ms_tick s) TrialRoot files" using r Inr run_tree_Inr by simp
    show ?thesis
    proof (cases "en_matched (evaluate_run (mw_lower w) p ?baseline run)")
      case True
      then have "reproduces (mw_lower w) p ?baseline run" by (simp add: evaluate_matched)
      with True r Inr confirm_failure_ok [OF s1, of w p ?baseline files] run show ?thesis
        by (auto simp: reproduce_failure_def Let_def split: sum.splits)
    next
      case False
      with r Inr s1 show ?thesis
        by (simp add: reproduce_failure_def Let_def finish_not_reproduced_within)
    qed
  qed
qed

lemma verify_export_ok:
  assumes "verify_export w q p baseline current stop s = (status, verification, stop', s')" and "within (mq_budget q) s"
  shows "within (mq_budget q) s'"
    and "status = Reproduced \<Longrightarrow> stop' = stop \<and> fst (budget_stop w (mq_budget q) s) = None \<and>
      (\<exists>t. reproduces (mw_lower w) p baseline (mw_check w t ExportRoot current))"
proof -
  obtain st s1 where b: "budget_stop w (mq_budget q) s = (st, s1)" by fastforce
  note s1 = budget_stop_advances [OF b]
  obtain r s2 where r: "run_tree w ExportRoot current s1 = (r, s2)" by fastforce
  have s2: "st = None \<Longrightarrow> within (mq_budget q) s2"
    using run_tree_advances [OF r, of "mq_budget q"] budget_stop_None [of w "mq_budget q" s s1] b s1 assms(2)
    by (auto simp: advances_def)
  show "within (mq_budget q) s'"
    using assms b r s1 s2 by (auto simp: verify_export_def Let_def advances_def within_def
        split: option.splits sum.splits if_splits)
  show "stop' = stop \<and> fst (budget_stop w (mq_budget q) s) = None \<and>
      (\<exists>t. reproduces (mw_lower w) p baseline (mw_check w t ExportRoot current))" if "status = Reproduced"
    using assms(1) b r that evaluate_matched run_tree_Inr [of w ExportRoot current s1]
    by (auto simp: verify_export_def Let_def split: option.splits sum.splits if_splits)
qed

section \<open>The whole run\<close>

lemma publish_eq:
  obtains s1 status verification stop' s2 s3 where
    "verify_export w q p baseline current stop s1 = (status, verification, stop', s2)"
    "ms_compiles s1 = ms_compiles s" "ms_attempts s1 = ms_attempts s" "ms_tick s1 = ms_tick s"
    "within (mq_budget q) s1 \<longleftrightarrow> within (mq_budget q) s" "within (mq_budget q) s3 \<longleftrightarrow> within (mq_budget q) s2"
    "publish w q p baseline confirmed files current stop skr sks s =
      finish_reproducer w status q p
        (build_proof w (mq_target q) current (ms_last_command s3) p (status = Reproduced) verification) stop' s3"
proof -
  let ?s1 = "risk_when (0 < sks) (RiskScopeUnits sks) (risk_when (0 < skr) (RiskReferencedItems skr) s)"
  obtain status verification stop' s2 where v: "verify_export w q p baseline current stop ?s1 = (status, verification, stop', s2)"
    by (metis prod.exhaust)
  let ?s3 = "risk_when (current = []) RiskEmptySource
    (risk_when (bt_get files ''Cargo.lock'' = None) RiskNoLockfile (risk_when (\<not> confirmed) RiskUnconfirmed s2))"
  show thesis
    by (rule that [of ?s1 status verification stop' s2 ?s3]) (simp_all add: within_def publish_def v Let_def)
qed

text \<open>A run that reaches the search, and what it starts from.\<close>

definition selected_predicate :: "minimize_world \<Rightarrow> minimize_request \<Rightarrow> predicate_error + failure_predicate" where
  "selected_predicate w q =
     build_predicate (mw_lower w) (fst (filter_diagnostics (mq_diagnostics q) (mq_diagnostic_ids q))) (mq_failure_predicate q)"

lemma minimize_cases:
  obtains (early) "outcome_within (mq_budget q) (minimize w q c)"
      "mo_status (minimize w q c) \<notin> {Reproduced, BestKnownReproducer}"
    | (search) data p baseline confirmed s t where "c = Inr data" "selected_predicate w q = Inr p"
      "within (mq_budget q) s" "baseline = signatures (mw_lower w) (mw_check w t TrialRoot (ct_files data))"
      "reproduces (mw_lower w) p baseline (mw_check w t TrialRoot (ct_files data))"
      "minimize w q c = reduce_failure w q p baseline confirmed (ct_files data) s"
proof (cases "\<not> mw_cancelled w 0 \<and> (\<exists>data p. c = Inr data \<and> selected_predicate w q = Inr p \<and> mw_scratch w = None \<and>
    fst (filter_diagnostics (mq_diagnostics q) (mq_diagnostic_ids q)) \<noteq> [])")
  case True
  then obtain data p where d: "\<not> mw_cancelled w 0" "c = Inr data" "selected_predicate w q = Inr p" "mw_scratch w = None"
    "fst (filter_diagnostics (mq_diagnostics q) (mq_diagnostic_ids q)) \<noteq> []" by blast
  let ?r = "reproduce_failure w q p (ct_files data) (risk_when (ct_truncated data) RiskTruncatedCapture new_session)"
  have eq: "minimize w q c = (case ?r of Inl out \<Rightarrow> out
      | Inr (baseline, confirmed, s) \<Rightarrow> reduce_failure w q p baseline confirmed (ct_files data) s)"
    using d by (auto simp: minimize_def selected_predicate_def split: prod.splits)
  have rok: "case ?r of
      Inl out \<Rightarrow> outcome_within (mq_budget q) out \<and> mo_status out = NotReproduced
    | Inr (baseline, confirmed, s') \<Rightarrow> within (mq_budget q) s' \<and>
        (\<exists>t. baseline = signatures (mw_lower w) (mw_check w t TrialRoot (ct_files data)) \<and>
             reproduces (mw_lower w) p baseline (mw_check w t TrialRoot (ct_files data)))"
    by (rule reproduce_failure_ok) (simp_all add: within_new, simp add: new_session_def)
  show thesis
  proof (cases ?r)
    case (Inl out)
    with rok eq show thesis by (intro early) simp_all
  next
    case (Inr x)
    obtain baseline confirmed s where "x = (baseline, confirmed, s)" by (cases x)
    with Inr rok eq d(2,3) show thesis by (auto intro: search)
  qed
next
  case False
  then show thesis
    by (intro early) (auto simp: minimize_def selected_predicate_def split: sum.splits prod.splits option.splits)
qed

lemma reduce_failure_cases [consumes 1, case_names ended published]:
  assumes "within (mq_budget q) s"
  obtains "outcome_within (mq_budget q) (reduce_failure w q p baseline confirmed files s)"
      "mo_status (reduce_failure w q p baseline confirmed files s) \<notin> {Reproduced, BestKnownReproducer}"
    | stop final skr sks s' where "within (mq_budget q) s'"
      "bt_wf files \<and> is_text files \<longrightarrow> published w p baseline files final \<and>
        (if stop = Completed then one_minimal w p baseline (locate files p) (mq_reduction_scope q) final
         else spent w (mq_budget q) s')"
      "reduce_failure w q p baseline confirmed files s = publish w q p baseline confirmed files final stop skr sks (tick s')"
proof -
  let ?r = "search_rounds w (mq_budget q) p baseline (locate files p) (mq_reduction_scope q) files 0 0 s"
  have ok: "rounds_ok w (mq_budget q) p baseline (locate files p) (mq_reduction_scope q) files s ?r"
    by (rule search_rounds_ok)
  show thesis
  proof (cases ?r)
    case (SearchDone stop final skr sks s')
    with ok assms have s': "within (mq_budget q) s'" by (simp add: advances_def)
    then have "within (mq_budget q) (tick s')" by (simp add: within_def)
    show thesis
    proof (cases "mw_cancelled w (ms_tick s')")
      case True
      with SearchDone \<open>within (mq_budget q) (tick s')\<close> show thesis
        by (intro that(1)) (simp_all add: reduce_failure_def is_cancelled_def finish_cancelled_within)
    next
      case False
      with SearchDone ok s' show thesis
        by (intro that(2) [of s' final stop skr sks]) (simp_all add: reduce_failure_def is_cancelled_def)
    qed
  qed (use ok assms in \<open>auto intro!: that(1) simp: reduce_failure_def finish_cancelled_within advances_def\<close>)
qed

lemma publish_within:
  assumes "within (mq_budget q) s"
  shows "outcome_within (mq_budget q) (publish w q p baseline confirmed files current stop skr sks s)"
  by (rule publish_eq [of w q p baseline current stop s confirmed files skr sks])
    (use assms verify_export_ok(1) finish_reproducer_within in metis)

text \<open>
  C19: Whatever a minimization does, it reports at most as many Cargo runs as its compile budget (one when the
  budget is zero), at most as many tried candidates as its candidate budget, and at most 64 reductions.
\<close>

theorem minimize_within_budget: "outcome_within (mq_budget q) (minimize w q candidate)"
proof (cases rule: minimize_cases [of q w candidate])
  case (search data p baseline confirmed s t)
  from search(3) show ?thesis
  proof (cases rule: reduce_failure_cases [where w = w and p = p and baseline = baseline and confirmed = confirmed
        and files = "ct_files data"])
    case (published stop final skr sks s')
    then have "within (mq_budget q) (tick s')" by (simp add: within_def)
    with published(3) search(6) show ?thesis by (simp add: publish_within)
  qed (use search(6) in simp)
qed

lemma publish_reproduced:
  assumes "mo_status (publish w q p baseline confirmed files current stop skr sks s) = Reproduced"
    and "within (mq_budget q) s"
  obtains t s1 command verification where
    "reproduces (mw_lower w) p baseline (mw_check w t ExportRoot current)"
    "fst (budget_stop w (mq_budget q) s1) = None" "ms_compiles s1 = ms_compiles s" "ms_attempts s1 = ms_attempts s"
    "ms_tick s1 = ms_tick s"
    "rd_proof (mo_data (publish w q p baseline confirmed files current stop skr sks s)) =
      Some (build_proof w (mq_target q) current command p True verification)"
    "rd_stop_reason (mo_data (publish w q p baseline confirmed files current stop skr sks s)) = stop"
proof (rule publish_eq [of w q p baseline current stop s confirmed files skr sks])
  fix s1 status verification stop' s2 s3
  assume v: "verify_export w q p baseline current stop s1 = (status, verification, stop', s2)"
    and s1: "ms_compiles s1 = ms_compiles s" "ms_attempts s1 = ms_attempts s" "ms_tick s1 = ms_tick s"
    "within (mq_budget q) s1 = within (mq_budget q) s"
    and eq: "publish w q p baseline confirmed files current stop skr sks s =
      finish_reproducer w status q p
        (build_proof w (mq_target q) current (ms_last_command s3) p (status = Reproduced) verification) stop' s3"
  from eq assms(1) have "status = Reproduced" by simp
  with verify_export_ok(2) [OF v] s1(4) assms(2) obtain t where
    t: "stop' = stop" "fst (budget_stop w (mq_budget q) s1) = None"
      "reproduces (mw_lower w) p baseline (mw_check w t ExportRoot current)" by auto
  show thesis
    using that [OF t(3,2) s1(1-3)] eq t(1) \<open>status = Reproduced\<close> by (simp add: finish_reproducer_def Let_def)
qed

lemma minimize_reproduced:
  assumes "mo_status (minimize w q (Inr data)) = Reproduced" and "bt_wf (ct_files data)" and "is_text (ct_files data)"
  obtains p t t' final command verification stop where "selected_predicate w q = Inr p"
    "reproduces (mw_lower w) p (signatures (mw_lower w) (mw_check w t TrialRoot (ct_files data)))
       (mw_check w t TrialRoot (ct_files data))"
    "reduces final (ct_files data)"
    "reproduces (mw_lower w) p (signatures (mw_lower w) (mw_check w t TrialRoot (ct_files data)))
       (mw_check w t' ExportRoot final)"
    "rd_proof (mo_data (minimize w q (Inr data))) =
       Some (build_proof w (mq_target q) final command p True verification)"
    "rd_stop_reason (mo_data (minimize w q (Inr data))) = stop"
    "mono (mw_elapsed_ms w) \<Longrightarrow> stop = Completed"
    "stop = Completed \<Longrightarrow> one_minimal w p (signatures (mw_lower w) (mw_check w t TrialRoot (ct_files data)))
       (locate (ct_files data) p) (mq_reduction_scope q) final"
proof (cases rule: minimize_cases [of q w "Inr data"])
  case (search data' p baseline confirmed s t)
  then have d: "data' = data" by simp
  from search(3) show thesis
  proof (cases rule: reduce_failure_cases [where w = w and p = p and baseline = baseline and confirmed = confirmed
        and files = "ct_files data"])
    case ended
    with assms(1) search(6) d show thesis by simp
  next
    case (published stop final skr sks s')
    have eq: "minimize w q (Inr data) = publish w q p baseline confirmed (ct_files data) final stop skr sks (tick s')"
      using published(3) search(6) d by simp
    from published(1) have "within (mq_budget q) (tick s')" by (simp add: within_def)
    from assms(1) [unfolded eq] this obtain t' s1 command verification where
      y: "reproduces (mw_lower w) p baseline (mw_check w t' ExportRoot final)"
      "fst (budget_stop w (mq_budget q) s1) = None" "ms_compiles s1 = ms_compiles (tick s')"
      "ms_attempts s1 = ms_attempts (tick s')" "ms_tick s1 = ms_tick (tick s')"
      "rd_proof (mo_data (minimize w q (Inr data))) = Some (build_proof w (mq_target q) final command p True verification)"
      "rd_stop_reason (mo_data (minimize w q (Inr data))) = stop"
      unfolding eq by (rule publish_reproduced)
    have x: "ms_compiles s1 = ms_compiles s'" "ms_attempts s1 = ms_attempts s'" "ms_tick s' \<le> ms_tick s1"
      using y(3-5) by (simp_all add: tick_def)
    have pub: "published w p baseline (ct_files data) final"
      "if stop = Completed then one_minimal w p baseline (locate (ct_files data) p) (mq_reduction_scope q) final
       else spent w (mq_budget q) s'" using published(2) assms(2,3) by auto
    have complete: "mono (mw_elapsed_ms w) \<Longrightarrow> stop = Completed"
      using pub(2) spent_budget_stop [of w "mq_budget q" s' s1] y(2) x by (auto split: if_splits)
    show thesis
      by (rule that [of p t final t' command verification stop])
        (use search(2,4,5) d y(1,6,7) pub complete in \<open>auto simp: published_def\<close>)
  qed
qed (use assms(1) in auto)

text \<open>
  C17: A minimization that reports a reproduced failure is sound: the unchanged candidate reproduced the selected
  failure, the published package is built from a tree that only leaves bytes of the candidate out, and a run of
  exactly that tree in the clean export directory reproduced the failure with no error signature the candidate
  did not have.
\<close>

theorem minimize_reproduced_sound:
  assumes "mo_status (minimize w q (Inr data)) = Reproduced" and "bt_wf (ct_files data)" and "is_text (ct_files data)"
  shows "\<exists>p t t' final command verification.
    selected_predicate w q = Inr p \<and>
    (let baseline = signatures (mw_lower w) (mw_check w t TrialRoot (ct_files data)) in
       reproduces (mw_lower w) p baseline (mw_check w t TrialRoot (ct_files data)) \<and>
       reduces final (ct_files data) \<and>
       reproduces (mw_lower w) p baseline (mw_check w t' ExportRoot final)) \<and>
    rd_proof (mo_data (minimize w q (Inr data))) =
      Some (build_proof w (mq_target q) final command p True verification)"
  using minimize_reproduced [OF assms] by (metis (no_types, lifting))

text \<open>
  C18: When the clock does not run backwards, a reproduced failure was searched to the end. With the predicate that was
  selected from the diagnostics and the error signatures of the run that reproduced it on the unchanged candidate: the
  published tree only leaves bytes of the candidate out, and of the units the planner still offers in it, each one
  was removed alone and a run of what remained did not reproduce the failure.
\<close>

theorem minimize_reproduced_minimal:
  assumes "mo_status (minimize w q (Inr data)) = Reproduced" and "bt_wf (ct_files data)" and "is_text (ct_files data)"
    and "mono (mw_elapsed_ms w)"
  shows "\<exists>p t final command verification.
    selected_predicate w q = Inr p \<and> reduces final (ct_files data) \<and>
    rd_proof (mo_data (minimize w q (Inr data))) = Some (build_proof w (mq_target q) final command p True verification) \<and>
    rd_stop_reason (mo_data (minimize w q (Inr data))) = Completed \<and>
    (let baseline = signatures (mw_lower w) (mw_check w t TrialRoot (ct_files data)) in
       reproduces (mw_lower w) p baseline (mw_check w t TrialRoot (ct_files data)) \<and>
       one_minimal w p baseline (locate (ct_files data) p) (mq_reduction_scope q) final)"
  by (rule minimize_reproduced [OF assms(1-3)]) (use assms(4) in \<open>simp add: Let_def, blast\<close>)

section \<open>Planned groups\<close>

text \<open>
  C20: Every group the minimizer may form from a plan can be applied: whatever text the scanner found the units in,
  their ranges are disjoint and cut at character boundaries, and the tree that results is again text and only
  leaves bytes out.
\<close>

theorem planned_group_applies:
  assumes "bt_wf tree" and "is_text tree" and "mset us \<subseteq># mset (pa_units (plan_units tree target scope))"
  shows "\<exists>tree'. apply_units tree us = Some tree' \<and> reduces tree' tree \<and> is_text tree'"
  using plan_applies [OF assms] apply_units_reduces [OF _ assms(1)] apply_units_text [OF _ assms(2)] by blast

section \<open>Examples\<close>

definition example_tree :: tree where
  "example_tree = [(''a.rs'', ''fn f; use x;''), (''b'', ''t'')]"

definition example_target :: target_site where
  "example_target = \<lparr>ts_file = ''b'', ts_anchor = None\<rparr>"

lemma example_tree_ok: "bt_wf example_tree" "is_text example_tree"
  by code_simp+

theorem planned_group_applies_witness:
  "length (pa_units (plan_units example_tree example_target ScopeAll)) = 3 \<and>
   (\<exists>tree'. apply_units example_tree (pa_units (plan_units example_tree example_target ScopeAll)) = Some tree' \<and>
     reduces tree' example_tree \<and> is_text tree')"
proof (rule conjI)
  show "length (pa_units (plan_units example_tree example_target ScopeAll)) = 3" by code_simp
  show "\<exists>tree'. apply_units example_tree (pa_units (plan_units example_tree example_target ScopeAll)) = Some tree' \<and>
     reduces tree' example_tree \<and> is_text tree'"
    using example_tree_ok by (rule planned_group_applies [where target = example_target and scope = ScopeAll]) simp
qed

definition example_world :: minimize_world where
  "example_world =
     \<lparr>mw_lower = (\<lambda>s. s), mw_sha256 = (\<lambda>s. s), mw_scratch = None, mw_clear_root = (\<lambda>t root. None),
      mw_write_file = (\<lambda>t root f c. None), mw_guard = (\<lambda>t root. None),
      mw_check = (\<lambda>t root tree. \<lparr>tr_status = GFail, tr_total_ms = 1,
        tr_diagnostics = (if bt_get tree ''b'' = None then [] else
          [\<lparr>od_code = Some ''E1'', od_level = ''error'', od_file = Some ''b'', od_message = ''m''\<rparr>]),
        tr_diagnostics_omitted = 0, tr_command = ''cargo check'', tr_message = []\<rparr>),
      mw_cancelled = (\<lambda>t. False), mw_elapsed_ms = (\<lambda>t. 0)\<rparr>"

definition example_request :: minimize_request where
  "example_request =
     \<lparr>mq_change_id = ''c'', mq_diagnostic_ids = [], mq_failure_predicate = None, mq_reduction_scope = ScopeFiles,
      mq_budget = \<lparr>rb_max_candidates = 3, rb_max_compiles = 5, rb_wall_time_ms = 1\<rparr>,
      mq_diagnostics = [\<lparr>dg_code = Some ''E1'', dg_level = ''error'', dg_file = Some ''b'', dg_line = None, dg_message = ''m''\<rparr>],
      mq_target = TCheck\<rparr>"

definition example_data :: candidate_tree where
  "example_data = \<lparr>ct_files = [(''a.rs'', ''fn f;''), (''b'', ''t'')], ct_truncated = False\<rparr>"

lemma example_reproduced: "mo_status (minimize example_world example_request (Inr example_data)) = Reproduced"
  by code_simp

lemma example_data_ok: "bt_wf (ct_files example_data)" "is_text (ct_files example_data)"
  by code_simp+

lemma example_clock: "mono (mw_elapsed_ms example_world)"
  by (simp add: example_world_def mono_def)

theorem minimize_reproduced_sound_witness:
  "\<exists>p t t' final command verification.
    selected_predicate example_world example_request = Inr p \<and>
    (let baseline = signatures (mw_lower example_world) (mw_check example_world t TrialRoot (ct_files example_data)) in
       reproduces (mw_lower example_world) p baseline (mw_check example_world t TrialRoot (ct_files example_data)) \<and>
       reduces final (ct_files example_data) \<and>
       reproduces (mw_lower example_world) p baseline (mw_check example_world t' ExportRoot final)) \<and>
    rd_proof (mo_data (minimize example_world example_request (Inr example_data))) =
      Some (build_proof example_world (mq_target example_request) final command p True verification)"
  using example_reproduced example_data_ok by (rule minimize_reproduced_sound)

theorem minimize_reproduced_minimal_witness:
  "\<exists>p t final command verification.
    selected_predicate example_world example_request = Inr p \<and> reduces final (ct_files example_data) \<and>
    rd_proof (mo_data (minimize example_world example_request (Inr example_data))) =
      Some (build_proof example_world (mq_target example_request) final command p True verification) \<and>
    rd_stop_reason (mo_data (minimize example_world example_request (Inr example_data))) = Completed \<and>
    (let baseline = signatures (mw_lower example_world) (mw_check example_world t TrialRoot (ct_files example_data)) in
       reproduces (mw_lower example_world) p baseline (mw_check example_world t TrialRoot (ct_files example_data)) \<and>
       one_minimal example_world p baseline (locate (ct_files example_data) p) (mq_reduction_scope example_request) final)"
  using example_reproduced example_data_ok example_clock by (rule minimize_reproduced_minimal)

end
