(* ===== verification/Stream_Decoder.thy ===== *)
theory Stream_Decoder
  imports Utf8
begin

text \<open>
  The streaming UTF-8 decoder of \<open>process/output.rs\<close> and the characters of the texts it produces: a stream
  may be cut into chunks anywhere, the decoded text is well-formed, and finishing replaces what was cut off.
\<close>

section \<open>Decoding a stream\<close>

text \<open>
  The first character of a byte string as \<open>std::str::from_utf8\<close> sees it: well-formed with its length,
  ill-formed with the number of bytes it covers, or cut off by the end of the string.
\<close>

datatype char_scan = GoodChar nat | BadChar nat | CutChar

fun match_tail :: "nat \<Rightarrow> (nat \<times> nat) list \<Rightarrow> string \<Rightarrow> char_scan" where
  "match_tail k [] s = GoodChar k"
| "match_tail k (b # bs) [] = CutChar"
| "match_tail k (b # bs) (d # s) = (if byte_in (fst b) (snd b) d then match_tail (Suc k) bs s else BadChar k)"

fun first_char :: "string \<Rightarrow> char_scan" where
  "first_char [] = CutChar"
| "first_char (c # s) = (case utf8_bounds c of None \<Rightarrow> BadChar 1 | Some bounds \<Rightarrow> match_tail 1 bounds s)"

record utf8_error =
  ue_valid_up_to :: nat
  ue_error_len :: "nat option"

lemma match_tail_size:
  "match_tail k bs s = GoodChar n \<Longrightarrow> k \<le> n \<and> n \<le> k + length s"
  "match_tail k bs s = BadChar n \<Longrightarrow> k \<le> n \<and> n \<le> k + length s"
  by (induction k bs s rule: match_tail.induct) (auto split: if_splits)

lemma first_char_size:
  "first_char s = GoodChar n \<Longrightarrow> 0 < n \<and> n \<le> length s"
  "first_char s = BadChar n \<Longrightarrow> 0 < n \<and> n \<le> length s"
  by (cases s; auto split: option.splits dest!: match_tail_size)+

function from_utf8 :: "nat \<Rightarrow> string \<Rightarrow> utf8_error option" where
  "from_utf8 pos s =
     (if s = [] then None
      else
        (case first_char s of
           GoodChar n \<Rightarrow> from_utf8 (pos + n) (drop n s)
         | BadChar n \<Rightarrow> Some \<lparr>ue_valid_up_to = pos, ue_error_len = Some n\<rparr>
         | CutChar \<Rightarrow> Some \<lparr>ue_valid_up_to = pos, ue_error_len = None\<rparr>))"
  by pat_completeness auto
termination
  by (relation "measure (\<lambda>(pos, s). length s)") (auto dest: first_char_size)

declare from_utf8.simps [simp del]

lemma from_utf8_error_len: "from_utf8 pos s = Some e \<Longrightarrow> ue_error_len e = Some n \<Longrightarrow> 0 < n \<and> s \<noteq> []"
proof (induction pos s rule: from_utf8.induct)
  case (1 pos s)
  from "1.prems"(1) have s: "s \<noteq> []" by (subst (asm) from_utf8.simps) (auto split: if_splits)
  show ?case
  proof (cases "first_char s")
    case (GoodChar k)
    with "1.prems" s have "from_utf8 (pos + k) (drop k s) = Some e" by (subst (asm) from_utf8.simps) simp
    with "1.IH" [OF s GoodChar] "1.prems"(2) s show ?thesis by blast
  next
    case (BadChar k)
    with "1.prems" s first_char_size show ?thesis by (subst (asm) from_utf8.simps) auto
  next
    case CutChar
    with "1.prems" s show ?thesis by (subst (asm) from_utf8.simps) auto
  qed
qed

definition replacement :: string where
  "replacement = [CHR 0xEF, CHR 0xBF, CHR 0xBD]"

text \<open>The loop of \<open>Utf8Decoder::push\<close>: the text it appends and the bytes it leaves pending.\<close>

function decode :: "string \<Rightarrow> string \<times> string" where
  "decode s =
     (if s = [] then ([], [])
      else
        (case from_utf8 0 s of
           None \<Rightarrow> (s, [])
         | Some e \<Rightarrow>
             let valid = take (ue_valid_up_to e) s; rest = drop (ue_valid_up_to e) s in
             (case ue_error_len e of
                None \<Rightarrow> (valid, rest)
              | Some n \<Rightarrow> (case decode (drop n rest) of (out, pending) \<Rightarrow> (valid @ replacement @ out, pending)))))"
  by pat_completeness auto
termination
  by (relation "measure length") (auto dest!: from_utf8_error_len)

declare decode.simps [simp del]

definition decoder_push :: "string \<Rightarrow> string \<Rightarrow> string \<times> string" where
  "decoder_push pending bytes = decode (pending @ bytes)"

text \<open>\<open>String::from_utf8_lossy\<close>: a sequence cut off at the end is replaced as well.\<close>

definition lossy :: "string \<Rightarrow> string" where
  "lossy s = (case decode s of (out, pending) \<Rightarrow> out @ (if pending = [] then [] else replacement))"

definition decoder_finish :: "string \<Rightarrow> string" where
  "decoder_finish pending = (if pending = [] then [] else lossy pending)"

lemma decode_Nil [simp]: "decode [] = ([], [])"
  by (subst decode.simps) simp

text \<open>The same, one character at a time.\<close>

lemma from_utf8_shift: "from_utf8 (m + pos) s = map_option (\<lambda>e. e\<lparr>ue_valid_up_to := m + ue_valid_up_to e\<rparr>) (from_utf8 pos s)"
proof (induction pos s rule: from_utf8.induct)
  case (1 pos s)
  show ?case
    by (subst (1 2) from_utf8.simps) (auto split: char_scan.splits simp: 1 add.assoc)
qed

lemma decode_step:
  "decode s =
     (if s = [] then ([], [])
      else
        (case first_char s of
           GoodChar n \<Rightarrow> (case decode (drop n s) of (out, pending) \<Rightarrow> (take n s @ out, pending))
         | BadChar n \<Rightarrow> (case decode (drop n s) of (out, pending) \<Rightarrow> (replacement @ out, pending))
         | CutChar \<Rightarrow> ([], s)))"
proof (cases "s = [] \<or> (\<forall>n. first_char s \<noteq> GoodChar n)")
  case True
  then show ?thesis
    by (subst decode.simps, subst from_utf8.simps) (auto split: char_scan.splits prod.splits)
next
  case False
  then obtain n where n: "first_char s = GoodChar n" "s \<noteq> []" by auto
  have eq: "from_utf8 0 s = map_option (\<lambda>e. e\<lparr>ue_valid_up_to := n + ue_valid_up_to e\<rparr>) (from_utf8 0 (drop n s))"
    using n from_utf8_shift [of n 0 "drop n s"] by (subst from_utf8.simps) simp
  show ?thesis
  proof (cases "drop n s = []")
    case True
    then have "from_utf8 0 (drop n s) = None" by (subst from_utf8.simps) simp
    with n eq True show ?thesis
      by (subst decode.simps) simp
  next
    case nonempty: False
    show ?thesis
    proof (cases "from_utf8 0 (drop n s)")
      case None
      with n eq nonempty show ?thesis by (subst decode.simps, subst (2) decode.simps) simp
    next
      case (Some e)
      with n eq nonempty show ?thesis
        by (subst decode.simps, subst (2) decode.simps)
          (auto simp: Let_def take_add ac_simps split: option.splits prod.splits)
    qed
  qed
qed

lemma match_tail_append:
  "match_tail k bs s = GoodChar n \<Longrightarrow> match_tail k bs (s @ t) = GoodChar n"
  "match_tail k bs s = BadChar n \<Longrightarrow> match_tail k bs (s @ t) = BadChar n"
  by (induction k bs s rule: match_tail.induct) (auto split: if_splits)

lemma first_char_append:
  "first_char s = GoodChar n \<Longrightarrow> first_char (s @ t) = GoodChar n"
  "first_char s = BadChar n \<Longrightarrow> first_char (s @ t) = BadChar n"
  by (cases s; auto split: option.splits intro: match_tail_append)+

text \<open>A stream may be cut anywhere: decoding goes on with the pending bytes.\<close>

lemma decode_append:
  "decode (s @ t) = (case decode s of (out, pending) \<Rightarrow> case decode (pending @ t) of (out', pending') \<Rightarrow> (out @ out', pending'))"
proof (induction s rule: length_induct)
  case (1 s)
  show ?case
  proof (cases "s = []")
    case False
    show ?thesis
    proof (cases "first_char s")
      case (GoodChar n)
      then have "first_char (s @ t) = GoodChar n" "n \<le> length s" "length (drop n s) < length s"
        using first_char_append first_char_size False by fastforce+
      with 1 GoodChar False show ?thesis
        by (subst decode_step, subst (2) decode_step) (auto split: prod.splits)
    next
      case (BadChar n)
      then have "first_char (s @ t) = BadChar n" "n \<le> length s" "length (drop n s) < length s"
        using first_char_append first_char_size False by fastforce+
      with 1 BadChar False show ?thesis
        by (subst decode_step, subst (2) decode_step) (auto split: prod.splits)
    next
      case CutChar
      with False show ?thesis by (subst (2) decode_step) (auto split: prod.splits)
    qed
  qed (simp split: prod.splits)
qed

lemma match_tail_good:
  "match_tail k bs s = GoodChar n \<Longrightarrow> n = k + length bs \<and> utf8_tail bs (take (length bs) s)"
  by (induction k bs s rule: match_tail.induct)
    (auto simp: utf8_tail_def split: if_splits prod.splits)

lemma first_char_good: "first_char s = GoodChar n \<Longrightarrow> from_utf8_ok (take n s)"
proof (cases s)
  case (Cons c s')
  assume "first_char s = GoodChar n"
  with Cons obtain bs where "utf8_bounds c = Some bs" "match_tail 1 bs s' = GoodChar n" by (auto split: option.splits)
  with match_tail_good [OF this(2)] Cons show ?thesis by simp
qed simp

lemma replacement_ok: "from_utf8_ok replacement"
  by code_simp

lemma decode_text: "from_utf8_ok (fst (decode s))"
proof (induction s rule: length_induct)
  case (1 s)
  have rest: "from_utf8_ok out" if "decode (drop n s) = (out, pending)" "0 < n" "s \<noteq> []" for n out pending
    using 1 that by (metis diff_less fst_conv length_drop length_greater_0_conv)
  show ?case
    using first_char_size [of s] first_char_good [of s] rest
    by (subst decode_step) (auto split: char_scan.splits prod.splits intro!: utf8_append simp: replacement_ok)
qed

lemma lossy_text: "from_utf8_ok (lossy s)"
  using decode_text [of s] replacement_ok by (auto simp: lossy_def split: prod.splits intro: utf8_append)

lemma decode_pending: "decode s = (out, pending) \<Longrightarrow> decode pending = ([], pending)"
proof (induction s arbitrary: out pending rule: length_induct)
  case (1 s)
  show ?case
  proof (cases "s = [] \<or> first_char s = CutChar")
    case True
    with "1.prems" show ?thesis by (subst (asm) decode_step, subst decode_step) (auto split: if_splits)
  next
    case False
    then obtain n where n: "first_char s = GoodChar n \<or> first_char s = BadChar n" "s \<noteq> []" by (cases "first_char s") auto
    then have "length (drop n s) < length s" using first_char_size [of s n] by auto
    moreover from n "1.prems" obtain out' where "decode (drop n s) = (out', pending)"
      by (subst (asm) decode_step) (auto split: prod.splits)
    ultimately show ?thesis using "1.IH" by blast
  qed
qed

text \<open>Decoding chunk by chunk and then finishing is decoding the whole stream at once.\<close>

lemma decoder_finish_eq: "decode s = (out, pending) \<Longrightarrow> out @ decoder_finish pending = lossy s"
  using decode_pending [of s out pending] by (simp add: decoder_finish_def lossy_def)

section \<open>Characters of a text\<close>

lemma utf8_tail_take:
  assumes "utf8_tail bs s"
  shows "utf8_tail bs (take (length bs) s)"
proof -
  have "zip bs (take (length bs) s) = zip bs s" using assms by (intro nth_equalityI) (auto simp: utf8_tail_def)
  with assms show ?thesis by (simp add: utf8_tail_def)
qed

definition starts_char :: "string \<Rightarrow> bool" where
  "starts_char s \<longleftrightarrow> s = [] \<or> \<not> is_cont (hd s)"

lemma utf8_starts_char: "from_utf8_ok s \<Longrightarrow> starts_char s"
  by (cases s) (auto simp: starts_char_def dest: utf8_bounds_lead)

lemma takeWhile_cont:
  assumes "list_all is_cont p" and "starts_char q"
  shows "takeWhile is_cont (p @ q) = p" and "dropWhile is_cont (p @ q) = q"
  using assms by (induction p) (auto simp: starts_char_def, (cases q; simp)+)

lemma chars_append: "starts_char t \<Longrightarrow> chars (s @ t) = chars s @ chars t"
proof (induction s rule: chars.induct)
  case (2 c s)
  show ?case
  proof (cases "list_all is_cont s")
    case True
    then have "dropWhile is_cont s = []" "takeWhile is_cont s = s" by (auto simp: list_all_iff takeWhile_eq_all_conv)
    with takeWhile_cont [OF True "2.prems"] show ?thesis by (simp del: dropWhile_eq_Nil_conv takeWhile_eq_all_conv)
  next
    case False
    then obtain d where "d \<in> set s" "\<not> is_cont d" by (auto simp: list_all_iff)
    with 2 show ?thesis by (simp add: takeWhile_append1 dropWhile_append1)
  qed
qed simp

lemma utf8_chars: "from_utf8_ok s \<Longrightarrow> ch \<in> set (chars s) \<Longrightarrow> from_utf8_ok ch"
proof (induction s rule: from_utf8_ok.induct)
  case (2 c s)
  from "2.prems"(1) obtain bounds where b: "utf8_bounds c = Some bounds" "utf8_tail bounds s"
    "from_utf8_ok (drop (length bounds) s)" by (auto split: option.splits)
  let ?n = "length bounds"
  have "list_all is_cont (take ?n s)"
    using utf8_bounds_cont [OF b(1,2)] by (simp add: list_all_length)
  note cut = takeWhile_cont [OF this utf8_starts_char [OF b(3)], unfolded append_take_drop_id]
  have "from_utf8_ok (c # take ?n s)" using b utf8_tail_take [OF b(2)] by simp
  with "2.prems"(2) cut "2.IH" [OF b(1,3)] show ?case by auto
qed simp

lemma utf8_concat: "(\<And>x. x \<in> set xs \<Longrightarrow> from_utf8_ok x) \<Longrightarrow> from_utf8_ok (concat xs)"
  by (induction xs) (auto intro: utf8_append)

end
