(* ===== verification/Process_Output.thy ===== *)
theory Process_Output
  imports Stream_Decoder
begin

text \<open>
  The output of a child process (\<open>process/output.rs\<close>): the terminal sanitizer, the bounded tail buffers and
  the collector that combines them with the decoder. The callbacks of the caller and the elapsed time are
  arguments. Shown: whatever the sizes of the chunks and however the two streams interleave, the text kept of a
  stream is the tail of the sanitized, lossily decoded bytes of that stream.
\<close>

section \<open>Terminal escapes\<close>

datatype escape_state = EscNormal | EscEscape | EscCsi | EscOsc | EscOscEscape

definition is_control :: "string \<Rightarrow> bool" where
  "is_control ch =
     (case ch of
        [c] \<Rightarrow> (of_char c :: nat) \<le> 31 \<or> (of_char c :: nat) = 127
      | [c, d] \<Rightarrow> (of_char c :: nat) = 194 \<and> 128 \<le> (of_char d :: nat) \<and> (of_char d :: nat) \<le> 159
      | _ \<Rightarrow> False)"

definition csi_final :: "string \<Rightarrow> bool" where
  "csi_final ch = (case ch of [c] \<Rightarrow> 64 \<le> (of_char c :: nat) \<and> (of_char c :: nat) \<le> 126 | _ \<Rightarrow> False)"

abbreviation esc_char :: string where "esc_char \<equiv> [CHR 0x1B]"

definition layout_char :: "string \<Rightarrow> bool" where
  "layout_char ch \<longleftrightarrow> ch \<in> {[CHR 0x0A], [CHR 0x0D], [CHR 0x09]}"

text \<open>One character: what is kept of it and the next state.\<close>

fun sanitize_char :: "escape_state \<Rightarrow> string \<Rightarrow> string \<times> escape_state" where
  "sanitize_char EscNormal ch =
     (if ch = esc_char then ([], EscEscape)
      else if layout_char ch then (ch, EscNormal)
      else if is_control ch then ([], EscNormal)
      else (ch, EscNormal))"
| "sanitize_char EscEscape ch =
     ([], if ch = ''['' then EscCsi else if ch = '']'' then EscOsc else EscNormal)"
| "sanitize_char EscCsi ch = ([], if csi_final ch then EscNormal else EscCsi)"
| "sanitize_char EscOsc ch =
     ([], if ch = [CHR 0x07] then EscNormal else if ch = esc_char then EscOscEscape else EscOsc)"
| "sanitize_char EscOscEscape ch =
     ([], if ch = [CHR 0x5C] then EscNormal else if ch = esc_char then EscOscEscape else EscOsc)"

fun sanitize :: "escape_state \<Rightarrow> string list \<Rightarrow> string list \<times> escape_state" where
  "sanitize st [] = ([], st)"
| "sanitize st (ch # chs) =
     (case sanitize_char st ch of (kept, st') \<Rightarrow> case sanitize st' chs of (out, st'') \<Rightarrow> (kept # out, st''))"

definition sanitizer_push :: "escape_state \<Rightarrow> string \<Rightarrow> string \<times> escape_state" where
  "sanitizer_push st text_in = (case sanitize st (chars text_in) of (out, st') \<Rightarrow> (concat out, st'))"

definition sanitize_terminal_text :: "string \<Rightarrow> string" where
  "sanitize_terminal_text s = fst (sanitizer_push EscNormal s)"

lemma sanitize_append:
  "sanitize st (xs @ ys) =
     (case sanitize st xs of (out, st') \<Rightarrow> case sanitize st' ys of (out', st'') \<Rightarrow> (out @ out', st''))"
  by (induction xs arbitrary: st) (auto split: prod.splits)

lemma sanitizer_push_append:
  assumes "starts_char t"
  shows "sanitizer_push st (s @ t) =
    (case sanitizer_push st s of (out, st') \<Rightarrow> case sanitizer_push st' t of (out', st'') \<Rightarrow> (out @ out', st''))"
  using assms by (auto simp: sanitizer_push_def chars_append sanitize_append split: prod.splits)

lemma sanitize_keeps: "x \<in> set (fst (sanitize st chs)) \<Longrightarrow> x = [] \<or> (x \<in> set chs \<and> (layout_char x \<or> \<not> is_control x \<and> x \<noteq> esc_char))"
proof (induction st chs rule: sanitize.induct)
  case (2 st ch chs)
  then show ?case by (cases st) (auto split: prod.splits if_splits)
qed simp

lemma sanitizer_push_text: "from_utf8_ok s \<Longrightarrow> from_utf8_ok (fst (sanitizer_push st s))"
  using sanitize_keeps [of _ st "chars s"] utf8_chars [of s]
  by (auto simp: sanitizer_push_def split: prod.splits intro!: utf8_concat) (metis fst_conv from_utf8_ok.simps(1))

section \<open>Tail buffers\<close>

definition utf8_tail_bytes :: "string \<Rightarrow> nat \<Rightarrow> string" where
  "utf8_tail_bytes v max_bytes =
     (if length v \<le> max_bytes then v else dropWhile is_cont (drop (length v - max_bytes) v))"

record tail_buffer =
  tb_max_bytes :: nat
  tb_bytes :: string
  tb_truncated :: bool

definition tail_new :: "nat \<Rightarrow> tail_buffer" where
  "tail_new max_bytes = \<lparr>tb_max_bytes = max_bytes, tb_bytes = [], tb_truncated = False\<rparr>"

definition tail_push :: "tail_buffer \<Rightarrow> string \<Rightarrow> tail_buffer" where
  "tail_push b bytes =
     (if bytes = [] then b
      else if tb_max_bytes b = 0 then b\<lparr>tb_truncated := True, tb_bytes := []\<rparr>
      else
        let b = (if tb_max_bytes b < length (tb_bytes b) + length bytes then b\<lparr>tb_truncated := True\<rparr> else b);
            all = tb_bytes b @ bytes
        in b\<lparr>tb_bytes := (if tb_max_bytes b < length all then utf8_tail_bytes all (tb_max_bytes b) else all)\<rparr>)"

lemma length_utf8_tail: "length (utf8_tail_bytes v m) \<le> m"
  unfolding utf8_tail_bytes_def
  using length_dropWhile_le [of is_cont "drop (length v - m) v"] by auto

lemma utf8_tail_ok: "from_utf8_ok v \<Longrightarrow> from_utf8_ok (utf8_tail_bytes v m)"
proof -
  assume v: "from_utf8_ok v"
  let ?d = "drop (length v - m) v"
  let ?k = "length (takeWhile is_cont ?d) + (length v - m)"
  have eq: "dropWhile is_cont ?d = drop ?k v" by (simp add: dropWhile_eq_drop)
  have "is_char_boundary v ?k"
  proof (cases "?k < length v")
    case True
    then have "\<not> is_cont (?d ! length (takeWhile is_cont ?d))" by (intro nth_length_takeWhile) simp
    with True show ?thesis by (simp add: is_char_boundary_def add.commute)
  next
    case False
    then have "?k = length v" using length_takeWhile_le [of is_cont ?d] by simp
    then show ?thesis by simp
  qed
  with utf8_split [OF v] eq show ?thesis by (auto simp: utf8_tail_bytes_def v)
qed

text \<open>The tail of a tail is the tail of the whole.\<close>

lemma utf8_tail_append:
  assumes "starts_char y"
  shows "utf8_tail_bytes (utf8_tail_bytes x m @ y) m = utf8_tail_bytes (x @ y) m"
proof (cases "length x \<le> m")
  case False
  let ?x = "drop (length x - m) x"
  let ?p = "takeWhile is_cont ?x" and ?t = "dropWhile is_cont ?x"
  have x: "?x = ?p @ ?t" by simp
  have len: "length ?x = m" "length ?p + length ?t = m"
    using False x by (simp_all, metis diff_diff_cancel length_append length_drop linorder_not_le nat_less_le)
  have "drop (length x + length y - m) (x @ y) = drop (length y) (drop (length x - m) (x @ y))"
    using False by (simp only: drop_drop) (simp add: add.commute)
  also have "\<dots> = drop (length y) (?x @ y)" using False by (simp only: drop_append) simp
  also have "\<dots> = drop (length y) (?p @ ?t @ y)" by (simp only: append_assoc [symmetric] takeWhile_dropWhile_id)
  finally have tail: "drop (length x + length y - m) (x @ y) = drop (length y) (?p @ ?t @ y)" .
  have start: "starts_char (?t @ y)"
    using assms hd_dropWhile [of is_cont ?x] by (auto simp: starts_char_def hd_append)
  have whole: "utf8_tail_bytes (x @ y) m = dropWhile is_cont (drop (length y) (?p @ ?t @ y))"
    using False tail by (simp add: utf8_tail_bytes_def)
  show ?thesis
  proof (cases "length y \<le> length ?p")
    case True
    then have "list_all is_cont (drop (length y) ?p)" by (auto simp: list_all_iff dest: in_set_dropD set_takeWhileD)
    with True whole takeWhile_cont(2) [OF _ start] len(2) False show ?thesis
      by (simp add: utf8_tail_bytes_def)
  next
    case longer: False
    have "length y - length ?p = length ?t + length y - m" using len(2) by arith
    moreover have "drop (length y) (?p @ ?t @ y) = drop (length y - length ?p) (?t @ y)"
      using longer by (simp only: drop_append) simp
    ultimately have "drop (length y) (?p @ ?t @ y) = drop (length ?t + length y - m) (?t @ y)" by simp
    with longer whole len(2) False show ?thesis by (simp add: utf8_tail_bytes_def)
  qed
qed (simp add: utf8_tail_bytes_def)

text \<open>A buffer that has received a text.\<close>

definition tail_of :: "nat \<Rightarrow> string \<Rightarrow> tail_buffer" where
  "tail_of m s = \<lparr>tb_max_bytes = m, tb_bytes = utf8_tail_bytes s m, tb_truncated = (m < length s)\<rparr>"

lemma tail_new_of: "tail_new m = tail_of m []"
  by (simp add: tail_new_def tail_of_def utf8_tail_bytes_def)

lemma tail_push_of:
  assumes "starts_char t"
  shows "tail_push (tail_of m s) t = tail_of m (s @ t)"
proof (cases "t = [] \<or> m = 0")
  case True
  then show ?thesis
    using length_utf8_tail [of "s @ t" 0] length_utf8_tail [of s 0]
    by (auto simp: tail_push_def tail_of_def Let_def)
next
  case False
  have keep: "utf8_tail_bytes (s @ t) m = utf8_tail_bytes s m @ t" if "length (utf8_tail_bytes s m @ t) \<le> m"
    using utf8_tail_append [OF assms, of s m] that by (simp add: utf8_tail_bytes_def [of "utf8_tail_bytes s m @ t"])
  have "length (utf8_tail_bytes s m) = length s" if "length s \<le> m" using that by (simp add: utf8_tail_bytes_def)
  with False keep utf8_tail_append [OF assms, of s m] show ?thesis
    by (cases "length s \<le> m") (auto simp: tail_push_def tail_of_def Let_def)
qed

section \<open>The collector\<close>

datatype stream_kind = Stdout | Stderr

text \<open>What the collector keeps per stream: the decoder, the sanitizer and the tail.\<close>

record stream_state =
  ss_pending :: string
  ss_escape :: escape_state
  ss_tail :: tail_buffer

record output_collector =
  oc_max_bytes :: nat
  oc_combined :: tail_buffer
  oc_stdout :: stream_state
  oc_stderr :: stream_state
  oc_line_buffer :: string
  oc_raw_stdout :: "string option"
  oc_raw_stdout_truncated :: bool
  oc_first_diagnostic :: "nat option"
  oc_read_errors :: "(stream_kind \<times> string) list"

record output_callbacks =
  cb_line :: "(string \<Rightarrow> bool) option"
  cb_stdout :: "(string \<Rightarrow> bool) option"

record output_snapshot =
  os_output :: string
  os_stdout :: string
  os_stderr :: string
  os_raw_stdout :: "string option"
  os_output_truncated :: bool
  os_first_diagnostic :: "nat option"
  os_read_errors :: "(stream_kind \<times> string) list"

definition stream_new :: "nat \<Rightarrow> stream_state" where
  "stream_new m = \<lparr>ss_pending = [], ss_escape = EscNormal, ss_tail = tail_new m\<rparr>"

definition collector_new :: "nat \<Rightarrow> output_collector" where
  "collector_new m =
     \<lparr>oc_max_bytes = m, oc_combined = tail_new m, oc_stdout = stream_new m, oc_stderr = stream_new m,
      oc_line_buffer = [], oc_raw_stdout = None, oc_raw_stdout_truncated = False, oc_first_diagnostic = None,
      oc_read_errors = []\<rparr>"

definition capture_raw_stdout :: "output_collector \<Rightarrow> output_collector" where
  "capture_raw_stdout c = c\<lparr>oc_raw_stdout := Some []\<rparr>"

fun stream_of :: "stream_kind \<Rightarrow> output_collector \<Rightarrow> stream_state" where
  "stream_of Stdout c = oc_stdout c"
| "stream_of Stderr c = oc_stderr c"

fun set_stream :: "stream_kind \<Rightarrow> stream_state \<Rightarrow> output_collector \<Rightarrow> output_collector" where
  "set_stream Stdout s c = c\<lparr>oc_stdout := s\<rparr>"
| "set_stream Stderr s c = c\<lparr>oc_stderr := s\<rparr>"

definition strip_cr :: "string \<Rightarrow> string" where
  "strip_cr l = (if l \<noteq> [] \<and> last l = CHR 0x0D then butlast l else l)"

text \<open>The loop over the complete lines: whether one matched, and the text behind the last line break.\<close>

function scan_lines :: "(string \<Rightarrow> bool) \<Rightarrow> string \<Rightarrow> bool \<times> string" where
  "scan_lines cb rest =
     (case str_find rest [CHR 0x0A] of
        None \<Rightarrow> (False, rest)
      | Some i \<Rightarrow> if cb (strip_cr (take i rest)) then (True, rest) else scan_lines cb (drop (i + 1) rest))"
  by pat_completeness auto
termination
  by (relation "measure (\<lambda>(cb, rest). length rest)") (auto dest!: str_find_occurs occurs_at_bound)

declare scan_lines.simps [simp del]

definition inspect_lines :: "output_callbacks \<Rightarrow> nat \<Rightarrow> string \<Rightarrow> output_collector \<Rightarrow> output_collector" where
  "inspect_lines cbs elapsed s c =
     (case (oc_first_diagnostic c, cb_line cbs) of
        (None, Some cb) \<Rightarrow>
          let buffer = oc_line_buffer c @ s;
              buffer = (if oc_max_bytes c < length buffer then utf8_tail_bytes buffer (oc_max_bytes c) else buffer)
          in (case scan_lines cb buffer of
                (True, _) \<Rightarrow> c\<lparr>oc_line_buffer := buffer, oc_first_diagnostic := Some elapsed\<rparr>
              | (False, rest) \<Rightarrow> c\<lparr>oc_line_buffer := rest\<rparr>)
      | _ \<Rightarrow> c)"

definition inspect_remaining_line :: "output_callbacks \<Rightarrow> nat \<Rightarrow> output_collector \<Rightarrow> output_collector" where
  "inspect_remaining_line cbs elapsed c =
     (case (oc_first_diagnostic c, cb_line cbs) of
        (None, Some cb) \<Rightarrow>
          let line = strip_cr (oc_line_buffer c)
          in if line \<noteq> [] \<and> cb line then c\<lparr>oc_first_diagnostic := Some elapsed\<rparr> else c
      | _ \<Rightarrow> c)"

definition append_clean ::
  "output_callbacks \<Rightarrow> nat \<Rightarrow> stream_kind \<Rightarrow> string \<Rightarrow> output_collector \<Rightarrow> output_collector" where
  "append_clean cbs elapsed st s c =
     (if s = [] then c
      else
        let c = c\<lparr>oc_combined := tail_push (oc_combined c) s\<rparr>;
            c = set_stream st ((stream_of st c)\<lparr>ss_tail := tail_push (ss_tail (stream_of st c)) s\<rparr>) c
        in inspect_lines cbs elapsed s c)"

definition note_stdout :: "output_callbacks \<Rightarrow> nat \<Rightarrow> stream_kind \<Rightarrow> string \<Rightarrow> output_collector \<Rightarrow> output_collector" where
  "note_stdout cbs elapsed st bytes c =
     (if st = Stdout \<and> (case cb_stdout cbs of None \<Rightarrow> False | Some cb \<Rightarrow> cb bytes) \<and> oc_first_diagnostic c = None
      then c\<lparr>oc_first_diagnostic := Some elapsed\<rparr> else c)"

definition keep_raw :: "stream_kind \<Rightarrow> string \<Rightarrow> output_collector \<Rightarrow> output_collector" where
  "keep_raw st bytes c =
     (case (st, oc_raw_stdout c) of
        (Stdout, Some raw) \<Rightarrow>
          let remaining = oc_max_bytes c - length raw
          in c\<lparr>oc_raw_stdout := Some (raw @ take (min (length bytes) remaining) bytes),
               oc_raw_stdout_truncated := (oc_raw_stdout_truncated c \<or> remaining < length bytes)\<rparr>
      | _ \<Rightarrow> c)"

definition collector_push ::
  "output_callbacks \<Rightarrow> nat \<Rightarrow> stream_kind \<Rightarrow> string \<Rightarrow> output_collector \<Rightarrow> output_collector" where
  "collector_push cbs elapsed st bytes c =
     (let c = keep_raw st bytes (note_stdout cbs elapsed st bytes c);
          s = stream_of st c
      in case decoder_push (ss_pending s) bytes of (decoded, pending) \<Rightarrow>
         case sanitizer_push (ss_escape s) decoded of (clean, escape) \<Rightarrow>
           append_clean cbs elapsed st clean (set_stream st (s\<lparr>ss_pending := pending, ss_escape := escape\<rparr>) c))"

definition finish_stream :: "output_callbacks \<Rightarrow> nat \<Rightarrow> stream_kind \<Rightarrow> output_collector \<Rightarrow> output_collector" where
  "finish_stream cbs elapsed st c =
     (let s = stream_of st c
      in case sanitizer_push (ss_escape s) (decoder_finish (ss_pending s)) of (clean, escape) \<Rightarrow>
           append_clean cbs elapsed st clean (set_stream st (s\<lparr>ss_pending := [], ss_escape := EscNormal\<rparr>) c))"

definition push_error :: "stream_kind \<Rightarrow> string \<Rightarrow> output_collector \<Rightarrow> output_collector" where
  "push_error st e c =
     (if length (oc_read_errors c) < 4 then c\<lparr>oc_read_errors := oc_read_errors c @ [(st, e)]\<rparr> else c)"

definition collector_finish :: "output_callbacks \<Rightarrow> nat \<Rightarrow> output_collector \<Rightarrow> output_snapshot" where
  "collector_finish cbs elapsed c =
     (let c = inspect_remaining_line cbs elapsed (finish_stream cbs elapsed Stderr (finish_stream cbs elapsed Stdout c))
      in \<lparr>os_output = tb_bytes (oc_combined c), os_stdout = tb_bytes (ss_tail (oc_stdout c)),
          os_stderr = tb_bytes (ss_tail (oc_stderr c)), os_raw_stdout = oc_raw_stdout c,
          os_output_truncated = (tb_truncated (oc_combined c) \<or> oc_raw_stdout_truncated c),
          os_first_diagnostic = oc_first_diagnostic c, os_read_errors = oc_read_errors c\<rparr>)"

section \<open>What is kept of a stream\<close>

lemma inspect_streams [simp]:
  "stream_of st (inspect_lines cbs elapsed s c) = stream_of st c"
  "oc_combined (inspect_lines cbs elapsed s c) = oc_combined c"
  "oc_max_bytes (inspect_lines cbs elapsed s c) = oc_max_bytes c"
  "oc_raw_stdout (inspect_lines cbs elapsed s c) = oc_raw_stdout c"
  "stream_of st (inspect_remaining_line cbs elapsed c) = stream_of st c"
  "oc_combined (inspect_remaining_line cbs elapsed c) = oc_combined c"
  by (cases st; auto simp: inspect_lines_def inspect_remaining_line_def Let_def split: option.splits prod.splits bool.splits)+

lemma inspect_fields [simp]:
  "oc_stdout (inspect_remaining_line cbs elapsed c) = oc_stdout c"
  "oc_stderr (inspect_remaining_line cbs elapsed c) = oc_stderr c"
  by (auto simp: inspect_remaining_line_def Let_def split: option.splits)

lemma note_streams [simp]:
  "stream_of st (keep_raw st' bytes c) = stream_of st c" "oc_combined (keep_raw st' bytes c) = oc_combined c"
  "stream_of st (note_stdout cbs elapsed st' bytes c) = stream_of st c"
  "oc_combined (note_stdout cbs elapsed st' bytes c) = oc_combined c"
  by (cases st; auto simp: keep_raw_def note_stdout_def Let_def split: option.splits stream_kind.splits)+

lemma set_stream_simps [simp]:
  "stream_of st (set_stream st' s c) = (if st = st' then s else stream_of st c)"
  "oc_combined (set_stream st s c) = oc_combined c"
  by (cases st; cases st'; simp)+

lemma stream_of_combined [simp]: "stream_of st (c\<lparr>oc_combined := t\<rparr>) = stream_of st c"
  by (cases st) simp_all

text \<open>The text a stream of bytes amounts to, without the bytes of an unfinished character.\<close>

definition cleaned :: "string \<Rightarrow> string \<times> escape_state" where
  "cleaned bytes = sanitizer_push EscNormal (fst (decode bytes))"

definition stream_inv :: "nat \<Rightarrow> string \<Rightarrow> stream_state \<Rightarrow> bool" where
  "stream_inv m bytes s \<longleftrightarrow>
     s = \<lparr>ss_pending = snd (decode bytes), ss_escape = snd (cleaned bytes), ss_tail = tail_of m (fst (cleaned bytes))\<rparr>"

lemma append_clean_streams:
  assumes "starts_char s"
  shows "stream_of st' (append_clean cbs elapsed st s c) =
      (if st' = st then (stream_of st c)\<lparr>ss_tail := tail_push (ss_tail (stream_of st c)) s\<rparr> else stream_of st' c)"
    and "oc_combined (append_clean cbs elapsed st s c) = tail_push (oc_combined c) s"
  by (auto simp: append_clean_def Let_def tail_push_def)

lemma sanitizer_piece_starts: "from_utf8_ok s \<Longrightarrow> starts_char (fst (sanitizer_push st s))"
  by (rule utf8_starts_char [OF sanitizer_push_text])

text \<open>One push goes on where the stream stood, and leaves the other stream alone.\<close>

lemma push_stream:
  assumes "stream_inv m bytes (stream_of st c)"
  shows "stream_inv m (bytes @ chunk) (stream_of st (collector_push cbs elapsed st chunk c))"
    and "st' \<noteq> st \<Longrightarrow> stream_of st' (collector_push cbs elapsed st chunk c) = stream_of st' c"
    and "oc_combined (collector_push cbs elapsed st chunk c) =
      tail_push (oc_combined c) (fst (sanitizer_push (snd (cleaned bytes)) (fst (decode (snd (decode bytes) @ chunk)))))"
proof -
  obtain out pending where d: "decode bytes = (out, pending)" by fastforce
  obtain out' pending' where d': "decode (pending @ chunk) = (out', pending')" by fastforce
  obtain clean escape where k: "sanitizer_push EscNormal out = (clean, escape)" by fastforce
  obtain clean' escape' where k': "sanitizer_push escape out' = (clean', escape')" by fastforce
  have ok: "from_utf8_ok out'" using decode_text [of "pending @ chunk"] d' by simp
  have starts: "starts_char out'" "starts_char clean'"
    using utf8_starts_char [OF ok] sanitizer_piece_starts [OF ok, of escape] k' by simp_all
  have all: "decode (bytes @ chunk) = (out @ out', pending')" using d d' decode_append [of bytes chunk] by simp
  have clean: "cleaned (bytes @ chunk) = (clean @ clean', escape')"
    using all k k' sanitizer_push_append [OF starts(1), of EscNormal out] by (simp add: cleaned_def)
  have push: "collector_push cbs elapsed st chunk c =
      append_clean cbs elapsed st clean' (set_stream st
        \<lparr>ss_pending = pending', ss_escape = escape', ss_tail = tail_of m clean\<rparr>
        (keep_raw st chunk (note_stdout cbs elapsed st chunk c)))"
    using assms d d' k k' by (simp add: collector_push_def Let_def decoder_push_def stream_inv_def cleaned_def)
  show "stream_inv m (bytes @ chunk) (stream_of st (collector_push cbs elapsed st chunk c))"
    unfolding push stream_inv_def by (simp add: append_clean_streams starts tail_push_of all clean)
  show "st' \<noteq> st \<Longrightarrow> stream_of st' (collector_push cbs elapsed st chunk c) = stream_of st' c"
    unfolding push by (simp add: append_clean_streams starts)
  show "oc_combined (collector_push cbs elapsed st chunk c) =
      tail_push (oc_combined c) (fst (sanitizer_push (snd (cleaned bytes)) (fst (decode (snd (decode bytes) @ chunk)))))"
    unfolding push using d d' k k' by (simp add: append_clean_streams starts cleaned_def)
qed

lemma finish_stream_text:
  assumes "stream_inv m bytes (stream_of st c)"
  shows "ss_tail (stream_of st (finish_stream cbs elapsed st c)) = tail_of m (sanitize_terminal_text (lossy bytes))"
    and "st' \<noteq> st \<Longrightarrow> stream_of st' (finish_stream cbs elapsed st c) = stream_of st' c"
    and "oc_combined (finish_stream cbs elapsed st c) =
      tail_push (oc_combined c) (fst (sanitizer_push (snd (cleaned bytes)) (decoder_finish (snd (decode bytes)))))"
proof -
  obtain out pending where d: "decode bytes = (out, pending)" by fastforce
  obtain clean escape where k: "sanitizer_push EscNormal out = (clean, escape)" by fastforce
  obtain clean' escape' where k': "sanitizer_push escape (decoder_finish pending) = (clean', escape')" by fastforce
  have ok: "from_utf8_ok (decoder_finish pending)" by (simp add: decoder_finish_def lossy_text)
  have starts: "starts_char (decoder_finish pending)" "starts_char clean'"
    using utf8_starts_char [OF ok] sanitizer_piece_starts [OF ok, of escape] k' by simp_all
  have clean: "sanitize_terminal_text (lossy bytes) = clean @ clean'"
    using decoder_finish_eq [OF d] k k' sanitizer_push_append [OF starts(1), of EscNormal out]
    by (simp add: sanitize_terminal_text_def)
  have fin: "finish_stream cbs elapsed st c =
      append_clean cbs elapsed st clean' (set_stream st
        \<lparr>ss_pending = [], ss_escape = EscNormal, ss_tail = tail_of m clean\<rparr> c)"
    using assms d k k' by (simp add: finish_stream_def Let_def stream_inv_def cleaned_def)
  show "ss_tail (stream_of st (finish_stream cbs elapsed st c)) = tail_of m (sanitize_terminal_text (lossy bytes))"
    unfolding fin by (simp add: append_clean_streams starts tail_push_of clean)
  show "st' \<noteq> st \<Longrightarrow> stream_of st' (finish_stream cbs elapsed st c) = stream_of st' c"
    unfolding fin by (simp add: append_clean_streams starts)
  show "oc_combined (finish_stream cbs elapsed st c) =
      tail_push (oc_combined c) (fst (sanitizer_push (snd (cleaned bytes)) (decoder_finish (snd (decode bytes)))))"
    unfolding fin using d k k' by (simp add: append_clean_streams starts cleaned_def)
qed

text \<open>A run of the collector: chunks of both streams with the time of each, in the order they arrive.\<close>

type_synonym chunk = "stream_kind \<times> string \<times> nat"

definition collect :: "output_callbacks \<Rightarrow> chunk list \<Rightarrow> output_collector \<Rightarrow> output_collector" where
  "collect cbs chunks c = fold (\<lambda>(st, bytes, elapsed). collector_push cbs elapsed st bytes) chunks c"

definition stream_bytes :: "stream_kind \<Rightarrow> chunk list \<Rightarrow> string" where
  "stream_bytes st chunks = concat (map (\<lambda>(st', bytes, elapsed). if st' = st then bytes else []) chunks)"

lemma cleaned_Nil [simp]: "cleaned [] = ([], EscNormal)"
  by (simp add: cleaned_def sanitizer_push_def)

text \<open>What the combined tail has received: a text without control characters.\<close>

definition plain_text :: "string \<Rightarrow> bool" where
  "plain_text s \<longleftrightarrow> from_utf8_ok s \<and>
     (\<forall>c \<in> set s. c \<in> {CHR 0x0A, CHR 0x0D, CHR 0x09} \<or> 32 \<le> (of_char c :: nat) \<and> (of_char c :: nat) \<noteq> 127)"

lemma utf8_single_bytes:
  assumes "from_utf8_ok s" and "ch \<in> set (chars s)" and "c \<in> set ch" and "(of_char c :: nat) < 128"
  shows "ch = [c]"
proof -
  have ok: "from_utf8_ok ch" using utf8_chars assms(1,2) by blast
  have shape: "\<exists>d r. ch = d # r \<and> (\<forall>x \<in> set r. is_cont x)"
    using assms(2) by (induction s rule: chars.induct) (auto dest: set_takeWhileD)
  then obtain d r where ch: "ch = d # r" "\<forall>x \<in> set r. is_cont x" by blast
  with assms(3,4) have d: "d = c" by (auto simp: is_cont_def)
  show ?thesis
  proof (cases r)
    case (Cons x r')
    with utf8_after_ascii [OF ok, of 0] ch d assms(4) show ?thesis by (simp add: is_ascii_def)
  qed (use ch d in simp)
qed

lemma sanitizer_plain: "from_utf8_ok s \<Longrightarrow> plain_text (fst (sanitizer_push st s))"
proof -
  assume s: "from_utf8_ok s"
  have "c \<in> {CHR 0x0A, CHR 0x0D, CHR 0x09} \<or> 32 \<le> (of_char c :: nat) \<and> (of_char c :: nat) \<noteq> 127"
    if c: "c \<in> set (concat (fst (sanitize st (chars s))))" for c
  proof (cases "(of_char c :: nat) < 128")
    case True
    from c obtain ch where ch: "ch \<in> set (fst (sanitize st (chars s)))" "c \<in> set ch" by auto
    with sanitize_keeps [OF ch(1)] have "ch \<in> set (chars s)" "layout_char ch \<or> \<not> is_control ch" by auto
    with utf8_single_bytes [OF s _ ch(2) True] show ?thesis by (auto simp: layout_char_def is_control_def)
  qed simp
  with sanitizer_push_text [OF s, of st] show ?thesis
    by (auto simp: plain_text_def sanitizer_push_def split: prod.splits)
qed

lemma plain_append: "plain_text s \<Longrightarrow> plain_text t \<Longrightarrow> plain_text (s @ t)"
  by (auto simp: plain_text_def intro: utf8_append)

lemma plain_tail:
  assumes "plain_text s"
  shows "plain_text (utf8_tail_bytes s m)"
proof -
  have "set (utf8_tail_bytes s m) \<subseteq> set s"
    by (auto simp: utf8_tail_bytes_def dest: set_dropWhileD in_set_dropD)
  with assms utf8_tail_ok [of s m] show ?thesis by (auto simp: plain_text_def)
qed

definition collector_inv :: "nat \<Rightarrow> chunk list \<Rightarrow> output_collector \<Rightarrow> bool" where
  "collector_inv m chunks c \<longleftrightarrow>
     (\<forall>st. stream_inv m (stream_bytes st chunks) (stream_of st c)) \<and>
     (\<exists>s. plain_text s \<and> oc_combined c = tail_of m s)"

lemma collector_inv_new: "collector_inv m [] (collector_new m)"
proof -
  have "stream_of st (collector_new m) = stream_new m" for st by (cases st) (simp_all add: collector_new_def)
  moreover have "plain_text [] \<and> oc_combined (collector_new m) = tail_of m []"
    by (simp add: plain_text_def collector_new_def tail_new_of)
  ultimately show ?thesis
    unfolding collector_inv_def stream_inv_def stream_bytes_def by (auto simp: stream_new_def tail_new_of)
qed

lemma combined_piece:
  assumes "plain_text s" and "oc_combined c = tail_of m s" and "from_utf8_ok t"
  shows "\<exists>s'. plain_text s' \<and> tail_push (oc_combined c) (fst (sanitizer_push st t)) = tail_of m s'"
  using assms tail_push_of [OF sanitizer_piece_starts [OF assms(3)], of m s st] sanitizer_plain [OF assms(3), of st]
    plain_append by (metis (no_types, lifting))

lemma collector_inv_push:
  assumes "collector_inv m chunks c"
  shows "collector_inv m (chunks @ [(st, bytes, elapsed)]) (collector_push cbs elapsed st bytes c)"
proof -
  have inv: "stream_inv m (stream_bytes st' chunks) (stream_of st' c)" for st'
    using assms by (simp add: collector_inv_def)
  have "stream_inv m (stream_bytes st' (chunks @ [(st, bytes, elapsed)])) (stream_of st' (collector_push cbs elapsed st bytes c))" for st'
    using push_stream(1) [OF inv [of st], of bytes cbs elapsed] push_stream(2) [OF inv [of st], of st' cbs elapsed bytes] inv [of st']
    by (cases "st' = st") (simp_all add: stream_bytes_def)
  moreover have "\<exists>s. plain_text s \<and> oc_combined (collector_push cbs elapsed st bytes c) = tail_of m s"
    using assms combined_piece [OF _ _ decode_text] unfolding push_stream(3) [OF inv] collector_inv_def by blast
  ultimately show ?thesis by (simp add: collector_inv_def)
qed

lemma collector_inv_collect: "collector_inv m seen c \<Longrightarrow> collector_inv m (seen @ chunks) (collect cbs chunks c)"
proof (induction chunks arbitrary: seen c)
  case (Cons x chunks)
  obtain st bytes elapsed where x: "x = (st, bytes, elapsed)" by (cases x)
  from Cons.IH [OF collector_inv_push [OF Cons.prems, of st bytes elapsed cbs]] show ?case
    by (simp add: collect_def x)
qed (simp add: collect_def)

lemma collected_inv: "collector_inv m chunks (collect cbs chunks (collector_new m))"
  using collector_inv_collect [OF collector_inv_new, of m chunks cbs] by simp

text \<open>
  C28: Whatever the sizes of the chunks and however the two streams interleave, the text kept of each stream is
  the same: the longest tail of at most the allowed bytes, cut at a character boundary, of the whole stream
  decoded with replacement characters and stripped of terminal escapes.
\<close>

theorem output_is_tail_of_clean_stream:
  "os_stdout (collector_finish cbs t (collect cbs chunks (collector_new m))) =
     utf8_tail_bytes (sanitize_terminal_text (lossy (stream_bytes Stdout chunks))) m \<and>
   os_stderr (collector_finish cbs t (collect cbs chunks (collector_new m))) =
     utf8_tail_bytes (sanitize_terminal_text (lossy (stream_bytes Stderr chunks))) m"
proof -
  let ?c = "collect cbs chunks (collector_new m)"
  have inv: "stream_inv m (stream_bytes st chunks) (stream_of st ?c)" for st
    using collected_inv by (simp add: collector_inv_def)
  let ?c1 = "finish_stream cbs t Stdout ?c"
  have "stream_inv m (stream_bytes Stderr chunks) (stream_of Stderr ?c1)"
    using finish_stream_text(2) [OF inv [of Stdout], of Stderr cbs t] inv [of Stderr] by simp
  note err = finish_stream_text(1,2) [OF this]
  have "ss_tail (stream_of Stdout (finish_stream cbs t Stderr ?c1)) =
      tail_of m (sanitize_terminal_text (lossy (stream_bytes Stdout chunks)))"
    using err(2) [of Stdout] finish_stream_text(1) [OF inv [of Stdout]] by simp
  with err(1) [of cbs t] show ?thesis
    by (simp add: collector_finish_def Let_def tail_of_def)
qed

text \<open>
  The combined output of a process is bounded and safe to print: it has at most the allowed number of bytes, is
  well-formed UTF-8 and contains no control byte but line feed, carriage return and tab.
\<close>

theorem output_bounded_and_plain:
  "length (os_output (collector_finish cbs t (collect cbs chunks (collector_new m)))) \<le> m \<and>
   plain_text (os_output (collector_finish cbs t (collect cbs chunks (collector_new m))))"
proof -
  let ?c = "collect cbs chunks (collector_new m)"
  let ?c1 = "finish_stream cbs t Stdout ?c"
  have inv: "collector_inv m chunks ?c" by (rule collected_inv)
  then have streams: "stream_inv m (stream_bytes st chunks) (stream_of st ?c)" for st by (simp add: collector_inv_def)
  have fin: "from_utf8_ok (decoder_finish p)" for p by (simp add: decoder_finish_def lossy_text)
  obtain s where "plain_text s" "oc_combined ?c1 = tail_of m s"
    using inv combined_piece [OF _ _ fin] unfolding finish_stream_text(3) [OF streams] collector_inv_def by blast
  moreover have "stream_inv m (stream_bytes Stderr chunks) (stream_of Stderr ?c1)"
    using finish_stream_text(2) [OF streams [of Stdout], of Stderr cbs t] streams [of Stderr] by simp
  ultimately obtain s' where "plain_text s'" "oc_combined (finish_stream cbs t Stderr ?c1) = tail_of m s'"
    using combined_piece [OF _ _ fin] finish_stream_text(3) by metis
  then show ?thesis
    by (simp add: collector_finish_def Let_def tail_of_def length_utf8_tail plain_tail)
qed

end
