(* ===== verification/Gate_Evidence.thy ===== *)
theory Gate_Evidence
  imports Change_Model
begin

text \<open>
  What a gate run reports (the evidence part of \<open>gate/types.rs\<close>): spans, suggestions, diagnostics, one
  result per executed step and the evidence of the whole run. The change service reads these values and
  never builds them, so they are data only.
\<close>

section \<open>Compiler diagnostics\<close>

datatype suggestion_applicability = MachineApplicable | MaybeIncorrect | HasPlaceholders | Unspecified

datatype diagnostic_span = DiagnosticSpan
  (ds_file: string) (ds_byte_start: "nat option") (ds_byte_end: "nat option")
  (ds_line_start: nat) (ds_line_end: nat) (ds_column_start: nat) (ds_column_end: nat)
  (ds_is_primary: bool) (ds_label: "string option") (ds_suggested_replacement: "string option")
  (ds_suggestion_applicability: "suggestion_applicability option")
  (ds_expansion: "macro_expansion option")
and macro_expansion = MacroExpansion
  (me_macro_decl_name: "string option") (me_span: diagnostic_span)
  (me_definition_span: "diagnostic_span option")

datatype diagnostic_child = DiagnosticChild
  (dch_level: string) (dch_message: string) (dch_rendered: "string option")
  (dch_spans: "diagnostic_span list") (dch_children: "diagnostic_child list")

record suggestion_edit =
  sed_file :: string
  sed_line_start :: nat
  sed_line_end :: nat
  sed_column_start :: nat
  sed_column_end :: nat
  sed_replacement :: string

record compiler_suggestion =
  csg_message :: string
  csg_applicability :: suggestion_applicability
  csg_edits :: "suggestion_edit list"

record gate_diagnostic =
  gd_code :: "string option"
  gd_level :: string
  gd_file :: "string option"
  gd_line :: "nat option"
  gd_message :: string
  gd_rendered :: "string option"
  gd_spans :: "diagnostic_span list"
  gd_children :: "diagnostic_child list"
  gd_suggestions :: "compiler_suggestion list"

record suggestion_patch =
  sgp_file :: string
  sgp_old_string :: string
  sgp_new_string :: string

record suggestion_package =
  sgk_patches :: "suggestion_patch list"
  sgk_skipped :: "string list"

section \<open>Steps and evidence\<close>

record cargo_build_telemetry =
  cbt_total_units :: nat
  cbt_fresh_units :: nat
  cbt_rebuilt_units :: nat
  cbt_build_scripts :: nat
  cbt_linked_units :: nat
  cbt_partial :: bool
  cbt_rebuilt_packages :: "string list"
  cbt_build_script_packages :: "string list"
  cbt_packages_truncated :: bool

text \<open>\<open>DiagnosticContext\<close> of \<open>diagnostics/context.rs\<close>.\<close>

record resolved_dependency =
  rdp_name :: string
  rdp_version :: string
  rdp_package_id :: string

record diagnostic_context =
  dcx_diagnostic_index :: nat
  dcx_file :: "string option"
  dcx_line_start :: nat
  dcx_excerpt :: string
  dcx_source_hash :: "string option"
  dcx_freshness :: string
  dcx_package_id :: "string option"
  dcx_target_name :: "string option"
  dcx_dependencies :: "resolved_dependency list"
  dcx_dependencies_omitted :: nat
  dcx_reason :: "string option"
  dcx_untrusted_data :: bool

record gate_step_result =
  gs_evidence :: evidence_stats
  gs_diagnostics_omitted :: nat
  gs_contexts :: "diagnostic_context list"
  gs_target :: gate_target_id
  gs_command :: string
  gs_exit_code :: int
  gs_signal :: "int option"
  gs_timed_out :: bool
  gs_cancelled :: bool
  gs_duration_ms :: nat
  gs_first_diagnostic_ms :: "nat option"
  gs_diagnostics :: "gate_diagnostic list"
  gs_suggestion_package :: "suggestion_package option"
  gs_tail :: string
  gs_stdout :: string
  gs_stderr :: string
  gs_output_truncated :: bool
  gs_drain_complete :: bool
  gs_cleanup_complete :: bool
  gs_build :: "cargo_build_telemetry option"

datatype gate_source = SourceExplicit | SourceAutomatic | SourceHostFinalization

record validation_profile =
  vp_options :: validation_options
  vp_id :: string
  vp_command_hash :: string
  vp_cache_mode :: string
  vp_target :: string

record gate_build_info =
  gbi_metadata_cache :: string
  gbi_target_directory :: string

record gate_evidence =
  ge_version :: nat
  ge_job_id :: string
  ge_status :: gate_status
  ge_authority :: gate_authority
  ge_mode :: gate_mode
  ge_generation :: nat
  ge_requested_at :: string
  ge_started_at :: "string option"
  ge_finished_at :: "string option"
  ge_response_ms :: nat
  ge_queue_ms :: nat
  ge_admission_ms :: nat
  ge_preflight_ms :: nat
  ge_first_diagnostic_ms :: "nat option"
  ge_requested_dir :: string
  ge_workspace_root :: "string option"
  ge_manifest_path :: "string option"
  ge_input_hash :: string
  ge_command_hash :: string
  ge_environment_hash :: string
  ge_cache_mode :: string
  ge_scope :: gate_scope
  ge_steps :: "gate_step_result list"
  ge_build :: "gate_build_info option"
  ge_profile :: "validation_profile option"
  ge_source :: gate_source
  ge_message :: "string option"
  ge_warnings :: "string list"

section \<open>Requests\<close>

text \<open>\<open>ClientRoots\<close> is carried along untouched and stays a parameter type of the request.\<close>

record 'roots gate_request =
  gr_options :: validation_options
  gr_cargo_test_defaults :: bool
  gr_directory :: "string option"
  gr_target :: gate_target_id
  gr_toolchain :: "string option"
  gr_timings :: bool
  gr_detail :: gate_detail
  gr_client_roots :: 'roots
  gr_root_epoch :: nat
  gr_source :: gate_source

definition evidence_pending :: "string \<Rightarrow> 'roots gate_request \<Rightarrow> gate_evidence" where
  "evidence_pending job_id request =
     \<lparr>ge_version = 1, ge_job_id = job_id, ge_status = GPending, ge_authority = AuthorityNone,
      ge_mode = gate_target_mode (gr_target request), ge_generation = 0, ge_requested_at = [],
      ge_started_at = None, ge_finished_at = None, ge_response_ms = 0, ge_queue_ms = 0,
      ge_admission_ms = 0, ge_preflight_ms = 0, ge_first_diagnostic_ms = None,
      ge_requested_dir = (case gr_directory request of None \<Rightarrow> [] | Some d \<Rightarrow> d),
      ge_workspace_root = None, ge_manifest_path = None, ge_input_hash = ''pending'',
      ge_command_hash = ''pending'', ge_environment_hash = ''pending'', ge_cache_mode = ''pending'',
      ge_scope = \<lparr>scope_strategy = ScopeWorkspace, scope_packages = [], scope_package_ids = [],
        scope_changed_paths = [], scope_widened_because = [''preflight is still running'']\<rparr>,
      ge_steps = [], ge_build = None, ge_profile = None, ge_source = gr_source request,
      ge_message = None, ge_warnings = []\<rparr>"

end
