(* ===== verification/Change_Capture.thy ===== *)
theory Change_Capture
  imports Change_Patch
begin

text \<open>
  Capturing a workspace into the candidate directory (\<open>change/capture.rs\<close>). The workspace is a tree of
  directory entries as the walk meets them, with every listing, stat, open or read that may fail a value of
  the tree; the walk keeps a stack of open directories, refuses whatever it cannot copy byte for byte, and
  returns the sorted manifest together with the tree it wrote.
\<close>

section \<open>The manifest\<close>

record manifest_entry =
  mfe_path :: string
  mfe_sha256 :: string
  mfe_bytes :: nat

record capture_manifest =
  cm_files :: "manifest_entry list"
  cm_total_bytes :: nat
  cm_excluded :: "string list"

record capture_limits =
  cpl_max_files :: nat
  cpl_max_bytes :: nat

definition CAPTURE_MAX_DEPTH :: nat where "CAPTURE_MAX_DEPTH = 128"
definition MAX_REPORTED_EXCLUSIONS :: nat where "MAX_REPORTED_EXCLUSIONS = 64"

definition SKIPPED_DIRECTORIES :: "string list" where
  "SKIPPED_DIRECTORIES = [''.git'', ''target'']"

definition relative_path_string :: "rel_path \<Rightarrow> string" where
  "relative_path_string p = join ''/'' p"

definition display_relative :: "rel_path \<Rightarrow> string" where
  "display_relative p = (let d = relative_path_string p in if d = [] then ''<root>'' else d)"

definition manifest_hash :: "(string \<Rightarrow> string) \<Rightarrow> capture_manifest \<Rightarrow> string" where
  "manifest_hash sha m =
     sha (''agz-rust-mcp-change-manifest'' @ [CHR 0x00] @ dec (length (cm_files m)) @ [CHR 0x0A] @
       concat (map (\<lambda>e. mfe_path e @ [CHR 0x00] @ mfe_sha256 e @ [CHR 0x00] @
         dec (mfe_bytes e) @ [CHR 0x0A]) (cm_files m)))"

section \<open>The workspace as the walk sees it\<close>

record source_file =
  src_stat :: "string + nat"
  src_open :: "string option"
  src_read :: "string + string"

datatype source_entry =
    SrcBroken string
  | SrcEntry string source_node
and source_node =
    SrcUntyped string
  | SrcLink
  | SrcOther
  | SrcFile source_file
  | SrcDir source_dir
and source_dir =
    SrcUnopenable string
  | SrcUnlistable string
  | SrcListing "source_entry list"

datatype capture_fault =
    CannotCreateCandidate string
  | CannotList rel_path string
  | CannotReadEntry rel_path string
  | CannotInspectInput rel_path string
  | SymlinkInput rel_path
  | DepthLimit rel_path
  | CannotOpen rel_path string
  | UnsupportedType rel_path
  | FileLimit nat
  | CannotStat rel_path string
  | ByteLimit nat rel_path
  | CannotRead rel_path string
  | InputTooLarge rel_path
  | SizeChanged rel_path
  | CannotCreateParent rel_path string
  | CannotWrite rel_path string

datatype capture_error = Incomplete capture_fault | CaptureCancelled

text \<open>\<open>Frame\<close>: an opened directory, its path and its depth.\<close>

record capture_frame =
  fr_dir :: source_dir
  fr_relative :: rel_path
  fr_depth :: nat

text \<open>
  The inputs that do not change during the walk, the outcomes of the writes into the candidate directory
  among them, and the answers of the cancellation token in the order it is asked.
\<close>

record capture_context =
  cx_excluded :: "rel_path list"
  cx_destination :: "rel_path option"
  cx_limits :: capture_limits
  cx_cancelled :: "nat \<Rightarrow> bool"
  cx_create_fault :: "string option"
  cx_parent_fault :: "rel_path \<Rightarrow> string option"
  cx_write_fault :: "rel_path \<Rightarrow> string option"

record capture_state =
  cap_pending :: "capture_frame list"
  cap_files :: "manifest_entry list"
  cap_total :: nat
  cap_excluded :: "string list"
  cap_tree :: "(rel_path, node) btree_map"
  cap_polls :: nat

section \<open>One entry\<close>

definition read_bounded :: "nat \<Rightarrow> rel_path \<Rightarrow> source_file \<Rightarrow> capture_fault + string" where
  "read_bounded max_bytes relative f =
     (case src_open f of
        Some e \<Rightarrow> Inl (CannotOpen relative e)
      | None \<Rightarrow>
          (case src_read f of
             Inl e \<Rightarrow> Inl (CannotRead relative e)
           | Inr contents \<Rightarrow>
               let bytes = take (sat_add max_bytes 1) contents in
               if max_bytes < length bytes then Inl (InputTooLarge relative) else Inr bytes))"

text \<open>\<open>BTreeSet::insert\<close> into the exclusion report.\<close>

definition report_excluded :: "rel_path \<Rightarrow> string list \<Rightarrow> string list" where
  "report_excluded relative report =
     (if length report < MAX_REPORTED_EXCLUSIONS
      then insort_insert (display_relative relative) report else report)"

definition is_excluded :: "capture_context \<Rightarrow> string \<Rightarrow> rel_path \<Rightarrow> bool" where
  "is_excluded cx name relative \<longleftrightarrow>
     name \<in> set SKIPPED_DIRECTORIES \<or> relative \<in> set (cx_excluded cx)"

definition is_destination :: "capture_context \<Rightarrow> rel_path \<Rightarrow> bool" where
  "is_destination cx relative \<longleftrightarrow>
     (case cx_destination cx of
        None \<Rightarrow> False
      | Some d \<Rightarrow> relative \<noteq> [] \<and> (d = relative \<or> starts_with d relative))"

definition capture_file ::
  "(string \<Rightarrow> string) \<Rightarrow> capture_context \<Rightarrow> rel_path \<Rightarrow> source_file \<Rightarrow> capture_state \<Rightarrow>
   capture_fault + capture_state" where
  "capture_file sha cx relative f st =
     (let limits = cx_limits cx in
      if cpl_max_files limits \<le> length (cap_files st) then Inl (FileLimit (cpl_max_files limits))
      else case src_stat f of
        Inl e \<Rightarrow> Inl (CannotStat relative e)
      | Inr len \<Rightarrow>
          if cpl_max_bytes limits < sat_add (cap_total st) len
          then Inl (ByteLimit (cpl_max_bytes limits) relative)
          else case read_bounded (cpl_max_bytes limits) relative f of
            Inl e \<Rightarrow> Inl e
          | Inr bytes \<Rightarrow>
              if length bytes \<noteq> len then Inl (SizeChanged relative)
              else case cx_parent_fault cx relative of
                Some e \<Rightarrow> Inl (CannotCreateParent relative e)
              | None \<Rightarrow>
                  (case cx_write_fault cx relative of
                     Some e \<Rightarrow> Inl (CannotWrite relative e)
                   | None \<Rightarrow>
                       Inr (st\<lparr>cap_files := cap_files st @
                              [\<lparr>mfe_path = relative_path_string relative, mfe_sha256 = sha bytes,
                                mfe_bytes = length bytes\<rparr>],
                            cap_total := sat_add (cap_total st) (length bytes),
                            cap_tree := bt_insert relative (FileNode bytes)
                              (snd (create_dirs (ancestors relative) (cap_tree st)))\<rparr>)))"

definition capture_node ::
  "(string \<Rightarrow> string) \<Rightarrow> capture_context \<Rightarrow> rel_path \<Rightarrow> nat \<Rightarrow> string \<Rightarrow> source_node \<Rightarrow> capture_state \<Rightarrow>
   capture_fault + capture_state" where
  "capture_node sha cx parent depth name node st =
     (let relative = parent @ [name] in
      if is_excluded cx name relative
      then Inr (st\<lparr>cap_excluded := report_excluded relative (cap_excluded st)\<rparr>)
      else if is_destination cx relative then Inr st
      else case node of
        SrcUntyped e \<Rightarrow> Inl (CannotInspectInput relative e)
      | SrcLink \<Rightarrow> Inl (SymlinkInput relative)
      | SrcDir dir \<Rightarrow>
          if CAPTURE_MAX_DEPTH \<le> depth then Inl (DepthLimit relative)
          else (case dir of
             SrcUnopenable e \<Rightarrow> Inl (CannotOpen relative e)
           | _ \<Rightarrow> Inr (st\<lparr>cap_pending :=
               \<lparr>fr_dir = dir, fr_relative = relative, fr_depth = depth + 1\<rparr> # cap_pending st\<rparr>))
      | SrcOther \<Rightarrow> Inl (UnsupportedType relative)
      | SrcFile f \<Rightarrow> capture_file sha cx relative f st)"

section \<open>The walk\<close>

definition poll_cancelled :: "capture_context \<Rightarrow> capture_state \<Rightarrow> bool \<times> capture_state" where
  "poll_cancelled cx st =
     (cx_cancelled cx (cap_polls st), st\<lparr>cap_polls := Suc (cap_polls st)\<rparr>)"

fun capture_entries ::
  "(string \<Rightarrow> string) \<Rightarrow> capture_context \<Rightarrow> rel_path \<Rightarrow> nat \<Rightarrow> source_entry list \<Rightarrow> capture_state \<Rightarrow>
   capture_error + capture_state" where
  "capture_entries sha cx parent depth [] st = Inr st"
| "capture_entries sha cx parent depth (entry # entries) st =
     (let (stop, st) = poll_cancelled cx st in
      if stop then Inl CaptureCancelled
      else case entry of
        SrcBroken e \<Rightarrow> Inl (Incomplete (CannotReadEntry parent e))
      | SrcEntry name node \<Rightarrow>
          (case capture_node sha cx parent depth name node st of
             Inl e \<Rightarrow> Inl (Incomplete e)
           | Inr st \<Rightarrow> capture_entries sha cx parent depth entries st))"

text \<open>The number of entries still below the pending directories bounds the loop.\<close>

definition pending_size :: "capture_frame list \<Rightarrow> nat" where
  "pending_size frames = sum_list (map (\<lambda>f. Suc (size (fr_dir f))) frames)"

lemma capture_file_pending: "capture_file sha cx relative f st = Inr st' \<Longrightarrow> cap_pending st' = cap_pending st"
  by (auto simp: capture_file_def Let_def split: if_splits sum.splits option.splits)

lemma capture_node_pending:
  "capture_node sha cx parent depth name node st = Inr st' \<Longrightarrow>
   pending_size (cap_pending st') \<le> pending_size (cap_pending st) + size node"
  by (auto simp: capture_node_def Let_def pending_size_def dest: capture_file_pending
      split: if_splits source_node.splits source_dir.splits)

lemma capture_entries_pending:
  "capture_entries sha cx parent depth entries st = Inr st' \<Longrightarrow>
   pending_size (cap_pending st') \<le> pending_size (cap_pending st) + size_list size entries"
proof (induction entries arbitrary: st)
  case (Cons entry entries)
  from Cons.prems obtain name node st1 where entry: "entry = SrcEntry name node"
    and node: "capture_node sha cx parent depth name node (snd (poll_cancelled cx st)) = Inr st1"
    and rest: "capture_entries sha cx parent depth entries st1 = Inr st'"
    by (auto simp: Let_def split: prod.splits if_splits source_entry.splits sum.splits)
  have "cap_pending (snd (poll_cancelled cx st)) = cap_pending st" by (simp add: poll_cancelled_def)
  with Cons.IH [OF rest] capture_node_pending [OF node] show ?case by (simp add: entry)
qed simp

function capture_walk ::
  "(string \<Rightarrow> string) \<Rightarrow> capture_context \<Rightarrow> capture_state \<Rightarrow> capture_error + capture_state" where
  "capture_walk sha cx st =
     (case cap_pending st of
        [] \<Rightarrow> Inr st
      | frame # frames \<Rightarrow>
          if cx_cancelled cx (cap_polls st) then Inl CaptureCancelled
          else case fr_dir frame of
            SrcUnopenable e \<Rightarrow> Inl (Incomplete (CannotList (fr_relative frame) e))
          | SrcUnlistable e \<Rightarrow> Inl (Incomplete (CannotList (fr_relative frame) e))
          | SrcListing entries \<Rightarrow>
              (case capture_entries sha cx (fr_relative frame) (fr_depth frame) entries
                      (st\<lparr>cap_pending := frames, cap_polls := Suc (cap_polls st)\<rparr>) of
                 Inl e \<Rightarrow> Inl e
               | Inr st \<Rightarrow> capture_walk sha cx st))"
  by pat_completeness auto
termination
proof (relation "measure (\<lambda>(sha, cx, st). pending_size (cap_pending st))")
  fix sha cx st frame frames entries st'
  assume "cap_pending st = frame # frames" "fr_dir frame = SrcListing entries"
    and "capture_entries sha cx (fr_relative frame) (fr_depth frame) entries
      (st\<lparr>cap_pending := frames, cap_polls := Suc (cap_polls st)\<rparr>) = Inr st'"
  with capture_entries_pending [OF this(3)]
  show "((sha, cx, st'), sha, cx, st) \<in> measure (\<lambda>(sha, cx, st). pending_size (cap_pending st))"
    by (simp add: pending_size_def)
qed simp

declare capture_walk.simps [simp del]

text \<open>
  The result carries the manifest and the tree below the candidate directory. The root directory was opened
  when the caller authorized it.
\<close>

definition capture_tree ::
  "(string \<Rightarrow> string) \<Rightarrow> capture_context \<Rightarrow> source_dir \<Rightarrow>
   capture_error + capture_manifest \<times> (rel_path, node) btree_map" where
  "capture_tree sha cx root =
     (if cx_cancelled cx 0 then Inl CaptureCancelled
      else case cx_create_fault cx of
        Some e \<Rightarrow> Inl (Incomplete (CannotCreateCandidate e))
      | None \<Rightarrow>
          (case root of
             SrcUnopenable e \<Rightarrow> Inl (Incomplete (CannotOpen [] e))
           | _ \<Rightarrow>
               (case capture_walk sha cx
                       \<lparr>cap_pending = [\<lparr>fr_dir = root, fr_relative = [], fr_depth = 0\<rparr>], cap_files = [],
                        cap_total = 0, cap_excluded = [], cap_tree = [], cap_polls = 1\<rparr> of
                  Inl e \<Rightarrow> Inl e
                | Inr st \<Rightarrow>
                    Inr (\<lparr>cm_files = sort_key mfe_path (cap_files st), cm_total_bytes = cap_total st,
                          cm_excluded = cap_excluded st\<rparr>, cap_tree st))))"

end
