(* ===== verification/Change_Store.thy ===== *)
theory Change_Store
  imports Change_Capture Patch_Apply
begin

text \<open>
  The durable scratch store (\<open>change/store.rs\<close>). One slot per change directory holds its
  \<open>record.json\<close>, its \<open>manifest.json\<close>, the candidate copy and whether a validation cache exists; slots
  are keyed by change id. What a system call answers (error texts, clock readings, whether another process
  holds the lock, what a failed removal leaves behind) is an input of the operation that makes the call.
  Reading back a record that was written is the identity: the JSON codec is not modelled.
\<close>

section \<open>Slots\<close>

record change_config =
  ccf_max_active :: nat
  ccf_max_files :: nat
  ccf_max_bytes :: nat
  ccf_ttl_ms :: nat
  ccf_max_revisions :: nat

datatype record_file = NoRecord | BadRecord string | RecordFile change_record

text \<open>A link in place of the candidate directory still leads somewhere.\<close>

datatype candidate_root =
  CandidateMissing | CandidateLink candidate_fs | CandidateDir candidate_fs

record change_slot =
  sl_record :: record_file
  sl_manifest :: "capture_manifest option"
  sl_candidate :: candidate_root
  sl_cache :: bool

type_synonym change_store = "(string, change_slot) btree_map"

definition empty_slot :: change_slot where
  "empty_slot = \<lparr>sl_record = NoRecord, sl_manifest = None, sl_candidate = CandidateMissing, sl_cache = False\<rparr>"

definition slot_of :: "change_store \<Rightarrow> string \<Rightarrow> change_slot" where
  "slot_of st i = (case bt_get st i of None \<Rightarrow> empty_slot | Some slot \<Rightarrow> slot)"

definition CHANGE_SCHEMA_VERSION :: nat where "CHANGE_SCHEMA_VERSION = 1"
definition CHANGE_ID_PREFIX :: string where "CHANGE_ID_PREFIX = ''ch-''"
definition MAX_CLEANUP_WARNINGS :: nat where "MAX_CLEANUP_WARNINGS = 32"

definition is_valid_change_id :: "string \<Rightarrow> bool" where
  "is_valid_change_id i \<longleftrightarrow>
     i \<noteq> [] \<and> length i \<le> 64 \<and> starts_with i CHANGE_ID_PREFIX \<and>
     list_all (\<lambda>c. is_ascii_lowercase c \<or> is_ascii_digit c \<or> c = CHR ''-'') i"

definition store_truncate :: "string \<Rightarrow> nat \<Rightarrow> string" where
  "store_truncate s n = (if length s \<le> n then s else take (floor_char_boundary s n) s)"

definition store_push_warning :: "string list \<Rightarrow> string \<Rightarrow> string list" where
  "store_push_warning warnings e =
     (if length warnings < MAX_CLEANUP_WARNINGS then warnings @ [store_truncate e 512] else warnings)"

section \<open>Reading and writing a slot\<close>

text \<open>Which of the four steps of \<open>write_atomic\<close> fails, with the error it reports.\<close>

record atomic_faults =
  af_create_dir :: "string option"
  af_create_temp :: "string option"
  af_write :: "string option"
  af_rename :: "string option"

definition no_atomic_faults :: atomic_faults where
  "no_atomic_faults = \<lparr>af_create_dir = None, af_create_temp = None, af_write = None, af_rename = None\<rparr>"

text \<open>The new contents reach the path only through the final rename.\<close>

definition write_atomic :: "atomic_faults \<Rightarrow> 'a \<Rightarrow> 'a \<Rightarrow> string option \<times> 'a" where
  "write_atomic faults bytes old =
     (case af_create_dir faults of
        Some e \<Rightarrow> (Some e, old)
      | None \<Rightarrow>
          (case af_create_temp faults of
             Some e \<Rightarrow> (Some e, old)
           | None \<Rightarrow>
               (case af_write faults of
                  Some e \<Rightarrow> (Some e, old)
                | None \<Rightarrow>
                    (case af_rename faults of
                       Some e \<Rightarrow> (Some e, old)
                     | None \<Rightarrow> (None, bytes)))))"

definition store_load :: "string option \<Rightarrow> change_store \<Rightarrow> string \<Rightarrow> string + change_record option" where
  "store_load fault st i =
     (if \<not> is_valid_change_id i then Inl ''invalid change id''
      else case fault of
        Some e \<Rightarrow> Inl e
      | None \<Rightarrow>
          (case sl_record (slot_of st i) of
             NoRecord \<Rightarrow> Inr None
           | BadRecord e \<Rightarrow> Inl e
           | RecordFile r \<Rightarrow>
               if chr_schema_version r \<noteq> CHANGE_SCHEMA_VERSION
               then Inl (''unsupported change record schema '' @ dec (chr_schema_version r))
               else Inr (Some r)))"

text \<open>
  What one \<open>save\<close> meets: a failure to create the change directory, the clock, and the faults of the atomic
  write. It stamps the caller's record even when the write fails.
\<close>

record save_io =
  sv_create_dir :: "string option"
  sv_now :: nat
  sv_atomic :: atomic_faults

definition store_save ::
  "save_io \<Rightarrow> change_record \<Rightarrow> change_store \<Rightarrow> string option \<times> change_record \<times> change_store" where
  "store_save io r st =
     (if \<not> is_valid_change_id (chr_id r) then (Some ''invalid change id'', r, st)
      else case sv_create_dir io of
        Some e \<Rightarrow> (Some e, r, st)
      | None \<Rightarrow>
          let r = r\<lparr>chr_updated_at_ms := sv_now io\<rparr>;
              slot = slot_of st (chr_id r);
              (res, content) = write_atomic (sv_atomic io) (RecordFile r) (sl_record slot)
          in (res, r, bt_insert (chr_id r) (slot\<lparr>sl_record := content\<rparr>) st))"

definition write_manifest ::
  "atomic_faults \<Rightarrow> string \<Rightarrow> capture_manifest \<Rightarrow> change_store \<Rightarrow> string option \<times> change_store" where
  "write_manifest faults i m st =
     (let slot = slot_of st i;
          (res, content) = write_atomic faults (Some m) (sl_manifest slot)
      in (res, bt_insert i (slot\<lparr>sl_manifest := content\<rparr>) st))"

section \<open>Locks and removal\<close>

text \<open>
  \<open>try_lock\<close> creates the change directory and its lock file before it asks for the lock; the answer is an
  error, \<open>False\<close> when another process holds it, or \<open>True\<close>. A directory that cannot be created stays absent.
\<close>

record lock_io =
  lk_create_dir :: "string option"
  lk_answer :: "string + bool"

definition try_lock :: "lock_io \<Rightarrow> string \<Rightarrow> change_store \<Rightarrow> (string + bool) \<times> change_store" where
  "try_lock io i st =
     (case lk_create_dir io of
        Some e \<Rightarrow> (Inl e, st)
      | None \<Rightarrow> (lk_answer io, bt_insert i (slot_of st i) st))"

text \<open>
  \<open>remove_path\<close> on one entry: gone, or an error and whatever a failed \<open>remove_dir_all\<close> leaves of it.
\<close>

definition remove_candidate ::
  "(string \<times> (candidate_root \<Rightarrow> candidate_root)) option \<Rightarrow> change_slot \<Rightarrow> string option \<times> change_slot" where
  "remove_candidate fault slot =
     (if sl_candidate slot = CandidateMissing then (None, slot)
      else case fault of
        None \<Rightarrow> (None, slot\<lparr>sl_candidate := CandidateMissing\<rparr>)
      | Some (e, remains) \<Rightarrow> (Some e, slot\<lparr>sl_candidate := remains (sl_candidate slot)\<rparr>))"

definition remove_cache :: "string option \<Rightarrow> change_slot \<Rightarrow> string option \<times> change_slot" where
  "remove_cache fault slot =
     (if \<not> sl_cache slot then (None, slot)
      else case fault of
        None \<Rightarrow> (None, slot\<lparr>sl_cache := False\<rparr>)
      | Some e \<Rightarrow> (Some e, slot))"

definition discard_worktree ::
  "(string \<times> (candidate_root \<Rightarrow> candidate_root)) option \<Rightarrow> string option \<Rightarrow> string \<Rightarrow> change_store \<Rightarrow>
   string list \<times> change_store" where
  "discard_worktree candidate_fault cache_fault i st =
     (let (w1, slot) = remove_candidate candidate_fault (slot_of st i);
          (w2, slot) = remove_cache cache_fault slot
      in ((case w1 of None \<Rightarrow> [] | Some e \<Rightarrow> [store_truncate e 512]) @
          (case w2 of None \<Rightarrow> [] | Some e \<Rightarrow> [store_truncate e 512]),
          if bt_contains st i then bt_insert i slot st else st))"

text \<open>Removing a whole change directory, completely or with a remaining slot.\<close>

definition remove_change ::
  "(string \<times> (change_slot \<Rightarrow> change_slot)) option \<Rightarrow> string \<Rightarrow> change_store \<Rightarrow> string option \<times> change_store" where
  "remove_change fault i st =
     (if \<not> bt_contains st i then (None, st)
      else case fault of
        None \<Rightarrow> (None, bt_remove i st)
      | Some (e, remains) \<Rightarrow> (Some e, bt_insert i (remains (slot_of st i)) st))"

section \<open>Counting, sweeping and recovery\<close>

text \<open>A directory whose record cannot be loaded is listed without one.\<close>

definition record_of :: "change_slot \<Rightarrow> change_record option" where
  "record_of slot =
     (case sl_record slot of
        RecordFile r \<Rightarrow> if chr_schema_version r = CHANGE_SCHEMA_VERSION then Some r else None
      | _ \<Rightarrow> None)"

text \<open>The directories of the scratch root that carry a valid change id.\<close>

definition scan_paths :: "change_store \<Rightarrow> string list" where
  "scan_paths st = filter is_valid_change_id (bt_keys st)"

definition change_active_count :: "change_store \<Rightarrow> nat" where
  "change_active_count st =
     min u64_max (length (filter (\<lambda>i. case record_of (slot_of st i) of
        None \<Rightarrow> False | Some r \<Rightarrow> chr_state r \<noteq> RecordDiscarded) (scan_paths st)))"

record store_sweep =
  swp_removed :: nat
  swp_warnings :: "string list"

record store_recovery =
  rcv_failed :: nat
  rcv_removed :: nat
  rcv_warnings :: "string list"

text \<open>What the sweep meets at one change directory.\<close>

record sweep_io =
  sw_stale_directory :: bool
  sw_lock :: lock_io
  sw_load :: "string option"
  sw_now :: nat
  sw_remove :: "(string \<times> (change_slot \<Rightarrow> change_slot)) option"

definition sweep_entry ::
  "nat \<Rightarrow> sweep_io \<Rightarrow> string \<Rightarrow> store_sweep \<times> change_store \<Rightarrow> store_sweep \<times> change_store" where
  "sweep_entry ttl_ms io i acc =
     (let (sweep, st) = acc;
          warn = (\<lambda>e. sweep\<lparr>swp_warnings := store_push_warning (swp_warnings sweep) e\<rparr>);
          (lock, st) = try_lock (sw_lock io) i st
      in case lock of
        Inl e \<Rightarrow> (warn e, st)
      | Inr False \<Rightarrow> (sweep, st)
      | Inr True \<Rightarrow>
          (case store_load (sw_load io) st i of
             Inl e \<Rightarrow> (warn e, st)
           | Inr record \<Rightarrow>
               if (case record of
                     Some r \<Rightarrow> sat_add (chr_updated_at_ms r) ttl_ms \<le> sw_now io
                   | None \<Rightarrow> sw_stale_directory io)
               then (case remove_change (sw_remove io) i st of
                       (None, st) \<Rightarrow> (sweep\<lparr>swp_removed := sat_add (swp_removed sweep) 1\<rparr>, st)
                     | (Some e, st) \<Rightarrow> (warn e, st))
               else (sweep, st)))"

definition sweep :: "nat \<Rightarrow> (string \<Rightarrow> sweep_io) \<Rightarrow> change_store \<Rightarrow> store_sweep \<times> change_store" where
  "sweep ttl_ms io st =
     fold (\<lambda>i. sweep_entry ttl_ms (io i) i) (scan_paths st) (\<lparr>swp_removed = 0, swp_warnings = []\<rparr>, st)"

text \<open>An interrupted stage: inconsistent from now on, its evidence no longer fresh.\<close>

definition recovered_warning :: "nat option \<Rightarrow> string" where
  "recovered_warning target =
     ''an interrupted stage (target revision '' @
     (case target of None \<Rightarrow> ''unknown'' | Some n \<Rightarrow> dec n) @
     '') was recovered as failed_inconsistent''"

definition recover_record :: "change_record \<Rightarrow> change_record" where
  "recover_record r =
     r\<lparr>chr_state := RecordFailedInconsistent, chr_applying_revision := None,
       chr_evidence := map (\<lambda>e. e\<lparr>se_fresh := False, se_authoritative := False\<rparr>) (chr_evidence r),
       chr_cleanup_warnings :=
         (if length (chr_cleanup_warnings r) < MAX_CLEANUP_WARNINGS
          then chr_cleanup_warnings r @ [recovered_warning (chr_applying_revision r)]
          else chr_cleanup_warnings r)\<rparr>"

record recover_io =
  rc_lock :: lock_io
  rc_load :: "string option"
  rc_save :: save_io
  rc_remove :: "(string \<times> (change_slot \<Rightarrow> change_slot)) option"

definition recover_entry ::
  "recover_io \<Rightarrow> string \<Rightarrow> store_recovery \<times> change_store \<Rightarrow> store_recovery \<times> change_store" where
  "recover_entry io i acc =
     (let (recovery, st) = acc;
          warn = (\<lambda>e. recovery\<lparr>rcv_warnings := store_push_warning (rcv_warnings recovery) e\<rparr>);
          (lock, st) = try_lock (rc_lock io) i st
      in case lock of
        Inl e \<Rightarrow> (warn e, st)
      | Inr False \<Rightarrow> (recovery, st)
      | Inr True \<Rightarrow>
          (case store_load (rc_load io) st i of
             Inl e \<Rightarrow> (warn e, st)
           | Inr None \<Rightarrow> (recovery, st)
           | Inr (Some r) \<Rightarrow>
               if chr_state r = RecordApplying
               then (case store_save (rc_save io) (recover_record r) st of
                       (None, _, st) \<Rightarrow> (recovery\<lparr>rcv_failed := sat_add (rcv_failed recovery) 1\<rparr>, st)
                     | (Some e, _, st) \<Rightarrow> (warn e, st))
               else if chr_state r = RecordCapturing
               then (case remove_change (rc_remove io) i st of
                       (None, st) \<Rightarrow> (recovery\<lparr>rcv_removed := sat_add (rcv_removed recovery) 1\<rparr>, st)
                     | (Some e, st) \<Rightarrow> (warn e, st))
               else (recovery, st)))"

definition recover_interrupted ::
  "(string \<Rightarrow> recover_io) \<Rightarrow> change_store \<Rightarrow> store_recovery \<times> change_store" where
  "recover_interrupted io st =
     fold (\<lambda>i. recover_entry (io i) i) (scan_paths st)
       (\<lparr>rcv_failed = 0, rcv_removed = 0, rcv_warnings = []\<rparr>, st)"

section \<open>Lexical paths\<close>

fun normalize_components :: "component list \<Rightarrow> component list \<Rightarrow> component list" where
  "normalize_components acc [] = acc"
| "normalize_components acc (RootDir # cs) = normalize_components [RootDir] cs"
| "normalize_components acc (CurDir # cs) = normalize_components acc cs"
| "normalize_components acc (ParentDir # cs) =
     normalize_components (if acc = [] \<or> last acc = RootDir then acc else butlast acc) cs"
| "normalize_components acc (Normal n # cs) = normalize_components (acc @ [Normal n]) cs"

definition normalize_lexical :: "string \<Rightarrow> component list" where
  "normalize_lexical path = normalize_components [] (components path)"

end
