(* ===== verification/Change_Evidence.thy ===== *)
theory Change_Evidence
  imports Gate_Evidence Change_Store
begin

text \<open>
  The free functions of \<open>change/service.rs\<close> that turn a gate run into evidence rows and a record into the
  payload of an answer, with the digests that bind a revision. SHA-256 is the argument \<open>sha\<close>: from bytes to
  the digits the code prints.
\<close>

definition MAX_DIAGNOSTIC_MESSAGE_BYTES :: nat where "MAX_DIAGNOSTIC_MESSAGE_BYTES = 2048"
definition MAX_LISTED_SUGGESTION_PATCHES :: nat where "MAX_LISTED_SUGGESTION_PATCHES = 32"
definition MAX_LISTED_SUGGESTION_SKIPPED :: nat where "MAX_LISTED_SUGGESTION_SKIPPED = 32"
definition MAX_SUGGESTION_PATCH_BYTES :: nat where "MAX_SUGGESTION_PATCH_BYTES = 65536"
definition MAX_SUGGESTION_SKIPPED_CHARS :: nat where "MAX_SUGGESTION_SKIPPED_CHARS = 256"
definition MAX_LISTED_CHANGED_FILES :: nat where "MAX_LISTED_CHANGED_FILES = 1024"
definition MAX_LISTED_HASHES :: nat where "MAX_LISTED_HASHES = 512"
definition MAX_LISTED_EVIDENCE :: nat where "MAX_LISTED_EVIDENCE = 64"
definition MAX_RECORDED_EVIDENCE :: nat where "MAX_RECORDED_EVIDENCE = 256"
definition MAX_COMMAND_CHARS :: nat where "MAX_COMMAND_CHARS = 4096"
definition MAX_CHANGED_FILES_IN_RECORD :: nat where "MAX_CHANGED_FILES_IN_RECORD = 20000"

section \<open>Compiler feedback\<close>

text \<open>\<open>Path::strip_prefix\<close> as text: what follows the root's components, without outer separators and dots.\<close>

fun drop_components :: "nat \<Rightarrow> string list \<Rightarrow> string list" where
  "drop_components 0 ps = ps"
| "drop_components (Suc k) [] = []"
| "drop_components (Suc k) (p # ps) =
     (if p = [] \<or> p = ''.'' then drop_components (Suc k) ps else drop_components k ps)"

definition path_strip_prefix :: "string \<Rightarrow> string \<Rightarrow> string option" where
  "path_strip_prefix path root =
     (if starts_with (components path) (components root)
      then
        let blank = (\<lambda>p. p = [] \<or> p = ''.'');
            rest = dropWhile blank (drop_components (length (components root) - 1) (split_slash path))
        in Some (join ''/'' (rev (dropWhile blank (rev rest))))
      else None)"

definition forward_slashes :: "string \<Rightarrow> string" where
  "forward_slashes s = map (\<lambda>c. if c = CHR 0x5C then CHR ''/'' else c) s"

definition relative_diagnostic_file :: "string option \<Rightarrow> string option \<Rightarrow> string option" where
  "relative_diagnostic_file file root =
     (case file of
        None \<Rightarrow> None
      | Some f \<Rightarrow>
          let normalized = forward_slashes f in
          case root of
            None \<Rightarrow> None
          | Some root \<Rightarrow>
              if is_absolute normalized
              then (case path_strip_prefix normalized root of
                      Some relative \<Rightarrow> Some (forward_slashes relative)
                    | None \<Rightarrow> Some normalized)
              else Some normalized)"

definition change_diagnostic :: "string option \<Rightarrow> gate_diagnostic \<Rightarrow> change_diagnostic_data" where
  "change_diagnostic root d =
     \<lparr>dg_code = gd_code d, dg_level = gd_level d, dg_file = relative_diagnostic_file (gd_file d) root,
      dg_line = gd_line d, dg_message = store_truncate (gd_message d) MAX_DIAGNOSTIC_MESSAGE_BYTES\<rparr>"

definition unsupported_suggestions :: "gate_diagnostic list \<Rightarrow> nat" where
  "unsupported_suggestions ds =
     min u64_max (length (filter (\<lambda>s. csg_applicability s \<noteq> MachineApplicable \<or> csg_edits s = [])
       (concat (map gd_suggestions ds))))"

fun list_suggestion_patches :: "nat \<Rightarrow> suggestion_patch list \<Rightarrow> change_suggestion_patch_data list" where
  "list_suggestion_patches used [] = []"
| "list_suggestion_patches used (p # ps) =
     (let len = sat_add (length (sgp_old_string p)) (length (sgp_new_string p)) in
      if MAX_SUGGESTION_PATCH_BYTES < sat_add used len then list_suggestion_patches used ps
      else \<lparr>sp_file = sgp_file p, sp_old_string = sgp_old_string p, sp_new_string = sgp_new_string p\<rparr> #
        list_suggestion_patches (sat_add used len) ps)"

definition bounded_suggestion_package :: "suggestion_package \<Rightarrow> nat \<Rightarrow> change_suggestion_package_data" where
  "bounded_suggestion_package p unsupported =
     (let patches = list_suggestion_patches 0 (take MAX_LISTED_SUGGESTION_PATCHES (sgk_patches p));
          skipped = map (\<lambda>s. store_truncate s MAX_SUGGESTION_SKIPPED_CHARS)
            (take MAX_LISTED_SUGGESTION_SKIPPED (sgk_skipped p))
      in \<lparr>spk_patches = patches, spk_skipped = skipped, spk_unsupported = unsupported,
          spk_patches_total = min u64_max (length (sgk_patches p)),
          spk_skipped_total = min u64_max (length (sgk_skipped p)),
          spk_truncated = (length patches < length (sgk_patches p) \<or> length skipped < length (sgk_skipped p))\<rparr>)"

section \<open>Evidence rows\<close>

definition gate_terminal :: "gate_status \<Rightarrow> bool" where
  "gate_terminal s \<longleftrightarrow> s = GFastPass \<or> s = GFullPass \<or> s = GFail"

definition evidence_freshness :: "gate_evidence \<Rightarrow> bool \<Rightarrow> bool" where
  "evidence_freshness e cancelled \<longleftrightarrow>
     gate_terminal (ge_status e) \<and>
     list_all (\<lambda>s. gs_drain_complete s \<and> gs_cleanup_complete s \<and> \<not> gs_cancelled s \<and> \<not> gs_timed_out s)
       (ge_steps e) \<and> \<not> cancelled"

definition default_evidence_stats :: evidence_stats where
  "default_evidence_stats =
     \<lparr>es_diagnostic_records = 0, es_duplicates = 0, es_omitted_records = 0, es_malformed_lines = 0,
      es_oversized_lines = 0, es_build_finished = False, es_build_success = None, es_tests_executed = None,
      es_test_summaries = 0, es_empty_test_summaries = 0, es_test_binaries = 0\<rparr>"

definition empty_evidence_row :: "nat \<Rightarrow> bool \<Rightarrow> nat \<Rightarrow> gate_evidence \<Rightarrow> stored_evidence" where
  "empty_evidence_row revision fresh now e =
     \<lparr>se_revision = revision, se_target = gate_status_as_str (ge_status e), se_command = [],
      se_status = gate_status_as_str (ge_status e), se_exit_code = None,
      se_first_diagnostic_ms = ge_first_diagnostic_ms e, se_total_ms = ge_response_ms e, se_fresh = fresh,
      se_authoritative = fresh, se_recorded_at_ms = now, se_diagnostics = [], se_diagnostics_total = 0,
      se_diagnostics_omitted = 0, se_suggestion_package = None, se_stats = default_evidence_stats\<rparr>"

definition step_evidence_row ::
  "nat \<Rightarrow> bool \<Rightarrow> nat \<Rightarrow> gate_evidence \<Rightarrow> gate_step_result \<Rightarrow> stored_evidence" where
  "step_evidence_row revision fresh now e step =
     (let diagnostics =
            (if fresh then map (change_diagnostic (ge_workspace_root e)) (gs_diagnostics step) else [])
      in \<lparr>se_revision = revision, se_target = gate_target_as_str (gs_target step),
          se_command = store_truncate (gs_command step) MAX_COMMAND_CHARS,
          se_status = gate_status_as_str (ge_status e), se_exit_code = Some (gs_exit_code step),
          se_first_diagnostic_ms = gs_first_diagnostic_ms step, se_total_ms = gs_duration_ms step,
          se_fresh = fresh, se_authoritative = (fresh \<and> gate_terminal (ge_status e)),
          se_recorded_at_ms = now, se_diagnostics = diagnostics,
          se_diagnostics_total =
            (if fresh then sat_add (min u64_max (length diagnostics)) (gs_diagnostics_omitted step) else 0),
          se_diagnostics_omitted = (if fresh then gs_diagnostics_omitted step else 0),
          se_suggestion_package =
            (if fresh \<and> ge_status e = GFail
             then map_option (\<lambda>p. bounded_suggestion_package p (unsupported_suggestions (gs_diagnostics step)))
               (gs_suggestion_package step)
             else None),
          se_stats = gs_evidence step\<rparr>)"

definition evidence_rows :: "nat \<Rightarrow> bool \<Rightarrow> nat \<Rightarrow> gate_evidence \<Rightarrow> stored_evidence list" where
  "evidence_rows revision fresh now e =
     (if ge_steps e = [] then [empty_evidence_row revision fresh now e]
      else map (step_evidence_row revision fresh now e) (take 16 (ge_steps e)))"

section \<open>The payload of an answer\<close>

definition listed_evidence :: "change_record \<Rightarrow> stored_evidence \<Rightarrow> change_evidence_data" where
  "listed_evidence r e =
     (let current = (se_fresh e \<and> se_revision e = chr_revision r) in
      \<lparr>ev_revision = se_revision e, ev_target = se_target e, ev_command = se_command e,
       ev_status = se_status e, ev_exit_code = se_exit_code e,
       ev_first_diagnostic_ms = se_first_diagnostic_ms e, ev_total_ms = se_total_ms e,
       ev_fresh = se_fresh e, ev_authoritative = se_authoritative e,
       ev_diagnostics = (if current then se_diagnostics e else []),
       ev_diagnostics_total = (if current then se_diagnostics_total e else 0),
       ev_diagnostics_omitted = (if current then se_diagnostics_omitted e else 0),
       ev_suggestion_package = (if current then se_suggestion_package e else None),
       ev_stats = se_stats e\<rparr>)"

fun list_new_files ::
  "nat option \<Rightarrow> nat \<Rightarrow> bool \<Rightarrow> stored_new_file list \<Rightarrow> change_new_file_data list \<times> bool" where
  "list_new_files budget used omitted [] = ([], omitted)"
| "list_new_files budget used omitted (f # fs) =
     (let row = (\<lambda>content. \<lparr>cnf_file = stn_file f, cnf_sha256 = stn_sha256 f, cnf_bytes = stn_bytes f,
                          cnf_content = content\<rparr>)
      in case budget of
        None \<Rightarrow> (let (rows, omitted) = list_new_files budget used omitted fs in (row None # rows, omitted))
      | Some limit \<Rightarrow>
          if sat_add used (length (stn_content f)) \<le> limit
          then (let (rows, omitted) =
                      list_new_files budget (sat_add used (length (stn_content f))) omitted fs
                in (row (Some (stn_content f)) # rows, omitted))
          else (let (rows, omitted) = list_new_files budget used True fs in (row None # rows, omitted)))"

definition change_data_for_record :: "change_action \<Rightarrow> change_record \<Rightarrow> nat option \<Rightarrow> change_data" where
  "change_data_for_record action r content_budget =
     (let (new_files, omitted) =
            list_new_files content_budget 0 False (take MAX_LISTED_HASHES (chr_new_files r))
      in \<lparr>cd_action = change_action_as_str action, cd_change_id = Some (chr_id r),
          cd_base_identity = Some (chr_base_identity r), cd_revision = chr_revision r,
          cd_patch_hash = Some (chr_patch_hash r), cd_state = record_state_as_str (chr_state r),
          cd_verified = current_revision_fresh_pass r, cd_discarded = (chr_state r = RecordDiscarded),
          cd_changed_files = take MAX_LISTED_CHANGED_FILES (chr_changed_files r),
          cd_changed_files_total = min u64_max (length (chr_changed_files r)),
          cd_source_hashes =
            map (\<lambda>(file, h). \<lparr>sh_file = file, sh_sha256 = sth_sha256 h, sh_bytes = sth_bytes h\<rparr>)
              (take MAX_LISTED_HASHES (chr_source_hashes r)),
          cd_source_hashes_total = min u64_max (length (chr_source_hashes r)),
          cd_evidence = rev (map (listed_evidence r) (take MAX_LISTED_EVIDENCE (rev (chr_evidence r)))),
          cd_evidence_total = min u64_max (length (chr_evidence r)),
          cd_capture = Some \<lparr>cc_files = cs_files (chr_capture r), cc_bytes = cs_bytes (chr_capture r),
            cc_manifest_hash = cs_manifest_hash (chr_capture r), cc_complete = cs_complete (chr_capture r),
            cc_excluded = cs_excluded (chr_capture r)\<rparr>,
          cd_patches = map (\<lambda>p. \<lparr>cpd_file = stp_file p, cpd_old_string = stp_old_string p,
            cpd_new_string = stp_new_string p\<rparr>) (take MAX_LISTED_HASHES (chr_patches r)),
          cd_patches_total = min u64_max (length (chr_patches r)),
          cd_new_files = new_files, cd_new_files_total = min u64_max (length (chr_new_files r)),
          cd_new_files_content_omitted = (omitted \<or> MAX_LISTED_HASHES < length (chr_new_files r)),
          cd_migration = chr_migration r, cd_cleanup_warnings = chr_cleanup_warnings r, cd_reason = []\<rparr>)"

definition refuse_evidence :: "change_evidence_data \<Rightarrow> change_evidence_data" where
  "refuse_evidence e =
     e\<lparr>ev_fresh := False, ev_authoritative := False, ev_diagnostics := [], ev_diagnostics_total := 0,
       ev_diagnostics_omitted := 0, ev_suggestion_package := None\<rparr>"

definition refused_data :: "change_action \<Rightarrow> change_record \<Rightarrow> string \<Rightarrow> change_data" where
  "refused_data action r reason =
     (let d = change_data_for_record action r None in
      d\<lparr>cd_verified := False, cd_evidence := map refuse_evidence (cd_evidence d), cd_reason := reason\<rparr>)"

section \<open>Digests and ids\<close>

definition change_base_identity :: "(string \<Rightarrow> string) \<Rightarrow> nat \<Rightarrow> string \<Rightarrow> string \<Rightarrow> string" where
  "change_base_identity sha epoch manifest_digest capture_root =
     sha (''agz-rust-mcp-change-base'' @ [CHR 0x00] @ dec epoch @ [CHR 0x00] @ manifest_digest @
       [CHR 0x00] @ capture_root)"

definition compute_patch_hash ::
  "(string \<Rightarrow> string) \<Rightarrow> nat \<Rightarrow> stored_patch list \<Rightarrow> stored_new_file list \<Rightarrow> string" where
  "compute_patch_hash sha revision patches new_files =
     sha (''agz-rust-mcp-change-patches'' @ [CHR 0x00] @ dec revision @ [CHR 0x00] @
       concat (map (\<lambda>p. stp_file p @ [CHR 0x00] @ stp_old_string p @ [CHR 0x00] @ stp_new_string p @
         [CHR 0x00]) patches) @
       concat (map (\<lambda>f. stn_file f @ [CHR 0x00] @ stn_sha256 f @ [CHR 0x00] @ dec (stn_bytes f) @
         [CHR 0x00]) new_files))"

definition format_change_id :: "nat \<Rightarrow> nat \<Rightarrow> nat \<Rightarrow> string" where
  "format_change_id now pid seq_no = CHANGE_ID_PREFIX @ hex now @ ''-'' @ hex pid @ ''-'' @ hex seq_no"

definition normalize_patch_file :: "string \<Rightarrow> string" where
  "normalize_patch_file file =
     (case candidate_relative file of Inr p \<Rightarrow> relative_path_string p | Inl _ \<Rightarrow> file)"

section \<open>Rows that vouch for a revision\<close>

text \<open>A row passes for a revision when it is fresh, authoritative and carries a passing status.\<close>

definition passes :: "nat \<Rightarrow> stored_evidence \<Rightarrow> bool" where
  "passes revision e \<longleftrightarrow> se_revision e = revision \<and> se_fresh e \<and> se_authoritative e \<and>
     se_status e \<in> {''PASS'', ''FULL_PASS'', ''FAST_PASS''}"

lemma fresh_pass_iff: "current_revision_fresh_pass r \<longleftrightarrow> (\<exists>e \<in> set (chr_evidence r). passes (chr_revision r) e)"
  by (auto simp: current_revision_fresh_pass_def passes_def list_ex_iff)

lemma not_passes_supersede [simp]: "\<not> passes n (supersede e)"
  by (simp add: passes_def supersede_def)

lemma passing_status: "gate_status_as_str s \<in> {''PASS'', ''FULL_PASS'', ''FAST_PASS''} \<longleftrightarrow> s = GFastPass \<or> s = GFullPass"
  by (cases s) auto

lemma evidence_row_fields:
  "e \<in> set (evidence_rows revision fresh now g) \<Longrightarrow>
   se_revision e = revision \<and> se_fresh e = fresh \<and> se_status e = gate_status_as_str (ge_status g)"
  by (auto simp: evidence_rows_def empty_evidence_row_def step_evidence_row_def Let_def split: if_splits)

text \<open>A recorded row passes only if the run was fresh and its gate passed.\<close>

lemma evidence_rows_pass:
  "e \<in> set (evidence_rows revision fresh now g) \<Longrightarrow> passes n e \<Longrightarrow>
   n = revision \<and> fresh \<and> (ge_status g = GFastPass \<or> ge_status g = GFullPass)"
  using evidence_row_fields [of e revision fresh now g] passing_status [of "ge_status g"] by (auto simp: passes_def)

lemma evidence_rows_length: "length (evidence_rows revision fresh now g) \<le> 16"
  by (simp add: evidence_rows_def)

lemma refused_data_verified [simp]: "\<not> cd_verified (refused_data action r reason)"
  by (simp add: refused_data_def Let_def)

lemma change_data_for_record_simps [simp]:
  "cd_verified (change_data_for_record action r b) = current_revision_fresh_pass r"
  "cd_state (change_data_for_record action r b) = record_state_as_str (chr_state r)"
  "cd_revision (change_data_for_record action r b) = chr_revision r"
  "cd_change_id (change_data_for_record action r b) = Some (chr_id r)"
  by (auto simp: change_data_for_record_def Let_def split: prod.splits)

end
