(* ===== verification/Change_Service.thy ===== *)
theory Change_Service
  imports Change_Evidence
begin

text \<open>
  The actions of the change service (\<open>change/service.rs\<close>) over the durable store: staging patches behind a
  durable marker, validating and exporting a pinned revision, inspecting and discarding. An action takes the
  answers of the system calls it makes as a record of inputs and returns the outcome with the new world.
  Between reading a record and locking its change another process may act, so \<open>validate\<close>, \<open>export\<close> and
  \<open>discard\<close> are cut there. Texts are values of \<open>change_message\<close>, printed by a function of the environment.
\<close>

section \<open>Messages, environment and world\<close>

datatype request_message =
    ChangeIdRequiredSummary change_action
  | ChangeIdRequired
  | InvalidIdSummary
  | InvalidId
  | NoScratchSummary
  | NoRecordExists
  | UnreadableSummary
  | RevisionRequiredSummary change_action
  | RevisionRequired
  | StaleRevisionSummary change_action
  | StaleRevision nat nat
  | BaseRequiredSummary change_action
  | BaseRequired
  | StaleBaseSummary change_action
  | StaleBase
  | EpochSummary change_action
  | EpochChanged change_action nat nat
  | CancelledSummary change_action
  | CancelledReason change_action

datatype stage_message =
    PatchWorkerSummary
  | StagedSummary
  | WorkerPanic
  | FailureSummary string
  | NoRecordForId
  | StateReason record_state
  | RevisionLimit nat
  | PatchRejected patch_error
  | MarkerUnpublished string
  | ApplyFault patch_error
  | ApplyFailed patch_error
  | ReReadFault string string
  | ReReadFailed string
  | PlanMismatch string
  | AccountingFault
  | AccountingFailed
  | RecordUnpublished string

datatype slot_message =
    BusySummary
  | LockBusy
  | LockSummary
  | MovedSummary
  | MovedReason record_state nat record_state nat
  | PartialSummary change_action
  | PartialReason change_action
  | DiscardedSummary
  | CopyDiscarded
  | UnrecordedSummary change_action
  | StillReason record_state
  | LinkSummary change_action
  | LinkReason
  | InterruptedSummary change_action
  | InterruptedReason
  | MismatchSummary change_action
  | RecordedPathInvalid string patch_error
  | RecordedUnavailable string
  | RecordedNotRegular string
  | RecordedUnreadable string string
  | RecordedMismatch string

datatype result_message =
    InspectedSummary
  | DependencyGoneSummary
  | DependencyGone string
  | DependencySummary
  | DependencyReason string
  | ValidatedSummary
  | NotPersisted string
  | FreshEvidence string "string option"
  | EvidenceUnusable "string option"
  | ExportedSummary
  | DiscardAbsentSummary
  | DiscardAbsent
  | AlreadyDiscardedSummary
  | DiscardSummary
  | DiscardRemoved
  | DiscardIncomplete

datatype change_message =
    AboutRequest request_message
  | AboutStage stage_message
  | AboutChange slot_message
  | AboutResult result_message

record change_env =
  ce_config :: change_config
  ce_sha :: "string \<Rightarrow> string"
  ce_say :: "change_message \<Rightarrow> string"
  ce_output_bytes :: nat
  ce_pid :: nat

record change_world =
  cw_store :: change_store
  cw_warnings :: "string list"
  cw_sequence :: nat

section \<open>Outcomes\<close>

record change_failure =
  fl_status :: string
  fl_reason :: string
  fl_warnings :: "string list"

definition failure_new :: "string \<Rightarrow> string \<Rightarrow> change_failure" where
  "failure_new status reason = \<lparr>fl_status = status, fl_reason = reason, fl_warnings = []\<rparr>"

fun push_cleanup_warnings :: "string list \<Rightarrow> string list \<Rightarrow> string list" where
  "push_cleanup_warnings current [] = current"
| "push_cleanup_warnings current (w # ws) =
     (if MAX_CLEANUP_WARNINGS \<le> length current then current
      else push_cleanup_warnings (if w \<in> set current then current else current @ [w]) ws)"

fun merge_warnings :: "string list \<Rightarrow> string list \<Rightarrow> string list" where
  "merge_warnings acc [] = acc"
| "merge_warnings acc (w # ws) =
     merge_warnings (if w \<notin> set acc \<and> length acc < MAX_CLEANUP_WARNINGS then acc @ [w] else acc) ws"

definition absent_data :: "change_action \<Rightarrow> string option \<Rightarrow> string \<Rightarrow> change_data" where
  "absent_data action change_id reason =
     default_change_data\<lparr>cd_action := change_action_as_str action, cd_change_id := change_id,
       cd_state := ''absent'', cd_reason := reason\<rparr>"

definition error_outcome ::
  "change_action \<Rightarrow> string \<Rightarrow> string \<Rightarrow> string \<Rightarrow> string option \<Rightarrow> change_world \<Rightarrow> change_outcome" where
  "error_outcome action status summary reason change_id w =
     \<lparr>co_status = status, co_summary = summary, co_is_error = True,
      co_data = (absent_data action change_id reason)\<lparr>cd_cleanup_warnings := cw_warnings w\<rparr>\<rparr>"

definition finish_outcome :: "string \<Rightarrow> string \<Rightarrow> bool \<Rightarrow> change_data \<Rightarrow> change_world \<Rightarrow> change_outcome" where
  "finish_outcome status summary is_error data w =
     \<lparr>co_status = status, co_summary = summary, co_is_error = is_error,
      co_data = data\<lparr>cd_cleanup_warnings :=
        merge_warnings (cw_warnings w) (cd_cleanup_warnings data)\<rparr>\<rparr>"

definition failure_outcome ::
  "change_env \<Rightarrow> change_action \<Rightarrow> string option \<Rightarrow> change_failure \<Rightarrow> change_world \<Rightarrow>
   change_outcome \<times> change_world" where
  "failure_outcome env action change_id f w =
     (let w = w\<lparr>cw_warnings := push_cleanup_warnings (cw_warnings w) (fl_warnings f)\<rparr> in
      (finish_outcome (fl_status f) (ce_say env (AboutStage (FailureSummary (fl_status f)))) True
         (absent_data action change_id (fl_reason f)) w, w))"

section \<open>Candidate files\<close>

definition fs_of :: "candidate_root \<Rightarrow> candidate_fs" where
  "fs_of c =
     (case c of
        CandidateDir fs \<Rightarrow> fs
      | CandidateLink fs \<Rightarrow> fs
      | CandidateMissing \<Rightarrow>
          \<lparr>cf_tree = [], cf_behind_link = (\<lambda>_. Inl NotFound), cf_stat_fault = (\<lambda>_. False),
           cf_read_fault = (\<lambda>_. False)\<rparr>)"

definition with_fs :: "candidate_root \<Rightarrow> candidate_fs \<Rightarrow> candidate_root" where
  "with_fs c fs = (case c of CandidateLink _ \<Rightarrow> CandidateLink fs | _ \<Rightarrow> CandidateDir fs)"

definition is_link :: "candidate_root \<Rightarrow> bool" where
  "is_link c = (case c of CandidateLink _ \<Rightarrow> True | _ \<Rightarrow> False)"

text \<open>\<open>fs::read\<close>: links are followed, a fault is reported with its text.\<close>

definition read_file :: "(rel_path \<Rightarrow> string option) \<Rightarrow> candidate_fs \<Rightarrow> rel_path \<Rightarrow> string + string" where
  "read_file fault fs p =
     (case fault p of
        Some e \<Rightarrow> Inl e
      | None \<Rightarrow>
          (case symlink_metadata fs p of
             Inl _ \<Rightarrow> Inl ''not available''
           | Inr (FileNode bytes) \<Rightarrow> Inr bytes
           | Inr LinkNode \<Rightarrow>
               (case cf_behind_link fs p of Inr (FileNode bytes) \<Rightarrow> Inr bytes | _ \<Rightarrow> Inl ''not available'')
           | Inr _ \<Rightarrow> Inl ''not a file''))"

definition stored_hash_of :: "(string \<Rightarrow> string) \<Rightarrow> string \<Rightarrow> stored_hash" where
  "stored_hash_of sha bytes = \<lparr>sth_sha256 = sha bytes, sth_bytes = min u64_max (length bytes)\<rparr>"

definition verify_file ::
  "change_env \<Rightarrow> (rel_path \<Rightarrow> string option) \<Rightarrow> candidate_fs \<Rightarrow> string \<Rightarrow> stored_hash \<Rightarrow> string option" where
  "verify_file env fault fs file recorded =
     (case candidate_relative file of
        Inl e \<Rightarrow> Some (ce_say env (AboutChange (RecordedPathInvalid file e)))
      | Inr p \<Rightarrow>
          (case symlink_metadata fs p of
             Inl _ \<Rightarrow> Some (ce_say env (AboutChange (RecordedUnavailable file)))
           | Inr (FileNode _) \<Rightarrow>
               (case read_file fault fs p of
                  Inl e \<Rightarrow> Some (ce_say env (AboutChange (RecordedUnreadable file e)))
                | Inr bytes \<Rightarrow>
                    if ce_sha env bytes \<noteq> sth_sha256 recorded \<or> length bytes \<noteq> sth_bytes recorded
                    then Some (ce_say env (AboutChange (RecordedMismatch file))) else None)
           | Inr _ \<Rightarrow> Some (ce_say env (AboutChange (RecordedNotRegular file)))))"

fun verify_files ::
  "change_env \<Rightarrow> (rel_path \<Rightarrow> string option) \<Rightarrow> candidate_fs \<Rightarrow> (string \<times> stored_hash) list \<Rightarrow> string option" where
  "verify_files env fault fs [] = None"
| "verify_files env fault fs ((file, recorded) # rest) =
     (case verify_file env fault fs file recorded of
        Some e \<Rightarrow> Some e
      | None \<Rightarrow> verify_files env fault fs rest)"

definition verify_candidate_bytes ::
  "change_env \<Rightarrow> (rel_path \<Rightarrow> string option) \<Rightarrow> change_store \<Rightarrow> string \<Rightarrow> change_record \<Rightarrow> string option" where
  "verify_candidate_bytes env fault st i r =
     verify_files env fault (fs_of (sl_candidate (slot_of st i))) (chr_source_hashes r)"

section \<open>Staging\<close>

record stage_io =
  sg_lock :: lock_io
  sg_load :: "string option"
  sg_cancelled :: "nat \<Rightarrow> bool"
  sg_marker :: save_io
  sg_faults :: "rel_path \<Rightarrow> write_faults"
  sg_temp_sequence :: nat
  sg_reread :: "rel_path \<Rightarrow> string option"
  sg_failed :: save_io
  sg_final :: save_io
  sg_final_failed :: save_io

text \<open>The worker's result; a buffer that outgrows its limit while planning panics.\<close>

datatype stage_result = StageDone change_record | StageFailed change_failure | StagePanicked

definition push_record_warning :: "string \<Rightarrow> change_record \<Rightarrow> change_record" where
  "push_record_warning text r =
     (if length (chr_cleanup_warnings r) < MAX_CLEANUP_WARNINGS
      then r\<lparr>chr_cleanup_warnings := chr_cleanup_warnings r @ [text]\<rparr> else r)"

definition mark_inconsistent :: "string \<Rightarrow> change_record \<Rightarrow> change_record" where
  "mark_inconsistent text r =
     push_record_warning text (r\<lparr>chr_state := RecordFailedInconsistent, chr_applying_revision := None\<rparr>)"

definition stage_refusal ::
  "change_env \<Rightarrow> bool \<Rightarrow> nat option \<Rightarrow> string option \<Rightarrow> change_record \<Rightarrow> change_failure option" where
  "stage_refusal env cancelled expected base r =
     (case expected of
        None \<Rightarrow> Some (failure_new ''INVALID'' (ce_say env (AboutRequest RevisionRequired)))
      | Some revision \<Rightarrow>
          if revision \<noteq> chr_revision r
          then Some (failure_new ''STALE'' (ce_say env (AboutRequest (StaleRevision revision (chr_revision r)))))
          else case base of
            None \<Rightarrow> Some (failure_new ''INVALID'' (ce_say env (AboutRequest BaseRequired)))
          | Some identity \<Rightarrow>
              if identity \<noteq> chr_base_identity r then Some (failure_new ''STALE'' (ce_say env (AboutRequest StaleBase)))
              else if cancelled
              then Some (failure_new ''CANCELLED'' (ce_say env (AboutRequest (CancelledReason ChangeStage))))
              else if ccf_max_revisions (ce_config env) < sat_add (chr_revision r) 1
              then Some (failure_new ''REVISION_LIMIT''
                     (ce_say env (AboutStage (RevisionLimit (ccf_max_revisions (ce_config env))))))
              else None)"

definition stage_limits :: "change_env \<Rightarrow> change_record \<Rightarrow> candidate_limits" where
  "stage_limits env r =
     \<lparr>cl_current_files = chr_candidate_files r, cl_current_bytes = chr_candidate_bytes r,
      cl_max_files = ccf_max_files (ce_config env), cl_max_bytes = ccf_max_bytes (ce_config env)\<rparr>"

fun read_back ::
  "change_env \<Rightarrow> (rel_path \<Rightarrow> string option) \<Rightarrow> candidate_fs \<Rightarrow> planned_file list \<Rightarrow>
   (string, stored_hash) btree_map \<Rightarrow> stage_message \<times> stage_message + (string, stored_hash) btree_map" where
  "read_back env fault fs [] hashes = Inr hashes"
| "read_back env fault fs (f # files) hashes =
     (let relative = relative_path_string (pf_relative f) in
      case read_file fault fs (pf_relative f) of
        Inl e \<Rightarrow> Inl (ReReadFault relative e, ReReadFailed relative)
      | Inr bytes \<Rightarrow>
          if bytes \<noteq> pf_contents f then Inl (PlanMismatch relative, PlanMismatch relative)
          else read_back env fault fs files
            (bt_insert relative (stored_hash_of (ce_sha env) bytes) hashes))"

definition accounted_bytes :: "change_record \<Rightarrow> patch_plan \<Rightarrow> int" where
  "accounted_bytes r plan =
     int (chr_candidate_bytes r) +
     sum_list (map (\<lambda>f. int (length (pf_contents f)) - int (pf_previous_bytes f)) (pp_files plan))"

fun add_changed_files :: "string list \<Rightarrow> planned_file list \<Rightarrow> string list" where
  "add_changed_files changed [] = changed"
| "add_changed_files changed (f # files) =
     (let relative = relative_path_string (pf_relative f) in
      add_changed_files (if relative \<in> set changed then changed else changed @ [relative]) files)"

definition stored_new_files :: "(string \<Rightarrow> string) \<Rightarrow> patch_plan \<Rightarrow> stored_new_file list" where
  "stored_new_files sha plan =
     map (\<lambda>f. \<lparr>stn_file = relative_path_string (pn_relative f), stn_content = pn_content f,
               stn_sha256 = sha (pn_content f), stn_bytes = min u64_max (length (pn_content f))\<rparr>)
       (pp_new_files plan)"

definition stored_patches :: "patch_plan \<Rightarrow> stored_patch list" where
  "stored_patches plan =
     map (\<lambda>p. \<lparr>stp_file = normalize_patch_file (pi_file p), stp_old_string = pi_old_string p,
               stp_new_string = pi_new_string p\<rparr>) (pp_patches plan)"

text \<open>The completed revision: lines 3040 to 3065.\<close>

definition staged_record ::
  "(string \<Rightarrow> string) \<Rightarrow> patch_plan \<Rightarrow> (string, stored_hash) btree_map \<Rightarrow> change_record \<Rightarrow> change_record" where
  "staged_record sha plan hashes r =
     (let revision = sat_add (chr_revision r) 1;
          patches = chr_patches r @ stored_patches plan;
          new_files = chr_new_files r @ stored_new_files sha plan
      in r\<lparr>chr_source_hashes := fold (\<lambda>(file, h). bt_insert file h) hashes (chr_source_hashes r),
           chr_candidate_files := sat_add (chr_candidate_files r) (length (pp_new_files plan)),
           chr_candidate_bytes := min u64_max (nat (accounted_bytes r plan)),
           chr_revision := revision, chr_patches := patches, chr_new_files := new_files,
           chr_changed_files :=
             take MAX_CHANGED_FILES_IN_RECORD (add_changed_files (chr_changed_files r) (pp_files plan)),
           chr_patch_hash := compute_patch_hash sha revision patches new_files,
           chr_evidence := map supersede (chr_evidence r),
           chr_state := RecordReady, chr_applying_revision := None\<rparr>)"

definition stage_inconsistent ::
  "change_env \<Rightarrow> stage_io \<Rightarrow> string \<Rightarrow> string \<Rightarrow> change_record \<Rightarrow> change_store \<Rightarrow> stage_result \<times> change_store" where
  "stage_inconsistent env io warning reason r st =
     (let (_, _, st) = store_save (sg_failed io) (mark_inconsistent warning r) st
      in (StageFailed (failure_new ''FAILED_INCONSISTENT'' reason), st))"

text \<open>Everything after the durable marker.\<close>

definition put_candidate :: "string \<Rightarrow> candidate_fs \<Rightarrow> change_store \<Rightarrow> change_store" where
  "put_candidate i fs st =
     (let slot = slot_of st i in bt_insert i (slot\<lparr>sl_candidate := with_fs (sl_candidate slot) fs\<rparr>) st)"

definition stage_apply ::
  "change_env \<Rightarrow> stage_io \<Rightarrow> patch_plan \<Rightarrow> change_record \<Rightarrow> change_store \<Rightarrow> stage_result \<times> change_store" where
  "stage_apply env io plan r st =
     (let i = chr_id r;
          (res, fs, _) = apply_plan (sg_faults io) (ce_pid env)
            (fs_of (sl_candidate (slot_of st i))) plan (sg_temp_sequence io);
          st = put_candidate i fs st
      in case res of
        Some e \<Rightarrow>
          stage_inconsistent env io (store_truncate (ce_say env (AboutStage (ApplyFault e))) 512)
            (ce_say env (AboutStage (ApplyFailed e))) r st
      | None \<Rightarrow>
          (case read_back env (sg_reread io) fs (pp_files plan) [] of
             Inl (warning, reason) \<Rightarrow>
               stage_inconsistent env io (ce_say env (AboutStage warning)) (ce_say env (AboutStage reason)) r st
           | Inr hashes \<Rightarrow>
               if accounted_bytes r plan < 0
               then stage_inconsistent env io (ce_say env (AboutStage AccountingFault)) (ce_say env (AboutStage AccountingFailed)) r st
               else
                 (case store_save (sg_final io) (staged_record (ce_sha env) plan hashes r) st of
                    (None, r, st) \<Rightarrow> (StageDone r, st)
                  | (Some e, r, st) \<Rightarrow>
                      let (_, _, st) =
                            store_save (sg_final_failed io) (mark_inconsistent (store_truncate e 512) r) st
                      in (StageFailed (failure_new ''FAILED_INCONSISTENT''
                            (ce_say env (AboutStage (RecordUnpublished e)))), st))))"

definition applying_record :: "change_record \<Rightarrow> change_record" where
  "applying_record r =
     r\<lparr>chr_state := RecordApplying, chr_applying_revision := Some (sat_add (chr_revision r) 1)\<rparr>"

definition stage_locked ::
  "change_env \<Rightarrow> stage_io \<Rightarrow> change_record \<Rightarrow> nat option \<Rightarrow> string option \<Rightarrow> patch_input list \<Rightarrow>
   new_file_input list \<Rightarrow> change_store \<Rightarrow> stage_result \<times> change_store" where
  "stage_locked env io r expected base patches new_files st =
     (case stage_refusal env (sg_cancelled io 0) expected base r of
        Some f \<Rightarrow> (StageFailed f, st)
      | None \<Rightarrow>
          (case plan_patches (fs_of (sl_candidate (slot_of st (chr_id r)))) patches new_files
                  (stage_limits env r) of
             Inl CapacityOverflow \<Rightarrow> (StagePanicked, st)
           | Inl e \<Rightarrow> (StageFailed (failure_new ''PATCH_REJECTED'' (ce_say env (AboutStage (PatchRejected e)))), st)
           | Inr plan \<Rightarrow>
               if sg_cancelled io 1
               then (StageFailed (failure_new ''CANCELLED'' (ce_say env (AboutRequest (CancelledReason ChangeStage)))), st)
               else
                 (case store_save (sg_marker io) (applying_record r) st of
                    (Some e, _, st) \<Rightarrow>
                      (StageFailed (failure_new ''UNAVAILABLE'' (ce_say env (AboutStage (MarkerUnpublished e)))), st)
                  | (None, r, st) \<Rightarrow> stage_apply env io plan r st)))"

definition blocked_status :: "record_state \<Rightarrow> string" where
  "blocked_status s =
     (case s of
        RecordFailedInconsistent \<Rightarrow> ''FAILED_INCONSISTENT''
      | RecordDiscarded \<Rightarrow> ''DISCARDED''
      | RecordCapturing \<Rightarrow> ''FAILED_INCONSISTENT''
      | RecordApplying \<Rightarrow> ''FAILED_INCONSISTENT''
      | RecordReady \<Rightarrow> ''INVALID'')"

definition stage_blocking ::
  "change_env \<Rightarrow> stage_io \<Rightarrow> string \<Rightarrow> nat \<Rightarrow> nat option \<Rightarrow> string option \<Rightarrow> patch_input list \<Rightarrow>
   new_file_input list \<Rightarrow> change_store \<Rightarrow> stage_result \<times> change_store" where
  "stage_blocking env io i epoch expected base patches new_files st =
     (case try_lock (sg_lock io) i st of
        (Inl e, st) \<Rightarrow> (StageFailed (failure_new ''UNAVAILABLE'' e), st)
      | (Inr False, st) \<Rightarrow> (StageFailed (failure_new ''CHANGE_BUSY'' (ce_say env (AboutChange LockBusy))), st)
      | (Inr True, st) \<Rightarrow>
          (case store_load (sg_load io) st i of
             Inl e \<Rightarrow> (StageFailed (failure_new ''INVALID'' e), st)
           | Inr None \<Rightarrow> (StageFailed (failure_new ''NOT_FOUND'' (ce_say env (AboutStage NoRecordForId))), st)
           | Inr (Some r) \<Rightarrow>
               if chr_state r \<noteq> RecordReady
               then (StageFailed (failure_new (blocked_status (chr_state r))
                       (ce_say env (AboutStage (StateReason (chr_state r))))), st)
               else if chr_workspace_epoch r \<noteq> epoch
               then (StageFailed (failure_new ''STALE''
                       (ce_say env (AboutRequest (EpochChanged ChangeStage (chr_workspace_epoch r) epoch)))), st)
               else stage_locked env io r expected base patches new_files st))"

definition change_stage ::
  "change_env \<Rightarrow> stage_io \<Rightarrow> change_request \<Rightarrow> nat \<Rightarrow> change_world \<Rightarrow> change_outcome \<times> change_world" where
  "change_stage env io request epoch w =
     (case cr_change_id request of
        None \<Rightarrow>
          (error_outcome ChangeStage ''INVALID'' (ce_say env (AboutRequest (ChangeIdRequiredSummary ChangeStage)))
             (ce_say env (AboutRequest ChangeIdRequired)) None w, w)
      | Some i \<Rightarrow>
          if \<not> is_valid_change_id i
          then (error_outcome ChangeStage ''INVALID'' (ce_say env (AboutRequest InvalidIdSummary))
                  (ce_say env (AboutRequest InvalidId)) (Some i) w, w)
          else
            let (res, st) = stage_blocking env io i epoch (cr_expected_revision request)
                  (cr_base_identity request) (cr_patches request) (cr_new_files request) (cw_store w);
                w = w\<lparr>cw_store := st\<rparr>
            in case res of
              StageDone r \<Rightarrow>
                (finish_outcome ''STAGED'' (ce_say env (AboutStage StagedSummary)) False
                   (change_data_for_record ChangeStage r None) w, w)
            | StageFailed f \<Rightarrow> failure_outcome env ChangeStage (Some i) f w
            | StagePanicked \<Rightarrow>
                (error_outcome ChangeStage ''UNAVAILABLE'' (ce_say env (AboutStage PatchWorkerSummary))
                   (ce_say env (AboutStage WorkerPanic)) (Some i) w, w))"

end
