(* ===== verification/Change_Actions.thy ===== *)
theory Change_Actions
  imports Change_Service
begin

text \<open>
  Inspecting, validating, exporting and discarding a change (\<open>change/service.rs\<close>). Validation and export
  read the record, lock the change, read it again and refuse when it moved; both compare every recorded
  candidate file with the bytes on disk before they vouch for anything.
\<close>

section \<open>Shared refusals\<close>

definition checked_id :: "change_env \<Rightarrow> change_action \<Rightarrow> change_request \<Rightarrow> change_world \<Rightarrow> change_outcome + string" where
  "checked_id env action request w =
     (case cr_change_id request of
        None \<Rightarrow>
          Inl (error_outcome action ''INVALID'' (ce_say env (AboutRequest (ChangeIdRequiredSummary action)))
            (ce_say env (AboutRequest ChangeIdRequired)) None w)
      | Some i \<Rightarrow>
          if is_valid_change_id i then Inr i
          else Inl (error_outcome action ''INVALID'' (ce_say env (AboutRequest InvalidIdSummary))
            (ce_say env (AboutRequest InvalidId)) (Some i) w))"

definition refuse_change ::
  "change_env \<Rightarrow> change_action \<Rightarrow> string \<Rightarrow> change_message \<Rightarrow> change_record \<Rightarrow> string \<Rightarrow> change_world \<Rightarrow> change_outcome" where
  "refuse_change env action status summary r reason w =
     finish_outcome status (ce_say env summary) True (refused_data action r reason) w"

text \<open>Loading for an action that needs a record: \<open>NOT_FOUND\<close> and unreadable records become outcomes.\<close>

definition load_for ::
  "change_env \<Rightarrow> change_action \<Rightarrow> string option \<Rightarrow> string \<Rightarrow> change_world \<Rightarrow> change_outcome + change_record" where
  "load_for env action fault i w =
     (case store_load fault (cw_store w) i of
        Inr (Some r) \<Rightarrow> Inr r
      | Inr None \<Rightarrow>
          Inl (error_outcome action ''NOT_FOUND'' (ce_say env (AboutRequest NoScratchSummary))
            (ce_say env (AboutRequest NoRecordExists)) (Some i) w)
      | Inl e \<Rightarrow>
          Inl (error_outcome action ''INVALID'' (ce_say env (AboutRequest UnreadableSummary)) e (Some i) w))"

definition moved_status :: "record_state \<Rightarrow> string" where
  "moved_status s =
     (case s of
        RecordFailedInconsistent \<Rightarrow> ''FAILED_INCONSISTENT''
      | RecordDiscarded \<Rightarrow> ''DISCARDED''
      | RecordApplying \<Rightarrow> ''FAILED_INCONSISTENT''
      | RecordCapturing \<Rightarrow> ''FAILED_INCONSISTENT''
      | RecordReady \<Rightarrow> ''STALE'')"

definition same_pin :: "change_record \<Rightarrow> change_record \<Rightarrow> bool" where
  "same_pin r pinned \<longleftrightarrow>
     chr_revision r = chr_revision pinned \<and> chr_state r = chr_state pinned \<and>
     chr_base_identity r = chr_base_identity pinned \<and>
     chr_workspace_epoch r = chr_workspace_epoch pinned \<and>
     chr_applying_revision r = chr_applying_revision pinned"

definition reload_pinned_record ::
  "change_env \<Rightarrow> change_action \<Rightarrow> string option \<Rightarrow> string \<Rightarrow> change_record \<Rightarrow> change_world \<Rightarrow>
   change_outcome + change_record" where
  "reload_pinned_record env action fault i pinned w =
     (case load_for env action fault i w of
        Inl outcome \<Rightarrow> Inl outcome
      | Inr r \<Rightarrow>
          if same_pin r pinned then Inr r
          else Inl (refuse_change env action (moved_status (chr_state r)) (AboutChange MovedSummary) r
            (ce_say env (AboutChange (MovedReason (chr_state pinned) (chr_revision pinned) (chr_state r)
               (chr_revision r)))) w))"

text \<open>Only a ready record can be validated or exported.\<close>

definition state_refusal ::
  "change_env \<Rightarrow> change_action \<Rightarrow> change_record \<Rightarrow> change_world \<Rightarrow> change_outcome option" where
  "state_refusal env action r w =
     (case chr_state r of
        RecordFailedInconsistent \<Rightarrow>
          Some (refuse_change env action ''FAILED_INCONSISTENT'' (AboutChange (PartialSummary action)) r
            (ce_say env (AboutChange (PartialReason action))) w)
      | RecordDiscarded \<Rightarrow>
          Some (refuse_change env action ''DISCARDED'' (AboutChange DiscardedSummary) r
            (ce_say env (AboutChange CopyDiscarded)) w)
      | RecordApplying \<Rightarrow>
          Some (refuse_change env action ''FAILED_INCONSISTENT'' (AboutChange (UnrecordedSummary action)) r
            (ce_say env (AboutChange (StillReason (chr_state r)))) w)
      | RecordCapturing \<Rightarrow>
          Some (refuse_change env action ''FAILED_INCONSISTENT'' (AboutChange (UnrecordedSummary action)) r
            (ce_say env (AboutChange (StillReason (chr_state r)))) w)
      | RecordReady \<Rightarrow> None)"

text \<open>Recorded bytes that no longer match: inconsistent, and every row superseded.\<close>

definition mismatch_record :: "string \<Rightarrow> change_record \<Rightarrow> change_record" where
  "mismatch_record reason r =
     push_record_warning (store_truncate reason 512)
       (r\<lparr>chr_state := RecordFailedInconsistent, chr_applying_revision := None,
         chr_evidence := map supersede (chr_evidence r)\<rparr>)"

section \<open>Inspect\<close>

definition change_inspect ::
  "change_env \<Rightarrow> string option \<Rightarrow> change_request \<Rightarrow> change_world \<Rightarrow> change_outcome" where
  "change_inspect env fault request w =
     (case cr_change_id request of
        None \<Rightarrow>
          error_outcome ChangeInspect ''INVALID''
            (ce_say env (AboutRequest (ChangeIdRequiredSummary ChangeInspect)))
            (ce_say env (AboutRequest ChangeIdRequired)) None w
      | Some i \<Rightarrow>
          (case load_for env ChangeInspect fault i w of
             Inl outcome \<Rightarrow> outcome
           | Inr r \<Rightarrow>
               finish_outcome ''INSPECTED'' (ce_say env (AboutResult InspectedSummary)) False
                 (change_data_for_record ChangeInspect r None) w))"

section \<open>Validate\<close>

record validate_io =
  va_load :: "string option"
  va_cancelled_before :: bool
  va_lock :: lock_io
  va_reload :: "string option"
  va_activity :: save_io
  va_read :: "rel_path \<Rightarrow> string option"
  va_failed :: save_io
  va_is_dir :: "string \<Rightarrow> bool"
  va_guard :: "string option"
  va_gate :: "candidate_fs \<Rightarrow> gate_evidence \<times> candidate_fs"
  va_updated :: "string option"
  va_cancelled_after :: bool
  va_now :: nat
  va_final :: save_io

text \<open>Up to the lock: the record is pinned.\<close>

definition validate_pin ::
  "change_env \<Rightarrow> validate_io \<Rightarrow> change_request \<Rightarrow> nat \<Rightarrow> change_world \<Rightarrow> change_outcome + string \<times> change_record" where
  "validate_pin env io request epoch w =
     (case checked_id env ChangeValidate request w of
        Inl outcome \<Rightarrow> Inl outcome
      | Inr i \<Rightarrow>
          (case load_for env ChangeValidate (va_load io) i w of
             Inl outcome \<Rightarrow> Inl outcome
           | Inr r \<Rightarrow>
               (case state_refusal env ChangeValidate r w of
                  Some outcome \<Rightarrow> Inl outcome
                | None \<Rightarrow>
                    (case cr_expected_revision request of
                       None \<Rightarrow>
                         Inl (error_outcome ChangeValidate ''INVALID''
                           (ce_say env (AboutRequest (RevisionRequiredSummary ChangeValidate)))
                           (ce_say env (AboutRequest RevisionRequired)) (Some i) w)
                     | Some revision \<Rightarrow>
                         if revision \<noteq> chr_revision r
                         then Inl (refuse_change env ChangeValidate ''STALE''
                                (AboutRequest (StaleRevisionSummary ChangeValidate)) r
                                (ce_say env (AboutRequest (StaleRevision revision (chr_revision r)))) w)
                         else case cr_base_identity request of
                           None \<Rightarrow>
                             Inl (error_outcome ChangeValidate ''INVALID''
                               (ce_say env (AboutRequest (BaseRequiredSummary ChangeValidate)))
                               (ce_say env (AboutRequest BaseRequired)) (Some i) w)
                         | Some base \<Rightarrow>
                             if base \<noteq> chr_base_identity r
                             then Inl (refuse_change env ChangeValidate ''STALE''
                                    (AboutRequest (StaleBaseSummary ChangeValidate)) r
                                    (ce_say env (AboutRequest StaleBase)) w)
                             else if chr_workspace_epoch r \<noteq> epoch
                             then Inl (refuse_change env ChangeValidate ''STALE''
                                    (AboutRequest (EpochSummary ChangeValidate)) r
                                    (ce_say env (AboutRequest
                                      (EpochChanged ChangeValidate (chr_workspace_epoch r) epoch))) w)
                             else if va_cancelled_before io
                             then Inl (refuse_change env ChangeValidate ''CANCELLED''
                                    (AboutRequest (CancelledSummary ChangeValidate)) r
                                    (ce_say env (AboutRequest (CancelledReason ChangeValidate))) w)
                             else Inr (i, r)))))"

definition validate_status :: "bool \<Rightarrow> gate_status \<Rightarrow> string" where
  "validate_status fresh s =
     (if fresh
      then (case s of
              GFastPass \<Rightarrow> ''PASS''
            | GFullPass \<Rightarrow> ''PASS''
            | GFail \<Rightarrow> ''FAIL''
            | other \<Rightarrow> gate_status_as_str other)
      else (case s of
              GCancelled \<Rightarrow> ''CANCELLED''
            | GTimeout \<Rightarrow> ''TIMEOUT''
            | _ \<Rightarrow> ''INCONCLUSIVE''))"

definition validate_reason :: "change_env \<Rightarrow> string option \<Rightarrow> bool \<Rightarrow> string \<Rightarrow> string option \<Rightarrow> string" where
  "validate_reason env save_error fresh status message =
     (let detail =
            (case message of
               None \<Rightarrow> None
             | Some m \<Rightarrow> if trim m = [] then None else Some (store_truncate (trim m) 256))
      in case save_error of
        Some e \<Rightarrow> ce_say env (AboutResult (NotPersisted e))
      | None \<Rightarrow>
          if fresh then ce_say env (AboutResult (FreshEvidence status detail))
          else ce_say env (AboutResult (EvidenceUnusable detail)))"

definition push_service_warnings :: "string list \<Rightarrow> change_world \<Rightarrow> change_world" where
  "push_service_warnings ws w = w\<lparr>cw_warnings := push_cleanup_warnings (cw_warnings w) ws\<rparr>"

text \<open>The record the new rows are appended to, and the rows kept.\<close>

definition updated_record :: "string option \<Rightarrow> string \<Rightarrow> change_record \<Rightarrow> change_store \<Rightarrow> change_record" where
  "updated_record fault i r st =
     (case store_load fault st i of
        Inr (Some u) \<Rightarrow>
          if chr_revision u = chr_revision r then u else r\<lparr>chr_evidence := map supersede (chr_evidence r)\<rparr>
      | _ \<Rightarrow> r\<lparr>chr_evidence := map supersede (chr_evidence r)\<rparr>)"

definition keep_evidence :: "stored_evidence list \<Rightarrow> stored_evidence list" where
  "keep_evidence rows = drop (length rows - MAX_RECORDED_EVIDENCE) rows"

text \<open>The gate run on the candidate and the recording of its evidence.\<close>

definition validate_run ::
  "change_env \<Rightarrow> validate_io \<Rightarrow> string \<Rightarrow> change_record \<Rightarrow> nat \<Rightarrow> change_world \<Rightarrow> change_outcome \<times> change_world" where
  "validate_run env io i r epoch w =
     (let (evidence, fs) = va_gate io (fs_of (sl_candidate (slot_of (cw_store w) i)));
          st = put_candidate i fs (cw_store w);
          updated = updated_record (va_updated io) i r st;
          fresh = (evidence_freshness evidence (va_cancelled_after io) \<and>
            chr_revision updated = chr_revision r \<and> epoch = chr_workspace_epoch r);
          rows = evidence_rows (chr_revision r) fresh (va_now io) evidence;
          updated = updated\<lparr>chr_evidence := keep_evidence (chr_evidence updated @ rows)\<rparr>;
          (save_error, updated, st) = store_save (va_final io) updated st;
          w = push_service_warnings (case save_error of None \<Rightarrow> [] | Some e \<Rightarrow> [e]) (w\<lparr>cw_store := st\<rparr>);
          status = validate_status fresh (ge_status evidence);
          data = (change_data_for_record ChangeValidate updated None)\<lparr>
            cd_verified := current_revision_fresh_pass updated,
            cd_reason := validate_reason env save_error fresh status (ge_message evidence)\<rparr>
      in (finish_outcome status (ce_say env (AboutResult ValidatedSummary))
            (status \<noteq> ''PASS'' \<and> status \<noteq> ''FAIL'') data w, w))"

text \<open>From the lock to the gate run: the locked record whose recorded bytes were found on disk, or an answer.\<close>

definition validate_ready ::
  "change_env \<Rightarrow> validate_io \<Rightarrow> string \<Rightarrow> change_record \<Rightarrow> change_world \<Rightarrow>
   (change_outcome + change_record) \<times> change_world" where
  "validate_ready env io i pinned w =
     (case try_lock (va_lock io) i (cw_store w) of
        (Inl e, st) \<Rightarrow>
          (Inl (error_outcome ChangeValidate ''UNAVAILABLE'' (ce_say env (AboutChange LockSummary)) e (Some i) w),
           w\<lparr>cw_store := st\<rparr>)
      | (Inr False, st) \<Rightarrow>
          (Inl (refuse_change env ChangeValidate ''CHANGE_BUSY'' (AboutChange BusySummary) pinned
             (ce_say env (AboutChange LockBusy)) w), w\<lparr>cw_store := st\<rparr>)
      | (Inr True, st) \<Rightarrow>
          let w = w\<lparr>cw_store := st\<rparr> in
          (case reload_pinned_record env ChangeValidate (va_reload io) i pinned w of
             Inl outcome \<Rightarrow> (Inl outcome, w)
           | Inr r \<Rightarrow>
               if is_link (sl_candidate (slot_of st i))
               then (Inl (error_outcome ChangeValidate ''FAILED_INCONSISTENT''
                       (ce_say env (AboutChange (LinkSummary ChangeValidate)))
                       (ce_say env (AboutChange LinkReason)) (Some i) w), w)
               else if chr_applying_revision r \<noteq> None
               then (Inl (refuse_change env ChangeValidate ''FAILED_INCONSISTENT''
                       (AboutChange (InterruptedSummary ChangeValidate)) r
                       (ce_say env (AboutChange InterruptedReason)) w), w)
               else
                 let (res, _, st) = store_save (va_activity io) r st;
                     w = push_service_warnings (case res of None \<Rightarrow> [] | Some e \<Rightarrow> [e]) (w\<lparr>cw_store := st\<rparr>)
                 in case verify_candidate_bytes env (va_read io) st i r of
                   Some reason \<Rightarrow>
                     let (_, failed, st) = store_save (va_failed io) (mismatch_record reason r) st;
                         w = w\<lparr>cw_store := st\<rparr>
                     in (Inl (refuse_change env ChangeValidate ''FAILED_INCONSISTENT''
                           (AboutChange (MismatchSummary ChangeValidate)) failed reason w), w)
                 | None \<Rightarrow>
                     (case List.find (\<lambda>root. \<not> va_is_dir io root) (chr_external_paths r) of
                        Some root \<Rightarrow>
                          (Inl (error_outcome ChangeValidate ''UNVERIFIABLE_DEPENDENCY''
                             (ce_say env (AboutResult DependencyGoneSummary))
                             (ce_say env (AboutResult (DependencyGone root))) (Some i) w), w)
                      | None \<Rightarrow>
                          (case va_guard io of
                             Some e \<Rightarrow>
                               (Inl (error_outcome ChangeValidate ''UNVERIFIABLE_DEPENDENCY''
                                  (ce_say env (AboutResult DependencySummary))
                                  (ce_say env (AboutResult (DependencyReason e))) (Some i) w), w)
                           | None \<Rightarrow> (Inr r, w)))))"

definition validate_locked ::
  "change_env \<Rightarrow> validate_io \<Rightarrow> string \<Rightarrow> change_record \<Rightarrow> nat \<Rightarrow> change_world \<Rightarrow> change_outcome \<times> change_world" where
  "validate_locked env io i pinned epoch w =
     (case validate_ready env io i pinned w of
        (Inl outcome, w) \<Rightarrow> (outcome, w)
      | (Inr r, w) \<Rightarrow> validate_run env io i r epoch w)"

section \<open>Export\<close>

record export_io =
  ex_load :: "string option"
  ex_lock :: lock_io
  ex_reload :: "string option"
  ex_read :: "rel_path \<Rightarrow> string option"
  ex_failed :: save_io

definition export_pin ::
  "change_env \<Rightarrow> export_io \<Rightarrow> change_request \<Rightarrow> nat \<Rightarrow> change_world \<Rightarrow> change_outcome + string \<times> change_record" where
  "export_pin env io request epoch w =
     (case checked_id env ChangeExport request w of
        Inl outcome \<Rightarrow> Inl outcome
      | Inr i \<Rightarrow>
          (case load_for env ChangeExport (ex_load io) i w of
             Inl outcome \<Rightarrow> Inl outcome
           | Inr r \<Rightarrow>
               (case state_refusal env ChangeExport r w of
                  Some outcome \<Rightarrow> Inl outcome
                | None \<Rightarrow>
                    if chr_workspace_epoch r \<noteq> epoch
                    then Inl (refuse_change env ChangeExport ''STALE'' (AboutRequest (EpochSummary ChangeExport)) r
                           (ce_say env (AboutRequest
                             (EpochChanged ChangeExport (chr_workspace_epoch r) epoch))) w)
                    else Inr (i, r))))"

definition export_locked ::
  "change_env \<Rightarrow> export_io \<Rightarrow> string \<Rightarrow> change_record \<Rightarrow> change_world \<Rightarrow> change_outcome \<times> change_world" where
  "export_locked env io i pinned w =
     (case try_lock (ex_lock io) i (cw_store w) of
        (Inl e, st) \<Rightarrow>
          (error_outcome ChangeExport ''UNAVAILABLE'' (ce_say env (AboutChange LockSummary)) e (Some i) w,
           w\<lparr>cw_store := st\<rparr>)
      | (Inr False, st) \<Rightarrow>
          (refuse_change env ChangeExport ''CHANGE_BUSY'' (AboutChange BusySummary) pinned
             (ce_say env (AboutChange LockBusy)) w, w\<lparr>cw_store := st\<rparr>)
      | (Inr True, st) \<Rightarrow>
          let w = w\<lparr>cw_store := st\<rparr> in
          (case reload_pinned_record env ChangeExport (ex_reload io) i pinned w of
             Inl outcome \<Rightarrow> (outcome, w)
           | Inr r \<Rightarrow>
               if chr_applying_revision r \<noteq> None
               then (refuse_change env ChangeExport ''FAILED_INCONSISTENT''
                       (AboutChange (InterruptedSummary ChangeExport)) r
                       (ce_say env (AboutChange InterruptedReason)) w, w)
               else case verify_candidate_bytes env (ex_read io) st i r of
                 Some reason \<Rightarrow>
                   let (_, failed, st) = store_save (ex_failed io) (mismatch_record reason r) st;
                       w = w\<lparr>cw_store := st\<rparr>
                   in (refuse_change env ChangeExport ''FAILED_INCONSISTENT''
                         (AboutChange (MismatchSummary ChangeExport)) failed reason w, w)
               | None \<Rightarrow>
                   let verified = current_revision_fresh_pass r;
                       data = (change_data_for_record ChangeExport r (Some (ce_output_bytes env div 2)))
                         \<lparr>cd_verified := verified\<rparr>
                   in (finish_outcome (if verified then ''EXPORTED'' else ''EXPORTED_UNVERIFIED'')
                         (ce_say env (AboutResult ExportedSummary)) False data w, w)))"

section \<open>Discard\<close>

record discard_io =
  di_load :: "string option"
  di_lock :: lock_io
  di_candidate :: "(string \<times> (candidate_root \<Rightarrow> candidate_root)) option"
  di_cache :: "string option"
  di_save :: save_io

definition discarded_record :: "string list \<Rightarrow> change_record \<Rightarrow> change_record" where
  "discarded_record warnings r =
     fold push_record_warning warnings
       (r\<lparr>chr_state := RecordDiscarded, chr_evidence := map supersede (chr_evidence r)\<rparr>)"

text \<open>The record is read before the lock and not again, so the locked part works on the pinned copy.\<close>

definition discard_pin ::
  "change_env \<Rightarrow> discard_io \<Rightarrow> change_request \<Rightarrow> change_world \<Rightarrow> change_outcome + string \<times> change_record" where
  "discard_pin env io request w =
     (case checked_id env ChangeDiscard request w of
        Inl outcome \<Rightarrow> Inl outcome
      | Inr i \<Rightarrow>
          (case store_load (di_load io) (cw_store w) i of
             Inr (Some r) \<Rightarrow>
               if chr_state r = RecordDiscarded
               then Inl (finish_outcome ''DISCARDED'' (ce_say env (AboutResult AlreadyDiscardedSummary)) False
                       (change_data_for_record ChangeDiscard r None) w)
               else Inr (i, r)
           | _ \<Rightarrow>
               Inl (finish_outcome ''DISCARDED'' (ce_say env (AboutResult DiscardAbsentSummary)) False
                  (default_change_data\<lparr>cd_action := change_action_as_str ChangeDiscard,
                     cd_change_id := Some i, cd_discarded := True, cd_state := ''discarded'',
                     cd_reason := ce_say env (AboutResult DiscardAbsent)\<rparr>) w)))"

definition discard_locked ::
  "change_env \<Rightarrow> discard_io \<Rightarrow> string \<Rightarrow> change_record \<Rightarrow> change_world \<Rightarrow> change_outcome \<times> change_world" where
  "discard_locked env io i r w =
     (case try_lock (di_lock io) i (cw_store w) of
        (Inl e, st) \<Rightarrow>
          (error_outcome ChangeDiscard ''UNAVAILABLE'' (ce_say env (AboutChange LockSummary)) e (Some i) w,
           w\<lparr>cw_store := st\<rparr>)
      | (Inr False, st) \<Rightarrow>
          (finish_outcome ''CHANGE_BUSY'' (ce_say env (AboutChange BusySummary)) True
             ((change_data_for_record ChangeDiscard r None)\<lparr>cd_reason := ce_say env (AboutChange LockBusy)\<rparr>) w,
           w\<lparr>cw_store := st\<rparr>)
      | (Inr True, st) \<Rightarrow>
          let (warnings, st) = discard_worktree (di_candidate io) (di_cache io) i st;
              (res, r, st) = store_save (di_save io) (discarded_record warnings r) st;
              w = push_service_warnings (case res of None \<Rightarrow> [] | Some e \<Rightarrow> [e]) (w\<lparr>cw_store := st\<rparr>);
              w = push_service_warnings warnings w;
              data = (change_data_for_record ChangeDiscard r None)\<lparr>cd_discarded := True,
                cd_reason := ce_say env (AboutResult
                  (if warnings = [] then DiscardRemoved else DiscardIncomplete))\<rparr>
          in (finish_outcome ''DISCARDED'' (ce_say env (AboutResult DiscardSummary)) False data w, w))"

end
