(* ===== verification/Change_Create.thy ===== *)
theory Change_Create
  imports Change_Actions
begin

text \<open>
  Creating a change (\<open>create_blocking\<close> and \<open>capture_into\<close> of \<open>change/service.rs\<close>): the checks that refuse
  a workspace whose copy could not be validated, a placeholder record under the lock of a fresh id, the
  capture, and the published revision 0. Workspace selection, Cargo metadata, the TOML parser and the
  authorization of the candidate root are answered by inputs.
\<close>

section \<open>Inputs\<close>

datatype create_message =
    WorkspaceSelectionFailed string
  | CaptureWasCancelled | MetadataCancelled | MetadataTimedOut | MetadataFailed string
  | ClosureIncomplete
  | CaptureUnauthorized string
  | ScratchOverlaps
  | ConfigUnreadable string string | ConfigNotUtf8 string | ConfigUnparsable string string | TargetEscapes string
  | ExternalMissing string | ExternalPaths "string list" nat
  | FreshLockBusy
  | MarkerFailed string
  | CaptureIncomplete capture_fault
  | CandidateUnauthorized string
  | ActiveLimitSummary | ActiveLimitReason nat
  | CapturedSummary

record dependency_closure =
  dpc_package_roots :: "string list"
  dpc_complete :: bool

record workspace_snapshot =
  wsn_workspace_root :: string
  wsn_target_directory :: string
  wsn_external_paths :: "string list"
  wsn_dependency_closure :: dependency_closure

datatype metadata_outcome =
  MetaCancelled | MetaTimedOut | MetaFailed string | MetaLoaded workspace_snapshot

text \<open>\<open>toml::Value\<close>, as far as the code looks: tables by key and strings.\<close>

datatype toml_value = TomlString string | TomlTable "(string \<times> toml_value) list" | TomlOther

datatype config_read = ConfigAbsent | ConfigFault string | ConfigBytes string

record create_io =
  ct_cancelled :: bool
  ct_selection :: "string option"
  ct_metadata :: metadata_outcome
  ct_authority_path :: string
  ct_authorize :: "string option"
  ct_scratch_root :: string
  ct_config :: "string \<Rightarrow> config_read"
  ct_toml :: "string \<Rightarrow> string + toml_value"
  ct_is_dir :: "string \<Rightarrow> bool"
  ct_dependency_roots :: "string list"
  ct_now :: nat
  ct_lock :: lock_io
  ct_placeholder :: save_io
  ct_source :: source_dir
  ct_destination :: "rel_path option"
  ct_capture_cancelled :: "nat \<Rightarrow> bool"
  ct_create_fault :: "string option"
  ct_parent_fault :: "rel_path \<Rightarrow> string option"
  ct_write_fault :: "rel_path \<Rightarrow> string option"
  ct_manifest :: atomic_faults
  ct_candidate_epoch :: "string + nat"
  ct_final :: save_io
  ct_remains :: "(string \<times> (change_slot \<Rightarrow> change_slot)) option"

section \<open>Refusing an unfaithful copy\<close>

definition path_is_within :: "string \<Rightarrow> string \<Rightarrow> bool" where
  "path_is_within root candidate \<longleftrightarrow> starts_with (components candidate) (components root)"

definition toml_get :: "string \<Rightarrow> toml_value \<Rightarrow> toml_value option" where
  "toml_get key v = (case v of TomlTable entries \<Rightarrow> map_of entries key | _ \<Rightarrow> None)"

definition toml_path :: "string \<Rightarrow> string \<Rightarrow> toml_value \<Rightarrow> string list" where
  "toml_path table key v =
     (case toml_get table v of
        None \<Rightarrow> []
      | Some t \<Rightarrow> (case toml_get key t of Some (TomlString s) \<Rightarrow> [s] | _ \<Rightarrow> []))"

definition cargo_target_candidates :: "toml_value \<Rightarrow> string list" where
  "cargo_target_candidates v = toml_path ''build'' ''target-dir'' v @ toml_path ''env'' ''CARGO_TARGET_DIR'' v"

text \<open>\<open>Path::join\<close>: an absolute argument replaces the base.\<close>

definition resolve_target :: "string \<Rightarrow> string \<Rightarrow> component list" where
  "resolve_target root candidate =
     (if is_absolute candidate then normalize_lexical candidate
      else normalize_lexical (root @ ''/'' @ candidate))"

definition target_escapes :: "string \<Rightarrow> toml_value \<Rightarrow> bool" where
  "target_escapes root v \<longleftrightarrow>
     list_ex (\<lambda>c. \<not> starts_with (resolve_target root c) (components root)) (cargo_target_candidates v)"

fun check_configs :: "(string \<Rightarrow> config_read) \<Rightarrow> (string \<Rightarrow> string + toml_value) \<Rightarrow> string \<Rightarrow> string list \<Rightarrow> create_message option" where
  "check_configs config parse root [] = None"
| "check_configs config parse root (relative # rest) =
     (case config relative of
        ConfigAbsent \<Rightarrow> check_configs config parse root rest
      | ConfigFault e \<Rightarrow> Some (ConfigUnreadable relative e)
      | ConfigBytes bytes \<Rightarrow>
          if \<not> from_utf8_ok bytes then Some (ConfigNotUtf8 relative)
          else case parse bytes of
            Inl e \<Rightarrow> Some (ConfigUnparsable relative e)
          | Inr v \<Rightarrow>
              if target_escapes root v then Some (TargetEscapes relative)
              else check_configs config parse root rest)"

definition reject_escaping_cargo_target :: "create_io \<Rightarrow> string \<Rightarrow> create_message option" where
  "reject_escaping_cargo_target io root =
     check_configs (ct_config io) (ct_toml io) root [''.cargo/config.toml'', ''.cargo/config'']"

fun external_roots :: "(string \<Rightarrow> bool) \<Rightarrow> string \<Rightarrow> string list \<Rightarrow> string list \<Rightarrow> create_message + string list" where
  "external_roots is_dir capture_root acc [] = Inr acc"
| "external_roots is_dir capture_root acc (root # roots) =
     (if path_is_within capture_root root then external_roots is_dir capture_root acc roots
      else if \<not> is_dir root then Inl (ExternalMissing root)
      else external_roots is_dir capture_root (if root \<in> set acc then acc else acc @ [root]) roots)"

definition reject_external_path_dependencies :: "create_io \<Rightarrow> workspace_snapshot \<Rightarrow> create_message option" where
  "reject_external_path_dependencies io snapshot =
     (case external_roots (ct_is_dir io) (wsn_workspace_root snapshot) []
             (wsn_external_paths snapshot @ dpc_package_roots (wsn_dependency_closure snapshot)) of
        Inl e \<Rightarrow> Some e
      | Inr [] \<Rightarrow> None
      | Inr roots \<Rightarrow>
          Some (ExternalPaths (map (\<lambda>r. store_truncate r 256) (take 8 roots)) (length roots - 8)))"

section \<open>Capturing\<close>

text \<open>The relative names below a prefix, for the exclusion set.\<close>

fun normal_names :: "component list \<Rightarrow> rel_path option" where
  "normal_names [] = Some []"
| "normal_names (Normal n # cs) = map_option (\<lambda>names. n # names) (normal_names cs)"
| "normal_names _ = None"

definition names_below :: "string \<Rightarrow> string \<Rightarrow> rel_path list" where
  "names_below root path =
     (if starts_with (components path) (components root)
      then (case normal_names (drop (length (components root)) (components path)) of None \<Rightarrow> [] | Some p \<Rightarrow> [p])
      else [])"

definition capture_exclusions :: "create_io \<Rightarrow> workspace_snapshot \<Rightarrow> rel_path list" where
  "capture_exclusions io snapshot =
     names_below (wsn_workspace_root snapshot) (wsn_target_directory snapshot) @
     names_below (wsn_workspace_root snapshot) (ct_scratch_root io)"

definition capture_context_of :: "change_env \<Rightarrow> create_io \<Rightarrow> workspace_snapshot \<Rightarrow> capture_context" where
  "capture_context_of env io snapshot =
     \<lparr>cx_excluded = capture_exclusions io snapshot, cx_destination = ct_destination io,
      cx_limits = \<lparr>cpl_max_files = ccf_max_files (ce_config env), cpl_max_bytes = ccf_max_bytes (ce_config env)\<rparr>,
      cx_cancelled = ct_capture_cancelled io, cx_create_fault = ct_create_fault io,
      cx_parent_fault = ct_parent_fault io, cx_write_fault = ct_write_fault io\<rparr>"

definition placeholder_record :: "nat \<Rightarrow> string \<Rightarrow> string \<Rightarrow> nat \<Rightarrow> change_record" where
  "placeholder_record now i capture_root epoch =
     \<lparr>chr_schema_version = CHANGE_SCHEMA_VERSION, chr_id = i, chr_created_at_ms = now,
      chr_updated_at_ms = now, chr_workspace_root = capture_root, chr_capture_root = capture_root,
      chr_workspace_epoch = epoch, chr_candidate_epoch = 0, chr_base_identity = [],
      chr_state = RecordCapturing,
      chr_capture = \<lparr>cs_files = 0, cs_bytes = 0, cs_manifest_hash = [], cs_complete = False, cs_excluded = []\<rparr>,
      chr_external_paths = [], chr_dependency_roots = [], chr_revision = 0, chr_applying_revision = None,
      chr_patches = [], chr_new_files = [], chr_changed_files = [], chr_candidate_files = 0,
      chr_candidate_bytes = 0, chr_patch_hash = [], chr_source_hashes = [], chr_evidence = [],
      chr_migration = None, chr_cleanup_warnings = []\<rparr>"

definition captured_record ::
  "(string \<Rightarrow> string) \<Rightarrow> nat \<Rightarrow> string \<Rightarrow> string \<Rightarrow> nat \<Rightarrow> nat \<Rightarrow> string list \<Rightarrow> capture_manifest \<Rightarrow> change_record" where
  "captured_record sha now i capture_root epoch candidate_epoch dependency_roots m =
     (let files = min u64_max (length (cm_files m)) in
      (placeholder_record now i capture_root epoch)
        \<lparr>chr_candidate_epoch := candidate_epoch,
         chr_base_identity := change_base_identity sha epoch (manifest_hash sha m) capture_root,
         chr_state := RecordReady,
         chr_capture := \<lparr>cs_files = files, cs_bytes = cm_total_bytes m, cs_manifest_hash = manifest_hash sha m,
           cs_complete = True, cs_excluded = cm_excluded m\<rparr>,
         chr_dependency_roots := dependency_roots, chr_candidate_files := files,
         chr_candidate_bytes := cm_total_bytes m\<rparr>)"

text \<open>A freshly written directory tree has no faults of its own.\<close>

definition written_fs :: "(rel_path, node) btree_map \<Rightarrow> candidate_fs" where
  "written_fs t =
     \<lparr>cf_tree = t, cf_behind_link = (\<lambda>_. Inl NotFound), cf_stat_fault = (\<lambda>_. False),
      cf_read_fault = (\<lambda>_. False)\<rparr>"

definition create_failure :: "(create_message \<Rightarrow> string) \<Rightarrow> string \<Rightarrow> create_message \<Rightarrow> change_failure" where
  "create_failure say status m = failure_new status (say m)"

definition capture_into ::
  "change_env \<Rightarrow> (create_message \<Rightarrow> string) \<Rightarrow> create_io \<Rightarrow> string \<Rightarrow> workspace_snapshot \<Rightarrow> nat \<Rightarrow>
   change_store \<Rightarrow> (change_failure + change_record) \<times> change_store" where
  "capture_into env say io i snapshot epoch st =
     (case capture_tree (ce_sha env) (capture_context_of env io snapshot) (ct_source io) of
        Inl CaptureCancelled \<Rightarrow> (Inl (create_failure say ''CANCELLED'' CaptureWasCancelled), st)
      | Inl (Incomplete fault) \<Rightarrow> (Inl (create_failure say ''INCOMPLETE_INPUTS'' (CaptureIncomplete fault)), st)
      | Inr (manifest, t) \<Rightarrow>
          let st = bt_insert i ((slot_of st i)\<lparr>sl_candidate := CandidateDir (written_fs t)\<rparr>) st in
          (case write_manifest (ct_manifest io) i manifest st of
             (Some e, st) \<Rightarrow> (Inl (failure_new ''INCOMPLETE_INPUTS'' e), st)
           | (None, st) \<Rightarrow>
               (case ct_candidate_epoch io of
                  Inl e \<Rightarrow> (Inl (create_failure say ''INCOMPLETE_INPUTS'' (CandidateUnauthorized e)), st)
                | Inr candidate_epoch \<Rightarrow>
                    (case store_save (ct_final io)
                            (captured_record (ce_sha env) (ct_now io) i (wsn_workspace_root snapshot) epoch
                               candidate_epoch (ct_dependency_roots io) manifest) st of
                       (Some e, _, st) \<Rightarrow> (Inl (failure_new ''INCOMPLETE_INPUTS'' e), st)
                     | (None, r, st) \<Rightarrow> (Inr r, st)))))"

section \<open>Creating\<close>

definition create_refusal :: "create_io \<Rightarrow> (string \<times> create_message) + workspace_snapshot" where
  "create_refusal io =
     (if ct_cancelled io then Inl (''CANCELLED'', CaptureWasCancelled)
      else case ct_selection io of
        Some e \<Rightarrow> Inl (''INCOMPLETE_INPUTS'', WorkspaceSelectionFailed e)
      | None \<Rightarrow>
          (case ct_metadata io of
             MetaCancelled \<Rightarrow> Inl (''CANCELLED'', MetadataCancelled)
           | MetaTimedOut \<Rightarrow> Inl (''TIMEOUT'', MetadataTimedOut)
           | MetaFailed e \<Rightarrow> Inl (''INCOMPLETE_INPUTS'', MetadataFailed e)
           | MetaLoaded snapshot \<Rightarrow>
               let root = wsn_workspace_root snapshot in
               if \<not> dpc_complete (wsn_dependency_closure snapshot)
               then Inl (''INCOMPLETE_INPUTS'', ClosureIncomplete)
               else if components (ct_authority_path io) \<noteq> components root \<and> ct_authorize io \<noteq> None
               then Inl (''INCOMPLETE_INPUTS'', CaptureUnauthorized (the (ct_authorize io)))
               else if path_is_within (ct_scratch_root io) root \<or> path_is_within root (ct_scratch_root io)
               then Inl (''INCOMPLETE_INPUTS'', ScratchOverlaps)
               else case reject_escaping_cargo_target io root of
                 Some m \<Rightarrow> Inl (''INCOMPLETE_INPUTS'', m)
               | None \<Rightarrow>
                   (case reject_external_path_dependencies io snapshot of
                      Some m \<Rightarrow> Inl (''INCOMPLETE_INPUTS'', m)
                    | None \<Rightarrow> Inr snapshot)))"

definition next_change_id :: "change_env \<Rightarrow> nat \<Rightarrow> change_world \<Rightarrow> string \<times> change_world" where
  "next_change_id env now w =
     (format_change_id now (ce_pid env) (cw_sequence w), w\<lparr>cw_sequence := Suc (cw_sequence w) mod 2 ^ 64\<rparr>)"

definition create_blocking ::
  "change_env \<Rightarrow> (create_message \<Rightarrow> string) \<Rightarrow> create_io \<Rightarrow> nat \<Rightarrow> change_world \<Rightarrow>
   (change_failure + change_record) \<times> change_world" where
  "create_blocking env say io epoch w =
     (case create_refusal io of
        Inl (status, m) \<Rightarrow> (Inl (create_failure say status m), w)
      | Inr snapshot \<Rightarrow>
          let (i, w) = next_change_id env (ct_now io) w in
          (case try_lock (ct_lock io) i (cw_store w) of
             (Inl e, st) \<Rightarrow> (Inl (failure_new ''RESOURCE_BLOCKED'' e), w\<lparr>cw_store := st\<rparr>)
           | (Inr False, st) \<Rightarrow> (Inl (create_failure say ''CHANGE_BUSY'' FreshLockBusy), w\<lparr>cw_store := st\<rparr>)
           | (Inr True, st) \<Rightarrow>
               (case store_save (ct_placeholder io)
                       (placeholder_record (ct_now io) i (wsn_workspace_root snapshot) epoch) st of
                  (Some e, _, st) \<Rightarrow>
                    (Inl (create_failure say ''RESOURCE_BLOCKED'' (MarkerFailed e)),
                     w\<lparr>cw_store := snd (remove_change (ct_remains io) i st)\<rparr>)
                | (None, _, st) \<Rightarrow>
                    (case capture_into env say io i snapshot epoch st of
                       (Inr r, st) \<Rightarrow> (Inr r, w\<lparr>cw_store := st\<rparr>)
                     | (Inl f, st) \<Rightarrow>
                         let (res, st) = remove_change (ct_remains io) i st
                         in (Inl (case res of
                               None \<Rightarrow> f
                             | Some e \<Rightarrow> f\<lparr>fl_warnings := fl_warnings f @ [store_truncate e 512]\<rparr>),
                             w\<lparr>cw_store := st\<rparr>)))))"

definition change_create ::
  "change_env \<Rightarrow> (create_message \<Rightarrow> string) \<Rightarrow> create_io \<Rightarrow> nat \<Rightarrow> change_world \<Rightarrow> change_outcome \<times> change_world" where
  "change_create env say io epoch w =
     (if ccf_max_active (ce_config env) \<le> change_active_count (cw_store w)
      then (error_outcome ChangeCreate ''RESOURCE_BLOCKED'' (say ActiveLimitSummary)
              (say (ActiveLimitReason (ccf_max_active (ce_config env)))) None w, w)
      else case create_blocking env say io epoch w of
        (Inr r, w) \<Rightarrow>
          (finish_outcome ''CREATED'' (say CapturedSummary) False (change_data_for_record ChangeCreate r None) w, w)
      | (Inl f, w) \<Rightarrow> failure_outcome env ChangeCreate None f w)"

section \<open>Starting the service\<close>

text \<open>\<open>ChangeService::new\<close>: sweep, then recover, keeping the first warnings of both.\<close>

definition change_service_new ::
  "change_env \<Rightarrow> (string \<Rightarrow> sweep_io) \<Rightarrow> (string \<Rightarrow> recover_io) \<Rightarrow> change_store \<Rightarrow> change_world" where
  "change_service_new env sweeps recovers st =
     (let (swept, st) = sweep (ccf_ttl_ms (ce_config env)) sweeps st;
          (recovered, st) = recover_interrupted recovers st
      in \<lparr>cw_store = st, cw_warnings = take MAX_CLEANUP_WARNINGS (swp_warnings swept @ rcv_warnings recovered),
          cw_sequence = 0\<rparr>)"

end
