(* ===== verification/Change_Slots.thy ===== *)
theory Change_Slots
  imports Change_Create
begin

text \<open>
  What the actions may do to the store. Every action works on one slot and replaces its record, if at all, by
  one of a few; \<open>slot_writes\<close> states this once, with the effect of a save, a lock and a removal.
\<close>

section \<open>Writing one slot\<close>

lemma slot_of_insert [simp]: "slot_of (bt_insert i slot st) j = (if j = i then slot else slot_of st j)"
  by (simp add: slot_of_def bt_get_insert)

lemma slot_of_remove [simp]: "slot_of (bt_remove i st) j = (if j = i then empty_slot else slot_of st j)"
  by (simp add: slot_of_def bt_get_remove)

lemma slot_of_absent: "\<not> bt_contains st i \<Longrightarrow> slot_of st i = empty_slot"
  by (simp add: bt_contains_def slot_of_def)

definition slot_writes :: "string \<Rightarrow> (change_record \<Rightarrow> bool) \<Rightarrow> change_store \<Rightarrow> change_store \<Rightarrow> bool" where
  "slot_writes i Q st st' \<longleftrightarrow>
     (\<forall>j. j \<noteq> i \<longrightarrow> slot_of st' j = slot_of st j) \<and>
     (sl_record (slot_of st' i) = sl_record (slot_of st i) \<or> sl_record (slot_of st' i) = NoRecord \<or>
      (\<exists>r. sl_record (slot_of st' i) = RecordFile r \<and> Q r))"

lemma slot_writes_refl [simp]: "slot_writes i Q st st"
  by (simp add: slot_writes_def)

lemma slot_writes_trans [trans]: "slot_writes i Q st st1 \<Longrightarrow> slot_writes i Q st1 st2 \<Longrightarrow> slot_writes i Q st st2"
  by (auto simp: slot_writes_def)

lemma slot_writes_mono: "slot_writes i Q st st' \<Longrightarrow> (\<And>r. Q r \<Longrightarrow> R r) \<Longrightarrow> slot_writes i R st st'"
  by (auto simp: slot_writes_def)

text \<open>\<open>write_atomic\<close> is all or nothing.\<close>

lemma write_atomic_cases:
  "write_atomic faults bytes old = (res, content) \<Longrightarrow> content = (if res = None then bytes else old)"
  by (auto simp: write_atomic_def split: option.splits)

definition stamped :: "change_record \<Rightarrow> change_record \<Rightarrow> bool" where
  "stamped r r' \<longleftrightarrow> (\<exists>now. r' = r\<lparr>chr_updated_at_ms := now\<rparr>)"

lemma stamped_refl: "stamped r r"
  unfolding stamped_def by (rule exI [of _ "chr_updated_at_ms r"]) simp

lemma stamped_fields:
  assumes "stamped r r'"
  shows "chr_id r' = chr_id r" "chr_schema_version r' = chr_schema_version r" "chr_state r' = chr_state r"
    "chr_revision r' = chr_revision r" "chr_base_identity r' = chr_base_identity r"
    "chr_evidence r' = chr_evidence r" "chr_source_hashes r' = chr_source_hashes r"
    "chr_patches r' = chr_patches r" "chr_new_files r' = chr_new_files r"
    "chr_patch_hash r' = chr_patch_hash r" "chr_applying_revision r' = chr_applying_revision r"
    "chr_workspace_epoch r' = chr_workspace_epoch r" "chr_cleanup_warnings r' = chr_cleanup_warnings r"
    "chr_candidate_bytes r' = chr_candidate_bytes r" "chr_external_paths r' = chr_external_paths r"
  using assms by (auto simp: stamped_def)

lemma store_save_effect:
  assumes "store_save io r st = (res, r', st')"
  shows "stamped r r'" and "\<And>j. j \<noteq> chr_id r \<Longrightarrow> slot_of st' j = slot_of st j"
    and "sl_candidate (slot_of st' j) = sl_candidate (slot_of st j)"
    and "sl_record (slot_of st' (chr_id r)) = (if res = None then RecordFile r' else sl_record (slot_of st (chr_id r)))"
proof -
  have "stamped r (r\<lparr>chr_updated_at_ms := now\<rparr>)" for now by (auto simp: stamped_def)
  with assms show "stamped r r'"
    by (auto simp: store_save_def Let_def stamped_refl split: if_splits option.splits prod.splits)
  from assms show "\<And>j. j \<noteq> chr_id r \<Longrightarrow> slot_of st' j = slot_of st j"
    by (auto simp: store_save_def Let_def split: if_splits option.splits prod.splits)
  from assms show "sl_candidate (slot_of st' j) = sl_candidate (slot_of st j)"
    by (auto simp: store_save_def Let_def split: if_splits option.splits prod.splits)
  from assms show "sl_record (slot_of st' (chr_id r)) =
      (if res = None then RecordFile r' else sl_record (slot_of st (chr_id r)))"
    by (auto simp: store_save_def Let_def dest: write_atomic_cases split: if_splits option.splits prod.splits)
qed

lemma slot_writes_save:
  assumes "store_save io r st = (res, r', st')" and "chr_id r = i" and "\<And>r'. stamped r r' \<Longrightarrow> Q r'"
  shows "slot_writes i Q st st'"
  using store_save_effect [OF assms(1)] assms(2,3) by (auto simp: slot_writes_def)

lemma try_lock_effect:
  assumes "try_lock io i st = (res, st')"
  shows "slot_of st' j = slot_of st j"
  using assms by (auto simp: try_lock_def split: option.splits)

lemma slot_writes_lock: "try_lock io i st = (res, st') \<Longrightarrow> slot_writes i Q st st'"
  by (simp add: slot_writes_def try_lock_effect)

lemma put_candidate_effect [simp]:
  "sl_record (slot_of (put_candidate i fs st) j) = sl_record (slot_of st j)"
  "j \<noteq> i \<Longrightarrow> slot_of (put_candidate i fs st) j = slot_of st j"
  "fs_of (sl_candidate (slot_of (put_candidate i fs st) i)) = fs"
  by (auto simp: put_candidate_def Let_def fs_of_def with_fs_def split: candidate_root.splits)

lemma slot_writes_candidate [simp]: "slot_writes i Q st (put_candidate i fs st)"
  by (simp add: slot_writes_def)

lemma store_load_Some:
  assumes "store_load fault st i = Inr (Some r)"
  shows "sl_record (slot_of st i) = RecordFile r" and "is_valid_change_id i"
    and "chr_schema_version r = CHANGE_SCHEMA_VERSION"
  using assms by (auto simp: store_load_def split: if_splits option.splits record_file.splits)

lemma load_for_Inr:
  assumes "load_for env action fault i w = Inr r"
  shows "sl_record (slot_of (cw_store w) i) = RecordFile r"
  using assms by (auto simp: load_for_def intro: store_load_Some split: sum.splits option.splits)

section \<open>Removals\<close>

text \<open>A failed removal may only have removed: the record is kept or gone, and no file appears or changes.\<close>

definition candidate_shrinks :: "(candidate_root \<Rightarrow> candidate_root) \<Rightarrow> bool" where
  "candidate_shrinks f \<longleftrightarrow>
     (\<forall>c p n. bt_get (cf_tree (fs_of (f c))) p = Some n \<longrightarrow> bt_get (cf_tree (fs_of c)) p = Some n)"

definition slot_shrinks :: "(change_slot \<Rightarrow> change_slot) \<Rightarrow> bool" where
  "slot_shrinks f \<longleftrightarrow>
     (\<forall>slot. sl_record (f slot) = sl_record slot \<or> sl_record (f slot) = NoRecord) \<and>
     (\<forall>slot p n. bt_get (cf_tree (fs_of (sl_candidate (f slot)))) p = Some n \<longrightarrow>
        bt_get (cf_tree (fs_of (sl_candidate slot))) p = Some n)"

definition only_removes :: "('e \<times> 'f) option \<Rightarrow> ('f \<Rightarrow> bool) \<Rightarrow> bool" where
  "only_removes fault ok \<longleftrightarrow> (case fault of None \<Rightarrow> True | Some (_, f) \<Rightarrow> ok f)"

lemma slot_writes_remove:
  "remove_change fault i st = (res, st') \<Longrightarrow> only_removes fault slot_shrinks \<Longrightarrow> slot_writes i Q st st'"
  by (auto simp: remove_change_def slot_writes_def only_removes_def slot_shrinks_def empty_slot_def
      split: if_splits option.splits)

lemma remove_candidate_record: "remove_candidate fault slot = (res, slot') \<Longrightarrow> sl_record slot' = sl_record slot"
  by (auto simp: remove_candidate_def split: if_splits option.splits)

lemma remove_cache_slot:
  "remove_cache fault slot = (res, slot') \<Longrightarrow> sl_record slot' = sl_record slot \<and> sl_candidate slot' = sl_candidate slot"
  by (auto simp: remove_cache_def split: if_splits option.splits)

lemma slot_writes_discard_worktree: "discard_worktree f g i st = (ws, st') \<Longrightarrow> slot_writes i Q st st'"
  by (auto simp: discard_worktree_def Let_def slot_writes_def dest!: remove_candidate_record remove_cache_slot
      split: prod.splits if_splits)

end
