(* ===== verification/Change_Steps.thy ===== *)
theory Change_Steps
  imports Change_Slots
begin

text \<open>
  The successors of a durable record and the contract every locked action meets: it touches one slot and
  writes only successors of the record it found there. Gate runs are remembered with the candidate they ran
  on, so that a passing row can be traced to the run that earned it.
\<close>

section \<open>Gate runs and recorded bytes\<close>

record gate_run =
  run_id :: string
  run_revision :: nat
  run_fs :: candidate_fs
  run_evidence :: gate_evidence

definition file_matches :: "(string \<Rightarrow> string) \<Rightarrow> candidate_fs \<Rightarrow> string \<Rightarrow> stored_hash \<Rightarrow> bool" where
  "file_matches sha fs file h \<longleftrightarrow>
     (\<exists>p b. candidate_relative file = Inr p \<and> symlink_metadata fs p = Inr (FileNode b) \<and>
        sha b = sth_sha256 h \<and> length b = sth_bytes h)"

lemma verify_file_None: "verify_file env fault fs file h = None \<Longrightarrow> file_matches (ce_sha env) fs file h"
  by (auto simp: verify_file_def file_matches_def read_file_def split: sum.splits node.splits option.splits if_splits)

lemma verify_files_None:
  "verify_files env fault fs hs = None \<Longrightarrow> (file, h) \<in> set hs \<Longrightarrow> file_matches (ce_sha env) fs file h"
  by (induction env fault fs hs rule: verify_files.induct) (auto dest: verify_file_None split: option.splits)

definition gate_passed :: "gate_run \<Rightarrow> bool" where
  "gate_passed run \<longleftrightarrow> ge_status (run_evidence run) = GFastPass \<or> ge_status (run_evidence run) = GFullPass"

text \<open>Some run passed on a candidate that had the recorded bytes of this record, at its revision.\<close>

definition vouched :: "(string \<Rightarrow> string) \<Rightarrow> gate_run list \<Rightarrow> change_record \<Rightarrow> bool" where
  "vouched sha runs r \<longleftrightarrow>
     (\<exists>run \<in> set runs. run_id run = chr_id r \<and> run_revision run = chr_revision r \<and> gate_passed run \<and>
        evidence_freshness (run_evidence run) False \<and>
        (\<forall>(file, h) \<in> set (chr_source_hashes r). file_matches sha (run_fs run) file h))"

lemma vouched_mono: "vouched sha runs r \<Longrightarrow> set runs \<subseteq> set runs' \<Longrightarrow> vouched sha runs' r"
  by (auto simp: vouched_def)

section \<open>Successors of a record\<close>

definition same_content :: "change_record \<Rightarrow> change_record \<Rightarrow> bool" where
  "same_content r r' \<longleftrightarrow>
     chr_source_hashes r' = chr_source_hashes r \<and> chr_patches r' = chr_patches r \<and>
     chr_new_files r' = chr_new_files r \<and> chr_patch_hash r' = chr_patch_hash r"

definition successor :: "(string \<Rightarrow> string) \<Rightarrow> gate_run list \<Rightarrow> change_record \<Rightarrow> change_record \<Rightarrow> bool" where
  "successor sha runs r r' \<longleftrightarrow>
     chr_id r' = chr_id r \<and> chr_base_identity r' = chr_base_identity r \<and>
     chr_state r \<noteq> RecordDiscarded \<and> (chr_state r' = RecordReady \<longrightarrow> chr_state r = RecordReady) \<and>
     chr_revision r \<le> chr_revision r' \<and> (chr_revision r' = chr_revision r \<longrightarrow> same_content r r') \<and>
     (\<forall>e \<in> set (chr_evidence r'). passes (chr_revision r') e \<longrightarrow>
        (chr_revision r' = chr_revision r \<and> e \<in> set (chr_evidence r)) \<or> vouched sha runs r')"

lemma vouched_stamped: "stamped a b \<Longrightarrow> vouched sha runs b = vouched sha runs a"
  by (simp add: vouched_def stamped_fields)

lemma successor_refl: "chr_state r \<noteq> RecordDiscarded \<Longrightarrow> successor sha runs r r"
  by (simp add: successor_def same_content_def)

lemma successor_stamped: "successor sha runs r a \<Longrightarrow> stamped a b \<Longrightarrow> successor sha runs r b"
  by (simp add: successor_def same_content_def stamped_fields vouched_stamped)

text \<open>
  A rewrite that keeps identity, revision and content, does not make the record ready and adds no passing row.
\<close>

lemma successor_demoted:
  assumes "successor sha runs r a"
    and "chr_id b = chr_id a" "chr_base_identity b = chr_base_identity a" "chr_revision b = chr_revision a"
    and "same_content a b" and "chr_state b \<noteq> RecordReady"
    and "\<And>e. e \<in> set (chr_evidence b) \<Longrightarrow> passes (chr_revision b) e \<Longrightarrow> e \<in> set (chr_evidence a)"
  shows "successor sha runs r b"
proof -
  have "vouched sha runs a = vouched sha runs b" using assms(2,4,5) by (simp add: vouched_def same_content_def)
  with assms show ?thesis by (auto simp: successor_def same_content_def)
qed

lemma push_record_warning_fields [simp]:
  "chr_id (push_record_warning t r) = chr_id r" "chr_state (push_record_warning t r) = chr_state r"
  "chr_base_identity (push_record_warning t r) = chr_base_identity r"
  "chr_revision (push_record_warning t r) = chr_revision r"
  "chr_evidence (push_record_warning t r) = chr_evidence r"
  "chr_source_hashes (push_record_warning t r) = chr_source_hashes r"
  "chr_patches (push_record_warning t r) = chr_patches r"
  "chr_new_files (push_record_warning t r) = chr_new_files r"
  "chr_patch_hash (push_record_warning t r) = chr_patch_hash r"
  by (simp_all add: push_record_warning_def)

lemma successor_inconsistent: "successor sha runs r a \<Longrightarrow> successor sha runs r (mark_inconsistent t a)"
  by (erule successor_demoted) (auto simp: mark_inconsistent_def same_content_def)

lemma successor_mismatch: "successor sha runs r a \<Longrightarrow> successor sha runs r (mismatch_record t a)"
  by (erule successor_demoted) (auto simp: mismatch_record_def same_content_def)

lemma successor_applying: "successor sha runs r a \<Longrightarrow> successor sha runs r (applying_record a)"
  by (erule successor_demoted) (auto simp: applying_record_def same_content_def)

lemma successor_recovered: "successor sha runs r a \<Longrightarrow> successor sha runs r (recover_record a)"
  by (erule successor_demoted) (auto simp: recover_record_def same_content_def passes_def)

lemma successor_staged:
  assumes "chr_state r = RecordReady" and "chr_revision a = chr_revision r" "chr_id a = chr_id r"
    "chr_base_identity a = chr_base_identity r" and "chr_revision r < u64_max"
  shows "successor sha runs r (staged_record sha' plan hashes a)"
  using assms by (auto simp: successor_def staged_record_def Let_def sat_add_def)

section \<open>The contract of an action\<close>

definition ids_ok :: "change_store \<Rightarrow> bool" where
  "ids_ok st \<longleftrightarrow> (\<forall>i r. sl_record (slot_of st i) = RecordFile r \<longrightarrow> chr_id r = i)"

lemma ids_okD: "ids_ok st \<Longrightarrow> sl_record (slot_of st i) = RecordFile r \<Longrightarrow> chr_id r = i"
  by (simp add: ids_ok_def)

definition from_slot :: "(string \<Rightarrow> string) \<Rightarrow> gate_run list \<Rightarrow> change_store \<Rightarrow> string \<Rightarrow> change_record \<Rightarrow> bool" where
  "from_slot sha runs st i r' \<longleftrightarrow> (\<exists>r. sl_record (slot_of st i) = RecordFile r \<and> successor sha runs r r')"

text \<open>
  What an action may leave as a record: a successor of the one it found, a discarded copy without passing rows,
  or, in a slot without a record, a first record of revision 0 without evidence.
\<close>

definition written :: "(string \<Rightarrow> string) \<Rightarrow> gate_run list \<Rightarrow> change_store \<Rightarrow> string \<Rightarrow> change_record \<Rightarrow> bool" where
  "written sha runs st i r' \<longleftrightarrow>
     from_slot sha runs st i r' \<or>
     (chr_id r' = i \<and> chr_state r' = RecordDiscarded \<and> \<not> current_revision_fresh_pass r') \<or>
     (sl_record (slot_of st i) = NoRecord \<and> chr_id r' = i \<and> chr_revision r' = 0 \<and> chr_evidence r' = [])"

text \<open>Every record is filed under its own id, and one that counts as verified is vouched for by a run.\<close>

definition rows_ok :: "(string \<Rightarrow> string) \<Rightarrow> gate_run list \<Rightarrow> change_store \<Rightarrow> bool" where
  "rows_ok sha runs st \<longleftrightarrow>
     ids_ok st \<and>
     (\<forall>i r. sl_record (slot_of st i) = RecordFile r \<longrightarrow> current_revision_fresh_pass r \<longrightarrow> vouched sha runs r)"

lemma rows_ok_mono: "rows_ok sha runs st \<Longrightarrow> set runs \<subseteq> set runs' \<Longrightarrow> rows_ok sha runs' st"
  using vouched_mono by (fastforce simp: rows_ok_def)

lemma successor_vouched:
  assumes "successor sha runs r r'" and "current_revision_fresh_pass r \<Longrightarrow> vouched sha runs r"
    and "current_revision_fresh_pass r'"
  shows "vouched sha runs r'"
proof -
  from assms(3) obtain e where e: "e \<in> set (chr_evidence r')" "passes (chr_revision r') e"
    by (auto simp: fresh_pass_iff)
  with assms(1) consider "chr_revision r' = chr_revision r" "e \<in> set (chr_evidence r)" | "vouched sha runs r'"
    by (auto simp: successor_def)
  then show ?thesis
  proof cases
    case 1
    with e assms(2) have "vouched sha runs r" by (auto simp: fresh_pass_iff)
    with 1 assms(1) show ?thesis by (simp add: vouched_def successor_def same_content_def)
  qed
qed

locale store_action =
  fixes sha :: "string \<Rightarrow> string" and runs :: "gate_run list" and i :: string
    and enabled :: "change_store \<Rightarrow> bool" and act :: "change_store \<Rightarrow> change_store"
  assumes only_written: "enabled st \<Longrightarrow> ids_ok st \<Longrightarrow> slot_writes i (written sha runs st i) st (act st)"
begin

lemma keeps_others: "enabled st \<Longrightarrow> ids_ok st \<Longrightarrow> j \<noteq> i \<Longrightarrow> slot_of (act st) j = slot_of st j"
  using only_written by (simp add: slot_writes_def)

lemma record_after:
  assumes "enabled st" "ids_ok st" and "sl_record (slot_of (act st) j) = RecordFile r'"
  obtains (kept) "sl_record (slot_of st j) = RecordFile r'"
    | (succeeded) r where "sl_record (slot_of st j) = RecordFile r" "successor sha runs r r'"
    | (retired) "chr_id r' = j" "chr_state r' = RecordDiscarded" "\<not> current_revision_fresh_pass r'"
    | (born) "sl_record (slot_of st j) = NoRecord" "chr_id r' = j" "chr_revision r' = 0" "chr_evidence r' = []"
proof (cases "j = i")
  case True
  then show ?thesis using only_written [OF assms(1,2)] assms(3) that
    by (auto simp: slot_writes_def written_def from_slot_def)
next
  case False
  then show ?thesis using keeps_others assms that(1) by simp
qed

lemma keeps_rows:
  assumes "enabled st" and "rows_ok sha runs st"
  shows "rows_ok sha runs (act st)"
proof -
  have ids: "ids_ok st" using assms(2) by (simp add: rows_ok_def)
  have "chr_id r' = j \<and> (current_revision_fresh_pass r' \<longrightarrow> vouched sha runs r')"
    if "sl_record (slot_of (act st) j) = RecordFile r'" for j r'
    using assms(1) ids that
  proof (cases rule: record_after)
    case kept
    then show ?thesis using assms(2) ids by (auto simp: rows_ok_def ids_ok_def)
  next
    case (succeeded r)
    then have "chr_id r' = j" using ids by (auto simp: ids_ok_def successor_def)
    then show ?thesis using successor_vouched [OF succeeded(2)] succeeded(1) assms(2) by (auto simp: rows_ok_def)
  qed (simp_all add: fresh_pass_iff)
  then show ?thesis by (auto simp: rows_ok_def ids_ok_def)
qed

text \<open>A record that is replaced and not discarded is replaced by a successor.\<close>

lemma transition:
  assumes "enabled st" "ids_ok st" "sl_record (slot_of st j) = RecordFile r"
    and "sl_record (slot_of (act st) j) = RecordFile r'" "chr_state r' \<noteq> RecordDiscarded"
  shows "r' = r \<or> successor sha runs r r'"
  using assms(1,2,4) by (cases rule: record_after) (use assms in auto)

end

section \<open>Staging meets the contract\<close>

lemma stage_apply_cases [consumes 1, case_names inconsistent unpublished staged]:
  assumes "stage_apply env io plan a st = (res, st')"
  obtains fs t u where "stage_inconsistent env io t u a (put_candidate (chr_id a) fs st) = (res, st')"
  | fs hashes e b st1 y c where
      "store_save (sg_final io) (staged_record (ce_sha env) plan hashes a) (put_candidate (chr_id a) fs st) = (Some e, b, st1)"
      "store_save (sg_final_failed io) (mark_inconsistent (store_truncate e 512) b) st1 = (y, c, st')"
      "\<forall>r. res \<noteq> StageDone r"
  | fs hashes b seq where
      "apply_plan (sg_faults io) (ce_pid env) (fs_of (sl_candidate (slot_of st (chr_id a)))) plan
         (sg_temp_sequence io) = (None, fs, seq)"
      "read_back env (sg_reread io) fs (pp_files plan) [] = Inr hashes" "0 \<le> accounted_bytes a plan"
      "store_save (sg_final io) (staged_record (ce_sha env) plan hashes a) (put_candidate (chr_id a) fs st) = (None, b, st')"
      "res = StageDone b"
proof -
  obtain e fs seq where ap: "apply_plan (sg_faults io) (ce_pid env) (fs_of (sl_candidate (slot_of st (chr_id a))))
      plan (sg_temp_sequence io) = (e, fs, seq)" by (metis prod_cases3)
  show ?thesis
  proof (cases e)
    case (Some x)
    with assms ap that(1) show ?thesis by (simp add: stage_apply_def)
  next
    case None
    show ?thesis
    proof (cases "read_back env (sg_reread io) fs (pp_files plan) []")
      case (Inl x)
      with assms ap None that(1) show ?thesis by (cases x) (simp add: stage_apply_def)
    next
      case (Inr hashes)
      show ?thesis
      proof (cases "accounted_bytes a plan < 0")
        case True
        with assms ap None Inr that(1) show ?thesis by (simp add: stage_apply_def)
      next
        case False
        obtain x b st1 where save: "store_save (sg_final io) (staged_record (ce_sha env) plan hashes a)
            (put_candidate (chr_id a) fs st) = (x, b, st1)" by (metis prod_cases3)
        show ?thesis
        proof (cases x)
          case None
          with assms ap \<open>e = None\<close> Inr False save that(3) [of fs seq hashes b] show ?thesis by (simp add: stage_apply_def)
        next
          case (Some y)
          with assms ap None Inr False save that(2) [of hashes fs y b st1] show ?thesis
            by (cases "store_save (sg_final_failed io) (mark_inconsistent (store_truncate y 512) b) st1")
              (auto simp: stage_apply_def)
        qed
      qed
    qed
  qed
qed

lemma stage_apply_writes:
  assumes "stage_apply env io plan a st = (res, st')" and "chr_id a = i"
    and "successor (ce_sha env) runs r a" and "chr_state r = RecordReady"
    and "chr_revision a = chr_revision r" and "chr_revision r < u64_max"
  shows "slot_writes i (successor (ce_sha env) runs r) st st'"
proof -
  let ?Q = "successor (ce_sha env) runs r"
  have saved: "slot_writes i ?Q st1 st2" if "store_save s b st1 = (x, b', st2)" "chr_id b = i" "?Q b" for s b x b' st1 st2
    using slot_writes_save [OF that(1,2)] successor_stamped [OF that(3)] by blast
  have fields: "chr_id a = chr_id r" "chr_base_identity a = chr_base_identity r"
    using assms(3) by (auto simp: successor_def)
  have staged: "?Q (staged_record (ce_sha env) plan hashes a)" "chr_id (staged_record (ce_sha env) plan hashes a) = i" for hashes
    using successor_staged [OF assms(4,5) fields assms(6)] assms(2) by (simp_all add: staged_record_def Let_def)
  from assms(1) show ?thesis
  proof (cases rule: stage_apply_cases)
    case (inconsistent fs t u)
    have "?Q (mark_inconsistent t a)" by (rule successor_inconsistent [OF assms(3)])
    with inconsistent have "slot_writes i ?Q (put_candidate (chr_id a) fs st) st'"
      using saved [of "sg_failed io" "mark_inconsistent t a"] assms(2)
      by (auto simp: stage_inconsistent_def mark_inconsistent_def Let_def split: prod.splits)
    with slot_writes_trans [OF slot_writes_candidate] assms(2) show ?thesis by blast
  next
    case (unpublished fs hashes e b st1 y c)
    have b: "chr_id b = i" "?Q b"
      using stamped_fields(1) [OF store_save_effect(1) [OF unpublished(1)]] staged
        successor_stamped [OF staged(1) store_save_effect(1) [OF unpublished(1)]] by simp_all
    have "slot_writes i ?Q (put_candidate (chr_id a) fs st) st1" using saved [OF unpublished(1) staged(2,1)] .
    also have "slot_writes i ?Q st1 st'"
      using saved [OF unpublished(2)] successor_inconsistent [OF b(2)] b(1) by (simp add: mark_inconsistent_def)
    finally show ?thesis using slot_writes_trans [OF slot_writes_candidate] assms(2) by blast
  next
    case (staged fs hashes b seq)
    have "slot_writes i ?Q (put_candidate (chr_id a) fs st) st'"
      using saved [OF staged(4)] \<open>\<And>hashes. ?Q (staged_record (ce_sha env) plan hashes a)\<close> assms(2)
      by (simp add: staged_record_def Let_def)
    then show ?thesis using slot_writes_trans [OF slot_writes_candidate] assms(2) by blast
  qed
qed

text \<open>A stage that is not refused works on the current revision, below the configured limit.\<close>

lemma stage_refusal_None:
  assumes "stage_refusal env cancelled expected base r = None"
  shows "expected = Some (chr_revision r)" and "base = Some (chr_base_identity r)" and "\<not> cancelled"
    and "sat_add (chr_revision r) 1 \<le> ccf_max_revisions (ce_config env)"
  using assms by (auto simp: stage_refusal_def split: option.splits if_splits)

lemma stage_locked_writes:
  assumes "stage_locked env io r expected base patches new_files st = (res, st')"
    and "chr_id r = i" and "chr_state r = RecordReady" and "ccf_max_revisions (ce_config env) < u64_max"
  shows "slot_writes i (successor (ce_sha env) runs r) st st'"
proof (cases "stage_refusal env (sg_cancelled io 0) expected base r")
  case None
  have low: "chr_revision r < u64_max"
    using stage_refusal_None(4) [OF None] assms(4) by (auto simp: sat_add_def)
  have succ: "successor (ce_sha env) runs r (applying_record r)"
    using assms(3) by (intro successor_applying successor_refl) simp
  show ?thesis
  proof (cases "plan_patches (fs_of (sl_candidate (slot_of st (chr_id r)))) patches new_files (stage_limits env r)")
    case (Inl e)
    with assms(1) None show ?thesis by (cases e) (auto simp: stage_locked_def)
  next
    case (Inr plan)
    obtain x b st1 where save: "store_save (sg_marker io) (applying_record r) st = (x, b, st1)" by (metis prod_cases3)
    have w1: "slot_writes i (successor (ce_sha env) runs r) st st1"
      using slot_writes_save [OF save] successor_stamped [OF succ] assms(2) by (simp add: applying_record_def)
    have stamp: "stamped (applying_record r) b" by (rule store_save_effect(1) [OF save])
    have b: "chr_id b = i" "chr_revision b = chr_revision r"
      using stamped_fields(1,4) [OF stamp] assms(2) by (simp_all add: applying_record_def)
    from Inr None assms(1) save consider "st' = st" | "st' = st1" | "stage_apply env io plan b st1 = (res, st')"
      by (auto simp: stage_locked_def split: if_splits option.splits prod.splits)
    then show ?thesis
    proof cases
      case 3
      show ?thesis
        using slot_writes_trans [OF w1 stage_apply_writes [OF 3 b(1) successor_stamped [OF succ stamp] assms(3) b(2) low]] .
    qed (use w1 in simp_all)
  qed
qed (use assms(1) in \<open>simp add: stage_locked_def\<close>)

lemma stage_blocking_cases [consumes 1, case_names refused locked]:
  assumes "stage_blocking env io i epoch expected base patches new_files st = (res, st')"
  obtains st1 where "\<And>j. slot_of st1 j = slot_of st j" "st' = st1" "\<And>r. res \<noteq> StageDone r"
  | st1 r where "\<And>j. slot_of st1 j = slot_of st j" "sl_record (slot_of st i) = RecordFile r"
      "chr_state r = RecordReady" "chr_workspace_epoch r = epoch"
      "stage_locked env io r expected base patches new_files st1 = (res, st')"
proof -
  obtain x st1 where lock: "try_lock (sg_lock io) i st = (x, st1)" by (cases "try_lock (sg_lock io) i st")
  note same = try_lock_effect [OF lock]
  show ?thesis
  proof (cases "\<exists>r. x = Inr True \<and> store_load (sg_load io) st1 i = Inr (Some r) \<and> chr_state r = RecordReady \<and>
      chr_workspace_epoch r = epoch")
    case True
    then obtain r where r: "x = Inr True" "store_load (sg_load io) st1 i = Inr (Some r)" "chr_state r = RecordReady"
      "chr_workspace_epoch r = epoch" by blast
    moreover have "sl_record (slot_of st i) = RecordFile r" using store_load_Some(1) [OF r(2)] same by simp
    ultimately show ?thesis using assms lock by (intro that(2) [OF same]) (simp_all add: stage_blocking_def)
  next
    case False
    with assms lock have "st' = st1 \<and> (\<forall>r. res \<noteq> StageDone r)"
      by (auto simp: stage_blocking_def split: sum.splits bool.splits option.splits if_splits)
    then show ?thesis using that(1) same by blast
  qed
qed

lemma slot_writes_same_slots: "(\<And>j. slot_of st1 j = slot_of st j) \<Longrightarrow> slot_writes i Q st1 st2 \<Longrightarrow> slot_writes i Q st st2"
  by (simp add: slot_writes_def)

lemma writtenI:
  "sl_record (slot_of st i) = RecordFile r \<Longrightarrow> slot_writes i (successor sha runs r) st st' \<Longrightarrow> slot_writes i (written sha runs st i) st st'"
  by (erule slot_writes_mono) (auto simp: written_def from_slot_def)

lemma stage_writes:
  assumes "ccf_max_revisions (ce_config env) < u64_max"
    and "stage_blocking env io i epoch expected base patches new_files st = (res, st')"
  shows "ids_ok st \<Longrightarrow> slot_writes i (written (ce_sha env) runs st i) st st'"
proof -
  assume ids: "ids_ok st"
  from assms(2) show "slot_writes i (written (ce_sha env) runs st i) st st'"
  proof (cases rule: stage_blocking_cases)
    case (refused st1)
    then show ?thesis by (simp add: slot_writes_def)
  next
    case (locked st1 r)
    have "slot_writes i (successor (ce_sha env) runs r) st1 st'"
      using stage_locked_writes [OF locked(5) _ locked(3) assms(1)] ids_okD [OF ids locked(2)] by blast
    then show ?thesis using writtenI [OF locked(2)] slot_writes_same_slots [OF locked(1)] by blast
  qed
qed

section \<open>Validation meets the contract\<close>

lemma reload_pinned_Inr:
  assumes "reload_pinned_record env action fault i pinned w = Inr r"
  shows "sl_record (slot_of (cw_store w) i) = RecordFile r" and "same_pin r pinned"
  using assms by (auto simp: reload_pinned_record_def dest: load_for_Inr split: sum.splits if_splits)

lemma push_service_warnings_store [simp]: "cw_store (push_service_warnings ws w) = cw_store w"
  by (simp add: push_service_warnings_def)

text \<open>The locked record, read again, with its activity stamp written.\<close>

definition touched :: "validate_io \<Rightarrow> string \<Rightarrow> change_record \<Rightarrow> change_world \<Rightarrow> change_record \<Rightarrow> change_store \<Rightarrow> bool" where
  "touched io i pinned w r st2 \<longleftrightarrow>
     (\<exists>st1 y a. (\<forall>j. slot_of st1 j = slot_of (cw_store w) j) \<and> sl_record (slot_of (cw_store w) i) = RecordFile r \<and>
        same_pin r pinned \<and> store_save (va_activity io) r st1 = (y, a, st2))"

lemma validate_ready_cases [consumes 1, case_names refused mismatch answered ready]:
  assumes "validate_ready env io i pinned w = (res, w')"
  obtains out where "res = Inl out" "\<And>j. slot_of (cw_store w') j = slot_of (cw_store w) j"
  | r st2 reason z f out where "touched io i pinned w r st2" "res = Inl out"
      "store_save (va_failed io) (mismatch_record reason r) st2 = (z, f, cw_store w')"
  | r out where "touched io i pinned w r (cw_store w')" "res = Inl out"
  | r where "touched io i pinned w r (cw_store w')" "res = Inr r" "chr_applying_revision r = None"
      "verify_candidate_bytes env (va_read io) (cw_store w') i r = None"
proof -
  obtain x st1 where lock: "try_lock (va_lock io) i (cw_store w) = (x, st1)" by (cases "try_lock (va_lock io) i (cw_store w)")
  note same = try_lock_effect [OF lock]
  let ?w1 = "w\<lparr>cw_store := st1\<rparr>"
  consider (early) "\<exists>out. res = Inl out \<and> cw_store w' = st1"
    | (go) r where "x = Inr True" "reload_pinned_record env ChangeValidate (va_reload io) i pinned ?w1 = Inr r"
        "\<not> is_link (sl_candidate (slot_of st1 i))" "chr_applying_revision r = None"
    using assms lock
    by (auto simp: validate_ready_def Let_def dest: sym [of "Inl _"] split: sum.splits bool.splits if_splits)
  then show ?thesis
  proof cases
    case early
    then show ?thesis using that(1) same by fastforce
  next
    case (go r)
    obtain y a st2 where save: "store_save (va_activity io) r st1 = (y, a, st2)" by (metis prod_cases3)
    have t: "touched io i pinned w r st2"
      using reload_pinned_Inr [OF go(2)] same save by (auto simp: touched_def)
    show ?thesis
    proof (cases "verify_candidate_bytes env (va_read io) st2 i r")
      case (Some reason)
      with assms lock go save that(2) [OF t] show ?thesis
        by (cases "store_save (va_failed io) (mismatch_record reason r) st2") (auto simp: validate_ready_def Let_def)
    next
      case None
      with assms lock go save have "cw_store w' = st2 \<and> (res = Inr r \<or> (\<exists>out. res = Inl out))"
        by (auto simp: validate_ready_def Let_def split: option.splits)
      with that(3,4) t None go(4) show ?thesis by blast
    qed
  qed
qed

lemma touched_writes:
  assumes "touched io i pinned w r st2" and "chr_state pinned = RecordReady" and "ids_ok (cw_store w)"
  shows "slot_writes i (successor sha runs r) (cw_store w) st2" and "sl_record (slot_of (cw_store w) i) = RecordFile r"
    and "chr_state r = RecordReady" and "chr_id r = i"
    and "sl_candidate (slot_of st2 j) = sl_candidate (slot_of (cw_store w) j)"
    and "sl_record (slot_of st2 i) = RecordFile u \<Longrightarrow> stamped r u"
proof -
  from assms(1) obtain st1 y a where t: "\<And>j. slot_of st1 j = slot_of (cw_store w) j"
    "sl_record (slot_of (cw_store w) i) = RecordFile r" "same_pin r pinned" "store_save (va_activity io) r st1 = (y, a, st2)"
    by (auto simp: touched_def)
  show "sl_record (slot_of (cw_store w) i) = RecordFile r" by (rule t(2))
  show r: "chr_state r = RecordReady" using t(3) assms(2) by (simp add: same_pin_def)
  show i: "chr_id r = i" by (rule ids_okD [OF assms(3) t(2)])
  have "successor sha runs r r" using r by (intro successor_refl) simp
  then show "slot_writes i (successor sha runs r) (cw_store w) st2"
    using slot_writes_same_slots [OF t(1) slot_writes_save [OF t(4) i]] successor_stamped by blast
  show "sl_candidate (slot_of st2 j) = sl_candidate (slot_of (cw_store w) j)"
    using store_save_effect(3) [OF t(4)] t(1) by simp
  show "sl_record (slot_of st2 i) = RecordFile u \<Longrightarrow> stamped r u"
    using store_save_effect(1,4) [OF t(4)] i t(1,2) by (auto simp: stamped_refl split: if_splits)
qed

lemma validate_ready_writes:
  assumes "validate_ready env io i pinned w = (res, w')" and "chr_state pinned = RecordReady"
  shows "ids_ok (cw_store w) \<Longrightarrow> slot_writes i (written (ce_sha env) runs (cw_store w) i) (cw_store w) (cw_store w')"
proof -
  assume ids: "ids_ok (cw_store w)"
  from assms(1) show "slot_writes i (written (ce_sha env) runs (cw_store w) i) (cw_store w) (cw_store w')"
  proof (cases rule: validate_ready_cases)
    case (refused out)
    then show ?thesis by (simp add: slot_writes_def)
  next
    case (mismatch r st2 reason z f out)
    note t = touched_writes(1-5) [OF mismatch(1) assms(2) ids]
    have "successor (ce_sha env) runs r (mismatch_record reason r)"
      using t(3) by (intro successor_mismatch successor_refl) simp
    then have "slot_writes i (successor (ce_sha env) runs r) st2 (cw_store w')"
      using slot_writes_save [OF mismatch(3)] successor_stamped t(4) by (simp add: mismatch_record_def)
    then show ?thesis using writtenI [OF t(2)] slot_writes_trans [OF t(1)] by blast
  next
    case (answered r out)
    then show ?thesis using writtenI touched_writes(1,2) [OF _ assms(2) ids] by blast
  next
    case (ready r)
    then show ?thesis using writtenI touched_writes(1,2) [OF _ assms(2) ids] by blast
  qed
qed

text \<open>A run that starts does so on a ready record whose recorded files are on disk.\<close>

lemma validate_ready_verified:
  assumes "validate_ready env io i pinned w = (Inr r, w')" and "chr_state pinned = RecordReady"
    and "ids_ok (cw_store w)"
  shows "sl_record (slot_of (cw_store w) i) = RecordFile r" "chr_state r = RecordReady" "chr_id r = i"
    and "slot_writes i (successor sha runs r) (cw_store w) (cw_store w')"
    and "\<And>file h. (file, h) \<in> set (chr_source_hashes r) \<Longrightarrow>
      file_matches (ce_sha env) (fs_of (sl_candidate (slot_of (cw_store w') i))) file h"
    and "sl_candidate (slot_of (cw_store w') j) = sl_candidate (slot_of (cw_store w) j)"
    and "sl_record (slot_of (cw_store w') i) = RecordFile u \<Longrightarrow> stamped r u"
proof -
  from assms(1) have t: "touched io i pinned w r (cw_store w')"
    and v: "verify_candidate_bytes env (va_read io) (cw_store w') i r = None"
    by (auto elim!: validate_ready_cases)
  show "sl_record (slot_of (cw_store w) i) = RecordFile r" "chr_state r = RecordReady" "chr_id r = i"
    "slot_writes i (successor sha runs r) (cw_store w) (cw_store w')"
    "sl_candidate (slot_of (cw_store w') j) = sl_candidate (slot_of (cw_store w) j)"
    using touched_writes(1-5) [OF t assms(2,3)] by auto
  show "sl_record (slot_of (cw_store w') i) = RecordFile u \<Longrightarrow> stamped r u"
    by (rule touched_writes(6) [OF t assms(2,3)])
  show "\<And>file h. (file, h) \<in> set (chr_source_hashes r) \<Longrightarrow>
      file_matches (ce_sha env) (fs_of (sl_candidate (slot_of (cw_store w') i))) file h"
    using verify_files_None v by (auto simp: verify_candidate_bytes_def)
qed

section \<open>A gate run meets the contract\<close>

definition gate_run_of :: "validate_io \<Rightarrow> string \<Rightarrow> change_record \<Rightarrow> change_world \<Rightarrow> gate_run" where
  "gate_run_of io i r w =
     (let fs = fs_of (sl_candidate (slot_of (cw_store w) i)) in
      \<lparr>run_id = i, run_revision = chr_revision r, run_fs = fs, run_evidence = fst (va_gate io fs)\<rparr>)"

lemma updated_record_cases:
  assumes "\<And>u. sl_record (slot_of st i) = RecordFile u \<Longrightarrow> stamped r u"
  shows "stamped r (updated_record fault i r st) \<or>
    updated_record fault i r st = r\<lparr>chr_evidence := map supersede (chr_evidence r)\<rparr>"
  using assms by (auto simp: updated_record_def dest!: store_load_Some(1) split: sum.splits option.splits)

lemma keep_evidence_subset: "set (keep_evidence rows) \<subseteq> set rows"
  by (simp add: keep_evidence_def set_drop_subset)

lemma successor_rows:
  assumes u: "stamped r u \<or> u = r\<lparr>chr_evidence := map supersede (chr_evidence r)\<rparr>"
    and "chr_state r = RecordReady" and "run \<in> set runs" and "run_id run = chr_id r" "run_revision run = chr_revision r"
    and "\<And>file h. (file, h) \<in> set (chr_source_hashes r) \<Longrightarrow> file_matches sha (run_fs run) file h"
    and "fresh \<Longrightarrow> evidence_freshness (run_evidence run) cancelled"
  shows "successor sha runs r
    (u\<lparr>chr_evidence := keep_evidence (chr_evidence u @ evidence_rows (chr_revision r) fresh now (run_evidence run))\<rparr>)"
    (is "successor sha runs r ?u")
proof -
  have fields: "chr_id u = chr_id r" "chr_base_identity u = chr_base_identity r" "chr_state u = chr_state r"
    "chr_revision u = chr_revision r" "chr_source_hashes u = chr_source_hashes r" "same_content r u"
    using u by (auto simp: stamped_fields same_content_def)
  have "e \<in> set (chr_evidence r) \<or> vouched sha runs ?u"
    if e: "e \<in> set (chr_evidence ?u)" and p: "passes (chr_revision r) e" for e
  proof -
    from e keep_evidence_subset
    consider "e \<in> set (chr_evidence u)" | "e \<in> set (evidence_rows (chr_revision r) fresh now (run_evidence run))"
      by fastforce
    then show ?thesis
    proof cases
      case 1
      then show ?thesis using u p by (auto simp: stamped_fields)
    next
      case 2
      note pass = evidence_rows_pass [OF 2 p]
      have "vouched sha runs ?u"
        unfolding vouched_def using assms(3-7) pass fields
        by (intro bexI [of _ run]) (auto simp: gate_passed_def evidence_freshness_def)
      then show ?thesis ..
    qed
  qed
  then show ?thesis using fields assms(2) by (auto simp: successor_def same_content_def)
qed

lemma validate_run_writes:
  assumes "validate_run env io i r epoch w = (out, w')" and "chr_state r = RecordReady" and "chr_id r = i"
    and "\<And>file h. (file, h) \<in> set (chr_source_hashes r) \<Longrightarrow>
      file_matches (ce_sha env) (fs_of (sl_candidate (slot_of (cw_store w) i))) file h"
    and "\<And>u. sl_record (slot_of (cw_store w) i) = RecordFile u \<Longrightarrow> stamped r u"
    and "gate_run_of io i r w \<in> set runs"
  shows "slot_writes i (successor (ce_sha env) runs r) (cw_store w) (cw_store w')"
proof -
  let ?fs = "fs_of (sl_candidate (slot_of (cw_store w) i))"
  obtain ev fs where gate: "va_gate io ?fs = (ev, fs)" by (cases "va_gate io ?fs")
  let ?st = "put_candidate i fs (cw_store w)"
  let ?u = "updated_record (va_updated io) i r ?st"
  let ?fresh = "evidence_freshness ev (va_cancelled_after io) \<and> chr_revision ?u = chr_revision r \<and>
    epoch = chr_workspace_epoch r"
  let ?b = "?u\<lparr>chr_evidence := keep_evidence (chr_evidence ?u @ evidence_rows (chr_revision r) ?fresh (va_now io) ev)\<rparr>"
  have u: "stamped r ?u \<or> ?u = r\<lparr>chr_evidence := map supersede (chr_evidence r)\<rparr>"
    using updated_record_cases [of ?st i r] assms(5) by simp
  have run: "run_id (gate_run_of io i r w) = chr_id r" "run_revision (gate_run_of io i r w) = chr_revision r"
    "run_fs (gate_run_of io i r w) = ?fs" "run_evidence (gate_run_of io i r w) = ev"
    using assms(3) gate by (simp_all add: gate_run_of_def Let_def)
  have succ: "successor (ce_sha env) runs r ?b"
    using successor_rows [OF u assms(2,6) run(1,2), of "ce_sha env" ?fresh "va_cancelled_after io" "va_now io"] assms(4)
    unfolding run by blast
  have idb: "chr_id ?b = i" using u assms(3) by (auto simp: stamped_fields)
  obtain x c st2 where save: "store_save (va_final io) ?b ?st = (x, c, st2)" by (metis prod_cases3)
  have "cw_store w' = st2" using assms(1) gate save by (auto simp: validate_run_def Let_def)
  moreover have "slot_writes i (successor (ce_sha env) runs r) ?st st2"
    using slot_writes_save [OF save idb] successor_stamped [OF succ] by blast
  ultimately show ?thesis using slot_writes_trans [OF slot_writes_candidate] by blast
qed

lemma validate_writes:
  assumes "validate_ready env io i pinned w = (Inr r, w1)" and "validate_run env io i r epoch w1 = (out, w')"
    and "chr_state pinned = RecordReady" and "gate_run_of io i r w1 \<in> set runs"
  shows "ids_ok (cw_store w) \<Longrightarrow> slot_writes i (written (ce_sha env) runs (cw_store w) i) (cw_store w) (cw_store w')"
proof -
  assume ids: "ids_ok (cw_store w)"
  note v = validate_ready_verified [OF assms(1,3) ids]
  have "slot_writes i (successor (ce_sha env) runs r) (cw_store w1) (cw_store w')"
    using validate_run_writes [OF assms(2) v(2,3) v(5) v(7) assms(4)] .
  then show "slot_writes i (written (ce_sha env) runs (cw_store w) i) (cw_store w) (cw_store w')"
    using writtenI [OF v(1)] slot_writes_trans [OF v(4)] by blast
qed

section \<open>Export, recovery and removal\<close>

lemma export_cases [consumes 1, case_names refused mismatch exported]:
  assumes "export_locked env io i pinned w = (out, w')"
  obtains "\<And>j. slot_of (cw_store w') j = slot_of (cw_store w) j" "\<not> cd_verified (co_data out)" "co_is_error out"
  | st1 r reason z f where "\<And>j. slot_of st1 j = slot_of (cw_store w) j"
      "sl_record (slot_of (cw_store w) i) = RecordFile r" "same_pin r pinned"
      "store_save (ex_failed io) (mismatch_record reason r) st1 = (z, f, cw_store w')"
      "\<not> cd_verified (co_data out)" "co_is_error out"
  | r where "\<And>j. slot_of (cw_store w') j = slot_of (cw_store w) j"
      "sl_record (slot_of (cw_store w) i) = RecordFile r" "same_pin r pinned" "chr_applying_revision r = None"
      "verify_candidate_bytes env (ex_read io) (cw_store w) i r = None"
      "co_data out = (let d = change_data_for_record ChangeExport r (Some (ce_output_bytes env div 2)) in
         d\<lparr>cd_cleanup_warnings := merge_warnings (cw_warnings w) (cd_cleanup_warnings d)\<rparr>)"
      "co_status out = (if current_revision_fresh_pass r then ''EXPORTED'' else ''EXPORTED_UNVERIFIED'')"
      "\<not> co_is_error out"
proof -
  obtain x st1 where lock: "try_lock (ex_lock io) i (cw_store w) = (x, st1)" by (cases "try_lock (ex_lock io) i (cw_store w)")
  note same = try_lock_effect [OF lock]
  let ?w1 = "w\<lparr>cw_store := st1\<rparr>"
  note outs = error_outcome_def refuse_change_def finish_outcome_def absent_data_def default_change_data_def load_for_def
    reload_pinned_record_def
  consider (early) "cw_store w' = st1" "\<not> cd_verified (co_data out)" "co_is_error out"
    | (go) r where "x = Inr True" "reload_pinned_record env ChangeExport (ex_reload io) i pinned ?w1 = Inr r"
        "chr_applying_revision r = None"
    using assms lock
    by (auto simp: export_locked_def Let_def outs split: sum.splits bool.splits if_splits option.splits)
  then show ?thesis
  proof cases
    case early
    then show ?thesis using that(1) same by simp
  next
    case (go r)
    note r = reload_pinned_Inr [OF go(2)]
    show ?thesis
    proof (cases "verify_candidate_bytes env (ex_read io) st1 i r")
      case (Some reason)
      with assms lock go r same that(2) [of st1 r reason] show ?thesis
        by (cases "store_save (ex_failed io) (mismatch_record reason r) st1")
          (auto simp: export_locked_def Let_def refuse_change_def finish_outcome_def)
    next
      case None
      have "verify_candidate_bytes env (ex_read io) (cw_store w) i r = None"
        using None same by (simp add: verify_candidate_bytes_def)
      with None assms lock go r same show ?thesis
        by (intro that(3) [of r])
          (auto simp: export_locked_def Let_def finish_outcome_def change_data_for_record_def split: prod.splits)
    qed
  qed
qed

end
