(* ===== verification/Change_Contract.thy ===== *)
theory Change_Contract
  imports Change_Steps
begin

text \<open>
  Every operation on the store interprets \<open>store_action\<close>: stage, its durable marker alone, both halves of
  validation, export, discard, create, and the sweep and recovery of one directory.
\<close>

section \<open>Export, recovery and the sweep\<close>

lemma export_writes:
  assumes "export_locked env io i pinned w = (out, w')" and "chr_state pinned = RecordReady"
    and ids: "ids_ok (cw_store w)"
  shows "slot_writes i (written (ce_sha env) runs (cw_store w) i) (cw_store w) (cw_store w')"
  using assms(1)
proof (cases rule: export_cases)
  case (mismatch st1 r reason z f)
  have r: "chr_state r = RecordReady" "chr_id r = i"
    using mismatch(3) assms(2) ids_okD [OF ids mismatch(2)] by (simp_all add: same_pin_def)
  have "successor (ce_sha env) runs r (mismatch_record reason r)"
    using r(1) by (intro successor_mismatch successor_refl) simp
  then have "slot_writes i (successor (ce_sha env) runs r) st1 (cw_store w')"
    using slot_writes_save [OF mismatch(4)] successor_stamped r(2) by (simp add: mismatch_record_def)
  then show ?thesis using writtenI [OF mismatch(2)] slot_writes_same_slots [OF mismatch(1)] by blast
qed (simp_all add: slot_writes_def)

lemma recover_writes:
  assumes "recover_entry io i acc = acc'" and "only_removes (rc_remove io) slot_shrinks"
    and ids: "ids_ok (snd acc)"
  shows "slot_writes i (written sha runs (snd acc) i) (snd acc) (snd acc')"
proof -
  obtain x st1 where lock: "try_lock (rc_lock io) i (snd acc) = (x, st1)"
    by (cases "try_lock (rc_lock io) i (snd acc)")
  note same = try_lock_effect [OF lock]
  have moved: "slot_writes i (written sha runs (snd acc) i) st1 (snd acc')" if "snd acc' \<noteq> st1"
  proof -
    from that assms(1) lock obtain r where "x = Inr True" and load: "store_load (rc_load io) st1 i = Inr (Some r)"
      and kind: "chr_state r = RecordApplying \<or> chr_state r = RecordCapturing"
      by (cases acc) (auto simp: recover_entry_def Let_def split: sum.splits bool.splits option.splits if_splits)
    have slot: "sl_record (slot_of (snd acc) i) = RecordFile r" using store_load_Some(1) [OF load] same by simp
    have r: "chr_id r = i" by (rule ids_okD [OF ids slot])
    have succ: "successor sha runs r (recover_record r)"
      by (rule successor_recovered, rule successor_refl) (use kind in auto)
    from assms(1) lock \<open>x = Inr True\<close> load kind
    consider y a where "store_save (rc_save io) (recover_record r) st1 = (y, a, snd acc')"
      | y where "remove_change (rc_remove io) i st1 = (y, snd acc')"
      by (cases acc) (auto simp: recover_entry_def Let_def split: option.splits prod.splits)
    then show ?thesis
    proof cases
      case (1 y a)
      have "slot_writes i (successor sha runs r) st1 (snd acc')"
        using slot_writes_save [OF 1] successor_stamped [OF succ] r by (simp add: recover_record_def)
      then show ?thesis by (rule slot_writes_mono) (use slot in \<open>auto simp: written_def from_slot_def\<close>)
    qed (rule slot_writes_remove [OF _ assms(2)])
  qed
  have "slot_writes i (written sha runs (snd acc) i) st1 (snd acc')"
    using moved by (cases "snd acc' = st1") auto
  then show ?thesis using slot_writes_same_slots [OF same] by blast
qed

lemma sweep_cases:
  assumes "sweep_entry ttl_ms io i (s, st) = (s', st')"
  obtains (kept) "\<And>j. slot_of st' j = slot_of st j"
  | (removed) st1 y where "\<And>j. slot_of st1 j = slot_of st j" "lk_answer (sw_lock io) = Inr True"
      "remove_change (sw_remove io) i st1 = (y, st')"
      "\<And>r. sl_record (slot_of st i) = RecordFile r \<Longrightarrow> sat_add (chr_updated_at_ms r) ttl_ms \<le> sw_now io"
proof -
  obtain x st1 where lock: "try_lock (sw_lock io) i st = (x, st1)" by (cases "try_lock (sw_lock io) i st")
  note same = try_lock_effect [OF lock]
  show ?thesis
  proof (cases "st' = st1")
    case True
    then show ?thesis using kept same by simp
  next
    case False
    with assms lock obtain rec where x: "x = Inr True" and load: "store_load (sw_load io) st1 i = Inr rec"
      and old: "case rec of Some r \<Rightarrow> sat_add (chr_updated_at_ms r) ttl_ms \<le> sw_now io | None \<Rightarrow> sw_stale_directory io"
      and rm: "st' = snd (remove_change (sw_remove io) i st1)"
      by (auto simp: sweep_entry_def Let_def split: sum.splits bool.splits if_splits option.splits prod.splits)
    have "lk_answer (sw_lock io) = Inr True" using lock x by (auto simp: try_lock_def split: option.splits)
    moreover have "sat_add (chr_updated_at_ms r) ttl_ms \<le> sw_now io" if "sl_record (slot_of st i) = RecordFile r" for r
      using that load old same by (auto simp: store_load_def split: if_splits option.splits)
    moreover obtain y where "remove_change (sw_remove io) i st1 = (y, st')" using rm by (metis prod.collapse)
    ultimately show ?thesis using removed same by blast
  qed
qed

lemma sweep_writes:
  assumes "only_removes (sw_remove io) slot_shrinks"
  shows "slot_writes i Q (snd acc) (snd (sweep_entry ttl_ms io i acc))"
proof -
  obtain s st s' st' where "acc = (s, st)" and step: "sweep_entry ttl_ms io i (s, st) = (s', st')"
    by (metis prod.collapse)
  moreover from step have "slot_writes i Q st st'"
  proof (cases rule: sweep_cases)
    case kept
    then show ?thesis by (simp add: slot_writes_def)
  next
    case (removed st1 y)
    then show ?thesis using slot_writes_same_slots [OF removed(1) slot_writes_remove [OF removed(3) assms]] by blast
  qed
  ultimately show ?thesis by simp
qed

section \<open>Discard and create\<close>

lemma discarded_record_fields:
  "chr_id (discarded_record ws r) = chr_id r" "chr_state (discarded_record ws r) = RecordDiscarded"
  "\<not> current_revision_fresh_pass (discarded_record ws r)"
proof -
  have "chr_id (fold push_record_warning ws a) = chr_id a \<and> chr_state (fold push_record_warning ws a) = chr_state a \<and>
      chr_evidence (fold push_record_warning ws a) = chr_evidence a" for a
    by (induction ws arbitrary: a) simp_all
  then show "chr_id (discarded_record ws r) = chr_id r" "chr_state (discarded_record ws r) = RecordDiscarded"
    "\<not> current_revision_fresh_pass (discarded_record ws r)"
    by (auto simp: discarded_record_def fresh_pass_iff)
qed

lemma discard_writes:
  assumes "discard_locked env io i r w = (out, w')" and "chr_id r = i"
  shows "slot_writes i (written sha runs (cw_store w) i) (cw_store w) (cw_store w')"
proof -
  let ?Q = "written sha runs (cw_store w) i"
  obtain x st1 where lock: "try_lock (di_lock io) i (cw_store w) = (x, st1)"
    by (cases "try_lock (di_lock io) i (cw_store w)")
  obtain ws st2 where wt: "discard_worktree (di_candidate io) (di_cache io) i st1 = (ws, st2)"
    by (cases "discard_worktree (di_candidate io) (di_cache io) i st1")
  obtain y a st3 where save: "store_save (di_save io) (discarded_record ws r) st2 = (y, a, st3)" by (metis prod_cases3)
  have "?Q b" if "stamped (discarded_record ws r) b" for b
    using stamped_fields(1,3,4,6) [OF that] discarded_record_fields [of ws r] assms(2)
    by (simp add: written_def fresh_pass_iff)
  then have "slot_writes i ?Q st2 st3" using slot_writes_save [OF save] assms(2) by (simp add: discarded_record_fields)
  then have "slot_writes i ?Q (cw_store w) st3"
    using slot_writes_trans [OF slot_writes_lock [OF lock]] slot_writes_trans [OF slot_writes_discard_worktree [OF wt]] by blast
  moreover have "cw_store w' = st1 \<or> cw_store w' = st3"
    using assms(1) lock wt save by (auto simp: discard_locked_def Let_def split: sum.splits bool.splits)
  ultimately show ?thesis using slot_writes_lock [OF lock] by auto
qed

lemma slot_writes_manifest: "write_manifest f i m st = (res, st') \<Longrightarrow> slot_writes i Q st st'"
  by (auto simp: write_manifest_def Let_def slot_writes_def split: prod.splits)

definition blank_record :: "string \<Rightarrow> change_record \<Rightarrow> bool" where
  "blank_record i r \<longleftrightarrow> chr_id r = i \<and> chr_revision r = 0 \<and> chr_evidence r = []"

lemma blank_stamped: "blank_record i a \<Longrightarrow> stamped a b \<Longrightarrow> blank_record i b"
  by (simp add: blank_record_def stamped_fields)

lemma blank_records:
  "blank_record i (placeholder_record now i root epoch)"
  "blank_record i (captured_record sha now i root epoch cepoch roots m)"
  by (simp_all add: blank_record_def placeholder_record_def captured_record_def Let_def)

lemma capture_into_writes:
  assumes "capture_into env say io i snapshot epoch st = (res, st')"
  shows "slot_writes i (blank_record i) st st'"
proof (cases "capture_tree (ce_sha env) (capture_context_of env io snapshot) (ct_source io)")
  case (Inl e)
  with assms show ?thesis by (auto simp: capture_into_def split: capture_error.splits)
next
  case (Inr mt)
  let ?b = "captured_record (ce_sha env) (ct_now io) i (wsn_workspace_root snapshot) epoch"
  let ?st1 = "bt_insert i ((slot_of st i)\<lparr>sl_candidate := CandidateDir (written_fs (snd mt))\<rparr>) st"
  have w1: "slot_writes i (blank_record i) st ?st1" by (simp add: slot_writes_def)
  obtain x st2 where m: "write_manifest (ct_manifest io) i (fst mt) ?st1 = (x, st2)"
    by (cases "write_manifest (ct_manifest io) i (fst mt) ?st1")
  have w2: "slot_writes i (blank_record i) st st2" using slot_writes_trans [OF w1 slot_writes_manifest [OF m]] .
  have w3: "slot_writes i (blank_record i) st st3"
    if "store_save (ct_final io) (?b c (ct_dependency_roots io) (fst mt)) st2 = (y, a, st3)" for c y a st3
  proof -
    have "slot_writes i (blank_record i) st2 st3"
      by (rule slot_writes_save [OF that], simp add: captured_record_def placeholder_record_def Let_def)
        (rule blank_stamped [OF blank_records(2)])
    then show ?thesis using slot_writes_trans [OF w2] by blast
  qed
  from assms Inr m w2 w3 show ?thesis
    by (cases mt) (auto simp: capture_into_def Let_def split: option.splits sum.splits prod.splits)
qed

lemma create_writes:
  assumes "create_blocking env say io epoch w = (res, w')" and "only_removes (ct_remains io) slot_shrinks"
    and "i = fst (next_change_id env (ct_now io) w)"
  shows "slot_writes i (blank_record i) (cw_store w) (cw_store w')"
proof (cases "create_refusal io")
  case (Inl e)
  with assms(1) show ?thesis by (cases e) (simp add: create_blocking_def)
next
  case (Inr snapshot)
  let ?p = "placeholder_record (ct_now io) i (wsn_workspace_root snapshot) epoch"
  obtain w1 where n: "next_change_id env (ct_now io) w = (i, w1)" using assms(3) by (metis prod.collapse)
  have w1: "cw_store w1 = cw_store w" using n by (auto simp: next_change_id_def)
  obtain x st1 where lock: "try_lock (ct_lock io) i (cw_store w1) = (x, st1)"
    by (cases "try_lock (ct_lock io) i (cw_store w1)")
  obtain y a st2 where save: "store_save (ct_placeholder io) ?p st1 = (y, a, st2)" by (metis prod_cases3)
  obtain z st3 where cap: "capture_into env say io i snapshot epoch st2 = (z, st3)"
    by (cases "capture_into env say io i snapshot epoch st2")
  let ?Q = "blank_record i"
  have l: "slot_writes i ?Q (cw_store w) st1" using slot_writes_lock [OF lock] w1 by simp
  have "slot_writes i ?Q st1 st2"
    by (rule slot_writes_save [OF save], simp add: placeholder_record_def) (rule blank_stamped [OF blank_records(1)])
  then have s: "slot_writes i ?Q (cw_store w) st2" by (rule slot_writes_trans [OF l])
  have c: "slot_writes i ?Q (cw_store w) st3" using slot_writes_trans [OF s capture_into_writes [OF cap]] .
  have rm: "slot_writes i ?Q (cw_store w) (snd (remove_change (ct_remains io) i st))" if "slot_writes i ?Q (cw_store w) st" for st
    using slot_writes_trans [OF that slot_writes_remove [OF _ assms(2)]] by (metis prod.collapse)
  consider (locked) "x = Inr True" | (early) e where "x = Inl e \<or> x = Inr False" by (cases x) auto
  then have "cw_store w' \<in> {st1, snd (remove_change (ct_remains io) i st2), st3,
      snd (remove_change (ct_remains io) i st3)}"
  proof cases
    case locked
    with assms(1) Inr n lock save cap show ?thesis
      by (cases y; cases z) (simp_all add: create_blocking_def prod.case_eq_if Let_def, auto)
  next
    case early
    then have "snd (create_blocking env say io epoch w) = w1\<lparr>cw_store := st1\<rparr>"
      unfolding create_blocking_def Inr sum.case Let_def n prod.case lock by (elim disjE) simp_all
    with assms(1) show ?thesis by simp
  qed
  then show ?thesis using l c rm [OF s] rm [OF c] by (elim insertE emptyE) simp_all
qed

section \<open>The contract, action by action\<close>

text \<open>Several processes work on one store; each brings its own warnings and its own id counter.\<close>

definition world_at :: "change_store \<Rightarrow> string list \<Rightarrow> nat \<Rightarrow> change_world" where
  "world_at st ws n = \<lparr>cw_store = st, cw_warnings = ws, cw_sequence = n\<rparr>"

lemma world_at_store [simp]: "cw_store (world_at st ws n) = st"
  by (simp add: world_at_def)

definition bounded_revisions :: "change_env \<Rightarrow> bool" where
  "bounded_revisions env \<longleftrightarrow> ccf_max_revisions (ce_config env) < u64_max"

interpretation stage: store_action "ce_sha env" runs i "\<lambda>_. bounded_revisions env"
    "\<lambda>st. snd (stage_blocking env io i epoch expected base patches new_files st)"
  for env runs i io epoch expected base patches new_files
  by unfold_locales (metis stage_writes bounded_revisions_def prod.collapse)

interpretation marker: store_action sha runs i
    "\<lambda>st. sl_record (slot_of st i) = RecordFile r \<and> chr_state r = RecordReady"
    "\<lambda>st. snd (snd (store_save io (applying_record r) st))"
  for sha runs i r io
proof unfold_locales
  fix st
  assume st: "sl_record (slot_of st i) = RecordFile r \<and> chr_state r = RecordReady" and ids: "ids_ok st"
  obtain x a st' where save: "store_save io (applying_record r) st = (x, a, st')" by (metis prod_cases3)
  have "chr_id (applying_record r) = i" using ids_okD [OF ids] st by (simp add: applying_record_def)
  then have "slot_writes i (successor sha runs r) st st'"
    by (rule slot_writes_save [OF save])
      (rule successor_stamped, rule successor_applying, rule successor_refl, use st in simp_all)
  then show "slot_writes i (written sha runs st i) st (snd (snd (store_save io (applying_record r) st)))"
    using writtenI st save by simp
qed

interpretation validating: store_action "ce_sha env" runs i "\<lambda>_. chr_state pinned = RecordReady"
    "\<lambda>st. cw_store (snd (validate_ready env io i pinned (world_at st ws n)))"
  for env runs i pinned io ws n
  by unfold_locales (metis validate_ready_writes world_at_store prod.collapse)

text \<open>A full validation: the run it made is among the runs it is judged by.\<close>

definition run_logged :: "change_env \<Rightarrow> validate_io \<Rightarrow> string \<Rightarrow> change_record \<Rightarrow> change_world \<Rightarrow> gate_run list \<Rightarrow> bool" where
  "run_logged env io i pinned w runs \<longleftrightarrow>
     (case validate_ready env io i pinned w of
        (Inl _, _) \<Rightarrow> True
      | (Inr r, w) \<Rightarrow> gate_run_of io i r w \<in> set runs)"

interpretation validate: store_action "ce_sha env" runs i
    "\<lambda>st. chr_state pinned = RecordReady \<and> run_logged env io i pinned (world_at st ws n) runs"
    "\<lambda>st. cw_store (snd (validate_locked env io i pinned epoch (world_at st ws n)))"
  for env runs i pinned io ws n epoch
proof unfold_locales
  fix st
  assume en: "chr_state pinned = RecordReady \<and> run_logged env io i pinned (world_at st ws n) runs" and ids: "ids_ok st"
  obtain x w1 where v: "validate_ready env io i pinned (world_at st ws n) = (x, w1)"
    by (cases "validate_ready env io i pinned (world_at st ws n)")
  obtain out w2 where run: "\<And>r. x = Inr r \<Longrightarrow> validate_run env io i r epoch w1 = (out, w2)" by (metis sum.inject(2) surj_pair)
  show "slot_writes i (written (ce_sha env) runs st i) st
      (cw_store (snd (validate_locked env io i pinned epoch (world_at st ws n))))"
  proof (cases x)
    case (Inl out)
    then show ?thesis using validate_ready_writes [OF v] en ids v by (simp add: validate_locked_def)
  next
    case (Inr r)
    then show ?thesis using validate_writes [OF v [unfolded Inr] run [OF Inr]] en ids v run
      by (simp add: validate_locked_def run_logged_def)
  qed
qed

interpretation export: store_action "ce_sha env" runs i "\<lambda>_. chr_state pinned = RecordReady"
    "\<lambda>st. cw_store (snd (export_locked env io i pinned (world_at st ws n)))"
  for env runs i pinned io ws n
  by unfold_locales (metis export_writes world_at_store prod.collapse)

interpretation discard: store_action sha runs i "\<lambda>_. chr_id r = i"
    "\<lambda>st. cw_store (snd (discard_locked env io i r (world_at st ws n)))"
  for sha runs i r env io ws n
  by unfold_locales (metis discard_writes world_at_store prod.collapse)

interpretation create: store_action sha runs "fst (next_change_id env (ct_now io) (world_at [] ws n))"
    "\<lambda>st. only_removes (ct_remains io) slot_shrinks \<and>
       sl_record (slot_of st (fst (next_change_id env (ct_now io) (world_at [] ws n)))) = NoRecord"
    "\<lambda>st. cw_store (snd (create_blocking env say io epoch (world_at st ws n)))"
  for sha runs env io ws n say epoch
proof unfold_locales
  fix st
  let ?i = "fst (next_change_id env (ct_now io) (world_at [] ws n))"
  assume en: "only_removes (ct_remains io) slot_shrinks \<and> sl_record (slot_of st ?i) = NoRecord"
  have i: "?i = fst (next_change_id env (ct_now io) (world_at st ws n))" by (simp add: next_change_id_def world_at_def)
  obtain res w' where "create_blocking env say io epoch (world_at st ws n) = (res, w')"
    by (cases "create_blocking env say io epoch (world_at st ws n)")
  from create_writes [OF this _ i] this en
  have "slot_writes ?i (blank_record ?i) st (cw_store (snd (create_blocking env say io epoch (world_at st ws n))))" by simp
  then show "slot_writes ?i (written sha runs st ?i) st (cw_store (snd (create_blocking env say io epoch (world_at st ws n))))"
    by (rule slot_writes_mono) (use en in \<open>simp add: written_def blank_record_def\<close>)
qed

interpretation sweep: store_action sha runs i "\<lambda>_. only_removes (sw_remove io) slot_shrinks"
    "\<lambda>st. snd (sweep_entry ttl_ms io i (s, st))"
  for sha runs i io ttl_ms s
  using sweep_writes [where acc = "(s, _)"] by unfold_locales simp

interpretation recover: store_action sha runs i "\<lambda>_. only_removes (rc_remove io) slot_shrinks"
    "\<lambda>st. snd (recover_entry io i (s, st))"
  for sha runs i io s
  using recover_writes [where acc = "(s, _)"] by unfold_locales simp

end
