(* ===== verification/Change_System.thy ===== *)
theory Change_System
  imports Change_Contract
begin

text \<open>
  Several processes serve requests on one scratch store. A request that pins a record before it takes the lock
  is in flight until its locked part runs, and anything may happen in between; a process may stop after any
  durable write. The candidate copies are fair game: \<open>disturb\<close> changes them at will, so what the theorems say
  of evidence holds whatever else writes there.
\<close>

section \<open>Executions\<close>

datatype in_flight =
    Validating change_env validate_io nat string change_record
  | Exporting change_env export_io string change_record
  | Discarding change_env discard_io string change_record

record change_system =
  sys_store :: change_store
  sys_runs :: "gate_run list"
  sys_flights :: "in_flight list"

definition served :: "(string \<Rightarrow> string) \<Rightarrow> change_env \<Rightarrow> bool" where
  "served sha env \<longleftrightarrow> ce_sha env = sha \<and> bounded_revisions env"

definition same_records :: "change_store \<Rightarrow> change_store \<Rightarrow> bool" where
  "same_records st st' \<longleftrightarrow> (\<forall>i. sl_record (slot_of st' i) = sl_record (slot_of st i))"

inductive change_step :: "(string \<Rightarrow> string) \<Rightarrow> change_system \<Rightarrow> change_outcome option \<Rightarrow> change_system \<Rightarrow> bool"
  for sha where
  create: "served sha env \<Longrightarrow> only_removes (ct_remains io) slot_shrinks \<Longrightarrow>
    sl_record (slot_of (sys_store s) (fst (next_change_id env (ct_now io) (world_at [] ws n)))) = NoRecord \<Longrightarrow>
    change_create env say io epoch (world_at (sys_store s) ws n) = (out, w') \<Longrightarrow>
    change_step sha s (Some out) (s\<lparr>sys_store := cw_store w'\<rparr>)"
| create_stops: "sl_record (slot_of (sys_store s) i) = NoRecord \<Longrightarrow>
    store_save io (placeholder_record now i root epoch) (sys_store s) = (res, r, st') \<Longrightarrow>
    change_step sha s None (s\<lparr>sys_store := st'\<rparr>)"
| stage: "served sha env \<Longrightarrow> change_stage env io request epoch (world_at (sys_store s) ws n) = (out, w') \<Longrightarrow>
    change_step sha s (Some out) (s\<lparr>sys_store := cw_store w'\<rparr>)"
| stage_stops: "sl_record (slot_of (sys_store s) i) = RecordFile r \<Longrightarrow> chr_state r = RecordReady \<Longrightarrow>
    store_save io (applying_record r) (sys_store s) = (res, r', st') \<Longrightarrow>
    change_step sha s None (s\<lparr>sys_store := st'\<rparr>)"
| inspect: "served sha env \<Longrightarrow>
    change_step sha s (Some (change_inspect env fault request (world_at (sys_store s) ws n))) s"
| validate_refused: "validate_pin env io request epoch (world_at (sys_store s) ws n) = Inl out \<Longrightarrow>
    change_step sha s (Some out) s"
| validate_pinned: "served sha env \<Longrightarrow>
    validate_pin env io request epoch (world_at (sys_store s) ws n) = Inr (i, r) \<Longrightarrow>
    change_step sha s None (s\<lparr>sys_flights := Validating env io epoch i r # sys_flights s\<rparr>)"
| validate_answered: "Validating env io epoch i r \<in> set (sys_flights s) \<Longrightarrow>
    validate_ready env io i r (world_at (sys_store s) ws n) = (Inl out, w') \<Longrightarrow>
    change_step sha s (Some out)
      (s\<lparr>sys_store := cw_store w', sys_flights := remove1 (Validating env io epoch i r) (sys_flights s)\<rparr>)"
| validate_ran: "Validating env io epoch i pinned \<in> set (sys_flights s) \<Longrightarrow>
    validate_ready env io i pinned (world_at (sys_store s) ws n) = (Inr r, w1) \<Longrightarrow>
    validate_run env io i r epoch w1 = (out, w') \<Longrightarrow>
    change_step sha s (Some out)
      (s\<lparr>sys_store := cw_store w', sys_runs := gate_run_of io i r w1 # sys_runs s,
         sys_flights := remove1 (Validating env io epoch i pinned) (sys_flights s)\<rparr>)"
| validate_stops: "Validating env io epoch i r \<in> set (sys_flights s) \<Longrightarrow>
    validate_ready env io i r (world_at (sys_store s) ws n) = (res, w') \<Longrightarrow>
    change_step sha s None
      (s\<lparr>sys_store := cw_store w', sys_flights := remove1 (Validating env io epoch i r) (sys_flights s)\<rparr>)"
| export_refused: "export_pin env io request epoch (world_at (sys_store s) ws n) = Inl out \<Longrightarrow>
    change_step sha s (Some out) s"
| export_pinned: "served sha env \<Longrightarrow>
    export_pin env io request epoch (world_at (sys_store s) ws n) = Inr (i, r) \<Longrightarrow>
    change_step sha s None (s\<lparr>sys_flights := Exporting env io i r # sys_flights s\<rparr>)"
| export: "Exporting env io i r \<in> set (sys_flights s) \<Longrightarrow>
    export_locked env io i r (world_at (sys_store s) ws n) = (out, w') \<Longrightarrow>
    change_step sha s (Some out)
      (s\<lparr>sys_store := cw_store w', sys_flights := remove1 (Exporting env io i r) (sys_flights s)\<rparr>)"
| discard_answered: "discard_pin env io request (world_at (sys_store s) ws n) = Inl out \<Longrightarrow>
    change_step sha s (Some out) s"
| discard_pinned: "served sha env \<Longrightarrow>
    discard_pin env io request (world_at (sys_store s) ws n) = Inr (i, r) \<Longrightarrow>
    change_step sha s None (s\<lparr>sys_flights := Discarding env io i r # sys_flights s\<rparr>)"
| discard: "Discarding env io i r \<in> set (sys_flights s) \<Longrightarrow>
    discard_locked env io i r (world_at (sys_store s) ws n) = (out, w') \<Longrightarrow>
    change_step sha s (Some out)
      (s\<lparr>sys_store := cw_store w', sys_flights := remove1 (Discarding env io i r) (sys_flights s)\<rparr>)"
| sweep: "only_removes (sw_remove io) slot_shrinks \<Longrightarrow>
    sweep_entry ttl_ms io i (acc, sys_store s) = (acc', st') \<Longrightarrow>
    change_step sha s None (s\<lparr>sys_store := st'\<rparr>)"
| recover: "only_removes (rc_remove io) slot_shrinks \<Longrightarrow>
    recover_entry io i (acc, sys_store s) = (acc', st') \<Longrightarrow>
    change_step sha s None (s\<lparr>sys_store := st'\<rparr>)"
| flight_stops: "f \<in> set (sys_flights s) \<Longrightarrow>
    change_step sha s None (s\<lparr>sys_flights := remove1 f (sys_flights s)\<rparr>)"
| disturb: "same_records (sys_store s) st' \<Longrightarrow> change_step sha s None (s\<lparr>sys_store := st'\<rparr>)"

inductive change_reachable :: "(string \<Rightarrow> string) \<Rightarrow> change_system \<Rightarrow> bool" for sha where
  empty: "change_reachable sha \<lparr>sys_store = [], sys_runs = [], sys_flights = []\<rparr>"
| step: "change_reachable sha s \<Longrightarrow> change_step sha s label s' \<Longrightarrow> change_reachable sha s'"

section \<open>The invariant\<close>

text \<open>A request in flight holds a record that was filed under its id, ready for validation and export.\<close>

fun flight_ok :: "(string \<Rightarrow> string) \<Rightarrow> gate_run list \<Rightarrow> in_flight \<Rightarrow> bool" where
  "flight_ok sha runs (Validating env io epoch i r) \<longleftrightarrow> served sha env \<and> chr_id r = i \<and> chr_state r = RecordReady"
| "flight_ok sha runs (Exporting env io i r) \<longleftrightarrow> served sha env \<and> chr_id r = i \<and> chr_state r = RecordReady"
| "flight_ok sha runs (Discarding env io i r) \<longleftrightarrow>
     served sha env \<and> chr_id r = i \<and> (current_revision_fresh_pass r \<longrightarrow> vouched sha runs r)"

definition system_ok :: "(string \<Rightarrow> string) \<Rightarrow> change_system \<Rightarrow> bool" where
  "system_ok sha s \<longleftrightarrow> rows_ok sha (sys_runs s) (sys_store s) \<and> (\<forall>f \<in> set (sys_flights s). flight_ok sha (sys_runs s) f)"

lemma flight_ok_mono: "flight_ok sha runs f \<Longrightarrow> set runs \<subseteq> set runs' \<Longrightarrow> flight_ok sha runs' f"
  using vouched_mono by (cases f) auto

lemma rows_okD:
  "rows_ok sha runs st \<Longrightarrow> sl_record (slot_of st i) = RecordFile r \<Longrightarrow>
   chr_id r = i \<and> (current_revision_fresh_pass r \<longrightarrow> vouched sha runs r)"
  by (auto simp: rows_ok_def ids_ok_def)

lemma validate_pin_Inr:
  assumes "validate_pin env io request epoch w = Inr (i, r)"
  shows "sl_record (slot_of (cw_store w) i) = RecordFile r" and "chr_state r = RecordReady"
  using assms
  by (auto simp: validate_pin_def state_refusal_def dest: load_for_Inr
      split: sum.splits option.splits if_splits record_state.splits)

lemma export_pin_Inr:
  assumes "export_pin env io request epoch w = Inr (i, r)"
  shows "sl_record (slot_of (cw_store w) i) = RecordFile r" and "chr_state r = RecordReady"
  using assms
  by (auto simp: export_pin_def state_refusal_def dest: load_for_Inr
      split: sum.splits option.splits if_splits record_state.splits)

lemma discard_pin_Inr:
  assumes "discard_pin env io request w = Inr (i, r)"
  shows "sl_record (slot_of (cw_store w) i) = RecordFile r"
  using assms
  by (auto simp: discard_pin_def dest: store_load_Some(1) split: sum.splits option.splits if_splits)

text \<open>What a step does to the store is an action of the contract, or leaves every record alone.\<close>

definition store_move :: "(string \<Rightarrow> string) \<Rightarrow> gate_run list \<Rightarrow> change_store \<Rightarrow> change_store \<Rightarrow> bool" where
  "store_move sha runs st st' \<longleftrightarrow>
     same_records st st' \<or>
     (\<exists>i enabled act. store_action sha runs i enabled act \<and> enabled st \<and> st' = act st)"

lemma store_moveI: "store_action sha runs i enabled act \<Longrightarrow> enabled st \<Longrightarrow> act st = st' \<Longrightarrow> store_move sha runs st st'"
  by (auto simp: store_move_def)

lemma store_move_refl: "store_move sha runs st st"
  by (simp add: store_move_def same_records_def)

lemma failure_outcome_store: "failure_outcome env action i f w = (out, w') \<Longrightarrow> cw_store w' = cw_store w"
  by (auto simp: failure_outcome_def Let_def)

lemma change_create_store:
  assumes "change_create env say io epoch w = (out, w')"
  shows "cw_store w' = cw_store w \<or> cw_store w' = cw_store (snd (create_blocking env say io epoch w))"
  using assms by (auto simp: change_create_def dest: failure_outcome_store split: if_splits sum.splits prod.splits)

lemma change_stage_store:
  assumes "change_stage env io request epoch w = (out, w')"
  obtains "cw_store w' = cw_store w"
  | i where "cw_store w' = snd (stage_blocking env io i epoch (cr_expected_revision request)
      (cr_base_identity request) (cr_patches request) (cr_new_files request) (cw_store w))"
proof (cases "\<exists>i. cr_change_id request = Some i \<and> is_valid_change_id i")
  case True
  then obtain i where i: "cr_change_id request = Some i" "is_valid_change_id i" by blast
  obtain res st' where run: "stage_blocking env io i epoch (cr_expected_revision request)
      (cr_base_identity request) (cr_patches request) (cr_new_files request) (cw_store w) = (res, st')" by (metis surj_pair)
  have "cw_store w' = st'"
    using assms i run by (cases res) (auto simp: change_stage_def Let_def dest: failure_outcome_store)
  with that(2) [of i] run show ?thesis by simp
next
  case False
  with assms that(1) show ?thesis by (auto simp: change_stage_def split: option.splits)
qed

interpretation placeholder: store_action sha runs i "\<lambda>st. sl_record (slot_of st i) = NoRecord"
    "\<lambda>st. snd (snd (store_save io (placeholder_record now i root epoch) st))"
  for sha runs i io now root epoch
proof unfold_locales
  fix st
  assume empty: "sl_record (slot_of st i) = NoRecord"
  obtain x a st' where save: "store_save io (placeholder_record now i root epoch) st = (x, a, st')" by (metis prod_cases3)
  have "slot_writes i (blank_record i) st st'"
    by (rule slot_writes_save [OF save], simp add: placeholder_record_def) (rule blank_stamped [OF blank_records(1)])
  then have "slot_writes i (written sha runs st i) st st'"
    by (rule slot_writes_mono) (use empty in \<open>simp add: written_def blank_record_def\<close>)
  with save show "slot_writes i (written sha runs st i) st (snd (snd (store_save io (placeholder_record now i root epoch) st)))"
    by simp
qed

lemma change_step_moves:
  assumes "change_step sha s label s'" and ok: "system_ok sha s"
  shows "store_move sha (sys_runs s') (sys_store s) (sys_store s')"
  using assms(1)
proof cases
  case (create env io ws n say epoch out w')
  from change_create_store [OF create(6)] show ?thesis
  proof
    assume "cw_store w' = cw_store (snd (create_blocking env say io epoch (world_at (sys_store s) ws n)))"
    with create show ?thesis
      by (intro store_moveI [OF create.store_action_axioms [of sha _ env io ws n say epoch]]) auto
  qed (use create in \<open>simp add: store_move_refl\<close>)
next
  case (create_stops i io now root epoch res r st')
  then show ?thesis by (intro store_moveI [OF placeholder.store_action_axioms [of sha _ i io now root epoch]]) auto
next
  case (stage env io request epoch ws n out w')
  from change_stage_store [OF stage(4)] show ?thesis
  proof cases
    case (2 i)
    with stage show ?thesis
      using store_moveI [OF stage.store_action_axioms [of env "sys_runs s" i io epoch "cr_expected_revision request"
        "cr_base_identity request" "cr_patches request" "cr_new_files request"], of "sys_store s" "cw_store w'"]
      by (simp add: served_def)
  qed (use stage in \<open>simp add: store_move_refl\<close>)
next
  case (stage_stops i r io res r' st')
  then show ?thesis by (intro store_moveI [OF marker.store_action_axioms [of sha _ i r io]]) auto
next
  case (validate_answered env io epoch i r ws n out w')
  then have sha: "ce_sha env = sha" and "chr_state r = RecordReady"
    using ok by (auto simp: system_ok_def served_def)
  with validate_answered show ?thesis
    using store_moveI [OF validating.store_action_axioms [of env "sys_runs s" i r io ws n], of "sys_store s" "cw_store w'"] by simp
next
  case (validate_ran env io epoch i pinned ws n r w1 out w')
  then have sha: "ce_sha env = sha" and "chr_state pinned = RecordReady"
    using ok by (auto simp: system_ok_def served_def)
  with validate_ran show ?thesis
    using store_moveI [OF validate.store_action_axioms [of env "gate_run_of io i r w1 # sys_runs s" i pinned io ws n epoch],
        of "sys_store s" "cw_store w'"]
    by (simp add: run_logged_def validate_locked_def)
next
  case (validate_stops env io epoch i r ws n res w')
  then have sha: "ce_sha env = sha" and "chr_state r = RecordReady"
    using ok by (auto simp: system_ok_def served_def)
  with validate_stops show ?thesis
    using store_moveI [OF validating.store_action_axioms [of env "sys_runs s" i r io ws n], of "sys_store s" "cw_store w'"] by simp
next
  case (export env io i r ws n out w')
  then have sha: "ce_sha env = sha" and "chr_state r = RecordReady"
    using ok by (auto simp: system_ok_def served_def)
  with export show ?thesis
    using store_moveI [OF export.store_action_axioms [of env "sys_runs s" i r io ws n], of "sys_store s" "cw_store w'"] by simp
next
  case (discard env io i r ws n out w')
  then have "chr_id r = i" using ok by (auto simp: system_ok_def)
  with discard show ?thesis
    using store_moveI [OF discard.store_action_axioms [of sha "sys_runs s" i r env io ws n], of "sys_store s" "cw_store w'"] by simp
next
  case (sweep io ttl_ms i acc acc' st')
  then show ?thesis
    using store_moveI [OF sweep.store_action_axioms [of sha "sys_runs s" i io ttl_ms acc], of "sys_store s" st'] by simp
next
  case (recover io i acc acc' st')
  then show ?thesis
    using store_moveI [OF recover.store_action_axioms [of sha "sys_runs s" i io acc], of "sys_store s" st'] by simp
qed (simp_all add: store_move_refl, simp_all add: store_move_def)

lemma same_records_rows: "same_records st st' \<Longrightarrow> rows_ok sha runs st \<Longrightarrow> rows_ok sha runs st'"
  by (simp add: same_records_def rows_ok_def ids_ok_def)

lemma store_move_rows: "store_move sha runs st st' \<Longrightarrow> rows_ok sha runs st \<Longrightarrow> rows_ok sha runs st'"
  unfolding store_move_def using same_records_rows store_action.keeps_rows by blast

lemma change_step_runs: "change_step sha s label s' \<Longrightarrow> set (sys_runs s) \<subseteq> set (sys_runs s')"
  by (cases rule: change_step.cases) auto

lemma change_step_flights:
  assumes "change_step sha s label s'" and ok: "system_ok sha s" and "f \<in> set (sys_flights s')"
  shows "flight_ok sha (sys_runs s) f"
  using assms(1)
proof cases
  case (validate_pinned env io request epoch ws n i r)
  with assms(3) ok validate_pin_Inr [OF validate_pinned(4)] show ?thesis
    by (auto simp: system_ok_def dest: rows_okD)
next
  case (export_pinned env io request epoch ws n i r)
  with assms(3) ok export_pin_Inr [OF export_pinned(4)] show ?thesis
    by (auto simp: system_ok_def dest: rows_okD)
next
  case (discard_pinned env io request ws n i r)
  with assms(3) ok discard_pin_Inr [OF discard_pinned(4)] show ?thesis
    by (auto simp: system_ok_def dest: rows_okD)
qed (use assms(3) ok in \<open>auto simp: system_ok_def dest!: set_remove1_subset [THEN subsetD]\<close>)

lemma change_step_ok:
  assumes "change_step sha s label s'" and "system_ok sha s"
  shows "system_ok sha s'"
proof -
  have sub: "set (sys_runs s) \<subseteq> set (sys_runs s')" by (rule change_step_runs [OF assms(1)])
  have "rows_ok sha (sys_runs s') (sys_store s)" using assms(2) rows_ok_mono [OF _ sub] by (simp add: system_ok_def)
  then have "rows_ok sha (sys_runs s') (sys_store s')" using store_move_rows change_step_moves [OF assms] by blast
  moreover have "\<forall>f \<in> set (sys_flights s'). flight_ok sha (sys_runs s') f"
    using change_step_flights [OF assms] flight_ok_mono [OF _ sub] by blast
  ultimately show ?thesis by (simp add: system_ok_def)
qed

lemma reachable_ok: "change_reachable sha s \<Longrightarrow> system_ok sha s"
proof (induction rule: change_reachable.induct)
  case empty
  then show ?case by (simp add: system_ok_def rows_ok_def ids_ok_def slot_of_def empty_slot_def)
qed (rule change_step_ok)

section \<open>Verified answers\<close>

text \<open>The record behind an answer that says \<open>verified\<close>.\<close>

definition answers :: "change_outcome \<Rightarrow> change_record \<Rightarrow> bool" where
  "answers out r \<longleftrightarrow>
     cd_change_id (co_data out) = Some (chr_id r) \<and> cd_revision (co_data out) = chr_revision r \<and>
     cd_source_hashes (co_data out) =
       map (\<lambda>(file, h). \<lparr>sh_file = file, sh_sha256 = sth_sha256 h, sh_bytes = sth_bytes h\<rparr>)
         (take MAX_LISTED_HASHES (chr_source_hashes r)) \<and>
     (cd_verified (co_data out) \<longrightarrow> current_revision_fresh_pass r)"

lemma answers_data:
  "answers (finish_outcome status summary e (change_data_for_record action r b) w) r"
  "answers (finish_outcome status summary e ((change_data_for_record action r b)\<lparr>cd_reason := x\<rparr>) w) r"
  "answers (finish_outcome status summary e ((change_data_for_record action r b)\<lparr>cd_discarded := d, cd_reason := x\<rparr>) w) r"
  "answers (finish_outcome status summary e
     ((change_data_for_record action r b)\<lparr>cd_verified := current_revision_fresh_pass r, cd_reason := x\<rparr>) w) r"
  "answers (finish_outcome status summary e
     ((change_data_for_record action r b)\<lparr>cd_verified := current_revision_fresh_pass r\<rparr>) w) r"
  by (auto simp: answers_def finish_outcome_def change_data_for_record_def split: prod.splits)

lemma unverified_outcomes [simp]:
  "\<not> cd_verified (co_data (error_outcome action status summary reason i w))"
  "\<not> cd_verified (co_data (refuse_change env action status message r reason w))"
  "cd_verified (absent_data action i reason) = False"
  "\<not> cd_verified (default_change_data)"
  "cd_verified (co_data (finish_outcome status summary e d w)) = cd_verified d"
  by (simp_all add: error_outcome_def refuse_change_def finish_outcome_def absent_data_def default_change_data_def)

lemma failure_unverified: "failure_outcome env action i f w = (out, w') \<Longrightarrow> \<not> cd_verified (co_data out)"
  by (auto simp: failure_outcome_def Let_def)

lemma load_for_Inl: "load_for env action fault i w = Inl out \<Longrightarrow> \<not> cd_verified (co_data out)"
  by (auto simp: load_for_def split: sum.splits option.splits)

lemma checked_id_Inl: "checked_id env action request w = Inl out \<Longrightarrow> \<not> cd_verified (co_data out)"
  by (auto simp: checked_id_def split: option.splits if_splits)

lemma state_refusal_Some: "state_refusal env action r w = Some out \<Longrightarrow> \<not> cd_verified (co_data out)"
  by (auto simp: state_refusal_def split: record_state.splits)

lemma reload_Inl: "reload_pinned_record env action fault i pinned w = Inl out \<Longrightarrow> \<not> cd_verified (co_data out)"
  by (auto simp: reload_pinned_record_def dest: load_for_Inl split: sum.splits if_splits)

lemma validate_pin_Inl: "validate_pin env io request epoch w = Inl out \<Longrightarrow> \<not> cd_verified (co_data out)"
  by (auto simp: validate_pin_def dest: checked_id_Inl load_for_Inl state_refusal_Some
      split: sum.splits option.splits if_splits)

lemma export_pin_Inl: "export_pin env io request epoch w = Inl out \<Longrightarrow> \<not> cd_verified (co_data out)"
  by (auto simp: export_pin_def dest: checked_id_Inl load_for_Inl state_refusal_Some
      split: sum.splits option.splits if_splits)

lemma validate_ready_Inl:
  "validate_ready env io i pinned w = (Inl out, w') \<Longrightarrow> \<not> cd_verified (co_data out)"
  by (auto simp: validate_ready_def Let_def dest: reload_Inl split: sum.splits option.splits if_splits prod.splits bool.splits)

lemma create_blocking_Inr:
  assumes "create_blocking env say io epoch w = (Inr r, w')"
  shows "chr_evidence r = []"
proof -
  have "chr_evidence r = []" if cap: "capture_into env say io i snapshot epoch st = (Inr r, st')" for i snapshot st st'
  proof -
    from cap obtain cepoch m st1 where
      save: "store_save (ct_final io) (captured_record (ce_sha env) (ct_now io) i (wsn_workspace_root snapshot) epoch cepoch
        (ct_dependency_roots io) m) st1 = (None, r, st')"
      by (auto simp: capture_into_def Let_def split: sum.splits capture_error.splits prod.splits option.splits)
    show ?thesis using stamped_fields(6) [OF store_save_effect(1) [OF save]] blank_records(2)
      by (simp add: blank_record_def)
  qed
  with assms show ?thesis
    by (auto simp: create_blocking_def Let_def split: sum.splits prod.splits option.splits bool.splits)
qed

lemma stage_done_unverified:
  assumes "stage_blocking env io i epoch expected base patches new_files st = (StageDone r, st')"
  shows "\<not> current_revision_fresh_pass r"
proof -
  have "\<not> current_revision_fresh_pass r" if "stage_apply env io plan a st1 = (StageDone r, st')" for plan a st1
    using that
  proof (cases rule: stage_apply_cases)
    case (staged fs hashes b seq)
    have "chr_evidence r = map supersede (chr_evidence a)"
      using stamped_fields(6) [OF store_save_effect(1) [OF staged(4)]] staged(5)
      by (simp add: staged_record_def Let_def)
    then show ?thesis by (auto simp: fresh_pass_iff)
  qed (auto simp: stage_inconsistent_def split: prod.splits)
  moreover from assms obtain r0 st1 where
    "stage_locked env io r0 expected base patches new_files st1 = (StageDone r, st')"
    by (cases rule: stage_blocking_cases) auto
  ultimately show ?thesis
    by (auto simp: stage_locked_def split: option.splits sum.splits patch_error.splits if_splits prod.splits)
qed

text \<open>The answer of a gate run describes a record the run itself may vouch for.\<close>

lemma validate_run_answer:
  assumes "validate_run env io i r epoch w = (out, w')" and "chr_state r = RecordReady" and "chr_id r = i"
    and "\<And>file h. (file, h) \<in> set (chr_source_hashes r) \<Longrightarrow>
      file_matches (ce_sha env) (fs_of (sl_candidate (slot_of (cw_store w) i))) file h"
    and "\<And>u. sl_record (slot_of (cw_store w) i) = RecordFile u \<Longrightarrow> stamped r u"
    and "gate_run_of io i r w \<in> set runs"
  obtains u where "answers out u" "successor (ce_sha env) runs r u"
proof -
  let ?fs = "fs_of (sl_candidate (slot_of (cw_store w) i))"
  obtain ev fs where gate: "va_gate io ?fs = (ev, fs)" by (cases "va_gate io ?fs")
  let ?st = "put_candidate i fs (cw_store w)"
  let ?u = "updated_record (va_updated io) i r ?st"
  let ?fresh = "evidence_freshness ev (va_cancelled_after io) \<and> chr_revision ?u = chr_revision r \<and>
    epoch = chr_workspace_epoch r"
  let ?b = "?u\<lparr>chr_evidence := keep_evidence (chr_evidence ?u @ evidence_rows (chr_revision r) ?fresh (va_now io) ev)\<rparr>"
  have u: "stamped r ?u \<or> ?u = r\<lparr>chr_evidence := map supersede (chr_evidence r)\<rparr>"
    using updated_record_cases [of ?st i r] assms(5) by simp
  have run: "run_id (gate_run_of io i r w) = chr_id r" "run_revision (gate_run_of io i r w) = chr_revision r"
    "run_fs (gate_run_of io i r w) = ?fs" "run_evidence (gate_run_of io i r w) = ev"
    using assms(3) gate by (simp_all add: gate_run_of_def Let_def)
  have succ: "successor (ce_sha env) runs r ?b"
    using successor_rows [OF u assms(2,6) run(1,2), of "ce_sha env" ?fresh "va_cancelled_after io" "va_now io"] assms(4)
    unfolding run by blast
  obtain x c st2 where save: "store_save (va_final io) ?b ?st = (x, c, st2)" by (metis prod_cases3)
  have "answers out c" using assms(1) gate save by (auto simp: validate_run_def Let_def answers_data(4))
  moreover have "successor (ce_sha env) runs r c" by (rule successor_stamped [OF succ store_save_effect(1) [OF save]])
  ultimately show thesis by (rule that)
qed

lemma discard_answer:
  assumes "discard_locked env io i r w = (out, w')" and "cd_verified (co_data out)"
  shows "answers out r"
proof -
  obtain x st1 where lock: "try_lock (di_lock io) i (cw_store w) = (x, st1)"
    by (cases "try_lock (di_lock io) i (cw_store w)")
  obtain ws st2 where wt: "discard_worktree (di_candidate io) (di_cache io) i st1 = (ws, st2)"
    by (cases "discard_worktree (di_candidate io) (di_cache io) i st1")
  obtain y a st3 where save: "store_save (di_save io) (discarded_record ws r) st2 = (y, a, st3)" by (metis prod_cases3)
  have "\<not> current_revision_fresh_pass a"
    using stamped_fields(4,6) [OF store_save_effect(1) [OF save]] discarded_record_fields(3) [of ws r]
    by (simp add: fresh_pass_iff)
  with assms lock wt save show ?thesis
    by (cases x) (auto simp: discard_locked_def Let_def answers_data split: bool.splits)
qed

lemma verified_record:
  assumes step: "change_step sha s (Some out) s'" and ok: "system_ok sha s" and v: "cd_verified (co_data out)"
  obtains r where "answers out r" "vouched sha (sys_runs s') r"
proof -
  note result = that
  note rows = rows_okD [OF ok [unfolded system_ok_def, THEN conjunct1]]
  have stored: thesis if "answers out r" "sl_record (slot_of (sys_store s) i) = RecordFile r" for i r
  proof -
    have "vouched sha (sys_runs s') r"
      using rows [OF that(2)] that(1) v vouched_mono [OF _ change_step_runs [OF step]] by (simp add: answers_def)
    then show thesis by (rule result [OF that(1)])
  qed
  from step show thesis
  proof cases
    case (create env io ws n say epoch w')
    with v create_blocking_Inr have False
      by (auto simp: change_create_def fresh_pass_iff dest: failure_unverified split: if_splits sum.splits prod.splits)
    then show thesis ..
  next
    case (stage env io request epoch ws n w')
    with v stage_done_unverified have False
      by (auto simp: change_stage_def Let_def dest: failure_unverified
          split: if_splits option.splits prod.splits stage_result.splits)
    then show thesis ..
  next
    case (inspect env fault request ws n)
    with v obtain i r where "load_for env ChangeInspect fault i (world_at (sys_store s) ws n) = Inr r" "answers out r"
      by (auto simp: change_inspect_def answers_data dest: load_for_Inl split: option.splits sum.splits)
    with stored load_for_Inr show thesis by fastforce
  next
    case (validate_ran env io epoch i pinned ws n r w1 w')
    have fl: "chr_state pinned = RecordReady" "ce_sha env = sha" and ids: "ids_ok (sys_store s)"
      using ok validate_ran(2) by (auto simp: system_ok_def served_def rows_ok_def)
    note ready = validate_ready_verified [OF validate_ran(3) fl(1), unfolded world_at_store, OF ids]
    have "gate_run_of io i r w1 \<in> set (sys_runs s')" using validate_ran by simp
    from validate_run_answer [OF validate_ran(4) ready(2,3,5,7) this] obtain u where
      u: "answers out u" "successor sha (sys_runs s') r u" unfolding fl by blast
    have "current_revision_fresh_pass r \<Longrightarrow> vouched sha (sys_runs s') r"
      using rows [OF ready(1)] vouched_mono [OF _ change_step_runs [OF step]] by blast
    from successor_vouched [OF u(2) this] u(1) v have "vouched sha (sys_runs s') u" by (simp add: answers_def)
    then show thesis by (rule result [OF u(1)])
  next
    case (export env io i r ws n w')
    from export(3) show thesis
    proof (cases rule: export_cases)
      case (exported u)
      then have "answers out u" by (simp add: answers_def change_data_for_record_def Let_def split: prod.splits)
      with stored exported(2) show thesis by simp
    qed (use v in simp_all)
  next
    case (discard_answered env io request ws n)
    then obtain i r where "store_load (di_load io) (sys_store s) i = Inr (Some r)" "answers out r" using v
      by (auto simp: discard_pin_def answers_data default_change_data_def dest: checked_id_Inl
          split: option.splits sum.splits if_splits)
    with stored store_load_Some(1) show thesis by blast
  next
    case (discard env io i r ws n w')
    have a: "answers out r" by (rule discard_answer [OF discard(3) v])
    have "flight_ok sha (sys_runs s) (Discarding env io i r)" using ok discard(2) by (auto simp: system_ok_def)
    with a v have "vouched sha (sys_runs s') r"
      using vouched_mono [OF _ change_step_runs [OF step]] by (simp add: answers_def)
    then show thesis by (rule result [OF a])
  qed (use v in \<open>auto dest: validate_pin_Inl export_pin_Inl validate_ready_Inl\<close>)
qed

end
