(* ===== verification/Change_Staging.thy ===== *)
theory Change_Staging
  imports Change_System
begin

text \<open>
  What staging leaves in the candidate. A ready record describes its candidate: every recorded path is a
  regular file with the recorded digest and size. Staging keeps this for every failure of a write, a read
  back or a save, because the record is not ready from the marker until the new revision is published.
\<close>

section \<open>Metadata that survives a write\<close>

lemma find_kept:
  assumes "List.find (\<lambda>q. t q \<noteq> Some DirNode) qs = Some q" and "t q = Some LinkNode"
    and "\<And>q. t q = Some DirNode \<or> t q = Some LinkNode \<Longrightarrow> t' q = t q"
  shows "List.find (\<lambda>q. t' q \<noteq> Some DirNode) qs = Some q"
  using assms(1,2) by (induction qs) (auto simp: assms(3) split: if_splits)

lemma metadata_kept:
  assumes "symlink_metadata fs p = Inr n"
    and keep: "\<And>q. bt_get (cf_tree fs) q = Some DirNode \<or> bt_get (cf_tree fs) q = Some LinkNode \<Longrightarrow>
      bt_get t' q = bt_get (cf_tree fs) q"
    and here: "bt_get (cf_tree fs) p = Some n \<Longrightarrow> bt_get t' p = Some n"
  shows "symlink_metadata (fs\<lparr>cf_tree := t'\<rparr>) p = Inr n"
proof (cases "List.find (\<lambda>q. bt_get (cf_tree fs) q \<noteq> Some DirNode) (ancestors p)")
  case None
  then have "\<forall>q \<in> set (ancestors p). bt_get t' q = Some DirNode" using keep by (simp add: find_None_iff)
  then have "List.find (\<lambda>q. bt_get t' q \<noteq> Some DirNode) (ancestors p) = None" by (simp add: find_None_iff)
  with None assms(1) here show ?thesis by (auto simp: symlink_metadata_def split: if_splits option.splits)
next
  case (Some q)
  then have "bt_get (cf_tree fs) q = Some LinkNode"
    using assms(1) by (auto simp: symlink_metadata_def split: if_splits option.splits node.splits)
  with Some find_kept [OF Some _ keep] keep assms(1) show ?thesis
    by (auto simp: symlink_metadata_def split: if_splits)
qed

lemma read_back_regular:
  assumes "read_file fault fs p = Inr b" and "bt_get (cf_tree fs) p = Some (FileNode c)"
    and "\<And>q. q \<in> set (ancestors p) \<Longrightarrow> bt_get (cf_tree fs) q \<noteq> Some LinkNode"
  shows "symlink_metadata fs p = Inr (FileNode c)"
  using assms
  by (auto simp: read_file_def symlink_metadata_def find_None_iff dest!: find_Some_in
      split: option.splits sum.splits node.splits if_splits)

lemma read_file_stat: "read_file fault fs p = Inr b \<Longrightarrow> \<not> cf_stat_fault fs p"
  by (auto simp: read_file_def symlink_metadata_def split: option.splits)

lemma apply_file_other: "apply_file faults pid fs f seq = (res, fs', seq') \<Longrightarrow> fs' = fs\<lparr>cf_tree := cf_tree fs'\<rparr>"
  by (auto simp: apply_file_def Let_def split: option.splits prod.splits if_splits)

lemma apply_files_other:
  "apply_files faults pid fs files seq = (res, fs', seq') \<Longrightarrow> fs' = fs\<lparr>cf_tree := cf_tree fs'\<rparr>"
proof (induction files arbitrary: fs seq)
  case (Cons f files)
  obtain r1 fs1 seq1 where one: "apply_file faults pid fs f seq = (r1, fs1, seq1)" by (metis prod_cases3)
  note fs1 = apply_file_other [OF one]
  show ?case
  proof (cases r1)
    case None
    with one Cons have "fs' = fs1\<lparr>cf_tree := cf_tree fs'\<rparr>" by simp
    with fs1 show ?thesis by (metis candidate_fs.surjective candidate_fs.update_convs(1))
  qed (use one fs1 Cons.prems in auto)
qed simp

section \<open>Records that describe their candidate\<close>

definition describes :: "(string \<Rightarrow> string) \<Rightarrow> candidate_fs \<Rightarrow> (string, stored_hash) btree_map \<Rightarrow> bool" where
  "describes sha fs hashes \<longleftrightarrow>
     (\<forall>file h. bt_get hashes file = Some h \<longrightarrow>
        (\<exists>p b. file = relative_path_string p \<and> symlink_metadata fs p = Inr (FileNode b) \<and> h = stored_hash_of sha b))"

text \<open>A ready record at this id describes the candidate beside it.\<close>

definition described :: "(string \<Rightarrow> string) \<Rightarrow> change_store \<Rightarrow> string \<Rightarrow> bool" where
  "described sha st i \<longleftrightarrow>
     (\<forall>r. sl_record (slot_of st i) = RecordFile r \<longrightarrow> chr_state r = RecordReady \<longrightarrow>
        describes sha (fs_of (sl_candidate (slot_of st i))) (chr_source_hashes r))"

lemma read_back_Cons:
  assumes "read_back env fault fs (f # files) hashes = Inr hashes'"
  shows "read_file fault fs (pf_relative f) = Inr (pf_contents f)"
    and "read_back env fault fs files (bt_insert (relative_path_string (pf_relative f))
      (stored_hash_of (ce_sha env) (pf_contents f)) hashes) = Inr hashes'"
  using assms by (auto simp: Let_def split: sum.splits if_splits)

lemma read_back_reads:
  "read_back env fault fs files hashes = Inr hashes' \<Longrightarrow> f \<in> set files \<Longrightarrow>
   read_file fault fs (pf_relative f) = Inr (pf_contents f)"
proof (induction files arbitrary: hashes)
  case (Cons g files)
  from Cons.IH [OF read_back_Cons(2) [OF Cons.prems(1)]] read_back_Cons(1) [OF Cons.prems(1)] Cons.prems(2)
  show ?case by auto
qed simp

lemma read_back_wf: "read_back env fault fs files hashes = Inr hashes' \<Longrightarrow> bt_wf hashes \<Longrightarrow> bt_wf hashes'"
proof (induction files arbitrary: hashes)
  case (Cons f files)
  show ?case by (rule Cons.IH [OF read_back_Cons(2) [OF Cons.prems(1)] bt_wf_insert [OF Cons.prems(2)]])
qed simp

lemma read_back_get:
  "read_back env fault fs files hashes = Inr hashes' \<Longrightarrow>
   bt_get hashes' file = bt_get hashes file \<or>
   (\<exists>f \<in> set files. file = relative_path_string (pf_relative f) \<and>
      bt_get hashes' file = Some (stored_hash_of (ce_sha env) (pf_contents f)))"
proof (induction files arbitrary: hashes)
  case (Cons f files)
  from Cons.IH [OF read_back_Cons(2) [OF Cons.prems]] show ?case by (auto simp: bt_get_insert split: if_splits)
qed simp

lemma read_back_covers:
  "read_back env fault fs files hashes = Inr hashes' \<Longrightarrow>
   f \<in> set files \<or> bt_get hashes (relative_path_string (pf_relative f)) \<noteq> None \<Longrightarrow>
   bt_get hashes' (relative_path_string (pf_relative f)) \<noteq> None"
proof (induction files arbitrary: hashes)
  case (Cons g files)
  from Cons.IH [OF read_back_Cons(2) [OF Cons.prems(1)]] Cons.prems(2) show ?case
    by (auto simp: bt_get_insert split: if_splits)
qed simp

lemma fold_insert_get:
  assumes "bt_get (fold (\<lambda>(k, v). bt_insert k v) new old) k = Some v" and "bt_wf new"
  shows "bt_get new k = Some v \<or> (bt_get new k = None \<and> bt_get old k = Some v)"
proof -
  have "bt_get (fold (\<lambda>(k, v). bt_insert k v) new old) k = Some v \<Longrightarrow>
      (k, v) \<in> set new \<or> (k \<notin> fst ` set new \<and> bt_get old k = Some v)" for new
    by (induction new arbitrary: old) (fastforce simp: bt_get_insert split: if_splits)+
  with assms show ?thesis by (auto simp: bt_get_iff bt_get_None_iff)
qed

section \<open>Staging\<close>

text \<open>What a validated plan may touch: regular files and unused names below directories.\<close>

lemma plan_targets:
  assumes "plan_patches fs patches new_files limits = Inr plan" and "tree_wf (cf_tree fs)"
    and "f \<in> set (pp_files plan)" and "\<not> cf_stat_fault fs (pf_relative f)"
  shows "bt_get (cf_tree fs) (pf_relative f) \<noteq> Some DirNode" "bt_get (cf_tree fs) (pf_relative f) \<noteq> Some LinkNode"
    and "q \<in> set (ancestors (pf_relative f)) \<Longrightarrow> bt_get (cf_tree fs) q = None \<or> bt_get (cf_tree fs) q = Some DirNode"
proof -
  from plan_patches_run [OF assms(1)] obtain ps ns where "plan_run fs patches new_files limits plan ps ns" .
  from plan_run_relatives [OF this] assms(3)
  have f: "reject_symlinked_ancestors fs (pf_relative f) = None"
    "if pf_existed f then \<exists>c. read_candidate_file fs (pf_relative f) = Inr c
     else isl (symlink_metadata fs (pf_relative f))" by blast+
  have "bt_get (cf_tree fs) (pf_relative f) = None \<or> (\<exists>c. bt_get (cf_tree fs) (pf_relative f) = Some (FileNode c))"
    using f(2) read_regular [OF assms(2)] metadata_present [OF assms(2)] assms(4)
    by (cases "bt_get (cf_tree fs) (pf_relative f)") (auto split: if_splits)
  then show "bt_get (cf_tree fs) (pf_relative f) \<noteq> Some DirNode" "bt_get (cf_tree fs) (pf_relative f) \<noteq> Some LinkNode"
    by auto
  show "q \<in> set (ancestors (pf_relative f)) \<Longrightarrow> bt_get (cf_tree fs) q = None \<or> bt_get (cf_tree fs) q = Some DirNode"
    using reject_None [OF assms(2) f(1)] .
qed

lemma staged_describes:
  assumes plan: "plan_patches fs patches new_files limits = Inr plan" and wf: "tree_wf (cf_tree fs)"
    and run: "apply_plan faults pid fs plan seq = (None, fs', seq')"
    and hashes: "read_back env fault fs' (pp_files plan) [] = Inr hashes"
    and old: "describes (ce_sha env) fs (chr_source_hashes r)"
  shows "describes (ce_sha env) fs' (chr_source_hashes (staged_record sha plan hashes r))"
  unfolding describes_def
proof (intro allI impI)
  fix key h
  assume "bt_get (chr_source_hashes (staged_record sha plan hashes r)) key = Some h"
  then have get: "bt_get hashes key = Some h \<or> (bt_get hashes key = None \<and> bt_get (chr_source_hashes r) key = Some h)"
    by (intro fold_insert_get [OF _ read_back_wf [OF hashes]]) (simp_all add: staged_record_def Let_def)
  let ?P = "pf_relative ` set (pp_files plan)"
  from plan_patches_run [OF plan] obtain ps ns where "plan_run fs patches new_files limits plan ps ns" .
  from plan_run_relatives [OF this] have "distinct (map pf_relative (pp_files plan))" by blast
  note ok = apply_files_ok [OF run [unfolded apply_plan_def] this]
  have fs': "fs' = fs\<lparr>cf_tree := cf_tree fs'\<rparr>" using apply_files_other run by (simp add: apply_plan_def)
  have stat: "\<not> cf_stat_fault fs (pf_relative f)" if "f \<in> set (pp_files plan)" for f
    using read_file_stat [OF read_back_reads [OF hashes that]] fs' by (metis candidate_fs.select_convs(3) candidate_fs.surjective
      candidate_fs.update_convs(1))
  have keep: "bt_get (cf_tree fs') q = bt_get (cf_tree fs) q"
    if "bt_get (cf_tree fs) q = Some DirNode \<or> bt_get (cf_tree fs) q = Some LinkNode" for q
    using ok that plan_targets(1,2) [OF plan wf _ stat] by (cases "q \<in> ?P") auto
  show "\<exists>p b. key = relative_path_string p \<and> symlink_metadata fs' p = Inr (FileNode b) \<and> h = stored_hash_of (ce_sha env) b"
  proof (cases "bt_get hashes key")
    case None
    with get old obtain p b where p: "key = relative_path_string p" "symlink_metadata fs p = Inr (FileNode b)"
      "h = stored_hash_of (ce_sha env) b"
      unfolding describes_def by fastforce
    have "p \<notin> ?P" using None p(1) read_back_covers [OF hashes] by fastforce
    then have "bt_get (cf_tree fs) p = Some (FileNode b) \<Longrightarrow> bt_get (cf_tree fs') p = Some (FileNode b)" using ok by auto
    then have "symlink_metadata fs' p = Inr (FileNode b)" using metadata_kept [OF p(2) keep] fs' by metis
    with p show ?thesis by blast
  next
    case (Some h')
    then obtain f where f: "f \<in> set (pp_files plan)" "key = relative_path_string (pf_relative f)"
      "h = stored_hash_of (ce_sha env) (pf_contents f)"
      using get read_back_get [OF hashes, of key] by auto
    have node: "bt_get (cf_tree fs') (pf_relative f) = Some (FileNode (pf_contents f))" using ok f(1) by blast
    have "bt_get (cf_tree fs') q \<noteq> Some LinkNode" if "q \<in> set (ancestors (pf_relative f))" for q
    proof (cases "q \<in> ?P")
      case False
      with plan_targets(3) [OF plan wf f(1) stat [OF f(1)] that] ok [THEN conjunct2, rule_format, OF False] show ?thesis by auto
    qed (use ok in auto)
    then have "symlink_metadata fs' (pf_relative f) = Inr (FileNode (pf_contents f))"
      using read_back_regular [OF read_back_reads [OF hashes f(1)] node] by blast
    with f(2,3) show ?thesis by blast
  qed
qed

lemma stage_locked_cases [consumes 1, case_names same marker applied]:
  assumes "stage_locked env io r expected base patches new_files st = (res, st')"
  obtains "st' = st"
  | e a where "store_save (sg_marker io) (applying_record r) st = (Some e, a, st')"
  | plan a st2 where "plan_patches (fs_of (sl_candidate (slot_of st (chr_id r)))) patches new_files (stage_limits env r) = Inr plan"
      "store_save (sg_marker io) (applying_record r) st = (None, a, st2)" "stage_apply env io plan a st2 = (res, st')"
proof (cases "stage_refusal env (sg_cancelled io 0) expected base r")
  case (Some f)
  with assms that(1) show ?thesis by (simp add: stage_locked_def)
next
  case None
  show ?thesis
  proof (cases "plan_patches (fs_of (sl_candidate (slot_of st (chr_id r)))) patches new_files (stage_limits env r)")
    case (Inl e)
    with assms None that(1) show ?thesis by (cases e) (simp_all add: stage_locked_def)
  next
    case (Inr plan)
    obtain x a st2 where "store_save (sg_marker io) (applying_record r) st = (x, a, st2)" by (metis prod_cases3)
    with assms None Inr that show ?thesis by (cases x) (auto simp: stage_locked_def split: if_splits)
  qed
qed

text \<open>A record that is not ready claims nothing, and saving another such record keeps it so.\<close>

definition unready :: "change_store \<Rightarrow> string \<Rightarrow> bool" where
  "unready st i \<longleftrightarrow> (\<forall>r. sl_record (slot_of st i) = RecordFile r \<longrightarrow> chr_state r \<noteq> RecordReady)"

lemma unready_described: "unready st i \<Longrightarrow> described sha st i"
  by (simp add: unready_def described_def)

lemma unready_candidate [simp]: "unready (put_candidate j fs st) i = unready st i"
  by (simp add: unready_def)

lemma unready_save:
  assumes "store_save io r st = (res, r', st')" and "res \<noteq> None \<or> chr_state r \<noteq> RecordReady" and "unready st i"
  shows "unready st' i"
  using store_save_effect(2,4) [OF assms(1)] stamped_fields(3) [OF store_save_effect(1) [OF assms(1)]] assms(2,3)
  by (cases "i = chr_id r") (auto simp: unready_def split: if_splits)

lemma mark_inconsistent_unready [simp]: "chr_state (mark_inconsistent t r) = RecordFailedInconsistent"
  by (simp add: mark_inconsistent_def)

lemma stage_apply_described:
  assumes run: "stage_apply env io plan a st = (res, st')" and "unready st (chr_id a)"
    and plan: "plan_patches (fs_of (sl_candidate (slot_of st (chr_id a)))) patches new_files limits = Inr plan"
    and wf: "tree_wf (cf_tree (fs_of (sl_candidate (slot_of st (chr_id a)))))"
    and desc: "describes (ce_sha env) (fs_of (sl_candidate (slot_of st (chr_id a)))) (chr_source_hashes a)"
  shows "described (ce_sha env) st' (chr_id a)"
  using run
proof (cases rule: stage_apply_cases)
  case (inconsistent fs t u)
  then have "unready st' (chr_id a)"
    using assms(2) by (auto simp: stage_inconsistent_def elim!: unready_save split: prod.splits)
  then show ?thesis by (rule unready_described)
next
  case (unpublished fs hashes e b st1 y c)
  have "unready st1 (chr_id a)" using unready_save [OF unpublished(1)] assms(2) by simp
  then have "unready st' (chr_id a)" using unready_save [OF unpublished(2)] by simp
  then show ?thesis by (rule unready_described)
next
  case (staged fs hashes b seq)
  note save = store_save_effect [OF staged(4)]
  have i: "chr_id (staged_record (ce_sha env) plan hashes a) = chr_id a" by (simp add: staged_record_def Let_def)
  have "sl_record (slot_of st' (chr_id a)) = RecordFile b" using save(4) i by simp
  moreover have "fs_of (sl_candidate (slot_of st' (chr_id a))) = fs" using save(3) [of "chr_id a"] by simp
  moreover have "chr_source_hashes b = chr_source_hashes (staged_record (ce_sha env) plan hashes a)"
    by (rule stamped_fields(7) [OF save(1)])
  ultimately show ?thesis
    using staged_describes [OF plan wf staged(1,2) desc] by (simp add: described_def)
qed

text \<open>
  C6: Staging leaves a ready record that describes its candidate, or a record that is not ready. Records are filed
  under their own ids, a ready record described its candidate before, and whatever lies below a path of the candidate
  lies below directories. Then, whatever write, read or save fails, and wherever the failure is noticed, a record that
  is still \<open>ready\<close> afterwards lists only printed paths of regular files the candidate really has, each with the
  digest and the size of its contents. (That a later check finds the file under the printed path is another matter:
  \<open>staged_name_with_leading_space_fails_validation\<close> of \<open>Change_Scenario\<close> shows a name it trims.)
\<close>

theorem stage_keeps_description:
  assumes "stage_blocking env io i epoch expected base patches new_files st = (res, st')" and "ids_ok st"
    and "described (ce_sha env) st i" and "tree_wf (cf_tree (fs_of (sl_candidate (slot_of st i))))"
  shows "described (ce_sha env) st' i"
  using assms(1)
proof (cases rule: stage_blocking_cases)
  case (refused st1)
  with assms(3) show ?thesis by (simp add: described_def)
next
  case (locked st1 r)
  let ?fs = "fs_of (sl_candidate (slot_of st i))"
  have r: "chr_id r = i" by (rule ids_okD [OF assms(2) locked(2)])
  have here: "described (ce_sha env) st1 i" using assms(3) locked(1) by (simp add: described_def)
  have desc: "describes (ce_sha env) ?fs (chr_source_hashes r)" using assms(3) locked(2,3) by (simp add: described_def)
  from locked(5) show ?thesis
  proof (cases rule: stage_locked_cases)
    case same
    with here show ?thesis by simp
  next
    case (marker e a)
    note save = store_save_effect [OF marker(1)]
    have "sl_record (slot_of st' i) = sl_record (slot_of st1 i)" using save(4) r by (simp add: applying_record_def)
    with here save(3) show ?thesis by (simp add: described_def)
  next
    case (applied plan a st2)
    note save = store_save_effect [OF applied(2)]
    have a: "chr_id a = i" "chr_source_hashes a = chr_source_hashes r"
      using stamped_fields(1,7) [OF save(1)] r by (simp_all add: applying_record_def)
    have "unready st2 i"
      using save(4) stamped_fields(3) [OF save(1)] r by (simp add: unready_def applying_record_def)
    moreover have "sl_candidate (slot_of st2 i) = sl_candidate (slot_of st i)" using save(3) locked(1) by simp
    moreover have "plan_patches ?fs patches new_files (stage_limits env r) = Inr plan" using applied(1) r locked(1) by simp
    ultimately show ?thesis
      using stage_apply_described [OF applied(3)] a assms(4) desc by metis
  qed
qed

section \<open>The verdict after a failed stage\<close>

text \<open>A record of the same revision carries the same evidence rows.\<close>

definition keeps_rows :: "change_record \<Rightarrow> change_record \<Rightarrow> bool" where
  "keeps_rows r r' \<longleftrightarrow> (chr_revision r' = chr_revision r \<longrightarrow> chr_evidence r' = chr_evidence r)"

lemma keeps_rows_save:
  assumes "store_save io b st = (x, b', st')" and "chr_id b = i" and "keeps_rows r b"
  shows "slot_writes i (keeps_rows r) st st'"
  by (rule slot_writes_save [OF assms(1,2)]) (use assms(3) in \<open>simp add: keeps_rows_def stamped_fields\<close>)

lemma keeps_rows_inconsistent: "keeps_rows r a \<Longrightarrow> keeps_rows r (mark_inconsistent t a)"
  by (simp add: keeps_rows_def mark_inconsistent_def push_record_warning_def)

lemma mark_inconsistent_id: "chr_id (mark_inconsistent t a) = chr_id a"
  by (simp add: mark_inconsistent_def push_record_warning_def)

lemma stage_apply_keeps_rows:
  assumes "stage_apply env io plan a st = (res, st')" and "chr_id a = i" and "keeps_rows r a"
    and "chr_revision a = chr_revision r" and "chr_revision r < u64_max"
  shows "slot_writes i (keeps_rows r) st st'"
proof -
  let ?staged = "staged_record (ce_sha env) plan"
  have staged_ok: "keeps_rows r (?staged hashes a)" "chr_id (?staged hashes a) = i" for hashes
    using assms(2,4,5) by (simp_all add: keeps_rows_def staged_record_def Let_def sat_add_def)
  note kept = slot_writes_trans [OF slot_writes_candidate [of i "keeps_rows r" st]]
  from assms(1) show ?thesis
  proof (cases rule: stage_apply_cases)
    case (inconsistent fs t u)
    then obtain x b where "store_save (sg_failed io) (mark_inconsistent t a) (put_candidate i fs st) = (x, b, st')"
      using assms(2) by (auto simp: stage_inconsistent_def split: prod.splits)
    then have "slot_writes i (keeps_rows r) (put_candidate i fs st) st'"
      by (rule keeps_rows_save) (simp_all add: mark_inconsistent_id keeps_rows_inconsistent assms(2,3))
    with kept show ?thesis .
  next
    case (unpublished fs hashes e b st1 y c)
    note stamp = stamped_fields [OF store_save_effect(1) [OF unpublished(1)]]
    have b: "chr_id b = i" "keeps_rows r b" using stamp(1,4,6) staged_ok [of hashes] by (simp_all add: keeps_rows_def)
    have "slot_writes i (keeps_rows r) st st1" using keeps_rows_save [OF unpublished(1) staged_ok(2,1)] assms(2) kept by simp
    also have "slot_writes i (keeps_rows r) st1 st'"
      using keeps_rows_save [OF unpublished(2)] keeps_rows_inconsistent [OF b(2)] b(1) by (simp add: mark_inconsistent_id)
    finally show ?thesis .
  next
    case (staged fs hashes b seq)
    with keeps_rows_save [OF staged(4) staged_ok(2,1)] assms(2) kept show ?thesis by simp
  qed
qed

lemma stage_locked_keeps_rows:
  assumes "stage_locked env io r expected base patches new_files st = (res, st')"
    and "chr_id r = i" and "bounded_revisions env"
  shows "slot_writes i (keeps_rows r) st st'"
  using assms(1)
proof (cases rule: stage_locked_cases)
  case (marker e a)
  with keeps_rows_save [OF marker(1)] assms(2) show ?thesis by (simp add: applying_record_def keeps_rows_def)
next
  case (applied plan a st2)
  note stamp = stamped_fields [OF store_save_effect(1) [OF applied(2)]]
  have a: "chr_id a = i" "chr_revision a = chr_revision r" "chr_evidence a = chr_evidence r"
    using stamp(1,4,6) assms(2) by (simp_all add: applying_record_def)
  have "slot_writes i (keeps_rows r) st st2"
    using keeps_rows_save [OF applied(2)] assms(2) by (simp add: applying_record_def keeps_rows_def)
  moreover have "slot_writes i (keeps_rows r) st2 st'" if "chr_revision r < u64_max"
    by (rule stage_apply_keeps_rows [OF applied(3) a(1) _ a(2) that]) (simp add: keeps_rows_def a)
  moreover have "chr_revision r < u64_max \<or> st' = st"
    using assms(1,3) stage_refusal_None(4) [of env "sg_cancelled io 0" expected base r]
    by (cases "stage_refusal env (sg_cancelled io 0) expected base r")
      (auto simp: stage_locked_def bounded_revisions_def sat_add_def)
  ultimately show ?thesis using slot_writes_trans by (metis slot_writes_refl)
qed simp

text \<open>
  C40: A stage that does not complete leaves the verdict in force. When the stored revision is the one of before,
  wherever the stage stopped, however much of its plan it wrote to the candidate and whatever state it left the record
  in, the record carries the evidence rows it had and \<open>inspect\<close> answers \<open>verified\<close> exactly when it did before.
\<close>

theorem failed_stage_keeps_verdict:
  assumes "change_stage env io request epoch w = (out, w')" and "cr_change_id request = Some i"
    and "bounded_revisions env" and "ids_ok (cw_store w)"
    and "store_load None (cw_store w) i = Inr (Some r)" and "store_load None (cw_store w') i = Inr (Some r')"
    and "chr_revision r' = chr_revision r"
  shows "chr_evidence r' = chr_evidence r \<and>
    (let before = change_inspect env None request w; after = change_inspect env None request w' in
       co_status after = ''INSPECTED'' \<and> cd_verified (co_data after) = cd_verified (co_data before) \<and>
       cd_state (co_data after) = record_state_as_str (chr_state r'))"
proof -
  let ?run = "stage_blocking env io i epoch (cr_expected_revision request) (cr_base_identity request)
    (cr_patches request) (cr_new_files request) (cw_store w)"
  have r: "sl_record (slot_of (cw_store w) i) = RecordFile r" and r': "sl_record (slot_of (cw_store w') i) = RecordFile r'"
    and valid: "is_valid_change_id i" using store_load_Some assms(5,6) by blast+
  obtain res st' where run: "?run = (res, st')" by (metis surj_pair)
  have st': "cw_store w' = st'"
    using assms(1,2) run valid by (cases res) (auto simp: change_stage_def Let_def dest: failure_outcome_store)
  have "r' = r \<or> keeps_rows r r'"
    using run
  proof (cases rule: stage_blocking_cases)
    case (refused st1)
    with r r' st' show ?thesis by simp
  next
    case (locked st1 s)
    then have "s = r" using r by simp
    with stage_locked_keeps_rows [OF locked(5) ids_okD [OF assms(4) locked(2)] assms(3)] locked(1) r r' st'
    show ?thesis by (auto simp: slot_writes_def)
  qed
  with assms(7) have "chr_evidence r' = chr_evidence r" by (auto simp: keeps_rows_def)
  with assms(2,5,6,7) show ?thesis
    by (simp add: change_inspect_def load_for_def finish_outcome_def change_data_for_record_def
      current_revision_fresh_pass_def split: prod.splits)
qed

end
