(* ===== verification/Change_Properties.thy ===== *)
theory Change_Properties
  imports Change_System Change_Staging "HOL-Library.Code_Target_Nat"
begin

text \<open>
  What the change service promises: an answer that says \<open>verified\<close> is backed by a gate run, an export is the
  bytes that run saw, records only move forward, and startup removes or settles what no process works on.
\<close>

section \<open>Evidence\<close>

text \<open>
  C4: An answer that says \<open>verified\<close> is backed by a gate run. In every interleaving of requests, crashes and changes
  of the candidate by others, each answer of every action that carries \<open>verified\<close> names a change and a revision
  for which some gate run passed, completely and uncancelled, on a candidate whose files had the digests the
  answer lists.
\<close>

theorem verified_answer_has_passing_run:
  assumes "change_reachable sha s" and "change_step sha s (Some out) s'" and "cd_verified (co_data out)"
  shows "\<exists>run \<in> set (sys_runs s').
    cd_change_id (co_data out) = Some (run_id run) \<and> cd_revision (co_data out) = run_revision run \<and>
    gate_passed run \<and> evidence_freshness (run_evidence run) False \<and>
    (\<forall>h \<in> set (cd_source_hashes (co_data out)).
       file_matches sha (run_fs run) (sh_file h) \<lparr>sth_sha256 = sh_sha256 h, sth_bytes = sh_bytes h\<rparr>)"
proof -
  obtain r where r: "answers out r" "vouched sha (sys_runs s') r"
    by (rule verified_record [OF assms(2) reachable_ok [OF assms(1)] assms(3)])
  then obtain run where run: "run \<in> set (sys_runs s')" "run_id run = chr_id r" "run_revision run = chr_revision r"
    "gate_passed run" "evidence_freshness (run_evidence run) False"
    "\<And>f h. (f, h) \<in> set (chr_source_hashes r) \<Longrightarrow> file_matches sha (run_fs run) f h"
    unfolding vouched_def by blast
  have "file_matches sha (run_fs run) (sh_file h) \<lparr>sth_sha256 = sh_sha256 h, sth_bytes = sh_bytes h\<rparr>"
    if "h \<in> set (cd_source_hashes (co_data out))" for h
  proof -
    from that r(1) obtain f v where "(f, v) \<in> set (take MAX_LISTED_HASHES (chr_source_hashes r))"
      and h: "h = \<lparr>sh_file = f, sh_sha256 = sth_sha256 v, sh_bytes = sth_bytes v\<rparr>" by (auto simp: answers_def)
    from run(6) [OF in_set_takeD [OF this(1)]] have "file_matches sha (run_fs run) f v" .
    then show ?thesis by (simp add: h file_matches_def)
  qed
  with r(1) run(1-5) show ?thesis by (intro bexI [of _ run]) (auto simp: answers_def)
qed

lemma export_error_status:
  assumes "export_locked env io i pinned w = (out, w')" and "co_is_error out"
  shows "co_status out \<noteq> ''EXPORTED''"
proof -
  have reload: "co_status o1 \<noteq> ''EXPORTED''"
    if "reload_pinned_record env ChangeExport fault i pinned w1 = Inl o1" for fault w1 o1
    using that by (auto simp: reload_pinned_record_def load_for_def refuse_change_def finish_outcome_def error_outcome_def
        moved_status_def split: sum.splits option.splits if_splits record_state.splits)
  from assms show ?thesis
    by (auto simp: export_locked_def Let_def refuse_change_def finish_outcome_def error_outcome_def dest: reload
        split: sum.splits prod.splits bool.splits if_splits option.splits)
qed

text \<open>
  C5: An export marked \<open>EXPORTED\<close> is what the gate saw. The record it was made from is ready, and every file the
  record lists had the same digest and size in the candidate of a passing gate run of this revision and in the
  candidate at the moment of the export, whatever happened to the candidate in between.
\<close>

theorem exported_bytes_were_gate_tested:
  assumes "change_reachable sha s" and "Exporting env io i pinned \<in> set (sys_flights s)"
    and "export_locked env io i pinned (world_at (sys_store s) ws n) = (out, w')" and "co_status out = ''EXPORTED''"
  shows "\<exists>r. sl_record (slot_of (sys_store s) i) = RecordFile r \<and> chr_state r = RecordReady \<and>
    cd_revision (co_data out) = chr_revision r \<and>
    (\<exists>run \<in> set (sys_runs s). run_id run = i \<and> run_revision run = chr_revision r \<and> gate_passed run \<and>
       (\<forall>(f, h) \<in> set (chr_source_hashes r). file_matches sha (run_fs run) f h \<and>
          file_matches sha (fs_of (sl_candidate (slot_of (sys_store s) i))) f h))"
proof -
  have ok: "system_ok sha s" by (rule reachable_ok [OF assms(1)])
  then have flight: "ce_sha env = sha" "chr_state pinned = RecordReady"
    using assms(2) by (auto simp: system_ok_def served_def)
  from assms(3) show ?thesis
  proof (cases rule: export_cases)
    case (exported r)
    have "current_revision_fresh_pass r" using exported(7) assms(4) by (auto split: if_splits)
    moreover have rows: "chr_id r = i \<and> (current_revision_fresh_pass r \<longrightarrow> vouched sha (sys_runs s) r)"
      using rows_okD [OF _ exported(2) [unfolded world_at_store]] ok by (auto simp: system_ok_def)
    ultimately obtain run where run: "run \<in> set (sys_runs s)" "run_id run = i" "run_revision run = chr_revision r"
      "gate_passed run" "\<And>f h. (f, h) \<in> set (chr_source_hashes r) \<Longrightarrow> file_matches sha (run_fs run) f h"
      unfolding vouched_def by blast
    have "file_matches sha (fs_of (sl_candidate (slot_of (sys_store s) i))) f h"
      if "(f, h) \<in> set (chr_source_hashes r)" for f h
      using verify_files_None [OF exported(5) [unfolded verify_candidate_bytes_def world_at_store] that] flight(1) by simp
    moreover have "chr_state r = RecordReady" using exported(3) flight(2) by (simp add: same_pin_def)
    moreover have "cd_revision (co_data out) = chr_revision r" using exported(6) by (simp add: Let_def)
    ultimately show ?thesis using exported(2) run by (intro exI [of _ r] conjI bexI [of _ run]) auto
  qed (use export_error_status [OF assms(3)] assms(4) in simp_all)
qed

section \<open>Records\<close>

text \<open>
  C7: Records only move forward. As long as a change is not discarded, whoever acts on the store leaves its base
  identity alone, never lowers its revision, never changes recorded hashes, patches, new files or patch hash
  without raising the revision, and never makes a record ready again that was not.
\<close>

theorem records_move_forward:
  assumes "change_reachable sha s" and "change_step sha s label s'"
    and "sl_record (slot_of (sys_store s) i) = RecordFile r" and "sl_record (slot_of (sys_store s') i) = RecordFile r'"
    and "chr_state r' \<noteq> RecordDiscarded"
  shows "chr_id r' = i \<and> chr_base_identity r' = chr_base_identity r \<and> chr_revision r \<le> chr_revision r' \<and>
    (chr_revision r' = chr_revision r \<longrightarrow> same_content r r') \<and>
    (chr_state r' = RecordReady \<longrightarrow> chr_state r = RecordReady)"
proof -
  have ok: "system_ok sha s" by (rule reachable_ok [OF assms(1)])
  then have ids: "ids_ok (sys_store s)" by (simp add: system_ok_def rows_ok_def)
  from change_step_moves [OF assms(2) ok]
  have "r' = r \<or> successor sha (sys_runs s') r r'"
    unfolding store_move_def
  proof (elim disjE exE conjE)
    fix j enabled act
    assume "store_action sha (sys_runs s') j enabled act" "enabled (sys_store s)" "sys_store s' = act (sys_store s)"
    with store_action.transition ids assms(3-5) show ?thesis by metis
  qed (use assms(3,4) in \<open>simp add: same_records_def\<close>)
  then show ?thesis using ids_okD [OF ids assms(3)] by (auto simp: successor_def same_content_def)
qed

section \<open>Startup\<close>

lemma remove_change_other: "remove_change fault i st = (res, st') \<Longrightarrow> j \<noteq> i \<Longrightarrow> slot_of st' j = slot_of st j"
  by (auto simp: remove_change_def split: if_splits option.splits)

lemma sweep_entry_keeps:
  assumes "sweep_entry ttl_ms io i (acc, st) = (acc', st')"
    and "j = i \<Longrightarrow> lk_answer (sw_lock io) \<noteq> Inr True \<or>
      (\<exists>r. sl_record (slot_of st j) = RecordFile r \<and> sw_now io < sat_add (chr_updated_at_ms r) ttl_ms)"
  shows "slot_of st' j = slot_of st j"
  using assms(1)
proof (cases rule: sweep_cases)
  case (removed st1 y)
  show ?thesis
  proof (cases "j = i")
    case True
    with assms(2) removed(2,4) show ?thesis by fastforce
  next
    case False
    with remove_change_other [OF removed(3)] removed(1) show ?thesis by simp
  qed
qed

lemma sweep_fold_keeps:
  assumes "fold (\<lambda>i. sweep_entry ttl_ms (io i) i) ids (acc, st) = (swept, st')"
    and "lk_answer (sw_lock (io i)) \<noteq> Inr True \<or>
      (\<exists>r. sl_record (slot_of st i) = RecordFile r \<and> sw_now (io i) < sat_add (chr_updated_at_ms r) ttl_ms)"
  shows "slot_of st' i = slot_of st i"
  using assms
proof (induction ids arbitrary: acc st)
  case (Cons j ids)
  obtain acc2 st2 where one: "sweep_entry ttl_ms (io j) j (acc, st) = (acc2, st2)"
    by (cases "sweep_entry ttl_ms (io j) j (acc, st)")
  have same: "slot_of st2 i = slot_of st i" by (rule sweep_entry_keeps [OF one]) (use Cons.prems(2) in auto)
  with Cons.IH [of acc2 st2] Cons.prems one show ?case by simp
qed simp

text \<open>
  C36: The sweep never touches live work. A change whose lock another process holds, or whose record was written
  less than the time to live ago, keeps its record, its candidate and its cache, whatever else the sweep removes
  or fails to remove.
\<close>

theorem sweep_keeps_live_changes:
  assumes "sweep ttl_ms io st = (swept, st')"
    and "lk_answer (sw_lock (io i)) \<noteq> Inr True \<or>
      (\<exists>r. sl_record (slot_of st i) = RecordFile r \<and> sw_now (io i) < sat_add (chr_updated_at_ms r) ttl_ms)"
  shows "slot_of st' i = slot_of st i"
  by (rule sweep_fold_keeps [OF assms(1) [unfolded sweep_def] assms(2)])

text \<open>Nothing fails while one directory is recovered, and nobody holds its lock.\<close>

definition quiet_recovery :: "recover_io \<Rightarrow> bool" where
  "quiet_recovery io \<longleftrightarrow>
     lk_create_dir (rc_lock io) = None \<and> lk_answer (rc_lock io) = Inr True \<and> rc_load io = None \<and>
     sv_create_dir (rc_save io) = None \<and> sv_atomic (rc_save io) = no_atomic_faults \<and> rc_remove io = None"

text \<open>
  What recovery makes of a slot: an interrupted stage becomes inconsistent, with its content, revision and candidate as
  they were and no evidence that still counts; an interrupted capture is gone; anything else stays.
\<close>

definition recovered :: "change_slot \<Rightarrow> change_slot \<Rightarrow> bool" where
  "recovered old new \<longleftrightarrow>
     (case record_of old of
        None \<Rightarrow> new = old
      | Some r \<Rightarrow>
          if chr_state r = RecordApplying then
            sl_candidate new = sl_candidate old \<and>
            (\<exists>a. record_of new = Some a \<and> chr_state a = RecordFailedInconsistent \<and> chr_applying_revision a = None \<and>
               chr_revision a = chr_revision r \<and> chr_source_hashes a = chr_source_hashes r \<and>
               list_all (\<lambda>e. \<not> se_fresh e \<and> \<not> se_authoritative e) (chr_evidence a))
          else if chr_state r = RecordCapturing then new = empty_slot
          else new = old)"

lemma recovered_again: "recovered old new \<Longrightarrow> recovered new new' \<Longrightarrow> recovered old new'"
  by (cases "record_of old") (auto simp: recovered_def record_of_def empty_slot_def split: if_splits)

lemma recover_entry_other:
  assumes "recover_entry io i (acc, st) = (acc', st')" and "ids_ok st" and "j \<noteq> i"
  shows "slot_of st' j = slot_of st j"
proof -
  obtain x st1 where lock: "try_lock (rc_lock io) i st = (x, st1)" by (cases "try_lock (rc_lock io) i st")
  note same = try_lock_effect [OF lock]
  have "slot_of st2 j = slot_of st1 j"
    if "store_load (rc_load io) st1 i = Inr (Some r)" "store_save (rc_save io) (recover_record r) st1 = (y, a, st2)" for r y a st2
    using store_save_effect(2) [OF that(2)] ids_okD [OF assms(2)] store_load_Some(1) [OF that(1)] same assms(3)
    by (simp add: recover_record_def)
  with assms(1,3) lock same show ?thesis
    by (auto simp: recover_entry_def Let_def dest: remove_change_other
        split: sum.splits bool.splits option.splits if_splits prod.splits)
qed

lemma recover_entry_recovers:
  assumes "recover_entry io i (acc, st) = (acc', st')" and ids: "ids_ok st" and "is_valid_change_id i" and q: "quiet_recovery io"
  shows "recovered (slot_of st i) (slot_of st' i)"
proof -
  obtain st1 where lock: "try_lock (rc_lock io) i st = (Inr True, st1)" and st1: "st1 = bt_insert i (slot_of st i) st"
    using q by (simp add: quiet_recovery_def try_lock_def)
  note same = try_lock_effect [OF lock]
  have load: "rc_load io = None" using q by (simp add: quiet_recovery_def)
  show ?thesis
  proof (cases "record_of (slot_of st i)")
    case None
    then have "\<exists>e. store_load None st1 i = Inl e \<or> store_load None st1 i = Inr None"
      using same by (auto simp: store_load_def record_of_def split: record_file.splits if_splits)
    with assms(1) lock load have "st' = st1" by (auto simp: recover_entry_def Let_def)
    with same None show ?thesis by (simp add: recovered_def)
  next
    case (Some r)
    then have r: "store_load None st1 i = Inr (Some r)" and slot: "sl_record (slot_of st i) = RecordFile r"
      and schema: "chr_schema_version r = CHANGE_SCHEMA_VERSION"
      using same assms(3) by (auto simp: store_load_def record_of_def split: record_file.splits if_splits)
    have i: "chr_id r = i" by (rule ids_okD [OF ids slot])
    consider "chr_state r = RecordApplying" | "chr_state r = RecordCapturing" | "chr_state r \<noteq> RecordApplying" "chr_state r \<noteq> RecordCapturing"
      by blast
    then show ?thesis
    proof cases
      case 1
      obtain y a st2 where save: "store_save (rc_save io) (recover_record r) st1 = (y, a, st2)" by (metis prod_cases3)
      have "y = None"
        using save q i assms(3) by (auto simp: store_save_def quiet_recovery_def write_atomic_def no_atomic_faults_def
          recover_record_def Let_def)
      then have "sl_record (slot_of st2 i) = RecordFile a" using store_save_effect(4) [OF save] i by (simp add: recover_record_def)
      moreover note fields = stamped_fields [OF store_save_effect(1) [OF save]]
      have "chr_schema_version a = CHANGE_SCHEMA_VERSION" using fields(2) schema by (simp add: recover_record_def)
      ultimately have saved: "record_of (slot_of st2 i) = Some a" by (simp add: record_of_def)
      have evidence: "list_all (\<lambda>e. \<not> se_fresh e \<and> \<not> se_authoritative e) (chr_evidence a)"
        unfolding fields(6) by (simp add: recover_record_def list_all_iff)
      have recovers: "chr_state a = RecordFailedInconsistent" "chr_applying_revision a = None"
        "chr_revision a = chr_revision r" "chr_source_hashes a = chr_source_hashes r"
        unfolding fields by (simp_all add: recover_record_def)
      have "sl_candidate (slot_of st2 i) = sl_candidate (slot_of st i)" using store_save_effect(3) [OF save, of i] same by simp
      moreover have "st' = st2" using assms(1) lock load r 1 save \<open>y = None\<close> by (simp add: recover_entry_def)
      ultimately show ?thesis using Some 1 saved evidence recovers by (simp add: recovered_def)
    next
      case 2
      have "remove_change None i st1 = (None, bt_remove i st1)"
        using st1 by (simp add: remove_change_def bt_contains_def bt_get_insert)
      then have "st' = bt_remove i st1" using assms(1) lock load r 2 q by (simp add: recover_entry_def quiet_recovery_def)
      with Some 2 show ?thesis by (simp add: recovered_def)
    next
      case 3
      then have "st' = st1" using assms(1) lock load r by (simp add: recover_entry_def)
      with same Some 3 show ?thesis by (simp add: recovered_def)
    qed
  qed
qed

lemma slot_writes_ids:
  assumes "slot_writes i Q st st'" and "ids_ok st" and "\<And>r. Q r \<Longrightarrow> chr_id r = i"
  shows "ids_ok st'"
  unfolding ids_ok_def
proof (intro allI impI)
  fix j r
  assume "sl_record (slot_of st' j) = RecordFile r"
  with assms show "chr_id r = j" by (cases "j = i") (auto simp: slot_writes_def ids_ok_def)
qed

lemma sweep_ids:
  assumes "\<And>i. only_removes (sw_remove (io i)) slot_shrinks" and "ids_ok st"
  shows "ids_ok (snd (sweep ttl_ms io st))"
proof -
  have "ids_ok (snd acc) \<Longrightarrow> ids_ok (snd (fold (\<lambda>i. sweep_entry ttl_ms (io i) i) ids acc))" for ids acc
  proof (induction ids arbitrary: acc)
    case (Cons i ids)
    have "ids_ok (snd (sweep_entry ttl_ms (io i) i acc))"
      by (rule slot_writes_ids [OF sweep_writes [OF assms(1), where Q = "\<lambda>_. False"] Cons.prems]) simp
    with Cons.IH show ?case by simp
  qed simp
  with assms(2) show ?thesis by (simp add: sweep_def)
qed

lemma recover_ids:
  assumes "quiet_recovery io" and "ids_ok st"
  shows "ids_ok (snd (recover_entry io i (acc, st)))"
proof -
  have "slot_writes i (written (\<lambda>s. s) [] st i) st (snd (recover_entry io i (acc, st)))"
    using recover_writes [where acc = "(acc, st)"] assms by (simp add: quiet_recovery_def only_removes_def)
  then show ?thesis
    by (rule slot_writes_ids [OF _ assms(2)]) (use assms(2) in \<open>auto simp: written_def from_slot_def successor_def dest: ids_okD\<close>)
qed

lemma recover_fold:
  assumes "\<And>i. quiet_recovery (recovers i)" and "is_valid_change_id i" and "ids_ok st"
  shows "if i \<in> set ids then recovered (slot_of st i) (slot_of (snd (fold (\<lambda>i. recover_entry (recovers i) i) ids (acc, st))) i)
    else slot_of (snd (fold (\<lambda>i. recover_entry (recovers i) i) ids (acc, st))) i = slot_of st i"
  using assms(3)
proof (induction ids arbitrary: acc st)
  case (Cons j js)
  obtain acc2 st2 where one: "recover_entry (recovers j) j (acc, st) = (acc2, st2)"
    by (cases "recover_entry (recovers j) j (acc, st)")
  have "ids_ok st2" using recover_ids [OF assms(1) Cons.prems, of j j acc] one by simp
  from Cons.IH [OF this, of acc2] show ?case
    using recover_entry_other [OF one Cons.prems, of i] recover_entry_recovers [OF one Cons.prems] recovered_again assms(1,2) one
    by (cases "i = j") (auto split: if_splits)
qed simp

lemma sweep_records:
  assumes "\<And>i. only_removes (sw_remove (io i)) slot_shrinks"
  shows "sl_record (slot_of (snd (sweep ttl_ms io st)) i) \<in> {sl_record (slot_of st i), NoRecord}"
proof -
  have "sl_record (slot_of (snd (fold (\<lambda>i. sweep_entry ttl_ms (io i) i) ids acc)) i) \<in> {sl_record (slot_of (snd acc) i), NoRecord}" for ids acc
  proof (induction ids arbitrary: acc)
    case (Cons j ids)
    have "slot_writes j (\<lambda>_. False) (snd acc) (snd (sweep_entry ttl_ms (io j) j acc))" by (rule sweep_writes [OF assms])
    then have "sl_record (slot_of (snd (sweep_entry ttl_ms (io j) j acc)) i) \<in> {sl_record (slot_of (snd acc) i), NoRecord}"
      by (cases "i = j") (auto simp: slot_writes_def)
    with Cons.IH [of "sweep_entry ttl_ms (io j) j acc"] show ?case by auto
  qed simp
  from this [of "scan_paths st" "(\<lparr>swp_removed = 0, swp_warnings = []\<rparr>, st)"] show ?thesis by (simp add: sweep_def)
qed

text \<open>
  C35: A restart settles interrupted work. The sweep leaves the record of a change or removes it; then, when the locks
  are free, the reads and writes of recovery succeed and records are filed under their own ids, each remaining change
  is recovered: an interrupted stage has become \<open>failed_inconsistent\<close>, with its revision, hashes and candidate as
  they were and no evidence that counts, an interrupted capture is gone, and every other change is as before.
\<close>

theorem restart_settles_interrupted_changes:
  assumes "change_service_new env sweeps recovers st = w" and "ids_ok st"
    and "\<And>i. quiet_recovery (recovers i)" and "\<And>i. only_removes (sw_remove (sweeps i)) slot_shrinks"
    and "is_valid_change_id i"
  shows "let swept = slot_of (snd (sweep (ccf_ttl_ms (ce_config env)) sweeps st)) i in
    (sl_record swept = sl_record (slot_of st i) \<or> sl_record swept = NoRecord) \<and> recovered swept (slot_of (cw_store w) i)"
proof -
  obtain swept st1 where sw: "sweep (ccf_ttl_ms (ce_config env)) sweeps st = (swept, st1)"
    by (cases "sweep (ccf_ttl_ms (ce_config env)) sweeps st")
  have ids: "ids_ok st1" using sweep_ids [of sweeps st "ccf_ttl_ms (ce_config env)", OF assms(4,2)] sw by simp
  have absent: "recovered (slot_of st1 i) (slot_of st1 i)" if "i \<notin> set (scan_paths st1)"
    using that assms(5) slot_of_absent [of st1 i]
    by (cases "bt_contains st1 i")
      (auto simp: scan_paths_def bt_contains_def bt_keys_def bt_get_None_iff recovered_def record_of_def empty_slot_def)
  have "recovered (slot_of st1 i) (slot_of (snd (recover_interrupted recovers st1)) i)"
    using recover_fold [OF assms(3,5) ids, of "scan_paths st1"] absent
    by (cases "i \<in> set (scan_paths st1)") (simp_all add: recover_interrupted_def)
  moreover have "cw_store w = snd (recover_interrupted recovers st1)"
    using assms(1) sw by (auto simp: change_service_new_def split: prod.splits)
  ultimately show ?thesis using sweep_records [of sweeps, OF assms(4), of "ccf_ttl_ms (ce_config env)" st i] sw by (simp add: Let_def)
qed

end
