(* ===== verification/Change_Scenario.thy ===== *)
theory Change_Scenario
  imports Change_Properties
begin

text \<open>
  A concrete life of one change, evaluated by the definitions: a workspace with one file is captured, a new file
  is staged, the gate passes, the change is exported, and a second stage fails while it writes. It witnesses the
  properties of the change service and shows what \<open>inspect\<close> reports after the failure.
\<close>

section \<open>The scenario\<close>

definition demo_env :: change_env where
  "demo_env = \<lparr>ce_config = \<lparr>ccf_max_active = 4, ccf_max_files = 100, ccf_max_bytes = 1000, ccf_ttl_ms = 50,
     ccf_max_revisions = 32\<rparr>, ce_sha = (\<lambda>s. s), ce_say = (\<lambda>_. []), ce_output_bytes = 1000, ce_pid = 7\<rparr>"

definition free_lock :: lock_io where
  "free_lock = \<lparr>lk_create_dir = None, lk_answer = Inr True\<rparr>"

definition good_save :: save_io where
  "good_save = \<lparr>sv_create_dir = None, sv_now = 20, sv_atomic = no_atomic_faults\<rparr>"

definition demo_source :: source_dir where
  "demo_source = SrcListing [SrcEntry ''a'' (SrcFile \<lparr>src_stat = Inr 2, src_open = None, src_read = Inr ''fn''\<rparr>)]"

definition demo_snapshot :: workspace_snapshot where
  "demo_snapshot = \<lparr>wsn_workspace_root = ''/w'', wsn_target_directory = ''/w/target'', wsn_external_paths = [],
     wsn_dependency_closure = \<lparr>dpc_package_roots = [], dpc_complete = True\<rparr>\<rparr>"

definition demo_create_io :: create_io where
  "demo_create_io = \<lparr>ct_cancelled = False, ct_selection = None, ct_metadata = MetaLoaded demo_snapshot,
     ct_authority_path = ''/w'', ct_authorize = None, ct_scratch_root = ''/s'', ct_config = (\<lambda>_. ConfigAbsent),
     ct_toml = (\<lambda>_. Inr TomlOther), ct_is_dir = (\<lambda>_. True), ct_dependency_roots = [], ct_now = 10,
     ct_lock = free_lock, ct_placeholder = good_save, ct_source = demo_source, ct_destination = None,
     ct_capture_cancelled = (\<lambda>_. False), ct_create_fault = None, ct_parent_fault = (\<lambda>_. None),
     ct_write_fault = (\<lambda>_. None), ct_manifest = no_atomic_faults, ct_candidate_epoch = Inr 3,
     ct_final = good_save, ct_remains = None\<rparr>"

definition demo_id :: string where
  "demo_id = format_change_id 10 7 0"

definition store1 :: change_store where
  "store1 = cw_store (snd (change_create demo_env (\<lambda>_. []) demo_create_io 5 (world_at [] [] 0)))"

definition demo_base :: string where
  "demo_base = (case sl_record (slot_of store1 demo_id) of RecordFile r \<Rightarrow> chr_base_identity r | _ \<Rightarrow> [])"

definition demo_request :: "nat \<Rightarrow> new_file_input list \<Rightarrow> change_request" where
  "demo_request revision files = \<lparr>cr_action = ChangeStage, cr_change_id = Some demo_id,
     cr_expected_revision = Some revision, cr_base_identity = Some demo_base, cr_patches = [], cr_new_files = files,
     cr_migration = None, cr_target = TCheck, cr_options = default_validation_options, cr_detail = DetailCompact,
     cr_timings = False\<rparr>"

definition demo_stage_io :: "bool \<Rightarrow> stage_io" where
  "demo_stage_io broken = \<lparr>sg_lock = free_lock, sg_load = None, sg_cancelled = (\<lambda>_. False), sg_marker = good_save,
     sg_faults = (\<lambda>p. \<lparr>wf_create_dirs = None, wf_open = (broken \<and> p = [''d'']), wf_write = None, wf_rename = False, wf_remove = False\<rparr>),
     sg_temp_sequence = 0, sg_reread = (\<lambda>_. None), sg_failed = good_save, sg_final = good_save,
     sg_final_failed = good_save\<rparr>"

definition store2 :: change_store where
  "store2 = cw_store (snd (change_stage demo_env (demo_stage_io False)
     (demo_request 0 [\<lparr>nf_file = ''b'', nf_content = ''x''\<rparr>]) 5 (world_at store1 [] 0)))"

definition record2 :: change_record where
  "record2 = (case sl_record (slot_of store2 demo_id) of RecordFile r \<Rightarrow> r | _ \<Rightarrow> placeholder_record 0 [] [] 0)"

definition demo_evidence :: gate_evidence where
  "demo_evidence = (evidence_pending ''job'' \<lparr>gr_options = default_validation_options, gr_cargo_test_defaults = False,
     gr_directory = None, gr_target = TCheck, gr_toolchain = None, gr_timings = False, gr_detail = DetailCompact,
     gr_client_roots = (), gr_root_epoch = 5, gr_source = SourceExplicit\<rparr>)\<lparr>ge_status := GFastPass\<rparr>"

definition demo_validate_io :: validate_io where
  "demo_validate_io = \<lparr>va_load = None, va_cancelled_before = False, va_lock = free_lock, va_reload = None,
     va_activity = good_save, va_read = (\<lambda>_. None), va_failed = good_save, va_is_dir = (\<lambda>_. True), va_guard = None,
     va_gate = (\<lambda>fs. (demo_evidence, fs)), va_updated = None, va_cancelled_after = False, va_now = 30,
     va_final = good_save\<rparr>"

definition store3_before :: change_world where
  "store3_before = snd (validate_ready demo_env demo_validate_io demo_id record2 (world_at store2 [] 0))"

definition answer3 :: change_outcome where
  "answer3 = fst (validate_run demo_env demo_validate_io demo_id record2 5 store3_before)"

definition store3 :: change_store where
  "store3 = cw_store (snd (validate_run demo_env demo_validate_io demo_id record2 5 store3_before))"

definition demo_export_io :: export_io where
  "demo_export_io = \<lparr>ex_load = None, ex_lock = free_lock, ex_reload = None, ex_read = (\<lambda>_. None), ex_failed = good_save\<rparr>"

definition record3 :: change_record where
  "record3 = (case sl_record (slot_of store3 demo_id) of RecordFile r \<Rightarrow> r | _ \<Rightarrow> placeholder_record 0 [] [] 0)"

definition request4 :: change_request where
  "request4 = demo_request 1 [\<lparr>nf_file = ''c'', nf_content = ''y''\<rparr>, \<lparr>nf_file = ''d'', nf_content = ''z''\<rparr>]"

definition store4 :: change_store where
  "store4 = cw_store (snd (change_stage demo_env (demo_stage_io True) request4 5 (world_at store3 [] 0)))"

lemma drop_components_code [code]:
  "drop_components k ps =
     (if k = 0 then ps
      else case ps of
        [] \<Rightarrow> []
      | q # qs \<Rightarrow> if q = [] \<or> q = ''.'' then drop_components k qs else drop_components (k - 1) qs)"
  by (cases k; cases ps) auto

lemma demo_free: "sl_record (slot_of [] (fst (next_change_id demo_env (ct_now demo_create_io) (world_at [] [] 0)))) = NoRecord"
  by (simp add: slot_of_def empty_slot_def)

lemma demo_pinned2: "validate_pin demo_env demo_validate_io (demo_request 1 []) 5 (world_at store2 [] 0) = Inr (demo_id, record2)"
  by code_simp

lemma demo_ready2: "fst (validate_ready demo_env demo_validate_io demo_id record2 (world_at store2 [] 0)) = Inr record2"
  by code_simp

lemma demo_verified3: "cd_verified (co_data answer3)"
  by code_simp

lemma demo_pinned3: "export_pin demo_env demo_export_io (demo_request 1 []) 5 (world_at store3 [] 0) = Inr (demo_id, record3)"
  by code_simp

lemma demo_exported3: "co_status (fst (export_locked demo_env demo_export_io demo_id record3 (world_at store3 [] 0))) = ''EXPORTED''"
  by code_simp

section \<open>Its states\<close>

definition demo_sys0 :: change_system where
  "demo_sys0 = \<lparr>sys_store = [], sys_runs = [], sys_flights = []\<rparr>"

definition demo_sys1 :: change_system where
  "demo_sys1 = demo_sys0\<lparr>sys_store := store1\<rparr>"

definition demo_sys2 :: change_system where
  "demo_sys2 = demo_sys1\<lparr>sys_store := store2\<rparr>"

definition demo_sys2_pinned :: change_system where
  "demo_sys2_pinned = demo_sys2\<lparr>sys_flights := [Validating demo_env demo_validate_io 5 demo_id record2]\<rparr>"

definition demo_sys3 :: change_system where
  "demo_sys3 = demo_sys2_pinned\<lparr>sys_store := store3,
     sys_runs := [gate_run_of demo_validate_io demo_id record2 store3_before], sys_flights := []\<rparr>"

definition demo_sys3_pinned :: change_system where
  "demo_sys3_pinned = demo_sys3\<lparr>sys_flights := [Exporting demo_env demo_export_io demo_id record3]\<rparr>"

lemmas demo_states = demo_sys0_def demo_sys1_def demo_sys2_def demo_sys2_pinned_def demo_sys3_def demo_sys3_pinned_def

lemma demo_served: "served (\<lambda>s. s) demo_env"
  by (simp add: served_def demo_env_def bounded_revisions_def u64_max_def)

lemma step1: "change_step (\<lambda>s. s) demo_sys0 (Some (fst (change_create demo_env (\<lambda>_. []) demo_create_io 5 (world_at [] [] 0)))) demo_sys1"
proof -
  have "change_step (\<lambda>s. s) demo_sys0 (Some (fst (change_create demo_env (\<lambda>_. []) demo_create_io 5 (world_at [] [] 0))))
      (demo_sys0\<lparr>sys_store := cw_store (snd (change_create demo_env (\<lambda>_. []) demo_create_io 5 (world_at [] [] 0)))\<rparr>)"
    by (rule change_step.create [OF demo_served]) (simp_all add: demo_states demo_create_io_def only_removes_def slot_of_def empty_slot_def)
  then show ?thesis by (simp add: demo_sys1_def store1_def)
qed

lemma step2: "\<exists>out. change_step (\<lambda>s. s) demo_sys1 (Some out) demo_sys2"
proof -
  let ?answer = "change_stage demo_env (demo_stage_io False) (demo_request 0 [\<lparr>nf_file = ''b'', nf_content = ''x''\<rparr>]) 5
    (world_at (sys_store demo_sys1) [] 0)"
  have "change_step (\<lambda>s. s) demo_sys1 (Some (fst ?answer)) (demo_sys1\<lparr>sys_store := cw_store (snd ?answer)\<rparr>)"
    by (rule change_step.stage [OF demo_served surjective_pairing])
  then show ?thesis by (auto simp: demo_sys2_def store2_def demo_sys1_def)
qed

lemma step2_pinned: "change_step (\<lambda>s. s) demo_sys2 None demo_sys2_pinned"
  using change_step.validate_pinned [OF demo_served, of demo_validate_io "demo_request 1 []" 5 demo_sys2 "[]" 0 demo_id record2] demo_pinned2
  by (simp add: demo_states)

lemma step3: "change_step (\<lambda>s. s) demo_sys2_pinned (Some answer3) demo_sys3"
proof -
  have ready: "validate_ready demo_env demo_validate_io demo_id record2 (world_at (sys_store demo_sys2_pinned) [] 0) = (Inr record2, store3_before)"
    using demo_ready2 by (simp add: demo_states store3_before_def prod_eq_iff)
  have run: "validate_run demo_env demo_validate_io demo_id record2 5 store3_before =
      (answer3, snd (validate_run demo_env demo_validate_io demo_id record2 5 store3_before))"
    by (simp add: answer3_def)
  have "Validating demo_env demo_validate_io 5 demo_id record2 \<in> set (sys_flights demo_sys2_pinned)" by (simp add: demo_states)
  from change_step.validate_ran [OF this ready run] show ?thesis by (simp add: demo_states store3_def)
qed

lemma step3_pinned: "change_step (\<lambda>s. s) demo_sys3 None demo_sys3_pinned"
  using change_step.export_pinned [OF demo_served, of demo_export_io "demo_request 1 []" 5 demo_sys3 "[]" 0 demo_id record3] demo_pinned3
  by (simp add: demo_states)

lemma demo_reachable:
  "change_reachable (\<lambda>s. s) demo_sys1" "change_reachable (\<lambda>s. s) demo_sys2_pinned" "change_reachable (\<lambda>s. s) demo_sys3_pinned"
  "change_reachable (\<lambda>s. s) demo_sys3"
proof -
  have "change_reachable (\<lambda>s. s) demo_sys0" unfolding demo_sys0_def by (rule change_reachable.empty)
  then show s1: "change_reachable (\<lambda>s. s) demo_sys1" using step1 by (rule change_reachable.step)
  then have "change_reachable (\<lambda>s. s) demo_sys2" using step2 change_reachable.step by blast
  then show s2: "change_reachable (\<lambda>s. s) demo_sys2_pinned" using step2_pinned by (rule change_reachable.step)
  then show "change_reachable (\<lambda>s. s) demo_sys3" using step3 by (rule change_reachable.step)
  then show "change_reachable (\<lambda>s. s) demo_sys3_pinned" using step3_pinned by (rule change_reachable.step)
qed

section \<open>Witnesses\<close>

lemma demo_listed: "\<lparr>sh_file = ''b'', sh_sha256 = ''x'', sh_bytes = 1\<rparr> \<in> set (cd_source_hashes (co_data answer3))"
  by code_simp

theorem verified_answer_has_passing_run_witness:
  "\<exists>run \<in> set (sys_runs demo_sys3). cd_change_id (co_data answer3) = Some (run_id run) \<and> gate_passed run \<and>
     file_matches (\<lambda>s. s) (run_fs run) ''b'' \<lparr>sth_sha256 = ''x'', sth_bytes = 1\<rparr>"
  using verified_answer_has_passing_run [OF demo_reachable(2) step3 demo_verified3] demo_listed by fastforce

theorem exported_bytes_were_gate_tested_witness:
  "\<exists>r. sl_record (slot_of (sys_store demo_sys3_pinned) demo_id) = RecordFile r \<and> chr_state r = RecordReady \<and>
     (\<exists>run \<in> set (sys_runs demo_sys3_pinned). run_id run = demo_id \<and> gate_passed run)"
proof -
  have "Exporting demo_env demo_export_io demo_id record3 \<in> set (sys_flights demo_sys3_pinned)" by (simp add: demo_states)
  moreover have "sys_store demo_sys3_pinned = store3" by (simp add: demo_states)
  ultimately show ?thesis
    using exported_bytes_were_gate_tested [OF demo_reachable(3) _ surjective_pairing, of demo_env demo_export_io demo_id record3 "[]" 0]
      demo_exported3 by auto
qed

definition record1 :: change_record where
  "record1 = (case sl_record (slot_of store1 demo_id) of RecordFile r \<Rightarrow> r | _ \<Rightarrow> placeholder_record 0 [] [] 0)"

lemma demo_records:
  "sl_record (slot_of store1 demo_id) = RecordFile record1" "sl_record (slot_of store2 demo_id) = RecordFile record2"
  "chr_state record2 \<noteq> RecordDiscarded"
  by code_simp+

theorem records_move_forward_witness:
  "chr_base_identity record2 = chr_base_identity record1 \<and> chr_revision record1 \<le> chr_revision record2"
  using step2 records_move_forward [OF demo_reachable(1)] demo_records by (fastforce simp: demo_states)

definition locked_sweep :: sweep_io where
  "locked_sweep = \<lparr>sw_stale_directory = True, sw_lock = \<lparr>lk_create_dir = None, lk_answer = Inr False\<rparr>, sw_load = None,
     sw_now = 1000, sw_remove = None\<rparr>"

theorem sweep_keeps_live_changes_witness:
  "slot_of (snd (sweep 50 (\<lambda>_. locked_sweep) store2)) demo_id = slot_of store2 demo_id"
  using sweep_keeps_live_changes [of 50 "\<lambda>_. locked_sweep" store2 _ _ demo_id]
  by (metis Inr_inject locked_sweep_def lock_io.select_convs(2) sweep_io.select_convs(2) surjective_pairing)

definition demo_recover :: recover_io where
  "demo_recover = \<lparr>rc_lock = free_lock, rc_load = None, rc_save = good_save, rc_remove = None\<rparr>"

definition other_id :: string where
  "other_id = format_change_id 11 7 0"

text \<open>A verified change caught in its next stage, and a change caught while it was captured.\<close>

definition interrupted_store :: change_store where
  "interrupted_store =
     [(demo_id, empty_slot\<lparr>sl_record := RecordFile (applying_record record3)\<rparr>),
      (other_id, empty_slot\<lparr>sl_record := RecordFile (placeholder_record 10 other_id ''/w'' 5)\<rparr>)]"

definition restarted_store :: change_store where
  "restarted_store = cw_store (change_service_new demo_env (\<lambda>_. locked_sweep) (\<lambda>_. demo_recover) interrupted_store)"

lemma interrupted_slot:
  "slot_of interrupted_store i =
     (if i = demo_id then empty_slot\<lparr>sl_record := RecordFile (applying_record record3)\<rparr>
      else if i = other_id then empty_slot\<lparr>sl_record := RecordFile (placeholder_record 10 other_id ''/w'' 5)\<rparr>
      else empty_slot)"
  by (simp add: interrupted_store_def slot_of_def bt_get_def)

lemma demo_ids: "is_valid_change_id demo_id" "is_valid_change_id other_id" "demo_id \<noteq> other_id"
  by code_simp+

lemma demo_passed3:
  "case sl_record (slot_of store3 demo_id) of
     RecordFile r \<Rightarrow> chr_id r = demo_id \<and> chr_schema_version r = CHANGE_SCHEMA_VERSION \<and> chr_revision r = 1 \<and>
       current_revision_fresh_pass r
   | _ \<Rightarrow> False"
  by code_simp

lemma demo_record3:
  "sl_record (slot_of store3 demo_id) = RecordFile record3" "chr_id record3 = demo_id"
  "chr_schema_version record3 = CHANGE_SCHEMA_VERSION" "chr_revision record3 = 1" "current_revision_fresh_pass record3"
  using demo_passed3 by (simp_all add: record3_def split: record_file.splits)

definition swept_store :: change_store where
  "swept_store = snd (sweep (ccf_ttl_ms (ce_config demo_env)) (\<lambda>_. locked_sweep) interrupted_store)"

lemma swept_records:
  "record_of (slot_of swept_store demo_id) = Some (applying_record record3)"
  "record_of (slot_of swept_store other_id) = Some (placeholder_record 10 other_id ''/w'' 5)"
proof -
  have same: "slot_of swept_store i = slot_of interrupted_store i" for i
    unfolding swept_store_def sweep_def
    by (rule sweep_fold_keeps [OF surjective_pairing]) (simp add: locked_sweep_def)
  show "record_of (slot_of swept_store demo_id) = Some (applying_record record3)"
    "record_of (slot_of swept_store other_id) = Some (placeholder_record 10 other_id ''/w'' 5)"
    using demo_ids(3) demo_record3(3) by (auto simp: same interrupted_slot record_of_def applying_record_def placeholder_record_def)
qed

theorem restart_settles_interrupted_changes_witness:
  "current_revision_fresh_pass record3 \<and>
   (\<exists>a. record_of (slot_of restarted_store demo_id) = Some a \<and> chr_state a = RecordFailedInconsistent \<and>
      chr_applying_revision a = None \<and> chr_revision a = chr_revision record3 \<and>
      list_all (\<lambda>e. \<not> se_fresh e \<and> \<not> se_authoritative e) (chr_evidence a)) \<and>
   slot_of restarted_store other_id = empty_slot"
proof -
  have ids: "ids_ok interrupted_store"
    using demo_record3(2) by (auto simp: ids_ok_def interrupted_slot empty_slot_def applying_record_def placeholder_record_def
      split: if_splits)
  have quiet: "quiet_recovery demo_recover"
    by (simp add: quiet_recovery_def demo_recover_def free_lock_def good_save_def)
  have only: "only_removes (sw_remove locked_sweep) slot_shrinks" by (simp add: locked_sweep_def only_removes_def)
  have settled: "recovered (slot_of swept_store i) (slot_of restarted_store i)" if "is_valid_change_id i" for i
    using restart_settles_interrupted_changes
      [where sweeps = "\<lambda>_. locked_sweep" and recovers = "\<lambda>_. demo_recover", OF refl ids quiet only that, of demo_env]
    by (simp only: swept_store_def restarted_store_def Let_def)
  from settled [OF demo_ids(1)] settled [OF demo_ids(2)] demo_record3(5) swept_records show ?thesis
    by (auto simp: recovered_def applying_record_def placeholder_record_def)
qed

text \<open>The captured record beside its candidate, before the first stage.\<close>

definition captured_store :: change_store where
  "captured_store = [(demo_id, \<lparr>sl_record = RecordFile record1, sl_manifest = None,
     sl_candidate = CandidateDir (written_fs [([''a''], FileNode ''fn'')]), sl_cache = False\<rparr>)]"

lemma captured_slot:
  "slot_of captured_store i = (if i = demo_id then \<lparr>sl_record = RecordFile record1, sl_manifest = None,
     sl_candidate = CandidateDir (written_fs [([''a''], FileNode ''fn'')]), sl_cache = False\<rparr> else empty_slot)"
  by (simp add: captured_store_def slot_of_def)

lemma demo_staged:
  "case sl_record (slot_of (snd (stage_blocking demo_env (demo_stage_io False) demo_id 5 (Some 0) (Some demo_base) []
     [\<lparr>nf_file = ''b'', nf_content = ''x''\<rparr>] captured_store)) demo_id) of
   RecordFile r \<Rightarrow> chr_state r = RecordReady \<and> bt_get (chr_source_hashes r) ''b'' = Some (stored_hash_of (\<lambda>s. s) ''x'') | _ \<Rightarrow> False"
  by code_simp

theorem stage_keeps_description_witness:
  "\<exists>r p b. sl_record (slot_of (snd (stage_blocking demo_env (demo_stage_io False) demo_id 5 (Some 0) (Some demo_base) []
       [\<lparr>nf_file = ''b'', nf_content = ''x''\<rparr>] captured_store)) demo_id) = RecordFile r \<and>
     ''b'' = relative_path_string p \<and>
     symlink_metadata (fs_of (sl_candidate (slot_of (snd (stage_blocking demo_env (demo_stage_io False) demo_id 5 (Some 0)
       (Some demo_base) [] [\<lparr>nf_file = ''b'', nf_content = ''x''\<rparr>] captured_store)) demo_id))) p = Inr (FileNode b) \<and>
     stored_hash_of (\<lambda>s. s) b = stored_hash_of (\<lambda>s. s) ''x''"
proof -
  let ?st = "snd (stage_blocking demo_env (demo_stage_io False) demo_id 5 (Some 0) (Some demo_base) []
     [\<lparr>nf_file = ''b'', nf_content = ''x''\<rparr>] captured_store)"
  have "described (ce_sha demo_env) ?st demo_id"
  proof (rule stage_keeps_description [OF surjective_pairing])
    have "chr_id record1 = demo_id" by code_simp
    then show "ids_ok captured_store" by (auto simp: ids_ok_def captured_slot empty_slot_def split: if_splits)
    have "chr_source_hashes record1 = []" by code_simp
    then show "described (ce_sha demo_env) captured_store demo_id" by (simp add: described_def captured_slot describes_def)
    show "tree_wf (cf_tree (fs_of (sl_candidate (slot_of captured_store demo_id))))"
      by (simp add: captured_slot fs_of_def written_fs_def tree_wf_def ancestors_def)
  qed
  then show ?thesis
    using demo_staged by (fastforce simp: described_def describes_def demo_env_def split: record_file.splits)
qed

section \<open>What the code answers against its documentation\<close>

definition world4 :: change_world where
  "world4 = snd (change_stage demo_env (demo_stage_io True) request4 5 (world_at store3 [] 0))"

definition record4 :: change_record where
  "record4 = (case sl_record (slot_of store4 demo_id) of RecordFile r \<Rightarrow> r | _ \<Rightarrow> placeholder_record 0 [] [] 0)"

lemma demo_failed4:
  "case sl_record (slot_of store4 demo_id) of
     RecordFile r \<Rightarrow> chr_schema_version r = CHANGE_SCHEMA_VERSION \<and> chr_revision r = 1 \<and>
       record_state_as_str (chr_state r) = ''failed_inconsistent''
   | _ \<Rightarrow> False"
  by code_simp

lemma demo_record4:
  "sl_record (slot_of store4 demo_id) = RecordFile record4" "chr_schema_version record4 = CHANGE_SCHEMA_VERSION"
  "chr_revision record4 = 1" "record_state_as_str (chr_state record4) = ''failed_inconsistent''"
  using demo_failed4 by (simp_all add: record4_def split: record_file.splits)

lemma demo_load3: "store_load None store3 demo_id = Inr (Some record3)"
  using demo_record3(1,3) demo_ids(1) by (simp add: store_load_def)

lemma demo_verified4: "cd_verified (co_data (change_inspect demo_env None request4 (world_at store3 [] 0)))"
  by (simp add: change_inspect_def request4_def demo_request_def load_for_def demo_load3 finish_outcome_def
    change_data_for_record_def demo_record3(5) split: prod.splits)

lemma demo_unseen4:
  "bt_get (cf_tree (fs_of (sl_candidate (slot_of store4 demo_id)))) [''c''] = Some (FileNode ''y'')"
  by code_simp

lemma demo_runs4:
  "list_all (\<lambda>run. gate_passed run \<and> bt_get (cf_tree (run_fs run)) [''c''] = None) (sys_runs demo_sys3)"
  by code_simp

text \<open>
  After a gate pass, a stage that wrote one of two files leaves an inconsistent record beside a candidate with a file
  no gate run saw, and \<open>inspect\<close> still answers \<open>verified\<close>.
\<close>

theorem failed_stage_keeps_verdict_witness:
  "cd_verified (co_data (change_inspect demo_env None request4 world4)) \<and>
   cd_state (co_data (change_inspect demo_env None request4 world4)) = ''failed_inconsistent'' \<and>
   bt_get (cf_tree (fs_of (sl_candidate (slot_of store4 demo_id)))) [''c''] = Some (FileNode ''y'') \<and>
   list_all (\<lambda>run. gate_passed run \<and> bt_get (cf_tree (run_fs run)) [''c''] = None) (sys_runs demo_sys3)"
proof -
  have "ids_ok (sys_store demo_sys3)" using reachable_ok [OF demo_reachable(4)] by (simp add: system_ok_def rows_ok_def)
  then have ids: "ids_ok (cw_store (world_at store3 [] 0))" by (simp add: demo_states)
  have bounded: "bounded_revisions demo_env" using demo_served by (simp add: served_def)
  have run: "change_stage demo_env (demo_stage_io True) request4 5 (world_at store3 [] 0) =
      (fst (change_stage demo_env (demo_stage_io True) request4 5 (world_at store3 [] 0)), world4)"
    by (simp add: world4_def)
  have loads: "store_load None (cw_store (world_at store3 [] 0)) demo_id = Inr (Some record3)"
    "store_load None (cw_store world4) demo_id = Inr (Some record4)"
    using demo_record4(1,2) demo_load3 demo_ids(1) by (simp_all add: store4_def world4_def store_load_def)
  have "cr_change_id request4 = Some demo_id" by (simp add: request4_def demo_request_def)
  from failed_stage_keeps_verdict [OF run this bounded ids loads] demo_record4(3,4) demo_record3(4) demo_verified4 demo_unseen4 demo_runs4
  show ?thesis by (simp only: Let_def simp_thms)
qed

text \<open>
  Discarding a change whose record cannot be read answers \<open>DISCARDED\<close>, without an error and with nothing done:
  the candidate and the cache stay.
\<close>

theorem discard_of_unreadable_record_claims_success:
  assumes "cr_change_id request = Some i" and "is_valid_change_id i"
    and "store_load (di_load io) (cw_store w) i = Inl e"
  shows "\<exists>out. discard_pin env io request w = Inl out \<and> co_status out = ''DISCARDED'' \<and> \<not> co_is_error out \<and>
    cd_discarded (co_data out) \<and> cd_state (co_data out) = ''discarded''"
  using assms by (simp add: discard_pin_def checked_id_def finish_outcome_def)

definition unreadable_store :: change_store where
  "unreadable_store = [(demo_id, \<lparr>sl_record = BadRecord ''truncated'', sl_manifest = None,
     sl_candidate = CandidateDir (written_fs [([''a''], FileNode ''fn'')]), sl_cache = True\<rparr>)]"

definition demo_discard_io :: discard_io where
  "demo_discard_io = \<lparr>di_load = None, di_lock = free_lock, di_candidate = None, di_cache = None, di_save = good_save\<rparr>"

theorem discard_of_unreadable_record_claims_success_witness:
  "(\<exists>out. discard_pin demo_env demo_discard_io (demo_request 0 []) (world_at unreadable_store [] 0) = Inl out \<and>
      co_status out = ''DISCARDED'' \<and> cd_discarded (co_data out)) \<and>
   sl_candidate (slot_of unreadable_store demo_id) = CandidateDir (written_fs [([''a''], FileNode ''fn'')])"
proof -
  have "is_valid_change_id demo_id" by code_simp
  then have "store_load (di_load demo_discard_io) (cw_store (world_at unreadable_store [] 0)) demo_id = Inl ''truncated''"
    by (simp add: store_load_def demo_discard_io_def unreadable_store_def slot_of_def)
  with \<open>is_valid_change_id demo_id\<close>
    discard_of_unreadable_record_claims_success [of "demo_request 0 []" demo_id demo_discard_io "world_at unreadable_store [] 0"]
  show ?thesis by (fastforce simp: demo_request_def unreadable_store_def slot_of_def)
qed

text \<open>
  A file staged under a name that begins with a space after \<open>./\<close> is written and recorded under that name, but the
  check before validation trims the name and looks for another file: the stage succeeds, and the next validation
  finds the change inconsistent although nobody touched its candidate.
\<close>

theorem staged_name_with_leading_space_fails_validation:
  "\<exists>env io vio (request :: change_request) st r st'.
     stage_blocking env io (the (cr_change_id request)) 5 (cr_expected_revision request) (cr_base_identity request)
       (cr_patches request) (cr_new_files request) st = (StageDone r, st') \<and>
     (case fst (validate_ready env vio (the (cr_change_id request)) r (world_at st' [] 0)) of
        Inl out \<Rightarrow> co_status out = ''FAILED_INCONSISTENT'' | Inr _ \<Rightarrow> False)"
proof -
  let ?request = "demo_request 0 [\<lparr>nf_file = ''./ b'', nf_content = ''x''\<rparr>]"
  let ?run = "stage_blocking demo_env (demo_stage_io False) (the (cr_change_id ?request)) 5 (cr_expected_revision ?request)
    (cr_base_identity ?request) (cr_patches ?request) (cr_new_files ?request) store1"
  have "case fst ?run of
      StageDone r \<Rightarrow> (case fst (validate_ready demo_env demo_validate_io (the (cr_change_id ?request)) r (world_at (snd ?run) [] 0)) of
        Inl out \<Rightarrow> co_status out = ''FAILED_INCONSISTENT'' | Inr _ \<Rightarrow> False)
    | _ \<Rightarrow> False"
    by code_simp
  then obtain r st' where run: "?run = (StageDone r, st')"
    and "case fst (validate_ready demo_env demo_validate_io (the (cr_change_id ?request)) r (world_at st' [] 0)) of
      Inl out \<Rightarrow> co_status out = ''FAILED_INCONSISTENT'' | Inr _ \<Rightarrow> False"
    by (cases ?run; cases "fst ?run") auto
  then show ?thesis by blast
qed

end
