(* ===== verification/Diagnostic_Model.thy ===== *)
theory Diagnostic_Model
  imports Gate_Evidence Process_Output
begin

text \<open>
  The data of compiler diagnostics (\<open>diagnostics/model.rs\<close>): levels, spans with macro expansions, children,
  suggestions, the telemetry of a build with its bounded package lists, and the advisory edits and patches that
  suggestions become.
\<close>

section \<open>Data\<close>

datatype diagnostic_level = LevelError | LevelWarning

record span_text =
  spt_text :: string
  spt_highlight_start :: nat
  spt_highlight_end :: nat

datatype rustc_span = RustcSpan
  (rsp_file: string) (rsp_byte_start: "nat option") (rsp_byte_end: "nat option")
  (rsp_line_start: nat) (rsp_line_end: nat) (rsp_column_start: nat) (rsp_column_end: nat)
  (rsp_is_primary: bool) (rsp_label: "string option") (rsp_suggested_replacement: "string option")
  (rsp_suggestion_applicability: "suggestion_applicability option")
  (rsp_expansion: "rustc_expansion option") (rsp_text: "span_text list") (rsp_range_complete: bool)
and rustc_expansion = RustcExpansion
  (rxp_macro_decl_name: "string option") (rxp_span: rustc_span) (rxp_definition_span: "rustc_span option")

datatype rustc_child = RustcChild
  (rch_level: string) (rch_message: string) (rch_rendered: "string option")
  (rch_spans: "rustc_span list") (rch_children: "rustc_child list")

record rustc_edit =
  rce_file :: string
  rce_line_start :: nat
  rce_line_end :: nat
  rce_column_start :: nat
  rce_column_end :: nat
  rce_replacement :: string
  rce_byte_start :: "nat option"
  rce_byte_end :: "nat option"
  rce_range_complete :: bool

record rustc_suggestion =
  rcs_message :: string
  rcs_applicability :: suggestion_applicability
  rcs_edits :: "rustc_edit list"

record diagnostic =
  dia_package_id :: "string option"
  dia_target_name :: "string option"
  dia_code :: "string option"
  dia_level :: diagnostic_level
  dia_file :: "string option"
  dia_line :: "nat option"
  dia_message :: string
  dia_root_key :: "string option"
  dia_rendered :: "string option"
  dia_spans :: "rustc_span list"
  dia_children :: "rustc_child list"
  dia_suggestions :: "rustc_suggestion list"
  dia_untrusted_data :: bool

record source_position =
  pos_line :: nat
  pos_character :: nat

record source_range =
  rng_start :: source_position
  rng_end :: source_position

record advisory_edit =
  adv_file :: string
  adv_range :: source_range
  adv_new_text :: string

record write_free_patch =
  wfp_file :: string
  wfp_old_string :: string
  wfp_new_string :: string

section \<open>Levels and ranks\<close>

definition level_as_str :: "diagnostic_level \<Rightarrow> string" where
  "level_as_str l = (case l of LevelError \<Rightarrow> ''error'' | LevelWarning \<Rightarrow> ''warning'')"

definition applicability_rank :: "suggestion_applicability \<Rightarrow> nat" where
  "applicability_rank a =
     (case a of MachineApplicable \<Rightarrow> 0 | MaybeIncorrect \<Rightarrow> 1 | HasPlaceholders \<Rightarrow> 2 | Unspecified \<Rightarrow> 3)"

definition applicability_as_str :: "suggestion_applicability \<Rightarrow> string" where
  "applicability_as_str a =
     (case a of MachineApplicable \<Rightarrow> ''MachineApplicable'' | MaybeIncorrect \<Rightarrow> ''MaybeIncorrect''
      | HasPlaceholders \<Rightarrow> ''HasPlaceholders'' | Unspecified \<Rightarrow> ''Unspecified'')"

section \<open>Build telemetry\<close>

definition MAX_TRACKED_PACKAGES :: nat where "MAX_TRACKED_PACKAGES = 64"

record build_telemetry =
  btm_total_units :: nat
  btm_fresh_units :: nat
  btm_rebuilt_units :: nat
  btm_build_scripts :: nat
  btm_linked_units :: nat
  btm_rebuilt_packages :: "string list"
  btm_build_script_packages :: "string list"
  btm_packages_truncated :: bool

definition telemetry_new :: build_telemetry where
  "telemetry_new =
     \<lparr>btm_total_units = 0, btm_fresh_units = 0, btm_rebuilt_units = 0, btm_build_scripts = 0, btm_linked_units = 0,
      btm_rebuilt_packages = [], btm_build_script_packages = [], btm_packages_truncated = False\<rparr>"

definition telemetry_is_empty :: "build_telemetry \<Rightarrow> bool" where
  "telemetry_is_empty t \<longleftrightarrow> btm_total_units t = 0 \<and> btm_build_scripts t = 0"

text \<open>\<open>rsplit_once(c)\<close>: the parts before and after the last occurrence of a character.\<close>

definition rsplit_once :: "char \<Rightarrow> string \<Rightarrow> (string \<times> string) option" where
  "rsplit_once c s = map_option (\<lambda>i. (take i s, drop (Suc i) s)) (str_rfind s [c])"

definition chars_take :: "nat \<Rightarrow> string \<Rightarrow> string" where
  "chars_take n s = concat (take n (chars s))"

definition package_display_name :: "string option \<Rightarrow> string" where
  "package_display_name package_id =
     (case package_id of
        None \<Rightarrow> ''unknown''
      | Some p \<Rightarrow>
          let after_hash = (case rsplit_once (CHR ''#'') p of None \<Rightarrow> p | Some (_, name) \<Rightarrow> name);
              candidate = trim (case rsplit_once (CHR ''@'') after_hash of None \<Rightarrow> after_hash | Some (name, _) \<Rightarrow> name)
          in if candidate = [] then ''unknown'' else chars_take 256 candidate)"

text \<open>A list of names without repetitions and a flag for names that found no room.\<close>

definition record_package :: "string \<Rightarrow> string list \<times> bool \<Rightarrow> string list \<times> bool" where
  "record_package name acc =
     (let (target, truncated) = acc in
      if name \<in> set target then acc
      else if MAX_TRACKED_PACKAGES \<le> length target then (target, True)
      else (target @ [name], truncated))"

definition record_rebuilt_package :: "string option \<Rightarrow> build_telemetry \<Rightarrow> build_telemetry" where
  "record_rebuilt_package package_id t =
     (let (names, truncated) =
            record_package (package_display_name package_id) (btm_rebuilt_packages t, btm_packages_truncated t)
      in t\<lparr>btm_rebuilt_packages := names, btm_packages_truncated := truncated\<rparr>)"

definition record_build_script_package :: "string option \<Rightarrow> build_telemetry \<Rightarrow> build_telemetry" where
  "record_build_script_package package_id t =
     (let (names, truncated) =
            record_package (package_display_name package_id) (btm_build_script_packages t, btm_packages_truncated t)
      in t\<lparr>btm_build_script_packages := names, btm_packages_truncated := truncated\<rparr>)"

record cargo_output =
  cgo_diagnostics :: "diagnostic list"
  cgo_build :: "build_telemetry option"
  cgo_untrusted_data :: bool
  cgo_truncated :: bool

section \<open>The bounded lists\<close>

definition tracked_ok :: "string list \<Rightarrow> bool" where
  "tracked_ok names \<longleftrightarrow> distinct names \<and> length names \<le> MAX_TRACKED_PACKAGES"

definition telemetry_ok :: "build_telemetry \<Rightarrow> bool" where
  "telemetry_ok t \<longleftrightarrow> tracked_ok (btm_rebuilt_packages t) \<and> tracked_ok (btm_build_script_packages t)"

lemma tracked_record_package: "tracked_ok (fst acc) \<Longrightarrow> tracked_ok (fst (record_package name acc))"
  by (auto simp: tracked_ok_def record_package_def Let_def split: prod.splits)

text \<open>A name that is not in the list after it was recorded is reported by the flag.\<close>

lemma record_package_reports:
  "name \<in> set (fst (record_package name acc)) \<or> snd (record_package name acc)"
  by (auto simp: record_package_def Let_def split: prod.splits)

lemma telemetry_ok_record:
  "telemetry_ok t \<Longrightarrow> telemetry_ok (record_rebuilt_package p t)"
  "telemetry_ok t \<Longrightarrow> telemetry_ok (record_build_script_package p t)"
  using tracked_record_package [of "(btm_rebuilt_packages t, btm_packages_truncated t)" "package_display_name p"]
    tracked_record_package [of "(btm_build_script_packages t, btm_packages_truncated t)" "package_display_name p"]
  by (auto simp: telemetry_ok_def record_rebuilt_package_def record_build_script_package_def split: prod.splits)

lemma telemetry_new_ok: "telemetry_ok telemetry_new"
  by (simp add: telemetry_ok_def telemetry_new_def tracked_ok_def)

end
