(* ===== verification/Suggestion_Package.thy ===== *)
theory Suggestion_Package
  imports Diagnostic_Model Change_Patch
begin

text \<open>
  Packaging compiler suggestions (\<open>diagnostics/suggestions.rs\<close>):
  machine-applicable suggestions are resolved to byte ranges of source snapshots, filtered for overlaps and
  changed sources, and turned into search-and-replace patches. Paths are component lists; what the file system
  answers is an input, and reads are numbered, because a file may change between two of them.
\<close>

section \<open>Data\<close>

datatype suggestion_resolve_error =
    IncompleteRange | ZeroCoordinate
  | EmptyPath | ParentComponent | CrossesBoundary | NamesDirectory | NotNormalPath
  | CannotInspectSource | SymlinkSource | NonDirectoryComponent | CannotCanonicalize
  | NotRegularSource | NotRustSource | PathNotUtf8
  | CannotReadSource string | SourceNotUtf8
  | StartInvalid | EndInvalid | RangeReversed | HalfByteRange | ByteRangeMismatch
  | SourceBudget

datatype skip_reason =
    EditBudget
  | RejectedAtomically suggestion_resolve_error
  | OverlappingEditsIn string
  | OverlapsAccepted string
  | SnapshotChanged
  | ChangedAfterSnapshot
  | NoUniqueContext
  | PackageIncomplete

record skipped_edit =
  ske_edit :: advisory_edit
  ske_reason :: skip_reason

record write_free_package =
  wpk_patches :: "write_free_patch list"
  wpk_skipped :: "skipped_edit list"

record resolved_edit =
  re_group :: nat
  re_edit :: advisory_edit
  re_file :: "component list"
  re_source :: string
  re_start :: nat
  re_end :: nat
  re_replacement :: string

definition MAX_PATCH_CONTEXT_BYTES :: nat where "MAX_PATCH_CONTEXT_BYTES = 8000"
definition MAX_SOURCE_SNAPSHOT_BYTES :: nat where "MAX_SOURCE_SNAPSHOT_BYTES = 33554432"

section \<open>The file system\<close>

datatype file_kind = KindFile | KindDir | KindLink | KindOther

record source_world =
  sw_root :: "component list option"
  sw_guard :: bool
  sw_kind :: "nat \<Rightarrow> component list \<Rightarrow> file_kind option"
  sw_canonicalize :: "nat \<Rightarrow> component list \<Rightarrow> component list option"
  sw_read_file :: "nat \<Rightarrow> component list \<Rightarrow> string + string"

definition read_regular_source :: "source_world \<Rightarrow> nat \<Rightarrow> component list \<Rightarrow> suggestion_resolve_error + string" where
  "read_regular_source w tick p =
     (case sw_read_file w tick p of
        Inl e \<Rightarrow> Inl (CannotReadSource e)
      | Inr bytes \<Rightarrow> if from_utf8_ok bytes then Inr bytes else Inl SourceNotUtf8)"

text \<open>The loop over the components below the root, with the path walked so far.\<close>

fun walk_components :: "source_world \<Rightarrow> nat \<Rightarrow> component list \<Rightarrow> component list \<Rightarrow> suggestion_resolve_error option" where
  "walk_components w tick current [] = None"
| "walk_components w tick current (c # cs) =
     (case c of
        Normal n \<Rightarrow>
          (case sw_kind w tick (current @ [c]) of
             None \<Rightarrow> Some CannotInspectSource
           | Some KindLink \<Rightarrow> Some SymlinkSource
           | Some k \<Rightarrow>
               if cs \<noteq> [] \<and> k \<noteq> KindDir then Some NonDirectoryComponent
               else walk_components w tick (current @ [c]) cs)
      | _ \<Rightarrow> Some NotNormalPath)"

definition component_name :: "component \<Rightarrow> string" where
  "component_name c =
     (case c of RootDir \<Rightarrow> ''/'' | CurDir \<Rightarrow> ''.'' | ParentDir \<Rightarrow> ''..'' | Normal n \<Rightarrow> n)"

definition name_extension :: "component list \<Rightarrow> string option" where
  "name_extension cs =
     (case rev cs of
        Normal name # _ \<Rightarrow>
          (case str_rfind name ''.'' of
             None \<Rightarrow> None
           | Some i \<Rightarrow> if i = 0 then None else Some (drop (Suc i) name))
      | _ \<Rightarrow> None)"

definition slash_path :: "component list \<Rightarrow> string" where
  "slash_path cs = map (\<lambda>c. if c = CHR 0x5C then CHR ''/'' else c) (join ''/'' (map component_name cs))"

definition resolve_regular_source ::
  "source_world \<Rightarrow> nat \<Rightarrow> component list \<Rightarrow> string \<Rightarrow> suggestion_resolve_error + component list \<times> string" where
  "resolve_regular_source w tick root path =
     (let input = components path in
      if path = [] then Inl EmptyPath
      else if ParentDir \<in> set input then Inl ParentComponent
      else
        let candidate = (if is_absolute path then input else root @ filter (\<lambda>c. c \<noteq> CurDir) input) in
        if \<not> starts_with candidate root then Inl CrossesBoundary
        else
          let relative = drop (length root) candidate in
          if relative = [] then Inl NamesDirectory
          else case walk_components w tick root relative of
            Some e \<Rightarrow> Inl e
          | None \<Rightarrow>
              (case sw_canonicalize w tick candidate of
                 None \<Rightarrow> Inl CannotCanonicalize
               | Some canonical \<Rightarrow>
                   if \<not> starts_with canonical root then Inl CrossesBoundary
                   else case sw_kind w tick canonical of
                     None \<Rightarrow> Inl CannotInspectSource
                   | Some k \<Rightarrow>
                       if k \<noteq> KindFile then Inl NotRegularSource
                       else if name_extension canonical \<noteq> Some ''rs'' then Inl NotRustSource
                       else
                         let below = drop (length root) canonical in
                         if \<not> from_utf8_ok (join ''/'' (map component_name below)) then Inl PathNotUtf8
                         else Inr (canonical, slash_path below)))"

section \<open>Positions\<close>

definition line_starts :: "string \<Rightarrow> nat list" where
  "line_starts source = 0 # map Suc (filter (\<lambda>i. source ! i = CHR 0x0A) [0..<length source])"

definition byte_at :: "string \<Rightarrow> nat \<Rightarrow> char option" where
  "byte_at s i = (if i < length s then Some (s ! i) else None)"

definition byte_slice :: "string \<Rightarrow> nat \<Rightarrow> nat \<Rightarrow> string" where
  "byte_slice s a b = take (b - a) (drop a s)"

definition char_offsets :: "string \<Rightarrow> nat list" where
  "char_offsets s = filter (\<lambda>i. \<not> is_cont (s ! i)) [0..<length s] @ [length s]"

definition get_nth :: "'a list \<Rightarrow> nat \<Rightarrow> 'a option" where
  "get_nth xs i = (if i < length xs then Some (xs ! i) else None)"

definition offset_for_position :: "string \<Rightarrow> nat \<Rightarrow> nat \<Rightarrow> nat option" where
  "offset_for_position source line column =
     (if line = 0 \<or> column = 0 then None
      else
        let starts = line_starts source in
        case get_nth starts (line - 1) of
          None \<Rightarrow> None
        | Some line_start \<Rightarrow>
            let line_end =
                  (case get_nth starts line of
                     None \<Rightarrow> length source
                   | Some next_start \<Rightarrow>
                       next_start - (if byte_at source (next_start - 2) = Some (CHR 0x0D) then 2 else 1))
            in if line_end < line_start \<or> \<not> is_char_boundary source line_start \<or> \<not> is_char_boundary source line_end
               then None
               else map_option (\<lambda>byte_column. line_start + byte_column)
                 (get_nth (char_offsets (byte_slice source line_start line_end)) (column - 1)))"

section \<open>Resolving edits\<close>

definition advisory_edit_of :: "rustc_edit \<Rightarrow> advisory_edit" where
  "advisory_edit_of e =
     \<lparr>adv_file = rce_file e,
      adv_range = \<lparr>rng_start = \<lparr>pos_line = rce_line_start e - 1, pos_character = rce_column_start e - 1\<rparr>,
        rng_end = \<lparr>pos_line = rce_line_end e - 1, pos_character = rce_column_end e - 1\<rparr>\<rparr>,
      adv_new_text = rce_replacement e\<rparr>"

text \<open>The checks on one edit once its source is read.\<close>

definition resolve_range :: "rustc_edit \<Rightarrow> string \<Rightarrow> suggestion_resolve_error + nat \<times> nat" where
  "resolve_range e source =
     (case offset_for_position source (rce_line_start e) (rce_column_start e) of
        None \<Rightarrow> Inl StartInvalid
      | Some start \<Rightarrow>
          (case offset_for_position source (rce_line_end e) (rce_column_end e) of
             None \<Rightarrow> Inl EndInvalid
           | Some stop \<Rightarrow>
               if stop < start then Inl RangeReversed
               else if (rce_byte_start e = None) \<noteq> (rce_byte_end e = None) then Inl HalfByteRange
               else if rce_byte_start e \<noteq> None \<and>
                       (rce_byte_start e \<noteq> Some start \<or> rce_byte_end e \<noteq> Some stop)
               then Inl ByteRangeMismatch
               else Inr (start, stop)))"

text \<open>One edit, with the number of reads made afterwards.\<close>

definition resolve_edit ::
  "source_world \<Rightarrow> nat \<Rightarrow> component list \<Rightarrow> nat \<Rightarrow> rustc_edit \<Rightarrow> (suggestion_resolve_error + resolved_edit) \<times> nat" where
  "resolve_edit w tick root grp e =
     (if \<not> rce_range_complete e then (Inl IncompleteRange, tick)
      else if rce_line_start e = 0 \<or> rce_line_end e = 0 \<or> rce_column_start e = 0 \<or> rce_column_end e = 0
      then (Inl ZeroCoordinate, tick)
      else case resolve_regular_source w tick root (rce_file e) of
        Inl x \<Rightarrow> (Inl x, tick)
      | Inr (path, relative) \<Rightarrow>
          (case read_regular_source w tick path of
             Inl x \<Rightarrow> (Inl x, Suc tick)
           | Inr source \<Rightarrow>
               (case resolve_range e source of
                  Inl x \<Rightarrow> (Inl x, Suc tick)
                | Inr (start, stop) \<Rightarrow>
                    (Inr \<lparr>re_group = grp, re_edit = (advisory_edit_of e)\<lparr>adv_file := relative\<rparr>, re_file = path,
                          re_source = source, re_start = start, re_end = stop,
                          re_replacement = rce_replacement e\<rparr>, Suc tick))))"

text \<open>The edits of one suggestion, up to the first failure.\<close>

fun resolve_edits ::
  "source_world \<Rightarrow> component list \<Rightarrow> nat \<Rightarrow> rustc_edit list \<Rightarrow> resolved_edit list \<Rightarrow> nat \<Rightarrow> nat \<Rightarrow>
   (suggestion_resolve_error + resolved_edit list) \<times> nat \<times> nat" where
  "resolve_edits w root grp [] acc bytes tick = (Inr acc, bytes, tick)"
| "resolve_edits w root grp (e # es) acc bytes tick =
     (case resolve_edit w tick root grp e of
        (Inl x, tick) \<Rightarrow> (Inl x, bytes, tick)
      | (Inr r, tick) \<Rightarrow>
          let bytes = sat_add bytes (length (re_source r)) in
          if MAX_SOURCE_SNAPSHOT_BYTES < bytes then (Inl SourceBudget, bytes, tick)
          else resolve_edits w root grp es (acc @ [r]) bytes tick)"

section \<open>Overlaps\<close>

definition ranges_overlap :: "resolved_edit \<Rightarrow> resolved_edit \<Rightarrow> bool" where
  "ranges_overlap l r \<longleftrightarrow>
     re_file l = re_file r \<and>
     (if re_start l = re_end l then re_start r \<le> re_start l \<and> re_start l \<le> re_end r
      else if re_start r = re_end r then re_start l \<le> re_start r \<and> re_start r \<le> re_end l
      else re_start l < re_end r \<and> re_start r < re_end l)"

fun first_internal_overlap :: "resolved_edit list \<Rightarrow> (resolved_edit \<times> resolved_edit) option" where
  "first_internal_overlap [] = None"
| "first_internal_overlap (l # rest) =
     (case List.find (ranges_overlap l) rest of
        Some r \<Rightarrow> Some (l, r)
      | None \<Rightarrow> first_internal_overlap rest)"

fun first_conflict :: "resolved_edit list \<Rightarrow> resolved_edit list \<Rightarrow> resolved_edit option" where
  "first_conflict [] grp = None"
| "first_conflict (existing # accepted) grp =
     (case List.find (ranges_overlap existing) grp of
        Some candidate \<Rightarrow> Some candidate
      | None \<Rightarrow> first_conflict accepted grp)"

section \<open>Collecting groups\<close>

record package_state =
  pks_skipped :: "skipped_edit list"
  pks_groups :: "resolved_edit list list"
  pks_edits_seen :: nat
  pks_source_bytes :: nat
  pks_tick :: nat

definition skip_edits :: "skip_reason \<Rightarrow> advisory_edit list \<Rightarrow> skipped_edit list" where
  "skip_edits reason es = map (\<lambda>e. \<lparr>ske_edit = e, ske_reason = reason\<rparr>) es"

definition collect_suggestion :: "source_world \<Rightarrow> component list \<Rightarrow> rustc_suggestion \<Rightarrow> package_state \<Rightarrow> package_state" where
  "collect_suggestion w root s st =
     (if rcs_applicability s \<noteq> MachineApplicable \<or> rcs_edits s = [] then st
      else if 200 < sat_add (pks_edits_seen st) (length (rcs_edits s))
      then st\<lparr>pks_skipped := pks_skipped st @ skip_edits EditBudget [advisory_edit_of (hd (rcs_edits s))]\<rparr>
      else
        let (res, bytes, tick) = resolve_edits w root (length (pks_groups st)) (rcs_edits s) []
              (pks_source_bytes st) (pks_tick st);
            st = st\<lparr>pks_edits_seen := pks_edits_seen st + length (rcs_edits s), pks_source_bytes := bytes,
                    pks_tick := tick\<rparr>
        in case res of
          Inl x \<Rightarrow>
            st\<lparr>pks_skipped := pks_skipped st @
              skip_edits (RejectedAtomically x) (map advisory_edit_of (rcs_edits s))\<rparr>
        | Inr edits \<Rightarrow>
            (case first_internal_overlap edits of
               Some (l, r) \<Rightarrow>
                 st\<lparr>pks_skipped := pks_skipped st @
                   skip_edits (OverlappingEditsIn (adv_file (re_edit l))) [re_edit l, re_edit r]\<rparr>
             | None \<Rightarrow> st\<lparr>pks_groups := pks_groups st @ [edits]\<rparr>))"

definition collect_groups :: "source_world \<Rightarrow> component list \<Rightarrow> diagnostic list \<Rightarrow> package_state" where
  "collect_groups w root ds =
     fold (collect_suggestion w root) (concat (map dia_suggestions ds))
       \<lparr>pks_skipped = [], pks_groups = [], pks_edits_seen = 0, pks_source_bytes = 0, pks_tick = 0\<rparr>"

text \<open>A group is accepted when none of its edits overlaps one accepted before.\<close>

fun accept_groups ::
  "resolved_edit list list \<Rightarrow> resolved_edit list \<Rightarrow> resolved_edit list list \<Rightarrow> skipped_edit list \<Rightarrow>
   resolved_edit list list \<times> skipped_edit list" where
  "accept_groups [] accepted kept skipped = (kept, skipped)"
| "accept_groups (g # gs) accepted kept skipped =
     (case first_conflict accepted g of
        Some c \<Rightarrow>
          accept_groups gs accepted kept
            (skipped @ skip_edits (OverlapsAccepted (adv_file (re_edit c))) (map re_edit g))
      | None \<Rightarrow> accept_groups gs (accepted @ g) (kept @ [g]) skipped)"

fun reindex_from :: "nat \<Rightarrow> resolved_edit list list \<Rightarrow> resolved_edit list list" where
  "reindex_from n [] = []"
| "reindex_from n (g # gs) = map (re_group_update (\<lambda>_. n)) g # reindex_from (Suc n) gs"

definition reindex_groups :: "resolved_edit list list \<Rightarrow> resolved_edit list list" where
  "reindex_groups gs = reindex_from 0 gs"

section \<open>Snapshots\<close>

type_synonym snapshots = "(string, string) btree_map"

text \<open>One edit against the snapshots: whether the group stays complete, the snapshots and the read count.\<close>

definition snapshot_edit ::
  "source_world \<Rightarrow> (string \<rightharpoonup> string) option \<Rightarrow> resolved_edit \<Rightarrow> bool \<times> snapshots \<times> nat \<Rightarrow> bool \<times> snapshots \<times> nat" where
  "snapshot_edit w given_snapshots e acc =
     (let (complete, snaps, tick) = acc; key = adv_file (re_edit e) in
      if bt_contains snaps key then acc
      else
        let expected = (case given_snapshots of None \<Rightarrow> None | Some m \<Rightarrow> m key) in
        if given_snapshots \<noteq> None \<and> expected = None then (False, snaps, tick)
        else case read_regular_source w tick (re_file e) of
          Inl _ \<Rightarrow> (False, snaps, Suc tick)
        | Inr current \<Rightarrow>
            if current \<noteq> re_source e then (False, snaps, Suc tick)
            else (case expected of
                    Some text \<Rightarrow>
                      if re_source e \<noteq> text then (False, snaps, Suc tick)
                      else (complete, bt_insert key text snaps, Suc tick)
                  | None \<Rightarrow> (complete, bt_insert key (re_source e) snaps, Suc tick)))"

fun snapshot_groups ::
  "source_world \<Rightarrow> (string \<rightharpoonup> string) option \<Rightarrow> resolved_edit list list \<Rightarrow> snapshots \<Rightarrow> nat \<Rightarrow>
   resolved_edit list list \<Rightarrow> skipped_edit list \<Rightarrow>
   resolved_edit list list \<times> skipped_edit list \<times> snapshots \<times> nat" where
  "snapshot_groups w given_snapshots [] snaps tick kept skipped = (kept, skipped, snaps, tick)"
| "snapshot_groups w given_snapshots (g # gs) snaps tick kept skipped =
     (let (complete, snaps, tick) = fold (snapshot_edit w given_snapshots) g (True, snaps, tick) in
      if complete then snapshot_groups w given_snapshots gs snaps tick (kept @ [g]) skipped
      else snapshot_groups w given_snapshots gs snaps tick kept
        (skipped @ skip_edits SnapshotChanged (map re_edit g)))"

text \<open>The second read of every source, stopping at the first difference of a group.\<close>

fun stable_group :: "source_world \<Rightarrow> snapshots \<Rightarrow> resolved_edit list \<Rightarrow> nat \<Rightarrow> bool \<times> nat" where
  "stable_group w snaps [] tick = (True, tick)"
| "stable_group w snaps (e # es) tick =
     (case read_regular_source w tick (re_file e) of
        Inr current \<Rightarrow>
          if bt_get snaps (adv_file (re_edit e)) = Some current then stable_group w snaps es (Suc tick)
          else (False, Suc tick)
      | Inl _ \<Rightarrow> (False, Suc tick))"

fun stable_groups ::
  "source_world \<Rightarrow> snapshots \<Rightarrow> resolved_edit list list \<Rightarrow> nat \<Rightarrow> resolved_edit list list \<Rightarrow> skipped_edit list \<Rightarrow>
   resolved_edit list list \<times> skipped_edit list" where
  "stable_groups w snaps [] tick kept skipped = (kept, skipped)"
| "stable_groups w snaps (g # gs) tick kept skipped =
     (let (stable, tick) = stable_group w snaps g tick in
      if stable then stable_groups w snaps gs tick (kept @ [g]) skipped
      else stable_groups w snaps gs tick kept (skipped @ skip_edits ChangedAfterSnapshot (map re_edit g)))"

section \<open>Patches\<close>

text \<open>\<open>match_indices(..).count()\<close>: occurrences that do not overlap, from the left.\<close>

function count_matches :: "string \<Rightarrow> string \<Rightarrow> nat" where
  "count_matches source needle =
     (if needle = [] then 0
      else case str_find source needle of
        None \<Rightarrow> 0
      | Some k \<Rightarrow> Suc (count_matches (drop (k + length needle) source) needle))"
  by pat_completeness auto
termination
proof (relation "measure (length \<circ> fst)")
  fix source needle k
  assume "needle \<noteq> []" "str_find source needle = Some k"
  then have "k + length needle \<le> length source" by (blast dest: str_find_occurs occurs_at_bound)
  with \<open>needle \<noteq> []\<close> show "((drop (k + length needle) source, needle), source, needle) \<in> measure (length \<circ> fst)"
    by (cases needle) auto
qed simp

declare count_matches.simps [simp del]

definition occurrence_count :: "string \<Rightarrow> string \<Rightarrow> nat" where
  "occurrence_count source needle = (if needle = [] then 0 else count_matches source needle)"

definition line_at_offset :: "nat list \<Rightarrow> nat \<Rightarrow> nat" where
  "line_at_offset starts offset = length (takeWhile (\<lambda>s. s \<le> offset) starts) - 1"

text \<open>The lines around a range, wider by one radius at a time.\<close>

definition context_bounds :: "string \<Rightarrow> nat list \<Rightarrow> nat \<Rightarrow> nat \<Rightarrow> nat \<Rightarrow> nat \<times> nat" where
  "context_bounds source starts start_line end_line radius =
     (let from_line = start_line - radius; to_line = min (end_line + radius) (length starts - 1)
      in (starts ! from_line, if to_line + 1 < length starts then starts ! (to_line + 1) else length source))"

fun widen_context :: "string \<Rightarrow> nat list \<Rightarrow> nat \<Rightarrow> nat \<Rightarrow> nat list \<Rightarrow> (nat \<times> nat \<times> string) option" where
  "widen_context source starts start_line end_line [] = None"
| "widen_context source starts start_line end_line (radius # radii) =
     (let (context_start, context_end) = context_bounds source starts start_line end_line radius;
          context = byte_slice source context_start context_end
      in if MAX_PATCH_CONTEXT_BYTES < length context then None
         else if context \<noteq> [] \<and> occurrence_count source context = 1 then Some (context_start, context_end, context)
         else widen_context source starts start_line end_line radii)"

definition unique_context :: "string \<Rightarrow> nat \<Rightarrow> nat \<Rightarrow> (nat \<times> nat \<times> string) option" where
  "unique_context source start stop =
     (if stop < start \<or> length source < stop \<or> \<not> is_char_boundary source start \<or> \<not> is_char_boundary source stop
      then None
      else
        let starts = line_starts source
        in widen_context source starts (line_at_offset starts start) (line_at_offset starts stop)
             [0..<Suc (length starts)])"

record patch_build =
  pbd_patches :: "write_free_patch list"
  pbd_invalid_groups :: "nat list"

text \<open>\<open>sort_by\<close>: later ranges first, a stable sort.\<close>

definition edit_before :: "resolved_edit \<Rightarrow> resolved_edit \<Rightarrow> bool" where
  "edit_before l r \<longleftrightarrow>
     re_start r < re_start l \<or>
     (re_start r = re_start l \<and> (re_end r < re_end l \<or> (re_end r = re_end l \<and> re_group r < re_group l)))"

fun place_edit :: "resolved_edit \<Rightarrow> resolved_edit list \<Rightarrow> resolved_edit list" where
  "place_edit e [] = [e]"
| "place_edit e (x # xs) = (if edit_before x e then x # place_edit e xs else e # x # xs)"

definition sort_edits :: "resolved_edit list \<Rightarrow> resolved_edit list" where
  "sort_edits es = foldr place_edit es []"

fun build_file ::
  "string \<Rightarrow> resolved_edit list \<Rightarrow> string \<Rightarrow> write_free_patch list \<times> nat list" where
  "build_file key [] content = ([], [])"
| "build_file key (e # es) content =
     (case unique_context content (re_start e) (re_end e) of
        None \<Rightarrow> (let (patches, invalid) = build_file key es content in (patches, re_group e # invalid))
      | Some (context_start, context_end, old) \<Rightarrow>
          let new = take (re_start e - context_start) old @ re_replacement e @ drop (re_end e - context_start) old;
              content = take context_start content @ new @ drop context_end content;
              (patches, invalid) = build_file key es content
          in (\<lparr>wfp_file = key, wfp_old_string = old, wfp_new_string = new\<rparr> # patches, invalid))"

definition edits_by_file :: "resolved_edit list list \<Rightarrow> (string, resolved_edit list) btree_map" where
  "edits_by_file gs =
     fold (\<lambda>e m. bt_insert (adv_file (re_edit e))
       ((case bt_get m (adv_file (re_edit e)) of None \<Rightarrow> [] | Some es \<Rightarrow> es) @ [e]) m) (concat gs) []"

fun build_files :: "snapshots \<Rightarrow> (string \<times> resolved_edit list) list \<Rightarrow> write_free_patch list \<times> nat list" where
  "build_files snaps [] = ([], [])"
| "build_files snaps ((key, edits) # rest) =
     (let (patches, invalid) =
            (case bt_get snaps key of
               None \<Rightarrow> ([], map re_group edits)
             | Some content \<Rightarrow> build_file key (sort_edits edits) content);
          (more, others) = build_files snaps rest
      in (patches @ more, invalid @ others))"

definition build_patches :: "resolved_edit list list \<Rightarrow> snapshots \<Rightarrow> patch_build" where
  "build_patches gs snaps =
     (let (patches, invalid) = build_files snaps (edits_by_file gs)
      in \<lparr>pbd_patches = patches, pbd_invalid_groups = remdups_adj (sort invalid)\<rparr>)"

section \<open>The package\<close>

text \<open>Groups with an index among the invalid ones, and the rest.\<close>

fun split_invalid ::
  "nat \<Rightarrow> nat list \<Rightarrow> resolved_edit list list \<Rightarrow> resolved_edit list list \<times> skipped_edit list" where
  "split_invalid n invalid [] = ([], [])"
| "split_invalid n invalid (g # gs) =
     (let (kept, skipped) = split_invalid (Suc n) invalid gs in
      if n \<in> set invalid then (kept, skip_edits NoUniqueContext (map re_edit g) @ skipped)
      else (g # kept, skipped))"

definition finish_package :: "resolved_edit list list \<Rightarrow> snapshots \<Rightarrow> skipped_edit list \<Rightarrow> write_free_package" where
  "finish_package gs snaps skipped =
     (let build = build_patches gs snaps in
      if pbd_invalid_groups build = [] then \<lparr>wpk_patches = pbd_patches build, wpk_skipped = skipped\<rparr>
      else
        let (kept, more) = split_invalid 0 (pbd_invalid_groups build) gs;
            kept = reindex_groups kept; build = build_patches kept snaps
        in if pbd_invalid_groups build = []
           then \<lparr>wpk_patches = pbd_patches build, wpk_skipped = skipped @ more\<rparr>
           else \<lparr>wpk_patches = [],
                 wpk_skipped = skipped @ more @
                   concat (map (\<lambda>i. case get_nth kept i of
                       None \<Rightarrow> [] | Some g \<Rightarrow> skip_edits PackageIncomplete (map re_edit g))
                     (pbd_invalid_groups build))\<rparr>)"

definition package_internal ::
  "source_world \<Rightarrow> (string \<rightharpoonup> string) option \<Rightarrow> diagnostic list \<Rightarrow> write_free_package" where
  "package_internal w given_snapshots ds =
     (case sw_root w of
        None \<Rightarrow> \<lparr>wpk_patches = [], wpk_skipped = []\<rparr>
      | Some root \<Rightarrow>
          if \<not> sw_guard w then \<lparr>wpk_patches = [], wpk_skipped = []\<rparr>
          else
            let st = collect_groups w root ds;
                (valid, skipped) = accept_groups (pks_groups st) [] [] (pks_skipped st);
                (snapped, skipped, snaps, tick) =
                  snapshot_groups w given_snapshots (reindex_groups valid) [] (pks_tick st) [] skipped;
                (stable, skipped) = stable_groups w snaps snapped tick [] skipped
            in finish_package (reindex_groups stable) snaps skipped)"

end
