(* ===== verification/Suggestion_Properties.thy ===== *)
theory Suggestion_Properties
  imports Suggestion_Package "HOL-Library.Sublist" "HOL-Library.Code_Target_Nat"
begin

text \<open>
  What the patches of a suggestion package do. The specification is one simultaneous edit of the snapshot: the
  text between the ranges is kept and every range is replaced. The lemmas follow the package from the resolved
  ranges over the overlap checks to the patches, whose contexts are computed on a text that changes under them.
\<close>

section \<open>Contexts\<close>

lemma line_starts_sorted: "sorted_wrt (<) (line_starts s)"
proof -
  have "sorted_wrt (<) (filter P [0..<n])" for P :: "nat \<Rightarrow> bool" and n
    by (rule sorted_wrt_filter) simp
  then show ?thesis by (simp add: line_starts_def sorted_wrt_map)
qed

lemma line_starts_bound: "x \<in> set (line_starts s) \<Longrightarrow> x \<le> length s"
  by (auto simp: line_starts_def)

lemma line_starts_nonempty: "line_starts s \<noteq> []" "line_starts s ! 0 = 0"
  by (simp_all add: line_starts_def)

lemma line_at_offset_bounds:
  assumes "sorted_wrt (<) starts" and "starts \<noteq> []" and "starts ! 0 = 0"
  shows "line_at_offset starts k < length starts" and "starts ! line_at_offset starts k \<le> k"
    and "Suc (line_at_offset starts k) < length starts \<Longrightarrow> k < starts ! Suc (line_at_offset starts k)"
proof -
  let ?t = "takeWhile (\<lambda>s. s \<le> k) starts"
  have pos: "0 < length ?t" using assms(2,3) by (cases starts) auto
  have le: "length ?t \<le> length starts" by (rule length_takeWhile_le)
  show "line_at_offset starts k < length starts" unfolding line_at_offset_def using pos le by linarith
  have "?t ! (length ?t - 1) \<in> set ?t" using pos by simp
  then have "?t ! (length ?t - 1) \<le> k" using set_takeWhileD by metis
  moreover have "?t ! (length ?t - 1) = starts ! (length ?t - 1)" using pos by (simp add: takeWhile_nth)
  ultimately show "starts ! line_at_offset starts k \<le> k" by (simp add: line_at_offset_def)
  show "k < starts ! Suc (line_at_offset starts k)" if "Suc (line_at_offset starts k) < length starts"
    using nth_length_takeWhile [of "\<lambda>s. s \<le> k" starts] that pos by (simp add: line_at_offset_def)
qed

lemma context_bounds_cover:
  assumes "context_bounds s (line_starts s) (line_at_offset (line_starts s) a) (line_at_offset (line_starts s) b) radius = (cs, ce)"
    and "b \<le> length s"
  shows "cs \<le> a" and "b \<le> ce" and "ce \<le> length s"
proof -
  let ?st = "line_starts s"
  note inc = line_starts_sorted [of s]
  note la = line_at_offset_bounds [OF inc line_starts_nonempty, of a]
  note lb = line_at_offset_bounds [OF inc line_starts_nonempty, of b]
  have mono: "?st ! i \<le> ?st ! j" if "i \<le> j" "j < length ?st" for i j
    using sorted_wrt_nth_less [OF inc, of i j] that by (cases "i = j") auto
  let ?to = "min (line_at_offset ?st b + radius) (length ?st - 1)"
  from assms(1) have "?st ! (line_at_offset ?st a - radius) = cs \<and>
      (if ?to + 1 < length ?st then ?st ! (?to + 1) else length s) = ce"
    unfolding context_bounds_def Let_def prod.inject .
  then have cs: "cs = ?st ! (line_at_offset ?st a - radius)"
    and ce: "ce = (if ?to + 1 < length ?st then ?st ! (?to + 1) else length s)" by blast+
  show "cs \<le> a" using mono [of "line_at_offset ?st a - radius" "line_at_offset ?st a"] la(1,2) cs by simp
  show "ce \<le> length s" using ce line_starts_bound [of "?st ! (?to + 1)" s] by auto
  show "b \<le> ce"
  proof (cases "?to + 1 < length ?st")
    case True
    then have "Suc (line_at_offset ?st b) \<le> ?to + 1" "Suc (line_at_offset ?st b) < length ?st" using lb(1) by auto
    from mono [OF this(1) True] lb(3) [OF this(2)] have "b \<le> ?st ! (?to + 1)" by (rule less_imp_le [OF less_le_trans, rotated])
    then show ?thesis using True ce by presburger
  next
    case False
    then have "ce = length s" unfolding ce by (rule if_not_P)
    with assms(2) show ?thesis by simp
  qed
qed

lemma widen_context_Some:
  "widen_context s starts la lb radii = Some (cs, ce, old) \<Longrightarrow>
   \<exists>radius. context_bounds s starts la lb radius = (cs, ce) \<and> old = byte_slice s cs ce \<and> old \<noteq> []"
  by (induction s starts la lb radii rule: widen_context.induct) (auto simp: Let_def split: prod.splits if_splits)

lemma unique_context_Some:
  assumes "unique_context s a b = Some (cs, ce, old)"
  shows "a \<le> b" "b \<le> length s" "cs \<le> a" "b \<le> ce" "ce \<le> length s" "old = byte_slice s cs ce" "old \<noteq> []"
proof -
  from assms show ab: "a \<le> b" and b: "b \<le> length s" by (auto simp: unique_context_def split: if_splits)
  from assms have "widen_context s (line_starts s) (line_at_offset (line_starts s) a) (line_at_offset (line_starts s) b)
      [0..<Suc (length (line_starts s))] = Some (cs, ce, old)"
    by (simp add: unique_context_def Let_def del: upt_Suc split: if_splits)
  from widen_context_Some [OF this] context_bounds_cover [OF _ b]
  show "cs \<le> a" "b \<le> ce" "ce \<le> length s" "old = byte_slice s cs ce" "old \<noteq> []" by blast+
qed

section \<open>Patches in sequence\<close>

text \<open>
  How the host applies patches: the old string must occur exactly once, which is what \<open>plan_patches\<close> asks for.
\<close>

fun host_apply :: "write_free_patch list \<Rightarrow> string \<Rightarrow> string option" where
  "host_apply [] s = Some s"
| "host_apply (p # ps) s =
     (case str_find s (wfp_old_string p) of
        None \<Rightarrow> None
      | Some k \<Rightarrow>
          if str_rfind s (wfp_old_string p) = Some k
          then host_apply ps (take k s @ wfp_new_string p @ drop (k + length (wfp_old_string p)) s)
          else None)"

text \<open>The simultaneous edit: ascending ranges with their replacements, up to a stop position.\<close>

fun splice_edits :: "nat \<Rightarrow> (nat \<times> nat \<times> string) list \<Rightarrow> nat \<Rightarrow> string \<Rightarrow> string" where
  "splice_edits k [] stop s = byte_slice s k stop"
| "splice_edits k ((a, b, r) # es) stop s = byte_slice s k a @ r @ splice_edits b es stop s"

definition range_of :: "resolved_edit \<Rightarrow> nat \<times> nat \<times> string" where
  "range_of e = (re_start e, re_end e, re_replacement e)"

definition edited :: "string \<Rightarrow> resolved_edit list \<Rightarrow> string" where
  "edited s es = splice_edits 0 (map range_of (rev (sort_edits es))) (length s) s"

lemma splice_snoc:
  "splice_edits k (es @ [(a, b, r)]) stop s = splice_edits k es a s @ r @ byte_slice s b stop"
  by (induction k es stop s rule: splice_edits.induct) auto

definition run_edits :: "resolved_edit list \<Rightarrow> string \<Rightarrow> string" where
  "run_edits es s = foldl (\<lambda>c e. take (re_start e) c @ re_replacement e @ drop (re_end e) c) s es"

text \<open>Ranges that lie before all ranges handled earlier.\<close>

definition descending :: "resolved_edit list \<Rightarrow> bool" where
  "descending es \<longleftrightarrow> list_all (\<lambda>e. re_start e \<le> re_end e) es \<and> sorted_wrt (\<lambda>d e. re_end e \<le> re_start d) es"

lemma run_edits_splice:
  assumes "descending es" and "list_all (\<lambda>e. re_end e \<le> stop) es" and "stop \<le> length s"
  shows "run_edits es (take stop s @ rest) = splice_edits 0 (map range_of (rev es)) stop s @ rest"
  using assms
proof (induction es arbitrary: stop rest)
  case Nil
  then show ?case by (simp add: run_edits_def byte_slice_def)
next
  case (Cons e es)
  let ?a = "re_start e" and ?b = "re_end e"
  have ab: "?a \<le> ?b" "?b \<le> stop" "list_all (\<lambda>x. re_end x \<le> ?a) es" "descending es"
    using Cons.prems by (auto simp: descending_def list_all_iff)
  have cut: "take ?a (take stop s @ rest) = take ?a s" "drop ?b (take stop s @ rest) = byte_slice s ?b stop @ rest"
    using ab Cons.prems(3) by (simp_all add: byte_slice_def drop_take min_def)
  have "run_edits (e # es) (take stop s @ rest) =
      run_edits es (take ?a s @ (re_replacement e @ byte_slice s ?b stop @ rest))"
    by (simp only: run_edits_def foldl_Cons cut)
  also have "\<dots> = splice_edits 0 (map range_of (rev es)) ?a s @ re_replacement e @ byte_slice s ?b stop @ rest"
    by (rule Cons.IH) (use ab Cons.prems(3) in auto)
  finally show ?case by (simp add: splice_snoc range_of_def [of e])
qed

lemma context_replaced:
  assumes "cs \<le> a" "a \<le> b" "b \<le> ce" "ce \<le> length s" and "old = byte_slice s cs ce"
  shows "take cs s @ (take (a - cs) old @ r @ drop (b - cs) old) @ drop ce s = take a s @ r @ drop b s"
proof -
  have "take cs s @ take (a - cs) old = take a s"
  proof -
    have "take (a - cs) old = take (a - cs) (drop cs s)" using assms by (simp add: byte_slice_def min_def)
    then show ?thesis using take_add [of cs "a - cs" s] assms(1) by simp
  qed
  moreover have "drop (b - cs) old @ drop ce s = drop b s"
  proof -
    have "drop (b - cs) old = take (ce - b) (drop b s)" using assms by (simp add: byte_slice_def drop_take)
    then show ?thesis using assms by (metis append_take_drop_id drop_drop le_add_diff_inverse2)
  qed
  ultimately show ?thesis by (metis append_assoc)
qed

lemma slice_occurs:
  assumes "cs \<le> ce" "ce \<le> length s"
  shows "occurs_at s (byte_slice s cs ce) cs" and "length (byte_slice s cs ce) = ce - cs"
  using assms by (auto simp: occurs_at_def byte_slice_def starts_with_iff intro!: exI [of _ "drop ce s"])
    (metis append_take_drop_id drop_drop le_add_diff_inverse2)

lemma build_file_host:
  "build_file key es s = (ps, []) \<Longrightarrow> host_apply ps s = Some t \<Longrightarrow> t = run_edits es s"
proof (induction key es s arbitrary: ps rule: build_file.induct)
  case (1 key content)
  then show ?case by (simp add: run_edits_def)
next
  case (2 key e es content)
  from "2.prems"(1) obtain cs ce old where ctx: "unique_context content (re_start e) (re_end e) = Some (cs, ce, old)"
    by (auto simp: Let_def split: option.splits prod.splits)
  note u = unique_context_Some [OF ctx]
  let ?new = "take (re_start e - cs) old @ re_replacement e @ drop (re_end e - cs) old"
  let ?content = "take cs content @ ?new @ drop ce content"
  from "2.prems"(1) ctx obtain ps' where rest: "build_file key es ?content = (ps', [])"
    and ps: "ps = \<lparr>wfp_file = key, wfp_old_string = old, wfp_new_string = ?new\<rparr> # ps'"
    by (auto simp: Let_def split: prod.splits)
  have occ: "occurs_at content old cs" "length old = ce - cs" using slice_occurs [of cs ce content] u by auto
  from "2.prems"(2) ps obtain k where k: "str_find content old = Some k" "str_rfind content old = Some k"
    "host_apply ps' (take k content @ ?new @ drop (k + length old) content) = Some t"
    by (auto split: option.splits if_splits)
  have "k = cs" using str_find_least [OF k(1) occ(1)] str_rfind_greatest [OF k(2) occ(1)] by simp
  with k(3) occ(2) u have "host_apply ps' ?content = Some t" by simp
  from "2.IH"(2) [OF ctx refl refl refl refl rest this] have "t = run_edits es ?content" by simp
  also have "?content = take (re_start e) content @ re_replacement e @ drop (re_end e) content"
    using context_replaced [OF u(3) u(1) u(4) u(5) u(6)] .
  finally show ?case by (simp add: run_edits_def)
qed

section \<open>Ranges without overlap\<close>

definition apart_edits :: "resolved_edit list \<Rightarrow> bool" where
  "apart_edits es \<longleftrightarrow>
     list_all (\<lambda>e. re_start e \<le> re_end e) es \<and> sorted_wrt (\<lambda>l r. \<not> ranges_overlap l r) es"

lemma ranges_overlap_sym:
  "re_start l \<le> re_end l \<Longrightarrow> re_start r \<le> re_end r \<Longrightarrow> ranges_overlap l r = ranges_overlap r l"
  by (auto simp: ranges_overlap_def)

lemma place_edit_set: "set (place_edit e es) = insert e (set es)"
  by (induction es) auto

lemma sort_edits_set: "set (sort_edits es) = set es"
  unfolding sort_edits_def by (induction es) (auto simp: place_edit_set)

lemma sort_edits_length: "length (sort_edits es) = length es"
proof -
  have "length (place_edit e es) = Suc (length es)" for e es by (induction es) auto
  then show ?thesis unfolding sort_edits_def by (induction es) auto
qed

lemma place_edit_wrt:
  assumes "sorted_wrt P es" and "\<And>x. x \<in> set es \<Longrightarrow> P e x \<and> P x e"
  shows "sorted_wrt P (place_edit e es)"
  using assms by (induction es) (auto simp: place_edit_set)

lemma edit_before_order:
  "edit_before x e \<Longrightarrow> \<not> edit_before e x"
  "\<not> edit_before y x \<Longrightarrow> \<not> edit_before x e \<Longrightarrow> \<not> edit_before y e"
  unfolding edit_before_def by linarith+

lemma place_edit_sorted:
  "sorted_wrt (\<lambda>d e. \<not> edit_before e d) es \<Longrightarrow> sorted_wrt (\<lambda>d e. \<not> edit_before e d) (place_edit e es)"
proof (induction es)
  case (Cons x es)
  show ?case
  proof (cases "edit_before x e")
    case True
    with Cons edit_before_order(1) [OF True] show ?thesis by (simp add: place_edit_set)
  next
    case False
    have "\<not> edit_before y e" if "y \<in> set es" for y
      using edit_before_order(2) [OF _ False, of y] that Cons.prems by simp
    with Cons.prems False show ?thesis by simp
  qed
qed simp

lemma sort_edits_sorted: "sorted_wrt (\<lambda>d e. \<not> edit_before e d) (sort_edits es)"
  unfolding sort_edits_def by (induction es) (auto intro: place_edit_sorted)

text \<open>In one file, ranges that do not overlap are handled from the last to the first.\<close>

lemma sort_edits_descending:
  assumes "apart_edits es" and "\<And>d e. d \<in> set es \<Longrightarrow> e \<in> set es \<Longrightarrow> re_file d = re_file e"
  shows "descending (sort_edits es)"
proof -
  let ?P = "\<lambda>l r. \<not> ranges_overlap l r"
  have le: "re_start e \<le> re_end e" if "e \<in> set es" for e using assms(1) that by (auto simp: apart_edits_def list_all_iff)
  have "sorted_wrt ?P (foldr place_edit es [])"
    using assms(1)
  proof (induction es)
    case (Cons e es)
    then have "\<not> ranges_overlap e x \<and> \<not> ranges_overlap x e" if "x \<in> set (foldr place_edit es [])" for x
      using that ranges_overlap_sym [of e x] sort_edits_set [of es] by (auto simp: apart_edits_def list_all_iff sort_edits_def)
    with Cons show ?case by (auto intro!: place_edit_wrt simp: apart_edits_def)
  qed simp
  then have apart: "sorted_wrt ?P (sort_edits es)" by (simp add: sort_edits_def)
  have "re_end e \<le> re_start d"
    if "\<not> ranges_overlap d e" "\<not> edit_before e d" "d \<in> set es" "e \<in> set es" for d e
    using that le [of d] le [of e] assms(2) [of d e] by (auto simp: ranges_overlap_def edit_before_def split: if_splits)
  then have "sorted_wrt (\<lambda>d e. re_end e \<le> re_start d) (sort_edits es)"
    using apart sort_edits_sorted [of es] nth_mem [of _ "sort_edits es", unfolded sort_edits_set]
    by (simp add: sorted_wrt_iff_nth_less)
  with le show ?thesis by (simp add: descending_def list_all_iff sort_edits_set)
qed

lemma build_file_edited:
  assumes "build_file key (sort_edits es) s = (ps, [])" and "host_apply ps s = Some t" and "apart_edits es"
    and "\<And>d e. d \<in> set es \<Longrightarrow> e \<in> set es \<Longrightarrow> re_file d = re_file e"
  shows "t = edited s es"
proof -
  have desc: "descending (sort_edits es)" by (rule sort_edits_descending [OF assms(3,4)])
  have "list_all (\<lambda>e. re_end e \<le> length s) (sort_edits es)"
  proof (cases "sort_edits es")
    case (Cons e rest)
    from assms(1) Cons obtain c where "unique_context s (re_start e) (re_end e) = Some c"
      by (auto simp: Let_def split: option.splits prod.splits)
    then have "re_end e \<le> length s" by (cases c) (auto dest: unique_context_Some)
    moreover have "re_end x \<le> re_end e" if "x \<in> set rest" for x
      using desc Cons that by (fastforce simp: descending_def list_all_iff)
    ultimately show ?thesis using Cons by (fastforce simp: list_all_iff)
  qed simp
  from run_edits_splice [OF desc this order_refl, of "[]"] build_file_host [OF assms(1,2)]
  show ?thesis by (simp add: edited_def)
qed

section \<open>From groups to patches\<close>

definition edits_for :: "string \<Rightarrow> resolved_edit list list \<Rightarrow> resolved_edit list" where
  "edits_for key gs = filter (\<lambda>e. adv_file (re_edit e) = key) (concat gs)"

definition patches_for :: "string \<Rightarrow> write_free_patch list \<Rightarrow> write_free_patch list" where
  "patches_for key ps = filter (\<lambda>p. wfp_file p = key) ps"

lemma edits_by_file_wf: "bt_wf (edits_by_file gs)"
proof -
  have "bt_wf m \<Longrightarrow> bt_wf (fold (\<lambda>e m. bt_insert (adv_file (re_edit e)) (f e m) m) es m)" for f es and m :: "(string, resolved_edit list) btree_map"
    by (induction es arbitrary: m) (auto simp: bt_wf_insert)
  note keep = this
  show ?thesis unfolding edits_by_file_def by (rule keep) simp
qed

lemma edits_by_file_get:
  "bt_get (edits_by_file gs) key = (if edits_for key gs = [] then None else Some (edits_for key gs))"
proof -
  have "bt_get (fold (\<lambda>e m. bt_insert (adv_file (re_edit e))
      ((case bt_get m (adv_file (re_edit e)) of None \<Rightarrow> [] | Some es \<Rightarrow> es) @ [e]) m) es m) key =
      (let new = filter (\<lambda>e. adv_file (re_edit e) = key) es in
       case bt_get m key of None \<Rightarrow> if new = [] then None else Some new | Some old \<Rightarrow> Some (old @ new))"
    for es and m :: "(string, resolved_edit list) btree_map"
    by (induction es arbitrary: m) (auto simp: bt_get_insert Let_def split: option.splits)
  then show ?thesis by (simp add: edits_by_file_def edits_for_def Let_def)
qed

lemma build_file_files: "build_file key es s = (ps, bad) \<Longrightarrow> p \<in> set ps \<Longrightarrow> wfp_file p = key"
  by (induction key es s arbitrary: ps bad rule: build_file.induct) (fastforce simp: Let_def split: option.splits prod.splits)+

lemma build_file_length: "build_file key es s = (ps, []) \<Longrightarrow> length ps = length es"
  by (induction key es s arbitrary: ps rule: build_file.induct) (auto simp: Let_def split: option.splits prod.splits)

lemma build_files_for:
  assumes "build_files snaps m = (ps, [])" and "distinct (map fst m)"
  shows "case map_of m key of
      None \<Rightarrow> patches_for key ps = []
    | Some es \<Rightarrow> es = [] \<and> patches_for key ps = [] \<or>
        (\<exists>s. bt_get snaps key = Some s \<and> build_file key (sort_edits es) s = (patches_for key ps, []))"
  using assms
proof (induction m arbitrary: ps)
  case Nil
  then show ?case by (simp add: patches_for_def)
next
  case (Cons entry m)
  obtain k es where entry: "entry = (k, es)" by (cases entry)
  obtain ps1 inv1 where one: "(case bt_get snaps k of None \<Rightarrow> ([], map re_group es)
      | Some content \<Rightarrow> build_file k (sort_edits es) content) = (ps1, inv1)" by fastforce
  obtain ps2 inv2 where rest: "build_files snaps m = (ps2, inv2)" by fastforce
  from Cons.prems(1) entry one rest have ps: "ps = ps1 @ ps2" "inv1 = []" "inv2 = []" by auto
  have ih: "case map_of m key of
      None \<Rightarrow> patches_for key ps2 = []
    | Some es \<Rightarrow> es = [] \<and> patches_for key ps2 = [] \<or>
        (\<exists>s. bt_get snaps key = Some s \<and> build_file key (sort_edits es) s = (patches_for key ps2, []))"
    using Cons.IH [of ps2] rest ps Cons.prems(2) by simp
  have files: "wfp_file p = k" if "p \<in> set ps1" for p
    using one that by (auto split: option.splits dest: build_file_files)
  show ?case
  proof (cases "key = k")
    case True
    then have "map_of m key = None" using Cons.prems(2) entry by (auto simp: map_of_eq_None_iff)
    with ih have "patches_for key ps2 = []" by simp
    moreover have "patches_for key ps1 = ps1" using files True by (auto simp: patches_for_def filter_id_conv)
    ultimately have "patches_for key ps = ps1" by (simp add: patches_for_def ps)
    with True entry one ps(2) show ?thesis by (cases "bt_get snaps k") auto
  next
    case False
    then have "patches_for key ps1 = []" using files by (auto simp: patches_for_def filter_empty_conv)
    then have "patches_for key ps = patches_for key ps2" by (simp add: patches_for_def ps)
    with ih False entry show ?thesis by (simp split: option.splits)
  qed
qed

section \<open>Where the groups come from\<close>

text \<open>
  The resolved edits of a suggestion, all of them, each in the file its name led to when it was resolved, with a range
  computed on the source that was read from that file.
\<close>

definition realizes_suggestion ::
  "source_world \<Rightarrow> component list \<Rightarrow> resolved_edit list \<Rightarrow> rustc_suggestion \<Rightarrow> bool" where
  "realizes_suggestion w root g sg \<longleftrightarrow>
     rcs_applicability sg = MachineApplicable \<and>
     list_all2 (\<lambda>r e. re_replacement r = rce_replacement e \<and>
       (\<exists>tick. resolve_regular_source w tick root (rce_file e) = Inr (re_file r, adv_file (re_edit r)) \<and>
          read_regular_source w tick (re_file r) = Inr (re_source r)) \<and>
       resolve_range e (re_source r) = Inr (re_start r, re_end r)) g (rcs_edits sg)"

text \<open>Below the root, canonical paths are made of plain names without backslashes.\<close>

definition tidy_world :: "source_world \<Rightarrow> bool" where
  "tidy_world w \<longleftrightarrow>
     (\<forall>root tick p q. sw_root w = Some root \<longrightarrow> sw_canonicalize w tick p = Some q \<longrightarrow> starts_with q root \<longrightarrow>
        (\<exists>ns. q = root @ map Normal ns \<and> (\<forall>n \<in> set ns. plain_name n \<and> CHR 0x5C \<notin> set n)))"

definition located :: "source_world \<Rightarrow> component list \<Rightarrow> resolved_edit \<Rightarrow> bool" where
  "located w root e \<longleftrightarrow>
     (\<exists>ns. re_file e = root @ map Normal ns \<and> (\<forall>n \<in> set ns. plain_name n) \<and> adv_file (re_edit e) = join ''/'' ns) \<and>
     (\<exists>tick. read_regular_source w tick (re_file e) = Inr (re_source e))"

lemma split_slash_append: "CHR ''/'' \<notin> set n \<Longrightarrow> split_slash (n @ CHR ''/'' # s) = n # split_slash s"
  by (induction n) auto

lemma split_slash_name: "CHR ''/'' \<notin> set n \<Longrightarrow> split_slash n = [n]"
  by (induction n) auto

lemma split_slash_join: "ns \<noteq> [] \<Longrightarrow> \<forall>n \<in> set ns. CHR ''/'' \<notin> set n \<Longrightarrow> split_slash (join ''/'' ns) = ns"
  by (induction "''/''" ns rule: join.induct) (auto simp: split_slash_append split_slash_name)

lemma join_plain_empty: "list_all plain_name ks \<Longrightarrow> join ''/'' ks = [] \<longleftrightarrow> ks = []"
proof (cases ks)
  case (Cons k rest)
  assume "list_all plain_name ks"
  then have "k \<noteq> []" using Cons by (simp add: plain_name_def)
  then show ?thesis using Cons by (cases rest) auto
qed simp

lemma join_inject:
  assumes "join ''/'' ms = join ''/'' ns" and "list_all plain_name ms" "list_all plain_name ns"
  shows "ms = ns"
proof (cases "ms = []")
  case True
  then have "join ''/'' ns = []" using assms(1) by simp
  then show ?thesis using join_plain_empty [OF assms(3)] True by simp
next
  case False
  then have "ns \<noteq> []" using join_plain_empty [OF assms(2)] assms(1) by auto
  have slash: "list_all plain_name ks \<Longrightarrow> \<forall>n \<in> set ks. CHR ''/'' \<notin> set n" for ks
    by (simp add: list_all_iff plain_name_def)
  have "ms = split_slash (join ''/'' ms)" using split_slash_join [OF False slash [OF assms(2)]] by simp
  also have "\<dots> = ns" using split_slash_join [OF \<open>ns \<noteq> []\<close> slash [OF assms(3)]] assms(1) by simp
  finally show ?thesis .
qed

lemma located_file:
  "located w root d \<Longrightarrow> located w root e \<Longrightarrow> adv_file (re_edit d) = adv_file (re_edit e) \<Longrightarrow> re_file d = re_file e"
  unfolding located_def using join_inject by (metis list_all_iff)

lemma slash_path_tidy:
  assumes "\<forall>n \<in> set ns. plain_name n \<and> CHR 0x5C \<notin> set n"
  shows "slash_path (map Normal ns) = join ''/'' ns"
proof -
  have "CHR 0x5C \<notin> set (join ''/'' ns)" using assms by (induction "''/''" ns rule: join.induct) auto
  moreover have "map component_name (map Normal ns) = ns" by (induction ns) (auto simp: component_name_def)
  ultimately show ?thesis by (auto simp: slash_path_def intro!: map_idI simp del: map_map)
qed

definition resolved_ok :: "source_world \<Rightarrow> component list \<Rightarrow> rustc_edit \<Rightarrow> resolved_edit \<Rightarrow> bool" where
  "resolved_ok w root e r \<longleftrightarrow>
     located w root r \<and>
     (\<exists>tick. resolve_regular_source w tick root (rce_file e) = Inr (re_file r, adv_file (re_edit r)) \<and>
        read_regular_source w tick (re_file r) = Inr (re_source r)) \<and> re_start r \<le> re_end r \<and> re_replacement r = rce_replacement e \<and>
     resolve_range e (re_source r) = Inr (re_start r, re_end r)"

lemma resolve_range_le: "resolve_range e s = Inr (a, b) \<Longrightarrow> a \<le> b"
  by (auto simp: resolve_range_def split: option.splits if_splits)

lemma resolve_edit_ok:
  assumes "resolve_edit w tick root grp e = (Inr r, tick')" and "tidy_world w" and "sw_root w = Some root"
  shows "resolved_ok w root e r"
proof -
  from assms(1) obtain path relative source where p: "resolve_regular_source w tick root (rce_file e) = Inr (path, relative)"
    and rng: "resolve_range e source = Inr (re_start r, re_end r)"
    and r: "re_file r = path" "adv_file (re_edit r) = relative" "re_source r = source" "re_replacement r = rce_replacement e"
      "read_regular_source w tick path = Inr source"
    by (auto simp: resolve_edit_def split: if_splits sum.splits prod.splits)
  from p obtain candidate where c: "sw_canonicalize w tick candidate = Some path" "starts_with path root"
    "relative = slash_path (drop (length root) path)"
    by (auto simp: resolve_regular_source_def Let_def split: if_splits option.splits)
  from assms(2,3) c obtain ns where ns: "path = root @ map Normal ns" "\<forall>n \<in> set ns. plain_name n \<and> CHR 0x5C \<notin> set n"
    unfolding tidy_world_def by blast
  then have "relative = join ''/'' ns" using c(3) slash_path_tidy by simp
  with ns r have "located w root r" by (auto simp: located_def)
  with p rng r resolve_range_le [OF rng] show ?thesis by (auto simp: resolved_ok_def)
qed

lemma resolve_edits_ok:
  assumes "resolve_edits w root grp es acc bytes tick = (Inr rs, bytes', tick')" and "tidy_world w" and "sw_root w = Some root"
  shows "\<exists>new. rs = acc @ new \<and> list_all2 (\<lambda>r e. resolved_ok w root e r) new es"
  using assms(1)
proof (induction es arbitrary: acc bytes tick)
  case (Cons e es)
  from Cons.prems obtain r tick1 bytes1 where one: "resolve_edit w tick root grp e = (Inr r, tick1)"
    and rest: "resolve_edits w root grp es (acc @ [r]) bytes1 tick1 = (Inr rs, bytes', tick')"
    by (auto simp: Let_def split: prod.splits sum.splits if_splits)
  from Cons.IH [OF rest] obtain new where "rs = acc @ [r] @ new" "list_all2 (\<lambda>r e. resolved_ok w root e r) new es" by auto
  with resolve_edit_ok [OF one assms(2,3)] show ?case by (intro exI [of _ "r # new"]) simp
qed simp

definition group_fine :: "source_world \<Rightarrow> component list \<Rightarrow> rustc_suggestion list \<Rightarrow> resolved_edit list \<Rightarrow> bool" where
  "group_fine w root sgs g \<longleftrightarrow> apart_edits g \<and> list_all (located w root) g \<and> (\<exists>sg \<in> set sgs. realizes_suggestion w root g sg)"

lemma first_internal_None: "first_internal_overlap es = None \<Longrightarrow> sorted_wrt (\<lambda>l r. \<not> ranges_overlap l r) es"
  by (induction es) (auto simp: find_None_iff split: option.splits)

lemma collect_suggestion_fine:
  assumes "tidy_world w" "sw_root w = Some root" and "sg \<in> set sgs"
    and "list_all (group_fine w root sgs) (pks_groups st)"
  shows "list_all (group_fine w root sgs) (pks_groups (collect_suggestion w root sg st))"
proof (cases "pks_groups (collect_suggestion w root sg st) = pks_groups st")
  case False
  then obtain edits bytes tick where
    res: "resolve_edits w root (length (pks_groups st)) (rcs_edits sg) [] (pks_source_bytes st) (pks_tick st) = (Inr edits, bytes, tick)"
    and no: "first_internal_overlap edits = None" and app: "rcs_applicability sg = MachineApplicable"
    and g: "pks_groups (collect_suggestion w root sg st) = pks_groups st @ [edits]"
    by (auto simp: collect_suggestion_def Let_def split: if_splits prod.splits sum.splits option.splits)
  from resolve_edits_ok [OF res assms(1,2)] have all: "list_all2 (\<lambda>r e. resolved_ok w root e r) edits (rcs_edits sg)" by simp
  then have "realizes_suggestion w root edits sg"
    using app by (auto simp: realizes_suggestion_def resolved_ok_def elim!: list_all2_mono)
  moreover have "list_all (\<lambda>r. located w root r \<and> re_start r \<le> re_end r) edits"
    using all by (auto simp: list_all_length list_all2_conv_all_nth resolved_ok_def)
  ultimately have "group_fine w root sgs edits"
    using first_internal_None [OF no] assms(3) by (auto simp: group_fine_def apart_edits_def list_all_iff)
  with g assms(4) show ?thesis by simp
qed (use assms(4) in simp)

lemma collect_groups_fine:
  assumes "tidy_world w" "sw_root w = Some root"
  shows "list_all (group_fine w root (concat (map dia_suggestions ds))) (pks_groups (collect_groups w root ds))"
proof -
  have "set xs \<subseteq> set sgs \<Longrightarrow> list_all (group_fine w root sgs) (pks_groups st) \<Longrightarrow>
      list_all (group_fine w root sgs) (pks_groups (fold (collect_suggestion w root) xs st))" for xs sgs st
  proof (induction xs arbitrary: st)
    case (Cons x xs)
    then show ?case using collect_suggestion_fine [OF assms, of x sgs st] by simp
  qed simp
  then show ?thesis by (simp add: collect_groups_def)
qed

section \<open>The groups of the package\<close>

text \<open>Every group is one whole suggestion, and no two edits of the package overlap.\<close>

definition groups_ok :: "source_world \<Rightarrow> component list \<Rightarrow> rustc_suggestion list \<Rightarrow> resolved_edit list list \<Rightarrow> bool" where
  "groups_ok w root sgs gs \<longleftrightarrow>
     apart_edits (concat gs) \<and> list_all (located w root) (concat gs) \<and>
     list_all (\<lambda>g. \<exists>sg \<in> set sgs. realizes_suggestion w root g sg) gs"

lemma apart_append:
  "apart_edits (xs @ ys) \<longleftrightarrow>
     apart_edits xs \<and> apart_edits ys \<and> (\<forall>x \<in> set xs. \<forall>y \<in> set ys. \<not> ranges_overlap x y)"
  by (auto simp: apart_edits_def sorted_wrt_append)

lemma first_conflict_None:
  "first_conflict accepted g = None \<Longrightarrow> x \<in> set accepted \<Longrightarrow> y \<in> set g \<Longrightarrow> \<not> ranges_overlap x y"
  by (induction accepted) (auto simp: find_None_iff split: option.splits)

lemma accept_groups_ok:
  assumes "accept_groups gs (concat kept) kept skipped = (valid, skipped')"
    and "groups_ok w root sgs kept" and "list_all (group_fine w root sgs) gs"
  shows "groups_ok w root sgs valid"
  using assms
proof (induction gs arbitrary: kept skipped)
  case (Cons g gs)
  show ?case
  proof (cases "first_conflict (concat kept) g")
    case None
    have "groups_ok w root sgs (kept @ [g])"
      using Cons.prems(2,3) first_conflict_None [OF None] by (auto simp: groups_ok_def group_fine_def apart_append)
    with Cons.IH [of "kept @ [g]" skipped] Cons.prems None show ?thesis by simp
  next
    case (Some c)
    with Cons show ?thesis by simp
  qed
qed simp

lemma subseq_concat: "subseq gs hs \<Longrightarrow> subseq (concat gs) (concat hs)"
  by (induction gs hs rule: list_emb.induct) (auto intro: list_emb_append_mono list_emb_append2)

lemma groups_ok_subseq:
  assumes "subseq gs hs" and "groups_ok w root sgs hs"
  shows "groups_ok w root sgs gs"
proof -
  have sub: "subseq (concat gs) (concat hs)" by (rule subseq_concat [OF assms(1)])
  have "sorted_wrt P xs" if "subseq xs ys" "sorted_wrt P ys" for P and xs ys :: "resolved_edit list"
    using that list_emb_set by (induction xs ys rule: list_emb.induct) fastforce+
  with sub assms(2) have "sorted_wrt (\<lambda>l r. \<not> ranges_overlap l r) (concat gs)"
    by (auto simp: groups_ok_def apart_edits_def)
  moreover have "set gs \<subseteq> set hs" "set (concat gs) \<subseteq> set (concat hs)"
    using assms(1) sub by (auto dest: list_emb_set)
  ultimately show ?thesis
    using assms(2) unfolding groups_ok_def apart_edits_def list_all_iff by blast
qed

text \<open>Numbering the groups anew changes nothing but the numbers.\<close>

definition unnumbered :: "resolved_edit \<Rightarrow> resolved_edit" where
  "unnumbered e = e\<lparr>re_group := 0\<rparr>"

lemma unnumbered_reindex: "map (map unnumbered) (reindex_groups gs) = map (map unnumbered) gs"
proof -
  have "map (map unnumbered) (reindex_from n gs) = map (map unnumbered) gs" for n
    by (induction n gs rule: reindex_from.induct) (auto simp: unnumbered_def)
  then show ?thesis by (simp add: reindex_groups_def)
qed

lemma groups_ok_unnumbered: "groups_ok w root sgs (map (map unnumbered) gs) = groups_ok w root sgs gs"
proof -
  have "apart_edits (map unnumbered es) = apart_edits es" for es
    by (simp add: apart_edits_def list_all_iff sorted_wrt_map ranges_overlap_def unnumbered_def)
  moreover have "list_all (located w root) (map unnumbered es) = list_all (located w root) es" for es
    by (simp add: list_all_iff located_def unnumbered_def)
  moreover have "realizes_suggestion w root (map unnumbered g) sg = realizes_suggestion w root g sg" for g sg
    by (simp add: realizes_suggestion_def list_all2_map1 unnumbered_def)
  ultimately show ?thesis by (simp add: groups_ok_def list_all_iff flip: map_concat)
qed

lemma groups_ok_reindex: "groups_ok w root sgs (reindex_groups gs) = groups_ok w root sgs gs"
  by (metis groups_ok_unnumbered unnumbered_reindex)

section \<open>Snapshots\<close>

text \<open>An edit whose file was read again and found equal to the snapshot of the package.\<close>

definition held :: "source_world \<Rightarrow> snapshots \<Rightarrow> resolved_edit \<Rightarrow> bool" where
  "held w snaps e \<longleftrightarrow>
     (\<exists>tick s. bt_get snaps (adv_file (re_edit e)) = Some s \<and> read_regular_source w tick (re_file e) = Inr s)"

lemma held_unnumbered: "list_all (held w snaps) (concat (map (map unnumbered) gs)) = list_all (held w snaps) (concat gs)"
  by (simp add: list_all_iff held_def unnumbered_def)

lemma held_reindex: "list_all (held w snaps) (concat (reindex_groups gs)) = list_all (held w snaps) (concat gs)"
  by (metis held_unnumbered unnumbered_reindex)

lemma stable_group_held: "stable_group w snaps g tick = (True, tick') \<Longrightarrow> list_all (held w snaps) g"
proof (induction g arbitrary: tick)
  case (Cons e es)
  then show ?case by (auto simp: held_def split: sum.splits if_splits)
qed simp

lemma snapshot_groups_subseq:
  "snapshot_groups w given gs snaps tick kept skipped = (kept', skipped', snaps', tick') \<Longrightarrow>
   \<exists>more. kept' = kept @ more \<and> subseq more gs"
proof (induction gs arbitrary: snaps tick kept skipped)
  case (Cons g gs)
  obtain complete snaps1 tick1 where f: "fold (snapshot_edit w given) g (True, snaps, tick) = (complete, snaps1, tick1)"
    using prod_cases3 by blast
  show ?case
  proof (cases complete)
    case True
    with Cons.prems f Cons.IH [of snaps1 tick1 "kept @ [g]" skipped]
    show ?thesis by (auto intro: subseq_Cons2)
  next
    case False
    with Cons.prems f Cons.IH [of snaps1 tick1 kept "skipped @ skip_edits SnapshotChanged (map re_edit g)"]
    show ?thesis by auto
  qed
qed simp

lemma stable_groups_subseq:
  "stable_groups w snaps gs tick kept skipped = (kept', skipped') \<Longrightarrow>
   \<exists>more. kept' = kept @ more \<and> subseq more gs \<and> list_all (held w snaps) (concat more)"
proof (induction gs arbitrary: tick kept skipped)
  case (Cons g gs)
  obtain stable tick1 where f: "stable_group w snaps g tick = (stable, tick1)" by fastforce
  show ?case
  proof (cases stable)
    case True
    with Cons.prems f have "stable_groups w snaps gs tick1 (kept @ [g]) skipped = (kept', skipped')" by simp
    from Cons.IH [OF this] obtain more where "kept' = (kept @ [g]) @ more" "subseq more gs"
      "list_all (held w snaps) (concat more)" by blast
    with stable_group_held f True show ?thesis by (intro exI [of _ "g # more"]) auto
  next
    case False
    with Cons.prems f Cons.IH [of tick1 kept "skipped @ skip_edits ChangedAfterSnapshot (map re_edit g)"]
    show ?thesis by auto
  qed
qed simp

section \<open>The patches of the package\<close>

lemma split_invalid_subseq: "split_invalid n invalid gs = (kept, skipped) \<Longrightarrow> subseq kept gs"
  by (induction n invalid gs arbitrary: kept skipped rule: split_invalid.induct)
    (auto simp: Let_def split: prod.splits if_splits)

lemma build_patches_for:
  assumes "pbd_invalid_groups (build_patches gs snaps) = []"
    and ok: "groups_ok w root sgs gs"
  shows "length (patches_for key (pbd_patches (build_patches gs snaps))) = length (edits_for key gs)"
    and "bt_get snaps key = Some s \<Longrightarrow>
      host_apply (patches_for key (pbd_patches (build_patches gs snaps))) s = Some t \<Longrightarrow> t = edited s (edits_for key gs)"
proof -
  obtain ps bad where b: "build_files snaps (edits_by_file gs) = (ps, bad)" by fastforce
  have "remdups_adj (sort bad) = []" using assms(1) b by (simp add: build_patches_def)
  then have "length (sort bad) = 0" by (simp only: remdups_adj_Nil_iff list.size)
  then have bad: "bad = []" by simp
  have ps: "pbd_patches (build_patches gs snaps) = ps" using b by (simp add: build_patches_def)
  have dist: "distinct (map fst (edits_by_file gs))" using edits_by_file_wf by (simp add: bt_wf_def strict_sorted_iff)
  have mo: "map_of (edits_by_file gs) key = (if edits_for key gs = [] then None else Some (edits_for key gs))"
    using edits_by_file_get edits_by_file_wf bt_get_map_of by metis
  have cases: "edits_for key gs = [] \<and> patches_for key ps = [] \<or>
      (\<exists>s. bt_get snaps key = Some s \<and> build_file key (sort_edits (edits_for key gs)) s = (patches_for key ps, []))"
    using build_files_for [OF b [unfolded bad] dist, of key] mo by (auto split: if_splits)
  show "length (patches_for key (pbd_patches (build_patches gs snaps))) = length (edits_for key gs)"
    using cases build_file_length sort_edits_length ps by fastforce
  assume snap: "bt_get snaps key = Some s" and h: "host_apply (patches_for key (pbd_patches (build_patches gs snaps))) s = Some t"
  show "t = edited s (edits_for key gs)"
  proof (cases "edits_for key gs = []")
    case True
    then have "t = s" using cases h ps by (auto simp: sort_edits_def)
    with True show ?thesis by (simp add: edited_def sort_edits_def byte_slice_def)
  next
    case False
    then have "build_file key (sort_edits (edits_for key gs)) s = (patches_for key ps, [])" using cases snap by auto
    moreover have "apart_edits (edits_for key gs)"
      using ok by (auto simp: groups_ok_def apart_edits_def edits_for_def list_all_iff intro: sorted_wrt_filter)
    moreover have "re_file d = re_file e" if "d \<in> set (edits_for key gs)" "e \<in> set (edits_for key gs)" for d e
      using that ok located_file [of w root d e] by (auto simp: groups_ok_def edits_for_def list_all_iff)
    ultimately show ?thesis using build_file_edited h ps by blast
  qed
qed

lemma finish_package_build:
  assumes "groups_ok w root sgs gs" and "list_all (held w snaps) (concat gs)"
  shows "\<exists>groups. groups_ok w root sgs groups \<and> list_all (held w snaps) (concat groups) \<and>
    pbd_invalid_groups (build_patches groups snaps) = [] \<and>
    wpk_patches (finish_package gs snaps skipped) = pbd_patches (build_patches groups snaps)"
proof -
  obtain kept more where sp: "split_invalid 0 (pbd_invalid_groups (build_patches gs snaps)) gs = (kept, more)" by fastforce
  have sub: "subseq kept gs" by (rule split_invalid_subseq [OF sp])
  have kept: "groups_ok w root sgs (reindex_groups kept)" using groups_ok_subseq [OF sub assms(1)] by (simp add: groups_ok_reindex)
  have "set (concat kept) \<subseteq> set (concat gs)"
    using list_emb_set [OF subseq_concat [OF sub]] by auto
  then have held: "list_all (held w snaps) (concat (reindex_groups kept))"
    using assms(2) by (simp only: held_reindex) (simp only: list_all_iff subset_iff, blast)
  have none: "groups_ok w root sgs []" by (simp add: groups_ok_def apart_edits_def)
  have empty: "build_patches [] snaps = \<lparr>pbd_patches = [], pbd_invalid_groups = []\<rparr>"
    by (simp add: build_patches_def edits_by_file_def)
  show ?thesis
  proof (cases "pbd_invalid_groups (build_patches gs snaps) = []")
    case True
    with assms show ?thesis by (auto simp: finish_package_def Let_def)
  next
    case False
    show ?thesis
    proof (cases "pbd_invalid_groups (build_patches (reindex_groups kept) snaps) = []")
      case True
      with False kept held sp show ?thesis
        by (intro exI [of _ "reindex_groups kept"]) (simp add: finish_package_def Let_def)
    next
      case bad: False
      with False sp none empty show ?thesis
        by (intro exI [of _ "[]"]) (simp add: finish_package_def Let_def)
    qed
  qed
qed

text \<open>
  C22: What a suggestion package is, on a file system whose canonical paths below the root are plain names without
  backslashes. Its patches come from groups that are whole machine-applicable suggestions: each edit has the
  replacement of the compiler's edit, belongs to the file that edit's name led to and has its range computed on the
  source read there, and the snapshot of that file was read back unchanged. Each file has as many patches as edits, and
  whenever the host can apply the patches of a file one after the other (each old string occurs exactly once), the
  result is the snapshot with all ranges of the file replaced at once. That the host can apply them is not promised:
  \<open>overlapping_context_passes_for_unique\<close> of \<open>Suggestion_Scenario\<close> is a package it refuses.
\<close>

theorem suggestion_patches_compose:
  assumes "tidy_world w"
  shows "\<exists>groups snaps.
    list_all (\<lambda>g. \<exists>root. \<exists>sg \<in> set (concat (map dia_suggestions ds)). sw_root w = Some root \<and> realizes_suggestion w root g sg) groups \<and>
    list_all (\<lambda>e. held w snaps e \<and> (\<exists>tick. read_regular_source w tick (re_file e) = Inr (re_source e))) (concat groups) \<and>
    (\<forall>f. length (patches_for f (wpk_patches (package_internal w given ds))) = length (edits_for f groups)) \<and>
    (\<forall>f s t. bt_get snaps f = Some s \<longrightarrow>
       host_apply (patches_for f (wpk_patches (package_internal w given ds))) s = Some t \<longrightarrow>
       t = edited s (edits_for f groups))"
proof (cases "sw_guard w \<and> sw_root w \<noteq> None")
  case False
  then have none: "wpk_patches (package_internal w given ds) = []" by (auto simp: package_internal_def split: option.splits)
  show ?thesis
    by (rule exI [of _ "[]"], rule exI [of _ "[]"]) (simp add: none patches_for_def edits_for_def)
next
  case True
  then obtain root where root: "sw_root w = Some root" by blast
  let ?sgs = "concat (map dia_suggestions ds)" and ?st = "collect_groups w root ds"
  obtain valid skipped where acc: "accept_groups (pks_groups ?st) [] [] (pks_skipped ?st) = (valid, skipped)" by fastforce
  obtain snapped skipped2 snaps tick where snap:
    "snapshot_groups w given (reindex_groups valid) [] (pks_tick ?st) [] skipped = (snapped, skipped2, snaps, tick)"
    using prod_cases4 by blast
  obtain stable skipped3 where stab: "stable_groups w snaps snapped tick [] skipped2 = (stable, skipped3)" by fastforce
  have pkg: "package_internal w given ds = finish_package (reindex_groups stable) snaps skipped3"
    using True root acc snap stab by (simp add: package_internal_def Let_def)
  have "groups_ok w root ?sgs valid"
  proof (rule accept_groups_ok)
    show "accept_groups (pks_groups ?st) (concat []) [] (pks_skipped ?st) = (valid, skipped)" using acc by simp
    show "groups_ok w root ?sgs []" by (simp add: groups_ok_def apart_edits_def)
    show "list_all (group_fine w root ?sgs) (pks_groups ?st)" by (rule collect_groups_fine [OF assms root])
  qed
  then have "groups_ok w root ?sgs (reindex_groups valid)" by (simp add: groups_ok_reindex)
  moreover have "subseq snapped (reindex_groups valid)" using snapshot_groups_subseq [OF snap] by auto
  moreover have "subseq stable snapped" and held: "list_all (held w snaps) (concat stable)"
    using stable_groups_subseq [OF stab] by auto
  ultimately have "groups_ok w root ?sgs stable" using groups_ok_subseq by blast
  then have "groups_ok w root ?sgs (reindex_groups stable)" by (simp add: groups_ok_reindex)
  from finish_package_build [OF this, of snaps skipped3] held obtain groups where
    ok: "groups_ok w root ?sgs groups" and h: "list_all (held w snaps) (concat groups)"
    and clean: "pbd_invalid_groups (build_patches groups snaps) = []"
    and ps: "wpk_patches (package_internal w given ds) = pbd_patches (build_patches groups snaps)"
    by (auto simp: held_reindex pkg)
  show ?thesis
  proof (rule exI [of _ groups], rule exI [of _ snaps], intro conjI)
    show "list_all (\<lambda>g. \<exists>root. \<exists>sg \<in> set ?sgs. sw_root w = Some root \<and> realizes_suggestion w root g sg) groups"
      using ok root by (simp add: groups_ok_def)
    show "list_all (\<lambda>e. held w snaps e \<and> (\<exists>tick. read_regular_source w tick (re_file e) = Inr (re_source e))) (concat groups)"
      using ok h unfolding groups_ok_def located_def list_all_iff by blast
    show "\<forall>f. length (patches_for f (wpk_patches (package_internal w given ds))) = length (edits_for f groups)"
      using build_patches_for(1) [OF clean ok] unfolding ps by blast
    show "\<forall>f s t. bt_get snaps f = Some s \<longrightarrow>
       host_apply (patches_for f (wpk_patches (package_internal w given ds))) s = Some t \<longrightarrow>
       t = edited s (edits_for f groups)"
      using build_patches_for(2) [OF clean ok] unfolding ps by blast
  qed
qed

end
