(* ===== verification/Suggestion_Scenario.thy ===== *)
theory Suggestion_Scenario
  imports Suggestion_Properties
begin

text \<open>
  Suggestion packages on concrete sources: a workspace with one file, the packages of compiler edits of that file,
  and what \<open>plan_patches\<close> says to their patches.
\<close>

definition one_file_world :: "string \<Rightarrow> source_world" where
  "one_file_world content =
     \<lparr>sw_root = Some [RootDir, Normal ''w''], sw_guard = True,
      sw_kind = (\<lambda>_ p. if p = [RootDir, Normal ''w'', Normal ''a.rs''] then Some KindFile else None),
      sw_canonicalize = (\<lambda>_ p. if p = [RootDir, Normal ''w'', Normal ''a.rs''] then Some p else None),
      sw_read_file = (\<lambda>_ _. Inr content)\<rparr>"

definition line_edit :: "nat \<Rightarrow> nat \<Rightarrow> nat \<Rightarrow> string \<Rightarrow> rustc_edit" where
  "line_edit line from_column to_column new_text =
     \<lparr>rce_file = ''a.rs'', rce_line_start = line, rce_line_end = line, rce_column_start = from_column,
      rce_column_end = to_column, rce_replacement = new_text, rce_byte_start = None, rce_byte_end = None,
      rce_range_complete = True\<rparr>"

definition suggests :: "rustc_edit list \<Rightarrow> diagnostic" where
  "suggests es =
     \<lparr>dia_package_id = None, dia_target_name = None, dia_code = None, dia_level = LevelWarning,
      dia_file = Some ''a.rs'', dia_line = Some 1, dia_message = ''m'', dia_root_key = None, dia_rendered = None,
      dia_spans = [], dia_children = [],
      dia_suggestions = [\<lparr>rcs_message = ''m'', rcs_applicability = MachineApplicable, rcs_edits = es\<rparr>],
      dia_untrusted_data = True\<rparr>"

lemma one_file_tidy: "tidy_world (one_file_world content)"
proof -
  have "\<exists>ns. [RootDir, Normal ''w'', Normal ''a.rs''] = [RootDir, Normal ''w''] @ map Normal ns \<and>
      (\<forall>n \<in> set ns. plain_name n \<and> CHR 0x5C \<notin> set n)"
    by (rule exI [of _ "[''a.rs'']"]) (simp add: plain_name_def)
  then show ?thesis by (auto simp: tidy_world_def one_file_world_def)
qed

definition two_lines :: string where "two_lines = ''ab'' @ [CHR 0x0A] @ ''cd'' @ [CHR 0x0A]"

lemma two_line_package:
  "wpk_patches (package_internal (one_file_world two_lines) None [suggests [line_edit 1 1 2 ''xx'', line_edit 2 2 3 ''y'']]) =
   [\<lparr>wfp_file = ''a.rs'', wfp_old_string = ''cd'' @ [CHR 0x0A], wfp_new_string = ''cy'' @ [CHR 0x0A]\<rparr>,
    \<lparr>wfp_file = ''a.rs'', wfp_old_string = ''ab'' @ [CHR 0x0A], wfp_new_string = ''xxb'' @ [CHR 0x0A]\<rparr>]"
  by code_simp


lemma two_line_applied:
  "host_apply (patches_for ''a.rs''
     (wpk_patches (package_internal (one_file_world two_lines) None [suggests [line_edit 1 1 2 ''xx'', line_edit 2 2 3 ''y'']])))
     two_lines = Some (''xxb'' @ [CHR 0x0A] @ ''cy'' @ [CHR 0x0A])"
  unfolding two_line_package by code_simp

text \<open>Both patches of the package apply, and the file is the snapshot with both ranges replaced.\<close>

theorem suggestion_patches_compose_witness:
  "\<exists>groups. list_all (\<lambda>g. realizes_suggestion (one_file_world two_lines) [RootDir, Normal ''w''] g
       \<lparr>rcs_message = ''m'', rcs_applicability = MachineApplicable,
        rcs_edits = [line_edit 1 1 2 ''xx'', line_edit 2 2 3 ''y'']\<rparr>) groups \<and>
     length (edits_for ''a.rs'' groups) = 2 \<and>
     edited two_lines (edits_for ''a.rs'' groups) = ''xxb'' @ [CHR 0x0A] @ ''cy'' @ [CHR 0x0A]"
proof -
  let ?w = "one_file_world two_lines" and ?d = "suggests [line_edit 1 1 2 ''xx'', line_edit 2 2 3 ''y'']"
  let ?ps = "patches_for ''a.rs'' (wpk_patches (package_internal ?w None [?d]))"
  from suggestion_patches_compose [OF one_file_tidy, of "[?d]" two_lines None]
  obtain groups snaps where
    whole: "list_all (\<lambda>g. \<exists>root. \<exists>sg \<in> set (concat (map dia_suggestions [?d])). sw_root ?w = Some root \<and>
      realizes_suggestion ?w root g sg) groups"
    and held: "list_all (\<lambda>e. held ?w snaps e \<and> (\<exists>tick. read_regular_source ?w tick (re_file e) = Inr (re_source e))) (concat groups)"
    and count: "length ?ps = length (edits_for ''a.rs'' groups)"
    and compose: "\<And>s. bt_get snaps ''a.rs'' = Some s \<Longrightarrow>
      host_apply ?ps s = Some (''xxb'' @ [CHR 0x0A] @ ''cy'' @ [CHR 0x0A]) \<Longrightarrow>
      ''xxb'' @ [CHR 0x0A] @ ''cy'' @ [CHR 0x0A] = edited s (edits_for ''a.rs'' groups)"
    by blast
  have two: "length (edits_for ''a.rs'' groups) = 2" using count unfolding two_line_package by (simp add: patches_for_def)
  then have "hd (edits_for ''a.rs'' groups) \<in> set (edits_for ''a.rs'' groups)" by (intro hd_in_set) auto
  then obtain e where e: "e \<in> set (concat groups)" "adv_file (re_edit e) = ''a.rs''"
    unfolding edits_for_def by (simp only: set_filter mem_Collect_eq) blast
  have "bt_get snaps ''a.rs'' = Some two_lines"
    using held [unfolded list_all_iff, rule_format, OF e(1)] e(2)
    by (auto simp: held_def read_regular_source_def one_file_world_def split: if_splits)
  from compose [OF this two_line_applied] two whole show ?thesis
    by (intro exI [of _ groups]) (auto simp: suggests_def one_file_world_def)
qed

definition three_lines :: string where
  "three_lines = [CHR ''a'', CHR 0x0A, CHR ''a'', CHR 0x0A, CHR ''a'', CHR 0x0A]"

text \<open>
  \<open>occurrence_count\<close> counts occurrences that do not overlap, so a context that overlaps a copy of itself passes
  for unique: in a file of three equal lines a fix of the last one is packaged with the last two lines as old
  string, although these occur first one line earlier, where replacing them fixes the second line, and
  \<open>plan_patches\<close> refuses the patch as repeated.
\<close>

theorem overlapping_context_passes_for_unique:
  "wpk_patches (package_internal (one_file_world three_lines) None [suggests [line_edit 3 1 2 ''b'']]) =
     [\<lparr>wfp_file = ''a.rs'', wfp_old_string = [CHR ''a'', CHR 0x0A, CHR ''a'', CHR 0x0A],
       wfp_new_string = [CHR ''a'', CHR 0x0A, CHR ''b'', CHR 0x0A]\<rparr>] \<and>
   str_find three_lines [CHR ''a'', CHR 0x0A, CHR ''a'', CHR 0x0A] = Some 0 \<and>
   patch_text ''a.rs'' [CHR ''a'', CHR 0x0A, CHR ''a'', CHR 0x0A] [CHR ''a'', CHR 0x0A, CHR ''b'', CHR 0x0A] three_lines [] =
     Inl (OldStringRepeated ''a.rs'')"
proof (intro conjI)
  show "wpk_patches (package_internal (one_file_world three_lines) None [suggests [line_edit 3 1 2 ''b'']]) =
     [\<lparr>wfp_file = ''a.rs'', wfp_old_string = [CHR ''a'', CHR 0x0A, CHR ''a'', CHR 0x0A],
       wfp_new_string = [CHR ''a'', CHR 0x0A, CHR ''b'', CHR 0x0A]\<rparr>]" by code_simp
  show "str_find three_lines [CHR ''a'', CHR 0x0A, CHR ''a'', CHR 0x0A] = Some 0" by code_simp
  show "patch_text ''a.rs'' [CHR ''a'', CHR 0x0A, CHR ''a'', CHR 0x0A] [CHR ''a'', CHR 0x0A, CHR ''b'', CHR 0x0A] three_lines [] =
     Inl (OldStringRepeated ''a.rs'')" by code_simp
qed

text \<open>
  Two fixes of one line are packaged as two patches whose old strings are that whole line, the second on the text
  the first leaves. A host that applies them in turn gets both fixes; a change request with both is refused,
  because the second patch overlaps the range the first one wrote.
\<close>

theorem fixes_of_one_line_refused_as_one_change:
  "let ps = wpk_patches (package_internal (one_file_world two_lines) None
         [suggests [line_edit 1 1 2 ''x''], suggests [line_edit 1 2 3 ''y'']])
   in host_apply ps two_lines = Some (''xy'' @ [CHR 0x0A] @ ''cd'' @ [CHR 0x0A]) \<and>
      (case patch_text ''a.rs'' (wfp_old_string (ps ! 0)) (wfp_new_string (ps ! 0)) two_lines [] of
         Inr (t, rs) \<Rightarrow>
           patch_text ''a.rs'' (wfp_old_string (ps ! 1)) (wfp_new_string (ps ! 1)) t rs = Inl (OverlappingEdits ''a.rs'')
       | Inl _ \<Rightarrow> False)"
  by code_simp

end
