(* ===== verification/Diagnostic_Parser.thy ===== *)
theory Diagnostic_Parser
  imports Diagnostic_Model
begin

text \<open>
  Reading Cargo's output (\<open>diagnostics/parser.rs\<close>): the escape stripper for diagnostic texts, the conversion of
  decoded messages into diagnostics, the one-line human format, and the collection of the diagnostics of an
  output without repetitions. Decoding a JSON line into a message is the derived \<open>serde\<close> decoder and an argument;
  so is the Unicode table that says which characters \<open>{:?}\<close> escapes.
\<close>

section \<open>Texts\<close>

fun clean_char :: "escape_state \<Rightarrow> string \<Rightarrow> string \<times> escape_state" where
  "clean_char EscNormal ch =
     (if ch = esc_char then ([], EscEscape)
      else if ch = [CHR 0xC2, CHR 0x9B] then ([], EscCsi)
      else if ch = [CHR 0xC2, CHR 0x9D] then ([], EscOsc)
      else if layout_char ch then (ch, EscNormal)
      else if is_control ch then ([], EscNormal)
      else (ch, EscNormal))"
| "clean_char EscEscape ch =
     ([], if ch = ''['' then EscCsi else if ch = '']'' then EscOsc else EscNormal)"
| "clean_char EscCsi ch = ([], if csi_final ch then EscNormal else EscCsi)"
| "clean_char EscOsc ch =
     ([], if ch = [CHR 0x07] \<or> ch = [CHR 0xC2, CHR 0x9C] then EscNormal
          else if ch = esc_char then EscOscEscape else EscOsc)"
| "clean_char EscOscEscape ch =
     ([], if ch = [CHR 0x5C] \<or> ch = [CHR 0xC2, CHR 0x9C] then EscNormal
          else if ch = esc_char then EscOscEscape else EscOsc)"

fun clean_chars :: "escape_state \<Rightarrow> string list \<Rightarrow> string" where
  "clean_chars st [] = []"
| "clean_chars st (ch # chs) = (case clean_char st ch of (kept, st') \<Rightarrow> kept @ clean_chars st' chs)"

definition sanitize_text :: "string \<Rightarrow> string" where
  "sanitize_text s = clean_chars EscNormal (chars s)"

text \<open>\<open>split(c)\<close>, \<open>strip_prefix\<close>, \<open>strip_suffix\<close> and \<open>split_whitespace\<close> of the standard library.\<close>

fun split_char :: "char \<Rightarrow> string \<Rightarrow> string list" where
  "split_char c [] = [[]]"
| "split_char c (x # s) =
     (if x = c then [] # split_char c s
      else (case split_char c s of [] \<Rightarrow> [[x]] | p # ps \<Rightarrow> (x # p) # ps))"

definition strip_prefix :: "string \<Rightarrow> string \<Rightarrow> string option" where
  "strip_prefix p s = (if starts_with s p then Some (drop (length p) s) else None)"

definition strip_suffix :: "string \<Rightarrow> string \<Rightarrow> string option" where
  "strip_suffix p s = (if starts_with (rev s) (rev p) then Some (take (length s - length p) s) else None)"

function words :: "string \<Rightarrow> string \<Rightarrow> string list" where
  "words acc [] = (if acc = [] then [] else [acc])"
| "words acc (c # s) =
     (let n = ws_prefix_len (c # s) in
      if n = 0 then words (acc @ [c]) s
      else (if acc = [] then [] else [acc]) @ words [] (drop n (c # s)))"
  by pat_completeness auto
termination
  by (relation "measure (length \<circ> snd)") auto

definition collapse_whitespace :: "string \<Rightarrow> string" where
  "collapse_whitespace s = join '' '' (words [] s)"

text \<open>\<open>str::parse::<usize>()\<close>: an optional plus sign and digits without overflow.\<close>

definition parse_number :: "string \<Rightarrow> nat option" where
  "parse_number s =
     (let digits = (if head_in ''+'' s then tl s else s) in
      if digits = [] \<or> \<not> list_all is_ascii_digit digits then None
      else if u64_max < from_radix 10 digits then None
      else Some (from_radix 10 digits))"

text \<open>\<open>{:?}\<close> of a string: quotes, backslash escapes, and \<open>\u{..}\<close> for the characters the table names.\<close>

definition code_point :: "string \<Rightarrow> nat" where
  "code_point ch =
     (case map (of_char :: char \<Rightarrow> nat) ch of
        [a] \<Rightarrow> a
      | [a, b] \<Rightarrow> (a - 192) * 64 + (b - 128)
      | [a, b, c] \<Rightarrow> (a - 224) * 4096 + (b - 128) * 64 + (c - 128)
      | [a, b, c, d] \<Rightarrow> (a - 240) * 262144 + (b - 128) * 4096 + (c - 128) * 64 + (d - 128)
      | _ \<Rightarrow> 0)"

definition debug_char :: "(string \<Rightarrow> bool) \<Rightarrow> string \<Rightarrow> string" where
  "debug_char uni ch =
     (if ch = [CHR 0x00] then [CHR 0x5C, CHR ''0'']
      else if ch = [CHR 0x09] then [CHR 0x5C, CHR ''t'']
      else if ch = [CHR 0x0D] then [CHR 0x5C, CHR ''r'']
      else if ch = [CHR 0x0A] then [CHR 0x5C, CHR ''n'']
      else if ch = [CHR 0x22] \<or> ch = [CHR 0x5C] then CHR 0x5C # ch
      else if is_control ch \<or> uni ch then [CHR 0x5C] @ ''u{'' @ hex (code_point ch) @ ''}''
      else ch)"

definition debug_str :: "(string \<Rightarrow> bool) \<Rightarrow> string \<Rightarrow> string" where
  "debug_str uni s = [CHR 0x22] @ concat (map (debug_char uni) (chars s)) @ [CHR 0x22]"

definition debug_opt :: "(string \<Rightarrow> bool) \<Rightarrow> string option \<Rightarrow> string" where
  "debug_opt uni x = (case x of None \<Rightarrow> ''None'' | Some s \<Rightarrow> ''Some('' @ debug_str uni s @ '')'')"

section \<open>Decoded messages\<close>

datatype raw_code = RawObject "string option" | RawString string

record raw_span_text =
  rst_text :: "string option"
  rst_highlight_start :: "nat option"
  rst_highlight_end :: "nat option"

datatype raw_span = RawSpan
  (rws_file_name: "string option") (rws_byte_start: "nat option") (rws_byte_end: "nat option")
  (rws_line_start: "nat option") (rws_line_end: "nat option")
  (rws_column_start: "nat option") (rws_column_end: "nat option")
  (rws_is_primary: "bool option") (rws_label: "string option") (rws_suggested_replacement: "string option")
  (rws_suggestion_applicability: "string option")
  (rws_expansion: "raw_expansion option") (rws_text: "raw_span_text list")
and raw_expansion = RawExpansion
  (rwx_span: "raw_span option") (rwx_macro_decl_name: "string option") (rwx_def_site_span: "raw_span option")

datatype raw_diagnostic = RawDiagnostic
  (rwd_code: "raw_code option") (rwd_level: "string option") (rwd_message: "string option")
  (rwd_spans: "raw_span list") (rwd_children: "raw_diagnostic list") (rwd_rendered: "string option")

record raw_target =
  rwt_name :: "string option"
  rwt_kind :: "string list option"

record cargo_message =
  cgm_package_id :: "string option"
  cgm_reason :: "string option"
  cgm_message :: "raw_diagnostic option"
  cgm_fresh :: "bool option"
  cgm_executable :: "string option"
  cgm_target :: "raw_target option"

section \<open>From messages to diagnostics\<close>

definition parse_applicability :: "string \<Rightarrow> suggestion_applicability option" where
  "parse_applicability v =
     (if v = ''MachineApplicable'' then Some MachineApplicable
      else if v = ''MaybeIncorrect'' then Some MaybeIncorrect
      else if v = ''HasPlaceholders'' then Some HasPlaceholders
      else if v = ''Unspecified'' then Some Unspecified
      else None)"

definition or_else :: "'a option \<Rightarrow> 'a option \<Rightarrow> 'a option" where
  "or_else a b = (case a of None \<Rightarrow> b | Some _ \<Rightarrow> a)"

definition unwrap_or :: "'a option \<Rightarrow> 'a \<Rightarrow> 'a" where
  "unwrap_or a d = (case a of None \<Rightarrow> d | Some x \<Rightarrow> x)"

definition normalize_span_text :: "raw_span_text \<Rightarrow> span_text option" where
  "normalize_span_text t =
     map_option (\<lambda>s. \<lparr>spt_text = sanitize_text s, spt_highlight_start = unwrap_or (rst_highlight_start t) 0,
       spt_highlight_end = unwrap_or (rst_highlight_end t) 0\<rparr>) (rst_text t)"

text \<open>\<open>u64\<close> values always fit \<open>usize\<close> on the 64-bit targets, so \<open>as_usize\<close> is the identity.\<close>

fun normalize_span :: "raw_span \<Rightarrow> rustc_span option" and normalize_expansion :: "raw_expansion \<Rightarrow> rustc_expansion option" where
  "normalize_span (RawSpan file_name bs be ls le cs ce primary label replacement_text applicability expansion texts) =
     (let file_out = unwrap_or (map_option sanitize_text file_name) [] in
      if file_out = [] \<and> replacement_text = None then None
      else Some (RustcSpan file_out bs be
        (unwrap_or ls 0) (unwrap_or (or_else le ls) 0) (unwrap_or cs 1) (unwrap_or (or_else ce cs) 1)
        (unwrap_or primary False) (map_option sanitize_text label) (map_option sanitize_text replacement_text)
        (case applicability of None \<Rightarrow> None | Some a \<Rightarrow> parse_applicability a)
        (case expansion of None \<Rightarrow> None | Some x \<Rightarrow> normalize_expansion x)
        (List.map_filter normalize_span_text texts)
        (ls \<noteq> None \<and> le \<noteq> None \<and> cs \<noteq> None \<and> ce \<noteq> None)))"
| "normalize_expansion (RawExpansion sp macro_name def_site) =
     (case sp of
        None \<Rightarrow> None
      | Some raw \<Rightarrow>
          (case normalize_span raw of
             None \<Rightarrow> None
           | Some span_out \<Rightarrow>
               Some (RustcExpansion
                 (case macro_name of None \<Rightarrow> None
                  | Some n \<Rightarrow> if sanitize_text n = [] then None else Some (sanitize_text n))
                 span_out
                 (case def_site of None \<Rightarrow> None | Some d \<Rightarrow> normalize_span d))))"

definition normalize_code :: "raw_code \<Rightarrow> string option" where
  "normalize_code raw =
     (case (case raw of RawObject c \<Rightarrow> c | RawString c \<Rightarrow> Some c) of
        None \<Rightarrow> None
      | Some c \<Rightarrow> if sanitize_text c = [] then None else Some (sanitize_text c))"

fun normalize_child :: "raw_diagnostic \<Rightarrow> rustc_child" where
  "normalize_child (RawDiagnostic code level message spans children rendered) =
     RustcChild (sanitize_text (unwrap_or level ''help'')) (sanitize_text (unwrap_or message []))
       (map_option sanitize_text rendered) (List.map_filter normalize_span spans) (map normalize_child children)"

definition edit_of_span :: "rustc_span \<Rightarrow> rustc_edit" where
  "edit_of_span s =
     \<lparr>rce_file = rsp_file s, rce_line_start = rsp_line_start s, rce_line_end = rsp_line_end s,
      rce_column_start = rsp_column_start s, rce_column_end = rsp_column_end s,
      rce_replacement = unwrap_or (rsp_suggested_replacement s) [],
      rce_byte_start = rsp_byte_start s, rce_byte_end = rsp_byte_end s, rce_range_complete = rsp_range_complete s\<rparr>"

definition add_suggestion :: "string \<Rightarrow> rustc_span list \<Rightarrow> rustc_suggestion list" where
  "add_suggestion message all =
     (let spans = filter (\<lambda>s. rsp_suggested_replacement s \<noteq> None) all in
      if spans = [] then []
      else [\<lparr>rcs_message = message,
             rcs_applicability = unwrap_or
               (max_by_key applicability_rank (List.map_filter rsp_suggestion_applicability spans)) Unspecified,
             rcs_edits = map edit_of_span spans\<rparr>])"

fun collect_child_suggestions :: "rustc_child \<Rightarrow> rustc_suggestion list" where
  "collect_child_suggestions (RustcChild level message rendered spans children) =
     add_suggestion message spans @ concat (map collect_child_suggestions children)"

definition collect_suggestions :: "string option \<Rightarrow> rustc_span list \<Rightarrow> rustc_child list \<Rightarrow> rustc_suggestion list" where
  "collect_suggestions root_message root_spans children =
     add_suggestion (unwrap_or (map_option sanitize_text root_message) ''compiler suggestion'') root_spans @
     concat (map collect_child_suggestions children)"

definition primary_span :: "rustc_span list \<Rightarrow> rustc_span option" where
  "primary_span spans =
     or_else (List.find rsp_is_primary spans) (case spans of [] \<Rightarrow> None | s # _ \<Rightarrow> Some s)"

text \<open>The separator U+001F of \<open>root_key\<close>.\<close>

abbreviation unit_sep :: string where "unit_sep \<equiv> [CHR 0x1F]"

definition root_key :: "diagnostic \<Rightarrow> string" where
  "root_key d =
     (let primary = primary_span (dia_spans d);
          at = (\<lambda>f. case primary of None \<Rightarrow> 0 | Some s \<Rightarrow> f s) in
      unwrap_or (dia_code d) [] @ unit_sep @ level_as_str (dia_level d) @ unit_sep @
      unwrap_or (dia_file d) [] @ unit_sep @ dec (unwrap_or (dia_line d) 0) @ unit_sep @
      dec (at rsp_column_start) @ unit_sep @ dec (at rsp_line_end) @ unit_sep @
      dec (at rsp_column_end) @ unit_sep @ collapse_whitespace (dia_message d))"

definition normalize_diagnostic :: "raw_diagnostic \<Rightarrow> diagnostic option" where
  "normalize_diagnostic raw =
     (case (if rwd_level raw = Some ''error'' then Some LevelError
            else if rwd_level raw = Some ''warning'' then Some LevelWarning else None) of
        None \<Rightarrow> None
      | Some level \<Rightarrow>
          let spans = List.map_filter normalize_span (rwd_spans raw);
              primary = primary_span spans;
              children = map normalize_child (rwd_children raw);
              d = \<lparr>dia_package_id = None, dia_target_name = None,
                   dia_code = (case rwd_code raw of None \<Rightarrow> None | Some c \<Rightarrow> normalize_code c),
                   dia_level = level, dia_file = map_option rsp_file primary,
                   dia_line = map_option rsp_line_start primary,
                   dia_message = sanitize_text (unwrap_or (rwd_message raw) []), dia_root_key = None,
                   dia_rendered = map_option sanitize_text (rwd_rendered raw), dia_spans = spans,
                   dia_children = children,
                   dia_suggestions = collect_suggestions (rwd_message raw) spans children,
                   dia_untrusted_data = True\<rparr>
          in Some (d\<lparr>dia_root_key := Some (root_key d)\<rparr>))"

section \<open>The one-line format\<close>

definition is_e_code :: "string \<Rightarrow> bool" where
  "is_e_code v \<longleftrightarrow>
     (case v of e # d # rest \<Rightarrow> e = CHR ''E'' \<and> is_ascii_digit d \<and> list_all is_ascii_digit rest | _ \<Rightarrow> False)"

text \<open>\<open>rsplitn(3, ':')\<close>: at most two splits, from the right.\<close>

definition rsplit3 :: "char \<Rightarrow> string \<Rightarrow> string list" where
  "rsplit3 c s =
     (case rev (split_char c s) of
        a # b # rest \<Rightarrow> if rest = [] then [a, b] else [a, b, join [c] (rev rest)]
      | parts \<Rightarrow> parts)"

text \<open>What follows the marker: an optional code in brackets and the message.\<close>

definition short_code :: "string \<Rightarrow> (string option \<times> string) option" where
  "short_code rest =
     (case strip_prefix ''['' rest of
        Some rest \<Rightarrow>
          (case str_find rest '']'' of
             None \<Rightarrow> None
           | Some close \<Rightarrow>
               if \<not> is_e_code (take close rest) then None
               else
                 let tail_text = drop (Suc close) rest
                 in Some (Some (take close rest), trim (unwrap_or (strip_prefix '':'' tail_text) tail_text)))
      | None \<Rightarrow> Some (None, trim (unwrap_or (strip_prefix '':'' rest) rest)))"

definition parse_short_diagnostic_line :: "string \<Rightarrow> diagnostic option" where
  "parse_short_diagnostic_line raw =
     (let line = sanitize_text raw in
      case min_by_key fst (List.map_filter (\<lambda>marker. map_option (\<lambda>i. (i, marker)) (str_find line marker))
             ['': error'', '': warning'']) of
        None \<Rightarrow> None
      | Some (severity_start, marker) \<Rightarrow>
          (case rsplit3 (CHR '':'') (take severity_start line) of
             [column, line_number, file_part] \<Rightarrow>
               (case (parse_number column, parse_number line_number) of
                  (Some column, Some line_number) \<Rightarrow>
                    let file_out = trim file_part in
                    if file_out = [] \<or> line_number = 0 \<or> column = 0 then None
                    else
                      map_option (\<lambda>(code, message).
                        \<lparr>dia_package_id = None, dia_target_name = None, dia_code = code,
                         dia_level = (if marker = '': error'' then LevelError else LevelWarning),
                         dia_file = Some file_out, dia_line = Some line_number,
                         dia_message = sanitize_text message, dia_root_key = None, dia_rendered = None,
                         dia_spans = [], dia_children = [], dia_suggestions = [], dia_untrusted_data = True\<rparr>)
                        (short_code (drop (severity_start + length marker) line))
                | _ \<Rightarrow> None)
           | _ \<Rightarrow> None))"

section \<open>A whole output\<close>

definition detail_score :: "diagnostic \<Rightarrow> nat" where
  "detail_score d =
     length (dia_spans d) + length (dia_children d) * 2 + length (dia_suggestions d) * 4 +
     (case dia_rendered d of None \<Rightarrow> 0 | Some r \<Rightarrow> length r) div 1000"

text \<open>The key of a diagnostic with its compilation unit, as \<open>insert_diagnostic\<close> and the stream build it.\<close>

definition unit_key :: "(string \<Rightarrow> bool) \<Rightarrow> diagnostic \<Rightarrow> string" where
  "unit_key uni d =
     debug_opt uni (dia_package_id d) @ '':'' @ debug_opt uni (dia_target_name d) @ '':'' @ root_key d"

type_synonym diagnostic_table = "diagnostic list \<times> (string, nat) btree_map"

definition insert_diagnostic :: "(string \<Rightarrow> bool) \<Rightarrow> diagnostic \<Rightarrow> diagnostic_table \<Rightarrow> diagnostic_table" where
  "insert_diagnostic uni d table =
     (let (ds, indexes) = table; key = unit_key uni d; d = d\<lparr>dia_root_key := Some key\<rparr> in
      case bt_get indexes key of
        Some index \<Rightarrow>
          if detail_score (ds ! index) < detail_score d then (ds[index := d], indexes) else table
      | None \<Rightarrow> (ds @ [d], bt_insert key (length ds) indexes))"

definition link_kinds :: "string list" where
  "link_kinds = [''bin'', ''cdylib'', ''dylib'', ''proc-macro'']"

definition count_artifact :: "cargo_message \<Rightarrow> build_telemetry \<Rightarrow> build_telemetry" where
  "count_artifact m t =
     (let t = t\<lparr>btm_total_units := sat_add (btm_total_units t) 1\<rparr>;
          t = (if unwrap_or (cgm_fresh m) False then t\<lparr>btm_fresh_units := sat_add (btm_fresh_units t) 1\<rparr>
               else record_rebuilt_package (cgm_package_id m)
                 (t\<lparr>btm_rebuilt_units := sat_add (btm_rebuilt_units t) 1\<rparr>));
          executable = (case cgm_executable m of None \<Rightarrow> False | Some path \<Rightarrow> path \<noteq> []);
          link_kind = (case cgm_target m of None \<Rightarrow> False
            | Some target \<Rightarrow> (case rwt_kind target of None \<Rightarrow> False | Some kinds \<Rightarrow> list_ex (\<lambda>k. k \<in> set link_kinds) kinds))
      in if executable \<or> link_kind then t\<lparr>btm_linked_units := sat_add (btm_linked_units t) 1\<rparr> else t)"

definition parse_message ::
  "(string \<Rightarrow> bool) \<Rightarrow> cargo_message \<Rightarrow> diagnostic_table \<times> build_telemetry \<Rightarrow> diagnostic_table \<times> build_telemetry" where
  "parse_message uni m acc =
     (let (table, build) = acc in
      if cgm_reason m = Some ''compiler-artifact'' then (table, count_artifact m build)
      else if cgm_reason m = Some ''build-script-executed'' then
        (table, record_build_script_package (cgm_package_id m)
           (build\<lparr>btm_build_scripts := sat_add (btm_build_scripts build) 1\<rparr>))
      else if cgm_reason m = Some ''compiler-message'' then
        (case cgm_message m of
           None \<Rightarrow> acc
         | Some raw \<Rightarrow>
             (case normalize_diagnostic raw of
                None \<Rightarrow> acc
              | Some d \<Rightarrow>
                  (insert_diagnostic uni
                     (d\<lparr>dia_package_id := cgm_package_id m,
                        dia_target_name := (case cgm_target m of None \<Rightarrow> None | Some t \<Rightarrow> rwt_name t)\<rparr>) table, build)))
      else acc)"

definition parse_line ::
  "(string \<Rightarrow> cargo_message option) \<Rightarrow> (string \<Rightarrow> bool) \<Rightarrow> string \<Rightarrow>
   diagnostic_table \<times> build_telemetry \<Rightarrow> diagnostic_table \<times> build_telemetry" where
  "parse_line from_json uni raw acc =
     (let line = unwrap_or (strip_suffix [CHR 0x0D] raw) raw; trimmed = trim_start line;
          message = (if head_in ''{'' trimmed then from_json trimmed else None) in
      case message of
        Some m \<Rightarrow> parse_message uni m acc
      | None \<Rightarrow>
          (case parse_short_diagnostic_line line of
             None \<Rightarrow> acc
           | Some d \<Rightarrow> (insert_diagnostic uni d (fst acc), snd acc)))"

definition parse_cargo_output ::
  "(string \<Rightarrow> cargo_message option) \<Rightarrow> (string \<Rightarrow> bool) \<Rightarrow> string \<Rightarrow> cargo_output" where
  "parse_cargo_output from_json uni raw =
     (let clean = sanitize_text raw;
          (table, build) = fold (parse_line from_json uni) (split_char (CHR 0x0A) clean) (([], []), telemetry_new)
      in \<lparr>cgo_diagnostics = fst table, cgo_build = (if telemetry_is_empty build then None else Some build),
          cgo_untrusted_data = (trim clean \<noteq> []), cgo_truncated = False\<rparr>)"

section \<open>Known records\<close>

text \<open>A decoded JSON value and indexing into it, which gives null for a missing key.\<close>

datatype json = JNull | JBool bool | JNumber string | JString string | JArray "json list" | JObject "(string \<times> json) list"

definition json_index :: "json \<Rightarrow> string \<Rightarrow> json" where
  "json_index v key = (case v of JObject members \<Rightarrow> unwrap_or (map_of members key) JNull | _ \<Rightarrow> JNull)"

definition json_as_str :: "json \<Rightarrow> string option" where
  "json_as_str v = (case v of JString s \<Rightarrow> Some s | _ \<Rightarrow> None)"

definition json_as_bool :: "json \<Rightarrow> bool option" where
  "json_as_bool v = (case v of JBool b \<Rightarrow> Some b | _ \<Rightarrow> None)"

definition valid_known_message :: "(string \<Rightarrow> cargo_message option) \<Rightarrow> string \<Rightarrow> json \<Rightarrow> bool" where
  "valid_known_message from_json line v =
     (case json_as_str (json_index v ''reason'') of
        None \<Rightarrow> True
      | Some reason \<Rightarrow>
          if reason = ''compiler-message'' \<or> reason = ''compiler-artifact'' then
            (case from_json line of
               None \<Rightarrow> False
             | Some m \<Rightarrow>
                 if cgm_reason m = Some ''compiler-message''
                 then (case cgm_message m of None \<Rightarrow> False | Some d \<Rightarrow> rwd_level d \<noteq> None \<and> rwd_message d \<noteq> None)
                 else cgm_target m \<noteq> None \<and> cgm_fresh m \<noteq> None)
          else if reason = ''build-finished'' then json_as_bool (json_index v ''success'') \<noteq> None
          else True)"

end
