(* ===== verification/Parser_Properties.thy ===== *)
theory Parser_Properties
  imports Diagnostic_Parser
begin

text \<open>
  What the parser of Cargo's output guarantees: every text of a diagnostic is free of control bytes, every
  suggestion has edits, the diagnostics of one output have distinct keys, and the key of a diagnostic determines
  its compilation unit, code, level, place and message.
\<close>

section \<open>Clean texts\<close>

definition clean_byte :: "char \<Rightarrow> bool" where
  "clean_byte c \<longleftrightarrow> c \<in> {CHR 0x0A, CHR 0x0D, CHR 0x09} \<or> 32 \<le> (of_char c :: nat) \<and> (of_char c :: nat) \<noteq> 127"

definition clean_text :: "string \<Rightarrow> bool" where
  "clean_text s \<longleftrightarrow> list_all clean_byte s"

lemma clean_text_subset: "clean_text s \<Longrightarrow> set t \<subseteq> set s \<Longrightarrow> clean_text t"
  by (auto simp: clean_text_def list_all_iff)

lemma clean_text_sep: "clean_text s \<Longrightarrow> CHR 0x1F \<notin> set s"
proof -
  have "\<not> clean_byte (CHR 0x1F)" by (simp add: clean_byte_def)
  then show "clean_text s \<Longrightarrow> CHR 0x1F \<notin> set s" unfolding clean_text_def list_all_iff by blast
qed

lemma clean_text_simps [simp]:
  "clean_text []"
  "clean_text (s @ t) \<longleftrightarrow> clean_text s \<and> clean_text t"
  by (simp_all add: clean_text_def)

lemma clean_chars_keeps:
  "c \<in> set (clean_chars st chs) \<Longrightarrow> \<exists>ch \<in> set chs. c \<in> set ch \<and> (layout_char ch \<or> \<not> is_control ch)"
proof (induction chs arbitrary: st)
  case (Cons ch chs)
  show ?case
  proof (cases st)
    case EscNormal
    with Cons show ?thesis by (auto split: if_splits)
  qed (use Cons in auto)
qed simp

lemma sanitize_text_subset: "set (sanitize_text s) \<subseteq> set s"
proof
  fix c assume "c \<in> set (sanitize_text s)"
  then obtain ch where "ch \<in> set (chars s)" "c \<in> set ch"
    using clean_chars_keeps by (fastforce simp: sanitize_text_def)
  then have "c \<in> set (concat (chars s))" by auto
  then show "c \<in> set s" by (simp add: concat_chars)
qed

lemma sanitize_text_clean: "from_utf8_ok s \<Longrightarrow> clean_text (sanitize_text s)"
proof -
  assume s: "from_utf8_ok s"
  have "clean_byte c" if "c \<in> set (sanitize_text s)" for c
  proof (cases "(of_char c :: nat) < 128")
    case True
    from that obtain ch where ch: "ch \<in> set (chars s)" "c \<in> set ch" "layout_char ch \<or> \<not> is_control ch"
      using clean_chars_keeps by (fastforce simp: sanitize_text_def)
    with utf8_single_bytes [OF s ch(1,2) True] show ?thesis
      by (auto simp: layout_char_def is_control_def clean_byte_def)
  qed (simp add: clean_byte_def)
  then show ?thesis by (simp add: clean_text_def list_all_iff)
qed

lemma sanitize_clean_text: "clean_text s \<Longrightarrow> clean_text (sanitize_text s)"
  using clean_text_subset sanitize_text_subset by blast

section \<open>Well-typed input and output\<close>

text \<open>The strings of a decoded message are Rust strings.\<close>

abbreviation utf8_opt :: "string option \<Rightarrow> bool" where
  "utf8_opt \<equiv> pred_option from_utf8_ok"

fun raw_span_ok :: "raw_span \<Rightarrow> bool" and raw_expansion_ok :: "raw_expansion \<Rightarrow> bool" where
  "raw_span_ok (RawSpan file_name bs be ls le cs ce primary label replacement_text applicability expansion texts) \<longleftrightarrow>
     utf8_opt file_name \<and> utf8_opt label \<and> utf8_opt replacement_text \<and> utf8_opt applicability \<and>
     (case expansion of None \<Rightarrow> True | Some x \<Rightarrow> raw_expansion_ok x) \<and> list_all (\<lambda>t. utf8_opt (rst_text t)) texts"
| "raw_expansion_ok (RawExpansion sp macro_name def_site) \<longleftrightarrow>
     (case sp of None \<Rightarrow> True | Some s \<Rightarrow> raw_span_ok s) \<and> utf8_opt macro_name \<and>
     (case def_site of None \<Rightarrow> True | Some s \<Rightarrow> raw_span_ok s)"

fun raw_code_ok :: "raw_code \<Rightarrow> bool" where
  "raw_code_ok (RawObject c) = utf8_opt c"
| "raw_code_ok (RawString c) = from_utf8_ok c"

fun raw_diagnostic_ok :: "raw_diagnostic \<Rightarrow> bool" where
  "raw_diagnostic_ok (RawDiagnostic code level message spans children rendered) \<longleftrightarrow>
     pred_option raw_code_ok code \<and> utf8_opt level \<and> utf8_opt message \<and> list_all raw_span_ok spans \<and>
     list_all raw_diagnostic_ok children \<and> utf8_opt rendered"

definition message_ok :: "cargo_message \<Rightarrow> bool" where
  "message_ok m \<longleftrightarrow>
     utf8_opt (cgm_package_id m) \<and> pred_option raw_diagnostic_ok (cgm_message m) \<and>
     pred_option (\<lambda>t. utf8_opt (rwt_name t)) (cgm_target m)"

definition decoder_ok :: "(string \<Rightarrow> cargo_message option) \<Rightarrow> bool" where
  "decoder_ok from_json \<longleftrightarrow> (\<forall>s. pred_option message_ok (from_json s))"

text \<open>The texts of a diagnostic are clean.\<close>

abbreviation clean_opt :: "string option \<Rightarrow> bool" where
  "clean_opt \<equiv> pred_option clean_text"

fun span_ok :: "rustc_span \<Rightarrow> bool" and expansion_ok :: "rustc_expansion \<Rightarrow> bool" where
  "span_ok (RustcSpan file_out bs be ls le cs ce primary label replacement_text applicability expansion texts complete) \<longleftrightarrow>
     clean_text file_out \<and> clean_opt label \<and> clean_opt replacement_text \<and>
     (case expansion of None \<Rightarrow> True | Some x \<Rightarrow> expansion_ok x) \<and> list_all (\<lambda>t. clean_text (spt_text t)) texts"
| "expansion_ok (RustcExpansion macro_name sp def_site) \<longleftrightarrow>
     clean_opt macro_name \<and> span_ok sp \<and> (case def_site of None \<Rightarrow> True | Some s \<Rightarrow> span_ok s)"

fun child_ok :: "rustc_child \<Rightarrow> bool" where
  "child_ok (RustcChild level message rendered spans children) \<longleftrightarrow>
     clean_text level \<and> clean_text message \<and> clean_opt rendered \<and> list_all span_ok spans \<and> list_all child_ok children"

definition suggestion_ok :: "rustc_suggestion \<Rightarrow> bool" where
  "suggestion_ok s \<longleftrightarrow>
     clean_text (rcs_message s) \<and> rcs_edits s \<noteq> [] \<and>
     list_all (\<lambda>e. clean_text (rce_file e) \<and> clean_text (rce_replacement e)) (rcs_edits s)"

definition diagnostic_ok :: "diagnostic \<Rightarrow> bool" where
  "diagnostic_ok d \<longleftrightarrow>
     utf8_opt (dia_package_id d) \<and> utf8_opt (dia_target_name d) \<and> dia_code d \<noteq> Some [] \<and> clean_opt (dia_code d) \<and>
     clean_opt (dia_file d) \<and> clean_text (dia_message d) \<and> clean_opt (dia_rendered d) \<and>
     list_all span_ok (dia_spans d) \<and> list_all child_ok (dia_children d) \<and>
     list_all suggestion_ok (dia_suggestions d) \<and> dia_untrusted_data d"

section \<open>Conversion\<close>

lemma sanitize_opt: "utf8_opt x \<Longrightarrow> clean_opt (map_option sanitize_text x)"
  by (cases x) (auto simp: sanitize_text_clean)

lemma unwrap_sanitize: "utf8_opt x \<Longrightarrow> clean_text d \<Longrightarrow> clean_text (unwrap_or (map_option sanitize_text x) d)"
  by (cases x) (auto simp: unwrap_or_def sanitize_text_clean)

lemma set_map_filter: "y \<in> set (List.map_filter f xs) \<longleftrightarrow> (\<exists>x \<in> set xs. f x = Some y)"
  by (auto simp: List.map_filter_def) force

lemma normalize_span_ok:
  "raw_span_ok s \<Longrightarrow> normalize_span s = Some t \<Longrightarrow> span_ok t"
  "raw_expansion_ok x \<Longrightarrow> normalize_expansion x = Some y \<Longrightarrow> expansion_ok y"
proof (induction s and x arbitrary: t and y rule: normalize_span_normalize_expansion.induct)
  case (1 file_name bs be ls le cs ce primary label replacement_text applicability expansion texts)
  have texts: "list_all (\<lambda>t. clean_text (spt_text t)) (List.map_filter normalize_span_text texts)"
    using "1.prems"(1) by (auto simp: list_all_iff set_map_filter normalize_span_text_def sanitize_text_clean pred_option_def)
  have exp: "case (case expansion of None \<Rightarrow> None | Some x \<Rightarrow> normalize_expansion x) of None \<Rightarrow> True | Some x \<Rightarrow> expansion_ok x"
    using "1.IH" "1.prems" by (auto simp: Let_def split: option.splits if_splits)
  have "clean_text (unwrap_or (map_option sanitize_text file_name) [])"
    using "1.prems"(1) by (intro unwrap_sanitize) (simp_all add: clean_text_def)
  with "1.prems" texts exp show ?case by (auto simp: Let_def sanitize_opt sanitize_text_clean split: if_splits)
next
  case (2 sp macro_name def_site)
  then show ?case by (auto simp: sanitize_text_clean split: option.splits if_splits)
qed

lemma spans_ok: "list_all raw_span_ok ss \<Longrightarrow> list_all span_ok (List.map_filter normalize_span ss)"
proof (simp only: list_all_iff, rule ballI)
  fix t assume "\<forall>s \<in> set ss. raw_span_ok s" "t \<in> set (List.map_filter normalize_span ss)"
  then obtain s where "s \<in> set ss" "normalize_span s = Some t" "raw_span_ok s" by (auto simp: set_map_filter)
  then show "span_ok t" by (blast intro: normalize_span_ok(1))
qed

lemma sanitize_unwrap: "utf8_opt x \<Longrightarrow> from_utf8_ok d \<Longrightarrow> clean_text (sanitize_text (unwrap_or x d))"
  by (cases x) (auto simp: unwrap_or_def sanitize_text_clean)

lemma help_utf8: "from_utf8_ok ''help''" "from_utf8_ok ''compiler suggestion''"
  by code_simp+

lemma normalize_child_ok: "raw_diagnostic_ok r \<Longrightarrow> child_ok (normalize_child r)"
proof (induction r rule: normalize_child.induct)
  case (1 code level message spans children rendered)
  have "clean_text (sanitize_text (unwrap_or level ''help''))" "clean_text (sanitize_text (unwrap_or message []))"
    using "1.prems" sanitize_unwrap [OF _ help_utf8(1), of level] sanitize_unwrap [of message "[]"] by auto
  moreover have "list_all span_ok (List.map_filter normalize_span spans)" using "1.prems" by (simp add: spans_ok)
  ultimately show ?case using 1 by (auto simp: sanitize_opt list_all_iff)
qed

lemma normalize_code_ok:
  "pred_option raw_code_ok c \<Longrightarrow> clean_opt (case c of None \<Rightarrow> None | Some c \<Rightarrow> normalize_code c) \<and>
     (case c of None \<Rightarrow> None | Some c \<Rightarrow> normalize_code c) \<noteq> Some []"
  by (cases c) (auto simp: normalize_code_def sanitize_text_clean split: raw_code.splits option.splits)

lemma span_ok_fields:
  "span_ok s \<Longrightarrow> clean_text (rsp_file s) \<and> clean_opt (rsp_suggested_replacement s)"
  by (cases s) simp

lemma add_suggestion_ok:
  assumes "clean_text message" "list_all span_ok spans"
  shows "list_all suggestion_ok (add_suggestion message spans)"
proof -
  have "clean_text (rce_file (edit_of_span s)) \<and> clean_text (rce_replacement (edit_of_span s))" if "s \<in> set spans" for s
    using assms(2) span_ok_fields [of s] that
    by (cases "rsp_suggested_replacement s") (auto simp: edit_of_span_def unwrap_or_def list_all_iff clean_text_def)
  with assms(1) show ?thesis
    by (simp add: add_suggestion_def Let_def suggestion_ok_def list_all_iff)
qed

lemma child_suggestions_ok: "child_ok c \<Longrightarrow> list_all suggestion_ok (collect_child_suggestions c)"
proof (induction c rule: collect_child_suggestions.induct)
  case (1 level message rendered spans children)
  then have "list_all suggestion_ok (add_suggestion message spans)" by (intro add_suggestion_ok) auto
  with 1 show ?case by (auto simp: list_all_iff)
qed

lemma collect_suggestions_ok:
  assumes "utf8_opt message" "list_all span_ok spans" "list_all child_ok children"
  shows "list_all suggestion_ok (collect_suggestions message spans children)"
proof -
  have "clean_text (unwrap_or (map_option sanitize_text message) ''compiler suggestion'')"
    using assms(1) by (intro unwrap_sanitize) (simp_all add: clean_text_def clean_byte_def)
  from add_suggestion_ok [OF this assms(2)] child_suggestions_ok assms(3) show ?thesis
    by (auto simp: collect_suggestions_def list_all_iff)
qed

lemma primary_span_in: "primary_span spans = Some s \<Longrightarrow> s \<in> set spans"
  by (auto simp: primary_span_def or_else_def find_Some_iff split: option.splits list.splits)

lemma normalize_diagnostic_ok:
  assumes "raw_diagnostic_ok r" "normalize_diagnostic r = Some d" "utf8_opt p" "utf8_opt t"
  shows "diagnostic_ok (d\<lparr>dia_package_id := p, dia_target_name := t\<rparr>)"
proof (cases r)
  case (RawDiagnostic code level message spans children rendered)
  let ?spans = "List.map_filter normalize_span spans" and ?children = "map normalize_child children"
  have sp: "list_all span_ok ?spans" using assms(1) RawDiagnostic by (simp add: spans_ok)
  have ch: "list_all child_ok ?children" using assms(1) RawDiagnostic normalize_child_ok by (simp add: list_all_iff)
  have file_ok: "clean_opt (map_option rsp_file (primary_span ?spans))"
    using sp primary_span_in [of ?spans] span_ok_fields by (cases "primary_span ?spans") (auto simp: list_all_iff)
  have msg: "clean_text (sanitize_text (unwrap_or message []))" using assms(1) RawDiagnostic by (simp add: sanitize_unwrap)
  have sg: "list_all suggestion_ok (collect_suggestions message ?spans ?children)"
    using assms(1) RawDiagnostic by (intro collect_suggestions_ok sp ch) simp
  have code_ok: "clean_opt (case code of None \<Rightarrow> None | Some c \<Rightarrow> normalize_code c) \<and>
      (case code of None \<Rightarrow> None | Some c \<Rightarrow> normalize_code c) \<noteq> Some []"
    using assms(1) RawDiagnostic by (intro normalize_code_ok) simp
  have rend: "clean_opt (map_option sanitize_text rendered)" using assms(1) RawDiagnostic by (simp add: sanitize_opt)
  note parts = sp ch file_ok msg sg code_ok rend assms(3,4)
  from assms(2) RawDiagnostic show ?thesis
    unfolding normalize_diagnostic_def diagnostic_ok_def Let_def
    by (simp split: option.splits if_splits) (use parts in auto)
qed

section \<open>One-line diagnostics\<close>

lemma trim_start_subset: "set (trim_start s) \<subseteq> set s"
proof (induction s rule: trim_start.induct)
  case (1 s)
  then show ?case using set_drop_subset [of "ws_prefix_len s" s] by (auto simp: trim_start.simps [of s])
qed

lemma trim_end_subset: "set (trim_end s) \<subseteq> set s"
proof (induction s rule: trim_end.induct)
  case (1 s)
  then show ?case using set_take_subset [of "length s - ws_suffix_len s" s] by (auto simp: trim_end.simps [of s])
qed

lemma trim_subset: "set (trim s) \<subseteq> set s"
  unfolding trim_def using trim_start_subset trim_end_subset by (meson order_trans)

lemma split_char_subset: "(\<Union>p \<in> set (split_char c s). set p) \<subseteq> set s"
proof (induction s)
  case (Cons x s)
  show ?case
  proof (cases "split_char c s")
    case (Cons p ps)
    with Cons.IH have "set p \<union> (\<Union>q \<in> set ps. set q) \<subseteq> set s" by simp
    with Cons show ?thesis by (cases "x = c") (simp_all, blast+)
  qed simp
qed simp

lemma join_subset: "set (join sep ps) \<subseteq> set sep \<union> (\<Union>p \<in> set ps. set p)"
  by (induction sep ps rule: join.induct) auto

lemma rsplit3_clean:
  assumes "clean_text s" "rsplit3 c s = [x, y, z]" "clean_byte c"
  shows "clean_text z"
proof -
  from assms(2) obtain rest where parts: "rev (split_char c s) = x # y # rest" "z = join [c] (rev rest)"
    by (auto simp: rsplit3_def split: list.splits if_splits)
  then have "split_char c s = rev rest @ [y, x]" by (metis append.assoc append_Cons append_Nil rev.simps(2) rev_rev_ident)
  then have "(\<Union>p \<in> set rest. set p) \<subseteq> set s" using split_char_subset [of c s] by auto
  then have "set z \<subseteq> insert c (set s)" using join_subset [of "[c]" "rev rest"] unfolding parts(2) set_rev by fastforce
  with assms(1,3) show ?thesis by (auto simp: clean_text_def list_all_iff)
qed

lemma strip_prefix_subset: "strip_prefix p s = Some t \<Longrightarrow> set t \<subseteq> set s"
  by (auto simp: strip_prefix_def dest: in_set_dropD split: if_splits)

lemma unwrap_strip_subset: "set (unwrap_or (strip_prefix p s) s) \<subseteq> set s"
  using strip_prefix_subset by (cases "strip_prefix p s") (auto simp: unwrap_or_def)

lemma short_code_clean:
  assumes "short_code rest = Some (code, message)" "clean_text rest"
  shows "clean_opt code \<and> code \<noteq> Some [] \<and> clean_text message"
proof (cases "strip_prefix ''['' rest")
  case None
  with assms(1) have "code = None" "message = trim (unwrap_or (strip_prefix '':'' rest) rest)" by (auto simp: short_code_def)
  moreover have "set (trim (unwrap_or (strip_prefix '':'' rest) rest)) \<subseteq> set rest"
    using trim_subset unwrap_strip_subset by (meson order_trans)
  ultimately show ?thesis using clean_text_subset [OF assms(2)] by simp
next
  case (Some r)
  with assms(1) obtain close where c: "code = Some (take close r)" "is_e_code (take close r)"
    "message = trim (unwrap_or (strip_prefix '':'' (drop (Suc close) r)) (drop (Suc close) r))"
    by (auto simp: short_code_def Let_def split: option.splits if_splits)
  have r: "set r \<subseteq> set rest" by (rule strip_prefix_subset [OF Some])
  have clean: "clean_text r" by (rule clean_text_subset [OF assms(2) r])
  have "set message \<subseteq> set (drop (Suc close) r)" unfolding c(3) by (rule order_trans [OF trim_subset unwrap_strip_subset])
  then have "clean_text message" by (rule clean_text_subset [OF clean_text_subset [OF clean set_drop_subset]])
  moreover have "clean_text (take close r)" by (rule clean_text_subset [OF clean set_take_subset])
  moreover have "take close r \<noteq> []" using c(2) by (cases "take close r") (auto simp: is_e_code_def)
  ultimately show ?thesis using c(1) by simp
qed

lemma short_line_ok:
  assumes "parse_short_diagnostic_line raw = Some d" "clean_text raw"
  shows "diagnostic_ok d"
proof -
  let ?line = "sanitize_text raw"
  have line: "clean_text ?line" by (rule sanitize_clean_text [OF assms(2)])
  from assms(1) obtain start n column number file_part code message where
    parts: "rsplit3 (CHR '':'') (take start ?line) = [column, number, file_part]"
    and rest: "short_code (drop n ?line) = Some (code, message)"
    and d: "dia_package_id d = None" "dia_target_name d = None" "dia_code d = code" "dia_file d = Some (trim file_part)"
      "dia_message d = sanitize_text message" "dia_rendered d = None" "dia_spans d = []" "dia_children d = []"
      "dia_suggestions d = []" "dia_untrusted_data d"
    unfolding parse_short_diagnostic_line_def Let_def
    by (auto split: option.splits prod.splits list.splits if_splits)
  have "clean_text (take start ?line)" using line by (rule clean_text_subset) (rule set_take_subset)
  from rsplit3_clean [OF this parts] have "clean_text file_part" by (simp add: clean_byte_def)
  then have "clean_text (trim file_part)" using trim_subset clean_text_subset by blast
  moreover have "clean_text (drop n ?line)" using line by (rule clean_text_subset) (rule set_drop_subset)
  from short_code_clean [OF rest this] have "clean_opt code \<and> code \<noteq> Some [] \<and> clean_text message" .
  ultimately show ?thesis using d by (auto simp: diagnostic_ok_def sanitize_clean_text)
qed

section \<open>The table of diagnostics\<close>

definition table_ok :: "(string \<Rightarrow> bool) \<Rightarrow> diagnostic_table \<Rightarrow> bool" where
  "table_ok uni table \<longleftrightarrow>
     list_all diagnostic_ok (fst table) \<and>
     list_all (\<lambda>d. dia_root_key d = Some (unit_key uni d)) (fst table) \<and>
     (\<forall>k i. bt_get (snd table) k = Some i \<longleftrightarrow> i < length (fst table) \<and> unit_key uni (fst table ! i) = k)"

lemma unit_key_root [simp]: "unit_key uni (d\<lparr>dia_root_key := k\<rparr>) = unit_key uni d"
  by (simp add: unit_key_def root_key_def)

lemma table_ok_distinct: "table_ok uni table \<Longrightarrow> distinct (map (unit_key uni) (fst table))"
proof (simp only: distinct_conv_nth length_map, intro allI impI)
  fix i j assume ok: "table_ok uni table" and ij: "i < length (fst table)" "j < length (fst table)" "i \<noteq> j"
  then have "bt_get (snd table) (unit_key uni (fst table ! i)) = Some i" "bt_get (snd table) (unit_key uni (fst table ! j)) = Some j"
    by (auto simp: table_ok_def)
  with ij show "map (unit_key uni) (fst table) ! i \<noteq> map (unit_key uni) (fst table) ! j" by auto
qed

lemma table_ok_insert:
  assumes "table_ok uni table" "diagnostic_ok d"
  shows "table_ok uni (insert_diagnostic uni d table)"
proof -
  obtain ds indexes where t: "table = (ds, indexes)" by (cases table)
  let ?d = "d\<lparr>dia_root_key := Some (unit_key uni d)\<rparr>"
  have d: "diagnostic_ok ?d" using assms(2) by (simp add: diagnostic_ok_def)
  have ix: "bt_get indexes k = Some i \<longleftrightarrow> i < length ds \<and> unit_key uni (ds ! i) = k" for k i
    using assms(1) t by (simp add: table_ok_def)
  show ?thesis
  proof (cases "bt_get indexes (unit_key uni d)")
    case None
    then have "unit_key uni (ds ! i) \<noteq> unit_key uni d" if "i < length ds" for i using ix [of "unit_key uni d" i] that by auto
    moreover have "insert_diagnostic uni d table = (ds @ [?d], bt_insert (unit_key uni d) (length ds) indexes)"
      using None t by (simp add: insert_diagnostic_def Let_def)
    ultimately show ?thesis using t d assms(1)
      by (auto simp: table_ok_def bt_get_insert nth_append less_Suc_eq)
  next
    case (Some index)
    then have "index < length ds" "unit_key uni (ds ! index) = unit_key uni d" using ix by auto
    moreover have "insert_diagnostic uni d table = (ds[index := ?d], indexes) \<or> insert_diagnostic uni d table = table"
      using Some t by (simp add: insert_diagnostic_def Let_def)
    ultimately show ?thesis using t d assms(1)
      by (auto simp: table_ok_def nth_list_update list_all_length)
  qed
qed

lemma telemetry_ok_update:
  "telemetry_ok (t\<lparr>btm_total_units := a\<rparr>) = telemetry_ok t" "telemetry_ok (t\<lparr>btm_fresh_units := a\<rparr>) = telemetry_ok t"
  "telemetry_ok (t\<lparr>btm_rebuilt_units := a\<rparr>) = telemetry_ok t" "telemetry_ok (t\<lparr>btm_build_scripts := a\<rparr>) = telemetry_ok t"
  "telemetry_ok (t\<lparr>btm_linked_units := a\<rparr>) = telemetry_ok t"
  by (simp_all add: telemetry_ok_def)

lemma telemetry_ok_artifact: "telemetry_ok t \<Longrightarrow> telemetry_ok (count_artifact m t)"
  by (simp add: count_artifact_def Let_def telemetry_ok_update telemetry_ok_record)

lemma parse_message_ok:
  assumes "message_ok m" "table_ok uni (fst acc)" "telemetry_ok (snd acc)"
  shows "table_ok uni (fst (parse_message uni m acc)) \<and> telemetry_ok (snd (parse_message uni m acc))"
proof (cases "cgm_reason m = Some ''compiler-message''")
  case True
  show ?thesis
  proof (cases "cgm_message m")
    case (Some raw)
    show ?thesis
    proof (cases "normalize_diagnostic raw")
      case (Some d)
      let ?t = "case cgm_target m of None \<Rightarrow> None | Some t \<Rightarrow> rwt_name t"
      have "raw_diagnostic_ok raw" "utf8_opt (cgm_package_id m)" "utf8_opt ?t"
        using assms(1) \<open>cgm_message m = Some raw\<close> by (auto simp: message_ok_def split: option.splits)
      from table_ok_insert [OF assms(2) normalize_diagnostic_ok [OF this(1) Some this(2,3)]] assms(3) True Some \<open>cgm_message m = Some raw\<close>
      show ?thesis by (cases acc) (simp add: parse_message_def)
    qed (use assms True Some in \<open>simp add: parse_message_def split: prod.splits\<close>)
  qed (use assms True in \<open>simp add: parse_message_def split: prod.splits\<close>)
next
  case False
  with assms show ?thesis
    by (auto simp: parse_message_def Let_def telemetry_ok_artifact telemetry_ok_record telemetry_ok_update split: prod.splits)
qed

lemma unwrap_suffix_subset: "set (unwrap_or (strip_suffix p s) s) \<subseteq> set s"
  by (auto simp: strip_suffix_def unwrap_or_def dest: in_set_takeD split: option.splits if_splits)

lemma parse_line_ok:
  assumes "decoder_ok from_json" "clean_text raw" "table_ok uni (fst acc)" "telemetry_ok (snd acc)"
  shows "table_ok uni (fst (parse_line from_json uni raw acc)) \<and> telemetry_ok (snd (parse_line from_json uni raw acc))"
proof -
  let ?line = "unwrap_or (strip_suffix [CHR 0x0D] raw) raw"
  let ?m = "if head_in ''{'' (trim_start ?line) then from_json (trim_start ?line) else None"
  have line: "clean_text ?line" by (rule clean_text_subset [OF assms(2) unwrap_suffix_subset])
  show ?thesis
  proof (cases ?m)
    case (Some m)
    then have "message_ok m" using assms(1) by (auto simp: decoder_ok_def split: if_splits) (metis option.pred_inject(2))
    from parse_message_ok [OF this assms(3,4)] Some show ?thesis by (simp add: parse_line_def Let_def)
  next
    case None
    with assms(3,4) table_ok_insert [OF assms(3) short_line_ok [OF _ line]] show ?thesis
      by (simp add: parse_line_def Let_def split: option.splits)
  qed
qed

lemma parse_lines_ok:
  assumes "decoder_ok from_json" "list_all clean_text ls" "table_ok uni (fst acc)" "telemetry_ok (snd acc)"
  shows "table_ok uni (fst (fold (parse_line from_json uni) ls acc)) \<and>
    telemetry_ok (snd (fold (parse_line from_json uni) ls acc))"
  using assms(2-)
proof (induction ls arbitrary: acc)
  case (Cons l ls)
  then show ?case using parse_line_ok [OF assms(1), of l uni acc] by simp
qed simp

lemma split_char_clean: "clean_text s \<Longrightarrow> list_all clean_text (split_char c s)"
  using split_char_subset [of c s] by (auto simp: list_all_iff intro!: clean_text_subset [of s])

text \<open>
  C31: Reading an output, with a decoder whose strings are UTF-8 as Rust's are: whatever the compiler or a build script
  printed, every diagnostic is marked untrusted, its message, code, file, rendering, labels, replacements, children and
  macro expansions at any depth hold no control byte but line feed, carriage return and tab, its suggestions have edits,
  its key is stored with it, no two diagnostics share a key, and the package lists of the telemetry are bounded and
  free of repetitions. The package id and the target name are copied from the message as they are: of them only
  UTF-8 is shown, and a control byte in them reaches the diagnostic.
\<close>

theorem parsed_output_well_typed:
  assumes "decoder_ok from_json" and "from_utf8_ok raw"
  shows "let out = parse_cargo_output from_json uni raw in
    list_all diagnostic_ok (cgo_diagnostics out) \<and>
    list_all (\<lambda>d. dia_root_key d = Some (unit_key uni d)) (cgo_diagnostics out) \<and>
    distinct (map (unit_key uni) (cgo_diagnostics out)) \<and> pred_option telemetry_ok (cgo_build out)"
proof -
  let ?r = "fold (parse_line from_json uni) (split_char (CHR 0x0A) (sanitize_text raw)) (([], []), telemetry_new)"
  have "table_ok uni ([], [])" by (simp add: table_ok_def)
  then have ok: "table_ok uni (fst ?r)" "telemetry_ok (snd ?r)"
    using parse_lines_ok [OF assms(1) split_char_clean [OF sanitize_text_clean [OF assms(2)]], of uni "(([], []), telemetry_new)"]
    by (simp_all add: telemetry_new_ok)
  obtain table build where r: "?r = (table, build)" by (cases ?r)
  then show ?thesis
    using ok table_ok_distinct [of uni table] by (simp add: parse_cargo_output_def Let_def table_ok_def)
qed

end
