(* ===== verification/Diagnostic_Key.thy ===== *)
theory Diagnostic_Key
  imports Parser_Properties
begin

text \<open>
  The key under which diagnostics are merged is a text built from several parts. It is read back here: the
  debug form of a string ends where its closing quote is, the separator U+001F occurs in no part, so equal keys
  come from diagnostics of the same unit, code, level, place and message, and merging by key keeps all of these.
\<close>

section \<open>Characters\<close>

text \<open>One encoded character.\<close>

definition one_char :: "string \<Rightarrow> bool" where
  "one_char ch \<longleftrightarrow> (\<exists>c r bounds. ch = c # r \<and> utf8_bounds c = Some bounds \<and> length r = length bounds \<and> utf8_tail bounds r)"

lemma chars_one_char: "from_utf8_ok s \<Longrightarrow> ch \<in> set (chars s) \<Longrightarrow> one_char ch"
proof (induction s rule: from_utf8_ok.induct)
  case (2 c s)
  from "2.prems"(1) obtain bounds where b: "utf8_bounds c = Some bounds" "utf8_tail bounds s"
    "from_utf8_ok (drop (length bounds) s)" by (auto split: option.splits)
  let ?n = "length bounds"
  have "list_all is_cont (take ?n s)" using utf8_bounds_cont [OF b(1,2)] by (simp add: list_all_length)
  note cut = takeWhile_cont [OF this utf8_starts_char [OF b(3)], unfolded append_take_drop_id]
  have "length (take ?n s) = ?n" using b(2) by (simp add: utf8_tail_def)
  then have "one_char (c # take ?n s)" using b utf8_tail_take [OF b(2)] unfolding one_char_def by auto
  with "2.prems"(2) cut "2.IH" [OF b(1,3)] show ?case by auto
qed simp

lemma one_char_prefix:
  assumes "one_char x" "one_char y" "x @ u = y @ v"
  shows "x = y \<and> u = v"
proof -
  from assms have "hd x = hd y" by (cases x; cases y) (auto simp: one_char_def)
  with assms(1,2) have "length x = length y" by (auto simp: one_char_def)
  with assms(3) show ?thesis by simp
qed

text \<open>The encoding of a code point, and that it gives a character back from its code point.\<close>

definition encode_point :: "nat \<Rightarrow> string" where
  "encode_point n =
     map char_of
       (if n < 128 then [n]
        else if n < 2048 then [192 + n div 64, 128 + n mod 64]
        else if n < 65536 then [224 + n div 4096, 128 + n div 64 mod 64, 128 + n mod 64]
        else [240 + n div 262144, 128 + n div 4096 mod 64, 128 + n div 64 mod 64, 128 + n mod 64])"

lemma byte_split: "lo \<le> (of_char c :: nat) \<Longrightarrow> (of_char c :: nat) \<le> hi \<Longrightarrow> \<exists>p. c = char_of (lo + p) \<and> of_char c = lo + p \<and> lo + p \<le> hi"
  by (rule exI [of _ "of_char c - lo"]) simp

lemma base64: "y < (64 :: nat) \<Longrightarrow> (x * 64 + y) div 64 = x \<and> (x * 64 + y) mod 64 = y"
  by simp

lemma encode_two:
  assumes "2 \<le> p" "p < 32" "q < (64 :: nat)"
  shows "encode_point (p * 64 + q) = [char_of (192 + p), char_of (128 + q)]"
proof -
  have "128 \<le> p * 64 + q" "p * 64 + q < 2048" using assms by linarith+
  moreover have "(p * 64 + q) div 64 = p" "(p * 64 + q) mod 64 = q" using assms by auto
  ultimately show ?thesis by (simp add: encode_point_def)
qed

lemma encode_three:
  assumes "p < 16" "q < 64" "r < (64 :: nat)" "p = 0 \<longrightarrow> 32 \<le> q"
  shows "encode_point (p * 4096 + q * 64 + r) = [char_of (224 + p), char_of (128 + q), char_of (128 + r)]"
proof -
  let ?n = "p * 4096 + q * 64 + r"
  have "2048 \<le> ?n" using assms(4) by (cases p) auto
  moreover have "?n < 65536" using assms by linarith
  moreover have n: "?n = (p * 64 + q) * 64 + r" by simp
  then have d: "?n div 64 = p * 64 + q" "?n mod 64 = r" unfolding n using base64 [OF assms(3)] by blast+
  moreover have "?n div 4096 = ?n div 64 div 64" by (simp add: div_mult2_eq [symmetric])
  then have "?n div 4096 = p" unfolding d using base64 [OF assms(2)] by simp
  moreover have "(p * 64 + q) mod 64 = q" using base64 [OF assms(2)] by blast
  ultimately show ?thesis by (simp only: encode_point_def if_False list.map not_less [symmetric] if_True d) simp
qed

lemma encode_four:
  assumes "p < 5" "q < 64" "r < 64" "t < (64 :: nat)" "p = 0 \<longrightarrow> 16 \<le> q"
  shows "encode_point (p * 262144 + q * 4096 + r * 64 + t) =
    [char_of (240 + p), char_of (128 + q), char_of (128 + r), char_of (128 + t)]"
proof -
  let ?n = "p * 262144 + q * 4096 + r * 64 + t"
  have "65536 \<le> ?n" using assms(5) by (cases p) auto
  moreover have n: "?n = ((p * 64 + q) * 64 + r) * 64 + t" by simp
  then have d: "?n div 64 = (p * 64 + q) * 64 + r" "?n mod 64 = t" unfolding n using base64 [OF assms(4)] by blast+
  moreover have "?n div 4096 = ?n div 64 div 64" by (simp add: div_mult2_eq [symmetric])
  then have e: "?n div 4096 = p * 64 + q" unfolding d using base64 [OF assms(3), of "p * 64 + q"] by (simp only:)
  moreover have "?n div 262144 = ?n div 4096 div 64" by (simp add: div_mult2_eq [symmetric])
  then have "?n div 262144 = p" unfolding e using base64 [OF assms(2)] by simp
  moreover have "((p * 64 + q) * 64 + r) mod 64 = r" "(p * 64 + q) mod 64 = q"
    using base64 [OF assms(3)] base64 [OF assms(2)] by blast+
  ultimately show ?thesis by (simp only: encode_point_def if_False list.map not_less [symmetric] if_True d e) simp
qed

lemma tail_shape:
  assumes "utf8_tail bounds r" "length r = length bounds"
  shows "list_all2 (\<lambda>b c. fst b \<le> of_char c \<and> (of_char c :: nat) \<le> snd b) bounds r"
  using assms by (auto simp: utf8_tail_def list_all2_iff list_all_iff byte_in_def split_def)

lemma encode_code_point:
  assumes "one_char ch"
  shows "encode_point (code_point ch) = ch"
proof -
  from assms obtain c r bounds where ch: "ch = c # r" and b: "utf8_bounds c = Some bounds"
    and t: "list_all2 (\<lambda>b c. fst b \<le> of_char c \<and> (of_char c :: nat) \<le> snd b) bounds r"
    unfolding one_char_def using tail_shape by blast
  let ?c = "of_char c :: nat"
  consider (1) "bounds = []" "?c < 128"
    | (2) "194 \<le> ?c" "?c \<le> 223" "bounds = [(128, 191)]"
    | (3) "224 \<le> ?c" "?c \<le> 239" "\<exists>lo hi. bounds = [(lo, hi), (128, 191)] \<and> 128 \<le> lo \<and> hi \<le> 191 \<and> (?c = 224 \<longrightarrow> lo = 160)"
    | (4) "240 \<le> ?c" "?c \<le> 244" "\<exists>lo hi. bounds = [(lo, hi), (128, 191), (128, 191)] \<and> 128 \<le> lo \<and> hi \<le> 191 \<and> (?c = 240 \<longrightarrow> lo = 144)"
    using b by (auto simp: utf8_bounds_def byte_in_def split: if_splits)
  then show ?thesis
  proof cases
    case 1
    with t ch show ?thesis by (simp add: code_point_def encode_point_def)
  next
    case 2
    with t obtain d where r: "r = [d]" "128 \<le> (of_char d :: nat)" "(of_char d :: nat) \<le> 191" by (auto simp: list_all2_Cons1)
    have "encode_point ((?c - 192) * 64 + (of_char d - 128)) = [char_of (192 + (?c - 192)), char_of (128 + ((of_char d :: nat) - 128))]"
      using 2 r by (intro encode_two) auto
    with 2 r ch show ?thesis by (simp add: code_point_def)
  next
    case 3
    with t obtain d e where r: "r = [d, e]" "128 \<le> (of_char d :: nat)" "(of_char d :: nat) \<le> 191"
      "128 \<le> (of_char e :: nat)" "(of_char e :: nat) \<le> 191" "?c = 224 \<longrightarrow> 160 \<le> (of_char d :: nat)"
      by (auto simp: list_all2_Cons1)
    have "encode_point ((?c - 224) * 4096 + (of_char d - 128) * 64 + (of_char e - 128)) =
        [char_of (224 + (?c - 224)), char_of (128 + ((of_char d :: nat) - 128)), char_of (128 + ((of_char e :: nat) - 128))]"
      using 3 r by (intro encode_three) auto
    with 3 r ch show ?thesis by (simp add: code_point_def)
  next
    case 4
    with t obtain d e f where r: "r = [d, e, f]" "128 \<le> (of_char d :: nat)" "(of_char d :: nat) \<le> 191"
      "128 \<le> (of_char e :: nat)" "(of_char e :: nat) \<le> 191" "128 \<le> (of_char f :: nat)" "(of_char f :: nat) \<le> 191"
      "?c = 240 \<longrightarrow> 144 \<le> (of_char d :: nat)"
      by (auto simp: list_all2_Cons1)
    have "encode_point ((?c - 240) * 262144 + (of_char d - 128) * 4096 + (of_char e - 128) * 64 + (of_char f - 128)) =
        [char_of (240 + (?c - 240)), char_of (128 + ((of_char d :: nat) - 128)), char_of (128 + ((of_char e :: nat) - 128)), char_of (128 + ((of_char f :: nat) - 128))]"
      using 4 r by (intro encode_four) auto
    with 4 r ch show ?thesis by (simp add: code_point_def)
  qed
qed

section \<open>Reading a debug string back\<close>


lemma code_point_inject: "one_char x \<Longrightarrow> one_char y \<Longrightarrow> code_point x = code_point y \<Longrightarrow> x = y"
  using encode_code_point by metis

text \<open>The three forms a character takes: a short escape, a numbered escape, or itself.\<close>

datatype debug_form = ShortEscape char | NumberedEscape | Itself

definition debug_form :: "(string \<Rightarrow> bool) \<Rightarrow> string \<Rightarrow> debug_form" where
  "debug_form uni ch =
     (if ch = [CHR 0x00] then ShortEscape (CHR ''0'')
      else if ch = [CHR 0x09] then ShortEscape (CHR ''t'')
      else if ch = [CHR 0x0D] then ShortEscape (CHR ''r'')
      else if ch = [CHR 0x0A] then ShortEscape (CHR ''n'')
      else if ch = [CHR 0x22] then ShortEscape (CHR 0x22)
      else if ch = [CHR 0x5C] then ShortEscape (CHR 0x5C)
      else if is_control ch \<or> uni ch then NumberedEscape
      else Itself)"

lemma debug_char_form:
  "debug_char uni ch =
     (case debug_form uni ch of
        ShortEscape c \<Rightarrow> [CHR 0x5C, c]
      | NumberedEscape \<Rightarrow> [CHR 0x5C] @ ''u{'' @ hex (code_point ch) @ ''}''
      | Itself \<Rightarrow> ch)"
  by (simp add: debug_char_def debug_form_def)

lemma short_escape_inject: "debug_form uni x = ShortEscape c \<Longrightarrow> debug_form uni y = ShortEscape c \<Longrightarrow> x = y"
  by (auto simp: debug_form_def split: if_splits)

lemma short_escape_not_u: "debug_form uni x = ShortEscape c \<Longrightarrow> c \<noteq> CHR ''u''"
  by (auto simp: debug_form_def split: if_splits)

lemma itself_head:
  assumes "one_char x" "debug_form uni x = Itself"
  shows "hd x \<noteq> CHR 0x5C \<and> hd x \<noteq> CHR 0x22"
proof -
  from assms(1) obtain c r bounds where x: "x = c # r" "utf8_bounds c = Some bounds" "length r = length bounds"
    by (auto simp: one_char_def)
  have "x \<noteq> [CHR 0x5C]" "x \<noteq> [CHR 0x22]" using assms(2) by (auto simp: debug_form_def)
  moreover have "bounds = []" if "c = CHR 0x5C \<or> c = CHR 0x22"
    using x(2) that by (auto intro: utf8_bounds_ascii [of c] simp: is_ascii_def)
  ultimately show ?thesis using x by auto
qed

lemma hex_no_brace: "CHR ''}'' \<notin> set (hex n)"
  using to_radix_digits [of "CHR ''}''" 16 n] by (auto simp: ascii_defs)

lemma debug_char_prefix:
  assumes "one_char x" "one_char y" "debug_char uni x @ u = debug_char uni y @ v"
  shows "x = y \<and> u = v"
proof -
  have hd_x: "debug_form uni x = Itself \<Longrightarrow> \<exists>c r. x = c # r \<and> c \<noteq> CHR 0x5C"
    using itself_head [OF assms(1)] assms(1) by (auto simp: one_char_def)
  have hd_y: "debug_form uni y = Itself \<Longrightarrow> \<exists>c r. y = c # r \<and> c \<noteq> CHR 0x5C"
    using itself_head [OF assms(2)] assms(2) by (auto simp: one_char_def)
  show ?thesis
  proof (cases "debug_form uni x")
    case (ShortEscape c)
    with assms(3) hd_y short_escape_not_u [OF ShortEscape] have "debug_form uni y = ShortEscape c \<and> u = v"
      by (cases "debug_form uni y") (auto simp: debug_char_form)
    with short_escape_inject [OF ShortEscape] show ?thesis by blast
  next
    case NumberedEscape
    with assms(3) hd_y short_escape_not_u [of uni y] have y: "debug_form uni y = NumberedEscape"
      by (cases "debug_form uni y") (auto simp: debug_char_form)
    with assms(3) NumberedEscape have "hex (code_point x) @ CHR ''}'' # u = hex (code_point y) @ CHR ''}'' # v"
      by (simp add: debug_char_form)
    from sep_inject [OF this hex_no_brace hex_no_brace] have "code_point x = code_point y" "u = v"
      by (simp_all add: hex_inject)
    with code_point_inject [OF assms(1,2)] show ?thesis by blast
  next
    case Itself
    with assms(3) hd_x have y: "debug_form uni y = Itself"
      by (cases "debug_form uni y") (auto simp: debug_char_form)
    with assms(3) Itself have "x @ u = y @ v" by (simp add: debug_char_form)
    with one_char_prefix [OF assms(1,2)] show ?thesis by blast
  qed
qed

lemma debug_char_no_quote: "one_char x \<Longrightarrow> \<exists>c r. debug_char uni x = c # r \<and> c \<noteq> CHR 0x22"
  using itself_head [of x uni] by (cases "debug_form uni x") (auto simp: debug_char_form one_char_def)

lemma debug_chars_prefix:
  assumes "list_all one_char xs" "list_all one_char ys"
    and "concat (map (debug_char uni) xs) @ CHR 0x22 # u = concat (map (debug_char uni) ys) @ CHR 0x22 # v"
  shows "xs = ys \<and> u = v"
  using assms
proof (induction xs arbitrary: ys)
  case Nil
  then show ?case
  proof (cases ys)
    case (Cons y ys')
    with Nil debug_char_no_quote [of y uni] show ?thesis by auto
  qed simp
next
  case (Cons x xs)
  show ?case
  proof (cases ys)
    case Nil
    with Cons.prems debug_char_no_quote [of x uni] show ?thesis by auto
  next
    case ys: (Cons y ys')
    let ?u = "concat (map (debug_char uni) xs) @ CHR 0x22 # u" and ?v = "concat (map (debug_char uni) ys') @ CHR 0x22 # v"
    have "one_char x" "one_char y" "debug_char uni x @ ?u = debug_char uni y @ ?v" using Cons.prems ys by simp_all
    from debug_char_prefix [OF this] have "x = y" "?u = ?v" by blast+
    with Cons.IH [of ys'] Cons.prems ys show ?thesis by simp
  qed
qed

lemma debug_str_prefix:
  assumes "from_utf8_ok s" "from_utf8_ok t" "debug_str uni s @ u = debug_str uni t @ v"
  shows "s = t \<and> u = v"
proof -
  have "list_all one_char (chars s)" "list_all one_char (chars t)"
    using chars_one_char assms(1,2) by (auto simp: list_all_iff)
  moreover have "concat (map (debug_char uni) (chars s)) @ CHR 0x22 # u = concat (map (debug_char uni) (chars t)) @ CHR 0x22 # v"
    using assms(3) by (simp add: debug_str_def)
  ultimately have "chars s = chars t \<and> u = v" by (rule debug_chars_prefix)
  moreover from this have "concat (chars s) = concat (chars t)" by simp
  ultimately show ?thesis unfolding concat_chars by blast
qed

lemma debug_opt_prefix:
  assumes "utf8_opt a" "utf8_opt b" "debug_opt uni a @ u = debug_opt uni b @ v"
  shows "a = b \<and> u = v"
proof (cases a)
  case None
  with assms(3) show ?thesis by (cases b) (auto simp: debug_opt_def)
next
  case (Some s)
  with assms(3) obtain t where b: "b = Some t" by (cases b) (auto simp: debug_opt_def)
  with Some assms(3) have "debug_str uni s @ CHR '')'' # u = debug_str uni t @ CHR '')'' # v"
    by (simp add: debug_opt_def)
  with debug_str_prefix [of s t] assms(1,2) Some b show ?thesis by fastforce
qed

section \<open>Reading the key back\<close>

lemma level_as_str_inject: "level_as_str l = level_as_str m \<Longrightarrow> l = m"
  by (auto simp: level_as_str_def split: diagnostic_level.splits)

lemma dec_no_sep: "CHR 0x1F \<notin> set (dec n)"
  using to_radix_digits [of "CHR 0x1F" 10 n] by (auto simp: ascii_defs)

lemma level_no_sep: "CHR 0x1F \<notin> set (level_as_str l)"
  by (cases l) (simp_all add: level_as_str_def)

lemma unwrap_no_sep: "clean_opt x \<Longrightarrow> CHR 0x1F \<notin> set (unwrap_or x [])"
  by (cases x) (simp_all add: unwrap_or_def clean_text_sep)

lemmas part_no_sep = dec_no_sep level_no_sep unwrap_no_sep

text \<open>Where a diagnostic points: the line and the columns of its primary span.\<close>

definition diagnostic_place :: "diagnostic \<Rightarrow> nat \<times> nat \<times> nat \<times> nat" where
  "diagnostic_place d =
     (unwrap_or (dia_line d) 0,
      case primary_span (dia_spans d) of
        None \<Rightarrow> (0, 0, 0)
      | Some s \<Rightarrow> (rsp_column_start s, rsp_line_end s, rsp_column_end s))"

lemma root_key_parts:
  "root_key d =
     (case diagnostic_place d of (l, cs, le, ce) \<Rightarrow>
        unwrap_or (dia_code d) [] @ CHR 0x1F # level_as_str (dia_level d) @ CHR 0x1F # unwrap_or (dia_file d) [] @
        CHR 0x1F # dec l @ CHR 0x1F # dec cs @ CHR 0x1F # dec le @ CHR 0x1F # dec ce @ CHR 0x1F #
        collapse_whitespace (dia_message d))"
  by (simp add: root_key_def diagnostic_place_def Let_def split: option.splits)

lemma dec_sep_inject: "dec m @ CHR 0x1F # u = dec n @ CHR 0x1F # v \<Longrightarrow> m = n \<and> u = v"
  using sep_inject [OF _ dec_no_sep dec_no_sep] dec_inject by blast

lemma root_key_inject:
  assumes "clean_opt (dia_code d)" "clean_opt (dia_file d)" "clean_opt (dia_code e)" "clean_opt (dia_file e)"
    and "root_key d = root_key e"
  shows "unwrap_or (dia_code d) [] = unwrap_or (dia_code e) [] \<and> dia_level d = dia_level e \<and>
    unwrap_or (dia_file d) [] = unwrap_or (dia_file e) [] \<and> diagnostic_place d = diagnostic_place e \<and>
    collapse_whitespace (dia_message d) = collapse_whitespace (dia_message e)"
proof -
  obtain l cs le ce where p: "diagnostic_place d = (l, cs, le, ce)" by (cases "diagnostic_place d")
  obtain l' cs' le' ce' where q: "diagnostic_place e = (l', cs', le', ce')" by (cases "diagnostic_place e")
  from assms(5) have k: "unwrap_or (dia_code d) [] @ CHR 0x1F # level_as_str (dia_level d) @ CHR 0x1F # unwrap_or (dia_file d) [] @
        CHR 0x1F # dec l @ CHR 0x1F # dec cs @ CHR 0x1F # dec le @ CHR 0x1F # dec ce @ CHR 0x1F # collapse_whitespace (dia_message d) =
      unwrap_or (dia_code e) [] @ CHR 0x1F # level_as_str (dia_level e) @ CHR 0x1F # unwrap_or (dia_file e) [] @
        CHR 0x1F # dec l' @ CHR 0x1F # dec cs' @ CHR 0x1F # dec le' @ CHR 0x1F # dec ce' @ CHR 0x1F # collapse_whitespace (dia_message e)"
    by (simp only: root_key_parts p q prod.case)
  note no = part_no_sep
  from sep_inject [OF k no(3) [OF assms(1)] no(3) [OF assms(3)]] have 1: "unwrap_or (dia_code d) [] = unwrap_or (dia_code e) []"
    and k: "level_as_str (dia_level d) @ CHR 0x1F # unwrap_or (dia_file d) [] @
        CHR 0x1F # dec l @ CHR 0x1F # dec cs @ CHR 0x1F # dec le @ CHR 0x1F # dec ce @ CHR 0x1F # collapse_whitespace (dia_message d) =
      level_as_str (dia_level e) @ CHR 0x1F # unwrap_or (dia_file e) [] @
        CHR 0x1F # dec l' @ CHR 0x1F # dec cs' @ CHR 0x1F # dec le' @ CHR 0x1F # dec ce' @ CHR 0x1F # collapse_whitespace (dia_message e)"
    by blast+
  from sep_inject [OF k no(2) no(2)] have 2: "dia_level d = dia_level e"
    and k: "unwrap_or (dia_file d) [] @
        CHR 0x1F # dec l @ CHR 0x1F # dec cs @ CHR 0x1F # dec le @ CHR 0x1F # dec ce @ CHR 0x1F # collapse_whitespace (dia_message d) =
      unwrap_or (dia_file e) [] @
        CHR 0x1F # dec l' @ CHR 0x1F # dec cs' @ CHR 0x1F # dec le' @ CHR 0x1F # dec ce' @ CHR 0x1F # collapse_whitespace (dia_message e)"
    using level_as_str_inject by blast+
  from sep_inject [OF k no(3) [OF assms(2)] no(3) [OF assms(4)]] have 3: "unwrap_or (dia_file d) [] = unwrap_or (dia_file e) []"
    and k: "dec l @ CHR 0x1F # dec cs @ CHR 0x1F # dec le @ CHR 0x1F # dec ce @ CHR 0x1F # collapse_whitespace (dia_message d) =
      dec l' @ CHR 0x1F # dec cs' @ CHR 0x1F # dec le' @ CHR 0x1F # dec ce' @ CHR 0x1F # collapse_whitespace (dia_message e)"
    by blast+
  have four: "l = l' \<and> cs = cs' \<and> le = le' \<and> ce = ce' \<and> collapse_whitespace (dia_message d) = collapse_whitespace (dia_message e)"
    using dec_sep_inject [OF k] by (auto dest!: dec_sep_inject)
  with 1 2 3 p q show ?thesis by simp
qed

text \<open>What a diagnostic says, as far as its key tells; the file counts as missing when it is empty.\<close>

definition finding where
  "finding d =
     (dia_package_id d, dia_target_name d, dia_code d, dia_level d, unwrap_or (dia_file d) [], diagnostic_place d,
      collapse_whitespace (dia_message d))"

lemma finding_root [simp]: "finding (d\<lparr>dia_root_key := k\<rparr>) = finding d"
  by (simp add: finding_def diagnostic_place_def)

lemma equal_keys_same_finding:
  assumes "diagnostic_ok d" and "diagnostic_ok e" and "unit_key uni d = unit_key uni e"
  shows "finding d = finding e"
proof -
  have ok: "utf8_opt (dia_package_id d)" "utf8_opt (dia_package_id e)" "utf8_opt (dia_target_name d)" "utf8_opt (dia_target_name e)"
    "clean_opt (dia_code d)" "clean_opt (dia_code e)" "clean_opt (dia_file d)" "clean_opt (dia_file e)"
    "dia_code d \<noteq> Some []" "dia_code e \<noteq> Some []"
    using assms(1,2) by (simp_all add: diagnostic_ok_def)
  from debug_opt_prefix [OF ok(1,2) assms(3) [unfolded unit_key_def]]
  have 1: "dia_package_id d = dia_package_id e"
    and k: "debug_opt uni (dia_target_name d) @ '':'' @ root_key d = debug_opt uni (dia_target_name e) @ '':'' @ root_key e"
    by auto
  from debug_opt_prefix [OF ok(3,4) k] have 2: "dia_target_name d = dia_target_name e" and k: "root_key d = root_key e"
    by auto
  note parts = root_key_inject [OF ok(5,7,6,8) k]
  moreover have "dia_code d = dia_code e"
    using parts ok(9,10) by (auto simp: unwrap_or_def split: option.splits)
  ultimately show ?thesis using 1 2 by (simp add: finding_def)
qed

section \<open>Merging\<close>

lemma insert_keeps_findings:
  assumes "table_ok uni table" and "diagnostic_ok d"
  shows "finding ` set (fst (insert_diagnostic uni d table)) = insert (finding d) (finding ` set (fst table))"
    and "set (fst (insert_diagnostic uni d table)) \<subseteq> insert (d\<lparr>dia_root_key := Some (unit_key uni d)\<rparr>) (set (fst table))"
proof -
  obtain ds indexes where t: "table = (ds, indexes)" by (cases table)
  let ?d = "d\<lparr>dia_root_key := Some (unit_key uni d)\<rparr>" and ?out = "set (fst (insert_diagnostic uni d table))"
  have "finding ` ?out = insert (finding d) (finding ` set ds) \<and> ?out \<subseteq> insert ?d (set ds)"
  proof (cases "bt_get indexes (unit_key uni d)")
    case None
    then show ?thesis using t by (simp add: insert_diagnostic_def Let_def)
  next
    case (Some index)
    then have i: "index < length ds" "unit_key uni (ds ! index) = unit_key uni d" using assms(1) t by (auto simp: table_ok_def)
    then have "diagnostic_ok (ds ! index)" using assms(1) t by (simp add: table_ok_def list_all_length)
    then have same: "finding (ds ! index) = finding d" using equal_keys_same_finding [OF _ assms(2)] i(2) by blast
    have "map finding (ds[index := ?d]) = map finding ds" using same by (simp add: map_update list_update_same_conv i(1))
    then have "finding ` set (ds[index := ?d]) = finding ` set ds" by (metis list.set_map)
    moreover have "finding d \<in> finding ` set ds" using same i(1) by (metis imageI nth_mem)
    moreover have "set (ds[index := ?d]) \<subseteq> insert ?d (set ds)" by (rule set_update_subset_insert)
    ultimately show ?thesis using Some t by (auto simp: insert_diagnostic_def Let_def)
  qed
  with t show "finding ` ?out = insert (finding d) (finding ` set (fst table))" "?out \<subseteq> insert ?d (set (fst table))" by simp_all
qed

text \<open>
  C32: Merging keeps every finding and invents none. However many well-formed diagnostics are entered one after the
  other, the findings of the table are those of the diagnostics entered, where a finding is the package, target, code,
  level, file (none and the empty name being one), place and, up to white space, message that were parsed; each
  diagnostic of the table is one that was entered, with its key, and no two have the same key. The place is what
  the parser recorded: a one-line diagnostic has no column, so two of them that differ only there are merged.
\<close>

theorem merging_keeps_findings:
  assumes "list_all diagnostic_ok ds"
  shows "finding ` set (fst (fold (insert_diagnostic uni) ds ([], []))) = finding ` set ds \<and>
    set (fst (fold (insert_diagnostic uni) ds ([], []))) \<subseteq> (\<lambda>d. d\<lparr>dia_root_key := Some (unit_key uni d)\<rparr>) ` set ds \<and>
    distinct (map (unit_key uni) (fst (fold (insert_diagnostic uni) ds ([], []))))"
proof -
  have "table_ok uni (fold (insert_diagnostic uni) ds ([], [])) \<and>
      finding ` set (fst (fold (insert_diagnostic uni) ds ([], []))) = finding ` set ds \<and>
      set (fst (fold (insert_diagnostic uni) ds ([], []))) \<subseteq> (\<lambda>d. d\<lparr>dia_root_key := Some (unit_key uni d)\<rparr>) ` set ds"
    using assms
  proof (induction ds rule: rev_induct)
    case (snoc d ds)
    then show ?case
      using table_ok_insert [of uni "fold (insert_diagnostic uni) ds ([], [])" d]
        insert_keeps_findings [of uni "fold (insert_diagnostic uni) ds ([], [])" d] by auto
  qed (simp add: table_ok_def)
  then show ?thesis using table_ok_distinct by blast
qed

end
