(* ===== verification/Cargo_Stream.thy ===== *)
theory Cargo_Stream
  imports Diagnostic_Parser "HOL-Library.Sublist"
begin

text \<open>
  Reading Cargo's output as it arrives (\<open>diagnostics/stream.rs\<close>): lines are cut out of byte chunks with a bound
  on their length, test summaries and build results are counted, and diagnostics are kept within a number and a
  byte budget in which an error may displace warnings. The JSON functions of \<open>serde_json\<close> are fields of an
  environment: decoding a line to a value or to a message, and the length of an encoded diagnostic.
\<close>

section \<open>State\<close>

record stream_env =
  sv_message :: "string \<Rightarrow> cargo_message option"
  sv_value :: "string \<Rightarrow> json option"
  sv_uni :: "string \<Rightarrow> bool"
  sv_json_len :: "diagnostic \<Rightarrow> nat option"

record cargo_stream =
  cst_line :: string
  cst_discard_line :: bool
  cst_max_line :: nat
  cst_max_diagnostics :: nat
  cst_max_evidence_bytes :: nat
  cst_evidence_bytes :: nat
  cst_diagnostics :: "diagnostic list"
  cst_keys :: "string list"
  cst_build :: build_telemetry
  cst_stats :: evidence_stats
  cst_human_output :: string

definition evidence_stats_new :: evidence_stats where
  "evidence_stats_new =
     \<lparr>es_diagnostic_records = 0, es_duplicates = 0, es_omitted_records = 0, es_malformed_lines = 0,
      es_oversized_lines = 0, es_build_finished = False, es_build_success = None, es_tests_executed = None,
      es_test_summaries = 0, es_empty_test_summaries = 0, es_test_binaries = 0\<rparr>"

definition cargo_stream_new :: "nat \<Rightarrow> nat \<Rightarrow> nat \<Rightarrow> cargo_stream" where
  "cargo_stream_new max_line max_diagnostics max_evidence_bytes =
     \<lparr>cst_line = [], cst_discard_line = False, cst_max_line = max_line, cst_max_diagnostics = max_diagnostics,
      cst_max_evidence_bytes = max_evidence_bytes, cst_evidence_bytes = 0, cst_diagnostics = [], cst_keys = [],
      cst_build = telemetry_new, cst_stats = evidence_stats_new, cst_human_output = []\<rparr>"

definition cargo_stream_default :: cargo_stream where
  "cargo_stream_default = cargo_stream_new (256 * 1024) 128 (1024 * 1024)"

definition with_stats :: "(evidence_stats \<Rightarrow> evidence_stats) \<Rightarrow> cargo_stream \<Rightarrow> cargo_stream" where
  "with_stats f st = st\<lparr>cst_stats := f (cst_stats st)\<rparr>"

abbreviation count_malformed :: "evidence_stats \<Rightarrow> evidence_stats" where
  "count_malformed s \<equiv> s\<lparr>es_malformed_lines := sat_add (es_malformed_lines s) 1\<rparr>"

abbreviation count_omitted :: "evidence_stats \<Rightarrow> evidence_stats" where
  "count_omitted s \<equiv> s\<lparr>es_omitted_records := sat_add (es_omitted_records s) 1\<rparr>"

section \<open>Keeping diagnostics\<close>

text \<open>\<open>rposition(|d| d.level == Warning)\<close>: the last warning.\<close>

definition last_warning :: "diagnostic list \<Rightarrow> nat option" where
  "last_warning ds =
     (case filter (\<lambda>i. dia_level (ds ! i) = LevelWarning) [0..<length ds] of [] \<Rightarrow> None | is \<Rightarrow> Some (last is))"

definition remove_at :: "nat \<Rightarrow> 'a list \<Rightarrow> 'a list" where
  "remove_at i xs = take i xs @ drop (Suc i) xs"

lemma last_warning_bound: "last_warning ds = Some i \<Longrightarrow> i < length ds \<and> dia_level (ds ! i) = LevelWarning"
proof -
  let ?is = "filter (\<lambda>i. dia_level (ds ! i) = LevelWarning) [0..<length ds]"
  assume "last_warning ds = Some i"
  then have "?is \<noteq> []" "i = last ?is" unfolding last_warning_def by (cases ?is; simp)+
  then have "i \<in> set ?is" using last_in_set by blast
  then show ?thesis by simp
qed

lemma length_remove_at: "i < length xs \<Longrightarrow> length (remove_at i xs) = length xs - 1"
  by (simp add: remove_at_def min_def)

text \<open>The loop that makes room: the state afterwards and whether there is room for a diagnostic of the given size.\<close>

function make_room :: "stream_env \<Rightarrow> diagnostic_level \<Rightarrow> nat \<Rightarrow> cargo_stream \<Rightarrow> bool \<times> cargo_stream" where
  "make_room env level sz st =
     (if cst_max_diagnostics st \<le> length (cst_diagnostics st) \<or>
         cst_max_evidence_bytes st < sat_add (cst_evidence_bytes st) sz
      then
        (case (if level = LevelError then last_warning (cst_diagnostics st) else None) of
           Some i \<Rightarrow>
             let removed = cst_diagnostics st ! i;
                 freed = (case sv_json_len env removed of None \<Rightarrow> 0 | Some n \<Rightarrow> n)
             in make_room env level sz
                  (with_stats count_omitted
                    (st\<lparr>cst_diagnostics := remove_at i (cst_diagnostics st),
                        cst_keys := removeAll (unit_key (sv_uni env) removed) (cst_keys st),
                        cst_evidence_bytes := cst_evidence_bytes st - freed\<rparr>))
         | None \<Rightarrow> (False, with_stats count_omitted st))
      else (True, st))"
  by pat_completeness auto
termination
proof (relation "measure (\<lambda>(env, level, sz, st). length (cst_diagnostics st))")
  fix env :: stream_env and level :: diagnostic_level and sz i :: nat and st :: cargo_stream and removed freed
  assume "(if level = LevelError then last_warning (cst_diagnostics st) else None) = Some i"
  then have "i < length (cst_diagnostics st)" using last_warning_bound by (auto split: if_splits)
  then show "((env, level, sz, with_stats count_omitted
        (st\<lparr>cst_diagnostics := remove_at i (cst_diagnostics st),
            cst_keys := removeAll (unit_key (sv_uni env) removed) (cst_keys st),
            cst_evidence_bytes := cst_evidence_bytes st - freed\<rparr>)), env, level, sz, st)
      \<in> measure (\<lambda>(env, level, sz, st). length (cst_diagnostics st))"
    by (simp add: with_stats_def length_remove_at)
qed simp

declare make_room.simps [simp del]

definition retain :: "stream_env \<Rightarrow> diagnostic \<Rightarrow> cargo_stream \<Rightarrow> cargo_stream" where
  "retain env d st0 =
     (let st = with_stats (\<lambda>s. s\<lparr>es_diagnostic_records := sat_add (es_diagnostic_records s) 1\<rparr>) st0;
          key = unit_key (sv_uni env) d in
      if key \<in> set (cst_keys st) then with_stats (\<lambda>s. s\<lparr>es_duplicates := sat_add (es_duplicates s) 1\<rparr>) st
      else
        let sz = unwrap_or (sv_json_len env d) u64_max in
        if cst_max_evidence_bytes st < sz \<or> cst_max_diagnostics st = 0 then with_stats count_omitted st
        else case make_room env (dia_level d) sz st of
          (False, st) \<Rightarrow> st
        | (True, st) \<Rightarrow>
            st\<lparr>cst_evidence_bytes := cst_evidence_bytes st + sz, cst_keys := key # cst_keys st,
               cst_diagnostics := cst_diagnostics st @ [d]\<rparr>)"

section \<open>Lines\<close>

text \<open>The last bytes of the human output that fit, cut at a character boundary.\<close>

definition retain_human_output :: "string \<Rightarrow> cargo_stream \<Rightarrow> cargo_stream" where
  "retain_human_output line st =
     (let clean = sanitize_text line in
      if trim clean = [] then st
      else st\<lparr>cst_human_output := utf8_tail_bytes (cst_human_output st @ clean @ [CHR 0x0A]) 4000\<rparr>)"

text \<open>\<open>split_once(\". \")\<close> keeps what follows the first occurrence.\<close>

definition test_summary :: "string \<Rightarrow> (nat \<times> nat) option" where
  "test_summary line =
     (case strip_prefix ''test result: '' line of
        None \<Rightarrow> None
      | Some s \<Rightarrow>
          (case str_find s ''. '' of
             None \<Rightarrow> None
           | Some i \<Rightarrow>
               let fields_out = split_char (CHR '';'') (drop (i + 2) s);
                   number = (\<lambda>suffix f. case strip_suffix suffix (trim f) of None \<Rightarrow> None | Some n \<Rightarrow> parse_number n);
                   passed = number '' passed'' (hd fields_out);
                   failed = (case tl fields_out of [] \<Rightarrow> None | f # _ \<Rightarrow> number '' failed'' f)
               in (case (passed, failed) of (Some p, Some f) \<Rightarrow> Some (p, f) | _ \<Rightarrow> None)))"

definition count_summary :: "string \<Rightarrow> evidence_stats \<Rightarrow> evidence_stats" where
  "count_summary line s =
     (case test_summary line of
        None \<Rightarrow> s
      | Some (passed, failed) \<Rightarrow>
          let s = s\<lparr>es_test_summaries := sat_add (es_test_summaries s) 1\<rparr>;
              s = (if passed = 0 \<and> failed = 0
                   then s\<lparr>es_empty_test_summaries := sat_add (es_empty_test_summaries s) 1\<rparr> else s)
          in s\<lparr>es_tests_executed := Some (sat_add (sat_add (unwrap_or (es_tests_executed s) 0) passed) failed)\<rparr>)"

definition cargo_reasons :: "string list" where
  "cargo_reasons = [''compiler-message'', ''compiler-artifact'', ''build-script-executed'', ''build-finished'']"

text \<open>What a JSON record adds to the statistics, and whether it is one of Cargo's.\<close>

definition count_record :: "json \<Rightarrow> evidence_stats \<Rightarrow> evidence_stats" where
  "count_record v s =
     (let reason = json_as_str (json_index v ''reason'');
          s = (if reason = Some ''compiler-artifact'' \<and>
                  json_index (json_index v ''profile'') ''test'' = JBool True \<and>
                  json_as_str (json_index v ''executable'') \<noteq> None
               then s\<lparr>es_test_binaries := sat_add (es_test_binaries s) 1\<rparr> else s)
      in if reason = Some ''build-finished''
         then s\<lparr>es_build_finished := json_as_bool (json_index v ''success'') \<noteq> None,
                es_build_success := json_as_bool (json_index v ''success'')\<rparr>
         else s)"

definition is_cargo_record :: "json \<Rightarrow> bool" where
  "is_cargo_record v =
     (case json_as_str (json_index v ''reason'') of None \<Rightarrow> False | Some r \<Rightarrow> r \<in> set cargo_reasons)"

definition merge_names :: "string list \<Rightarrow> string list \<times> bool \<Rightarrow> string list \<times> bool" where
  "merge_names names acc = fold record_package names acc"

definition merge_build :: "build_telemetry \<Rightarrow> build_telemetry \<Rightarrow> build_telemetry" where
  "merge_build b t =
     (let (rebuilt, truncated) = merge_names (btm_rebuilt_packages b) (btm_rebuilt_packages t, btm_packages_truncated t);
          (scripts, truncated) = merge_names (btm_build_script_packages b) (btm_build_script_packages t, truncated)
      in \<lparr>btm_total_units = sat_add (btm_total_units t) (btm_total_units b),
          btm_fresh_units = sat_add (btm_fresh_units t) (btm_fresh_units b),
          btm_rebuilt_units = sat_add (btm_rebuilt_units t) (btm_rebuilt_units b),
          btm_build_scripts = sat_add (btm_build_scripts t) (btm_build_scripts b),
          btm_linked_units = sat_add (btm_linked_units t) (btm_linked_units b),
          btm_rebuilt_packages = rebuilt, btm_build_script_packages = scripts,
          btm_packages_truncated = truncated \<or> btm_packages_truncated b\<rparr>)"

text \<open>The end of \<open>consume_line\<close>: a line that is not malformed.\<close>

definition absorb_line :: "stream_env \<Rightarrow> bool \<Rightarrow> string \<Rightarrow> cargo_stream \<Rightarrow> cargo_stream" where
  "absorb_line env cargo_record line st =
     (let st = (if cargo_record then st else retain_human_output line st);
          parsed = parse_cargo_output (sv_message env) (sv_uni env) line;
          st = (case cgo_build parsed of None \<Rightarrow> st | Some b \<Rightarrow> st\<lparr>cst_build := merge_build b (cst_build st)\<rparr>)
      in fold (retain env) (cgo_diagnostics parsed) st)"

definition consume_line :: "stream_env \<Rightarrow> cargo_stream \<Rightarrow> cargo_stream" where
  "consume_line env st =
     (if cst_discard_line st then st
      else
        let line = cst_line st; st = st\<lparr>cst_line := []\<rparr> in
        if \<not> from_utf8_ok line then with_stats count_malformed st
        else
          let st = with_stats (count_summary line) st in
          if head_in ''{'' (trim_start line) then
            (case sv_value env line of
               None \<Rightarrow> with_stats count_malformed st
             | Some v \<Rightarrow>
                 let st = with_stats (count_record v) st in
                 if \<not> valid_known_message (sv_message env) line v then with_stats count_malformed st
                 else absorb_line env (is_cargo_record v) line st)
          else absorb_line env False line st)"

text \<open>A piece of a line.\<close>

definition extend_line :: "string \<Rightarrow> cargo_stream \<Rightarrow> cargo_stream" where
  "extend_line segment st =
     (if cst_discard_line st then st
      else if cst_max_line st < sat_add (length (cst_line st)) (length segment)
      then with_stats (\<lambda>s. s\<lparr>es_oversized_lines := sat_add (es_oversized_lines s) 1\<rparr>)
             (st\<lparr>cst_line := [], cst_discard_line := True\<rparr>)
      else st\<lparr>cst_line := cst_line st @ segment\<rparr>)"

abbreviation not_newline :: "char \<Rightarrow> bool" where "not_newline c \<equiv> c \<noteq> CHR 0x0A"

function push_bytes :: "stream_env \<Rightarrow> string \<Rightarrow> cargo_stream \<Rightarrow> cargo_stream" where
  "push_bytes env bytes st =
     (if bytes = [] then st
      else
        let st = extend_line (takeWhile not_newline bytes) st in
        case dropWhile not_newline bytes of
          [] \<Rightarrow> st
        | _ # rest \<Rightarrow> push_bytes env rest ((consume_line env st)\<lparr>cst_discard_line := False\<rparr>))"
  by pat_completeness auto
termination
proof (relation "measure (\<lambda>(env, bytes, st). length bytes)")
  fix env :: stream_env and bytes rest :: string and st st' :: cargo_stream and c
  assume "dropWhile not_newline bytes = c # rest"
  then have "length (c # rest) \<le> length bytes" by (metis length_dropWhile_le)
  then show "((env, rest, (consume_line env st')\<lparr>cst_discard_line := False\<rparr>), env, bytes, st) \<in> measure (\<lambda>(env, bytes, st). length bytes)"
    by simp
qed simp

declare push_bytes.simps [simp del]

text \<open>\<open>push\<close>: the state, and whether a diagnostic was seen in this chunk.\<close>

definition stream_push :: "stream_env \<Rightarrow> string \<Rightarrow> cargo_stream \<Rightarrow> bool \<times> cargo_stream" where
  "stream_push env bytes st =
     (let st' = push_bytes env bytes st
      in (es_diagnostic_records (cst_stats st) < es_diagnostic_records (cst_stats st'), st'))"

definition first_summary :: "cargo_stream \<Rightarrow> string option" where
  "first_summary st =
     (case cst_diagnostics st of
        [] \<Rightarrow> None
      | d # _ \<Rightarrow>
          Some (''UNTRUSTED provisional compiler evidence: '' @ unwrap_or (dia_code d) (level_as_str (dia_level d)) @
            '': '' @ chars_take 256 (dia_message d)))"

definition finish_with_human_output :: "stream_env \<Rightarrow> cargo_stream \<Rightarrow> cargo_output \<times> evidence_stats \<times> string" where
  "finish_with_human_output env st0 =
     (let st = consume_line env st0; s = cst_stats st in
      (\<lparr>cgo_diagnostics = cst_diagnostics st,
        cgo_build = (if telemetry_is_empty (cst_build st) then None else Some (cst_build st)),
        cgo_untrusted_data = True,
        cgo_truncated = (0 < es_omitted_records s \<or> 0 < es_malformed_lines s \<or> 0 < es_oversized_lines s)\<rparr>,
       s, cst_human_output st))"

definition stream_finish :: "stream_env \<Rightarrow> cargo_stream \<Rightarrow> cargo_output \<times> evidence_stats" where
  "stream_finish env st = (case finish_with_human_output env st of (out, s, _) \<Rightarrow> (out, s))"

section \<open>Chunks\<close>

lemma extend_line_twice: "extend_line seg2 (extend_line seg1 st) = extend_line (seg1 @ seg2) st"
  by (auto simp: extend_line_def with_stats_def sat_add_def)

lemma push_bytes_append: "push_bytes env (xs @ ys) st = push_bytes env ys (push_bytes env xs st)"
proof (induction env xs st rule: push_bytes.induct)
  case (1 env xs st)
  show ?case
  proof (cases "dropWhile not_newline xs")
    case Nil
    then have all: "\<forall>c \<in> set xs. not_newline c" by (simp add: dropWhile_eq_Nil_conv)
    show ?thesis
    proof (cases "xs = [] \<or> ys = []")
      case False
      have xs: "takeWhile not_newline xs = xs" using all by (simp add: takeWhile_eq_all_conv)
      have "push_bytes env xs st = extend_line xs st" unfolding push_bytes.simps [of env xs st] Nil xs Let_def using False by simp
      moreover have "takeWhile not_newline (xs @ ys) = xs @ takeWhile not_newline ys"
        "dropWhile not_newline (xs @ ys) = dropWhile not_newline ys"
        using all by (simp_all add: takeWhile_append2 dropWhile_append2)
      ultimately show ?thesis
        using False extend_line_twice [of "takeWhile not_newline ys" xs st]
        by (simp add: push_bytes.simps [of env "xs @ ys"] push_bytes.simps [of env ys] Let_def)
    qed (auto simp: push_bytes.simps [of env "[]"])
  next
    case (Cons c rest)
    then have "dropWhile not_newline xs \<noteq> []" by simp
    then have "\<exists>d \<in> set xs. \<not> not_newline d" unfolding dropWhile_eq_Nil_conv by blast
    then have cut: "takeWhile not_newline (xs @ ys) = takeWhile not_newline xs"
      "dropWhile not_newline (xs @ ys) = dropWhile not_newline xs @ ys"
      by (auto simp: takeWhile_append1 dropWhile_append1)
    have ne: "xs \<noteq> []" using Cons by auto
    from 1 [OF ne refl Cons] show ?thesis
      using ne Cons cut by (simp add: push_bytes.simps [of env "xs @ ys"] push_bytes.simps [of env xs] Let_def)
  qed
qed

section \<open>What is kept\<close>

definition stored_size :: "stream_env \<Rightarrow> diagnostic \<Rightarrow> nat" where
  "stored_size env d = unwrap_or (sv_json_len env d) u64_max"

text \<open>
  The evidence kept is within its two budgets, the byte counter is the sum of the sizes, the key set is that of
  the diagnostics kept, none of which repeats, and every record seen is kept, a duplicate or omitted.
\<close>

definition stream_ok :: "stream_env \<Rightarrow> cargo_stream \<Rightarrow> bool" where
  "stream_ok env st \<longleftrightarrow>
     length (cst_diagnostics st) \<le> cst_max_diagnostics st \<and>
     cst_evidence_bytes st = sum_list (map (stored_size env) (cst_diagnostics st)) \<and>
     cst_evidence_bytes st \<le> cst_max_evidence_bytes st \<and>
     list_all (\<lambda>d. sv_json_len env d \<noteq> None) (cst_diagnostics st) \<and>
     set (cst_keys st) = unit_key (sv_uni env) ` set (cst_diagnostics st) \<and>
     distinct (map (unit_key (sv_uni env)) (cst_diagnostics st))"

definition balanced :: "cargo_stream \<Rightarrow> bool" where
  "balanced st \<longleftrightarrow>
     es_diagnostic_records (cst_stats st) =
       es_duplicates (cst_stats st) + es_omitted_records (cst_stats st) + length (cst_diagnostics st)"

definition kept_errors :: "cargo_stream \<Rightarrow> diagnostic list" where
  "kept_errors st = filter (\<lambda>d. dia_level d = LevelError) (cst_diagnostics st)"

lemma drop_nth_split: "i < length xs \<Longrightarrow> xs = take i xs @ xs ! i # drop (Suc i) xs"
  by (simp add: id_take_nth_drop)

lemma sum_remove_at: "i < length xs \<Longrightarrow> sum_list (map f (remove_at i xs)) = sum_list (map f xs) - (f (xs ! i) :: nat)"
  by (subst (2) drop_nth_split [of i xs]) (simp_all add: remove_at_def)

lemma set_remove_at: "i < length xs \<Longrightarrow> distinct (map f xs) \<Longrightarrow> f ` set (remove_at i xs) = f ` set xs - {f (xs ! i)}"
proof -
  assume i: "i < length xs" and d: "distinct (map f xs)"
  have "map f xs = map f (take i xs) @ f (xs ! i) # map f (drop (Suc i) xs)"
    using drop_nth_split [OF i] by (metis list.simps(9) map_append)
  with d have no: "f (xs ! i) \<notin> f ` set (take i xs)" "f (xs ! i) \<notin> f ` set (drop (Suc i) xs)" by auto
  have "set xs = insert (xs ! i) (set (remove_at i xs))"
    by (subst drop_nth_split [OF i]) (auto simp: remove_at_def)
  then have "f ` set xs = insert (f (xs ! i)) (f ` set (remove_at i xs))" by (metis image_insert)
  moreover have "f (xs ! i) \<notin> f ` set (remove_at i xs)" using no by (simp add: remove_at_def image_Un)
  ultimately show ?thesis by blast
qed

lemma distinct_remove_at: "distinct (map f xs) \<Longrightarrow> distinct (map f (remove_at i xs))"
  unfolding remove_at_def map_append take_map [symmetric] drop_map [symmetric]
  by (meson distinct_append distinct_drop distinct_take set_take_disj_set_drop_if_distinct le_SucI order_refl)

lemma errors_remove_at:
  assumes "i < length xs" "dia_level (xs ! i) = LevelWarning"
  shows "filter (\<lambda>d. dia_level d = LevelError) (remove_at i xs) = filter (\<lambda>d. dia_level d = LevelError) xs"
  by (subst (2) drop_nth_split [OF assms(1)]) (use assms(2) in \<open>simp add: remove_at_def\<close>)

lemma with_stats_fields [simp]:
  "cst_line (with_stats f st) = cst_line st" "cst_discard_line (with_stats f st) = cst_discard_line st"
  "cst_max_line (with_stats f st) = cst_max_line st" "cst_max_diagnostics (with_stats f st) = cst_max_diagnostics st"
  "cst_max_evidence_bytes (with_stats f st) = cst_max_evidence_bytes st"
  "cst_evidence_bytes (with_stats f st) = cst_evidence_bytes st" "cst_diagnostics (with_stats f st) = cst_diagnostics st"
  "cst_keys (with_stats f st) = cst_keys st" "cst_build (with_stats f st) = cst_build st"
  "cst_stats (with_stats f st) = f (cst_stats st)" "cst_human_output (with_stats f st) = cst_human_output st"
  by (simp_all add: with_stats_def)

text \<open>The invariant of the loop that makes room; \<open>n\<close> counts the records not yet accounted for.\<close>

definition room_ok :: "stream_env \<Rightarrow> nat \<Rightarrow> cargo_stream \<Rightarrow> bool" where
  "room_ok env n st \<longleftrightarrow>
     stream_ok env st \<and> es_diagnostic_records (cst_stats st) \<le> u64_max \<and>
     es_diagnostic_records (cst_stats st) =
       es_duplicates (cst_stats st) + es_omitted_records (cst_stats st) + length (cst_diagnostics st) + n"

lemma room_ok_omit: "room_ok env (Suc n) st \<Longrightarrow> room_ok env n (with_stats count_omitted st)"
  by (auto simp: room_ok_def stream_ok_def sat_add_def)

lemma evict_ok:
  assumes ok: "room_ok env n st" and i: "i < length (cst_diagnostics st)" "dia_level (cst_diagnostics st ! i) = LevelWarning"
  defines "d \<equiv> cst_diagnostics st ! i"
  defines "st' \<equiv> with_stats count_omitted
    (st\<lparr>cst_diagnostics := remove_at i (cst_diagnostics st),
        cst_keys := removeAll (unit_key (sv_uni env) d) (cst_keys st),
        cst_evidence_bytes := cst_evidence_bytes st - (case sv_json_len env d of None \<Rightarrow> 0 | Some n \<Rightarrow> n)\<rparr>)"
  shows "room_ok env n st'" "kept_errors st' = kept_errors st" "cst_max_diagnostics st' = cst_max_diagnostics st"
    "cst_max_evidence_bytes st' = cst_max_evidence_bytes st" "set (cst_keys st') \<subseteq> set (cst_keys st)"
proof -
  have "d \<in> set (cst_diagnostics st)" using i(1) by (simp add: d_def)
  then have some: "(case sv_json_len env d of None \<Rightarrow> 0 | Some n \<Rightarrow> n) = stored_size env d"
    using ok by (auto simp: room_ok_def stream_ok_def list_all_iff stored_size_def unwrap_or_def split: option.splits)
  have sub: "set (remove_at i (cst_diagnostics st)) \<subseteq> set (cst_diagnostics st)"
    by (auto simp: remove_at_def dest: in_set_takeD in_set_dropD)
  have "stream_ok env st'"
    using ok i sub unfolding room_ok_def stream_ok_def st'_def some unfolding d_def
    by (auto simp: length_remove_at sum_remove_at set_remove_at distinct_remove_at list_all_iff)
  moreover have "length (cst_diagnostics st') + 1 = length (cst_diagnostics st)"
    using i(1) by (simp add: st'_def length_remove_at)
  ultimately show "room_ok env n st'" using ok by (auto simp: room_ok_def st'_def sat_add_def)
  show "kept_errors st' = kept_errors st" using errors_remove_at [OF i] by (simp add: kept_errors_def st'_def)
  show "cst_max_diagnostics st' = cst_max_diagnostics st" "cst_max_evidence_bytes st' = cst_max_evidence_bytes st"
    "set (cst_keys st') \<subseteq> set (cst_keys st)" by (auto simp: st'_def)
qed

lemma make_room_ok:
  assumes "room_ok env (Suc n) st" "make_room env level sz st = (fits, st')"
  shows "(if fits then room_ok env (Suc n) st' \<and> length (cst_diagnostics st') < cst_max_diagnostics st' \<and>
            sat_add (cst_evidence_bytes st') sz \<le> cst_max_evidence_bytes st' else room_ok env n st') \<and>
    kept_errors st' = kept_errors st \<and> cst_max_diagnostics st' = cst_max_diagnostics st \<and>
    cst_max_evidence_bytes st' = cst_max_evidence_bytes st \<and> set (cst_keys st') \<subseteq> set (cst_keys st)"
  using assms
proof (induction env level sz st rule: make_room.induct)
  case (1 env level sz st)
  show ?case
  proof (cases "cst_max_diagnostics st \<le> length (cst_diagnostics st) \<or> cst_max_evidence_bytes st < sat_add (cst_evidence_bytes st) sz")
    case full: True
    show ?thesis
    proof (cases "if level = LevelError then last_warning (cst_diagnostics st) else None")
      case None
      with full "1.prems" room_ok_omit [OF "1.prems"(1)] show ?thesis
        by (auto simp: make_room.simps [of env level sz st] kept_errors_def)
    next
      case (Some i)
      then have i: "i < length (cst_diagnostics st)" "dia_level (cst_diagnostics st ! i) = LevelWarning"
        using last_warning_bound by (auto split: if_splits)
      note evicted = evict_ok [OF "1.prems"(1) i]
      from "1.IH" [OF full Some refl refl evicted(1)] "1.prems"(2) full Some
      show ?thesis using evicted(2-) by (auto simp: make_room.simps [of env level sz st] Let_def)
    qed
  next
    case False
    with "1.prems" show ?thesis by (auto simp: make_room.simps [of env level sz st])
  qed
qed

lemma make_room_records:
  "es_diagnostic_records (cst_stats (snd (make_room env level sz st))) = es_diagnostic_records (cst_stats st)"
proof (induction env level sz st rule: make_room.induct)
  case (1 env level sz st)
  show ?case
  proof (cases "cst_max_diagnostics st \<le> length (cst_diagnostics st) \<or> cst_max_evidence_bytes st < sat_add (cst_evidence_bytes st) sz")
    case full: True
    show ?thesis
    proof (cases "if level = LevelError then last_warning (cst_diagnostics st) else None")
      case (Some i)
      from "1.IH" [OF full Some refl refl] full Some show ?thesis
        by (simp add: make_room.simps [of env level sz st] Let_def)
    qed (use full in \<open>simp add: make_room.simps [of env level sz st]\<close>)
  qed (simp add: make_room.simps [of env level sz st])
qed

lemma make_room_maxes:
  "cst_max_evidence_bytes (snd (make_room env level sz st)) = cst_max_evidence_bytes st"
  "cst_max_diagnostics (snd (make_room env level sz st)) = cst_max_diagnostics st"
proof -
  have "cst_max_evidence_bytes (snd (make_room env level sz st)) = cst_max_evidence_bytes st \<and>
    cst_max_diagnostics (snd (make_room env level sz st)) = cst_max_diagnostics st"
  proof (induction env level sz st rule: make_room.induct)
    case (1 env level sz st)
    show ?case
    proof (cases "cst_max_diagnostics st \<le> length (cst_diagnostics st) \<or> cst_max_evidence_bytes st < sat_add (cst_evidence_bytes st) sz")
      case full: True
      show ?thesis
      proof (cases "if level = LevelError then last_warning (cst_diagnostics st) else None")
        case (Some i)
        from "1.IH" [OF full Some refl refl] full Some show ?thesis
          by (simp add: make_room.simps [of env level sz st] Let_def)
      qed (use full in \<open>simp add: make_room.simps [of env level sz st]\<close>)
    qed (simp add: make_room.simps [of env level sz st])
  qed
  then show "cst_max_evidence_bytes (snd (make_room env level sz st)) = cst_max_evidence_bytes st"
    "cst_max_diagnostics (snd (make_room env level sz st)) = cst_max_diagnostics st" by blast+
qed

lemma retain_ok:
  fixes d :: diagnostic
  assumes ok: "stream_ok env st" "balanced st" and few: "es_diagnostic_records (cst_stats st) < u64_max"
    and small: "cst_max_evidence_bytes st < u64_max"
  defines "st' \<equiv> retain env d st"
  shows "stream_ok env st' \<and> balanced st' \<and>
    es_diagnostic_records (cst_stats st') = es_diagnostic_records (cst_stats st) + 1 \<and>
    cst_max_evidence_bytes st' = cst_max_evidence_bytes st \<and> cst_max_diagnostics st' = cst_max_diagnostics st \<and>
    (\<exists>more. kept_errors st' = kept_errors st @ more)"
proof -
  let ?st = "with_stats (\<lambda>s. s\<lparr>es_diagnostic_records := sat_add (es_diagnostic_records s) 1\<rparr>) st"
  let ?key = "unit_key (sv_uni env) d" and ?sz = "stored_size env d"
  have rec: "es_diagnostic_records (cst_stats ?st) = es_diagnostic_records (cst_stats st) + 1"
    using few by (simp add: sat_add_def)
  have room: "room_ok env (Suc 0) ?st" using ok few by (auto simp: room_ok_def stream_ok_def balanced_def sat_add_def)
  have records: "es_diagnostic_records (cst_stats st2) = es_diagnostic_records (cst_stats st1)"
    if "make_room env level sz st1 = (fits, st2)" for level sz st1 fits st2
    using make_room_records [of env level sz st1] that by simp
  show ?thesis
  proof (cases "?key \<in> set (cst_keys st)")
    case True
    then have "st' = with_stats (\<lambda>s. s\<lparr>es_duplicates := sat_add (es_duplicates s) 1\<rparr>) ?st"
      by (simp add: st'_def retain_def)
    with room rec show ?thesis by (auto simp: room_ok_def stream_ok_def balanced_def sat_add_def kept_errors_def)
  next
    case new: False
    show ?thesis
    proof (cases "cst_max_evidence_bytes st < ?sz \<or> cst_max_diagnostics st = 0")
      case True
      with new have "st' = with_stats count_omitted ?st" by (simp add: st'_def retain_def stored_size_def)
      with room_ok_omit [of env 0 ?st] room rec show ?thesis by (auto simp: room_ok_def balanced_def kept_errors_def)
    next
      case sized: False
      obtain fits st2 where mr: "make_room env (dia_level d) ?sz ?st = (fits, st2)" by fastforce
      note r = make_room_ok [OF room mr] records [OF mr]
      show ?thesis
      proof (cases fits)
        case False
        with new sized mr have "st' = st2" by (simp add: st'_def retain_def stored_size_def)
        with r False rec show ?thesis by (auto simp: room_ok_def balanced_def kept_errors_def)
      next
        case True
        with new sized mr have st': "st' = st2\<lparr>cst_evidence_bytes := cst_evidence_bytes st2 + ?sz,
            cst_keys := ?key # cst_keys st2, cst_diagnostics := cst_diagnostics st2 @ [d]\<rparr>"
          by (simp add: st'_def retain_def stored_size_def)
        have some: "sv_json_len env d \<noteq> None"
          using sized small by (auto simp: stored_size_def unwrap_or_def split: option.splits)
        have fresh: "?key \<notin> unit_key (sv_uni env) ` set (cst_diagnostics st2)"
          using new r True by (auto simp: room_ok_def stream_ok_def)
        have fit: "cst_evidence_bytes st2 + ?sz \<le> cst_max_evidence_bytes st2"
          using r True small by (auto simp: sat_add_def)
        show ?thesis unfolding st'
          using r True some fresh fit rec by (auto simp: room_ok_def stream_ok_def balanced_def kept_errors_def)
      qed
    qed
  qed
qed

section \<open>The whole stream\<close>

text \<open>What every operation keeps, as long as the record counter does not saturate.\<close>

definition progress :: "stream_env \<Rightarrow> cargo_stream \<Rightarrow> cargo_stream \<Rightarrow> bool" where
  "progress env st st' \<longleftrightarrow>
     (es_diagnostic_records (cst_stats st') < u64_max \<longrightarrow>
      es_diagnostic_records (cst_stats st) \<le> es_diagnostic_records (cst_stats st')) \<and>
     cst_max_evidence_bytes st' = cst_max_evidence_bytes st \<and> cst_max_diagnostics st' = cst_max_diagnostics st \<and>
     (stream_ok env st \<and> balanced st \<and> cst_max_evidence_bytes st < u64_max \<and>
        es_diagnostic_records (cst_stats st') < u64_max \<longrightarrow>
      stream_ok env st' \<and> balanced st' \<and> prefix (kept_errors st) (kept_errors st'))"

lemma progress_trans: "progress env st st1 \<Longrightarrow> progress env st1 st2 \<Longrightarrow> progress env st st2"
  unfolding progress_def by (auto intro: prefix_order.trans)

lemma progress_same:
  assumes "cst_diagnostics st' = cst_diagnostics st" "cst_keys st' = cst_keys st"
    "cst_evidence_bytes st' = cst_evidence_bytes st" "cst_max_evidence_bytes st' = cst_max_evidence_bytes st"
    "cst_max_diagnostics st' = cst_max_diagnostics st"
    "es_diagnostic_records (cst_stats st') = es_diagnostic_records (cst_stats st)"
    "es_duplicates (cst_stats st') = es_duplicates (cst_stats st)"
    "es_omitted_records (cst_stats st') = es_omitted_records (cst_stats st)"
  shows "progress env st st'"
  using assms by (simp add: progress_def stream_ok_def balanced_def kept_errors_def)

lemma progress_refl: "progress env st st"
  by (rule progress_same) simp_all

lemma retain_records:
  "es_diagnostic_records (cst_stats (retain env d st)) = sat_add (es_diagnostic_records (cst_stats st)) 1"
  "cst_max_evidence_bytes (retain env d st) = cst_max_evidence_bytes st"
  "cst_max_diagnostics (retain env d st) = cst_max_diagnostics st"
proof -
  let ?st = "with_stats (\<lambda>s. s\<lparr>es_diagnostic_records := sat_add (es_diagnostic_records s) 1\<rparr>) st"
  let ?r = "make_room env (dia_level d) (unwrap_or (sv_json_len env d) u64_max) ?st"
  consider (same) f where "retain env d st = with_stats f ?st" "\<And>s. es_diagnostic_records (f s) = es_diagnostic_records s"
    | (room) "retain env d st = snd ?r"
    | (kept) "retain env d st = (snd ?r)\<lparr>cst_evidence_bytes := cst_evidence_bytes (snd ?r) + unwrap_or (sv_json_len env d) u64_max,
        cst_keys := unit_key (sv_uni env) d # cst_keys (snd ?r), cst_diagnostics := cst_diagnostics (snd ?r) @ [d]\<rparr>"
    by (cases ?r; cases "fst ?r") (fastforce simp: retain_def Let_def split: if_splits)+
  note cases = this
  show "es_diagnostic_records (cst_stats (retain env d st)) = sat_add (es_diagnostic_records (cst_stats st)) 1"
    by (cases rule: cases) (simp_all add: make_room_records)
  show "cst_max_evidence_bytes (retain env d st) = cst_max_evidence_bytes st"
    by (cases rule: cases) (simp_all add: make_room_maxes)
  show "cst_max_diagnostics (retain env d st) = cst_max_diagnostics st"
    by (cases rule: cases) (simp_all add: make_room_maxes)
qed

lemma progress_retain: "progress env st (retain env d st)"
proof (cases "es_diagnostic_records (cst_stats st) < u64_max")
  case True
  then show ?thesis
    using retain_ok [of env st d] retain_records [of env d st] by (auto simp: progress_def prefix_def sat_add_def)
next
  case False
  then show ?thesis using retain_records [of env d st] by (auto simp: progress_def sat_add_def)
qed

lemma progress_fold: "progress env st (fold (retain env) ds st)"
  by (induction ds arbitrary: st) (auto simp: progress_refl intro: progress_trans [OF progress_retain])

lemma progress_absorb: "progress env st (absorb_line env cargo_record line st)"
proof -
  let ?a = "if cargo_record then st else retain_human_output line st"
  let ?p = "parse_cargo_output (sv_message env) (sv_uni env) line"
  let ?b = "case cgo_build ?p of None \<Rightarrow> ?a | Some b \<Rightarrow> ?a\<lparr>cst_build := merge_build b (cst_build ?a)\<rparr>"
  have "progress env st ?b"
    by (rule progress_same) (auto simp: retain_human_output_def Let_def split: option.splits)
  from progress_trans [OF this progress_fold] show ?thesis by (simp add: absorb_line_def Let_def)
qed

lemma count_fields [simp]:
  "es_diagnostic_records (count_summary line s) = es_diagnostic_records s" "es_duplicates (count_summary line s) = es_duplicates s"
  "es_omitted_records (count_summary line s) = es_omitted_records s"
  "es_diagnostic_records (count_record v s) = es_diagnostic_records s" "es_duplicates (count_record v s) = es_duplicates s"
  "es_omitted_records (count_record v s) = es_omitted_records s"
  by (auto simp: count_summary_def count_record_def Let_def split: option.splits)

lemma progress_consume: "progress env st (consume_line env st)"
proof -
  let ?line = "cst_line st" and ?st = "st\<lparr>cst_line := []\<rparr>"
  let ?s = "with_stats (count_summary ?line) ?st"
  have malformed: "progress env st (with_stats count_malformed ?st)" "progress env st (with_stats count_malformed ?s)"
    "progress env st (with_stats count_malformed (with_stats (count_record v) ?s))" for v
    by (rule progress_same; simp)+
  have absorbed: "progress env st (absorb_line env False ?line ?s)"
    "progress env st (absorb_line env c ?line (with_stats (count_record v) ?s))" for c v
    by (rule progress_trans [OF progress_same progress_absorb]; simp)+
  show ?thesis
    using malformed absorbed progress_refl by (simp add: consume_line_def Let_def split: option.splits)
qed

lemma progress_extend: "progress env st (extend_line segment st)"
  by (rule progress_same) (simp_all add: extend_line_def)

lemma progress_push: "progress env st (push_bytes env bytes st)"
proof (induction env bytes st rule: push_bytes.induct)
  case (1 env bytes st)
  let ?e = "extend_line (takeWhile not_newline bytes) st"
  let ?c = "(consume_line env ?e)\<lparr>cst_discard_line := False\<rparr>"
  have e: "progress env st ?e" by (rule progress_extend)
  have c: "progress env st ?c"
    by (rule progress_trans [OF progress_trans [OF e progress_consume] progress_same]) simp_all
  show ?case
  proof (cases "bytes = []")
    case True
    then show ?thesis unfolding push_bytes.simps [of env bytes st] by (simp add: progress_refl)
  next
    case ne: False
    show ?thesis
    proof (cases "dropWhile not_newline bytes")
      case Nil
      with ne e show ?thesis unfolding push_bytes.simps [of env bytes st] Let_def Nil by simp
    next
      case (Cons x rest)
      from progress_trans [OF c "1.IH" [OF ne refl Cons]] ne show ?thesis
        unfolding push_bytes.simps [of env bytes st] Let_def Cons by simp
    qed
  qed
qed

definition push_chunks :: "stream_env \<Rightarrow> string list \<Rightarrow> cargo_stream \<Rightarrow> cargo_stream" where
  "push_chunks env chunks st = fold (\<lambda>bytes st. snd (stream_push env bytes st)) chunks st"

lemma push_chunks_concat: "push_chunks env chunks st = push_bytes env (concat chunks) st"
  unfolding push_chunks_def
  by (induction chunks arbitrary: st) (simp_all add: stream_push_def Let_def push_bytes_append push_bytes.simps [of env "[]"])

text \<open>
  C34: However Cargo's output is cut into chunks, what the stream reports at its end is what one push of the whole
  output gives.
\<close>

theorem stream_independent_of_chunks:
  "concat chunks = concat chunks' \<Longrightarrow>
   finish_with_human_output env (push_chunks env chunks st) = finish_with_human_output env (push_chunks env chunks' st)"
  by (simp add: push_chunks_concat)

text \<open>
  C33: The evidence a stream reports: at most the configured number of diagnostics and of bytes, no two with the same
  key, and every record that was seen is reported, counted as duplicate or counted as omitted. An error that was
  kept at some point of the output is still there at the end, in order: only warnings make room.
\<close>

theorem stream_evidence_accounts:
  assumes "finish_with_human_output env (push_chunks env (before @ after) (cargo_stream_new max_line max_diagnostics max_bytes)) = (out, stats, human)"
    and "max_bytes < u64_max" and "es_diagnostic_records stats < u64_max"
  shows "length (cgo_diagnostics out) \<le> max_diagnostics \<and>
    sum_list (map (stored_size env) (cgo_diagnostics out)) \<le> max_bytes \<and>
    distinct (map (unit_key (sv_uni env)) (cgo_diagnostics out)) \<and>
    es_diagnostic_records stats = es_duplicates stats + es_omitted_records stats + length (cgo_diagnostics out) \<and>
    prefix (kept_errors (push_chunks env before (cargo_stream_new max_line max_diagnostics max_bytes)))
      (filter (\<lambda>d. dia_level d = LevelError) (cgo_diagnostics out))"
proof -
  let ?new = "cargo_stream_new max_line max_diagnostics max_bytes"
  let ?mid = "push_chunks env before ?new" and ?all = "push_chunks env (before @ after) ?new"
  let ?last = "consume_line env ?all"
  have mid: "progress env ?new ?mid" by (simp add: push_chunks_concat progress_push)
  have "progress env ?mid ?all"
    by (simp add: push_chunks_concat push_bytes_append progress_push)
  from progress_trans [OF this progress_consume] have tail: "progress env ?mid ?last" .
  have new: "stream_ok env ?new" "balanced ?new" "cst_max_evidence_bytes ?new = max_bytes" "cst_max_diagnostics ?new = max_diagnostics"
    by (simp_all add: stream_ok_def balanced_def cargo_stream_new_def evidence_stats_new_def)
  from assms(1) have out: "cgo_diagnostics out = cst_diagnostics ?last" "stats = cst_stats ?last"
    by (auto simp: finish_with_human_output_def Let_def)
  have "es_diagnostic_records (cst_stats ?mid) < u64_max" using tail assms(3) out by (simp add: progress_def)
  with mid new assms(2) have m: "stream_ok env ?mid" "balanced ?mid" "cst_max_evidence_bytes ?mid = max_bytes" "cst_max_diagnostics ?mid = max_diagnostics"
    by (auto simp: progress_def)
  with tail assms(2,3) out have "stream_ok env ?last" "balanced ?last" "prefix (kept_errors ?mid) (kept_errors ?last)"
    "cst_max_evidence_bytes ?last = max_bytes" "cst_max_diagnostics ?last = max_diagnostics"
    by (auto simp: progress_def)
  with out show ?thesis by (simp add: stream_ok_def balanced_def kept_errors_def)
qed

end
