(* ===== verification/Diagnostic_Render.thy ===== *)
theory Diagnostic_Render
  imports Parser_Properties
begin

text \<open>
  Showing diagnostics: the bounded text and its structured twin (\<open>diagnostics/render.rs\<close>) and the source
  excerpts that go with them (\<open>diagnostics/context.rs\<close>). Shown: the text fits its byte limit, carries no control
  byte, lists errors before warnings, and whatever it leaves out is reported; the excerpts read a bounded number
  of files.
\<close>

section \<open>Options and results\<close>

datatype diagnostic_detail = DetailCompact | DetailStandard | DetailFull

definition default_diagnostic_limit :: "diagnostic_detail \<Rightarrow> nat" where
  "default_diagnostic_limit d = (case d of DetailCompact \<Rightarrow> 5 | DetailStandard \<Rightarrow> 12 | DetailFull \<Rightarrow> 24)"

definition suggestion_limit :: "diagnostic_detail \<Rightarrow> nat" where
  "suggestion_limit d = (case d of DetailCompact \<Rightarrow> 1 | _ \<Rightarrow> 3)"

definition child_limit :: "diagnostic_detail \<Rightarrow> nat" where
  "child_limit d = (case d of DetailCompact \<Rightarrow> 0 | _ \<Rightarrow> 3)"

definition rendered_limit :: "diagnostic_detail \<Rightarrow> nat" where
  "rendered_limit d = (case d of DetailCompact \<Rightarrow> 0 | DetailStandard \<Rightarrow> 600 | DetailFull \<Rightarrow> 1500)"

record render_options =
  rop_detail :: diagnostic_detail
  rop_max_diagnostics :: nat
  rop_max_bytes :: nat

definition DEFAULT_RENDER_BYTES :: nat where "DEFAULT_RENDER_BYTES = 49152"

definition render_options_for :: "diagnostic_detail \<Rightarrow> nat \<Rightarrow> render_options" where
  "render_options_for detail max_bytes =
     \<lparr>rop_detail = detail, rop_max_diagnostics = default_diagnostic_limit detail, rop_max_bytes = max_bytes\<rparr>"

definition render_options_default :: render_options where
  "render_options_default = render_options_for DetailCompact DEFAULT_RENDER_BYTES"

record rendered_suggestion =
  rsg_message :: string
  rsg_applicability :: suggestion_applicability
  rsg_edit_count :: nat

record rendered_diagnostic =
  rdg_code :: "string option"
  rdg_level :: diagnostic_level
  rdg_file :: "string option"
  rdg_line :: "nat option"
  rdg_message :: string
  rdg_rendered :: "string option"
  rdg_suggestions :: "rendered_suggestion list"
  rdg_children :: "string list"

record structured_diagnostics =
  sdg_errors :: nat
  sdg_warnings :: nat
  sdg_diagnostics :: "rendered_diagnostic list"

record rendered_diagnostics =
  rds_text :: string
  rds_structured :: structured_diagnostics
  rds_untrusted_data :: bool
  rds_truncated :: bool

section \<open>Bounded texts\<close>

definition truncation_suffix :: string where "truncation_suffix = ''... (truncated)''"

definition bound_text :: "string \<Rightarrow> nat \<Rightarrow> string \<times> bool" where
  "bound_text s max_bytes =
     (if length s \<le> max_bytes then (s, False)
      else if max_bytes \<le> length truncation_suffix
      then (take (floor_char_boundary s max_bytes) s, True)
      else (take (floor_char_boundary s (max_bytes - length truncation_suffix)) s @ truncation_suffix, True))"

definition bounded_text :: "string \<Rightarrow> nat \<Rightarrow> string" where
  "bounded_text s max_bytes = fst (bound_text s max_bytes)"

section \<open>Rendering\<close>

text \<open>A child and its first three children at each level: the text line and the structured line of each.\<close>

function render_child :: "diagnostic_detail \<Rightarrow> nat \<Rightarrow> rustc_child \<Rightarrow> (string \<times> string) list" where
  "render_child detail indent (RustcChild level message rendered spans children) =
     (let level_out = bounded_text (sanitize_text level) (min DEFAULT_RENDER_BYTES 256);
          message_out = bounded_text (sanitize_text message) (min DEFAULT_RENDER_BYTES 2000);
          entry = level_out @ '': '' @ message_out
      in (replicate indent (CHR '' '') @ entry @ [CHR 0x0A], entry) #
         (if detail \<noteq> DetailCompact then concat (map (render_child detail (indent + 2)) (take 3 children)) else []))"
  by pat_completeness auto
termination
proof (relation "measure (\<lambda>(detail, indent, c). size c)")
  fix detail indent level message rendered spans children and c :: rustc_child and level_out message_out entry :: string
  assume "c \<in> set (take 3 children)"
  then have "size c \<le> size_list size children" by (auto dest: in_set_takeD intro: size_list_estimation')
  then show "((detail, indent + 2, c), detail, indent, RustcChild level message rendered spans children)
      \<in> measure (\<lambda>(detail, indent, c). size c)" by simp
qed simp

definition render_suggestion :: "nat \<Rightarrow> rustc_suggestion \<Rightarrow> string \<times> rendered_suggestion" where
  "render_suggestion max_bytes s =
     (let message = bounded_text (sanitize_text (rcs_message s)) (min max_bytes 2000) in
      (''    suggestion('' @ applicability_as_str (rcs_applicability s) @ ''): '' @ message @ [CHR 0x0A],
       \<lparr>rsg_message = message, rsg_applicability = rcs_applicability s, rsg_edit_count = length (rcs_edits s)\<rparr>))"

definition render_one :: "render_options \<Rightarrow> diagnostic \<Rightarrow> string \<times> rendered_diagnostic" where
  "render_one opts d =
     (let max_bytes = rop_max_bytes opts; detail = rop_detail opts;
          message = bounded_text (sanitize_text (dia_message d)) (min max_bytes 4000);
          location = bounded_text (sanitize_text (unwrap_or (dia_file d) ''-'')) (min max_bytes 2000);
          code = map_option (\<lambda>c. bounded_text (sanitize_text c) (min max_bytes 256)) (dia_code d);
          suggestions = map (render_suggestion max_bytes) (take (suggestion_limit detail) (dia_suggestions d));
          children = concat (map (render_child detail 4) (take (child_limit detail) (dia_children d)));
          rendered = (if 0 < rendered_limit detail
                      then map_option (\<lambda>r. bounded_text (sanitize_text r) (rendered_limit detail)) (dia_rendered d)
                      else None)
      in (''- '' @ location @ (case dia_line d of None \<Rightarrow> [] | Some l \<Rightarrow> '':'' @ dec l) @ '' '' @
          (case code of None \<Rightarrow> [] | Some c \<Rightarrow> ''['' @ c @ '']'') @ '': '' @ message @ [CHR 0x0A] @
          concat (map fst suggestions) @ concat (map fst children) @
          (case rendered of None \<Rightarrow> [] | Some r \<Rightarrow> ''    rendered: '' @ r @ [CHR 0x0A]),
          \<lparr>rdg_code = code, rdg_level = dia_level d,
           rdg_file = map_option (\<lambda>f. bounded_text (sanitize_text f) (min max_bytes 2000)) (dia_file d),
           rdg_line = dia_line d, rdg_message = message, rdg_rendered = rendered,
           rdg_suggestions = map snd suggestions, rdg_children = map snd children\<rparr>))"

definition errors_first :: "diagnostic list \<Rightarrow> diagnostic list" where
  "errors_first ds =
     filter (\<lambda>d. dia_level d = LevelError) ds @ filter (\<lambda>d. dia_level d = LevelWarning) ds"

definition render_diagnostics :: "diagnostic list \<Rightarrow> render_options \<Rightarrow> rendered_diagnostics" where
  "render_diagnostics ds opts =
     (let errors = length (filter (\<lambda>d. dia_level d = LevelError) ds);
          warnings = length (filter (\<lambda>d. dia_level d = LevelWarning) ds);
          selected = take (rop_max_diagnostics opts) (errors_first ds);
          pieces = map (render_one opts) selected;
          (text_out, truncated_by_bytes) =
            bound_text (''Errors: '' @ dec errors @ '', warnings: '' @ dec warnings @ [CHR 0x0A] @ concat (map fst pieces))
              (rop_max_bytes opts)
      in \<lparr>rds_text = text_out,
          rds_structured = \<lparr>sdg_errors = errors, sdg_warnings = warnings, sdg_diagnostics = map snd pieces\<rparr>,
          rds_untrusted_data = (ds \<noteq> []), rds_truncated = (length selected < length ds \<or> truncated_by_bytes)\<rparr>)"

definition format_diagnostics :: "diagnostic list \<Rightarrow> nat \<Rightarrow> diagnostic_detail \<Rightarrow> string" where
  "format_diagnostics ds max_diagnostics detail =
     rds_text (render_diagnostics ds
       ((render_options_for detail DEFAULT_RENDER_BYTES)\<lparr>rop_max_diagnostics :=
          min max_diagnostics (default_diagnostic_limit detail)\<rparr>))"

section \<open>Bounds and bytes\<close>

lemma bound_text_length: "length (fst (bound_text s m)) \<le> m"
  using floor_char_boundary_le [of s m] floor_char_boundary_le [of s "m - length truncation_suffix"]
  by (auto simp: bound_text_def)

lemma bound_text_utf8: "from_utf8_ok s \<Longrightarrow> from_utf8_ok (fst (bound_text s m))"
proof -
  assume s: "from_utf8_ok s"
  have suffix: "from_utf8_ok truncation_suffix" by code_simp
  have "from_utf8_ok (take (floor_char_boundary s k) s)" for k using utf8_split [OF s floor_char_boundary_ok] by blast
  with s suffix show ?thesis by (simp add: bound_text_def utf8_append)
qed

lemma bounded_clean: "clean_text s \<Longrightarrow> clean_text (fst (bound_text s m))"
proof -
  assume s: "clean_text s"
  have "clean_text truncation_suffix" by code_simp
  then show ?thesis using s clean_text_subset [OF s set_take_subset] by (simp add: bound_text_def)
qed

lemma bounded_sanitized: "clean_text s \<Longrightarrow> clean_text (bounded_text (sanitize_text s) m)"
  by (simp add: bounded_text_def bounded_clean sanitize_clean_text)

lemma clean_Cons: "clean_text (c # s) \<longleftrightarrow> clean_byte c \<and> clean_text s"
  by (simp add: clean_text_def)

lemmas clean_simps = clean_Cons clean_byte_def

lemma dec_clean: "clean_text (dec n)"
  using to_radix_digits [of _ 10 n] by (fastforce simp: clean_text_def list_all_iff clean_byte_def ascii_defs)

lemma applicability_clean: "clean_text (applicability_as_str a)"
  by (cases a; hypsubst; code_simp)

lemma clean_concat: "(\<And>x. x \<in> set xs \<Longrightarrow> clean_text x) \<Longrightarrow> clean_text (concat xs)"
  by (induction xs) auto

lemma render_child_clean: "child_ok c \<Longrightarrow> p \<in> set (render_child detail indent c) \<Longrightarrow> clean_text (fst p) \<and> clean_text (snd p)"
proof (induction detail indent c arbitrary: p rule: render_child.induct)
  case (1 detail indent level message rendered spans children)
  let ?entry = "bounded_text (sanitize_text level) (min DEFAULT_RENDER_BYTES 256) @ '': '' @
    bounded_text (sanitize_text message) (min DEFAULT_RENDER_BYTES 2000)"
  have entry: "clean_text ?entry" using "1.prems"(1) by (simp add: bounded_sanitized clean_simps)
  have pad: "clean_text (replicate indent (CHR '' ''))" by (simp add: clean_text_def list_all_iff clean_byte_def)
  from "1.prems"(2) consider "p = (replicate indent (CHR '' '') @ ?entry @ [CHR 0x0A], ?entry)"
    | c where "c \<in> set (take 3 children)" "p \<in> set (render_child detail (indent + 2) c)" "detail \<noteq> DetailCompact"
    by (auto simp: Let_def split: if_splits)
  then show ?case
  proof cases
    case 1
    then show ?thesis using entry pad by (simp add: clean_simps)
  next
    case 2
    then have "child_ok c" using "1.prems"(1) by (auto simp: list_all_iff dest: in_set_takeD)
    with "1.IH" [OF refl refl refl 2(3) 2(1)] 2(2) show ?thesis by blast
  qed
qed

lemma render_suggestion_clean: "suggestion_ok sg \<Longrightarrow> clean_text (fst (render_suggestion m sg))"
  by (simp add: suggestion_ok_def render_suggestion_def Let_def bounded_sanitized applicability_clean clean_simps)

lemma render_one_clean:
  assumes "diagnostic_ok d"
  shows "clean_text (fst (render_one opts d))"
proof -
  let ?ss = "take (suggestion_limit (rop_detail opts)) (dia_suggestions d)"
  let ?cs = "take (child_limit (rop_detail opts)) (dia_children d)"
  have loc: "clean_text (unwrap_or (dia_file d) ''-'')"
    using assms by (cases "dia_file d") (auto simp: diagnostic_ok_def unwrap_or_def clean_simps)
  have "clean_text (fst (render_suggestion m sg))" if "sg \<in> set ?ss" for sg m
    using that assms by (intro render_suggestion_clean) (auto simp: diagnostic_ok_def list_all_iff dest: in_set_takeD)
  then have s: "clean_text (concat (map fst (map (render_suggestion m) ?ss)))" for m by (intro clean_concat) auto
  have "clean_text (fst p)" if "c \<in> set ?cs" "p \<in> set (render_child (rop_detail opts) 4 c)" for c p
    using that assms render_child_clean [of c p] by (auto simp: diagnostic_ok_def list_all_iff dest: in_set_takeD)
  then have c: "clean_text (concat (map fst (concat (map (render_child (rop_detail opts) 4) ?cs))))"
    by (intro clean_concat) auto
  have r: "clean_text (case (if 0 < n then map_option (\<lambda>r. bounded_text (sanitize_text r) n) (dia_rendered d) else None) of
      None \<Rightarrow> [] | Some r \<Rightarrow> ''    rendered: '' @ r @ [CHR 0x0A])" for n
    using assms by (cases "dia_rendered d") (auto simp: diagnostic_ok_def bounded_sanitized clean_simps)
  have code: "clean_text (case map_option (\<lambda>c. bounded_text (sanitize_text c) m) (dia_code d) of
      None \<Rightarrow> [] | Some c \<Rightarrow> ''['' @ c @ '']'')" for m
    using assms by (cases "dia_code d") (auto simp: diagnostic_ok_def bounded_sanitized clean_simps)
  have line: "clean_text (case dia_line d of None \<Rightarrow> [] | Some l \<Rightarrow> '':'' @ dec l)"
    by (cases "dia_line d") (simp_all add: dec_clean clean_simps)
  have msg: "clean_text (bounded_text (sanitize_text (dia_message d)) m)" for m
    using assms by (simp add: diagnostic_ok_def bounded_sanitized)
  show ?thesis
    unfolding render_one_def Let_def fst_conv clean_text_simps
    using s c r code line msg bounded_sanitized [OF loc] by (intro conjI) (simp_all add: clean_simps)
qed

lemma errors_first_length: "length (errors_first ds) = length ds"
proof (induction ds)
  case (Cons d ds)
  then show ?case by (cases "dia_level d") (simp_all add: errors_first_def)
qed (simp add: errors_first_def)

lemma levels_filter: "map dia_level (filter (\<lambda>d. dia_level d = l) ds) = replicate (length (filter (\<lambda>d. dia_level d = l) ds)) l"
  by (induction ds) auto

text \<open>
  A rendering of well-typed diagnostics fits its byte limit and holds no control byte but line feed, carriage
  return and tab. It shows as many diagnostics as allowed, errors before warnings, and unless it is marked
  truncated it shows all of them.
\<close>

theorem rendering_bounded_and_clean:
  assumes "list_all diagnostic_ok ds"
  shows "let r = render_diagnostics ds opts in
    length (rds_text r) \<le> rop_max_bytes opts \<and> clean_text (rds_text r) \<and>
    map rdg_level (sdg_diagnostics (rds_structured r)) =
      take (rop_max_diagnostics opts)
        (replicate (sdg_errors (rds_structured r)) LevelError @ replicate (sdg_warnings (rds_structured r)) LevelWarning) \<and>
    sdg_errors (rds_structured r) + sdg_warnings (rds_structured r) = length ds \<and>
    (rds_truncated r \<or> length (sdg_diagnostics (rds_structured r)) = length ds)"
proof -
  let ?sel = "take (rop_max_diagnostics opts) (errors_first ds)"
  let ?e = "length (filter (\<lambda>d. dia_level d = LevelError) ds)" and ?w = "length (filter (\<lambda>d. dia_level d = LevelWarning) ds)"
  let ?text = "''Errors: '' @ dec ?e @ '', warnings: '' @ dec ?w @ [CHR 0x0A] @ concat (map fst (map (render_one opts) ?sel))"
  obtain t cut where t: "bound_text ?text (rop_max_bytes opts) = (t, cut)" by fastforce
  have "set ?sel \<subseteq> set ds" by (auto simp: errors_first_def dest: in_set_takeD)
  then have "clean_text (concat (map fst (map (render_one opts) ?sel)))"
    using assms render_one_clean by (intro clean_concat) (auto simp: list_all_iff)
  then have "clean_text ?text" by (simp add: dec_clean clean_simps)
  from bounded_clean [OF this, of "rop_max_bytes opts"] have clean: "clean_text t" by (simp only: t fst_conv)
  have len: "length t \<le> rop_max_bytes opts" using bound_text_length [of ?text "rop_max_bytes opts"] by (simp only: t fst_conv)
  have levels: "map dia_level (errors_first ds) = replicate ?e LevelError @ replicate ?w LevelWarning"
    by (simp add: errors_first_def levels_filter)
  have lvl: "rdg_level (snd (render_one opts d)) = dia_level d" for d by (simp add: render_one_def Let_def)
  have r: "render_diagnostics ds opts = \<lparr>rds_text = t,
      rds_structured = \<lparr>sdg_errors = ?e, sdg_warnings = ?w, sdg_diagnostics = map snd (map (render_one opts) ?sel)\<rparr>,
      rds_untrusted_data = (ds \<noteq> []), rds_truncated = (length ?sel < length ds \<or> cut)\<rparr>"
    using t by (simp only: render_diagnostics_def Let_def prod.case)
  have "?e + ?w = length ds" using errors_first_length [of ds] by (simp add: errors_first_def)
  moreover have "map rdg_level (map snd (map (render_one opts) ?sel)) =
      take (rop_max_diagnostics opts) (replicate ?e LevelError @ replicate ?w LevelWarning)"
    unfolding levels [symmetric] take_map [symmetric] by (simp add: lvl o_def take_map)
  ultimately show ?thesis
    unfolding r Let_def using clean len errors_first_length [of ds] by auto
qed

section \<open>Source excerpts\<close>

text \<open>
  Of the workspace metadata (crate \<open>cargo_metadata\<close>): the resolved nodes with the ids they depend on and the
  packages with id, name and version.
\<close>

record context_metadata =
  cmd_nodes :: "(string \<times> string list) list option"
  cmd_packages :: "(string \<times> string \<times> string) list"

type_synonym source_cache = "(string, string + string) btree_map"

definition resolved_dependencies :: "context_metadata \<Rightarrow> string option \<Rightarrow> resolved_dependency list \<times> nat" where
  "resolved_dependencies meta package_id =
     (case (case cmd_nodes meta of None \<Rightarrow> None | Some nodes \<Rightarrow> List.find (\<lambda>node. Some (fst node) = package_id) nodes) of
        None \<Rightarrow> ([], 0)
      | Some node \<Rightarrow>
          let packages = sort_key fst (List.map_filter (\<lambda>i. List.find (\<lambda>p. fst p = i) (cmd_packages meta)) (snd node))
          in (map (\<lambda>(i, name, version). \<lparr>rdp_name = name, rdp_version = version, rdp_package_id = i\<rparr>) (take 16 packages),
              length packages - 16))"

definition excerpt_lines :: "string \<Rightarrow> nat \<Rightarrow> string" where
  "excerpt_lines source first =
     join [CHR 0x0A] (map (\<lambda>(i, t). dec (i + 1) @ '': '' @ chars_take 240 t)
       (take 7 (drop (first - 1) (enumerate 0 (str_lines source)))))"

definition load_source :: "(string \<Rightarrow> string + string) \<Rightarrow> string \<Rightarrow> source_cache \<Rightarrow> source_cache" where
  "load_source read_file key sources =
     (if bt_contains sources key \<or> 4 \<le> length sources then sources
      else bt_insert key
        (case read_file key of
           Inl e \<Rightarrow> Inl e
         | Inr bytes \<Rightarrow> if from_utf8_ok bytes then Inr bytes else Inl ''source is not UTF-8'') sources)"

text \<open>
  One context. \<open>read_file\<close> is the authorised read of at most a mebibyte, relative names joined to the root;
  \<open>sha\<close> is SHA-256 in hexadecimal.
\<close>

definition diagnostic_context_of ::
  "(string \<Rightarrow> string) \<Rightarrow> (string \<Rightarrow> string + string) \<Rightarrow> context_metadata \<Rightarrow> nat \<Rightarrow> diagnostic \<Rightarrow> source_cache \<Rightarrow>
   diagnostic_context \<times> source_cache" where
  "diagnostic_context_of sha read_file meta index d sources =
     (let (dependencies, omitted) = resolved_dependencies meta (dia_package_id d);
          context = \<lparr>dcx_diagnostic_index = index, dcx_file = dia_file d, dcx_line_start = 0, dcx_excerpt = [],
            dcx_source_hash = None, dcx_freshness = ''unverified'', dcx_package_id = dia_package_id d,
            dcx_target_name = dia_target_name d, dcx_dependencies = dependencies, dcx_dependencies_omitted = omitted,
            dcx_reason = None, dcx_untrusted_data = True\<rparr>
      in case dia_file d of
           None \<Rightarrow> (context\<lparr>dcx_reason := Some ''compiler diagnostic has no source file''\<rparr>, sources)
         | Some key \<Rightarrow>
             let sources = load_source read_file key sources in
             (case bt_get sources key of
                Some (Inr source) \<Rightarrow>
                  (case dia_line d of
                     Some line \<Rightarrow>
                       if line = 0 then (context\<lparr>dcx_reason := Some ''compiler diagnostic has no valid line''\<rparr>, sources)
                       else
                         let first = max (line - 3) 1; excerpt = excerpt_lines source first
                         in (context\<lparr>dcx_source_hash := Some (sha source), dcx_line_start := first, dcx_excerpt := excerpt,
                               dcx_reason := (if excerpt = [] then Some ''compiler range is outside source'' else None)\<rparr>, sources)
                   | None \<Rightarrow> (context\<lparr>dcx_reason := Some ''compiler diagnostic has no valid line''\<rparr>, sources))
              | Some (Inl reason) \<Rightarrow> (context\<lparr>dcx_reason := Some reason\<rparr>, sources)
              | None \<Rightarrow> (context\<lparr>dcx_reason := Some ''source context file budget reached''\<rparr>, sources)))"

fun contexts_from ::
  "(string \<Rightarrow> string) \<Rightarrow> (string \<Rightarrow> string + string) \<Rightarrow> context_metadata \<Rightarrow> nat \<Rightarrow> diagnostic list \<Rightarrow> source_cache \<Rightarrow>
   diagnostic_context list \<times> source_cache" where
  "contexts_from sha read_file meta index [] sources = ([], sources)"
| "contexts_from sha read_file meta index (d # ds) sources =
     (let (context, sources) = diagnostic_context_of sha read_file meta index d sources;
          (contexts, sources) = contexts_from sha read_file meta (Suc index) ds sources
      in (context # contexts, sources))"

definition diagnostic_contexts ::
  "(string \<Rightarrow> string) \<Rightarrow> (string \<Rightarrow> string + string) \<Rightarrow> context_metadata \<Rightarrow> diagnostic list \<Rightarrow> diagnostic_context list" where
  "diagnostic_contexts sha read_file meta ds = fst (contexts_from sha read_file meta 0 (take 24 ds) [])"

text \<open>
  A context that gives an excerpt gives one of the file the diagnostic names: the excerpt is made of the seven
  lines from the one it starts at, which is at most three lines above the diagnostic, and the hash is that of the
  source the lines were taken from.
\<close>

definition context_ok :: "(string \<Rightarrow> string) \<Rightarrow> (string \<Rightarrow> string + string) \<Rightarrow> diagnostic \<Rightarrow> diagnostic_context \<Rightarrow> bool" where
  "context_ok sha read_file d c \<longleftrightarrow>
     dcx_file c = dia_file d \<and> length (dcx_dependencies c) \<le> 16 \<and> dcx_untrusted_data c \<and>
     (dcx_excerpt c = [] \<and> dcx_reason c \<noteq> None \<or>
      (\<exists>key source line. dia_file d = Some key \<and> dia_line d = Some line \<and> read_file key = Inr source \<and> from_utf8_ok source \<and>
         dcx_source_hash c = Some (sha source) \<and> 0 < dcx_line_start c \<and> dcx_line_start c \<le> line \<and>
         line \<le> dcx_line_start c + 3 \<and> dcx_excerpt c = excerpt_lines source (dcx_line_start c)))"

definition cache_ok :: "(string \<Rightarrow> string + string) \<Rightarrow> source_cache \<Rightarrow> bool" where
  "cache_ok read_file sources \<longleftrightarrow> bt_wf sources \<and> length sources \<le> 4 \<and>
     (\<forall>key source. bt_get sources key = Some (Inr source) \<longrightarrow> read_file key = Inr source \<and> from_utf8_ok source)"

lemma load_source_ok: "cache_ok read_file sources \<Longrightarrow> cache_ok read_file (load_source read_file key sources)"
  by (auto simp: cache_ok_def load_source_def bt_wf_insert bt_get_insert length_bt_insert bt_contains_def
      split: sum.splits if_splits)

lemma context_of_ok:
  assumes "cache_ok read_file sources" "diagnostic_context_of sha read_file meta index d sources = (c, sources')"
  shows "context_ok sha read_file d c \<and> cache_ok read_file sources' \<and> dcx_diagnostic_index c = index"
proof -
  have deps: "length (fst (resolved_dependencies meta p)) \<le> 16" for p
    by (auto simp: resolved_dependencies_def Let_def split: option.splits)
  obtain dependencies omitted where r: "resolved_dependencies meta (dia_package_id d) = (dependencies, omitted)" by fastforce
  with deps [of "dia_package_id d"] have len: "length dependencies \<le> 16" by simp
  show ?thesis
  proof (cases "dia_file d")
    case None
    with assms r len show ?thesis by (auto simp: diagnostic_context_of_def context_ok_def)
  next
    case (Some key)
    let ?s = "load_source read_file key sources"
    have cache: "cache_ok read_file ?s" by (rule load_source_ok [OF assms(1)])
    show ?thesis
    proof (cases "bt_get ?s key")
      case None
      with assms(2) r len Some cache show ?thesis by (auto simp: diagnostic_context_of_def context_ok_def Let_def)
    next
      case (Some entry)
      show ?thesis
      proof (cases entry)
        case (Inl e)
        with assms(2) r len \<open>dia_file d = Some key\<close> Some cache show ?thesis
          by (auto simp: diagnostic_context_of_def context_ok_def Let_def)
      next
        case (Inr source)
        with Some cache have "read_file key = Inr source" "from_utf8_ok source" by (auto simp: cache_ok_def)
        with assms(2) r len \<open>dia_file d = Some key\<close> Some Inr cache show ?thesis
          by (auto simp: diagnostic_context_of_def context_ok_def Let_def split: option.splits if_splits)
      qed
    qed
  qed
qed

lemma contexts_from_ok:
  assumes "cache_ok read_file sources" "contexts_from sha read_file meta index ds sources = (cs, sources')"
  shows "list_all2 (context_ok sha read_file) ds cs \<and> cache_ok read_file sources' \<and>
    map dcx_diagnostic_index cs = [index..<index + length ds]"
  using assms
proof (induction ds arbitrary: index sources cs)
  case (Cons d ds)
  obtain c s1 where one: "diagnostic_context_of sha read_file meta index d sources = (c, s1)" by fastforce
  obtain cs2 s2 where rest: "contexts_from sha read_file meta (Suc index) ds s1 = (cs2, s2)" by fastforce
  note c = context_of_ok [OF Cons.prems(1) one]
  have "[index..<index + length (d # ds)] = index # [Suc index..<Suc index + length ds]"
    by (simp add: upt_conv_Cons del: upt_Suc)
  with Cons.IH [of s1 "Suc index" cs2] c rest one Cons.prems(2) show ?case by (auto simp del: upt_Suc)
qed simp

text \<open>The contexts belong to the first two dozen diagnostics, in order, and reading them takes at most four files.\<close>

theorem contexts_match_diagnostics:
  "list_all2 (context_ok sha read_file) (take 24 ds) (diagnostic_contexts sha read_file meta ds) \<and>
   map dcx_diagnostic_index (diagnostic_contexts sha read_file meta ds) = [0..<min 24 (length ds)] \<and>
   length (snd (contexts_from sha read_file meta 0 (take 24 ds) [])) \<le> 4"
proof -
  obtain cs s where r: "contexts_from sha read_file meta 0 (take 24 ds) [] = (cs, s)" by fastforce
  have "cache_ok read_file []" by (simp add: cache_ok_def)
  from contexts_from_ok [OF this r] r show ?thesis by (auto simp: diagnostic_contexts_def cache_ok_def min.commute)
qed

end
