(* ===== verification/Diagnostic_Scenario.thy ===== *)
theory Diagnostic_Scenario
  imports Diagnostic_Key Cargo_Stream Diagnostic_Render "HOL-Library.Code_Target_Nat"
begin

text \<open>
  A small Cargo output read through the parser, the stream and the renderer: one JSON record with an error that
  carries a terminal escape, one human line with a warning. The decoder is a concrete function that knows the one
  record of the example.
\<close>

section \<open>The output\<close>

definition demo_raw :: raw_diagnostic where
  "demo_raw = RawDiagnostic (Some (RawObject (Some ''E0308''))) (Some ''error'') (Some ([CHR 0x1B] @ ''[1mbad'')) []
     [] (Some ''bad'')"

definition demo_message :: cargo_message where
  "demo_message =
     \<lparr>cgm_package_id = Some ''demo'', cgm_reason = Some ''compiler-message'', cgm_message = Some demo_raw,
      cgm_fresh = None, cgm_executable = None, cgm_target = None\<rparr>"

definition demo_from_json :: "string \<Rightarrow> cargo_message option" where
  "demo_from_json s = (if s = ''{}'' then Some demo_message else None)"

definition demo_output :: string where
  "demo_output = ''{}'' @ [CHR 0x0A] @ ''a.rs:3:1: warning: odd'' @ [CHR 0x0A]"

definition no_escape :: "string \<Rightarrow> bool" where "no_escape ch = False"

lemma demo_message_ok: "message_ok demo_message"
proof -
  have "from_utf8_ok ''E0308''" "from_utf8_ok ''error''" "from_utf8_ok ''bad''" "from_utf8_ok ''demo''"
    "from_utf8_ok [CHR 0x1B, CHR ''['', CHR ''1'', CHR ''m'', CHR ''b'', CHR ''a'', CHR ''d'']"
    by code_simp+
  then show ?thesis by (simp add: message_ok_def demo_message_def demo_raw_def del: from_utf8_ok.simps)
qed

lemma demo_decoder_ok: "decoder_ok demo_from_json"
  by (simp add: decoder_ok_def demo_from_json_def demo_message_ok)

lemma demo_output_ok: "from_utf8_ok demo_output"
  by code_simp

theorem parsed_output_well_typed_witness:
  "decoder_ok demo_from_json \<and> from_utf8_ok demo_output \<and>
   map dia_message (cgo_diagnostics (parse_cargo_output demo_from_json no_escape demo_output)) = [''bad'', ''odd''] \<and>
   distinct (map (unit_key no_escape) (cgo_diagnostics (parse_cargo_output demo_from_json no_escape demo_output)))"
proof -
  have "map dia_message (cgo_diagnostics (parse_cargo_output demo_from_json no_escape demo_output)) = [''bad'', ''odd'']"
    by code_simp
  with parsed_output_well_typed [OF demo_decoder_ok demo_output_ok, of no_escape] demo_decoder_ok demo_output_ok
  show ?thesis by (simp only: Let_def)
qed

section \<open>Keys\<close>

definition short_warning :: "string \<Rightarrow> diagnostic" where
  "short_warning message =
     \<lparr>dia_package_id = None, dia_target_name = None, dia_code = None, dia_level = LevelWarning,
      dia_file = Some ''a.rs'', dia_line = Some 3, dia_message = message, dia_root_key = None, dia_rendered = None,
      dia_spans = [], dia_children = [], dia_suggestions = [], dia_untrusted_data = True\<rparr>"

lemma short_warning_ok: "diagnostic_ok (short_warning ''odd  one'')" "diagnostic_ok (short_warning ''odd one'')"
  by (simp_all add: diagnostic_ok_def short_warning_def clean_text_def clean_byte_def)

lemma short_warning_merged:
  "map dia_message (fst (fold (insert_diagnostic no_escape)
     [short_warning ''odd  one'', short_warning ''bad'', short_warning ''odd one''] ([], []))) = [''odd  one'', ''bad'']"
  by code_simp

theorem merging_keeps_findings_witness:
  "finding ` set (fst (fold (insert_diagnostic no_escape)
     [short_warning ''odd  one'', short_warning ''bad'', short_warning ''odd one''] ([], []))) =
     {finding (short_warning ''odd one''), finding (short_warning ''bad'')} \<and>
   finding (short_warning ''odd  one'') = finding (short_warning ''odd one'') \<and>
   finding (short_warning ''bad'') \<noteq> finding (short_warning ''odd one'')"
proof -
  have ok: "list_all diagnostic_ok [short_warning ''odd  one'', short_warning ''bad'', short_warning ''odd one'']"
    using short_warning_ok by (simp add: diagnostic_ok_def short_warning_def clean_text_def clean_byte_def)
  have same: "finding (short_warning ''odd  one'') = finding (short_warning ''odd one'')"
    and other: "finding (short_warning ''bad'') \<noteq> finding (short_warning ''odd one'')" by code_simp+
  from merging_keeps_findings [OF ok, of no_escape] same other show ?thesis by auto
qed

section \<open>The stream\<close>

definition demo_env :: stream_env where
  "demo_env =
     \<lparr>sv_message = (\<lambda>_. None), sv_value = (\<lambda>_. None), sv_uni = no_escape, sv_json_len = (\<lambda>d. Some 10)\<rparr>"

definition demo_chunks :: "string list" where
  "demo_chunks = [''a.rs:3:1: warning: odd'' @ [CHR 0x0A], ''a.rs:4:1: error: b'', ''ad'' @ [CHR 0x0A]]"

lemma demo_stream:
  "finish_with_human_output demo_env (push_chunks demo_env (take 1 demo_chunks @ drop 1 demo_chunks) (cargo_stream_new 100 1 100)) =
   (\<lparr>cgo_diagnostics = [(short_warning ''bad'')\<lparr>dia_level := LevelError, dia_line := Some 4,
        dia_root_key := Some (unit_key no_escape ((short_warning ''bad'')\<lparr>dia_level := LevelError, dia_line := Some 4\<rparr>))\<rparr>],
      cgo_build = None, cgo_untrusted_data = True, cgo_truncated = True\<rparr>,
    evidence_stats_new\<lparr>es_diagnostic_records := 2, es_omitted_records := 1\<rparr>,
    ''a.rs:3:1: warning: odd'' @ [CHR 0x0A] @ ''a.rs:4:1: error: bad'' @ [CHR 0x0A])"
  by code_simp

theorem stream_evidence_accounts_witness:
  "length (cgo_diagnostics (fst (finish_with_human_output demo_env
     (push_chunks demo_env (take 1 demo_chunks @ drop 1 demo_chunks) (cargo_stream_new 100 1 100))))) \<le> 1"
proof -
  have "(100 :: nat) < u64_max" "es_diagnostic_records (evidence_stats_new\<lparr>es_diagnostic_records := 2, es_omitted_records := 1\<rparr>) < u64_max"
    by (simp_all add: u64_max_def)
  from stream_evidence_accounts [OF demo_stream this] show ?thesis unfolding demo_stream by simp
qed

theorem stream_independent_of_chunks_witness:
  "finish_with_human_output demo_env (push_chunks demo_env [''ab'', ''c''] cargo_stream_default) =
   finish_with_human_output demo_env (push_chunks demo_env [''a'', ''bc''] cargo_stream_default)"
  by (rule stream_independent_of_chunks) simp

text \<open>
  An error that does not fit beside the errors already kept first displaces every warning and is then omitted
  itself: the stream ends with fewer diagnostics than it could hold.
\<close>

definition crowded_stream :: cargo_stream where
  "crowded_stream =
     (cargo_stream_new 100 3 25)\<lparr>cst_diagnostics := [(short_warning ''e'')\<lparr>dia_level := LevelError\<rparr>, short_warning ''w''],
        cst_keys := map (unit_key no_escape) [(short_warning ''e'')\<lparr>dia_level := LevelError\<rparr>, short_warning ''w''],
        cst_evidence_bytes := 20, cst_stats := evidence_stats_new\<lparr>es_diagnostic_records := 2\<rparr>\<rparr>"

definition big_env :: stream_env where
  "big_env = demo_env\<lparr>sv_json_len := (\<lambda>d. Some (if dia_message d = ''big'' then 20 else 10))\<rparr>"

theorem omitted_error_still_evicts_warnings:
  "stream_ok big_env crowded_stream \<and> balanced crowded_stream \<and>
   map dia_message (cst_diagnostics (retain big_env ((short_warning ''big'')\<lparr>dia_level := LevelError\<rparr>) crowded_stream)) = [''e'']"
  by code_simp

section \<open>Rendering\<close>

theorem rendering_bounded_and_clean_witness:
  "length (rds_text (render_diagnostics [short_warning ''odd one''] (render_options_for DetailCompact 20))) \<le> 20 \<and>
   rds_truncated (render_diagnostics [short_warning ''odd one''] (render_options_for DetailCompact 20))"
proof -
  have "list_all diagnostic_ok [short_warning ''odd one'']" using short_warning_ok by simp
  from rendering_bounded_and_clean [OF this, of "render_options_for DetailCompact 20"]
  have "length (rds_text (render_diagnostics [short_warning ''odd one''] (render_options_for DetailCompact 20))) \<le> 20"
    by (simp add: Let_def render_options_for_def)
  moreover have "rds_truncated (render_diagnostics [short_warning ''odd one''] (render_options_for DetailCompact 20))"
    by code_simp
  ultimately show ?thesis by blast
qed

end
