(* ===== verification/Cache_Retention.thy ===== *)
theory Cache_Retention
  imports Btree_Map
begin

text \<open>
  Retention in a cache directory (\<open>cache/retention.rs\<close>): old entries are removed, then the least recently used
  ones until the number of entries, bytes and nodes is within its budget; entries with an active lease stay, and a
  symbolic link is never removed or followed. The directory is a tree of nodes; which system calls fail is an
  input, given by the path below the root.
\<close>

section \<open>The tree and its faults\<close>

datatype cache_node = CacheFile nat | CacheDir "(string \<times> cache_node) list" | CacheLink | CacheOther

record cache_faults =
  cft_metadata :: "string list \<Rightarrow> bool"
  cft_read_dir :: "string list \<Rightarrow> bool"
  cft_dir_entry :: "string list \<Rightarrow> bool"
  cft_remove :: "string list \<Rightarrow> bool"

definition no_cache_faults :: cache_faults where
  "no_cache_faults =
     \<lparr>cft_metadata = (\<lambda>_. False), cft_read_dir = (\<lambda>_. False), cft_dir_entry = (\<lambda>_. False), cft_remove = (\<lambda>_. False)\<rparr>"

text \<open>A direct child of the root: its modification time, when the file system has one, and its node.\<close>

type_synonym cache_children = "(string \<times> nat option \<times> cache_node) list"

section \<open>Limits, reports and entries\<close>

definition DEFAULT_MAX_AGE :: nat where "DEFAULT_MAX_AGE = 30 * 24 * 60 * 60"
definition DEFAULT_MAX_BYTES :: nat where "DEFAULT_MAX_BYTES = 512 * 1024 * 1024"
definition DEFAULT_MAX_ENTRIES :: nat where "DEFAULT_MAX_ENTRIES = 256"
definition DEFAULT_MAX_NODES :: nat where "DEFAULT_MAX_NODES = 100000"
definition MAX_SCAN_NODES :: nat where "MAX_SCAN_NODES = 100000"
definition COMPLETE_MARKER :: string where "COMPLETE_MARKER = ''.complete.json''"

record retention_limits =
  rtl_max_age :: nat
  rtl_max_bytes :: nat
  rtl_max_entries :: nat
  rtl_max_nodes :: nat

definition retention_limits_default :: retention_limits where
  "retention_limits_default =
     \<lparr>rtl_max_age = DEFAULT_MAX_AGE, rtl_max_bytes = DEFAULT_MAX_BYTES, rtl_max_entries = DEFAULT_MAX_ENTRIES,
      rtl_max_nodes = DEFAULT_MAX_NODES\<rparr>"

record retention_report =
  rtr_removed :: nat
  rtr_retained :: nat
  rtr_bytes :: nat
  rtr_nodes :: nat

record tree_stats =
  tst_bytes :: nat
  tst_nodes :: nat
  tst_contains_symlink :: bool
  tst_safe_to_remove :: bool

record cache_entry =
  cen_path :: string
  cen_stats :: tree_stats
  cen_last_used :: nat

section \<open>Accounting\<close>

text \<open>The work list of \<open>inspect_tree\<close>: children are pushed in order and taken from the end.\<close>

definition children_paths :: "cache_faults \<Rightarrow> string list \<Rightarrow> (string \<times> cache_node) list \<Rightarrow> (string list \<times> cache_node) list" where
  "children_paths ft path kids = filter (\<lambda>(p, _). \<not> cft_dir_entry ft p) (map (\<lambda>(name, k). (path @ [name], k)) kids)"

function inspect_stack :: "cache_faults \<Rightarrow> (string list \<times> cache_node) list \<Rightarrow> tree_stats \<Rightarrow> tree_stats" where
  "inspect_stack ft [] stats = stats"
| "inspect_stack ft ((path, node) # stack) stats =
     (if MAX_SCAN_NODES \<le> tst_nodes stats then stats\<lparr>tst_safe_to_remove := False\<rparr>
      else if cft_metadata ft path then inspect_stack ft stack (stats\<lparr>tst_safe_to_remove := False\<rparr>)
      else case node of
        CacheLink \<Rightarrow> inspect_stack ft stack (stats\<lparr>tst_contains_symlink := True, tst_safe_to_remove := False\<rparr>)
      | CacheFile len \<Rightarrow>
          inspect_stack ft stack (stats\<lparr>tst_nodes := tst_nodes stats + 1, tst_bytes := sat_add (tst_bytes stats) len\<rparr>)
      | CacheDir kids \<Rightarrow>
          let stats = stats\<lparr>tst_nodes := tst_nodes stats + 1\<rparr> in
          if cft_read_dir ft path then inspect_stack ft stack (stats\<lparr>tst_safe_to_remove := False\<rparr>)
          else inspect_stack ft (rev (children_paths ft path kids) @ stack)
            (if list_ex (\<lambda>(name, _). cft_dir_entry ft (path @ [name])) kids
             then stats\<lparr>tst_safe_to_remove := False\<rparr> else stats)
      | CacheOther \<Rightarrow> inspect_stack ft stack (stats\<lparr>tst_safe_to_remove := False\<rparr>))"
  by pat_completeness auto
termination
proof (relation "measure (\<lambda>(ft, stack, stats). sum_list (map (\<lambda>(p, n). Suc (size n)) stack))", goal_cases)
  case (5 ft path node stack stats kids x)
  have "sum_list (map (\<lambda>(p, n). Suc (size n)) (children_paths ft path ks)) \<le> size_list (size_prod (\<lambda>x. 0) size) ks" for ks :: "(string \<times> cache_node) list"
    by (induction ks) (auto simp: children_paths_def)
  from this [of kids] 5 show ?case by (simp flip: rev_map)
qed auto

definition inspect_tree :: "cache_faults \<Rightarrow> string list \<Rightarrow> cache_node \<Rightarrow> tree_stats" where
  "inspect_tree ft path node =
     inspect_stack ft [(path, node)]
       \<lparr>tst_bytes = 0, tst_nodes = 0, tst_contains_symlink = False, tst_safe_to_remove = True\<rparr>"

section \<open>Removal\<close>

text \<open>Removing a directory bottom-up: whether it is gone, and what is left of it otherwise.\<close>

fun remove_directory :: "cache_faults \<Rightarrow> string list \<Rightarrow> cache_node \<Rightarrow> bool \<times> cache_node option"
  and remove_children :: "cache_faults \<Rightarrow> string list \<Rightarrow> (string \<times> cache_node) list \<Rightarrow> bool \<times> (string \<times> cache_node) list" where
  "remove_directory ft path (CacheDir kids) =
     (if cft_metadata ft path \<or> cft_read_dir ft path then (False, Some (CacheDir kids))
      else case remove_children ft path kids of
        (False, left) \<Rightarrow> (False, Some (CacheDir left))
      | (True, left) \<Rightarrow>
          if cft_remove ft path then (False, Some (CacheDir left)) else (True, None))"
| "remove_directory ft path node = (False, Some node)"
| "remove_children ft path [] = (True, [])"
| "remove_children ft path ((name, k) # kids) =
     (let p = path @ [name] in
      if cft_dir_entry ft p \<or> cft_metadata ft p then (False, (name, k) # kids)
      else case k of
        CacheDir ks \<Rightarrow>
          (case remove_directory ft p (CacheDir ks) of
             (True, _) \<Rightarrow> remove_children ft path kids
           | (False, left) \<Rightarrow> (False, (case left of None \<Rightarrow> [] | Some l \<Rightarrow> [(name, l)]) @ kids))
      | CacheFile len \<Rightarrow>
          if cft_remove ft p then (False, (name, k) # kids) else remove_children ft path kids
      | _ \<Rightarrow> (False, (name, k) # kids))"

definition child_node :: "cache_children \<Rightarrow> string \<Rightarrow> cache_node option" where
  "child_node cs name = map_option snd (map_of cs name)"

definition put_child :: "string \<Rightarrow> cache_node option \<Rightarrow> cache_children \<Rightarrow> cache_children" where
  "put_child name left cs =
     (case left of
        None \<Rightarrow> filter (\<lambda>c. fst c \<noteq> name) cs
      | Some l \<Rightarrow> map (\<lambda>(n, t, k). if n = name then (n, t, l) else (n, t, k)) cs)"

definition remove_entry :: "cache_faults \<Rightarrow> string \<Rightarrow> cache_children \<Rightarrow> bool \<times> cache_children" where
  "remove_entry ft name cs =
     (case child_node cs name of
        None \<Rightarrow> (False, cs)
      | Some node \<Rightarrow>
          if cft_metadata ft [name] then (False, cs)
          else case node of
            CacheLink \<Rightarrow> (False, cs)
          | CacheFile len \<Rightarrow> if cft_remove ft [name] then (False, cs) else (True, put_child name None cs)
          | CacheOther \<Rightarrow> (False, cs)
          | CacheDir kids \<Rightarrow>
              let stats = inspect_tree ft [name] node in
              if \<not> tst_safe_to_remove stats \<or> tst_contains_symlink stats then (False, cs)
              else let (gone, left) = remove_directory ft [name] node in (gone, put_child name left cs))"

section \<open>Pruning\<close>

definition is_old :: "nat \<Rightarrow> nat \<Rightarrow> nat \<Rightarrow> bool" where
  "is_old last_used now max_age \<longleftrightarrow> last_used \<le> now \<and> max_age \<le> now - last_used"

definition is_reserved_name :: "string \<Rightarrow> bool" where
  "is_reserved_name name \<longleftrightarrow>
     name = COMPLETE_MARKER \<or> starts_with (rev name) (rev ''.lock'') \<or> str_find name ''.tmp.'' \<noteq> None"

definition has_complete_marker :: "cache_faults \<Rightarrow> string list \<Rightarrow> cache_node \<Rightarrow> bool" where
  "has_complete_marker ft path node =
     (case node of
        CacheDir kids \<Rightarrow>
          \<not> cft_read_dir ft path \<and> \<not> cft_metadata ft (path @ [COMPLETE_MARKER]) \<and>
          (case map_of kids COMPLETE_MARKER of Some (CacheFile _) \<Rightarrow> True | _ \<Rightarrow> False)
      | _ \<Rightarrow> False)"

text \<open>The coordinator: the last answer of \<open>safe_owned_root\<close>, the directory, active leases and touches.\<close>

record retention_state =
  rst_root_ok :: bool
  rst_children :: cache_children
  rst_active :: "(string, nat) btree_map"
  rst_touched :: "(string, nat) btree_map"

definition entry_of :: "cache_faults \<Rightarrow> (string, nat) btree_map \<Rightarrow> string \<times> nat option \<times> cache_node \<Rightarrow> cache_entry option" where
  "entry_of ft touched child =
     (let (name, mtime, node) = child in
      if cft_dir_entry ft [name] \<or> is_reserved_name name \<or> cft_metadata ft [name] \<or> \<not> has_complete_marker ft [name] node
      then None
      else map_option (\<lambda>t. \<lparr>cen_path = name, cen_stats = inspect_tree ft [name] node,
          cen_last_used = (case bt_get touched name of None \<Rightarrow> t | Some touch \<Rightarrow> max touch t)\<rparr>) mtime)"

definition entries :: "cache_faults \<Rightarrow> retention_state \<Rightarrow> cache_entry list" where
  "entries ft st =
     (if \<not> rst_root_ok st \<or> cft_read_dir ft [] then []
      else List.map_filter (entry_of ft (rst_touched st)) (rst_children st))"

definition is_active :: "retention_state \<Rightarrow> string \<Rightarrow> bool" where
  "is_active st name = (case bt_get (rst_active st) name of None \<Rightarrow> False | Some count \<Rightarrow> 0 < count)"

text \<open>Removing one entry from the state: its touch is forgotten with it.\<close>

definition drop_entry :: "cache_faults \<Rightarrow> string \<Rightarrow> retention_state \<Rightarrow> bool \<times> retention_state" where
  "drop_entry ft name st =
     (let (gone, cs) = remove_entry ft name (rst_children st); st = st\<lparr>rst_children := cs\<rparr>
      in (gone, if gone then st\<lparr>rst_touched := bt_remove name (rst_touched st)\<rparr> else st))"

fun prune_old :: "cache_faults \<Rightarrow> nat \<Rightarrow> nat \<Rightarrow> cache_entry list \<Rightarrow> nat \<times> retention_state \<Rightarrow> nat \<times> retention_state" where
  "prune_old ft now max_age [] acc = acc"
| "prune_old ft now max_age (e # es) (removed, st) =
     (if is_active st (cen_path e) \<or> \<not> is_old (cen_last_used e) now max_age
      then prune_old ft now max_age es (removed, st)
      else let (gone, st) = drop_entry ft (cen_path e) st
           in prune_old ft now max_age es (if gone then removed + 1 else removed, st))"

definition total_bytes :: "cache_entry list \<Rightarrow> nat" where
  "total_bytes es = foldl sat_add 0 (map (\<lambda>e. tst_bytes (cen_stats e)) es)"

definition total_nodes :: "cache_entry list \<Rightarrow> nat" where
  "total_nodes es = foldl sat_add 0 (map (\<lambda>e. tst_nodes (cen_stats e)) es)"

text \<open>The order of the second pass: the least recently used first, later names before earlier ones.\<close>

definition lru_before :: "cache_entry \<Rightarrow> cache_entry \<Rightarrow> bool" where
  "lru_before l r \<longleftrightarrow>
     cen_last_used l < cen_last_used r \<or> (cen_last_used l = cen_last_used r \<and> cen_path r < cen_path l)"

fun place_entry :: "cache_entry \<Rightarrow> cache_entry list \<Rightarrow> cache_entry list" where
  "place_entry e [] = [e]"
| "place_entry e (x # xs) = (if lru_before x e then x # place_entry e xs else e # x # xs)"

definition eviction_order :: "cache_entry list \<Rightarrow> cache_entry list" where
  "eviction_order es = foldr place_entry es []"

fun prune_budget ::
  "cache_faults \<Rightarrow> retention_limits \<Rightarrow> cache_entry list \<Rightarrow> nat \<Rightarrow> nat \<Rightarrow> nat \<Rightarrow> nat \<times> retention_state \<Rightarrow> nat \<times> retention_state" where
  "prune_budget ft lim [] count bytes nodes acc = acc"
| "prune_budget ft lim (e # es) count bytes nodes (removed, st) =
     (if \<not> (rtl_max_entries lim < count \<or> rtl_max_bytes lim < bytes \<or> rtl_max_nodes lim < nodes) \<or> is_active st (cen_path e)
      then prune_budget ft lim es count bytes nodes (removed, st)
      else
        let (gone, st) = drop_entry ft (cen_path e) st in
        if gone
        then prune_budget ft lim es (count - 1) (bytes - tst_bytes (cen_stats e)) (nodes - tst_nodes (cen_stats e)) (removed + 1, st)
        else prune_budget ft lim es count bytes nodes (removed, st))"

definition prune_at :: "cache_faults \<Rightarrow> retention_limits \<Rightarrow> nat \<Rightarrow> retention_state \<Rightarrow> retention_report \<times> retention_state" where
  "prune_at ft lim now st =
     (if \<not> rst_root_ok st then (\<lparr>rtr_removed = 0, rtr_retained = 0, rtr_bytes = 0, rtr_nodes = 0\<rparr>, st)
      else
        let (removed, st) = prune_old ft now (rtl_max_age lim) (entries ft st) (0, st);
            es = entries ft st;
            (removed, st) = prune_budget ft lim (eviction_order es) (length es) (total_bytes es) (total_nodes es) (removed, st);
            final = entries ft st
        in (\<lparr>rtr_removed = removed, rtr_retained = length final, rtr_bytes = total_bytes final, rtr_nodes = total_nodes final\<rparr>, st))"

section \<open>Leases\<close>

text \<open>The root and every directory above it must be a real directory; \<open>stat\<close> is \<open>symlink_metadata\<close>.\<close>

fun verify_directory_path :: "(component list \<Rightarrow> cache_node option) \<Rightarrow> component list \<Rightarrow> component list \<Rightarrow> bool" where
  "verify_directory_path stat current [] = True"
| "verify_directory_path stat current (c # cs) =
     (case c of
        CurDir \<Rightarrow> verify_directory_path stat current cs
      | ParentDir \<Rightarrow> False
      | _ \<Rightarrow>
          (case stat (current @ [c]) of
             Some (CacheDir _) \<Rightarrow> verify_directory_path stat (current @ [c]) cs
           | _ \<Rightarrow> False))"

definition safe_owned_root :: "(component list \<Rightarrow> cache_node option) \<Rightarrow> component list \<Rightarrow> bool" where
  "safe_owned_root stat root \<longleftrightarrow>
     verify_directory_path stat [] root \<and> (case stat root of Some (CacheDir _) \<Rightarrow> True | _ \<Rightarrow> False)"

text \<open>\<open>safe_direct_entry\<close>: a path that is the root followed by one name. Relative paths start at the working directory.\<close>

definition absolute_components :: "component list \<Rightarrow> string \<Rightarrow> component list" where
  "absolute_components cwd path = (if is_absolute path then components path else cwd @ components path)"

definition safe_direct_entry :: "component list \<Rightarrow> component list \<Rightarrow> string \<Rightarrow> string option" where
  "safe_direct_entry root cwd path =
     (let candidate = absolute_components cwd path in
      if \<not> starts_with candidate root then None
      else case drop (length root) candidate of [Normal name] \<Rightarrow> Some name | _ \<Rightarrow> None)"

definition kept_kind :: "cache_faults \<Rightarrow> cache_children \<Rightarrow> string \<Rightarrow> bool" where
  "kept_kind ft cs name =
     (case child_node cs name of Some (CacheFile _) \<Rightarrow> True | Some (CacheDir _) \<Rightarrow> True | _ \<Rightarrow> False)"

record cache_lease =
  cls_path :: "string option"
  cls_released :: bool

definition noop_lease :: cache_lease where
  "noop_lease = \<lparr>cls_path = None, cls_released = True\<rparr>"

definition lease :: "cache_faults \<Rightarrow> component list \<Rightarrow> component list \<Rightarrow> string \<Rightarrow> retention_state \<Rightarrow> cache_lease \<times> retention_state" where
  "lease ft root cwd path st =
     (if \<not> rst_root_ok st then (noop_lease, st)
      else case safe_direct_entry root cwd path of
        None \<Rightarrow> (noop_lease, st)
      | Some name \<Rightarrow>
          if child_node (rst_children st) name \<noteq> None \<and> \<not> cft_metadata ft [name] \<and> \<not> kept_kind ft (rst_children st) name
          then (noop_lease, st)
          else
            (\<lparr>cls_path = Some name, cls_released = False\<rparr>,
             st\<lparr>rst_active := bt_insert name
               ((case bt_get (rst_active st) name of None \<Rightarrow> 0 | Some n \<Rightarrow> n) + 1) (rst_active st)\<rparr>))"

definition release :: "cache_lease \<Rightarrow> retention_state \<Rightarrow> cache_lease \<times> retention_state" where
  "release l st =
     (if cls_released l then (l, st)
      else
        let l' = l\<lparr>cls_released := True, cls_path := None\<rparr> in
        case cls_path l of
          None \<Rightarrow> (l', st)
        | Some name \<Rightarrow>
            (l', case bt_get (rst_active st) name of
                   None \<Rightarrow> st
                 | Some count \<Rightarrow>
                     st\<lparr>rst_active := (if count \<le> 1 then bt_remove name (rst_active st)
                                       else bt_insert name (count - 1) (rst_active st))\<rparr>))"

definition touch :: "cache_faults \<Rightarrow> component list \<Rightarrow> component list \<Rightarrow> nat \<Rightarrow> string \<Rightarrow> retention_state \<Rightarrow> bool \<times> retention_state" where
  "touch ft root cwd now path st =
     (if \<not> rst_root_ok st then (False, st)
      else case safe_direct_entry root cwd path of
        None \<Rightarrow> (False, st)
      | Some name \<Rightarrow>
          if cft_metadata ft [name] \<or> \<not> kept_kind ft (rst_children st) name then (False, st)
          else (True, st\<lparr>rst_touched := bt_insert name now (rst_touched st)\<rparr>))"

end
