(* ===== verification/Retention_Properties.thy ===== *)
theory Retention_Properties
  imports Cache_Retention "HOL-Library.Multiset"
begin

text \<open>
  What retention keeps: leased entries, links and anything that is not a complete entry stay, whatever fails.
\<close>

section \<open>What survives\<close>

fun node_links :: "cache_node \<Rightarrow> nat" where
  "node_links (CacheFile len) = 0"
| "node_links (CacheDir kids) = sum_list (map (\<lambda>(name, k). node_links k) kids)"
| "node_links CacheLink = 1"
| "node_links CacheOther = 1"

definition kids_links :: "(string \<times> cache_node) list \<Rightarrow> nat" where
  "kids_links kids = sum_list (map (\<lambda>(name, k). node_links k) kids)"

lemma removal_keeps_links:
  "remove_directory ft path node = (gone, left) \<Longrightarrow>
     (case left of None \<Rightarrow> 0 | Some l \<Rightarrow> node_links l) = node_links node \<and> (gone \<longleftrightarrow> left = None)"
  "remove_children ft path kids = (ok, left') \<Longrightarrow> kids_links left' = kids_links kids \<and> (ok \<longrightarrow> left' = [])"
proof (induction ft path node and ft path kids arbitrary: gone left and ok left' rule: remove_directory_remove_children.induct)
  case (1 ft path kids)
  obtain ok left1 where rc: "remove_children ft path kids = (ok, left1)" by fastforce
  show ?case
  proof (cases "cft_metadata ft path \<or> cft_read_dir ft path")
    case True
    with "1.prems" show ?thesis by auto
  next
    case False
    with "1.IH" [OF False rc] "1.prems" rc show ?thesis
      by (cases ok) (auto simp: kids_links_def split: if_splits)
  qed
next
  case (4 ft path name k kids)
  show ?case
  proof (cases "cft_dir_entry ft (path @ [name]) \<or> cft_metadata ft (path @ [name])")
    case True
    with "4.prems" show ?thesis by auto
  next
    case False
    show ?thesis
    proof (cases k)
      case (CacheDir ks)
      obtain g l where rd: "remove_directory ft (path @ [name]) (CacheDir ks) = (g, l)" by fastforce
      note r = "4.IH"(2) [OF refl False CacheDir rd]
      show ?thesis
      proof (cases g)
        case True
        with r have "node_links (CacheDir ks) = 0" by auto
        with "4.IH"(3) [OF refl False CacheDir] rd True "4.prems" False CacheDir show ?thesis
          by (auto simp: kids_links_def Let_def)
      next
        case g: False
        with r obtain l' where "l = Some l'" "node_links l' = node_links (CacheDir ks)" by (auto split: option.splits)
        with "4.prems" False CacheDir rd g show ?thesis by (auto simp: kids_links_def Let_def)
      qed
    next
      case (CacheFile len)
      with "4.IH"(1) [OF refl False CacheFile] "4.prems" False show ?thesis
        by (auto simp: kids_links_def Let_def split: if_splits)
    qed (use "4.prems" False in \<open>auto simp: Let_def\<close>)
  qed
qed (auto simp: kids_links_def)

definition children_links :: "cache_children \<Rightarrow> nat" where
  "children_links cs = sum_list (map (\<lambda>(name, t, k). node_links k) cs)"

lemma put_child_simps [simp]:
  "put_child name left [] = []"
  "put_child name None ((n, t, k) # cs) = (if n = name then [] else [(n, t, k)]) @ put_child name None cs"
  "put_child name (Some l) ((n, t, k) # cs) = (n, t, if n = name then l else k) # put_child name (Some l) cs"
  by (auto simp: put_child_def split: option.splits)

lemma child_node_simps [simp]:
  "child_node [] m = None"
  "child_node ((n, t, k) # cs) m = (if m = n then Some k else child_node cs m)"
  by (simp_all add: child_node_def)

lemma child_node_put:
  "child_node (put_child name left cs) m = (if m = name then (if child_node cs name = None then None else left) else child_node cs m)"
proof (induction cs)
  case (Cons c cs)
  then show ?case by (cases c; cases left) auto
qed simp

lemma names_put: "distinct (map fst cs) \<Longrightarrow> distinct (map fst (put_child name left cs))"
proof -
  have names: "fst ` set (put_child name left cs) \<subseteq> fst ` set cs" for cs
  proof (induction cs)
    case (Cons c cs)
    then show ?case by (cases c; cases left) auto
  qed simp
  show "distinct (map fst cs) \<Longrightarrow> distinct (map fst (put_child name left cs))"
  proof (induction cs)
    case (Cons c cs)
    obtain n t k where c: "c = (n, t, k)" by (cases c)
    have "n \<notin> fst ` set (put_child name left cs)" using names [of cs] Cons.prems c by auto
    with Cons c show ?case by (cases left) auto
  qed simp
qed

lemma put_absent: "name \<notin> fst ` set cs \<Longrightarrow> put_child name left cs = cs"
proof (induction cs)
  case (Cons c cs)
  then show ?case by (cases c; cases left) auto
qed simp

lemma links_put:
  assumes "distinct (map fst cs)" "child_node cs name = Some node"
    and "(case left of None \<Rightarrow> 0 | Some l \<Rightarrow> node_links l) = node_links node"
  shows "children_links (put_child name left cs) = children_links cs"
  using assms(1,2)
proof (induction cs)
  case (Cons c cs)
  obtain n t k where c: "c = (n, t, k)" by (cases c)
  show ?case
  proof (cases "n = name")
    case True
    have "put_child name left cs = cs" using Cons.prems(1) c True by (intro put_absent) simp
    with True c Cons.prems(2) assms(3) show ?thesis by (cases left) (auto simp: children_links_def)
  next
    case False
    with Cons c show ?thesis by (cases left) (auto simp: children_links_def)
  qed
qed simp

text \<open>One removal: other children, the names and the links stay, whatever fails.\<close>

lemma remove_entry_effect:
  assumes "remove_entry ft name cs = (gone, cs')" "distinct (map fst cs)"
  shows "(m \<noteq> name \<longrightarrow> child_node cs' m = child_node cs m) \<and> distinct (map fst cs') \<and> children_links cs' = children_links cs"
proof (cases "child_node cs name")
  case None
  with assms show ?thesis by (simp add: remove_entry_def)
next
  case (Some node)
  have put: "?thesis" if "cs' = put_child name left cs" "(case left of None \<Rightarrow> 0 | Some l \<Rightarrow> node_links l) = node_links node" for left
    using that names_put [OF assms(2)] links_put [OF assms(2) Some that(2)] by (simp add: child_node_put)
  show ?thesis
  proof (cases node)
    case (CacheFile len)
    with assms Some put [of None] show ?thesis by (auto simp: remove_entry_def split: if_splits)
  next
    case (CacheDir kids)
    obtain g l where rd: "remove_directory ft [name] node = (g, l)" by fastforce
    with put [of l] removal_keeps_links(1) [OF rd] assms Some CacheDir show ?thesis
      by (auto simp: remove_entry_def Let_def split: if_splits)
  qed (use assms Some in \<open>auto simp: remove_entry_def split: if_splits\<close>)
qed

text \<open>Two states of one coordinator that agree on a set of names.\<close>

definition keeps_names :: "string set \<Rightarrow> retention_state \<Rightarrow> retention_state \<Rightarrow> bool" where
  "keeps_names ns st st' \<longleftrightarrow>
     (\<forall>m \<in> ns. child_node (rst_children st') m = child_node (rst_children st) m) \<and>
     distinct (map fst (rst_children st')) \<and> children_links (rst_children st') = children_links (rst_children st) \<and>
     rst_active st' = rst_active st \<and> rst_root_ok st' = rst_root_ok st"

lemma keeps_refl: "distinct (map fst (rst_children st)) \<Longrightarrow> keeps_names ns st st"
  by (simp add: keeps_names_def)

lemma keeps_trans: "keeps_names ns st st1 \<Longrightarrow> keeps_names ns st1 st2 \<Longrightarrow> keeps_names ns st st2"
  by (auto simp: keeps_names_def)

lemma keeps_distinct: "keeps_names ns st st' \<Longrightarrow> distinct (map fst (rst_children st'))"
  by (simp add: keeps_names_def)

lemma drop_entry_keeps:
  assumes "drop_entry ft name st = (gone, st')" "distinct (map fst (rst_children st))" "name \<notin> ns"
  shows "keeps_names ns st st'"
proof -
  obtain g cs where r: "remove_entry ft name (rst_children st) = (g, cs)" by fastforce
  with assms(1) have "rst_children st' = cs" "rst_active st' = rst_active st" "rst_root_ok st' = rst_root_ok st"
    by (auto simp: drop_entry_def Let_def split: if_splits)
  moreover have "m \<in> ns \<Longrightarrow> child_node cs m = child_node (rst_children st) m" for m
    using remove_entry_effect [OF r assms(2), of m] assms(3) by auto
  moreover have "distinct (map fst cs)" "children_links cs = children_links (rst_children st)"
    using remove_entry_effect [OF r assms(2), of name] by simp_all
  ultimately show ?thesis by (simp add: keeps_names_def)
qed

lemma is_active_keeps: "keeps_names ns st st' \<Longrightarrow> is_active st' = is_active st"
  by (simp add: keeps_names_def is_active_def fun_eq_iff)

definition protected_names :: "cache_entry list \<Rightarrow> retention_state \<Rightarrow> string set" where
  "protected_names es st = {m. is_active st m \<or> m \<notin> cen_path ` set es}"

lemma prune_old_keeps:
  assumes "prune_old ft now age es (n, st) = (n', st')" "distinct (map fst (rst_children st))"
    "ns \<inter> cen_path ` set es \<subseteq> Collect (is_active st)"
  shows "keeps_names ns st st'"
  using assms
proof (induction es arbitrary: n st)
  case (Cons e es)
  show ?case
  proof (cases "is_active st (cen_path e) \<or> \<not> is_old (cen_last_used e) now age")
    case True
    with Cons show ?thesis by auto
  next
    case False
    obtain gone st1 where d: "drop_entry ft (cen_path e) st = (gone, st1)" by fastforce
    have "cen_path e \<notin> ns" using Cons.prems(3) False by auto
    from drop_entry_keeps [OF d Cons.prems(2) this] have k: "keeps_names ns st st1" .
    obtain n1 where "prune_old ft now age es (n1, st1) = (n', st')"
      using Cons.prems(1) False d by (cases gone) auto
    from Cons.IH [OF this keeps_distinct [OF k]] Cons.prems(3) is_active_keeps [OF k] keeps_trans [OF k] show ?thesis by auto
  qed
qed (simp add: keeps_refl)

lemma prune_budget_keeps:
  assumes "prune_budget ft lim es c b nd (n, st) = (n', st')" "distinct (map fst (rst_children st))"
    "ns \<inter> cen_path ` set es \<subseteq> Collect (is_active st)"
  shows "keeps_names ns st st'"
  using assms
proof (induction es arbitrary: c b nd n st)
  case (Cons e es)
  show ?case
  proof (cases "\<not> (rtl_max_entries lim < c \<or> rtl_max_bytes lim < b \<or> rtl_max_nodes lim < nd) \<or> is_active st (cen_path e)")
    case True
    then have "prune_budget ft lim es c b nd (n, st) = (n', st')" using Cons.prems(1) by auto
    from Cons.IH [OF this Cons.prems(2)] Cons.prems(3) show ?thesis by auto
  next
    case False
    obtain gone st1 where d: "drop_entry ft (cen_path e) st = (gone, st1)" by fastforce
    have "cen_path e \<notin> ns" using Cons.prems(3) False by auto
    from drop_entry_keeps [OF d Cons.prems(2) this] have k: "keeps_names ns st st1" .
    obtain c1 b1 nd1 n1 where "prune_budget ft lim es c1 b1 nd1 (n1, st1) = (n', st')"
      using Cons.prems(1) False d by (cases gone) auto
    from Cons.IH [OF this keeps_distinct [OF k]] Cons.prems(3) is_active_keeps [OF k] keeps_trans [OF k] show ?thesis by auto
  qed
qed (simp add: keeps_refl)

lemma entries_named:
  assumes "e \<in> set (entries ft st)" "distinct (map fst (rst_children st))"
  shows "\<not> is_reserved_name (cen_path e) \<and>
    (\<exists>node. child_node (rst_children st) (cen_path e) = Some node \<and> has_complete_marker ft [cen_path e] node)"
proof -
  from assms(1) obtain name t node where c: "(name, t, node) \<in> set (rst_children st)"
    and e: "entry_of ft (rst_touched st) (name, t, node) = Some e"
    by (auto simp: entries_def List.map_filter_def split: if_splits)
  have "child_node (rst_children st) name = Some node"
    using c assms(2) by (simp add: child_node_def)
  with e show ?thesis by (auto simp: entry_of_def Let_def split: if_splits)
qed

text \<open>A name that prune must leave alone: leased, reserved, or not a complete entry.\<close>

definition untouchable :: "cache_faults \<Rightarrow> retention_state \<Rightarrow> string \<Rightarrow> bool" where
  "untouchable ft st m \<longleftrightarrow>
     is_active st m \<or> is_reserved_name m \<or>
     (case child_node (rst_children st) m of None \<Rightarrow> True | Some node \<Rightarrow> \<not> has_complete_marker ft [m] node)"

lemma untouchable_entries:
  "distinct (map fst (rst_children st)) \<Longrightarrow> Collect (untouchable ft st) \<inter> cen_path ` set (entries ft st) \<subseteq> Collect (is_active st)"
  using entries_named [of _ ft st] by (fastforce simp: untouchable_def)

lemma prune_effect:
  assumes "distinct (map fst (rst_children st))" and "prune_at ft lim now st = (report, st')"
  shows "children_links (rst_children st') = children_links (rst_children st) \<and>
    (untouchable ft st m \<longrightarrow> child_node (rst_children st') m = child_node (rst_children st) m)"
proof (cases "rst_root_ok st")
  case False
  with assms(2) show ?thesis by (simp add: prune_at_def)
next
  case True
  let ?ns = "Collect (untouchable ft st)"
  obtain n1 st1 where one: "prune_old ft now (rtl_max_age lim) (entries ft st) (0, st) = (n1, st1)" by fastforce
  let ?es = "entries ft st1"
  obtain n2 where two: "prune_budget ft lim (eviction_order ?es) (length ?es) (total_bytes ?es) (total_nodes ?es) (n1, st1) = (n2, st')"
    using assms(2) True one by (auto simp: prune_at_def Let_def split: prod.splits)
  have k1: "keeps_names ?ns st st1" by (rule prune_old_keeps [OF one assms(1) untouchable_entries [OF assms(1)]])
  have same: "set (eviction_order es) = set es" for es
  proof -
    have "set (place_entry e es) = insert e (set es)" for e es by (induction es) auto
    then show ?thesis unfolding eviction_order_def by (induction es) auto
  qed
  have "?ns \<subseteq> Collect (untouchable ft st1)"
    using k1 is_active_keeps [OF k1] by (auto simp: untouchable_def keeps_names_def)
  then have "?ns \<inter> cen_path ` set (eviction_order ?es) \<subseteq> Collect (is_active st1)"
    using untouchable_entries [OF keeps_distinct [OF k1], of ft] same by auto
  from prune_budget_keeps [OF two keeps_distinct [OF k1] this] k1 show ?thesis
    by (auto simp: keeps_names_def)
qed

text \<open>
  Whatever system calls fail, a pruning pass leaves every leased entry as it is, every reserved name, every plain
  file, link or directory without a completeness marker, and removes no symbolic link or special file anywhere
  below the root.
\<close>

theorem prune_keeps_protected:
  assumes "distinct (map fst (rst_children st))" and "prune_at ft lim now st = (report, st')"
  shows "children_links (rst_children st') = children_links (rst_children st) \<and>
    (untouchable ft st m \<longrightarrow> child_node (rst_children st') m = child_node (rst_children st) m)"
  by (rule prune_effect [OF assms])

end
