(* ===== verification/Retention_Budget.thy ===== *)
theory Retention_Budget
  imports Retention_Properties
begin

text \<open>
  What a pruning pass removes when no system call fails: every old entry that is not protected by a lease or by what
  it contains, then the shortest prefix of the least-recently-used order, protected entries skipped, that brings the
  directory within its budgets.
\<close>

section \<open>Inspected trees can be removed\<close>

lemma inspected_safe:
  "tst_safe_to_remove (inspect_stack no_cache_faults stack stats) \<Longrightarrow>
     tst_safe_to_remove stats \<and> (\<forall>(p, n) \<in> set stack. node_links n = 0)"
proof (induction "no_cache_faults" stack stats rule: inspect_stack.induct)
  case (2 path node stack stats)
  have ex: "\<not> list_ex (\<lambda>(name, uu). cft_dir_entry no_cache_faults (path @ [name])) kids" for kids :: "(string \<times> cache_node) list"
    by (simp add: no_cache_faults_def list_ex_iff)
  show ?case
  proof (cases "MAX_SCAN_NODES \<le> tst_nodes stats")
    case True
    with "2.prems" show ?thesis by simp
  next
    case False
    then have m: "\<not> cft_metadata no_cache_faults path" by (simp add: no_cache_faults_def)
    show ?thesis
    proof (cases node)
      case (CacheFile len)
      with "2.hyps"(2) [OF False m CacheFile] "2.prems" False m show ?thesis by simp
    next
      case (CacheDir kids)
      have r: "\<not> cft_read_dir no_cache_faults path" by (simp add: no_cache_faults_def)
      have "children_paths no_cache_faults path kids = map (\<lambda>(name, k). (path @ [name], k)) kids"
        by (simp add: children_paths_def no_cache_faults_def case_prod_beta)
      with "2.hyps"(4) [OF False m CacheDir refl r] "2.prems" False m CacheDir r ex [of kids] show ?thesis
        by (auto simp: Let_def)
    next
      case CacheLink
      with "2.hyps"(5) [OF False m] "2.prems" False m show ?thesis by simp
    next
      case CacheOther
      with "2.hyps"(6) [OF False m] "2.prems" False m show ?thesis by simp
    qed
  qed
qed simp

lemma clean_tree_removed:
  "node_links node = 0 \<Longrightarrow> (\<exists>kids. node = CacheDir kids) \<Longrightarrow> remove_directory no_cache_faults path node = (True, None)"
  "kids_links kids = 0 \<Longrightarrow> remove_children no_cache_faults path kids = (True, [])"
proof (induction "no_cache_faults" path node and "no_cache_faults" path kids rule: remove_directory_remove_children.induct)
  case (4 path name k kids)
  have nf: "\<not> (cft_dir_entry no_cache_faults (path @ [name]) \<or> cft_metadata no_cache_faults (path @ [name]))"
    by (simp add: no_cache_faults_def)
  have nr: "\<not> cft_remove no_cache_faults (path @ [name])" by (simp add: no_cache_faults_def)
  show ?case
  proof (cases k)
    case (CacheFile len)
    with "4.hyps"(1) [OF refl nf CacheFile nr] "4.prems" nf nr show ?thesis by (simp add: kids_links_def)
  next
    case (CacheDir ks)
    with "4.hyps"(2) [OF refl nf CacheDir] "4.hyps"(3) [OF refl nf CacheDir] "4.prems" nf show ?thesis
      by (simp add: kids_links_def)
  qed (use "4.prems" in \<open>simp_all add: kids_links_def\<close>)
qed (auto simp: kids_links_def no_cache_faults_def)

lemma safe_entry_removed:
  assumes "child_node cs name = Some (CacheDir kids)"
    and "tst_safe_to_remove (inspect_tree no_cache_faults [name] (CacheDir kids))"
    and "\<not> tst_contains_symlink (inspect_tree no_cache_faults [name] (CacheDir kids))"
  shows "remove_entry no_cache_faults name cs = (True, put_child name None cs)"
proof -
  have "node_links (CacheDir kids) = 0"
    using inspected_safe [OF assms(2) [unfolded inspect_tree_def]] by simp
  then have "remove_directory no_cache_faults [name] (CacheDir kids) = (True, None)"
    by (rule clean_tree_removed(1)) simp
  with assms show ?thesis by (simp add: remove_entry_def Let_def) (simp add: no_cache_faults_def)
qed

section \<open>One entry\<close>

text \<open>An entry that can be removed, as far as the accounting could see: no link, no special node, not too many nodes.\<close>

definition removable_entry :: "cache_entry \<Rightarrow> bool" where
  "removable_entry e \<longleftrightarrow> tst_safe_to_remove (cen_stats e) \<and> \<not> tst_contains_symlink (cen_stats e)"

lemma entries_drop:
  assumes "cs' = filter (\<lambda>c. fst c \<noteq> name) (rst_children st)" "touched' = bt_remove name (rst_touched st)"
  shows "entries ft (st\<lparr>rst_children := cs', rst_touched := touched'\<rparr>) = filter (\<lambda>e. cen_path e \<noteq> name) (entries ft st)"
proof -
  have path: "entry_of ft touched c = Some e \<Longrightarrow> cen_path e = fst c" for touched c e
    by (auto simp: entry_of_def Let_def split: prod.splits if_splits)
  have other: "entry_of ft (bt_remove name touched) c = entry_of ft touched c" if "fst c \<noteq> name" for touched c
    using that by (auto simp: entry_of_def bt_get_remove split: prod.splits)
  have "List.map_filter (entry_of ft (bt_remove name touched)) (filter (\<lambda>c. fst c \<noteq> name) cs) =
      filter (\<lambda>e. cen_path e \<noteq> name) (List.map_filter (entry_of ft touched) cs)" for touched cs
  proof (induction cs)
    case (Cons c cs)
    then show ?case using path [of touched c] other [of c touched]
      by (cases "entry_of ft touched c") (auto simp: List.map_filter_simps)
  qed (simp add: List.map_filter_simps)
  with assms show ?thesis by (simp add: entries_def)
qed

lemma entry_listed:
  assumes "e \<in> set (entries no_cache_faults st)" "distinct (map fst (rst_children st))"
  obtains kids where "child_node (rst_children st) (cen_path e) = Some (CacheDir kids)"
    "cen_stats e = inspect_tree no_cache_faults [cen_path e] (CacheDir kids)"
proof -
  from assms(1) obtain name t node where c: "(name, t, node) \<in> set (rst_children st)"
    and e: "entry_of no_cache_faults (rst_touched st) (name, t, node) = Some e"
    by (auto simp: entries_def List.map_filter_def split: if_splits)
  have cn: "child_node (rst_children st) name = Some node" using c assms(2) by (simp add: child_node_def)
  from e have hm: "has_complete_marker no_cache_faults [name] node" and name: "cen_path e = name"
    and stats: "cen_stats e = inspect_tree no_cache_faults [name] node"
    by (auto simp: entry_of_def split: if_splits)
  from hm obtain kids where "node = CacheDir kids" by (auto simp: has_complete_marker_def split: cache_node.splits)
  with that cn name stats show thesis by simp
qed

lemma drop_removable:
  assumes "e \<in> set (entries no_cache_faults st)" "removable_entry e" "distinct (map fst (rst_children st))"
  obtains st' where "drop_entry no_cache_faults (cen_path e) st = (True, st')"
    and "entries no_cache_faults st' = filter (\<lambda>x. cen_path x \<noteq> cen_path e) (entries no_cache_faults st)"
    and "rst_active st' = rst_active st" and "distinct (map fst (rst_children st'))"
proof -
  obtain kids where k: "child_node (rst_children st) (cen_path e) = Some (CacheDir kids)"
    "cen_stats e = inspect_tree no_cache_faults [cen_path e] (CacheDir kids)" by (rule entry_listed [OF assms(1,3)])
  with assms(2) have r: "remove_entry no_cache_faults (cen_path e) (rst_children st) = (True, put_child (cen_path e) None (rst_children st))"
    by (intro safe_entry_removed [of _ _ kids]) (simp_all add: removable_entry_def)
  let ?st' = "st\<lparr>rst_children := put_child (cen_path e) None (rst_children st), rst_touched := bt_remove (cen_path e) (rst_touched st)\<rparr>"
  have "drop_entry no_cache_faults (cen_path e) st = (True, ?st')" by (simp add: drop_entry_def r)
  moreover have "entries no_cache_faults ?st' = filter (\<lambda>x. cen_path x \<noteq> cen_path e) (entries no_cache_faults st)"
    by (rule entries_drop) (simp_all add: put_child_def)
  ultimately show thesis using that names_put [OF assms(3), of "cen_path e" None] by simp
qed

lemma drop_unremovable:
  assumes "e \<in> set (entries no_cache_faults st)" "\<not> removable_entry e" "distinct (map fst (rst_children st))"
  shows "drop_entry no_cache_faults (cen_path e) st = (False, st)"
proof -
  obtain kids where k: "child_node (rst_children st) (cen_path e) = Some (CacheDir kids)"
    "cen_stats e = inspect_tree no_cache_faults [cen_path e] (CacheDir kids)" by (rule entry_listed [OF assms(1,3)])
  with assms(2) have "remove_entry no_cache_faults (cen_path e) (rst_children st) = (False, rst_children st)"
    by (auto simp: remove_entry_def Let_def removable_entry_def)
  then show ?thesis by (simp add: drop_entry_def)
qed

lemma entries_distinct:
  assumes "distinct (map fst (rst_children st))"
  shows "distinct (map cen_path (entries ft st))"
proof -
  have path: "entry_of ft touched c = Some e \<Longrightarrow> cen_path e = fst c" for touched c e
    by (auto simp: entry_of_def Let_def split: prod.splits if_splits)
  have sub: "cen_path ` set (List.map_filter (entry_of ft touched) cs) \<subseteq> fst ` set cs" for touched cs
    using path by (force simp: List.map_filter_def)
  have "distinct (map fst cs) \<Longrightarrow> distinct (map cen_path (List.map_filter (entry_of ft touched) cs))" for touched cs
  proof (induction cs)
    case (Cons c cs)
    then show ?case using path [of touched c] sub [of touched cs]
      by (cases "entry_of ft touched c") (auto simp: List.map_filter_simps)
  qed (simp add: List.map_filter_simps)
  with assms show ?thesis by (simp add: entries_def)
qed

section \<open>The first pass\<close>

text \<open>What a pass never removes: entries with a lease and entries with a link or anything else it must not delete.\<close>

definition protected_entry :: "retention_state \<Rightarrow> cache_entry \<Rightarrow> bool" where
  "protected_entry st e \<longleftrightarrow> is_active st (cen_path e) \<or> \<not> removable_entry e"

definition expired_entry :: "retention_state \<Rightarrow> nat \<Rightarrow> nat \<Rightarrow> cache_entry \<Rightarrow> bool" where
  "expired_entry st now age e \<longleftrightarrow> \<not> protected_entry st e \<and> is_old (cen_last_used e) now age"

lemma prune_old_exact:
  assumes "set es \<subseteq> set (entries no_cache_faults st)" "distinct (map cen_path es)"
    "distinct (map fst (rst_children st))"
  shows "\<exists>st'. prune_old no_cache_faults now age es (n, st) = (n + length (filter (expired_entry st now age) es), st') \<and>
    entries no_cache_faults st' =
      filter (\<lambda>x. cen_path x \<notin> cen_path ` {e \<in> set es. expired_entry st now age e}) (entries no_cache_faults st) \<and>
    rst_active st' = rst_active st \<and> distinct (map fst (rst_children st'))"
  using assms
proof (induction es arbitrary: n st)
  case (Cons e es)
  show ?case
  proof (cases "expired_entry st now age e")
    case False
    then have "{x \<in> set (e # es). expired_entry st now age x} = {x \<in> set es. expired_entry st now age x}" by auto
    moreover have "prune_old no_cache_faults now age (e # es) (n, st) = prune_old no_cache_faults now age es (n, st)"
      using False drop_unremovable [of e st] Cons.prems by (auto simp: expired_entry_def protected_entry_def)
    ultimately show ?thesis using False Cons.IH [of st n] Cons.prems by simp
  next
    case True
    obtain st1 where d: "drop_entry no_cache_faults (cen_path e) st = (True, st1)"
      and es1: "entries no_cache_faults st1 = filter (\<lambda>x. cen_path x \<noteq> cen_path e) (entries no_cache_faults st)"
      and a1: "rst_active st1 = rst_active st" and d1: "distinct (map fst (rst_children st1))"
      using drop_removable [of e st] Cons.prems True by (auto simp: expired_entry_def protected_entry_def)
    have "cen_path x \<noteq> cen_path e" if "x \<in> set es" for x using that Cons.prems(2) by (metis distinct.simps(2) image_eqI list.set_map list.simps(9))
    then have sub: "set es \<subseteq> set (entries no_cache_faults st1)" using Cons.prems(1) es1 by auto
    have ou: "expired_entry st1 now age = expired_entry st now age"
      by (simp add: expired_entry_def protected_entry_def is_active_def a1 fun_eq_iff)
    have set_eq: "cen_path ` {x \<in> set (e # es). expired_entry st now age x} = insert (cen_path e) (cen_path ` {x \<in> set es. expired_entry st now age x})"
      using True by auto
    obtain st2 where "prune_old no_cache_faults now age es (Suc n, st1) = (Suc n + length (filter (expired_entry st now age) es), st2)"
      "entries no_cache_faults st2 = filter (\<lambda>x. cen_path x \<notin> cen_path ` {x \<in> set es. expired_entry st now age x}) (entries no_cache_faults st1)"
      "rst_active st2 = rst_active st1" "distinct (map fst (rst_children st2))"
      using Cons.IH [of st1 "Suc n", OF sub _ d1] Cons.prems unfolding ou by auto
    moreover have "\<not> (is_active st (cen_path e) \<or> \<not> is_old (cen_last_used e) now age)"
      using True by (simp add: expired_entry_def protected_entry_def)
    ultimately show ?thesis
      using True d es1 a1 unfolding set_eq by (auto simp: conj_commute)
  qed
qed simp

section \<open>The second pass\<close>

definition entry_bytes :: "cache_entry list \<Rightarrow> nat" where
  "entry_bytes es = sum_list (map (\<lambda>e. tst_bytes (cen_stats e)) es)"

definition entry_nodes :: "cache_entry list \<Rightarrow> nat" where
  "entry_nodes es = sum_list (map (\<lambda>e. tst_nodes (cen_stats e)) es)"

text \<open>The entries are within the limits, with exact totals.\<close>

definition within_budget :: "retention_limits \<Rightarrow> cache_entry list \<Rightarrow> bool" where
  "within_budget lim es \<longleftrightarrow>
     length es \<le> rtl_max_entries lim \<and> entry_bytes es \<le> rtl_max_bytes lim \<and> entry_nodes es \<le> rtl_max_nodes lim"

text \<open>What is left when the first \<open>k\<close> entries of an order have been visited and only the leased ones kept.\<close>

definition kept_after :: "(cache_entry \<Rightarrow> bool) \<Rightarrow> nat \<Rightarrow> cache_entry list \<Rightarrow> cache_entry list" where
  "kept_after leased k es = filter leased (take k es) @ drop k es"

lemma kept_after_0 [simp]: "kept_after leased 0 es = es"
  by (simp add: kept_after_def)

lemma kept_after_Suc [simp]: "kept_after leased (Suc k) (e # es) = (if leased e then e # kept_after leased k es else kept_after leased k es)"
  by (simp add: kept_after_def)

lemma totals_append [simp]:
  "entry_bytes (xs @ ys) = entry_bytes xs + entry_bytes ys" "entry_nodes (xs @ ys) = entry_nodes xs + entry_nodes ys"
  "entry_bytes (e # ys) = tst_bytes (cen_stats e) + entry_bytes ys" "entry_nodes (e # ys) = tst_nodes (cen_stats e) + entry_nodes ys"
  "entry_bytes [] = 0" "entry_nodes [] = 0"
  by (simp_all add: entry_bytes_def entry_nodes_def)

lemma prune_budget_idle:
  "within_budget lim a \<Longrightarrow> prune_budget ft lim es (length a) (entry_bytes a) (entry_nodes a) acc = acc"
proof (induction es)
  case (Cons e es)
  then show ?case by (cases acc) (auto simp: within_budget_def)
qed simp

lemma prune_budget_exact:
  assumes "mset (entries no_cache_faults st) = mset (a @ es)" "distinct (map cen_path (a @ es))"
    "distinct (map fst (rst_children st))"
  shows "\<exists>st' k removed.
    prune_budget no_cache_faults lim es (length (a @ es)) (entry_bytes (a @ es)) (entry_nodes (a @ es)) (n, st) = (n + removed, st') \<and>
    k \<le> length es \<and> removed = length (filter (\<lambda>e. \<not> protected_entry st e) (take k es)) \<and>
    mset (entries no_cache_faults st') = mset (a @ kept_after (protected_entry st) k es) \<and>
    (k = length es \<or> within_budget lim (a @ kept_after (protected_entry st) k es)) \<and>
    (\<forall>j < k. \<not> within_budget lim (a @ kept_after (protected_entry st) j es)) \<and>
    rst_active st' = rst_active st"
  using assms
proof (induction es arbitrary: a n st)
  case Nil
  then show ?case by auto
next
  case (Cons e es)
  let ?act = "protected_entry st"
  show ?case
  proof (cases "within_budget lim (a @ e # es)")
    case True
    from prune_budget_idle [OF this, of no_cache_faults "e # es" "(n, st)"] True Cons.prems(1) show ?thesis
      by (intro exI [of _ st] exI [of _ 0]) simp
  next
    case over: False
    have less: "(\<forall>j < Suc k. P j) \<longleftrightarrow> P 0 \<and> (\<forall>j < k. P (Suc j))" for k and P :: "nat \<Rightarrow> bool"
      by (simp add: All_less_Suc2)
    have listed: "e \<in> set (entries no_cache_faults st)" using Cons.prems(1) by (metis in_set_conv_decomp mset_eq_setD)
    show ?thesis
    proof (cases "?act e")
      case True
      have skip: "prune_budget no_cache_faults lim (e # es) c b m (n, st) = prune_budget no_cache_faults lim es c b m (n, st)" for c b m
        using True drop_unremovable [OF listed _ Cons.prems(3)] by (auto simp: protected_entry_def)
      obtain st' k removed where
        "prune_budget no_cache_faults lim es (length ((a @ [e]) @ es)) (entry_bytes ((a @ [e]) @ es)) (entry_nodes ((a @ [e]) @ es)) (n, st) = (n + removed, st')"
        "k \<le> length es" "removed = length (filter (\<lambda>e. \<not> ?act e) (take k es))"
        "mset (entries no_cache_faults st') = mset ((a @ [e]) @ kept_after ?act k es)"
        "k = length es \<or> within_budget lim ((a @ [e]) @ kept_after ?act k es)"
        "\<forall>j < k. \<not> within_budget lim ((a @ [e]) @ kept_after ?act j es)" "rst_active st' = rst_active st"
        using Cons.IH [of st "a @ [e]" n] Cons.prems by auto
      then show ?thesis using True over
        by (intro exI [of _ st'] exI [of _ "Suc k"] exI [of _ removed]) (simp add: less skip del: prune_budget.simps)
    next
      case False
      from listed obtain st1 where d: "drop_entry no_cache_faults (cen_path e) st = (True, st1)"
        and es1: "entries no_cache_faults st1 = filter (\<lambda>x. cen_path x \<noteq> cen_path e) (entries no_cache_faults st)"
        and a1: "rst_active st1 = rst_active st" and d1: "distinct (map fst (rst_children st1))"
        using drop_removable [of e st] Cons.prems False by (auto simp: protected_entry_def)
      have act1: "protected_entry st1 = protected_entry st" by (simp add: protected_entry_def is_active_def a1 fun_eq_iff)
      have "cen_path e \<notin> cen_path ` set a" "cen_path e \<notin> cen_path ` set es" using Cons.prems(2) by auto
      then have others: "filter (\<lambda>x. cen_path x \<noteq> cen_path e) a = a" "filter (\<lambda>x. cen_path x \<noteq> cen_path e) es = es"
        by (metis (mono_tags, lifting) filter_True image_eqI)+
      have "mset (entries no_cache_faults st1) = filter_mset (\<lambda>x. cen_path x \<noteq> cen_path e) (mset (a @ e # es))"
        by (metis es1 Cons.prems(1) mset_filter)
      also have "\<dots> = mset (filter (\<lambda>x. cen_path x \<noteq> cen_path e) (a @ e # es))" by simp
      also have "filter (\<lambda>x. cen_path x \<noteq> cen_path e) (a @ e # es) = a @ es"
        by (simp add: others)
      finally have m1: "mset (entries no_cache_faults st1) = mset (a @ es)" .
      obtain st' k removed where
        "prune_budget no_cache_faults lim es (length (a @ es)) (entry_bytes (a @ es)) (entry_nodes (a @ es)) (Suc n, st1) = (Suc n + removed, st')"
        "k \<le> length es" "removed = length (filter (\<lambda>e. \<not> ?act e) (take k es))"
        "mset (entries no_cache_faults st') = mset (a @ kept_after ?act k es)"
        "k = length es \<or> within_budget lim (a @ kept_after ?act k es)"
        "\<forall>j < k. \<not> within_budget lim (a @ kept_after ?act j es)" "rst_active st' = rst_active st1"
        using Cons.IH [OF m1 _ d1, of "Suc n"] Cons.prems unfolding act1 by auto
      moreover have "prune_budget no_cache_faults lim (e # es) (length (a @ e # es)) (entry_bytes (a @ e # es)) (entry_nodes (a @ e # es)) (n, st) =
          prune_budget no_cache_faults lim es (length (a @ es)) (entry_bytes (a @ es)) (entry_nodes (a @ es)) (Suc n, st1)"
        using over False d by (auto simp: within_budget_def protected_entry_def)
      ultimately show ?thesis using False over a1
        by (intro exI [of _ st'] exI [of _ "Suc k"] exI [of _ "Suc removed"]) (simp add: less)
    qed
  qed
qed

section \<open>The whole pass\<close>

lemma foldl_sat_add: "acc + sum_list xs \<le> u64_max \<Longrightarrow> foldl sat_add acc xs = acc + sum_list xs"
  by (induction xs arbitrary: acc) (auto simp: sat_add_def)

lemma totals_exact:
  "entry_bytes es \<le> u64_max \<Longrightarrow> total_bytes es = entry_bytes es"
  "entry_nodes es \<le> u64_max \<Longrightarrow> total_nodes es = entry_nodes es"
  by (simp_all add: total_bytes_def total_nodes_def entry_bytes_def entry_nodes_def foldl_sat_add)

lemma totals_mset:
  assumes "mset xs = mset ys"
  shows "length xs = length ys" "entry_bytes xs = entry_bytes ys" "entry_nodes xs = entry_nodes ys"
  using assms by (auto simp: entry_bytes_def entry_nodes_def simp flip: sum_mset_sum_list size_mset)

lemma totals_filter: "entry_bytes (filter P es) \<le> entry_bytes es" "entry_nodes (filter P es) \<le> entry_nodes es"
  by (induction es) auto

lemma mset_eviction_order: "mset (eviction_order es) = mset es"
proof -
  have "mset (place_entry e es) = add_mset e (mset es)" for e es by (induction es) auto
  then show ?thesis unfolding eviction_order_def by (induction es) auto
qed

lemma eviction_order_sorted: "distinct (map cen_path es) \<Longrightarrow> sorted_wrt lru_before (eviction_order es)"
proof -
  have tr: "lru_before x y \<Longrightarrow> lru_before y z \<Longrightarrow> lru_before x z" for x y z by (auto simp: lru_before_def)
  have total: "\<not> lru_before x e \<Longrightarrow> cen_path x \<noteq> cen_path e \<Longrightarrow> lru_before e x" for x e
    by (auto simp: lru_before_def)
  have set: "set (place_entry e es) = insert e (set es)" for e es by (induction es) auto
  have place: "sorted_wrt lru_before es \<Longrightarrow> cen_path e \<notin> cen_path ` set es \<Longrightarrow> sorted_wrt lru_before (place_entry e es)" for e es
  proof (induction es)
    case (Cons x es)
    then show ?case using total [of x e] tr [of e x] set [of e es] by auto
  qed simp
  have sets: "set (foldr place_entry es []) = set es" for es by (induction es) (auto simp: set)
  show "distinct (map cen_path es) \<Longrightarrow> sorted_wrt lru_before (eviction_order es)"
    unfolding eviction_order_def by (induction es) (auto simp: place sets)
qed

text \<open>The first pass over the whole directory leaves exactly the entries that are protected or young.\<close>

lemma first_pass:
  assumes "distinct (map fst (rst_children st))"
  obtains st1 where
    "prune_old no_cache_faults now age (entries no_cache_faults st) (0, st) =
      (length (filter (expired_entry st now age) (entries no_cache_faults st)), st1)"
    and "entries no_cache_faults st1 = filter (\<lambda>e. \<not> expired_entry st now age e) (entries no_cache_faults st)"
    and "protected_entry st1 = protected_entry st" and "distinct (map fst (rst_children st1))"
proof -
  let ?es = "entries no_cache_faults st" and ?ou = "expired_entry st now age"
  have dist: "distinct (map cen_path ?es)" by (rule entries_distinct [OF assms])
  obtain st1 where one: "prune_old no_cache_faults now age ?es (0, st) = (length (filter ?ou ?es), st1)"
    and e1: "entries no_cache_faults st1 = filter (\<lambda>x. cen_path x \<notin> cen_path ` {e \<in> set ?es. ?ou e}) ?es"
    and a1: "rst_active st1 = rst_active st" and d1: "distinct (map fst (rst_children st1))"
    using prune_old_exact [OF subset_refl dist assms, of now age 0] by auto
  have "entries no_cache_faults st1 = filter (\<lambda>e. \<not> ?ou e) ?es"
    unfolding e1
  proof (rule filter_cong)
    fix x
    assume "x \<in> set ?es"
    then have "y \<in> set ?es \<Longrightarrow> cen_path x = cen_path y \<Longrightarrow> x = y" for y
      using dist by (auto simp: distinct_map dest: inj_onD)
    then show "cen_path x \<notin> cen_path ` {e \<in> set ?es. ?ou e} \<longleftrightarrow> \<not> ?ou x" using \<open>x \<in> set ?es\<close> by blast
  qed simp
  moreover have "protected_entry st1 = protected_entry st" by (simp add: protected_entry_def is_active_def a1 fun_eq_iff)
  ultimately show thesis using that one d1 by blast
qed

text \<open>
  C29: When no system call fails, the names of the directory are distinct and the sizes fit 64 bits, a pruning pass
  first removes the entries that are too old and then evicts by age: visiting the rest from the least recently used
  on, it removes entries up to the first point where the number of entries, bytes and nodes is within the limits, and
  nothing after that point. In both it leaves the protected entries alone, those with a lease and those that contain a
  link, a special node or too many nodes, and removes every other one it visits. The report counts exactly what was
  removed and what is left.
\<close>

theorem prune_evicts_least_recent:
  assumes "distinct (map fst (rst_children st))" and "rst_root_ok st"
    and "entry_bytes (entries no_cache_faults st) \<le> u64_max" and "entry_nodes (entries no_cache_faults st) \<le> u64_max"
    and "prune_at no_cache_faults lim now st = (report, st')"
    and "order = eviction_order (filter (\<lambda>e. \<not> expired_entry st now (rtl_max_age lim) e) (entries no_cache_faults st))"
  shows "sorted_wrt lru_before order \<and>
    (\<exists>k \<le> length order.
       mset (entries no_cache_faults st') = mset (kept_after (protected_entry st) k order) \<and>
       (k = length order \<or> within_budget lim (entries no_cache_faults st')) \<and>
       (\<forall>j < k. \<not> within_budget lim (kept_after (protected_entry st) j order))) \<and>
    rtr_removed report + rtr_retained report = length (entries no_cache_faults st) \<and>
    rtr_retained report = length (entries no_cache_faults st')"
proof -
  let ?es = "entries no_cache_faults st" and ?ou = "expired_entry st now (rtl_max_age lim)"
  let ?young = "filter (\<lambda>e. \<not> ?ou e) ?es" and ?act = "protected_entry st"
  have dist: "distinct (map cen_path ?es)" by (rule entries_distinct [OF assms(1)])
  obtain st1 where one: "prune_old no_cache_faults now (rtl_max_age lim) ?es (0, st) = (length (filter ?ou ?es), st1)"
    and young: "entries no_cache_faults st1 = ?young" and act: "protected_entry st1 = protected_entry st"
    and d1: "distinct (map fst (rst_children st1))"
    using first_pass [OF assms(1)] by blast
  have mo: "mset order = mset ?young" by (simp add: assms(6) mset_eviction_order)
  note tm = totals_mset [OF mo]
  have totals: "length ?young = length order" "total_bytes ?young = entry_bytes order" "total_nodes ?young = entry_nodes order"
    using tm totals_filter [of "\<lambda>e. \<not> ?ou e" ?es] assms(3,4) by (simp_all add: totals_exact)
  have young_dist: "distinct (map cen_path ?young)" using dist by (simp add: distinct_map_filter)
  then have "distinct (map cen_path order)"
    by (metis mo mset_eq_imp_distinct_iff mset_map)
  then obtain st2 k removed where
    two: "prune_budget no_cache_faults lim order (length order) (entry_bytes order) (entry_nodes order) (length (filter ?ou ?es), st1) =
        (length (filter ?ou ?es) + removed, st2)"
    and k: "k \<le> length order" "removed = length (filter (\<lambda>e. \<not> ?act e) (take k order))"
    and m2: "mset (entries no_cache_faults st2) = mset (kept_after ?act k order)"
    and w: "k = length order \<or> within_budget lim (kept_after ?act k order)"
    and min: "\<forall>j < k. \<not> within_budget lim (kept_after ?act j order)"
    using prune_budget_exact [of st1 "[]" order lim "length (filter ?ou ?es)"] young mo d1 unfolding act by auto
  have fin: "st' = st2 \<and> rtr_removed report = length (filter ?ou ?es) + removed \<and> rtr_retained report = length (entries no_cache_faults st2)"
    using assms(2,5) one two unfolding prune_at_def by (simp add: young totals flip: assms(6)) (auto simp: Let_def)
  have sums: "removed + length (kept_after ?act k order) = length order"
  proof -
    have "length (filter ?act (take k order)) + removed = length (take k order)"
      unfolding k(2) by (rule sum_length_filter_compl)
    then show ?thesis using k(1) by (simp add: kept_after_def)
  qed
  have "length (filter ?ou ?es) + length ?young = length ?es" by (rule sum_length_filter_compl)
  then have "rtr_removed report + rtr_retained report = length ?es"
    using fin sums totals_mset(1) [OF m2] totals(1) by simp
  moreover have "within_budget lim (kept_after ?act k order) = within_budget lim (entries no_cache_faults st2)"
    using totals_mset [OF m2] by (simp add: within_budget_def)
  moreover have "sorted_wrt lru_before order" unfolding assms(6) by (rule eviction_order_sorted [OF young_dist])
  ultimately show ?thesis using fin k(1) m2 w min by auto
qed

end
