(* ===== verification/Retention_Leases.thy ===== *)
theory Retention_Leases
  imports Retention_Properties "HOL-Library.Code_Target_Nat"
begin

text \<open>
  The life of a retention coordinator: leases are taken and released, entries touched, passes run and files change
  underneath, in any order. The reference counts always equal the leases that are alive, so an entry stays for as
  long as one of its leases does.
\<close>

section \<open>Steps\<close>

text \<open>The coordinator with every lease handed out so far.\<close>

type_synonym lease_world = "retention_state \<times> cache_lease list"

inductive lease_step :: "lease_world \<Rightarrow> lease_world \<Rightarrow> bool" where
  take_lease: "lease ft root cwd path st = (l, st') \<Longrightarrow> lease_step (st, ls) (st', ls @ [l])"
| release_lease: "i < length ls \<Longrightarrow> release (ls ! i) st = (l, st') \<Longrightarrow> lease_step (st, ls) (st', ls[i := l])"
| touch_entry: "touch ft root cwd now path st = (ok, st') \<Longrightarrow> lease_step (st, ls) (st', ls)"
| prune_pass: "prune_at ft lim now st = (report, st') \<Longrightarrow> lease_step (st, ls) (st', ls)"
| files_change: "distinct (map fst cs) \<Longrightarrow> lease_step (st, ls) (st\<lparr>rst_root_ok := ok, rst_children := cs\<rparr>, ls)"

inductive_cases lease_stepE: "lease_step (st, ls) w"

inductive lease_run :: "lease_world \<Rightarrow> bool" where
  fresh: "distinct (map fst cs) \<Longrightarrow>
    lease_run (\<lparr>rst_root_ok = ok, rst_children = cs, rst_active = [], rst_touched = []\<rparr>, [])"
| after: "lease_run w \<Longrightarrow> lease_step w w' \<Longrightarrow> lease_run w'"

section \<open>The counts\<close>

definition live_on :: "string \<Rightarrow> cache_lease \<Rightarrow> bool" where
  "live_on name l \<longleftrightarrow> \<not> cls_released l \<and> cls_path l = Some name"

definition live_leases :: "string \<Rightarrow> cache_lease list \<Rightarrow> nat" where
  "live_leases name ls = length (filter (live_on name) ls)"

text \<open>An entry has a count exactly when it has a live lease, and the count is the number of them.\<close>

definition counts_leases :: "lease_world \<Rightarrow> bool" where
  "counts_leases w \<longleftrightarrow>
     (\<forall>name. bt_get (rst_active (fst w)) name = (if live_leases name (snd w) = 0 then None else Some (live_leases name (snd w)))) \<and>
     distinct (map fst (rst_children (fst w)))"

lemma live_leases_snoc: "live_leases name (ls @ [l]) = live_leases name ls + (if live_on name l then 1 else 0)"
  by (simp add: live_leases_def)

lemma live_leases_update:
  assumes "i < length ls"
  shows "live_leases name (ls[i := l]) + (if live_on name (ls ! i) then 1 else 0) = live_leases name ls + (if live_on name l then 1 else 0)"
proof -
  have "ls = take i ls @ ls ! i # drop (Suc i) ls" using assms by (simp add: id_take_nth_drop)
  then have "live_leases name ls = live_leases name (take i ls @ ls ! i # drop (Suc i) ls)" by simp
  moreover have "ls[i := l] = take i ls @ l # drop (Suc i) ls" using assms by (simp add: upd_conv_take_nth_drop)
  ultimately show ?thesis by (simp add: live_leases_def)
qed

lemma lease_counts:
  assumes "counts_leases (st, ls)" "lease ft root cwd path st = (l, st')"
  shows "counts_leases (st', ls @ [l])"
proof (cases "l = noop_lease \<and> st' = st")
  case True
  then have "live_leases name (ls @ [l]) = live_leases name ls" for name
    by (simp add: live_leases_snoc live_on_def noop_lease_def)
  with True assms(1) show ?thesis by (simp add: counts_leases_def)
next
  case False
  then obtain name where l: "l = \<lparr>cls_path = Some name, cls_released = False\<rparr>"
    and st': "st' = st\<lparr>rst_active := bt_insert name ((case bt_get (rst_active st) name of None \<Rightarrow> 0 | Some n \<Rightarrow> n) + 1) (rst_active st)\<rparr>"
    using assms(2) by (auto simp: lease_def split: if_splits option.splits)
  have "live_leases m (ls @ [l]) = live_leases m ls + (if m = name then 1 else 0)" for m
    by (simp add: live_leases_snoc l live_on_def)
  with assms(1) show ?thesis by (simp add: counts_leases_def st' bt_get_insert)
qed

lemma release_counts:
  assumes "counts_leases (st, ls)" "i < length ls" "release (ls ! i) st = (l, st')"
  shows "counts_leases (st', ls[i := l])"
proof (cases "cls_released (ls ! i)")
  case True
  with assms(3) have "l = ls ! i" "st' = st" by (auto simp: release_def)
  with assms(1) show ?thesis by simp
next
  case False
  then have dead: "\<not> live_on m l" for m using assms(3) by (auto simp: release_def live_on_def Let_def split: option.splits)
  have get: "bt_get (rst_active st) m = (if live_leases m ls = 0 then None else Some (live_leases m ls))" for m
    using assms(1) by (simp add: counts_leases_def)
  show ?thesis
  proof (cases "cls_path (ls ! i)")
    case None
    have "live_leases m (ls[i := l]) = live_leases m ls" for m
      using live_leases_update [OF assms(2), of m l] dead None by (simp add: live_on_def)
    moreover have "st' = st" using assms(3) False None by (auto simp: release_def)
    ultimately show ?thesis using assms(1) by (simp add: counts_leases_def)
  next
    case (Some name)
    have n: "live_leases m (ls[i := l]) = live_leases m ls - (if m = name then 1 else 0)" for m
      using live_leases_update [OF assms(2), of m l] dead Some False by (auto simp: live_on_def split: if_splits)
    have "0 < live_leases name ls"
      using live_leases_update [OF assms(2), of name l] dead [of name] Some False by (auto simp: live_on_def split: if_splits)
    with assms(3) False Some get [of name] have "st' = st\<lparr>rst_active :=
        (if live_leases name ls \<le> 1 then bt_remove name (rst_active st) else bt_insert name (live_leases name ls - 1) (rst_active st))\<rparr>"
      by (auto simp: release_def)
    then show ?thesis using assms(1) get n by (auto simp: counts_leases_def bt_get_remove bt_get_insert)
  qed
qed

lemma prune_names:
  assumes "prune_at ft lim now st = (report, st')" "distinct (map fst (rst_children st))"
  shows "keeps_names {} st st'"
proof (cases "rst_root_ok st")
  case False
  with assms show ?thesis by (simp add: prune_at_def keeps_refl)
next
  case True
  obtain n1 st1 where one: "prune_old ft now (rtl_max_age lim) (entries ft st) (0, st) = (n1, st1)" by fastforce
  let ?es = "entries ft st1"
  obtain n2 where two: "prune_budget ft lim (eviction_order ?es) (length ?es) (total_bytes ?es) (total_nodes ?es) (n1, st1) = (n2, st')"
    using assms(1) True one by (auto simp: prune_at_def Let_def split: prod.splits)
  have k1: "keeps_names {} st st1" by (rule prune_old_keeps [OF one assms(2)]) simp
  have "keeps_names {} st1 st'" by (rule prune_budget_keeps [OF two keeps_distinct [OF k1]]) simp
  with k1 show ?thesis by (rule keeps_trans)
qed

lemma step_counts: "lease_step w w' \<Longrightarrow> counts_leases w \<Longrightarrow> counts_leases w'"
proof (induction rule: lease_step.induct)
  case (touch_entry ft root cwd now path st ok st' ls)
  then have "rst_active st' = rst_active st" "rst_children st' = rst_children st"
    by (auto simp: touch_def split: if_splits option.splits)
  with touch_entry.prems show ?case by (simp add: counts_leases_def)
next
  case (prune_pass ft lim now st report st' ls)
  then have "keeps_names {} st st'" by (intro prune_names) (simp_all add: counts_leases_def)
  with prune_pass.prems show ?case by (simp add: counts_leases_def keeps_names_def)
next
  case (files_change cs st ls ok)
  then show ?case by (simp add: counts_leases_def)
qed (blast intro: lease_counts release_counts)+

lemma run_counts: "lease_run w \<Longrightarrow> counts_leases w"
proof (induction rule: lease_run.induct)
  case (fresh cs ok)
  then show ?case by (simp add: counts_leases_def live_leases_def)
qed (auto intro: step_counts)

text \<open>
  C30: However leases are taken and released, entries touched, passes run and files changed, the count of an entry is
  the number of its leases that are alive, released leases never count twice, and a pass leaves an entry as it is
  while one of its leases is alive, whatever system calls fail.
\<close>

theorem leased_entry_survives_prune:
  assumes "lease_run (st, ls)"
  shows "bt_get (rst_active st) name = (if live_leases name ls = 0 then None else Some (live_leases name ls)) \<and>
    (0 < live_leases name ls \<longrightarrow>
       child_node (rst_children (snd (prune_at ft lim now st))) name = child_node (rst_children st) name)"
proof -
  from run_counts [OF assms] have get: "bt_get (rst_active st) name = (if live_leases name ls = 0 then None else Some (live_leases name ls))"
    and d: "distinct (map fst (rst_children st))"
    by (simp_all add: counts_leases_def)
  obtain report st' where p: "prune_at ft lim now st = (report, st')" by fastforce
  have "child_node (rst_children st') name = child_node (rst_children st) name" if "0 < live_leases name ls"
    using prune_effect [OF d p, of name] that get by (simp add: untouchable_def is_active_def)
  with get p show ?thesis by simp
qed

end
