(* ===== verification/Retention_Scenario.thy ===== *)
theory Retention_Scenario
  imports Retention_Budget Retention_Leases "HOL-Library.Code_Target_Nat"
begin

text \<open>A cache directory with three complete entries, a link and a lock file, pruned to one entry.\<close>

section \<open>The directory\<close>

definition entry_dir :: "nat \<Rightarrow> cache_node" where
  "entry_dir len = CacheDir [(COMPLETE_MARKER, CacheFile 2), (''data'', CacheDir [(''blob'', CacheFile len)])]"

definition demo_children :: cache_children where
  "demo_children =
     [(''a'', Some 100, entry_dir 10), (''b'', Some 300, entry_dir 20), (''c'', Some 200, entry_dir 30),
      (''link'', Some 1, CacheLink), (''a.lock'', Some 1, CacheFile 0)]"

definition demo_state :: retention_state where
  "demo_state = \<lparr>rst_root_ok = True, rst_children = demo_children, rst_active = [], rst_touched = []\<rparr>"

definition demo_limits :: retention_limits where
  "demo_limits = \<lparr>rtl_max_age = 1000, rtl_max_bytes = 100, rtl_max_entries = 1, rtl_max_nodes = 100\<rparr>"

definition demo_root :: "component list" where
  "demo_root = [RootDir, Normal ''cache'']"

definition leased_state :: retention_state where
  "leased_state = demo_state\<lparr>rst_active := [(''a'', 1)]\<rparr>"

definition demo_lease :: cache_lease where
  "demo_lease = \<lparr>cls_path = Some ''a'', cls_released = False\<rparr>"

text \<open>Removing the file of \<open>c\<close> fails.\<close>

definition demo_faults :: cache_faults where
  "demo_faults = no_cache_faults\<lparr>cft_remove := (\<lambda>p. p = [''c'', ''data'', ''blob''])\<rparr>"

lemma demo_distinct: "distinct (map fst (rst_children demo_state))" "distinct (map fst (rst_children leased_state))"
  by code_simp+

lemma demo_lease_taken: "lease no_cache_faults demo_root [] ''/cache/a'' demo_state = (demo_lease, leased_state)"
  by code_simp

lemma demo_untouchable: "untouchable demo_faults leased_state ''a''" "untouchable demo_faults leased_state ''link''"
  by code_simp+

section \<open>Instances\<close>

lemma leased_pruned:
  "map (\<lambda>c. fst c) (rst_children (snd (prune_at no_cache_faults demo_limits 500 leased_state))) = [''a'', ''link'', ''a.lock'']"
  by code_simp

theorem prune_keeps_protected_witness:
  "child_node (rst_children (snd (prune_at demo_faults demo_limits 5000 leased_state))) ''a'' = Some (entry_dir 10) \<and>
   children_links (rst_children (snd (prune_at demo_faults demo_limits 5000 leased_state))) = 1"
proof -
  have p: "prune_at demo_faults demo_limits 5000 leased_state =
      (fst (prune_at demo_faults demo_limits 5000 leased_state), snd (prune_at demo_faults demo_limits 5000 leased_state))"
    by simp
  have a: "child_node (rst_children leased_state) ''a'' = Some (entry_dir 10)" "children_links (rst_children leased_state) = 1"
    by code_simp+
  from prune_keeps_protected [OF demo_distinct(2) p, of "''a''"] demo_untouchable(1) a show ?thesis by simp
qed

text \<open>A fourth entry contains a link; it is the oldest and stays all the same.\<close>

definition linked_state :: retention_state where
  "linked_state = demo_state\<lparr>rst_children := demo_children @
     [(''d'', Some 50, CacheDir [(COMPLETE_MARKER, CacheFile 2), (''l'', CacheLink)])]\<rparr>"

lemma linked_pruned:
  "map cen_path (entries no_cache_faults (snd (prune_at no_cache_faults demo_limits 500 linked_state))) = [''d'']"
  by code_simp

theorem prune_evicts_least_recent_witness:
  "\<exists>order k. sorted_wrt lru_before order \<and> map cen_path order = [''d'', ''a'', ''c'', ''b''] \<and>
     mset (entries no_cache_faults (snd (prune_at no_cache_faults demo_limits 500 linked_state))) =
       mset (kept_after (protected_entry linked_state) k order) \<and>
     within_budget demo_limits (entries no_cache_faults (snd (prune_at no_cache_faults demo_limits 500 linked_state))) \<and>
     rtr_removed (fst (prune_at no_cache_faults demo_limits 500 linked_state)) = 3 \<and>
     rtr_retained (fst (prune_at no_cache_faults demo_limits 500 linked_state)) = 1"
proof -
  let ?r = "prune_at no_cache_faults demo_limits 500 linked_state"
  let ?order = "eviction_order (filter (\<lambda>e. \<not> expired_entry linked_state 500 1000 e) (entries no_cache_faults linked_state))"
  have p: "?r = (fst ?r, snd ?r)" by simp
  have d: "distinct (map fst (rst_children linked_state))" and age: "rtl_max_age demo_limits = 1000" and ok: "rst_root_ok linked_state"
    by code_simp+
  have e: "entry_bytes (entries no_cache_faults linked_state) \<le> u64_max" "entry_nodes (entries no_cache_faults linked_state) \<le> u64_max"
    "length (entries no_cache_faults linked_state) = 4" "map cen_path ?order = [''d'', ''a'', ''c'', ''b'']"
    by code_simp+
  have one: "length (entries no_cache_faults (snd ?r)) = 1" "within_budget demo_limits (entries no_cache_faults (snd ?r))" by code_simp+
  from prune_evicts_least_recent [OF d ok e(1,2) p refl] e(3) one age
  have "sorted_wrt lru_before ?order" "\<exists>k. mset (entries no_cache_faults (snd ?r)) = mset (kept_after (protected_entry linked_state) k ?order)"
    "rtr_removed (fst ?r) = 3" "rtr_retained (fst ?r) = 1" by auto
  then show ?thesis using e(4) one(2) by (intro exI [of _ ?order]) simp
qed

theorem leased_entry_survives_prune_witness:
  "bt_get (rst_active leased_state) ''a'' = Some 1 \<and>
   child_node (rst_children (snd (prune_at no_cache_faults demo_limits 5000 leased_state))) ''a'' = Some (entry_dir 10)"
proof -
  have "lease_run (demo_state, [])"
    unfolding demo_state_def using demo_distinct(1) by (intro lease_run.fresh) (simp add: demo_state_def)
  moreover have "lease_step (demo_state, []) (leased_state, [] @ [demo_lease])"
    by (rule take_lease [OF demo_lease_taken])
  ultimately have run: "lease_run (leased_state, [demo_lease])" by (auto intro: lease_run.after)
  have "live_leases ''a'' [demo_lease] = 1" "child_node (rst_children leased_state) ''a'' = Some (entry_dir 10)" by code_simp+
  with leased_entry_survives_prune [OF run, of "''a''" no_cache_faults demo_limits 5000] show ?thesis by simp
qed

end
