(* ===== verification/Migrate_Tokens.thy ===== *)
theory Migrate_Tokens
  imports Repair_Scanner
begin

text \<open>
  The token scan of the migration engine (\<open>change/migrate/rewrite.rs\<close>): comments and literals are single
  tokens, delimiters are paired. Positions are byte offsets into a UTF-8 text. Shown: the scan ends, its tokens
  are in order, not empty, cut at character boundaries, and leave out nothing but ASCII white space.
\<close>

section \<open>Tokens\<close>

datatype token_kind = Ident | Punct char | Open char | Close char | Literal | Comment | OtherToken

record token =
  tok_start :: nat
  tok_end :: nat
  tok_kind :: token_kind
  tok_pair :: "nat option"

definition is_punct :: "token \<Rightarrow> char \<Rightarrow> bool" where
  "is_punct t c \<longleftrightarrow> tok_kind t = Punct c"

definition is_open :: "token \<Rightarrow> bool" where
  "is_open t = (case tok_kind t of Open _ \<Rightarrow> True | _ \<Rightarrow> False)"

definition is_close :: "token \<Rightarrow> bool" where
  "is_close t = (case tok_kind t of Close _ \<Rightarrow> True | _ \<Rightarrow> False)"

definition is_open_paren :: "token \<Rightarrow> bool" where
  "is_open_paren t \<longleftrightarrow> tok_kind t = Open (CHR ''('')"

definition is_ident :: "token \<Rightarrow> bool" where
  "is_ident t \<longleftrightarrow> tok_kind t = Ident"

definition is_comment :: "token \<Rightarrow> bool" where
  "is_comment t \<longleftrightarrow> tok_kind t = Comment"

record parsed_file =
  psf_tokens :: "token list"
  psf_balanced :: bool

definition scan_token :: "nat \<Rightarrow> nat \<Rightarrow> token_kind \<Rightarrow> token" where
  "scan_token start stop kind = \<lparr>tok_start = start, tok_end = stop, tok_kind = kind, tok_pair = None\<rparr>"

section \<open>Characters\<close>

text \<open>What the Unicode tables say of a character that is not ASCII, given by its bytes.\<close>

record unicode =
  uni_alphabetic :: "string \<Rightarrow> bool"
  uni_alphanumeric :: "string \<Rightarrow> bool"

definition char_is :: "(char \<Rightarrow> bool) \<Rightarrow> (string \<Rightarrow> bool) \<Rightarrow> string \<Rightarrow> bool" where
  "char_is ascii table ch = (case ch of [c] \<Rightarrow> (if is_ascii c then ascii c else table ch) | _ \<Rightarrow> table ch)"

definition ident_start :: "unicode \<Rightarrow> string \<Rightarrow> bool" where
  "ident_start u ch \<longleftrightarrow> ch = ''_'' \<or> char_is is_ascii_alphabetic (uni_alphabetic u) ch"

definition ident_continue :: "unicode \<Rightarrow> string \<Rightarrow> bool" where
  "ident_continue u ch \<longleftrightarrow> ch = ''_'' \<or> char_is is_ascii_alphanumeric (uni_alphanumeric u) ch"

text \<open>\<open>source[i..].chars().next()\<close>, empty at the end of the text.\<close>

definition char_at :: "string \<Rightarrow> nat \<Rightarrow> string" where
  "char_at src i = (case drop i src of [] \<Rightarrow> [] | c # s \<Rightarrow> c # takeWhile is_cont s)"

definition is_ascii_punctuation :: "char \<Rightarrow> bool" where
  "is_ascii_punctuation c \<longleftrightarrow>
     (let b = of_char c :: nat in (33 \<le> b \<and> b \<le> 47) \<or> (58 \<le> b \<and> b \<le> 64) \<or> (91 \<le> b \<and> b \<le> 96) \<or> (123 \<le> b \<and> b \<le> 126))"

section \<open>Scanners\<close>

definition scan_ident :: "unicode \<Rightarrow> string \<Rightarrow> nat \<Rightarrow> nat" where
  "scan_ident u src start =
     (let first = char_at src start in
      if first = [] then start
      else if \<not> ident_start u first then start + length first
      else
        let base = start + length first
        in base + length (concat (takeWhile (ident_continue u) (chars (drop base src)))))"

function scan_quoted_from :: "string \<Rightarrow> nat \<Rightarrow> nat option" where
  "scan_quoted_from src i =
     (if i < length src then
        if src ! i = CHR 0x5C then scan_quoted_from src (i + 2)
        else if src ! i = CHR 0x22 then Some (i + 1)
        else scan_quoted_from src (i + 1)
      else None)"
  by pat_completeness auto
termination
  by (relation "measure (\<lambda>(src, i). length src - i)") auto

declare scan_quoted_from.simps [simp del]

definition scan_quoted :: "string \<Rightarrow> nat \<Rightarrow> nat option" where
  "scan_quoted src start = scan_quoted_from src (start + 1)"

definition scan_char_or_lifetime :: "unicode \<Rightarrow> string \<Rightarrow> nat \<Rightarrow> nat option" where
  "scan_char_or_lifetime u src start =
     (if length src \<le> start + 1 then None
      else if src ! (start + 1) = CHR 0x5C then
        (let quote = skip_while (\<lambda>c. c \<noteq> CHR 0x27) src (length src) (start + 2)
         in if quote < length src then Some (quote + 1) else None)
      else
        let ch = char_at src (start + 1) in
        if ident_start u ch then
          let ident_end = scan_ident u src (start + 1)
          in if byte_is src ident_end (CHR 0x27) \<and> ident_end = start + 2 then Some (ident_end + 1) else Some ident_end
        else
          let stop = start + 1 + length ch
          in if byte_is src stop (CHR 0x27) then Some (stop + 1) else Some stop)"

text \<open>The prefix of a raw string: at most two letters \<open>r\<close> or \<open>b\<close>; where it ends and whether an \<open>r\<close> was seen.\<close>

fun raw_prefix :: "string \<Rightarrow> nat \<Rightarrow> nat \<Rightarrow> bool \<Rightarrow> nat \<times> bool" where
  "raw_prefix src 0 i saw_r = (i, saw_r)"
| "raw_prefix src (Suc n) i saw_r =
     (if byte_is src i (CHR ''r'') then raw_prefix src n (i + 1) True
      else if byte_is src i (CHR ''b'') then raw_prefix src n (i + 1) saw_r
      else (i, saw_r))"

text \<open>The closing quote of a raw string with its hashes.\<close>

function raw_string_end :: "string \<Rightarrow> nat \<Rightarrow> nat \<Rightarrow> nat option" where
  "raw_string_end src hashes i =
     (if i < length src then
        let closing = skip_while (\<lambda>c. c = CHR ''#'') src (min (length src) (i + 1 + hashes)) (i + 1) in
        if src ! i = CHR 0x22 \<and> closing = i + 1 + hashes then Some closing else raw_string_end src hashes (i + 1)
      else None)"
  by pat_completeness auto
termination
  by (relation "measure (\<lambda>(src, hashes, i). length src - i)") auto

declare raw_string_end.simps [simp del]

definition scan_raw_string :: "string \<Rightarrow> nat \<Rightarrow> nat option" where
  "scan_raw_string src start =
     (let (i, saw_r) = raw_prefix src 2 start False in
      if \<not> saw_r then None
      else
        let quote = skip_while (\<lambda>c. c = CHR ''#'') src (length src) i in
        if \<not> byte_is src quote (CHR 0x22) then None else raw_string_end src (quote - i) (quote + 1))"

function block_comment_end :: "string \<Rightarrow> nat \<Rightarrow> nat \<Rightarrow> nat" where
  "block_comment_end src depth i =
     (if i < length src \<and> 0 < depth then
        if src ! i = CHR ''/'' \<and> byte_is src (i + 1) (CHR ''*'') then block_comment_end src (depth + 1) (i + 2)
        else if src ! i = CHR ''*'' \<and> byte_is src (i + 1) (CHR ''/'') then block_comment_end src (depth - 1) (i + 2)
        else block_comment_end src depth (i + 1)
      else i)"
  by pat_completeness auto
termination
  by (relation "measure (\<lambda>(src, depth, i). length src - i)") auto

declare block_comment_end.simps [simp del]

definition number_byte :: "char \<Rightarrow> bool" where
  "number_byte c \<longleftrightarrow> is_ascii_alphanumeric c \<or> c = CHR ''_'' \<or> c = CHR ''.''"

section \<open>The scan\<close>

text \<open>The token that starts at a byte that is not white space: where it ends and its kind.\<close>

definition next_token :: "unicode \<Rightarrow> string \<Rightarrow> nat \<Rightarrow> nat \<times> token_kind" where
  "next_token u src i =
     (let byte = src ! i in
      if byte = CHR ''/'' \<and> byte_is src (i + 1) (CHR ''/'') then
        (skip_while (\<lambda>c. c \<noteq> CHR 0x0A) src (length src) (i + 2), Comment)
      else if byte = CHR ''/'' \<and> byte_is src (i + 1) (CHR ''*'') then (block_comment_end src 1 (i + 2), Comment)
      else if byte = CHR 0x22 then (case scan_quoted src i of None \<Rightarrow> length src | Some e \<Rightarrow> e, Literal)
      else if byte = CHR 0x27 then (case scan_char_or_lifetime u src i of None \<Rightarrow> i + 1 | Some e \<Rightarrow> e, Literal)
      else if byte = CHR ''b'' \<and> byte_is src (i + 1) (CHR 0x22) then
        (case scan_quoted src (i + 1) of None \<Rightarrow> length src | Some e \<Rightarrow> e, Literal)
      else if byte = CHR ''b'' \<and> byte_is src (i + 1) (CHR 0x27) then
        (case scan_char_or_lifetime u src (i + 1) of None \<Rightarrow> i + 2 | Some e \<Rightarrow> e, Literal)
      else if byte = CHR ''r'' \<or> byte = CHR ''b'' then
        (case scan_raw_string src i of Some e \<Rightarrow> (e, Literal) | None \<Rightarrow> (scan_ident u src i, Ident))
      else if byte = CHR ''('' \<or> byte = CHR ''['' \<or> byte = CHR ''{'' then (i + 1, Open byte)
      else if byte = CHR '')'' \<or> byte = CHR '']'' \<or> byte = CHR ''}'' then (i + 1, Close byte)
      else
        let ch = char_at src i in
        if ident_start u ch then (scan_ident u src i, Ident)
        else if is_ascii_digit byte then (skip_while number_byte src (length src) (i + 1), OtherToken)
        else if is_ascii_punctuation byte then (i + 1, Punct byte)
        else (i + length ch, OtherToken))"

lemma char_at_nonempty: "i < length src \<Longrightarrow> char_at src i \<noteq> []"
  by (cases "drop i src") (auto simp: char_at_def)

lemma scan_ident_forward: "i < length src \<Longrightarrow> i < scan_ident u src i"
  using char_at_nonempty [of i src] by (auto simp: scan_ident_def Let_def trans_less_add1)

lemma scan_quoted_from_forward: "scan_quoted_from src i = Some e \<Longrightarrow> i < e"
proof (induction src i rule: scan_quoted_from.induct)
  case (1 src i)
  then show ?case by (subst (asm) (3) scan_quoted_from.simps) (fastforce split: if_splits)
qed

lemma raw_prefix_ge: "raw_prefix src n i saw = (j, r) \<Longrightarrow> i \<le> j"
proof (induction src n i saw rule: raw_prefix.induct)
  case (2 src n i saw)
  then show ?case by (fastforce split: if_splits)
qed simp

lemma raw_string_end_forward: "raw_string_end src hashes i = Some e \<Longrightarrow> i < e"
proof (induction src hashes i rule: raw_string_end.induct)
  case (1 src hashes i)
  then show ?case
    by (subst (asm) (2) raw_string_end.simps) (auto simp: Let_def split: if_splits intro: Suc_lessD)
qed

lemma scan_raw_string_forward: "scan_raw_string src i = Some e \<Longrightarrow> i < e"
proof -
  assume r: "scan_raw_string src i = Some e"
  obtain j saw where p: "raw_prefix src 2 i False = (j, saw)" by fastforce
  let ?q = "skip_while (\<lambda>c. c = CHR ''#'') src (length src) j"
  have "raw_string_end src (?q - j) (?q + 1) = Some e"
    using r p by (auto simp: scan_raw_string_def Let_def split: if_splits)
  from raw_string_end_forward [OF this] raw_prefix_ge [OF p] skip_while_ge [of j "\<lambda>c. c = CHR ''#''" src "length src"]
  show ?thesis by linarith
qed

lemma block_comment_end_ge: "i \<le> block_comment_end src depth i"
proof (induction src depth i rule: block_comment_end.induct)
  case (1 src depth i)
  then show ?case by (subst block_comment_end.simps) (auto intro: order_trans [of i "i + 1"] order_trans [of i "i + 2"])
qed

lemma scan_char_forward: "scan_char_or_lifetime u src i = Some e \<Longrightarrow> i < e"
  using skip_while_ge [of "i + 2" "\<lambda>c. c \<noteq> CHR 0x27" src "length src"] scan_ident_forward [of "i + 1" src u]
  by (auto simp: scan_char_or_lifetime_def Let_def split: if_splits)

text \<open>Case analysis on the arms of the scan.\<close>

lemma if_arm: "(c \<Longrightarrow> P a) \<Longrightarrow> (\<not> c \<Longrightarrow> P b) \<Longrightarrow> P (if c then a else b)"
  by simp

lemma next_token_arms:
  assumes "i + 1 < length src \<Longrightarrow> P (skip_while (\<lambda>c. c \<noteq> CHR 0x0A) src (length src) (i + 2))"
    and "i + 1 < length src \<Longrightarrow> is_ascii (src ! (i + 1)) \<Longrightarrow> P (block_comment_end src 1 (i + 2))"
    and "\<And>k. k = i \<or> k = i + 1 \<Longrightarrow> src ! k = CHR 0x22 \<Longrightarrow> P (case scan_quoted src k of None \<Rightarrow> length src | Some e \<Rightarrow> e)"
    and "\<And>k. k = i \<or> k = i + 1 \<and> i + 1 < length src \<Longrightarrow> src ! k = CHR 0x27 \<Longrightarrow>
      P (case scan_char_or_lifetime u src k of None \<Rightarrow> k + 1 | Some e \<Rightarrow> e)"
    and "\<And>e. scan_raw_string src i = Some e \<Longrightarrow> P e" and "P (scan_ident u src i)"
    and "is_ascii (src ! i) \<Longrightarrow> P (i + 1)" and "is_ascii_digit (src ! i) \<Longrightarrow> P (skip_while number_byte src (length src) (i + 1))"
    and "P (i + length (char_at src i))"
  shows "P (fst (next_token u src i))"
  unfolding next_token_def Let_def
  apply (rule if_arm [where P = "\<lambda>r. P (fst r)"])
  subgoal using assms(1) by (simp only: fst_conv byte_is_def)
  apply (rule if_arm [where P = "\<lambda>r. P (fst r)"])
  subgoal using assms(2) by (auto simp only: fst_conv byte_is_def is_ascii_literals)
  apply (rule if_arm [where P = "\<lambda>r. P (fst r)"])
  subgoal using assms(3) [of i] by simp
  apply (rule if_arm [where P = "\<lambda>r. P (fst r)"])
  subgoal using assms(4) [of i] by simp
  apply (rule if_arm [where P = "\<lambda>r. P (fst r)"])
  subgoal using assms(3) [of "i + 1"] by (simp add: byte_is_def)
  apply (rule if_arm [where P = "\<lambda>r. P (fst r)"])
  subgoal using assms(4) [of "i + 1"] by (cases "scan_char_or_lifetime u src (i + 1)") (simp_all add: byte_is_def)
  apply (rule if_arm [where P = "\<lambda>r. P (fst r)"])
  subgoal using assms(5,6) by (simp split: option.split)
  apply (rule if_arm [where P = "\<lambda>r. P (fst r)"])
  subgoal using assms(7) by (auto simp: is_ascii_def)
  apply (rule if_arm [where P = "\<lambda>r. P (fst r)"])
  subgoal using assms(7) by (auto simp: is_ascii_def)
  apply (rule if_arm [where P = "\<lambda>r. P (fst r)"])
  subgoal using assms(6) by (simp only: fst_conv)
  apply (rule if_arm [where P = "\<lambda>r. P (fst r)"])
  subgoal using assms(8) by (simp only: fst_conv)
  apply (rule if_arm [where P = "\<lambda>r. P (fst r)"])
  subgoal using assms(7) by (auto simp: is_ascii_def is_ascii_punctuation_def Let_def)
  subgoal using assms(9) by (simp only: fst_conv)
  done

lemma next_token_forward:
  assumes "i < length src"
  shows "i < fst (next_token u src i)"
proof (rule next_token_arms)
  show "i < (case scan_quoted src k of None \<Rightarrow> length src | Some e \<Rightarrow> e)" if "k = i \<or> k = i + 1" for k
    using that assms scan_quoted_from_forward [of src "k + 1"] by (auto simp: scan_quoted_def split: option.split) 
  show "i < (case scan_char_or_lifetime u src k of None \<Rightarrow> k + 1 | Some e \<Rightarrow> e)" if "k = i \<or> k = i + 1 \<and> i + 1 < length src" for k
    using that scan_char_forward [of u src k] by (auto split: option.split dest!: Suc_lessD)
  show "i < skip_while (\<lambda>c. c \<noteq> CHR 0x0A) src (length src) (i + 2)"
    using skip_while_ge [of "i + 2" "\<lambda>c. c \<noteq> CHR 0x0A" src "length src"] by simp
  show "i < block_comment_end src 1 (i + 2)" using block_comment_end_ge [of "i + 2" src 1] by simp
  show "i < skip_while number_byte src (length src) (i + 1)"
    using skip_while_ge [of "i + 1" number_byte src "length src"] by simp
  show "i < scan_ident u src i" by (rule scan_ident_forward [OF assms])
  show "i < i + length (char_at src i)" using char_at_nonempty [OF assms] by simp
  show "i < e" if "scan_raw_string src i = Some e" for e by (rule scan_raw_string_forward [OF that])
qed simp

function tokens_from :: "unicode \<Rightarrow> string \<Rightarrow> nat \<Rightarrow> token list" where
  "tokens_from u src i =
     (if i < length src then
        if is_ascii_whitespace (src ! i) then tokens_from u src (i + 1)
        else let (stop, kind) = next_token u src i in scan_token i stop kind # tokens_from u src stop
      else [])"
  by pat_completeness auto
termination
proof (relation "measure (\<lambda>(u, src, i). length src - i)", goal_cases)
  case (3 u src i x stop kind)
  have "i < stop" using next_token_forward [OF 3(1), of u] 3(3,4) by (metis fst_conv)
  with 3(1) show ?case by (simp add: diff_less_mono2)
qed auto

declare tokens_from.simps [simp del]

text \<open>One index of \<open>pair_delimiters\<close>: the tokens, the stack of open delimiters and whether all matched so far.\<close>

definition closing_of :: "token_kind \<Rightarrow> char \<Rightarrow> char" where
  "closing_of kind close =
     (case kind of
        Open c \<Rightarrow> (if c = CHR ''('' then CHR '')'' else if c = CHR ''['' then CHR '']'' else if c = CHR ''{'' then CHR ''}'' else close)
      | _ \<Rightarrow> close)"

fun pair_step :: "nat \<Rightarrow> token list \<times> nat list \<times> bool \<Rightarrow> token list \<times> nat list \<times> bool" where
  "pair_step i (ts, stack, balanced) =
     (case tok_kind (ts ! i) of
        Open _ \<Rightarrow> (ts, i # stack, balanced)
      | Close close \<Rightarrow>
          (case stack of
             [] \<Rightarrow> (ts, [], False)
           | open_index # stack \<Rightarrow>
               (ts[open_index := (ts ! open_index)\<lparr>tok_pair := Some i\<rparr>, i := (ts ! i)\<lparr>tok_pair := Some open_index\<rparr>],
                stack, balanced \<and> closing_of (tok_kind (ts ! open_index)) close = close))
      | _ \<Rightarrow> (ts, stack, balanced))"

definition pair_delimiters :: "token list \<Rightarrow> token list \<times> bool" where
  "pair_delimiters ts =
     (let (ts, stack, balanced) = fold pair_step [0..<length ts] (ts, [], True)
      in (ts, balanced \<and> stack = []))"

definition tokenize :: "unicode \<Rightarrow> string \<Rightarrow> parsed_file" where
  "tokenize u src =
     (let (ts, balanced) = pair_delimiters (tokens_from u src 0) in \<lparr>psf_tokens = ts, psf_balanced = balanced\<rparr>)"

section \<open>Where tokens end\<close>

lemma after_ascii_boundary:
  assumes "from_utf8_ok src" and "0 < r" and "r \<le> length src" and "is_ascii (src ! (r - 1))"
  shows "is_char_boundary src r"
  using utf8_after_ascii [OF assms(1), of "r - 1"] assms(2-4)
  by (cases "r = length src") (auto simp: is_char_boundary_def)

lemma boundary_drop:
  assumes "is_char_boundary src b" and "b \<le> length src" and "is_char_boundary (drop b src) k"
  shows "is_char_boundary src (b + k)"
  using assms by (auto simp: is_char_boundary_def)

lemma char_at_end:
  assumes "i < length src"
  shows "is_char_boundary src (i + length (char_at src i)) \<and> i + length (char_at src i) \<le> length src"
proof -
  obtain c s where d: "drop i src = c # s" using assms by (cases "drop i src") auto
  then have src: "src = take i src @ c # s" by (metis append_take_drop_id)
  have n: "length (char_at src i) = Suc (length (takeWhile is_cont s))" by (simp add: char_at_def d)
  have le: "length (takeWhile is_cont s) \<le> length s" by (rule length_takeWhile_le)
  have len: "length src = i + Suc (length s)" using arg_cong [OF d, of length] assms by simp
  have "\<not> is_cont (src ! (i + length (char_at src i)))" if "length (takeWhile is_cont s) < length s"
  proof -
    have "src ! (i + length (char_at src i)) = s ! length (takeWhile is_cont s)"
      using assms by (subst src) (simp add: nth_append n)
    then show ?thesis using nth_length_takeWhile [OF that] by simp
  qed
  with n le len show ?thesis by (auto simp: is_char_boundary_def)
qed

lemma chars_prefix_boundary: "is_char_boundary s (length (concat (takeWhile P (chars s))))"
proof (induction s rule: chars.induct)
  case (2 c s)
  let ?n = "Suc (length (takeWhile is_cont s))"
  have "char_at (c # s) 0 = c # takeWhile is_cont s" by (simp add: char_at_def)
  with char_at_end [of 0 "c # s"] have b: "is_char_boundary (c # s) ?n" "?n \<le> length (c # s)" by simp_all
  have "drop ?n (c # s) = dropWhile is_cont s" by (simp add: dropWhile_eq_drop)
  with boundary_drop [OF b] 2 have "is_char_boundary (c # s) (?n + length (concat (takeWhile P (chars (dropWhile is_cont s)))))"
    by simp
  then show ?case by simp
qed simp

lemma concat_takeWhile_chars_le: "length (concat (takeWhile P (chars s))) \<le> length s"
proof -
  have "concat (chars s) = concat (takeWhile P (chars s)) @ concat (dropWhile P (chars s))"
    by (metis concat_append takeWhile_dropWhile_id)
  then show ?thesis by (metis concat_chars le_add1 length_append)
qed

lemma scan_ident_end:
  assumes "i < length src"
  shows "is_char_boundary src (scan_ident u src i) \<and> scan_ident u src i \<le> length src"
proof -
  let ?b = "i + length (char_at src i)"
  note b = char_at_end [OF assms]
  have "is_char_boundary src (?b + length (concat (takeWhile (ident_continue u) (chars (drop ?b src)))))"
    by (rule boundary_drop [OF _ _ chars_prefix_boundary]) (use b in auto)
  moreover have "?b + length (concat (takeWhile (ident_continue u) (chars (drop ?b src)))) \<le> length src"
    using concat_takeWhile_chars_le [of "ident_continue u" "drop ?b src"] b unfolding length_drop by linarith
  ultimately show ?thesis using b char_at_nonempty [OF assms] by (simp add: scan_ident_def Let_def)
qed

text \<open>A scanner that found the end of its literal stops behind an ASCII byte.\<close>

definition ends_ascii :: "string \<Rightarrow> nat \<Rightarrow> bool" where
  "ends_ascii src e \<longleftrightarrow> 0 < e \<and> e \<le> length src \<and> is_ascii (src ! (e - 1))"

lemma ends_ascii_boundary: "from_utf8_ok src \<Longrightarrow> ends_ascii src e \<Longrightarrow> is_char_boundary src e \<and> e \<le> length src"
  using after_ascii_boundary [of src e] by (simp add: ends_ascii_def)

lemma scan_quoted_from_end: "scan_quoted_from src i = Some e \<Longrightarrow> ends_ascii src e"
proof (induction src i rule: scan_quoted_from.induct)
  case (1 src i)
  then show ?case
    by (subst (asm) (3) scan_quoted_from.simps) (auto simp: ends_ascii_def split: if_splits)
qed

lemma raw_string_end_ascii: "raw_string_end src hashes i = Some e \<Longrightarrow> ends_ascii src e"
proof (induction src hashes i rule: raw_string_end.induct)
  case (1 src hashes i)
  let ?P = "\<lambda>c. c = CHR ''#''"
  let ?c = "skip_while ?P src (min (length src) (i + 1 + hashes)) (i + 1)"
  have i: "i < length src" using 1(2) by (subst (asm) raw_string_end.simps) (simp split: if_splits)
  have "ends_ascii src ?c" if "src ! i = CHR 0x22"
  proof (cases "?c = i + 1")
    case True
    with i that show ?thesis by (simp add: ends_ascii_def)
  next
    case False
    with skip_while_ge [of "i + 1" ?P src "min (length src) (i + 1 + hashes)"]
    have "src ! (?c - 1) = CHR ''#''" "i + 1 < ?c"
      using skip_while_all [of "i + 1" "?c - 1" ?P src "min (length src) (i + 1 + hashes)"] by auto
    moreover have "?c \<le> length src"
      using skip_while_le [of "i + 1" "min (length src) (i + 1 + hashes)" ?P src] i by simp
    ultimately show ?thesis by (simp add: ends_ascii_def)
  qed
  with 1 i show ?case by (subst (asm) (2) raw_string_end.simps) (auto simp: Let_def split: if_splits)
qed

lemma scan_raw_string_end: "scan_raw_string src i = Some e \<Longrightarrow> ends_ascii src e"
  by (auto simp: scan_raw_string_def Let_def raw_string_end_ascii split: prod.splits if_splits)

lemma block_comment_end_bound:
  "i \<le> length src \<Longrightarrow> block_comment_end src depth i \<le> length src \<and>
     (block_comment_end src depth i = i \<or> block_comment_end src depth i = length src \<or> ends_ascii src (block_comment_end src depth i))"
proof (induction src depth i rule: block_comment_end.induct)
  case (1 src depth i)
  show ?case
  proof (cases "i < length src \<and> 0 < depth")
    case False
    with 1(4) show ?thesis by (subst (1 2 3 4) block_comment_end.simps) auto
  next
    case True
    show ?thesis
    proof (cases "src ! i = CHR ''/'' \<and> byte_is src (i + 1) (CHR ''*'')")
      case a: True
      then have "ends_ascii src (i + 2)" by (auto simp: byte_is_def ends_ascii_def)
      with 1(1) [OF True a] True a show ?thesis by (subst (1 2 3 4) block_comment_end.simps) (auto simp: byte_is_def)
    next
      case na: False
      show ?thesis
      proof (cases "src ! i = CHR ''*'' \<and> byte_is src (i + 1) (CHR ''/'')")
        case b: True
        then have "ends_ascii src (i + 2)" by (auto simp: byte_is_def ends_ascii_def)
        with 1(2) [OF True na b] True na b show ?thesis by (subst (1 2 3 4) block_comment_end.simps) (auto simp: byte_is_def)
      next
        case nb: False
        have e: "block_comment_end src depth i = block_comment_end src depth (i + 1)"
          using True na nb by (subst block_comment_end.simps) auto
        have "block_comment_end src depth (i + 1) \<noteq> i + 1 \<or> i + 1 = length src"
        proof (rule disjCI)
          assume "i + 1 \<noteq> length src"
          with True have lt: "i + 1 < length src \<and> 0 < depth" by simp
          have "i + 1 < block_comment_end src depth (i + 1)"
            using lt block_comment_end_ge [of "i + 1 + 2" src "depth + 1"] block_comment_end_ge [of "i + 1 + 2" src "depth - 1"]
              block_comment_end_ge [of "i + 1 + 1" src depth]
            by (subst block_comment_end.simps) (auto simp: Suc_le_eq)
          then show "block_comment_end src depth (i + 1) \<noteq> i + 1" by simp
        qed
        with 1(3) [OF True na nb] True show ?thesis unfolding e by auto
      qed
    qed
  qed
qed

lemma scan_char_end:
  assumes "from_utf8_ok src" and "k < length src" and "src ! k = CHR 0x27" and "scan_char_or_lifetime u src k = Some e"
  shows "is_char_boundary src e \<and> e \<le> length src"
proof -
  have k: "k + 1 < length src" using assms(4) by (auto simp: scan_char_or_lifetime_def split: if_splits)
  have step: "is_char_boundary src (Suc j) \<and> Suc j \<le> length src" if "byte_is src j (CHR 0x27)" for j
    using that ends_ascii_boundary [OF assms(1), of "Suc j"] by (auto simp: byte_is_def ends_ascii_def)
  let ?q = "skip_while (\<lambda>c. c \<noteq> CHR 0x27) src (length src) (k + 2)"
  have quote: "byte_is src ?q (CHR 0x27)" if "?q < length src"
    using skip_while_stops [OF that] that by (simp add: byte_is_def)
  show ?thesis
    using assms(4) k quote step [of ?q] scan_ident_end [OF k, of u] char_at_end [OF k]
      step [of "scan_ident u src (k + 1)"] step [of "k + 1 + length (char_at src (k + 1))"]
    by (auto simp: scan_char_or_lifetime_def Let_def split: if_splits)
qed

lemma number_end:
  assumes "i < length src" and "is_ascii_digit (src ! i)"
  shows "ends_ascii src (skip_while number_byte src (length src) (i + 1))"
proof -
  let ?e = "skip_while number_byte src (length src) (i + 1)"
  have "i + 1 \<le> ?e" by (rule skip_while_ge)
  moreover have "?e \<le> length src" using assms(1) by (intro skip_while_le) simp
  moreover have "is_ascii (src ! (?e - 1))"
  proof (cases "?e = i + 1")
    case True
    with assms(2) show ?thesis by (simp add: is_ascii_digit_def is_ascii_def)
  next
    case False
    with \<open>i + 1 \<le> ?e\<close> have "number_byte (src ! (?e - 1))" by (intro skip_while_all [of "i + 1" "?e - 1" number_byte src "length src"]) auto
    then show ?thesis by (auto simp: number_byte_def ascii_defs is_ascii_def)
  qed
  ultimately show ?thesis by (simp add: ends_ascii_def)
qed

lemma next_token_end:
  assumes "from_utf8_ok src" and "i < length src"
  shows "is_char_boundary src (fst (next_token u src i)) \<and> fst (next_token u src i) \<le> length src"
proof (rule next_token_arms)
  note asc = ends_ascii_boundary [OF assms(1)]
  let ?l = "skip_while (\<lambda>c. c \<noteq> CHR 0x0A) src (length src) (i + 2)"
  show "is_char_boundary src ?l \<and> ?l \<le> length src" if "i + 1 < length src"
  proof -
    have le: "?l \<le> length src" using that by (intro skip_while_le) simp
    show ?thesis
    proof (cases "?l < length src")
      case True
      with skip_while_stops [OF True] ascii_boundary [OF True] le show ?thesis by simp
    qed (use le in simp)
  qed
  show "is_char_boundary src (block_comment_end src 1 (i + 2)) \<and> block_comment_end src 1 (i + 2) \<le> length src"
    if "i + 1 < length src" "is_ascii (src ! (i + 1))"
  proof -
    have "ends_ascii src (i + 2)" using that by (simp add: ends_ascii_def)
    with block_comment_end_bound [of "i + 2" src 1] that asc show ?thesis by auto
  qed
  show "is_char_boundary src (case scan_quoted src k of None \<Rightarrow> length src | Some e \<Rightarrow> e) \<and>
      (case scan_quoted src k of None \<Rightarrow> length src | Some e \<Rightarrow> e) \<le> length src" for k
    using asc scan_quoted_from_end [of src "k + 1"] by (auto simp: scan_quoted_def split: option.split)
  show "is_char_boundary src (case scan_char_or_lifetime u src k of None \<Rightarrow> k + 1 | Some e \<Rightarrow> e) \<and>
      (case scan_char_or_lifetime u src k of None \<Rightarrow> k + 1 | Some e \<Rightarrow> e) \<le> length src"
    if "k = i \<or> k = i + 1 \<and> i + 1 < length src" "src ! k = CHR 0x27" for k
  proof -
    have k: "k < length src" using that(1) assms(2) by auto
    then have "ends_ascii src (k + 1)" using that(2) by (simp add: ends_ascii_def)
    with asc scan_char_end [OF assms(1) k that(2), of u] show ?thesis by (auto split: option.split)
  qed
  show "is_char_boundary src (skip_while number_byte src (length src) (i + 1)) \<and> skip_while number_byte src (length src) (i + 1) \<le> length src"
    if "is_ascii_digit (src ! i)"
    by (rule asc [OF number_end [OF assms(2) that]])
  show "is_char_boundary src e \<and> e \<le> length src" if "scan_raw_string src i = Some e" for e
    by (rule asc [OF scan_raw_string_end [OF that]])
  show "is_char_boundary src (i + 1) \<and> i + 1 \<le> length src" if "is_ascii (src ! i)"
    using that assms(2) by (intro asc) (simp add: ends_ascii_def)
qed (rule scan_ident_end [OF assms(2)], rule char_at_end [OF assms(2)])

section \<open>The tokens of a text\<close>

text \<open>Tokens in order from a position on, with nothing but ASCII white space before, between and behind them.\<close>

fun tokens_cover :: "string \<Rightarrow> nat \<Rightarrow> token list \<Rightarrow> bool" where
  "tokens_cover src lo [] \<longleftrightarrow> (\<forall>k. lo \<le> k \<and> k < length src \<longrightarrow> is_ascii_whitespace (src ! k))"
| "tokens_cover src lo (t # ts) \<longleftrightarrow>
     lo \<le> tok_start t \<and> tok_start t < tok_end t \<and> tok_end t \<le> length src \<and>
     is_char_boundary src (tok_start t) \<and> is_char_boundary src (tok_end t) \<and>
     (\<forall>k. lo \<le> k \<and> k < tok_start t \<longrightarrow> is_ascii_whitespace (src ! k)) \<and> tokens_cover src (tok_end t) ts"

lemma tokens_cover_space:
  "is_ascii_whitespace (src ! lo) \<Longrightarrow> tokens_cover src (Suc lo) ts \<Longrightarrow> tokens_cover src lo ts"
  by (cases ts) (auto simp: not_less_eq_eq [symmetric] dest: le_neq_implies_less Suc_leI)

lemma tokens_from_cover:
  "from_utf8_ok src \<Longrightarrow> is_char_boundary src i \<Longrightarrow> i \<le> length src \<Longrightarrow> tokens_cover src i (tokens_from u src i)"
proof (induction u src i rule: tokens_from.induct)
  case (1 u src i)
  show ?case
  proof (cases "i < length src")
    case False
    with 1(5) show ?thesis by (subst tokens_from.simps) auto
  next
    case i: True
    show ?thesis
    proof (cases "is_ascii_whitespace (src ! i)")
      case True
      have "is_char_boundary src (i + 1)" "i + 1 \<le> length src"
        using ends_ascii_boundary [OF 1(3), of "i + 1"] i whitespace_ascii [OF True] by (auto simp: ends_ascii_def)
      from 1(1) [OF i True 1(3) this] True i show ?thesis
        by (subst tokens_from.simps) (simp add: tokens_cover_space)
    next
      case False
      obtain stop kind where n: "next_token u src i = (stop, kind)" by fastforce
      from next_token_forward [OF i, of u] next_token_end [OF 1(3) i, of u] n
      have e: "i < stop" "is_char_boundary src stop" "stop \<le> length src" by simp_all
      from 1(2) [OF i False n [symmetric] refl 1(3) e(2,3)] e 1(4) i False n show ?thesis
        by (subst tokens_from.simps) (auto simp: scan_token_def)
    qed
  qed
qed

end
