(* ===== verification/Migrate_Pairs.thy ===== *)
theory Migrate_Pairs
  imports Migrate_Tokens
begin

text \<open>
  The pairing of delimiters by \<open>pair_delimiters\<close>: partners point at each other, an opening delimiter before its
  closing one, and pairs never cross; in a text reported as balanced every delimiter has a partner of its kind.
\<close>

section \<open>The invariant of the loop\<close>

definition pair_of :: "token list \<Rightarrow> nat \<Rightarrow> nat \<Rightarrow> bool" where
  "pair_of ts i j \<longleftrightarrow>
     i < j \<and> j < length ts \<and> is_open (ts ! i) \<and> is_close (ts ! j) \<and> tok_pair (ts ! i) = Some j \<and> tok_pair (ts ! j) = Some i"

definition partners_ok :: "token list \<Rightarrow> bool" where
  "partners_ok ts \<longleftrightarrow> (\<forall>i < length ts. \<forall>j. tok_pair (ts ! i) = Some j \<longrightarrow> pair_of ts i j \<or> pair_of ts j i)"

definition pairs_nest :: "token list \<Rightarrow> bool" where
  "pairs_nest ts \<longleftrightarrow> (\<forall>i p j q. pair_of ts i p \<longrightarrow> pair_of ts j q \<longrightarrow> i < j \<longrightarrow> p < j \<or> q < p)"

definition pairs_match :: "token list \<Rightarrow> bool" where
  "pairs_match ts \<longleftrightarrow> (\<forall>i j c. pair_of ts i j \<longrightarrow> tok_kind (ts ! j) = Close c \<longrightarrow> closing_of (tok_kind (ts ! i)) c = c)"

text \<open>After the indices below \<open>m\<close>.\<close>

definition pairing_inv :: "nat \<Rightarrow> token list \<times> nat list \<times> bool \<Rightarrow> bool" where
  "pairing_inv m st \<longleftrightarrow> (case st of (ts, stack, balanced) \<Rightarrow>
     partners_ok ts \<and> pairs_nest ts \<and> (balanced \<longrightarrow> pairs_match ts) \<and>
     (\<forall>i < length ts. tok_pair (ts ! i) \<noteq> None \<longrightarrow> i < m) \<and>
     sorted_wrt (>) stack \<and> (\<forall>s \<in> set stack. s < m \<and> s < length ts \<and> is_open (ts ! s) \<and> tok_pair (ts ! s) = None) \<and>
     (\<forall>j q s. pair_of ts j q \<longrightarrow> s \<in> set stack \<longrightarrow> j < s \<longrightarrow> q < s) \<and>
     (\<forall>i < length ts. i < m \<longrightarrow> is_open (ts ! i) \<longrightarrow> tok_pair (ts ! i) = None \<longrightarrow> i \<in> set stack) \<and>
     (balanced \<longrightarrow> (\<forall>i < length ts. i < m \<longrightarrow> is_close (ts ! i) \<longrightarrow> tok_pair (ts ! i) \<noteq> None)))"

definition same_tokens :: "token list \<Rightarrow> token list \<Rightarrow> bool" where
  "same_tokens ts ts' \<longleftrightarrow> map (tok_pair_update (\<lambda>_. None)) ts = map (tok_pair_update (\<lambda>_. None)) ts'"

lemma same_tokens_refl [simp]: "same_tokens ts ts"
  by (simp add: same_tokens_def)

lemma same_tokens_update:
  "same_tokens ts (ts[i := (ts ! i)\<lparr>tok_pair := x\<rparr>])"
proof (cases "i < length ts")
  case True
  then have "(map (tok_pair_update (\<lambda>_. None)) ts)[i := (ts ! i)\<lparr>tok_pair := None\<rparr>] = map (tok_pair_update (\<lambda>_. None)) ts"
    using list_update_id [of "map (tok_pair_update (\<lambda>_. None)) ts" i] by simp
  then show ?thesis by (simp add: same_tokens_def map_update)
qed (simp add: list_update_beyond)

lemma same_tokens_trans: "same_tokens ts ts1 \<Longrightarrow> same_tokens ts1 ts2 \<Longrightarrow> same_tokens ts ts2"
  by (simp add: same_tokens_def)

text \<open>Linking an open delimiter on the stack with the closing one at hand.\<close>

definition link :: "token list \<Rightarrow> nat \<Rightarrow> nat \<Rightarrow> token list" where
  "link ts k m = ts[k := (ts ! k)\<lparr>tok_pair := Some m\<rparr>, m := (ts ! m)\<lparr>tok_pair := Some k\<rparr>]"

lemma link_nth:
  assumes "k < m" "m < length ts"
  shows "link ts k m ! i = (if i = m then (ts ! m)\<lparr>tok_pair := Some k\<rparr> else if i = k then (ts ! k)\<lparr>tok_pair := Some m\<rparr> else ts ! i)"
  using assms by (auto simp: link_def nth_list_update)

lemma link_length [simp]: "length (link ts k m) = length ts"
  by (simp add: link_def)

lemma link_shape [simp]:
  assumes "k < m" "m < length ts"
  shows "is_open (link ts k m ! i) = is_open (ts ! i)" "is_close (link ts k m ! i) = is_close (ts ! i)"
    "tok_kind (link ts k m ! i) = tok_kind (ts ! i)"
  using assms by (auto simp: link_nth is_open_def is_close_def)

lemma same_tokens_link: "same_tokens ts (link ts k m)"
proof -
  have "same_tokens (ts[k := (ts ! k)\<lparr>tok_pair := Some m\<rparr>]) (link ts k m)"
  proof (cases "k = m")
    case True
    then show ?thesis by (cases "m < length ts") (auto simp: link_def same_tokens_def map_update list_update_beyond)
  next
    case False
    then show ?thesis
      using same_tokens_update [of "ts[k := (ts ! k)\<lparr>tok_pair := Some m\<rparr>]" m "Some k"] by (simp add: link_def)
  qed
  then show ?thesis by (rule same_tokens_trans [OF same_tokens_update])
qed

lemma open_not_close: "is_open t \<Longrightarrow> \<not> is_close t"
  by (cases "tok_kind t") (auto simp: is_open_def is_close_def)

lemma pair_of_link:
  assumes "k < m" "m < length ts" "is_open (ts ! k)" "is_close (ts ! m)" "tok_pair (ts ! k) = None" "tok_pair (ts ! m) = None"
  shows "pair_of (link ts k m) i j \<longleftrightarrow> pair_of ts i j \<or> i = k \<and> j = m"
  using assms open_not_close [of "ts ! k"] open_not_close [of "ts ! m"]
  by (auto simp: pair_of_def link_nth is_open_def is_close_def split: if_splits)

lemma partners_link:
  assumes "partners_ok ts" "k < m" "m < length ts" "is_open (ts ! k)" "is_close (ts ! m)" "tok_pair (ts ! k) = None" "tok_pair (ts ! m) = None"
  shows "partners_ok (link ts k m)"
  unfolding partners_ok_def
proof (intro allI impI)
  fix i j
  assume "i < length (link ts k m)" "tok_pair (link ts k m ! i) = Some j"
  then show "pair_of (link ts k m) i j \<or> pair_of (link ts k m) j i"
    using assms(1) unfolding pair_of_link [OF assms(2-7)] by (auto simp: link_nth [OF assms(2,3)] partners_ok_def split: if_splits)
qed

lemma pairing_invD:
  assumes "pairing_inv m (ts, stack, balanced)"
  shows "partners_ok ts" "pairs_nest ts" "balanced \<Longrightarrow> pairs_match ts"
    "i < length ts \<Longrightarrow> tok_pair (ts ! i) \<noteq> None \<Longrightarrow> i < m" "sorted_wrt (>) stack"
    "r \<in> set stack \<Longrightarrow> r < m \<and> r < length ts \<and> is_open (ts ! r) \<and> tok_pair (ts ! r) = None"
    "pair_of ts j q \<Longrightarrow> r \<in> set stack \<Longrightarrow> j < r \<Longrightarrow> q < r"
    "i < length ts \<Longrightarrow> i < m \<Longrightarrow> is_open (ts ! i) \<Longrightarrow> tok_pair (ts ! i) = None \<Longrightarrow> i \<in> set stack"
    "balanced \<Longrightarrow> i < length ts \<Longrightarrow> i < m \<Longrightarrow> is_close (ts ! i) \<Longrightarrow> tok_pair (ts ! i) \<noteq> None"
  using assms unfolding pairing_inv_def by blast+

lemma pairing_invI:
  assumes "partners_ok ts" "pairs_nest ts" "balanced \<Longrightarrow> pairs_match ts"
    "\<And>i. i < length ts \<Longrightarrow> tok_pair (ts ! i) \<noteq> None \<Longrightarrow> i < m" "sorted_wrt (>) stack"
    "\<And>r. r \<in> set stack \<Longrightarrow> r < m \<and> r < length ts \<and> is_open (ts ! r) \<and> tok_pair (ts ! r) = None"
    "\<And>j q r. pair_of ts j q \<Longrightarrow> r \<in> set stack \<Longrightarrow> j < r \<Longrightarrow> q < r"
    "\<And>i. i < length ts \<Longrightarrow> i < m \<Longrightarrow> is_open (ts ! i) \<Longrightarrow> tok_pair (ts ! i) = None \<Longrightarrow> i \<in> set stack"
    "\<And>i. balanced \<Longrightarrow> i < length ts \<Longrightarrow> i < m \<Longrightarrow> is_close (ts ! i) \<Longrightarrow> tok_pair (ts ! i) \<noteq> None"
  shows "pairing_inv m (ts, stack, balanced)"
  using assms unfolding pairing_inv_def by blast

lemma pair_before:
  assumes "pairing_inv m (ts, stack, balanced)" "pair_of ts j q"
  shows "q < m"
  using pairing_invD(4) [OF assms(1), of q] assms(2) by (simp add: pair_of_def)

lemma pairing_unpaired:
  assumes "pairing_inv m (ts, stack, balanced)" "m < length ts"
  shows "tok_pair (ts ! m) = None"
  using pairing_invD(4) [OF assms(1,2)] by blast

lemma pairing_open:
  assumes inv: "pairing_inv m (ts, stack, balanced)" and m: "m < length ts" and op: "is_open (ts ! m)"
  shows "pairing_inv (Suc m) (ts, m # stack, balanced)"
proof (rule pairing_invI)
  note D = pairing_invD [OF inv]
  show "partners_ok ts" "pairs_nest ts" "balanced \<Longrightarrow> pairs_match ts" by (rule D)+
  show "i < length ts \<Longrightarrow> tok_pair (ts ! i) \<noteq> None \<Longrightarrow> i < Suc m" for i using D(4) [of i] by simp
  show "sorted_wrt (>) (m # stack)" using D(5,6) by auto
  show "r \<in> set (m # stack) \<Longrightarrow> r < Suc m \<and> r < length ts \<and> is_open (ts ! r) \<and> tok_pair (ts ! r) = None" for r
    using D(6) [of r] m op pairing_unpaired [OF inv m] by auto
  show "pair_of ts j q \<Longrightarrow> r \<in> set (m # stack) \<Longrightarrow> j < r \<Longrightarrow> q < r" for j q r
    using D(7) [of j q r] pair_before [OF inv, of j q] by auto
  show "i < length ts \<Longrightarrow> i < Suc m \<Longrightarrow> is_open (ts ! i) \<Longrightarrow> tok_pair (ts ! i) = None \<Longrightarrow> i \<in> set (m # stack)" for i
    using D(8) [of i] by (cases "i = m") auto
  show "balanced \<Longrightarrow> i < length ts \<Longrightarrow> i < Suc m \<Longrightarrow> is_close (ts ! i) \<Longrightarrow> tok_pair (ts ! i) \<noteq> None" for i
    using D(9) [of i] open_not_close [OF op] by (cases "i = m") auto
qed

lemma pairing_next:
  assumes inv: "pairing_inv m (ts, stack, balanced)" and nop: "\<not> is_open (ts ! m)" and b: "b \<Longrightarrow> balanced \<and> \<not> is_close (ts ! m)"
  shows "pairing_inv (Suc m) (ts, stack, b)"
proof (rule pairing_invI)
  note D = pairing_invD [OF inv]
  show "partners_ok ts" "pairs_nest ts" "sorted_wrt (>) stack" by (rule D)+
  show "b \<Longrightarrow> pairs_match ts" using D(3) b by blast
  show "i < length ts \<Longrightarrow> tok_pair (ts ! i) \<noteq> None \<Longrightarrow> i < Suc m" for i using D(4) [of i] by simp
  show "r \<in> set stack \<Longrightarrow> r < Suc m \<and> r < length ts \<and> is_open (ts ! r) \<and> tok_pair (ts ! r) = None" for r
    using D(6) [of r] by auto
  show "pair_of ts j q \<Longrightarrow> r \<in> set stack \<Longrightarrow> j < r \<Longrightarrow> q < r" for j q r by (rule D(7))
  show "i < length ts \<Longrightarrow> i < Suc m \<Longrightarrow> is_open (ts ! i) \<Longrightarrow> tok_pair (ts ! i) = None \<Longrightarrow> i \<in> set stack" for i
    using D(8) [of i] nop by (cases "i = m") auto
  show "b \<Longrightarrow> i < length ts \<Longrightarrow> i < Suc m \<Longrightarrow> is_close (ts ! i) \<Longrightarrow> tok_pair (ts ! i) \<noteq> None" for i
    using D(9) [of i] b by (cases "i = m") auto
qed

lemma pairing_close:
  assumes inv: "pairing_inv m (ts, k # stack, balanced)" and m: "m < length ts" and c: "tok_kind (ts ! m) = Close close"
  shows "pairing_inv (Suc m) (link ts k m, stack, balanced \<and> closing_of (tok_kind (ts ! k)) close = close)"
proof (rule pairing_invI)
  note D = pairing_invD [OF inv]
  have k: "k < m" "is_open (ts ! k)" "tok_pair (ts ! k) = None" and s: "\<And>r. r \<in> set stack \<Longrightarrow> r < k"
    using D(5,6) by auto
  have cm: "is_close (ts ! m)" and nm: "tok_pair (ts ! m) = None" using c pairing_unpaired [OF inv m] by (simp_all add: is_close_def)
  note pl = pair_of_link [OF k(1) m k(2) cm k(3) nm] and ln = link_nth [OF k(1) m] and ls = link_shape [OF k(1) m]
  note before = pair_before [OF inv]
  show "partners_ok (link ts k m)" by (rule partners_link [OF D(1) k(1) m k(2) cm k(3) nm])
  show "pairs_nest (link ts k m)"
    unfolding pairs_nest_def pl
  proof (intro allI impI)
    fix i p j q
    assume "pair_of ts i p \<or> i = k \<and> p = m" "pair_of ts j q \<or> j = k \<and> q = m" "i < j"
    then show "p < j \<or> q < p"
      using D(2) D(7) [of i p k] before [of j q] unfolding pairs_nest_def by auto
  qed
  show "balanced \<and> closing_of (tok_kind (ts ! k)) close = close \<Longrightarrow> pairs_match (link ts k m)"
    using D(3) c unfolding pairs_match_def pl ls by auto
  show "i < length (link ts k m) \<Longrightarrow> tok_pair (link ts k m ! i) \<noteq> None \<Longrightarrow> i < Suc m" for i
    using D(4) [of i] k(1) by (cases "i = m"; cases "i = k") (auto simp: ln)
  show "sorted_wrt (>) stack" using D(5) by simp
  show "r \<in> set stack \<Longrightarrow> r < Suc m \<and> r < length (link ts k m) \<and> is_open (link ts k m ! r) \<and> tok_pair (link ts k m ! r) = None" for r
    using D(6) [of r] s [of r] k(1) by (auto simp: ls ln)
  show "pair_of (link ts k m) j q \<Longrightarrow> r \<in> set stack \<Longrightarrow> j < r \<Longrightarrow> q < r" for j q r
    using D(7) [of j q r] s [of r] unfolding pl by auto
  show "i < length (link ts k m) \<Longrightarrow> i < Suc m \<Longrightarrow> is_open (link ts k m ! i) \<Longrightarrow> tok_pair (link ts k m ! i) = None \<Longrightarrow> i \<in> set stack" for i
    using D(8) [of i] open_not_close [of "ts ! m"] cm by (cases "i = m"; cases "i = k") (auto simp: ls ln)
  show "balanced \<and> closing_of (tok_kind (ts ! k)) close = close \<Longrightarrow> i < length (link ts k m) \<Longrightarrow> i < Suc m \<Longrightarrow>
      is_close (link ts k m ! i) \<Longrightarrow> tok_pair (link ts k m ! i) \<noteq> None" for i
    using D(9) [of i] k(1) by (cases "i = m"; cases "i = k") (auto simp: ls ln)
qed

lemma pair_step_inv:
  assumes "pairing_inv m (ts, stack, balanced)" "m < length ts"
  shows "pairing_inv (Suc m) (pair_step m (ts, stack, balanced)) \<and> same_tokens ts (fst (pair_step m (ts, stack, balanced)))"
proof (cases "tok_kind (ts ! m)")
  case (Open c)
  with pairing_open [OF assms] show ?thesis by (simp add: is_open_def)
next
  case (Close c)
  show ?thesis
  proof (cases stack)
    case Nil
    with pairing_next [of m ts stack balanced False] assms Close show ?thesis by (simp add: is_open_def)
  next
    case (Cons i rest)
    have "pair_step m (ts, stack, balanced) = (link ts i m, rest, balanced \<and> closing_of (tok_kind (ts ! i)) c = c)"
      by (simp add: Close Cons link_def)
    with pairing_close [of m ts i rest balanced c] assms Close Cons same_tokens_link [of ts i m] show ?thesis by simp
  qed
qed (use pairing_next [of m ts stack balanced balanced] assms in \<open>simp_all add: is_open_def is_close_def\<close>)

lemma pair_steps_inv:
  assumes "pairing_inv 0 (ts, [], True)" "m \<le> length ts"
  shows "pairing_inv m (fold pair_step [0..<m] (ts, [], True)) \<and> same_tokens ts (fst (fold pair_step [0..<m] (ts, [], True)))"
  using assms(2)
proof (induction m)
  case 0
  then show ?case using assms(1) by simp
next
  case (Suc m)
  obtain ts1 stack b where r: "fold pair_step [0..<m] (ts, [], True) = (ts1, stack, b)" by (cases "fold pair_step [0..<m] (ts, [], True)")
  with Suc have ih: "pairing_inv m (ts1, stack, b)" "same_tokens ts ts1" by simp_all
  then have "length ts1 = length ts" unfolding same_tokens_def by (metis length_map)
  with pair_step_inv [OF ih(1)] Suc.prems ih(2) r show ?case
    by (auto intro: same_tokens_trans)
qed

section \<open>The paired tokens\<close>

text \<open>The result: partners of one kind that nest, all delimiters paired when the text is balanced.\<close>

definition delimiters_ok :: "parsed_file \<Rightarrow> bool" where
  "delimiters_ok f \<longleftrightarrow> partners_ok (psf_tokens f) \<and> pairs_nest (psf_tokens f) \<and>
     (psf_balanced f \<longrightarrow> pairs_match (psf_tokens f) \<and>
       (\<forall>i < length (psf_tokens f). is_open (psf_tokens f ! i) \<or> is_close (psf_tokens f ! i) \<longrightarrow> tok_pair (psf_tokens f ! i) \<noteq> None))"

lemma unpaired_start:
  assumes "\<forall>t \<in> set ts. tok_pair t = None"
  shows "pairing_inv 0 (ts, [], True)"
proof -
  have "\<not> pair_of ts i j" for i j using assms nth_mem [of i ts] by (auto simp: pair_of_def)
  moreover have "tok_pair (ts ! i) = None" if "i < length ts" for i using assms that by simp
  ultimately show ?thesis by (simp add: pairing_inv_def partners_ok_def pairs_nest_def pairs_match_def)
qed

lemma tokens_from_unpaired: "t \<in> set (tokens_from u src i) \<Longrightarrow> tok_pair t = None"
proof (induction u src i rule: tokens_from.induct)
  case (1 u src i)
  obtain stop kind where n: "next_token u src i = (stop, kind)" by fastforce
  show ?case
  proof (cases "i < length src")
    case True
    with 1 n show ?thesis
      by (subst (asm) (3) tokens_from.simps) (auto simp: scan_token_def split: if_splits)
  next
    case False
    with 1(3) show ?thesis by (subst (asm) tokens_from.simps) simp
  qed
qed

lemma tokenize_pairs:
  "delimiters_ok (tokenize u src) \<and> same_tokens (tokens_from u src 0) (psf_tokens (tokenize u src))"
proof -
  let ?ts = "tokens_from u src 0"
  obtain ts stack b where r: "fold pair_step [0..<length ?ts] (?ts, [], True) = (ts, stack, b)"
    by (cases "fold pair_step [0..<length ?ts] (?ts, [], True)")
  have "\<forall>t \<in> set ?ts. tok_pair t = None" by (simp add: tokens_from_unpaired)
  from pair_steps_inv [OF unpaired_start [OF this] order_refl] r
  have inv: "pairing_inv (length ?ts) (ts, stack, b)" "same_tokens ?ts ts" by simp_all
  then have len: "length ts = length ?ts" unfolding same_tokens_def by (metis length_map)
  have tok: "tokenize u src = \<lparr>psf_tokens = ts, psf_balanced = (b \<and> stack = [])\<rparr>"
    by (simp add: tokenize_def pair_delimiters_def r)
  show ?thesis using inv unfolding tok delimiters_ok_def by (auto simp: pairing_inv_def len)
qed

lemma cover_same:
  "same_tokens ts ts' \<Longrightarrow> tokens_cover src lo ts \<Longrightarrow> tokens_cover src lo ts'"
proof (induction ts arbitrary: ts' lo)
  case (Cons t ts)
  then obtain t' ts1 where ts': "ts' = t' # ts1" "same_tokens ts ts1" "t\<lparr>tok_pair := None\<rparr> = t'\<lparr>tok_pair := None\<rparr>"
    by (auto simp: same_tokens_def)
  from ts'(3) have "tok_start t = tok_start t'" "tok_end t = tok_end t'"
    by (metis token.select_convs token.surjective token.update_convs)+
  with Cons ts' show ?case by auto
qed (simp add: same_tokens_def)

lemma tokenize_covers:
  assumes "from_utf8_ok src"
  shows "tokens_cover src 0 (psf_tokens (tokenize u src)) \<and> delimiters_ok (tokenize u src)"
proof -
  have "tokens_cover src 0 (tokens_from u src 0)" by (rule tokens_from_cover [OF assms]) simp_all
  with tokenize_pairs [of u src] cover_same show ?thesis by blast
qed

text \<open>
  C26: Scanning a source text always ends and loses nothing: the tokens are in order, none is empty, each is cut at
  character boundaries, and what lies between them is ASCII white space. Delimiters and their partners point at
  each other and never cross, and when the text is reported as balanced every delimiter has a partner of its kind.
\<close>

theorem tokenize_lossless:
  assumes "from_utf8_ok src"
  shows "tokens_cover src 0 (psf_tokens (tokenize u src)) \<and> delimiters_ok (tokenize u src)"
  by (rule tokenize_covers [OF assms])

end
