(* ===== verification/Migrate_Rewrite.thy ===== *)
theory Migrate_Rewrite
  imports Migrate_Pairs Suggestion_Properties
begin

text \<open>
  Locating and rewriting parameter and argument lists (\<open>change/migrate/rewrite.rs\<close>): the shape of a call, the
  parameter list of a signature, the items of a list and the edit that inserts or replaces one. A loop that
  follows the partner of an opening delimiter goes on only when the partner lies ahead, which
  \<open>tokenize\<close> guarantees.
\<close>

section \<open>Neighbours\<close>

definition list_position :: "('a \<Rightarrow> bool) \<Rightarrow> 'a list \<Rightarrow> nat option" where
  "list_position P xs = (let n = length (takeWhile (\<lambda>x. \<not> P x) xs) in if n < length xs then Some n else None)"

definition token_at_offset :: "token list \<Rightarrow> nat \<Rightarrow> nat option" where
  "token_at_offset ts offset = list_position (\<lambda>t. tok_start t \<le> offset \<and> offset < tok_end t \<and> \<not> is_comment t) ts"

definition next_significant :: "token list \<Rightarrow> nat \<Rightarrow> nat option" where
  "next_significant ts i = map_option (\<lambda>k. i + 1 + k) (list_position (\<lambda>t. \<not> is_comment t) (drop (i + 1) ts))"

fun prev_significant :: "token list \<Rightarrow> nat \<Rightarrow> nat option" where
  "prev_significant ts 0 = None"
| "prev_significant ts (Suc i) = (if \<not> is_comment (ts ! i) then Some i else prev_significant ts i)"

definition open_ancestors :: "token list \<Rightarrow> nat \<Rightarrow> nat list" where
  "open_ancestors ts offset =
     filter (\<lambda>i. is_open (ts ! i) \<and>
       (case tok_pair (ts ! i) of None \<Rightarrow> False | Some close \<Rightarrow> tok_start (ts ! i) < offset \<and> offset < tok_start (ts ! close)))
       [0..<length ts]"

definition inside_macro :: "token list \<Rightarrow> nat \<Rightarrow> bool" where
  "inside_macro ts offset =
     list_ex (\<lambda>i. case prev_significant ts i of None \<Rightarrow> False | Some previous \<Rightarrow> is_punct (ts ! previous) (CHR ''!''))
       (open_ancestors ts offset)"

definition token_text :: "string \<Rightarrow> token \<Rightarrow> string option" where
  "token_text src t = get_slice src (tok_start t) (tok_end t)"

definition use_is_public :: "string \<Rightarrow> token list \<Rightarrow> nat \<Rightarrow> bool" where
  "use_is_public src ts use_index =
     (case prev_significant ts use_index of
        None \<Rightarrow> False
      | Some previous \<Rightarrow>
          let t = ts ! previous in
          if is_ident t then token_text src t = Some ''pub''
          else if tok_kind t = Close (CHR '')'') then
            (case tok_pair t of
               None \<Rightarrow> False
             | Some i \<Rightarrow>
                 (case prev_significant ts i of
                    None \<Rightarrow> False
                  | Some before \<Rightarrow> is_ident (ts ! before) \<and> token_text src (ts ! before) = Some ''pub''))
          else False)"

section \<open>Calls\<close>

datatype call_form = ShapeCall nat nat | ShapeMacro | ShapeValue

definition tokens_pair :: "parsed_file \<Rightarrow> nat \<Rightarrow> nat option" where
  "tokens_pair f i = (if \<not> psf_balanced f then None else tok_pair (psf_tokens f ! i))"

definition punct_at :: "token list \<Rightarrow> nat \<Rightarrow> char \<Rightarrow> bool" where
  "punct_at ts i c \<longleftrightarrow> i < length ts \<and> is_punct (ts ! i) c"

function angle_from :: "token list \<Rightarrow> nat \<Rightarrow> nat \<Rightarrow> nat option" where
  "angle_from ts depth cursor =
     (if cursor < length ts then
        let t = ts ! cursor in
        if (is_punct t (CHR ''-'') \<or> is_punct t (CHR ''='')) \<and>
           (case next_significant ts cursor of None \<Rightarrow> False | Some n \<Rightarrow> is_punct (ts ! n) (CHR ''>''))
        then angle_from ts depth (cursor + 2)
        else if is_punct t (CHR ''<'') then angle_from ts (depth + 1) (cursor + 1)
        else if is_punct t (CHR ''>'') then
          (if depth = 0 then None else if depth - 1 = 0 then Some cursor else angle_from ts (depth - 1) (cursor + 1))
        else if 0 < depth \<and> (is_punct t (CHR '';'') \<or> tok_kind t = Open (CHR ''{'')) then None
        else angle_from ts depth (cursor + 1)
      else None)"
  by pat_completeness auto
termination
  by (relation "measure (\<lambda>(ts, depth, cursor). length ts - cursor)") auto

declare angle_from.simps [simp del]

definition skip_angle :: "parsed_file \<Rightarrow> nat \<Rightarrow> nat option" where
  "skip_angle f i = (if \<not> punct_at (psf_tokens f) i (CHR ''<'') then None else angle_from (psf_tokens f) 0 i)"

lemma list_position_less: "list_position P xs = Some k \<Longrightarrow> k < length xs \<and> P (xs ! k)"
  using nth_length_takeWhile [of "\<lambda>x. \<not> P x" xs] by (auto simp: list_position_def Let_def split: if_splits)

lemma next_significant_greater: "next_significant ts i = Some k \<Longrightarrow> i < k \<and> k < length ts"
  by (auto simp: next_significant_def dest!: list_position_less)

lemma prev_significant_less: "prev_significant ts i = Some k \<Longrightarrow> k < i"
  by (induction ts i rule: prev_significant.induct) (auto split: if_splits)

text \<open>The first token behind a run of colons.\<close>

function skip_colons :: "token list \<Rightarrow> nat \<Rightarrow> nat option" where
  "skip_colons ts cursor =
     (if punct_at ts cursor (CHR '':'')
      then case next_significant ts cursor of None \<Rightarrow> None | Some k \<Rightarrow> skip_colons ts k
      else Some cursor)"
  by pat_completeness auto
termination
  by (relation "measure (\<lambda>(ts, cursor). length ts - cursor)") (auto dest!: next_significant_greater)

declare skip_colons.simps [simp del]

definition call_shape :: "parsed_file \<Rightarrow> nat \<Rightarrow> call_form option" where
  "call_shape f identifier =
     (let ts = psf_tokens f in
      case next_significant ts identifier of
        None \<Rightarrow> None
      | Some n \<Rightarrow>
          if is_open_paren (ts ! n) then map_option (ShapeCall n) (tokens_pair f n)
          else if is_punct (ts ! n) (CHR ''!'') then Some ShapeMacro
          else if is_punct (ts ! n) (CHR '':'') then
            (case skip_colons ts n of
               None \<Rightarrow> None
             | Some cursor \<Rightarrow>
                 if punct_at ts cursor (CHR ''<'') then
                   (case skip_angle f cursor of
                      None \<Rightarrow> None
                    | Some close \<Rightarrow>
                        (case next_significant ts close of
                           None \<Rightarrow> None
                         | Some after \<Rightarrow>
                             if is_open_paren (ts ! after) then map_option (ShapeCall after) (tokens_pair f after)
                             else Some ShapeValue))
                 else Some ShapeValue)
          else Some ShapeValue)"

section \<open>Lists\<close>

text \<open>The loop of \<open>split_top_level\<close>: the items so far, the start of the current one and the depth of angle brackets.\<close>

function split_from ::
  "token list \<Rightarrow> nat \<Rightarrow> nat \<Rightarrow> nat option \<Rightarrow> nat \<Rightarrow> (nat \<times> nat) list \<Rightarrow> ((nat \<times> nat) list \<times> nat option) option" where
  "split_from ts close cursor item_start angle items =
     (if cursor < close then
        let t = ts ! cursor; here = (case item_start of None \<Rightarrow> Some (tok_start t) | Some s \<Rightarrow> Some s) in
        if is_open t then
          (case tok_pair t of
             None \<Rightarrow> None
           | Some pair \<Rightarrow> if pair < cursor then None else split_from ts close (pair + 1) here angle items)
        else if is_punct t (CHR ''<'') then split_from ts close (cursor + 1) here (angle + 1) items
        else if is_punct t (CHR ''>'') \<and> 0 < angle then split_from ts close (cursor + 1) item_start (angle - 1) items
        else if is_punct t (CHR '','') \<and> angle = 0 then
          split_from ts close (cursor + 1) None angle
            (case item_start of None \<Rightarrow> items | Some start \<Rightarrow> items @ [(start, tok_start t)])
        else split_from ts close (cursor + 1) here angle items
      else Some (items, item_start))"
  by pat_completeness auto
termination
  by (relation "measure (\<lambda>(ts, close, cursor, s, a, items). close - cursor)") auto

declare split_from.simps [simp del]

definition split_top_level :: "parsed_file \<Rightarrow> nat \<Rightarrow> nat \<Rightarrow> (nat \<times> nat) list option" where
  "split_top_level f i close =
     (let ts = psf_tokens f in
      if \<not> psf_balanced f \<or> close \<le> i \<or> length ts \<le> close then None
      else case split_from ts close (i + 1) None 0 [] of
        None \<Rightarrow> None
      | Some (items, item_start) \<Rightarrow>
          let items = (case item_start of None \<Rightarrow> items | Some start \<Rightarrow> items @ [(start, tok_start (ts ! close))])
          in Some (filter (\<lambda>(start, stop). start < stop) items))"

record param_list =
  pml_open :: nat
  pml_close :: nat
  pml_params :: "(nat \<times> nat) list"
  pml_receiver :: bool
  pml_fn_token :: nat

definition params_explicit :: "param_list \<Rightarrow> (nat \<times> nat) list" where
  "params_explicit l = drop (min (if pml_receiver l then 1 else 0) (length (pml_params l))) (pml_params l)"

function find_fn :: "string \<Rightarrow> token list \<Rightarrow> nat \<Rightarrow> nat option" where
  "find_fn src ts cursor =
     (case prev_significant ts cursor of
        None \<Rightarrow> None
      | Some previous \<Rightarrow>
          let t = ts ! previous in
          if is_punct t (CHR '';'') \<or> is_open t \<or> is_close t then None
          else if is_ident t \<and> token_text src t = Some ''fn'' then Some previous
          else find_fn src ts previous)"
  by pat_completeness auto
termination
  by (relation "measure (\<lambda>(src, ts, cursor). cursor)") (auto dest!: prev_significant_less)

declare find_fn.simps [simp del]

definition is_receiver_text :: "string \<Rightarrow> bool" where
  "is_receiver_text s \<longleftrightarrow>
     s = ''self'' \<or> starts_with s ''self:'' \<or> s = ''&self'' \<or> s = ''&mut self'' \<or> s = ''mut self'' \<or> starts_with s (''&'' @ [CHR 0x27])"

definition unwrap_slice :: "string \<Rightarrow> nat \<Rightarrow> nat \<Rightarrow> string" where
  "unwrap_slice src a b = (case get_slice src a b of None \<Rightarrow> [] | Some s \<Rightarrow> s)"

definition signature_list :: "string \<Rightarrow> parsed_file \<Rightarrow> nat \<Rightarrow> nat \<Rightarrow> param_list option" where
  "signature_list src f fn_token cursor =
     (let ts = psf_tokens f in
      if \<not> is_open_paren (ts ! cursor) then None
      else case tok_pair (ts ! cursor) of
        None \<Rightarrow> None
      | Some close \<Rightarrow>
          (case split_top_level f cursor close of
             None \<Rightarrow> None
           | Some spans \<Rightarrow>
               Some \<lparr>pml_open = cursor, pml_close = close, pml_params = spans,
                 pml_receiver = (case spans of [] \<Rightarrow> False | (a, b) # _ \<Rightarrow> is_receiver_text (trim (unwrap_slice src a b))),
                 pml_fn_token = fn_token\<rparr>))"

definition signature_params :: "string \<Rightarrow> parsed_file \<Rightarrow> nat \<Rightarrow> param_list option" where
  "signature_params src f name_token =
     (let ts = psf_tokens f in
      if \<not> psf_balanced f \<or> \<not> is_ident (ts ! name_token) then None
      else case find_fn src ts name_token of
        None \<Rightarrow> None
      | Some fn_token \<Rightarrow>
          (case next_significant ts fn_token of
             None \<Rightarrow> None
           | Some cursor \<Rightarrow>
               (case (if is_ident (ts ! cursor) then next_significant ts cursor else Some cursor) of
                  None \<Rightarrow> None
                | Some cursor \<Rightarrow>
                    (case (if is_punct (ts ! cursor) (CHR ''<'')
                           then Option.bind (skip_angle f cursor) (next_significant ts) else Some cursor) of
                       None \<Rightarrow> None
                     | Some cursor \<Rightarrow> signature_list src f fn_token cursor))))"

section \<open>Edits\<close>

record list_edit =
  led_start :: nat
  led_end :: nat
  led_text :: string

function comma_from :: "token list \<Rightarrow> nat \<Rightarrow> nat \<Rightarrow> nat option" where
  "comma_from ts to cursor =
     (if cursor < length ts \<and> tok_start (ts ! cursor) < to then
        let t = ts ! cursor in
        if is_punct t (CHR '','') then Some (tok_start t)
        else if is_open t then
          (case tok_pair t of
             None \<Rightarrow> None
           | Some pair \<Rightarrow> if pair < cursor then None else comma_from ts to (pair + 1))
        else comma_from ts to (cursor + 1)
      else None)"
  by pat_completeness auto
termination
  by (relation "measure (\<lambda>(ts, to, cursor). length ts - cursor)") auto

declare comma_from.simps [simp del]

definition find_top_level_comma :: "parsed_file \<Rightarrow> nat \<Rightarrow> nat \<Rightarrow> nat option" where
  "find_top_level_comma f from to =
     (case list_position (\<lambda>t. from \<le> tok_start t) (psf_tokens f) of
        None \<Rightarrow> None
      | Some cursor \<Rightarrow> comma_from (psf_tokens f) to cursor)"

definition insert_into_params ::
  "parsed_file \<Rightarrow> (nat \<times> nat) list \<Rightarrow> nat \<Rightarrow> nat \<Rightarrow> bool \<Rightarrow> nat \<Rightarrow> string \<Rightarrow> list_edit option" where
  "insert_into_params f params i close receiver index new_text =
     (let ts = psf_tokens f; skip = (if receiver then 1 else 0 :: nat) in
      if length params < skip then None
      else
        let explicit = drop skip params in
        if length explicit < index then None
        else if explicit = [] then
          if length ts \<le> close then None
          else if receiver then
            (case get_nth params (skip - 1) of
               None \<Rightarrow> None
             | Some (_, receiver_end) \<Rightarrow> Some \<lparr>led_start = receiver_end, led_end = receiver_end, led_text = '', '' @ new_text\<rparr>)
          else
            (let close_offset = tok_start (ts ! close)
             in Some \<lparr>led_start = close_offset, led_end = close_offset, led_text = new_text\<rparr>)
        else if index < length explicit then
          (let start = fst (explicit ! index) in Some \<lparr>led_start = start, led_end = start, led_text = new_text @ '', ''\<rparr>)
        else if length ts \<le> close then None
        else
          let stop = snd (last explicit) in
          case find_top_level_comma f stop (tok_start (ts ! close)) of
            Some comma \<Rightarrow> Some \<lparr>led_start = comma + 1, led_end = comma + 1, led_text = '' '' @ new_text @ '',''\<rparr>
          | None \<Rightarrow> Some \<lparr>led_start = stop, led_end = stop, led_text = '', '' @ new_text\<rparr>)"

definition replace_in_params :: "(nat \<times> nat) list \<Rightarrow> bool \<Rightarrow> nat \<Rightarrow> string \<Rightarrow> list_edit option" where
  "replace_in_params params receiver index new_text =
     (case get_nth params ((if receiver then 1 else 0) + index) of
        None \<Rightarrow> None
      | Some (start, stop) \<Rightarrow> Some \<lparr>led_start = start, led_end = stop, led_text = new_text\<rparr>)"

function signature_end :: "string \<Rightarrow> token list \<Rightarrow> nat \<Rightarrow> nat \<Rightarrow> nat \<Rightarrow> nat" where
  "signature_end src ts angle cursor stop =
     (if cursor < length ts then
        let t = ts ! cursor in
        if is_open t \<or> is_punct t (CHR '';'') then stop
        else if is_ident t \<and> token_text src t = Some ''where'' \<and> angle = 0 then stop
        else
          signature_end src ts
            (if is_punct t (CHR ''<'') then angle + 1
             else if is_punct t (CHR ''>'') \<and> 0 < angle then angle - 1 else angle) (cursor + 1) (tok_end t)
      else stop)"
  by pat_completeness auto
termination
  by (relation "measure (\<lambda>(src, ts, angle, cursor, stop). length ts - cursor)") auto

declare signature_end.simps [simp del]

definition bounded_chars :: "string \<Rightarrow> nat \<Rightarrow> string" where
  "bounded_chars s max_chars =
     (if chars_count s \<le> max_chars then s
      else chars_take (max_chars - 1) s @ [CHR 0xE2, CHR 0x80, CHR 0xA6])"

definition signature_text :: "string \<Rightarrow> parsed_file \<Rightarrow> param_list \<Rightarrow> nat \<Rightarrow> string option" where
  "signature_text src f l max_chars =
     (let ts = psf_tokens f;
          stop = signature_end src ts 0 (pml_close l + 1)
            (if pml_close l < length ts then tok_end (ts ! pml_close l) else length src)
      in map_option (\<lambda>s. bounded_chars (trim s) max_chars) (get_slice src (tok_start (ts ! pml_fn_token l)) stop))"

definition apply_edit :: "string \<Rightarrow> list_edit \<Rightarrow> string option" where
  "apply_edit src e =
     (if led_end e < led_start e \<or> length src < led_end e \<or> \<not> is_char_boundary src (led_start e) \<or> \<not> is_char_boundary src (led_end e)
      then None
      else Some (take (led_start e) src @ led_text e @ drop (led_end e) src))"

end
