(* ===== verification/Migrate_Lists.thy ===== *)
theory Migrate_Lists
  imports Migrate_Rewrite
begin

text \<open>
  What the engine finds in a scanned text: the items of a parenthesised list are ranges in order between the two
  parentheses, cut at character boundaries, and every edit it makes of such a list applies and stays inside.
\<close>

section \<open>Tokens in order\<close>

lemma cover_nth:
  "tokens_cover src lo ts \<Longrightarrow> i < length ts \<Longrightarrow>
     lo \<le> tok_start (ts ! i) \<and> tok_start (ts ! i) < tok_end (ts ! i) \<and> tok_end (ts ! i) \<le> length src \<and>
     is_char_boundary src (tok_start (ts ! i)) \<and> is_char_boundary src (tok_end (ts ! i))"
proof (induction ts arbitrary: lo i)
  case (Cons t ts)
  show ?case
  proof (cases i)
    case 0
    with Cons.prems show ?thesis by simp
  next
    case (Suc k)
    with Cons.IH [of "tok_end t" k] Cons.prems show ?thesis by auto
  qed
qed simp

lemma cover_order: "tokens_cover src lo ts \<Longrightarrow> i < j \<Longrightarrow> j < length ts \<Longrightarrow> tok_end (ts ! i) \<le> tok_start (ts ! j)"
proof (induction ts arbitrary: lo i j)
  case (Cons t ts)
  then obtain k where j: "j = Suc k" by (cases j) auto
  show ?case
  proof (cases i)
    case 0
    with cover_nth [of src "tok_end t" ts k] Cons.prems j show ?thesis by simp
  next
    case (Suc m)
    with Cons.IH [of "tok_end t" m k] Cons.prems j show ?thesis by auto
  qed
qed simp

lemma next_token_punct:
  assumes "snd (next_token u src i) = Punct c"
  shows "fst (next_token u src i) = Suc i \<and> src ! i = c \<and> is_ascii c"
proof -
  have "snd r = Punct c \<longrightarrow> fst r = Suc i \<and> src ! i = c \<and> is_ascii c" if r: "r = next_token u src i" for r
    unfolding r next_token_def Let_def
    by (intro if_arm [where P = "\<lambda>r. snd r = Punct c \<longrightarrow> fst r = Suc i \<and> src ! i = c \<and> is_ascii c"])
      (auto simp: is_ascii_def is_ascii_punctuation_def Let_def split: option.split)
  with assms show ?thesis by blast
qed

lemma tokens_from_punct:
  "t \<in> set (tokens_from u src i) \<Longrightarrow> tok_kind t = Punct c \<Longrightarrow> tok_end t = Suc (tok_start t) \<and> src ! tok_start t = c \<and> is_ascii c"
proof (induction u src i rule: tokens_from.induct)
  case (1 u src i)
  obtain stop kind where n: "next_token u src i = (stop, kind)" by fastforce
  show ?case
  proof (cases "i < length src")
    case True
    show ?thesis
    proof (cases "is_ascii_whitespace (src ! i)")
      case ws: True
      with 1(3) True have "t \<in> set (tokens_from u src (i + 1))" by (subst (asm) tokens_from.simps) simp
      from 1(1) [OF True ws this 1(4)] show ?thesis .
    next
      case ws: False
      with 1(3) True n have "t = scan_token i stop kind \<or> t \<in> set (tokens_from u src stop)"
        by (subst (asm) tokens_from.simps) simp
      then show ?thesis
      proof
        assume t: "t = scan_token i stop kind"
        with next_token_punct [of u src i c] n 1(4) show ?thesis by (simp add: scan_token_def)
      next
        assume "t \<in> set (tokens_from u src stop)"
        from 1(2) [OF True ws n [symmetric] refl this 1(4)] show ?thesis .
      qed
    qed
  next
    case False
    with 1(3) show ?thesis by (subst (asm) tokens_from.simps) simp
  qed
qed

lemma same_tokens_nth:
  assumes "same_tokens ts ts'" "i < length ts'"
  shows "i < length ts \<and> tok_start (ts' ! i) = tok_start (ts ! i) \<and> tok_end (ts' ! i) = tok_end (ts ! i) \<and> tok_kind (ts' ! i) = tok_kind (ts ! i)"
proof -
  have len: "length ts = length ts'" using assms(1) unfolding same_tokens_def by (metis length_map)
  then have "(ts ! i)\<lparr>tok_pair := None\<rparr> = (ts' ! i)\<lparr>tok_pair := None\<rparr>"
    using assms unfolding same_tokens_def by (metis nth_map)
  then have "tok_start (ts' ! i) = tok_start (ts ! i)" "tok_end (ts' ! i) = tok_end (ts ! i)" "tok_kind (ts' ! i) = tok_kind (ts ! i)"
    by (metis token.select_convs token.surjective token.update_convs)+
  with len assms(2) show ?thesis by simp
qed

lemma tokenize_punct:
  assumes "i < length (psf_tokens (tokenize u src))" "is_punct (psf_tokens (tokenize u src) ! i) c"
  shows "src ! tok_start (psf_tokens (tokenize u src) ! i) = c \<and> is_ascii c"
proof -
  note same = same_tokens_nth [OF conjunct2 [OF tokenize_pairs] assms(1)]
  then have "tokens_from u src 0 ! i \<in> set (tokens_from u src 0)" by simp
  from tokens_from_punct [OF this, of c] same assms(2) show ?thesis by (simp add: is_punct_def)
qed

section \<open>The items of a list\<close>

fun spans_in :: "string \<Rightarrow> nat \<Rightarrow> nat \<Rightarrow> (nat \<times> nat) list \<Rightarrow> bool" where
  "spans_in src lo hi [] \<longleftrightarrow> lo \<le> hi"
| "spans_in src lo hi ((a, b) # xs) \<longleftrightarrow>
     lo \<le> a \<and> a < b \<and> is_char_boundary src a \<and> is_char_boundary src b \<and> spans_in src b hi xs"

lemma spans_in_le: "spans_in src lo hi xs \<Longrightarrow> lo \<le> hi"
  by (induction xs arbitrary: lo) (auto, force)

lemma spans_in_mono: "spans_in src lo hi xs \<Longrightarrow> hi \<le> hi' \<Longrightarrow> spans_in src lo hi' xs"
  by (induction xs arbitrary: lo) auto

lemma spans_in_snoc:
  "spans_in src lo h xs \<Longrightarrow> h \<le> a \<Longrightarrow> a < b \<Longrightarrow> b \<le> hi \<Longrightarrow> is_char_boundary src a \<Longrightarrow> is_char_boundary src b \<Longrightarrow>
     spans_in src lo hi (xs @ [(a, b)])"
  by (induction xs arbitrary: lo) auto

lemma spans_in_filter: "spans_in src lo hi xs \<Longrightarrow> filter (\<lambda>(a, b). a < b) xs = xs"
  by (induction xs arbitrary: lo) auto

lemma spans_in_mem:
  "spans_in src lo hi xs \<Longrightarrow> (a, b) \<in> set xs \<Longrightarrow> lo \<le> a \<and> a < b \<and> b \<le> hi \<and> is_char_boundary src a \<and> is_char_boundary src b"
proof (induction xs arbitrary: lo)
  case (Cons x xs)
  obtain c d where x: "x = (c, d)" by (cases x)
  show ?case
  proof (cases "(a, b) = x")
    case True
    with Cons.prems x spans_in_le [of src b hi xs] show ?thesis by auto
  next
    case False
    with Cons.IH [of d] Cons.prems x show ?thesis by auto
  qed
qed simp

text \<open>Between the parentheses at \<open>i\<close> and \<open>close\<close>, before the token at \<open>cursor\<close>.\<close>

definition items_before :: "string \<Rightarrow> token list \<Rightarrow> nat \<Rightarrow> nat \<Rightarrow> nat option \<Rightarrow> (nat \<times> nat) list \<Rightarrow> bool" where
  "items_before src ts i cursor item_start items \<longleftrightarrow>
     (case item_start of
        None \<Rightarrow> spans_in src (tok_end (ts ! i)) (tok_start (ts ! cursor)) items
      | Some s \<Rightarrow> spans_in src (tok_end (ts ! i)) s items \<and> s < tok_start (ts ! cursor) \<and> is_char_boundary src s)"

lemma items_before_step:
  assumes "items_before src ts i cursor item_start items" "tokens_cover src 0 ts" "cursor < c" "c < length ts"
  shows "items_before src ts i c item_start items"
    and "items_before src ts i c (case item_start of None \<Rightarrow> Some (tok_start (ts ! cursor)) | Some s \<Rightarrow> Some s) items"
    and "items_before src ts i c None (case item_start of None \<Rightarrow> items | Some s \<Rightarrow> items @ [(s, tok_start (ts ! cursor))])"
proof -
  have t: "tok_start (ts ! cursor) < tok_end (ts ! cursor)" "is_char_boundary src (tok_start (ts ! cursor))"
    "tok_end (ts ! cursor) \<le> tok_start (ts ! c)"
    using cover_nth [OF assms(2), of cursor] cover_order [OF assms(2,3,4)] assms(3,4) by simp_all
  then show "items_before src ts i c item_start items"
    using assms(1) by (auto simp: items_before_def split: option.splits intro: spans_in_mono)
  show "items_before src ts i c (case item_start of None \<Rightarrow> Some (tok_start (ts ! cursor)) | Some s \<Rightarrow> Some s) items"
    using assms(1) t by (auto simp: items_before_def split: option.splits)
  show "items_before src ts i c None (case item_start of None \<Rightarrow> items | Some s \<Rightarrow> items @ [(s, tok_start (ts ! cursor))])"
    using assms(1) t by (auto simp: items_before_def split: option.splits intro: spans_in_mono spans_in_snoc)
qed

lemma open_partner:
  assumes "partners_ok ts" "k < length ts" "is_open (ts ! k)" "tok_pair (ts ! k) = Some p"
  shows "pair_of ts k p"
proof -
  from assms(1,2,4) have "pair_of ts k p \<or> pair_of ts p k" by (simp add: partners_ok_def)
  with open_not_close [OF assms(3)] show ?thesis by (auto simp: pair_of_def)
qed

lemma inner_pair:
  assumes "partners_ok ts" "pairs_nest ts" "pair_of ts i close" "i < cursor" "cursor < close" "is_open (ts ! cursor)" "tok_pair (ts ! cursor) = Some p"
  shows "cursor < p \<and> p < close"
proof -
  have "cursor < length ts" using assms(3,5) by (simp add: pair_of_def)
  from open_partner [OF assms(1) this assms(6,7)] have p: "pair_of ts cursor p" .
  with assms(2-5) have "close < cursor \<or> p < close" unfolding pairs_nest_def by blast
  with p assms(5) show ?thesis by (simp add: pair_of_def)
qed

lemma split_from_items:
  "split_from ts close cursor s angle items = Some (items', s') \<Longrightarrow> tokens_cover src 0 ts \<Longrightarrow> partners_ok ts \<Longrightarrow> pairs_nest ts \<Longrightarrow>
     pair_of ts i close \<Longrightarrow> i < cursor \<Longrightarrow> cursor \<le> close \<Longrightarrow> items_before src ts i cursor s items \<Longrightarrow>
     items_before src ts i close s' items'"
proof (induction ts close cursor s angle items rule: split_from.induct)
  case (1 ts close cursor s angle items)
  note ts = "1.prems"(2-5)
  have len: "close < length ts" using ts(4) by (simp add: pair_of_def)
  let ?t = "ts ! cursor" and ?here = "case s of None \<Rightarrow> Some (tok_start (ts ! cursor)) | Some s \<Rightarrow> Some s"
  show ?case
  proof (cases "cursor < close")
    case False
    with "1.prems" show ?thesis by (subst (asm) split_from.simps) simp
  next
    case lt: True
    have next_ok: "items_before src ts i (cursor + 1) s items" "items_before src ts i (cursor + 1) ?here items"
      "items_before src ts i (cursor + 1) None (case s of None \<Rightarrow> items | Some s \<Rightarrow> items @ [(s, tok_start ?t)])"
      using items_before_step [OF "1.prems"(8) ts(1), of "cursor + 1"] lt len by auto
    have bounds: "i < cursor + 1" "cursor + 1 \<le> close" using "1.prems"(6) lt by simp_all
    note eq = "1.prems"(1) [unfolded split_from.simps [of ts close cursor s angle items] if_P [OF lt] Let_def]
    show ?thesis
    proof (cases "is_open ?t")
      case op: True
      with eq obtain p where p: "tok_pair ?t = Some p" "\<not> p < cursor"
        and rest: "split_from ts close (p + 1) ?here angle items = Some (items', s')"
        by (auto split: option.splits if_splits)
      have pc: "cursor < p" "p < close" using inner_pair [OF ts(2,3,4) "1.prems"(6) lt op p(1)] by simp_all
      have "items_before src ts i (p + 1) ?here items"
        using items_before_step(2) [OF "1.prems"(8) ts(1), of "p + 1"] pc len by auto
      from "1.IH"(1) [OF lt refl refl op p(1,2) rest ts _ _ this] pc "1.prems"(6) show ?thesis by simp
    next
      case nop: False
      show ?thesis
      proof (cases "is_punct ?t (CHR ''<'')")
        case True
        with eq nop have rest: "split_from ts close (cursor + 1) ?here (angle + 1) items = Some (items', s')" by simp
        from "1.IH"(2) [OF lt refl refl nop True rest ts bounds next_ok(2)] show ?thesis .
      next
        case nlt: False
        show ?thesis
        proof (cases "is_punct ?t (CHR ''>'') \<and> 0 < angle")
          case True
          with eq nop nlt have rest: "split_from ts close (cursor + 1) s (angle - 1) items = Some (items', s')" by simp
          from "1.IH"(3) [OF lt refl refl nop nlt True rest ts bounds next_ok(1)] show ?thesis .
        next
          case ngt: False
          show ?thesis
          proof (cases "is_punct ?t (CHR '','') \<and> angle = 0")
            case True
            with eq nop nlt ngt have rest: "split_from ts close (cursor + 1) None angle
                (case s of None \<Rightarrow> items | Some start \<Rightarrow> items @ [(start, tok_start ?t)]) = Some (items', s')" by simp
            from "1.IH"(4) [OF lt refl refl nop nlt ngt True rest ts bounds next_ok(3)] show ?thesis .
          next
            case False
            with eq nop nlt ngt have rest: "split_from ts close (cursor + 1) ?here angle items = Some (items', s')" by auto
            from "1.IH"(5) [OF lt refl refl nop nlt ngt False rest ts bounds next_ok(2)] show ?thesis .
          qed
        qed
      qed
    qed
  qed
qed

lemma split_top_level_spans:
  assumes "from_utf8_ok src" and "pair_of (psf_tokens (tokenize u src)) i close" and "split_top_level (tokenize u src) i close = Some spans"
  shows "spans_in src (tok_end (psf_tokens (tokenize u src) ! i)) (tok_start (psf_tokens (tokenize u src) ! close)) spans"
proof -
  let ?ts = "psf_tokens (tokenize u src)"
  have cover: "tokens_cover src 0 ?ts" and ok: "partners_ok ?ts" "pairs_nest ?ts"
    using tokenize_covers [OF assms(1), of u] by (simp_all add: delimiters_ok_def)
  have ic: "i < close" "close < length ?ts" using assms(2) by (simp_all add: pair_of_def)
  obtain items s where r: "split_from ?ts close (i + 1) None 0 [] = Some (items, s)"
    and sp: "spans = filter (\<lambda>(a, b). a < b) (case s of None \<Rightarrow> items | Some start \<Rightarrow> items @ [(start, tok_start (?ts ! close))])"
    using assms(3) by (auto simp: split_top_level_def Let_def split: if_splits option.splits)
  have "items_before src ?ts i (i + 1) None []"
    using cover_order [OF cover, of i "i + 1"] ic by (simp add: items_before_def)
  from split_from_items [OF r cover ok assms(2) _ _ this] ic have b: "items_before src ?ts i close s items" by simp
  have "is_char_boundary src (tok_start (?ts ! close))" using cover_nth [OF cover ic(2)] by simp
  with b have "spans_in src (tok_end (?ts ! i)) (tok_start (?ts ! close))
      (case s of None \<Rightarrow> items | Some start \<Rightarrow> items @ [(start, tok_start (?ts ! close))])"
    by (auto simp: items_before_def split: option.splits intro: spans_in_snoc)
  with spans_in_filter [OF this] sp show ?thesis by simp
qed

section \<open>Edits stay inside their list\<close>

lemma call_shape_pair:
  assumes "delimiters_ok f" "call_shape f t = Some (ShapeCall i close)"
  shows "pair_of (psf_tokens f) i close \<and> is_open_paren (psf_tokens f ! i) \<and> psf_balanced f"
proof -
  from assms(2) obtain k where k: "next_significant (psf_tokens f) k = Some i" and i: "is_open_paren (psf_tokens f ! i)"
    and b: "psf_balanced f" and p: "tok_pair (psf_tokens f ! i) = Some close"
    unfolding call_shape_def Let_def tokens_pair_def by (auto split: option.splits if_splits)
  then have "i < length (psf_tokens f)" using next_significant_greater by blast
  moreover have "is_open (psf_tokens f ! i)" using i by (simp add: is_open_paren_def is_open_def)
  ultimately show ?thesis using open_partner [of "psf_tokens f" i close] assms(1) i b p by (simp add: delimiters_ok_def)
qed

lemma signature_params_pair:
  assumes "delimiters_ok f" "signature_params src f t = Some l"
  shows "pair_of (psf_tokens f) (pml_open l) (pml_close l) \<and> is_open_paren (psf_tokens f ! pml_open l) \<and> psf_balanced f \<and>
    split_top_level f (pml_open l) (pml_close l) = Some (pml_params l)"
proof -
  from assms(2) obtain fn k n where n: "next_significant (psf_tokens f) k = Some n" and l: "signature_list src f fn n = Some l"
    and b: "psf_balanced f"
    by (auto simp: signature_params_def Let_def split: option.splits if_splits bind_splits)
  from l have op: "is_open_paren (psf_tokens f ! n)" and p: "tok_pair (psf_tokens f ! n) = Some (pml_close l)" and o: "pml_open l = n"
    and sp: "split_top_level f n (pml_close l) = Some (pml_params l)"
    by (auto simp: signature_list_def Let_def split: if_splits option.splits)
  have "n < length (psf_tokens f)" using next_significant_greater [OF n] by simp
  moreover have "is_open (psf_tokens f ! n)" using op by (simp add: is_open_paren_def is_open_def)
  ultimately show ?thesis using open_partner [of "psf_tokens f" n] assms(1) op b p sp o by (simp add: delimiters_ok_def)
qed

lemma comma_from_bound:
  "comma_from ts to cursor = Some c \<Longrightarrow> \<exists>k < length ts. is_punct (ts ! k) (CHR '','') \<and> c = tok_start (ts ! k) \<and> c < to \<and> cursor \<le> k"
proof (induction ts to cursor rule: comma_from.induct)
  case (1 ts to cursor)
  have lt: "cursor < length ts \<and> tok_start (ts ! cursor) < to"
    using "1.prems" by (subst (asm) comma_from.simps) (simp split: if_splits)
  note eq = "1.prems" [unfolded comma_from.simps [of ts to cursor] if_P [OF lt] Let_def]
  show ?case
  proof (cases "is_punct (ts ! cursor) (CHR '','')")
    case True
    with eq lt show ?thesis by auto
  next
    case nc: False
    show ?thesis
    proof (cases "is_open (ts ! cursor)")
      case True
      with eq nc obtain p where p: "tok_pair (ts ! cursor) = Some p" "\<not> p < cursor" "comma_from ts to (p + 1) = Some c"
        by (auto split: option.splits if_splits)
      from "1.IH"(1) [OF lt refl nc True p(1,2,3)] p(2) show ?thesis by auto
    next
      case False
      with eq nc have "comma_from ts to (cursor + 1) = Some c" by simp
      from "1.IH"(2) [OF lt refl nc False this] show ?thesis by auto
    qed
  qed
qed

lemma find_comma_bound:
  assumes "from_utf8_ok src" "find_top_level_comma (tokenize u src) from to = Some c" "to \<le> length src"
  shows "from \<le> c \<and> c < to \<and> is_char_boundary src (c + 1)"
proof -
  let ?ts = "psf_tokens (tokenize u src)"
  have cover: "tokens_cover src 0 ?ts" using tokenize_covers [OF assms(1), of u] by simp
  obtain n where n: "list_position (\<lambda>t. from \<le> tok_start t) ?ts = Some n" "comma_from ?ts to n = Some c"
    using assms(2) by (auto simp: find_top_level_comma_def split: option.splits)
  from comma_from_bound [OF n(2)] obtain k where k: "k < length ?ts" "is_punct (?ts ! k) (CHR '','')" "c = tok_start (?ts ! k)" "c < to" "n \<le> k"
    by blast
  have "from \<le> tok_start (?ts ! n)" using list_position_less [OF n(1)] by simp
  also have "\<dots> \<le> c" using cover_order [OF cover, of n k] cover_nth [OF cover, of n] k by (cases "n = k") auto
  finally have "from \<le> c" .
  moreover have "is_char_boundary src (c + 1)"
    using tokenize_punct [OF k(1,2)] k(3,4) assms(3) by (intro after_ascii_boundary [OF assms(1)]) auto
  ultimately show ?thesis using k(4) by simp
qed

definition edit_inside :: "string \<Rightarrow> nat \<Rightarrow> nat \<Rightarrow> list_edit \<Rightarrow> bool" where
  "edit_inside src lo hi e \<longleftrightarrow>
     lo \<le> led_start e \<and> led_start e \<le> led_end e \<and> led_end e \<le> hi \<and>
     apply_edit src e = Some (take (led_start e) src @ led_text e @ drop (led_end e) src)"

lemma edit_insideI:
  "lo \<le> a \<Longrightarrow> a \<le> b \<Longrightarrow> b \<le> hi \<Longrightarrow> hi \<le> length src \<Longrightarrow> is_char_boundary src a \<Longrightarrow> is_char_boundary src b \<Longrightarrow>
     edit_inside src lo hi \<lparr>led_start = a, led_end = b, led_text = s\<rparr>"
  by (simp add: edit_inside_def apply_edit_def)

lemma get_nth_mem: "get_nth xs n = Some x \<Longrightarrow> x \<in> set xs"
  by (auto simp: get_nth_def split: if_splits)

lemma replace_inside:
  assumes "spans_in src lo hi params" "hi \<le> length src" "replace_in_params params receiver n new_text = Some e"
  shows "edit_inside src lo hi e"
proof -
  obtain a b where g: "get_nth params ((if receiver then 1 else 0) + n) = Some (a, b)"
    and e: "e = \<lparr>led_start = a, led_end = b, led_text = new_text\<rparr>"
    using assms(3) by (auto simp: replace_in_params_def split: option.splits)
  from spans_in_mem [OF assms(1) get_nth_mem [OF g]] assms(2) show ?thesis unfolding e by (intro edit_insideI) auto
qed

lemma insert_inside:
  assumes "from_utf8_ok src" "f = tokenize u src" "close < length (psf_tokens f)" "hi = tok_start (psf_tokens f ! close)"
    "spans_in src lo hi params" "insert_into_params f params i close receiver n new_text = Some e"
  shows "edit_inside src lo hi e"
proof -
  have hi: "hi \<le> length src" "is_char_boundary src hi"
    using cover_nth [OF conjunct1 [OF tokenize_covers [OF assms(1), of u]], of close] assms(2-4) by auto
  let ?skip = "if receiver then 1 else 0 :: nat" and ?ex = "drop (if receiver then 1 else 0) params"
  show ?thesis
  proof (cases "?ex = []")
    case empty: True
    show ?thesis
    proof (cases receiver)
      case True
      with assms(3,6) empty obtain a b where g: "get_nth params 0 = Some (a, b)" and e: "e = \<lparr>led_start = b, led_end = b, led_text = '', '' @ new_text\<rparr>"
        by (auto simp: insert_into_params_def Let_def split: if_splits option.splits)
      from spans_in_mem [OF assms(5) get_nth_mem [OF g]] hi show ?thesis unfolding e by (intro edit_insideI) auto
    next
      case False
      with assms(3,4,6) empty have "e = \<lparr>led_start = hi, led_end = hi, led_text = new_text\<rparr>"
        by (auto simp: insert_into_params_def Let_def split: if_splits)
      with hi spans_in_le [OF assms(5)] show ?thesis by (simp add: edit_insideI)
    qed
  next
    case some: False
    show ?thesis
    proof (cases "n < length ?ex")
      case True
      with assms(6) some have e: "e = \<lparr>led_start = fst (?ex ! n), led_end = fst (?ex ! n), led_text = new_text @ '', ''\<rparr>"
        by (auto simp: insert_into_params_def Let_def split: if_splits)
      have "(fst (?ex ! n), snd (?ex ! n)) \<in> set params" using nth_mem [OF True] by (auto dest: in_set_dropD)
      from spans_in_mem [OF assms(5) this] hi show ?thesis unfolding e by (intro edit_insideI) auto
    next
      case False
      let ?stop = "snd (last ?ex)"
      have "(fst (last ?ex), ?stop) \<in> set params" using last_in_set [OF some] by (auto dest: in_set_dropD)
      from spans_in_mem [OF assms(5) this] have stop: "lo \<le> ?stop" "?stop \<le> hi" "is_char_boundary src ?stop" by auto
      show ?thesis
      proof (cases "find_top_level_comma f ?stop hi")
        case None
        with assms(3,4,6) some False have "e = \<lparr>led_start = ?stop, led_end = ?stop, led_text = '', '' @ new_text\<rparr>"
          by (auto simp: insert_into_params_def Let_def split: if_splits)
        with stop hi show ?thesis by (simp add: edit_insideI)
      next
        case (Some c)
        with assms(3,4,6) some False have e: "e = \<lparr>led_start = c + 1, led_end = c + 1, led_text = '' '' @ new_text @ '',''\<rparr>"
          by (auto simp: insert_into_params_def Let_def split: if_splits)
        from find_comma_bound [OF assms(1) Some [unfolded assms(2)] hi(1)] stop hi show ?thesis
          unfolding e by (intro edit_insideI) auto
      qed
    qed
  qed
qed

end
