(* ===== verification/Edit_Context.thy ===== *)
theory Edit_Context
  imports Suggestion_Properties
begin

text \<open>
  Positions and unique contexts (\<open>tools/edits.rs\<close>): a language-server position as a byte offset, and the
  smallest window of whole lines around a range that occurs once in the text, counting overlapping occurrences.
  \<open>line_starts\<close>, \<open>line_at_offset\<close> and the window of a radius are as in \<open>diagnostics/suggestions.rs\<close>.
\<close>

section \<open>Positions\<close>

definition max_u32 :: nat where "max_u32 = 4294967295"

record position =
  pos_line :: nat
  pos_character :: nat

text \<open>\<open>char::len_utf16\<close>: two units for the characters that take four bytes.\<close>

definition len_utf16 :: "string \<Rightarrow> nat" where
  "len_utf16 ch = (if 240 \<le> (of_char (hd ch) :: nat) then 2 else 1)"

fun utf16_offset :: "string list \<Rightarrow> nat \<Rightarrow> nat \<Rightarrow> nat \<Rightarrow> nat option" where
  "utf16_offset [] offset utf16 character = (if utf16 = character then Some offset else None)"
| "utf16_offset (ch # chs) offset utf16 character =
     (if utf16 = character then Some offset
      else
        let utf16 = min max_u32 (utf16 + len_utf16 ch)
        in if character < utf16 then None else utf16_offset chs (offset + length ch) utf16 character)"

definition chop_char :: "char \<Rightarrow> string \<Rightarrow> string" where
  "chop_char c s = (if s \<noteq> [] \<and> last s = c then butlast s else s)"

definition position_offset :: "string \<Rightarrow> position \<Rightarrow> nat option" where
  "position_offset content p =
     (let starts = line_starts content in
      case get_nth starts (pos_line p) of
        None \<Rightarrow> None
      | Some line_start \<Rightarrow>
          let line_end = (case get_nth starts (pos_line p + 1) of None \<Rightarrow> length content | Some e \<Rightarrow> e);
              line = chop_char (CHR 0x0D) (chop_char (CHR 0x0A) (byte_slice content line_start line_end))
          in utf16_offset (chars line) line_start 0 (pos_character p))"

section \<open>Contexts\<close>

definition MAX_CONTEXT_CHARS :: nat where "MAX_CONTEXT_CHARS = 8000"
definition MAX_CONTEXT_RADIUS :: nat where "MAX_CONTEXT_RADIUS = 64"

text \<open>Occurrences from an offset on, overlapping ones too; the count stops at two.\<close>

function occurrences_from :: "string \<Rightarrow> string \<Rightarrow> nat \<Rightarrow> nat \<Rightarrow> nat" where
  "occurrences_from content needle offset count =
     (case str_find (drop offset content) needle of
        None \<Rightarrow> count
      | Some found \<Rightarrow>
          if 2 \<le> count + 1 then count + 1
          else
            let start = offset + found;
                offset' = start + (case chars (drop start content) of [] \<Rightarrow> length needle | ch # _ \<Rightarrow> length ch)
            in if length content \<le> offset' then count + 1 else occurrences_from content needle offset' (count + 1))"
  by pat_completeness auto
termination
  by (relation "measure (\<lambda>(content, needle, offset, count). 2 - count)") auto

declare occurrences_from.simps [simp del]

definition count_occurrences :: "string \<Rightarrow> string \<Rightarrow> nat" where
  "count_occurrences content needle = (if needle = [] then 0 else occurrences_from content needle 0 0)"

fun widen_edit_context :: "string \<Rightarrow> nat list \<Rightarrow> nat \<Rightarrow> nat \<Rightarrow> nat list \<Rightarrow> (nat \<times> nat) option" where
  "widen_edit_context content starts start_line end_line [] = None"
| "widen_edit_context content starts start_line end_line (radius # radii) =
     (let (start, stop) = context_bounds content starts start_line end_line radius; window = byte_slice content start stop in
      if MAX_CONTEXT_CHARS < chars_count window then None
      else if window \<noteq> [] \<and> count_occurrences content window = 1 then Some (start, stop)
      else widen_edit_context content starts start_line end_line radii)"

definition edit_context :: "string \<Rightarrow> nat \<Rightarrow> nat \<Rightarrow> (nat \<times> nat) option" where
  "edit_context content start stop =
     (let starts = line_starts content
      in widen_edit_context content starts (line_at_offset starts start) (line_at_offset starts stop)
           [0..<Suc (min (length starts) MAX_CONTEXT_RADIUS)])"

section \<open>A context covers its range and occurs once\<close>

lemma edit_context_Some:
  assumes "edit_context content start stop = Some (cs, ce)" and "start \<le> stop" and "stop \<le> length content"
  shows "cs \<le> start" and "stop \<le> ce" and "ce \<le> length content" and "cs < ce"
    and "count_occurrences content (byte_slice content cs ce) = 1"
proof -
  have w: "widen_edit_context content starts a b radii = Some (cs, ce) \<Longrightarrow>
      (\<exists>radius \<in> set radii. context_bounds content starts a b radius = (cs, ce)) \<and>
      byte_slice content cs ce \<noteq> [] \<and> count_occurrences content (byte_slice content cs ce) = 1" for starts a b radii
    by (induction content starts a b radii rule: widen_edit_context.induct) (auto simp: Let_def split: prod.splits if_splits)
  from w [OF assms(1) [unfolded edit_context_def Let_def]] obtain radius where
    c: "context_bounds content (line_starts content) (line_at_offset (line_starts content) start) (line_at_offset (line_starts content) stop) radius = (cs, ce)"
    and ne: "byte_slice content cs ce \<noteq> []" and one: "count_occurrences content (byte_slice content cs ce) = 1"
    by blast
  from context_bounds_cover [OF c assms(3)] show "cs \<le> start" "stop \<le> ce" "ce \<le> length content" by auto
  show "cs < ce" using ne by (cases "cs < ce") (auto simp: byte_slice_def)
  show "count_occurrences content (byte_slice content cs ce) = 1" by (rule one)
qed

text \<open>A needle that starts with a whole character and is counted once has one place.\<close>

lemma counted_once:
  assumes "count_occurrences content needle = 1" and "\<not> is_cont (hd needle)" and "occurs_at content needle i"
  shows "str_find content needle = Some i"
proof -
  have ne: "needle \<noteq> []" using assms(1) by (auto simp: count_occurrences_def)
  obtain f where f: "str_find content needle = Some f"
    using str_find_None [of content needle] assms(3) by (cases "str_find content needle") auto
  have "f \<le> i" using str_find_least [OF f assms(3)] .
  have of: "occurs_at content needle f" by (rule str_find_occurs [OF f])
  have at: "content ! k = hd needle \<and> k < length content" if "occurs_at content needle k" for k
    using that ne occurs_at_take [OF that] occurs_at_bound [OF that]
    by (cases needle) (auto simp: take_Suc hd_drop_conv_nth split: if_splits)
  obtain c s where d: "drop f content = c # s" using at [OF of] by (cases "drop f content") auto
  let ?o = "f + Suc (length (takeWhile is_cont s))"
  have "i = f" if "f < i"
  proof (cases "i < ?o")
    case True
    have "content ! i = drop f content ! (i - f)" using that at [OF assms(3)] by simp
    also have "\<dots> = s ! (i - f - 1)" unfolding d using that by simp
    also have "\<dots> = takeWhile is_cont s ! (i - f - 1)" using True that by (intro takeWhile_nth [symmetric]) simp
    finally have "content ! i \<in> set (takeWhile is_cont s)" using True that by simp
    then have "is_cont (content ! i)" by (auto dest: set_takeWhileD)
    with at [OF assms(3)] assms(2) show ?thesis by simp
  next
    case False
    then have lt: "?o < length content" using at [OF assms(3)] by simp
    have "occurrences_from content needle ?o 1 = 1"
      using assms(1) f d lt ne unfolding count_occurrences_def by (subst (asm) occurrences_from.simps) (simp add: Let_def)
    then have "str_find (drop ?o content) needle = None"
      by (subst (asm) occurrences_from.simps) (simp split: option.splits)
    moreover have "occurs_at (drop ?o content) needle (i - ?o)"
      using assms(3) False by (auto simp: occurs_at_def)
    ultimately show ?thesis using str_find_None [of "drop ?o content" needle] by auto
  qed
  with \<open>f \<le> i\<close> f show ?thesis by fastforce
qed

end
