(* ===== verification/Migrate_Plan.thy ===== *)
theory Migrate_Plan
  imports Migrate_Lists Edit_Context
begin

text \<open>
  Planning a migration (\<open>change/migrate/plan.rs\<close>): the edits of the definition, of every implementation and of
  every call, and an obligation for each site that is not rewritten. The analysis of the language server, the
  files of the candidate and the reader of manifests are arguments.
\<close>

section \<open>Inputs and results\<close>

record analyzed_site =
  asi_file :: string
  asi_start_line :: nat
  asi_start_character :: nat
  asi_end_line :: nat
  asi_end_character :: nat
  asi_identity :: "bool option"

record anchor_analysis =
  ana_definition :: analyzed_site
  ana_implementations :: "analyzed_site list"
  ana_references :: "analyzed_site list"
  ana_references_total :: nat
  ana_implementations_total :: nat
  ana_identity_checks :: nat
  ana_signature :: "string option"
  ana_notes :: "string list"

record planned_edit =
  ped_file :: string
  ped_start :: nat
  ped_end :: nat
  ped_text :: string
  ped_group :: string
  ped_line :: nat

record migration_plan =
  mpl_report :: migration_report_data
  mpl_edits :: "planned_edit list"
  mpl_refused :: "(string \<times> string) option"

definition MAX_MIGRATION_REFERENCES :: nat where "MAX_MIGRATION_REFERENCES = 256"
definition MAX_MIGRATION_EDITS :: nat where "MAX_MIGRATION_EDITS = 512"
definition MAX_MIGRATION_IDENTITY_CHECKS :: nat where "MAX_MIGRATION_IDENTITY_CHECKS = 128"
definition MAX_MIGRATION_SITES :: nat where "MAX_MIGRATION_SITES = 64"
definition MAX_MIGRATION_OBLIGATIONS :: nat where "MAX_MIGRATION_OBLIGATIONS = 32"
definition MAX_MIGRATION_NOTES :: nat where "MAX_MIGRATION_NOTES = 24"
definition MAX_MIGRATION_GROUPS :: nat where "MAX_MIGRATION_GROUPS = 16"
definition MAX_MIGRATION_MESSAGE_CHARS :: nat where "MAX_MIGRATION_MESSAGE_CHARS = 512"

definition plan_budget :: "migrate_request \<Rightarrow> nat" where
  "plan_budget request =
     (case mc_max_edits (mr_constraints request) of None \<Rightarrow> MAX_MIGRATION_EDITS | Some n \<Rightarrow> min n MAX_MIGRATION_EDITS)"

text \<open>What the planner reads: the Unicode tables, the candidate's files and the package name of a manifest.\<close>

record plan_env =
  pev_unicode :: unicode
  pev_read :: "string \<Rightarrow> string option"
  pev_package_name :: "string \<Rightarrow> string option"

section \<open>Sites\<close>

definition migration_obligation :: "string \<Rightarrow> string option \<Rightarrow> nat option \<Rightarrow> string \<Rightarrow> migration_obligation_data" where
  "migration_obligation kind path line message =
     \<lparr>mob_kind = kind, mob_file = path, mob_line = line, mob_message = bounded_chars message MAX_MIGRATION_MESSAGE_CHARS\<rparr>"

definition site_data :: "analyzed_site \<Rightarrow> string \<Rightarrow> string option \<Rightarrow> string option \<Rightarrow> migration_site_data" where
  "site_data s kind detail scope =
     \<lparr>msd_file = asi_file s, msd_line = asi_start_line s + 1, msd_column = asi_start_character s + 1, msd_kind = kind,
      msd_detail = detail, msd_feature_scope = scope\<rparr>"

definition start_offset :: "string \<Rightarrow> analyzed_site \<Rightarrow> nat option" where
  "start_offset content s = position_offset content \<lparr>pos_line = asi_start_line s, pos_character = asi_start_character s\<rparr>"

definition find_site_token :: "string \<Rightarrow> parsed_file \<Rightarrow> analyzed_site \<Rightarrow> string \<Rightarrow> nat option" where
  "find_site_token content f s symbol =
     (case start_offset content s of
        None \<Rightarrow> None
      | Some start \<Rightarrow>
          let ts = psf_tokens f;
              stop = (case position_offset content \<lparr>pos_line = asi_end_line s, pos_character = asi_end_character s\<rparr> of
                        None \<Rightarrow> start | Some e \<Rightarrow> e);
              range_end = max stop (start + 1);
              ranged = list_position (\<lambda>t. is_ident t \<and> start \<le> tok_start t \<and> tok_start t < range_end \<and> token_text content t = Some symbol) ts
          in case token_at_offset ts start of
               Some i \<Rightarrow> if is_ident (ts ! i) \<and> token_text content (ts ! i) = Some symbol then Some i else ranged
             | None \<Rightarrow> ranged)"

definition resolve_signature :: "string \<Rightarrow> parsed_file \<Rightarrow> analyzed_site \<Rightarrow> string \<Rightarrow> (nat \<times> param_list) option" where
  "resolve_signature content f s symbol =
     (case find_site_token content f s symbol of
        None \<Rightarrow> None
      | Some t \<Rightarrow> map_option (Pair t) (signature_params content f t))"

definition signature_edit :: "parsed_file \<Rightarrow> param_list \<Rightarrow> migrate_transformation_input \<Rightarrow> nat \<Rightarrow> list_edit option" where
  "signature_edit f l tr pos =
     (case mti_kind tr of
        AddParameter \<Rightarrow> insert_into_params f (pml_params l) (pml_open l) (pml_close l) (pml_receiver l) pos (mti_parameter tr)
      | ChangeParameter \<Rightarrow> replace_in_params (pml_params l) (pml_receiver l) pos (mti_parameter tr))"

text \<open>
  The end of a \<open>use\<close> statement, from the token behind the keyword. The partner of an opening delimiter stands
  behind it in every scanned file, so the test that ends the recursion otherwise never applies.
\<close>

function use_end :: "token list \<Rightarrow> nat \<Rightarrow> nat \<Rightarrow> nat" where
  "use_end ts cursor stop =
     (if cursor < length ts then
        let t = ts ! cursor in
        if is_punct t (CHR '';'') then tok_end t
        else if is_open t then
          (case tok_pair t of
             None \<Rightarrow> use_end ts (cursor + 1) (tok_end t)
           | Some pair \<Rightarrow> if pair < cursor then stop else use_end ts (pair + 1) (tok_end t))
        else if is_close t then stop
        else use_end ts (cursor + 1) (tok_end t)
      else stop)"
  by pat_completeness auto
termination
  by (relation "measure (\<lambda>(ts, cursor, stop). length ts - cursor)") auto

declare use_end.simps [simp del]

definition use_context :: "string \<Rightarrow> parsed_file \<Rightarrow> nat \<Rightarrow> bool option" where
  "use_context content f offset =
     (let ts = psf_tokens f in
      map_option (use_is_public content ts)
        (list_position (\<lambda>i. is_ident (ts ! i) \<and> token_text content (ts ! i) = Some ''use'' \<and>
            tok_start (ts ! i) \<le> offset \<and> offset < use_end ts (i + 1) (tok_end (ts ! i))) [0..<length ts]))"

fun scope_above :: "string list \<Rightarrow> nat \<Rightarrow> nat \<Rightarrow> string option" where
  "scope_above ls 0 steps = None"
| "scope_above ls (Suc i) steps =
     (if steps = 0 then None
      else
        let raw = ls ! i; trimmed = trim_start raw in
        if starts_with trimmed ''#[cfg'' then Some (bounded_chars trimmed 120)
        else if starts_with raw ''}'' then None
        else scope_above ls i (steps - 1))"

definition feature_scope :: "string \<Rightarrow> nat \<Rightarrow> string option" where
  "feature_scope content line = (let ls = str_lines content in scope_above ls (min line (length ls)) 60)"

fun owner_from :: "string \<Rightarrow> token list \<Rightarrow> nat \<Rightarrow> nat \<Rightarrow> (string \<times> nat) option" where
  "owner_from content ts 0 cursor = None"
| "owner_from content ts (Suc n) cursor =
     (case prev_significant ts cursor of
        None \<Rightarrow> None
      | Some previous \<Rightarrow>
          if is_ident (ts ! previous) \<and> token_text content (ts ! previous) = Some ''trait'' then Some (''traitItem'', previous)
          else if is_ident (ts ! previous) \<and> token_text content (ts ! previous) = Some ''impl'' then Some (''implItem'', previous)
          else owner_from content ts n previous)"

definition enclosing_owner :: "string \<Rightarrow> parsed_file \<Rightarrow> nat \<Rightarrow> (string \<times> nat) option" where
  "enclosing_owner content f t =
     (let ts = psf_tokens f in
      if length ts \<le> t then None
      else let opens = open_ancestors ts (tok_start (ts ! t))
           in if opens = [] then None else owner_from content ts 6 (last opens))"

function visibility_from :: "string \<Rightarrow> token list \<Rightarrow> string \<Rightarrow> nat \<Rightarrow> string" where
  "visibility_from content ts otherwise cursor =
     (case prev_significant ts cursor of
        None \<Rightarrow> otherwise
      | Some previous \<Rightarrow>
          let t = ts ! previous in
          if is_punct t (CHR '';'') \<or> is_close t \<or> is_open t then otherwise
          else if is_ident t then
            (let word = (case token_text content t of None \<Rightarrow> [] | Some s \<Rightarrow> s) in
             if word = ''pub'' then ''public''
             else if word \<in> {''fn'', ''async'', ''unsafe'', ''const'', ''extern''} then visibility_from content ts otherwise previous
             else otherwise)
          else visibility_from content ts otherwise previous)"
  by pat_completeness auto
termination
  by (relation "measure (\<lambda>(content, ts, otherwise, cursor). cursor)") (auto dest!: prev_significant_less)

declare visibility_from.simps [simp del]

definition item_visibility :: "string \<Rightarrow> parsed_file \<Rightarrow> nat \<Rightarrow> string" where
  "item_visibility content f t =
     visibility_from content (psf_tokens f)
       (case enclosing_owner content f t of None \<Rightarrow> ''freeFunction'' | Some (kind, _) \<Rightarrow> kind) t"

function pub_before :: "string \<Rightarrow> token list \<Rightarrow> nat \<Rightarrow> bool" where
  "pub_before content ts cursor =
     (case prev_significant ts cursor of
        None \<Rightarrow> False
      | Some previous \<Rightarrow>
          if \<not> is_ident (ts ! previous) then False
          else if token_text content (ts ! previous) = Some ''pub'' then True
          else if token_text content (ts ! previous) = Some ''unsafe'' \<or> token_text content (ts ! previous) = Some ''default''
          then pub_before content ts previous
          else False)"
  by pat_completeness auto
termination
  by (relation "measure (\<lambda>(content, ts, cursor). cursor)") (auto dest!: prev_significant_less)

declare pub_before.simps [simp del]

definition owner_public :: "string \<Rightarrow> parsed_file \<Rightarrow> nat \<Rightarrow> bool" where
  "owner_public content f t =
     (case enclosing_owner content f t of None \<Rightarrow> False | Some (_, owner) \<Rightarrow> pub_before content (psf_tokens f) owner)"

function package_above :: "plan_env \<Rightarrow> string list \<Rightarrow> string option" where
  "package_above env parts =
     (if parts = [] then None
      else case Option.bind (pev_read env (join ''/'' parts @ ''/Cargo.toml'')) (pev_package_name env) of
        Some name \<Rightarrow> Some name
      | None \<Rightarrow> package_above env (butlast parts))"
  by pat_completeness auto
termination
  by (relation "measure (\<lambda>(env, parts). length parts)") auto

declare package_above.simps [simp del]

definition package_of :: "plan_env \<Rightarrow> string \<Rightarrow> string" where
  "package_of env path =
     (case package_above env (butlast (split_slash path)) of
        Some name \<Rightarrow> name
      | None \<Rightarrow>
          (case Option.bind (pev_read env ''Cargo.toml'') (pev_package_name env) of Some name \<Rightarrow> name | None \<Rightarrow> ''(unknown)''))"

section \<open>Flags\<close>

text \<open>\<open>str::parse::<f64>\<close>: whether a text is a decimal number, an infinity or not a number, without its sign.\<close>

definition all_digits :: "string \<Rightarrow> bool" where
  "all_digits s \<longleftrightarrow> list_all is_ascii_digit s"

definition is_exponent :: "string \<Rightarrow> bool" where
  "is_exponent s \<longleftrightarrow>
     s = [] \<or> (hd s \<in> {CHR ''e'', CHR ''E''} \<and>
       (let d = (if tl s \<noteq> [] \<and> hd (tl s) \<in> {CHR ''+'', CHR ''-''} then tl (tl s) else tl s) in d \<noteq> [] \<and> all_digits d))"

definition is_f64 :: "string \<Rightarrow> bool" where
  "is_f64 s \<longleftrightarrow>
     (let body = (if s \<noteq> [] \<and> hd s \<in> {CHR ''+'', CHR ''-''} then tl s else s);
          lower = map (\<lambda>c. if is_ascii_uppercase c then char_of (of_char c + 32 :: nat) else c) body;
          whole = takeWhile is_ascii_digit body;
          rest = dropWhile is_ascii_digit body;
          fraction = (if rest \<noteq> [] \<and> hd rest = CHR ''.'' then takeWhile is_ascii_digit (tl rest) else []);
          rest = (if rest \<noteq> [] \<and> hd rest = CHR ''.'' then dropWhile is_ascii_digit (tl rest) else rest)
      in lower \<in> {''inf'', ''infinity'', ''nan''} \<or> ((whole \<noteq> [] \<or> fraction \<noteq> []) \<and> is_exponent rest))"

definition argument_risk :: "string \<Rightarrow> bool" where
  "argument_risk argument =
     (let t = trim argument in
      if t = [] then True
      else if is_f64 t \<or> t = ''true'' \<or> t = ''false'' then False
      else if starts_with t [CHR 0x22] \<or> starts_with t (''b'' @ [CHR 0x22]) \<or> starts_with t (''r'' @ [CHR 0x22]) \<or> starts_with t ''r#''
      then False
      else if starts_with t ''&'' then starts_with (trim_start (tl t)) ''mut ''
      else True)"

definition migration_flags :: "migrate_transformation_input \<Rightarrow> nat \<Rightarrow> nat \<Rightarrow> migration_flags_data" where
  "migration_flags tr pos declared =
     (let order_risk = (mti_kind tr = AddParameter \<and> pos < declared); move_risk = argument_risk (mti_argument tr)
      in \<lparr>mfd_behavior_change = True,
          mfd_behavior_change_reasons =
            [''the public signature changes; consumers are compiled against the new signature'',
             ''compile-pass does not prove semantic equivalence''] @
            (if order_risk then [''the new argument is evaluated before existing arguments, which can change evaluation order and side effects''] else []) @
            (if move_risk then [''the host argument is not a literal; it can move or borrow values at the call position differently from the old call''] else []) @
            (if mti_kind tr = ChangeParameter then [''an existing argument expression is replaced''] else []),
          mfd_evaluation_order_risk = order_risk, mfd_move_borrow_risk = move_risk,
          mfd_semantic_equivalence_claim = ''notClaimed''\<rparr>)"

definition truncate_obligations :: "migration_obligation_data list \<Rightarrow> migration_obligation_data list" where
  "truncate_obligations os =
     (if MAX_MIGRATION_OBLIGATIONS < length os
      then take (MAX_MIGRATION_OBLIGATIONS - 1) os @
        [migration_obligation ''truncated'' None None ''additional obligations were truncated; see obligationsTotal'']
      else os)"

text \<open>A map from group and file, in their order, to the number of edits.\<close>

fun count_group :: "(string \<times> string) \<Rightarrow> ((string \<times> string) \<times> nat) list \<Rightarrow> ((string \<times> string) \<times> nat) list" where
  "count_group key [] = [(key, 1)]"
| "count_group key ((k, n) # m) =
     (if key = k then (k, n + 1) # m
      else if fst key < fst k \<or> (fst key = fst k \<and> snd key < snd k) then (key, 1) # (k, n) # m
      else (k, n) # count_group key m)"

definition edit_groups :: "planned_edit list \<Rightarrow> migration_edit_group_data list" where
  "edit_groups edits =
     map (\<lambda>((kind, label), sites). \<lparr>meg_kind = kind, meg_label = label, meg_sites = sites\<rparr>)
       (take MAX_MIGRATION_GROUPS
         (fold (\<lambda>e m. count_group (ped_group e, ped_file e) m) (take MAX_MIGRATION_EDITS edits) []))"

section \<open>The plan\<close>

text \<open>What the three loops fill in.\<close>

record plan_work =
  plw_edits :: "planned_edit list"
  plw_obligations :: "migration_obligation_data list"
  plw_notes :: "string list"
  plw_packages :: "string list"
  plw_hints :: "string list"
  plw_implementations :: "migration_site_data list"
  plw_consumers :: "migration_site_data list"
  plw_reexports :: "migration_site_data list"
  plw_unrelated :: "migration_site_data list"
  plw_consumers_total :: nat
  plw_reexports_total :: nat
  plw_unrelated_total :: nat
  plw_omitted :: nat
  plw_budget_noted :: bool

text \<open>The fixed part of one plan: the request, the resolved position, the declared parameters and the edit budget.\<close>

record plan_goal =
  pgl_symbol :: string
  pgl_transformation :: migrate_transformation_input
  pgl_position :: nat
  pgl_declared :: nat
  pgl_max_edits :: nat

definition push_obligation :: "string \<Rightarrow> analyzed_site \<Rightarrow> string \<Rightarrow> plan_work \<Rightarrow> plan_work" where
  "push_obligation kind s message w =
     w\<lparr>plw_obligations := plw_obligations w @ [migration_obligation kind (Some (asi_file s)) (Some (asi_start_line s + 1)) message]\<rparr>"

definition push_edit :: "string \<Rightarrow> analyzed_site \<Rightarrow> list_edit \<Rightarrow> plan_work \<Rightarrow> plan_work" where
  "push_edit grp s e w =
     w\<lparr>plw_edits := plw_edits w @
       [\<lparr>ped_file = asi_file s, ped_start = led_start e, ped_end = led_end e, ped_text = led_text e, ped_group = grp,
         ped_line = asi_start_line s + 1\<rparr>]\<rparr>"

definition push_hint :: "analyzed_site \<Rightarrow> string option \<Rightarrow> plan_work \<Rightarrow> plan_work" where
  "push_hint s feature w =
     (case feature of None \<Rightarrow> w | Some scope \<Rightarrow> w\<lparr>plw_hints := plw_hints w @ [asi_file s @ '': '' @ scope]\<rparr>)"

definition push_package :: "plan_env \<Rightarrow> analyzed_site \<Rightarrow> plan_work \<Rightarrow> plan_work" where
  "push_package env s w = w\<lparr>plw_packages := plw_packages w @ [package_of env (asi_file s)]\<rparr>"

definition omit_edit :: "string \<Rightarrow> plan_work \<Rightarrow> plan_work" where
  "omit_edit message w =
     (let w = w\<lparr>plw_omitted := sat_add (plw_omitted w) 1\<rparr> in
      if plw_budget_noted w then w
      else w\<lparr>plw_budget_noted := True, plw_obligations := plw_obligations w @ [migration_obligation ''budget'' None None message]\<rparr>)"

definition arity_message :: "string \<Rightarrow> nat \<Rightarrow> string \<Rightarrow> nat \<Rightarrow> string" where
  "arity_message subject passed thing declared =
     subject @ '' '' @ dec passed @ '' '' @ thing @ ''(s) but the anchor declares '' @ dec declared"

definition plan_implementation :: "plan_env \<Rightarrow> plan_goal \<Rightarrow> analyzed_site \<Rightarrow> analyzed_site \<Rightarrow> plan_work \<Rightarrow> plan_work" where
  "plan_implementation env g definition_site s w =
     (if asi_file s = asi_file definition_site \<and> asi_start_line s = asi_start_line definition_site then w
      else if pgl_max_edits g \<le> length (plw_edits w)
      then omit_edit ''one or more implementation edits were omitted because the edit budget was reached'' w
      else case pev_read env (asi_file s) of
        None \<Rightarrow> push_obligation ''unreadableFile'' s ''implementation file is not readable in the candidate'' w
      | Some content \<Rightarrow>
          let w = push_package env s w; f = tokenize (pev_unicode env) content in
          case resolve_signature content f s (pgl_symbol g) of
            None \<Rightarrow> push_obligation ''unparseableSignature'' s ''implementation does not resolve to a rewriteable fn signature'' w
          | Some (t, l) \<Rightarrow>
              if length (params_explicit l) \<noteq> pgl_declared g
              then push_obligation ''arityMismatch'' s
                (arity_message ''implementation declares'' (length (params_explicit l)) ''parameter'' (pgl_declared g)) w
              else case signature_edit f l (pgl_transformation g) (pgl_position g) of
                None \<Rightarrow> push_obligation ''unparseableSignature'' s ''implementation parameter list could not be rewritten structurally'' w
              | Some e \<Rightarrow>
                  let feature = feature_scope content (asi_start_line s);
                      w = push_hint s feature w
                  in push_edit ''implementation'' s e
                       (w\<lparr>plw_implementations := plw_implementations w @ [site_data s ''implementation'' None feature]\<rparr>))"

definition argument_matches :: "string \<Rightarrow> plan_goal \<Rightarrow> (nat \<times> nat) list \<Rightarrow> bool" where
  "argument_matches content g args =
     (case get_nth args (pgl_position g) of
        None \<Rightarrow> False
      | Some (a, b) \<Rightarrow>
          (case get_slice content a b of None \<Rightarrow> False | Some s \<Rightarrow> trim s = trim (mti_argument (pgl_transformation g))))"

text \<open>The edit of one call: an obligation, nothing to do (with a note), or an edit.\<close>

datatype call_plan = CallObligation string string | CallSkip "string option" | CallEdit list_edit

definition shown_line :: "analyzed_site \<Rightarrow> string" where
  "shown_line s = asi_file s @ '':'' @ dec (min max_u32 (asi_start_line s + 1))"

definition skip_unless :: "list_edit option \<Rightarrow> call_plan" where
  "skip_unless e = (case e of None \<Rightarrow> CallSkip None | Some e \<Rightarrow> CallEdit e)"

definition plan_call :: "string \<Rightarrow> parsed_file \<Rightarrow> plan_goal \<Rightarrow> analyzed_site \<Rightarrow> nat \<Rightarrow> nat \<Rightarrow> call_plan" where
  "plan_call content f g s i close =
     (case split_top_level f i close of
        None \<Rightarrow> CallObligation ''unparseableCall'' ''call argument list could not be parsed structurally''
      | Some args \<Rightarrow>
          let tr = pgl_transformation g;
              mismatch = CallObligation ''arityMismatch'' (arity_message ''call passes'' (length args) ''argument'' (pgl_declared g)) in
          case mti_kind tr of
            AddParameter \<Rightarrow>
              if length args = pgl_declared g
              then skip_unless (insert_into_params f args i close False (pgl_position g) (mti_argument tr))
              else if length args = pgl_declared g + 1 \<and> argument_matches content g args
              then CallSkip (Some (''call at '' @ shown_line s @ '' already carries the host argument''))
              else mismatch
          | ChangeParameter \<Rightarrow>
              if length args \<noteq> pgl_declared g then mismatch
              else if argument_matches content g args then CallSkip None
              else skip_unless (replace_in_params args False (pgl_position g) (mti_argument tr)))"

definition count_consumer :: "plan_work \<Rightarrow> plan_work" where
  "count_consumer w = w\<lparr>plw_consumers_total := sat_add (plw_consumers_total w) 1\<rparr>"

text \<open>A reference that resolves to the anchor and names its symbol at a token.\<close>

definition plan_site :: "plan_env \<Rightarrow> plan_goal \<Rightarrow> string \<Rightarrow> parsed_file \<Rightarrow> analyzed_site \<Rightarrow> nat \<Rightarrow> string option \<Rightarrow> plan_work \<Rightarrow> plan_work" where
  "plan_site env g content f s t feature w =
     (let w = count_consumer w in
      if inside_macro (psf_tokens f) (tok_start (psf_tokens f ! t))
      then push_obligation ''macro'' s ''call site is inside a macro invocation; expansion cannot be rewritten mechanically'' w
      else case call_shape f t of
        Some ShapeMacro \<Rightarrow> push_obligation ''macro'' s ''reference is a macro invocation and cannot be rewritten mechanically'' w
      | Some (ShapeCall i close) \<Rightarrow>
          if pgl_max_edits g \<le> length (plw_edits w)
          then omit_edit ''one or more call-site edits were omitted because the edit budget was reached'' w
          else (case plan_call content f g s i close of
            CallObligation kind message \<Rightarrow> push_obligation kind s message w
          | CallSkip note \<Rightarrow> w\<lparr>plw_notes := plw_notes w @ (case note of None \<Rightarrow> [] | Some n \<Rightarrow> [n])\<rparr>
          | CallEdit e \<Rightarrow>
              let w = push_hint s feature (push_package env s w)
              in push_edit ''consumer'' s e
                   (w\<lparr>plw_consumers := plw_consumers w @
                      [site_data s ''call'' (Some (bounded_chars (mti_argument (pgl_transformation g)) 200)) feature]\<rparr>))
      | _ \<Rightarrow> push_obligation ''callableValue'' s ''reference is used as a value rather than a direct call; the host must update it'' w)"

definition plan_reference :: "plan_env \<Rightarrow> plan_goal \<Rightarrow> analyzed_site \<Rightarrow> plan_work \<Rightarrow> plan_work" where
  "plan_reference env g s w =
     (case pev_read env (asi_file s) of
        None \<Rightarrow> push_obligation ''unreadableFile'' s ''consumer file is not readable in the candidate'' (count_consumer w)
      | Some content \<Rightarrow>
          let f = tokenize (pev_unicode env) content;
              within_use = Option.bind (start_offset content s) (use_context content f);
              feature = feature_scope content (asi_start_line s);
              w = push_hint s feature w in
          case asi_identity s of
            Some False \<Rightarrow>
              w\<lparr>plw_unrelated_total := sat_add (plw_unrelated_total w) 1,
                plw_unrelated := plw_unrelated w @
                  [site_data s ''unrelatedIdentity'' (Some ''reference resolves to a different definition'') feature],
                plw_notes := plw_notes w @
                  [''excluded same-named reference at '' @ shown_line s @ '' because its definition differs from the anchor'']\<rparr>
          | None \<Rightarrow>
              push_obligation ''identityUnverified'' s ''definition identity check was inconclusive; the site was not rewritten'' (count_consumer w)
          | Some True \<Rightarrow>
              (case find_site_token content f s (pgl_symbol g) of
                 None \<Rightarrow>
                   push_obligation ''unresolvedSite'' s ''the reference does not cover an identifier this engine can rewrite'' (count_consumer w)
               | Some t \<Rightarrow>
                   (case within_use of
                      Some public \<Rightarrow>
                        let w = push_package env s (w\<lparr>plw_reexports_total := sat_add (plw_reexports_total w) 1\<rparr>)
                        in w\<lparr>plw_reexports := plw_reexports w @ [site_data s (if public then ''reExport'' else ''import'') None feature]\<rparr>
                    | None \<Rightarrow> plan_site env g content f s t feature w)))"

definition blank_report :: "migrate_request \<Rightarrow> anchor_analysis \<Rightarrow> migration_report_data" where
  "blank_report request analysis =
     (let tr = mr_transformation request in
      \<lparr>mrd_anchor_file = ma_file (mr_anchor request), mrd_anchor_symbol = ma_symbol (mr_anchor request),
       mrd_definition_file = asi_file (ana_definition analysis), mrd_definition_line = asi_start_line (ana_definition analysis) + 1,
       mrd_transformation =
         \<lparr>mtd_kind = migrate_kind_as_str (mti_kind tr), mtd_parameter = mti_parameter tr, mtd_argument = mti_argument tr,
          mtd_resolved_position = (case mti_position tr of None \<Rightarrow> 0 | Some n \<Rightarrow> n), mtd_argument_source = ''hostProvided''\<rparr>,
       mrd_impact =
         \<lparr>mid_definitions = [], mid_definitions_total = 0, mid_implementations = [], mid_implementations_total = 0,
          mid_consumers = [], mid_consumers_total = 0, mid_reexports = [], mid_reexports_total = 0,
          mid_unrelated = [], mid_unrelated_total = 0, mid_packages = [], mid_feature_hints = []\<rparr>,
       mrd_api_diff = \<lparr>mad_before = [], mad_after = [], mad_changed = False, mad_visibility = [], mad_public_api = False\<rparr>,
       mrd_edit_groups = [], mrd_obligations = [], mrd_obligations_total = 0,
       mrd_budget =
         \<lparr>mbd_max_references = 0, mbd_references_total = 0, mbd_max_identity_checks = 0, mbd_identity_checks = 0, mbd_max_edits = 0,
          mbd_edits_planned = 0, mbd_omitted_references = 0, mbd_omitted_edits = 0, mbd_truncated = False\<rparr>,
       mrd_flags =
         \<lparr>mfd_behavior_change = False, mfd_behavior_change_reasons = [], mfd_evaluation_order_risk = False,
          mfd_move_borrow_risk = False, mfd_semantic_equivalence_claim = []\<rparr>,
       mrd_complete = False, mrd_compatibility_scope = ''capturedWorkspaceOnly'', mrd_candidate_revision = 0, mrd_notes = []\<rparr>)"

definition refuse_plan :: "migration_report_data \<Rightarrow> string \<Rightarrow> migration_plan" where
  "refuse_plan report reason =
     \<lparr>mpl_report = report\<lparr>mrd_complete := False\<rparr>, mpl_edits = [], mpl_refused = Some (''MIGRATION_REFUSED'', reason)\<rparr>"

text \<open>The position among the declared parameters, or why there is none.\<close>

definition resolve_position :: "migrate_transformation_input \<Rightarrow> nat \<Rightarrow> string + nat" where
  "resolve_position tr declared =
     (case (mti_kind tr, mti_position tr) of
        (ChangeParameter, None) \<Rightarrow> Inl ''changeParameter requires position''
      | (kind, given_position) \<Rightarrow>
          let pos = (case given_position of None \<Rightarrow> declared | Some n \<Rightarrow> n) in
          if declared < pos \<or> (kind = ChangeParameter \<and> declared \<le> pos)
          then Inl (''position '' @ dec pos @ '' is not valid for '' @ dec declared @ '' declared parameter(s)'')
          else Inr pos)"

text \<open>The signature before and after, and whether it is part of the public interface.\<close>

definition api_diff_of ::
  "plan_env \<Rightarrow> anchor_analysis \<Rightarrow> string \<Rightarrow> parsed_file \<Rightarrow> nat \<Rightarrow> param_list \<Rightarrow> list_edit \<Rightarrow> migration_api_diff_data" where
  "api_diff_of env analysis content f t l e =
     (let offset = (if t < length (psf_tokens f) then tok_start (psf_tokens f ! t) else 0);
          changed = (case apply_edit content e of None \<Rightarrow> [] | Some s \<Rightarrow> s);
          old_sig = (case signature_text content f l 400 of
                      Some s \<Rightarrow> s | None \<Rightarrow> (case ana_signature analysis of Some s \<Rightarrow> s | None \<Rightarrow> []));
          g = tokenize (pev_unicode env) changed;
          new_sig = (case Option.bind (token_at_offset (psf_tokens g) offset)
                     (\<lambda>t. Option.bind (signature_params changed g t) (\<lambda>l. signature_text changed g l 400)) of
                     Some s \<Rightarrow> s | None \<Rightarrow> []);
          visibility = item_visibility content f t
      in \<lparr>mad_before = old_sig, mad_after = new_sig, mad_changed = (old_sig \<noteq> new_sig), mad_visibility = visibility,
          mad_public_api =
            (if visibility = ''public'' then True else if visibility = ''traitItem'' then owner_public content f t else False)\<rparr>)"

definition first_work :: "plan_env \<Rightarrow> anchor_analysis \<Rightarrow> string option \<Rightarrow> list_edit \<Rightarrow> plan_work" where
  "first_work env analysis feature e =
     (let s = ana_definition analysis
      in push_edit ''definition'' s e (push_hint s feature (push_package env s
           \<lparr>plw_edits = [], plw_obligations = [], plw_notes = ana_notes analysis, plw_packages = [], plw_hints = [],
            plw_implementations = [], plw_consumers = [], plw_reexports = [], plw_unrelated = [],
            plw_consumers_total = 0, plw_reexports_total = 0, plw_unrelated_total = 0, plw_omitted = 0, plw_budget_noted = False\<rparr>)))"

definition budget_of :: "migrate_request \<Rightarrow> anchor_analysis \<Rightarrow> nat \<Rightarrow> plan_work \<Rightarrow> migration_budget_data" where
  "budget_of request analysis max_edits w =
     (let omitted = ana_references_total analysis - length (ana_references analysis) in
      \<lparr>mbd_max_references = (case mc_max_references (mr_constraints request) of None \<Rightarrow> MAX_MIGRATION_REFERENCES | Some n \<Rightarrow> n),
       mbd_references_total = ana_references_total analysis,
       mbd_max_identity_checks =
         (case mc_max_identity_checks (mr_constraints request) of None \<Rightarrow> MAX_MIGRATION_IDENTITY_CHECKS | Some n \<Rightarrow> n),
       mbd_identity_checks = ana_identity_checks analysis, mbd_max_edits = max_edits, mbd_edits_planned = length (plw_edits w),
       mbd_omitted_references = omitted, mbd_omitted_edits = plw_omitted w,
       mbd_truncated = (0 < omitted \<or> 0 < plw_omitted w)\<rparr>)"

definition budget_notes :: "migration_budget_data \<Rightarrow> string list" where
  "budget_notes b =
     (if 0 < mbd_omitted_references b
      then [dec (mbd_omitted_references b) @ '' reference(s) were omitted by the reference budget and are not migrated''] else []) @
     (if 0 < mbd_omitted_edits b
      then [dec (mbd_omitted_edits b) @ '' edit(s) were omitted by the edit budget and are not migrated''] else [])"

definition finish_report ::
  "migrate_request \<Rightarrow> anchor_analysis \<Rightarrow> plan_goal \<Rightarrow> migration_api_diff_data \<Rightarrow> string option \<Rightarrow> plan_work \<Rightarrow> migration_report_data" where
  "finish_report request analysis g diff feature w =
     (let report = blank_report request analysis; budget = budget_of request analysis (pgl_max_edits g) w in
      report\<lparr>mrd_transformation := (mrd_transformation report)\<lparr>mtd_resolved_position := pgl_position g\<rparr>,
        mrd_api_diff := diff,
        mrd_impact :=
          \<lparr>mid_definitions = [site_data (ana_definition analysis) ''definition'' (Some (bounded_chars (mad_after diff) 200)) feature],
           mid_definitions_total = 1,
           mid_implementations = take MAX_MIGRATION_SITES (plw_implementations w),
           mid_implementations_total = length (plw_implementations w),
           mid_consumers = take MAX_MIGRATION_SITES (plw_consumers w), mid_consumers_total = plw_consumers_total w,
           mid_reexports = take MAX_MIGRATION_SITES (plw_reexports w), mid_reexports_total = plw_reexports_total w,
           mid_unrelated = take MAX_MIGRATION_SITES (plw_unrelated w), mid_unrelated_total = plw_unrelated_total w,
           mid_packages = remdups_adj (sort (plw_packages w)),
           mid_feature_hints = take 16 (remdups_adj (sort (plw_hints w)))\<rparr>,
        mrd_budget := budget,
        mrd_flags := migration_flags (pgl_transformation g) (pgl_position g) (pgl_declared g),
        mrd_obligations := truncate_obligations (plw_obligations w),
        mrd_obligations_total := length (plw_obligations w),
        mrd_complete := (length (plw_obligations w) = 0 \<and> \<not> mbd_truncated budget),
        mrd_notes := take MAX_MIGRATION_NOTES (plw_notes w @ budget_notes budget),
        mrd_edit_groups := edit_groups (plw_edits w)\<rparr>)"

definition plan_sites :: "plan_env \<Rightarrow> plan_goal \<Rightarrow> anchor_analysis \<Rightarrow> plan_work \<Rightarrow> plan_work" where
  "plan_sites env g analysis w =
     fold (plan_reference env g) (ana_references analysis)
       (fold (plan_implementation env g (ana_definition analysis)) (ana_implementations analysis) w)"

definition plan_migration :: "plan_env \<Rightarrow> migrate_request \<Rightarrow> anchor_analysis \<Rightarrow> nat \<Rightarrow> migration_plan" where
  "plan_migration env request analysis max_edits =
     (let tr = mr_transformation request; report = blank_report request analysis; d = ana_definition analysis in
      case pev_read env (asi_file d) of
        None \<Rightarrow> refuse_plan report (''the anchor definition file '' @ asi_file d @ '' is not readable in the candidate'')
      | Some content \<Rightarrow>
          let f = tokenize (pev_unicode env) content in
          case resolve_signature content f d (ma_symbol (mr_anchor request)) of
            None \<Rightarrow> refuse_plan report ''the anchor does not resolve to a function signature this engine can rewrite''
          | Some (t, l) \<Rightarrow>
              let declared = length (params_explicit l) in
              case resolve_position tr declared of
                Inl reason \<Rightarrow> refuse_plan report reason
              | Inr pos \<Rightarrow>
                  (case signature_edit f l tr pos of
                     None \<Rightarrow>
                       refuse_plan (report\<lparr>mrd_transformation := (mrd_transformation report)\<lparr>mtd_resolved_position := pos\<rparr>\<rparr>)
                         ''the anchor signature could not be rewritten structurally''
                   | Some e \<Rightarrow>
                       let g = \<lparr>pgl_symbol = ma_symbol (mr_anchor request), pgl_transformation = tr, pgl_position = pos,
                                pgl_declared = declared, pgl_max_edits = max_edits\<rparr>;
                           feature = feature_scope content (asi_start_line d);
                           w = plan_sites env g analysis (first_work env analysis feature e)
                       in \<lparr>mpl_report = finish_report request analysis g (api_diff_of env analysis content f t l e) feature w,
                           mpl_edits = plw_edits w, mpl_refused = None\<rparr>))"

end
