(* ===== verification/Migrate_Properties.thy ===== *)
theory Migrate_Properties
  imports Migrate_Plan "HOL-Library.Sublist"
begin

text \<open>
  What a plan guarantees: every planned edit lies between the parentheses of a parameter or argument list of a file
  as it was read, and a plan reported as complete accounts for every reference and implementation of the analysis.
\<close>

section \<open>Edits stay inside lists\<close>

definition edit_of :: "planned_edit \<Rightarrow> list_edit" where
  "edit_of p = \<lparr>led_start = ped_start p, led_end = ped_end p, led_text = ped_text p\<rparr>"

text \<open>The edit lies between a pair of parentheses of its file and applies to it.\<close>

definition edit_in_list :: "plan_env \<Rightarrow> planned_edit \<Rightarrow> bool" where
  "edit_in_list env p \<longleftrightarrow>
     (\<exists>content i close. pev_read env (ped_file p) = Some content \<and>
        (let ts = psf_tokens (tokenize (pev_unicode env) content) in
         pair_of ts i close \<and> is_open_paren (ts ! i) \<and>
         edit_inside content (tok_end (ts ! i)) (tok_start (ts ! close)) (edit_of p)))"

definition texts_ok :: "plan_env \<Rightarrow> bool" where
  "texts_ok env \<longleftrightarrow> (\<forall>path content. pev_read env path = Some content \<longrightarrow> from_utf8_ok content)"

definition edits_ok :: "plan_env \<Rightarrow> plan_work \<Rightarrow> bool" where
  "edits_ok env w \<longleftrightarrow> list_all (edit_in_list env) (plw_edits w)"

lemma push_edits [simp]:
  "plw_edits (push_obligation kind s message w) = plw_edits w" "plw_edits (push_hint s feature w) = plw_edits w"
  "plw_edits (push_package env s w) = plw_edits w" "plw_edits (omit_edit message w) = plw_edits w"
  "plw_edits (count_consumer w) = plw_edits w"
  by (auto simp: push_obligation_def push_hint_def push_package_def omit_edit_def count_consumer_def Let_def split: option.splits)

lemma push_edit_ok:
  assumes "edits_ok env w" "pev_read env (asi_file s) = Some content" "ts = psf_tokens (tokenize (pev_unicode env) content)"
    "pair_of ts i close" "is_open_paren (ts ! i)" "edit_inside content (tok_end (ts ! i)) (tok_start (ts ! close)) e"
  shows "edits_ok env (push_edit grp s e w)"
proof -
  have e: "\<lparr>led_start = led_start e, led_end = led_end e, led_text = led_text e\<rparr> = e" by simp
  have "edit_in_list env \<lparr>ped_file = asi_file s, ped_start = led_start e, ped_end = led_end e, ped_text = led_text e, ped_group = grp,
      ped_line = asi_start_line s + 1\<rparr>"
    unfolding edit_in_list_def
    by (rule exI [of _ content], rule exI [of _ i], rule exI [of _ close]) (use assms(2-6) in \<open>simp add: edit_of_def Let_def e\<close>)
  with assms(1) show ?thesis by (simp add: edits_ok_def push_edit_def)
qed

lemma signature_edit_inside:
  assumes "from_utf8_ok content" "f = tokenize u content" "signature_params content f t = Some l" "signature_edit f l tr pos = Some e"
  shows "pair_of (psf_tokens f) (pml_open l) (pml_close l) \<and> is_open_paren (psf_tokens f ! pml_open l) \<and>
    edit_inside content (tok_end (psf_tokens f ! pml_open l)) (tok_start (psf_tokens f ! pml_close l)) e"
proof -
  have ok: "delimiters_ok f" using tokenize_covers [OF assms(1)] assms(2) by simp
  note p = signature_params_pair [OF ok assms(3)]
  have sp: "spans_in content (tok_end (psf_tokens f ! pml_open l)) (tok_start (psf_tokens f ! pml_close l)) (pml_params l)"
    using split_top_level_spans [OF assms(1)] p assms(2) by blast
  have close: "pml_close l < length (psf_tokens f)" using p by (simp add: pair_of_def)
  then have hi: "tok_start (psf_tokens f ! pml_close l) \<le> length content"
    using cover_nth [OF conjunct1 [OF tokenize_covers [OF assms(1), of u]], of "pml_close l"] assms(2) by simp
  show ?thesis
  proof (cases "mti_kind tr")
    case AddParameter
    with assms(4) have "insert_into_params f (pml_params l) (pml_open l) (pml_close l) (pml_receiver l) pos (mti_parameter tr) = Some e"
      by (simp add: signature_edit_def)
    from insert_inside [OF assms(1,2) close refl sp this] p show ?thesis by simp
  next
    case ChangeParameter
    with assms(4) have "replace_in_params (pml_params l) (pml_receiver l) pos (mti_parameter tr) = Some e"
      by (simp add: signature_edit_def)
    from replace_inside [OF sp hi this] p show ?thesis by simp
  qed
qed

lemma plan_call_inside:
  assumes "from_utf8_ok content" "f = tokenize u content" "call_shape f t = Some (ShapeCall i close)" "plan_call content f g s i close = CallEdit e"
  shows "pair_of (psf_tokens f) i close \<and> is_open_paren (psf_tokens f ! i) \<and>
    edit_inside content (tok_end (psf_tokens f ! i)) (tok_start (psf_tokens f ! close)) e"
proof -
  have ok: "delimiters_ok f" using tokenize_covers [OF assms(1)] assms(2) by simp
  note p = call_shape_pair [OF ok assms(3)]
  then have close: "close < length (psf_tokens f)" by (simp add: pair_of_def)
  then have hi: "tok_start (psf_tokens f ! close) \<le> length content"
    using cover_nth [OF conjunct1 [OF tokenize_covers [OF assms(1), of u]], of close] assms(2) by simp
  from assms(4) obtain args where a: "split_top_level f i close = Some args"
    and e: "insert_into_params f args i close False (pgl_position g) (mti_argument (pgl_transformation g)) = Some e \<or>
      replace_in_params args False (pgl_position g) (mti_argument (pgl_transformation g)) = Some e"
    by (auto simp: plan_call_def skip_unless_def Let_def split: option.splits migrate_transformation_kind.splits if_splits)
  have sp: "spans_in content (tok_end (psf_tokens f ! i)) (tok_start (psf_tokens f ! close)) args"
    using split_top_level_spans [OF assms(1)] p a assms(2) by blast
  from e insert_inside [OF assms(1,2) close refl sp] replace_inside [OF sp hi] p show ?thesis by blast
qed

lemma edits_ok_simps [simp]:
  "edits_ok env (push_obligation kind s message w) = edits_ok env w" "edits_ok env (push_hint s feature w) = edits_ok env w"
  "edits_ok env (push_package e s w) = edits_ok env w" "edits_ok env (omit_edit message w) = edits_ok env w"
  "edits_ok env (count_consumer w) = edits_ok env w" "edits_ok env (w\<lparr>plw_notes := ns\<rparr>) = edits_ok env w"
  "edits_ok env (w\<lparr>plw_implementations := ss\<rparr>) = edits_ok env w" "edits_ok env (w\<lparr>plw_consumers := ss\<rparr>) = edits_ok env w"
  "edits_ok env (w\<lparr>plw_reexports := ss\<rparr>) = edits_ok env w" "edits_ok env (w\<lparr>plw_reexports_total := n\<rparr>) = edits_ok env w"
  "edits_ok env (w\<lparr>plw_unrelated_total := n\<rparr>) = edits_ok env w" "edits_ok env (w\<lparr>plw_unrelated := ss\<rparr>) = edits_ok env w"
  by (simp_all add: edits_ok_def)

lemma resolve_signature_params: "resolve_signature content f s symbol = Some (t, l) \<Longrightarrow> signature_params content f t = Some l"
  by (auto simp: resolve_signature_def split: option.splits)

lemma plan_implementation_ok:
  assumes "texts_ok env" "edits_ok env w"
  shows "edits_ok env (plan_implementation env g d s w)"
proof -
  have "edits_ok env (push_edit grp s e v)"
    if c: "pev_read env (asi_file s) = Some content" and "edits_ok env v"
      and "resolve_signature content (tokenize (pev_unicode env) content) s (pgl_symbol g) = Some (t, l)"
      and "signature_edit (tokenize (pev_unicode env) content) l (pgl_transformation g) (pgl_position g) = Some e" for content t l e v grp
  proof -
    have "from_utf8_ok content" using assms(1) c by (auto simp: texts_ok_def)
    from signature_edit_inside [OF this refl resolve_signature_params [OF that(3)] that(4)] show ?thesis
      using push_edit_ok [OF that(2) c refl] by blast
  qed
  then show ?thesis
    using assms(2) unfolding plan_implementation_def Let_def by (simp split: option.split prod.split)
qed

lemma plan_site_ok:
  assumes "from_utf8_ok content" "edits_ok env w" "pev_read env (asi_file s) = Some content" "f = tokenize (pev_unicode env) content"
  shows "edits_ok env (plan_site env g content f s t feature w)"
proof -
  have "edits_ok env (push_edit grp s e v)"
    if "edits_ok env v" and "call_shape f t = Some (ShapeCall i close)" and "plan_call content f g s i close = CallEdit e" for i close e v grp
    using plan_call_inside [OF assms(1,4) that(2,3)] push_edit_ok [OF that(1) assms(3)] assms(4) by blast
  then show ?thesis
    using assms(2) unfolding plan_site_def Let_def by (simp split: option.split call_form.split call_plan.split)
qed

lemma plan_reference_ok:
  assumes "texts_ok env" "edits_ok env w"
  shows "edits_ok env (plan_reference env g s w)"
proof (cases "pev_read env (asi_file s)")
  case None
  with assms(2) show ?thesis by (simp add: plan_reference_def edits_ok_def)
next
  case (Some content)
  have "from_utf8_ok content" using assms(1) Some by (auto simp: texts_ok_def)
  from plan_site_ok [OF this _ Some refl] assms(2) Some show ?thesis
    unfolding plan_reference_def Let_def by (simp split: option.split bool.split)
qed

lemma plan_sites_ok: "texts_ok env \<Longrightarrow> edits_ok env w \<Longrightarrow> edits_ok env (plan_sites env g analysis w)"
  unfolding plan_sites_def
  by (intro fold_invariant [where P = "edits_ok env" and Q = "\<lambda>_. True"]) (auto intro: plan_reference_ok plan_implementation_ok)

text \<open>
  C25: Every edit of a plan lies between the two parentheses of a parameter or argument list of its file as it was
  read, at character boundaries, so it applies and changes nothing outside that list.
\<close>

theorem planned_edits_stay_in_lists:
  assumes "texts_ok env" and "p \<in> set (mpl_edits (plan_migration env request analysis max_edits))"
  shows "edit_in_list env p"
proof -
  let ?d = "ana_definition analysis"
  from assms(2) obtain content t l pos e g feature where c: "pev_read env (asi_file ?d) = Some content"
    and r: "resolve_signature content (tokenize (pev_unicode env) content) ?d (ma_symbol (mr_anchor request)) = Some (t, l)"
    and e: "signature_edit (tokenize (pev_unicode env) content) l (mr_transformation request) pos = Some e"
    and p: "p \<in> set (plw_edits (plan_sites env g analysis (first_work env analysis feature e)))"
    unfolding plan_migration_def Let_def
    by (auto simp: refuse_plan_def split: option.splits prod.splits sum.splits)
  have "from_utf8_ok content" using assms(1) c by (auto simp: texts_ok_def)
  from signature_edit_inside [OF this refl resolve_signature_params [OF r] e]
  have "edits_ok env (first_work env analysis feature e)"
    unfolding first_work_def Let_def by (intro push_edit_ok [OF _ c refl]) (auto simp: edits_ok_def)
  from plan_sites_ok [OF assms(1) this] p show ?thesis by (auto simp: edits_ok_def list_all_iff)
qed

section \<open>A complete plan settles every site\<close>

definition consumer_edit :: "string \<Rightarrow> analyzed_site \<Rightarrow> list_edit \<Rightarrow> planned_edit" where
  "consumer_edit grp s e =
     \<lparr>ped_file = asi_file s, ped_start = led_start e, ped_end = led_end e, ped_text = led_text e, ped_group = grp,
      ped_line = asi_start_line s + 1\<rparr>"

text \<open>A call is settled by a planned edit or because it passes the argument already.\<close>

definition call_settled :: "plan_goal \<Rightarrow> planned_edit list \<Rightarrow> string \<Rightarrow> parsed_file \<Rightarrow> analyzed_site \<Rightarrow> nat \<Rightarrow> nat \<Rightarrow> bool" where
  "call_settled g edits content f s i close \<longleftrightarrow>
     (\<exists>e. plan_call content f g s i close = CallEdit e \<and> consumer_edit ''consumer'' s e \<in> set edits) \<or>
     (\<exists>args. split_top_level f i close = Some args \<and> argument_matches content g args)"

text \<open>A reference is settled when it means something else, only imports the name, or is a settled call.\<close>

definition reference_settled :: "plan_env \<Rightarrow> plan_goal \<Rightarrow> planned_edit list \<Rightarrow> analyzed_site \<Rightarrow> bool" where
  "reference_settled env g edits s \<longleftrightarrow>
     (\<exists>content. pev_read env (asi_file s) = Some content \<and>
       (let f = tokenize (pev_unicode env) content in
        asi_identity s = Some False \<or>
        asi_identity s = Some True \<and>
          (\<exists>t. find_site_token content f s (pgl_symbol g) = Some t \<and>
             (Option.bind (start_offset content s) (use_context content f) \<noteq> None \<or>
              (\<not> inside_macro (psf_tokens f) (tok_start (psf_tokens f ! t)) \<and>
               (\<exists>i close. call_shape f t = Some (ShapeCall i close) \<and> call_settled g edits content f s i close))))))"

definition implementation_settled :: "plan_env \<Rightarrow> plan_goal \<Rightarrow> analyzed_site \<Rightarrow> planned_edit list \<Rightarrow> analyzed_site \<Rightarrow> bool" where
  "implementation_settled env g d edits s \<longleftrightarrow>
     asi_file s = asi_file d \<and> asi_start_line s = asi_start_line d \<or>
     (\<exists>content t l e. pev_read env (asi_file s) = Some content \<and>
        resolve_signature content (tokenize (pev_unicode env) content) s (pgl_symbol g) = Some (t, l) \<and>
        length (params_explicit l) = pgl_declared g \<and>
        signature_edit (tokenize (pev_unicode env) content) l (pgl_transformation g) (pgl_position g) = Some e \<and>
        consumer_edit ''implementation'' s e \<in> set edits)"

text \<open>Nothing is taken back: edits and obligations only grow.\<close>

definition plan_grows :: "plan_work \<Rightarrow> plan_work \<Rightarrow> bool" where
  "plan_grows w w' \<longleftrightarrow> set (plw_edits w) \<subseteq> set (plw_edits w') \<and> prefix (plw_obligations w) (plw_obligations w') \<and>
     (0 < plw_omitted w \<longrightarrow> 0 < plw_omitted w')"

definition quiet :: "plan_work \<Rightarrow> bool" where
  "quiet w \<longleftrightarrow> plw_obligations w = [] \<and> plw_omitted w = 0"

lemma grows_refl [simp]: "plan_grows w w"
  by (simp add: plan_grows_def)

lemma grows_trans: "plan_grows w v \<Longrightarrow> plan_grows v x \<Longrightarrow> plan_grows w x"
  by (auto simp: plan_grows_def intro: prefix_order.trans)

lemma grows_quiet: "plan_grows w w' \<Longrightarrow> quiet w' \<Longrightarrow> quiet w"
  by (auto simp: plan_grows_def quiet_def)

lemma not_quiet_obligation [simp]: "\<not> quiet (push_obligation kind s message w)"
  by (simp add: quiet_def push_obligation_def)

lemma not_quiet_omit [simp]: "\<not> quiet (omit_edit message w)"
  by (simp add: quiet_def omit_edit_def Let_def sat_add_def u64_max_def)

lemma push_obligations [simp]:
  "plw_obligations (push_hint s feature w) = plw_obligations w" "plw_obligations (push_package env s w) = plw_obligations w"
  "plw_obligations (push_edit grp s e w) = plw_obligations w" "plw_obligations (count_consumer w) = plw_obligations w"
  "plw_omitted (push_hint s feature w) = plw_omitted w" "plw_omitted (push_package env s w) = plw_omitted w"
  "plw_omitted (push_edit grp s e w) = plw_omitted w" "plw_omitted (count_consumer w) = plw_omitted w"
  "plw_omitted (push_obligation kind s message w) = plw_omitted w"
  by (auto simp: push_hint_def push_package_def push_edit_def count_consumer_def push_obligation_def split: option.splits)

lemma grows_push:
  "plan_grows w (push_obligation kind s message w)" "plan_grows w (omit_edit message w)"
  by (auto simp: plan_grows_def push_obligation_def omit_edit_def Let_def sat_add_def u64_max_def)

lemma edits_of_push_edit [simp]: "plw_edits (push_edit grp s e w) = plw_edits w @ [consumer_edit grp s e]"
  by (simp add: push_edit_def consumer_edit_def)

lemma grows_parts:
  "set (plw_edits v) \<subseteq> set (plw_edits w') \<Longrightarrow> plw_edits w = plw_edits v \<Longrightarrow> plw_obligations w = plw_obligations w' \<Longrightarrow>
     plw_omitted w = plw_omitted w' \<Longrightarrow> plan_grows w w'"
  by (simp add: plan_grows_def)

lemma grows_on:
  assumes "plw_edits v = plw_edits w" "plw_obligations v = plw_obligations w" "plw_omitted v = plw_omitted w" "plan_grows v w'"
  shows "plan_grows w w'"
  using assms by (simp add: plan_grows_def)

lemma plan_implementation_grows: "plan_grows w (plan_implementation env g d s w)"
proof -
  have p: "plan_grows w (push_obligation kind s message (push_package env s w))" for kind message
    by (rule grows_on [OF _ _ _ grows_push(1)]) simp_all
  show ?thesis
    unfolding plan_implementation_def Let_def
    by (simp add: p grows_push split: option.split prod.split) (auto simp: plan_grows_def)
qed

lemma plan_site_grows: "plan_grows w (plan_site env g content f s t feature w)"
proof -
  have p: "plan_grows w (push_obligation kind s message (count_consumer w))" "plan_grows w (omit_edit message (count_consumer w))" for kind message
    by (rule grows_on [OF _ _ _ grows_push(1)] grows_on [OF _ _ _ grows_push(2)]; simp)+
  show ?thesis
    unfolding plan_site_def Let_def
    by (simp add: p split: option.split call_form.split call_plan.split) (auto simp: plan_grows_def)
qed

lemma plan_reference_grows: "plan_grows w (plan_reference env g s w)"
proof -
  have p: "plan_grows w (push_obligation kind s message (count_consumer w))"
    "plan_grows w (push_obligation kind s message (count_consumer (push_hint s feature w)))"
    "plan_grows w (plan_site env g content f s t feature' (push_hint s feature w))" for kind message feature content f t feature'
    by (rule grows_on [OF _ _ _ grows_push(1)] grows_on [OF _ _ _ plan_site_grows]; simp)+
  show ?thesis
    unfolding plan_reference_def Let_def
    by (simp add: p split: option.split bool.split) (simp add: plan_grows_def)
qed

lemma insert_possible:
  assumes "n \<le> length args" "close < length (psf_tokens f)"
  shows "insert_into_params f args i close False n new_text \<noteq> None"
  using assms by (auto simp: insert_into_params_def Let_def split: option.split)

text \<open>The resolved position is one of the list.\<close>

definition goal_ok :: "plan_goal \<Rightarrow> bool" where
  "goal_ok g \<longleftrightarrow> pgl_position g \<le> pgl_declared g \<and> (mti_kind (pgl_transformation g) = ChangeParameter \<longrightarrow> pgl_position g < pgl_declared g)"

lemma plan_call_skip:
  assumes "goal_ok g" "close < length (psf_tokens f)" "plan_call content f g s i close = CallSkip remark"
  shows "\<exists>args. split_top_level f i close = Some args \<and> argument_matches content g args"
proof (cases "split_top_level f i close")
  case None
  with assms(3) show ?thesis by (simp add: plan_call_def)
next
  case (Some args)
  have "argument_matches content g args"
  proof (cases "mti_kind (pgl_transformation g)")
    case AddParameter
    with assms Some insert_possible [of "pgl_position g" args close f i "mti_argument (pgl_transformation g)"] show ?thesis
      by (auto simp: plan_call_def skip_unless_def goal_ok_def Let_def split: if_splits option.splits)
  next
    case ChangeParameter
    with assms Some show ?thesis
      by (auto simp: plan_call_def skip_unless_def goal_ok_def Let_def replace_in_params_def get_nth_def split: if_splits prod.splits)
  qed
  with Some show ?thesis by blast
qed

lemma plan_site_settled:
  assumes "from_utf8_ok content" "goal_ok g" "f = tokenize u content" "quiet (plan_site env g content f s t feature w)"
  shows "\<not> inside_macro (psf_tokens f) (tok_start (psf_tokens f ! t)) \<and>
    (\<exists>i close. call_shape f t = Some (ShapeCall i close) \<and>
       call_settled g (plw_edits (plan_site env g content f s t feature w)) content f s i close)"
proof -
  have m: "\<not> inside_macro (psf_tokens f) (tok_start (psf_tokens f ! t))"
    using assms(4) by (auto simp: plan_site_def Let_def)
  obtain i close where sh: "call_shape f t = Some (ShapeCall i close)"
    using assms(4) m by (auto simp: plan_site_def Let_def split: option.splits call_form.splits)
  have room: "\<not> pgl_max_edits g \<le> length (plw_edits w)" using assms(4) m sh by (auto simp: plan_site_def Let_def)
  have "close < length (psf_tokens f)"
    using call_shape_pair [OF _ sh] tokenize_covers [OF assms(1), of u] assms(3) by (simp add: pair_of_def)
  note skip = plan_call_skip [OF assms(2) this, of content s i]
  have "call_settled g (plw_edits (plan_site env g content f s t feature w)) content f s i close"
  proof (cases "plan_call content f g s i close")
    case (CallObligation kind message)
    with assms(4) m sh room show ?thesis by (simp add: plan_site_def Let_def)
  next
    case (CallSkip remark)
    from skip [OF this] show ?thesis by (simp add: call_settled_def)
  next
    case (CallEdit e)
    with m sh room show ?thesis by (simp add: call_settled_def plan_site_def Let_def)
  qed
  with m sh show ?thesis by blast
qed

lemma plan_reference_settled:
  assumes "texts_ok env" "goal_ok g" "quiet (plan_reference env g s w)"
  shows "reference_settled env g (plw_edits (plan_reference env g s w)) s"
proof (cases "pev_read env (asi_file s)")
  case None
  with assms(3) show ?thesis by (simp add: plan_reference_def)
next
  case (Some content)
  have utf8: "from_utf8_ok content" using assms(1) Some by (auto simp: texts_ok_def)
  let ?f = "tokenize (pev_unicode env) content" and ?feature = "feature_scope content (asi_start_line s)"
  show ?thesis
  proof (cases "asi_identity s")
    case None
    with assms(3) Some show ?thesis by (simp add: plan_reference_def Let_def)
  next
    case identity: (Some same)
    show ?thesis
    proof (cases same)
      case False
      with identity Some show ?thesis by (simp add: reference_settled_def Let_def)
    next
      case True
      obtain t where t: "find_site_token content ?f s (pgl_symbol g) = Some t"
        using assms(3) Some identity True by (auto simp: plan_reference_def Let_def split: option.splits)
      show ?thesis
      proof (cases "Option.bind (start_offset content s) (use_context content ?f)")
        case None
        then have r: "plan_reference env g s w = plan_site env g content ?f s t ?feature (push_hint s ?feature w)"
          using Some identity True t by (simp add: plan_reference_def Let_def)
        from plan_site_settled [OF utf8 assms(2) refl assms(3) [unfolded r]] show ?thesis
          unfolding r reference_settled_def Let_def by (intro exI [of _ content]) (simp add: Some identity True t)
      next
        case (Some public)
        with \<open>pev_read env (asi_file s) = Some content\<close> identity True t show ?thesis
          unfolding reference_settled_def Let_def by (intro exI [of _ content]) simp
      qed
    qed
  qed
qed

lemma plan_implementation_settled:
  assumes "quiet (plan_implementation env g d s w)"
  shows "implementation_settled env g d (plw_edits (plan_implementation env g d s w)) s"
proof (cases "asi_file s = asi_file d \<and> asi_start_line s = asi_start_line d")
  case True
  then show ?thesis by (simp add: implementation_settled_def)
next
  case False
  then have room: "\<not> pgl_max_edits g \<le> length (plw_edits w)" using assms by (auto simp: plan_implementation_def)
  obtain content where c: "pev_read env (asi_file s) = Some content"
    using assms False room by (cases "pev_read env (asi_file s)") (auto simp: plan_implementation_def)
  let ?f = "tokenize (pev_unicode env) content"
  obtain t l where r: "resolve_signature content ?f s (pgl_symbol g) = Some (t, l)"
    using assms False room c by (cases "resolve_signature content ?f s (pgl_symbol g)") (auto simp: plan_implementation_def Let_def)
  have n: "length (params_explicit l) = pgl_declared g"
    using assms False room c r by (auto simp: plan_implementation_def Let_def split: if_splits)
  obtain e where e: "signature_edit ?f l (pgl_transformation g) (pgl_position g) = Some e"
    using assms False room c r n by (cases "signature_edit ?f l (pgl_transformation g) (pgl_position g)") (auto simp: plan_implementation_def Let_def)
  have "consumer_edit ''implementation'' s e \<in> set (plw_edits (plan_implementation env g d s w))"
    using False room c r n e by (auto simp: plan_implementation_def Let_def)
  with c r n e show ?thesis unfolding implementation_settled_def by blast
qed

lemma settled_mono:
  assumes "set edits \<subseteq> set edits'"
  shows "reference_settled env g edits s \<Longrightarrow> reference_settled env g edits' s"
    and "implementation_settled env g d edits s \<Longrightarrow> implementation_settled env g d edits' s"
  using assms unfolding reference_settled_def implementation_settled_def call_settled_def Let_def by blast+

lemma fold_grows: "(\<And>x w. plan_grows w (f x w)) \<Longrightarrow> plan_grows w (fold f xs w)"
  by (induction xs arbitrary: w) (auto intro: grows_trans)

lemma fold_settles:
  assumes g: "\<And>x w. plan_grows w (f x w)" and s: "\<And>x w. quiet (f x w) \<Longrightarrow> P (plw_edits (f x w)) x"
    and m: "\<And>es es' x. set es \<subseteq> set es' \<Longrightarrow> P es x \<Longrightarrow> P es' x"
  shows "quiet (fold f xs w) \<Longrightarrow> x \<in> set xs \<Longrightarrow> P (plw_edits (fold f xs w)) x"
proof (induction xs arbitrary: w)
  case (Cons y xs)
  have gr: "plan_grows (f y w) (fold f xs (f y w))" by (rule fold_grows [OF g])
  show ?case
  proof (cases "x = y")
    case True
    have "quiet (f y w)" using grows_quiet [OF gr] Cons.prems(1) by simp
    from m [OF _ s [OF this]] gr True show ?thesis by (simp add: plan_grows_def)
  next
    case False
    with Cons show ?thesis by simp
  qed
qed simp

text \<open>What a plan aims at: the signature of the definition resolves, the position is valid for it, and it is edited.\<close>

definition anchor_settled :: "plan_env \<Rightarrow> migrate_request \<Rightarrow> analyzed_site \<Rightarrow> plan_goal \<Rightarrow> planned_edit list \<Rightarrow> bool" where
  "anchor_settled env request d g edits \<longleftrightarrow>
     pgl_symbol g = ma_symbol (mr_anchor request) \<and> pgl_transformation g = mr_transformation request \<and>
     (\<exists>content t l e. pev_read env (asi_file d) = Some content \<and>
        resolve_signature content (tokenize (pev_unicode env) content) d (pgl_symbol g) = Some (t, l) \<and>
        pgl_declared g = length (params_explicit l) \<and> resolve_position (pgl_transformation g) (pgl_declared g) = Inr (pgl_position g) \<and>
        signature_edit (tokenize (pev_unicode env) content) l (pgl_transformation g) (pgl_position g) = Some e \<and>
        consumer_edit ''definition'' d e \<in> set edits)"

lemma first_work_edits: "plw_edits (first_work env analysis feature e) = [consumer_edit ''definition'' (ana_definition analysis) e]"
  by (simp add: first_work_def push_edit_def consumer_edit_def Let_def)

lemma plan_sites_grow: "plan_grows w (plan_sites env g analysis w)"
  unfolding plan_sites_def
  by (rule grows_trans [OF fold_grows [OF plan_implementation_grows] fold_grows [OF plan_reference_grows]])

lemma complete_plan_shape:
  assumes "mrd_complete (mpl_report (plan_migration env request analysis max_edits))"
  obtains g diff feature w0 where "anchor_settled env request (ana_definition analysis) g (plw_edits w0)"
    "plan_migration env request analysis max_edits =
       \<lparr>mpl_report = finish_report request analysis g diff feature (plan_sites env g analysis w0),
        mpl_edits = plw_edits (plan_sites env g analysis w0), mpl_refused = None\<rparr>"
proof -
  let ?d = "ana_definition analysis" and ?tr = "mr_transformation request" and ?sym = "ma_symbol (mr_anchor request)"
  from assms obtain content t l pos e where c: "pev_read env (asi_file ?d) = Some content"
    and r: "resolve_signature content (tokenize (pev_unicode env) content) ?d ?sym = Some (t, l)"
    and p: "resolve_position ?tr (length (params_explicit l)) = Inr pos"
    and e: "signature_edit (tokenize (pev_unicode env) content) l ?tr pos = Some e"
    unfolding plan_migration_def Let_def
    by (auto simp: refuse_plan_def split: option.splits prod.splits sum.splits)
  define g where "g = \<lparr>pgl_symbol = ?sym, pgl_transformation = ?tr, pgl_position = pos,
      pgl_declared = length (params_explicit l), pgl_max_edits = max_edits\<rparr>"
  let ?w = "first_work env analysis (feature_scope content (asi_start_line ?d)) e"
  have "anchor_settled env request ?d g (plw_edits ?w)" using c r p e by (simp add: anchor_settled_def first_work_edits g_def)
  with that show thesis
    by (auto simp: plan_migration_def Let_def c r p e g_def)
qed

lemma anchor_goal_ok: "anchor_settled env request d g edits \<Longrightarrow> goal_ok g"
  by (auto simp: anchor_settled_def goal_ok_def resolve_position_def Let_def
      split: migrate_transformation_kind.splits option.splits if_splits)

text \<open>
  C24: A plan reported as complete was not refused, edits the signature of the definition at a valid position, saw every
  reference the analysis counted, and leaves no site of the analysis unsettled: each implementation is edited, and
  each reference is edited, already passes the argument, only imports the name or was found to mean another
  definition.
\<close>

theorem complete_plan_settles_every_site:
  assumes "texts_ok env" and "plan_migration env request analysis max_edits = plan" and "mrd_complete (mpl_report plan)"
  shows "mpl_refused plan = None \<and> ana_references_total analysis \<le> length (ana_references analysis) \<and>
    (\<exists>g. anchor_settled env request (ana_definition analysis) g (mpl_edits plan) \<and>
       list_all (reference_settled env g (mpl_edits plan)) (ana_references analysis) \<and>
       list_all (implementation_settled env g (ana_definition analysis) (mpl_edits plan)) (ana_implementations analysis))"
proof -
  let ?d = "ana_definition analysis"
  obtain g diff feature w0 where anchor: "anchor_settled env request ?d g (plw_edits w0)"
    and plan: "plan = \<lparr>mpl_report = finish_report request analysis g diff feature (plan_sites env g analysis w0),
        mpl_edits = plw_edits (plan_sites env g analysis w0), mpl_refused = None\<rparr>"
    using complete_plan_shape [of env request analysis max_edits] assms(2,3) by metis
  define w1 where "w1 = fold (plan_implementation env g ?d) (ana_implementations analysis) w0"
  define w where "w = fold (plan_reference env g) (ana_references analysis) w1"
  have sites: "plan_sites env g analysis w0 = w" by (simp add: plan_sites_def w_def w1_def)
  have q: "quiet w" and refs: "ana_references_total analysis \<le> length (ana_references analysis)"
    using assms(3) unfolding plan sites by (simp_all add: finish_report_def budget_of_def Let_def quiet_def)
  have g1: "plan_grows w1 w" unfolding w_def by (rule fold_grows) (rule plan_reference_grows)
  have "reference_settled env g (plw_edits w) s" if "s \<in> set (ana_references analysis)" for s
    unfolding w_def
    by (rule fold_settles [where P = "reference_settled env g", OF plan_reference_grows
        plan_reference_settled [OF assms(1) anchor_goal_ok [OF anchor]] settled_mono(1) q [unfolded w_def] that])
  moreover have "implementation_settled env g ?d (plw_edits w) s" if "s \<in> set (ana_implementations analysis)" for s
  proof (rule settled_mono(2))
    show "set (plw_edits w1) \<subseteq> set (plw_edits w)" using g1 by (simp add: plan_grows_def)
    show "implementation_settled env g ?d (plw_edits w1) s"
      unfolding w1_def
      by (rule fold_settles [where P = "implementation_settled env g ?d", OF plan_implementation_grows
          plan_implementation_settled settled_mono(2) grows_quiet [OF g1 q, unfolded w1_def] that])
  qed
  moreover have "anchor_settled env request ?d g (plw_edits w)"
    using anchor plan_sites_grow [of w0 env g analysis] unfolding sites anchor_settled_def plan_grows_def by blast
  ultimately show ?thesis using refs unfolding plan sites by (auto simp: list_all_iff)
qed

end
