(* ===== verification/Compose_Properties.thy ===== *)
theory Compose_Properties
  imports Migrate_Compose Migrate_Properties
begin

text \<open>
  Windows of composed patches: whole lines that occur once in the file, disjoint after every round of merging, and
  holding exactly the edits of the file.
\<close>

section \<open>Unique windows of whole lines\<close>

definition unique_at :: "string \<Rightarrow> nat \<Rightarrow> nat \<Rightarrow> bool" where
  "unique_at content a b \<longleftrightarrow> a < b \<and> b \<le> length content \<and> (\<forall>p. occurs_at content (byte_slice content a b) p \<longrightarrow> p = a)"

definition line_window :: "string \<Rightarrow> nat \<Rightarrow> nat \<Rightarrow> bool" where
  "line_window content a b \<longleftrightarrow>
     a \<in> set (line_starts content) \<and> (b \<in> set (line_starts content) \<or> b = length content) \<and> unique_at content a b"

lemma occurs_slice:
  "a \<le> b \<Longrightarrow> b \<le> length s \<Longrightarrow> occurs_at s (byte_slice s a b) p \<longleftrightarrow> p + (b - a) \<le> length s \<and> (\<forall>k < b - a. s ! (p + k) = s ! (a + k))"
proof -
  assume ab: "a \<le> b" "b \<le> length s"
  have len: "length (byte_slice s a b) = b - a" by (rule slice_occurs(2) [OF ab])
  have nth: "byte_slice s a b ! k = s ! (a + k)" if "k < b - a" for k
    using that ab by (simp add: byte_slice_def)
  show ?thesis
  proof
    assume o: "occurs_at s (byte_slice s a b) p"
    have bound: "p + (b - a) \<le> length s" using occurs_at_bound [OF o] len by simp
    have eq: "take (b - a) (drop p s) = byte_slice s a b" using occurs_at_take [OF o] len by simp
    have "s ! (p + k) = s ! (a + k)" if "k < b - a" for k
      using arg_cong [OF eq, of "\<lambda>x. x ! k"] that bound nth by simp
    with bound show "p + (b - a) \<le> length s \<and> (\<forall>k < b - a. s ! (p + k) = s ! (a + k))" by blast
  next
    assume h: "p + (b - a) \<le> length s \<and> (\<forall>k < b - a. s ! (p + k) = s ! (a + k))"
    then have "take (b - a) (drop p s) = byte_slice s a b"
      using nth len by (intro nth_equalityI) auto
    then have "drop p s = byte_slice s a b @ drop (b - a) (drop p s)" by (metis append_take_drop_id)
    with h show "occurs_at s (byte_slice s a b) p" by (auto simp: occurs_at_def starts_with_iff)
  qed
qed

lemma unique_wider:
  assumes "unique_at s a b" "a' \<le> a" "b \<le> b'" "b' \<le> length s"
  shows "unique_at s a' b'"
proof -
  have "p = a'" if "occurs_at s (byte_slice s a' b') p" for p
  proof -
    from that have h: "p + (b' - a') \<le> length s" "\<And>k. k < b' - a' \<Longrightarrow> s ! (p + k) = s ! (a' + k)"
      using occurs_slice [of a' b' s p] assms by (auto simp: unique_at_def)
    have "occurs_at s (byte_slice s a b) (p + (a - a'))"
      unfolding occurs_slice [OF less_imp_le [OF conjunct1 [OF assms(1) [unfolded unique_at_def]]] order_trans [OF assms(3,4)]]
      using h(1) h(2) [of "a - a' + _"] assms(2,3) assms(1) by (auto simp: unique_at_def add.assoc)
    with assms(1) have "p + (a - a') = a" by (simp add: unique_at_def)
    with assms(2) show ?thesis by simp
  qed
  with assms show ?thesis by (auto simp: unique_at_def)
qed

lemma counted_unique:
  assumes "unique_at s a b"
  shows "count_occurrences s (byte_slice s a b) = 1"
proof -
  let ?n = "byte_slice s a b"
  have ab: "a \<le> b" "b \<le> length s" using assms by (auto simp: unique_at_def)
  have o: "occurs_at s ?n a" by (rule slice_occurs(1) [OF ab])
  have ne: "?n \<noteq> []" using slice_occurs(2) [OF ab] assms by (auto simp: unique_at_def)
  obtain f where f: "str_find s ?n = Some f" using str_find_None [of s ?n a] o by (cases "str_find s ?n") auto
  have fa: "f = a" using str_find_occurs [OF f] assms by (simp add: unique_at_def)
  have later: "str_find (drop k s) ?n = None" if "a < k" "k < length s" for k
  proof (cases "str_find (drop k s) ?n")
    case (Some j)
    from str_find_occurs [OF this] that have "occurs_at s ?n (k + j)" by (auto simp: occurs_at_def add.commute)
    with assms that show ?thesis by (auto simp: unique_at_def)
  qed simp
  obtain c r where d: "drop a s = c # r" using assms by (cases "drop a s") (auto simp: unique_at_def)
  let ?k = "a + Suc (length (takeWhile is_cont r))"
  have "occurrences_from s ?n ?k 1 = 1" if "?k < length s"
    by (subst occurrences_from.simps) (use later [of ?k] that in simp)
  then show ?thesis
    unfolding count_occurrences_def by (subst occurrences_from.simps) (auto simp: ne f fa d Let_def)
qed

lemma line_start_lead:
  assumes "from_utf8_ok s" "a \<in> set (line_starts s)" "a < length s"
  shows "\<not> is_cont (s ! a)"
proof (cases "a = 0")
  case True
  with assms(1,3) show ?thesis by (cases s) (auto split: option.splits dest: utf8_bounds_lead)
next
  case False
  with assms(2) have "s ! (a - 1) = CHR 0x0A" by (auto simp: line_starts_def)
  then show ?thesis using utf8_after_ascii [OF assms(1), of "a - 1"] assms(3) False by simp
qed

lemma line_at_start:
  assumes "a \<in> set (line_starts s)"
  shows "line_starts s ! line_at_offset (line_starts s) a = a"
proof -
  let ?st = "line_starts s"
  note b = line_at_offset_bounds [OF line_starts_sorted line_starts_nonempty, of s a]
  from assms obtain i where i: "i < length ?st" "?st ! i = a" by (auto simp: in_set_conv_nth)
  have "\<not> i < line_at_offset ?st a"
  proof
    assume "i < line_at_offset ?st a"
    from sorted_wrt_nth_less [OF line_starts_sorted this b(1)] b(2) i show False by simp
  qed
  moreover have "\<not> line_at_offset ?st a < i"
  proof
    assume lt: "line_at_offset ?st a < i"
    then have "a < ?st ! Suc (line_at_offset ?st a)" using b(3) i by simp
    moreover have "?st ! Suc (line_at_offset ?st a) \<le> ?st ! i"
      using lt i(1) sorted_wrt_nth_less [OF line_starts_sorted, of "Suc (line_at_offset ?st a)" i s] by (cases "Suc (line_at_offset ?st a) = i") auto
    ultimately show False using i by simp
  qed
  ultimately show ?thesis using i by simp
qed

text \<open>The context of an edit is a unique window of whole lines around it.\<close>

lemma context_window:
  assumes "from_utf8_ok s" "edit_context s a b = Some (cs, ce)" "a \<le> b" "b \<le> length s"
  shows "line_window s cs ce"
proof -
  note c = edit_context_Some [OF assms(2-4)]
  have w: "widen_edit_context s starts x y radii = Some (cs, ce) \<Longrightarrow> \<exists>radius. context_bounds s starts x y radius = (cs, ce)" for starts x y radii
    by (induction s starts x y radii rule: widen_edit_context.induct) (auto simp: Let_def split: prod.splits if_splits)
  let ?st = "line_starts s"
  obtain radius where "context_bounds s ?st (line_at_offset ?st a) (line_at_offset ?st b) radius = (cs, ce)"
    using w [OF assms(2) [unfolded edit_context_def Let_def]] by blast
  moreover have "line_at_offset ?st a < length ?st" by (rule line_at_offset_bounds(1) [OF line_starts_sorted line_starts_nonempty])
  ultimately have al: "cs \<in> set ?st" "ce \<in> set ?st \<or> ce = length s"
    by (auto simp: context_bounds_def Let_def split: if_splits)
  have "\<not> is_cont (s ! cs)" using c al(1) by (intro line_start_lead [OF assms(1)]) auto
  then have hd: "\<not> is_cont (hd (byte_slice s cs ce))"
    using c by (simp add: byte_slice_def hd_drop_conv_nth)
  have "str_find s (byte_slice s cs ce) = Some p" if "occurs_at s (byte_slice s cs ce) p" for p
    by (rule counted_once [OF c(5) hd that])
  moreover have "occurs_at s (byte_slice s cs ce) cs" by (rule slice_occurs(1)) (use c in auto)
  ultimately have "p = cs" if "occurs_at s (byte_slice s cs ce) p" for p using that by (metis option.inject)
  with c al show ?thesis by (simp add: line_window_def unique_at_def)
qed

text \<open>Widening a unique window takes in one line behind it at most.\<close>

lemma expand_window:
  assumes "line_window s a b" "edit_context s a b = Some (a', b')"
  shows "a' = a \<and> b \<le> b' \<and> (\<forall>k \<in> set (line_starts s). b < k \<longrightarrow> b' \<le> k) \<and> line_window s a' b'"
proof -
  let ?st = "line_starts s" and ?m = "line_at_offset (line_starts s) b"
  define e where "e = (if ?m + 1 < length ?st then ?st ! (?m + 1) else length s)"
  have ab: "a < b" "b \<le> length s" "a \<in> set ?st" and u: "unique_at s a b" using assms(1) by (auto simp: line_window_def unique_at_def)
  note bounds = line_at_offset_bounds [OF line_starts_sorted line_starts_nonempty, of s b]
  have cb: "context_bounds s ?st (line_at_offset ?st a) ?m 0 = (a, e)"
    using bounds(1) line_at_start [OF ab(3)] by (simp add: context_bounds_def Let_def e_def)
  have le: "b \<le> e" "e \<le> length s" by (rule context_bounds_cover(2,3) [OF cb ab(2)])+
  have uw: "unique_at s a e" by (rule unique_wider [OF u order_refl le])
  have ne: "byte_slice s a e \<noteq> []"
  proof
    assume "byte_slice s a e = []"
    with slice_occurs(2) [of a e s] uw show False by (simp add: unique_at_def)
  qed
  have "edit_context s a b = (if MAX_CONTEXT_CHARS < chars_count (byte_slice s a e) then None else Some (a, e))"
    unfolding edit_context_def Let_def upt_conv_Cons [OF zero_less_Suc]
    by (simp add: cb counted_unique [OF uw] ne Let_def del: upt_Suc)
  with assms(2) have r: "a' = a" "b' = e" by (auto split: if_splits)
  have "e \<le> k" if k: "k \<in> set ?st" "b < k" for k
  proof -
    obtain i where i: "i < length ?st" "?st ! i = k" using k by (auto simp: in_set_conv_nth)
    have "?m < i"
    proof (rule ccontr)
      assume "\<not> ?m < i"
      then have "?st ! i \<le> ?st ! ?m" using sorted_wrt_nth_less [OF line_starts_sorted, of i ?m s] bounds(1) by (cases "i = ?m") auto
      with bounds(2) i k show False by simp
    qed
    then show ?thesis
      using i sorted_wrt_nth_less [OF line_starts_sorted, of "?m + 1" i s] unfolding e_def by (cases "?m + 1 = i") auto
  qed
  moreover have "e \<in> set ?st \<or> e = length s" unfolding e_def by simp
  ultimately show ?thesis using le uw ab(3) unfolding r line_window_def by blast
qed

section \<open>Clusters\<close>

definition cluster_ok :: "string \<Rightarrow> cluster \<Rightarrow> bool" where
  "cluster_ok s c \<longleftrightarrow>
     line_window s (clu_start c) (clu_end c) \<and>
     (\<forall>e \<in> set (clu_edits c). clu_start c \<le> ped_start e \<and> ped_end e \<le> clu_end c \<and> edit_valid s e)"

definition all_edits :: "cluster list \<Rightarrow> planned_edit multiset" where
  "all_edits cs = mset (concat (map clu_edits cs))"

lemma all_edits_simps [simp]:
  "all_edits [] = {#}" "all_edits (c # cs) = mset (clu_edits c) + all_edits cs" "all_edits (cs @ ds) = all_edits cs + all_edits ds"
  "all_edits (rev cs) = all_edits cs"
  by (induction cs) (simp_all add: all_edits_def)

lemma all_edits_mset: "mset cs = mset ds \<Longrightarrow> all_edits cs = all_edits ds"
proof -
  have "all_edits cs = sum_mset (image_mset (\<lambda>c. mset (clu_edits c)) (mset cs))" for cs
    by (induction cs) simp_all
  then show "mset cs = mset ds \<Longrightarrow> all_edits cs = all_edits ds" by simp
qed

lemma gather_ok:
  assumes "from_utf8_ok s"
  shows "gather path s es previous = (cs, os) \<Longrightarrow> list_all (cluster_ok s) cs \<and> (os = [] \<longrightarrow> all_edits cs = mset es)"
proof (induction es arbitrary: previous cs os)
  case (Cons e es)
  show ?case
  proof (cases "\<not> edit_valid s e \<or> (case previous of None \<Rightarrow> False | Some p \<Rightarrow> ped_start e < p)")
    case True
    with Cons.prems Cons.IH [of previous] show ?thesis by (auto simp: Let_def split: prod.splits)
  next
    case False
    then have v: "edit_valid s e" by simp
    obtain cs1 os1 where r: "gather path s es (Some (ped_end e)) = (cs1, os1)" by fastforce
    note ih = Cons.IH [OF r]
    show ?thesis
    proof (cases "edit_context s (ped_start e) (ped_end e)")
      case None
      with Cons.prems False r ih show ?thesis by (auto simp: Let_def)
    next
      case (Some w)
      obtain a b where w: "w = (a, b)" by (cases w)
      have "cluster_ok s \<lparr>clu_start = a, clu_end = b, clu_edits = [e]\<rparr>"
        using context_window [OF assms Some [unfolded w]] edit_context_Some [OF Some [unfolded w]] v
        by (simp add: cluster_ok_def edit_valid_def)
      with Cons.prems False r ih Some w show ?thesis by (auto simp: Let_def)
    qed
  qed
qed simp

text \<open>Merging: strictly separated windows that keep every edit.\<close>

lemma merge_clusters_ok:
  assumes "list_all (cluster_ok s) acc" "list_all (cluster_ok s) cs" "sorted_wrt (\<lambda>x y. clu_end y < clu_start x) acc"
    "sorted_wrt (\<lambda>x y. clu_start x \<le> clu_start y) cs" "\<forall>x \<in> set acc. \<forall>y \<in> set cs. clu_start x \<le> clu_start y"
    "merge_clusters acc cs any = (ms, any')"
  shows "list_all (cluster_ok s) ms \<and> sorted_wrt (\<lambda>x y. clu_end x < clu_start y) ms \<and> all_edits ms = all_edits acc + all_edits cs"
  using assms
proof (induction acc cs any rule: merge_clusters.induct)
  case (1 acc any)
  then show ?case by (auto simp: list_all_iff sorted_wrt_rev)
next
  case (2 c cs any)
  then show ?case by auto
next
  case (3 l acc c cs any)
  have lc: "clu_start l \<le> clu_start c" using "3.prems"(5) by simp
  have ok: "cluster_ok s l" "cluster_ok s c" using "3.prems"(1,2) by simp_all
  show ?case
  proof (cases "clu_start c \<le> clu_end l")
    case True
    let ?l = "l\<lparr>clu_end := max (clu_end l) (clu_end c), clu_edits := clu_edits l @ clu_edits c\<rparr>"
    have len: "clu_end l \<le> length s" "clu_end c \<le> length s" using ok by (auto simp: cluster_ok_def line_window_def unique_at_def)
    have "unique_at s (clu_start l) (max (clu_end l) (clu_end c))"
      by (rule unique_wider [of s "clu_start l" "clu_end l"]) (use ok len in \<open>auto simp: cluster_ok_def line_window_def\<close>)
    then have "cluster_ok s ?l" using ok lc by (auto simp: cluster_ok_def line_window_def max_def)
    then have "list_all (cluster_ok s) (?l # acc)" using "3.prems"(1) by simp
    from "3.IH"(1) [OF True this] "3.prems" True show ?thesis by auto
  next
    case False
    have "clu_end x < clu_start c" if "x \<in> set acc" for x
    proof -
      have "clu_end x < clu_start l" using "3.prems"(3) that by simp
      also have "\<dots> \<le> clu_start c" by (rule lc)
      finally show ?thesis .
    qed
    with False have "sorted_wrt (\<lambda>x y. clu_end y < clu_start x) (c # l # acc)" using "3.prems"(3) by auto
    from "3.IH"(2) [OF False _ _ this] "3.prems" False show ?thesis by auto
  qed
qed

lemma expand_cluster_ok:
  assumes "cluster_ok s c"
  shows "cluster_ok s (expand_cluster s c) \<and> clu_start (expand_cluster s c) = clu_start c \<and> clu_edits (expand_cluster s c) = clu_edits c \<and>
    (\<forall>k \<in> set (line_starts s). clu_end c < k \<longrightarrow> clu_end (expand_cluster s c) \<le> k)"
proof (cases "edit_context s (clu_start c) (clu_end c)")
  case None
  with assms show ?thesis by (simp add: expand_cluster_def)
next
  case (Some w)
  obtain a b where w: "w = (a, b)" by (cases w)
  from expand_window [of s "clu_start c" "clu_end c" a b] assms Some w
  have "a = clu_start c" "clu_end c \<le> b" "\<forall>k \<in> set (line_starts s). clu_end c < k \<longrightarrow> b \<le> k" "line_window s a b"
    by (auto simp: cluster_ok_def)
  with assms Some w show ?thesis by (fastforce simp: expand_cluster_def cluster_ok_def)
qed

definition windows_apart :: "cluster list \<Rightarrow> bool" where
  "windows_apart cs \<longleftrightarrow> sorted_wrt (\<lambda>x y. clu_end x \<le> clu_start y) cs"

lemma expand_apart:
  "list_all (cluster_ok s) cs \<Longrightarrow> sorted_wrt (\<lambda>x y. clu_end x < clu_start y) cs \<Longrightarrow> windows_apart (map (expand_cluster s) cs)"
proof (induction cs)
  case (Cons c cs)
  have "clu_end (expand_cluster s c) \<le> clu_start (expand_cluster s y)" if "y \<in> set cs" for y
  proof -
    have y: "cluster_ok s y" "clu_end c < clu_start y" using Cons.prems that by (auto simp: list_all_iff)
    then have "clu_start y \<in> set (line_starts s)" by (simp add: cluster_ok_def line_window_def)
    with expand_cluster_ok [of s c] expand_cluster_ok [OF y(1)] Cons.prems(1) y(2) show ?thesis by auto
  qed
  with Cons show ?case by (auto simp: windows_apart_def)
qed (simp add: windows_apart_def)

text \<open>Whatever round ends the loop, its windows are apart and hold every edit.\<close>

lemma round_ok:
  assumes "list_all (cluster_ok s) cs" "merge_clusters [] (sort_key clu_start cs) False = (ms, any)"
  shows "list_all (cluster_ok s) (map (expand_cluster s) ms) \<and> windows_apart (map (expand_cluster s) ms) \<and>
    all_edits (map (expand_cluster s) ms) = all_edits cs"
proof -
  have ok: "list_all (cluster_ok s) (sort_key clu_start cs)" using assms(1) by (simp add: list_all_iff)
  have "sorted_wrt (\<lambda>x y. clu_start x \<le> clu_start y) (sort_key clu_start cs)"
    using sorted_sort_key [of clu_start cs] by (simp add: sorted_wrt_map)
  from merge_clusters_ok [OF _ ok _ this _ assms(2)]
  have m: "list_all (cluster_ok s) ms" "sorted_wrt (\<lambda>x y. clu_end x < clu_start y) ms" "all_edits ms = all_edits (sort_key clu_start cs)"
    by simp_all
  have "all_edits (map (expand_cluster s) ms) = all_edits ms"
    using m(1) by (induction ms) (auto simp: expand_cluster_ok)
  moreover have "all_edits (sort_key clu_start cs) = all_edits cs" by (rule all_edits_mset) simp
  moreover have "list_all (cluster_ok s) (map (expand_cluster s) ms)" using m(1) expand_cluster_ok by (auto simp: list_all_iff)
  ultimately show ?thesis using expand_apart [OF m(1,2)] m(3) by simp
qed

lemma settle_clusters_ok:
  "list_all (cluster_ok s) cs \<Longrightarrow>
     list_all (cluster_ok s) (settle_clusters s (Suc n) cs) \<and> windows_apart (settle_clusters s (Suc n) cs) \<and>
     all_edits (settle_clusters s (Suc n) cs) = all_edits cs"
proof (induction n arbitrary: cs)
  case 0
  obtain ms any where m: "merge_clusters [] (sort_key clu_start cs) False = (ms, any)" by fastforce
  from round_ok [OF 0 m] m show ?case by (simp add: Let_def)
next
  case (Suc n)
  obtain ms any where m: "merge_clusters [] (sort_key clu_start cs) False = (ms, any)" by fastforce
  note r = round_ok [OF Suc.prems m]
  have "settle_clusters s (Suc (Suc n)) cs = map (expand_cluster s) ms \<or>
      settle_clusters s (Suc (Suc n)) cs = settle_clusters s (Suc n) (map (expand_cluster s) ms)"
    by (subst (1 2) settle_clusters.simps(2)) (simp add: m Let_def del: settle_clusters.simps)
  then show ?case
  proof
    assume "settle_clusters s (Suc (Suc n)) cs = map (expand_cluster s) ms"
    with r show ?thesis by (simp only:)
  next
    assume "settle_clusters s (Suc (Suc n)) cs = settle_clusters s (Suc n) (map (expand_cluster s) ms)"
    with r Suc.IH [of "map (expand_cluster s) ms"] show ?thesis by (simp only:)
  qed
qed

section \<open>Patches\<close>

definition range_of_edit :: "planned_edit \<Rightarrow> nat \<times> nat \<times> string" where
  "range_of_edit e = (ped_start e, ped_end e, ped_text e)"

text \<open>Ranges in order between two positions.\<close>

fun ranges_in :: "nat \<Rightarrow> nat \<Rightarrow> (nat \<times> nat \<times> string) list \<Rightarrow> bool" where
  "ranges_in lo hi [] \<longleftrightarrow> lo \<le> hi"
| "ranges_in lo hi ((a, b, r) # es) \<longleftrightarrow> lo \<le> a \<and> a \<le> b \<and> ranges_in b hi es"

lemma ranges_in_le: "ranges_in lo hi es \<Longrightarrow> lo \<le> hi"
  by (induction lo hi es rule: ranges_in.induct) auto

lemma ranges_in_lower: "ranges_in lo hi es \<Longrightarrow> k \<le> lo \<Longrightarrow> ranges_in k hi es"
  by (induction lo hi es rule: ranges_in.induct) auto

lemma ranges_in_append: "ranges_in lo m es \<Longrightarrow> ranges_in m hi fs \<Longrightarrow> ranges_in lo hi (es @ fs)"
  by (induction lo m es rule: ranges_in.induct) (auto intro: ranges_in_lower)

lemma slice_append: "a \<le> m \<Longrightarrow> m \<le> b \<Longrightarrow> byte_slice s a m @ byte_slice s m b = byte_slice s a b"
proof -
  assume "a \<le> m" "m \<le> b"
  have "take (m - a + (b - m)) (drop a s) = take (m - a) (drop a s) @ take (b - m) (drop (m - a) (drop a s))" by (rule take_add)
  with \<open>a \<le> m\<close> \<open>m \<le> b\<close> show ?thesis by (simp add: byte_slice_def)
qed

lemma splice_split:
  "ranges_in k m es \<Longrightarrow> ranges_in m hi fs \<Longrightarrow> splice_edits k (es @ fs) hi s = splice_edits k es m s @ splice_edits m fs hi s"
proof (induction k es m s rule: splice_edits.induct)
  case (1 k m s)
  show ?case
  proof (cases fs)
    case Nil
    with 1 show ?thesis by (simp add: slice_append)
  next
    case (Cons f fs')
    obtain a b r where f: "f = (a, b, r)" by (cases f)
    with 1 Cons show ?thesis by (simp add: slice_append [symmetric, of k m a] flip: append_assoc)
  qed
next
  case (2 k a b r es m s)
  then show ?case by simp
qed

lemma line_boundary:
  assumes "from_utf8_ok s" "a \<in> set (line_starts s) \<or> a = length s"
  shows "is_char_boundary s a"
  using assms line_start_lead [OF assms(1), of a] line_starts_bound [of a s] by (auto simp: is_char_boundary_def)

lemma unwrap_slice_bytes:
  "is_char_boundary s a \<Longrightarrow> is_char_boundary s b \<Longrightarrow> a \<le> b \<Longrightarrow> b \<le> length s \<Longrightarrow> unwrap_slice s a b = byte_slice s a b"
  by (simp add: unwrap_slice_def get_slice_def slice_def byte_slice_def)

lemma rewrite_window_splice:
  "rewrite_window s cursor stop es = Some t \<Longrightarrow> \<forall>e \<in> set es. edit_valid s e \<Longrightarrow> is_char_boundary s cursor \<Longrightarrow> is_char_boundary s stop \<Longrightarrow>
     cursor \<le> stop \<Longrightarrow> stop \<le> length s \<Longrightarrow>
     t = splice_edits cursor (map range_of_edit es) stop s \<and> ranges_in cursor stop (map range_of_edit es)"
proof (induction es arbitrary: cursor t)
  case Nil
  then show ?case by (simp add: unwrap_slice_bytes)
next
  case (Cons e es)
  from Cons.prems(1) obtain u where u: "rewrite_window s (ped_end e) stop es = Some u" "\<not> ped_start e < cursor" "\<not> stop < ped_end e"
    and t: "t = unwrap_slice s cursor (ped_start e) @ ped_text e @ u" by (auto split: if_splits)
  have v: "edit_valid s e" using Cons.prems(2) by simp
  from Cons.IH [OF u(1)] Cons.prems(2,4,6) v u(3)
  have "u = splice_edits (ped_end e) (map range_of_edit es) stop s" "ranges_in (ped_end e) stop (map range_of_edit es)"
    by (simp_all add: edit_valid_def)
  moreover have "unwrap_slice s cursor (ped_start e) = byte_slice s cursor (ped_start e)"
    using Cons.prems(3) v u(2) by (intro unwrap_slice_bytes) (auto simp: edit_valid_def)
  ultimately show ?case using t u(2) v by (simp add: range_of_edit_def [of e] edit_valid_def)
qed

text \<open>The patch of one window.\<close>

definition window_patch :: "string \<Rightarrow> string \<Rightarrow> nat \<times> nat \<times> string \<Rightarrow> patch_input" where
  "window_patch path s w = (case w of (a, b, new) \<Rightarrow> \<lparr>pi_file = path, pi_old_string = byte_slice s a b, pi_new_string = new\<rparr>)"

lemma patch_cluster_ok:
  assumes "from_utf8_ok s" "cluster_ok s c" "patch_cluster path s c = (ps, os)"
  shows "(os \<noteq> [] \<and> ps = []) \<or>
    (os = [] \<and> (\<exists>new es. ps = [window_patch path s (clu_start c, clu_end c, new)] \<and> mset es = mset (clu_edits c) \<and>
       new = splice_edits (clu_start c) (map range_of_edit es) (clu_end c) s \<and> ranges_in (clu_start c) (clu_end c) (map range_of_edit es)))"
proof (cases "rewrite_window s (clu_start c) (clu_end c) (sort_key ped_start (clu_edits c))")
  case None
  with assms(3) show ?thesis by (auto simp: patch_cluster_def Let_def)
next
  case (Some new)
  have w: "clu_start c < clu_end c" "clu_end c \<le> length s" "is_char_boundary s (clu_start c)" "is_char_boundary s (clu_end c)"
    using assms(2) line_boundary [OF assms(1)] by (auto simp: cluster_ok_def line_window_def unique_at_def)
  then have "get_slice s (clu_start c) (clu_end c) = Some (byte_slice s (clu_start c) (clu_end c))"
    by (simp add: get_slice_def slice_def byte_slice_def)
  with Some assms(3) have "os = []" "ps = [window_patch path s (clu_start c, clu_end c, new)]"
    by (auto simp: patch_cluster_def window_patch_def Let_def)
  moreover from rewrite_window_splice [OF Some] w assms(2)
  have "new = splice_edits (clu_start c) (map range_of_edit (sort_key ped_start (clu_edits c))) (clu_end c) s"
    "ranges_in (clu_start c) (clu_end c) (map range_of_edit (sort_key ped_start (clu_edits c)))"
    by (auto simp: cluster_ok_def)
  moreover have "mset (sort_key ped_start (clu_edits c)) = mset (clu_edits c)" by simp
  ultimately show ?thesis by blast
qed

lemma splice_lower: "lo \<le> k \<Longrightarrow> ranges_in k m es \<Longrightarrow> splice_edits lo es m s = byte_slice s lo k @ splice_edits k es m s"
  using splice_split [of lo k "[]" m es s] by simp

text \<open>All windows of a file: in order, each occurring once, and together the edits of the file at once.\<close>

definition windows_realize :: "string \<Rightarrow> nat \<Rightarrow> (nat \<times> nat \<times> string) list \<Rightarrow> planned_edit multiset \<Rightarrow> bool" where
  "windows_realize s lo ws edits \<longleftrightarrow>
     (\<exists>es. mset es = edits \<and> ranges_in lo (length s) (map range_of_edit es) \<and>
        splice_edits lo ws (length s) s = splice_edits lo (map range_of_edit es) (length s) s)"

lemma cluster_patches:
  assumes "from_utf8_ok s"
  shows "list_all (cluster_ok s) cs \<Longrightarrow> windows_apart cs \<Longrightarrow> \<forall>c \<in> set cs. lo \<le> clu_start c \<Longrightarrow> lo \<le> length s \<Longrightarrow>
    \<exists>ws. concat (map fst (map (patch_cluster path s) cs)) = map (window_patch path s) ws \<and> ranges_in lo (length s) ws \<and>
      list_all (\<lambda>(a, b, new). unique_at s a b) ws \<and>
      (concat (map snd (map (patch_cluster path s) cs)) = [] \<longrightarrow> windows_realize s lo ws (all_edits cs))"
proof (induction cs arbitrary: lo)
  case Nil
  then show ?case by (intro exI [of _ "[]"]) (simp add: windows_realize_def)
next
  case (Cons c cs)
  have ok: "cluster_ok s c" and lo: "lo \<le> clu_start c" using Cons.prems by simp_all
  then have c: "clu_start c < clu_end c" "clu_end c \<le> length s" "unique_at s (clu_start c) (clu_end c)"
    by (auto simp: cluster_ok_def line_window_def unique_at_def)
  obtain ps os where r: "patch_cluster path s c = (ps, os)" by fastforce
  have "windows_apart cs" "\<forall>d \<in> set cs. clu_end c \<le> clu_start d" using Cons.prems(2) by (auto simp: windows_apart_def)
  with Cons.IH [of "clu_end c"] Cons.prems(1) c(2) obtain ws where
    ws: "concat (map fst (map (patch_cluster path s) cs)) = map (window_patch path s) ws" "ranges_in (clu_end c) (length s) ws"
      "list_all (\<lambda>(a, b, new). unique_at s a b) ws"
      "concat (map snd (map (patch_cluster path s) cs)) = [] \<longrightarrow> windows_realize s (clu_end c) ws (all_edits cs)"
    by auto
  from patch_cluster_ok [OF assms ok r] show ?case
  proof (elim disjE conjE exE)
    assume "os \<noteq> []" "ps = []"
    with ws r ranges_in_lower [OF ws(2), of lo] lo c(1) show ?thesis by (intro exI [of _ ws]) simp
  next
    fix new es
    let ?a = "clu_start c" and ?b = "clu_end c"
    assume "os = []" and ps: "ps = [window_patch path s (?a, ?b, new)]" and es: "mset es = mset (clu_edits c)"
      and new: "new = splice_edits ?a (map range_of_edit es) ?b s" and in_c: "ranges_in ?a ?b (map range_of_edit es)"
    have "windows_realize s lo ((?a, ?b, new) # ws) (all_edits (c # cs))" if q: "windows_realize s ?b ws (all_edits cs)"
    proof -
      from q obtain fs where fs: "mset fs = all_edits cs" "ranges_in ?b (length s) (map range_of_edit fs)"
        "splice_edits ?b ws (length s) s = splice_edits ?b (map range_of_edit fs) (length s) s"
        unfolding windows_realize_def by blast
      have low: "ranges_in lo ?b (map range_of_edit es)" by (rule ranges_in_lower [OF in_c lo])
      have "splice_edits lo (map range_of_edit (es @ fs)) (length s) s =
          splice_edits lo (map range_of_edit es) ?b s @ splice_edits ?b (map range_of_edit fs) (length s) s"
        using splice_split [OF low fs(2), of s] by simp
      also have "\<dots> = splice_edits lo ((?a, ?b, new) # ws) (length s) s"
        using splice_lower [OF lo in_c, of s] fs(3) by (simp add: new)
      finally have "splice_edits lo ((?a, ?b, new) # ws) (length s) s = splice_edits lo (map range_of_edit (es @ fs)) (length s) s" ..
      moreover have "ranges_in lo (length s) (map range_of_edit (es @ fs))" using ranges_in_append [OF low fs(2)] by simp
      moreover have "mset (es @ fs) = all_edits (c # cs)" using es fs(1) by simp
      ultimately show ?thesis unfolding windows_realize_def by blast
    qed
    with ws r ps \<open>os = []\<close> lo c show ?thesis by (intro exI [of _ "(?a, ?b, new) # ws"]) simp
  qed
qed

lemma compose_file_ok:
  assumes "from_utf8_ok s" "pev_read env path = Some s" "compose_file env path es = (ps, os)"
  shows "\<exists>ws. ps = map (window_patch path s) ws \<and> ranges_in 0 (length s) ws \<and> list_all (\<lambda>(a, b, new). unique_at s a b) ws \<and>
    (os = [] \<longrightarrow> windows_realize s 0 ws (mset es))"
proof -
  obtain cs os1 where g: "gather path s (sort_key ped_start (sort_key ped_end es)) None = (cs, os1)" by fastforce
  note ok = gather_ok [OF assms(1) g]
  show ?thesis
  proof (cases "os1 \<noteq> [] \<and> cs = []")
    case True
    with assms(2,3) g show ?thesis by (intro exI [of _ "[]"]) (auto simp: compose_file_def)
  next
    case False
    define ds where "ds = settle_clusters s (Suc (max (length cs) 1)) cs"
    have d: "list_all (cluster_ok s) ds" "windows_apart ds" "all_edits ds = all_edits cs"
      using settle_clusters_ok [of s cs "max (length cs) 1"] ok unfolding ds_def by blast+
    have p: "ps = concat (map fst (map (patch_cluster path s) ds))" "os = os1 @ concat (map snd (map (patch_cluster path s) ds))"
      using assms(2,3) g False unfolding compose_file_def ds_def by (auto simp: Let_def simp del: settle_clusters.simps)
    from cluster_patches [OF assms(1) d(1,2), of 0 path] ok d(3) show ?thesis unfolding p by auto
  qed
qed

lemma edits_of_files_get:
  "bt_wf (edits_of_files edits) \<and>
   bt_get (edits_of_files edits) path =
     (let es = filter (\<lambda>e. ped_file e = path) (take MAX_MIGRATION_EDITS edits) in if es = [] then None else Some es)"
proof -
  have "bt_wf m \<Longrightarrow> bt_wf (fold (\<lambda>e m. bt_insert (ped_file e) ((case bt_get m (ped_file e) of None \<Rightarrow> [] | Some es \<Rightarrow> es) @ [e]) m) es m) \<and>
      bt_get (fold (\<lambda>e m. bt_insert (ped_file e) ((case bt_get m (ped_file e) of None \<Rightarrow> [] | Some es \<Rightarrow> es) @ [e]) m) es m) path =
        (let fs = (case bt_get m path of None \<Rightarrow> [] | Some es \<Rightarrow> es) @ filter (\<lambda>e. ped_file e = path) es
         in if fs = [] then bt_get m path else Some fs)" for m :: "(string, planned_edit list) btree_map" and es
  proof (induction es arbitrary: m)
    case Nil
    then show ?case by (auto simp: Let_def split: option.splits)
  next
    case (Cons e es)
    then show ?case by (auto simp: Let_def bt_get_insert bt_wf_insert split: option.splits)
  qed
  from this [of "[]" "take MAX_MIGRATION_EDITS edits"] show ?thesis by (simp add: edits_of_files_def Let_def)
qed

lemma compose_file_path: "p \<in> set (fst (compose_file env path es)) \<Longrightarrow> pi_file p = path"
  by (auto simp: compose_file_def patch_cluster_def Let_def split: option.splits prod.splits if_splits)

lemma patches_of_path:
  assumes "bt_wf m"
  shows "filter (\<lambda>p. pi_file p = path) (concat (map (\<lambda>(k, es). fst (compose_file env k es)) m)) =
    (case bt_get m path of None \<Rightarrow> [] | Some es \<Rightarrow> fst (compose_file env path es))"
  using assms
proof (induction m)
  case (Cons x m)
  obtain k es where x: "x = (k, es)" by (cases x)
  have mine: "filter (\<lambda>p. pi_file p = path) (fst (compose_file env k es)) = (if k = path then fst (compose_file env k es) else [])"
    using compose_file_path [of _ env k es] by (auto simp: filter_id_conv filter_empty_conv)
  have "bt_get m k = None" using Cons.prems x by (auto simp: bt_get_None_iff)
  with Cons x mine show ?case by auto
qed simp

text \<open>
  C23: The patches composed from a plan, per file: their old strings are windows of the file that do not overlap and each
  of which occurs nowhere else in it, so the host finds every one and in any order. When composing reports no
  obligation, replacing the windows gives the file with all its planned edits made at once, in the order of their
  positions.
\<close>

theorem composed_patches_realize_edits:
  assumes "texts_ok env" and "compose_patches env edits = (patches, os)" and "pev_read env path = Some s"
  shows "\<exists>ws. filter (\<lambda>p. pi_file p = path) patches = map (window_patch path s) ws \<and> ranges_in 0 (length s) ws \<and>
    list_all (\<lambda>(a, b, new). unique_at s a b) ws \<and>
    (os = [] \<longrightarrow> windows_realize s 0 ws (mset (filter (\<lambda>e. ped_file e = path) (take MAX_MIGRATION_EDITS edits))))"
proof -
  let ?m = "edits_of_files edits" and ?es = "filter (\<lambda>e. ped_file e = path) (take MAX_MIGRATION_EDITS edits)"
  have utf8: "from_utf8_ok s" using assms(1,3) by (auto simp: texts_ok_def)
  have p: "patches = concat (map (\<lambda>(k, es). fst (compose_file env k es)) ?m)" "os = concat (map (\<lambda>(k, es). snd (compose_file env k es)) ?m)"
    using assms(2) by (auto simp: compose_patches_def Let_def comp_def case_prod_unfold)
  note get = edits_of_files_get [of edits path]
  show ?thesis
  proof (cases "?es = []")
    case True
    then have "filter (\<lambda>p. pi_file p = path) patches = []" using get patches_of_path [of ?m path env] p(1) by simp
    moreover have "windows_realize s 0 [] (mset ?es)" unfolding True windows_realize_def by (intro exI [of _ "[]"]) simp
    ultimately show ?thesis by (intro exI [of _ "[]"]) simp
  next
    case False
    then have g: "bt_get ?m path = Some ?es" using get by (simp add: Let_def)
    then have "filter (\<lambda>p. pi_file p = path) patches = fst (compose_file env path ?es)" using get patches_of_path [of ?m path env] p(1) by simp
    moreover have "snd (compose_file env path ?es) = []" if "os = []"
      using that bt_get_in [OF g] unfolding p(2) by auto
    moreover obtain ps os' where c: "compose_file env path ?es = (ps, os')" by fastforce
    ultimately show ?thesis using compose_file_ok [OF utf8 assms(3) c] by auto
  qed
qed

end
