(* ===== verification/Migrate_Scenario.thy ===== *)
theory Migrate_Scenario
  imports Compose_Properties "HOL-Library.Code_Target_Nat"
begin

text \<open>
  One library file with a function, a nested call of it and a re-export, migrated to a second parameter: the plan,
  its patches, and what the scan of a parameter list makes of a function type inside angle brackets.
\<close>

section \<open>The candidate\<close>

definition demo_file :: string where
  "demo_file = ''fn f(x: u8) {}'' @ [CHR 0x0A] @ ''fn g() { f(f(1)) }'' @ [CHR 0x0A]"

definition demo_unicode :: unicode where
  "demo_unicode = \<lparr>uni_alphabetic = (\<lambda>_. False), uni_alphanumeric = (\<lambda>_. False)\<rparr>"

definition sample_plan_env :: plan_env where
  "sample_plan_env =
     \<lparr>pev_unicode = demo_unicode, pev_read = (\<lambda>path. if path = ''lib.rs'' then Some demo_file else None),
      pev_package_name = (\<lambda>_. None)\<rparr>"

definition demo_site :: "nat \<Rightarrow> nat \<Rightarrow> analyzed_site" where
  "demo_site line column =
     \<lparr>asi_file = ''lib.rs'', asi_start_line = line, asi_start_character = column, asi_end_line = line,
      asi_end_character = column + 1, asi_identity = Some True\<rparr>"

definition demo_analysis :: anchor_analysis where
  "demo_analysis =
     \<lparr>ana_definition = demo_site 0 3, ana_implementations = [], ana_references = [demo_site 1 9, demo_site 1 11],
      ana_references_total = 2, ana_implementations_total = 0, ana_identity_checks = 2, ana_signature = None, ana_notes = []\<rparr>"

definition migrate_sample :: migrate_request where
  "migrate_sample =
     \<lparr>mr_anchor = \<lparr>ma_file = ''lib.rs'', ma_symbol = ''f'', ma_line = None\<rparr>,
      mr_transformation = \<lparr>mti_kind = AddParameter, mti_parameter = ''y: u8'', mti_argument = ''0'', mti_position = None\<rparr>,
      mr_consumer_scope = None,
      mr_constraints = \<lparr>mc_max_references = None, mc_max_edits = None, mc_max_identity_checks = None\<rparr>\<rparr>"

definition demo_plan :: migration_plan where
  "demo_plan = plan_migration sample_plan_env migrate_sample demo_analysis (plan_budget migrate_sample)"

definition demo_token :: "nat \<Rightarrow> nat \<Rightarrow> token_kind \<Rightarrow> nat option \<Rightarrow> token" where
  "demo_token a b kind partner = \<lparr>tok_start = a, tok_end = b, tok_kind = kind, tok_pair = partner\<rparr>"

definition demo_parsed :: parsed_file where
  "demo_parsed =
     \<lparr>psf_tokens =
      [demo_token 0 2 Ident None, demo_token 3 4 Ident None, demo_token 4 5 (Open (CHR ''('')) (Some 6),
       demo_token 5 6 Ident None, demo_token 6 7 (Punct (CHR '':'')) None, demo_token 8 10 Ident None,
       demo_token 10 11 (Close (CHR '')'')) (Some 2), demo_token 12 13 (Open (CHR ''{'')) (Some 8), demo_token 13 14 (Close (CHR ''}'')) (Some 7),
       demo_token 15 17 Ident None, demo_token 18 19 Ident None, demo_token 19 20 (Open (CHR ''('')) (Some 12),
       demo_token 20 21 (Close (CHR '')'')) (Some 11), demo_token 22 23 (Open (CHR ''{'')) (Some 21), demo_token 24 25 Ident None,
       demo_token 25 26 (Open (CHR ''('')) (Some 20), demo_token 26 27 Ident None, demo_token 27 28 (Open (CHR ''('')) (Some 19),
       demo_token 28 29 OtherToken None, demo_token 29 30 (Close (CHR '')'')) (Some 17), demo_token 30 31 (Close (CHR '')'')) (Some 15),
       demo_token 32 33 (Close (CHR ''}'')) (Some 13)],
      psf_balanced = True\<rparr>"

definition demo_goal :: plan_goal where
  "demo_goal =
     \<lparr>pgl_symbol = ''f'', pgl_transformation = mr_transformation migrate_sample, pgl_position = 1, pgl_declared = 1,
      pgl_max_edits = plan_budget migrate_sample\<rparr>"

definition demo_params :: param_list where
  "demo_params = \<lparr>pml_open = 2, pml_close = 6, pml_params = [(5, 10)], pml_receiver = False, pml_fn_token = 0\<rparr>"

definition demo_insert :: "nat \<Rightarrow> string \<Rightarrow> list_edit" where
  "demo_insert i s = \<lparr>led_start = i, led_end = i, led_text = s\<rparr>"

definition demo_edits :: "planned_edit list" where
  "demo_edits =
     [\<lparr>ped_file = ''lib.rs'', ped_start = 10, ped_end = 10, ped_text = '', y: u8'', ped_group = ''definition'', ped_line = 1\<rparr>,
      \<lparr>ped_file = ''lib.rs'', ped_start = 30, ped_end = 30, ped_text = '', 0'', ped_group = ''consumer'', ped_line = 2\<rparr>,
      \<lparr>ped_file = ''lib.rs'', ped_start = 29, ped_end = 29, ped_text = '', 0'', ped_group = ''consumer'', ped_line = 2\<rparr>]"

section \<open>Evaluating the plan\<close>

lemma demo_utf8: "from_utf8_ok demo_file"
  by code_simp

lemma demo_texts: "texts_ok sample_plan_env"
  by (auto simp: texts_ok_def sample_plan_env_def demo_utf8 split: if_splits)

lemma demo_read [simp]: "pev_read sample_plan_env ''lib.rs'' = Some demo_file" "pev_unicode sample_plan_env = demo_unicode"
  by (simp_all add: sample_plan_env_def)

lemma demo_tokenize: "tokenize demo_unicode demo_file = demo_parsed"
  by code_simp

lemma demo_signature:
  "resolve_signature demo_file demo_parsed (demo_site 0 3) ''f'' = Some (1, demo_params)"
  "resolve_position (mr_transformation migrate_sample) 1 = Inr 1" "length (params_explicit demo_params) = 1"
  "signature_edit demo_parsed demo_params (mr_transformation migrate_sample) 1 = Some (demo_insert 10 '', y: u8'')"
  by code_simp+

lemma demo_sites:
  "find_site_token demo_file demo_parsed (demo_site 1 9) ''f'' = Some 14"
  "find_site_token demo_file demo_parsed (demo_site 1 11) ''f'' = Some 16"
  "start_offset demo_file (demo_site 1 9) = Some 24" "start_offset demo_file (demo_site 1 11) = Some 26"
  "use_context demo_file demo_parsed 24 = None" "use_context demo_file demo_parsed 26 = None"
  "inside_macro (psf_tokens demo_parsed) 24 = False" "inside_macro (psf_tokens demo_parsed) 26 = False"
  "call_shape demo_parsed 14 = Some (ShapeCall 15 20)" "call_shape demo_parsed 16 = Some (ShapeCall 17 19)"
  by code_simp+

lemma demo_calls:
  "plan_call demo_file demo_parsed demo_goal (demo_site 1 9) 15 20 = CallEdit (demo_insert 30 '', 0'')"
  "plan_call demo_file demo_parsed demo_goal (demo_site 1 11) 17 19 = CallEdit (demo_insert 29 '', 0'')"
  by code_simp+

lemma demo_starts: "tok_start (psf_tokens demo_parsed ! 14) = 24" "tok_start (psf_tokens demo_parsed ! 16) = 26"
  by code_simp+

lemma demo_site_sel [simp]:
  "asi_file (demo_site i j) = ''lib.rs''" "asi_identity (demo_site i j) = Some True" "asi_start_line (demo_site i j) = i"
  by (simp_all add: demo_site_def)

lemma demo_goal_sel [simp]: "pgl_symbol demo_goal = ''f''" "pgl_max_edits demo_goal = 512"
  by (simp_all add: demo_goal_def plan_budget_def migrate_sample_def MAX_MIGRATION_EDITS_def)

definition demo_call :: "nat \<Rightarrow> planned_edit" where
  "demo_call i = \<lparr>ped_file = ''lib.rs'', ped_start = i, ped_end = i, ped_text = '', 0'', ped_group = ''consumer'', ped_line = 2\<rparr>"

lemmas demo_steps = push_edit_def push_hint_def push_package_def count_consumer_def demo_insert_def demo_call_def

lemma demo_references:
  assumes "length (plw_edits w) < 512"
  shows "plw_edits (plan_reference sample_plan_env demo_goal (demo_site 1 9) w) = plw_edits w @ [demo_call 30]"
    "plw_edits (plan_reference sample_plan_env demo_goal (demo_site 1 11) w) = plw_edits w @ [demo_call 29]"
    "plw_obligations (plan_reference sample_plan_env demo_goal (demo_site 1 9) w) = plw_obligations w"
    "plw_obligations (plan_reference sample_plan_env demo_goal (demo_site 1 11) w) = plw_obligations w"
    "plw_omitted (plan_reference sample_plan_env demo_goal (demo_site 1 9) w) = plw_omitted w"
    "plw_omitted (plan_reference sample_plan_env demo_goal (demo_site 1 11) w) = plw_omitted w"
  using assms
  by (simp_all add: plan_reference_def plan_site_def Let_def demo_tokenize demo_sites demo_starts demo_calls demo_steps
      del: One_nat_def split: option.split)

lemma demo_planned:
  "mpl_edits demo_plan = demo_edits" "mrd_complete (mpl_report demo_plan)" "mpl_refused demo_plan = None"
proof -
  let ?w = "first_work sample_plan_env demo_analysis (feature_scope demo_file 0) (demo_insert 10 '', y: u8'')"
  have goal: "demo_goal = \<lparr>pgl_symbol = ''f'', pgl_transformation = mr_transformation migrate_sample, pgl_position = 1, pgl_declared = 1,
      pgl_max_edits = plan_budget migrate_sample\<rparr>"
    by (simp add: demo_goal_def)
  have d: "ana_definition demo_analysis = demo_site 0 3" "ma_symbol (mr_anchor migrate_sample) = ''f''"
    by (simp_all add: demo_analysis_def migrate_sample_def)
  have w: "plw_edits ?w = [hd demo_edits]" "plw_obligations ?w = []" "plw_omitted ?w = 0"
    by (simp_all add: first_work_def Let_def d demo_steps demo_edits_def split: option.split)
  have sites: "plan_sites sample_plan_env demo_goal demo_analysis ?w =
      plan_reference sample_plan_env demo_goal (demo_site 1 11) (plan_reference sample_plan_env demo_goal (demo_site 1 9) ?w)"
    by (simp add: plan_sites_def demo_analysis_def)
  have all: "plw_edits (plan_sites sample_plan_env demo_goal demo_analysis ?w) = demo_edits"
    "plw_obligations (plan_sites sample_plan_env demo_goal demo_analysis ?w) = []" "plw_omitted (plan_sites sample_plan_env demo_goal demo_analysis ?w) = 0"
    unfolding sites by (simp_all add: demo_references w demo_edits_def demo_call_def del: One_nat_def)
  have plan: "demo_plan =
      \<lparr>mpl_report = finish_report migrate_sample demo_analysis demo_goal
         (api_diff_of sample_plan_env demo_analysis demo_file demo_parsed 1 demo_params (demo_insert 10 '', y: u8'')) (feature_scope demo_file 0)
         (plan_sites sample_plan_env demo_goal demo_analysis ?w),
       mpl_edits = plw_edits (plan_sites sample_plan_env demo_goal demo_analysis ?w), mpl_refused = None\<rparr>"
    unfolding demo_plan_def plan_migration_def by (simp add: Let_def d demo_tokenize demo_signature goal del: One_nat_def)
  show "mpl_edits demo_plan = demo_edits" "mpl_refused demo_plan = None" by (simp_all add: plan all)
  have "ana_references_total demo_analysis - length (ana_references demo_analysis) = 0" by code_simp
  then show "mrd_complete (mpl_report demo_plan)" by (simp add: plan finish_report_def Let_def all budget_of_def)
qed

definition demo_patch :: patch_input where
  "demo_patch =
     \<lparr>pi_file = ''lib.rs'', pi_old_string = demo_file,
      pi_new_string = ''fn f(x: u8, y: u8) {}'' @ [CHR 0x0A] @ ''fn g() { f(f(1, 0), 0) }'' @ [CHR 0x0A]\<rparr>"

lemma demo_patches: "compose_patches sample_plan_env demo_edits = ([demo_patch], [])"
  by code_simp

text \<open>
  The commas of a generic argument list end a parameter when a function type stands before them: \<open>split_top_level\<close>
  takes the second character of an arrow for a closing angle bracket, and the one parameter \<open>x\<close> counts as two.
\<close>

lemma arrow_splits_a_parameter:
  "map_option pml_params (signature_params ''fn f(x: A<fn() -> u8, B>) {}'' (tokenize demo_unicode ''fn f(x: A<fn() -> u8, B>) {}'') 1) =
     Some [(5, 20), (22, 24)] \<and>
   map_option pml_params (signature_params ''fn f(x: A<u8, B>) {}'' (tokenize demo_unicode ''fn f(x: A<u8, B>) {}'') 1) = Some [(5, 16)]"
  by code_simp

section \<open>Instances\<close>

theorem tokenize_lossless_witness:
  "tokens_cover demo_file 0 (psf_tokens demo_parsed) \<and> delimiters_ok demo_parsed \<and> psf_balanced demo_parsed"
  using tokenize_lossless [OF demo_utf8, of demo_unicode] by (simp add: demo_tokenize) (simp add: demo_parsed_def)

theorem planned_edits_stay_in_lists_witness: "edit_in_list sample_plan_env (demo_call 29)"
proof -
  have "demo_call 29 \<in> set (mpl_edits (plan_migration sample_plan_env migrate_sample demo_analysis (plan_budget migrate_sample)))"
    using demo_planned(1) by (simp add: demo_plan_def demo_edits_def demo_call_def)
  from planned_edits_stay_in_lists [OF demo_texts this] show ?thesis .
qed

theorem complete_plan_settles_every_site_witness:
  "\<exists>g. anchor_settled sample_plan_env migrate_sample (demo_site 0 3) g demo_edits \<and>
     reference_settled sample_plan_env g demo_edits (demo_site 1 9) \<and> reference_settled sample_plan_env g demo_edits (demo_site 1 11)"
  using complete_plan_settles_every_site [OF demo_texts demo_plan_def [symmetric] demo_planned(2)]
  by (simp add: demo_planned(1)) (simp add: demo_analysis_def)

theorem composed_patches_realize_edits_witness:
  "\<exists>a b new. demo_patch = window_patch ''lib.rs'' demo_file (a, b, new) \<and> unique_at demo_file a b \<and>
     windows_realize demo_file 0 [(a, b, new)] (mset demo_edits)"
proof -
  have all: "filter (\<lambda>e. ped_file e = ''lib.rs'') (take MAX_MIGRATION_EDITS demo_edits) = demo_edits"
    by (simp add: demo_edits_def MAX_MIGRATION_EDITS_def)
  from composed_patches_realize_edits [OF demo_texts demo_patches demo_read(1)]
  obtain ws where ws: "filter (\<lambda>p. pi_file p = ''lib.rs'') [demo_patch] = map (window_patch ''lib.rs'' demo_file) ws"
      "list_all (\<lambda>(a, b, new). unique_at demo_file a b) ws" "windows_realize demo_file 0 ws (mset demo_edits)"
    unfolding all by blast
  have "[demo_patch] = map (window_patch ''lib.rs'' demo_file) ws" using ws(1) by (simp add: demo_patch_def)
  then obtain w where w: "ws = [w]" "demo_patch = window_patch ''lib.rs'' demo_file w" by auto
  obtain a b new where "w = (a, b, new)" by (cases w)
  with ws w show ?thesis by auto
qed

end
