(* ===== verification/Spec2Isabelle.thy ===== *)
theory Spec2Isabelle
  imports Gate_Command Work_Limits Scheduler_Properties Patch_Validity Package_Graph
    Context_Store Context_Planner Repair_Properties Process_Output Change_Scenario
    Suggestion_Scenario Diagnostic_Scenario Retention_Scenario Migrate_Scenario
begin

text \<open>
  A verification library for \<open>agz-rust-mcp\<close>, a server that lets a coding agent stage, compile and
  validate candidate changes to a Rust workspace without touching the workspace itself.

  \<^bold>\<open>Gate commands.\<close> \<open>gate/types.rs\<close>, \<open>profile.rs\<close>, \<open>selection.rs\<close> and
  \<open>targets.rs\<close> turn a typed request into the argument list of one Cargo command. Theories
  \<open>Gate_Types\<close> and \<open>Gate_Command\<close> model them with arguments as byte strings and each
  \<open>Result\<close> as a sum.

  \<^bold>\<open>Work executor.\<close> \<open>work/model.rs\<close> and \<open>work/service.rs\<close> drive one bounded unit of
  work: capture or adopt a change, stage a candidate of the host, run the acceptance gates, hand back a
  decision package with a single-use token. \<open>Change_Model\<close> and \<open>Work_Model\<close> hold the data,
  \<open>Work_Plan\<close> the free functions, \<open>Work_Record\<close> the record and its store,
  \<open>Work_Service\<close> the four actions cut at their awaits, \<open>Work_Invariants\<close> the invariants of
  each stretch, \<open>Work_System\<close> the interleaving semantics, \<open>Work_Runs\<close> complete requests,
  \<open>Work_Tokens\<close> the single-use argument, \<open>Work_Properties\<close> and \<open>Work_Limits\<close> the remaining
  properties with a concrete run.

  \<^bold>\<open>Gate scheduler.\<close> \<open>gate/scheduler.rs\<close> runs gates at most once per input: submissions join a
  running job, changed input supersedes it, the last subscriber to leave cancels it. \<open>Gate_Scheduler\<close>
  keeps the shared jobs in a heap and states every operation as a function on the scheduler state, with
  the moves of the callers and of the spawned tasks as an inductive relation;
  \<open>Scheduler_Properties\<close> proves the invariant and what follows from it.

  \<^bold>\<open>Candidate patches.\<close> \<open>change/patch.rs\<close> plans search-and-replace patches and new files against
  the candidate tree and writes them through temporary files. \<open>Change_Patch\<close> models both over a map
  from paths to nodes; \<open>Patch_Edits\<close> proves that the replacement loop computes a simultaneous edit,
  \<open>Patch_Properties\<close> the properties of a plan, \<open>Patch_Apply\<close> what writing does on every
  outcome, \<open>Patch_Validity\<close> when it succeeds.

  \<^bold>\<open>Change service.\<close> \<open>change/capture.rs\<close>, \<open>change/store.rs\<close> and \<open>change/service.rs\<close> keep
  candidate copies with a durable record per change. \<open>Change_Capture\<close> models the walk that copies a workspace,
  \<open>Change_Store\<close> the slots on disk, locks, sweep and recovery, \<open>Gate_Evidence\<close> and \<open>Change_Evidence\<close> the
  evidence rows and answers, \<open>Change_Service\<close>, \<open>Change_Actions\<close> and \<open>Change_Create\<close> the actions, with what
  every system call answers as an input. \<open>Change_Slots\<close> and \<open>Change_Steps\<close> state what an action may write as
  the locale \<open>store_action\<close>, \<open>Change_Contract\<close> interprets it for each action, \<open>Change_System\<close> interleaves the
  actions of several processes with crashes and foreign writes, \<open>Change_Staging\<close> and \<open>Change_Properties\<close> hold
  the theorems and \<open>Change_Scenario\<close> a concrete life of one change. Gate runs are kept as a ghost log, so that
  evidence can be traced to the candidate it was earned on. The byte check of a validation and the gate run that
  follows it are one step there, and so are the update of a record by recovery and the removal that goes with it.

  \<^bold>\<open>Package graph.\<close> \<open>workspace/graph.rs\<close> finds the packages affected by changed paths.
  \<open>Package_Graph\<close> models its construction and the work-list traversal and proves the result to be
  the backward closure of the dependency relation.

  \<^bold>\<open>Context capsules.\<close> \<open>context/capsule.rs\<close>, \<open>store.rs\<close> and \<open>planner.rs\<close> hold the
  evidence an agent asks for, bounded in number and in bytes. \<open>Context_Capsule\<close> has the data,
  \<open>Context_Store\<close> the cache and its refinement of a ring, \<open>Context_Planner\<close> the trimming loops,
  their accounting and the potential that bounds them.

  \<^bold>\<open>Repair minimizer.\<close> \<open>repair/minimize.rs\<close> shrinks a failing candidate while a real Cargo run keeps
  showing the same failure. \<open>Repair_Predicate\<close> models which failure is meant and when a run shows it,
  \<open>Repair_Scanner\<close> the Rust item scanner, \<open>Repair_Reduce\<close> the units, their planning and application,
  \<open>Repair_Minimize\<close> the search and its outcomes; \<open>Repair_Applies\<close> shows that planned groups always
  apply, \<open>Repair_Properties\<close> that a reproduced result is sound, minimal for single units and within its budget.
  Cargo runs, clock, cancellation and file writes are fields of a world that is asked at numbered ticks.

  \<^bold>\<open>Process output.\<close> \<open>process/output.rs\<close> turns the byte chunks of a child process into bounded,
  printable text. \<open>Stream_Decoder\<close> models the incremental UTF-8 decoder, \<open>Process_Output\<close> the escape
  stripper, the tail buffers and the collector, and proves the result independent of the chunking.

  \<^bold>\<open>Compiler suggestions.\<close> \<open>diagnostics/suggestions.rs\<close> turns machine-applicable suggestions of
  the compiler into search-and-replace patches. \<open>Suggestion_Package\<close> models the resolution of edits to byte
  ranges, the overlap and stability checks and the patches, with file contents that may differ at every read;
  \<open>Suggestion_Properties\<close> proves that the patches compose to one simultaneous edit, \<open>Suggestion_Scenario\<close>
  evaluates packages and hands their patches to the model of \<open>change/patch.rs\<close>.

  \<^bold>\<open>Diagnostics.\<close> \<open>diagnostics/parser.rs\<close> and \<open>stream.rs\<close> read what Cargo prints, line by line
  or as one text, and \<open>render.rs\<close> and \<open>context.rs\<close> present it. \<open>Diagnostic_Model\<close> has the data,
  \<open>Diagnostic_Parser\<close> the parser, its keys and merging, \<open>Parser_Properties\<close> the type of its results,
  \<open>Diagnostic_Key\<close> what equal keys mean and that merging keeps every finding, \<open>Cargo_Stream\<close> the incremental reader with its limits and
  its independence of chunks, \<open>Diagnostic_Render\<close> the bounded texts and contexts, \<open>Diagnostic_Scenario\<close>
  a concrete output.

  \<^bold>\<open>Cache retention.\<close> \<open>cache/retention.rs\<close> keeps a cache directory within age, size and node
  budgets. \<open>Cache_Retention\<close> models accounting, removal, the two passes and the leases over a tree of nodes, with
  the failing system calls as an input; \<open>Retention_Properties\<close> shows what survives every failure,
  \<open>Retention_Budget\<close> what exactly is evicted without failures, \<open>Retention_Leases\<close> that the counts equal the live
  leases in every order of steps, \<open>Retention_Scenario\<close> a concrete directory.

  \<^bold>\<open>Migration.\<close> \<open>change/migrate/rewrite.rs\<close> and \<open>plan.rs\<close> add or change a parameter of a function and
  rewrite its calls from an analysis of the language server. \<open>Migrate_Tokens\<close> models the token scan,
  \<open>Migrate_Pairs\<close> shows that it covers the text and pairs delimiters without crossing, \<open>Migrate_Rewrite\<close> models
  parameter lists, call shapes and edits of a list, \<open>Migrate_Lists\<close> shows that such an edit stays in its list.
  \<open>Edit_Context\<close> has the positions and unique windows of \<open>tools/edits.rs\<close>. \<open>Migrate_Plan\<close> models
  \<open>plan_migration\<close> with every obligation, budget and field of the report, the three loops as folds over a record
  of what they fill in; \<open>Migrate_Properties\<close> shows where edits lie and what a complete plan means.
  \<open>Migrate_Compose\<close> models \<open>compose_patches\<close> and \<open>Compose_Properties\<close> that its patches amount to all edits at
  once; \<open>Migrate_Scenario\<close> plans one nested call and shows a parameter list that is split wrongly.

  \<^bold>\<open>Shared theories.\<close> \<open>Prelude\<close> models what the code uses of the standard library
  (saturating arithmetic, UTF-8 strings, Unix paths, formatting); \<open>Utf8\<close> has
  the UTF-8 validator and its laws on cut and joined strings; \<open>Btree_Map\<close> states the interface of
  a keyed store as a locale, interprets it on the ordered association list that models
  \<open>BTreeMap\<close>, and proves the eviction lemma the bounded stores use.

  \<^bold>\<open>Parameters.\<close> SHA-256 (crate \<open>sha2\<close>) is a function argument \<open>sha\<close> of which no
  theorem asks anything; where two tokens or contents with one digest would matter, the statement names them. The Unicode table behind
  \<open>char::is_alphanumeric\<close> is the argument \<open>uni\<close>, the manifest reader of
  \<open>is_virtual_workspace\<close> the argument \<open>read\<close>. JSON decoding by \<open>serde\<close> is the argument \<open>from_json\<close> of
  the parser and the fields \<open>sv_value\<close> and \<open>sv_json_len\<close> of the stream's environment. The planner of a migration reads
  candidate files through \<open>pev_read\<close>, package names of manifests (crate \<open>toml\<close>) through \<open>pev_package_name\<close> and the
  Unicode tables through \<open>pev_unicode\<close>; its theorems ask only that files are UTF-8, as a Rust string is. The answers of the change service and the
  readings of the clock are inputs of every step, so no theorem depends on what they are.

  \<^bold>\<open>Bounds.\<close> Nothing runs on fuel: the loops are structural or have a measure, and a work
  request is replayed against a list of answers, of which eight always suffice. Counters are naturals
  with saturation or wrap-around written out.

  \<^bold>\<open>Not modelled.\<close> Poisoned locks, message texts (a datatype value stands for each), the progress
  callback, and interleavings inside one stretch between two awaits. Of the change service, the migrate action
  (which calls the planner above with the analysis of the language server), the runtime snapshots and the JSON form of
  records are left out; the work executor still takes its answers as arbitrary inputs. The process supervisor, the language-server client and the protocol handler are not part of
  the library.
\<close>

end
